(* ===== verification/Prelude.thy ===== *)
theory Prelude
  imports
    Complex_Main
    "HOL-Library.Word"
    "HOL-Library.Sublist"
    "HOL-Library.Multiset"
    "HOL-Library.List_Lexorder"
    "HOL-Library.Char_ord"
begin

text \<open>
  Shared vocabulary of the development: how Go values are represented, the run-time panics as
  values, the functions of Go's \<^verbatim>\<open>strings\<close> and \<^verbatim>\<open>strconv\<close> packages the sources call, and
  the lemma collections the component proofs use.

  \<^item> A Go \<^verbatim>\<open>string\<close> or \<^verbatim>\<open>[]byte\<close> holding text is a \<^typ>\<open>string\<close>: one \<^typ>\<open>char\<close> per byte.
  \<^item> A Go integer is an \<^typ>\<open>int\<close>; every addition that the code performs at a fixed width is
    followed by \<open>i32\<close> or \<open>i64\<close>, the two's complement wrap-around.
  \<^item> A run-time panic is the left summand of \<open>'a go\<close>.
  \<^item> A pointer is an address into an explicit store where aliasing matters, and an option value
    where only nil or not nil matters.
\<close>

subsection \<open>Lemma collections\<close>

named_theorems store_simps \<open>reading an explicit store after a write\<close>

subsection \<open>Run-time panics\<close>

datatype gopanic = IndexOutOfRange | NilDereference | DivideByZero | MakeSlice

type_synonym 'a go = "gopanic + 'a"

definition bindGo :: "'a go \<Rightarrow> ('a \<Rightarrow> 'b go) \<Rightarrow> 'b go" where
  "bindGo m f = (case m of Inl e \<Rightarrow> Inl e | Inr x \<Rightarrow> f x)"

fun returns :: "'a go \<Rightarrow> bool" where
  "returns (Inl e) = False"
| "returns (Inr x) = True"

text \<open>Indexing panics outside the range; it never invents a value.\<close>

definition indexAt :: "'a list \<Rightarrow> nat \<Rightarrow> 'a go" where
  "indexAt xs i = (if i < length xs then Inr (xs ! i) else Inl IndexOutOfRange)"

lemma bindGo_simps [simp]:
  "bindGo (Inl e) f = Inl e"
  "bindGo (Inr x) f = f x"
  by (simp_all add: bindGo_def)

lemma bindGo_Inr_iff: "bindGo m f = Inr y \<longleftrightarrow> (\<exists>x. m = Inr x \<and> f x = Inr y)"
  by (cases m) auto

lemma bindGo_cong [fundef_cong]:
  "m = n \<Longrightarrow> (\<And>x. n = Inr x \<Longrightarrow> f x = g x) \<Longrightarrow> bindGo m f = bindGo n g"
  by (cases n) auto

lemma returns_iff: "returns m \<longleftrightarrow> (\<exists>x. m = Inr x)"
  by (cases m) auto

lemma indexAt_in_range [simp]: "i < length xs \<Longrightarrow> indexAt xs i = Inr (xs ! i)"
  by (simp add: indexAt_def)

lemma indexAt_out_of_range [simp]: "length xs \<le> i \<Longrightarrow> indexAt xs i = Inl IndexOutOfRange"
  by (simp add: indexAt_def)

text \<open>Writing an element, copying \<open>n\<close> elements from position \<open>x\<close>, and running an operation over a list.\<close>

definition writeAt :: "'a list \<Rightarrow> nat \<Rightarrow> 'a \<Rightarrow> 'a list go" where
  "writeAt xs i a = (if i < length xs then Inr (xs[i := a]) else Inl IndexOutOfRange)"

fun readRange :: "'a list \<Rightarrow> nat \<Rightarrow> nat \<Rightarrow> 'a list go" where
  "readRange xs x 0 = Inr []"
| "readRange xs x (Suc n) =
     bindGo (indexAt xs x) (\<lambda>a. bindGo (readRange xs (Suc x) n) (\<lambda>r. Inr (a # r)))"

fun foldGo :: "('a \<Rightarrow> 's \<Rightarrow> 's go) \<Rightarrow> 'a list \<Rightarrow> 's \<Rightarrow> 's go" where
  "foldGo f [] s = Inr s"
| "foldGo f (a # as) s = bindGo (f a s) (foldGo f as)"

lemma writeAt_in_range [simp]: "i < length xs \<Longrightarrow> writeAt xs i a = Inr (xs[i := a])"
  by (simp add: writeAt_def)

lemma writeAt_out_of_range [simp]: "length xs \<le> i \<Longrightarrow> writeAt xs i a = Inl IndexOutOfRange"
  by (simp add: writeAt_def)

lemma readRange_eq: "x + n \<le> length xs \<Longrightarrow> readRange xs x n = Inr (take n (drop x xs))"
proof (induction n arbitrary: x)
  case (Suc n)
  then have "drop x xs = xs ! x # drop (Suc x) xs" by (simp add: Cons_nth_drop_Suc)
  with Suc show ?case by simp
qed simp

lemma foldGo_append: "foldGo f (as @ bs) s = bindGo (foldGo f as s) (foldGo f bs)"
proof (induction as arbitrary: s)
  case (Cons a as)
  then show ?case by (cases "f a s") auto
qed simp

subsection \<open>The last elements of a list\<close>

definition lastn :: "nat \<Rightarrow> 'a list \<Rightarrow> 'a list" where
  "lastn n xs = drop (length xs - n) xs"

lemma lastn_length [simp]: "length (lastn n xs) = min n (length xs)"
  by (simp add: lastn_def)

lemma lastn_all [simp]: "length xs \<le> n \<Longrightarrow> lastn n xs = xs"
  by (simp add: lastn_def)

lemma lastn_lastn: "lastn n (lastn m xs) = lastn (min n m) xs"
  by (cases "length xs \<le> m"; cases "length xs \<le> n") (auto simp: lastn_def min_def)

lemma lastn_append_keep: "lastn n (lastn n xs @ ys) = lastn n (xs @ ys)"
  by (cases "length xs \<le> n") (auto simp: lastn_def add.commute)

subsection \<open>Fixed-width integers\<close>

definition i32 :: "int \<Rightarrow> int" where
  "i32 x = signed_take_bit 31 x"

definition i64 :: "int \<Rightarrow> int" where
  "i64 x = signed_take_bit 63 x"

lemma i32_id [simp]: "- (2 ^ 31) \<le> x \<Longrightarrow> x < 2 ^ 31 \<Longrightarrow> i32 x = x"
  by (simp add: i32_def signed_take_bit_int_eq_self)

lemma i64_id [simp]: "- (2 ^ 63) \<le> x \<Longrightarrow> x < 2 ^ 63 \<Longrightarrow> i64 x = x"
  by (simp add: i64_def signed_take_bit_int_eq_self)

lemma i32_range: "- (2 ^ 31) \<le> i32 x \<and> i32 x < 2 ^ 31"
  unfolding i32_def
  using signed_take_bit_int_greater_eq_minus_exp [of 31 x] signed_take_bit_int_less_exp [of 31 x]
  by blast

lemma i64_range: "- (2 ^ 63) \<le> i64 x \<and> i64 x < 2 ^ 63"
  unfolding i64_def
  using signed_take_bit_int_greater_eq_minus_exp [of 63 x] signed_take_bit_int_less_exp [of 63 x]
  by blast

lemma i32_add_i32 [simp]: "i32 (i32 x + y) = i32 (x + y)" "i32 (x + i32 y) = i32 (x + y)"
  unfolding i32_def
  by (metis signed_take_bit_add signed_take_bit_signed_take_bit min.idem)+

lemma i32_i32 [simp]: "i32 (i32 x) = i32 x"
  by (simp add: i32_def)

lemma i64_i64 [simp]: "i64 (i64 x) = i64 x"
  by (simp add: i64_def)

lemma i64_wrap: "i64 (2 ^ 63) = - (2 ^ 63)"
  by (simp add: i64_def)

lemma i64_add_i64 [simp]: "i64 (i64 x + y) = i64 (x + y)" "i64 (x + i64 y) = i64 (x + y)"
  unfolding i64_def
  by (metis signed_take_bit_add signed_take_bit_signed_take_bit min.idem)+

text \<open>Go's integer division truncates towards zero, and the remainder has the sign of the dividend.\<close>

definition goDiv :: "int \<Rightarrow> int \<Rightarrow> int" where
  "goDiv a b = (if a < 0 then - ((- a) div b) else a div b)"

definition goRem :: "int \<Rightarrow> int \<Rightarrow> int" where
  "goRem a b = a - b * goDiv a b"

subsection \<open>Byte values with a meaning in the code\<close>

abbreviation NUL :: char where "NUL \<equiv> CHR 0x00"
abbreviation TAB :: char where "TAB \<equiv> CHR 0x09"
abbreviation NL :: char where "NL \<equiv> CHR 0x0A"
abbreviation DQUOTE :: char where "DQUOTE \<equiv> CHR 0x22"
abbreviation QUOTE :: char where "QUOTE \<equiv> CHR 0x27"
abbreviation BACKSLASH :: char where "BACKSLASH \<equiv> CHR 0x5C"

definition isDigit :: "char \<Rightarrow> bool" where
  "isDigit c \<longleftrightarrow> c \<in> set ''0123456789''"

subsection \<open>Package strings\<close>

definition HasPrefix :: "string \<Rightarrow> string \<Rightarrow> bool" where
  "HasPrefix s p \<longleftrightarrow> take (length p) s = p"

definition HasSuffix :: "string \<Rightarrow> string \<Rightarrow> bool" where
  "HasSuffix s p \<longleftrightarrow> length p \<le> length s \<and> drop (length s - length p) s = p"

text \<open>\<open>Index s p\<close> is the first position where \<open>p\<close> occurs in \<open>s\<close>, and \<open>-1\<close> if there is none.\<close>

fun Index :: "string \<Rightarrow> string \<Rightarrow> int" where
  "Index [] p = (if p = [] then 0 else -1)"
| "Index (c # cs) p =
     (if HasPrefix (c # cs) p then 0 else (let i = Index cs p in if i < 0 then -1 else i + 1))"

fun Join :: "string list \<Rightarrow> string \<Rightarrow> string" where
  "Join [] sep = []"
| "Join [x] sep = x"
| "Join (x # y # ys) sep = x @ sep @ Join (y # ys) sep"

lemma HasPrefix_iff: "HasPrefix s p \<longleftrightarrow> (\<exists>t. s = p @ t)"
  unfolding HasPrefix_def by (metis append_eq_conv_conj append_take_drop_id)

lemma HasPrefix_append [simp]: "HasPrefix (p @ t) p"
  by (simp add: HasPrefix_def)

lemma HasSuffix_iff: "HasSuffix s p \<longleftrightarrow> (\<exists>t. s = t @ p)"
proof
  assume "HasSuffix s p"
  then show "\<exists>t. s = t @ p"
    unfolding HasSuffix_def by (metis append_take_drop_id)
next
  assume "\<exists>t. s = t @ p"
  then show "HasSuffix s p" by (auto simp: HasSuffix_def)
qed

lemma Index_ge: "- 1 \<le> Index s p"
  by (induction s p rule: Index.induct) (auto simp: Let_def)

lemma Index_shift:
  assumes "Index (c # cs) p = int i" and "\<not> HasPrefix (c # cs) p"
  shows "\<exists>j. Index cs p = int j \<and> i = Suc j"
proof -
  from assms have "0 \<le> Index cs p" and "int i = Index cs p + 1"
    by (auto simp: Let_def split: if_splits)
  then show ?thesis by (intro exI [of _ "nat (Index cs p)"]) auto
qed

lemma Index_split:
  assumes "Index s p = int i"
  shows "take i s @ p @ drop (i + length p) s = s"
  using assms
proof (induction s p arbitrary: i rule: Index.induct)
  case (1 p)
  then show ?case by (auto split: if_splits)
next
  case (2 c cs p)
  show ?case
  proof (cases "HasPrefix (c # cs) p")
    case True
    with "2.prems" have "i = 0" by simp
    with True show ?thesis by (auto simp: HasPrefix_def) (metis append_take_drop_id)
  next
    case False
    with "2.prems" obtain j where j: "Index cs p = int j" "i = Suc j"
      by (metis Index_shift)
    with "2.IH" [OF False j(1)] show ?thesis by simp
  qed
qed

lemma Index_char_none: "c \<notin> set s \<Longrightarrow> Index s [c] = - 1"
  by (induction s) (auto simp: HasPrefix_def)

lemma Index_char_some: "c \<notin> set s \<Longrightarrow> Index (s @ c # t) [c] = int (length s)"
  by (induction s) (auto simp: HasPrefix_def Let_def)

lemma Index_bound: "Index s p = int i \<Longrightarrow> i + length p \<le> length s"
proof (induction s p arbitrary: i rule: Index.induct)
  case (1 p)
  then show ?case by (auto split: if_splits)
next
  case (2 c cs p)
  show ?case
  proof (cases "HasPrefix (c # cs) p")
    case True
    with "2.prems" have "i = 0" by simp
    moreover from True have "length p \<le> length (c # cs)"
      by (auto simp: HasPrefix_iff) (metis le_add1 length_append length_Cons)
    ultimately show ?thesis by simp
  next
    case False
    with "2.prems" obtain j where j: "Index cs p = int j" "i = Suc j"
      by (metis Index_shift)
    with "2.IH" [OF False j(1)] show ?thesis by simp
  qed
qed

text \<open>
  \<open>ToLower\<close> maps the letters of an ASCII string; what it does to other strings depends on the tables of
  package \<^verbatim>\<open>unicode\<close> and is the parameter \<open>uni\<close>.
\<close>

definition asciiLower :: "char \<Rightarrow> char" where
  "asciiLower c =
     (let n = (of_char c :: nat) in if 65 \<le> n \<and> n \<le> 90 then char_of (n + 32) else c)"

definition ToLower :: "(string \<Rightarrow> string) \<Rightarrow> string \<Rightarrow> string" where
  "ToLower uni s = (if list_all (\<lambda>c. (of_char c :: nat) < 128) s then map asciiLower s else uni s)"

text \<open>
  \<open>TrimSpace\<close> removes white space at both ends: the UTF-8 encodings of the code points for which
  \<^verbatim>\<open>unicode.IsSpace\<close> holds, listed in \<open>spaces\<close>.
\<close>

definition spaces :: "string list" where
  "spaces =
     [[CHR 0x09], [CHR 0x0A], [CHR 0x0B], [CHR 0x0C], [CHR 0x0D], [CHR 0x20],
      [CHR 0xC2, CHR 0x85], [CHR 0xC2, CHR 0xA0], [CHR 0xE1, CHR 0x9A, CHR 0x80]] @
     map (\<lambda>k. [CHR 0xE2, CHR 0x80, char_of (128 + k)]) [0..<11] @
     [[CHR 0xE2, CHR 0x80, CHR 0xA8], [CHR 0xE2, CHR 0x80, CHR 0xA9],
      [CHR 0xE2, CHR 0x80, CHR 0xAF], [CHR 0xE2, CHR 0x81, CHR 0x9F],
      [CHR 0xE3, CHR 0x80, CHR 0x80]]"

function dropPrefixes :: "string list \<Rightarrow> string \<Rightarrow> string" where
  "dropPrefixes ps s =
     (case find (\<lambda>p. p \<noteq> [] \<and> HasPrefix s p) ps of
        None \<Rightarrow> s
      | Some p \<Rightarrow> dropPrefixes ps (drop (length p) s))"
  by pat_completeness auto
termination
  by (relation "measure (length \<circ> snd)")
    (auto simp: find_Some_iff HasPrefix_iff)

declare dropPrefixes.simps [simp del]

definition TrimSpace :: "string \<Rightarrow> string" where
  "TrimSpace s =
     rev (dropPrefixes (map rev spaces) (rev (dropPrefixes spaces s)))"

subsection \<open>Printing integers (strconv.FormatInt in base 10, the verb \<open>%d\<close>)\<close>

fun digitsOf :: "nat \<Rightarrow> string" where
  "digitsOf n = (if n < 10 then [char_of (48 + n)] else digitsOf (n div 10) @ [char_of (48 + n mod 10)])"

declare digitsOf.simps [simp del]

definition itoa :: "int \<Rightarrow> string" where
  "itoa k = (if k < 0 then CHR ''-'' # digitsOf (nat (- k)) else digitsOf (nat k))"

lemma digitsOf_nonempty [simp]: "digitsOf n \<noteq> []"
  by (subst digitsOf.simps) simp

lemma itoa_nonempty [simp]: "itoa k \<noteq> []"
  by (simp add: itoa_def)

end
