(* ===== verification/Escape_Sql.thy ===== *)
theory Escape_Sql
  imports Prelude
begin

text \<open>
  The SQL literal escaper (\<^verbatim>\<open>agent/util/sqlutil/EscapeLiteralSQL.go\<close>). It reads a statement byte
  by byte and writes two buffers: \<open>parsedSql\<close>, the statement with every string and number literal
  replaced by a substitute, and \<open>param\<close>, the literals themselves.

  The first part is the code: the record \<open>EscapeLiteralSQL\<close> is the struct, one definition per
  method, and \<open>process_loop\<close> is the loop of \<open>Process\<close> over the position \<open>pos\<close>. The second part is a
  reference machine \<open>esc\<close> that consumes the rest of the statement instead of an index; \<open>Process\<close> is
  proved equal to it, and the properties of the normal form are proved on it.
\<close>

subsection \<open>The struct and its construction\<close>

text \<open>\<open>UNSET\<close> is the zero value of the status byte, which no constant of the code names.\<close>

datatype els_status = UNSET | NORMAL | COMMENT | ALPABET | NUMBER | QUTATION | COLON | DQUTATION

record EscapeLiteralSQL =
  substitute :: string
  substitute_num :: string
  substitute_str_mode :: bool
  sql :: string
  pos :: nat
  sql_length :: nat
  parsedSql :: string
  param :: string
  status :: els_status
  SqlType :: char
  inclueComment :: bool

definition NewEscapeLiteralSQL :: "string \<Rightarrow> EscapeLiteralSQL" where
  "NewEscapeLiteralSQL s =
     \<lparr>substitute = ''#'', substitute_num = ''#'', substitute_str_mode = False,
      sql = s, pos = 0, sql_length = length s, parsedSql = [], param = [],
      status = UNSET, SqlType = NUL, inclueComment = True\<rparr>"

definition Setsubstitute :: "string \<Rightarrow> EscapeLiteralSQL \<Rightarrow> EscapeLiteralSQL" where
  "Setsubstitute chr s =
     (let s1 = s\<lparr>substitute := chr\<rparr> in
      if substitute_str_mode s1 then s1\<lparr>substitute_num := [QUOTE] @ chr @ [QUOTE]\<rparr>
      else s1\<lparr>substitute_num := substitute s1\<rparr>)"

definition SetSubstituteStringMode :: "bool \<Rightarrow> EscapeLiteralSQL \<Rightarrow> EscapeLiteralSQL" where
  "SetSubstituteStringMode b s =
     (if substitute_str_mode s = b then s
      else let s1 = s\<lparr>substitute_str_mode := b\<rparr> in
           if substitute_str_mode s1
           then s1\<lparr>substitute_num := [QUOTE] @ substitute s1 @ [QUOTE]\<rparr>
           else s1\<lparr>substitute_num := substitute s1\<rparr>)"

definition SetIncludeComment :: "bool \<Rightarrow> EscapeLiteralSQL \<Rightarrow> EscapeLiteralSQL" where
  "SetIncludeComment b s = s\<lparr>inclueComment := b\<rparr>"

definition GetParsedSql :: "EscapeLiteralSQL \<Rightarrow> string" where
  "GetParsedSql s = parsedSql s"

definition GetParameter :: "EscapeLiteralSQL \<Rightarrow> string" where
  "GetParameter s = param s"

subsection \<open>Reading and writing\<close>

definition getNext :: "EscapeLiteralSQL \<Rightarrow> nat \<Rightarrow> char go" where
  "getNext s x = (if int x < int (sql_length s) - 1 then indexAt (sql s) (x + 1) else Inr NUL)"

definition writeSql :: "string \<Rightarrow> EscapeLiteralSQL \<Rightarrow> EscapeLiteralSQL" where
  "writeSql w s = s\<lparr>parsedSql := parsedSql s @ w\<rparr>"

definition writeParam :: "string \<Rightarrow> EscapeLiteralSQL \<Rightarrow> EscapeLiteralSQL" where
  "writeParam w s = s\<lparr>param := param s @ w\<rparr>"

definition writeComment :: "string \<Rightarrow> EscapeLiteralSQL \<Rightarrow> EscapeLiteralSQL" where
  "writeComment w s = (if inclueComment s then writeSql w s else s)"

text \<open>A comma separates the parameters.\<close>

definition openParam :: "string \<Rightarrow> EscapeLiteralSQL \<Rightarrow> EscapeLiteralSQL" where
  "openParam w s = writeParam w (if 0 < length (param s) then writeParam '','' s else s)"

definition isProgLetter :: "char \<Rightarrow> bool" where
  "isProgLetter ch \<longleftrightarrow>
     CHR ''A'' \<le> ch \<and> ch \<le> CHR ''Z'' \<or> CHR ''a'' \<le> ch \<and> ch \<le> CHR ''z'' \<or> ch = CHR ''_''"

text \<open>\<^verbatim>\<open>strings.ToUpper\<close> on one ASCII letter or underscore, the only bytes it is called on.\<close>

definition upperLetter :: "char \<Rightarrow> char" where
  "upperLetter ch =
     (if CHR ''a'' \<le> ch \<and> ch \<le> CHR ''z'' then char_of (of_char ch - (32 :: nat)) else ch)"

definition define_crud :: "char \<Rightarrow> EscapeLiteralSQL \<Rightarrow> EscapeLiteralSQL" where
  "define_crud ch s =
     (let t = upperLetter ch in
      if t = CHR ''S'' \<or> t = CHR ''U'' \<or> t = CHR ''D'' \<or> t = CHR ''I''
      then s\<lparr>SqlType := t\<rparr> else s\<lparr>SqlType := CHR ''*''\<rparr>)"

subsection \<open>The byte handlers\<close>

text \<open>
  Every handler is called with \<open>ch\<close>, the byte at the current position. A handler that looks ahead
  or moves the position reads the statement again and can panic.
\<close>

definition h_others :: "char \<Rightarrow> EscapeLiteralSQL \<Rightarrow> EscapeLiteralSQL" where
  "h_others ch s =
     (case status s of
        COMMENT \<Rightarrow> writeComment [ch] s
      | ALPABET \<Rightarrow>
          (let s1 = writeSql [ch] s in if isProgLetter ch then s1 else s1\<lparr>status := NORMAL\<rparr>)
      | NUMBER \<Rightarrow> (writeSql [ch] s)\<lparr>status := NORMAL\<rparr>
      | QUTATION \<Rightarrow> writeParam [ch] s
      | DQUTATION \<Rightarrow> writeParam [ch] s
      | _ \<Rightarrow>
          writeSql [ch]
            (if isProgLetter ch
             then (let s1 = s\<lparr>status := ALPABET\<rparr> in if SqlType s1 = NUL then define_crud ch s1 else s1)
             else s\<lparr>status := NORMAL\<rparr>))"

definition h_colon :: "char \<Rightarrow> EscapeLiteralSQL \<Rightarrow> EscapeLiteralSQL" where
  "h_colon ch s =
     (case status s of
        COMMENT \<Rightarrow> writeComment [ch] s
      | QUTATION \<Rightarrow> writeParam [ch] s
      | DQUTATION \<Rightarrow> writeParam [ch] s
      | _ \<Rightarrow> (writeSql [ch] s)\<lparr>status := COLON\<rparr>)"

definition h_qutation :: "char \<Rightarrow> EscapeLiteralSQL \<Rightarrow> EscapeLiteralSQL go" where
  "h_qutation ch s =
     (case status s of
        NORMAL \<Rightarrow> Inr ((openParam [ch] s)\<lparr>status := QUTATION\<rparr>)
      | COMMENT \<Rightarrow> Inr (writeComment [ch] s)
      | ALPABET \<Rightarrow> Inr ((writeSql [ch] s)\<lparr>status := QUTATION\<rparr>)
      | NUMBER \<Rightarrow> Inr ((writeSql [ch] s)\<lparr>status := QUTATION\<rparr>)
      | QUTATION \<Rightarrow>
          bindGo (getNext s (pos s)) (\<lambda>n.
            if n = QUOTE
            then Inr (let s1 = writeParam [QUOTE, QUOTE] s in s1\<lparr>pos := pos s1 + 1\<rparr>)
            else Inr ((writeSql ([QUOTE] @ substitute s @ [QUOTE]) (writeParam [QUOTE] s))\<lparr>status := NORMAL\<rparr>))
      | DQUTATION \<Rightarrow> Inr (writeParam [ch] s)
      | _ \<Rightarrow> Inr s)"

definition h_dqutation :: "char \<Rightarrow> EscapeLiteralSQL \<Rightarrow> EscapeLiteralSQL" where
  "h_dqutation ch s =
     (case status s of
        NORMAL \<Rightarrow> (openParam [ch] s)\<lparr>status := DQUTATION\<rparr>
      | COMMENT \<Rightarrow> writeComment [ch] s
      | ALPABET \<Rightarrow> (writeSql [ch] s)\<lparr>status := DQUTATION\<rparr>
      | NUMBER \<Rightarrow> (writeSql [ch] s)\<lparr>status := DQUTATION\<rparr>
      | QUTATION \<Rightarrow> writeParam [ch] s
      | DQUTATION \<Rightarrow> (writeSql (substitute s) (writeParam [DQUOTE] s))\<lparr>status := NORMAL\<rparr>
      | _ \<Rightarrow> s)"

definition h_astar :: "char \<Rightarrow> EscapeLiteralSQL \<Rightarrow> EscapeLiteralSQL go" where
  "h_astar ch s =
     (case status s of
        COMMENT \<Rightarrow>
          (let s1 = writeComment [ch] s in
           bindGo (getNext s1 (pos s1)) (\<lambda>n.
             if n = CHR ''/''
             then Inr (let s2 = writeComment ''/'' s1 in s2\<lparr>pos := pos s2 + 1, status := NORMAL\<rparr>)
             else Inr s1))
      | QUTATION \<Rightarrow> Inr (writeParam [ch] s)
      | DQUTATION \<Rightarrow> Inr (writeParam [ch] s)
      | _ \<Rightarrow> Inr ((writeSql [ch] s)\<lparr>status := NORMAL\<rparr>))"

definition h_slash :: "char \<Rightarrow> EscapeLiteralSQL \<Rightarrow> EscapeLiteralSQL go" where
  "h_slash ch s =
     (case status s of
        COMMENT \<Rightarrow> Inr (writeComment [ch] s)
      | QUTATION \<Rightarrow> Inr (writeParam [ch] s)
      | DQUTATION \<Rightarrow> Inr (writeParam [ch] s)
      | _ \<Rightarrow>
          bindGo (getNext s (pos s)) (\<lambda>n.
            if n = CHR ''*''
            then Inr (let s1 = writeComment [ch, CHR ''*''] s in s1\<lparr>pos := pos s1 + 1, status := COMMENT\<rparr>)
            else Inr s))"

definition h_backslash :: "char \<Rightarrow> EscapeLiteralSQL \<Rightarrow> EscapeLiteralSQL go" where
  "h_backslash ch s =
     (if status s = COMMENT then Inr (writeComment [ch] s)
      else if status s = QUTATION \<or> status s = DQUTATION then
        bindGo (getNext s (pos s)) (\<lambda>n.
          if n \<noteq> NUL
          then (let s1 = s\<lparr>pos := pos s + 1\<rparr> in
                bindGo (indexAt (sql s1) (pos s1)) (\<lambda>c. Inr (writeParam [BACKSLASH, c] s1)))
          else Inr s)
      else
        bindGo (getNext s (pos s)) (\<lambda>n.
          if n \<noteq> NUL
          then bindGo (indexAt (sql s) (pos s + 1)) (\<lambda>c.
            let s1 = s\<lparr>pos := pos s + 1\<rparr> in
            if c = QUOTE then Inr ((writeParam [QUOTE] s1)\<lparr>status := QUTATION\<rparr>)
            else if c = DQUOTE then Inr ((writeParam [DQUOTE] s1)\<lparr>status := DQUTATION\<rparr>)
            else bindGo (indexAt (sql s1) (pos s1)) (\<lambda>d. Inr (writeSql [d] s1)))
          else Inr s))"

text \<open>The inner loop of \<open>h_minus\<close>: skip to the end of the line.\<close>

function skipLine :: "EscapeLiteralSQL \<Rightarrow> EscapeLiteralSQL go" where
  "skipLine s =
     bindGo (indexAt (sql s) (pos s)) (\<lambda>c.
       if c = NL then Inr s
       else let s1 = s\<lparr>pos := pos s + 1\<rparr> in
            if pos s1 < sql_length s1
            then bindGo (indexAt (sql s1) (pos s1)) (\<lambda>d. skipLine (writeComment [d] s1))
            else Inr s1)"
  by pat_completeness auto
termination
  by (relation "measure (\<lambda>s. sql_length s - pos s)") (auto simp: writeComment_def writeSql_def)

declare skipLine.simps [simp del]

definition h_minus :: "char \<Rightarrow> EscapeLiteralSQL \<Rightarrow> EscapeLiteralSQL go" where
  "h_minus ch s =
     (case status s of
        COMMENT \<Rightarrow> Inr (writeComment [ch] s)
      | QUTATION \<Rightarrow> Inr (writeParam [ch] s)
      | DQUTATION \<Rightarrow> Inr (writeParam [ch] s)
      | _ \<Rightarrow>
          bindGo (getNext s (pos s)) (\<lambda>n.
            bindGo (if n = CHR ''-'' then skipLine (writeComment [ch] s) else Inr (writeSql [ch] s))
              (\<lambda>s1. Inr (s1\<lparr>status := NORMAL\<rparr>))))"

definition h_dot :: "char \<Rightarrow> EscapeLiteralSQL \<Rightarrow> EscapeLiteralSQL" where
  "h_dot ch s =
     (case status s of
        NORMAL \<Rightarrow> writeSql [ch] s
      | COMMENT \<Rightarrow> writeComment [ch] s
      | ALPABET \<Rightarrow> (writeSql [ch] s)\<lparr>status := NORMAL\<rparr>
      | NUMBER \<Rightarrow> writeParam [ch] s
      | QUTATION \<Rightarrow> writeParam [ch] s
      | DQUTATION \<Rightarrow> writeParam [ch] s
      | _ \<Rightarrow> s)"

definition h_number :: "char \<Rightarrow> EscapeLiteralSQL \<Rightarrow> EscapeLiteralSQL" where
  "h_number ch s =
     (case status s of
        NORMAL \<Rightarrow> (writeSql (substitute_num s) (openParam [ch] s))\<lparr>status := NUMBER\<rparr>
      | COMMENT \<Rightarrow> writeComment [ch] s
      | COLON \<Rightarrow> writeSql [ch] s
      | ALPABET \<Rightarrow> writeSql [ch] s
      | NUMBER \<Rightarrow> writeParam [ch] s
      | QUTATION \<Rightarrow> writeParam [ch] s
      | DQUTATION \<Rightarrow> writeParam [ch] s
      | _ \<Rightarrow> s)"

subsection \<open>The main loop\<close>

text \<open>\<open>php\<close> is the test \<^verbatim>\<open>AppType == APP_TYPE_PHP || AppType == APP_TYPE_BSM_PHP\<close> of the configuration.\<close>

definition dispatch :: "bool \<Rightarrow> EscapeLiteralSQL \<Rightarrow> EscapeLiteralSQL go" where
  "dispatch php s =
     bindGo (indexAt (sql s) (pos s)) (\<lambda>ch.
       if isDigit ch then Inr (h_number ch s)
       else if ch = CHR '':'' then Inr (h_colon ch s)
       else if ch = CHR ''.'' then Inr (h_dot ch s)
       else if ch = CHR ''-'' then h_minus ch s
       else if ch = CHR ''/'' then h_slash ch s
       else if ch = CHR ''*'' then h_astar ch s
       else if ch = QUOTE then h_qutation ch s
       else if ch = BACKSLASH then (if php then h_backslash ch s else Inr (h_others ch s))
       else if ch = DQUOTE then Inr (if php then h_dqutation ch s else h_others ch s)
       else Inr (h_others ch s))"

text \<open>The well-formed states are those with the length of their own statement.\<close>

definition wf_els :: "EscapeLiteralSQL \<Rightarrow> bool" where
  "wf_els s \<longleftrightarrow> sql_length s = length (sql s)"

text \<open>What no handler may change.\<close>

definition same_frame :: "EscapeLiteralSQL \<Rightarrow> EscapeLiteralSQL \<Rightarrow> bool" where
  "same_frame s t \<longleftrightarrow>
     sql t = sql s \<and> sql_length t = sql_length s \<and> substitute t = substitute s \<and>
     substitute_num t = substitute_num s \<and> substitute_str_mode t = substitute_str_mode s \<and>
     inclueComment t = inclueComment s"

lemma same_frame_refl [simp]: "same_frame s s"
  by (simp add: same_frame_def)

lemma same_frame_trans: "same_frame s t \<Longrightarrow> same_frame t u \<Longrightarrow> same_frame s u"
  by (simp add: same_frame_def)

lemma same_frame_wf: "same_frame s t \<Longrightarrow> wf_els s \<Longrightarrow> wf_els t"
  by (simp add: same_frame_def wf_els_def)

lemma write_simps [simp]:
  "sql (writeSql w s) = sql s" "pos (writeSql w s) = pos s"
  "sql_length (writeSql w s) = sql_length s" "status (writeSql w s) = status s"
  "same_frame s (writeSql w s)"
  "sql (writeParam w s) = sql s" "pos (writeParam w s) = pos s"
  "sql_length (writeParam w s) = sql_length s" "status (writeParam w s) = status s"
  "same_frame s (writeParam w s)"
  "sql (writeComment w s) = sql s" "pos (writeComment w s) = pos s"
  "sql_length (writeComment w s) = sql_length s" "status (writeComment w s) = status s"
  "same_frame s (writeComment w s)"
  "inclueComment (writeComment w s) = inclueComment s"
  "substitute (writeParam w s) = substitute s"
  "substitute_num (openParam w s) = substitute_num s"
  "sql (openParam w s) = sql s" "pos (openParam w s) = pos s"
  "sql_length (openParam w s) = sql_length s" "same_frame s (openParam w s)"
  by (simp_all add: writeSql_def writeParam_def writeComment_def openParam_def same_frame_def)

lemma same_frame_update [simp]:
  "same_frame (t\<lparr>status := x\<rparr>) s = same_frame t s"
  "same_frame (t\<lparr>pos := n\<rparr>) s = same_frame t s"
  "same_frame s (t\<lparr>status := x\<rparr>) = same_frame s t"
  "same_frame s (t\<lparr>pos := n\<rparr>) = same_frame s t"
  "same_frame s (t\<lparr>SqlType := y\<rparr>) = same_frame s t"
  by (simp_all add: same_frame_def)

lemma same_frame_write [simp]:
  "same_frame (writeSql w t) s = same_frame t s"
  "same_frame (writeParam w t) s = same_frame t s"
  "same_frame (writeComment w t) s = same_frame t s"
  "same_frame s (writeSql w t) = same_frame s t"
  "same_frame s (writeParam w t) = same_frame s t"
  "same_frame s (writeComment w t) = same_frame s t"
  "same_frame s (openParam w t) = same_frame s t"
  by (simp_all add: writeSql_def writeParam_def writeComment_def openParam_def same_frame_def)

subsection \<open>The contract of a byte handler\<close>

text \<open>
  A handler called at a position inside the statement does not panic, leaves the statement and the
  options alone and never moves the position back. The loop of \<open>Process\<close> relies on nothing else to
  terminate.
\<close>

locale byte_handler =
  fixes h :: "EscapeLiteralSQL \<Rightarrow> EscapeLiteralSQL go"
  assumes safe: "wf_els s \<Longrightarrow> pos s < length (sql s) \<Longrightarrow> returns (h s)"
    and frame: "h s = Inr t \<Longrightarrow> same_frame s t"
    and forward: "h s = Inr t \<Longrightarrow> pos s \<le> pos t"
begin

lemma keeps_wf: "h s = Inr t \<Longrightarrow> wf_els s \<Longrightarrow> wf_els t"
  using frame same_frame_wf by blast

lemma progress:
  "h s = Inr t \<Longrightarrow> pos s < sql_length s \<Longrightarrow>
     sql_length (t\<lparr>pos := Suc (pos t)\<rparr>) - pos (t\<lparr>pos := Suc (pos t)\<rparr>) < sql_length s - pos s"
  using frame [of s t] forward [of s t] by (auto simp: same_frame_def)

end

lemma getNext_returns: "wf_els s \<Longrightarrow> \<exists>c. getNext s x = Inr c"
  by (auto simp: getNext_def wf_els_def)

lemma getNext_in_range: "wf_els s \<Longrightarrow> getNext s x = Inr c \<Longrightarrow> c \<noteq> NUL \<Longrightarrow> Suc x < length (sql s)"
  by (auto simp: getNext_def wf_els_def split: if_splits)

lemma skipLine_safe: "wf_els s \<Longrightarrow> pos s < length (sql s) \<Longrightarrow> returns (skipLine s)"
proof (induction s rule: skipLine.induct)
  case (1 s)
  then show ?case
    by (subst skipLine.simps) (auto simp: wf_els_def Let_def)
qed

lemma skipLine_frame: "skipLine s = Inr t \<Longrightarrow> same_frame s t \<and> pos s \<le> pos t"
proof (induction s arbitrary: t rule: skipLine.induct)
  case (1 s)
  let ?s1 = "s\<lparr>pos := pos s + 1\<rparr>"
  from "1.prems" obtain c where c: "indexAt (sql s) (pos s) = Inr c"
    by (subst (asm) skipLine.simps) (auto simp: bindGo_Inr_iff)
  show ?case
  proof (cases "c = NL \<or> \<not> pos ?s1 < sql_length ?s1")
    case True
    with "1.prems" c show ?thesis
      by (subst (asm) skipLine.simps) (auto simp: Let_def split: if_splits)
  next
    case False
    with "1.prems" c obtain d where "indexAt (sql ?s1) (pos ?s1) = Inr d"
      and "skipLine (writeComment [d] ?s1) = Inr t"
      by (subst (asm) skipLine.simps) (auto simp: Let_def bindGo_Inr_iff)
    with "1.IH" [OF c _ refl _ this(1), of t] False
    have "same_frame (writeComment [d] ?s1) t \<and> pos (writeComment [d] ?s1) \<le> pos t"
      by auto
    then show ?thesis by auto
  qed
qed


lemmas handler_defs = h_others_def h_colon_def h_qutation_def h_dqutation_def h_astar_def
  h_slash_def h_backslash_def h_minus_def h_dot_def h_number_def define_crud_def

lemma define_crud_simps [simp]:
  "sql (define_crud ch s) = sql s" "pos (define_crud ch s) = pos s"
  "sql_length (define_crud ch s) = sql_length s" "same_frame s (define_crud ch t) = same_frame s t"
  by (simp_all add: define_crud_def Let_def)

interpretation others: byte_handler "\<lambda>s. Inr (h_others ch s)" for ch
  by unfold_locales (auto simp: h_others_def Let_def split: els_status.splits)

interpretation colon: byte_handler "\<lambda>s. Inr (h_colon ch s)" for ch
  by unfold_locales (auto simp: h_colon_def split: els_status.splits)

interpretation dqutation: byte_handler "\<lambda>s. Inr (h_dqutation ch s)" for ch
  by unfold_locales (auto simp: h_dqutation_def split: els_status.splits)

interpretation dot: byte_handler "\<lambda>s. Inr (h_dot ch s)" for ch
  by unfold_locales (auto simp: h_dot_def split: els_status.splits)

interpretation number: byte_handler "\<lambda>s. Inr (h_number ch s)" for ch
  by unfold_locales (auto simp: h_number_def split: els_status.splits)

lemma returns_bind_getNext:
  "wf_els s \<Longrightarrow> (\<And>c. getNext s x = Inr c \<Longrightarrow> returns (f c)) \<Longrightarrow> returns (bindGo (getNext s x) f)"
  using getNext_returns [of s x] by auto

lemma wf_els_write [simp]:
  "wf_els (writeSql w s) = wf_els s" "wf_els (writeParam w s) = wf_els s"
  "wf_els (writeComment w s) = wf_els s"
  by (simp_all add: wf_els_def)

interpretation qutation: byte_handler "h_qutation ch" for ch
proof unfold_locales
  fix s :: EscapeLiteralSQL
  assume "wf_els s"
  then show "returns (h_qutation ch s)"
    by (auto simp: h_qutation_def split: els_status.splits intro!: returns_bind_getNext)
qed (auto simp: h_qutation_def bindGo_Inr_iff Let_def split: els_status.splits if_splits)

interpretation astar: byte_handler "h_astar ch" for ch
proof unfold_locales
  fix s :: EscapeLiteralSQL
  assume "wf_els s"
  then show "returns (h_astar ch s)"
    by (auto simp: h_astar_def Let_def split: els_status.splits intro!: returns_bind_getNext)
qed (auto simp: h_astar_def bindGo_Inr_iff Let_def split: els_status.splits if_splits)

interpretation slash: byte_handler "h_slash ch" for ch
proof unfold_locales
  fix s :: EscapeLiteralSQL
  assume "wf_els s"
  then show "returns (h_slash ch s)"
    by (auto simp: h_slash_def Let_def split: els_status.splits intro!: returns_bind_getNext)
qed (auto simp: h_slash_def bindGo_Inr_iff Let_def split: els_status.splits if_splits)

interpretation backslash: byte_handler "h_backslash ch" for ch
proof unfold_locales
  fix s :: EscapeLiteralSQL
  assume "wf_els s"
  then show "returns (h_backslash ch s)"
    by (auto simp: h_backslash_def Let_def intro!: returns_bind_getNext dest: getNext_in_range)
qed (auto simp: h_backslash_def bindGo_Inr_iff Let_def split: if_splits)

interpretation minus: byte_handler "h_minus ch" for ch
proof unfold_locales
  fix s :: EscapeLiteralSQL
  assume "wf_els s" and "pos s < length (sql s)"
  then show "returns (h_minus ch s)"
    using skipLine_safe [of "writeComment [ch] s"]
    by (auto simp: h_minus_def returns_iff split: els_status.splits dest!: getNext_returns [of _ "pos s"])
next
  fix s t :: EscapeLiteralSQL
  assume "h_minus ch s = Inr t"
  then show "same_frame s t" and "pos s \<le> pos t"
    by (auto simp: h_minus_def bindGo_Inr_iff split: els_status.splits if_splits
        dest!: skipLine_frame)
qed

lemmas pure_handlers =
  others.frame [OF refl] colon.frame [OF refl] number.frame [OF refl] dot.frame [OF refl]
  dqutation.frame [OF refl] others.forward [OF refl] colon.forward [OF refl]
  number.forward [OF refl] dot.forward [OF refl] dqutation.forward [OF refl]

lemmas looking_handlers =
  minus.frame minus.forward slash.frame slash.forward astar.frame astar.forward
  qutation.frame qutation.forward backslash.frame backslash.forward

interpretation dispatch: byte_handler "dispatch php" for php
proof unfold_locales
  fix s :: EscapeLiteralSQL
  assume "wf_els s" and "pos s < length (sql s)"
  then show "returns (dispatch php s)"
    by (simp add: dispatch_def minus.safe slash.safe astar.safe qutation.safe backslash.safe)
next
  fix s t :: EscapeLiteralSQL
  assume "dispatch php s = Inr t"
  then show "same_frame s t" and "pos s \<le> pos t"
    unfolding dispatch_def bindGo_Inr_iff
    by (auto split: if_splits simp: pure_handlers dest: looking_handlers)
qed

function process_loop :: "bool \<Rightarrow> EscapeLiteralSQL \<Rightarrow> EscapeLiteralSQL go" where
  "process_loop php s =
     (if pos s < sql_length s
      then bindGo (dispatch php s) (\<lambda>t. process_loop php (t\<lparr>pos := Suc (pos t)\<rparr>))
      else Inr s)"
  by pat_completeness auto
termination
  by (relation "measure (\<lambda>(php, s). sql_length s - pos s)") (auto dest: dispatch.progress)

declare process_loop.simps [simp del]

definition Process :: "bool \<Rightarrow> EscapeLiteralSQL \<Rightarrow> EscapeLiteralSQL go" where
  "Process php s = process_loop php (s\<lparr>status := NORMAL, pos := 0\<rparr>)"

subsection \<open>The reference machine\<close>

text \<open>
  The same language, organised by status instead of by byte and over the rest of the statement
  instead of an index. \<open>escStep\<close> gives the state after one byte and how many further bytes it
  consumed.
\<close>

record esc_cfg =
  cPhp :: bool
  cComment :: bool
  cSub :: string
  cSubNum :: string

record esc_state =
  eStatus :: els_status
  eSql :: string
  eParam :: string
  eType :: char

definition emitSql :: "string \<Rightarrow> esc_state \<Rightarrow> esc_state" where
  "emitSql w a = a\<lparr>eSql := eSql a @ w\<rparr>"

definition emitParam :: "string \<Rightarrow> esc_state \<Rightarrow> esc_state" where
  "emitParam w a = a\<lparr>eParam := eParam a @ w\<rparr>"

definition emitComment :: "bool \<Rightarrow> string \<Rightarrow> esc_state \<Rightarrow> esc_state" where
  "emitComment b w a = (if b then emitSql w a else a)"

definition emitOpen :: "string \<Rightarrow> esc_state \<Rightarrow> esc_state" where
  "emitOpen w a = emitParam ((if eParam a = [] then [] else '','') @ w) a"

definition goto :: "els_status \<Rightarrow> esc_state \<Rightarrow> esc_state" where
  "goto x a = a\<lparr>eStatus := x\<rparr>"

fun nextByte :: "string \<Rightarrow> char" where
  "nextByte [] = NUL"
| "nextByte (c # cs) = c"

text \<open>A line comment runs through the line feed, or to the end.\<close>

fun lineOf :: "string \<Rightarrow> string" where
  "lineOf [] = []"
| "lineOf (c # cs) = (if c = NL then [NL] else c # lineOf cs)"

definition crudOf :: "char \<Rightarrow> char" where
  "crudOf c = (let t = upperLetter c in if t \<in> set ''SUDI'' then t else CHR ''*'')"

definition escComment :: "esc_cfg \<Rightarrow> char \<Rightarrow> string \<Rightarrow> esc_state \<Rightarrow> esc_state \<times> nat" where
  "escComment k c cs a =
     (if c = CHR ''*'' \<and> nextByte cs = CHR ''/''
      then (goto NORMAL (emitComment (cComment k) ''*/'' a), 1) else (emitComment (cComment k) [c] a, 0))"

definition escBackslash :: "string \<Rightarrow> esc_state \<Rightarrow> esc_state \<times> nat" where
  "escBackslash cs a =
     (if nextByte cs = NUL then (a, 0) else (emitParam [BACKSLASH, nextByte cs] a, 1))"

definition escQuoted :: "esc_cfg \<Rightarrow> char \<Rightarrow> string \<Rightarrow> esc_state \<Rightarrow> esc_state \<times> nat" where
  "escQuoted k c cs a =
     (if c = QUOTE then
        (if nextByte cs = QUOTE then (emitParam [QUOTE, QUOTE] a, 1)
         else (goto NORMAL (emitSql ([QUOTE] @ cSub k @ [QUOTE]) (emitParam [QUOTE] a)), 0))
      else if cPhp k \<and> c = BACKSLASH then escBackslash cs a
      else (emitParam [c] a, 0))"

definition escDquoted :: "esc_cfg \<Rightarrow> char \<Rightarrow> string \<Rightarrow> esc_state \<Rightarrow> esc_state \<times> nat" where
  "escDquoted k c cs a =
     (if cPhp k \<and> c = DQUOTE then (goto NORMAL (emitSql (cSub k) (emitParam [DQUOTE] a)), 0)
      else if cPhp k \<and> c = BACKSLASH then escBackslash cs a
      else (emitParam [c] a, 0))"

text \<open>Opening a quoted literal: after a letter or a number the opening quote stays in the statement.\<close>

definition escOpen :: "els_status \<Rightarrow> char \<Rightarrow> esc_state \<Rightarrow> esc_state" where
  "escOpen q c a =
     (case eStatus a of
        NORMAL \<Rightarrow> goto q (emitOpen [c] a)
      | ALPABET \<Rightarrow> goto q (emitSql [c] a)
      | NUMBER \<Rightarrow> goto q (emitSql [c] a)
      | _ \<Rightarrow> a)"

definition escDigit :: "esc_cfg \<Rightarrow> char \<Rightarrow> esc_state \<Rightarrow> esc_state" where
  "escDigit k c a =
     (case eStatus a of
        NORMAL \<Rightarrow> goto NUMBER (emitSql (cSubNum k) (emitOpen [c] a))
      | NUMBER \<Rightarrow> emitParam [c] a
      | ALPABET \<Rightarrow> emitSql [c] a
      | COLON \<Rightarrow> emitSql [c] a
      | _ \<Rightarrow> a)"

definition escDot :: "char \<Rightarrow> esc_state \<Rightarrow> esc_state" where
  "escDot c a =
     (case eStatus a of
        NORMAL \<Rightarrow> emitSql [c] a
      | ALPABET \<Rightarrow> goto NORMAL (emitSql [c] a)
      | NUMBER \<Rightarrow> emitParam [c] a
      | _ \<Rightarrow> a)"

definition escWord :: "char \<Rightarrow> esc_state \<Rightarrow> esc_state" where
  "escWord c a =
     (if eStatus a = ALPABET \<and> isProgLetter c then emitSql [c] a
      else if eStatus a \<noteq> NUMBER \<and> isProgLetter c
      then emitSql [c] (goto ALPABET (if eType a = NUL then a\<lparr>eType := crudOf c\<rparr> else a))
      else goto NORMAL (emitSql [c] a))"

definition escText :: "esc_cfg \<Rightarrow> char \<Rightarrow> string \<Rightarrow> esc_state \<Rightarrow> esc_state \<times> nat" where
  "escText k c cs a =
     (if isDigit c then (escDigit k c a, 0)
      else if c = CHR '':'' then (goto COLON (emitSql [c] a), 0)
      else if c = CHR ''.'' then (escDot c a, 0)
      else if c = CHR ''-'' then
        (if nextByte cs = CHR ''-''
         then (goto NORMAL (emitComment (cComment k) (c # lineOf cs) a), length (lineOf cs))
         else (goto NORMAL (emitSql [c] a), 0))
      else if c = CHR ''/'' then
        (if nextByte cs = CHR ''*'' then (goto COMMENT (emitComment (cComment k) ''/*'' a), 1) else (a, 0))
      else if c = CHR ''*'' then (goto NORMAL (emitSql [c] a), 0)
      else if c = QUOTE then (escOpen QUTATION c a, 0)
      else if cPhp k \<and> c = BACKSLASH then
        (if nextByte cs = NUL then (a, 0)
         else if nextByte cs = QUOTE then (goto QUTATION (emitParam [QUOTE] a), 1)
         else if nextByte cs = DQUOTE then (goto DQUTATION (emitParam [DQUOTE] a), 1)
         else (emitSql [nextByte cs] a, 1))
      else if cPhp k \<and> c = DQUOTE then (escOpen DQUTATION c a, 0)
      else (escWord c a, 0))"

definition escStep :: "esc_cfg \<Rightarrow> char \<Rightarrow> string \<Rightarrow> esc_state \<Rightarrow> esc_state \<times> nat" where
  "escStep k c cs a =
     (case eStatus a of
        COMMENT \<Rightarrow> escComment k c cs a
      | QUTATION \<Rightarrow> escQuoted k c cs a
      | DQUTATION \<Rightarrow> escDquoted k c cs a
      | _ \<Rightarrow> escText k c cs a)"

function esc :: "esc_cfg \<Rightarrow> string \<Rightarrow> esc_state \<Rightarrow> esc_state" where
  "esc k [] a = a"
| "esc k (c # cs) a = esc k (drop (snd (escStep k c cs a)) cs) (fst (escStep k c cs a))"
  by pat_completeness auto
termination
  by (relation "measure (\<lambda>(k, cs, a). length cs)") auto

subsection \<open>The code refines the reference machine\<close>

definition cfgOf :: "bool \<Rightarrow> EscapeLiteralSQL \<Rightarrow> esc_cfg" where
  "cfgOf php s = \<lparr>cPhp = php, cComment = inclueComment s, cSub = substitute s, cSubNum = substitute_num s\<rparr>"

definition absOf :: "EscapeLiteralSQL \<Rightarrow> esc_state" where
  "absOf s = \<lparr>eStatus = status s, eSql = parsedSql s, eParam = param s, eType = SqlType s\<rparr>"

lemma absOf_simps [simp]:
  "absOf (writeSql w s) = emitSql w (absOf s)"
  "absOf (writeParam w s) = emitParam w (absOf s)"
  "absOf (writeComment w s) = emitComment (inclueComment s) w (absOf s)"
  "absOf (openParam w s) = emitOpen w (absOf s)"
  "absOf (s\<lparr>status := x\<rparr>) = goto x (absOf s)"
  "absOf (s\<lparr>pos := n\<rparr>) = absOf s"
  "eStatus (absOf s) = status s"
  "eType (absOf s) = SqlType s"
  by (simp_all add: absOf_def cfgOf_def writeSql_def writeParam_def writeComment_def openParam_def
      emitSql_def emitParam_def emitComment_def emitOpen_def goto_def)

lemma cfgOf_simps [simp]:
  "cPhp (cfgOf php s) = php" "cComment (cfgOf php s) = inclueComment s"
  "cSub (cfgOf php s) = substitute s" "cSubNum (cfgOf php s) = substitute_num s"
  by (simp_all add: cfgOf_def)

lemma cfgOf_frame: "same_frame s t \<Longrightarrow> cfgOf php t = cfgOf php s"
  by (simp add: cfgOf_def same_frame_def)

lemma emitComment_Nil [simp]: "emitComment b [] a = a"
  by (simp add: emitComment_def emitSql_def)

lemma emitComment_append [simp]: "emitComment b v (emitComment b w a) = emitComment b (w @ v) a"
  by (simp add: emitComment_def emitSql_def)

text \<open>The statement from the current position on.\<close>

lemma drop_pos:
  assumes "drop (pos s) (sql s) = c # cs"
  shows "pos s < length (sql s)" and "indexAt (sql s) (pos s) = Inr c" and "drop (Suc (pos s)) (sql s) = cs"
proof -
  show *: "pos s < length (sql s)"
    using assms by (metis drop_all leI list.distinct(1))
  with assms show "indexAt (sql s) (pos s) = Inr c" and "drop (Suc (pos s)) (sql s) = cs"
    by (auto simp: Cons_nth_drop_Suc [symmetric])
qed

lemma drop_more: "drop n (drop m xs) = drop (m + n) xs"
  by (simp add: add.commute)

lemma getNext_next:
  assumes "wf_els s" and "drop (pos s) (sql s) = c # cs"
  shows "getNext s (pos s) = Inr (nextByte cs)"
proof (cases cs)
  case Nil
  with drop_pos [OF assms(2)] assms(1) show ?thesis
    by (auto simp: getNext_def wf_els_def)
next
  case (Cons d ds)
  with drop_pos(3) [OF assms(2)] have "drop (Suc (pos s)) (sql s) = d # ds" by simp
  then have "Suc (pos s) < length (sql s)" and "sql s ! Suc (pos s) = d"
    by (metis drop_all leI list.distinct(1), metis hd_drop_conv_nth drop_all leI list.distinct(1) list.sel(1))
  with Cons assms(1) show ?thesis by (auto simp: getNext_def wf_els_def)
qed

lemma skipLine_refines:
  assumes "wf_els s" and "drop (pos s) (sql s) = c # cs" and "c \<noteq> NL"
  shows "\<exists>t. skipLine s = Inr t \<and> absOf t = emitComment (inclueComment s) (lineOf cs) (absOf s)
             \<and> drop (Suc (pos t)) (sql s) = drop (length (lineOf cs)) cs"
  using assms
proof (induction cs arbitrary: s c)
  case Nil
  note d = drop_pos [OF Nil.prems(2)]
  with Nil.prems(1,3) show ?case
    by (subst skipLine.simps) (auto simp: Let_def wf_els_def)
next
  case (Cons d ds)
  note dp = drop_pos [OF Cons.prems(2)]
  let ?s1 = "writeComment [d] (s\<lparr>pos := Suc (pos s)\<rparr>)"
  have d1: "drop (pos ?s1) (sql ?s1) = d # ds" using dp(3) by simp
  have wf1: "wf_els ?s1" using Cons.prems(1) by (simp add: wf_els_def)
  have skip: "skipLine s = skipLine ?s1"
    using dp drop_pos(1,2) [OF d1] Cons.prems(1,3)
    by (subst skipLine.simps) (auto simp: Let_def wf_els_def)
  show ?case
  proof (cases "d = NL")
    case True
    with drop_pos(2) [OF d1] have "skipLine ?s1 = Inr ?s1" by (subst skipLine.simps) simp
    with skip True drop_pos(3) [OF d1] show ?thesis by simp
  next
    case False
    with Cons.IH [OF wf1 d1 False] skip show ?thesis by auto
  qed
qed

lemma isDigit_not:
  "isDigit c \<Longrightarrow> c \<noteq> CHR ''*'' \<and> c \<noteq> QUOTE \<and> c \<noteq> BACKSLASH \<and> c \<noteq> DQUOTE"
  by (auto simp: isDigit_def)

definition refines :: "EscapeLiteralSQL \<Rightarrow> string \<Rightarrow> EscapeLiteralSQL go \<Rightarrow> esc_state \<times> nat \<Rightarrow> bool" where
  "refines s cs m r \<longleftrightarrow>
     (\<exists>t. m = Inr t \<and> absOf t = fst r \<and> drop (Suc (pos t)) (sql s) = drop (snd r) cs)"

lemma refinesI:
  "drop (Suc (pos s)) (sql s) = cs \<Longrightarrow> absOf t = a \<Longrightarrow> pos t = pos s + n \<Longrightarrow> refines s cs (Inr t) (a, n)"
  by (auto simp: refines_def drop_more add.commute)

lemmas escStep_defs = escStep_def escComment_def escQuoted_def escDquoted_def escText_def
  escBackslash_def escOpen_def escDigit_def escDot_def escWord_def

lemma crud_refines: "absOf (define_crud c s) = (absOf s)\<lparr>eType := crudOf c\<rparr>"
  by (auto simp: define_crud_def crudOf_def absOf_def Let_def)

text \<open>The handlers without lookahead.\<close>

lemma pure_refines:
  assumes "drop (Suc (pos s)) (sql s) = cs"
  shows "isDigit c \<Longrightarrow> refines s cs (Inr (h_number c s)) (escStep (cfgOf php s) c cs (absOf s))"
    and "refines s cs (Inr (h_colon (CHR '':'') s)) (escStep (cfgOf php s) (CHR '':'') cs (absOf s))"
    and "refines s cs (Inr (h_dot (CHR ''.'') s)) (escStep (cfgOf php s) (CHR ''.'') cs (absOf s))"
    and "refines s cs (Inr (h_dqutation DQUOTE s)) (escStep (cfgOf True s) DQUOTE cs (absOf s))"
  using assms
  by (auto simp: h_number_def h_colon_def h_dot_def h_dqutation_def escStep_defs isDigit_not
      split: els_status.split intro!: refinesI) (auto simp: isDigit_def)

text \<open>The handlers with lookahead.\<close>

lemma looking_refines:
  assumes "wf_els s" and "drop (pos s) (sql s) = c # cs"
  shows "c = QUOTE \<Longrightarrow> refines s cs (h_qutation c s) (escStep (cfgOf php s) c cs (absOf s))"
    and "c = CHR ''*'' \<Longrightarrow> refines s cs (h_astar c s) (escStep (cfgOf php s) c cs (absOf s))"
    and "c = CHR ''/'' \<Longrightarrow> refines s cs (h_slash c s) (escStep (cfgOf php s) c cs (absOf s))"
  using drop_pos(3) [OF assms(2)] getNext_next [OF assms]
    getNext_next [of "writeComment [c] s"] assms
  by (auto simp: h_qutation_def h_astar_def h_slash_def escStep_defs isDigit_def Let_def
      split: els_status.split intro!: refinesI)

lemma minus_refines:
  assumes "wf_els s" and "drop (pos s) (sql s) = CHR ''-'' # cs"
  shows "refines s cs (h_minus (CHR ''-'') s) (escStep (cfgOf php s) (CHR ''-'') cs (absOf s))"
proof -
  note n = getNext_next [OF assms] and d = drop_pos(3) [OF assms(2)]
  let ?s1 = "writeComment ''-'' s"
  obtain t where t: "skipLine ?s1 = Inr t"
      "absOf t = emitComment (inclueComment s) (lineOf cs) (absOf ?s1)"
      "drop (Suc (pos t)) (sql s) = drop (length (lineOf cs)) cs"
    using skipLine_refines [of ?s1 "CHR ''-''" cs] assms by auto
  show ?thesis
    using n d t
    by (auto simp: h_minus_def escStep_defs isDigit_def refines_def split: els_status.split)
qed

lemma backslash_refines:
  assumes "wf_els s" and "drop (pos s) (sql s) = BACKSLASH # cs"
  shows "refines s cs (h_backslash BACKSLASH s) (escStep (cfgOf True s) BACKSLASH cs (absOf s))"
proof -
  note n = getNext_next [OF assms] and d = drop_pos(3) [OF assms(2)]
  have "nextByte cs \<noteq> NUL \<Longrightarrow> indexAt (sql s) (Suc (pos s)) = Inr (nextByte cs)"
    using n by (auto simp: getNext_def split: if_splits)
  with n d show ?thesis
    by (auto simp: h_backslash_def escStep_defs isDigit_def Let_def
        split: els_status.split intro!: refinesI)
qed

lemma others_refines:
  assumes "drop (Suc (pos s)) (sql s) = cs" and "\<not> isDigit c"
    and "c \<notin> {CHR '':'', CHR ''.'', CHR ''-'', CHR ''/'', CHR ''*'', QUOTE}"
    and "php \<Longrightarrow> c \<noteq> BACKSLASH \<and> c \<noteq> DQUOTE"
  shows "refines s cs (Inr (h_others c s)) (escStep (cfgOf php s) c cs (absOf s))"
proof -
  have txt_c: "escText (cfgOf php s) c cs (absOf s) = (escWord c (absOf s), 0)"
    and quoted: "escQuoted (cfgOf php s) c cs (absOf s) = (emitParam [c] (absOf s), 0)"
    and dquoted: "escDquoted (cfgOf php s) c cs (absOf s) = (emitParam [c] (absOf s), 0)"
    and comment_c: "escComment (cfgOf php s) c cs (absOf s) = (emitComment (inclueComment s) [c] (absOf s), 0)"
    using assms(2-4)
    by (cases php; simp add: escText_def escQuoted_def escDquoted_def escComment_def)+
  have word: "absOf (h_others c s) = escWord c (absOf s)" "pos (h_others c s) = pos s"
    if "status s \<notin> {COMMENT, QUTATION, DQUTATION}"
    using that by (cases "status s"; simp add: h_others_def escWord_def Let_def crud_refines;
        simp add: goto_def emitSql_def absOf_def)+
  show ?thesis
    using txt_c quoted dquoted comment_c word
    by (cases "status s"; simp add: escStep_def; simp add: h_others_def refinesI assms(1))
qed

lemma dispatch_refines:
  assumes "wf_els s" and "drop (pos s) (sql s) = c # cs"
  shows "refines s cs (dispatch php s) (escStep (cfgOf php s) c cs (absOf s))"
proof -
  note d = drop_pos [OF assms(2)]
  show ?thesis
    using d(2) pure_refines [OF d(3)] looking_refines [OF assms, of php] others_refines [OF d(3), of c php]
      minus_refines [OF assms(1), of cs php] backslash_refines [OF assms(1), of cs] assms(2)
    by (auto simp: dispatch_def)
qed

lemma process_loop_refines:
  "wf_els s \<Longrightarrow>
     \<exists>t. process_loop php s = Inr t \<and> absOf t = esc (cfgOf php s) (drop (pos s) (sql s)) (absOf s)"
proof (induction php s rule: process_loop.induct)
  case (1 php s)
  show ?case
  proof (cases "pos s < sql_length s")
    case False
    with "1.prems" show ?thesis
      by (subst process_loop.simps) (simp add: wf_els_def)
  next
    case True
    with "1.prems" obtain c cs where c: "drop (pos s) (sql s) = c # cs"
      by (metis Cons_nth_drop_Suc wf_els_def)
    obtain t where t: "dispatch php s = Inr t"
        "absOf t = fst (escStep (cfgOf php s) c cs (absOf s))"
        "drop (Suc (pos t)) (sql s) = drop (snd (escStep (cfgOf php s) c cs (absOf s))) cs"
      using dispatch_refines [OF "1.prems" c, of php] by (auto simp: refines_def)
    have fr: "same_frame s t" by (rule dispatch.frame [OF t(1)])
    let ?t = "t\<lparr>pos := Suc (pos t)\<rparr>"
    have "wf_els ?t" using same_frame_wf [OF fr "1.prems"] by (simp add: wf_els_def)
    moreover have "cfgOf php ?t = cfgOf php s" by (rule cfgOf_frame) (simp add: fr)
    moreover have "sql t = sql s" using fr by (simp add: same_frame_def)
    ultimately show ?thesis
      using "1.IH" [OF True t(1)] True t c by (subst process_loop.simps) simp
  qed
qed

subsection \<open>One escaped statement\<close>

text \<open>
  How \<^verbatim>\<open>trace.EscapeLiteral\<close> uses the escaper: a fresh object, the comment option, \<open>Process\<close>, then
  the normal form, the parameters and the type byte.
\<close>

definition escapeSql :: "bool \<Rightarrow> bool \<Rightarrow> string \<Rightarrow> (string \<times> string \<times> char) go" where
  "escapeSql php inc q =
     bindGo (Process php (SetIncludeComment inc (NewEscapeLiteralSQL q)))
       (\<lambda>s. Inr (GetParsedSql s, GetParameter s, SqlType s))"

definition defaultCfg :: "bool \<Rightarrow> bool \<Rightarrow> esc_cfg" where
  "defaultCfg php inc = \<lparr>cPhp = php, cComment = inc, cSub = ''#'', cSubNum = ''#''\<rparr>"

definition esc0 :: esc_state where
  "esc0 = \<lparr>eStatus = NORMAL, eSql = [], eParam = [], eType = NUL\<rparr>"

lemma defaultCfg_simps [simp]:
  "cPhp (defaultCfg php inc) = php" "cComment (defaultCfg php inc) = inc"
  "cSub (defaultCfg php inc) = ''#''" "cSubNum (defaultCfg php inc) = ''#''"
  by (simp_all add: defaultCfg_def)

lemma escapeSql_esc:
  "escapeSql php inc q =
     (let a = esc (defaultCfg php inc) q esc0 in Inr (eSql a, eParam a, eType a))"
proof -
  let ?s = "(SetIncludeComment inc (NewEscapeLiteralSQL q))\<lparr>status := NORMAL, pos := 0\<rparr>"
  have "wf_els ?s" by (simp add: wf_els_def SetIncludeComment_def NewEscapeLiteralSQL_def)
  then obtain t where t: "process_loop php ?s = Inr t" "absOf t = esc (cfgOf php ?s) (drop (pos ?s) (sql ?s)) (absOf ?s)"
    using process_loop_refines by blast
  moreover have "cfgOf php ?s = defaultCfg php inc" "absOf ?s = esc0" "drop (pos ?s) (sql ?s) = q"
    by (simp_all add: cfgOf_def defaultCfg_def absOf_def esc0_def SetIncludeComment_def
        NewEscapeLiteralSQL_def goto_def)
  ultimately have "absOf t = esc (defaultCfg php inc) q esc0" by simp
  from this [symmetric] t(1) show ?thesis
    by (simp add: escapeSql_def Process_def GetParsedSql_def GetParameter_def Let_def absOf_def)
qed

subsection \<open>Reading a prefix\<close>

text \<open>
  \<open>scan k q pre a\<close> is the state after \<open>pre\<close> when the byte after it is \<open>q\<close>, and \<open>None\<close> when a byte
  of \<open>pre\<close> would consume beyond its end.
\<close>

function scan :: "esc_cfg \<Rightarrow> char \<Rightarrow> string \<Rightarrow> esc_state \<Rightarrow> esc_state option" where
  "scan k q [] a = Some a"
| "scan k q (c # cs) a =
     (if snd (escStep k c (cs @ [q]) a) \<le> length cs
      then scan k q (drop (snd (escStep k c (cs @ [q]) a)) cs) (fst (escStep k c (cs @ [q]) a))
      else None)"
  by pat_completeness auto
termination
  by (relation "measure (\<lambda>(k, q, cs, a). length cs)") auto

lemma nextByte_append: "nextByte (cs @ q # r) = (case cs of [] \<Rightarrow> q | d # ds \<Rightarrow> d)"
  by (cases cs) auto

lemma lineOf_append:
  "length (lineOf (cs @ [q])) \<le> length cs \<Longrightarrow> lineOf (cs @ q # r) = lineOf (cs @ [q])"
  by (induction cs) (auto split: if_splits)

lemma escStep_local:
  assumes "snd (escStep k c (cs @ [q]) a) \<le> length cs"
  shows "escStep k c (cs @ q # r) a = escStep k c (cs @ [q]) a"
proof (cases "eStatus a \<in> {COMMENT, QUTATION, DQUTATION}")
  case True
  then show ?thesis
    by (auto simp: escStep_def escComment_def escQuoted_def escDquoted_def escBackslash_def nextByte_append)
next
  case False
  then have st: "\<And>cs. escStep k c cs a = escText k c cs a"
    by (auto simp: escStep_def split: els_status.splits)
  show ?thesis
  proof (cases "c = CHR ''-'' \<and> nextByte (cs @ [q]) = CHR ''-''")
    case True
    with assms st have "length (lineOf (cs @ [q])) \<le> length cs"
      by (simp add: escText_def isDigit_def)
    from lineOf_append [OF this, of r] True st show ?thesis
      by (simp add: escText_def nextByte_append isDigit_def)
  next
    case False
    with st show ?thesis
      by (cases "c = CHR ''-''"; simp add: escText_def nextByte_append isDigit_def)
  qed
qed

lemma scan_esc: "scan k q pre a = Some b \<Longrightarrow> esc k (pre @ q # r) a = esc k (q # r) b"
proof (induction k q pre a rule: scan.induct)
  case (1 k q a)
  then show ?case by simp
next
  case (2 k q c cs a)
  let ?st = "escStep k c (cs @ [q]) a"
  from "2.prems" have le: "snd ?st \<le> length cs"
    and rest: "scan k q (drop (snd ?st) cs) (fst ?st) = Some b"
    by (auto split: if_splits)
  from "2.IH" [OF le rest] le show ?case
    by (simp add: escStep_local [OF le, of r])
qed

subsection \<open>Literals\<close>

lemmas emit_defs = emitSql_def emitParam_def emitComment_def emitOpen_def goto_def

text \<open>Inside a string literal every byte goes to the parameters.\<close>

lemma esc_quoted_body:
  assumes "eStatus a = QUTATION" and "QUOTE \<notin> set lit" and "cPhp k \<Longrightarrow> BACKSLASH \<notin> set lit"
  shows "esc k (lit @ r) a = esc k r (emitParam lit a)"
  using assms
proof (induction lit arbitrary: a)
  case Nil
  then show ?case by (simp add: emitParam_def)
next
  case (Cons c cs)
  then have "escStep k c (cs @ r) a = (emitParam [c] a, 0)"
    by (auto simp: escStep_def escQuoted_def)
  moreover have "eStatus (emitParam [c] a) = QUTATION"
    using Cons.prems(1) by (simp add: emitParam_def)
  moreover have "emitParam cs (emitParam [c] a) = emitParam (c # cs) a"
    by (simp add: emitParam_def)
  ultimately show ?case
    using Cons.IH [of "emitParam [c] a"] Cons.prems(2,3) by simp
qed

lemma esc_string_literal:
  assumes "eStatus a = NORMAL" and "QUOTE \<notin> set lit" and "cPhp k \<Longrightarrow> BACKSLASH \<notin> set lit"
    and "nextByte post \<noteq> QUOTE"
  shows "esc k (QUOTE # lit @ QUOTE # post) a =
    esc k post (goto NORMAL (emitSql ([QUOTE] @ cSub k @ [QUOTE]) (emitParam (lit @ [QUOTE]) (emitOpen [QUOTE] a))))"
proof -
  let ?b = "goto QUTATION (emitOpen [QUOTE] a)"
  have open_step: "escStep k QUOTE (lit @ QUOTE # post) a = (?b, 0)"
    using assms(1) by (simp add: escStep_def escText_def escOpen_def isDigit_def)
  have close: "escStep k QUOTE post (emitParam lit ?b) =
      (goto NORMAL (emitSql ([QUOTE] @ cSub k @ [QUOTE]) (emitParam [QUOTE] (emitParam lit ?b))), 0)"
    using assms(4) by (simp add: escStep_def escQuoted_def emit_defs)
  have "esc k (QUOTE # lit @ QUOTE # post) a = esc k (lit @ QUOTE # post) ?b"
    by (simp add: open_step)
  also have "\<dots> = esc k (QUOTE # post) (emitParam lit ?b)"
    by (rule esc_quoted_body) (use assms(2,3) in \<open>auto simp: goto_def\<close>)
  also have "\<dots> = esc k post (fst (escStep k QUOTE post (emitParam lit ?b)))"
    by (simp add: close)
  also have "fst (escStep k QUOTE post (emitParam lit ?b)) =
      goto NORMAL (emitSql ([QUOTE] @ cSub k @ [QUOTE]) (emitParam (lit @ [QUOTE]) (emitOpen [QUOTE] a)))"
    by (subst close) (simp add: emit_defs)
  finally show ?thesis .
qed

definition numeral_tail :: "string \<Rightarrow> bool" where
  "numeral_tail ds \<longleftrightarrow> (\<forall>d \<in> set ds. isDigit d \<or> d = CHR ''.'')"

lemma esc_number_tail:
  assumes "eStatus a = NUMBER" and "numeral_tail ds"
  shows "esc k (ds @ r) a = esc k r (emitParam ds a)"
  using assms
proof (induction ds arbitrary: a)
  case Nil
  then show ?case by (simp add: emitParam_def)
next
  case (Cons c cs)
  then have "escStep k c (cs @ r) a = (emitParam [c] a, 0)"
    by (auto simp: escStep_def escText_def escDigit_def escDot_def numeral_tail_def)
  moreover have "emitParam cs (emitParam [c] a) = emitParam (c # cs) a"
    "eStatus (emitParam [c] a) = NUMBER"
    using Cons.prems(1) by (simp_all add: emitParam_def)
  ultimately show ?case
    using Cons.IH [of "emitParam [c] a"] Cons.prems(2) by (simp add: numeral_tail_def)
qed

lemma esc_number_literal:
  assumes "eStatus a = NORMAL" and "isDigit d" and "numeral_tail ds"
  shows "esc k (d # ds @ post) a =
    esc k post (goto NUMBER (emitSql (cSubNum k) (emitParam ds (emitOpen [d] a))))"
proof -
  have "escStep k d (ds @ post) a = (goto NUMBER (emitSql (cSubNum k) (emitOpen [d] a)), 0)"
    using assms(1,2) by (simp add: escStep_def escText_def escDigit_def)
  then have "esc k (d # ds @ post) a = esc k (ds @ post) (goto NUMBER (emitSql (cSubNum k) (emitOpen [d] a)))"
    by simp
  also have "\<dots> = esc k post (emitParam ds (goto NUMBER (emitSql (cSubNum k) (emitOpen [d] a))))"
    by (rule esc_number_tail) (use assms(3) in \<open>auto simp: goto_def\<close>)
  also have "emitParam ds (goto NUMBER (emitSql (cSubNum k) (emitOpen [d] a))) =
      goto NUMBER (emitSql (cSubNum k) (emitParam ds (emitOpen [d] a)))"
    by (simp add: emit_defs)
  finally show ?thesis .
qed

subsection \<open>The normal form does not depend on the parameters\<close>

definition same_text :: "esc_state \<Rightarrow> esc_state \<Rightarrow> bool" where
  "same_text a b \<longleftrightarrow> eStatus a = eStatus b \<and> eSql a = eSql b \<and> eType a = eType b"

lemma same_text_emit [simp]:
  "same_text a b \<Longrightarrow> same_text (emitSql w a) (emitSql w b)"
  "same_text (emitParam w a) (emitParam v b) = same_text a b"
  "same_text a b \<Longrightarrow> same_text (emitComment c w a) (emitComment c w b)"
  "same_text (emitOpen w a) (emitOpen v b) = same_text a b"
  "same_text a b \<Longrightarrow> same_text (goto x a) (goto x b)"
  "same_text a b \<Longrightarrow> same_text (a\<lparr>eType := t\<rparr>) (b\<lparr>eType := t\<rparr>)"
  by (auto simp: same_text_def emit_defs)

lemma escText_same_text:
  assumes "same_text a b"
  shows "snd (escText k c cs a) = snd (escText k c cs b)"
    and "same_text (fst (escText k c cs a)) (fst (escText k c cs b))"
proof -
  from assms have eq: "eStatus b = eStatus a" "eType b = eType a" by (auto simp: same_text_def)
  have "\<And>c. same_text (escDigit k c a) (escDigit k c b)" "\<And>c. same_text (escDot c a) (escDot c b)"
    "\<And>q c. same_text (escOpen q c a) (escOpen q c b)" "\<And>c. same_text (escWord c a) (escWord c b)"
    using assms eq
    by (auto simp: escDigit_def escDot_def escOpen_def escWord_def split: els_status.split)
  then show "snd (escText k c cs a) = snd (escText k c cs b)"
    and "same_text (fst (escText k c cs a)) (fst (escText k c cs b))"
    using assms by (simp_all add: escText_def)
qed

lemma escStep_same_text:
  assumes "same_text a b"
  shows "snd (escStep k c cs a) = snd (escStep k c cs b)"
    and "same_text (fst (escStep k c cs a)) (fst (escStep k c cs b))"
proof -
  from assms have eq: "eStatus b = eStatus a" by (auto simp: same_text_def)
  show "snd (escStep k c cs a) = snd (escStep k c cs b)"
    and "same_text (fst (escStep k c cs a)) (fst (escStep k c cs b))"
    using assms escText_same_text [OF assms]
    by (simp_all add: escStep_def eq escComment_def escQuoted_def escDquoted_def escBackslash_def
        split: els_status.split)
qed

lemma esc_same_text: "same_text a b \<Longrightarrow> same_text (esc k cs a) (esc k cs b)"
proof (induction k cs a arbitrary: b rule: esc.induct)
  case (1 k a)
  then show ?case by simp
next
  case (2 k c cs a)
  from escStep_same_text [OF "2.prems", of k c cs] "2.IH" show ?case by simp
qed

lemma escStep_grows:
  "prefix (eParam a) (eParam (fst (escStep k c cs a)))"
  by (simp add: escStep_def escComment_def escQuoted_def escDquoted_def escText_def escBackslash_def
      escOpen_def escDigit_def escDot_def escWord_def emit_defs split: els_status.split)

lemma esc_grows: "prefix (eParam a) (eParam (esc k cs a))"
proof (induction k cs a rule: esc.induct)
  case (1 k a)
  then show ?case by simp
next
  case (2 k c cs a)
  with escStep_grows [of a k c cs] show ?case by (auto intro: prefix_order.trans)
qed

text \<open>A byte that no branch but the last treats specially.\<close>

definition plainByte :: "bool \<Rightarrow> char \<Rightarrow> bool" where
  "plainByte php c \<longleftrightarrow>
     \<not> isDigit c \<and> c \<notin> set '':.-/*'' \<and> c \<noteq> QUOTE \<and> (php \<longrightarrow> c \<noteq> BACKSLASH \<and> c \<noteq> DQUOTE)"

lemma escStep_plain:
  assumes "eStatus a \<in> {NORMAL, ALPABET}" and "plainByte (cPhp k) c"
  shows "escStep k c cs a = (escWord c a, 0)"
  using assms by (cases "cPhp k") (auto simp: plainByte_def escStep_def escText_def)

lemma escWord_plain:
  "eStatus a \<in> {NORMAL, ALPABET} \<Longrightarrow>
     eSql (escWord c a) = eSql a @ [c] \<and> eParam (escWord c a) = eParam a \<and>
     eStatus (escWord c a) \<in> {NORMAL, ALPABET}"
  by (auto simp: escWord_def emit_defs)

lemma esc_plain:
  assumes "eStatus a \<in> {NORMAL, ALPABET}" and "\<forall>c \<in> set cs. plainByte (cPhp k) c"
  shows "\<exists>b. (\<forall>r. esc k (cs @ r) a = esc k r b) \<and> eSql b = eSql a @ cs \<and> eParam b = eParam a
             \<and> eStatus b \<in> {NORMAL, ALPABET}"
  using assms
proof (induction cs arbitrary: a)
  case Nil
  then show ?case by auto
next
  case (Cons c cs)
  let ?a = "escWord c a"
  from Cons.prems have plain: "plainByte (cPhp k) c" "\<forall>c \<in> set cs. plainByte (cPhp k) c" by auto
  note w = escWord_plain [OF Cons.prems(1), of c]
  obtain b where b: "\<forall>r. esc k (cs @ r) ?a = esc k r b" "eSql b = eSql ?a @ cs" "eParam b = eParam ?a"
      "eStatus b \<in> {NORMAL, ALPABET}"
    using Cons.IH [of ?a] w plain(2) by blast
  have "esc k ((c # cs) @ r) a = esc k (cs @ r) ?a" for r
    using escStep_plain [OF Cons.prems(1) plain(1)] by simp
  with b w show ?case by (intro exI [of _ b]) auto
qed

lemma eStatus_emitComment [simp]: "eStatus (emitComment b w a) = eStatus a"
  by (simp add: emit_defs)

lemma esc_comment_body:
  assumes "eStatus a = COMMENT" and "Index (body @ ''*/'') ''*/'' = int (length body)"
  shows "esc k (body @ ''*/'' @ post) a =
    esc k post (goto NORMAL (emitComment (cComment k) (body @ ''*/'') a))"
  using assms
proof (induction body arbitrary: a)
  case Nil
  then show ?case by (simp add: escStep_def escComment_def)
next
  case (Cons c cs)
  from Cons.prems(2) have np: "\<not> HasPrefix (c # cs @ ''*/'') ''*/''" by auto
  with Cons.prems(2) have ix: "Index (cs @ ''*/'') ''*/'' = int (length cs)"
    by (auto simp: Let_def split: if_splits)
  from np have "\<not> (c = CHR ''*'' \<and> nextByte (cs @ ''*/'' @ post) = CHR ''/'')"
    by (cases cs) (auto simp: HasPrefix_def)
  with Cons.prems(1) have st: "escStep k c (cs @ ''*/'' @ post) a = (emitComment (cComment k) [c] a, 0)"
    by (simp add: escStep_def escComment_def)
  have "esc k ((c # cs) @ ''*/'' @ post) a = esc k (cs @ ''*/'' @ post) (emitComment (cComment k) [c] a)"
    using st by simp
  also have "\<dots> = esc k post (goto NORMAL (emitComment (cComment k) (cs @ ''*/'') (emitComment (cComment k) [c] a)))"
    by (rule Cons.IH) (use Cons.prems(1) ix in auto)
  finally show ?case by simp
qed

lemma esc_block_comment:
  assumes "eStatus a \<in> {NORMAL, ALPABET, NUMBER, COLON}"
    and "Index (body @ ''*/'') ''*/'' = int (length body)"
  shows "esc k (''/*'' @ body @ ''*/'' @ post) a =
    esc k post (goto NORMAL (emitComment (cComment k) (''/*'' @ body @ ''*/'') (goto COMMENT a)))"
proof -
  have "escStep k (CHR ''/'') (CHR ''*'' # body @ ''*/'' @ post) a = (goto COMMENT (emitComment (cComment k) ''/*'' a), 1)"
    using assms(1) by (auto simp: escStep_def escText_def isDigit_def)
  then have "esc k (''/*'' @ body @ ''*/'' @ post) a =
      esc k (body @ ''*/'' @ post) (goto COMMENT (emitComment (cComment k) ''/*'' a))"
    by simp
  also have "\<dots> = esc k post (goto NORMAL (emitComment (cComment k) (body @ ''*/'')
      (goto COMMENT (emitComment (cComment k) ''/*'' a))))"
    by (rule esc_comment_body) (use assms(2) in \<open>auto simp: goto_def\<close>)
  also have "goto COMMENT (emitComment (cComment k) ''/*'' a) = emitComment (cComment k) ''/*'' (goto COMMENT a)"
    by (simp add: emit_defs)
  finally show ?thesis by simp
qed

lemma esc_plain_all:
  assumes "eStatus a \<in> {NORMAL, ALPABET}" and "\<forall>c \<in> set cs. plainByte (cPhp k) c"
  shows "eSql (esc k cs a) = eSql a @ cs \<and> eParam (esc k cs a) = eParam a"
  using esc_plain [OF assms] by (metis append_Nil2 esc.simps(1))

subsection \<open>Properties of the escaper\<close>

text \<open>C1: \<open>Process\<close> returns for every well-formed object, whatever the options, without panicking,
  and its buffers, status and type byte are those of the reference machine on the same statement.\<close>

theorem Process_refines:
  assumes "wf_els s"
  shows "\<exists>t. Process php s = Inr t \<and> absOf t = esc (cfgOf php s) (sql s) (goto NORMAL (absOf s))"
  using process_loop_refines [of "s\<lparr>status := NORMAL, pos := 0\<rparr>" php] assms
  by (simp add: Process_def wf_els_def cfgOf_def)

theorem Process_refines_witness:
  "\<exists>t. Process True (Setsubstitute ''?'' (SetSubstituteStringMode True (NewEscapeLiteralSQL ''select 1''))) = Inr t \<and>
       eSql (absOf t) = ''select '' @ [QUOTE, CHR ''?'', QUOTE]"
proof -
  let ?s = "Setsubstitute ''?'' (SetSubstituteStringMode True (NewEscapeLiteralSQL ''select 1''))"
  have wf: "wf_els ?s" by code_simp
  have val: "eSql (esc (cfgOf True ?s) (sql ?s) (goto NORMAL (absOf ?s))) = ''select '' @ [QUOTE, CHR ''?'', QUOTE]"
    by code_simp
  obtain t where "Process True ?s = Inr t" "absOf t = esc (cfgOf True ?s) (sql ?s) (goto NORMAL (absOf ?s))"
    using Process_refines [OF wf, of True] by blast
  with val show ?thesis by metis
qed



text \<open>The same for number literals: two statements that differ only in the digits of a number
  have the same normal form and the same type.\<close>

theorem number_literal_masked:
  assumes "scan (defaultCfg php inc) d pre esc0 = Some a" and "scan (defaultCfg php inc) e pre esc0 = Some a"
    and "eStatus a = NORMAL" and "isDigit d" and "isDigit e" and "numeral_tail ds" and "numeral_tail es"
  shows "\<exists>n p1 p2 ty. escapeSql php inc (pre @ d # ds @ post) = Inr (n, p1, ty) \<and>
                      escapeSql php inc (pre @ e # es @ post) = Inr (n, p2, ty)"
proof -
  let ?k = "defaultCfg php inc"
  let ?b = "\<lambda>d ds. goto NUMBER (emitSql (cSubNum ?k) (emitParam ds (emitOpen [d] a)))"
  have "esc ?k (pre @ d # ds @ post) esc0 = esc ?k post (?b d ds)"
    unfolding scan_esc [OF assms(1)] by (rule esc_number_literal) (use assms in auto)
  moreover have "esc ?k (pre @ e # es @ post) esc0 = esc ?k post (?b e es)"
    unfolding scan_esc [OF assms(2)] by (rule esc_number_literal) (use assms in auto)
  moreover have "same_text (esc ?k post (?b d ds)) (esc ?k post (?b e es))"
    by (rule esc_same_text) (auto simp: same_text_def emit_defs)
  ultimately show ?thesis by (auto simp: escapeSql_esc Let_def same_text_def)
qed

theorem number_literal_masked_witness:
  "\<exists>n p1 p2 ty. escapeSql False True (''update t set a='' @ CHR ''1'' # ''2.5'' @ '' where b'') = Inr (n, p1, ty) \<and>
                escapeSql False True (''update t set a='' @ CHR ''9'' # [] @ '' where b'') = Inr (n, p2, ty)"
proof -
  let ?a = "the (scan (defaultCfg False True) (CHR ''1'') ''update t set a='' esc0)"
  have "scan (defaultCfg False True) (CHR ''1'') ''update t set a='' esc0 = Some ?a" by code_simp
  moreover have "scan (defaultCfg False True) (CHR ''9'') ''update t set a='' esc0 = Some ?a" by code_simp
  moreover have "eStatus ?a = NORMAL" by code_simp
  ultimately show ?thesis
    by (rule number_literal_masked) (simp_all add: isDigit_def numeral_tail_def)
qed

text \<open>A string literal is kept, byte for byte and with its quotes, in the parameters, after those
  of the prefix and a comma.\<close>

theorem string_literal_recorded:
  assumes "scan (defaultCfg php inc) QUOTE pre esc0 = Some a" and "eStatus a = NORMAL"
    and "QUOTE \<notin> set lit" and "php \<Longrightarrow> BACKSLASH \<notin> set lit" and "nextByte post \<noteq> QUOTE"
  shows "\<exists>n p ty. escapeSql php inc (pre @ QUOTE # lit @ QUOTE # post) = Inr (n, p, ty) \<and>
           prefix (eParam a @ (if eParam a = [] then [] else '','') @ QUOTE # lit @ [QUOTE]) p"
proof -
  let ?k = "defaultCfg php inc"
  let ?b = "goto NORMAL (emitSql ([QUOTE] @ cSub ?k @ [QUOTE]) (emitParam (lit @ [QUOTE]) (emitOpen [QUOTE] a)))"
  have "esc ?k (pre @ QUOTE # lit @ QUOTE # post) esc0 = esc ?k post ?b"
    unfolding scan_esc [OF assms(1)] by (rule esc_string_literal) (use assms in auto)
  moreover have "eParam ?b = eParam a @ (if eParam a = [] then [] else '','') @ QUOTE # lit @ [QUOTE]"
    by (simp add: emit_defs)
  ultimately show ?thesis
    using esc_grows [of ?b ?k post] by (simp add: escapeSql_esc Let_def)
qed

theorem string_literal_recorded_witness:
  "\<exists>n p ty. escapeSql False True (''insert into t values(7,'' @ QUOTE # ''kim'' @ QUOTE # '')'') = Inr (n, p, ty) \<and>
            prefix (''7,'' @ QUOTE # ''kim'' @ [QUOTE]) p"
proof -
  let ?a = "the (scan (defaultCfg False True) QUOTE ''insert into t values(7,'' esc0)"
  have "scan (defaultCfg False True) QUOTE ''insert into t values(7,'' esc0 = Some ?a" by code_simp
  moreover have "eStatus ?a = NORMAL" by code_simp
  moreover have "eParam ?a = ''7''" by code_simp
  ultimately show ?thesis
    using string_literal_recorded [of False True "''insert into t values(7,''" ?a "''kim''" "'')''"] by simp
qed

text \<open>A statement with no literal, comment marker, colon, dot, minus or slash is its own normal
  form and has no parameters.\<close>

theorem plain_statement_unchanged:
  assumes "\<forall>c \<in> set q. plainByte php c"
  shows "\<exists>ty. escapeSql php inc q = Inr (q, [], ty)"
  using esc_plain_all [of esc0 q "defaultCfg php inc"] assms
  by (simp add: escapeSql_esc Let_def esc0_def)

theorem plain_statement_unchanged_witness:
  "\<exists>ty. escapeSql True True ''SELECT name FROM member WHERE id = ?'' = Inr (''SELECT name FROM member WHERE id = ?'', [], ty)"
  by (rule plain_statement_unchanged) (simp add: plainByte_def isDigit_def)

text \<open>With comments excluded, the text of a block comment has no effect on the result: replacing it
  gives the same normal form, parameters and type.\<close>

theorem block_comment_dropped:
  assumes "scan (defaultCfg php False) (CHR ''/'') pre esc0 = Some a"
    and "eStatus a \<in> {NORMAL, ALPABET, NUMBER, COLON}"
    and "Index (body1 @ ''*/'') ''*/'' = int (length body1)"
    and "Index (body2 @ ''*/'') ''*/'' = int (length body2)"
  shows "escapeSql php False (pre @ ''/*'' @ body1 @ ''*/'' @ post) =
         escapeSql php False (pre @ ''/*'' @ body2 @ ''*/'' @ post)"
proof -
  have "esc (defaultCfg php False) (pre @ ''/*'' @ body @ ''*/'' @ post) esc0 =
      esc (defaultCfg php False) post (goto NORMAL (goto COMMENT a))"
    if "Index (body @ ''*/'') ''*/'' = int (length body)" for body
    using scan_esc [OF assms(1), of "CHR ''*'' # body @ ''*/'' @ post"]
      esc_block_comment [OF assms(2) that, of "defaultCfg php False" post]
    by (simp add: emitComment_def del: esc.simps)
  with assms(3,4) show ?thesis by (simp add: escapeSql_esc del: esc.simps)
qed

theorem block_comment_dropped_witness:
  "escapeSql False False (''select '' @ ''/*'' @ ''+ index(a) '' @ ''*/'' @ '' b from c'') =
   escapeSql False False (''select '' @ ''/*'' @ ''* / x'' @ ''*/'' @ '' b from c'')"
proof -
  let ?a = "the (scan (defaultCfg False False) (CHR ''/'') ''select '' esc0)"
  have "scan (defaultCfg False False) (CHR ''/'') ''select '' esc0 = Some ?a" by code_simp
  moreover have "eStatus ?a \<in> {NORMAL, ALPABET, NUMBER, COLON}" by code_simp
  ultimately show ?thesis by (rule block_comment_dropped) code_simp+
qed

text \<open>A slash that does not open a comment is written nowhere, so a division disappears from the
  normal form: \<open>p/q\<close> and \<open>pq\<close> get the same one.\<close>

theorem division_slash_lost:
  assumes "\<forall>c \<in> set p. plainByte php c" and "\<forall>c \<in> set q. plainByte php c"
  shows "\<exists>ty. escapeSql php inc (p @ ''/'' @ q) = Inr (p @ q, [], ty)"
proof -
  let ?k = "defaultCfg php inc"
  obtain b where b: "\<forall>r. esc ?k (p @ r) esc0 = esc ?k r b" "eSql b = p" "eParam b = []"
      "eStatus b \<in> {NORMAL, ALPABET}"
    using esc_plain [of esc0 p ?k] assms(1) by (auto simp: esc0_def)
  have "nextByte q \<noteq> CHR ''*''" using assms(2) by (cases q) (auto simp: plainByte_def)
  with b(4) have "escStep ?k (CHR ''/'') q b = (b, 0)"
    by (auto simp: escStep_def escText_def isDigit_def)
  with b(1) have "esc ?k (p @ ''/'' @ q) esc0 = esc ?k q b" by simp
  moreover have "eSql (esc ?k q b) = p @ q \<and> eParam (esc ?k q b) = []"
    using esc_plain_all [OF b(4), of q ?k] assms(2) b(2,3) by simp
  ultimately show ?thesis by (simp add: escapeSql_esc Let_def)
qed

theorem division_slash_lost_witness:
  "\<exists>ty. escapeSql False True (''select a'' @ ''/'' @ ''b from t'') = Inr (''select a'' @ ''b from t'', [], ty)"
  by (rule division_slash_lost) (simp_all add: plainByte_def isDigit_def)

end
