(* ===== verification/Secure.thy ===== *)
theory Secure
  imports Prelude
begin

unbundle bit_operations_syntax

text \<open>
  Protection of the data the agent sends: the parameter cipher \<open>ParamSecurity\<close>
  (\<^verbatim>\<open>agent/agent/secure/ParamSecurity.go\<close>) that hides SQL and URL parameters, with the loading of its
  key from the home directory, and the packet cipher \<open>Cypher\<close> (\<^verbatim>\<open>agent/util/crypto/Cypher.go\<close>).

  Bytes are \<open>8 word\<close>. The block cipher of \<^verbatim>\<open>crypto/aes\<close> is an interface value in the code and a pair
  of functions here; \<open>hash.Hash\<close> and \<open>io.ToBytesInt\<close> (module golib) and the properties file format
  are parameters.
\<close>

type_synonym byte = "8 word"

subsection \<open>ParamSecurity: the struct and the two loops\<close>

record ParamSecurity =
  lasttime :: int
  key :: "byte list"
  KeyHash :: int

fun Encrypt_loop :: "byte list \<Rightarrow> nat \<Rightarrow> byte list \<Rightarrow> byte \<Rightarrow> (byte list \<times> byte) go" where
  "Encrypt_loop k j [] crc = Inr ([], crc)"
| "Encrypt_loop k j (x # xs) crc =
     (let crc1 = crc XOR x in
      bindGo (indexAt k j) (\<lambda>m.
      bindGo (Encrypt_loop k ((j + 1) mod length k) xs crc1) (\<lambda>(ys, c).
      Inr ((x XOR m) # ys, c))))"

definition Encrypt :: "ParamSecurity \<Rightarrow> byte list \<Rightarrow> byte \<Rightarrow> (byte list \<times> byte) go" where
  "Encrypt p b crc = Encrypt_loop (key p) 0 b crc"

fun Decrypt_loop :: "byte list \<Rightarrow> nat \<Rightarrow> byte list \<Rightarrow> byte \<Rightarrow> (byte list \<times> byte) go" where
  "Decrypt_loop k j [] crc = Inr ([], crc)"
| "Decrypt_loop k j (x # xs) crc =
     bindGo (indexAt k j) (\<lambda>m.
     let y = x XOR m; crc1 = crc XOR y in
     bindGo (Decrypt_loop k ((j + 1) mod length k) xs crc1) (\<lambda>(ys, c).
     Inr (y # ys, c)))"

definition Decrypt :: "byte list \<Rightarrow> byte \<Rightarrow> byte list \<Rightarrow> (byte list \<times> byte) go" where
  "Decrypt b crc dkey = Decrypt_loop dkey 0 b crc"

definition bytesOf :: "string \<Rightarrow> byte list" where
  "bytesOf s = map (\<lambda>c. word_of_nat (of_char c)) s"

definition stringOf :: "byte list \<Rightarrow> string" where
  "stringOf bs = map (\<lambda>b. char_of (unat b)) bs"

definition IsSafe :: "ParamSecurity \<Rightarrow> string \<Rightarrow> bool" where
  "IsSafe p skey \<longleftrightarrow> skey \<noteq> [] \<and> key p = bytesOf skey"

text \<open>A statement without parameters has no encrypted form (nil).\<close>

definition toParamBytes :: "ParamSecurity \<Rightarrow> string \<Rightarrow> byte \<Rightarrow> (byte list option \<times> byte) go" where
  "toParamBytes sec p crc =
     (if p = [] then Inr (None, crc)
      else bindGo (Encrypt sec (bytesOf p) crc) (\<lambda>(b, c). Inr (Some b, c)))"

subsection \<open>ParamSecurity: loading the key\<close>

text \<open>
  The home directory: \<open>security_conf\<close> is the modification time and the bytes of
  \<^verbatim>\<open>security.conf\<close> when it exists, \<open>paramkey_txt\<close> the bytes of \<^verbatim>\<open>paramkey.txt\<close>, and \<open>writable\<close>
  tells whether a file can be created there at time \<open>now\<close>. \<open>properties.LoadFile\<close> is
  \<open>parse\<close> (None for an error, else the value of \<^verbatim>\<open>paramkey\<close> if there is one) and
  \<open>prop.Write\<close> of the single property is \<open>print\<close>.
\<close>

record home =
  security_conf :: "(int \<times> string) option"
  paramkey_txt :: "string option"
  writable :: bool
  now :: int

definition NewParamSecurity :: "(byte list \<Rightarrow> int) \<Rightarrow> ParamSecurity" where
  "NewParamSecurity hash =
     \<lparr>lasttime = -1, key = bytesOf ''WHATAP'', KeyHash = hash (bytesOf ''WHATAP'')\<rparr>"

definition setKey :: "(byte list \<Rightarrow> int) \<Rightarrow> string \<Rightarrow> ParamSecurity \<Rightarrow> ParamSecurity" where
  "setKey hash s p = p\<lparr>key := bytesOf s, KeyHash := hash (bytesOf s)\<rparr>"

text \<open>
  \<open>f.Read\<close> fills a buffer of 512 bytes; on an empty file it returns \<open>io.EOF\<close>, an error. The
  result is the new object and whether the call returned without an error.
\<close>

definition loadParamkey :: "(byte list \<Rightarrow> int) \<Rightarrow> home \<Rightarrow> ParamSecurity \<Rightarrow> ParamSecurity \<times> bool" where
  "loadParamkey hash h p =
     (case paramkey_txt h of
        None \<Rightarrow> (p, False)
      | Some content \<Rightarrow>
          let b = take 512 content; n = length b in
          if n = 0 then (p, False)
          else if n > 3 then (setKey hash (TrimSpace b) p, True)
          else (setKey hash ''WHATAP'' p, True))"

definition save :: "(string \<Rightarrow> string) \<Rightarrow> string \<Rightarrow> home \<Rightarrow> home" where
  "save print password h =
     (case security_conf h of
        Some _ \<Rightarrow> h
      | None \<Rightarrow> if writable h then h\<lparr>security_conf := Some (now h, print password)\<rparr> else h)"

definition load ::
  "(byte list \<Rightarrow> int) \<Rightarrow> (string \<Rightarrow> string option option) \<Rightarrow> string \<Rightarrow> ParamSecurity \<Rightarrow> ParamSecurity" where
  "load hash parse content p =
     (case parse content of
        None \<Rightarrow> p
      | Some (Some pkey) \<Rightarrow> setKey hash (TrimSpace pkey) p
      | Some None \<Rightarrow> setKey hash ''WHATAP'' p)"

text \<open>
  \<open>loadConf\<close> dereferences the result of the second \<open>os.Stat\<close>, which is nil when the file
  could not be created: the panic is the third component, and \<open>Reload\<close> recovers it.
\<close>

definition loadConf ::
  "(byte list \<Rightarrow> int) \<Rightarrow> (string \<Rightarrow> string option option) \<Rightarrow> (string \<Rightarrow> string) \<Rightarrow>
   home \<Rightarrow> ParamSecurity \<Rightarrow> ParamSecurity \<times> home \<times> gopanic option" where
  "loadConf hash parse print h p =
     (let (p1, h1) =
        (if security_conf h = None
         then (let (q, ok) = loadParamkey hash h p in
               if ok then (q, save print (stringOf (key q)) h)
               else (q, save print ''WHATAP'' h))
         else (p, h)) in
      case security_conf h1 of
        None \<Rightarrow> (p1, h1, Some NilDereference)
      | Some (mtime, content) \<Rightarrow>
          if mtime = lasttime p1 then (p1, h1, None)
          else (load hash parse content (p1\<lparr>lasttime := mtime\<rparr>), h1, None))"

definition Reload ::
  "(byte list \<Rightarrow> int) \<Rightarrow> (string \<Rightarrow> string option option) \<Rightarrow> (string \<Rightarrow> string) \<Rightarrow>
   home \<Rightarrow> ParamSecurity \<Rightarrow> ParamSecurity \<times> home" where
  "Reload hash parse print h p = (let (p1, h1, _) = loadConf hash parse print h p in (p1, h1))"

subsection \<open>Cypher: the struct and its operations\<close>

text \<open>
  \<open>cipher\<close> is the interface value \<open>cipher.Block\<close> made by \<open>aes.NewCipher\<close>: it works on the
  first 16 bytes of its arguments and panics when they are shorter.
\<close>

record cipher =
  blockEncrypt :: "byte list \<Rightarrow> byte list"
  blockDecrypt :: "byte list \<Rightarrow> byte list"

record Cypher =
  block :: nat
  cypher :: "cipher option"
  xor_key :: "byte list option"

definition aesBlockSize :: nat where
  "aesBlockSize = 16"

definition padding :: "nat \<Rightarrow> byte list \<Rightarrow> byte list" where
  "padding blk src =
     (if length src = blk then src
      else if length src > blk then take blk src
      else src @ replicate (blk - length src) 0)"

text \<open>\<open>aes\<close> is the key schedule; \<open>aes.NewCipher\<close> accepts keys of 16, 24 and 32 bytes.\<close>

definition NewCypher ::
  "(byte list \<Rightarrow> cipher) \<Rightarrow> (int \<Rightarrow> byte list) \<Rightarrow> nat \<Rightarrow> byte list \<Rightarrow> int \<Rightarrow> Cypher" where
  "NewCypher aes toBytesInt cypherLevel cypher_key xkey =
     (let blk = cypherLevel div 8; k = padding blk cypher_key in
      \<lparr>block = blk,
       cypher = (if length k \<in> {16, 24, 32} then Some (aes k) else None),
       xor_key = Some (toBytesInt xkey)\<rparr>)"

text \<open>
  One call \<open>cypher.Encrypt(dst, src[:block])\<close> writes the first 16 bytes of \<open>dst\<close>; the rest of
  the chunk of \<open>dst\<close> keeps the zeros of \<open>make\<close>. The loop is on the length of the source, a multiple
  of the block size. A panic is recovered, and the function then returns nil.
\<close>

function Cypher_Encrypt_loop :: "(byte list \<Rightarrow> byte list) \<Rightarrow> nat \<Rightarrow> byte list \<Rightarrow> byte list option" where
  "Cypher_Encrypt_loop E blk src =
     (if src = [] then Some []
      else if blk = 0 \<or> length src < blk \<or> blk < aesBlockSize then None
      else (case Cypher_Encrypt_loop E blk (drop blk src) of
              None \<Rightarrow> None
            | Some rest \<Rightarrow>
                Some (E (take aesBlockSize (take blk src)) @ replicate (blk - aesBlockSize) 0 @ rest)))"
  by pat_completeness auto
termination by (relation "measure (\<lambda>(_, _, src). length src)") auto

declare Cypher_Encrypt_loop.simps [simp del]

definition Cypher_Encrypt :: "Cypher \<Rightarrow> byte list \<Rightarrow> byte list" where
  "Cypher_Encrypt cph data =
     (case cypher cph of
        None \<Rightarrow> data
      | Some c \<Rightarrow>
          if block cph = 0 then data
          else let blk = block cph;
                   src = (if length data mod blk = 0 then data
                          else data @ replicate ((length data div blk + 1) * blk - length data) 0)
               in (case Cypher_Encrypt_loop (blockEncrypt c) blk src of None \<Rightarrow> [] | Some d \<Rightarrow> d))"

text \<open>
  \<open>Decrypt\<close> takes its chunks from the slice it was given, whose last chunk may be short:
  \<open>src[:block]\<close> then reaches into the spare capacity of the slice (\<open>spare\<close>) or panics. Every
  panic is recovered and returns what \<open>dst\<close> holds, zeros where nothing was written.
\<close>

function Cypher_Decrypt_loop ::
  "(byte list \<Rightarrow> byte list) \<Rightarrow> nat \<Rightarrow> byte list \<Rightarrow> byte list \<Rightarrow> byte list" where
  "Cypher_Decrypt_loop D blk spare src =
     (if src = [] then []
      else if blk = 0 \<or> length src + length spare < blk \<or> blk < aesBlockSize \<or> length src < aesBlockSize
      then replicate (length src) 0
      else if length src < blk
      then D (take aesBlockSize src) @ replicate (length src - aesBlockSize) 0
      else D (take aesBlockSize src) @ replicate (blk - aesBlockSize) 0 @
           Cypher_Decrypt_loop D blk spare (drop blk src))"
  by pat_completeness auto
termination by (relation "measure (\<lambda>(_, _, _, src). length src)") auto

declare Cypher_Decrypt_loop.simps [simp del]

definition Cypher_Decrypt :: "Cypher \<Rightarrow> byte list \<Rightarrow> byte list \<Rightarrow> byte list" where
  "Cypher_Decrypt cph spare data =
     (case cypher cph of
        None \<Rightarrow> data
      | Some c \<Rightarrow> if block cph = 0 then data
                  else Cypher_Decrypt_loop (blockDecrypt c) (block cph) spare data)"

fun Hide_loop :: "byte list \<Rightarrow> nat \<Rightarrow> byte list \<Rightarrow> byte list go" where
  "Hide_loop k j [] = Inr []"
| "Hide_loop k j (x # xs) =
     bindGo (indexAt k j) (\<lambda>m. bindGo (Hide_loop k ((j + 1) mod length k) xs) (\<lambda>ys. Inr ((x XOR m) # ys)))"

definition Hide :: "Cypher \<Rightarrow> byte list \<Rightarrow> byte list go" where
  "Hide cph data =
     (case xor_key cph of
        None \<Rightarrow> Inr data
      | Some k \<Rightarrow> if block cph = 0 then Inr data else Hide_loop k 0 data)"

subsection \<open>The contract of a keyed mask\<close>

text \<open>
  Three operations of the code combine every byte with the key byte at its position modulo
  the key length. \<open>keyed_mask\<close> states that contract by positions; that the mask is its own inverse
  and keeps the length follows once, for all of them.
\<close>

locale keyed_mask =
  fixes mask :: "byte list \<Rightarrow> byte list \<Rightarrow> byte list go"
  assumes mask_returns: "k \<noteq> [] \<Longrightarrow> \<exists>ys. mask k xs = Inr ys"
    and mask_length: "k \<noteq> [] \<Longrightarrow> mask k xs = Inr ys \<Longrightarrow> length ys = length xs"
    and mask_nth: "k \<noteq> [] \<Longrightarrow> mask k xs = Inr ys \<Longrightarrow> i < length xs \<Longrightarrow>
                   ys ! i = xs ! i XOR k ! (i mod length k)"
    and mask_no_key: "xs \<noteq> [] \<Longrightarrow> mask [] xs = Inl IndexOutOfRange"
begin

lemma mask_unique:
  assumes "k \<noteq> []" and "length ys = length xs"
    and "\<And>i. i < length xs \<Longrightarrow> ys ! i = xs ! i XOR k ! (i mod length k)"
  shows "mask k xs = Inr ys"
proof -
  from mask_returns [OF assms(1)] obtain zs where zs: "mask k xs = Inr zs" by blast
  have "zs = ys"
    by (rule nth_equalityI) (use assms zs mask_length mask_nth in auto)
  with zs show ?thesis by simp
qed

lemma mask_involutive:
  assumes "k \<noteq> []"
  shows "bindGo (mask k xs) (mask k) = Inr xs"
proof -
  from mask_returns [OF assms] obtain ys where ys: "mask k xs = Inr ys" by blast
  have "mask k ys = Inr xs"
    by (rule mask_unique) (use assms ys mask_length mask_nth in \<open>auto simp: xor.assoc\<close>)
  with ys show ?thesis by simp
qed

lemma mask_injective:
  assumes "k \<noteq> []" and "mask k xs = mask k ys"
  shows "xs = ys"
proof -
  have "Inr xs = (Inr ys :: byte list go)"
    using mask_involutive [OF assms(1), of xs] mask_involutive [OF assms(1), of ys] assms(2)
    by metis
  then show ?thesis by simp
qed

end

text \<open>Two masks that keep the contract agree, so one undoes the other.\<close>

locale mask_pair = a: keyed_mask mask + b: keyed_mask unmask
  for mask unmask
begin

lemma masks_agree:
  assumes "k \<noteq> []"
  shows "mask k xs = unmask k xs"
proof -
  from b.mask_returns [OF assms] obtain ys where ys: "unmask k xs = Inr ys" by blast
  have "mask k xs = Inr ys"
    by (rule a.mask_unique) (use assms ys b.mask_length b.mask_nth in auto)
  with ys show ?thesis by simp
qed

lemma unmask_mask: "k \<noteq> [] \<Longrightarrow> bindGo (mask k xs) (unmask k) = Inr xs"
  using a.mask_involutive [of k xs] masks_agree by (cases "mask k xs") auto

end

subsection \<open>The three masks of the code\<close>

definition encryptMask :: "byte list \<Rightarrow> byte list \<Rightarrow> byte list go" where
  "encryptMask k xs = bindGo (Encrypt_loop k 0 xs 0) (\<lambda>(ys, _). Inr ys)"

definition decryptMask :: "byte list \<Rightarrow> byte list \<Rightarrow> byte list go" where
  "decryptMask k xs = bindGo (Decrypt_loop k 0 xs 0) (\<lambda>(ys, _). Inr ys)"

fun maskFrom :: "byte list \<Rightarrow> nat \<Rightarrow> byte list \<Rightarrow> byte list" where
  "maskFrom k j [] = []"
| "maskFrom k j (x # xs) = (x XOR k ! j) # maskFrom k ((j + 1) mod length k) xs"

definition checksum :: "byte list \<Rightarrow> byte \<Rightarrow> byte" where
  "checksum xs crc = fold (\<lambda>x c. c XOR x) xs crc"

lemma maskFrom_length [simp]: "length (maskFrom k j xs) = length xs"
  by (induction k j xs rule: maskFrom.induct) auto

lemma next_in_key [simp]: "j < length k \<Longrightarrow> Suc j mod length k < length k"
  by (rule mod_less_divisor) linarith

lemma maskFrom_nth:
  "j < length k \<Longrightarrow> i < length xs \<Longrightarrow> maskFrom k j xs ! i = xs ! i XOR k ! ((j + i) mod length k)"
proof (induction k j xs arbitrary: i rule: maskFrom.induct)
  case (1 k j)
  then show ?case by simp
next
  case (2 k j x xs)
  have less: "(j + 1) mod length k < length k" using "2.prems" by simp
  show ?case
  proof (cases i)
    case 0
    then show ?thesis using "2.prems" by simp
  next
    case (Suc n)
    have "((j + 1) mod length k + n) mod length k = (j + i) mod length k"
      using Suc by (simp add: mod_add_left_eq)
    with Suc "2.IH" [OF less, of n] "2.prems" show ?thesis by simp
  qed
qed

lemma Encrypt_loop_eq:
  "j < length k \<Longrightarrow> Encrypt_loop k j xs crc = Inr (maskFrom k j xs, checksum xs crc)"
  by (induction k j xs crc rule: Encrypt_loop.induct)
    (auto simp: checksum_def Let_def)

lemma Decrypt_loop_eq:
  "j < length k \<Longrightarrow>
   Decrypt_loop k j xs crc = Inr (maskFrom k j xs, checksum (maskFrom k j xs) crc)"
  by (induction k j xs crc rule: Decrypt_loop.induct)
    (auto simp: checksum_def Let_def)

lemma Hide_loop_eq: "j < length k \<Longrightarrow> Hide_loop k j xs = Inr (maskFrom k j xs)"
  by (induction k j xs rule: Hide_loop.induct) auto

lemma no_key_panics:
  "xs \<noteq> [] \<Longrightarrow> Encrypt_loop [] j xs crc = Inl IndexOutOfRange"
  "xs \<noteq> [] \<Longrightarrow> Decrypt_loop [] j xs crc = Inl IndexOutOfRange"
  "xs \<noteq> [] \<Longrightarrow> Hide_loop [] j xs = Inl IndexOutOfRange"
  by (cases xs; simp add: Let_def)+

lemmas mask_eqs = encryptMask_def decryptMask_def Encrypt_loop_eq Decrypt_loop_eq Hide_loop_eq
  no_key_panics maskFrom_nth

interpretation enc: keyed_mask encryptMask
  by unfold_locales (auto simp: mask_eqs)

interpretation dec: keyed_mask decryptMask
  by unfold_locales (auto simp: mask_eqs)

interpretation hide: keyed_mask "\<lambda>k. Hide_loop k 0"
  by unfold_locales (auto simp: mask_eqs)

interpretation param: mask_pair encryptMask decryptMask
  by unfold_locales


lemma checksum_snoc: "checksum (x # xs) crc = checksum xs (crc XOR x)"
  by (simp add: checksum_def)

subsection \<open>Properties of the parameter cipher\<close>

text \<open>C27: with a key, encrypting parameters never panics, and decrypting the result with the same
  key and the same initial checksum gives back the parameters and the checksum that was computed
  while encrypting, whatever bytes they hold.\<close>
theorem Decrypt_Encrypt:
  assumes "key p \<noteq> []"
  shows "\<exists>e c. Encrypt p b crc = Inr (e, c) \<and> length e = length b \<and>
               Decrypt e crc (key p) = Inr (b, c)"
proof -
  let ?e = "maskFrom (key p) 0 b"
  have "maskFrom (key p) 0 ?e = b"
    using param.unmask_mask [OF assms, of b] assms by (simp add: mask_eqs)
  then have "Encrypt p b crc = Inr (?e, checksum b crc)"
    and "Decrypt ?e crc (key p) = Inr (b, checksum b crc)"
    using assms by (simp_all add: Encrypt_def Decrypt_def mask_eqs)
  then show ?thesis by auto
qed

theorem Decrypt_Encrypt_witness:
  "\<exists>e c. Encrypt (NewParamSecurity (\<lambda>_. 7)) (bytesOf ''A112fda12fafa34'') 0 = Inr (e, c) \<and>
         length e = length (bytesOf ''A112fda12fafa34'') \<and>
         Decrypt e 0 (bytesOf ''WHATAP'') = Inr (bytesOf ''A112fda12fafa34'', c)"
proof -
  have k: "key (NewParamSecurity (\<lambda>_. 7)) = bytesOf ''WHATAP''"
    by (simp add: NewParamSecurity_def)
  moreover have "bytesOf ''WHATAP'' \<noteq> []" by (simp add: bytesOf_def)
  ultimately show ?thesis
    using Decrypt_Encrypt [of "NewParamSecurity (\<lambda>_. 7)" "bytesOf ''A112fda12fafa34''" 0] by simp
qed

lemma bytesOf_Nil_iff [simp]: "bytesOf s = [] \<longleftrightarrow> s = []"
  by (simp add: bytesOf_def)

text \<open>\<open>toParamBytes\<close> panics exactly when there is a parameter and the key is empty; a key file
  whose key is blank leads there, since \<open>load\<close> accepts the trimmed value whatever it is.\<close>
lemma toParamBytes_panics_iff:
  "toParamBytes p s crc = Inl IndexOutOfRange \<longleftrightarrow> s \<noteq> [] \<and> key p = []"
proof (cases "key p = []")
  case True
  then show ?thesis
    by (cases "s = []") (simp_all add: toParamBytes_def Encrypt_def mask_eqs)
next
  case False
  then show ?thesis
    by (cases "s = []") (simp_all add: toParamBytes_def Encrypt_def mask_eqs)
qed

text \<open>Reloading a \<^verbatim>\<open>security.conf\<close> whose parameter key is white space only, in a file newer than
  the last one read, leaves an empty key, after which any parameter makes the encryption panic.\<close>
theorem Reload_blank_key:
  assumes "security_conf h = Some (m, content)" and "m \<noteq> lasttime p"
    and "parse content = Some (Some blank)" and "TrimSpace blank = []" and "s \<noteq> []"
  shows "toParamBytes (fst (Reload hash parse print h p)) s crc = Inl IndexOutOfRange"
proof -
  have "key (fst (Reload hash parse print h p)) = []"
    using assms by (simp add: Reload_def loadConf_def load_def setKey_def bytesOf_def)
  with assms(5) show ?thesis
    by (simp add: toParamBytes_def Encrypt_def mask_eqs)
qed

theorem Reload_blank_key_witness:
  "toParamBytes
     (fst (Reload (\<lambda>_. 7) (\<lambda>_. Some (Some ''  '')) id
             \<lparr>security_conf = Some (5, ''paramkey=''), paramkey_txt = None, writable = True, now = 9\<rparr>
             (NewParamSecurity (\<lambda>_. 7)))) ''42'' 0 = Inl IndexOutOfRange"
proof -
  have "TrimSpace ''  '' = []" by code_simp
  then show ?thesis
    using Reload_blank_key
      [of "\<lparr>security_conf = Some (5, ''paramkey=''), paramkey_txt = None, writable = True, now = 9\<rparr>"
          5 "''paramkey=''" "NewParamSecurity (\<lambda>_. 7)" "\<lambda>_. Some (Some ''  '')" "''  ''" "''42''"
          "\<lambda>_. 7" id 0]
    by (simp add: NewParamSecurity_def)
qed

subsection \<open>Properties of the packet cipher\<close>

text \<open>\<open>Hide\<close> with a key is its own inverse and never panics, on a configured session.\<close>
theorem Hide_involutive:
  assumes "xor_key cph = Some k" and "k \<noteq> []"
  shows "bindGo (Hide cph d) (Hide cph) = Inr d"
proof (cases "block cph = 0")
  case False
  with assms have "Hide cph = Hide_loop k 0" by (simp add: Hide_def fun_eq_iff)
  with assms(2) hide.mask_involutive [of k d] show ?thesis by simp
qed (use assms in \<open>simp add: Hide_def\<close>)

theorem Hide_involutive_witness:
  "bindGo (Hide \<lparr>block = 16, cypher = None, xor_key = Some [1, 2, 3, 4]\<rparr> [9, 8, 7, 6, 5])
     (Hide \<lparr>block = 16, cypher = None, xor_key = Some [1, 2, 3, 4]\<rparr>) = Inr [9, 8, 7, 6, 5]"
  by (rule Hide_involutive [where k = "[1, 2, 3, 4]"]) simp_all

definition zeroPad :: "nat \<Rightarrow> byte list \<Rightarrow> byte list" where
  "zeroPad n d = d @ replicate ((n - length d mod n) mod n) 0"

text \<open>What \<open>Decrypt\<close> relies on: the block decryption undoes the block encryption.\<close>

definition cipher_ok :: "cipher \<Rightarrow> bool" where
  "cipher_ok c \<longleftrightarrow>
     (\<forall>b. length b = aesBlockSize \<longrightarrow>
        length (blockEncrypt c b) = aesBlockSize \<and> blockDecrypt c (blockEncrypt c b) = b)"

lemma padded_length: "n > 0 \<Longrightarrow> length (zeroPad n d) mod n = 0"
proof -
  assume n: "n > 0"
  have "(length d + (n - length d mod n)) mod n = 0"
    using n by (metis mod_add_left_eq le_add_diff_inverse mod_less_divisor less_imp_le_nat mod_self)
  then show ?thesis by (simp add: zeroPad_def mod_add_right_eq)
qed

lemma pad_agree:
  assumes "n > 0"
  shows "(if length d mod n = 0 then d
          else d @ replicate ((length d div n + 1) * n - length d) 0) = zeroPad n d"
proof -
  have "(length d div n + 1) * n - length d = n - length d mod n"
    using div_mult_mod_eq [of "length d" n] by (simp only: add_mult_distrib)
  with assms show ?thesis by (simp add: zeroPad_def)
qed

lemma roundtrip_loop:
  assumes "cipher_ok c"
  shows "length src mod 16 = 0 \<Longrightarrow>
    \<exists>e. Cypher_Encrypt_loop (blockEncrypt c) 16 src = Some e \<and> length e = length src \<and>
        Cypher_Decrypt_loop (blockDecrypt c) 16 spare e = src"
proof (induction "length src" arbitrary: src rule: less_induct)
  case less
  show ?case
  proof (cases "src = []")
    case True
    then show ?thesis
      by (simp add: Cypher_Encrypt_loop.simps [of _ _ "[]"] Cypher_Decrypt_loop.simps [of _ _ _ "[]"])
  next
    case False
    with less.prems have ge: "16 \<le> length src"
      by (metis length_0_conv mod_less not_le)
    have "length (drop 16 src) mod 16 = 0"
      using less.prems ge by (simp add: le_mod_geq)
    moreover have "length (drop 16 src) < length src" using ge by simp
    ultimately obtain e where
      e: "Cypher_Encrypt_loop (blockEncrypt c) 16 (drop 16 src) = Some e"
         "length e = length src - 16"
         "Cypher_Decrypt_loop (blockDecrypt c) 16 spare e = drop 16 src"
      using less.hyps [of "drop 16 src"] by auto
    let ?h = "blockEncrypt c (take 16 src)"
    have h: "length ?h = 16" "blockDecrypt c ?h = take 16 src"
      using assms ge by (simp_all add: cipher_ok_def aesBlockSize_def)
    have enc: "Cypher_Encrypt_loop (blockEncrypt c) 16 src = Some (?h @ e)"
      using False ge e(1)
      by (subst Cypher_Encrypt_loop.simps) (simp add: aesBlockSize_def)
    have dec: "Cypher_Decrypt_loop (blockDecrypt c) 16 spare (?h @ e) = src"
      using h e(3) by (subst Cypher_Decrypt_loop.simps) (auto simp: aesBlockSize_def)
    from enc dec h(1) e(2) ge show ?thesis by simp
  qed
qed

text \<open>C28: at cypher level 128 the packet cipher loses nothing: decrypting an encrypted packet gives
  the packet padded with zeros to a multiple of 16 bytes.\<close>
theorem Cypher_roundtrip:
  assumes "cipher_ok c" and "cypher cph = Some c" and "block cph = 16"
  shows "Cypher_Decrypt cph spare (Cypher_Encrypt cph d) = zeroPad 16 d"
proof -
  from roundtrip_loop [OF assms(1) padded_length [of 16 d], of spare] obtain e where
    "Cypher_Encrypt_loop (blockEncrypt c) 16 (zeroPad 16 d) = Some e"
    "Cypher_Decrypt_loop (blockDecrypt c) 16 spare e = zeroPad 16 d" by auto
  with assms(2,3) pad_agree [of 16 d] show ?thesis
    by (simp add: Cypher_Encrypt_def Cypher_Decrypt_def Let_def)
qed

definition toyCipher :: cipher where
  "toyCipher = \<lparr>blockEncrypt = rev, blockDecrypt = rev\<rparr>"

theorem Cypher_roundtrip_witness:
  "Cypher_Decrypt (NewCypher (\<lambda>_. toyCipher) (\<lambda>_. [1, 2, 3, 4]) 128 [42] 7) []
     (Cypher_Encrypt (NewCypher (\<lambda>_. toyCipher) (\<lambda>_. [1, 2, 3, 4]) 128 [42] 7) [1, 2, 3]) =
   zeroPad 16 [1, 2, 3]"
  by (rule Cypher_roundtrip [where c = toyCipher])
    (simp_all add: toyCipher_def cipher_ok_def NewCypher_def padding_def)

text \<open>At cypher level 256 the second half of every chunk is lost: two packets that differ only
  there have the same encryption, whatever the block cipher.\<close>
theorem Cypher_256_loses_half:
  assumes "cypher cph = Some c" and "block cph = 32"
    and "length a = 16" and "length b = 16" and "length b' = 16"
  shows "Cypher_Encrypt cph (a @ b) = Cypher_Encrypt cph (a @ b')"
proof -
  have one: "Cypher_Encrypt cph (a @ x) = blockEncrypt c a @ replicate 16 0" if "length x = 16" for x
    using assms that
    by (simp add: Cypher_Encrypt_def Cypher_Encrypt_loop.simps [of _ 32] aesBlockSize_def
        flip: length_0_conv)
  show ?thesis using assms by (simp add: one)
qed

theorem Cypher_256_loses_half_witness:
  "Cypher_Encrypt (NewCypher (\<lambda>_. toyCipher) (\<lambda>_. [1, 2, 3, 4]) 256 [42] 7)
     (replicate 16 1 @ replicate 16 2) =
   Cypher_Encrypt (NewCypher (\<lambda>_. toyCipher) (\<lambda>_. [1, 2, 3, 4]) 256 [42] 7)
     (replicate 16 1 @ replicate 16 3)"
  by (rule Cypher_256_loses_half [where c = toyCipher])
    (simp_all add: NewCypher_def padding_def)

end
