(* ===== verification/Profile_Step.thy ===== *)
theory Profile_Step
  imports Prelude
begin

text \<open>
  What the profile collectors of \<^verbatim>\<open>agent/agent/trace\<close> share: the steps they hold, the objects they
  send full buffers to, and the contract they all keep.

  A step is an object behind the interface \<^verbatim>\<open>step.Step\<close> of module golib: the collectors keep pointers
  to it and write its index and parent through the interface. It is an address into \<open>store\<close> here; the
  interface methods are the parameter \<open>step_ops\<close>, and \<open>step_laws\<close> says what they do to the fields they
  are named after. The sends go to two queues, kept as the sequences of the calls made on them.
\<close>

type_synonym addr = nat

record 's step_ops =
  SetIndex :: "int \<Rightarrow> 's \<Rightarrow> 's"
  SetParent :: "int \<Rightarrow> 's \<Rightarrow> 's"
  SetStartTime :: "int \<Rightarrow> 's \<Rightarrow> 's"
  SetDrop :: "bool \<Rightarrow> 's \<Rightarrow> 's"
  GetIndex :: "'s \<Rightarrow> int"
  GetParent :: "'s \<Rightarrow> int"
  GetStartTime :: "'s \<Rightarrow> int"
  GetElapsed :: "'s \<Rightarrow> int"
  GetDrop :: "'s \<Rightarrow> bool"
  MessageStep :: "int \<Rightarrow> int \<Rightarrow> string \<Rightarrow> int \<Rightarrow> 's"

text \<open>\<open>MessageStep start hash desc time\<close> is \<open>step.NewMessageStep\<close> with these fields assigned.\<close>

definition step_laws :: "'s step_ops \<Rightarrow> bool" where
  "step_laws ops \<longleftrightarrow>
     (\<forall>i s. GetIndex ops (SetIndex ops i s) = i \<and> GetParent ops (SetIndex ops i s) = GetParent ops s \<and>
            GetStartTime ops (SetIndex ops i s) = GetStartTime ops s) \<and>
     (\<forall>i s. GetParent ops (SetParent ops i s) = i \<and> GetIndex ops (SetParent ops i s) = GetIndex ops s \<and>
            GetStartTime ops (SetParent ops i s) = GetStartTime ops s) \<and>
     (\<forall>i s. GetStartTime ops (SetStartTime ops i s) = i)"

text \<open>A concrete step, on which the laws hold.\<close>

record plain_step =
  s_index :: int
  s_parent :: int
  s_start :: int
  s_elapsed :: int
  s_drop :: bool

definition plain_ops :: "plain_step step_ops" where
  "plain_ops =
     \<lparr>SetIndex = (\<lambda>i s. s\<lparr>s_index := i\<rparr>), SetParent = (\<lambda>i s. s\<lparr>s_parent := i\<rparr>),
      SetStartTime = (\<lambda>i s. s\<lparr>s_start := i\<rparr>), SetDrop = (\<lambda>b s. s\<lparr>s_drop := b\<rparr>),
      GetIndex = s_index, GetParent = s_parent, GetStartTime = s_start,
      GetElapsed = s_elapsed, GetDrop = s_drop,
      MessageStep = (\<lambda>t h d e. \<lparr>s_index = 0, s_parent = 0, s_start = t, s_elapsed = e, s_drop = False\<rparr>)\<rparr>"

lemma plain_ops_laws: "step_laws plain_ops"
  by (simp add: step_laws_def plain_ops_def)

subsection \<open>The world of the collectors\<close>

text \<open>An element of the queue of \<^verbatim>\<open>ProfileStepThread.go\<close>.\<close>

record StepSplit =
  Time :: int
  Txid :: int
  Inx :: nat
  Steps :: "addr option list"

text \<open>The arguments of one call \<open>ProfileVirtualTxThread.Add\<close> (the parent transaction apart).\<close>

record VirtualTx =
  vt_time :: int
  vt_name :: string
  vt_txid :: int
  vt_start :: int
  vt_elapsed :: int
  vt_steps :: "addr option list"

record 's world =
  store :: "addr \<Rightarrow> 's"
  next_addr :: addr
  splits :: "StepSplit list"
  virtuals :: "VirtualTx list"
  texts :: "(int \<times> string) list"

definition upd :: "addr \<Rightarrow> ('s \<Rightarrow> 's) \<Rightarrow> 's world \<Rightarrow> 's world" where
  "upd a f w = w\<lparr>store := (store w)(a := f (store w a))\<rparr>"

text \<open>\<open>NewStepSplit\<close> and \<open>ProfileStepThread.Add\<close>.\<close>

definition StepThread_Add :: "int \<Rightarrow> int \<Rightarrow> nat \<Rightarrow> addr option list \<Rightarrow> 's world \<Rightarrow> 's world" where
  "StepThread_Add t txid inx steps w =
     w\<lparr>splits := splits w @ [\<lparr>Time = t, Txid = txid, Inx = inx, Steps = steps\<rparr>]\<rparr>"

definition VirtualTxThread_Add ::
  "int \<Rightarrow> string \<Rightarrow> int \<Rightarrow> int \<Rightarrow> int \<Rightarrow> addr option list \<Rightarrow> 's world \<Rightarrow> 's world" where
  "VirtualTxThread_Add t name txid start el steps w =
     w\<lparr>virtuals := virtuals w @
        [\<lparr>vt_time = t, vt_name = name, vt_txid = txid, vt_start = start, vt_elapsed = el, vt_steps = steps\<rparr>]\<rparr>"

lemma upd_fields [store_simps]:
  "store (upd a f w) = (store w)(a := f (store w a))"
  "next_addr (upd a f w) = next_addr w"
  "splits (upd a f w) = splits w"
  "virtuals (upd a f w) = virtuals w"
  "texts (upd a f w) = texts w"
  by (simp_all add: upd_def)

lemma StepThread_Add_fields [store_simps]:
  "store (StepThread_Add t x i st w) = store w"
  "next_addr (StepThread_Add t x i st w) = next_addr w"
  "splits (StepThread_Add t x i st w) = splits w @ [\<lparr>Time = t, Txid = x, Inx = i, Steps = st\<rparr>]"
  "virtuals (StepThread_Add t x i st w) = virtuals w"
  "texts (StepThread_Add t x i st w) = texts w"
  by (simp_all add: StepThread_Add_def)

lemma VirtualTxThread_Add_fields [store_simps]:
  "store (VirtualTxThread_Add t n x s e st w) = store w"
  "next_addr (VirtualTxThread_Add t n x s e st w) = next_addr w"
  "splits (VirtualTxThread_Add t n x s e st w) = splits w"
  "virtuals (VirtualTxThread_Add t n x s e st w) =
     virtuals w @ [\<lparr>vt_time = t, vt_name = n, vt_txid = x, vt_start = s, vt_elapsed = e, vt_steps = st\<rparr>]"
  "texts (VirtualTxThread_Add t n x s e st w) = texts w"
  by (simp_all add: VirtualTxThread_Add_def)

text \<open>The environment of a call: the clocks, the key generator and the transaction the collector belongs to.\<close>

record tx_env =
  env_now :: int
  env_sysnow :: int
  env_key :: int
  env_txid :: int
  env_elapsed :: int
  env_service :: string

text \<open>Concrete values for examples.\<close>

definition env0 :: tx_env where
  "env0 = \<lparr>env_now = 5, env_sysnow = 6, env_key = 77, env_txid = 42, env_elapsed = 9, env_service = ''/a''\<rparr>"

definition world0 :: "plain_step world" where
  "world0 = \<lparr>store = (\<lambda>_. \<lparr>s_index = 0, s_parent = 0, s_start = 0, s_elapsed = 0, s_drop = False\<rparr>),
             next_addr = 10, splits = [], virtuals = [], texts = []\<rparr>"

subsection \<open>The contract of a step sink\<close>

text \<open>
  \<open>put a s\<close> hands the step \<open>a\<close> to a collector in state \<open>s\<close>. \<open>view s\<close> is what the collector accounts
  for, delivered or still held, in order, and \<open>keep\<close> tells which part of a sequence survives: all of
  it, its first elements, or its last ones. Whatever the collector, handing over a list is then handing
  over its elements one by one, and it never panics.
\<close>

locale step_sink =
  fixes put :: "'a \<Rightarrow> 'st \<Rightarrow> 'st go"
    and view :: "'st \<Rightarrow> 'v list"
    and item :: "'a \<Rightarrow> 'v"
    and inv :: "'st \<Rightarrow> bool"
    and keep :: "'v list \<Rightarrow> 'v list"
  assumes put_ok: "inv s \<Longrightarrow> \<exists>s'. put a s = Inr s' \<and> inv s' \<and> view s' = keep (view s @ [item a])"
    and keep_view: "inv s \<Longrightarrow> keep (view s) = view s"
    and keep_append: "keep (keep xs @ ys) = keep (xs @ ys)"
begin

lemma put_all:
  "inv s \<Longrightarrow> \<exists>s'. foldGo put as s = Inr s' \<and> inv s' \<and> view s' = keep (view s @ map item as)"
proof (induction as arbitrary: s)
  case Nil
  then show ?case by (simp add: keep_view)
next
  case (Cons a as)
  from put_ok [OF Cons.prems] obtain s1 where
    s1: "put a s = Inr s1" "inv s1" "view s1 = keep (view s @ [item a])" by blast
  from Cons.IH [OF s1(2)] obtain s2 where
    "foldGo put as s1 = Inr s2" "inv s2" "view s2 = keep (view s1 @ map item as)" by blast
  with s1 show ?case by (simp add: keep_append)
qed

lemma put_all_from_empty:
  assumes "inv s" and "view s = []"
  shows "\<exists>s'. foldGo put as s = Inr s' \<and> inv s' \<and> view s' = keep (map item as)"
  using put_all [OF assms(1), of as] assms(2) by simp

lemma put_all_never_panics: "inv s \<Longrightarrow> returns (foldGo put as s)"
  using put_all [of s as] by (auto simp: returns_iff)

end

end
