(* ===== verification/Profile_Circular.thy ===== *)
theory Profile_Circular
  imports Profile_Step
begin

text \<open>
  The circular profile collector (\<^verbatim>\<open>agent/agent/trace/ProfileCircularCollector.go\<close>), chosen by profile
  mode 2: a ring of \<open>BUFFER_LEN\<close> slots that keeps the newest steps of a transaction.
\<close>

record ProfileCircularCollector =
  BUFFER_LEN :: nat
  buffer :: "addr option list"
  loop :: nat
  position :: nat
  thisIndex :: int
  parentIndex :: int

type_synonym 's cstate = "'s world \<times> ProfileCircularCollector"

definition NewProfileCircularCollector :: "int \<Rightarrow> ProfileCircularCollector go" where
  "NewProfileCircularCollector maxCount =
     (if maxCount < 0 then Inl MakeSlice
      else Inr \<lparr>BUFFER_LEN = nat maxCount, buffer = replicate (nat maxCount) None, loop = 0,
                position = 0, thisIndex = 0, parentIndex = -1\<rparr>)"

definition Circular_HasStep :: "ProfileCircularCollector \<Rightarrow> bool" where
  "Circular_HasStep c \<longleftrightarrow> position c > 0"

text \<open>The wrap-around that opens every insertion, and the insertion itself.\<close>

definition turn :: "ProfileCircularCollector \<Rightarrow> ProfileCircularCollector" where
  "turn c = (if position c \<ge> BUFFER_LEN c then c\<lparr>loop := loop c + 1, position := 0\<rparr> else c)"

definition store_step :: "addr \<Rightarrow> ProfileCircularCollector \<Rightarrow> ProfileCircularCollector go" where
  "store_step st c =
     bindGo (writeAt (buffer c) (position c) (Some st)) (\<lambda>b.
     Inr (c\<lparr>buffer := b, position := position c + 1, thisIndex := i32 (thisIndex c + 1)\<rparr>))"

definition Circular_Push :: "'s step_ops \<Rightarrow> addr \<Rightarrow> 's cstate \<Rightarrow> 's cstate go" where
  "Circular_Push ops st = (\<lambda>(w, c0).
     let c = turn c0;
         w1 = upd st (SetIndex ops (thisIndex c)) w;
         w2 = upd st (SetParent ops (parentIndex c)) w1;
         c1 = c\<lparr>parentIndex := thisIndex c\<rparr>
     in bindGo (store_step st c1) (\<lambda>c2. Inr (w2, c2)))"

definition Circular_Add :: "'s step_ops \<Rightarrow> addr \<Rightarrow> 's cstate \<Rightarrow> 's cstate go" where
  "Circular_Add ops st = (\<lambda>(w, c0).
     let c = turn c0;
         w1 = upd st (SetIndex ops (thisIndex c)) w;
         w2 = upd st (SetParent ops (parentIndex c)) w1
     in bindGo (store_step st c) (\<lambda>c2. Inr (w2, c2)))"

definition Circular_AddHeavy :: "'s step_ops \<Rightarrow> addr \<Rightarrow> 's cstate \<Rightarrow> 's cstate go" where
  "Circular_AddHeavy ops st = (\<lambda>(w, c0).
     let c = turn c0;
         w1 = upd st (SetIndex ops (thisIndex c)) w;
         w2 = upd st (SetParent ops (parentIndex c)) w1
     in bindGo (store_step st c) (\<lambda>c2. Inr (w2, c2)))"

definition Circular_JustAdd :: "addr \<Rightarrow> 's cstate \<Rightarrow> 's cstate go" where
  "Circular_JustAdd st = (\<lambda>(w, c0). bindGo (store_step st (turn c0)) (\<lambda>c2. Inr (w, c2)))"

definition Circular_AddTail :: "'s step_ops \<Rightarrow> addr \<Rightarrow> 's cstate \<Rightarrow> 's cstate go" where
  "Circular_AddTail ops st = (\<lambda>(w, c0).
     let c = turn c0;
         w1 = upd st (SetIndex ops (thisIndex c)) w;
         w2 = upd st (SetParent ops (parentIndex c)) w1
     in bindGo (store_step st c) (\<lambda>c2. Inr (w2, c2)))"

definition Circular_Pop :: "'s step_ops \<Rightarrow> addr \<Rightarrow> 's cstate \<Rightarrow> 's cstate" where
  "Circular_Pop ops st = (\<lambda>(w, c). (w, c\<lparr>parentIndex := GetParent ops (store w st)\<rparr>))"

text \<open>The backward loop of \<open>GetLastSteps\<close> once the ring has turned: \<open>y\<close> elements ending at index \<open>x\<close>.\<close>

fun backward :: "nat \<Rightarrow> addr option list \<Rightarrow> int \<Rightarrow> nat \<Rightarrow> addr option list \<Rightarrow> addr option list go" where
  "backward len b x 0 acc = Inr acc"
| "backward len b x (Suc y) acc =
     (let x1 = (if x < 0 then int len - 1 else x) in
      if x1 < 0 then Inl IndexOutOfRange
      else bindGo (indexAt b (nat x1)) (\<lambda>a. backward len b (x1 - 1) y (a # acc)))"

definition Circular_GetLastSteps :: "int \<Rightarrow> ProfileCircularCollector \<Rightarrow> addr option list go" where
  "Circular_GetLastSteps n c =
     (if loop c = 0
      then let cnt = (if int (position c) > n then n else int (position c)) in
           if cnt < 0 then Inl MakeSlice
           else readRange (buffer c) (position c - nat cnt) (nat cnt)
      else if n < 0 then Inl MakeSlice
      else backward (BUFFER_LEN c) (buffer c) (int (position c) - 1) (nat n) [])"

definition Circular_GetSteps :: "ProfileCircularCollector \<Rightarrow> addr option list" where
  "Circular_GetSteps c =
     (if loop c = 0
      then if position c \<ge> length (buffer c) then buffer c else take (position c) (buffer c)
      else if position c = 0 then buffer c
      else take (BUFFER_LEN c - position c) (drop (position c) (buffer c)) @ take (position c) (buffer c))"

definition Circular_GetStep4Error :: "ProfileCircularCollector \<Rightarrow> addr option list go" where
  "Circular_GetStep4Error c = Circular_GetLastSteps 5 c"

definition Circular_Append :: "'s step_ops \<Rightarrow> addr list option \<Rightarrow> 's cstate \<Rightarrow> 's cstate go" where
  "Circular_Append ops steps s =
     (case steps of None \<Rightarrow> Inr s | Some sts \<Rightarrow> foldGo (Circular_Add ops) sts s)"

definition Circular_offset_Add :: "'s step_ops \<Rightarrow> int \<Rightarrow> addr \<Rightarrow> 's cstate \<Rightarrow> 's cstate go" where
  "Circular_offset_Add ops off st = (\<lambda>(w, c).
     Circular_Add ops st
       (upd st (\<lambda>s. SetStartTime ops (i32 (GetStartTime ops s + i32 off)) s) w, c))"

definition Circular_AppendParentOffsetTime ::
  "'s step_ops \<Rightarrow> int \<Rightarrow> addr list option \<Rightarrow> 's cstate \<Rightarrow> 's cstate go" where
  "Circular_AppendParentOffsetTime ops off steps s =
     (case steps of None \<Rightarrow> Inr s | Some sts \<Rightarrow> foldGo (Circular_offset_Add ops off) sts s)"

definition Circular_GetSplitCount :: "ProfileCircularCollector \<Rightarrow> nat" where
  "Circular_GetSplitCount c = 0"

definition Circular_Length :: "ProfileCircularCollector \<Rightarrow> nat" where
  "Circular_Length c = loop c * BUFFER_LEN c + position c"

lemmas circular_ops = Circular_Push_def Circular_Add_def Circular_AddHeavy_def Circular_JustAdd_def
  Circular_AddTail_def Circular_offset_Add_def

subsection \<open>The ring\<close>

definition ring_ok :: "nat \<Rightarrow> 's cstate \<Rightarrow> bool" where
  "ring_ok n s \<longleftrightarrow>
     (let c = snd s in BUFFER_LEN c = n \<and> length (buffer c) = n \<and> n > 0 \<and> position c \<le> n \<and>
        (loop c > 0 \<longrightarrow> position c > 0))"

text \<open>Every insertion, whichever method, stores the step behind the newest one.\<close>

lemma store_turn:
  assumes "ring_ok n (w, c)"
  shows "\<exists>c'. store_step st (turn (c\<lparr>parentIndex := p\<rparr>)) = Inr c' \<and> ring_ok n (w', c') \<and>
      Circular_GetSteps c' = lastn n (Circular_GetSteps c @ [Some st]) \<and>
      Circular_Length c' = Circular_Length c + 1"
proof (cases "position c < n")
  case True
  with assms have l: "length (buffer c) = n" "BUFFER_LEN c = n" by (auto simp: ring_ok_def)
  let ?c' = "c\<lparr>parentIndex := p, buffer := (buffer c)[position c := Some st],
               position := position c + 1, thisIndex := i32 (thisIndex c + 1)\<rparr>"
  have eq: "store_step st (turn (c\<lparr>parentIndex := p\<rparr>)) = Inr ?c'"
    using True l by (simp add: turn_def store_step_def)
  have steps: "Circular_GetSteps ?c' = lastn n (Circular_GetSteps c @ [Some st])"
  proof (cases "loop c = 0")
    case True2: True
    have "take (Suc (position c)) ((buffer c)[position c := Some st]) =
          take (position c) (buffer c) @ [Some st]"
      using True l by (simp add: take_Suc_conv_app_nth)
    then show ?thesis
      using True True2 l by (auto simp: Circular_GetSteps_def)
  next
    case False
    with assms have p: "position c > 0" by (auto simp: ring_ok_def)
    have "take (Suc (position c)) ((buffer c)[position c := Some st]) =
          take (position c) (buffer c) @ [Some st]"
      using True l by (simp add: take_Suc_conv_app_nth)
    moreover have "drop (Suc (position c)) ((buffer c)[position c := Some st]) = drop (Suc (position c)) (buffer c)"
      by simp
    ultimately have new: "Circular_GetSteps ?c' =
        drop (Suc (position c)) (buffer c) @ take (position c) (buffer c) @ [Some st]"
      using False True l by (simp add: Circular_GetSteps_def)
    have "Circular_GetSteps c = drop (position c) (buffer c) @ take (position c) (buffer c)"
      using False p l by (simp add: Circular_GetSteps_def)
    with new True l show ?thesis
      by (simp add: lastn_def Cons_nth_drop_Suc [symmetric])
  qed
  from eq steps True assms show ?thesis
    by (auto simp: ring_ok_def Circular_Length_def)
next
  case False
  with assms have l: "length (buffer c) = n" "BUFFER_LEN c = n" "position c = n" "n > 0"
    by (auto simp: ring_ok_def)
  let ?c' = "c\<lparr>parentIndex := p, loop := loop c + 1, buffer := (buffer c)[0 := Some st],
               position := 1, thisIndex := i32 (thisIndex c + 1)\<rparr>"
  have eq: "store_step st (turn (c\<lparr>parentIndex := p\<rparr>)) = Inr ?c'"
    using False l by (simp add: turn_def store_step_def)
  obtain b bs where b: "buffer c = b # bs" using l by (cases "buffer c") auto
  have "Circular_GetSteps c = buffer c"
    using l by (auto simp: Circular_GetSteps_def)
  moreover have "Circular_GetSteps ?c' = bs @ [Some st]"
    using l b by (auto simp: Circular_GetSteps_def)
  ultimately have steps: "Circular_GetSteps ?c' = lastn n (Circular_GetSteps c @ [Some st])"
    using l b by (auto simp: lastn_def)
  from eq steps l show ?thesis
    by (auto simp: ring_ok_def Circular_Length_def)
qed

lemma turn_parent: "(turn c)\<lparr>parentIndex := p\<rparr> = turn (c\<lparr>parentIndex := p\<rparr>)"
  by (simp add: turn_def)

lemma same_parent: "c\<lparr>parentIndex := parentIndex c\<rparr> = c"
  by simp

lemma turn_thisIndex [simp]: "thisIndex (turn c) = thisIndex c"
  by (simp add: turn_def)

definition held :: "'s cstate \<Rightarrow> addr option list" where
  "held s = Circular_GetSteps (snd s)"

lemma insert_held:
  assumes "ring_ok n s"
    and "\<And>w c. f (w, c) = bindGo (store_step st (turn (c\<lparr>parentIndex := p c\<rparr>))) (\<lambda>c2. Inr (g w c, c2))"
  shows "\<exists>s'. f s = Inr s' \<and> ring_ok n s' \<and> held s' = lastn n (held s @ [Some st])"
proof -
  obtain w c where s: "s = (w, c)" by (cases s)
  from store_turn [of n w c st "p c" "g w c"] assms(1) s obtain c' where
    "store_step st (turn (c\<lparr>parentIndex := p c\<rparr>)) = Inr c'" "ring_ok n (g w c, c')"
    "Circular_GetSteps c' = lastn n (Circular_GetSteps c @ [Some st])" by auto
  then show ?thesis by (simp add: s assms(2) held_def)
qed

lemma circular_insertions:
  assumes "ring_ok n s"
  shows "\<exists>s'. Circular_Push ops st s = Inr s' \<and> ring_ok n s' \<and> held s' = lastn n (held s @ [Some st])"
    and "\<exists>s'. Circular_Add ops st s = Inr s' \<and> ring_ok n s' \<and> held s' = lastn n (held s @ [Some st])"
    and "\<exists>s'. Circular_AddHeavy ops st s = Inr s' \<and> ring_ok n s' \<and> held s' = lastn n (held s @ [Some st])"
    and "\<exists>s'. Circular_JustAdd st s = Inr s' \<and> ring_ok n s' \<and> held s' = lastn n (held s @ [Some st])"
    and "\<exists>s'. Circular_AddTail ops st s = Inr s' \<and> ring_ok n s' \<and> held s' = lastn n (held s @ [Some st])"
    and "\<exists>s'. Circular_offset_Add ops off st s = Inr s' \<and> ring_ok n s' \<and>
              held s' = lastn n (held s @ [Some st])"
  subgoal by (rule insert_held [OF assms, where p = thisIndex]) (simp add: circular_ops turn_parent Let_def)
  by (rule insert_held [OF assms, where p = parentIndex], simp add: circular_ops same_parent Let_def)+

lemma held_keep: "ring_ok n s \<Longrightarrow> lastn n (held s) = held s"
  by (rule lastn_all) (auto simp: ring_ok_def held_def Circular_GetSteps_def Let_def)

lemmas ring_laws = circular_insertions held_keep lastn_append_keep

interpretation circ_push: step_sink "Circular_Push ops" held Some "ring_ok n" "lastn n" for ops n
  by unfold_locales (rule ring_laws | assumption)+

interpretation circ_add: step_sink "Circular_Add ops" held Some "ring_ok n" "lastn n" for ops n
  by unfold_locales (rule ring_laws | assumption)+

interpretation circ_heavy: step_sink "Circular_AddHeavy ops" held Some "ring_ok n" "lastn n" for ops n
  by unfold_locales (rule ring_laws | assumption)+

interpretation circ_just: step_sink Circular_JustAdd held Some "ring_ok n" "lastn n" for n
  by unfold_locales (rule ring_laws | assumption)+

interpretation circ_tail: step_sink "Circular_AddTail ops" held Some "ring_ok n" "lastn n" for ops n
  by unfold_locales (rule ring_laws | assumption)+

interpretation circ_offset: step_sink "Circular_offset_Add ops off" held Some "ring_ok n" "lastn n"
  for ops off n
  by unfold_locales (rule ring_laws | assumption)+

lemma new_ring:
  assumes "0 < m"
  shows "\<exists>c. NewProfileCircularCollector m = Inr c \<and> ring_ok (nat m) (w, c) \<and> held (w, c) = []"
  using assms by (auto simp: NewProfileCircularCollector_def ring_ok_def held_def Circular_GetSteps_def)

subsection \<open>Reading the newest steps\<close>

lemma backward_within:
  "y \<le> k \<Longrightarrow> k \<le> length b \<Longrightarrow>
   backward len b (int k - 1) y acc = Inr (take y (drop (k - y) b) @ acc)"
proof (induction y arbitrary: k acc)
  case (Suc y)
  then obtain j where k: "k = Suc j" by (cases k) auto
  have "take (Suc y) (drop (j - y) b) = take y (drop (j - y) b) @ [b ! j]"
    using Suc.prems k by (simp add: take_Suc_conv_app_nth)
  with Suc k show ?case by (simp add: Let_def)
qed simp

lemma backward_over:
  "k \<le> length b \<Longrightarrow>
   backward len b (int k - 1) (k + m) acc = backward len b (-1) m (take k b @ acc)"
proof (induction k arbitrary: acc)
  case (Suc k)
  then show ?case by (simp add: Let_def take_Suc_conv_app_nth)
qed simp

lemma backward_wrap: "0 < len \<Longrightarrow> backward len b (-1) y acc = backward len b (int len - 1) y acc"
  by (cases y) (simp_all add: Let_def)

lemma backward_ring:
  assumes "length b = len" and "0 < len" and "p \<le> len" and "y \<le> len"
  shows "backward len b (int p - 1) y [] = Inr (lastn y (drop p b @ take p b))"
proof (cases "y \<le> p")
  case True
  have "backward len b (int p - 1) y [] = Inr (take y (drop (p - y) b))"
    using True assms by (simp add: backward_within)
  moreover have "lastn y (drop p b @ take p b) = take y (drop (p - y) b)"
    using True assms by (simp add: lastn_def drop_take)
  ultimately show ?thesis by simp
next
  case False
  let ?m = "y - p"
  have "backward len b (int p - 1) y [] = backward len b (int p - 1) (p + ?m) []"
    using False by simp
  also have "\<dots> = backward len b (int len - 1) ?m (take p b)"
    using assms by (simp only: backward_over backward_wrap append_Nil2)
  also have "\<dots> = Inr (take ?m (drop (len - ?m) b) @ take p b)"
    using assms by (intro backward_within) auto
  also have "take ?m (drop (len - ?m) b) = drop (len - ?m) b"
    using assms by simp
  also have "drop (len - ?m) b @ take p b = lastn y (drop p b @ take p b)"
    using False assms by (simp add: lastn_def)
  finally show ?thesis .
qed

lemma GetLastSteps_ring:
  assumes "ring_ok len (w, c)" and "0 \<le> n" and "n \<le> int len"
  shows "Circular_GetLastSteps n c = Inr (lastn (nat n) (Circular_GetSteps c))"
proof (cases "loop c = 0")
  case True
  let ?k = "min (nat n) (position c)"
  from assms True have "Circular_GetLastSteps n c = readRange (buffer c) (position c - ?k) ?k"
    by (cases "int (position c) > n")
      (simp_all add: Circular_GetLastSteps_def Let_def min_absorb1 min_absorb2 le_nat_iff nat_le_iff)
  also have "\<dots> = Inr (take ?k (drop (position c - ?k) (buffer c)))"
    using assms by (intro readRange_eq) (auto simp: ring_ok_def)
  also have "take ?k (drop (position c - ?k) (buffer c)) = lastn (nat n) (take (position c) (buffer c))"
    using assms by (auto simp: lastn_def ring_ok_def drop_take min_def)
  also have "take (position c) (buffer c) = Circular_GetSteps c"
    using True by (simp add: Circular_GetSteps_def)
  finally show ?thesis .
next
  case False
  with assms have r: "length (buffer c) = len" "0 < len" "position c \<le> len" "0 < position c" "BUFFER_LEN c = len"
    by (auto simp: ring_ok_def)
  have "nat n \<le> len" using assms by simp
  with False r assms(2) backward_ring [of "buffer c" len "position c" "nat n"] show ?thesis
    by (simp add: Circular_GetLastSteps_def Circular_GetSteps_def)
qed

text \<open>C26: however many steps a transaction appends to a circular collector of a positive size, no
  insertion panics, and the collector then holds exactly the newest ones, in order.\<close>
theorem Circular_keeps_newest:
  assumes "0 < m"
  shows "\<exists>c w' c'. NewProfileCircularCollector m = Inr c \<and>
           Circular_Append ops (Some sts) (w, c) = Inr (w', c') \<and>
           Circular_GetSteps c' = lastn (nat m) (map Some sts)"
proof -
  from new_ring [OF assms] obtain c where
    c: "NewProfileCircularCollector m = Inr c" "ring_ok (nat m) (w, c)" "held (w, c) = []" by blast
  from circ_add.put_all_from_empty [OF c(2,3), of ops sts] c(1) show ?thesis
    by (auto simp: Circular_Append_def held_def)
qed

theorem Circular_keeps_newest_witness:
  "\<exists>c w' c'. NewProfileCircularCollector 2 = Inr c \<and>
     Circular_Append plain_ops (Some [7, 8, 9]) (world0, c) = Inr (w', c') \<and>
     Circular_GetSteps c' = lastn (nat 2) (map Some [7, 8, 9])"
  by (rule Circular_keeps_newest) simp

text \<open>In every state a circular collector can be in, reading its last \<open>n\<close> steps gives the end of
  what \<open>GetSteps\<close> gives, provided the ring has at least \<open>n\<close> slots.\<close>
theorem Circular_GetLastSteps_suffix:
  assumes "ring_ok len (w, c)" and "0 \<le> n" and "n \<le> int len"
  shows "\<exists>ys. Circular_GetLastSteps n c = Inr ys \<and> ys = lastn (nat n) (Circular_GetSteps c)"
  using GetLastSteps_ring [OF assms] by simp

theorem Circular_GetLastSteps_suffix_witness:
  "\<exists>ys. Circular_GetLastSteps 2
          \<lparr>BUFFER_LEN = 3, buffer = [Some 14, Some 15, Some 13], loop = 1, position = 2,
           thisIndex = 5, parentIndex = -1\<rparr> = Inr ys \<and>
        ys = lastn (nat 2) (Circular_GetSteps
          \<lparr>BUFFER_LEN = 3, buffer = [Some 14, Some 15, Some 13], loop = 1, position = 2,
           thisIndex = 5, parentIndex = -1\<rparr>)"
  by (rule Circular_GetLastSteps_suffix [where len = 3 and w = undefined]) (simp_all add: ring_ok_def)

end
