(* ===== verification/Profile_Large.thy ===== *)
theory Profile_Large
  imports Profile_Step
begin

text \<open>
  The large profile collector (\<^verbatim>\<open>agent/agent/trace/ProfileLargeCollector.go\<close>), profile mode 3: a full
  buffer is handed to \<open>ProfileStepThread\<close> under the next split number and a new buffer is begun.
  Every call carries the environment it runs in, so a list of calls is a list of pairs.
\<close>

record ProfileLargeCollector =
  BUFFER_MAX :: nat
  buffer :: "addr option list"
  bufferPos :: nat
  splitCount :: nat
  position :: int
  parentIndex :: int

type_synonym 's lstate = "'s world \<times> ProfileLargeCollector"

definition NewProfileLargeCollector :: "int \<Rightarrow> ProfileLargeCollector go" where
  "NewProfileLargeCollector maxCount =
     (if maxCount < 0 then Inl MakeSlice
      else Inr \<lparr>BUFFER_MAX = nat maxCount, buffer = replicate (nat maxCount) None, bufferPos = 0,
                splitCount = 0, position = 0, parentIndex = -1\<rparr>)"

definition Large_HasStep :: "ProfileLargeCollector \<Rightarrow> bool" where
  "Large_HasStep c \<longleftrightarrow> position c > 0"

definition Large_Push :: "'s step_ops \<Rightarrow> addr \<Rightarrow> 's lstate \<Rightarrow> 's lstate" where
  "Large_Push ops st = (\<lambda>(w, c).
     let w1 = upd st (SetIndex ops (position c)) w;
         w2 = upd st (SetParent ops (parentIndex c)) w1
     in (w2, c\<lparr>parentIndex := position c, position := i32 (position c + 1)\<rparr>))"

definition Large_send :: "tx_env \<Rightarrow> nat \<Rightarrow> addr option list \<Rightarrow> 's world \<Rightarrow> 's world" where
  "Large_send e inx buff w = StepThread_Add (env_now e) (env_txid e) inx buff w"

text \<open>The block that opens every storing method: a full buffer is sent and replaced.\<close>

definition Large_flush :: "tx_env \<Rightarrow> 's lstate \<Rightarrow> 's lstate" where
  "Large_flush e = (\<lambda>(w, c).
     if bufferPos c \<ge> BUFFER_MAX c
     then (Large_send e (splitCount c) (buffer c) w,
           c\<lparr>buffer := replicate (BUFFER_MAX c) None, bufferPos := 0, splitCount := splitCount c + 1\<rparr>)
     else (w, c))"

definition Large_store :: "addr \<Rightarrow> ProfileLargeCollector \<Rightarrow> ProfileLargeCollector go" where
  "Large_store st c =
     bindGo (writeAt (buffer c) (bufferPos c) (Some st)) (\<lambda>b.
     Inr (c\<lparr>buffer := b, bufferPos := bufferPos c + 1\<rparr>))"

definition Large_Add :: "'s step_ops \<Rightarrow> tx_env \<times> addr \<Rightarrow> 's lstate \<Rightarrow> 's lstate go" where
  "Large_Add ops = (\<lambda>(e, st) s.
     let (w, c) = Large_flush e s;
         w1 = upd st (SetIndex ops (position c)) w;
         w2 = upd st (SetParent ops (parentIndex c)) w1
     in bindGo (Large_store st c) (\<lambda>c1. Inr (w2, c1\<lparr>position := i32 (position c1 + 1)\<rparr>)))"

definition Large_AddHeavy :: "'s step_ops \<Rightarrow> tx_env \<times> addr \<Rightarrow> 's lstate \<Rightarrow> 's lstate go" where
  "Large_AddHeavy ops = (\<lambda>(e, st) s.
     let (w, c) = Large_flush e s;
         w1 = upd st (SetIndex ops (position c)) w;
         w2 = upd st (SetParent ops (parentIndex c)) w1
     in bindGo (Large_store st c) (\<lambda>c1. Inr (w2, c1\<lparr>position := i32 (position c1 + 1)\<rparr>)))"

definition Large_JustAdd :: "tx_env \<times> addr \<Rightarrow> 's lstate \<Rightarrow> 's lstate go" where
  "Large_JustAdd = (\<lambda>(e, st) s.
     let (w, c) = Large_flush e s
     in bindGo (Large_store st c) (\<lambda>c1. Inr (w, c1\<lparr>position := i32 (position c1 + 1)\<rparr>)))"

definition Large_AppendStep :: "'s step_ops \<Rightarrow> tx_env \<times> addr \<Rightarrow> 's lstate \<Rightarrow> 's lstate go" where
  "Large_AppendStep ops = Large_Add ops"

definition Large_AddTail :: "'s step_ops \<Rightarrow> tx_env \<times> addr \<Rightarrow> 's lstate \<Rightarrow> 's lstate go" where
  "Large_AddTail ops = Large_Add ops"

definition Large_Pop :: "'s step_ops \<Rightarrow> tx_env \<times> addr \<Rightarrow> 's lstate \<Rightarrow> 's lstate go" where
  "Large_Pop ops = (\<lambda>(e, st) s.
     let (w, c) = Large_flush e s
     in bindGo (Large_store st c) (\<lambda>c1. Inr (w, c1\<lparr>parentIndex := GetParent ops (store w st)\<rparr>)))"

definition Large_GetLastSteps :: "int \<Rightarrow> ProfileLargeCollector \<Rightarrow> addr option list go" where
  "Large_GetLastSteps n c =
     (let cnt = (if int (bufferPos c) > n then n else int (bufferPos c)) in
      if cnt < 0 then Inl MakeSlice
      else readRange (buffer c) (bufferPos c - nat cnt) (nat cnt))"

definition Large_GetSteps :: "ProfileLargeCollector \<Rightarrow> addr option list" where
  "Large_GetSteps c =
     (if bufferPos c > length (buffer c) then buffer c else take (bufferPos c) (buffer c))"

definition Large_GetStep4Error :: "ProfileLargeCollector \<Rightarrow> addr option list go" where
  "Large_GetStep4Error c = Large_GetLastSteps 5 c"

definition Large_Append :: "'s step_ops \<Rightarrow> (tx_env \<times> addr) list option \<Rightarrow> 's lstate \<Rightarrow> 's lstate go" where
  "Large_Append ops steps s =
     (case steps of None \<Rightarrow> Inr s | Some sts \<Rightarrow> foldGo (Large_Add ops) sts s)"

definition Large_offset_Add :: "'s step_ops \<Rightarrow> int \<Rightarrow> tx_env \<times> addr \<Rightarrow> 's lstate \<Rightarrow> 's lstate go" where
  "Large_offset_Add ops off = (\<lambda>(e, st) (w, c).
     Large_Add ops (e, st) (upd st (SetStartTime ops (i32 off)) w, c))"

definition Large_AppendParentOffsetTime ::
  "'s step_ops \<Rightarrow> int \<Rightarrow> (tx_env \<times> addr) list option \<Rightarrow> 's lstate \<Rightarrow> 's lstate go" where
  "Large_AppendParentOffsetTime ops off steps s =
     (case steps of None \<Rightarrow> Inr s | Some sts \<Rightarrow> foldGo (Large_offset_Add ops off) sts s)"

definition Large_GetSplitCount :: "ProfileLargeCollector \<Rightarrow> nat" where
  "Large_GetSplitCount c = splitCount c"

definition Large_Length :: "ProfileLargeCollector \<Rightarrow> int" where
  "Large_Length c = int (splitCount c * BUFFER_MAX c) + position c"

subsection \<open>Nothing is lost\<close>

text \<open>The collector was made when \<open>splits\<close> had \<open>n0\<close> elements: the later ones are its own.\<close>

definition own :: "nat \<Rightarrow> 's world \<Rightarrow> StepSplit list" where
  "own n0 w = drop n0 (splits w)"

definition large_ok :: "nat \<Rightarrow> nat \<Rightarrow> 's lstate \<Rightarrow> bool" where
  "large_ok n n0 = (\<lambda>(w, c).
     BUFFER_MAX c = n \<and> 0 < n \<and> length (buffer c) = n \<and> bufferPos c \<le> n \<and>
     n0 \<le> length (splits w) \<and> splitCount c = length (own n0 w) \<and>
     map Inx (own n0 w) = [0..<length (own n0 w)] \<and> (\<forall>s\<in>set (own n0 w). length (Steps s) = n))"

definition large_view :: "nat \<Rightarrow> 's lstate \<Rightarrow> addr option list" where
  "large_view n0 = (\<lambda>(w, c). concat (map Steps (own n0 w)) @ Large_GetSteps c)"

lemma Large_flush_ok:
  assumes "large_ok n n0 s" and "Large_flush e s = (w1, c1)"
  shows "large_ok n n0 (w1, c1)" and "bufferPos c1 < n"
    and "large_view n0 (w1, c1) = large_view n0 s"
    and "position c1 = position (snd s) \<and> parentIndex c1 = parentIndex (snd s) \<and> store w1 = store (fst s)"
  using assms
  by (auto simp: Large_flush_def Large_send_def large_ok_def large_view_def own_def Large_GetSteps_def
      store_simps Suc_diff_le split: if_splits prod.splits)

lemma Large_store_ok:
  assumes "large_ok n n0 (w, c)" and "bufferPos c < n" and "splits w' = splits w"
  shows "\<exists>c'. Large_store st c = Inr c' \<and>
      large_ok n n0 (w', c'\<lparr>position := p c'\<rparr>) \<and>
      large_view n0 (w', c'\<lparr>position := p c'\<rparr>) = large_view n0 (w, c) @ [Some st] \<and>
      large_ok n n0 (w', c'\<lparr>parentIndex := q c'\<rparr>) \<and>
      large_view n0 (w', c'\<lparr>parentIndex := q c'\<rparr>) = large_view n0 (w, c) @ [Some st]"
  using assms
  by (auto simp: Large_store_def large_ok_def large_view_def own_def Large_GetSteps_def
      take_Suc_conv_app_nth)

lemma large_insertions:
  assumes "large_ok n n0 s"
  shows "\<exists>s'. Large_Add ops x s = Inr s' \<and> large_ok n n0 s' \<and> large_view n0 s' = id (large_view n0 s @ [Some (snd x)])"
    and "\<exists>s'. Large_AddHeavy ops x s = Inr s' \<and> large_ok n n0 s' \<and> large_view n0 s' = id (large_view n0 s @ [Some (snd x)])"
    and "\<exists>s'. Large_JustAdd x s = Inr s' \<and> large_ok n n0 s' \<and> large_view n0 s' = id (large_view n0 s @ [Some (snd x)])"
    and "\<exists>s'. Large_Pop ops x s = Inr s' \<and> large_ok n n0 s' \<and> large_view n0 s' = id (large_view n0 s @ [Some (snd x)])"
proof -
  obtain e st where x: "x = (e, st)" by (cases x)
  obtain w c where f: "Large_flush e s = (w, c)" by (cases "Large_flush e s")
  note ok = Large_flush_ok [OF assms f]
  have st: "\<exists>c'. Large_store st c = Inr c' \<and>
      large_ok n n0 (w', c'\<lparr>position := p c'\<rparr>) \<and>
      large_view n0 (w', c'\<lparr>position := p c'\<rparr>) = large_view n0 (w, c) @ [Some st] \<and>
      large_ok n n0 (w', c'\<lparr>parentIndex := q c'\<rparr>) \<and>
      large_view n0 (w', c'\<lparr>parentIndex := q c'\<rparr>) = large_view n0 (w, c) @ [Some st]"
    if "splits w' = splits w" for p q w'
    using Large_store_ok [OF ok(1,2) that] by blast
  let ?w = "upd st (SetParent ops (parentIndex c)) (upd st (SetIndex ops (position c)) w)"
  have sp: "splits ?w = splits w" by (simp add: store_simps)
  obtain c1 where c1: "Large_store st c = Inr c1"
      "large_ok n n0 (?w, c1\<lparr>position := i32 (position c1 + 1)\<rparr>)"
      "large_view n0 (?w, c1\<lparr>position := i32 (position c1 + 1)\<rparr>) = large_view n0 (w, c) @ [Some st]"
    using st [OF sp, of "\<lambda>c. i32 (position c + 1)"] by blast
  then show "\<exists>s'. Large_Add ops x s = Inr s' \<and> large_ok n n0 s' \<and> large_view n0 s' = id (large_view n0 s @ [Some (snd x)])"
    and "\<exists>s'. Large_AddHeavy ops x s = Inr s' \<and> large_ok n n0 s' \<and> large_view n0 s' = id (large_view n0 s @ [Some (snd x)])"
    using ok(3) by (simp_all add: Large_Add_def Large_AddHeavy_def x f Let_def)
  obtain c2 where c2: "Large_store st c = Inr c2"
      "large_ok n n0 (w, c2\<lparr>position := i32 (position c2 + 1)\<rparr>)"
      "large_view n0 (w, c2\<lparr>position := i32 (position c2 + 1)\<rparr>) = large_view n0 (w, c) @ [Some st]"
      "large_ok n n0 (w, c2\<lparr>parentIndex := GetParent ops (store w st)\<rparr>)"
      "large_view n0 (w, c2\<lparr>parentIndex := GetParent ops (store w st)\<rparr>) = large_view n0 (w, c) @ [Some st]"
    using st [OF refl, of "\<lambda>c. i32 (position c + 1)" "\<lambda>_. GetParent ops (store w st)"] by blast
  then show "\<exists>s'. Large_JustAdd x s = Inr s' \<and> large_ok n n0 s' \<and> large_view n0 s' = id (large_view n0 s @ [Some (snd x)])"
    and "\<exists>s'. Large_Pop ops x s = Inr s' \<and> large_ok n n0 s' \<and> large_view n0 s' = id (large_view n0 s @ [Some (snd x)])"
    using ok(3) by (simp_all add: Large_JustAdd_def Large_Pop_def x f Let_def)
qed

lemma large_offset_insertion:
  assumes "large_ok n n0 s"
  shows "\<exists>s'. Large_offset_Add ops off x s = Inr s' \<and> large_ok n n0 s' \<and>
              large_view n0 s' = id (large_view n0 s @ [Some (snd x)])"
proof -
  obtain e st where x: "x = (e, st)" by (cases x)
  obtain w c where s: "s = (w, c)" by (cases s)
  let ?s = "(upd st (SetStartTime ops (i32 off)) w, c)"
  have "large_ok n n0 ?s" "large_view n0 ?s = large_view n0 s"
    using assms by (simp_all add: s large_ok_def large_view_def own_def store_simps)
  with large_insertions(1) [of n n0 ?s ops x] show ?thesis
    by (simp add: Large_offset_Add_def x s)
qed

interpretation large_add: step_sink "Large_Add ops" "large_view n0" "\<lambda>x. Some (snd x)" "large_ok n n0" id for ops n n0
  by unfold_locales (rule large_insertions | assumption | simp)+

interpretation large_heavy: step_sink "Large_AddHeavy ops" "large_view n0" "\<lambda>x. Some (snd x)" "large_ok n n0" id for ops n n0
  by unfold_locales (rule large_insertions | assumption | simp)+

interpretation large_just: step_sink Large_JustAdd "large_view n0" "\<lambda>x. Some (snd x)" "large_ok n n0" id for n n0
  by unfold_locales (rule large_insertions | assumption | simp)+

interpretation large_pop: step_sink "Large_Pop ops" "large_view n0" "\<lambda>x. Some (snd x)" "large_ok n n0" id for ops n n0
  by unfold_locales (rule large_insertions | assumption | simp)+

interpretation large_offset: step_sink "Large_offset_Add ops off" "large_view n0" "\<lambda>x. Some (snd x)" "large_ok n n0" id
  for ops off n n0
  by unfold_locales (rule large_offset_insertion | assumption | simp)+

lemma new_large:
  assumes "0 < m"
  shows "\<exists>c. NewProfileLargeCollector m = Inr c \<and> large_ok (nat m) (length (splits w)) (w, c) \<and>
             large_view (length (splits w)) (w, c) = []"
  using assms by (simp add: NewProfileLargeCollector_def large_ok_def large_view_def own_def Large_GetSteps_def)


text \<open>C10: a large collector of a positive size loses and reorders nothing, however many steps are
  appended: the buffers it sent, taken in order, followed by the steps it still holds, are the steps
  appended; every buffer it sent is full, and the buffers are numbered from 0 without gaps.\<close>
theorem Large_conserves_steps:
  assumes "0 < m"
  shows "\<exists>c w' c'. NewProfileLargeCollector m = Inr c \<and>
           Large_Append ops (Some sts) (w, c) = Inr (w', c') \<and>
           concat (map Steps (own (length (splits w)) w')) @ Large_GetSteps c' = map (Some \<circ> snd) sts \<and>
           map Inx (own (length (splits w)) w') = [0..<Large_GetSplitCount c'] \<and>
           (\<forall>s\<in>set (own (length (splits w)) w'). length (Steps s) = nat m)"
proof -
  from new_large [OF assms] obtain c where
    c: "NewProfileLargeCollector m = Inr c" "large_ok (nat m) (length (splits w)) (w, c)"
       "large_view (length (splits w)) (w, c) = []" by blast
  obtain w' c' where
    s': "foldGo (Large_Add ops) sts (w, c) = Inr (w', c')" "large_ok (nat m) (length (splits w)) (w', c')"
       "large_view (length (splits w)) (w', c') = map (\<lambda>x. Some (snd x)) sts"
    using large_add.put_all_from_empty [OF c(2,3), of ops sts] by fastforce
  from s' c(1) show ?thesis
    by (simp add: Large_Append_def large_view_def large_ok_def Large_GetSplitCount_def comp_def)
qed

theorem Large_conserves_steps_witness:
  "\<exists>c w' c'. NewProfileLargeCollector 2 = Inr c \<and>
     Large_Append plain_ops (Some (map (Pair env0) [3, 4, 5])) (world0, c) = Inr (w', c') \<and>
     concat (map Steps (own (length (splits world0)) w')) @ Large_GetSteps c' =
       map (Some \<circ> snd) (map (Pair env0) [3, 4, 5]) \<and>
     map Inx (own (length (splits world0)) w') = [0..<Large_GetSplitCount c'] \<and>
     (\<forall>s\<in>set (own (length (splits world0)) w'). length (Steps s) = nat 2)"
  by (rule Large_conserves_steps) simp

text \<open>
  Nested work: whatever happens between the \<open>Push\<close> and the \<open>Pop\<close> of a step that does not touch the step
  itself, the parent of later steps is again what it was before the \<open>Push\<close>.
\<close>
lemma Large_Pop_restores_parent:
  assumes "step_laws ops" and "Large_Push ops st (w, c) = (w1, c1)"
    and "store w2 st = store w1 st" and "Large_Pop ops (e, st) (w2, c2) = Inr (w3, c3)"
  shows "parentIndex c3 = parentIndex c"
proof -
  obtain w4 c4 where f: "Large_flush e (w2, c2) = (w4, c4)" by (cases "Large_flush e (w2, c2)")
  then have "store w4 = store w2"
    by (auto simp: Large_flush_def Large_send_def store_simps split: if_splits)
  moreover have "GetParent ops (store w1 st) = parentIndex c"
    using assms(1,2) by (auto simp: Large_Push_def step_laws_def store_simps Let_def)
  ultimately show ?thesis
    using assms(3,4) f by (auto simp: Large_Pop_def bindGo_Inr_iff)
qed

end
