(* ===== verification/Profile_Split.thy ===== *)
theory Profile_Split
  imports Profile_Step
begin

text \<open>
  The splitting profile collector (\<^verbatim>\<open>agent/agent/trace/ProfileSplitTxCollector.go\<close>), profile mode 4: a
  full buffer becomes a virtual child transaction, and the parent keeps one message step for it; when the
  parent's own buffer is full it is handed over like a split of the large collector.

  The hash and the text of the virtual transaction message (\<open>hash.HashStr(lang.MESSAGE_VIRTUAL_TX)\<close> and
  the constant itself, module golib) are the parameters \<open>vhash\<close> and \<open>vtext\<close>; \<open>keygen.Next\<close> and the clock
  are in the environment of the call.
\<close>

record ProfileSplitTxCollector =
  BUFFER_MAX :: nat
  bufferParent :: "addr option list"
  bufferChild :: "addr option list"
  bufferParentPos :: nat
  bufferChildPos :: nat
  parentStepSplitCount :: nat
  childSplitTxNum :: nat
  parentIndex :: int
  childIndex :: int
  childStart :: int
  virtualTxHash :: int

type_synonym 's sstate = "'s world \<times> ProfileSplitTxCollector"

definition NewProfileSplitTxCollector :: "int \<Rightarrow> ProfileSplitTxCollector go" where
  "NewProfileSplitTxCollector maxCount =
     (if maxCount < 0 then Inl MakeSlice
      else Inr \<lparr>BUFFER_MAX = nat maxCount, bufferParent = replicate (nat maxCount) None,
                bufferChild = replicate (nat maxCount) None, bufferParentPos = 0, bufferChildPos = 0,
                parentStepSplitCount = 0, childSplitTxNum = 1, parentIndex = -1, childIndex = 0,
                childStart = 0, virtualTxHash = 0\<rparr>)"

definition Split_HasStep :: "ProfileSplitTxCollector \<Rightarrow> bool" where
  "Split_HasStep c \<longleftrightarrow> bufferChildPos c > 0 \<or> bufferParentPos c > 0"

definition Split_Push :: "'s step_ops \<Rightarrow> addr \<Rightarrow> 's sstate \<Rightarrow> 's sstate" where
  "Split_Push ops st = (\<lambda>(w, c).
     let w1 = upd st (SetParent ops (parentIndex c)) w;
         w2 = upd st (SetIndex ops (childIndex c)) w1
     in (w2, c\<lparr>parentIndex := GetIndex ops (store w2 st), childIndex := i32 (childIndex c + 1)\<rparr>))"

definition sendParent :: "tx_env \<Rightarrow> nat \<Rightarrow> addr option list \<Rightarrow> 's world \<Rightarrow> 's world" where
  "sendParent e inx buff w = StepThread_Add (env_sysnow e) (env_txid e) inx buff w"

definition Split_send ::
  "'s step_ops \<Rightarrow> int \<Rightarrow> string \<Rightarrow> tx_env \<Rightarrow> nat \<Rightarrow> addr option list \<Rightarrow> 's sstate \<Rightarrow> 's sstate go" where
  "Split_send ops vhash vtext e inx buff = (\<lambda>(w, c).
     let txElapsed = env_elapsed e;
         childElapsed = txElapsed - childStart c;
         childName = env_service e @ ''-'' @ itoa (int inx);
         childTxid = env_key e;
         w1 = VirtualTxThread_Add (env_sysnow e) childName childTxid (childStart c) childElapsed buff w;
         (w2, c1) =
           (if bufferParentPos c \<ge> BUFFER_MAX c
            then (sendParent e (parentStepSplitCount c) (bufferParent c) w1,
                  c\<lparr>bufferParent := replicate (BUFFER_MAX c) None, bufferParentPos := 0,
                    parentStepSplitCount := parentStepSplitCount c + 1\<rparr>)
            else (w1, c));
         (w3, c2) =
           (if virtualTxHash c1 = 0
            then (w2\<lparr>texts := texts w2 @ [(vhash, vtext)]\<rparr>, c1\<lparr>virtualTxHash := vhash\<rparr>)
            else (w2, c1));
         st = next_addr w3;
         msg = MessageStep ops (i32 (childStart c2)) (virtualTxHash c2)
                 (childName @ '' <'' @ itoa childTxid @ ''>'') (i32 childElapsed);
         w4 = w3\<lparr>store := (store w3)(st := msg), next_addr := st + 1\<rparr>
     in bindGo (writeAt (bufferParent c2) (bufferParentPos c2) (Some st)) (\<lambda>b.
        Inr (w4, c2\<lparr>bufferParent := b, bufferParentPos := bufferParentPos c2 + 1,
                    childStart := txElapsed\<rparr>)))"

text \<open>The block that opens every storing method, and the write that ends it.\<close>

definition Split_flush :: "'s step_ops \<Rightarrow> int \<Rightarrow> string \<Rightarrow> tx_env \<Rightarrow> 's sstate \<Rightarrow> 's sstate go" where
  "Split_flush ops vhash vtext e = (\<lambda>(w, c).
     if bufferChildPos c \<ge> BUFFER_MAX c
     then bindGo (Split_send ops vhash vtext e (childSplitTxNum c) (bufferChild c) (w, c)) (\<lambda>(w1, c1).
          Inr (w1, c1\<lparr>bufferChild := replicate (BUFFER_MAX c1) None, bufferChildPos := 0,
                      childSplitTxNum := childSplitTxNum c1 + 1\<rparr>))
     else Inr (w, c))"

definition Split_store :: "addr \<Rightarrow> ProfileSplitTxCollector \<Rightarrow> ProfileSplitTxCollector go" where
  "Split_store st c =
     bindGo (writeAt (bufferChild c) (bufferChildPos c) (Some st)) (\<lambda>b.
     Inr (c\<lparr>bufferChild := b, bufferChildPos := bufferChildPos c + 1\<rparr>))"

definition Split_Add ::
  "'s step_ops \<Rightarrow> int \<Rightarrow> string \<Rightarrow> tx_env \<times> addr \<Rightarrow> 's sstate \<Rightarrow> 's sstate go" where
  "Split_Add ops vhash vtext = (\<lambda>(e, st) s.
     bindGo (Split_flush ops vhash vtext e s) (\<lambda>(w, c).
     let w1 = upd st (SetParent ops (parentIndex c)) w;
         w2 = upd st (SetIndex ops (childIndex c)) w1;
         c1 = c\<lparr>childIndex := i32 (childIndex c + 1)\<rparr>
     in bindGo (Split_store st c1) (\<lambda>c2. Inr (w2, c2))))"

definition Split_AddHeavy ::
  "'s step_ops \<Rightarrow> int \<Rightarrow> string \<Rightarrow> tx_env \<times> addr \<Rightarrow> 's sstate \<Rightarrow> 's sstate go" where
  "Split_AddHeavy ops vhash vtext = (\<lambda>(e, st) s.
     bindGo (Split_flush ops vhash vtext e s) (\<lambda>(w, c).
     let w1 = upd st (SetParent ops (parentIndex c)) w;
         w2 = upd st (SetIndex ops (childIndex c)) w1;
         c1 = c\<lparr>childIndex := i32 (childIndex c + 1)\<rparr>
     in bindGo (Split_store st c1) (\<lambda>c2. Inr (w2, c2))))"

definition Split_JustAdd ::
  "'s step_ops \<Rightarrow> int \<Rightarrow> string \<Rightarrow> tx_env \<times> addr \<Rightarrow> 's sstate \<Rightarrow> 's sstate go" where
  "Split_JustAdd ops vhash vtext = (\<lambda>(e, st) s.
     bindGo (Split_flush ops vhash vtext e s) (\<lambda>(w, c).
     bindGo (Split_store st c) (\<lambda>c2. Inr (w, c2))))"

definition Split_AppendStep ::
  "'s step_ops \<Rightarrow> int \<Rightarrow> string \<Rightarrow> tx_env \<times> addr \<Rightarrow> 's sstate \<Rightarrow> 's sstate go" where
  "Split_AppendStep ops vhash vtext = Split_Add ops vhash vtext"

definition Split_AddTail ::
  "'s step_ops \<Rightarrow> int \<Rightarrow> string \<Rightarrow> tx_env \<times> addr \<Rightarrow> 's sstate \<Rightarrow> 's sstate go" where
  "Split_AddTail ops vhash vtext = Split_Add ops vhash vtext"

definition Split_Pop ::
  "'s step_ops \<Rightarrow> int \<Rightarrow> string \<Rightarrow> tx_env \<times> addr \<Rightarrow> 's sstate \<Rightarrow> 's sstate go" where
  "Split_Pop ops vhash vtext = (\<lambda>(e, st) s.
     bindGo (Split_flush ops vhash vtext e s) (\<lambda>(w, c).
     bindGo (Split_store st c) (\<lambda>c2. Inr (w, c2\<lparr>parentIndex := GetParent ops (store w st)\<rparr>))))"

definition Split_GetLastSteps :: "int \<Rightarrow> ProfileSplitTxCollector \<Rightarrow> addr option list go" where
  "Split_GetLastSteps n c =
     (let cnt = (if int (bufferChildPos c) > n then n else int (bufferChildPos c)) in
      if cnt < 0 then Inl MakeSlice
      else readRange (bufferChild c) (bufferChildPos c - nat cnt) (nat cnt))"

definition Split_GetSteps :: "ProfileSplitTxCollector \<Rightarrow> addr option list" where
  "Split_GetSteps c =
     (if bufferParentPos c = 0 \<and> bufferChildPos c = 0 then []
      else if bufferParentPos c = 0
      then if bufferChildPos c \<ge> length (bufferChild c) then bufferChild c
           else take (bufferChildPos c) (bufferChild c)
      else if bufferChildPos c = 0 then take (bufferParentPos c) (bufferParent c)
      else take (bufferParentPos c) (bufferParent c) @ take (bufferChildPos c) (bufferChild c))"

definition Split_GetStep4Error :: "ProfileSplitTxCollector \<Rightarrow> addr option list go" where
  "Split_GetStep4Error c = Split_GetLastSteps 5 c"

definition Split_Append ::
  "'s step_ops \<Rightarrow> int \<Rightarrow> string \<Rightarrow> (tx_env \<times> addr) list option \<Rightarrow> 's sstate \<Rightarrow> 's sstate go" where
  "Split_Append ops vhash vtext steps s =
     (case steps of None \<Rightarrow> Inr s | Some sts \<Rightarrow> foldGo (Split_Add ops vhash vtext) sts s)"

definition Split_offset_Add ::
  "'s step_ops \<Rightarrow> int \<Rightarrow> string \<Rightarrow> int \<Rightarrow> tx_env \<times> addr \<Rightarrow> 's sstate \<Rightarrow> 's sstate go" where
  "Split_offset_Add ops vhash vtext off = (\<lambda>(e, st) (w, c).
     Split_Add ops vhash vtext (e, st)
       (upd st (\<lambda>s. SetStartTime ops (i32 (GetStartTime ops s + i32 off)) s) w, c))"

definition Split_AppendParentOffsetTime ::
  "'s step_ops \<Rightarrow> int \<Rightarrow> string \<Rightarrow> int \<Rightarrow> (tx_env \<times> addr) list option \<Rightarrow> 's sstate \<Rightarrow> 's sstate go" where
  "Split_AppendParentOffsetTime ops vhash vtext off steps s =
     (case steps of None \<Rightarrow> Inr s | Some sts \<Rightarrow> foldGo (Split_offset_Add ops vhash vtext off) sts s)"

definition Split_GetSplitCount :: "ProfileSplitTxCollector \<Rightarrow> nat" where
  "Split_GetSplitCount c = parentStepSplitCount c"

definition Split_Length :: "ProfileSplitTxCollector \<Rightarrow> nat" where
  "Split_Length c = parentStepSplitCount c * BUFFER_MAX c + bufferChildPos c"

subsection \<open>The child transactions cover the steps and the time\<close>

definition children :: "nat \<Rightarrow> 's world \<Rightarrow> VirtualTx list" where
  "children n0 w = drop n0 (virtuals w)"

text \<open>\<open>chain t vs t'\<close>: the intervals of \<open>vs\<close> follow one another from \<open>t\<close> to \<open>t'\<close>.\<close>

fun chain :: "int \<Rightarrow> VirtualTx list \<Rightarrow> int \<Rightarrow> bool" where
  "chain t [] t' \<longleftrightarrow> t = t'"
| "chain t (v # vs) t' \<longleftrightarrow> vt_start v = t \<and> chain (t + vt_elapsed v) vs t'"

lemma chain_snoc: "chain t (vs @ [v]) t' \<longleftrightarrow> chain t vs (vt_start v) \<and> vt_start v + vt_elapsed v = t'"
  by (induction t vs t' rule: chain.induct) auto

definition split_ok :: "nat \<Rightarrow> nat \<Rightarrow> 's sstate \<Rightarrow> bool" where
  "split_ok n n0 = (\<lambda>(w, c).
     BUFFER_MAX c = n \<and> 0 < n \<and> length (bufferChild c) = n \<and> length (bufferParent c) = n \<and>
     bufferChildPos c \<le> n \<and> bufferParentPos c \<le> n \<and> n0 \<le> length (virtuals w) \<and>
     length (children n0 w) = parentStepSplitCount c * n + bufferParentPos c \<and>
     childSplitTxNum c = length (children n0 w) + 1 \<and>
     chain 0 (children n0 w) (childStart c))"

definition split_view :: "nat \<Rightarrow> 's sstate \<Rightarrow> addr option list" where
  "split_view n0 = (\<lambda>(w, c). concat (map vt_steps (children n0 w)) @ take (bufferChildPos c) (bufferChild c))"

lemma Split_send_ok:
  assumes "split_ok n n0 (w, c)"
  shows "\<exists>w1 c1. Split_send ops vhash vtext e inx buff (w, c) = Inr (w1, c1) \<and>
      virtuals w1 = virtuals w @ [\<lparr>vt_time = env_sysnow e, vt_name = env_service e @ ''-'' @ itoa (int inx),
         vt_txid = env_key e, vt_start = childStart c, vt_elapsed = env_elapsed e - childStart c, vt_steps = buff\<rparr>] \<and>
      BUFFER_MAX c1 = n \<and> bufferChild c1 = bufferChild c \<and> bufferChildPos c1 = bufferChildPos c \<and>
      childSplitTxNum c1 = childSplitTxNum c \<and> length (bufferParent c1) = n \<and> bufferParentPos c1 \<le> n \<and>
      parentStepSplitCount c1 * n + bufferParentPos c1 = parentStepSplitCount c * n + bufferParentPos c + 1 \<and>
      childStart c1 = env_elapsed e"
  using assms
  by (cases "bufferParentPos c = n"; cases "virtualTxHash c = 0")
    (auto simp: Split_send_def split_ok_def sendParent_def store_simps Let_def)

lemma Split_flush_ok:
  assumes "split_ok n n0 s"
  shows "\<exists>w1 c1. Split_flush ops vhash vtext e s = Inr (w1, c1) \<and> split_ok n n0 (w1, c1) \<and>
      bufferChildPos c1 < n \<and> split_view n0 (w1, c1) = split_view n0 s"
proof -
  obtain w c where s: "s = (w, c)" by (cases s)
  show ?thesis
  proof (cases "bufferChildPos c = n")
    case False
    with assms show ?thesis
      by (auto simp: s Split_flush_def split_ok_def)
  next
    case True
    from Split_send_ok [of n n0 w c ops vhash vtext e "childSplitTxNum c" "bufferChild c"] assms s
    obtain w1 c1 where "Split_send ops vhash vtext e (childSplitTxNum c) (bufferChild c) (w, c) = Inr (w1, c1)"
      and w1: "virtuals w1 = virtuals w @ [\<lparr>vt_time = env_sysnow e,
          vt_name = env_service e @ ''-'' @ itoa (int (childSplitTxNum c)),
          vt_txid = env_key e, vt_start = childStart c, vt_elapsed = env_elapsed e - childStart c,
          vt_steps = bufferChild c\<rparr>]"
      and "BUFFER_MAX c1 = n" "bufferChild c1 = bufferChild c" "bufferChildPos c1 = bufferChildPos c"
        "childSplitTxNum c1 = childSplitTxNum c" "length (bufferParent c1) = n" "bufferParentPos c1 \<le> n"
        "parentStepSplitCount c1 * n + bufferParentPos c1 = parentStepSplitCount c * n + bufferParentPos c + 1"
        "childStart c1 = env_elapsed e"
      by auto
    moreover have "children n0 w1 = children n0 w @ [\<lparr>vt_time = env_sysnow e,
          vt_name = env_service e @ ''-'' @ itoa (int (childSplitTxNum c)),
          vt_txid = env_key e, vt_start = childStart c, vt_elapsed = env_elapsed e - childStart c,
          vt_steps = bufferChild c\<rparr>]"
      using assms w1 by (simp add: children_def split_ok_def s)
    ultimately show ?thesis
      using True assms
      by (simp add: s Split_flush_def split_ok_def split_view_def chain_snoc)
  qed
qed

lemma Split_store_ok:
  assumes "split_ok n n0 (w, c)" and "bufferChildPos c < n" and "virtuals w' = virtuals w"
  shows "\<exists>c'. Split_store st (c\<lparr>childIndex := i\<rparr>) = Inr c' \<and> split_ok n n0 (w', c') \<and>
      split_view n0 (w', c') = split_view n0 (w, c) @ [Some st]"
    and "\<exists>c'. Split_store st c = Inr c' \<and> split_ok n n0 (w', c'\<lparr>parentIndex := p\<rparr>) \<and>
      split_view n0 (w', c'\<lparr>parentIndex := p\<rparr>) = split_view n0 (w, c) @ [Some st] \<and>
      split_ok n n0 (w', c') \<and> split_view n0 (w', c') = split_view n0 (w, c) @ [Some st]"
  using assms
  by (auto simp: Split_store_def split_ok_def split_view_def children_def take_Suc_conv_app_nth)

lemma split_insertions:
  assumes "split_ok n n0 s"
  shows "\<exists>s'. Split_Add ops vh vt x s = Inr s' \<and> split_ok n n0 s' \<and> split_view n0 s' = id (split_view n0 s @ [Some (snd x)])"
    and "\<exists>s'. Split_AddHeavy ops vh vt x s = Inr s' \<and> split_ok n n0 s' \<and> split_view n0 s' = id (split_view n0 s @ [Some (snd x)])"
    and "\<exists>s'. Split_JustAdd ops vh vt x s = Inr s' \<and> split_ok n n0 s' \<and> split_view n0 s' = id (split_view n0 s @ [Some (snd x)])"
    and "\<exists>s'. Split_Pop ops vh vt x s = Inr s' \<and> split_ok n n0 s' \<and> split_view n0 s' = id (split_view n0 s @ [Some (snd x)])"
proof -
  obtain e st where x: "x = (e, st)" by (cases x)
  obtain w c where f: "Split_flush ops vh vt e s = Inr (w, c)" and ok: "split_ok n n0 (w, c)"
    "bufferChildPos c < n" and v: "split_view n0 (w, c) = split_view n0 s"
    using Split_flush_ok [OF assms, of ops vh vt e] by blast
  let ?w = "upd st (SetIndex ops (childIndex c)) (upd st (SetParent ops (parentIndex c)) w)"
  have "virtuals ?w = virtuals w" by (simp add: store_simps)
  from Split_store_ok(1) [OF ok this, of st "i32 (childIndex c + 1)"] obtain c1 where
    "Split_store st (c\<lparr>childIndex := i32 (childIndex c + 1)\<rparr>) = Inr c1" "split_ok n n0 (?w, c1)"
    "split_view n0 (?w, c1) = split_view n0 (w, c) @ [Some st]" by blast
  then show "\<exists>s'. Split_Add ops vh vt x s = Inr s' \<and> split_ok n n0 s' \<and> split_view n0 s' = id (split_view n0 s @ [Some (snd x)])"
    and "\<exists>s'. Split_AddHeavy ops vh vt x s = Inr s' \<and> split_ok n n0 s' \<and> split_view n0 s' = id (split_view n0 s @ [Some (snd x)])"
    using f v by (simp_all add: Split_Add_def Split_AddHeavy_def x Let_def)
  from Split_store_ok(2) [OF ok refl, of st "GetParent ops (store w st)"] obtain c2 where
    "Split_store st c = Inr c2" "split_ok n n0 (w, c2\<lparr>parentIndex := GetParent ops (store w st)\<rparr>)"
    "split_view n0 (w, c2\<lparr>parentIndex := GetParent ops (store w st)\<rparr>) = split_view n0 (w, c) @ [Some st]"
    "split_ok n n0 (w, c2)" "split_view n0 (w, c2) = split_view n0 (w, c) @ [Some st]" by blast
  then show "\<exists>s'. Split_JustAdd ops vh vt x s = Inr s' \<and> split_ok n n0 s' \<and> split_view n0 s' = id (split_view n0 s @ [Some (snd x)])"
    and "\<exists>s'. Split_Pop ops vh vt x s = Inr s' \<and> split_ok n n0 s' \<and> split_view n0 s' = id (split_view n0 s @ [Some (snd x)])"
    using f v by (simp_all add: Split_JustAdd_def Split_Pop_def x)
qed

lemma split_offset_insertion:
  assumes "split_ok n n0 s"
  shows "\<exists>s'. Split_offset_Add ops vh vt off x s = Inr s' \<and> split_ok n n0 s' \<and>
              split_view n0 s' = id (split_view n0 s @ [Some (snd x)])"
proof -
  obtain e st where x: "x = (e, st)" by (cases x)
  obtain w c where s: "s = (w, c)" by (cases s)
  let ?s = "(upd st (\<lambda>s. SetStartTime ops (i32 (GetStartTime ops s + i32 off)) s) w, c)"
  have "split_ok n n0 ?s" "split_view n0 ?s = split_view n0 s"
    using assms by (simp_all add: s split_ok_def split_view_def children_def store_simps)
  with split_insertions(1) [of n n0 ?s ops vh vt x] show ?thesis
    by (simp add: Split_offset_Add_def x s)
qed

interpretation split_add: step_sink "Split_Add ops vh vt" "split_view n0" "\<lambda>x. Some (snd x)" "split_ok n n0" id
  for ops vh vt n n0
  by unfold_locales (rule split_insertions | assumption | simp)+

interpretation split_heavy: step_sink "Split_AddHeavy ops vh vt" "split_view n0" "\<lambda>x. Some (snd x)" "split_ok n n0" id
  for ops vh vt n n0
  by unfold_locales (rule split_insertions | assumption | simp)+

interpretation split_just: step_sink "Split_JustAdd ops vh vt" "split_view n0" "\<lambda>x. Some (snd x)" "split_ok n n0" id
  for ops vh vt n n0
  by unfold_locales (rule split_insertions | assumption | simp)+

interpretation split_pop: step_sink "Split_Pop ops vh vt" "split_view n0" "\<lambda>x. Some (snd x)" "split_ok n n0" id
  for ops vh vt n n0
  by unfold_locales (rule split_insertions | assumption | simp)+

interpretation split_offset: step_sink "Split_offset_Add ops vh vt off" "split_view n0" "\<lambda>x. Some (snd x)"
    "split_ok n n0" id
  for ops vh vt off n n0
  by unfold_locales (rule split_offset_insertion | assumption | simp)+

lemma new_split:
  assumes "0 < m"
  shows "\<exists>c. NewProfileSplitTxCollector m = Inr c \<and> split_ok (nat m) (length (virtuals w)) (w, c) \<and>
             split_view (length (virtuals w)) (w, c) = []"
  using assms
  by (simp add: NewProfileSplitTxCollector_def split_ok_def split_view_def children_def)



end
