(* ===== verification/Profile_Normal.thy ===== *)
theory Profile_Normal
  imports Profile_Step
begin

text \<open>
  The normal profile collector (\<^verbatim>\<open>agent/agent/trace/ProfileNormalCollector.go\<close>), the default, with the
  part of the configuration it is built from. It keeps the first steps up to \<open>normal_len\<close>, then only slow
  ones up to \<open>heavy_len\<close>; \<open>AddTail\<close> may fill the rest of the slice.

  The slice is the list \<open>buffer\<close> with its capacity \<open>buffer_cap\<close>; the capacity an \<open>append\<close> to a full slice
  chooses is the parameter \<open>grow\<close>. \<open>sort.Slice\<close> is not stable: its result is the parameter \<open>srt\<close>, of which
  \<open>sort_ok\<close> states what the package documents.
\<close>

record profile_conf =
  ProfileStepMaxCount :: int
  ProfileStepNormalCount :: int
  ProfileStepHeavyCount :: int
  ProfileStepHeavyTime :: int

text \<open>The limits as the configuration reads them: each one is capped by the next.\<close>

definition read_profile_conf :: "int \<Rightarrow> int \<Rightarrow> int \<Rightarrow> int \<Rightarrow> profile_conf" where
  "read_profile_conf normal heavy maxc htime =
     (let heavy1 = (if heavy > maxc then maxc else heavy);
          normal1 = (if normal > heavy1 then heavy1 else normal)
      in \<lparr>ProfileStepMaxCount = maxc, ProfileStepNormalCount = normal1,
          ProfileStepHeavyCount = heavy1, ProfileStepHeavyTime = htime\<rparr>)"

record ProfileNormalCollector =
  buffer :: "addr list"
  buffer_cap :: nat
  position :: int
  parent_index :: int
  buffer_len :: int
  normal_len :: int
  heavy_len :: int
  heavy_time :: int

type_synonym 's nstate = "'s world \<times> ProfileNormalCollector"

definition NewProfileNormalCollector :: "profile_conf \<Rightarrow> ProfileNormalCollector go" where
  "NewProfileNormalCollector conf =
     (if ProfileStepMaxCount conf < 0 then Inl MakeSlice
      else Inr \<lparr>buffer = [], buffer_cap = nat (ProfileStepMaxCount conf), position = 0, parent_index = -1,
                buffer_len = ProfileStepMaxCount conf, normal_len = ProfileStepNormalCount conf,
                heavy_len = ProfileStepHeavyCount conf, heavy_time = ProfileStepHeavyTime conf\<rparr>)"

definition Normal_HasStep :: "ProfileNormalCollector \<Rightarrow> bool" where
  "Normal_HasStep c \<longleftrightarrow> position c > 0"

text \<open>\<open>this.buffer = append(this.buffer, st)\<close> and \<open>this.position++\<close>, after writing index and parent.\<close>

definition Normal_append :: "'s step_ops \<Rightarrow> (nat \<Rightarrow> nat) \<Rightarrow> addr \<Rightarrow> 's nstate \<Rightarrow> 's nstate" where
  "Normal_append ops grow st = (\<lambda>(w, c).
     let w1 = upd st (SetIndex ops (position c)) w;
         w2 = upd st (SetParent ops (parent_index c)) w1
     in (w2, c\<lparr>buffer := buffer c @ [st],
               buffer_cap := (if length (buffer c) < buffer_cap c then buffer_cap c
                              else grow (buffer_cap c)),
               position := i32 (position c + 1)\<rparr>))"

definition Normal_Add :: "'s step_ops \<Rightarrow> (nat \<Rightarrow> nat) \<Rightarrow> addr \<Rightarrow> 's nstate \<Rightarrow> 's nstate" where
  "Normal_Add ops grow st = (\<lambda>(w, c).
     if position c < normal_len c then Normal_append ops grow st (w, c)
     else if position c < heavy_len c
     then if GetElapsed ops (store w st) \<ge> heavy_time c then Normal_append ops grow st (w, c) else (w, c)
     else (w, c))"

definition Normal_AddHeavy :: "'s step_ops \<Rightarrow> (nat \<Rightarrow> nat) \<Rightarrow> addr \<Rightarrow> 's nstate \<Rightarrow> 's nstate" where
  "Normal_AddHeavy ops grow st = (\<lambda>(w, c).
     if position c < buffer_len c then Normal_append ops grow st (w, c) else (w, c))"

text \<open>The slice expression \<open>this.buffer[0:this.position]\<close>.\<close>

definition Normal_held :: "ProfileNormalCollector \<Rightarrow> addr list go" where
  "Normal_held c =
     (if position c \<ge> buffer_len c then Inr (buffer c)
      else if 0 \<le> position c \<and> position c \<le> int (length (buffer c)) then Inr (take (nat (position c)) (buffer c))
      else Inl IndexOutOfRange)"

text \<open>The loop that renumbers the sorted steps.\<close>

fun renumber :: "'s step_ops \<Rightarrow> int \<Rightarrow> addr list \<Rightarrow> 's world \<Rightarrow> 's world" where
  "renumber ops i [] w = w"
| "renumber ops i (a # as) w = renumber ops (i + 1) as (upd a (SetIndex ops (i32 i)) w)"

definition Normal_GetSteps ::
  "'s step_ops \<Rightarrow> ((addr \<Rightarrow> int) \<Rightarrow> addr list \<Rightarrow> addr list) \<Rightarrow> 's nstate \<Rightarrow> ('s world \<times> addr list) go" where
  "Normal_GetSteps ops srt = (\<lambda>(w, c).
     bindGo (Normal_held c) (\<lambda>steps.
     let tmp = srt (\<lambda>a. GetStartTime ops (store w a)) steps
     in Inr (renumber ops 0 tmp w, tmp)))"

definition Normal_GetLastSteps :: "int \<Rightarrow> ProfileNormalCollector \<Rightarrow> addr list go" where
  "Normal_GetLastSteps n c =
     (let cnt = (if position c > n then n else position c) in
      if cnt < 0 then Inl MakeSlice
      else readRange (buffer c) (nat (position c - cnt)) (nat cnt))"

definition Normal_GetStep4Error :: "ProfileNormalCollector \<Rightarrow> addr list go" where
  "Normal_GetStep4Error c = Normal_GetLastSteps 5 c"

definition Normal_Push :: "'s step_ops \<Rightarrow> addr \<Rightarrow> 's nstate \<Rightarrow> 's nstate go" where
  "Normal_Push ops st = (\<lambda>(w, c).
     if position c < normal_len c
     then let w1 = upd st (SetIndex ops (position c)) w;
              w2 = upd st (SetParent ops (parent_index c)) w1;
              c1 = c\<lparr>parent_index := position c\<rparr>
          in if position c1 < 0 then Inl IndexOutOfRange
             else bindGo (writeAt (buffer c1) (nat (position c1)) st) (\<lambda>b.
                  Inr (w2, c1\<lparr>buffer := b, position := i32 (position c1 + 1)\<rparr>))
     else Inr (upd st (SetDrop ops True) w, c))"

definition Normal_Pop :: "'s step_ops \<Rightarrow> (nat \<Rightarrow> nat) \<Rightarrow> addr \<Rightarrow> 's nstate \<Rightarrow> 's nstate" where
  "Normal_Pop ops grow st = (\<lambda>(w, c).
     if GetDrop ops (store w st)
     then if position c < heavy_len c
          then if GetElapsed ops (store w st) \<ge> heavy_time c then Normal_append ops grow st (w, c) else (w, c)
          else (w, c)
     else (w, c\<lparr>parent_index := GetParent ops (store w st)\<rparr>))"

definition Normal_AddTail :: "'s step_ops \<Rightarrow> (nat \<Rightarrow> nat) \<Rightarrow> addr \<Rightarrow> 's nstate \<Rightarrow> 's nstate" where
  "Normal_AddTail ops grow st = (\<lambda>(w, c).
     if position c < int (buffer_cap c) then Normal_append ops grow st (w, c) else (w, c))"

definition Normal_Append :: "'s step_ops \<Rightarrow> (nat \<Rightarrow> nat) \<Rightarrow> addr list option \<Rightarrow> 's nstate \<Rightarrow> 's nstate" where
  "Normal_Append ops grow steps s =
     (case steps of None \<Rightarrow> s | Some sts \<Rightarrow> fold (Normal_Add ops grow) sts s)"

definition Normal_AppendParentOffsetTime ::
  "'s step_ops \<Rightarrow> (nat \<Rightarrow> nat) \<Rightarrow> int \<Rightarrow> addr list option \<Rightarrow> 's nstate \<Rightarrow> 's nstate" where
  "Normal_AppendParentOffsetTime ops grow off steps s =
     (case steps of None \<Rightarrow> s
      | Some sts \<Rightarrow> fold (\<lambda>st (w, c). Normal_Add ops grow st (upd st (SetStartTime ops (i32 off)) w, c)) sts s)"

definition Normal_Length :: "ProfileNormalCollector \<Rightarrow> int" where
  "Normal_Length c = position c"

lemmas normal_ops = Normal_Add_def Normal_AddHeavy_def Normal_AddTail_def Normal_Pop_def

subsection \<open>Bounds\<close>

text \<open>The calls a transaction makes on its collector.\<close>

datatype normal_op = DoAdd addr | DoAddHeavy addr | DoAddTail addr | DoPop addr | DoAppend "addr list"

fun do_normal :: "'s step_ops \<Rightarrow> (nat \<Rightarrow> nat) \<Rightarrow> normal_op \<Rightarrow> 's nstate \<Rightarrow> 's nstate" where
  "do_normal ops grow (DoAdd st) s = Normal_Add ops grow st s"
| "do_normal ops grow (DoAddHeavy st) s = Normal_AddHeavy ops grow st s"
| "do_normal ops grow (DoAddTail st) s = Normal_AddTail ops grow st s"
| "do_normal ops grow (DoPop st) s = Normal_Pop ops grow st s"
| "do_normal ops grow (DoAppend sts) s = Normal_Append ops grow (Some sts) s"

definition normal_ok :: "int \<Rightarrow> 's nstate \<Rightarrow> bool" where
  "normal_ok m = (\<lambda>(w, c).
     position c = int (length (buffer c)) \<and> position c \<le> m \<and> m < 2 ^ 31 \<and> buffer_len c = m \<and>
     buffer_cap c = nat m \<and> normal_len c \<le> heavy_len c \<and> heavy_len c \<le> m)"

lemma parent_ok: "normal_ok m (w, c\<lparr>parent_index := p\<rparr>) \<longleftrightarrow> normal_ok m (w, c)"
  by (simp add: normal_ok_def)

lemma append_ok:
  assumes "normal_ok m (w, c)" and "position c < m"
  shows "normal_ok m (Normal_append ops grow st (w, c))"
  using assms by (auto simp: normal_ok_def Normal_append_def Let_def)

lemma normal_op_ok:
  assumes "normal_ok m s"
  shows "normal_ok m (Normal_Add ops grow st s)" and "normal_ok m (Normal_AddHeavy ops grow st s)"
    and "normal_ok m (Normal_AddTail ops grow st s)" and "normal_ok m (Normal_Pop ops grow st s)"
proof -
  obtain w c where s: "s = (w, c)" by (cases s)
  note ok = assms [unfolded s]
  have lim: "normal_len c \<le> m" "heavy_len c \<le> m" "buffer_len c = m" "int (buffer_cap c) = m"
    using ok by (auto simp: normal_ok_def)
  show "normal_ok m (Normal_Add ops grow st s)"
    using ok lim by (auto simp: s Normal_Add_def intro!: append_ok)
  show "normal_ok m (Normal_AddHeavy ops grow st s)"
    using ok lim by (auto simp: s Normal_AddHeavy_def intro!: append_ok)
  show "normal_ok m (Normal_AddTail ops grow st s)"
    using ok lim by (auto simp: s Normal_AddTail_def intro!: append_ok)
  show "normal_ok m (Normal_Pop ops grow st s)"
    using ok lim by (auto simp: s Normal_Pop_def parent_ok intro!: append_ok)
qed

lemma fold_normal_ok: "(\<And>x s. P s \<Longrightarrow> P (f x s)) \<Longrightarrow> P s \<Longrightarrow> P (fold f xs s)"
  by (induction xs arbitrary: s) auto

lemma do_normal_ok: "normal_ok m s \<Longrightarrow> normal_ok m (do_normal ops grow x s)"
proof (cases x)
  case (DoAppend sts)
  assume "normal_ok m s"
  then have "normal_ok m (fold (Normal_Add ops grow) sts s)"
    by (rule fold_normal_ok [rotated]) (rule normal_op_ok)
  with DoAppend show ?thesis by (simp add: Normal_Append_def)
qed (simp_all add: normal_op_ok)

lemma new_normal:
  assumes "0 \<le> maxc" and "maxc < 2 ^ 31"
  shows "\<exists>c. NewProfileNormalCollector (read_profile_conf normal heavy maxc ht) = Inr c \<and>
             normal_ok maxc (w, c) \<and> buffer c = []"
  using assms by (simp add: NewProfileNormalCollector_def read_profile_conf_def normal_ok_def Let_def)

text \<open>C37: whatever limits are configured (with a maximum that is a non-negative 32-bit value), and
  whatever calls a transaction makes, the collector never holds more than the maximum number of steps,
  its slice is never reallocated, and its position counts the steps held.\<close>
theorem Normal_bounded:
  assumes "0 \<le> maxc" and "maxc < 2 ^ 31"
  shows "\<exists>c. NewProfileNormalCollector (read_profile_conf normal heavy maxc ht) = Inr c \<and>
     (let c' = snd (fold (do_normal ops grow) calls (w, c))
      in int (length (buffer c')) \<le> maxc \<and> buffer_cap c' = nat maxc \<and>
         Normal_Length c' = int (length (buffer c')))"
proof -
  from new_normal [OF assms, of normal heavy ht w] obtain c where
    c: "NewProfileNormalCollector (read_profile_conf normal heavy maxc ht) = Inr c" "normal_ok maxc (w, c)"
    by blast
  have "normal_ok maxc (fold (do_normal ops grow) calls (w, c))"
    using c(2) by (rule fold_normal_ok [where P = "normal_ok maxc", rotated]) (rule do_normal_ok)
  with c(1) show ?thesis
    by (auto simp: normal_ok_def Normal_Length_def split: prod.splits)
qed

theorem Normal_bounded_witness:
  "\<exists>c. NewProfileNormalCollector (read_profile_conf 800 5000 2 0) = Inr c \<and>
     (let c' = snd (fold (do_normal plain_ops (\<lambda>n. 2 * n)) [DoAdd 1, DoAddHeavy 2, DoAddTail 3, DoPop 1] (world0, c))
      in int (length (buffer c')) \<le> 2 \<and> buffer_cap c' = nat 2 \<and>
         Normal_Length c' = int (length (buffer c')))"
  by (rule Normal_bounded) simp_all

text \<open>In every state those calls lead to, \<open>Push\<close> of a step below the normal limit panics: it assigns to
  the slot behind the last element of the slice instead of appending.\<close>
theorem Normal_Push_panics:
  assumes "normal_ok m (w, c)" and "position c < normal_len c"
  shows "Normal_Push ops st (w, c) = Inl IndexOutOfRange"
  using assms by (simp add: Normal_Push_def normal_ok_def Let_def)

theorem Normal_Push_panics_witness:
  "Normal_Push plain_ops 4
     (world0, \<lparr>buffer = [], buffer_cap = 1024, position = 0, parent_index = -1, buffer_len = 1024,
               normal_len = 800, heavy_len = 1000, heavy_time = 100\<rparr>) = Inl IndexOutOfRange"
  by (rule Normal_Push_panics [where m = 1024]) (simp_all add: normal_ok_def)

subsection \<open>The contract\<close>

text \<open>\<open>AddHeavy\<close> keeps the first \<open>m\<close> steps.\<close>

definition normal_view :: "'s nstate \<Rightarrow> addr list" where
  "normal_view s = buffer (snd s)"

lemma AddHeavy_sink:
  assumes "normal_ok m s"
  shows "\<exists>s'. Inr (Normal_AddHeavy ops grow st s) = (Inr s' :: 's nstate go) \<and> normal_ok m s' \<and>
              normal_view s' = take (nat m) (normal_view s @ [st])"
proof -
  have "normal_ok m (Normal_AddHeavy ops grow st s)" by (rule normal_op_ok [OF assms])
  moreover have "normal_view (Normal_AddHeavy ops grow st s) = take (nat m) (normal_view s @ [st])"
    using assms
    by (auto simp: Normal_AddHeavy_def Normal_append_def normal_view_def normal_ok_def Let_def split: prod.splits)
  ultimately show ?thesis by blast
qed

interpretation normal_heavy: step_sink "\<lambda>st s. Inr (Normal_AddHeavy ops grow st s)" normal_view "\<lambda>a. a"
    "normal_ok m" "take (nat m)" for ops grow m
proof (unfold_locales, goal_cases)
  case (1 s a)
  then show ?case by (rule AddHeavy_sink)
next
  case (2 s)
  then show ?case by (auto simp: normal_ok_def normal_view_def)
next
  case (3 xs ys)
  then show ?case by (simp add: min_def)
qed


text \<open>Steps the agent always wants are kept in the order they came until the maximum is reached:
  after any number of \<open>AddHeavy\<close> calls on a new collector it holds exactly the first ones.\<close>
theorem Normal_AddHeavy_keeps_first:
  assumes "0 \<le> maxc" and "maxc < 2 ^ 31"
  shows "\<exists>c. NewProfileNormalCollector (read_profile_conf normal heavy maxc ht) = Inr c \<and>
     Normal_held (snd (fold (Normal_AddHeavy ops grow) sts (w, c))) = Inr (take (nat maxc) sts)"
proof -
  have fold_eq: "foldGo (\<lambda>st s. Inr (f st s)) xs s = (Inr (fold f xs s) :: 'x go)" for f :: "addr \<Rightarrow> 'x \<Rightarrow> 'x" and xs s
    by (induction xs arbitrary: s) auto
  from new_normal [OF assms, of normal heavy ht w] obtain c where
    c: "NewProfileNormalCollector (read_profile_conf normal heavy maxc ht) = Inr c" "normal_ok maxc (w, c)"
       "normal_view (w, c) = []"
    by (auto simp: normal_view_def)
  from normal_heavy.put_all_from_empty [OF c(2,3), of ops grow sts]
  have "normal_ok maxc (fold (Normal_AddHeavy ops grow) sts (w, c))"
    and "buffer (snd (fold (Normal_AddHeavy ops grow) sts (w, c))) = take (nat maxc) sts"
    by (auto simp: fold_eq normal_view_def)
  with c(1) show ?thesis
    by (auto simp: normal_ok_def Normal_held_def split: prod.splits)
qed

theorem Normal_AddHeavy_keeps_first_witness:
  "\<exists>c. NewProfileNormalCollector (read_profile_conf 800 5000 2 0) = Inr c \<and>
     Normal_held (snd (fold (Normal_AddHeavy plain_ops (\<lambda>n. 2 * n)) [4, 5, 6] (world0, c))) =
       Inr (take (nat 2) [4, 5, 6])"
  by (rule Normal_AddHeavy_keeps_first) simp_all

subsection \<open>Reading the profile\<close>

text \<open>What \<^verbatim>\<open>sort.Slice\<close> documents: the result is a permutation in which no element is below an earlier one.\<close>

definition sort_ok :: "((addr \<Rightarrow> int) \<Rightarrow> addr list \<Rightarrow> addr list) \<Rightarrow> bool" where
  "sort_ok srt \<longleftrightarrow> (\<forall>k xs. mset (srt k xs) = mset xs \<and> sorted (map k (srt k xs)))"

lemma sort_key_ok: "sort_ok sort_key"
  by (simp add: sort_ok_def)

lemma renumber_store_other: "a \<notin> set as \<Longrightarrow> store (renumber ops i as w) a = store w a"
  by (induction ops i as w rule: renumber.induct) (auto simp: store_simps)

lemma renumber_index:
  assumes "step_laws ops"
  shows "distinct as \<Longrightarrow> 0 \<le> i \<Longrightarrow> i + int (length as) < 2 ^ 31 \<Longrightarrow> k < length as \<Longrightarrow>
         GetIndex ops (store (renumber ops i as w) (as ! k)) = i + int k"
proof (induction as arbitrary: i k w)
  case (Cons a as)
  show ?case
  proof (cases k)
    case 0
    with Cons.prems assms show ?thesis
      by (simp add: renumber_store_other store_simps step_laws_def)
  next
    case (Suc j)
    with Cons.prems Cons.IH [of "i + 1" j "upd a (SetIndex ops (i32 i)) w"] show ?thesis by simp
  qed
qed simp

lemma renumber_start:
  assumes "step_laws ops"
  shows "GetStartTime ops (store (renumber ops i as w) a) = GetStartTime ops (store w a)"
  using assms
  by (induction ops i as w rule: renumber.induct) (auto simp: store_simps step_laws_def)

text \<open>The profile that is sent holds exactly the collected steps, ordered by start time, and the index of
  every step is its rank in that order.\<close>
theorem Normal_GetSteps_sorted:
  assumes "step_laws ops" and "sort_ok srt" and "normal_ok m (w, c)" and "distinct (buffer c)"
  shows "\<exists>w' steps. Normal_GetSteps ops srt (w, c) = Inr (w', steps) \<and> mset steps = mset (buffer c) \<and>
           sorted (map (\<lambda>a. GetStartTime ops (store w' a)) steps) \<and>
           (\<forall>k<length steps. GetIndex ops (store w' (steps ! k)) = int k)"
proof -
  let ?key = "\<lambda>a. GetStartTime ops (store w a)"
  let ?steps = "srt ?key (buffer c)"
  have held: "Normal_held c = Inr (buffer c)"
    using assms(3) by (auto simp: normal_ok_def Normal_held_def)
  have m: "mset ?steps = mset (buffer c)" "sorted (map ?key ?steps)"
    using assms(2) by (simp_all add: sort_ok_def)
  then have len: "length ?steps = length (buffer c)" and dist: "distinct ?steps"
    using assms(4) by (metis mset_eq_length, metis mset_eq_imp_distinct_iff)
  have "GetIndex ops (store (renumber ops 0 ?steps w) (?steps ! k)) = int k" if "k < length ?steps" for k
    using renumber_index [OF assms(1) dist, of 0 k w] that len assms(3) by (simp add: normal_ok_def)
  with m show ?thesis
    by (simp add: Normal_GetSteps_def held Let_def renumber_start [OF assms(1)])
qed

theorem Normal_GetSteps_sorted_witness:
  "\<exists>w' steps. Normal_GetSteps plain_ops sort_key
      (world0, \<lparr>buffer = [7, 3], buffer_cap = 1024, position = 2, parent_index = -1, buffer_len = 1024,
                normal_len = 800, heavy_len = 1000, heavy_time = 100\<rparr>) = Inr (w', steps) \<and>
     mset steps = mset (buffer \<lparr>buffer = [7, 3], buffer_cap = 1024, position = 2, parent_index = -1,
                buffer_len = 1024, normal_len = 800, heavy_len = 1000, heavy_time = 100\<rparr>) \<and>
     sorted (map (\<lambda>a. GetStartTime plain_ops (store w' a)) steps) \<and>
     (\<forall>k<length steps. GetIndex plain_ops (store w' (steps ! k)) = int k)"
  by (rule Normal_GetSteps_sorted [where m = 1024])
    (simp_all add: plain_ops_laws sort_key_ok normal_ok_def)

end
