(* ===== verification/Llm_Pack.thy ===== *)
theory Llm_Pack
  imports Prelude
begin

text \<open>
  The data of the LLM monitor: recognising the provider of a request URL (\<^verbatim>\<open>agent/agent/llm/url_match.go\<close>)
  and the packs that are filled per call and per transaction (\<^verbatim>\<open>agent/agent/llm/pack.go\<close>).

  A \<^verbatim>\<open>float64\<close> is a type variable with the arithmetic the code uses and no law about it; an embedded
  struct is an extended record, a pointer to a number an option, and a set of strings a \<open>string set\<close>.
\<close>

subsection \<open>Provider tables\<close>

record URLMatch =
  m_Provider :: string
  m_OperationType :: string
  m_URL :: string

type_synonym pathOp = "string \<times> string"
type_synonym hostPattern = "string \<times> pathOp list"

definition builtinHosts :: "hostPattern list" where
  "builtinHosts =
     [(''api.openai.com'',
        [(''/v1/chat/completions'', ''chat''), (''/v1/responses'', ''responses''),
         (''/v1/embeddings'', ''embeddings''), (''/v1/completions'', ''completions'')]),
      (''api.anthropic.com'', [(''/v1/messages'', ''messages''), (''/v1/complete'', ''completions'')]),
      (''generativelanguage.googleapis.com'', [(''/v1beta/models'', ''chat''), (''/v1/models'', ''chat'')]),
      (''api.x.ai'', [(''/v1/chat/completions'', ''chat'')]),
      (''api.cohere.com'',
        [(''/v1/chat'', ''chat''), (''/v1/embed'', ''embeddings''), (''/v1/generate'', ''completions'')]),
      (''api.together.xyz'',
        [(''/v1/chat/completions'', ''chat''), (''/v1/completions'', ''completions''),
         (''/v1/embeddings'', ''embeddings'')]),
      (''api.mistral.ai'', [(''/v1/chat/completions'', ''chat''), (''/v1/embeddings'', ''embeddings'')]),
      (''api.groq.com'', [(''/openai/v1/chat/completions'', ''chat'')]),
      (''api.deepseek.com'', [(''/v1/chat/completions'', ''chat'')]),
      (''api.perplexity.ai'', [(''/chat/completions'', ''chat'')])]"

text \<open>The order in which the entries of the map argument are appended is that of the list.\<close>

definition AddHostPattern ::
  "(string \<Rightarrow> string) \<Rightarrow> string \<Rightarrow> pathOp list \<Rightarrow> hostPattern list \<Rightarrow> hostPattern list" where
  "AddHostPattern uni host0 opByPath customHosts =
     (let host = ToLower uni (TrimSpace host0) in
      if host = [] then customHosts
      else customHosts @ [(host, if opByPath = [] then [([], ''chat'')] else opByPath)])"

definition splitHostPath :: "string \<Rightarrow> string \<times> string" where
  "splitHostPath url =
     (let i = Index url ''://'';
          s = (if i \<ge> 0 then drop (nat i + 3) url else url);
          j = Index s ''/''
      in if j \<ge> 0 then (take (nat j) s, drop (nat j) s) else (s, []))"

fun matchOps :: "string \<Rightarrow> string \<Rightarrow> pathOp list \<Rightarrow> URLMatch" where
  "matchOps host path [] = \<lparr>m_Provider = host, m_OperationType = ''unknown'', m_URL = []\<rparr>"
| "matchOps host path ((pre, oper) # ps) =
     (if pre = [] \<or> HasPrefix path pre
      then \<lparr>m_Provider = host, m_OperationType = oper, m_URL = []\<rparr>
      else matchOps host path ps)"

fun matchInTable :: "hostPattern list \<Rightarrow> string \<Rightarrow> string \<Rightarrow> URLMatch option" where
  "matchInTable [] host path = None"
| "matchInTable ((h, ops) # tbl) host path =
     (if h \<noteq> host then matchInTable tbl host path else Some (matchOps h path ops))"

definition MatchURL :: "(string \<Rightarrow> string) \<Rightarrow> hostPattern list \<Rightarrow> string \<Rightarrow> URLMatch option" where
  "MatchURL uni customHosts url =
     (if url = [] then None
      else let (host, path) = splitHostPath url in
           if host = [] then None
           else let hostLower = ToLower uni host in
                case matchInTable builtinHosts hostLower path of
                  Some m \<Rightarrow> Some (m\<lparr>m_URL := url\<rparr>)
                | None \<Rightarrow>
                    (case matchInTable customHosts hostLower path of
                       Some m \<Rightarrow> Some (m\<lparr>m_URL := url\<rparr>)
                     | None \<Rightarrow> None))"

definition InferProviderURL :: "string \<Rightarrow> string \<times> string" where
  "InferProviderURL httpcURL =
     (if httpcURL = [] then ([], [])
      else let i = Index httpcURL ''://'';
               s = (if i \<ge> 0 then drop (nat i + 3) httpcURL else httpcURL);
               j = Index s ''/''
           in if j \<ge> 0 then (take (nat j) s, drop (nat j) s) else (s, []))"

lemma splitHostPath_parts:
  "\<exists>scheme. url = scheme @ fst (splitHostPath url) @ snd (splitHostPath url)"
proof -
  let ?i = "Index url ''://''"
  let ?s = "if ?i \<ge> 0 then drop (nat ?i + 3) url else url"
  have "fst (splitHostPath url) @ snd (splitHostPath url) = ?s"
    by (simp add: splitHostPath_def Let_def del: drop_drop)
  moreover have "url = (if ?i \<ge> 0 then take (nat ?i + 3) url else []) @ ?s"
    by simp
  ultimately show ?thesis by (intro exI) simp
qed

lemma Index_singleton_notin: "Index s [c] = -1 \<Longrightarrow> c \<notin> set s"
proof (induction s)
  case (Cons x xs)
  then show ?case
    using Index_ge [of xs "[c]"] by (auto simp: HasPrefix_def Let_def split: if_splits)
qed simp

lemma Index_singleton_before: "Index s [c] = int i \<Longrightarrow> c \<notin> set (take i s)"
proof (induction s arbitrary: i)
  case (Cons x xs)
  show ?case
  proof (cases "HasPrefix (x # xs) [c]")
    case True
    with Cons.prems show ?thesis by simp
  next
    case False
    with Cons.prems obtain j where "Index xs [c] = int j" "i = Suc j" by (metis Index_shift)
    with Cons.IH False show ?thesis by (auto simp: HasPrefix_def)
  qed
qed simp

lemma splitHostPath_host: "CHR ''/'' \<notin> set (fst (splitHostPath url))"
proof -
  have "CHR ''/'' \<notin> set (fst (let j = Index s ''/'' in
          if j \<ge> 0 then (take (nat j) s, drop (nat j) s) else (s, [])))" for s
  proof (cases "Index s ''/'' \<ge> 0")
    case True
    then have "Index s ''/'' = int (nat (Index s ''/''))" by simp
    from Index_singleton_before [OF this] True show ?thesis by (simp add: Let_def)
  next
    case False
    then have "Index s ''/'' = -1" using Index_ge [of s "''/''"] by linarith
    from Index_singleton_notin [OF this] False show ?thesis by (simp add: Let_def)
  qed
  then show ?thesis by (simp add: splitHostPath_def Let_def)
qed

text \<open>The two copies of the URL splitting agree, on every string.\<close>

lemma InferProviderURL_eq: "InferProviderURL url = splitHostPath url"
  by (simp add: InferProviderURL_def splitHostPath_def Let_def)

lemma matchOps_Provider [simp]: "m_Provider (matchOps host path ps) = host"
  by (induction host path ps rule: matchOps.induct) auto

lemma matchInTable_iff: "matchInTable tbl host path \<noteq> None \<longleftrightarrow> host \<in> fst ` set tbl"
  by (induction tbl host path rule: matchInTable.induct) auto

lemma matchInTable_Provider: "matchInTable tbl host path = Some m \<Longrightarrow> m_Provider m = host"
  by (induction tbl host path rule: matchInTable.induct) (auto split: if_splits)

text \<open>A URL is recognised exactly when its host, in lower case, is a built-in or a registered provider;
  the provider reported is that host, whatever the path, and the URL is reported as it was given.\<close>
theorem MatchURL_iff:
  "(\<exists>m. MatchURL uni custom url = Some m \<and> m_Provider m = p \<and> m_URL m = url) \<longleftrightarrow>
   url \<noteq> [] \<and> fst (splitHostPath url) \<noteq> [] \<and> p = ToLower uni (fst (splitHostPath url)) \<and>
   p \<in> fst ` set builtinHosts \<union> fst ` set custom"
proof -
  obtain host path where hp: "splitHostPath url = (host, path)" by (cases "splitHostPath url")
  let ?l = "ToLower uni host"
  note b = matchInTable_iff [of builtinHosts ?l path] matchInTable_Provider [of builtinHosts ?l path]
  note c = matchInTable_iff [of custom ?l path] matchInTable_Provider [of custom ?l path]
  show ?thesis
  proof (cases "matchInTable builtinHosts ?l path")
    case None
    with b c show ?thesis
      by (cases "matchInTable custom ?l path") (auto simp: MatchURL_def hp Let_def)
  next
    case (Some m)
    with b show ?thesis by (auto simp: MatchURL_def hp Let_def)
  qed
qed


subsection \<open>The packs\<close>

record LlmLogSinkPack =
  LLMLogType :: string
  Txid :: string
  StepID :: string
  PackIndex :: int
  Provider :: string
  URL :: string
  OperationType :: string

record 'f LlmStepStatus = LlmLogSinkPack +
  Model :: string
  Stream :: bool
  Success :: bool
  FinishReason :: string
  Features :: string
  Temperature :: "'f option"
  Error :: string
  ErrorType :: string
  InputTokens :: "int option"
  OutputTokens :: "int option"
  TotalTokensCount :: "int option"
  CachedTokens :: "int option"
  ReasoningTokens :: "int option"
  AudioInputTokens :: "int option"
  AudioOutputTokens :: "int option"
  AcceptedPredictionTokens :: "int option"
  RejectedPredictionTokens :: "int option"
  EmbeddingCount :: "int option"
  Dimensions :: "int option"
  Similarity :: "'f option"
  CacheCreationInputTokens :: "int option"
  CacheReadInputTokens :: "int option"
  Cost :: "'f option"
  InputCost :: "'f option"
  OutputCost :: "'f option"
  CachedCost :: "'f option"
  CacheCreationCost :: "'f option"
  StartTime :: int
  Ttft :: "'f option"
  Latency :: "'f option"
  SystemTexts :: "string list"
  PromptText :: string
  CompletionText :: string
  ReasoningText :: string
  ToolCallsText :: string
  ToolResultsText :: string

definition NewLlmStepStatus :: "'f LlmStepStatus" where
  "NewLlmStepStatus =
     \<lparr>LLMLogType = ''llm_step_status'', Txid = [], StepID = [], PackIndex = 0, Provider = [], URL = [],
      OperationType = ''unknown'', Model = [], Stream = False, Success = False, FinishReason = [],
      Features = [], Temperature = None, Error = [], ErrorType = [], InputTokens = None,
      OutputTokens = None, TotalTokensCount = None, CachedTokens = None, ReasoningTokens = None,
      AudioInputTokens = None, AudioOutputTokens = None, AcceptedPredictionTokens = None,
      RejectedPredictionTokens = None, EmbeddingCount = None, Dimensions = None, Similarity = None,
      CacheCreationInputTokens = None, CacheReadInputTokens = None, Cost = None, InputCost = None,
      OutputCost = None, CachedCost = None, CacheCreationCost = None, StartTime = 0, Ttft = None,
      Latency = None, SystemTexts = [], PromptText = [], CompletionText = [], ReasoningText = [],
      ToolCallsText = [], ToolResultsText = []\<rparr>"

definition Step_SetError :: "string \<Rightarrow> string \<Rightarrow> 'f LlmStepStatus \<Rightarrow> 'f LlmStepStatus" where
  "Step_SetError errMsg errType p = p\<lparr>Error := errMsg, ErrorType := errType\<rparr>"

text \<open>One iteration of \<open>SetTokens\<close>; the entries of the map argument come as a list.\<close>

definition setToken :: "string \<times> int \<Rightarrow> 'f LlmStepStatus \<Rightarrow> 'f LlmStepStatus" where
  "setToken = (\<lambda>(k, v) p.
     if k = ''input_tokens'' then p\<lparr>InputTokens := Some v\<rparr>
     else if k = ''output_tokens'' then p\<lparr>OutputTokens := Some v\<rparr>
     else if k = ''total_tokens_count'' then p\<lparr>TotalTokensCount := Some v\<rparr>
     else if k = ''cached_tokens'' then p\<lparr>CachedTokens := Some v\<rparr>
     else if k = ''reasoning_tokens'' then p\<lparr>ReasoningTokens := Some v\<rparr>
     else if k = ''audio_input_tokens'' then p\<lparr>AudioInputTokens := Some v\<rparr>
     else if k = ''audio_output_tokens'' then p\<lparr>AudioOutputTokens := Some v\<rparr>
     else if k = ''accepted_prediction_tokens'' then p\<lparr>AcceptedPredictionTokens := Some v\<rparr>
     else if k = ''rejected_prediction_tokens'' then p\<lparr>RejectedPredictionTokens := Some v\<rparr>
     else if k = ''cache_creation_input_tokens'' then p\<lparr>CacheCreationInputTokens := Some v\<rparr>
     else if k = ''cache_read_input_tokens'' then p\<lparr>CacheReadInputTokens := Some v\<rparr>
     else if k = ''embedding_count'' then p\<lparr>EmbeddingCount := Some v\<rparr>
     else if k = ''dimensions'' then p\<lparr>Dimensions := Some v\<rparr>
     else p)"

definition Step_SetTokens :: "(string \<times> int) list \<Rightarrow> 'f LlmStepStatus \<Rightarrow> 'f LlmStepStatus" where
  "Step_SetTokens tokens p = fold setToken tokens p"

definition tokenByName :: "'f LlmStepStatus \<Rightarrow> string \<Rightarrow> int option" where
  "tokenByName p name =
     (if name = ''input_tokens'' then InputTokens p
      else if name = ''output_tokens'' then OutputTokens p
      else if name = ''total_tokens_count'' then TotalTokensCount p
      else if name = ''cached_tokens'' then CachedTokens p
      else if name = ''reasoning_tokens'' then ReasoningTokens p
      else if name = ''audio_input_tokens'' then AudioInputTokens p
      else if name = ''audio_output_tokens'' then AudioOutputTokens p
      else if name = ''accepted_prediction_tokens'' then AcceptedPredictionTokens p
      else if name = ''rejected_prediction_tokens'' then RejectedPredictionTokens p
      else if name = ''cache_creation_input_tokens'' then CacheCreationInputTokens p
      else if name = ''cache_read_input_tokens'' then CacheReadInputTokens p
      else if name = ''embedding_count'' then EmbeddingCount p
      else None)"

definition txSummaryTokenFields :: "string list" where
  "txSummaryTokenFields =
     [''input_tokens'', ''output_tokens'', ''total_tokens_count'', ''cached_tokens'', ''reasoning_tokens'',
      ''audio_input_tokens'', ''audio_output_tokens'', ''accepted_prediction_tokens'',
      ''rejected_prediction_tokens'', ''cache_creation_input_tokens'', ''cache_read_input_tokens'',
      ''embedding_count'']"

record 'f LlmTxStatus = LlmLogSinkPack +
  FirstStepID :: string
  LastStepID :: string
  CallCount :: int
  ErrorCount :: int
  TxLatency :: 'f
  TxCost :: 'f
  TxInputCost :: 'f
  TxOutputCost :: 'f
  Models :: "string set"
  OperationTypes :: "string set"
  Providers :: "string set"
  TokenSums :: "string \<Rightarrow> int"

definition NewLlmTxStatus :: "('f::zero) LlmTxStatus" where
  "NewLlmTxStatus =
     \<lparr>LLMLogType = ''llm_tx_status'', Txid = [], StepID = [], PackIndex = 0, Provider = [], URL = [],
      OperationType = ''unknown'', FirstStepID = [], LastStepID = [], CallCount = 0, ErrorCount = 0,
      TxLatency = 0, TxCost = 0, TxInputCost = 0, TxOutputCost = 0, Models = {}, OperationTypes = {},
      Providers = {}, TokenSums = (\<lambda>_. 0)\<rparr>"

text \<open>The loop of \<open>Accumulate\<close> over the token fields; a missing entry of a Go map reads as 0.\<close>

definition addTokens :: "'f LlmStepStatus \<Rightarrow> (string \<Rightarrow> int) \<Rightarrow> string \<Rightarrow> int" where
  "addTokens pk acc =
     fold (\<lambda>f m. case tokenByName pk f of None \<Rightarrow> m | Some v \<Rightarrow> m(f := i64 (m f + v))) txSummaryTokenFields acc"

definition addOpt :: "'f option \<Rightarrow> ('f::plus) \<Rightarrow> 'f" where
  "addOpt v x = (case v of None \<Rightarrow> x | Some d \<Rightarrow> x + d)"

definition insertNonEmpty :: "string \<Rightarrow> string set \<Rightarrow> string set" where
  "insertNonEmpty s S = (if s \<noteq> [] then insert s S else S)"

definition Accumulate :: "('f::plus) LlmStepStatus \<Rightarrow> 'f LlmTxStatus \<Rightarrow> 'f LlmTxStatus" where
  "Accumulate pk t =
     t\<lparr>CallCount := i64 (CallCount t + 1),
       ErrorCount := (if \<not> Success pk then i64 (ErrorCount t + 1) else ErrorCount t),
       TokenSums := addTokens pk (TokenSums t),
       TxLatency := addOpt (Latency pk) (TxLatency t),
       TxCost := addOpt (Cost pk) (TxCost t),
       TxInputCost := addOpt (InputCost pk) (TxInputCost t),
       TxOutputCost := addOpt (OutputCost pk) (TxOutputCost t),
       FirstStepID := (if StepID pk \<noteq> [] \<and> FirstStepID t = [] then StepID pk else FirstStepID t),
       LastStepID := (if StepID pk \<noteq> [] then StepID pk else LastStepID t),
       Providers := insertNonEmpty (Provider pk) (Providers t),
       Models := insertNonEmpty (Model pk) (Models t),
       OperationTypes := (if OperationType pk \<noteq> [] \<and> OperationType pk \<noteq> ''unknown''
                          then insert (OperationType pk) (OperationTypes t) else OperationTypes t)\<rparr>"


subsection \<open>What a transaction summary holds\<close>

definition tokenValue :: "'f LlmStepStatus \<Rightarrow> string \<Rightarrow> int" where
  "tokenValue pk f = (case tokenByName pk f of None \<Rightarrow> 0 | Some v \<Rightarrow> v)"

fun firstNonEmpty :: "string list \<Rightarrow> string" where
  "firstNonEmpty [] = []"
| "firstNonEmpty (s # ss) = (if s \<noteq> [] then s else firstNonEmpty ss)"

lemma firstNonEmpty_snoc: "firstNonEmpty (xs @ [s]) = (if firstNonEmpty xs = [] then s else firstNonEmpty xs)"
  by (induction xs) auto

lemma tokenByName_field: "f \<notin> set txSummaryTokenFields \<Longrightarrow> tokenByName pk f = None"
  by (simp add: tokenByName_def txSummaryTokenFields_def)

lemma distinct_fields: "distinct txSummaryTokenFields"
  by (simp add: txSummaryTokenFields_def)

lemma addTokens_fold:
  "distinct fs \<Longrightarrow>
   fold (\<lambda>f m. case tokenByName pk f of None \<Rightarrow> m | Some v \<Rightarrow> m(f := i64 (m f + v))) fs acc f =
   (if f \<in> set fs then (case tokenByName pk f of None \<Rightarrow> acc f | Some v \<Rightarrow> i64 (acc f + v)) else acc f)"
  by (induction fs arbitrary: acc) (auto split: option.splits)

lemma addTokens_eq: "i64 (addTokens pk acc f) = i64 (acc f + tokenValue pk f)"
  by (cases "f \<in> set txSummaryTokenFields")
    (auto simp: addTokens_def addTokens_fold [OF distinct_fields] tokenValue_def tokenByName_field
      split: option.splits)

lemma addTokens_range:
  assumes "acc f = i64 (acc f)"
  shows "addTokens pk acc f = i64 (addTokens pk acc f)"
  using assms
  by (cases "f \<in> set txSummaryTokenFields")
    (auto simp: addTokens_def addTokens_fold [OF distinct_fields] i64_range split: option.splits)

lemma Accumulate_TokenSums: "TokenSums (Accumulate pk t) = addTokens pk (TokenSums t)"
  by (simp add: Accumulate_def)

lemma fold_Accumulate_counts:
  fixes pks :: "('f::{zero,plus}) LlmStepStatus list"
  defines "t \<equiv> fold Accumulate pks NewLlmTxStatus"
  shows "CallCount t = i64 (int (length pks))"
    and "ErrorCount t = i64 (int (length (filter (\<lambda>p. \<not> Success p) pks)))"
  unfolding t_def
  by (induction pks rule: rev_induct) (auto simp: Accumulate_def NewLlmTxStatus_def add.commute)

lemma fold_Accumulate_tokens:
  fixes pks :: "('f::{zero,plus}) LlmStepStatus list"
  shows "TokenSums (fold Accumulate pks NewLlmTxStatus) f = i64 (\<Sum>p\<leftarrow>pks. tokenValue p f)"
proof (induction pks rule: rev_induct)
  case (snoc p pks)
  let ?t = "fold Accumulate pks NewLlmTxStatus"
  have "addTokens p (TokenSums ?t) f = i64 (addTokens p (TokenSums ?t) f)"
    by (rule addTokens_range) (simp add: snoc i64_range)
  also have "\<dots> = i64 (TokenSums ?t f + tokenValue p f)" by (rule addTokens_eq)
  finally show ?case by (simp add: Accumulate_TokenSums snoc add.commute)
qed (simp add: NewLlmTxStatus_def)

lemma fold_Accumulate_labels:
  fixes pks :: "('f::{zero,plus}) LlmStepStatus list"
  defines "t \<equiv> fold Accumulate pks NewLlmTxStatus"
  shows "Models t = Model ` set pks - {[]}"
    and "Providers t = Provider ` set pks - {[]}"
    and "OperationTypes t = OperationType ` set pks - {[], ''unknown''}"
  unfolding t_def
  by (induction pks rule: rev_induct) (auto simp: Accumulate_def NewLlmTxStatus_def insertNonEmpty_def)

lemma fold_Accumulate_ends:
  fixes pks :: "('f::{zero,plus}) LlmStepStatus list"
  defines "t \<equiv> fold Accumulate pks NewLlmTxStatus"
  shows "FirstStepID t = firstNonEmpty (map StepID pks)"
    and "LastStepID t = firstNonEmpty (rev (map StepID pks))"
  unfolding t_def
  by (induction pks rule: rev_induct)
    (auto simp: Accumulate_def NewLlmTxStatus_def firstNonEmpty_snoc)

text \<open>After any sequence of calls the transaction summary holds the number of calls and of failed calls,
  for every token field the sum over the calls that set it (modulo 2 to the 64), the set of models
  mentioned, and the first and the last step id.\<close>
theorem Accumulate_totals:
  fixes pks :: "('f::{zero,plus}) LlmStepStatus list"
  defines "t \<equiv> fold Accumulate pks NewLlmTxStatus"
  shows "CallCount t = i64 (int (length pks)) \<and>
         ErrorCount t = i64 (int (length (filter (\<lambda>p. \<not> Success p) pks))) \<and>
         TokenSums t f = i64 (\<Sum>p\<leftarrow>pks. tokenValue p f) \<and>
         Models t = Model ` set pks - {[]} \<and>
         FirstStepID t = firstNonEmpty (map StepID pks) \<and>
         LastStepID t = firstNonEmpty (rev (map StepID pks))"
  unfolding t_def
  by (simp add: fold_Accumulate_counts fold_Accumulate_tokens fold_Accumulate_labels fold_Accumulate_ends)

end
