(* ===== verification/Keyed_Stat.thy ===== *)
theory Keyed_Stat
  imports Prelude "HOL-Library.AList"
begin

text \<open>
  What the statistics and meters of the agent share: entries under keys that are created on first use and updated in
  place. The locale \<open>keyed_stat\<close> is the contract of such a statistic; it is interpreted by the meters and by the
  tables of the five-minute statistics.
\<close>

subsection \<open>The contract of a keyed statistic\<close>

text \<open>
  The calls may have to be \<open>valid\<close>. \<open>add c s\<close> records the call \<open>c\<close> under \<open>key c\<close>: the entry of that key, or a new one, is changed by
  \<open>bump c\<close>, and no other entry changes. The entry of a key after any sequence of calls is then determined by
  the calls with that key alone, in their order.
\<close>

locale keyed_stat_on =
  fixes valid :: "'c \<Rightarrow> bool"
    and add :: "'c \<Rightarrow> 's \<Rightarrow> 's"
    and key :: "'c \<Rightarrow> 'k"
    and entry :: "'s \<Rightarrow> 'k \<Rightarrow> 'e option"
    and ok :: "'s \<Rightarrow> bool"
    and new :: "'k \<Rightarrow> 'e"
    and bump :: "'c \<Rightarrow> 'e \<Rightarrow> 'e"
  assumes valid_ok: "ok s \<Longrightarrow> valid c \<Longrightarrow> ok (add c s)"
    and valid_entry: "ok s \<Longrightarrow> valid c \<Longrightarrow> entry (add c s) =
          (entry s)(key c \<mapsto> bump c (case entry s (key c) of None \<Rightarrow> new (key c) | Some e \<Rightarrow> e))"
begin

lemma folds_ok: "ok s \<Longrightarrow> list_all valid cs \<Longrightarrow> ok (fold add cs s)"
  by (induction cs arbitrary: s) (auto simp: valid_ok)

lemma folds_entry:
  "ok s \<Longrightarrow> list_all valid cs \<Longrightarrow> entry (fold add cs s) k =
     (let own = filter (\<lambda>c. key c = k) cs in
      if own = [] then entry s k
      else Some (fold bump own (case entry s k of None \<Rightarrow> new k | Some e \<Rightarrow> e)))"
proof (induction cs rule: rev_induct)
  case (snoc c cs)
  then have "ok (fold add cs s)" by (simp add: folds_ok)
  with snoc show ?case
    by (cases "key c = k"; cases "filter (\<lambda>c. key c = k) cs = []") (simp_all add: valid_entry Let_def split: option.split)
qed (simp add: Let_def)

lemma folds_from_empty:
  assumes "ok s" and "list_all valid cs" and "entry s k = None" and "\<exists>c\<in>set cs. key c = k"
  shows "entry (fold add cs s) k = Some (fold bump (filter (\<lambda>c. key c = k) cs) (new k))"
  using assms folds_entry [OF assms(1,2), of k] by (auto simp: Let_def filter_empty_conv)

end

text \<open>The contract without a restriction on the calls.\<close>

locale keyed_stat =
  fixes add :: "'c \<Rightarrow> 's \<Rightarrow> 's"
    and key :: "'c \<Rightarrow> 'k"
    and entry :: "'s \<Rightarrow> 'k \<Rightarrow> 'e option"
    and ok :: "'s \<Rightarrow> bool"
    and new :: "'k \<Rightarrow> 'e"
    and bump :: "'c \<Rightarrow> 'e \<Rightarrow> 'e"
  assumes add_ok: "ok s \<Longrightarrow> ok (add c s)"
    and add_entry: "ok s \<Longrightarrow> entry (add c s) =
          (entry s)(key c \<mapsto> bump c (case entry s (key c) of None \<Rightarrow> new (key c) | Some e \<Rightarrow> e))"

sublocale keyed_stat < all_calls: keyed_stat_on "\<lambda>_. True" add key entry ok new bump
  by unfold_locales (auto simp: add_ok add_entry)

context keyed_stat
begin

lemma fold_ok: "ok s \<Longrightarrow> ok (fold add cs s)"
  by (rule all_calls.folds_ok) (simp_all add: list_all_iff)

lemma fold_entry:
  "ok s \<Longrightarrow> entry (fold add cs s) k =
     (let own = filter (\<lambda>c. key c = k) cs in
      if own = [] then entry s k
      else Some (fold bump own (case entry s k of None \<Rightarrow> new k | Some e \<Rightarrow> e)))"
  by (rule all_calls.folds_entry) (simp_all add: list_all_iff)

lemma fold_from_empty:
  assumes "ok s" and "entry s k = None" and "\<exists>c\<in>set cs. key c = k"
  shows "entry (fold add cs s) k = Some (fold bump (filter (\<lambda>c. key c = k) cs) (new k))"
  by (rule all_calls.folds_from_empty) (use assms in \<open>simp_all add: list_all_iff\<close>)

end

subsection \<open>Tables of pointers\<close>

text \<open>
  The linked maps of module golib hold pointers to the entries, which are updated through the pointers. The map is the
  parameter \<open>hm\<close>, its values are addresses, and \<open>tbl\<close> pairs a map with the cells its addresses point to. A map with a
  maximum may drop entries when it is full.
\<close>

record ('m, 'k) hm =
  hm_get :: "'m \<Rightarrow> 'k \<Rightarrow> nat option"
  hm_put :: "'k \<Rightarrow> nat \<Rightarrow> 'm \<Rightarrow> 'm"
  hm_clear :: "'m \<Rightarrow> 'm"
  hm_full :: "'m \<Rightarrow> bool"
  hm_size :: "'m \<Rightarrow> nat"
  hm_entries :: "'m \<Rightarrow> ('k \<times> nat) list"

definition hm_laws :: "('m, 'k) hm \<Rightarrow> bool" where
  "hm_laws H \<longleftrightarrow>
     (\<forall>m k. hm_get H (hm_clear H m) k = None) \<and>
     (\<forall>m k a. hm_get H (hm_put H k a m) k = Some a) \<and>
     (\<forall>m k a k'. k' \<noteq> k \<longrightarrow> hm_get H (hm_put H k a m) k' \<in> {None, hm_get H m k'}) \<and>
     (\<forall>m k a k'. k' \<noteq> k \<longrightarrow> \<not> hm_full H m \<longrightarrow> hm_get H (hm_put H k a m) k' = hm_get H m k') \<and>
     (\<forall>m. set (hm_entries H m) = {(k, a). hm_get H m k = Some a} \<and> distinct (map fst (hm_entries H m)) \<and>
          hm_size H m = length (hm_entries H m))"

record ('m, 'e) tbl =
  tab :: 'm
  cells :: "nat \<Rightarrow> 'e"
  fresh :: nat

text \<open>The entry of a key, or a new one.\<close>

definition getOrPut :: "('m, 'k) hm \<Rightarrow> 'k \<Rightarrow> 'e \<Rightarrow> ('m, 'e) tbl \<Rightarrow> nat \<times> ('m, 'e) tbl" where
  "getOrPut H k new t =
     (case hm_get H (tab t) k of
        Some a \<Rightarrow> (a, t)
      | None \<Rightarrow> (fresh t, t\<lparr>tab := hm_put H k (fresh t) (tab t), cells := (cells t)(fresh t := new), fresh := fresh t + 1\<rparr>))"

text \<open>The same, unless the key is new and the table may not grow: then nil.\<close>

definition getOrNil :: "('m, 'k) hm \<Rightarrow> bool \<Rightarrow> 'k \<Rightarrow> 'e \<Rightarrow> ('m, 'e) tbl \<Rightarrow> nat option \<times> ('m, 'e) tbl" where
  "getOrNil H mayGrow k new t =
     (if hm_get H (tab t) k = None \<and> \<not> mayGrow then (None, t)
      else (case getOrPut H k new t of (a, t') \<Rightarrow> (Some a, t')))"

definition modify :: "nat \<Rightarrow> ('e \<Rightarrow> 'e) \<Rightarrow> ('m, 'e) tbl \<Rightarrow> ('m, 'e) tbl" where
  "modify a f t = t\<lparr>cells := (cells t)(a := f (cells t a))\<rparr>"

definition entry_of :: "('m, 'k) hm \<Rightarrow> ('m, 'e) tbl \<Rightarrow> 'k \<Rightarrow> 'e option" where
  "entry_of H t k = map_option (cells t) (hm_get H (tab t) k)"

definition values_of :: "('m, 'k) hm \<Rightarrow> ('m, 'e) tbl \<Rightarrow> ('k \<times> 'e) list" where
  "values_of H t = map (\<lambda>(k, a). (k, cells t a)) (hm_entries H (tab t))"

definition clear_tbl :: "('m, 'k) hm \<Rightarrow> ('m, 'e) tbl \<Rightarrow> ('m, 'e) tbl" where
  "clear_tbl H t = t\<lparr>tab := hm_clear H (tab t)\<rparr>"

text \<open>Every address in a table is allocated and belongs to one key.\<close>

definition tbl_ok :: "('m, 'k) hm \<Rightarrow> ('m, 'e) tbl \<Rightarrow> bool" where
  "tbl_ok H t \<longleftrightarrow>
     (\<forall>k a. hm_get H (tab t) k = Some a \<longrightarrow> a < fresh t) \<and>
     (\<forall>k k' a. hm_get H (tab t) k = Some a \<longrightarrow> hm_get H (tab t) k' = Some a \<longrightarrow> k = k')"

lemma getOrPut_props:
  assumes "hm_laws H" and "tbl_ok H t" and "getOrPut H k new t = (a, t')"
  shows "tbl_ok H t' \<and> hm_get H (tab t') k = Some a \<and> cells t' a = (case entry_of H t k of None \<Rightarrow> new | Some e \<Rightarrow> e) \<and>
     (\<not> hm_full H (tab t) \<or> entry_of H t k \<noteq> None \<longrightarrow> (\<forall>k'. k' \<noteq> k \<longrightarrow> entry_of H t' k' = entry_of H t k'))"
proof (cases "hm_get H (tab t) k")
  case (Some b)
  with assms show ?thesis by (auto simp: getOrPut_def entry_of_def)
next
  case None
  with assms(3) have t': "t' = t\<lparr>tab := hm_put H k (fresh t) (tab t), cells := (cells t)(fresh t := new), fresh := fresh t + 1\<rparr>" "a = fresh t"
    by (auto simp: getOrPut_def)
  have old: "b < fresh t" if "hm_get H (tab t) k' = Some b" for k' b using that assms(2) by (auto simp: tbl_ok_def)
  have inj: "k1 = k2" if "hm_get H (tab t) k1 = Some b" "hm_get H (tab t) k2 = Some b" for k1 k2 b
    using that assms(2) by (auto simp: tbl_ok_def)
  have put: "hm_get H (hm_put H k (fresh t) (tab t)) k' = (if k' = k then Some (fresh t) else x)"
    if "x = hm_get H (hm_put H k (fresh t) (tab t)) k'" for k' x using that assms(1) by (simp add: hm_laws_def)
  have sub: "hm_get H (tab t) k' = Some b" if "hm_get H (hm_put H k (fresh t) (tab t)) k' = Some b" "k' \<noteq> k" for k' b
    using that assms(1) unfolding hm_laws_def by (metis empty_iff insert_iff option.distinct(1))
  have "hm_get H (hm_put H k (fresh t) (tab t)) k = Some (fresh t)" using assms(1) by (simp add: hm_laws_def)
  then have "tbl_ok H t'" unfolding tbl_ok_def t'
    by (simp, intro conjI allI impI) (metis less_Suc_eq old option.inject sub, metis inj less_irrefl_nat old option.inject sub)
  moreover have "entry_of H t' k' = entry_of H t k'" if "\<not> hm_full H (tab t)" "k' \<noteq> k" for k'
  proof -
    have "hm_get H (tab t') k' = hm_get H (tab t) k'" using that assms(1) by (simp add: hm_laws_def t')
    then show ?thesis using old by (cases "hm_get H (tab t) k'") (auto simp: entry_of_def t')
  qed
  ultimately show ?thesis using None assms(1) by (auto simp: entry_of_def t' hm_laws_def)
qed

lemma modify_entry:
  assumes "tbl_ok H t" and "hm_get H (tab t) k = Some a"
  shows "entry_of H (modify a f t) = (entry_of H t)(k \<mapsto> f (cells t a))" and "tbl_ok H (modify a f t)"
proof -
  show "entry_of H (modify a f t) = (entry_of H t)(k \<mapsto> f (cells t a))"
  proof (rule ext)
    fix k'
    show "entry_of H (modify a f t) k' = ((entry_of H t)(k \<mapsto> f (cells t a))) k'"
      using assms by (cases "hm_get H (tab t) k'") (auto simp: entry_of_def modify_def tbl_ok_def)
  qed
qed (use assms in \<open>simp add: tbl_ok_def modify_def\<close>)

lemma touch_entry:
  assumes "hm_laws H" and "tbl_ok H t" and "\<not> hm_full H (tab t)" and "getOrPut H k new t = (a, t')"
  shows "entry_of H (modify a f t') = (entry_of H t)(k \<mapsto> f (case entry_of H t k of None \<Rightarrow> new | Some e \<Rightarrow> e))" and "tbl_ok H (modify a f t')"
proof -
  note p = getOrPut_props [OF assms(1,2,4)]
  show "entry_of H (modify a f t') = (entry_of H t)(k \<mapsto> f (case entry_of H t k of None \<Rightarrow> new | Some e \<Rightarrow> e))"
    using p modify_entry(1) [of H t' k a f] assms(3) by (intro ext) auto
  show "tbl_ok H (modify a f t')" using p modify_entry(2) [of H t' k a f] by blast
qed

lemma clear_tbl_props:
  assumes "hm_laws H"
  shows "tbl_ok H (clear_tbl H t)" and "entry_of H (clear_tbl H t) = (\<lambda>k. None)"
  using assms by (auto simp: tbl_ok_def clear_tbl_def entry_of_def hm_laws_def)

lemma values_of_iff:
  assumes "hm_laws H"
  shows "(k, e) \<in> set (values_of H t) \<longleftrightarrow> entry_of H t k = Some e" and "distinct (map fst (values_of H t))"
proof -
  show "(k, e) \<in> set (values_of H t) \<longleftrightarrow> entry_of H t k = Some e"
    using assms by (auto simp: values_of_def entry_of_def hm_laws_def image_iff)
  have "map fst (values_of H t) = map fst (hm_entries H (tab t))" by (auto simp: values_of_def)
  then show "distinct (map fst (values_of H t))" using assms by (simp add: hm_laws_def)
qed

lemma modify_modify [simp]: "modify a f (modify a g t) = modify a (f \<circ> g) t"
  by (simp add: modify_def)

lemma entry_keys: "entry_of H t k \<noteq> None \<longleftrightarrow> hm_get H (tab t) k \<noteq> None"
  by (simp add: entry_of_def)

lemma empty_entries:
  assumes "hm_laws H" and "hm_size H (tab t) = 0"
  shows "entry_of H t k = None"
proof (rule ccontr)
  assume "entry_of H t k \<noteq> None"
  then obtain e where "entry_of H t k = Some e" by blast
  then have "(k, e) \<in> set (values_of H t)" by (simp only: values_of_iff(1) [OF assms(1)])
  moreover have "hm_entries H (tab t) = []" using assms by (simp add: hm_laws_def)
  ultimately show False by (simp add: values_of_def)
qed

subsection \<open>Tables with room\<close>

text \<open>A table whose keys are among \<open>U\<close> is not full.\<close>

definition room :: "('m, 'k) hm \<Rightarrow> 'k set \<Rightarrow> bool" where
  "room H U \<longleftrightarrow> (\<forall>m. (\<forall>k. hm_get H m k \<noteq> None \<longrightarrow> k \<in> U) \<longrightarrow> \<not> hm_full H m)"

text \<open>Change a record through the pointer, unless that is nil.\<close>

definition through :: "nat option \<times> ('m, 'e) tbl \<Rightarrow> ('e \<Rightarrow> 'e) \<Rightarrow> ('m, 'e) tbl" where
  "through pt f = (case pt of (None, t) \<Rightarrow> t | (Some a, t) \<Rightarrow> modify a f t)"

text \<open>Tables in which all keys are among \<open>U\<close>, where there is room for them.\<close>

definition keys_within :: "('m, 'k) hm \<Rightarrow> 'k set \<Rightarrow> ('m, 'e) tbl \<Rightarrow> bool" where
  "keys_within H U t \<longleftrightarrow> hm_laws H \<and> room H U \<and> tbl_ok H t \<and> (\<forall>k. entry_of H t k \<noteq> None \<longrightarrow> k \<in> U)"

lemma keys_within_not_full: "keys_within H U t \<Longrightarrow> \<not> hm_full H (tab t)"
  unfolding keys_within_def room_def entry_keys by blast

lemma through_entry:
  fixes f new
  assumes "keys_within H U t" and "k \<in> U"
  defines "t' \<equiv> through (getOrNil H (\<not> hm_full H (tab t)) k new t) f"
  shows "entry_of H t' = (entry_of H t)(k \<mapsto> f (case entry_of H t k of None \<Rightarrow> new | Some e \<Rightarrow> e))" and "keys_within H U t'"
proof -
  have nf: "\<not> hm_full H (tab t)" by (rule keys_within_not_full [OF assms(1)])
  obtain a t1 where g: "getOrPut H k new t = (a, t1)" by force
  have t': "t' = modify a f t1" using nf g by (simp add: t'_def through_def getOrNil_def)
  have laws: "hm_laws H" "tbl_ok H t" using assms(1) by (auto simp: keys_within_def)
  note p = touch_entry [OF laws nf g, of f]
  show "entry_of H t' = (entry_of H t)(k \<mapsto> f (case entry_of H t k of None \<Rightarrow> new | Some e \<Rightarrow> e))" unfolding t' by (rule p(1))
  then show "keys_within H U t'" using assms(1,2) p(2) t' by (simp add: keys_within_def)
qed

subsection \<open>An instance\<close>

text \<open>Instances of the parameters: tables are association lists, of at most \<open>n\<close> keys.\<close>

definition alist_hm :: "nat \<Rightarrow> (('k \<times> nat) list, 'k) hm" where
  "alist_hm n = \<lparr>hm_get = map_of, hm_put = AList.update, hm_clear = (\<lambda>m. []),
     hm_full = (\<lambda>m. n \<le> length (AList.clearjunk m)), hm_size = (\<lambda>m. length (AList.clearjunk m)), hm_entries = AList.clearjunk\<rparr>"

lemma clearjunk_iff: "(k, a) \<in> set (AList.clearjunk m) \<longleftrightarrow> map_of m k = Some a"
  by (metis distinct_clearjunk map_of_clearjunk map_of_eq_Some_iff)

lemma alist_hm_laws: "hm_laws (alist_hm n)"
  by (auto simp: hm_laws_def alist_hm_def update_conv' distinct_clearjunk clearjunk_iff)

lemma alist_hm_room:
  fixes U :: "'k set"
  assumes "finite U" and "card U < n"
  shows "room (alist_hm n) U"
proof -
  have "length (AList.clearjunk m) < n" if "\<forall>k. map_of m k \<noteq> None \<longrightarrow> k \<in> U" for m :: "('k \<times> nat) list"
  proof -
    have "dom (map_of m) \<subseteq> U" using that by (auto simp: domIff)
    from card_mono [OF assms(1) this] assms(2) have "card (dom (map_of m)) < n" by simp
    moreover have "card (dom (map_of m)) = length (AList.clearjunk m)"
      using distinct_card [OF distinct_clearjunk [of m]] by (simp add: dom_clearjunk dom_map_of_conv_image_fst)
    ultimately show ?thesis by simp
  qed
  then show ?thesis unfolding room_def alist_hm_def by (simp add: not_le)
qed

lemma empty_within: "finite U \<Longrightarrow> card U < 100 \<Longrightarrow> keys_within (alist_hm 100) U \<lparr>tab = [], cells = c, fresh = 0\<rparr>"
  using alist_hm_laws [of 100] alist_hm_room [of U 100] by (simp add: keys_within_def tbl_ok_def entry_of_def) (simp add: alist_hm_def)

end
