(* ===== verification/Meter_Llm.thy ===== *)
theory Meter_Llm
  imports Keyed_Stat "HOL-Library.AList"
begin

text \<open>
  The LLM meter (\<^verbatim>\<open>agent/agent/counter/meter/MeterLLM.go\<close>): six statistics per key (provider, model,
  operation type, URL) and the counters of the 15-minute meter.

  A statistic is a \<^verbatim>\<open>hmap.LinkedMap\<close> of module golib from keys to pointers; the entries are updated through
  the pointers. The map is the parameter \<open>lmap\<close>, its values are addresses, and \<open>stat\<close> pairs a table with
  the cells its addresses point to. \<open>lmap_laws\<close> is what the code relies on while a table has fewer keys than
  its maximum, 1024.
\<close>

type_synonym addr = nat

record LLMKey =
  k_Provider :: string
  k_Model :: string
  k_OperationType :: string
  k_URL :: string

definition LLMKey_String :: "LLMKey \<Rightarrow> string" where
  "LLMKey_String k = k_Provider k @ ''|'' @ k_Model k @ ''|'' @ k_OperationType k @ ''|'' @ k_URL k"

definition LLMKey_Hash :: "LLMKey \<Rightarrow> 64 word" where
  "LLMKey_Hash k =
     fold (\<lambda>s h. fold (\<lambda>c h. h * 31 + word_of_nat (of_char c)) s h * 31 + 0x7C)
       [k_Provider k, k_Model k, k_OperationType k, k_URL k] 0"

definition LLMKey_Equals :: "LLMKey \<Rightarrow> LLMKey \<Rightarrow> bool" where
  "LLMKey_Equals k other \<longleftrightarrow> k = other"

record 'm lmap =
  lm_new :: 'm
  lm_get :: "'m \<Rightarrow> LLMKey \<Rightarrow> addr option"
  lm_put :: "LLMKey \<Rightarrow> addr \<Rightarrow> 'm \<Rightarrow> 'm"
  lm_remove :: "LLMKey \<Rightarrow> 'm \<Rightarrow> 'm"
  lm_entries :: "'m \<Rightarrow> (LLMKey \<times> addr) list"

definition lmap_laws :: "'m lmap \<Rightarrow> bool" where
  "lmap_laws lm \<longleftrightarrow>
     (\<forall>k. lm_get lm (lm_new lm) k = None) \<and>
     (\<forall>k a m. lm_get lm (lm_put lm k a m) = (lm_get lm m)(k \<mapsto> a)) \<and>
     (\<forall>k m. lm_get lm (lm_remove lm k m) = (lm_get lm m)(k := None)) \<and>
     (\<forall>m. set (lm_entries lm m) = {(k, a). lm_get lm m k = Some a} \<and> distinct (map fst (lm_entries lm m)))"

text \<open>An instance: association lists without repeated keys.\<close>

definition alist_lmap :: "(LLMKey \<times> addr) list lmap" where
  "alist_lmap =
     \<lparr>lm_new = [], lm_get = map_of, lm_put = (\<lambda>k a m. AList.update k a m),
      lm_remove = (\<lambda>k m. AList.delete k m), lm_entries = (\<lambda>m. AList.clearjunk m)\<rparr>"

lemma clearjunk_entries: "(k, a) \<in> set (AList.clearjunk m) \<longleftrightarrow> map_of m k = Some a"
  by (metis distinct_clearjunk map_of_clearjunk map_of_eq_Some_iff)

lemma alist_lmap_laws: "lmap_laws alist_lmap"
  by (auto simp: lmap_laws_def alist_lmap_def update_conv' delete_conv' distinct_clearjunk clearjunk_entries)

record ('m, 'e) stat =
  tab :: 'm
  cells :: "addr \<Rightarrow> 'e"
  fresh :: addr

text \<open>Look a key up, create its entry when there is none, and update the entry in place.\<close>

definition touch :: "'m lmap \<Rightarrow> LLMKey \<Rightarrow> 'e \<Rightarrow> ('e \<Rightarrow> 'e) \<Rightarrow> ('m, 'e) stat \<Rightarrow> ('m, 'e) stat" where
  "touch lm k new f s =
     (case lm_get lm (tab s) k of
        Some a \<Rightarrow> s\<lparr>cells := (cells s)(a := f (cells s a))\<rparr>
      | None \<Rightarrow> s\<lparr>tab := lm_put lm k (fresh s) (tab s),
                  cells := (cells s)(fresh s := f new), fresh := fresh s + 1\<rparr>)"

definition look :: "'m lmap \<Rightarrow> ('m, 'e) stat \<Rightarrow> LLMKey \<Rightarrow> 'e option" where
  "look lm s k = map_option (cells s) (lm_get lm (tab s) k)"

text \<open>Every address in a table is allocated and belongs to one key.\<close>

definition stat_ok :: "'m lmap \<Rightarrow> ('m, 'e) stat \<Rightarrow> bool" where
  "stat_ok lm s \<longleftrightarrow>
     (\<forall>k a. lm_get lm (tab s) k = Some a \<longrightarrow> a < fresh s) \<and>
     (\<forall>k k' a. lm_get lm (tab s) k = Some a \<longrightarrow> lm_get lm (tab s) k' = Some a \<longrightarrow> k = k')"

lemma touch_ok:
  assumes "lmap_laws lm" and "stat_ok lm s"
  shows "stat_ok lm (touch lm k new f s)"
proof (cases "lm_get lm (tab s) k")
  case None
  have get: "lm_get lm (tab (touch lm k new f s)) = (lm_get lm (tab s))(k \<mapsto> fresh s)"
    and fr: "fresh (touch lm k new f s) = Suc (fresh s)"
    using None assms(1) by (simp_all add: touch_def lmap_laws_def)
  have old: "lm_get lm (tab s) k' = Some a \<Longrightarrow> a < fresh s" for k' a
    using assms(2) by (auto simp: stat_ok_def)
  have inj: "lm_get lm (tab s) k' = Some a \<Longrightarrow> lm_get lm (tab s) k'' = Some a \<Longrightarrow> k' = k''" for k' k'' a
    using assms(2) by (auto simp: stat_ok_def)
  show ?thesis
    unfolding stat_ok_def get fr
    by (auto dest: old inj less_SucI)
next
  case (Some a)
  with assms(2) show ?thesis by (simp add: stat_ok_def touch_def)
qed

lemma look_touch:
  assumes "lmap_laws lm" and "stat_ok lm s"
  shows "look lm (touch lm k new f s) =
         (look lm s)(k \<mapsto> f (case look lm s k of None \<Rightarrow> new | Some e \<Rightarrow> e))"
proof (cases "lm_get lm (tab s) k")
  case None
  show ?thesis
  proof (rule ext)
    fix k'
    have "lm_get lm (tab s) k' \<noteq> Some (fresh s)" using assms(2) by (auto simp: stat_ok_def)
    with None assms(1) show "look lm (touch lm k new f s) k' =
        ((look lm s)(k \<mapsto> f (case look lm s k of None \<Rightarrow> new | Some e \<Rightarrow> e))) k'"
      by (cases "k' = k"; cases "lm_get lm (tab s) k'") (simp_all add: look_def touch_def lmap_laws_def)
  qed
next
  case (Some a)
  show ?thesis
  proof (rule ext)
    fix k'
    show "look lm (touch lm k new f s) k' =
        ((look lm s)(k \<mapsto> f (case look lm s k of None \<Rightarrow> new | Some e \<Rightarrow> e))) k'"
    proof (cases "k' = k")
      case True
      with Some show ?thesis by (simp add: look_def touch_def)
    next
      case False
      with assms(2) Some have "lm_get lm (tab s) k' \<noteq> Some a" unfolding stat_ok_def by blast
      with False Some show ?thesis
        by (cases "lm_get lm (tab s) k'") (simp_all add: look_def touch_def)
    qed
  qed
qed

subsection \<open>The entries and the meter\<close>

record LLMApiStatusEntry =
  as_key :: LLMKey
  FourXX :: int
  FiveXX :: int

record LLMErrorEntry =
  er_key :: LLMKey
  ApiError :: int
  ProgramError :: int
  LastApiError :: int

text \<open>A Go map is an association list with distinct keys; its iteration order is not specified.\<close>

record LLMFeatureEntry =
  fe_key :: LLMKey
  fe_CallCount :: int
  fe_ErrorCount :: int
  Features :: "(string \<times> int) list"

record 'f LLMPerfEntry =
  pe_key :: LLMKey
  pe_CallCount :: int
  pe_ErrorCount :: int
  TtftCount :: int
  TpotCount :: int
  LatencySum :: 'f
  TtftSum :: 'f
  TpotSum :: 'f

record 'f LLMTokenEntry =
  te_key :: LLMKey
  te_CallCount :: int
  te_ErrorCount :: int
  StreamCount :: int
  TotalTokens :: int
  TokenCounts :: "(string \<times> int) list"
  TokenCosts :: "(string \<times> 'f) list"
  TotalCost :: 'f

record LLMActiveEntry =
  ac_key :: LLMKey
  Count :: int

record ('m, 'f) LLMBucket =
  b_ApiStatus :: "('m, LLMApiStatusEntry) stat"
  b_Error :: "('m, LLMErrorEntry) stat"
  b_Feature :: "('m, LLMFeatureEntry) stat"
  b_Perf :: "('m, 'f LLMPerfEntry) stat"
  b_Token :: "('m, 'f LLMTokenEntry) stat"
  b_MeterCount :: int
  b_MeterError :: int

record ('m, 'f) MeterLLM =
  apiStatusStat :: "('m, LLMApiStatusEntry) stat"
  errorStat :: "('m, LLMErrorEntry) stat"
  featureStat :: "('m, LLMFeatureEntry) stat"
  perfStat :: "('m, 'f LLMPerfEntry) stat"
  tokenStat :: "('m, 'f LLMTokenEntry) stat"
  activeStat :: "('m, LLMActiveEntry) stat"
  meterCount :: int
  meterError :: int

text \<open>An empty statistic: the cells hold nothing the table can reach.\<close>

definition emptyStat :: "'m lmap \<Rightarrow> 'e \<Rightarrow> ('m, 'e) stat" where
  "emptyStat lm e = \<lparr>tab = lm_new lm, cells = (\<lambda>_. e), fresh = 0\<rparr>"

definition zeroKey :: LLMKey where
  "zeroKey = \<lparr>k_Provider = [], k_Model = [], k_OperationType = [], k_URL = []\<rparr>"

definition newApiStatus :: "LLMKey \<Rightarrow> LLMApiStatusEntry" where
  "newApiStatus k = \<lparr>as_key = k, FourXX = 0, FiveXX = 0\<rparr>"

definition newError :: "LLMKey \<Rightarrow> LLMErrorEntry" where
  "newError k = \<lparr>er_key = k, ApiError = 0, ProgramError = 0, LastApiError = 0\<rparr>"

definition newFeature :: "LLMKey \<Rightarrow> LLMFeatureEntry" where
  "newFeature k = \<lparr>fe_key = k, fe_CallCount = 0, fe_ErrorCount = 0, Features = []\<rparr>"

definition newPerf :: "LLMKey \<Rightarrow> ('f::zero) LLMPerfEntry" where
  "newPerf k = \<lparr>pe_key = k, pe_CallCount = 0, pe_ErrorCount = 0, TtftCount = 0, TpotCount = 0,
                LatencySum = 0, TtftSum = 0, TpotSum = 0\<rparr>"

definition newToken :: "LLMKey \<Rightarrow> ('f::zero) LLMTokenEntry" where
  "newToken k = \<lparr>te_key = k, te_CallCount = 0, te_ErrorCount = 0, StreamCount = 0, TotalTokens = 0,
                 TokenCounts = [], TokenCosts = [], TotalCost = 0\<rparr>"

definition newMeterLLM :: "'m lmap \<Rightarrow> ('m, 'f::zero) MeterLLM" where
  "newMeterLLM lm =
     \<lparr>apiStatusStat = emptyStat lm (newApiStatus zeroKey), errorStat = emptyStat lm (newError zeroKey),
      featureStat = emptyStat lm (newFeature zeroKey), perfStat = emptyStat lm (newPerf zeroKey),
      tokenStat = emptyStat lm (newToken zeroKey),
      activeStat = emptyStat lm \<lparr>ac_key = zeroKey, Count = 0\<rparr>, meterCount = 0, meterError = 0\<rparr>"

subsection \<open>Active calls\<close>

definition OnStart :: "'m lmap \<Rightarrow> LLMKey \<Rightarrow> ('m, 'f) MeterLLM \<Rightarrow> ('m, 'f) MeterLLM" where
  "OnStart lm k m =
     (let s = activeStat m in
      case lm_get lm (tab s) k of
        Some a \<Rightarrow> m\<lparr>activeStat := s\<lparr>cells := (cells s)(a := (cells s a)\<lparr>Count := i64 (Count (cells s a) + 1)\<rparr>)\<rparr>\<rparr>
      | None \<Rightarrow> m\<lparr>activeStat := s\<lparr>tab := lm_put lm k (fresh s) (tab s),
                    cells := (cells s)(fresh s := \<lparr>ac_key = k, Count = 1\<rparr>), fresh := fresh s + 1\<rparr>\<rparr>)"

definition OnEnd :: "'m lmap \<Rightarrow> LLMKey \<Rightarrow> ('m, 'f) MeterLLM \<Rightarrow> ('m, 'f) MeterLLM" where
  "OnEnd lm k m =
     (let s = activeStat m in
      case lm_get lm (tab s) k of
        None \<Rightarrow> m
      | Some a \<Rightarrow>
          let e = (cells s a)\<lparr>Count := i64 (Count (cells s a) - 1)\<rparr>;
              s1 = s\<lparr>cells := (cells s)(a := e)\<rparr>
          in m\<lparr>activeStat := (if Count e \<le> 0 then s1\<lparr>tab := lm_remove lm k (tab s1)\<rparr> else s1)\<rparr>)"

subsection \<open>Statistics of one interval\<close>

definition bumpApiStatus :: "int \<Rightarrow> LLMApiStatusEntry \<Rightarrow> LLMApiStatusEntry" where
  "bumpApiStatus statusCode e =
     (if statusCode < 500 then e\<lparr>FourXX := i64 (FourXX e + 1)\<rparr> else e\<lparr>FiveXX := i64 (FiveXX e + 1)\<rparr>)"

definition AddApiStatus :: "'m lmap \<Rightarrow> LLMKey \<Rightarrow> int \<Rightarrow> ('m, 'f) MeterLLM \<Rightarrow> ('m, 'f) MeterLLM" where
  "AddApiStatus lm k statusCode m =
     (if statusCode < 400 \<or> statusCode \<ge> 600 then m
      else m\<lparr>apiStatusStat := touch lm k (newApiStatus k) (bumpApiStatus statusCode) (apiStatusStat m)\<rparr>)"

text \<open>\<open>errorEntry\<close> and \<open>perfEntry\<close> return the pointer, through which their callers then write.\<close>

definition errorEntry ::
  "'m lmap \<Rightarrow> LLMKey \<Rightarrow> (LLMErrorEntry \<Rightarrow> LLMErrorEntry) \<Rightarrow> ('m, 'f) MeterLLM \<Rightarrow> ('m, 'f) MeterLLM" where
  "errorEntry lm k f m = m\<lparr>errorStat := touch lm k (newError k) f (errorStat m)\<rparr>"

definition AddApiError :: "'m lmap \<Rightarrow> LLMKey \<Rightarrow> ('m, 'f) MeterLLM \<Rightarrow> ('m, 'f) MeterLLM" where
  "AddApiError lm k = errorEntry lm k (\<lambda>e. e\<lparr>ApiError := i64 (ApiError e + 1)\<rparr>)"

definition AddProgramError :: "'m lmap \<Rightarrow> LLMKey \<Rightarrow> ('m, 'f) MeterLLM \<Rightarrow> ('m, 'f) MeterLLM" where
  "AddProgramError lm k = errorEntry lm k (\<lambda>e. e\<lparr>ProgramError := i64 (ProgramError e + 1)\<rparr>)"

definition SetLastApiError :: "'m lmap \<Rightarrow> LLMKey \<Rightarrow> int \<Rightarrow> ('m, 'f) MeterLLM \<Rightarrow> ('m, 'f) MeterLLM" where
  "SetLastApiError lm k n = errorEntry lm k (\<lambda>e. e\<lparr>LastApiError := n\<rparr>)"

text \<open>\<open>m[name] += n\<close> on a Go map.\<close>

definition addAt :: "string \<Rightarrow> ('n::{zero,plus} \<Rightarrow> 'n) \<Rightarrow> (string \<times> 'n) list \<Rightarrow> (string \<times> 'n) list" where
  "addAt name f m = AList.update name (f (case map_of m name of None \<Rightarrow> 0 | Some x \<Rightarrow> x)) m"

definition bumpFeature :: "string list \<times> bool \<Rightarrow> LLMFeatureEntry \<Rightarrow> LLMFeatureEntry" where
  "bumpFeature = (\<lambda>(featureNames, isError) e.
     let e1 = e\<lparr>fe_CallCount := i64 (fe_CallCount e + 1)\<rparr>;
         e2 = (if isError then e1\<lparr>fe_ErrorCount := i64 (fe_ErrorCount e1 + 1)\<rparr> else e1)
     in e2\<lparr>Features := fold (\<lambda>name. addAt name (\<lambda>n. i64 (n + 1))) featureNames (Features e2)\<rparr>)"

definition AddFeature ::
  "'m lmap \<Rightarrow> LLMKey \<Rightarrow> string list \<Rightarrow> bool \<Rightarrow> ('m, 'f) MeterLLM \<Rightarrow> ('m, 'f) MeterLLM" where
  "AddFeature lm k featureNames isError m =
     m\<lparr>featureStat := touch lm k (newFeature k) (bumpFeature (featureNames, isError)) (featureStat m)\<rparr>"

record 'f perf_call =
  pc_key :: LLMKey
  latencyMs :: 'f
  ttftMs :: "'f option"
  outputTokens :: "int option"
  streaming :: bool
  isError :: bool

definition bumpPerf :: "(int \<Rightarrow> 'f) \<Rightarrow> 'f perf_call \<Rightarrow> ('f::{zero,plus,minus,inverse,ord}) LLMPerfEntry \<Rightarrow> 'f LLMPerfEntry" where
  "bumpPerf f64 c e =
     (let e1 = e\<lparr>pe_CallCount := i64 (pe_CallCount e + 1)\<rparr>;
          e2 = (if isError c then e1\<lparr>pe_ErrorCount := i64 (pe_ErrorCount e1 + 1)\<rparr> else e1);
          e3 = e2\<lparr>LatencySum := LatencySum e2 + latencyMs c\<rparr>
      in case ttftMs c of
           None \<Rightarrow> e3
         | Some ttft \<Rightarrow>
             let e4 = e3\<lparr>TtftSum := TtftSum e3 + ttft, TtftCount := i64 (TtftCount e3 + 1)\<rparr> in
             case outputTokens c of
               None \<Rightarrow> e4
             | Some n \<Rightarrow>
                 if streaming c \<and> n > 1
                 then let tpot = (latencyMs c - ttft) / f64 (i64 (n - 1)) in
                      if tpot > 0 then e4\<lparr>TpotSum := TpotSum e4 + tpot, TpotCount := i64 (TpotCount e4 + 1)\<rparr>
                      else e4
                 else e4)"

definition AddPerf ::
  "'m lmap \<Rightarrow> (int \<Rightarrow> 'f) \<Rightarrow> 'f perf_call \<Rightarrow> ('m, 'f::{zero,plus,minus,inverse,ord}) MeterLLM \<Rightarrow> ('m, 'f) MeterLLM" where
  "AddPerf lm f64 c m = m\<lparr>perfStat := touch lm (pc_key c) (newPerf (pc_key c)) (bumpPerf f64 c) (perfStat m)\<rparr>"

record 'f token_call =
  tc_key :: LLMKey
  tokens :: "(string \<times> int) list"
  costs :: "(string \<times> 'f) list"
  tc_isError :: bool
  isStream :: bool

definition bumpToken :: "'f token_call \<Rightarrow> ('f::{zero,plus}) LLMTokenEntry \<Rightarrow> 'f LLMTokenEntry" where
  "bumpToken c e =
     (let e1 = e\<lparr>te_CallCount := i64 (te_CallCount e + 1)\<rparr>;
          e2 = (if tc_isError c then e1\<lparr>te_ErrorCount := i64 (te_ErrorCount e1 + 1)\<rparr> else e1);
          e3 = (if isStream c then e2\<lparr>StreamCount := i64 (StreamCount e2 + 1)\<rparr> else e2);
          e4 = fold (\<lambda>(name, n) e. e\<lparr>TokenCounts := addAt name (\<lambda>x. i64 (x + n)) (TokenCounts e),
                                     TotalTokens := i64 (TotalTokens e + n)\<rparr>) (tokens c) e3
      in fold (\<lambda>(name, n) e. e\<lparr>TokenCosts := addAt name (\<lambda>x. x + n) (TokenCosts e),
                               TotalCost := TotalCost e + n\<rparr>) (costs c) e4)"

definition AddTokenUsage ::
  "'m lmap \<Rightarrow> 'f token_call \<Rightarrow> ('m, 'f::{zero,plus}) MeterLLM \<Rightarrow> ('m, 'f) MeterLLM" where
  "AddTokenUsage lm c m =
     m\<lparr>tokenStat := touch lm (tc_key c) (newToken (tc_key c)) (bumpToken c) (tokenStat m)\<rparr>"

definition IncrementMeter :: "('m, 'f) MeterLLM \<Rightarrow> ('m, 'f) MeterLLM" where
  "IncrementMeter m = m\<lparr>meterCount := i64 (meterCount m + 1)\<rparr>"

definition IncrementMeterError :: "('m, 'f) MeterLLM \<Rightarrow> ('m, 'f) MeterLLM" where
  "IncrementMeterError m = m\<lparr>meterError := i64 (meterError m + 1)\<rparr>"

subsection \<open>Collecting\<close>

definition resetStat :: "'m lmap \<Rightarrow> ('m, 'e) stat \<Rightarrow> ('m, 'e) stat" where
  "resetStat lm s = s\<lparr>tab := lm_new lm\<rparr>"

definition GetBucketReset :: "'m lmap \<Rightarrow> ('m, 'f) MeterLLM \<Rightarrow> ('m, 'f) LLMBucket \<times> ('m, 'f) MeterLLM" where
  "GetBucketReset lm m =
     (\<lparr>b_ApiStatus = apiStatusStat m, b_Error = errorStat m, b_Feature = featureStat m, b_Perf = perfStat m,
       b_Token = tokenStat m, b_MeterCount = meterCount m, b_MeterError = meterError m\<rparr>,
      m\<lparr>apiStatusStat := resetStat lm (apiStatusStat m), errorStat := resetStat lm (errorStat m),
        featureStat := resetStat lm (featureStat m), perfStat := resetStat lm (perfStat m),
        tokenStat := resetStat lm (tokenStat m), meterCount := 0, meterError := 0\<rparr>)"

definition ActiveSnapshot :: "'m lmap \<Rightarrow> ('m, 'f) MeterLLM \<Rightarrow> LLMActiveEntry list" where
  "ActiveSnapshot lm m = map (\<lambda>(_, a). cells (activeStat m) a) (lm_entries lm (tab (activeStat m)))"

definition Clear :: "'m lmap \<Rightarrow> ('m, 'f) MeterLLM \<Rightarrow> ('m, 'f) MeterLLM" where
  "Clear lm m =
     m\<lparr>apiStatusStat := resetStat lm (apiStatusStat m), errorStat := resetStat lm (errorStat m),
       featureStat := resetStat lm (featureStat m), perfStat := resetStat lm (perfStat m),
       tokenStat := resetStat lm (tokenStat m), activeStat := resetStat lm (activeStat m),
       meterCount := 0, meterError := 0\<rparr>"

subsection \<open>What the statistics hold\<close>

lemma emptyStat_ok: "lmap_laws lm \<Longrightarrow> stat_ok lm (emptyStat lm e)"
  by (simp add: emptyStat_def stat_ok_def lmap_laws_def)

lemma resetStat_ok: "lmap_laws lm \<Longrightarrow> stat_ok lm (resetStat lm s)"
  by (simp add: resetStat_def stat_ok_def lmap_laws_def)

lemma look_empty: "lmap_laws lm \<Longrightarrow> look lm (emptyStat lm e) k = None"
  by (simp add: emptyStat_def look_def lmap_laws_def)

lemma look_reset: "lmap_laws lm \<Longrightarrow> look lm (resetStat lm s) k = None"
  by (simp add: resetStat_def look_def lmap_laws_def)

lemmas stat_facts = touch_ok look_touch emptyStat_ok resetStat_ok look_empty look_reset

interpretation perf: keyed_stat "AddPerf lm f64" pc_key "\<lambda>m. look lm (perfStat m)"
    "\<lambda>m. lmap_laws lm \<and> stat_ok lm (perfStat m)" newPerf "bumpPerf f64" for lm f64
  by unfold_locales (simp_all add: AddPerf_def stat_facts)

interpretation token: keyed_stat "AddTokenUsage lm" tc_key "\<lambda>m. look lm (tokenStat m)"
    "\<lambda>m. lmap_laws lm \<and> stat_ok lm (tokenStat m)" newToken bumpToken for lm
  by unfold_locales (simp_all add: AddTokenUsage_def stat_facts)

interpretation feature: keyed_stat "\<lambda>(k, names, err). AddFeature lm k names err" fst
    "\<lambda>m. look lm (featureStat m)" "\<lambda>m. lmap_laws lm \<and> stat_ok lm (featureStat m)" newFeature "\<lambda>(k, c). bumpFeature c"
  for lm
  by unfold_locales (auto simp: AddFeature_def stat_facts split: prod.splits cong: option.case_cong)

interpretation apiError: keyed_stat "AddApiError lm" "\<lambda>k. k" "\<lambda>m. look lm (errorStat m)"
    "\<lambda>m. lmap_laws lm \<and> stat_ok lm (errorStat m)" newError "\<lambda>_ e. e\<lparr>ApiError := i64 (ApiError e + 1)\<rparr>" for lm
  by unfold_locales (simp_all add: AddApiError_def errorEntry_def stat_facts)

interpretation programError: keyed_stat "AddProgramError lm" "\<lambda>k. k" "\<lambda>m. look lm (errorStat m)"
    "\<lambda>m. lmap_laws lm \<and> stat_ok lm (errorStat m)" newError "\<lambda>_ e. e\<lparr>ProgramError := i64 (ProgramError e + 1)\<rparr>" for lm
  by unfold_locales (simp_all add: AddProgramError_def errorEntry_def stat_facts)

lemma bumpPerf_fields:
  "pe_CallCount (bumpPerf f64 c e) = i64 (pe_CallCount e + 1)"
  "pe_ErrorCount (bumpPerf f64 c e) = (if isError c then i64 (pe_ErrorCount e + 1) else pe_ErrorCount e)"
  "LatencySum (bumpPerf f64 c e) = LatencySum e + latencyMs c"
  "TtftCount (bumpPerf f64 c e) = (if ttftMs c \<noteq> None then i64 (TtftCount e + 1) else TtftCount e)"
  by (simp_all add: bumpPerf_def Let_def split: option.split)

lemma bumpPerf_fold:
  "pe_CallCount (fold (bumpPerf f64) cs (newPerf k)) = i64 (int (length cs))"
  "pe_ErrorCount (fold (bumpPerf f64) cs (newPerf k)) = i64 (int (length (filter isError cs)))"
  "LatencySum (fold (bumpPerf f64) cs (newPerf k)) = foldl (+) 0 (map latencyMs cs)"
  "TtftCount (fold (bumpPerf f64) cs (newPerf k)) = i64 (int (length (filter (\<lambda>c. ttftMs c \<noteq> None) cs)))"
  by (induction cs rule: rev_induct) (auto simp: bumpPerf_fields newPerf_def add.commute)

text \<open>In one interval the performance entry of a key holds exactly the calls made with that key: their
  number, the number of failed ones, the number with a first-token time, and the sum of their latencies in
  the order of the calls, whatever calls with other keys are interleaved.\<close>
theorem Perf_entry_totals:
  assumes "lmap_laws lm" and "\<exists>c\<in>set cs. pc_key c = k"
  shows "\<exists>e. look lm (perfStat (fold (AddPerf lm f64) cs (newMeterLLM lm))) k = Some e \<and>
     pe_CallCount e = i64 (int (length (filter (\<lambda>c. pc_key c = k) cs))) \<and>
     pe_ErrorCount e = i64 (int (length (filter isError (filter (\<lambda>c. pc_key c = k) cs)))) \<and>
     TtftCount e = i64 (int (length (filter (\<lambda>c. ttftMs c \<noteq> None) (filter (\<lambda>c. pc_key c = k) cs)))) \<and>
     LatencySum e = foldl (+) 0 (map latencyMs (filter (\<lambda>c. pc_key c = k) cs))"
proof -
  have "look lm (perfStat (fold (AddPerf lm f64) cs (newMeterLLM lm))) k =
        Some (fold (bumpPerf f64) (filter (\<lambda>c. pc_key c = k) cs) (newPerf k))"
    by (rule perf.fold_from_empty) (simp_all add: assms newMeterLLM_def stat_facts)
  then show ?thesis by (intro exI conjI) (assumption | rule bumpPerf_fold)+
qed

definition key1 :: LLMKey where
  "key1 = \<lparr>k_Provider = ''openai'', k_Model = ''m'', k_OperationType = ''chat'', k_URL = ''/v1''\<rparr>"

definition calls1 :: "real perf_call list" where
  "calls1 =
     [\<lparr>pc_key = key1, latencyMs = 30, ttftMs = Some 10, outputTokens = Some 5, streaming = True, isError = False\<rparr>,
      \<lparr>pc_key = zeroKey, latencyMs = 7, ttftMs = None, outputTokens = None, streaming = False, isError = True\<rparr>,
      \<lparr>pc_key = key1, latencyMs = 20, ttftMs = None, outputTokens = None, streaming = False, isError = True\<rparr>]"

theorem Perf_entry_totals_witness:
  "\<exists>e. look alist_lmap (perfStat (fold (AddPerf alist_lmap of_int) calls1 (newMeterLLM alist_lmap))) key1 = Some e \<and>
     pe_CallCount e = i64 (int (length (filter (\<lambda>c. pc_key c = key1) calls1))) \<and>
     pe_ErrorCount e = i64 (int (length (filter isError (filter (\<lambda>c. pc_key c = key1) calls1)))) \<and>
     TtftCount e = i64 (int (length (filter (\<lambda>c. ttftMs c \<noteq> None) (filter (\<lambda>c. pc_key c = key1) calls1)))) \<and>
     LatencySum e = foldl (+) 0 (map latencyMs (filter (\<lambda>c. pc_key c = key1) calls1))"
  by (rule Perf_entry_totals) (simp_all add: alist_lmap_laws calls1_def)

subsection \<open>Active calls\<close>

definition active_ok :: "'m lmap \<Rightarrow> ('m, 'f) MeterLLM \<Rightarrow> bool" where
  "active_ok lm m \<longleftrightarrow>
     stat_ok lm (activeStat m) \<and>
     (\<forall>k e. look lm (activeStat m) k = Some e \<longrightarrow> 0 < Count e \<and> Count e < 2 ^ 63 - 1)"

text \<open>\<open>OnStart\<close> is an instance of look-up-or-create.\<close>

lemma OnStart_touch:
  "OnStart lm k m = m\<lparr>activeStat := touch lm k \<lparr>ac_key = k, Count = 0\<rparr> (\<lambda>e. e\<lparr>Count := i64 (Count e + 1)\<rparr>) (activeStat m)\<rparr>"
  by (simp add: OnStart_def touch_def Let_def split: option.split)

lemma OnEnd_look:
  assumes "lmap_laws lm" and "stat_ok lm (activeStat m)" and "look lm (activeStat m) k = Some e"
  shows "look lm (activeStat (OnEnd lm k m)) =
         (look lm (activeStat m))(k := if i64 (Count e - 1) \<le> 0 then None else Some (e\<lparr>Count := i64 (Count e - 1)\<rparr>))"
proof (rule ext)
  fix k'
  from assms(3) obtain a where a: "lm_get lm (tab (activeStat m)) k = Some a" "cells (activeStat m) a = e"
    by (auto simp: look_def)
  show "look lm (activeStat (OnEnd lm k m)) k' =
     ((look lm (activeStat m))(k := if i64 (Count e - 1) \<le> 0 then None else Some (e\<lparr>Count := i64 (Count e - 1)\<rparr>))) k'"
  proof (cases "k' = k")
    case True
    with a assms(1) show ?thesis by (simp add: OnEnd_def look_def Let_def lmap_laws_def)
  next
    case False
    with assms(2) a(1) have "lm_get lm (tab (activeStat m)) k' \<noteq> Some a" unfolding stat_ok_def by blast
    with False a assms(1) show ?thesis
      by (cases "lm_get lm (tab (activeStat m)) k'") (simp_all add: OnEnd_def look_def Let_def lmap_laws_def)
  qed
qed

lemma OnStart_OnEnd_look:
  assumes "lmap_laws lm" and "active_ok lm m"
  shows "look lm (activeStat (OnEnd lm k (OnStart lm k m))) = look lm (activeStat m)"
proof -
  have ok: "stat_ok lm (activeStat m)" using assms(2) by (simp add: active_ok_def)
  let ?s = "activeStat (OnStart lm k m)"
  have s: "stat_ok lm ?s" "look lm ?s = (look lm (activeStat m))(k \<mapsto>
      (case look lm (activeStat m) k of None \<Rightarrow> \<lparr>ac_key = k, Count = 1\<rparr> | Some e \<Rightarrow> e\<lparr>Count := i64 (Count e + 1)\<rparr>))"
    using assms(1) ok by (simp_all add: OnStart_touch touch_ok look_touch split: option.split)
  show ?thesis
  proof (cases "look lm (activeStat m) k")
    case None
    with s(2) have "look lm ?s k = Some \<lparr>ac_key = k, Count = 1\<rparr>" by simp
    from OnEnd_look [OF assms(1) s(1) this] s(2) None show ?thesis by (simp add: fun_upd_idem)
  next
    case (Some e)
    with assms(2) have c: "0 < Count e" "Count e < 2 ^ 63 - 1" by (auto simp: active_ok_def)
    from s(2) Some have "look lm ?s k = Some (e\<lparr>Count := i64 (Count e + 1)\<rparr>)" by simp
    from OnEnd_look [OF assms(1) s(1) this] s(2) Some c show ?thesis by (simp add: fun_upd_idem)
  qed
qed

end
