(* ===== verification/Llm_State.thy ===== *)
theory Llm_State
  imports Llm_Pack Meter_Llm
begin

text \<open>
  One monitored LLM call: its state and the operations the user and the adapters call on it
  (\<^verbatim>\<open>agent/agent/llm/state.go\<close>), the pending state carried by a context (\<^verbatim>\<open>pending.go\<close>), the end of the HTTP
  step and the publication (\<^verbatim>\<open>handler.go\<close>), and the user-facing entry points (\<^verbatim>\<open>llm/llm.go\<close>, \<^verbatim>\<open>llm/step.go\<close>).

  \<open>llm_world\<close> is what a publication changes: the meter, the transaction summaries (the slots the states point
  to) and the queue of the sender. \<open>llm_env\<close> is what it reads: the configuration switch, the clock, the
  conversion to \<^verbatim>\<open>float64\<close>, the tables of registered hosts, the iteration order of Go maps and \<^verbatim>\<open>url.Parse\<close>.
  The queue holds the pack as it is when it is put; \<open>ended\<close> is the state of \<open>endOnce\<close>.
\<close>

record Config =
  cfg_Provider :: string
  cfg_Model :: string
  cfg_OperationType :: string
  cfg_URL :: string

record 'f Tokens =
  Input :: int
  Output :: int
  Total :: int
  Cached :: int
  Reasoning :: int
  AudioInput :: int
  AudioOutput :: int
  AcceptedPrediction :: int
  RejectedPrediction :: int
  CacheCreationInput :: int
  CacheReadInput :: int
  tk_EmbeddingCount :: int
  tk_Dimensions :: int
  tk_Similarity :: 'f

record 'f Costs =
  c_Total :: 'f
  c_Input :: 'f
  c_Output :: 'f
  c_Cached :: 'f
  c_CacheCreation :: 'f

record 'f LLMState =
  disabled :: bool
  pack :: "'f LlmStepStatus"
  startMs :: int
  firstTokenMs :: int
  streamRequest :: bool
  statusCode :: int
  terminalErr :: "string option"
  manualPublish :: bool
  txSlot :: "addr option"
  systemTexts :: "string list"
  promptText :: string
  completionText :: string
  reasoningText :: string
  toolCallsText :: string
  toolResultsText :: string
  ended :: bool

record ('m, 'f) llm_world =
  meter :: "('m, 'f) MeterLLM"
  slots :: "addr \<Rightarrow> 'f LlmTxStatus option"
  queue :: "'f LlmStepStatus list"

record ('m, 'f) llm_env =
  LLMMode :: bool
  SystemNow :: int
  f64 :: "int \<Rightarrow> 'f"
  lmapOps :: "'m lmap"
  ordTokens :: "(string \<times> int) list \<Rightarrow> (string \<times> int) list"
  ordCosts :: "(string \<times> 'f) list \<Rightarrow> (string \<times> 'f) list"
  uniLower :: "string \<Rightarrow> string"
  customHosts :: "hostPattern list"
  urlHost :: "string \<Rightarrow> string"

subsection \<open>Construction\<close>

definition emptyState :: "'f LLMState" where
  "emptyState =
     \<lparr>disabled = False, pack = NewLlmStepStatus, startMs = 0, firstTokenMs = 0, streamRequest = False,
      statusCode = 0, terminalErr = None, manualPublish = False, txSlot = None, systemTexts = [],
      promptText = [], completionText = [], reasoningText = [], toolCallsText = [], toolResultsText = [],
      ended = False\<rparr>"

definition DisabledState :: "'f LLMState" where
  "DisabledState = emptyState\<lparr>disabled := True\<rparr>"

definition NewLLMState :: "('m, 'f) llm_env \<Rightarrow> Config \<Rightarrow> 'f LLMState" where
  "NewLLMState env cfg =
     (let p0 = (NewLlmStepStatus :: 'f LlmStepStatus)\<lparr>Provider := cfg_Provider cfg, Model := cfg_Model cfg, URL := cfg_URL cfg\<rparr>;
          p1 = (if cfg_OperationType cfg \<noteq> [] then p0\<lparr>OperationType := cfg_OperationType cfg\<rparr> else p0);
          p2 = (if Provider p1 = [] \<and> cfg_URL cfg \<noteq> []
                then let (host, path) = InferProviderURL (cfg_URL cfg);
                         q = p1\<lparr>Provider := host\<rparr>
                     in if URL q = cfg_URL cfg then q\<lparr>URL := path\<rparr> else q
                else p1)
      in emptyState\<lparr>startMs := SystemNow env, pack := p2\<lparr>StartTime := SystemNow env\<rparr>\<rparr>)"

subsection \<open>Accumulators\<close>

definition addLine :: "string \<Rightarrow> string \<Rightarrow> string" where
  "addLine old t = (if old = [] then t else old @ [NL] @ t)"

definition AddSystemMessage :: "string \<Rightarrow> 'f LLMState \<Rightarrow> 'f LLMState" where
  "AddSystemMessage t s = (if disabled s \<or> t = [] then s else s\<lparr>systemTexts := systemTexts s @ [t]\<rparr>)"

definition AddInputMessage :: "string \<Rightarrow> 'f LLMState \<Rightarrow> 'f LLMState" where
  "AddInputMessage t s = (if disabled s \<or> t = [] then s else s\<lparr>promptText := addLine (promptText s) t\<rparr>)"

definition AddOutputMessage :: "string \<Rightarrow> 'f LLMState \<Rightarrow> 'f LLMState" where
  "AddOutputMessage t s = (if disabled s \<or> t = [] then s else s\<lparr>completionText := addLine (completionText s) t\<rparr>)"

definition AddReasoning :: "string \<Rightarrow> 'f LLMState \<Rightarrow> 'f LLMState" where
  "AddReasoning t s = (if disabled s \<or> t = [] then s else s\<lparr>reasoningText := addLine (reasoningText s) t\<rparr>)"

definition AddTool :: "string \<Rightarrow> string \<Rightarrow> string \<Rightarrow> 'f LLMState \<Rightarrow> 'f LLMState" where
  "AddTool payload name argumentsJSON s =
     (if disabled s then s
      else let old = (if toolCallsText s \<noteq> [] then toolCallsText s @ [NL] else toolCallsText s)
           in if payload \<noteq> [] then s\<lparr>toolCallsText := old @ payload\<rparr>
              else s\<lparr>toolCallsText := old @ ''[{'' @ [DQUOTE] @ ''function'' @ [DQUOTE] @ '':{'' @ [DQUOTE] @ ''name'' @
                      [DQUOTE] @ '':'' @ [DQUOTE] @ name @ [DQUOTE] @ '','' @ [DQUOTE] @ ''arguments'' @ [DQUOTE] @
                      '':'' @ [DQUOTE] @ argumentsJSON @ [DQUOTE] @ ''}}]''\<rparr>)"

definition AddToolResult :: "string \<Rightarrow> 'f LLMState \<Rightarrow> 'f LLMState" where
  "AddToolResult t s = (if disabled s \<or> t = [] then s else s\<lparr>toolResultsText := addLine (toolResultsText s) t\<rparr>)"

subsection \<open>Setters\<close>

definition nz :: "string \<Rightarrow> 'n \<Rightarrow> (string \<times> 'n::zero) list" where
  "nz name v = (if v \<noteq> 0 then [(name, v)] else [])"

definition tokensToMap :: "'f Tokens \<Rightarrow> (string \<times> int) list" where
  "tokensToMap t =
     nz ''input_tokens'' (Input t) @ nz ''output_tokens'' (Output t) @ nz ''total_tokens_count'' (Total t) @
     nz ''cached_tokens'' (Cached t) @ nz ''reasoning_tokens'' (Reasoning t) @
     nz ''audio_input_tokens'' (AudioInput t) @ nz ''audio_output_tokens'' (AudioOutput t) @
     nz ''accepted_prediction_tokens'' (AcceptedPrediction t) @
     nz ''rejected_prediction_tokens'' (RejectedPrediction t) @
     nz ''cache_creation_input_tokens'' (CacheCreationInput t) @
     nz ''cache_read_input_tokens'' (CacheReadInput t) @ nz ''embedding_count'' (tk_EmbeddingCount t) @
     nz ''dimensions'' (tk_Dimensions t)"

definition SetTokens :: "('f::zero) Tokens \<Rightarrow> 'f LLMState \<Rightarrow> 'f LLMState" where
  "SetTokens t s =
     (if disabled s then s
      else let p = Step_SetTokens (tokensToMap t) (pack s)
           in s\<lparr>pack := (if tk_Similarity t \<noteq> 0 then p\<lparr>Similarity := Some (tk_Similarity t)\<rparr> else p)\<rparr>)"

definition SetCost :: "('f::zero) Costs \<Rightarrow> 'f LLMState \<Rightarrow> 'f LLMState" where
  "SetCost c s =
     (if disabled s then s
      else let p0 = pack s;
               p1 = (if c_Total c \<noteq> 0 then p0\<lparr>Cost := Some (c_Total c)\<rparr> else p0);
               p2 = (if c_Input c \<noteq> 0 then p1\<lparr>InputCost := Some (c_Input c)\<rparr> else p1);
               p3 = (if c_Output c \<noteq> 0 then p2\<lparr>OutputCost := Some (c_Output c)\<rparr> else p2);
               p4 = (if c_Cached c \<noteq> 0 then p3\<lparr>CachedCost := Some (c_Cached c)\<rparr> else p3);
               p5 = (if c_CacheCreation c \<noteq> 0 then p4\<lparr>CacheCreationCost := Some (c_CacheCreation c)\<rparr> else p4)
           in s\<lparr>pack := p5\<rparr>)"

definition SetTemperature :: "'f \<Rightarrow> 'f LLMState \<Rightarrow> 'f LLMState" where
  "SetTemperature t s = (if disabled s then s else s\<lparr>pack := (pack s)\<lparr>Temperature := Some t\<rparr>\<rparr>)"

definition SetFinishReason :: "string \<Rightarrow> 'f LLMState \<Rightarrow> 'f LLMState" where
  "SetFinishReason r s = (if disabled s then s else s\<lparr>pack := (pack s)\<lparr>FinishReason := r\<rparr>\<rparr>)"

definition SetFeatures :: "string \<Rightarrow> 'f LLMState \<Rightarrow> 'f LLMState" where
  "SetFeatures f s = (if disabled s then s else s\<lparr>pack := (pack s)\<lparr>LlmStepStatus.Features := f\<rparr>\<rparr>)"

definition SetStatusCode :: "int \<Rightarrow> 'f LLMState \<Rightarrow> 'f LLMState" where
  "SetStatusCode code s = (if disabled s then s else s\<lparr>statusCode := code\<rparr>)"

definition SetError :: "string option \<Rightarrow> string \<Rightarrow> 'f LLMState \<Rightarrow> 'f LLMState" where
  "SetError err errorType s =
     (case err of
        None \<Rightarrow> s
      | Some msg \<Rightarrow> if disabled s then s
                    else s\<lparr>pack := Step_SetError msg errorType (pack s), terminalErr := Some msg\<rparr>)"

definition MarkStream :: "'f LLMState \<Rightarrow> 'f LLMState" where
  "MarkStream s = (if disabled s then s else s\<lparr>streamRequest := True, pack := (pack s)\<lparr>Stream := True\<rparr>\<rparr>)"

definition RecordFirstToken :: "int \<Rightarrow> 'f LLMState \<Rightarrow> 'f LLMState" where
  "RecordFirstToken now s = (if disabled s \<or> firstTokenMs s \<noteq> 0 then s else s\<lparr>firstTokenMs := now\<rparr>)"

definition MarkManualPublish :: "'f LLMState \<Rightarrow> 'f LLMState" where
  "MarkManualPublish s = (if disabled s then s else s\<lparr>manualPublish := True\<rparr>)"

definition SetURL :: "('m, 'f) llm_env \<Rightarrow> string \<Rightarrow> 'f LLMState \<Rightarrow> 'f LLMState" where
  "SetURL env url s =
     (if disabled s \<or> url = [] then s
      else let (host, path) = InferProviderURL url;
               p0 = pack s;
               p1 = (if Provider p0 = [] then p0\<lparr>Provider := host\<rparr> else p0);
               p2 = (if URL p1 = [] then p1\<lparr>URL := path\<rparr>
                     else if URL p1 = url then p1\<lparr>URL := path\<rparr> else p1);
               p3 = (if OperationType p2 = [] \<or> OperationType p2 = ''unknown''
                     then case MatchURL (uniLower env) (customHosts env) url of
                            Some m \<Rightarrow> if m_OperationType m \<noteq> [] then p2\<lparr>OperationType := m_OperationType m\<rparr> else p2
                          | None \<Rightarrow> p2
                     else p2)
           in s\<lparr>pack := p3\<rparr>)"

subsection \<open>Publication\<close>

fun splitFeat :: "string \<Rightarrow> string \<Rightarrow> string list" where
  "splitFeat cur [] = (if cur \<noteq> [] then [cur] else [])"
| "splitFeat cur (c # cs) =
     (if c = CHR '','' then (if cur \<noteq> [] then [cur] else []) @ splitFeat [] cs
      else splitFeat (cur @ [c]) cs)"

definition splitFeatures :: "string \<Rightarrow> string list" where
  "splitFeatures joined = splitFeat [] joined"

definition nzOpt :: "string \<Rightarrow> 'n option \<Rightarrow> (string \<times> 'n::zero) list" where
  "nzOpt name v = (case v of None \<Rightarrow> [] | Some x \<Rightarrow> nz name x)"

definition nonZeroTokenCounts :: "'f LlmStepStatus \<Rightarrow> (string \<times> int) list" where
  "nonZeroTokenCounts p =
     nzOpt ''input_tokens'' (InputTokens p) @ nzOpt ''output_tokens'' (OutputTokens p) @
     nzOpt ''total_tokens_count'' (TotalTokensCount p) @ nzOpt ''cached_tokens'' (CachedTokens p) @
     nzOpt ''reasoning_tokens'' (ReasoningTokens p) @ nzOpt ''audio_input_tokens'' (AudioInputTokens p) @
     nzOpt ''audio_output_tokens'' (AudioOutputTokens p) @
     nzOpt ''accepted_prediction_tokens'' (AcceptedPredictionTokens p) @
     nzOpt ''rejected_prediction_tokens'' (RejectedPredictionTokens p) @
     nzOpt ''cache_creation_input_tokens'' (CacheCreationInputTokens p) @
     nzOpt ''cache_read_input_tokens'' (CacheReadInputTokens p) @ nzOpt ''embedding_count'' (EmbeddingCount p)"

definition nonZeroCosts :: "('f::zero) LlmStepStatus \<Rightarrow> (string \<times> 'f) list" where
  "nonZeroCosts p =
     nzOpt ''cost'' (Cost p) @ nzOpt ''input_cost'' (InputCost p) @ nzOpt ''output_cost'' (OutputCost p) @
     nzOpt ''cached_cost'' (CachedCost p) @ nzOpt ''cache_creation_cost'' (CacheCreationCost p)"

definition keyOf :: "'f LlmStepStatus \<Rightarrow> LLMKey" where
  "keyOf p = \<lparr>k_Provider = Provider p, k_Model = Model p, k_OperationType = OperationType p, k_URL = URL p\<rparr>"

text \<open>\<open>publishMeters\<close> up to the token usage: performance, features, status and errors.\<close>

definition publishEvents ::
  "('m, 'f::{zero,plus,minus,inverse,ord}) llm_env \<Rightarrow> 'f LLMState \<Rightarrow> ('m, 'f) MeterLLM \<Rightarrow> ('m, 'f) MeterLLM" where
  "publishEvents env s m1 =
     (let p = pack s; k = keyOf p; lm = lmapOps env; err = (\<not> Success p);
          m2 = (case Latency p of
                  None \<Rightarrow> m1
                | Some l \<Rightarrow> AddPerf lm (f64 env) \<lparr>pc_key = k, latencyMs = l, ttftMs = Ttft p,
                              outputTokens = OutputTokens p, streaming = streamRequest s, isError = err\<rparr> m1);
          m3 = (if LlmStepStatus.Features p \<noteq> []
                then AddFeature lm k (splitFeatures (LlmStepStatus.Features p)) err m2 else m2);
          m4 = (if statusCode s \<noteq> 0 then AddApiStatus lm k (statusCode s) m3 else m3)
      in if ErrorType p = ''api_error'' then AddApiError lm k m4
         else if ErrorType p = ''program_error'' then AddProgramError lm k m4 else m4)"

definition publishMeters ::
  "('m, 'f::{zero,plus,minus,inverse,ord}) llm_env \<Rightarrow> 'f LLMState \<Rightarrow> ('m, 'f) MeterLLM \<Rightarrow> ('m, 'f) MeterLLM" where
  "publishMeters env s m0 =
     (let p = pack s; k = keyOf p; lm = lmapOps env; err = (\<not> Success p);
          m5 = publishEvents env s (OnStart lm k m0);
          ts = nonZeroTokenCounts p; cs = nonZeroCosts p;
          m6 = (if ts \<noteq> [] \<or> cs \<noteq> []
                then AddTokenUsage lm \<lparr>tc_key = k, tokens = ordTokens env ts, costs = ordCosts env cs,
                       tc_isError = err, isStream = streamRequest s\<rparr> m5
                else m5);
          m7 = IncrementMeter m6;
          m8 = (if err then IncrementMeterError m7 else m7)
      in OnEnd lm k m8)"

definition DispatchStep :: "('m, 'f) llm_env \<Rightarrow> 'f LlmStepStatus \<Rightarrow> ('m, 'f) llm_world \<Rightarrow> ('m, 'f) llm_world" where
  "DispatchStep env p w = (if \<not> LLMMode env then w else w\<lparr>queue := queue w @ [p]\<rparr>)"

text \<open>The pack as it is finalised: stream timings, the accumulated texts and the success flag.\<close>

definition finalPack ::
  "('m, 'f::{zero,plus,minus,inverse,ord}) llm_env \<Rightarrow> 'f LLMState \<Rightarrow> 'f LlmStepStatus" where
  "finalPack env s =
     (let p0 = pack s;
          p1 = (if firstTokenMs s \<noteq> 0 \<and> Ttft p0 = None
                then p0\<lparr>Ttft := Some (f64 env (i64 (firstTokenMs s - startMs s)))\<rparr> else p0);
          p2 = (case Ttft p1 of
                  Some ttft \<Rightarrow>
                    if streamRequest s \<and> (case Latency p1 of None \<Rightarrow> True | Some l \<Rightarrow> l \<le> ttft)
                    then p1\<lparr>Latency := Some (f64 env (i64 (SystemNow env - startMs s)))\<rparr> else p1
                | None \<Rightarrow> p1)
      in p2\<lparr>SystemTexts := systemTexts s, PromptText := promptText s, CompletionText := completionText s,
            ReasoningText := reasoningText s, ToolCallsText := toolCallsText s,
            ToolResultsText := toolResultsText s, Success := (Error p2 = [])\<rparr>)"

text \<open>The transaction summary: created in an empty slot, named after the first pack, and added to.\<close>

definition accumulateSlot :: "addr option \<Rightarrow> ('f::{zero,plus}) LlmStepStatus \<Rightarrow> ('m, 'f) llm_world \<Rightarrow> ('m, 'f) llm_world" where
  "accumulateSlot slot p w =
     (case slot of
        None \<Rightarrow> w
      | Some a \<Rightarrow>
          let tx = (case slots w a of None \<Rightarrow> NewLlmTxStatus | Some t \<Rightarrow> t);
              tx1 = (if Txid tx = [] then tx\<lparr>Txid := Txid p\<rparr> else tx)
          in w\<lparr>slots := (slots w)(a \<mapsto> Accumulate p tx1)\<rparr>)"

definition Publish ::
  "('m, 'f::{zero,plus,minus,inverse,ord}) llm_env \<Rightarrow> 'f LLMState \<times> ('m, 'f) llm_world \<Rightarrow> 'f LLMState \<times> ('m, 'f) llm_world" where
  "Publish env = (\<lambda>(s, w).
     if disabled s \<or> ended s then (s, w)
     else let s1 = s\<lparr>pack := finalPack env s, ended := True\<rparr>;
              w1 = w\<lparr>meter := publishMeters env s1 (meter w)\<rparr>;
              w2 = accumulateSlot (txSlot s1) (pack s1) w1
          in (s1, DispatchStep env (pack s1) w2))"

record http_end =
  he_txid :: int
  he_slot :: "addr option"
  he_stepID :: int
  he_elapsed :: int
  he_status :: int
  he_err :: "string option"

text \<open>The parts of \<open>HandleHttpcEnd\<close> before the publication: timings, status and error, identifiers and slot.\<close>

definition endTimings :: "('m, 'f) llm_env \<Rightarrow> http_end \<Rightarrow> 'f LLMState \<Rightarrow> 'f LLMState" where
  "endTimings env h s =
     (let s1 = (if he_elapsed h \<ge> 0 then s\<lparr>pack := (pack s)\<lparr>Latency := Some (f64 env (he_elapsed h))\<rparr>\<rparr> else s)
      in if firstTokenMs s1 \<noteq> 0
         then s1\<lparr>pack := (pack s1)\<lparr>Ttft := Some (f64 env (i64 (firstTokenMs s1 - startMs s1)))\<rparr>\<rparr> else s1)"

definition endStatus :: "http_end \<Rightarrow> 'f LLMState \<Rightarrow> 'f LLMState" where
  "endStatus h s =
     (let s1 = (if statusCode s = 0 then s\<lparr>statusCode := he_status h\<rparr> else s)
      in if he_err h \<noteq> None \<and> terminalErr s1 = None then SetError (he_err h) ''api_error'' s1 else s1)"

definition endIds :: "http_end \<Rightarrow> 'f LLMState \<Rightarrow> 'f LLMState" where
  "endIds h s =
     (let s1 = (if he_stepID h \<noteq> 0 then s\<lparr>pack := (pack s)\<lparr>StepID := itoa (he_stepID h)\<rparr>\<rparr> else s);
          s2 = (if he_txid h \<noteq> 0 then s1\<lparr>pack := (pack s1)\<lparr>Txid := itoa (he_txid h)\<rparr>\<rparr> else s1)
      in s2\<lparr>txSlot := he_slot h\<rparr>)"

definition HandleHttpcEnd ::
  "('m, 'f::{zero,plus,minus,inverse,ord}) llm_env \<Rightarrow> http_end \<Rightarrow> 'f LLMState \<times> ('m, 'f) llm_world \<Rightarrow> 'f LLMState \<times> ('m, 'f) llm_world" where
  "HandleHttpcEnd env h = (\<lambda>(s, w).
     if disabled s \<or> \<not> LLMMode env then (s, w)
     else let s1 = endIds h (endStatus h (endTimings env h s))
          in if \<not> manualPublish s1 then Publish env (s1, w) else (s1, w))"

definition Step_End ::
  "('m, 'f::{zero,plus,minus,inverse,ord}) llm_env \<Rightarrow> 'f LLMState \<times> ('m, 'f) llm_world \<Rightarrow> 'f LLMState \<times> ('m, 'f) llm_world" where
  "Step_End env = Publish env"

subsection \<open>Attaching a state\<close>

definition MaybeAttachAuto :: "('m, 'f) llm_env \<Rightarrow> string \<Rightarrow> 'f LLMState option" where
  "MaybeAttachAuto env url =
     (if \<not> LLMMode env \<or> url = [] then None
      else case MatchURL (uniLower env) (customHosts env) url of
             None \<Rightarrow> None
           | Some m \<Rightarrow> Some (NewLLMState env \<lparr>cfg_Provider = m_Provider m, cfg_Model = [],
                               cfg_OperationType = m_OperationType m, cfg_URL = m_URL m\<rparr>))"

definition AttachForced :: "('m, 'f) llm_env \<Rightarrow> string \<Rightarrow> 'f LLMState option" where
  "AttachForced env url =
     (if \<not> LLMMode env \<or> url = [] then None
      else let cfg0 = \<lparr>cfg_Provider = [], cfg_Model = [], cfg_OperationType = [], cfg_URL = url\<rparr>;
               cfg = (case MatchURL (uniLower env) (customHosts env) url of
                        Some m \<Rightarrow> cfg0\<lparr>cfg_Provider := m_Provider m, cfg_OperationType := m_OperationType m, cfg_URL := m_URL m\<rparr>
                      | None \<Rightarrow> if urlHost env url \<noteq> [] then cfg0\<lparr>cfg_Provider := urlHost env url\<rparr> else cfg0)
           in Some (NewLLMState env cfg))"

text \<open>A context is nil or carries at most one pending state; a state is known by its address.\<close>

datatype 'r ctx = NilCtx | Ctx "addr option" 'r

definition RegisterPending :: "'r ctx \<Rightarrow> (addr \<times> 'f LLMState) option \<Rightarrow> 'r ctx" where
  "RegisterPending c st =
     (case c of
        NilCtx \<Rightarrow> NilCtx
      | Ctx pending r \<Rightarrow>
          (case st of
             None \<Rightarrow> c
           | Some (a, s) \<Rightarrow> if disabled s then c else if pending \<noteq> None then c else Ctx (Some a) r))"

definition TakePending :: "'r ctx \<Rightarrow> addr option" where
  "TakePending c = (case c of NilCtx \<Rightarrow> None | Ctx pending r \<Rightarrow> pending)"

text \<open>\<open>llm.Start\<close>: \<open>a\<close> is the address of the new state.\<close>

definition llm_Start :: "('m, 'f) llm_env \<Rightarrow> Config \<Rightarrow> addr \<Rightarrow> 'r ctx \<Rightarrow> 'r ctx \<times> 'f LLMState" where
  "llm_Start env cfg a c =
     (if \<not> LLMMode env then (c, DisabledState)
      else let s = MarkManualPublish (NewLLMState env (cfg\<lparr>cfg_URL := []\<rparr>))
           in (RegisterPending c (Some (a, s)), s))"

text \<open>\<open>llm.Bind\<close>: the result is the state and the new value of \<open>hc.Extra\<close>, None when it is left alone.\<close>

definition llm_Bind :: "('m, 'f) llm_env \<Rightarrow> Config \<Rightarrow> addr \<Rightarrow> string option \<Rightarrow> 'f LLMState \<times> addr option" where
  "llm_Bind env cfg a hcUrl =
     (case hcUrl of
        None \<Rightarrow> (DisabledState, None)
      | Some url \<Rightarrow> if \<not> LLMMode env then (DisabledState, None)
                    else (SetURL env url (MarkManualPublish (NewLLMState env (cfg\<lparr>cfg_URL := []\<rparr>))), Some a))"

definition DispatchTraceTxStatus :: "('m, 'f) llm_env \<Rightarrow> int \<Rightarrow> 'f LlmTxStatus option \<Rightarrow> 'f LlmTxStatus option" where
  "DispatchTraceTxStatus env txid slot =
     (case slot of
        None \<Rightarrow> None
      | Some tx \<Rightarrow> if CallCount tx = 0 \<or> \<not> LLMMode env then None
                   else Some (if Txid tx = [] \<and> txid \<noteq> 0 then tx\<lparr>Txid := itoa txid\<rparr> else tx))"

subsection \<open>Exactly one publication\<close>

text \<open>The calls that can be made on a state, in any order; each ending call has its own environment.\<close>

datatype ('m, 'f) llm_op =
    OSystem string | OInput string | OOutput string | OReasoning string | OTool string string string
  | OToolResult string | OTokens "'f Tokens" | OCost "'f Costs" | OTemperature 'f | OFinish string
  | OFeatures string | OStatus int | OError "string option" string | OStream | OFirstToken int
  | OHttpcEnd "('m, 'f) llm_env" http_end | OEnd "('m, 'f) llm_env"

fun do_op :: "('m, 'f::{zero,plus,minus,inverse,ord}) llm_op \<Rightarrow> 'f LLMState \<times> ('m, 'f) llm_world \<Rightarrow> 'f LLMState \<times> ('m, 'f) llm_world" where
  "do_op (OSystem t) (s, w) = (AddSystemMessage t s, w)"
| "do_op (OInput t) (s, w) = (AddInputMessage t s, w)"
| "do_op (OOutput t) (s, w) = (AddOutputMessage t s, w)"
| "do_op (OReasoning t) (s, w) = (AddReasoning t s, w)"
| "do_op (OTool p n a) (s, w) = (AddTool p n a s, w)"
| "do_op (OToolResult t) (s, w) = (AddToolResult t s, w)"
| "do_op (OTokens t) (s, w) = (SetTokens t s, w)"
| "do_op (OCost c) (s, w) = (SetCost c s, w)"
| "do_op (OTemperature t) (s, w) = (SetTemperature t s, w)"
| "do_op (OFinish r) (s, w) = (SetFinishReason r s, w)"
| "do_op (OFeatures f) (s, w) = (SetFeatures f s, w)"
| "do_op (OStatus c) (s, w) = (SetStatusCode c s, w)"
| "do_op (OError e ty) (s, w) = (SetError e ty s, w)"
| "do_op OStream (s, w) = (MarkStream s, w)"
| "do_op (OFirstToken now) (s, w) = (RecordFirstToken now s, w)"
| "do_op (OHttpcEnd env h) (s, w) = HandleHttpcEnd env h (s, w)"
| "do_op (OEnd env) (s, w) = Step_End env (s, w)"

fun mode_on :: "('m, 'f) llm_op \<Rightarrow> bool" where
  "mode_on (OHttpcEnd env h) = LLMMode env"
| "mode_on (OEnd env) = LLMMode env"
| "mode_on _ = True"

text \<open>Which calls publish: the end of the HTTP step, unless the state was started by the user, and \<open>End\<close>.\<close>

fun publishes :: "bool \<Rightarrow> ('m, 'f) llm_op \<Rightarrow> bool" where
  "publishes manual (OHttpcEnd env h) = (\<not> manual)"
| "publishes manual (OEnd env) = True"
| "publishes manual _ = False"

lemmas accumulators = AddSystemMessage_def AddInputMessage_def AddOutputMessage_def AddReasoning_def
  AddTool_def AddToolResult_def

lemmas setters = SetTokens_def SetCost_def SetTemperature_def SetFinishReason_def SetFeatures_def
  SetStatusCode_def SetError_def MarkStream_def RecordFirstToken_def

definition flags :: "'f LLMState \<Rightarrow> bool \<times> bool \<times> bool" where
  "flags s = (disabled s, ended s, manualPublish s)"

lemma accumulator_flags:
  "flags (AddSystemMessage t s) = flags s" "flags (AddInputMessage t s) = flags s"
  "flags (AddOutputMessage t s) = flags s" "flags (AddReasoning t s) = flags s"
  "flags (AddTool p n a s) = flags s" "flags (AddToolResult t s) = flags s"
  by (simp_all add: accumulators flags_def Let_def)

lemma setter_flags:
  "flags (SetTokens tk s) = flags s" "flags (SetCost c s) = flags s" "flags (SetTemperature x s) = flags s"
  "flags (SetFinishReason t s) = flags s" "flags (SetFeatures t s) = flags s" "flags (SetStatusCode i s) = flags s"
  "flags (SetError e t s) = flags s" "flags (MarkStream s) = flags s" "flags (RecordFirstToken i s) = flags s"
  by (simp_all add: setters flags_def Let_def split: option.split)

lemma meter_counts [simp]:
  "meterCount (OnStart lm k m) = meterCount m" "meterCount (OnEnd lm k m) = meterCount m"
  "meterCount (AddPerf lm g c m) = meterCount m" "meterCount (AddFeature lm k ns b m) = meterCount m"
  "meterCount (AddApiStatus lm k i m) = meterCount m" "meterCount (AddApiError lm k m) = meterCount m"
  "meterCount (AddProgramError lm k m) = meterCount m" "meterCount (AddTokenUsage lm tc m) = meterCount m"
  "meterCount (IncrementMeter m) = i64 (meterCount m + 1)" "meterCount (IncrementMeterError m) = meterCount m"
  by (simp_all add: OnStart_def OnEnd_def AddPerf_def AddFeature_def AddApiStatus_def AddApiError_def
      AddProgramError_def errorEntry_def AddTokenUsage_def IncrementMeter_def IncrementMeterError_def Let_def
      split: option.split)

lemma publishMeters_count: "meterCount (publishMeters env s m) = i64 (meterCount m + 1)"
  by (simp add: publishMeters_def publishEvents_def Let_def split: option.split)

lemma accumulateSlot_other [simp]:
  "queue (accumulateSlot slot p w) = queue w" "meter (accumulateSlot slot p w) = meter w"
  by (simp_all add: accumulateSlot_def Let_def split: option.split)

lemma Publish_effect:
  assumes "\<not> disabled s" and "\<not> ended s" and "LLMMode env"
  shows "\<exists>s' w'. Publish env (s, w) = (s', w') \<and> flags s' = (False, True, manualPublish s) \<and>
     queue w' = queue w @ [finalPack env s] \<and> meterCount (meter w') = i64 (meterCount (meter w) + 1)"
  using assms
  by (simp add: Publish_def DispatchStep_def publishMeters_count flags_def Let_def)

lemma Publish_again: "disabled s \<or> ended s \<Longrightarrow> Publish env (s, w) = (s, w)"
  by (simp add: Publish_def)

lemma end_flags:
  "flags (endTimings env h s) = flags s" "flags (endStatus h s) = flags s" "flags (endIds h s) = flags s"
  by (simp_all add: endTimings_def endStatus_def endIds_def SetError_def flags_def Let_def split: option.split)

lemma HandleHttpcEnd_prepare:
  assumes "\<not> disabled s" and "LLMMode env"
  shows "\<exists>s'. flags s' = flags s \<and> HandleHttpcEnd env h (s, w) = (if manualPublish s then (s', w) else Publish env (s', w))"
proof -
  let ?s = "endIds h (endStatus h (endTimings env h s))"
  have f: "flags ?s = flags s" by (simp only: end_flags)
  then have "manualPublish ?s = manualPublish s" by (simp only: flags_def prod.inject)
  then have "HandleHttpcEnd env h (s, w) = (if manualPublish s then (?s, w) else Publish env (?s, w))"
    using assms by (simp add: HandleHttpcEnd_def Let_def)
  with f show ?thesis by blast
qed

lemma do_op_effect:
  assumes "\<not> disabled s" and "mode_on x" and "do_op x (s, w) = (s', w')"
  shows "disabled s' = disabled s \<and> manualPublish s' = manualPublish s \<and>
     (if publishes (manualPublish s) x \<and> \<not> ended s
      then ended s' \<and> (\<exists>p. queue w' = queue w @ [p]) \<and> meterCount (meter w') = i64 (meterCount (meter w) + 1)
      else ended s' = ended s \<and> w' = w)"
proof (cases "\<exists>env h. x = OHttpcEnd env h \<or> x = OEnd env")
  case False
  then have "w' = w" and "flags s' = flags s"
    using assms(3) by (cases x; auto simp: accumulator_flags setter_flags)+
  moreover have "\<not> publishes (manualPublish s) x" using False by (cases x) auto
  ultimately show ?thesis by (simp add: flags_def)
next
  case True
  have pub: "disabled s2 = disabled s \<and> manualPublish s2 = manualPublish s \<and>
     (if \<not> ended s then ended s2 \<and> (\<exists>p. queue w2 = queue w @ [p]) \<and> meterCount (meter w2) = i64 (meterCount (meter w) + 1)
      else ended s2 = ended s \<and> w2 = w)"
    if "Publish env (s1, w) = (s2, w2)" and "flags s1 = flags s" and "LLMMode env" for env s1 s2 w2
  proof -
    have f: "disabled s1 = disabled s" "ended s1 = ended s" "manualPublish s1 = manualPublish s"
      using that(2) by (simp_all add: flags_def)
    show ?thesis
    proof (cases "ended s")
      case True
      with that(1) f Publish_again [of s1 env w] show ?thesis by simp
    next
      case False
      with Publish_effect [of s1 env w] that f assms(1) show ?thesis by (auto simp: flags_def)
    qed
  qed
  from True show ?thesis
  proof (elim exE disjE)
    fix env h assume x: "x = OHttpcEnd env h"
    from HandleHttpcEnd_prepare [of s env h w] assms x obtain s1 where
      "flags s1 = flags s" "(if manualPublish s then (s1, w) else Publish env (s1, w)) = (s', w')" by auto
    with pub [of env s1 s' w'] assms(2) x show ?thesis by (auto simp: flags_def split: if_splits)
  next
    fix env h assume x: "x = OEnd env"
    with pub [of env s s' w'] assms show ?thesis by (auto simp: Step_End_def)
  qed
qed

lemma run_after_end:
  "\<not> disabled s \<Longrightarrow> ended s \<Longrightarrow> \<forall>x\<in>set ops. mode_on x \<Longrightarrow> snd (fold do_op ops (s, w)) = w"
proof (induction ops arbitrary: s w)
  case (Cons x ops)
  obtain s1 w1 where x: "do_op x (s, w) = (s1, w1)" by (cases "do_op x (s, w)")
  with do_op_effect [of s x w s1 w1] Cons.prems have "\<not> disabled s1" "ended s1" "w1 = w" by auto
  with Cons x show ?case by simp
qed simp


definition env1 :: "((LLMKey \<times> addr) list, real) llm_env" where
  "env1 = \<lparr>LLMMode = True, SystemNow = 1000, f64 = of_int, lmapOps = alist_lmap, ordTokens = id, ordCosts = id,
           uniLower = id, customHosts = [], urlHost = id\<rparr>"

definition world1 :: "((LLMKey \<times> addr) list, real) llm_world" where
  "world1 = \<lparr>meter = newMeterLLM alist_lmap, slots = (\<lambda>_. None), queue = []\<rparr>"

definition end1 :: http_end where
  "end1 = \<lparr>he_txid = 7, he_slot = Some 3, he_stepID = 9, he_elapsed = 40, he_status = 200, he_err = None\<rparr>"

definition cfg1 :: Config where
  "cfg1 = \<lparr>cfg_Provider = ''openai'', cfg_Model = ''gpt-4o'', cfg_OperationType = ''chat'', cfg_URL = []\<rparr>"


subsection \<open>What the published pack holds\<close>

lemma Join_snoc: "Join (xs @ [t]) sep = (if xs = [] then t else Join xs sep @ sep @ t)"
proof (induction xs)
  case (Cons x xs)
  then show ?case by (cases xs) auto
qed simp

lemma Join_eq_Nil: "\<forall>x\<in>set xs. x \<noteq> [] \<Longrightarrow> Join xs sep = [] \<longleftrightarrow> xs = []"
  by (cases xs rule: rev_cases) (auto simp: Join_snoc)

lemma AddInputMessage_lines:
  assumes "\<not> disabled s" and "promptText s = []"
  shows "promptText (fold AddInputMessage ts s) = Join (filter (\<lambda>t. t \<noteq> []) ts) [NL] \<and>
         \<not> disabled (fold AddInputMessage ts s)"
proof (induction ts rule: rev_induct)
  case (snoc t ts)
  then show ?case
    using Join_eq_Nil [of "filter (\<lambda>t. t \<noteq> []) ts" "[NL]"]
    by (auto simp: AddInputMessage_def addLine_def Join_snoc)
qed (simp add: assms)

lemma setToken_fields:
  "InputTokens (setToken (k, v) p) = (if k = ''input_tokens'' then Some v else InputTokens p)"
  "OutputTokens (setToken (k, v) p) = (if k = ''output_tokens'' then Some v else OutputTokens p)"
  "StepID (setToken (k, v) p) = StepID p"
  by (simp_all add: setToken_def)

lemma fold_setToken_nz:
  "InputTokens (fold setToken (nz k v) p) = (if k = ''input_tokens'' \<and> v \<noteq> 0 then Some v else InputTokens p)"
  "OutputTokens (fold setToken (nz k v) p) = (if k = ''output_tokens'' \<and> v \<noteq> 0 then Some v else OutputTokens p)"
  "StepID (fold setToken (nz k v) p) = StepID p"
  by (simp_all add: nz_def setToken_fields)

lemma Step_SetTokens_fields:
  "InputTokens (Step_SetTokens (tokensToMap t) p) = (if Input t \<noteq> 0 then Some (Input t) else InputTokens p)"
  "OutputTokens (Step_SetTokens (tokensToMap t) p) = (if Output t \<noteq> 0 then Some (Output t) else OutputTokens p)"
  "StepID (Step_SetTokens (tokensToMap t) p) = StepID p"
  by (simp_all add: Step_SetTokens_def tokensToMap_def fold_setToken_nz)

lemma SetTokens_fields:
  "\<not> disabled s \<Longrightarrow> InputTokens (pack (SetTokens t s)) = (if Input t \<noteq> 0 then Some (Input t) else InputTokens (pack s))"
  "\<not> disabled s \<Longrightarrow> OutputTokens (pack (SetTokens t s)) = (if Output t \<noteq> 0 then Some (Output t) else OutputTokens (pack s))"
  "StepID (pack (SetTokens t s)) = StepID (pack s)"
  "promptText (SetTokens t s) = promptText s"
  by (simp_all add: SetTokens_def Let_def Step_SetTokens_fields)

lemma finalPack_fields:
  "InputTokens (finalPack env s) = InputTokens (pack s)" "OutputTokens (finalPack env s) = OutputTokens (pack s)"
  "StepID (finalPack env s) = StepID (pack s)" "PromptText (finalPack env s) = promptText s"
  "Txid (finalPack env s) = Txid (pack s)"
  by (simp_all add: finalPack_def Let_def split: option.split)

lemma end_fields:
  "promptText (endTimings env h s) = promptText s" "promptText (endStatus h s) = promptText s"
  "promptText (endIds h s) = promptText s"
  "he_stepID h \<noteq> 0 \<Longrightarrow> StepID (pack (endIds h s)) = itoa (he_stepID h)"
  by (simp_all add: endTimings_def endStatus_def endIds_def SetError_def Let_def split: option.split)

text \<open>Response metadata that arrives after the HTTP step has ended is published. For a state started by
  the user, tokens set between the end of the HTTP step and \<open>End\<close> are in the one pack that is sent, together
  with the identifier of the HTTP step and all the input messages, one per line.\<close>
theorem late_metadata_published:
  assumes "\<not> disabled s" and "\<not> ended s" and "manualPublish s" and "promptText s = []"
    and "LLMMode env" and "LLMMode env'" and "he_stepID h \<noteq> 0" and "Input t \<noteq> 0" and "Output t \<noteq> 0"
  shows "\<exists>q. queue (snd (fold do_op [OHttpcEnd env h, OTokens t, OEnd env'] (fold AddInputMessage ts s, w))) = queue w @ [q] \<and>
     InputTokens q = Some (Input t) \<and> OutputTokens q = Some (Output t) \<and>
     StepID q = itoa (he_stepID h) \<and> PromptText q = Join (filter (\<lambda>x. x \<noteq> []) ts) [NL]"
proof -
  let ?s0 = "fold AddInputMessage ts s"
  have "flags ?s0 = flags s"
    by (induction ts rule: rev_induct) (simp_all add: accumulator_flags)
  then have s0: "\<not> disabled ?s0" "\<not> ended ?s0" "manualPublish ?s0"
    using assms(1-3) by (simp_all add: flags_def)
  let ?s1 = "endIds h (endStatus h (endTimings env h ?s0))"
  have "flags ?s1 = flags ?s0" by (simp only: end_flags)
  then have s1: "\<not> disabled ?s1" "\<not> ended ?s1" "manualPublish ?s1" using s0 by (simp_all add: flags_def)
  have h: "HandleHttpcEnd env h (?s0, w) = (?s1, w)"
    using s0 s1 assms(5) by (simp add: HandleHttpcEnd_def Let_def)
  let ?s2 = "SetTokens t ?s1"
  have "flags ?s2 = flags ?s1" by (simp only: setter_flags)
  then have s2: "\<not> disabled ?s2" "\<not> ended ?s2" using s1 by (simp_all add: flags_def)
  from Publish_effect [OF s2 assms(6), of w]
  have "queue (snd (Publish env' (?s2, w))) = queue w @ [finalPack env' ?s2]" by auto
  moreover have "PromptText (finalPack env' ?s2) = Join (filter (\<lambda>x. x \<noteq> []) ts) [NL]"
    using AddInputMessage_lines [OF assms(1,4), of ts]
    by (simp add: finalPack_fields SetTokens_fields end_fields)
  ultimately show ?thesis
    using s1(1) assms(7-9)
    by (simp add: h Step_End_def finalPack_fields SetTokens_fields end_fields)
qed

definition tokens1 :: "real Tokens" where
  "tokens1 = \<lparr>Input = 120, Output = 200, Total = 320, Cached = 0, Reasoning = 0, AudioInput = 0, AudioOutput = 0,
     AcceptedPrediction = 0, RejectedPrediction = 0, CacheCreationInput = 0, CacheReadInput = 0,
     tk_EmbeddingCount = 0, tk_Dimensions = 0, tk_Similarity = 0\<rparr>"

definition state1 :: "real LLMState" where
  "state1 = MarkManualPublish (NewLLMState env1 cfg1)"

lemma state1_fields: "\<not> disabled state1" "\<not> ended state1" "manualPublish state1" "promptText state1 = []"
  by (simp_all add: state1_def MarkManualPublish_def NewLLMState_def emptyState_def env1_def cfg1_def Let_def
      NewLlmStepStatus_def)

theorem late_metadata_published_witness:
  "\<exists>q. queue (snd (fold do_op [OHttpcEnd env1 end1, OTokens tokens1, OEnd env1] (fold AddInputMessage [''a'', [], ''b''] state1, world1))) =
       queue world1 @ [q] \<and>
     InputTokens q = Some (Input tokens1) \<and> OutputTokens q = Some (Output tokens1) \<and>
     StepID q = itoa (he_stepID end1) \<and> PromptText q = Join (filter (\<lambda>x. x \<noteq> []) [''a'', [], ''b'']) [NL]"
  by (rule late_metadata_published)
    (simp_all add: state1_fields env1_def end1_def tokens1_def)

subsection \<open>The transaction summary\<close>

lemma Accumulate_Txid: "Accumulate p (t\<lparr>Txid := x\<rparr>) = (Accumulate p t)\<lparr>Txid := x\<rparr>"
  by (simp add: Accumulate_def)

lemma Accumulate_keeps_Txid: "Txid (Accumulate p t) = Txid t"
  by (simp add: Accumulate_def)

lemma Publish_slot:
  assumes "\<not> disabled s" and "\<not> ended s" and "txSlot s = Some a"
  shows "slots (snd (Publish env (s, w))) a =
     Some (let tx = (case slots w a of None \<Rightarrow> NewLlmTxStatus | Some t \<Rightarrow> t)
           in Accumulate (finalPack env s) (if Txid tx = [] then tx\<lparr>Txid := Txid (pack s)\<rparr> else tx))"
  using assms
  by (simp add: Publish_def accumulateSlot_def DispatchStep_def finalPack_fields Let_def)

lemma Publish_slots_fold:
  fixes ss :: "('f::{zero,plus,minus,inverse,ord}) LLMState list"
  assumes "slots w a = None" and "ss \<noteq> []"
    and "\<forall>s\<in>set ss. \<not> disabled s \<and> \<not> ended s \<and> txSlot s = Some a"
  shows "slots (fold (\<lambda>s w. snd (Publish env (s, w))) ss w) a =
     Some ((fold Accumulate (map (finalPack env) ss) NewLlmTxStatus)\<lparr>Txid := firstNonEmpty (map (\<lambda>s. Txid (pack s)) ss)\<rparr>)"
  using assms(2,3)
proof (induction ss rule: rev_induct)
  case (snoc s ss)
  let ?w = "fold (\<lambda>s w. snd (Publish env (s, w))) ss w"
  have new: "Txid (NewLlmTxStatus :: 'f LlmTxStatus) = []" by (simp add: NewLlmTxStatus_def)
  have s: "\<not> disabled s" "\<not> ended s" "txSlot s = Some a" using snoc.prems by auto
  show ?case
  proof (cases "ss = []")
    case True
    with assms(1) Publish_slot [OF s, of env w] new show ?thesis by (simp add: Accumulate_Txid)
  next
    case False
    with snoc have "slots ?w a =
      Some ((fold Accumulate (map (finalPack env) ss) NewLlmTxStatus)\<lparr>Txid := firstNonEmpty (map (\<lambda>s. Txid (pack s)) ss)\<rparr>)"
      by simp
    with Publish_slot [OF s, of env ?w] show ?thesis
      by (simp add: Accumulate_Txid firstNonEmpty_snoc)
  qed
qed simp



end
