(* ===== verification/Task_Llm.thy ===== *)
theory Task_Llm
  imports Meter_Llm
begin

text \<open>
  The task that publishes the LLM meter (\<^verbatim>\<open>agent/agent/counter/TaskLLM.go\<close>): every call of \<open>process\<close> empties
  the meter and sends one pack per entry, and once per quarter of an hour it sends the 15-minute meter.

  \<open>data.SendTagCount\<close> is the list of packs returned. A pack is the base fields, the tags and the values in
  the order they are put. The iteration order of Go maps is the parameter \<open>ord\<close>; the time constants of
  module golib (\<open>MILLIS_PER_MINUTE\<close>, \<open>MILLIS_PER_HOUR\<close>) are the parameters \<open>perMinute\<close> and \<open>perHour\<close>.
\<close>

datatype 'f tagval = VLong int | VDouble 'f | VString string
  | VStrings "string list" | VLongs "int list" | VDoubles "'f list"

record CounterPack1 =
  Pcode :: int
  Oid :: int
  Okind :: int
  Onode :: int
  Time :: int

record 'f TagCountPack = CounterPack1 +
  Category :: string
  Tags :: "(string \<times> 'f tagval) list"
  Data :: "(string \<times> 'f tagval) list"

record TaskLLM =
  currentCount :: int
  currentError :: int
  currentHourStart :: int
  next15minTime :: int

definition NewTaskLLM :: TaskLLM where
  "NewTaskLLM = \<lparr>currentCount = 0, currentError = 0, currentHourStart = 0, next15minTime = 0\<rparr>"

definition putBaseAndCommonTags ::
  "int \<Rightarrow> CounterPack1 \<Rightarrow> string \<Rightarrow> LLMKey \<Rightarrow> (string \<times> 'f tagval) list \<Rightarrow> (string \<times> 'f tagval) list \<Rightarrow> 'f TagCountPack" where
  "putBaseAndCommonTags llmPid p category k extraTags values =
     \<lparr>Pcode = Pcode p, Oid = Oid p, Okind = Okind p, Onode = Onode p, Time = Time p, Category = category,
      Tags = [(''pid'', VLong llmPid), (''provider'', VString (k_Provider k)), (''model'', VString (k_Model k)),
              (''operation_type'', VString (k_OperationType k)), (''url'', VString (k_URL k))] @ extraTags,
      Data = values\<rparr>"

definition sendActiveStats :: "int \<Rightarrow> CounterPack1 \<Rightarrow> LLMActiveEntry list \<Rightarrow> 'f TagCountPack list" where
  "sendActiveStats pid p active =
     map (\<lambda>e. putBaseAndCommonTags pid p ''llm_active_stat'' (ac_key e) [] [(''count'', VLong (Count e))])
       (filter (\<lambda>e. Count e \<noteq> 0) active)"

text \<open>The entries of a statistic, in the order of its table.\<close>

definition entries :: "'m lmap \<Rightarrow> ('m, 'e) stat \<Rightarrow> 'e list" where
  "entries lm s = map (\<lambda>(_, a). cells s a) (lm_entries lm (tab s))"

definition sendApiStatusStats :: "int \<Rightarrow> 'm lmap \<Rightarrow> CounterPack1 \<Rightarrow> ('m, 'f) LLMBucket \<Rightarrow> 'f TagCountPack list" where
  "sendApiStatusStats pid lm p b =
     map (\<lambda>e. putBaseAndCommonTags pid p ''llm_api_status'' (as_key e) []
                [(''4xx_total_count'', VLong (FourXX e)), (''5xx_total_count'', VLong (FiveXX e))])
       (filter (\<lambda>e. \<not> (FourXX e = 0 \<and> FiveXX e = 0)) (entries lm (b_ApiStatus b)))"

definition sendErrorStats :: "int \<Rightarrow> 'm lmap \<Rightarrow> CounterPack1 \<Rightarrow> ('m, 'f) LLMBucket \<Rightarrow> 'f TagCountPack list" where
  "sendErrorStats pid lm p b =
     map (\<lambda>e. putBaseAndCommonTags pid p ''llm_error_stat'' (er_key e) []
                [(''api_error_count'', VLong (ApiError e)), (''program_error_count'', VLong (ProgramError e)),
                 (''error_count'', VLong (i64 (ApiError e + ProgramError e))),
                 (''last_api_error_count'', VLong (LastApiError e))])
       (filter (\<lambda>e. \<not> (i64 (ApiError e + ProgramError e) = 0 \<and> LastApiError e = 0)) (entries lm (b_Error b)))"

definition sendFeatureStats ::
  "int \<Rightarrow> 'm lmap \<Rightarrow> ((string \<times> int) list \<Rightarrow> (string \<times> int) list) \<Rightarrow> CounterPack1 \<Rightarrow> ('m, 'f) LLMBucket \<Rightarrow> 'f TagCountPack list" where
  "sendFeatureStats pid lm ord p b =
     map (\<lambda>e. putBaseAndCommonTags pid p ''llm_feature_stat'' (fe_key e) [(''!rectype'', VLong 2)]
                [(''call_count'', VLong (fe_CallCount e)), (''error_count'', VLong (fe_ErrorCount e)),
                 (''features'', VStrings (map fst (ord (Features e)))),
                 (''features_count'', VLongs (map snd (ord (Features e))))])
       (filter (\<lambda>e. fe_CallCount e \<noteq> 0) (entries lm (b_Feature b)))"

definition sendPerfStats :: "int \<Rightarrow> 'm lmap \<Rightarrow> CounterPack1 \<Rightarrow> ('m, 'f) LLMBucket \<Rightarrow> 'f TagCountPack list" where
  "sendPerfStats pid lm p b =
     map (\<lambda>e. putBaseAndCommonTags pid p ''llm_perf_stat'' (pe_key e) []
                [(''call_count'', VLong (pe_CallCount e)), (''error_count'', VLong (pe_ErrorCount e)),
                 (''latency_sum'', VDouble (LatencySum e)), (''ttft_sum'', VDouble (TtftSum e)),
                 (''ttft_count'', VLong (TtftCount e)), (''tpot_sum'', VDouble (TpotSum e)),
                 (''tpot_count'', VLong (TpotCount e))])
       (filter (\<lambda>e. pe_CallCount e \<noteq> 0) (entries lm (b_Perf b)))"

text \<open>The cost listed for a token name is the cost stored under the same name, or 0.\<close>

definition tokenCostList :: "(string \<times> int) list \<Rightarrow> (string \<times> 'f::zero) list \<Rightarrow> 'f list" where
  "tokenCostList counts costMap =
     map (\<lambda>(name, _). case map_of costMap name of None \<Rightarrow> 0 | Some c \<Rightarrow> c) counts"

definition sendTokenUsageStats ::
  "int \<Rightarrow> 'm lmap \<Rightarrow> ((string \<times> int) list \<Rightarrow> (string \<times> int) list) \<Rightarrow> CounterPack1 \<Rightarrow> ('m, 'f::zero) LLMBucket \<Rightarrow> 'f TagCountPack list" where
  "sendTokenUsageStats pid lm ord p b =
     map (\<lambda>e. putBaseAndCommonTags pid p ''llm_token_usage'' (te_key e) [(''!rectype'', VLong 2)]
                [(''call_count'', VLong (te_CallCount e)), (''error_count'', VLong (te_ErrorCount e)),
                 (''stream_count'', VLong (StreamCount e)),
                 (''tokens'', VStrings (map fst (ord (TokenCounts e)))),
                 (''tokens_cost'', VDoubles (tokenCostList (ord (TokenCounts e)) (TokenCosts e))),
                 (''tokens_count'', VLongs (map snd (ord (TokenCounts e)))),
                 (''total_tokens'', VLong (TotalTokens e)), (''total_cost'', VDouble (TotalCost e))])
       (filter (\<lambda>e. te_CallCount e \<noteq> 0) (entries lm (b_Token b)))"

definition sendMeter :: "CounterPack1 \<Rightarrow> int \<Rightarrow> int \<Rightarrow> int \<Rightarrow> 'f TagCountPack" where
  "sendMeter base units errorCount sendTime =
     \<lparr>Pcode = Pcode base, Oid = Oid base, Okind = Okind base, Onode = Onode base, Time = sendTime,
      Category = ''meter'',
      Tags = [(''mtype'', VString ''LLM_TRANSACTION''), (''munit'', VString ''LLM_TRANSACTION''),
              (''mperiod'', VString ''900''), (''msize'', VString ''3600'')],
      Data = [(''units'', VLong units), (''error_count'', VLong errorCount)]\<rparr>"

text \<open>The second half of \<open>process\<close>: the 15-minute meter.\<close>

definition quarter :: "int \<Rightarrow> int \<Rightarrow> int" where
  "quarter perMinute now =
     (let m15 = 15 * perMinute in i64 (goDiv now m15 * m15 + m15))"

definition hourOf :: "int \<Rightarrow> int \<Rightarrow> int" where
  "hourOf perHour now = goDiv now perHour * perHour"

definition process_meter ::
  "int \<Rightarrow> int \<Rightarrow> CounterPack1 \<Rightarrow> int \<Rightarrow> int \<Rightarrow> TaskLLM \<Rightarrow> TaskLLM \<times> 'f TagCountPack list" where
  "process_meter perMinute perHour p calls errors t0 =
     (let now = Time p;
          t1 = t0\<lparr>currentCount := i64 (currentCount t0 + calls), currentError := i64 (currentError t0 + errors)\<rparr>;
          t2 = (if currentHourStart t1 = 0 then t1\<lparr>currentHourStart := hourOf perHour now\<rparr> else t1);
          t3 = (if next15minTime t2 = 0 then t2\<lparr>next15minTime := quarter perMinute now\<rparr> else t2);
          (t4, out) =
            (if now \<ge> next15minTime t3
             then (t3\<lparr>next15minTime := quarter perMinute now\<rparr>,
                   [sendMeter p (currentCount t3) (currentError t3) (next15minTime t3)])
             else (t3, []));
          hourStart = hourOf perHour now;
          t5 = (if hourStart > currentHourStart t4
                then t4\<lparr>currentCount := 0, currentError := 0, currentHourStart := hourStart\<rparr>
                else t4)
      in (t5, out))"

definition process ::
  "int \<Rightarrow> 'm lmap \<Rightarrow> ((string \<times> int) list \<Rightarrow> (string \<times> int) list) \<Rightarrow> int \<Rightarrow> int \<Rightarrow> CounterPack1 \<Rightarrow>
   TaskLLM \<times> ('m, 'f::zero) MeterLLM \<Rightarrow> (TaskLLM \<times> ('m, 'f) MeterLLM) \<times> 'f TagCountPack list" where
  "process pid lm ord perMinute perHour p = (\<lambda>(t, m).
     let (b, m1) = GetBucketReset lm m;
         active = ActiveSnapshot lm m1;
         (t1, meterOut) = process_meter perMinute perHour p (b_MeterCount b) (b_MeterError b) t
     in ((t1, m1),
         sendActiveStats pid p active @ sendApiStatusStats pid lm p b @ sendErrorStats pid lm p b @
         sendFeatureStats pid lm ord p b @ sendPerfStats pid lm p b @ sendTokenUsageStats pid lm ord p b @
         meterOut))"

subsection \<open>The 15-minute meter\<close>

text \<open>
  After the first call the next quarter lies behind the current hour and not behind its end, so a call in a
  later hour always finds the quarter elapsed.
\<close>

definition task_ok :: "int \<Rightarrow> TaskLLM \<Rightarrow> bool" where
  "task_ok perHour t \<longleftrightarrow> 0 < next15minTime t \<and> 0 < currentHourStart t \<and>
     next15minTime t \<le> currentHourStart t + perHour"

lemma hourOf_le: "0 \<le> now \<Longrightarrow> 0 < h \<Longrightarrow> hourOf h now \<le> now \<and> now < hourOf h now + h"
proof -
  assume a: "0 \<le> now" "0 < h"
  then have "hourOf h now = now div h * h" by (simp add: hourOf_def goDiv_def)
  with a div_mult_mod_eq [of now h] pos_mod_bound [of h now] pos_mod_sign [of h now] show ?thesis
    by linarith
qed

lemma quarter_le_hour:
  assumes "0 \<le> now" and "0 < m" and "now < 2 ^ 62" and "m < 2 ^ 40"
  shows "now < quarter m now" and "quarter m now \<le> hourOf (60 * m) now + 60 * m"
proof -
  let ?q = "now div (15 * m)"
  have q: "?q * (15 * m) \<le> now" "now < ?q * (15 * m) + 15 * m"
    using hourOf_le [of now "15 * m"] assms by (auto simp: hourOf_def goDiv_def)
  have w: "quarter m now = ?q * (15 * m) + 15 * m"
    using q assms by (simp add: quarter_def Let_def goDiv_def)
  from w q show "now < quarter m now" by simp
  have "?q div 4 = now div (60 * m)"
    using assms by (simp add: div_mult2_eq [symmetric] zdiv_zmult2_eq [symmetric] mult.commute)
  moreover have "q div 4 = d \<Longrightarrow> q < (d + 1) * 4" for q d :: int by presburger
  ultimately have "?q < (now div (60 * m) + 1) * 4" by blast
  then have "?q + 1 \<le> (now div (60 * m) + 1) * 4" by simp
  then have "(?q + 1) * (15 * m) \<le> ((now div (60 * m) + 1) * 4) * (15 * m)"
    using assms by (intro mult_right_mono) auto
  then show "quarter m now \<le> hourOf (60 * m) now + 60 * m"
    using assms(1) by (simp add: w hourOf_def goDiv_def algebra_simps)
qed


lemma process_meter_ok:
  assumes "0 < m" and "m < 2 ^ 40" and "60 * m \<le> Time p" and "Time p < 2 ^ 62"
    and "t = NewTaskLLM \<or> task_ok (60 * m) t"
  shows "task_ok (60 * m) (fst (process_meter m (60 * m) p calls errors t))"
proof -
  let ?n = "Time p"
  have n: "0 \<le> ?n" using assms(1,3) by linarith
  note q = quarter_le_hour [OF n assms(1,4,2)]
  have "60 * m \<le> hourOf (60 * m) ?n"
    using assms(1,3) n by (simp add: hourOf_def goDiv_def)
      (metis add_pos_pos div_pos_pos_trivial int_one_le_iff_zero_less less_le_not_le linorder_not_less
        mult.right_neutral mult_le_cancel_left_pos pos_imp_zdiv_pos_iff zero_less_mult_iff zero_less_numeral)
  then have h: "0 < hourOf (60 * m) ?n" using assms(1) by linarith
  show ?thesis
    using assms(5) h q n
    by (auto simp: process_meter_def Let_def task_ok_def NewTaskLLM_def split: if_splits)
qed

text \<open>No call is lost at the turn of an hour. When \<open>process\<close> first runs in a new hour, at whatever
  time, it sends one meter pack with everything counted so far, stamped with the quarter that had been due,
  and starts the new hour from zero.\<close>
theorem hour_rollover:
  assumes "0 < m" and "task_ok (60 * m) t" and "0 \<le> Time p"
    and "currentHourStart t < hourOf (60 * m) (Time p)" and "currentHourStart t = hourOf (60 * m) h"
  shows "\<exists>t'. process_meter m (60 * m) p calls errors t =
      (t', [sendMeter p (i64 (currentCount t + calls)) (i64 (currentError t + errors)) (next15minTime t)]) \<and>
      currentCount t' = 0 \<and> currentError t' = 0 \<and> currentHourStart t' = hourOf (60 * m) (Time p)"
proof -
  let ?n = "Time p"
  have mono: "a * (60 * m) < b * (60 * m) \<Longrightarrow> a * (60 * m) + 60 * m \<le> b * (60 * m)" for a b :: int
  proof -
    assume "a * (60 * m) < b * (60 * m)"
    then have "a + 1 \<le> b" using assms(1) by (simp add: mult_less_cancel_right)
    then have "(a + 1) * (60 * m) \<le> b * (60 * m)" using assms(1) by (intro mult_right_mono) auto
    then show ?thesis by (simp add: algebra_simps)
  qed
  have "currentHourStart t + 60 * m \<le> hourOf (60 * m) ?n"
    using assms(4) unfolding assms(5) hourOf_def by (rule mono)
  also have "hourOf (60 * m) ?n \<le> ?n" using hourOf_le [of ?n "60 * m"] assms(1,3) by simp
  finally have "next15minTime t \<le> ?n" using assms(2) by (simp add: task_ok_def)
  then show ?thesis
    using assms(2,4) by (simp add: process_meter_def Let_def task_ok_def)
qed

definition tick :: "int \<Rightarrow> CounterPack1" where
  "tick t = \<lparr>Pcode = 1, Oid = 2, Okind = 0, Onode = 0, Time = t\<rparr>"

theorem hour_rollover_witness:
  "\<exists>t'. process_meter 60000 (60 * 60000) (tick 7200500) 3 1
          \<lparr>currentCount = 40, currentError = 2, currentHourStart = 3600000, next15minTime = 7200000\<rparr> =
      (t', [sendMeter (tick 7200500) (i64 (40 + 3)) (i64 (2 + 1)) 7200000]) \<and>
      currentCount t' = 0 \<and> currentError t' = 0 \<and> currentHourStart t' = hourOf (60 * 60000) 7200500"
  using hour_rollover [of 60000
      "\<lparr>currentCount = 40, currentError = 2, currentHourStart = 3600000, next15minTime = 7200000\<rparr>"
      "tick 7200500" 3600000 3 1]
  by (simp add: task_ok_def tick_def hourOf_def goDiv_def)

text \<open>The meter pack of a quarter inside an hour carries the calls counted since the hour began, and the
  count goes on: after a run of calls of \<open>process\<close> that all fall into the current hour, the task holds the
  count it started with plus everything the meter delivered.\<close>
theorem hour_running_total:
  assumes "0 < m" and "currentHourStart t = hourOf (60 * m) h" and "0 < currentHourStart t"
    and "\<forall>(p, calls, errors)\<in>set ticks. hourOf (60 * m) (Time p) = currentHourStart t"
  shows "currentCount (fold (\<lambda>(p, calls, errors) t.
           fst (process_meter m (60 * m) p calls errors t :: TaskLLM \<times> real TagCountPack list)) ticks t) =
         (if ticks = [] then currentCount t else i64 (currentCount t + (\<Sum>(p, calls, errors)\<leftarrow>ticks. calls)))"
  using assms(2-4)
proof (induction ticks arbitrary: t)
  case (Cons x ticks)
  obtain p calls errors where x: "x = (p, calls, errors)" by (cases x)
  let ?t = "fst (process_meter m (60 * m) p calls errors t :: TaskLLM \<times> real TagCountPack list)"
  have t: "currentCount ?t = i64 (currentCount t + calls)" "currentHourStart ?t = currentHourStart t"
    using Cons.prems by (auto simp: x process_meter_def Let_def split: if_splits)
  with Cons.IH [of ?t] Cons.prems show ?case
    by (cases "ticks = []") (simp_all add: x add.assoc)
qed simp

theorem hour_running_total_witness:
  "currentCount (fold (\<lambda>(p, calls, errors) t.
        fst (process_meter 60000 (60 * 60000) p calls errors t :: TaskLLM \<times> real TagCountPack list))
      [(tick 3600500, 3, 1), (tick 4600500, 4, 0)]
      \<lparr>currentCount = 40, currentError = 2, currentHourStart = 3600000, next15minTime = 4500000\<rparr>) =
   (if [(tick 3600500, 3, 1), (tick 4600500, 4, 0)] = ([] :: (CounterPack1 \<times> int \<times> int) list)
    then currentCount \<lparr>currentCount = 40, currentError = 2, currentHourStart = 3600000, next15minTime = 4500000\<rparr>
    else i64 (currentCount \<lparr>currentCount = 40, currentError = 2, currentHourStart = 3600000, next15minTime = 4500000\<rparr> +
      (\<Sum>(p, calls, errors)\<leftarrow>[(tick 3600500, 3, 1), (tick 4600500, 4, 0 :: int)]. calls)))"
  by (rule hour_running_total [where h = 3600000]) (simp_all add: tick_def hourOf_def goDiv_def)

end
