(* ===== verification/Llm_Metering.thy ===== *)
theory Llm_Metering
  imports Llm_State Task_Llm
begin

text \<open>
  The LLM call and the meter together: what publications leave in the statistics that the task of
  \<^verbatim>\<open>agent/agent/counter/TaskLLM.go\<close> sends.
\<close>

subsection \<open>Active calls\<close>

lemma activeStat_others [simp]:
  "activeStat (AddPerf lm g c m) = activeStat m" "activeStat (AddFeature lm k ns b m) = activeStat m"
  "activeStat (AddApiStatus lm k i m) = activeStat m" "activeStat (AddApiError lm k m) = activeStat m"
  "activeStat (AddProgramError lm k m) = activeStat m" "activeStat (AddTokenUsage lm tc m) = activeStat m"
  "activeStat (IncrementMeter m) = activeStat m" "activeStat (IncrementMeterError m) = activeStat m"
  by (simp_all add: AddPerf_def AddFeature_def AddApiStatus_def AddApiError_def
      AddProgramError_def errorEntry_def AddTokenUsage_def IncrementMeter_def IncrementMeterError_def)

lemma OnEnd_activeStat:
  "activeStat m = activeStat m' \<Longrightarrow> activeStat (OnEnd lm k m) = activeStat (OnEnd lm k m')"
  by (simp add: OnEnd_def Let_def split: option.split)

lemma publishMeters_active:
  "activeStat (publishMeters env s m) =
   activeStat (OnEnd (lmapOps env) (keyOf (pack s)) (OnStart (lmapOps env) (keyOf (pack s)) m))"
  unfolding publishMeters_def Let_def
  by (rule OnEnd_activeStat) (simp add: publishEvents_def Let_def split: option.split)

lemma OnStart_ok: "lmap_laws lm \<Longrightarrow> stat_ok lm (activeStat m) \<Longrightarrow> stat_ok lm (activeStat (OnStart lm k m))"
  by (simp add: OnStart_touch touch_ok)

lemma stat_ok_sub:
  assumes "stat_ok lm s" and "\<And>k a. lm_get lm (tab s') k = Some a \<Longrightarrow> lm_get lm (tab s) k = Some a"
    and "fresh s' = fresh s"
  shows "stat_ok lm s'"
  unfolding stat_ok_def assms(3)
proof (intro conjI allI impI)
  fix k a assume "lm_get lm (tab s') k = Some a"
  from assms(2) [OF this] assms(1) show "a < fresh s" unfolding stat_ok_def by blast
next
  fix k k' a assume "lm_get lm (tab s') k = Some a" "lm_get lm (tab s') k' = Some a"
  with assms(2) have "lm_get lm (tab s) k = Some a" "lm_get lm (tab s) k' = Some a" by auto
  with assms(1) show "k = k'" unfolding stat_ok_def by blast
qed

lemma OnEnd_ok:
  assumes "lmap_laws lm" and "stat_ok lm (activeStat m)"
  shows "stat_ok lm (activeStat (OnEnd lm k m))"
proof (rule stat_ok_sub [OF assms(2)])
  show "lm_get lm (tab (activeStat (OnEnd lm k m))) k' = Some a \<Longrightarrow> lm_get lm (tab (activeStat m)) k' = Some a" for k' a
    using assms(1) by (auto simp: OnEnd_def Let_def lmap_laws_def split: option.splits if_splits)
  show "fresh (activeStat (OnEnd lm k m)) = fresh (activeStat m)"
    by (simp add: OnEnd_def Let_def split: option.split)
qed

lemma publishMeters_active_look:
  assumes "lmap_laws (lmapOps env)" and "active_ok (lmapOps env) m"
  shows "look (lmapOps env) (activeStat (publishMeters env s m)) = look (lmapOps env) (activeStat m)"
    and "active_ok (lmapOps env) (publishMeters env s m)"
proof -
  let ?lm = "lmapOps env"
  show l: "look ?lm (activeStat (publishMeters env s m)) = look ?lm (activeStat m)"
    using OnStart_OnEnd_look [OF assms] by (simp add: publishMeters_active)
  have "stat_ok ?lm (activeStat (publishMeters env s m))"
    using assms by (simp add: publishMeters_active OnEnd_ok OnStart_ok active_ok_def)
  with l assms(2) show "active_ok ?lm (publishMeters env s m)" by (simp add: active_ok_def)
qed

lemma no_active_entries:
  assumes "lmap_laws lm" and "look lm (activeStat m) = (\<lambda>_. None)"
  shows "ActiveSnapshot lm m = []"
proof -
  have "lm_get lm (tab (activeStat m)) k = None" for k
    using assms(2) by (metis look_def option.map_disc_iff)
  with assms(1) have "set (lm_entries lm (tab (activeStat m))) = {}" by (simp add: lmap_laws_def)
  then show ?thesis by (simp add: ActiveSnapshot_def)
qed

text \<open>The active statistic is always empty when it is read: a publication opens and closes its call at
  once, so after any number of publications the snapshot the task takes holds no call and no pack of
  category \<open>llm_active_stat\<close> is sent.\<close>
theorem active_never_reported:
  assumes "lmap_laws (lmapOps env)"
  shows "sendActiveStats pid p (ActiveSnapshot (lmapOps env) (fold (publishMeters env) ss (newMeterLLM (lmapOps env)))) = []"
proof -
  let ?lm = "lmapOps env"
  have "active_ok ?lm (fold (publishMeters env) ss (newMeterLLM ?lm)) \<and>
        look ?lm (activeStat (fold (publishMeters env) ss (newMeterLLM ?lm))) = (\<lambda>_. None)"
  proof (induction ss rule: rev_induct)
    case Nil
    show ?case using assms by (simp add: active_ok_def newMeterLLM_def stat_facts fun_eq_iff)
  next
    case (snoc s ss)
    with publishMeters_active_look [OF assms] show ?case by simp
  qed
  then have "ActiveSnapshot ?lm (fold (publishMeters env) ss (newMeterLLM ?lm)) = []"
    by (intro no_active_entries [OF assms]) blast
  then show ?thesis by (simp add: sendActiveStats_def)
qed

theorem active_never_reported_witness:
  "sendActiveStats 1 (tick 5) (ActiveSnapshot (lmapOps env1) (fold (publishMeters env1) [state1, state1] (newMeterLLM (lmapOps env1)))) = []"
  by (rule active_never_reported) (simp add: env1_def alist_lmap_laws)

subsection \<open>Token usage\<close>

definition tokenNames :: "string set" where
  "tokenNames = set txSummaryTokenFields"

definition costNames :: "string set" where
  "costNames = {''cost'', ''input_cost'', ''output_cost'', ''cached_cost'', ''cache_creation_cost''}"

lemma names_disjoint: "tokenNames \<inter> costNames = {}"
  by (simp add: tokenNames_def costNames_def txSummaryTokenFields_def)

lemma nzOpt_names: "fst ` set (nzOpt n v) \<subseteq> {n}"
  by (auto simp: nzOpt_def nz_def split: option.splits)

lemma nonZeroTokenCounts_names: "fst ` set (nonZeroTokenCounts p) \<subseteq> tokenNames"
  unfolding nonZeroTokenCounts_def set_append image_Un
  by (intro Un_least; rule subset_trans [OF nzOpt_names]; simp add: tokenNames_def txSummaryTokenFields_def)

lemma nonZeroCosts_names: "fst ` set (nonZeroCosts p) \<subseteq> costNames"
  unfolding nonZeroCosts_def set_append image_Un
  by (intro Un_least; rule subset_trans [OF nzOpt_names]; simp add: costNames_def)

definition names_ok :: "('f::zero) LLMTokenEntry \<Rightarrow> bool" where
  "names_ok e \<longleftrightarrow> fst ` set (TokenCounts e) \<subseteq> tokenNames \<and> fst ` set (TokenCosts e) \<subseteq> costNames"

lemma addAt_names: "fst ` set (addAt n f m) = insert n (fst ` set m)"
  by (simp add: addAt_def dom_update)

lemma fold_counts_names:
  assumes "fst ` set ts \<subseteq> tokenNames" and "names_ok e"
  shows "names_ok (fold (\<lambda>(name, n) e. e\<lparr>TokenCounts := addAt name (\<lambda>x. i64 (x + n)) (TokenCounts e),
                                   TotalTokens := i64 (TotalTokens e + n)\<rparr>) ts e)"
  by (rule fold_invariant [where Q = "\<lambda>x. fst x \<in> tokenNames"])
    (use assms in \<open>auto simp: names_ok_def addAt_names split: prod.splits\<close>)

lemma fold_costs_names:
  assumes "fst ` set cs \<subseteq> costNames" and "names_ok (e :: ('f::{zero,plus}) LLMTokenEntry)"
  shows "names_ok (fold (\<lambda>(name, n) e. e\<lparr>TokenCosts := addAt name (\<lambda>x. x + n) (TokenCosts e),
                                   TotalCost := TotalCost e + n\<rparr>) cs e)"
  by (rule fold_invariant [where Q = "\<lambda>x. fst x \<in> costNames"])
    (use assms in \<open>auto simp: names_ok_def addAt_names split: prod.splits\<close>)

lemma bumpToken_names:
  assumes "fst ` set (tokens c) \<subseteq> tokenNames" and "fst ` set (costs c) \<subseteq> costNames" and "names_ok e"
  shows "names_ok (bumpToken c e)"
  unfolding bumpToken_def Let_def
  using assms by (intro fold_costs_names fold_counts_names) (auto simp: names_ok_def)


definition token_names_ok :: "'m lmap \<Rightarrow> ('m, 'f::zero) MeterLLM \<Rightarrow> bool" where
  "token_names_ok lm m \<longleftrightarrow>
     stat_ok lm (tokenStat m) \<and> (\<forall>k e. look lm (tokenStat m) k = Some e \<longrightarrow> names_ok e)"

lemma tokenStat_others [simp]:
  "tokenStat (AddPerf lm g c m) = tokenStat m" "tokenStat (AddFeature lm k ns b m) = tokenStat m"
  "tokenStat (AddApiStatus lm k i m) = tokenStat m" "tokenStat (AddApiError lm k m) = tokenStat m"
  "tokenStat (AddProgramError lm k m) = tokenStat m" "tokenStat (OnStart lm k m) = tokenStat m"
  "tokenStat (OnEnd lm k m) = tokenStat m"
  "tokenStat (IncrementMeter m) = tokenStat m" "tokenStat (IncrementMeterError m) = tokenStat m"
  by (simp_all add: AddPerf_def AddFeature_def AddApiStatus_def AddApiError_def OnStart_def OnEnd_def
      AddProgramError_def errorEntry_def IncrementMeter_def IncrementMeterError_def Let_def split: option.split)

lemma tokenStat_AddTokenUsage_cong:
  "tokenStat m = tokenStat m' \<Longrightarrow> tokenStat (AddTokenUsage lm c m) = tokenStat (AddTokenUsage lm c m')"
  by (simp add: AddTokenUsage_def)

definition usageCall :: "('m, 'f::zero) llm_env \<Rightarrow> 'f LLMState \<Rightarrow> 'f token_call" where
  "usageCall env s =
     \<lparr>tc_key = keyOf (pack s), tokens = ordTokens env (nonZeroTokenCounts (pack s)),
      costs = ordCosts env (nonZeroCosts (pack s)), tc_isError = (\<not> Success (pack s)), isStream = streamRequest s\<rparr>"

lemma publishMeters_tokenStat:
  "tokenStat (publishMeters env s m) =
     (if nonZeroTokenCounts (pack s) \<noteq> [] \<or> nonZeroCosts (pack s) \<noteq> []
      then tokenStat (AddTokenUsage (lmapOps env) (usageCall env s) m) else tokenStat m)"
proof -
  have "tokenStat (publishEvents env s (OnStart (lmapOps env) k m)) = tokenStat m" for k
    by (simp add: publishEvents_def Let_def split: option.split)
  then show ?thesis
    by (simp add: publishMeters_def usageCall_def AddTokenUsage_def Let_def)
qed

lemma publishMeters_names:
  assumes "lmap_laws (lmapOps env)" and "\<And>xs. set (ordTokens env xs) = set xs" and "\<And>xs. set (ordCosts env xs) = set xs"
    and "token_names_ok (lmapOps env) m"
  shows "token_names_ok (lmapOps env) (publishMeters env s m)"
proof -
  let ?c = "usageCall env s"
  have c: "fst ` set (tokens ?c) \<subseteq> tokenNames" "fst ` set (costs ?c) \<subseteq> costNames"
    using nonZeroTokenCounts_names nonZeroCosts_names by (simp_all add: usageCall_def assms(2,3))
  have ok: "stat_ok (lmapOps env) (tokenStat m)"
    and names: "look (lmapOps env) (tokenStat m) k = Some e \<Longrightarrow> names_ok e" for k e
    using assms(4) by (auto simp: token_names_ok_def)
  have new: "names_ok (newToken k)" for k by (simp add: newToken_def names_ok_def)
  have "token_names_ok (lmapOps env) (AddTokenUsage (lmapOps env) ?c m)"
    using ok names new assms(1)
    by (auto simp: token_names_ok_def AddTokenUsage_def touch_ok look_touch
        intro!: bumpToken_names [OF c] split: option.splits if_splits)
  with assms(4) show ?thesis by (simp add: token_names_ok_def publishMeters_tokenStat)
qed

lemma tokenCostList_zero:
  assumes "names_ok e" and "\<And>xs. set (ord xs) = set xs"
  shows "\<forall>c\<in>set (tokenCostList (ord (TokenCounts e)) (TokenCosts e)). c = 0"
proof -
  have "map_of (TokenCosts e) name = None" if "(name, n) \<in> set (TokenCounts e)" for name n
  proof -
    have "name \<in> tokenNames" using that assms(1) by (force simp: names_ok_def)
    then have "name \<notin> fst ` set (TokenCosts e)" using assms(1) names_disjoint by (auto simp: names_ok_def)
    then show ?thesis by (simp add: map_of_eq_None_iff)
  qed
  then show ?thesis by (auto simp: tokenCostList_def assms(2))
qed

text \<open>The costs listed per token kind are always zero. The usage entry keeps token counts under token
  names and costs under cost names, and these never coincide, so the list of costs that is sent beside the
  list of tokens holds only zeros, whatever costs the calls reported.\<close>
theorem tokens_cost_always_zero:
  assumes "lmap_laws (lmapOps env)" and "\<And>xs. set (ordTokens env xs) = set xs" and "\<And>xs. set (ordCosts env xs) = set xs"
    and "look (lmapOps env) (tokenStat (fold (publishMeters env) ss (newMeterLLM (lmapOps env)))) k = Some e"
  shows "\<forall>c\<in>set (tokenCostList (ordTokens env (TokenCounts e)) (TokenCosts e)). c = 0"
proof -
  have "token_names_ok (lmapOps env) (fold (publishMeters env) ss (newMeterLLM (lmapOps env)))"
  proof (induction ss rule: rev_induct)
    case Nil
    show ?case using assms(1) by (simp add: token_names_ok_def newMeterLLM_def stat_facts)
  next
    case (snoc s ss)
    then show ?case by (simp add: publishMeters_names assms(1-3))
  qed
  with assms(4) have "names_ok e" by (auto simp: token_names_ok_def)
  then show ?thesis by (rule tokenCostList_zero) (rule assms(2))
qed

definition priced1 :: "real LLMState" where
  "priced1 = SetCost \<lparr>c_Total = 3, c_Input = 1, c_Output = 2, c_Cached = 0, c_CacheCreation = 0\<rparr> (SetTokens tokens1 state1)"

lemma priced1_usage:
  "\<exists>e. look alist_lmap (tokenStat (fold (publishMeters env1) [priced1] (newMeterLLM alist_lmap))) (keyOf (pack priced1)) = Some e"
proof -
  have "nonZeroTokenCounts (pack priced1) \<noteq> []"
    using SetTokens_fields(1) [OF state1_fields(1), of tokens1] state1_fields(1)
    by (simp add: priced1_def SetCost_def Let_def SetTokens_def tokens1_def nonZeroTokenCounts_def nzOpt_def nz_def
        Step_SetTokens_fields)
  then show ?thesis
    by (simp add: publishMeters_tokenStat AddTokenUsage_def look_touch alist_lmap_laws newMeterLLM_def stat_facts
        usageCall_def env1_def)
qed

theorem tokens_cost_always_zero_witness:
  "\<exists>e. look alist_lmap (tokenStat (fold (publishMeters env1) [priced1] (newMeterLLM alist_lmap))) (keyOf (pack priced1)) = Some e \<and>
       (\<forall>c\<in>set (tokenCostList (ordTokens env1 (TokenCounts e)) (TokenCosts e)). c = 0)"
proof -
  from priced1_usage obtain e where
    e: "look alist_lmap (tokenStat (fold (publishMeters env1) [priced1] (newMeterLLM alist_lmap))) (keyOf (pack priced1)) = Some e" ..
  have "\<forall>c\<in>set (tokenCostList (ordTokens env1 (TokenCounts e)) (TokenCosts e)). c = 0"
    using tokens_cost_always_zero [of env1 "[priced1]" "keyOf (pack priced1)" e] e
    by (simp add: env1_def alist_lmap_laws)
  with e show ?thesis by blast
qed

subsection \<open>The total of the tokens\<close>

lemma fold_costs_total: "TotalTokens (fold (\<lambda>(name, n) e. e\<lparr>TokenCosts := addAt name (\<lambda>x. x + n) (TokenCosts e),
    TotalCost := TotalCost e + n\<rparr>) cs e) = TotalTokens (e :: ('f::{zero,plus}) LLMTokenEntry)"
  by (induction cs arbitrary: e) auto

lemma fold_counts_total:
  "i64 (TotalTokens (fold (\<lambda>(name, n) e. e\<lparr>TokenCounts := addAt name (\<lambda>x. i64 (x + n)) (TokenCounts e),
      TotalTokens := i64 (TotalTokens e + n)\<rparr>) ts e)) = i64 (TotalTokens e + sum_list (map snd ts))"
  by (induction ts arbitrary: e) (auto simp: add.assoc)

lemma bumpToken_total: "i64 (TotalTokens (bumpToken c e)) = i64 (TotalTokens e + sum_list (map snd (tokens c)))"
proof -
  have "TotalTokens (if isStream c then f e else e) = TotalTokens e" if "TotalTokens (f e) = TotalTokens e" for f e
    using that by simp
  then show ?thesis
    by (simp add: bumpToken_def Let_def fold_costs_total fold_counts_total)
qed

text \<open>The token fields of a pack a chat completion reports: input, output and their total.\<close>

definition reports :: "'f LlmStepStatus \<Rightarrow> int \<Rightarrow> int \<Rightarrow> bool" where
  "reports p a b \<longleftrightarrow>
     nonZeroTokenCounts p = [(''input_tokens'', a), (''output_tokens'', b), (''total_tokens_count'', a + b)]"

text \<open>The total of a usage entry counts tokens twice. For a call that reports input tokens, output tokens
  and their total, the total sent for its key is twice the total the call reported, because the reported
  total is summed together with its parts.\<close>
theorem total_tokens_counted_twice:
  assumes "lmap_laws (lmapOps env)" and "\<And>xs. mset (ordTokens env xs) = mset xs"
    and "stat_ok (lmapOps env) (tokenStat m)" and "look (lmapOps env) (tokenStat m) (keyOf (pack s)) = None"
    and "reports (pack s) a b"
  shows "\<exists>e. look (lmapOps env) (tokenStat (publishMeters env s m)) (keyOf (pack s)) = Some e \<and>
             i64 (TotalTokens e) = i64 (2 * (a + b))"
proof -
  let ?c = "usageCall env s"
  have "sum_list (map snd (tokens ?c)) = sum_mset (image_mset snd (mset (tokens ?c)))"
    by (simp flip: sum_mset_sum_list mset_map)
  also have "\<dots> = 2 * (a + b)" using assms(2,5) by (simp add: usageCall_def reports_def)
  finally have "i64 (TotalTokens (bumpToken ?c (newToken (keyOf (pack s))))) = i64 (2 * (a + b))"
    by (simp add: bumpToken_total newToken_def)
  moreover have "look (lmapOps env) (tokenStat (publishMeters env s m)) (keyOf (pack s)) =
      Some (bumpToken ?c (newToken (keyOf (pack s))))"
    using assms(1,3-5)
    by (simp add: publishMeters_tokenStat reports_def AddTokenUsage_def look_touch usageCall_def)
  ultimately show ?thesis by simp
qed

definition reporting1 :: "real LLMState" where
  "reporting1 = state1\<lparr>pack := NewLlmStepStatus\<lparr>InputTokens := Some 120, OutputTokens := Some 200, TotalTokensCount := Some 320\<rparr>\<rparr>"

theorem total_tokens_counted_twice_witness:
  "\<exists>e. look (lmapOps env1) (tokenStat (publishMeters env1 reporting1 (newMeterLLM (lmapOps env1)))) (keyOf (pack reporting1)) = Some e \<and>
       i64 (TotalTokens e) = i64 (2 * (120 + 200))"
proof (rule total_tokens_counted_twice)
  show "reports (pack reporting1) 120 200"
    by (simp add: reports_def reporting1_def nonZeroTokenCounts_def nzOpt_def nz_def NewLlmStepStatus_def)
qed (simp_all add: env1_def alist_lmap_laws newMeterLLM_def stat_facts)

end
