(* ===== verification/Llm_Chunk.thy ===== *)
theory Llm_Chunk
  imports Prelude
begin

unbundle bit_operations_syntax

text \<open>
  Splitting the content of an LLM log into chunks (\<^verbatim>\<open>agent/agent/llm/chunk.go\<close>). The outer loop need not
  end: it is a \<open>partial_function\<close> into \<open>option\<close>, where \<open>None\<close> is "does not return". The chunk size is a
  parameter of the loop and is fixed to \<open>MaxContentBytes\<close> by \<open>SplitContent\<close>.
\<close>

definition MaxContentBytes :: nat where
  "MaxContentBytes = 20000"

text \<open>A UTF-8 continuation byte, the test \<open>b[end]&0xC0 == 0x80\<close>.\<close>

definition cont :: "char \<Rightarrow> bool" where
  "cont c \<longleftrightarrow> (of_char c :: nat) AND 0xC0 = 0x80"

text \<open>The inner loop: move \<open>end\<close> back to a lead byte, but not below \<open>i\<close>.\<close>

fun backoff :: "string \<Rightarrow> nat \<Rightarrow> nat \<Rightarrow> nat" where
  "backoff b i 0 = 0"
| "backoff b i (Suc e) = (if Suc e > i \<and> cont (b ! Suc e) then backoff b i e else Suc e)"

definition chunkEnd :: "nat \<Rightarrow> string \<Rightarrow> nat \<Rightarrow> nat" where
  "chunkEnd n b i =
     (let e = (if i + n > length b then length b else i + n)
      in if e < length b then backoff b i e else e)"

partial_function (option) split_loop :: "nat \<Rightarrow> string \<Rightarrow> nat \<Rightarrow> string list option" where
  "split_loop n b i =
     (if i < length b
      then (let e = chunkEnd n b i
            in Option.bind (split_loop n b e) (\<lambda>cs. Some (take (e - i) (drop i b) # cs)))
      else Some [])"

definition SplitContent :: "string \<Rightarrow> string list option" where
  "SplitContent content =
     (if content = [] then Some []
      else if length content \<le> MaxContentBytes then Some [content]
      else split_loop MaxContentBytes content 0)"

subsection \<open>One chunk\<close>

lemma backoff_bounds: "i \<le> e \<Longrightarrow> i \<le> backoff b i e \<and> backoff b i e \<le> e"
  by (induction e) (auto simp: le_Suc_eq)

lemma backoff_lead: "i < backoff b i e \<Longrightarrow> \<not> cont (b ! backoff b i e)"
  by (induction e) (auto split: if_splits)

lemma backoff_stuck: "i \<le> e \<Longrightarrow> backoff b i e = i \<longleftrightarrow> (\<forall>k. i < k \<and> k \<le> e \<longrightarrow> cont (b ! k))"
proof (induction e)
  case (Suc e)
  show ?case
  proof (cases "i = Suc e")
    case False
    with Suc.prems have "i \<le> e" by simp
    then have "(\<forall>k. i < k \<and> k \<le> Suc e \<longrightarrow> cont (b ! k)) \<longleftrightarrow>
               cont (b ! Suc e) \<and> (\<forall>k. i < k \<and> k \<le> e \<longrightarrow> cont (b ! k))"
      by (auto simp: le_Suc_eq)
    with Suc.IH \<open>i \<le> e\<close> False show ?thesis by simp
  qed auto
qed auto

lemma chunkEnd_bounds:
  assumes "i < length b"
  shows "i \<le> chunkEnd n b i" and "chunkEnd n b i \<le> length b" and "chunkEnd n b i \<le> i + n"
  using assms backoff_bounds [of i "i + n" b]
  by (auto simp: chunkEnd_def Let_def)

lemma chunkEnd_lead:
  assumes "i < length b" and "i < chunkEnd n b i" and "chunkEnd n b i < length b"
  shows "\<not> cont (b ! chunkEnd n b i)"
  using assms backoff_lead [of i b "i + n"] by (auto simp: chunkEnd_def Let_def split: if_splits)

text \<open>The loop makes progress from \<open>i\<close> unless the whole next chunk is continuation bytes.\<close>

definition stuck :: "nat \<Rightarrow> string \<Rightarrow> nat \<Rightarrow> bool" where
  "stuck n b i \<longleftrightarrow> i + n < length b \<and> (\<forall>k. i < k \<and> k \<le> i + n \<longrightarrow> cont (b ! k))"

lemma chunkEnd_progress:
  assumes "0 < n" and "i < length b"
  shows "i < chunkEnd n b i \<longleftrightarrow> \<not> stuck n b i"
proof (cases "i + n < length b")
  case True
  with backoff_stuck [of i "i + n" b] backoff_bounds [of i "i + n" b] show ?thesis
    by (auto simp: chunkEnd_def stuck_def)
next
  case False
  with assms show ?thesis by (auto simp: chunkEnd_def stuck_def)
qed

subsection \<open>The loop\<close>

lemma split_loop_end: "length b \<le> i \<Longrightarrow> split_loop n b i = Some []"
  by (subst split_loop.simps) simp

lemma split_loop_step:
  "i < length b \<Longrightarrow>
   split_loop n b i = Option.bind (split_loop n b (chunkEnd n b i))
      (\<lambda>cs. Some (take (chunkEnd n b i - i) (drop i b) # cs))"
  by (subst split_loop.simps) (simp add: Let_def)

text \<open>What a list of chunks of \<open>b\<close> from position \<open>i\<close> on has to satisfy.\<close>

definition chunks_of :: "nat \<Rightarrow> string \<Rightarrow> string list \<Rightarrow> bool" where
  "chunks_of n b cs \<longleftrightarrow>
     concat cs = b \<and> (\<forall>c\<in>set cs. c \<noteq> [] \<and> length c \<le> n) \<and> (\<forall>c\<in>set (tl cs). \<not> cont (hd c))"

lemma split_loop_chunks:
  assumes "0 < n" and "\<And>j. \<not> stuck n b j"
  shows "i \<le> length b \<Longrightarrow>
    \<exists>cs. split_loop n b i = Some cs \<and> concat cs = drop i b \<and>
      (\<forall>c\<in>set cs. c \<noteq> [] \<and> length c \<le> n) \<and> (\<forall>c\<in>set (tl cs). \<not> cont (hd c)) \<and>
      (cs \<noteq> [] \<longrightarrow> hd (hd cs) = b ! i)"
proof (induction "length b - i" arbitrary: i rule: less_induct)
  case less
  show ?case
  proof (cases "i = length b")
    case True
    then show ?thesis by (simp add: split_loop_end)
  next
    case False
    with less.prems have i: "i < length b" by simp
    let ?e = "chunkEnd n b i"
    let ?c = "take (?e - i) (drop i b)"
    have e: "i < ?e" "?e \<le> length b" "?e \<le> i + n"
      using assms i chunkEnd_progress [of n i b] chunkEnd_bounds [OF i] by auto
    then have "length b - ?e < length b - i" using i by simp
    with less.hyps [of ?e] e obtain cs where
      cs: "split_loop n b ?e = Some cs" "concat cs = drop ?e b" "\<forall>c\<in>set cs. c \<noteq> [] \<and> length c \<le> n"
          "\<forall>c\<in>set (tl cs). \<not> cont (hd c)" "cs \<noteq> [] \<longrightarrow> hd (hd cs) = b ! ?e"
      by auto
    have "\<not> cont (hd c)" if "c \<in> set cs" for c
    proof -
      have "\<not> cont (hd (hd cs))"
        using that cs(2,5) chunkEnd_lead [OF i e(1)] cs(3) e(2) by (cases "?e = length b") auto
      with that cs(4) show ?thesis by (cases cs) auto
    qed
    moreover have "?c @ drop ?e b = drop i b"
      using e by (metis append_take_drop_id drop_drop le_add_diff_inverse2 less_imp_le)
    moreover have "hd ?c = b ! i" using e i by (simp add: hd_drop_conv_nth)
    ultimately show ?thesis
      using cs e i by (simp add: split_loop_step [OF i])
  qed
qed

lemma split_loop_diverges:
  assumes "split_loop n b i = Some cs"
  shows "\<not> stuck n b i"
proof -
  have "stuck n b i \<longrightarrow> False"
  proof (rule split_loop.raw_induct [OF _ assms, where P = "\<lambda>n b i _. stuck n b i \<longrightarrow> False"])
    fix f n b i cs
    assume IH: "\<And>n b i cs. f n b i = Some cs \<Longrightarrow> stuck n b i \<longrightarrow> False"
      and run: "(if i < length b
        then (let e = chunkEnd n b i
              in Option.bind (f n b e) (\<lambda>cs. Some (take (e - i) (drop i b) # cs)))
        else Some []) = Some cs"
    show "stuck n b i \<longrightarrow> False"
    proof
      assume st: "stuck n b i"
      then have i: "i < length b" by (simp add: stuck_def)
      from st backoff_stuck [of i "i + n" b] have "chunkEnd n b i = i"
        by (simp add: stuck_def chunkEnd_def)
      with run i obtain cs' where "f n b i = Some cs'"
        by (auto simp: Let_def bind_eq_Some_conv)
      with IH st show False by blast
    qed
  qed
  then show ?thesis by blast
qed

subsection \<open>Properties\<close>

text \<open>In UTF-8 a code point has at most three continuation bytes.\<close>

definition utf8_runs :: "string \<Rightarrow> bool" where
  "utf8_runs b \<longleftrightarrow> (\<forall>i. i + 3 < length b \<longrightarrow> \<not> (cont (b ! i) \<and> cont (b ! (i + 1)) \<and> cont (b ! (i + 2)) \<and> cont (b ! (i + 3))))"

lemma utf8_not_stuck:
  assumes "utf8_runs b"
  shows "\<not> stuck MaxContentBytes b i"
proof
  assume st: "stuck MaxContentBytes b i"
  then have "cont (b ! (i + 1))" "cont (b ! (i + 1 + 1))" "cont (b ! (i + 1 + 2))" "cont (b ! (i + 1 + 3))"
    and "i + 1 + 3 < length b"
    by (simp_all add: stuck_def MaxContentBytes_def)
  with assms [unfolded utf8_runs_def, rule_format, of "i + 1"] show False by blast
qed

lemma SplitContent_utf8_chunks:
  assumes "utf8_runs b"
  shows "\<exists>cs. SplitContent b = Some cs \<and> chunks_of MaxContentBytes b cs"
proof -
  have "0 < MaxContentBytes" by (simp add: MaxContentBytes_def)
  from split_loop_chunks [OF this utf8_not_stuck [OF assms], of 0] show ?thesis
    by (auto simp: SplitContent_def chunks_of_def)
qed

text \<open>\<open>SplitContent\<close> returns on every UTF-8 text: the chunks put together are the text, no chunk is
  empty or longer than 20000 bytes, and no chunk but the first begins inside a character.\<close>
theorem SplitContent_utf8:
  assumes "utf8_runs b"
  shows "\<exists>cs. SplitContent b = Some cs \<and> concat cs = b \<and>
     (\<forall>c\<in>set cs. c \<noteq> [] \<and> length c \<le> MaxContentBytes) \<and> (\<forall>c\<in>set (tl cs). \<not> cont (hd c))"
  using SplitContent_utf8_chunks [OF assms] by (simp add: chunks_of_def)

theorem SplitContent_utf8_witness:
  "\<exists>cs. SplitContent (replicate 50000 (CHR ''a'')) = Some cs \<and> concat cs = replicate 50000 (CHR ''a'') \<and>
     (\<forall>c\<in>set cs. c \<noteq> [] \<and> length c \<le> MaxContentBytes) \<and> (\<forall>c\<in>set (tl cs). \<not> cont (hd c))"
proof (rule SplitContent_utf8)
  have "\<not> cont (CHR ''a'')" by (simp add: cont_def)
  then show "utf8_runs (replicate 50000 (CHR ''a''))" by (simp add: utf8_runs_def)
qed

text \<open>C38: \<open>SplitContent\<close> does not return on a text that has 20000 continuation bytes in a row from its
  second byte on: the chunk end moves back to the chunk start and the loop repeats there.\<close>
theorem SplitContent_diverges:
  assumes "MaxContentBytes < length b" and "\<forall>k. 0 < k \<and> k \<le> MaxContentBytes \<longrightarrow> cont (b ! k)"
  shows "SplitContent b = None"
proof (cases "split_loop MaxContentBytes b 0")
  case None
  with assms(1) show ?thesis by (auto simp: SplitContent_def)
next
  case (Some cs)
  from split_loop_diverges [OF Some] assms show ?thesis by (simp add: stuck_def)
qed

theorem SplitContent_diverges_witness:
  "SplitContent (replicate 20001 (CHR 0x80)) = None"
proof (rule SplitContent_diverges)
  show "MaxContentBytes < length (replicate 20001 (CHR 0x80))" by (simp add: MaxContentBytes_def)
  have "cont (CHR 0x80)" by (simp add: cont_def)
  then show "\<forall>k. 0 < k \<and> k \<le> MaxContentBytes \<longrightarrow> cont (replicate 20001 (CHR 0x80) ! k)"
    by (simp add: MaxContentBytes_def)
qed

end
