(* ===== verification/Llm_Sender.thy ===== *)
theory Llm_Sender
  imports Llm_Pack Llm_Chunk
begin

text \<open>
  What the sender of the LLM monitor emits for a published call (\<^verbatim>\<open>agent/agent/llm/sender.go\<close>): the status log
  and, for each text of the call, one log per chunk.

  \<open>logsink.Send\<close> is the list of line logs handed to it; the tags and fields of a log are the puts made on them, in
  order. \<open>json.Unmarshal\<close> into a list of objects is the parameter \<open>unmarshal\<close> (None for an error), and the time
  stamp of a log is its argument. Splitting may not return, and then sending does not return either: the result
  is None.
\<close>

datatype 'f lval = LString string | LLong int | LDouble 'f

record 'f LineLog =
  Time :: int
  Category :: string
  Tags :: "(string \<times> 'f lval) list"
  Fields :: "(string \<times> 'f lval) list"
  Content :: string

datatype json = JString string | JObject "(string \<times> json) list" | JOther

definition putBaseTags :: "'z LlmLogSinkPack_scheme \<Rightarrow> string \<Rightarrow> (string \<times> 'f lval) list" where
  "putBaseTags p logType =
     [(''llm_log_type'', LString logType), (''@txid'', LString (Txid p)), (''@step_id'', LString (StepID p)),
      (''provider'', LString (Provider p))]"

definition optLong :: "string \<Rightarrow> int option \<Rightarrow> (string \<times> 'f lval) list" where
  "optLong name v = (case v of None \<Rightarrow> [] | Some n \<Rightarrow> [(name, LLong n)])"

definition optDouble :: "string \<Rightarrow> 'f option \<Rightarrow> (string \<times> 'f lval) list" where
  "optDouble name v = (case v of None \<Rightarrow> [] | Some x \<Rightarrow> [(name, LDouble x)])"

definition appendStepTokenFields :: "'f LlmStepStatus \<Rightarrow> (string \<times> 'f lval) list" where
  "appendStepTokenFields s =
     optLong ''input_tokens.n'' (InputTokens s) @ optLong ''output_tokens.n'' (OutputTokens s) @
     optLong ''total_tokens_count.n'' (TotalTokensCount s) @ optLong ''cached_tokens.n'' (CachedTokens s) @
     optLong ''reasoning_tokens.n'' (ReasoningTokens s) @ optLong ''audio_input_tokens.n'' (AudioInputTokens s) @
     optLong ''audio_output_tokens.n'' (AudioOutputTokens s) @
     optLong ''accepted_prediction_tokens.n'' (AcceptedPredictionTokens s) @
     optLong ''rejected_prediction_tokens.n'' (RejectedPredictionTokens s) @
     optLong ''embedding_count.n'' (EmbeddingCount s) @ optLong ''dimensions.n'' (Dimensions s) @
     optDouble ''similarity.n'' (Similarity s) @
     optLong ''cache_creation_input_tokens.n'' (CacheCreationInputTokens s) @
     optLong ''cache_read_input_tokens.n'' (CacheReadInputTokens s) @
     optDouble ''cost.n'' (Cost s) @ optDouble ''input_cost.n'' (InputCost s) @
     optDouble ''output_cost.n'' (OutputCost s) @ optDouble ''cached_cost.n'' (CachedCost s) @
     optDouble ''cache_creation_cost.n'' (CacheCreationCost s) @ optDouble ''latency.n'' (Latency s) @
     optDouble ''ttft.n'' (Ttft s)"

text \<open>\<open>sendLineLog\<close> stamps the log, whose time is still 0, with the clock.\<close>

definition buildStepStatusLineLog :: "int \<Rightarrow> 'f LlmStepStatus \<Rightarrow> 'f LineLog" where
  "buildStepStatusLineLog now s =
     \<lparr>Time = now, Category = ''#LlmCallLog'',
      Tags = putBaseTags s ''llm_step_status'' @
        [(''model'', LString (Model s)), (''stream'', LString (if Stream s then ''True'' else ''False'')),
         (''finish_reason'', LString (FinishReason s)), (''operation_type'', LString (OperationType s)),
         (''features'', LString (Features s))],
      Fields = [(''index'', LLong (PackIndex s))] @ optDouble ''temperature.n'' (Temperature s) @
        appendStepTokenFields s @
        (if ErrorType s = ''api_error'' \<or> ErrorType s = ''program_error''
         then [(''error'', LString (Error s)), (''error_type'', LString (ErrorType s))] else []),
      Content = []\<rparr>"

definition joinSorted :: "string set \<Rightarrow> string" where
  "joinSorted S = Join (sorted_list_of_set S) '',''"

text \<open>\<open>math.Round\<close> and the constant \<open>1e6\<close> of \<open>round6\<close> are given with the type of the floats.\<close>

definition round6 :: "('f \<Rightarrow> 'f) \<Rightarrow> 'f \<Rightarrow> 'f::{times,inverse} \<Rightarrow> 'f" where
  "round6 mathRound e6 v = mathRound (v * e6) / e6"

definition nzDouble :: "string \<Rightarrow> ('f::zero) \<Rightarrow> 'f \<Rightarrow> (string \<times> 'f lval) list" where
  "nzDouble name v shown = (if v \<noteq> 0 then [(name, LDouble shown)] else [])"

definition buildTxStatusLineLog ::
  "('f \<Rightarrow> 'f) \<Rightarrow> 'f \<Rightarrow> int \<Rightarrow> ('f::{zero,times,inverse}) LlmTxStatus \<Rightarrow> 'f LineLog" where
  "buildTxStatusLineLog mathRound e6 now t =
     \<lparr>Time = now, Category = ''#LlmCallLog'',
      Tags = [(''llm_log_type'', LString ''llm_tx_status''), (''@txid'', LString (Txid t)),
              (''@first_step_id'', LString (FirstStepID t)), (''@last_step_id'', LString (LastStepID t))] @
        (if Providers t \<noteq> {} then [(''provider'', LString (joinSorted (Providers t)))] else []) @
        (if Models t \<noteq> {} then [(''model'', LString (joinSorted (Models t)))] else []) @
        (if OperationTypes t \<noteq> {} then [(''operation_type'', LString (joinSorted (OperationTypes t)))] else []),
      Fields = [(''call_count.n'', LLong (CallCount t)), (''error_count.n'', LLong (ErrorCount t))] @
        concat (map (\<lambda>k. if TokenSums t k \<noteq> 0 then [(k @ ''.n'', LLong (TokenSums t k))] else []) txSummaryTokenFields) @
        nzDouble ''latency.n'' (TxLatency t) (TxLatency t) @
        nzDouble ''cost.n'' (TxCost t) (round6 mathRound e6 (TxCost t)) @
        nzDouble ''input_cost.n'' (TxInputCost t) (round6 mathRound e6 (TxInputCost t)) @
        nzDouble ''output_cost.n'' (TxOutputCost t) (round6 mathRound e6 (TxOutputCost t)),
      Content = []\<rparr>"

definition DispatchTxStatus ::
  "('f \<Rightarrow> 'f) \<Rightarrow> 'f \<Rightarrow> bool \<Rightarrow> int \<Rightarrow> ('f::{zero,times,inverse}) LlmTxStatus option \<Rightarrow> 'f LineLog list" where
  "DispatchTxStatus mathRound e6 llmMode now tx =
     (case tx of
        None \<Rightarrow> []
      | Some t \<Rightarrow> if CallCount t = 0 \<or> \<not> llmMode then [] else [buildTxStatusLineLog mathRound e6 now t])"

definition buildMessageLineLog ::
  "int \<Rightarrow> 'z LlmLogSinkPack_scheme \<Rightarrow> string \<Rightarrow> string \<Rightarrow> (string \<times> 'f lval) list option \<Rightarrow> nat \<Rightarrow> nat \<Rightarrow> 'f LineLog" where
  "buildMessageLineLog now c logType content extraFields chunkIdx chunkTotal =
     \<lparr>Time = now, Category = ''#LlmCallLog'',
      Tags = putBaseTags c logType @ (if URL c \<noteq> [] then [(''url'', LString (URL c))] else []) @
        (if OperationType c \<noteq> [] then [(''operation_type'', LString (OperationType c))] else []),
      Fields = [(''index'', LLong (PackIndex c))] @
        (if chunkTotal > 1 then [(''chunk_index'', LLong (int chunkIdx)), (''chunk_total'', LLong (int chunkTotal))] else []) @
        (case extraFields of None \<Rightarrow> [] | Some fs \<Rightarrow> fs),
      Content = content\<rparr>"

definition sendChunked ::
  "int \<Rightarrow> 'z LlmLogSinkPack_scheme \<Rightarrow> string \<Rightarrow> string \<Rightarrow> (string \<times> 'f lval) list option \<Rightarrow> 'f LineLog list option" where
  "sendChunked now c logType content extraFields =
     (case SplitContent content of
        None \<Rightarrow> None
      | Some chunks \<Rightarrow>
          if chunks = [] then Some [buildMessageLineLog now c logType [] extraFields 0 1]
          else Some (map (\<lambda>(idx, chunk). buildMessageLineLog now c logType chunk extraFields idx (length chunks))
                       (enumerate 0 chunks)))"

definition combineOutput :: "string \<Rightarrow> string \<Rightarrow> string" where
  "combineOutput reasoning completion =
     (if reasoning \<noteq> [] \<and> completion \<noteq> [] then reasoning @ [NL] @ completion
      else if reasoning \<noteq> [] then reasoning else completion)"

definition jstr :: "(string \<times> json) list \<Rightarrow> string \<Rightarrow> string" where
  "jstr obj name = (case map_of obj name of Some (JString s) \<Rightarrow> s | _ \<Rightarrow> [])"

text \<open>The names and the arguments one element of the tool call list contributes.\<close>

definition toolCall :: "(string \<times> json) list \<Rightarrow> string list \<times> string list" where
  "toolCall tc =
     (let keep = (\<lambda>s. if s \<noteq> [] then [s] else []) in
      case map_of tc ''function'' of
        Some (JObject fn) \<Rightarrow> (keep (jstr fn ''name''), keep (jstr fn ''arguments''))
      | Some (JString s) \<Rightarrow> if s \<noteq> [] then ([s], keep (jstr tc ''arguments'')) else ([], [])
      | _ \<Rightarrow> ([], []))"

definition parseToolCalls :: "(string \<Rightarrow> (string \<times> json) list list option) \<Rightarrow> string \<Rightarrow> string \<times> string" where
  "parseToolCalls unmarshal t =
     (if t = [] then ([], [])
      else case unmarshal t of
             None \<Rightarrow> ([], [])
           | Some tcs \<Rightarrow> (Join (concat (map (fst \<circ> toolCall) tcs)) '','', Join (concat (map (snd \<circ> toolCall) tcs)) '',''))"

definition toolFields :: "(string \<Rightarrow> (string \<times> json) list list option) \<Rightarrow> string \<Rightarrow> (string \<times> 'f lval) list" where
  "toolFields unmarshal t =
     (let (names, args) = parseToolCalls unmarshal t in
      (if names \<noteq> [] then [(''function'', LString names)] else []) @
      (if args \<noteq> [] then [(''arguments'', LString args)] else []))"

fun seqOpt :: "'a list option list \<Rightarrow> 'a list option" where
  "seqOpt [] = Some []"
| "seqOpt (x # xs) =
     (case x of None \<Rightarrow> None
      | Some a \<Rightarrow> (case seqOpt xs of None \<Rightarrow> None | Some b \<Rightarrow> Some (a @ b)))"

definition processStep ::
  "(string \<Rightarrow> (string \<times> json) list list option) \<Rightarrow> int \<Rightarrow> 'f LlmStepStatus \<Rightarrow> 'f LineLog list option" where
  "processStep unmarshal now step =
     seqOpt (
       [Some [buildStepStatusLineLog now step]] @
       map (\<lambda>t. sendChunked now step ''system_message'' t None) (SystemTexts step) @
       [sendChunked now step ''input_message'' (PromptText step) None,
        sendChunked now step ''output_message'' (combineOutput (ReasoningText step) (CompletionText step)) None] @
       (if ToolCallsText step \<noteq> []
        then [sendChunked now step ''tool'' (ToolCallsText step) (Some (toolFields unmarshal (ToolCallsText step)))] else []) @
       (if ToolResultsText step \<noteq> []
        then [sendChunked now step ''tool_result'' (ToolResultsText step) None] else []))"

definition DispatchToolCalls ::
  "(string \<Rightarrow> (string \<times> json) list list option) \<Rightarrow> int \<Rightarrow> 'z LlmLogSinkPack_scheme \<Rightarrow> string \<Rightarrow> 'f LineLog list option" where
  "DispatchToolCalls unmarshal now c toolCallsText =
     sendChunked now c ''tool'' toolCallsText (Some (toolFields unmarshal toolCallsText))"

definition DispatchOutputMessage :: "int \<Rightarrow> 'z LlmLogSinkPack_scheme \<Rightarrow> string \<Rightarrow> string \<Rightarrow> 'f LineLog list option" where
  "DispatchOutputMessage now c completion reasoning =
     sendChunked now c ''output_message'' (combineOutput reasoning completion) None"

subsection \<open>What reaches the log\<close>

definition logType :: "'f LineLog \<Rightarrow> 'f lval option" where
  "logType l = map_of (Tags l) ''llm_log_type''"

definition textOf :: "string \<Rightarrow> 'f LineLog list \<Rightarrow> string" where
  "textOf ty ls = concat (map Content (filter (\<lambda>l. logType l = Some (LString ty)) ls))"

lemma textOf_append [simp]: "textOf ty (xs @ ys) = textOf ty xs @ textOf ty ys"
  by (simp add: textOf_def)

lemma textOf_Nil [simp]: "textOf ty [] = []"
  by (simp add: textOf_def)

lemma logType_message [simp]: "logType (buildMessageLineLog now c ty t ex i n) = Some (LString ty)"
  by (simp add: logType_def buildMessageLineLog_def putBaseTags_def)

lemma Content_message [simp]: "Content (buildMessageLineLog now c ty t ex i n) = t"
  by (simp add: buildMessageLineLog_def)

lemma textOf_status: "ty \<noteq> ''llm_step_status'' \<Longrightarrow> textOf ty [buildStepStatusLineLog now s] = []"
  by (simp add: textOf_def logType_def buildStepStatusLineLog_def putBaseTags_def)

lemma textOf_chunks:
  "textOf ty (map (\<lambda>(i, t). buildMessageLineLog now c ty' t ex i n) (enumerate k ts)) = (if ty = ty' then concat ts else [])"
  by (induction ts arbitrary: k) (auto simp: textOf_def)

lemma sendChunked_text:
  assumes "utf8_runs t"
  shows "\<exists>ls. sendChunked now c ty t ex = Some ls \<and> (\<forall>ty'. textOf ty' ls = (if ty' = ty then t else []))"
proof -
  from SplitContent_utf8_chunks [OF assms] obtain cs where
    cs: "SplitContent t = Some cs" "concat cs = t" by (auto simp: chunks_of_def)
  show ?thesis
  proof (cases "cs = []")
    case True
    with cs show ?thesis by (auto simp: sendChunked_def textOf_def)
  next
    case False
    with cs textOf_chunks [of _ now c ty ex "length cs" 0 cs] show ?thesis by (auto simp: sendChunked_def)
  qed
qed

lemma sendChunked_the:
  assumes "utf8_runs t"
  shows "sendChunked now c ty t ex \<noteq> None"
    and "textOf ty' (the (sendChunked now c ty t ex)) = (if ty' = ty then t else [])"
  using sendChunked_text [OF assms, of now c ty ex] by auto

lemma sendChunked_ex: "utf8_runs t \<Longrightarrow> \<exists>ls. sendChunked now c ty t ex = Some ls"
  using sendChunked_text by blast

lemma seqOpt_all: "\<forall>x\<in>set xs. x \<noteq> None \<Longrightarrow> seqOpt xs = Some (concat (map the xs))"
  by (induction xs) auto

lemma seqOpt_None: "None \<in> set xs \<Longrightarrow> seqOpt xs = None"
  by (induction xs) (auto split: option.splits)

lemma textOf_status_Cons:
  "ty \<noteq> ''llm_step_status'' \<Longrightarrow> textOf ty (buildStepStatusLineLog now s # ls) = textOf ty ls"
  using textOf_append [of ty "[buildStepStatusLineLog now s]" ls] by (simp add: textOf_status)

lemma textOf_systems:
  "\<forall>t\<in>set ts. utf8_runs t \<Longrightarrow>
   textOf ty (concat (map (the \<circ> (\<lambda>t. sendChunked now s lt t None)) ts)) = (if ty = lt then concat ts else [])"
  by (induction ts) (auto simp: sendChunked_the)

definition utf8_step :: "'f LlmStepStatus \<Rightarrow> bool" where
  "utf8_step s \<longleftrightarrow> (\<forall>t\<in>set (SystemTexts s). utf8_runs t) \<and> utf8_runs (PromptText s) \<and>
     utf8_runs (combineOutput (ReasoningText s) (CompletionText s)) \<and> utf8_runs (ToolCallsText s) \<and>
     utf8_runs (ToolResultsText s)"

lemma processStep_parts:
  assumes "utf8_step s"
  shows "\<exists>ls. processStep unmarshal now s = Some ls \<and> hd ls = buildStepStatusLineLog now s \<and>
     (ty \<noteq> ''llm_step_status'' \<longrightarrow> textOf ty ls =
        (if ty = ''system_message'' then concat (SystemTexts s) else []) @
        (if ty = ''input_message'' then PromptText s else []) @
        (if ty = ''output_message'' then combineOutput (ReasoningText s) (CompletionText s) else []) @
        (if ty = ''tool'' then ToolCallsText s else []) @
        (if ty = ''tool_result'' then ToolResultsText s else []))"
proof -
  let ?xs = "[Some [buildStepStatusLineLog now s]] @
       map (\<lambda>t. sendChunked now s ''system_message'' t None) (SystemTexts s) @
       [sendChunked now s ''input_message'' (PromptText s) None,
        sendChunked now s ''output_message'' (combineOutput (ReasoningText s) (CompletionText s)) None] @
       (if ToolCallsText s \<noteq> []
        then [sendChunked now s ''tool'' (ToolCallsText s) (Some (toolFields unmarshal (ToolCallsText s)))] else []) @
       (if ToolResultsText s \<noteq> []
        then [sendChunked now s ''tool_result'' (ToolResultsText s) None] else [])"
  have u: "\<forall>t\<in>set (SystemTexts s). utf8_runs t" "utf8_runs (PromptText s)"
     "utf8_runs (combineOutput (ReasoningText s) (CompletionText s))" "utf8_runs (ToolCallsText s)"
     "utf8_runs (ToolResultsText s)"
    using assms by (simp_all add: utf8_step_def)
  have "\<forall>x\<in>set ?xs. x \<noteq> None"
    using u by (auto intro: sendChunked_ex)
  then have run: "processStep unmarshal now s = Some (concat (map the ?xs))"
    unfolding processStep_def by (rule seqOpt_all)
  have "textOf ty (concat (map the ?xs)) = (if ty = ''system_message'' then concat (SystemTexts s) else []) @
        (if ty = ''input_message'' then PromptText s else []) @
        (if ty = ''output_message'' then combineOutput (ReasoningText s) (CompletionText s) else []) @
        (if ty = ''tool'' then ToolCallsText s else []) @
        (if ty = ''tool_result'' then ToolResultsText s else [])" if "ty \<noteq> ''llm_step_status''"
    using that u by (simp add: textOf_status_Cons textOf_systems sendChunked_the)
  with run show ?thesis by simp
qed

text \<open>C36: the sender delivers every text of a call completely. For a published call whose texts are UTF-8, the
  sender returns; the first log is the status log; and the contents of the logs of each message type, put
  together in the order they are sent, are the system texts, the prompt, the output (reasoning and completion),
  the tool calls and the tool results of the call.\<close>
theorem processStep_delivers_texts:
  assumes "utf8_step s"
  shows "\<exists>ls. processStep unmarshal now s = Some ls \<and> hd ls = buildStepStatusLineLog now s \<and>
     textOf ''system_message'' ls = concat (SystemTexts s) \<and> textOf ''input_message'' ls = PromptText s \<and>
     textOf ''output_message'' ls = combineOutput (ReasoningText s) (CompletionText s) \<and>
     textOf ''tool'' ls = ToolCallsText s \<and> textOf ''tool_result'' ls = ToolResultsText s"
proof -
  from processStep_parts [OF assms, of unmarshal now] obtain ls where
    ls: "processStep unmarshal now s = Some ls" "hd ls = buildStepStatusLineLog now s" by blast
  have "textOf ty ls =
        (if ty = ''system_message'' then concat (SystemTexts s) else []) @
        (if ty = ''input_message'' then PromptText s else []) @
        (if ty = ''output_message'' then combineOutput (ReasoningText s) (CompletionText s) else []) @
        (if ty = ''tool'' then ToolCallsText s else []) @
        (if ty = ''tool_result'' then ToolResultsText s else [])" if "ty \<noteq> ''llm_step_status''" for ty
    using processStep_parts [OF assms, of unmarshal now ty] ls(1) that by auto
  with ls show ?thesis by simp
qed

definition step1 :: "real LlmStepStatus" where
  "step1 = NewLlmStepStatus\<lparr>PromptText := ''hello'', CompletionText := ''world'', ToolCallsText := ''[]''\<rparr>"

lemma utf8_short: "length t \<le> 3 \<or> list_all (\<lambda>c. \<not> cont c) t \<Longrightarrow> utf8_runs t"
  by (auto simp: utf8_runs_def list_all_length)

theorem processStep_delivers_texts_witness:
  "\<exists>ls. processStep (\<lambda>_. None) 5 step1 = Some ls \<and> hd ls = buildStepStatusLineLog 5 step1 \<and>
     textOf ''system_message'' ls = concat (SystemTexts step1) \<and> textOf ''input_message'' ls = PromptText step1 \<and>
     textOf ''output_message'' ls = combineOutput (ReasoningText step1) (CompletionText step1) \<and>
     textOf ''tool'' ls = ToolCallsText step1 \<and> textOf ''tool_result'' ls = ToolResultsText step1"
proof (rule processStep_delivers_texts)
  have "utf8_runs ''hello''" "utf8_runs ''world''" "utf8_runs ''[]''" "utf8_runs []"
    by (rule utf8_short, simp add: cont_def)+
  then show "utf8_step step1"
    by (simp add: utf8_step_def step1_def NewLlmStepStatus_def combineOutput_def)
qed

text \<open>The chunks of one message are numbered from 0 and carry their number, when there is more than one.\<close>

lemma sendChunked_numbering:
  assumes "SplitContent t = Some cs" and "1 < length cs" and "i < length cs"
  shows "\<exists>ls. sendChunked now c ty t ex = Some ls \<and> length ls = length cs \<and> Content (ls ! i) = cs ! i \<and>
     take 2 (drop 1 (Fields (ls ! i))) = [(''chunk_index'', LLong (int i)), (''chunk_total'', LLong (int (length cs)))]"
  using assms
  by (auto simp: sendChunked_def nth_enumerate_eq buildMessageLineLog_def)

text \<open>A call with a text on which splitting does not return blocks the sender: no text of the call, nor any
  later call in the queue, is sent.\<close>
theorem processStep_blocks:
  assumes "SplitContent (PromptText s) = None"
  shows "processStep unmarshal now s = None"
proof -
  have "None = sendChunked now s ''input_message'' (PromptText s) None"
    using assms by (simp add: sendChunked_def)
  then show ?thesis unfolding processStep_def by (intro seqOpt_None) auto
qed

theorem processStep_blocks_witness:
  "processStep (\<lambda>_. None) 5 (step1\<lparr>PromptText := replicate 20001 (CHR 0x80)\<rparr>) = None"
proof (rule processStep_blocks)
  have "cont (CHR 0x80)" by (simp add: cont_def)
  then have "stuck MaxContentBytes (replicate 20001 (CHR 0x80)) 0" by (simp add: stuck_def MaxContentBytes_def)
  then have "split_loop MaxContentBytes (replicate 20001 (CHR 0x80)) 0 = None"
    using split_loop_diverges by (metis option.exhaust)
  then show "SplitContent (PromptText (step1\<lparr>PromptText := replicate 20001 (CHR 0x80)\<rparr>)) = None"
    by (simp add: SplitContent_def MaxContentBytes_def)
qed

end
