(* ===== verification/Go_Std.thy ===== *)
theory Go_Std
  imports Prelude "HOL-Library.AList"
begin

text \<open>
  The parts of Go's standard library that the distributed-trace code calls: reading and printing numbers
  (\<^verbatim>\<open>strconv.ParseUint\<close>, \<^verbatim>\<open>strconv.Atoi\<close>, the verb \<^verbatim>\<open>%016x\<close>) and \<^verbatim>\<open>http.Header\<close> with its canonical keys.
  The lemmas are the round trips the components rely on.
\<close>

subsection \<open>Package strconv\<close>

definition digitVal :: "char \<Rightarrow> nat option" where
  "digitVal c =
     (let n = (of_char c :: nat) in
      if 48 \<le> n \<and> n \<le> 57 then Some (n - 48)
      else if 97 \<le> n \<and> n \<le> 122 then Some (n - 97 + 10)
      else if 65 \<le> n \<and> n \<le> 90 then Some (n - 65 + 10)
      else None)"

fun parseAcc :: "nat \<Rightarrow> nat \<Rightarrow> string \<Rightarrow> nat option" where
  "parseAcc b acc [] = Some acc"
| "parseAcc b acc (c # cs) =
     (case digitVal c of
        None \<Rightarrow> None
      | Some d \<Rightarrow> if d < b then parseAcc b (acc * b + d) cs else None)"

text \<open>\<open>ParseUint s b 64\<close>, for a base from 2 to 36: an empty text, a wrong digit and a value that needs more than
  64 bits are errors.\<close>

definition ParseUint :: "string \<Rightarrow> nat \<Rightarrow> nat option" where
  "ParseUint s b =
     (if s = [] then None
      else case parseAcc b 0 s of None \<Rightarrow> None | Some n \<Rightarrow> if n < 2 ^ 64 then Some n else None)"

definition Atoi :: "string \<Rightarrow> int option" where
  "Atoi s =
     (case s of
        [] \<Rightarrow> None
      | c # cs \<Rightarrow>
          if c = CHR ''-''
          then (case ParseUint cs 10 of None \<Rightarrow> None | Some n \<Rightarrow> if n \<le> 2 ^ 63 then Some (- int n) else None)
          else (case ParseUint (if c = CHR ''+'' then cs else s) 10 of
                  None \<Rightarrow> None | Some n \<Rightarrow> if n < 2 ^ 63 then Some (int n) else None))"

definition hexDigit :: "nat \<Rightarrow> char" where
  "hexDigit d = (if d < 10 then char_of (48 + d) else char_of (87 + d))"

primrec hexN :: "nat \<Rightarrow> nat \<Rightarrow> string" where
  "hexN 0 n = []"
| "hexN (Suc k) n = hexDigit (n div 16 ^ k mod 16) # hexN k n"

text \<open>The conversion \<^verbatim>\<open>uint64(x)\<close> and the verb \<^verbatim>\<open>%016x\<close>.\<close>

definition u64 :: "int \<Rightarrow> nat" where
  "u64 x = nat (x mod 2 ^ 64)"

definition hex16 :: "int \<Rightarrow> string" where
  "hex16 x = hexN 16 (u64 x)"

lemma digitVal_char_of [simp]:
  "d < 10 \<Longrightarrow> digitVal (char_of (48 + d)) = Some d"
  "10 \<le> d \<Longrightarrow> d < 36 \<Longrightarrow> digitVal (char_of (87 + d)) = Some d"
  by (simp_all add: digitVal_def Let_def)

lemma digitVal_hexDigit [simp]: "d < 16 \<Longrightarrow> digitVal (hexDigit d) = Some d"
  by (cases "d < 10") (simp_all add: hexDigit_def)

lemma parseAcc_append:
  "parseAcc b acc (s @ t) = (case parseAcc b acc s of None \<Rightarrow> None | Some v \<Rightarrow> parseAcc b v t)"
  by (induction s arbitrary: acc) (auto split: option.splits)

lemma parseAcc_hexN: "parseAcc 16 acc (hexN k n) = Some (acc * 16 ^ k + n mod 16 ^ k)"
proof (induction k arbitrary: acc)
  case (Suc k)
  have "n mod 16 ^ Suc k = 16 ^ k * (n div 16 ^ k mod 16) + n mod 16 ^ k"
    using mod_mult2_eq [of n "16 ^ k" 16] by (simp add: mult.commute)
  with Suc show ?case by (simp add: algebra_simps)
qed simp

lemma hexN_length [simp]: "length (hexN k n) = k"
  by (induction k) auto

lemma u64_less: "u64 x < 2 ^ 64"
  by (simp add: u64_def nat_less_iff)

lemma ParseUint_hex16 [simp]: "ParseUint (hex16 x) 16 = Some (u64 x)"
proof -
  have "u64 x < 16 ^ 16" using u64_less [of x] by simp
  then have "parseAcc 16 0 (hex16 x) = Some (u64 x)" by (simp add: hex16_def parseAcc_hexN del: hexN.simps)
  moreover have "length (hex16 x) = 16" unfolding hex16_def by (rule hexN_length)
  ultimately show ?thesis using u64_less by (auto simp: ParseUint_def)
qed

lemma i64_u64 [simp]: "i64 (int (u64 x)) = i64 x"
proof -
  have "int (u64 x) = take_bit 64 x" by (simp add: u64_def take_bit_eq_mod)
  then show ?thesis by (simp add: i64_def signed_take_bit_take_bit)
qed

lemma parseAcc_digitsOf: "parseAcc 10 0 (digitsOf n) = Some n"
proof (induction n rule: digitsOf.induct)
  case (1 n)
  show ?case
  proof (cases "n < 10")
    case True
    then show ?thesis by (subst digitsOf.simps) simp
  next
    case False
    then show ?thesis using 1 by (subst digitsOf.simps) (simp add: parseAcc_append)
  qed
qed

lemma ParseUint_digitsOf: "n < 2 ^ 64 \<Longrightarrow> ParseUint (digitsOf n) 10 = Some n"
  by (simp add: ParseUint_def parseAcc_digitsOf)

lemma digitsOf_chars: "c \<in> set (digitsOf n) \<Longrightarrow> 48 \<le> (of_char c :: nat) \<and> (of_char c :: nat) \<le> 57"
proof (induction n rule: digitsOf.induct)
  case (1 n)
  from "1.prems" show ?case
  proof (cases "n < 10")
    case True
    with "1.prems" show ?thesis by (subst (asm) digitsOf.simps) auto
  next
    case False
    with "1.prems" have "c \<in> set (digitsOf (n div 10)) \<or> c = char_of (48 + n mod 10)"
      by (subst (asm) digitsOf.simps) auto
    then show ?thesis using "1.IH" [OF False] by auto
  qed
qed

lemma Atoi_itoa: "- (2 ^ 63) \<le> k \<Longrightarrow> k < 2 ^ 63 \<Longrightarrow> Atoi (itoa k) = Some k"
proof (cases "k < 0")
  case True
  assume "- (2 ^ 63) \<le> k"
  with True have "nat (- k) \<le> 2 ^ 63" by (simp add: nat_le_iff)
  with True show ?thesis by (simp add: Atoi_def itoa_def ParseUint_digitsOf)
next
  case False
  assume "k < 2 ^ 63"
  with False have k: "nat k < 2 ^ 63" by (simp add: nat_less_iff)
  obtain c cs where d: "digitsOf (nat k) = c # cs" by (meson digitsOf_nonempty neq_Nil_conv)
  then have "48 \<le> (of_char c :: nat)" using digitsOf_chars [of c "nat k"] by simp
  then have "c \<noteq> CHR ''-''" "c \<noteq> CHR ''+''" by auto
  with False k d ParseUint_digitsOf [of "nat k"] show ?thesis by (simp add: Atoi_def itoa_def)
qed

subsection \<open>White space at the ends\<close>

definition graphic :: "char \<Rightarrow> bool" where
  "graphic c \<longleftrightarrow> 32 < (of_char c :: nat) \<and> (of_char c :: nat) < 128"

lemma dropPrefixes_id:
  assumes "\<forall>p\<in>set ps. p \<noteq> [] \<longrightarrow> \<not> HasPrefix s p"
  shows "dropPrefixes ps s = s"
proof -
  have "find (\<lambda>p. p \<noteq> [] \<and> HasPrefix s p) ps = None" using assms by (auto simp: find_None_iff)
  then show ?thesis by (subst dropPrefixes.simps) simp
qed

lemma spaces_not_graphic: "p \<in> set spaces \<Longrightarrow> p \<noteq> [] \<and> \<not> graphic (hd p) \<and> \<not> graphic (last p)"
  by (auto simp: spaces_def graphic_def)

lemma TrimSpace_graphic:
  assumes "list_all graphic s"
  shows "TrimSpace s = s"
proof -
  have fwd: "dropPrefixes spaces s = s"
  proof (intro dropPrefixes_id ballI impI notI)
    fix p assume p: "p \<in> set spaces" "p \<noteq> []" "HasPrefix s p"
    then have "hd p \<in> set s" by (auto simp: HasPrefix_iff)
    with assms spaces_not_graphic [OF p(1)] show False by (auto simp: list_all_iff)
  qed
  have "dropPrefixes (map rev spaces) (rev s) = rev s"
  proof (intro dropPrefixes_id ballI impI notI)
    fix p assume p: "p \<in> set (map rev spaces)" "p \<noteq> []" "HasPrefix (rev s) p"
    then obtain q where q: "q \<in> set spaces" "p = rev q" by auto
    from p have "hd p \<in> set s" by (metis HasPrefix_iff hd_append2 hd_in_set set_rev append_is_Nil_conv)
    with assms q spaces_not_graphic [OF q(1)] show False by (auto simp: list_all_iff hd_rev)
  qed
  with fwd show ?thesis by (simp add: TrimSpace_def)
qed

subsection \<open>http.Header\<close>

type_synonym header = "(string \<times> string list) list"

definition asciiUpper :: "char \<Rightarrow> char" where
  "asciiUpper c =
     (let n = (of_char c :: nat) in if 97 \<le> n \<and> n \<le> 122 then char_of (n - 32) else c)"

definition tokenByte :: "char \<Rightarrow> bool" where
  "tokenByte c \<longleftrightarrow>
     (let n = (of_char c :: nat) in
      48 \<le> n \<and> n \<le> 57 \<or> 65 \<le> n \<and> n \<le> 90 \<or> 97 \<le> n \<and> n \<le> 122 \<or> c \<in> set ''!#$%&*+-.^_`|~'' \<or> c = QUOTE)"

fun canonWords :: "bool \<Rightarrow> string \<Rightarrow> string" where
  "canonWords up [] = []"
| "canonWords up (c # cs) = (if up then asciiUpper c else asciiLower c) # canonWords (c = CHR ''-'') cs"

definition CanonicalHeaderKey :: "string \<Rightarrow> string" where
  "CanonicalHeaderKey s = (if list_all tokenByte s then canonWords True s else s)"

definition headerValues :: "header \<Rightarrow> string \<Rightarrow> string list" where
  "headerValues h key = (case map_of h key of None \<Rightarrow> [] | Some vs \<Rightarrow> vs)"

definition headerGet :: "header \<Rightarrow> string \<Rightarrow> string" where
  "headerGet h k = (case headerValues h (CanonicalHeaderKey k) of [] \<Rightarrow> [] | v # _ \<Rightarrow> v)"

definition headerSet :: "string \<Rightarrow> string \<Rightarrow> header \<Rightarrow> header" where
  "headerSet k v h = AList.update (CanonicalHeaderKey k) [v] h"

definition headerAdd :: "string \<Rightarrow> string \<Rightarrow> header \<Rightarrow> header" where
  "headerAdd k v h = AList.update (CanonicalHeaderKey k) (headerValues h (CanonicalHeaderKey k) @ [v]) h"

lemma canon_byte: "canonWords up s = [] \<longleftrightarrow> s = []"
  by (cases s) auto

lemma upper_lower_idem [simp]:
  "asciiUpper (asciiUpper c) = asciiUpper c" "asciiLower (asciiLower c) = asciiLower c"
  by (auto simp: asciiUpper_def asciiLower_def Let_def)

lemma dash_case [simp]: "asciiUpper c = CHR ''-'' \<longleftrightarrow> c = CHR ''-''" "asciiLower c = CHR ''-'' \<longleftrightarrow> c = CHR ''-''"
  by (auto simp: asciiUpper_def asciiLower_def Let_def dest: arg_cong [where f = "of_char :: char \<Rightarrow> nat"])

lemma canonWords_idem [simp]: "canonWords up (canonWords up s) = canonWords up s"
  by (induction up s rule: canonWords.induct) auto

lemma tokenByte_case [simp]: "tokenByte (asciiUpper c) = tokenByte c" "tokenByte (asciiLower c) = tokenByte c"
  by (auto simp: asciiUpper_def asciiLower_def tokenByte_def Let_def)

lemma tokenByte_canonWords [simp]: "list_all tokenByte (canonWords up s) = list_all tokenByte s"
  by (induction up s rule: canonWords.induct) auto

lemma Canonical_idem [simp]: "CanonicalHeaderKey (CanonicalHeaderKey s) = CanonicalHeaderKey s"
  by (simp add: CanonicalHeaderKey_def)

lemma headerValues_set: "headerValues (headerSet k v h) key = (if key = CanonicalHeaderKey k then [v] else headerValues h key)"
  by (simp add: headerValues_def headerSet_def update_conv')

lemma headerValues_add:
  "headerValues (headerAdd k v h) key = headerValues h key @ (if key = CanonicalHeaderKey k then [v] else [])"
  by (simp add: headerValues_def headerAdd_def update_conv')

text \<open>A header built with \<open>Set\<close> only: canonical keys, each once.\<close>

definition canonical_header :: "header \<Rightarrow> bool" where
  "canonical_header h \<longleftrightarrow> distinct (map fst h) \<and> (\<forall>k\<in>set (map fst h). CanonicalHeaderKey k = k)"

lemma canonical_Nil [simp]: "canonical_header []"
  by (simp add: canonical_header_def)

lemma canonical_set: "canonical_header h \<Longrightarrow> canonical_header (headerSet k v h)"
  by (auto simp: canonical_header_def headerSet_def distinct_update dom_update)

text \<open>Copying a header with \<open>Add\<close>: the values of a key are those of all keys with that canonical form.\<close>

definition addAll :: "header \<Rightarrow> header \<Rightarrow> header" where
  "addAll hdr h = fold (\<lambda>(k, vs). fold (headerAdd k) vs) hdr h"

lemma headerValues_fold_add:
  "headerValues (fold (headerAdd k) vs h) key = headerValues h key @ (if key = CanonicalHeaderKey k then vs else [])"
  by (induction vs arbitrary: h) (auto simp: headerValues_add)

lemma headerValues_addAll:
  "headerValues (addAll hdr h) key =
     headerValues h key @ concat (map snd (filter (\<lambda>(k, vs). CanonicalHeaderKey k = key) hdr))"
  by (induction hdr arbitrary: h) (auto simp: addAll_def headerValues_fold_add split: prod.splits)

lemma canonical_values:
  assumes "canonical_header h"
  shows "concat (map snd (filter (\<lambda>(k, vs). CanonicalHeaderKey k = key) h)) = headerValues h key"
  using assms
proof (induction h)
  case (Cons e h)
  obtain k vs where e: "e = (k, vs)" by force
  have h: "canonical_header h" and k: "CanonicalHeaderKey k = k" "k \<notin> fst ` set h"
    using Cons.prems by (auto simp: canonical_header_def e)
  show ?case
  proof (cases "k = key")
    case True
    then have "map_of h key = None" using k(2) by (simp add: map_of_eq_None_iff)
    then have "headerValues h key = []" by (simp add: headerValues_def)
    with Cons.IH [OF h] True k(1) show ?thesis by (simp add: e headerValues_def)
  next
    case False
    with Cons.IH [OF h] k(1) show ?thesis by (simp add: e headerValues_def)
  qed
qed (simp add: headerValues_def)

lemma addAll_canonical: "canonical_header h \<Longrightarrow> headerGet (addAll h []) k = headerGet h k"
  by (simp add: headerGet_def headerValues_addAll canonical_values) (simp add: headerValues_def)

lemma headerGet_set:
  "headerGet (headerSet k v h) k' = (if CanonicalHeaderKey k' = CanonicalHeaderKey k then v else headerGet h k')"
  by (simp add: headerGet_def headerValues_set)

end
