(* ===== verification/Llm_Adapter.thy ===== *)
theory Llm_Adapter
  imports Llm_State Go_Std
begin

text \<open>
  What the adapters of the LLM clients under \<^verbatim>\<open>instrumentation/llm/\<close> have in common: the call of the client
  between \<open>llm.Start\<close> and \<open>End\<close>, the JSON text of tool calls, and the wrapper of a stream of answers.

  The client is third-party code and an argument: given the context it is called with, it says what the
  wrapped transport does to the pending state of that context (\<open>http_hook\<close>: the URL set by \<open>httpc.Start\<close>, the
  end of the HTTP step, one pair per attempt) and how the call ends. A context that already carries a pending
  state keeps it, so the hooks reach the new state only if it is the pending one.

  The three wrappers of streams keep a state of their own around the step (\<open>StreamCore\<close>, extended by each).
  What a consumer sees of the stream below is an argument of each of its calls (\<open>stream_call\<close>). The locale
  \<open>llm_stream\<close> holds what the wrappers promise, and what follows from it for every sequence of calls.
\<close>

subsection \<open>JSON text of tool calls\<close>

text \<open>The number of bytes of the code point at the start of a string, 0 if it is not valid UTF-8.\<close>

definition byteIn :: "nat \<Rightarrow> nat \<Rightarrow> string \<Rightarrow> nat \<Rightarrow> bool" where
  "byteIn lo hi s i \<longleftrightarrow> i < length s \<and> lo \<le> of_char (s ! i) \<and> of_char (s ! i) \<le> hi"

definition runeLen :: "string \<Rightarrow> nat" where
  "runeLen s =
     (let tail = byteIn 0x80 0xBF s in
      if byteIn 0 0x7F s 0 then 1
      else if byteIn 0xC2 0xDF s 0 then (if tail 1 then 2 else 0)
      else if byteIn 0xE0 0xEF s 0
        then (if byteIn (if byteIn 0xE0 0xE0 s 0 then 0xA0 else 0x80) (if byteIn 0xED 0xED s 0 then 0x9F else 0xBF) s 1 \<and> tail 2
              then 3 else 0)
      else if byteIn 0xF0 0xF4 s 0
        then (if byteIn (if byteIn 0xF0 0xF0 s 0 then 0x90 else 0x80) (if byteIn 0xF4 0xF4 s 0 then 0x8F else 0xBF) s 1 \<and>
                 tail 2 \<and> tail 3
              then 4 else 0)
      else 0)"

abbreviation BACKSLASH :: char where
  "BACKSLASH \<equiv> CHR 0x5C"

definition jsonByte :: "char \<Rightarrow> string" where
  "jsonByte c =
     (if c = DQUOTE \<or> c = BACKSLASH then [BACKSLASH, c]
      else if c = CHR 0x08 then [BACKSLASH, CHR ''b'']
      else if c = CHR 0x0C then [BACKSLASH, CHR ''f'']
      else if c = CHR 0x0A then [BACKSLASH, CHR ''n'']
      else if c = CHR 0x0D then [BACKSLASH, CHR ''r'']
      else if c = CHR 0x09 then [BACKSLASH, CHR ''t'']
      else if (of_char c :: nat) < 32 \<or> c \<in> set ''<>&'' then [BACKSLASH, CHR ''u''] @ hexN 4 (of_char c)
      else [c])"

function jsonBody :: "string \<Rightarrow> string" where
  "jsonBody [] = []"
| "jsonBody (c # cs) =
     (let n = runeLen (c # cs) in
      if n = 0 then [BACKSLASH] @ ''ufffd'' @ jsonBody cs
      else if n = 1 then jsonByte c @ jsonBody cs
      else (let r = take n (c # cs) in
            (if r = [CHR 0xE2, CHR 0x80, CHR 0xA8] then [BACKSLASH] @ ''u2028''
             else if r = [CHR 0xE2, CHR 0x80, CHR 0xA9] then [BACKSLASH] @ ''u2029'' else r) @
            jsonBody (drop (n - 1) cs)))"
  by pat_completeness auto
termination by (relation "measure length") auto

definition jsonString :: "string \<Rightarrow> string" where
  "jsonString s = [DQUOTE] @ jsonBody s @ [DQUOTE]"

text \<open>A field with the option \<open>omitempty\<close>.\<close>

definition jsonField :: "string \<Rightarrow> string \<Rightarrow> string list" where
  "jsonField name v = (if v = [] then [] else [jsonString name @ '':'' @ jsonString v])"

definition jsonObject :: "string list \<Rightarrow> string" where
  "jsonObject fs = ''{'' @ Join fs '','' @ ''}''"

record ToolCall =
  tc_ID :: string
  tc_Type :: string
  tc_Name :: string
  tc_Arguments :: string

definition toolEntry :: "ToolCall \<Rightarrow> string" where
  "toolEntry c =
     jsonObject (jsonField ''id'' (tc_ID c) @ jsonField ''type'' (tc_Type c) @
       [jsonString ''function'' @ '':'' @
        jsonObject (jsonField ''name'' (tc_Name c) @ jsonField ''arguments'' (tc_Arguments c))])"

definition marshalToolCalls :: "ToolCall list \<Rightarrow> string" where
  "marshalToolCalls calls = (if calls = [] then [] else ''['' @ Join (map toolEntry calls) '','' @ '']'')"

text \<open>The adapters add the tool calls of an answer as one payload.\<close>

definition addToolCalls :: "ToolCall list \<Rightarrow> 'f LLMState \<Rightarrow> 'f LLMState" where
  "addToolCalls calls s =
     (if calls \<noteq> [] then let payload = marshalToolCalls calls in if payload \<noteq> [] then AddTool payload [] [] s else s
      else s)"

definition ToUpper :: "(string \<Rightarrow> string) \<Rightarrow> string \<Rightarrow> string" where
  "ToUpper uni s = (if list_all (\<lambda>c. (of_char c :: nat) < 128) s then map asciiUpper s else uni s)"

text \<open>A placeholder for a part of a message that is not text.\<close>

definition placeholder :: "(string \<Rightarrow> string) \<Rightarrow> string \<Rightarrow> string" where
  "placeholder uni ty = ''['' @ ToUpper uni ty @ '']''"

subsection \<open>A call of the client\<close>

datatype ('m, 'f) http_hook = HookUrl "('m, 'f) llm_env" string | HookEnd "('m, 'f) llm_env" http_end

fun do_hook :: "('m, 'f::{zero,plus,minus,inverse,ord}) http_hook \<Rightarrow> 'f LLMState \<times> ('m, 'f) llm_world \<Rightarrow> 'f LLMState \<times> ('m, 'f) llm_world" where
  "do_hook (HookUrl env url) (s, w) = (SetURL env url s, w)"
| "do_hook (HookEnd env h) (s, w) = HandleHttpcEnd env h (s, w)"

fun hook_on :: "('m, 'f) http_hook \<Rightarrow> bool" where
  "hook_on (HookUrl env url) = True"
| "hook_on (HookEnd env h) = LLMMode env"

datatype 'a sdk_result = Answer 'a | SdkErr string | SdkPanic

type_synonym ('m, 'f, 'r, 'a) sdk = "'r ctx \<Rightarrow> ('m, 'f) http_hook list \<times> 'a sdk_result"

definition sdk_call ::
  "('m, 'f::{zero,plus,minus,inverse,ord}, 'r, 'a) sdk \<Rightarrow> 'r ctx \<Rightarrow> addr \<Rightarrow> 'f LLMState \<times> ('m, 'f) llm_world \<Rightarrow>
   ('f LLMState \<times> ('m, 'f) llm_world) \<times> 'a sdk_result" where
  "sdk_call sdk c a sw = (let (hs, r) = sdk c in (if TakePending c = Some a then fold do_hook hs sw else sw, r))"

text \<open>A synchronous call: started, filled with the request, made, filled with the answer or the error, and
  ended by a deferred \<open>End\<close>, also if the client panics. The result goes to the caller as it is.\<close>

definition traced_call ::
  "('m, 'f::{zero,plus,minus,inverse,ord}) llm_env \<Rightarrow> Config \<Rightarrow> addr \<Rightarrow> 'r ctx \<Rightarrow> ('f LLMState \<Rightarrow> 'f LLMState) \<Rightarrow>
   ('m, 'f, 'r, 'a) sdk \<Rightarrow> ('a \<Rightarrow> 'f LLMState \<Rightarrow> 'f LLMState) \<Rightarrow> ('m, 'f) llm_env \<Rightarrow> ('m, 'f) llm_world \<Rightarrow>
   ('f LLMState \<times> ('m, 'f) llm_world) \<times> 'a sdk_result" where
  "traced_call env cfg a c inputs sdk outputs env' w =
     (let (c', s) = llm_Start env cfg a c;
          ((s1, w1), r) = sdk_call sdk c' a (inputs s, w)
      in (Step_End env' ((case r of
            Answer x \<Rightarrow> outputs x s1
          | SdkErr msg \<Rightarrow> SetError (Some msg) ''api_error'' s1
          | SdkPanic \<Rightarrow> s1), w1), r))"

subsection \<open>Streams\<close>

record 'f StreamCore =
  ss_step :: "'f LLMState"
  ss_once :: bool
  ss_content :: string
  ss_firstSeen :: bool

datatype ('m, 'f, 'e) stream_call =
    Got "('m, 'f) llm_env" 'e
  | Finished "('m, 'f) llm_env"
  | Failed "('m, 'f) llm_env" string
  | Closed "('m, 'f) llm_env"

fun is_got :: "('m, 'f, 'e) stream_call \<Rightarrow> bool" where
  "is_got (Got env e) = True"
| "is_got _ = False"

fun call_env :: "('m, 'f, 'e) stream_call \<Rightarrow> ('m, 'f) llm_env" where
  "call_env (Got env e) = env"
| "call_env (Finished env) = env"
| "call_env (Failed env msg) = env"
| "call_env (Closed env) = env"

text \<open>The error noted by a call, and the events a list of calls receives.\<close>

fun call_failure :: "('m, 'f, 'e) stream_call \<Rightarrow> string option" where
  "call_failure (Failed env msg) = Some msg"
| "call_failure _ = None"

definition call_error :: "('m, 'f, 'e) stream_call \<Rightarrow> 'f LLMState \<Rightarrow> 'f LLMState" where
  "call_error c = SetError (call_failure c) ''api_error''"

fun call_events :: "('m, 'f, 'e) stream_call \<Rightarrow> 'e list" where
  "call_events (Got env e) = [e]"
| "call_events _ = []"

text \<open>The first text of a stream is timed.\<close>

definition markFirst :: "('m, 'f) llm_env \<Rightarrow> bool \<Rightarrow> ('f, 'z) StreamCore_scheme \<Rightarrow> ('f, 'z) StreamCore_scheme" where
  "markFirst env b s =
     (if \<not> ss_firstSeen s \<and> b
      then s\<lparr>ss_step := RecordFirstToken (SystemNow env) (ss_step s), ss_firstSeen := True\<rparr> else s)"

text \<open>The body of \<open>finalize\<close>, which \<open>sync.Once\<close> runs once: the collected data goes into the step, which ends.\<close>

definition onceEnd ::
  "(('f, 'z) StreamCore_scheme \<Rightarrow> 'f LLMState) \<Rightarrow> ('m, 'f::{zero,plus,minus,inverse,ord}) llm_env \<Rightarrow>
   ('f, 'z) StreamCore_scheme \<times> ('m, 'f) llm_world \<Rightarrow> ('f, 'z) StreamCore_scheme \<times> ('m, 'f) llm_world" where
  "onceEnd flush env = (\<lambda>(s, w).
     if ss_once s then (s, w)
     else let (t, w') = Step_End env (flush s, w) in (s\<lparr>ss_once := True, ss_step := t\<rparr>, w'))"

subsection \<open>What the operations keep\<close>

lemma fold_setToken_keeps:
  "Error (fold setToken ts p) = Error p" "FinishReason (fold setToken ts p) = FinishReason p"
  by (induction ts arbitrary: p) (auto simp: setToken_def split_beta)

lemma SetTokens_keeps [simp]:
  "Error (pack (SetTokens t s)) = Error (pack s)" "FinishReason (pack (SetTokens t s)) = FinishReason (pack s)"
  "completionText (SetTokens t s) = completionText s" "reasoningText (SetTokens t s) = reasoningText s"
  "toolCallsText (SetTokens t s) = toolCallsText s" "disabled (SetTokens t s) = disabled s"
  by (simp_all add: SetTokens_def Step_SetTokens_def fold_setToken_keeps Let_def)

lemma AddOutputMessage_keeps [simp]:
  "pack (AddOutputMessage t s) = pack s" "reasoningText (AddOutputMessage t s) = reasoningText s"
  "toolCallsText (AddOutputMessage t s) = toolCallsText s" "disabled (AddOutputMessage t s) = disabled s"
  by (simp_all add: AddOutputMessage_def)

lemma AddReasoning_keeps [simp]:
  "pack (AddReasoning t s) = pack s" "completionText (AddReasoning t s) = completionText s"
  "toolCallsText (AddReasoning t s) = toolCallsText s" "disabled (AddReasoning t s) = disabled s"
  by (simp_all add: AddReasoning_def)

lemma SetFinishReason_keeps [simp]:
  "Error (pack (SetFinishReason r s)) = Error (pack s)" "completionText (SetFinishReason r s) = completionText s"
  "reasoningText (SetFinishReason r s) = reasoningText s" "toolCallsText (SetFinishReason r s) = toolCallsText s"
  "disabled (SetFinishReason r s) = disabled s" "InputTokens (pack (SetFinishReason r s)) = InputTokens (pack s)"
  "OutputTokens (pack (SetFinishReason r s)) = OutputTokens (pack s)"
  by (simp_all add: SetFinishReason_def)

lemma addToolCalls_keeps [simp]:
  "pack (addToolCalls cs s) = pack s" "completionText (addToolCalls cs s) = completionText s"
  "reasoningText (addToolCalls cs s) = reasoningText s" "disabled (addToolCalls cs s) = disabled s"
  by (simp_all add: addToolCalls_def AddTool_def Let_def)

lemma addToolCalls_flags: "flags (addToolCalls cs s) = flags s"
  by (simp add: addToolCalls_def accumulator_flags Let_def)

lemma marshalToolCalls_nonempty: "marshalToolCalls cs = [] \<longleftrightarrow> cs = []"
  by (simp add: marshalToolCalls_def)

lemma addToolCalls_text:
  "\<not> disabled s \<Longrightarrow> toolCallsText s = [] \<Longrightarrow> toolCallsText (addToolCalls cs s) = marshalToolCalls cs"
  by (auto simp: addToolCalls_def AddTool_def marshalToolCalls_nonempty Let_def) (simp add: marshalToolCalls_def)

lemma SetError_keeps [simp]:
  "completionText (SetError e t s) = completionText s" "reasoningText (SetError e t s) = reasoningText s"
  "toolCallsText (SetError e t s) = toolCallsText s" "disabled (SetError e t s) = disabled s"
  "FinishReason (pack (SetError e t s)) = FinishReason (pack s)"
  "InputTokens (pack (SetError e t s)) = InputTokens (pack s)"
  "OutputTokens (pack (SetError e t s)) = OutputTokens (pack s)"
  "flags (SetError e t s) = flags s"
  by (simp_all add: SetError_def Step_SetError_def flags_def split: option.split)

lemma SetError_error: "\<not> disabled s \<Longrightarrow> Error (pack (SetError (Some m) t s)) = m"
  by (simp add: SetError_def Step_SetError_def)

lemma added_text:
  "\<not> disabled s \<Longrightarrow> completionText (AddOutputMessage t s) = (if t = [] then completionText s else addLine (completionText s) t)"
  "\<not> disabled s \<Longrightarrow> reasoningText (AddReasoning t s) = (if t = [] then reasoningText s else addLine (reasoningText s) t)"
  by (simp_all add: AddOutputMessage_def AddReasoning_def)

lemma finish_set: "\<not> disabled s \<Longrightarrow> FinishReason (pack (SetFinishReason r s)) = r"
  by (simp add: SetFinishReason_def)

lemma finalPack_texts [simp]:
  "CompletionText (finalPack env s) = completionText s" "ReasoningText (finalPack env s) = reasoningText s"
  "ToolCallsText (finalPack env s) = toolCallsText s" "FinishReason (finalPack env s) = FinishReason (pack s)"
  "Error (finalPack env s) = Error (pack s)" "Success (finalPack env s) = (Error (pack s) = [])"
  by (simp_all add: finalPack_def Let_def split: option.split)

lemma call_error_keeps [simp]:
  "flags (call_error c s) = flags s" "disabled (call_error c s) = disabled s"
  "completionText (call_error c s) = completionText s" "reasoningText (call_error c s) = reasoningText s"
  "toolCallsText (call_error c s) = toolCallsText s" "FinishReason (pack (call_error c s)) = FinishReason (pack s)"
  "InputTokens (pack (call_error c s)) = InputTokens (pack s)" "OutputTokens (pack (call_error c s)) = OutputTokens (pack s)"
  by (simp_all add: call_error_def)

lemma call_error_first [simp]: "call_error c (s\<lparr>firstTokenMs := n\<rparr>) = (call_error c s)\<lparr>firstTokenMs := n\<rparr>"
  by (simp add: call_error_def SetError_def split: option.split)

lemma markFirst_keeps [simp]:
  "ss_once (markFirst env b s) = ss_once s" "ss_content (markFirst env b s) = ss_content s"
  "StreamCore.more (markFirst env b s) = StreamCore.more s"
  by (simp_all add: markFirst_def)

text \<open>The second state differs from the first at most in the time of the first text.\<close>

definition onlyFirst :: "'f LLMState \<Rightarrow> 'f LLMState \<Rightarrow> bool" where
  "onlyFirst s t \<longleftrightarrow> t = s\<lparr>firstTokenMs := firstTokenMs t\<rparr>"

lemma onlyFirst_refl [simp]: "onlyFirst s s"
  by (simp add: onlyFirst_def)

lemma onlyFirst_trans: "onlyFirst s t \<Longrightarrow> onlyFirst t u \<Longrightarrow> onlyFirst s u"
  by (cases s; cases t; cases u) (simp add: onlyFirst_def)

lemma onlyFirstE:
  assumes "onlyFirst s t"
  obtains n where "t = s\<lparr>firstTokenMs := n\<rparr>"
  using assms unfolding onlyFirst_def by blast

lemma flags_first [simp]: "flags (s\<lparr>firstTokenMs := n\<rparr>) = flags s"
  by (simp add: flags_def)

lemma RecordFirstToken_only [simp]: "onlyFirst s (RecordFirstToken now s)"
  by (simp add: onlyFirst_def RecordFirstToken_def)

lemma markFirst_only [simp]: "ss_step t = s \<Longrightarrow> onlyFirst s (ss_step (markFirst env b t))"
  by (auto simp: markFirst_def)

subsection \<open>Every stream is reported once\<close>

text \<open>
  \<open>absorb\<close> takes one event of the stream, \<open>flush\<close> is the step with all that was collected, \<open>deltaText\<close> the text of
  an event, and \<open>call\<close> what a call of the consumer does. Receiving an event changes nothing of the step but the
  time of the first text; any other call notes its error and ends the step once.
\<close>

locale llm_stream =
  fixes absorb :: "('m, 'f::{zero,plus,minus,inverse,ord}) llm_env \<Rightarrow> 'e \<Rightarrow> ('f, 'z) StreamCore_scheme \<Rightarrow> ('f, 'z) StreamCore_scheme"
    and flush :: "('f, 'z) StreamCore_scheme \<Rightarrow> 'f LLMState"
    and deltaText :: "'e \<Rightarrow> string"
    and call :: "('m, 'f, 'e) stream_call \<Rightarrow> ('f, 'z) StreamCore_scheme \<times> ('m, 'f) llm_world \<Rightarrow> ('f, 'z) StreamCore_scheme \<times> ('m, 'f) llm_world"
  assumes absorb_once: "ss_once (absorb env e s) = ss_once s"
    and absorb_step: "onlyFirst (ss_step s) (ss_step (absorb env e s))"
    and absorb_content: "ss_content (absorb env e s) = ss_content s @ deltaText e"
    and flush_flags: "flags (flush s) = flags (ss_step s)"
    and flush_completion: "\<not> disabled (ss_step s) \<Longrightarrow> completionText (ss_step s) = [] \<Longrightarrow> completionText (flush s) = ss_content s"
    and flush_error: "Error (pack (flush s)) = Error (pack (ss_step s))"
    and call_got: "call (Got env e) (s, w) = (absorb env e s, w)"
    and call_ends: "\<not> is_got c \<Longrightarrow> call c (s, w) = onceEnd flush (call_env c) (s\<lparr>ss_step := call_error c (ss_step s)\<rparr>, w)"
begin

lemma calls_after_end: "ss_once s \<Longrightarrow> snd (fold call cs (s, w)) = w"
proof (induction cs arbitrary: s)
  case (Cons c cs)
  then show ?case
  proof (cases c)
    case (Got env e)
    with Cons absorb_once [of env e s] show ?thesis by (simp add: call_got)
  qed (use Cons in \<open>simp_all add: call_ends onceEnd_def\<close>)
qed simp

lemma receive:
  assumes "list_all is_got cs"
  shows "\<exists>s'. fold call cs (s, w) = (s', w) \<and> ss_once s' = ss_once s \<and> onlyFirst (ss_step s) (ss_step s') \<and>
     ss_content s' = ss_content s @ concat (map deltaText (concat (map call_events cs)))"
  using assms
proof (induction cs arbitrary: s)
  case (Cons c cs)
  then obtain env e where c: "c = Got env e" by (cases c) auto
  from Cons.IH [of "absorb env e s"] Cons.prems c onlyFirst_trans [OF absorb_step [of s env e]] show ?case
    by (auto simp: call_got absorb_once absorb_content)
qed simp

lemma stream_world:
  assumes "\<not> ss_once s" and "list_all is_got pre" and "\<not> is_got c"
  shows "\<exists>s'. fold call pre (s, w) = (s', w) \<and>
     snd (fold call (pre @ c # post) (s, w)) =
     snd (Step_End (call_env c) (flush (s'\<lparr>ss_step := call_error c (ss_step s')\<rparr>), w))"
proof -
  from receive [OF assms(2), of s w] obtain s' where s': "fold call pre (s, w) = (s', w)" "\<not> ss_once s'"
    using assms(1) by auto
  obtain t w' where t: "Step_End (call_env c) (flush (s'\<lparr>ss_step := call_error c (ss_step s')\<rparr>), w) = (t, w')"
    by (cases "Step_End (call_env c) (flush (s'\<lparr>ss_step := call_error c (ss_step s')\<rparr>), w)") auto
  with s' assms(3) show ?thesis
    by (simp add: call_ends onceEnd_def calls_after_end)
qed

lemma stream_reported:
  assumes "\<not> ss_once s" and "ss_content s = []" and "list_all is_got pre" and "\<not> is_got c"
    and "\<not> disabled (ss_step s)" and "\<not> ended (ss_step s)" and "completionText (ss_step s) = []" and "LLMMode (call_env c)"
  shows "\<exists>s' p. fst (fold call pre (s, w)) = s' \<and>
     p = finalPack (call_env c) (flush (s'\<lparr>ss_step := call_error c (ss_step s')\<rparr>)) \<and>
     queue (snd (fold call (pre @ c # post) (s, w))) = queue w @ [p] \<and>
     meterCount (meter (snd (fold call (pre @ c # post) (s, w)))) = i64 (meterCount (meter w) + 1) \<and>
     CompletionText p = concat (map deltaText (concat (map call_events pre))) \<and>
     Error p = Error (pack (call_error c (ss_step s))) \<and> (Success p \<longleftrightarrow> Error p = [])"
proof -
  from receive [OF assms(3), of s w] obtain s' n where s': "fold call pre (s, w) = (s', w)"
      "ss_step s' = (ss_step s)\<lparr>firstTokenMs := n\<rparr>"
      "ss_content s' = concat (map deltaText (concat (map call_events pre)))"
    using assms(2) by (auto elim: onlyFirstE)
  let ?s = "s'\<lparr>ss_step := call_error c (ss_step s')\<rparr>"
  have d: "\<not> disabled (ss_step ?s)" and t: "completionText (ss_step ?s) = []"
    using assms(5,7) s'(2) by simp_all
  have f: "flags (flush ?s) = flags (ss_step s)"
    by (simp only: flush_flags) (simp add: s'(2))
  have e: "Error (pack (flush ?s)) = Error (pack (call_error c (ss_step s)))"
    using s'(2) by (simp add: flush_error)
  have "\<not> disabled (flush ?s)" "\<not> ended (flush ?s)" using f assms(5,6) by (simp_all add: flags_def)
  from Publish_effect [OF this assms(8), of w] stream_world [OF assms(1,3,4), of w post] s'(1)
  have "queue (snd (fold call (pre @ c # post) (s, w))) = queue w @ [finalPack (call_env c) (flush ?s)]"
    "meterCount (meter (snd (fold call (pre @ c # post) (s, w)))) = i64 (meterCount (meter w) + 1)"
    by (auto simp: Step_End_def)
  with s' e flush_completion [OF d t] show ?thesis by simp
qed

end

subsection \<open>Every call is reported once\<close>

lemma SetURL_flags: "flags (SetURL env url s) = flags s"
  by (auto simp: SetURL_def flags_def Let_def split: prod.split)

lemma do_hook_manual:
  assumes "\<not> disabled s" and "manualPublish s" and "hook_on h"
  shows "\<exists>s'. do_hook h (s, w) = (s', w) \<and> flags s' = flags s"
proof (cases h)
  case (HookEnd env e)
  with HandleHttpcEnd_prepare [of s env e w] assms show ?thesis by auto
qed (simp add: SetURL_flags)

lemma hooks_manual:
  assumes "\<not> disabled s" and "manualPublish s" and "list_all hook_on hs"
  shows "\<exists>s'. fold do_hook hs (s, w) = (s', w) \<and> flags s' = flags s"
  using assms
proof (induction hs arbitrary: s)
  case (Cons h hs)
  from do_hook_manual [of s h w] Cons.prems obtain s1 where s1: "do_hook h (s, w) = (s1, w)" "flags s1 = flags s" by auto
  then have "\<not> disabled s1" "manualPublish s1" using Cons.prems by (simp_all add: flags_def)
  with Cons.IH [of s1] Cons.prems s1 show ?case by auto
qed simp

lemma llm_Start_flags: "LLMMode env \<Longrightarrow> flags (snd (llm_Start env cfg a c)) = (False, False, True)"
  by (simp add: llm_Start_def MarkManualPublish_def NewLLMState_def emptyState_def flags_def Let_def split: prod.split)

lemma traced_call_once:
  fixes inputs :: "('f::{zero,plus,minus,inverse,ord}) LLMState \<Rightarrow> 'f LLMState"
  assumes "LLMMode env" and "LLMMode env'" and "\<And>s. flags (inputs s) = flags s" and "\<And>x s. flags (outputs x s) = flags s"
    and "\<And>c. list_all hook_on (fst (sdk c))"
  shows "\<exists>s p. queue (snd (fst (traced_call env cfg a c inputs sdk outputs env' w))) = queue w @ [p] \<and>
     meterCount (meter (snd (fst (traced_call env cfg a c inputs sdk outputs env' w)))) = i64 (meterCount (meter w) + 1) \<and>
     flags s = (False, False, True) \<and>
     p = finalPack env' (case snd (traced_call env cfg a c inputs sdk outputs env' w) of
            Answer x \<Rightarrow> outputs x s | SdkErr msg \<Rightarrow> SetError (Some msg) ''api_error'' s | SdkPanic \<Rightarrow> s)"
proof -
  obtain c' s0 where s0: "llm_Start env cfg a c = (c', s0)" by (cases "llm_Start env cfg a c")
  obtain hs r where r: "sdk c' = (hs, r)" by (cases "sdk c'")
  have f0: "flags (inputs s0) = (False, False, True)"
    using llm_Start_flags [OF assms(1), of cfg a c] s0 assms(3) by simp
  then have "\<exists>s1. (if TakePending c' = Some a then fold do_hook hs (inputs s0, w) else (inputs s0, w)) = (s1, w) \<and>
      flags s1 = (False, False, True)"
    using hooks_manual [of "inputs s0" hs w] assms(5) [of c'] r by (auto simp: flags_def)
  then obtain s1 where s1: "sdk_call sdk c' a (inputs s0, w) = ((s1, w), r)" "flags s1 = (False, False, True)"
    using r by (auto simp: sdk_call_def)
  let ?t = "case r of Answer x \<Rightarrow> outputs x s1 | SdkErr msg \<Rightarrow> SetError (Some msg) ''api_error'' s1 | SdkPanic \<Rightarrow> s1"
  have "flags ?t = (False, False, True)"
    using s1(2) assms(4) by (simp add: setter_flags split: sdk_result.split)
  then have "\<not> disabled ?t" "\<not> ended ?t" by (simp_all add: flags_def)
  from Publish_effect [OF this assms(2), of w] s0 s1 show ?thesis
    by (auto simp: traced_call_def Step_End_def)
qed

lemma fold_flags:
  assumes "\<And>x s. flags (f x s) = flags s"
  shows "flags (fold f xs s) = flags s"
  by (induction xs arbitrary: s) (simp_all add: assms)

text \<open>The property of a synchronous call: one pack is queued and one call counted, and an error of the client is
  in the pack.\<close>

definition reported_once ::
  "('m, 'f) llm_world \<Rightarrow> ('f LLMState \<times> ('m, 'f) llm_world) \<times> 'a sdk_result \<Rightarrow> bool" where
  "reported_once w x \<longleftrightarrow>
     (\<exists>p. queue (snd (fst x)) = queue w @ [p] \<and> meterCount (meter (snd (fst x))) = i64 (meterCount (meter w) + 1) \<and>
          (\<forall>msg. snd x = SdkErr msg \<longrightarrow> Error p = msg \<and> (Success p \<longleftrightarrow> msg = [])))"

lemma traced_call_reported:
  fixes inputs :: "('f::{zero,plus,minus,inverse,ord}) LLMState \<Rightarrow> 'f LLMState"
  assumes "LLMMode env" and "LLMMode env'" and "\<And>s. flags (inputs s) = flags s" and "\<And>x s. flags (outputs x s) = flags s"
    and "\<And>c. list_all hook_on (fst (sdk c))"
  shows "reported_once w (traced_call env cfg a c inputs sdk outputs env' w)"
  using traced_call_once [of env env' inputs outputs sdk cfg a c w] assms
  by (auto simp: reported_once_def flags_def SetError_error)

end
