(* ===== verification/Llm_Openai.thy ===== *)
theory Llm_Openai
  imports Llm_Adapter
begin

text \<open>
  The adapters of the two OpenAI clients: \<^verbatim>\<open>sashabaranov/go-openai\<close> (package whatapopenai, names with \<open>oai\<close>) and
  \<^verbatim>\<open>openai/openai-go\<close> (package whatapopenaigo, names with \<open>ogo\<close>). The records hold the fields of the requests and
  answers that the adapters read; an optional field of a client is an option. Temperatures are given as the
  converted \<^verbatim>\<open>float64\<close> value. \<open>up\<close> and \<open>low\<close> are \<^verbatim>\<open>strings.ToUpper\<close> and \<^verbatim>\<open>ToLower\<close> on texts that are not ASCII.
\<close>

subsection \<open>go-openai: requests and answers\<close>

datatype part_type = PartText | PartImageURL | PartOther string

record oai_part =
  op_Type :: part_type
  op_Text :: string

record oai_message =
  om_Role :: string
  om_Content :: string
  om_MultiContent :: "oai_part list"
  om_ToolCalls :: "ToolCall list"

record 'f oai_request =
  oq_Model :: string
  oq_Messages :: "oai_message list"
  oq_Temperature :: 'f

record prompt_details =
  pd_AudioTokens :: int
  pd_CachedTokens :: int

record completion_details =
  cd_AudioTokens :: int
  cd_ReasoningTokens :: int
  cd_AcceptedPredictionTokens :: int
  cd_RejectedPredictionTokens :: int

record oai_usage =
  ou_PromptTokens :: int
  ou_CompletionTokens :: int
  ou_TotalTokens :: int
  ou_PromptTokensDetails :: "prompt_details option"
  ou_CompletionTokensDetails :: "completion_details option"

text \<open>One choice of an answer, or of an event of a stream (where the texts are those of its delta).\<close>

record oai_choice =
  oc_Content :: string
  oc_Reasoning :: string
  oc_FinishReason :: string
  oc_ToolCalls :: "ToolCall list"

record oai_response =
  or_Choices :: "oai_choice list"
  or_Usage :: oai_usage

record oai_event =
  oe_Choices :: "oai_choice list"
  oe_Usage :: "oai_usage option"

definition openaiHost :: string where
  "openaiHost = ''api.openai.com''"

definition oai_chatConfig :: "'f oai_request \<Rightarrow> Config" where
  "oai_chatConfig req = \<lparr>cfg_Provider = openaiHost, cfg_Model = oq_Model req, cfg_OperationType = ''chat'', cfg_URL = []\<rparr>"

definition oai_partText :: "(string \<Rightarrow> string) \<Rightarrow> oai_part \<Rightarrow> string" where
  "oai_partText up p =
     (case op_Type p of
        PartText \<Rightarrow> op_Text p
      | PartImageURL \<Rightarrow> ''[IMAGE]''
      | PartOther ty \<Rightarrow> if ty \<noteq> [] then placeholder up ty else [])"

definition oai_chatMessageText :: "(string \<Rightarrow> string) \<Rightarrow> oai_message \<Rightarrow> string" where
  "oai_chatMessageText up m =
     (if om_Content m \<noteq> [] then om_Content m
      else fold (\<lambda>p out. let chunk = oai_partText up p in if chunk = [] then out else addLine out chunk) (om_MultiContent m) [])"

definition oai_fillMessage :: "(string \<Rightarrow> string) \<Rightarrow> (string \<Rightarrow> string) \<Rightarrow> oai_message \<Rightarrow> 'f LLMState \<Rightarrow> 'f LLMState" where
  "oai_fillMessage up low m s =
     (let t = oai_chatMessageText up m; role = ToLower low (om_Role m) in
      if t = [] \<and> om_ToolCalls m = [] then s
      else if role = ''system'' \<or> role = ''developer'' then AddSystemMessage t s
      else if role = ''user'' \<or> role = ''assistant'' then AddInputMessage t s
      else if role = ''tool'' \<or> role = ''function'' then AddToolResult t s
      else AddInputMessage t s)"

definition oai_fillChatInputs :: "(string \<Rightarrow> string) \<Rightarrow> (string \<Rightarrow> string) \<Rightarrow> oai_message list \<Rightarrow> 'f LLMState \<Rightarrow> 'f LLMState" where
  "oai_fillChatInputs up low = fold (oai_fillMessage up low)"

definition zeroTokens :: "('f::zero) Tokens" where
  "zeroTokens = \<lparr>Input = 0, Output = 0, Total = 0, Cached = 0, Reasoning = 0, AudioInput = 0, AudioOutput = 0,
     AcceptedPrediction = 0, RejectedPrediction = 0, CacheCreationInput = 0, CacheReadInput = 0,
     tk_EmbeddingCount = 0, tk_Dimensions = 0, tk_Similarity = 0\<rparr>"

definition oai_usageToTokens :: "oai_usage \<Rightarrow> ('f::zero) Tokens" where
  "oai_usageToTokens u =
     (let t0 = zeroTokens\<lparr>Input := ou_PromptTokens u, Output := ou_CompletionTokens u, Total := ou_TotalTokens u\<rparr>;
          t1 = (case ou_PromptTokensDetails u of
                  None \<Rightarrow> t0
                | Some d \<Rightarrow> t0\<lparr>AudioInput := pd_AudioTokens d, Cached := pd_CachedTokens d\<rparr>)
      in case ou_CompletionTokensDetails u of
           None \<Rightarrow> t1
         | Some d \<Rightarrow> t1\<lparr>AudioOutput := cd_AudioTokens d, Reasoning := cd_ReasoningTokens d,
                        AcceptedPrediction := cd_AcceptedPredictionTokens d,
                        RejectedPrediction := cd_RejectedPredictionTokens d\<rparr>)"

definition oai_fillChoice :: "oai_choice \<Rightarrow> 'f LLMState \<Rightarrow> 'f LLMState" where
  "oai_fillChoice ch s0 =
     (let s1 = (if oc_Content ch \<noteq> [] then AddOutputMessage (oc_Content ch) s0 else s0);
          s2 = (if oc_Reasoning ch \<noteq> [] then AddReasoning (oc_Reasoning ch) s1 else s1);
          s3 = (if oc_FinishReason ch \<noteq> [] then SetFinishReason (oc_FinishReason ch) s2 else s2)
      in addToolCalls (oc_ToolCalls ch) s3)"

definition oai_fillChatOutput :: "oai_response \<Rightarrow> ('f::zero) LLMState \<Rightarrow> 'f LLMState" where
  "oai_fillChatOutput resp s =
     SetTokens (oai_usageToTokens (or_Usage resp))
       (case or_Choices resp of [] \<Rightarrow> s | ch # _ \<Rightarrow> oai_fillChoice ch s)"

subsection \<open>go-openai: calls\<close>

definition oai_fillRequest ::
  "(string \<Rightarrow> string) \<Rightarrow> (string \<Rightarrow> string) \<Rightarrow> ('f::zero) oai_request \<Rightarrow> 'f LLMState \<Rightarrow> 'f LLMState" where
  "oai_fillRequest up low req s0 =
     (let s1 = oai_fillChatInputs up low (oq_Messages req) s0
      in if oq_Temperature req \<noteq> 0 then SetTemperature (oq_Temperature req) s1 else s1)"

definition CreateChatCompletion ::
  "(string \<Rightarrow> string) \<Rightarrow> (string \<Rightarrow> string) \<Rightarrow> ('m, 'f::{zero,plus,minus,inverse,ord}) llm_env \<Rightarrow> 'f oai_request \<Rightarrow> addr \<Rightarrow> 'r ctx \<Rightarrow>
   ('m, 'f, 'r, oai_response) sdk \<Rightarrow> ('m, 'f) llm_env \<Rightarrow> ('m, 'f) llm_world \<Rightarrow>
   ('f LLMState \<times> ('m, 'f) llm_world) \<times> oai_response sdk_result" where
  "CreateChatCompletion up low env req a c sdk env' w =
     traced_call env (oai_chatConfig req) a c (oai_fillRequest up low req) sdk oai_fillChatOutput env' w"

datatype prompt = PromptString string | PromptStrings "string list" | PromptOther

definition completionPromptText :: "prompt \<Rightarrow> string" where
  "completionPromptText p = (case p of PromptString v \<Rightarrow> v | PromptStrings vs \<Rightarrow> Join vs [NL] | PromptOther \<Rightarrow> [])"

record 'f completion_request =
  cq_Model :: string
  cq_Prompt :: prompt
  cq_Temperature :: 'f

record completion_response =
  cr_Choices :: "(string \<times> string) list"
  cr_Usage :: "oai_usage option"

definition completionConfig :: "'f completion_request \<Rightarrow> Config" where
  "completionConfig req =
     \<lparr>cfg_Provider = openaiHost, cfg_Model = cq_Model req, cfg_OperationType = ''completions'', cfg_URL = []\<rparr>"

definition fillCompletionInput :: "('f::zero) completion_request \<Rightarrow> 'f LLMState \<Rightarrow> 'f LLMState" where
  "fillCompletionInput req s0 =
     (let prompt = completionPromptText (cq_Prompt req);
          s1 = (if prompt \<noteq> [] then AddInputMessage prompt s0 else s0)
      in if cq_Temperature req \<noteq> 0 then SetTemperature (cq_Temperature req) s1 else s1)"

definition fillCompletionOutput :: "completion_response \<Rightarrow> ('f::zero) LLMState \<Rightarrow> 'f LLMState" where
  "fillCompletionOutput resp s0 =
     (let s1 = (case cr_Choices resp of
                  [] \<Rightarrow> s0
                | (t, r) # _ \<Rightarrow>
                    let s = (if t \<noteq> [] then AddOutputMessage t s0 else s0)
                    in if r \<noteq> [] then SetFinishReason r s else s)
      in case cr_Usage resp of None \<Rightarrow> s1 | Some u \<Rightarrow> SetTokens (oai_usageToTokens u) s1)"

definition CreateCompletion ::
  "('m, 'f::{zero,plus,minus,inverse,ord}) llm_env \<Rightarrow> 'f completion_request \<Rightarrow> addr \<Rightarrow> 'r ctx \<Rightarrow>
   ('m, 'f, 'r, completion_response) sdk \<Rightarrow> ('m, 'f) llm_env \<Rightarrow> ('m, 'f) llm_world \<Rightarrow>
   ('f LLMState \<times> ('m, 'f) llm_world) \<times> completion_response sdk_result" where
  "CreateCompletion env req a c sdk env' w =
     traced_call env (completionConfig req) a c (fillCompletionInput req) sdk fillCompletionOutput env' w"

record 'v embedding_response =
  er_Data :: "'v list list"
  er_Usage :: oai_usage

definition embeddingConfig :: "string \<Rightarrow> Config" where
  "embeddingConfig model = \<lparr>cfg_Provider = openaiHost, cfg_Model = model, cfg_OperationType = ''embeddings'', cfg_URL = []\<rparr>"

definition embeddingTokens :: "'v embedding_response \<Rightarrow> ('f::zero) Tokens" where
  "embeddingTokens resp =
     (let t = (oai_usageToTokens (er_Usage resp))\<lparr>tk_EmbeddingCount := int (length (er_Data resp))\<rparr>
      in case er_Data resp of [] \<Rightarrow> t | v # _ \<Rightarrow> t\<lparr>tk_Dimensions := int (length v)\<rparr>)"

definition CreateEmbeddings ::
  "('m, 'f::{zero,plus,minus,inverse,ord}) llm_env \<Rightarrow> string \<Rightarrow> addr \<Rightarrow> 'r ctx \<Rightarrow>
   ('m, 'f, 'r, 'v embedding_response) sdk \<Rightarrow> ('m, 'f) llm_env \<Rightarrow> ('m, 'f) llm_world \<Rightarrow>
   ('f LLMState \<times> ('m, 'f) llm_world) \<times> 'v embedding_response sdk_result" where
  "CreateEmbeddings env model a c sdk env' w =
     traced_call env (embeddingConfig model) a c (\<lambda>s. s) sdk (\<lambda>resp. SetTokens (embeddingTokens resp)) env' w"

text \<open>The functions for rewritten call sites: a nil client gives an empty answer and no step.\<close>

definition WrapAndCreateChatCompletion where
  "WrapAndCreateChatCompletion up low env client a c req env' w =
     map_option (\<lambda>sdk. CreateChatCompletion up low env req a c sdk env' w) client"

definition WrapAndCreateCompletion where
  "WrapAndCreateCompletion env client a c req env' w = map_option (\<lambda>sdk. CreateCompletion env req a c sdk env' w) client"

definition WrapAndCreateEmbeddings where
  "WrapAndCreateEmbeddings env client a c model env' w = map_option (\<lambda>sdk. CreateEmbeddings env model a c sdk env' w) client"

subsection \<open>go-openai: streams\<close>

record 'f OaiStream = "'f StreamCore" +
  reasonBuilder :: string
  lastUsage :: "oai_usage option"
  lastFinishReason :: string
  lastToolCalls :: "ToolCall list"

definition oai_stream :: "'f LLMState \<Rightarrow> 'f OaiStream" where
  "oai_stream step = \<lparr>ss_step = step, ss_once = False, ss_content = [], ss_firstSeen = False, reasonBuilder = [],
     lastUsage = None, lastFinishReason = [], lastToolCalls = []\<rparr>"

text \<open>The result of \<^verbatim>\<open>Recv\<close> of the stream below.\<close>

datatype 'e recv = RecvEvent 'e | RecvEOF | RecvErr string

definition oai_absorbChoice :: "('m, 'f) llm_env \<Rightarrow> oai_choice \<Rightarrow> 'f OaiStream \<Rightarrow> 'f OaiStream" where
  "oai_absorbChoice env ch s0 =
     (let s1 = markFirst env (oc_Content ch \<noteq> [] \<or> oc_Reasoning ch \<noteq> []) s0;
          s2 = (if oc_Content ch \<noteq> [] then s1\<lparr>ss_content := ss_content s1 @ oc_Content ch\<rparr> else s1);
          s3 = (if oc_Reasoning ch \<noteq> [] then s2\<lparr>reasonBuilder := reasonBuilder s2 @ oc_Reasoning ch\<rparr> else s2);
          s4 = (if oc_FinishReason ch \<noteq> [] then s3\<lparr>lastFinishReason := oc_FinishReason ch\<rparr> else s3)
      in if oc_ToolCalls ch \<noteq> [] then s4\<lparr>lastToolCalls := oc_ToolCalls ch\<rparr> else s4)"

definition oai_absorb :: "('m, 'f) llm_env \<Rightarrow> oai_event \<Rightarrow> 'f OaiStream \<Rightarrow> 'f OaiStream" where
  "oai_absorb env e s =
     (let s1 = fold (oai_absorbChoice env) (oe_Choices e) s
      in if oe_Usage e \<noteq> None then s1\<lparr>lastUsage := oe_Usage e\<rparr> else s1)"

definition oai_flush :: "('f::zero) OaiStream \<Rightarrow> 'f LLMState" where
  "oai_flush s =
     (let t0 = ss_step s;
          t1 = (if ss_content s \<noteq> [] then AddOutputMessage (ss_content s) t0 else t0);
          t2 = (if reasonBuilder s \<noteq> [] then AddReasoning (reasonBuilder s) t1 else t1);
          t3 = (case lastUsage s of None \<Rightarrow> t2 | Some u \<Rightarrow> SetTokens (oai_usageToTokens u) t2);
          t4 = (if lastFinishReason s \<noteq> [] then SetFinishReason (lastFinishReason s) t3 else t3)
      in addToolCalls (lastToolCalls s) t4)"

definition oai_finalize ::
  "('m, 'f::{zero,plus,minus,inverse,ord}) llm_env \<Rightarrow> 'f OaiStream \<times> ('m, 'f) llm_world \<Rightarrow> 'f OaiStream \<times> ('m, 'f) llm_world" where
  "oai_finalize = onceEnd oai_flush"

text \<open>The result for the caller is that of the stream below.\<close>

definition oai_Recv ::
  "('m, 'f::{zero,plus,minus,inverse,ord}) llm_env \<Rightarrow> oai_event recv \<Rightarrow> 'f OaiStream \<times> ('m, 'f) llm_world \<Rightarrow>
   ('f OaiStream \<times> ('m, 'f) llm_world) \<times> oai_event recv" where
  "oai_Recv env r = (\<lambda>(s, w).
     (case r of
        RecvEOF \<Rightarrow> oai_finalize env (s, w)
      | RecvErr msg \<Rightarrow> oai_finalize env (s\<lparr>ss_step := SetError (Some msg) ''api_error'' (ss_step s)\<rparr>, w)
      | RecvEvent e \<Rightarrow> (oai_absorb env e s, w), r))"

definition oai_Close ::
  "('m, 'f::{zero,plus,minus,inverse,ord}) llm_env \<Rightarrow> 'f OaiStream \<times> ('m, 'f) llm_world \<Rightarrow> 'f OaiStream \<times> ('m, 'f) llm_world" where
  "oai_Close env = oai_finalize env"

fun oai_use ::
  "('m, 'f::{zero,plus,minus,inverse,ord}, oai_event) stream_call \<Rightarrow> 'f OaiStream \<times> ('m, 'f) llm_world \<Rightarrow> 'f OaiStream \<times> ('m, 'f) llm_world" where
  "oai_use (Got env e) sw = fst (oai_Recv env (RecvEvent e) sw)"
| "oai_use (Finished env) sw = fst (oai_Recv env RecvEOF sw)"
| "oai_use (Failed env msg) sw = fst (oai_Recv env (RecvErr msg) sw)"
| "oai_use (Closed env) sw = oai_Close env sw"

text \<open>The start of a stream: an error of the client ends the step, a panic of it does not.\<close>

definition CreateChatCompletionStream ::
  "(string \<Rightarrow> string) \<Rightarrow> (string \<Rightarrow> string) \<Rightarrow> ('m, 'f::{zero,plus,minus,inverse,ord}) llm_env \<Rightarrow> 'f oai_request \<Rightarrow> addr \<Rightarrow> 'r ctx \<Rightarrow>
   ('m, 'f, 'r, unit) sdk \<Rightarrow> ('m, 'f) llm_env \<Rightarrow> ('m, 'f) llm_world \<Rightarrow>
   ('f LLMState \<times> ('m, 'f) llm_world) \<times> 'f OaiStream sdk_result" where
  "CreateChatCompletionStream up low env req a c sdk env' w =
     (let (c', s) = llm_Start env (oai_chatConfig req) a c;
          ((s1, w1), r) = sdk_call sdk c' a (MarkStream (oai_fillRequest up low req s), w)
      in case r of
           SdkErr msg \<Rightarrow> (Step_End env' (SetError (Some msg) ''api_error'' s1, w1), SdkErr msg)
         | SdkPanic \<Rightarrow> ((s1, w1), SdkPanic)
         | Answer x \<Rightarrow> ((s1, w1), Answer (oai_stream s1)))"

definition WrapAndCreateChatCompletionStream where
  "WrapAndCreateChatCompletionStream up low env client a c req env' w =
     map_option (\<lambda>sdk. CreateChatCompletionStream up low env req a c sdk env' w) client"

subsection \<open>The wrapped transport\<close>

datatype 't round_tripper = NilTransport | DefaultTransport | OtherTransport 't | WrapRoundTrip bool "'t round_tripper"

datatype 't doer = NilDoer | HttpClient "'t round_tripper" | CustomDoer

definition NewLLMRoundTrip :: "'t round_tripper \<Rightarrow> 't round_tripper" where
  "NewLLMRoundTrip t = WrapRoundTrip True t"

definition wrappedHTTPClient :: "'t doer" where
  "wrappedHTTPClient = HttpClient (NewLLMRoundTrip DefaultTransport)"

definition ensureWrappedDoer :: "'t doer \<Rightarrow> 't doer" where
  "ensureWrappedDoer d =
     (case d of
        NilDoer \<Rightarrow> wrappedHTTPClient
      | CustomDoer \<Rightarrow> CustomDoer
      | HttpClient (WrapRoundTrip b t) \<Rightarrow> d
      | HttpClient t \<Rightarrow> HttpClient (NewLLMRoundTrip t))"

text \<open>The constructors: the HTTP client in the configuration they pass on, or the options, of which a later one
  overrides an earlier one.\<close>

definition oai_NewClient :: "('t doer \<Rightarrow> 'c) \<Rightarrow> 'c" where
  "oai_NewClient newClientWithConfig = newClientWithConfig wrappedHTTPClient"

definition oai_NewClientFromConfig :: "('t doer \<Rightarrow> 'c) \<Rightarrow> 't doer \<Rightarrow> 'c" where
  "oai_NewClientFromConfig newClientWithConfig d = newClientWithConfig (ensureWrappedDoer d)"

datatype ('t, 'o) request_option = WithHTTPClient "'t doer" | OtherOption 'o

definition sse_NewClient :: "(('t, 'o) request_option list \<Rightarrow> 'c) \<Rightarrow> ('t, 'o) request_option list \<Rightarrow> 'c" where
  "sse_NewClient newClient opts = newClient (WithHTTPClient wrappedHTTPClient # opts)"

lemma ensureWrappedDoer_once:
  "ensureWrappedDoer (ensureWrappedDoer d) = ensureWrappedDoer d"
  "d = CustomDoer \<or> (\<exists>b t. ensureWrappedDoer d = HttpClient (WrapRoundTrip b t))"
  by (auto simp: ensureWrappedDoer_def wrappedHTTPClient_def NewLLMRoundTrip_def split: doer.splits round_tripper.splits)

subsection \<open>openai-go: requests and answers\<close>

datatype user_part = UserText string | UserImageURL | UserInputAudio | UserFile | UserOther

datatype assistant_part = AssistantText string | AssistantRefusal string | AssistantOther

text \<open>The union of the messages; the content of a user or an assistant is a string if that is set, else parts.\<close>

datatype ogo_message =
    OfSystem string "string list"
  | OfUser "string option" "user_part list"
  | OfAssistant "string option" "assistant_part list"
  | OfTool string
  | OfDeveloper string
  | OfNone

definition contentUnionString :: "string \<Rightarrow> string list \<Rightarrow> string" where
  "contentUnionString str parts =
     (if str \<noteq> [] then str else if parts = [] then [] else Join (filter (\<lambda>p. p \<noteq> []) parts) [NL])"

fun userPart :: "user_part \<Rightarrow> string list" where
  "userPart (UserText t) = (if t \<noteq> [] then [t] else [])"
| "userPart UserImageURL = [''[IMAGE]'']"
| "userPart UserInputAudio = [''[AUDIO]'']"
| "userPart UserFile = [''[FILE]'']"
| "userPart UserOther = []"

fun assistantPart :: "assistant_part \<Rightarrow> string list" where
  "assistantPart (AssistantText t) = (if t \<noteq> [] then [t] else [])"
| "assistantPart (AssistantRefusal r) = (if r \<noteq> [] then [''[REFUSAL] '' @ r] else [])"
| "assistantPart AssistantOther = []"

fun ogo_messageParamText :: "ogo_message \<Rightarrow> string \<times> string" where
  "ogo_messageParamText (OfSystem str parts) = (contentUnionString str parts, ''system'')"
| "ogo_messageParamText (OfUser (Some str) parts) = (str, ''user'')"
| "ogo_messageParamText (OfUser None parts) = (Join (concat (map userPart parts)) [NL], ''user'')"
| "ogo_messageParamText (OfAssistant (Some str) parts) = (str, ''assistant'')"
| "ogo_messageParamText (OfAssistant None parts) = (Join (concat (map assistantPart parts)) [NL], ''assistant'')"
| "ogo_messageParamText (OfTool str) = (contentUnionString str [], ''tool'')"
| "ogo_messageParamText (OfDeveloper str) = (contentUnionString str [], ''system'')"
| "ogo_messageParamText OfNone = ([], [])"

definition ogo_fillMessage :: "ogo_message \<Rightarrow> 'f LLMState \<Rightarrow> 'f LLMState" where
  "ogo_fillMessage m s =
     (let (t, role) = ogo_messageParamText m in
      if t = [] then s
      else if role = ''system'' then AddSystemMessage t s
      else AddInputMessage t s)"

record 'f ogo_params =
  gp_Model :: string
  gp_Messages :: "ogo_message list"
  gp_Temperature :: "'f option"

record ogo_usage =
  gu_PromptTokens :: int
  gu_CompletionTokens :: int
  gu_TotalTokens :: int
  gu_Prompt :: prompt_details
  gu_Completion :: completion_details

record ogo_choice =
  gc_Content :: string
  gc_Refusal :: string
  gc_ToolCalls :: "ToolCall list"
  gc_FinishReason :: string

record ogo_response =
  gr_Choices :: "ogo_choice list"
  gr_Usage :: ogo_usage

definition ogo_chatConfig :: "'f ogo_params \<Rightarrow> Config" where
  "ogo_chatConfig p = \<lparr>cfg_Provider = openaiHost, cfg_Model = gp_Model p, cfg_OperationType = ''chat'', cfg_URL = []\<rparr>"

definition ogo_fillRequest :: "'f ogo_params \<Rightarrow> 'f LLMState \<Rightarrow> 'f LLMState" where
  "ogo_fillRequest p s0 =
     (let s1 = fold ogo_fillMessage (gp_Messages p) s0
      in case gp_Temperature p of None \<Rightarrow> s1 | Some t \<Rightarrow> SetTemperature t s1)"

definition ogo_usageToTokens :: "ogo_usage \<Rightarrow> ('f::zero) Tokens" where
  "ogo_usageToTokens u =
     zeroTokens\<lparr>Input := gu_PromptTokens u, Output := gu_CompletionTokens u, Total := gu_TotalTokens u,
       Cached := pd_CachedTokens (gu_Prompt u), AudioInput := pd_AudioTokens (gu_Prompt u),
       AudioOutput := cd_AudioTokens (gu_Completion u), Reasoning := cd_ReasoningTokens (gu_Completion u),
       AcceptedPrediction := cd_AcceptedPredictionTokens (gu_Completion u),
       RejectedPrediction := cd_RejectedPredictionTokens (gu_Completion u)\<rparr>"

text \<open>The tool calls of this client are all given the type \<open>function\<close>.\<close>

definition ogo_toolCalls :: "ToolCall list \<Rightarrow> ToolCall list" where
  "ogo_toolCalls = map (\<lambda>c. c\<lparr>tc_Type := ''function''\<rparr>)"

definition ogo_fillChatOutput :: "ogo_response option \<Rightarrow> ('f::zero) LLMState \<Rightarrow> 'f LLMState" where
  "ogo_fillChatOutput resp s0 =
     (case resp of
        None \<Rightarrow> s0
      | Some r \<Rightarrow>
          (case gr_Choices r of
             [] \<Rightarrow> s0
           | ch # _ \<Rightarrow>
               let s1 = (if gc_Content ch \<noteq> [] then AddOutputMessage (gc_Content ch) s0 else s0);
                   s2 = (if gc_Refusal ch \<noteq> [] then AddReasoning (''[REFUSAL] '' @ gc_Refusal ch) s1 else s1);
                   s3 = addToolCalls (ogo_toolCalls (gc_ToolCalls ch)) s2;
                   s4 = (if gc_FinishReason ch \<noteq> [] then SetFinishReason (gc_FinishReason ch) s3 else s3)
               in SetTokens (ogo_usageToTokens (gr_Usage r)) s4))"

definition WrapAndNewChatCompletion ::
  "('m, 'f::{zero,plus,minus,inverse,ord}) llm_env \<Rightarrow> 'f ogo_params \<Rightarrow> addr \<Rightarrow> 'r ctx \<Rightarrow>
   ('m, 'f, 'r, ogo_response option) sdk \<Rightarrow> ('m, 'f) llm_env \<Rightarrow> ('m, 'f) llm_world \<Rightarrow>
   ('f LLMState \<times> ('m, 'f) llm_world) \<times> ogo_response option sdk_result" where
  "WrapAndNewChatCompletion env p a c sdk env' w =
     traced_call env (ogo_chatConfig p) a c (ogo_fillRequest p) sdk ogo_fillChatOutput env' w"

subsection \<open>openai-go: streams\<close>

record ogo_event =
  ge_Model :: string
  ge_Choices :: "(string \<times> string) list"
  ge_Usage :: ogo_usage

definition zeroUsage :: ogo_usage where
  "zeroUsage = \<lparr>gu_PromptTokens = 0, gu_CompletionTokens = 0, gu_TotalTokens = 0,
     gu_Prompt = \<lparr>pd_AudioTokens = 0, pd_CachedTokens = 0\<rparr>,
     gu_Completion = \<lparr>cd_AudioTokens = 0, cd_ReasoningTokens = 0, cd_AcceptedPredictionTokens = 0, cd_RejectedPredictionTokens = 0\<rparr>\<rparr>"

record 'f OgoStream = "'f StreamCore" +
  finishReason :: string
  gusage :: ogo_usage
  gmodel :: string

definition ogo_stream :: "'f LLMState \<Rightarrow> 'f OgoStream" where
  "ogo_stream step = \<lparr>ss_step = step, ss_once = False, ss_content = [], ss_firstSeen = False, finishReason = [],
     gusage = zeroUsage, gmodel = []\<rparr>"

definition ogo_absorb :: "('m, 'f) llm_env \<Rightarrow> ogo_event \<Rightarrow> 'f OgoStream \<Rightarrow> 'f OgoStream" where
  "ogo_absorb env e s0 =
     (let s1 = (if ge_Model e \<noteq> [] then s0\<lparr>gmodel := ge_Model e\<rparr> else s0);
          s2 = (case ge_Choices e of
                  [] \<Rightarrow> s1
                | (content, reason) # _ \<Rightarrow>
                    let t = (if content \<noteq> []
                             then (let t0 = markFirst env True s1 in t0\<lparr>ss_content := ss_content t0 @ content\<rparr>) else s1)
                    in if reason \<noteq> [] then t\<lparr>finishReason := reason\<rparr> else t)
      in if gu_TotalTokens (ge_Usage e) \<noteq> 0 \<or> gu_PromptTokens (ge_Usage e) \<noteq> 0 \<or> gu_CompletionTokens (ge_Usage e) \<noteq> 0
         then s2\<lparr>gusage := ge_Usage e\<rparr> else s2)"

definition ogo_flush :: "('f::zero) OgoStream \<Rightarrow> 'f LLMState" where
  "ogo_flush s =
     (let t0 = ss_step s;
          t1 = (if ss_content s \<noteq> [] then AddOutputMessage (ss_content s) t0 else t0);
          t2 = (if finishReason s \<noteq> [] then SetFinishReason (finishReason s) t1 else t1)
      in SetTokens (ogo_usageToTokens (gusage s)) t2)"

definition ogo_finalize ::
  "('m, 'f::{zero,plus,minus,inverse,ord}) llm_env \<Rightarrow> 'f OgoStream \<times> ('m, 'f) llm_world \<Rightarrow> 'f OgoStream \<times> ('m, 'f) llm_world" where
  "ogo_finalize = onceEnd ogo_flush"

text \<open>\<^verbatim>\<open>Next\<close>: the argument is the current event if the stream below has one.\<close>

definition ogo_Next ::
  "('m, 'f::{zero,plus,minus,inverse,ord}) llm_env \<Rightarrow> ogo_event option \<Rightarrow> 'f OgoStream \<times> ('m, 'f) llm_world \<Rightarrow>
   ('f OgoStream \<times> ('m, 'f) llm_world) \<times> bool" where
  "ogo_Next env r = (\<lambda>(s, w).
     case r of None \<Rightarrow> (ogo_finalize env (s, w), False) | Some e \<Rightarrow> ((ogo_absorb env e s, w), True))"

definition ogo_Err ::
  "('m, 'f::{zero,plus,minus,inverse,ord}) llm_env \<Rightarrow> string option \<Rightarrow> 'f OgoStream \<times> ('m, 'f) llm_world \<Rightarrow>
   ('f OgoStream \<times> ('m, 'f) llm_world) \<times> string option" where
  "ogo_Err env err = (\<lambda>(s, w).
     (case err of
        None \<Rightarrow> (s, w)
      | Some msg \<Rightarrow> ogo_finalize env (s\<lparr>ss_step := SetError (Some msg) ''api_error'' (ss_step s)\<rparr>, w), err))"

definition ogo_Close ::
  "('m, 'f::{zero,plus,minus,inverse,ord}) llm_env \<Rightarrow> 'f OgoStream \<times> ('m, 'f) llm_world \<Rightarrow> 'f OgoStream \<times> ('m, 'f) llm_world" where
  "ogo_Close env = ogo_finalize env"

fun ogo_use ::
  "('m, 'f::{zero,plus,minus,inverse,ord}, ogo_event) stream_call \<Rightarrow> 'f OgoStream \<times> ('m, 'f) llm_world \<Rightarrow> 'f OgoStream \<times> ('m, 'f) llm_world" where
  "ogo_use (Got env e) sw = fst (ogo_Next env (Some e) sw)"
| "ogo_use (Finished env) sw = fst (ogo_Next env None sw)"
| "ogo_use (Failed env msg) sw = fst (ogo_Err env (Some msg) sw)"
| "ogo_use (Closed env) sw = ogo_Close env sw"

definition WrapAndNewChatCompletionStreaming ::
  "('m, 'f::{zero,plus,minus,inverse,ord}) llm_env \<Rightarrow> 'f ogo_params \<Rightarrow> addr \<Rightarrow> 'r ctx \<Rightarrow> ('m, 'f, 'r, unit) sdk \<Rightarrow>
   ('m, 'f) llm_world \<Rightarrow> ('f LLMState \<times> ('m, 'f) llm_world) \<times> 'f OgoStream sdk_result" where
  "WrapAndNewChatCompletionStreaming env p a c sdk w =
     (let (c', s) = llm_Start env (ogo_chatConfig p) a c;
          ((s1, w1), r) = sdk_call sdk c' a (MarkStream (ogo_fillRequest p s), w)
      in ((s1, w1), case r of SdkPanic \<Rightarrow> SdkPanic | _ \<Rightarrow> Answer (ogo_stream s1)))"


subsection \<open>The streams keep the contract\<close>

definition oai_text :: "oai_event \<Rightarrow> string" where
  "oai_text e = concat (map oc_Content (oe_Choices e))"

lemma oai_markFirst [simp]:
  "reasonBuilder (markFirst env b s) = reasonBuilder s" "lastUsage (markFirst env b s) = lastUsage s"
  "lastFinishReason (markFirst env b s) = lastFinishReason s" "lastToolCalls (markFirst env b s) = lastToolCalls s"
  by (simp_all add: markFirst_def)

lemma oai_absorbChoice_fields:
  "ss_once (oai_absorbChoice env ch s) = ss_once s"
  "ss_content (oai_absorbChoice env ch s) = ss_content s @ oc_Content ch"
  "reasonBuilder (oai_absorbChoice env ch s) = reasonBuilder s @ oc_Reasoning ch"
  "lastUsage (oai_absorbChoice env ch s) = lastUsage s"
  "lastFinishReason (oai_absorbChoice env ch s) = (if oc_FinishReason ch \<noteq> [] then oc_FinishReason ch else lastFinishReason s)"
  "lastToolCalls (oai_absorbChoice env ch s) = (if oc_ToolCalls ch \<noteq> [] then oc_ToolCalls ch else lastToolCalls s)"
  by (simp_all add: oai_absorbChoice_def Let_def)

lemma oai_absorbChoice_step: "onlyFirst (ss_step s) (ss_step (oai_absorbChoice env ch s))"
  by (simp add: oai_absorbChoice_def Let_def)

lemma oai_choices_step: "onlyFirst (ss_step s) (ss_step (fold (oai_absorbChoice env) chs s))"
proof (induction chs arbitrary: s)
  case (Cons ch chs)
  show ?case using onlyFirst_trans [OF oai_absorbChoice_step Cons.IH] by simp
qed simp

text \<open>The last of the values that are not empty, or the one before them.\<close>

definition lastSet :: "'a \<Rightarrow> 'a list \<Rightarrow> 'a \<Rightarrow> 'a" where
  "lastSet none xs d = last (d # filter (\<lambda>x. x \<noteq> none) xs)"

lemma lastSet_simps [simp]:
  "lastSet none [] d = d" "lastSet none (x # xs) d = lastSet none xs (if x \<noteq> none then x else d)"
  by (simp_all add: lastSet_def)

lemma lastSet_append [simp]: "lastSet none (xs @ ys) d = lastSet none ys (lastSet none xs d)"
  by (induction xs arbitrary: d) auto

lemma lastSet_default: "lastSet none xs d = (if lastSet none xs none = none then d else lastSet none xs none)"
proof (cases "filter (\<lambda>x. x \<noteq> none) xs = []")
  case False
  then have "last (filter (\<lambda>x. x \<noteq> none) xs) \<noteq> none" using last_in_set by fastforce
  with False show ?thesis by (simp add: lastSet_def)
qed (simp add: lastSet_def)

lemma oai_choices_fields:
  fixes env and chs and s
  defines "s' \<equiv> fold (oai_absorbChoice env) chs s"
  shows "ss_once s' = ss_once s" "ss_content s' = ss_content s @ concat (map oc_Content chs)"
    "reasonBuilder s' = reasonBuilder s @ concat (map oc_Reasoning chs)" "lastUsage s' = lastUsage s"
    "lastFinishReason s' = lastSet [] (map oc_FinishReason chs) (lastFinishReason s)"
    "lastToolCalls s' = lastSet [] (map oc_ToolCalls chs) (lastToolCalls s)"
  unfolding s'_def by (induction chs arbitrary: s) (simp_all add: oai_absorbChoice_fields)

lemma oai_absorb_fields:
  "ss_once (oai_absorb env e s) = ss_once s" "ss_content (oai_absorb env e s) = ss_content s @ oai_text e"
  "reasonBuilder (oai_absorb env e s) = reasonBuilder s @ concat (map oc_Reasoning (oe_Choices e))"
  "lastUsage (oai_absorb env e s) = lastSet None [oe_Usage e] (lastUsage s)"
  "lastFinishReason (oai_absorb env e s) = lastSet [] (map oc_FinishReason (oe_Choices e)) (lastFinishReason s)"
  "lastToolCalls (oai_absorb env e s) = lastSet [] (map oc_ToolCalls (oe_Choices e)) (lastToolCalls s)"
  by (simp_all add: oai_absorb_def oai_choices_fields oai_text_def Let_def)

lemma oai_absorb_step: "onlyFirst (ss_step s) (ss_step (oai_absorb env e s))"
  using oai_choices_step [of s env "oe_Choices e"] by (simp add: oai_absorb_def Let_def)

lemma oai_flush_fields:
  "flags (oai_flush s) = flags (ss_step s)" "Error (pack (oai_flush s)) = Error (pack (ss_step s))"
  by (simp_all add: oai_flush_def addToolCalls_flags accumulator_flags setter_flags Let_def split: option.split)

lemma oai_flush_completion:
  "\<not> disabled (ss_step s) \<Longrightarrow> completionText (ss_step s) = [] \<Longrightarrow> completionText (oai_flush s) = ss_content s"
  by (simp add: oai_flush_def added_text addLine_def Let_def split: option.split)

lemma oai_flush_texts:
  assumes "\<not> disabled (ss_step s)"
  shows "reasoningText (ss_step s) = [] \<Longrightarrow> reasoningText (oai_flush s) = reasonBuilder s"
    and "toolCallsText (ss_step s) = [] \<Longrightarrow> toolCallsText (oai_flush s) = marshalToolCalls (lastToolCalls s)"
    and "FinishReason (pack (oai_flush s)) = (if lastFinishReason s = [] then FinishReason (pack (ss_step s)) else lastFinishReason s)"
  using assms by (simp_all add: oai_flush_def added_text addLine_def addToolCalls_text finish_set Let_def split: option.split)

interpretation oai: llm_stream oai_absorb oai_flush oai_text oai_use
proof (unfold_locales, goal_cases)
  case (8 c s w)
  then show ?case
    by (cases c) (simp_all add: oai_Recv_def oai_Close_def oai_finalize_def call_error_def SetError_def)
qed (simp_all add: oai_absorb_fields oai_absorb_step oai_flush_fields oai_flush_completion oai_Recv_def)

definition ogo_text :: "ogo_event \<Rightarrow> string" where
  "ogo_text e = (case ge_Choices e of [] \<Rightarrow> [] | (content, reason) # _ \<Rightarrow> content)"

lemma ogo_absorb_fields:
  "ss_once (ogo_absorb env e s) = ss_once s" "ss_content (ogo_absorb env e s) = ss_content s @ ogo_text e"
  by (simp_all add: ogo_absorb_def ogo_text_def Let_def split: list.split prod.split)

lemma ogo_absorb_step: "onlyFirst (ss_step s) (ss_step (ogo_absorb env e s))"
  by (simp add: ogo_absorb_def Let_def split: list.split prod.split)

lemma ogo_flush_fields:
  "flags (ogo_flush s) = flags (ss_step s)" "Error (pack (ogo_flush s)) = Error (pack (ss_step s))"
  by (simp_all add: ogo_flush_def accumulator_flags setter_flags Let_def)

lemma ogo_flush_completion:
  "\<not> disabled (ss_step s) \<Longrightarrow> completionText (ss_step s) = [] \<Longrightarrow> completionText (ogo_flush s) = ss_content s"
  by (simp add: ogo_flush_def added_text addLine_def Let_def)

interpretation ogo: llm_stream ogo_absorb ogo_flush ogo_text ogo_use
proof (unfold_locales, goal_cases)
  case (8 c s w)
  then show ?case
    by (cases c) (simp_all add: ogo_Next_def ogo_Err_def ogo_Close_def ogo_finalize_def call_error_def SetError_def)
qed (simp_all add: ogo_absorb_fields ogo_absorb_step ogo_flush_fields ogo_flush_completion ogo_Next_def)

subsection \<open>What the streams report\<close>

lemma oai_received:
  fixes cs and s and w
  assumes "list_all is_got cs"
  defines "s' \<equiv> fst (fold oai_use cs (s, w))" and "chs \<equiv> concat (map oe_Choices (concat (map call_events cs)))"
  shows "reasonBuilder s' = reasonBuilder s @ concat (map oc_Reasoning chs) \<and>
    lastUsage s' = lastSet None (map oe_Usage (concat (map call_events cs))) (lastUsage s) \<and>
    lastFinishReason s' = lastSet [] (map oc_FinishReason chs) (lastFinishReason s) \<and>
    lastToolCalls s' = lastSet [] (map oc_ToolCalls chs) (lastToolCalls s)"
  using assms(1) unfolding s'_def chs_def
proof (induction cs arbitrary: s)
  case (Cons c cs)
  then obtain env e where c: "c = Got env e" by (cases c) auto
  from Cons.IH [of "oai_absorb env e s"] Cons.prems c show ?case
    by (simp add: oai_Recv_def oai_absorb_fields)
qed simp


lemma state1_texts: "completionText state1 = []" "reasoningText state1 = []" "toolCallsText state1 = []" "Error (pack state1) = []"
  by (simp_all add: state1_def MarkManualPublish_def NewLLMState_def emptyState_def env1_def cfg1_def Let_def NewLlmStepStatus_def)




subsection \<open>Synchronous calls\<close>

lemma oai_request_flags: "flags (oai_fillRequest up low req s) = flags s"
proof -
  have "flags (fold (oai_fillMessage up low) ms s) = flags s" for ms
    by (rule fold_flags) (simp add: oai_fillMessage_def accumulator_flags Let_def)
  then show ?thesis by (simp add: oai_fillRequest_def oai_fillChatInputs_def setter_flags Let_def)
qed

lemma oai_output_flags: "flags (oai_fillChatOutput resp s) = flags s"
  by (simp add: oai_fillChatOutput_def oai_fillChoice_def addToolCalls_flags accumulator_flags setter_flags Let_def split: list.split)

lemma completion_flags:
  "flags (fillCompletionInput req s) = flags s" "flags (fillCompletionOutput resp s) = flags s"
  by (simp_all add: fillCompletionInput_def fillCompletionOutput_def accumulator_flags setter_flags Let_def
      split: list.split option.split prod.split)

lemma ogo_request_flags: "flags (ogo_fillRequest p s) = flags (s :: ('f::zero) LLMState)"
proof -
  have "flags (fold ogo_fillMessage ms s) = flags s" for ms
    by (rule fold_flags) (simp add: ogo_fillMessage_def accumulator_flags Let_def split: prod.split)
  then show ?thesis by (simp add: ogo_fillRequest_def setter_flags Let_def split: option.split)
qed

lemma ogo_output_flags: "flags (ogo_fillChatOutput resp s) = flags s"
  by (simp add: ogo_fillChatOutput_def addToolCalls_flags accumulator_flags setter_flags Let_def split: list.split option.split)

lemma openai_calls_reported:
  assumes "LLMMode env" and "LLMMode env'"
  shows "(\<And>c. list_all hook_on (fst (sdk1 c))) \<Longrightarrow> reported_once w (CreateChatCompletion up low env req1 a c sdk1 env' w)"
    and "(\<And>c. list_all hook_on (fst (sdk2 c))) \<Longrightarrow> reported_once w (CreateCompletion env req2 a c sdk2 env' w)"
    and "(\<And>c. list_all hook_on (fst (sdk3 c))) \<Longrightarrow> reported_once w (CreateEmbeddings env model a c sdk3 env' w)"
    and "(\<And>c. list_all hook_on (fst (sdk4 c))) \<Longrightarrow> reported_once w (WrapAndNewChatCompletion env req4 a c sdk4 env' w)"
  using assms
  by (auto simp: CreateChatCompletion_def CreateCompletion_def CreateEmbeddings_def WrapAndNewChatCompletion_def
      oai_request_flags oai_output_flags completion_flags ogo_request_flags ogo_output_flags setter_flags intro!: traced_call_reported)

text \<open>A stream whose client panics at the start is not reported at all, unlike a synchronous call.\<close>

lemma panicking_stream_not_reported:
  assumes "LLMMode env" and "\<And>c. sdk c = ([], SdkPanic)"
  shows "snd (fst (CreateChatCompletionStream up low env req a c sdk env' w)) = w"
  using assms(2) by (simp add: CreateChatCompletionStream_def sdk_call_def split: prod.split)

end
