(* ===== verification/Llm_Anthropic.thy ===== *)
theory Llm_Anthropic
  imports Llm_Openai
begin

text \<open>
  The adapters of \<^verbatim>\<open>anthropics/anthropic-sdk-go\<close> (package whatapanthropic, names with \<open>ant\<close>) and of
  \<^verbatim>\<open>cloudwego/eino\<close> (package whatapeino, names with \<open>eino\<close>). The stream of the first keeps the contract
  \<open>llm_stream\<close>; the second copies a stream in a goroutine of its own (\<open>pump\<close>), of which each round is what the
  stream below returns and whether the consumer has hung up.
\<close>

subsection \<open>Anthropic: requests and answers\<close>

datatype ant_block_param =
    OfText string
  | OfToolResult "string list"
  | OfImage
  | OfDocument
  | OfToolUse
  | OfThinking
  | OfUnknown

fun blockParamText :: "ant_block_param \<Rightarrow> string" where
  "blockParamText (OfText t) = t"
| "blockParamText (OfToolResult ts) = (if concat ts \<noteq> [] then concat ts else ''[TOOL_RESULT]'')"
| "blockParamText OfImage = ''[IMAGE]''"
| "blockParamText OfDocument = ''[DOCUMENT]''"
| "blockParamText OfToolUse = ''[TOOL_USE]''"
| "blockParamText OfThinking = []"
| "blockParamText OfUnknown = []"

definition ant_messageParamText :: "ant_block_param list \<Rightarrow> string" where
  "ant_messageParamText content = Join (filter (\<lambda>t. t \<noteq> []) (map blockParamText content)) [NL]"

text \<open>Every role of a message is recorded as input.\<close>

record 'f ant_params =
  ap_Model :: string
  ap_System :: "string list"
  ap_Messages :: "ant_block_param list list"
  ap_Temperature :: "'f option"

definition ant_chatConfig :: "'f ant_params \<Rightarrow> Config" where
  "ant_chatConfig p =
     \<lparr>cfg_Provider = ''api.anthropic.com'', cfg_Model = ap_Model p, cfg_OperationType = ''chat'', cfg_URL = []\<rparr>"

definition ant_fillChatInputs :: "'f ant_params \<Rightarrow> 'f LLMState \<Rightarrow> 'f LLMState" where
  "ant_fillChatInputs p s0 =
     (let s1 = fold (\<lambda>t s. if t \<noteq> [] then AddSystemMessage t s else s) (ap_System p) s0
      in fold (\<lambda>m s. let t = ant_messageParamText m in if t = [] then s else AddInputMessage t s) (ap_Messages p) s1)"

definition ant_fillRequest :: "'f ant_params \<Rightarrow> 'f LLMState \<Rightarrow> 'f LLMState" where
  "ant_fillRequest p s0 =
     (let s1 = ant_fillChatInputs p s0
      in case ap_Temperature p of None \<Rightarrow> s1 | Some t \<Rightarrow> SetTemperature t s1)"

record ant_usage =
  au_InputTokens :: int
  au_OutputTokens :: int
  au_CacheCreationInputTokens :: int
  au_CacheReadInputTokens :: int

definition ant_usageToTokens :: "ant_usage \<Rightarrow> ('f::zero) Tokens" where
  "ant_usageToTokens u =
     zeroTokens\<lparr>Input := au_InputTokens u, Output := au_OutputTokens u,
       Total := i64 (au_InputTokens u + au_OutputTokens u),
       CacheCreationInput := au_CacheCreationInputTokens u, CacheReadInput := au_CacheReadInputTokens u\<rparr>"

text \<open>A block of an answer; the last case is a type the adapter does not know.\<close>

datatype ant_block =
    TextBlock string
  | ThinkingBlock string
  | ToolUseBlock string string string
  | OtherBlock string

definition toolUseBlock :: "string \<Rightarrow> string \<Rightarrow> string \<Rightarrow> ToolCall" where
  "toolUseBlock i name arguments = \<lparr>tc_ID = i, tc_Type = ''function'', tc_Name = name, tc_Arguments = arguments\<rparr>"

fun ant_collect :: "(string \<Rightarrow> string) \<Rightarrow> ant_block \<Rightarrow> string \<times> string \<times> ToolCall list \<Rightarrow> string \<times> string \<times> ToolCall list" where
  "ant_collect up (TextBlock t) (c, r, ts) = (if t \<noteq> [] then (addLine c t, r, ts) else (c, r, ts))"
| "ant_collect up (ThinkingBlock t) (c, r, ts) = (if t \<noteq> [] then (c, addLine r t, ts) else (c, r, ts))"
| "ant_collect up (ToolUseBlock i n a) (c, r, ts) = (c, r, ts @ [toolUseBlock i n a])"
| "ant_collect up (OtherBlock ty) (c, r, ts) = (addLine c (placeholder up ty), r, ts)"

record ant_response =
  ar_Content :: "ant_block list"
  ar_StopReason :: string
  ar_Usage :: ant_usage

definition ant_fillChatOutput :: "(string \<Rightarrow> string) \<Rightarrow> ant_response option \<Rightarrow> ('f::zero) LLMState \<Rightarrow> 'f LLMState" where
  "ant_fillChatOutput up resp s0 =
     (case resp of
        None \<Rightarrow> s0
      | Some m \<Rightarrow>
          let (content, reason, tools) = fold (ant_collect up) (ar_Content m) ([], [], []);
              s1 = (if content \<noteq> [] then AddOutputMessage content s0 else s0);
              s2 = (if reason \<noteq> [] then AddReasoning reason s1 else s1);
              s3 = addToolCalls tools s2;
              s4 = (if ar_StopReason m \<noteq> [] then SetFinishReason (ar_StopReason m) s3 else s3)
          in SetTokens (ant_usageToTokens (ar_Usage m)) s4)"

definition WrapAndNewMessage ::
  "(string \<Rightarrow> string) \<Rightarrow> ('m, 'f::{zero,plus,minus,inverse,ord}) llm_env \<Rightarrow> 'f ant_params \<Rightarrow> addr \<Rightarrow> 'r ctx \<Rightarrow>
   ('m, 'f, 'r, ant_response option) sdk \<Rightarrow> ('m, 'f) llm_env \<Rightarrow> ('m, 'f) llm_world \<Rightarrow>
   ('f LLMState \<times> ('m, 'f) llm_world) \<times> ant_response option sdk_result" where
  "WrapAndNewMessage up env p a c sdk env' w =
     traced_call env (ant_chatConfig p) a c (ant_fillRequest p) sdk (ant_fillChatOutput up) env' w"

subsection \<open>Anthropic: streams\<close>

text \<open>An event by its type. A delta has the texts that its three views give (empty where they do not apply).\<close>

datatype ant_event =
    MessageStart ant_usage
  | ToolUseStart string string
  | OtherBlockStart
  | ContentBlockDelta string string string
  | ContentBlockStop
  | MessageDelta string int
  | OtherEvent

record 'f AntStream = "'f StreamCore" +
  areason :: string
  stopReason :: string
  ausage :: ant_usage
  activeTool :: "ToolCall option"
  toolBlocks :: "ToolCall list"

definition ant_stream :: "'f LLMState \<Rightarrow> 'f AntStream" where
  "ant_stream step = \<lparr>ss_step = step, ss_once = False, ss_content = [], ss_firstSeen = False, areason = [], stopReason = [],
     ausage = \<lparr>au_InputTokens = 0, au_OutputTokens = 0, au_CacheCreationInputTokens = 0, au_CacheReadInputTokens = 0\<rparr>,
     activeTool = None, toolBlocks = []\<rparr>"

definition ant_delta :: "('m, 'f) llm_env \<Rightarrow> string \<Rightarrow> string \<Rightarrow> string \<Rightarrow> 'f AntStream \<Rightarrow> 'f AntStream" where
  "ant_delta env t json thinking s0 =
     (let s1 = (if t \<noteq> [] then (let u = markFirst env True s0 in u\<lparr>ss_content := ss_content u @ t\<rparr>) else s0);
          s2 = (case activeTool s1 of
                  Some tool \<Rightarrow> if json \<noteq> [] then s1\<lparr>activeTool := Some (tool\<lparr>tc_Arguments := tc_Arguments tool @ json\<rparr>)\<rparr> else s1
                | None \<Rightarrow> s1)
      in if thinking \<noteq> [] then s2\<lparr>areason := areason s2 @ thinking\<rparr> else s2)"

fun ant_absorb :: "('m, 'f) llm_env \<Rightarrow> ant_event \<Rightarrow> 'f AntStream \<Rightarrow> 'f AntStream" where
  "ant_absorb env (MessageStart u) s =
     s\<lparr>ausage := (ausage s)\<lparr>au_InputTokens := au_InputTokens u,
        au_CacheCreationInputTokens := au_CacheCreationInputTokens u, au_CacheReadInputTokens := au_CacheReadInputTokens u\<rparr>\<rparr>"
| "ant_absorb env (ToolUseStart i name) s = s\<lparr>activeTool := Some (toolUseBlock i name [])\<rparr>"
| "ant_absorb env OtherBlockStart s = s"
| "ant_absorb env (ContentBlockDelta t json thinking) s = ant_delta env t json thinking s"
| "ant_absorb env ContentBlockStop s =
     (case activeTool s of None \<Rightarrow> s | Some tool \<Rightarrow> s\<lparr>toolBlocks := toolBlocks s @ [tool], activeTool := None\<rparr>)"
| "ant_absorb env (MessageDelta r out) s0 =
     (let s1 = (if r \<noteq> [] then s0\<lparr>stopReason := r\<rparr> else s0)
      in if out \<noteq> 0 then s1\<lparr>ausage := (ausage s1)\<lparr>au_OutputTokens := out\<rparr>\<rparr> else s1)"
| "ant_absorb env OtherEvent s = s"

definition ant_flush :: "('f::zero) AntStream \<Rightarrow> 'f LLMState" where
  "ant_flush s =
     (let t0 = ss_step s;
          t1 = (if ss_content s \<noteq> [] then AddOutputMessage (ss_content s) t0 else t0);
          t2 = (if areason s \<noteq> [] then AddReasoning (areason s) t1 else t1);
          t3 = (if stopReason s \<noteq> [] then SetFinishReason (stopReason s) t2 else t2);
          t4 = addToolCalls (toolBlocks s) t3
      in SetTokens (ant_usageToTokens (ausage s)) t4)"

definition ant_finalize ::
  "('m, 'f::{zero,plus,minus,inverse,ord}) llm_env \<Rightarrow> 'f AntStream \<times> ('m, 'f) llm_world \<Rightarrow> 'f AntStream \<times> ('m, 'f) llm_world" where
  "ant_finalize = onceEnd ant_flush"

definition ant_Next ::
  "('m, 'f::{zero,plus,minus,inverse,ord}) llm_env \<Rightarrow> ant_event option \<Rightarrow> 'f AntStream \<times> ('m, 'f) llm_world \<Rightarrow>
   ('f AntStream \<times> ('m, 'f) llm_world) \<times> bool" where
  "ant_Next env r = (\<lambda>(s, w).
     case r of None \<Rightarrow> (ant_finalize env (s, w), False) | Some e \<Rightarrow> ((ant_absorb env e s, w), True))"

definition ant_Err ::
  "('m, 'f::{zero,plus,minus,inverse,ord}) llm_env \<Rightarrow> string option \<Rightarrow> 'f AntStream \<times> ('m, 'f) llm_world \<Rightarrow>
   ('f AntStream \<times> ('m, 'f) llm_world) \<times> string option" where
  "ant_Err env err = (\<lambda>(s, w).
     (case err of
        None \<Rightarrow> (s, w)
      | Some msg \<Rightarrow> ant_finalize env (s\<lparr>ss_step := SetError (Some msg) ''api_error'' (ss_step s)\<rparr>, w), err))"

definition ant_Close ::
  "('m, 'f::{zero,plus,minus,inverse,ord}) llm_env \<Rightarrow> 'f AntStream \<times> ('m, 'f) llm_world \<Rightarrow> 'f AntStream \<times> ('m, 'f) llm_world" where
  "ant_Close env = ant_finalize env"

fun ant_use ::
  "('m, 'f::{zero,plus,minus,inverse,ord}, ant_event) stream_call \<Rightarrow> 'f AntStream \<times> ('m, 'f) llm_world \<Rightarrow> 'f AntStream \<times> ('m, 'f) llm_world" where
  "ant_use (Got env e) sw = fst (ant_Next env (Some e) sw)"
| "ant_use (Finished env) sw = fst (ant_Next env None sw)"
| "ant_use (Failed env msg) sw = fst (ant_Err env (Some msg) sw)"
| "ant_use (Closed env) sw = ant_Close env sw"

definition WrapAndNewMessageStreaming ::
  "('m, 'f::{zero,plus,minus,inverse,ord}) llm_env \<Rightarrow> 'f ant_params \<Rightarrow> addr \<Rightarrow> 'r ctx \<Rightarrow> ('m, 'f, 'r, unit) sdk \<Rightarrow>
   ('m, 'f) llm_world \<Rightarrow> ('f LLMState \<times> ('m, 'f) llm_world) \<times> 'f AntStream sdk_result" where
  "WrapAndNewMessageStreaming env p a c sdk w =
     (let (c', s) = llm_Start env (ant_chatConfig p) a c;
          ((s1, w1), r) = sdk_call sdk c' a (MarkStream (ant_fillRequest p s), w)
      in ((s1, w1), case r of SdkPanic \<Rightarrow> SdkPanic | _ \<Rightarrow> Answer (ant_stream s1)))"

subsection \<open>Eino\<close>

datatype eino_part_type = EText | EImageURL | EAudioURL | EVideoURL | EFileURL | EReasoning | EOther string

datatype eino_role = System | User | Assistant | Tool | OtherRole

record eino_part =
  ep_Type :: eino_part_type
  ep_Text :: string

record eino_usage =
  eu_PromptTokens :: int
  eu_CompletionTokens :: int
  eu_TotalTokens :: int

record response_meta =
  rm_FinishReason :: string
  rm_Usage :: "eino_usage option"

record eino_message =
  em_Role :: eino_role
  em_Content :: string
  em_Reasoning :: string
  em_MultiContent :: "eino_part list"
  em_ToolCalls :: "ToolCall list"
  em_Meta :: "response_meta option"

definition eino_partText :: "(string \<Rightarrow> string) \<Rightarrow> eino_part \<Rightarrow> string" where
  "eino_partText up p =
     (case ep_Type p of
        EText \<Rightarrow> ep_Text p
      | EImageURL \<Rightarrow> ''[IMAGE]''
      | EAudioURL \<Rightarrow> ''[AUDIO]''
      | EVideoURL \<Rightarrow> ''[VIDEO]''
      | EFileURL \<Rightarrow> ''[FILE]''
      | EReasoning \<Rightarrow> []
      | EOther ty \<Rightarrow> if ep_Text p \<noteq> [] then ep_Text p else if ty \<noteq> [] then placeholder up ty else [])"

definition eino_messageText :: "(string \<Rightarrow> string) \<Rightarrow> eino_message \<Rightarrow> string" where
  "eino_messageText up m =
     (if em_Content m \<noteq> [] then em_Content m
      else fold (\<lambda>p out. let chunk = eino_partText up p in if chunk = [] then out else addLine out chunk) (em_MultiContent m) [])"

definition eino_fillMessage :: "(string \<Rightarrow> string) \<Rightarrow> eino_message option \<Rightarrow> 'f LLMState \<Rightarrow> 'f LLMState" where
  "eino_fillMessage up m s =
     (case m of
        None \<Rightarrow> s
      | Some m \<Rightarrow>
          let t = eino_messageText up m in
          (case em_Role m of
             System \<Rightarrow> AddSystemMessage t s
           | User \<Rightarrow> AddInputMessage t s
           | Assistant \<Rightarrow> AddInputMessage t s
           | Tool \<Rightarrow> AddToolResult t s
           | OtherRole \<Rightarrow> s))"

definition eino_usageToTokens :: "eino_usage \<Rightarrow> ('f::zero) Tokens" where
  "eino_usageToTokens u =
     zeroTokens\<lparr>Input := eu_PromptTokens u, Output := eu_CompletionTokens u, Total := eu_TotalTokens u\<rparr>"

definition eino_fillMeta :: "response_meta option \<Rightarrow> ('f::zero) LLMState \<Rightarrow> 'f LLMState" where
  "eino_fillMeta meta s0 =
     (case meta of
        None \<Rightarrow> s0
      | Some m \<Rightarrow>
          let s1 = (if rm_FinishReason m \<noteq> [] then SetFinishReason (rm_FinishReason m) s0 else s0)
          in case rm_Usage m of None \<Rightarrow> s1 | Some u \<Rightarrow> SetTokens (eino_usageToTokens u) s1)"

text \<open>The accumulators of a stream have the shape of a message, and \<open>flushAccumulators\<close> does with them what
  \<open>fillOutput\<close> does with a message.\<close>

definition flushAccumulators ::
  "string \<Rightarrow> string \<Rightarrow> response_meta option \<Rightarrow> ToolCall list \<Rightarrow> ('f::zero) LLMState \<Rightarrow> 'f LLMState" where
  "flushAccumulators content reason meta toolCalls s0 =
     (let s1 = (if content \<noteq> [] then AddOutputMessage content s0 else s0);
          s2 = (if reason \<noteq> [] then AddReasoning reason s1 else s1)
      in addToolCalls toolCalls (eino_fillMeta meta s2))"

definition eino_fillOutput :: "eino_message option \<Rightarrow> ('f::zero) LLMState \<Rightarrow> 'f LLMState" where
  "eino_fillOutput m s0 =
     (case m of
        None \<Rightarrow> s0
      | Some m \<Rightarrow>
          let s1 = (if em_Content m \<noteq> [] then AddOutputMessage (em_Content m) s0 else s0);
              s2 = (if em_Reasoning m \<noteq> [] then AddReasoning (em_Reasoning m) s1 else s1);
              s3 = eino_fillMeta (em_Meta m) s2
          in addToolCalls (em_ToolCalls m) s3)"

text \<open>The options of a call that are read, the table of the names of the models (by the address of the model).\<close>

record 'f eino_options =
  eo_Model :: "string option"
  eo_Temperature :: "'f option"

definition rememberModelName :: "addr option \<Rightarrow> string \<Rightarrow> (addr \<rightharpoonup> string) \<Rightarrow> (addr \<rightharpoonup> string)" where
  "rememberModelName m name tbl = (case m of None \<Rightarrow> tbl | Some a \<Rightarrow> if name = [] then tbl else tbl(a \<mapsto> name))"

definition lookupModelName :: "addr option \<Rightarrow> (addr \<rightharpoonup> string) \<Rightarrow> string" where
  "lookupModelName m tbl = (case m of None \<Rightarrow> [] | Some a \<Rightarrow> (case tbl a of None \<Rightarrow> [] | Some s \<Rightarrow> s))"

definition configFor :: "(addr \<rightharpoonup> string) \<Rightarrow> addr option \<Rightarrow> 'f eino_options \<Rightarrow> Config" where
  "configFor tbl m opts =
     (let given = (case eo_Model opts of None \<Rightarrow> [] | Some n \<Rightarrow> n);
          name = (if given = [] then lookupModelName m tbl else given)
      in \<lparr>cfg_Provider = [], cfg_Model = name, cfg_OperationType = ''chat'', cfg_URL = []\<rparr>)"

definition eino_fillRequest ::
  "(string \<Rightarrow> string) \<Rightarrow> eino_message option list \<Rightarrow> 'f eino_options \<Rightarrow> 'f LLMState \<Rightarrow> 'f LLMState" where
  "eino_fillRequest up msgs opts s0 =
     (let s1 = fold (eino_fillMessage up) msgs s0
      in case eo_Temperature opts of None \<Rightarrow> s1 | Some t \<Rightarrow> SetTemperature t s1)"

definition doGenerate ::
  "(string \<Rightarrow> string) \<Rightarrow> (addr \<rightharpoonup> string) \<Rightarrow> addr option \<Rightarrow> ('m, 'f::{zero,plus,minus,inverse,ord}) llm_env \<Rightarrow> eino_message option list \<Rightarrow>
   'f eino_options \<Rightarrow> addr \<Rightarrow> 'r ctx \<Rightarrow> ('m, 'f, 'r, eino_message option) sdk \<Rightarrow> ('m, 'f) llm_env \<Rightarrow> ('m, 'f) llm_world \<Rightarrow>
   ('f LLMState \<times> ('m, 'f) llm_world) \<times> eino_message option sdk_result" where
  "doGenerate up tbl m env msgs opts a c sdk env' w =
     traced_call env (configFor tbl m opts) a c (eino_fillRequest up msgs opts) sdk eino_fillOutput env' w"

text \<open>The goroutine of \<open>wrapStream\<close>: its accumulators, one round, and the loop. A round is the time, what \<^verbatim>\<open>Recv\<close>
  returns (a nil chunk is possible) and whether \<^verbatim>\<open>Send\<close> says that the consumer is gone; the loop that has used up
  its rounds is still running. The second result is what the consumer receives.\<close>

record eino_acc =
  ac_first :: bool
  ac_content :: string
  ac_reason :: string
  ac_meta :: "response_meta option"
  ac_tools :: "ToolCall list"

definition eino_acc0 :: eino_acc where
  "eino_acc0 = \<lparr>ac_first = False, ac_content = [], ac_reason = [], ac_meta = None, ac_tools = []\<rparr>"

definition flushAcc :: "eino_acc \<Rightarrow> ('f::zero) LLMState \<Rightarrow> 'f LLMState" where
  "flushAcc acc = flushAccumulators (ac_content acc) (ac_reason acc) (ac_meta acc) (ac_tools acc)"

definition eino_chunk ::
  "('m, 'f) llm_env \<Rightarrow> eino_message \<Rightarrow> eino_acc \<times> 'f LLMState \<Rightarrow> eino_acc \<times> 'f LLMState" where
  "eino_chunk env m = (\<lambda>(acc0, s0).
     let (acc1, s1) = (if \<not> ac_first acc0 \<and> (em_Content m \<noteq> [] \<or> em_Reasoning m \<noteq> [])
                       then (acc0\<lparr>ac_first := True\<rparr>, RecordFirstToken (SystemNow env) s0) else (acc0, s0));
         acc2 = (if em_Content m \<noteq> [] then acc1\<lparr>ac_content := ac_content acc1 @ em_Content m\<rparr> else acc1);
         acc3 = (if em_Reasoning m \<noteq> [] then acc2\<lparr>ac_reason := ac_reason acc2 @ em_Reasoning m\<rparr> else acc2);
         acc4 = (if em_Meta m \<noteq> None then acc3\<lparr>ac_meta := em_Meta m\<rparr> else acc3)
     in (if em_ToolCalls m \<noteq> [] then acc4\<lparr>ac_tools := em_ToolCalls m\<rparr> else acc4, s1))"

definition eino_recv ::
  "('m, 'f) llm_env \<Rightarrow> eino_message option \<Rightarrow> eino_acc \<times> 'f LLMState \<Rightarrow> eino_acc \<times> 'f LLMState" where
  "eino_recv env chunk x = (case chunk of None \<Rightarrow> x | Some m \<Rightarrow> eino_chunk env m x)"

type_synonym ('m, 'f) eino_round = "('m, 'f) llm_env \<times> eino_message option recv \<times> bool"

fun pump ::
  "eino_acc \<Rightarrow> ('m, 'f::{zero,plus,minus,inverse,ord}) eino_round list \<Rightarrow> 'f LLMState \<times> ('m, 'f) llm_world \<Rightarrow>
   ('f LLMState \<times> ('m, 'f) llm_world) \<times> eino_message option recv list" where
  "pump acc [] sw = (sw, [])"
| "pump acc ((env, RecvEOF, gone) # rounds) (s, w) = (Step_End env (flushAcc acc s, w), [RecvEOF])"
| "pump acc ((env, RecvErr msg, gone) # rounds) (s, w) =
     (Step_End env (SetError (Some msg) ''api_error'' (flushAcc acc s), w), [RecvErr msg])"
| "pump acc ((env, RecvEvent m, gone) # rounds) (s, w) =
     (let (acc', s') = eino_recv env m (acc, s) in
      if gone then (Step_End env (flushAcc acc' s', w), [RecvEvent m])
      else let (sw', out) = pump acc' rounds (s', w) in (sw', RecvEvent m # out))"

definition wrapStream where
  "wrapStream = pump eino_acc0"

definition doStream ::
  "(string \<Rightarrow> string) \<Rightarrow> (addr \<rightharpoonup> string) \<Rightarrow> addr option \<Rightarrow> ('m, 'f::{zero,plus,minus,inverse,ord}) llm_env \<Rightarrow> eino_message option list \<Rightarrow>
   'f eino_options \<Rightarrow> addr \<Rightarrow> 'r ctx \<Rightarrow> ('m, 'f, 'r, ('m, 'f) eino_round list) sdk \<Rightarrow> ('m, 'f) llm_env \<Rightarrow> ('m, 'f) llm_world \<Rightarrow>
   ('f LLMState \<times> ('m, 'f) llm_world) \<times> eino_message option recv list sdk_result" where
  "doStream up tbl m env msgs opts a c sdk env' w =
     (let (c', s) = llm_Start env (configFor tbl m opts) a c;
          ((s1, w1), r) = sdk_call sdk c' a (MarkStream (eino_fillRequest up msgs opts s), w)
      in case r of
           SdkErr msg \<Rightarrow> (Step_End env' (SetError (Some msg) ''api_error'' s1, w1), SdkErr msg)
         | SdkPanic \<Rightarrow> ((s1, w1), SdkPanic)
         | Answer rounds \<Rightarrow> (let (sw, out) = wrapStream rounds (s1, w1) in (sw, Answer out)))"

text \<open>The wrappers of a model. A wrapped model is one of the three kinds; what a model can do decides the kind.\<close>

datatype 'i eino_model = Inner 'i | WrappedToolCalling "'i eino_model" | WrappedChat "'i eino_model" | WrappedBase "'i eino_model"

definition is_wrapped :: "'i eino_model \<Rightarrow> bool" where
  "is_wrapped m = (case m of Inner i \<Rightarrow> False | _ \<Rightarrow> True)"

definition WrapChatModel :: "'i eino_model option \<Rightarrow> 'i eino_model option" where
  "WrapChatModel m = map_option (\<lambda>x. case x of WrappedChat y \<Rightarrow> x | _ \<Rightarrow> WrappedChat x) m"

definition WrapToolCallingChatModel :: "'i eino_model option \<Rightarrow> 'i eino_model option" where
  "WrapToolCallingChatModel m = map_option (\<lambda>x. case x of WrappedToolCalling y \<Rightarrow> x | _ \<Rightarrow> WrappedToolCalling x) m"

definition WrapBaseChatModel :: "('i \<Rightarrow> bool) \<Rightarrow> ('i \<Rightarrow> bool) \<Rightarrow> 'i eino_model option \<Rightarrow> 'i eino_model option" where
  "WrapBaseChatModel toolCalling chat m =
     (case m of
        None \<Rightarrow> None
      | Some (Inner i) \<Rightarrow>
          if toolCalling i then WrapToolCallingChatModel m
          else if chat i then WrapChatModel m
          else Some (WrappedBase (Inner i))
      | Some x \<Rightarrow> m)"

definition WithTools :: "('i \<Rightarrow> 'i eino_model + string) \<Rightarrow> 'i \<Rightarrow> 'i eino_model + string" where
  "WithTools derive i = (case derive i of Inr err \<Rightarrow> Inr err | Inl d \<Rightarrow> Inl (WrappedToolCalling d))"

definition ensureWrappedHTTPClient :: "'t round_tripper option \<Rightarrow> 't round_tripper" where
  "ensureWrappedHTTPClient hc =
     (case hc of
        None \<Rightarrow> NewLLMRoundTrip DefaultTransport
      | Some (WrapRoundTrip b t) \<Rightarrow> WrapRoundTrip b t
      | Some t \<Rightarrow> NewLLMRoundTrip t)"

text \<open>The constructors of models. \<open>newModel\<close> is that of the client, given the configuration (its HTTP client and the
  name of the model) or nil; it gives the address of the model or an error. A constructed model is recorded.\<close>

definition NewOpenAIChatModel ::
  "(('t round_tripper \<times> string) option \<Rightarrow> addr + string) \<Rightarrow> ('t round_tripper option \<times> string) option \<Rightarrow> (addr \<rightharpoonup> string) \<Rightarrow>
   (addr + string) \<times> (addr \<rightharpoonup> string)" where
  "NewOpenAIChatModel newModel cfg tbl =
     (case cfg of
        None \<Rightarrow> (newModel None, tbl)
      | Some (hc, name) \<Rightarrow>
          let m = newModel (Some (ensureWrappedHTTPClient hc, name))
          in (m, case m of Inl a \<Rightarrow> rememberModelName (Some a) name tbl | Inr err \<Rightarrow> tbl))"

definition NewClaudeChatModel ::
  "(('t round_tripper \<times> string) option \<Rightarrow> addr + string) \<Rightarrow> ('t round_tripper option \<times> string) option \<Rightarrow> (addr \<rightharpoonup> string) \<Rightarrow>
   (addr + string) \<times> (addr \<rightharpoonup> string)" where
  "NewClaudeChatModel newModel cfg tbl =
     (case cfg of
        None \<Rightarrow> (newModel None, tbl)
      | Some (hc, name) \<Rightarrow>
          let m = newModel (Some (ensureWrappedHTTPClient hc, name))
          in (m, case m of Inl a \<Rightarrow> rememberModelName (Some a) name tbl | Inr err \<Rightarrow> tbl))"

lemmas wraps = WrapBaseChatModel_def WrapToolCallingChatModel_def WrapChatModel_def is_wrapped_def

lemma WrapBaseChatModel_once: "WrapBaseChatModel tc ch (WrapBaseChatModel tc ch m) = WrapBaseChatModel tc ch m"
proof (cases m)
  case (Some x)
  then show ?thesis by (cases x) (simp_all add: wraps)
qed (simp add: wraps)

lemma WrapBaseChatModel_wraps: "\<exists>y. WrapBaseChatModel tc ch (Some x) = Some y \<and> is_wrapped y"
  by (cases x) (simp_all add: wraps)

lemma ensureWrappedHTTPClient_once: "ensureWrappedHTTPClient (Some (ensureWrappedHTTPClient hc)) = ensureWrappedHTTPClient hc"
  by (auto simp: ensureWrappedHTTPClient_def NewLLMRoundTrip_def split: option.splits round_tripper.splits)

lemma fillOutput_as_stream:
  "eino_fillOutput (Some m) = flushAccumulators (em_Content m) (em_Reasoning m) (em_Meta m) (em_ToolCalls m)"
  by (simp add: eino_fillOutput_def flushAccumulators_def fun_eq_iff Let_def)

subsection \<open>The stream of Anthropic keeps the contract\<close>

fun ant_text :: "ant_event \<Rightarrow> string" where
  "ant_text (ContentBlockDelta t json thinking) = t"
| "ant_text _ = []"

lemma ant_markFirst [simp]:
  "activeTool (markFirst env b s) = activeTool s" "toolBlocks (markFirst env b s) = toolBlocks s"
  "areason (markFirst env b s) = areason s" "ausage (markFirst env b s) = ausage s" "stopReason (markFirst env b s) = stopReason s"
  by (simp_all add: markFirst_def)

lemma ant_delta_fields:
  "ss_once (ant_delta env t json thinking s) = ss_once s" "ss_content (ant_delta env t json thinking s) = ss_content s @ t"
  "onlyFirst (ss_step s) (ss_step (ant_delta env t json thinking s))"
  "toolBlocks (ant_delta env t json thinking s) = toolBlocks s"
  "activeTool (ant_delta env t json thinking s) =
     map_option (\<lambda>tool. tool\<lparr>tc_Arguments := tc_Arguments tool @ json\<rparr>) (activeTool s)"
  by (simp_all add: ant_delta_def Let_def split: option.split)

lemma ant_absorb_fields:
  "ss_once (ant_absorb env e s) = ss_once s" "ss_content (ant_absorb env e s) = ss_content s @ ant_text e"
  "onlyFirst (ss_step s) (ss_step (ant_absorb env e s))"
  by (cases e; simp add: ant_delta_fields Let_def split: option.split)+

lemma ant_flush_fields:
  "flags (ant_flush s) = flags (ss_step s)" "Error (pack (ant_flush s)) = Error (pack (ss_step s))"
  by (simp_all add: ant_flush_def addToolCalls_flags accumulator_flags setter_flags Let_def)

lemma ant_flush_texts:
  assumes "\<not> disabled (ss_step s)"
  shows "completionText (ss_step s) = [] \<Longrightarrow> completionText (ant_flush s) = ss_content s"
    and "toolCallsText (ss_step s) = [] \<Longrightarrow> toolCallsText (ant_flush s) = marshalToolCalls (toolBlocks s)"
  using assms by (simp_all add: ant_flush_def added_text addLine_def addToolCalls_text Let_def)

interpretation ant: llm_stream ant_absorb ant_flush ant_text ant_use
proof (unfold_locales, goal_cases)
  case (8 c s w)
  then show ?case
    by (cases c) (simp_all add: ant_Next_def ant_Err_def ant_Close_def ant_finalize_def call_error_def SetError_def)
qed (simp_all add: ant_absorb_fields ant_flush_fields ant_flush_texts ant_Next_def)

subsection \<open>Tool calls that arrive in pieces\<close>

text \<open>The arguments of a tool call arrive as a list of pieces between the start and the stop of its block.\<close>

definition tool_events :: "string \<times> string \<times> string list \<Rightarrow> ant_event list" where
  "tool_events = (\<lambda>(i, name, pieces). ToolUseStart i name # map (\<lambda>j. ContentBlockDelta [] j []) pieces @ [ContentBlockStop])"

lemma ant_pieces:
  assumes "activeTool s = Some (toolUseBlock i name args)"
  shows "activeTool (fold (ant_absorb env) (map (\<lambda>j. ContentBlockDelta [] j []) pieces) s) = Some (toolUseBlock i name (args @ concat pieces)) \<and>
    toolBlocks (fold (ant_absorb env) (map (\<lambda>j. ContentBlockDelta [] j []) pieces) s) = toolBlocks s"
  using assms
proof (induction pieces arbitrary: s args)
  case (Cons j js)
  have "activeTool (ant_absorb env (ContentBlockDelta [] j []) s) = Some (toolUseBlock i name (args @ j))"
    using Cons.prems by (simp add: ant_delta_fields toolUseBlock_def)
  from Cons.IH [OF this] show ?case by (simp add: ant_delta_fields)
qed simp

lemma ant_tool_block:
  "toolBlocks (fold (ant_absorb env) (tool_events (i, name, pieces)) s) = toolBlocks s @ [toolUseBlock i name (concat pieces)]"
  using ant_pieces [of "ant_absorb env (ToolUseStart i name) s" i name "[]" env pieces]
  by (simp add: tool_events_def)

lemma ant_tool_blocks:
  "toolBlocks (fold (ant_absorb env) (concat (map tool_events ts)) s) =
   toolBlocks s @ map (\<lambda>(i, name, pieces). toolUseBlock i name (concat pieces)) ts"
proof (induction ts arbitrary: s)
  case (Cons t ts)
  then show ?case by (cases t) (simp add: ant_tool_block)
qed simp

lemma ant_got: "fold ant_use (map (Got env) es) (s, w) = (fold (ant_absorb env) es s, w)"
  by (induction es arbitrary: s) (simp_all add: ant_Next_def)

text \<open>Tool calls that a stream of Anthropic delivers in pieces are reported whole. However the arguments of
  each call are cut, and whether the consumer reads to the end, closes the stream or gets an error, the one pack
  that is queued has every completed call, in their order, with its arguments put together.\<close>
theorem streamed_tool_calls_reported:
  fixes step :: "('f::{zero,plus,minus,inverse,ord}) LLMState" and c :: "('m, 'f, ant_event) stream_call"
  assumes "\<not> disabled step" and "\<not> ended step" and "completionText step = []" and "toolCallsText step = []"
    and "\<not> is_got c" and "LLMMode (call_env c)"
  shows "\<exists>p. queue (snd (fold ant_use (map (Got env) (concat (map tool_events ts)) @ c # post) (ant_stream step, w))) = queue w @ [p] \<and>
     ToolCallsText p = marshalToolCalls (map (\<lambda>(i, name, pieces). toolUseBlock i name (concat pieces)) ts) \<and>
     (Success p \<longleftrightarrow> Error p = []) \<and> Error p = (case call_failure c of None \<Rightarrow> Error (pack step) | Some m \<Rightarrow> m)"
proof -
  let ?pre = "map (Got env) (concat (map tool_events ts))" and ?s = "ant_stream step"
  have got: "list_all is_got ?pre" by (simp add: list_all_iff)
  have fresh: "\<not> ss_once ?s" "ss_content ?s = []" "ss_step ?s = step" "toolBlocks ?s = []"
    by (simp_all add: ant_stream_def)
  from ant.stream_reported [of ?s ?pre c w post] assms fresh got obtain s' p where p:
      "fst (fold ant_use ?pre (?s, w)) = s'"
      "p = finalPack (call_env c) (ant_flush (s'\<lparr>ss_step := call_error c (ss_step s')\<rparr>))"
      "queue (snd (fold ant_use (?pre @ c # post) (?s, w))) = queue w @ [p]"
      "Error p = Error (pack (call_error c step))" "Success p \<longleftrightarrow> Error p = []" by auto
  from ant.receive [OF got, of ?s w] p(1) fresh(3) obtain n where
    step: "ss_step s' = step\<lparr>firstTokenMs := n\<rparr>" by (auto elim: onlyFirstE)
  have "toolBlocks s' = map (\<lambda>(i, name, pieces). toolUseBlock i name (concat pieces)) ts"
    using p(1) fresh(4) ant_tool_blocks [of env ts ?s] by (simp add: ant_got)
  then have "ToolCallsText p = marshalToolCalls (map (\<lambda>(i, name, pieces). toolUseBlock i name (concat pieces)) ts)"
    using assms(1,4) by (simp add: p(2) ant_flush_texts step)
  moreover have "Error p = (case call_failure c of None \<Rightarrow> Error (pack step) | Some m \<Rightarrow> m)"
    using assms(1) by (cases "call_failure c") (simp_all add: p(4) call_error_def SetError_def Step_SetError_def)
  ultimately show ?thesis using p(3,5) by blast
qed

theorem streamed_tool_calls_reported_witness:
  "\<exists>p. queue (snd (fold ant_use (map (Got env1) (concat (map tool_events [(''t1'', ''add'', [''[1,'', ''2]''])])) @ Finished env1 # [Closed env1])
          (ant_stream state1, world1))) = queue world1 @ [p] \<and>
     ToolCallsText p = marshalToolCalls (map (\<lambda>(i, name, pieces). toolUseBlock i name (concat pieces)) [(''t1'', ''add'', [''[1,'', ''2]''])]) \<and>
     (Success p \<longleftrightarrow> Error p = []) \<and> Error p = (case call_failure (Finished env1 :: ((LLMKey \<times> addr) list, real, ant_event) stream_call) of
        None \<Rightarrow> Error (pack state1) | Some m \<Rightarrow> m)"
  by (rule streamed_tool_calls_reported) (simp_all only: state1_fields state1_texts is_got.simps call_env.simps, simp_all add: env1_def)

text \<open>The stream of Anthropic loses the error of a failed stream as that of openai-go does.\<close>

lemma ant_failure_lost:
  assumes "\<not> disabled step" and "\<not> ended step" and "completionText step = []" and "Error (pack step) = []" and "LLMMode env"
  shows "\<exists>p. queue (snd (fold ant_use (map (Got env) es @ [Finished env, Failed env msg]) (ant_stream step, w))) = queue w @ [p] \<and>
     Success p \<and> Error p = []"
  using ant.stream_reported [of "ant_stream step" "map (Got env) es" "Finished env" w "[Failed env msg]"] assms
  by (auto simp: list_all_iff ant_stream_def call_error_def SetError_def)

subsection \<open>Eino: a transparent stream\<close>

lemma eino_chunk_fields:
  "ac_content (fst (eino_chunk env m (acc, s))) = ac_content acc @ em_Content m"
  "ac_reason (fst (eino_chunk env m (acc, s))) = ac_reason acc @ em_Reasoning m"
  "onlyFirst s (snd (eino_chunk env m (acc, s)))"
  by (simp_all add: eino_chunk_def Let_def)

lemma eino_fillMeta_keeps [simp]:
  "Error (pack (eino_fillMeta m s)) = Error (pack s)" "completionText (eino_fillMeta m s) = completionText s"
  "reasoningText (eino_fillMeta m s) = reasoningText s" "flags (eino_fillMeta m s) = flags s"
  by (simp_all add: eino_fillMeta_def setter_flags Let_def split: option.split)

lemma flushAcc_flags: "flags (flushAcc acc s) = flags s" "Error (pack (flushAcc acc s)) = Error (pack s)"
  by (simp_all add: flushAcc_def flushAccumulators_def addToolCalls_flags accumulator_flags Let_def)

lemma flushAcc_texts:
  assumes "\<not> disabled s" and "completionText s = []" and "reasoningText s = []"
  shows "completionText (flushAcc acc s) = ac_content acc" "reasoningText (flushAcc acc s) = ac_reason acc"
  using assms by (simp_all add: flushAcc_def flushAccumulators_def added_text addLine_def Let_def)

definition chunkTexts :: "(eino_message \<Rightarrow> string) \<Rightarrow> eino_message option list \<Rightarrow> string" where
  "chunkTexts f ms = concat (map (case_option [] f) ms)"

definition recvMessages :: "eino_message option recv \<Rightarrow> eino_message option list" where
  "recvMessages r = (case r of RecvEvent m \<Rightarrow> [m] | _ \<Rightarrow> [])"

definition recvError :: "'e recv \<Rightarrow> string option" where
  "recvError r = (case r of RecvErr msg \<Rightarrow> Some msg | _ \<Rightarrow> None)"

text \<open>The round that ends the loop: the stream ends or fails, or the consumer is gone.\<close>

definition ends_round :: "('m, 'f) eino_round \<Rightarrow> bool" where
  "ends_round = (\<lambda>(env, r, gone). case r of RecvEvent m \<Rightarrow> gone | _ \<Rightarrow> True)"

lemma eino_recv_fields:
  assumes "eino_recv env m (acc, s) = (acc', s')"
  shows "onlyFirst s s'" "ac_content acc' = ac_content acc @ chunkTexts em_Content [m]"
    "ac_reason acc' = ac_reason acc @ chunkTexts em_Reasoning [m]"
proof -
  have "acc' = fst (eino_recv env m (acc, s))" "s' = snd (eino_recv env m (acc, s))" using assms by simp_all
  then show "onlyFirst s s'" "ac_content acc' = ac_content acc @ chunkTexts em_Content [m]"
    "ac_reason acc' = ac_reason acc @ chunkTexts em_Reasoning [m]"
    by (simp_all add: eino_recv_def chunkTexts_def eino_chunk_fields split: option.split)
qed

lemma pump_last:
  assumes "ends_round (env, r, gone)"
  shows "\<exists>acc' s'. pump acc ((env, r, gone) # rest) (s, w) = (Step_End env (SetError (recvError r) ''api_error'' (flushAcc acc' s'), w), [r]) \<and>
    onlyFirst s s' \<and> ac_content acc' = ac_content acc @ chunkTexts em_Content (recvMessages r) \<and>
    ac_reason acc' = ac_reason acc @ chunkTexts em_Reasoning (recvMessages r)"
proof (cases r)
  case (RecvEvent m)
  obtain acc' s' where x: "eino_recv env m (acc, s) = (acc', s')" by (cases "eino_recv env m (acc, s)")
  with RecvEvent assms eino_recv_fields [OF x] show ?thesis
    by (intro exI [of _ acc'] exI [of _ s']) (simp add: ends_round_def recvError_def SetError_def recvMessages_def)
qed (rule exI [of _ acc], rule exI [of _ s], simp add: recvError_def SetError_def recvMessages_def chunkTexts_def)+

lemma pump_rounds:
  assumes "ends_round (env, r, gone)"
  shows "\<exists>acc' s'. pump acc (map (\<lambda>(e, m). (e, RecvEvent m, False)) ms @ (env, r, gone) # rest) (s, w) =
      (Step_End env (SetError (recvError r) ''api_error'' (flushAcc acc' s'), w), map (RecvEvent \<circ> snd) ms @ [r]) \<and>
    onlyFirst s s' \<and> ac_content acc' = ac_content acc @ chunkTexts em_Content (map snd ms @ recvMessages r) \<and>
    ac_reason acc' = ac_reason acc @ chunkTexts em_Reasoning (map snd ms @ recvMessages r)"
proof (induction ms arbitrary: acc s)
  case Nil
  show ?case using pump_last [OF assms, of acc rest s w] by simp
next
  case (Cons em ms)
  obtain e m where em: "em = (e, m)" by (cases em)
  obtain acc1 s1 where x: "eino_recv e m (acc, s) = (acc1, s1)" by (cases "eino_recv e m (acc, s)")
  note f = eino_recv_fields [OF x]
  have app: "chunkTexts f (m # xs) = chunkTexts f [m] @ chunkTexts f xs" for f xs by (simp add: chunkTexts_def)
  from Cons.IH [of acc1 s1] obtain acc' s' where IH:
    "pump acc1 (map (\<lambda>(e, m). (e, RecvEvent m, False)) ms @ (env, r, gone) # rest) (s1, w) =
      (Step_End env (SetError (recvError r) ''api_error'' (flushAcc acc' s'), w), map (RecvEvent \<circ> snd) ms @ [r])"
    "onlyFirst s1 s'" "ac_content acc' = ac_content acc1 @ chunkTexts em_Content (map snd ms @ recvMessages r)"
    "ac_reason acc' = ac_reason acc1 @ chunkTexts em_Reasoning (map snd ms @ recvMessages r)" by blast
  have "onlyFirst s s'" by (rule onlyFirst_trans [OF f(1) IH(2)])
  with IH f(2,3) x show ?case
    by (intro exI [of _ acc'] exI [of _ s']) (simp add: em app [of _ "map snd ms @ recvMessages r"])
qed



subsection \<open>Synchronous calls\<close>

lemma ant_request_flags: "flags (ant_fillRequest p s) = flags (s :: ('f::zero) LLMState)"
proof -
  have "flags (ant_fillChatInputs p s) = flags s" for s :: "'f LLMState"
    unfolding ant_fillChatInputs_def Let_def
    by (intro trans [OF fold_flags fold_flags]) (simp_all add: accumulator_flags)
  then show ?thesis by (simp add: ant_fillRequest_def setter_flags Let_def split: option.split)
qed

lemma ant_output_flags: "flags (ant_fillChatOutput up resp s) = flags s"
  by (simp add: ant_fillChatOutput_def addToolCalls_flags accumulator_flags setter_flags Let_def split: option.split prod.split)

lemma eino_request_flags: "flags (eino_fillRequest up msgs opts s) = flags (s :: ('f::zero) LLMState)"
proof -
  have "flags (fold (eino_fillMessage up) msgs s) = flags s"
    by (rule fold_flags) (simp add: eino_fillMessage_def accumulator_flags Let_def split: option.split eino_role.split)
  then show ?thesis by (simp add: eino_fillRequest_def setter_flags Let_def split: option.split)
qed

lemma eino_output_flags: "flags (eino_fillOutput m s) = flags s"
  by (simp add: eino_fillOutput_def addToolCalls_flags accumulator_flags Let_def split: option.split)

lemma message_calls_reported:
  assumes "LLMMode env" and "LLMMode env'"
  shows "(\<And>c. list_all hook_on (fst (sdk1 c))) \<Longrightarrow> reported_once w (WrapAndNewMessage up env p a c sdk1 env' w)"
    and "(\<And>c. list_all hook_on (fst (sdk2 c))) \<Longrightarrow> reported_once w (doGenerate up tbl m env msgs opts a c sdk2 env' w)"
  using assms
  by (auto simp: WrapAndNewMessage_def doGenerate_def ant_request_flags ant_output_flags eino_request_flags eino_output_flags
      intro!: traced_call_reported)

text \<open>A model that was made by a recording constructor is reported with its name, unless the call gives another.\<close>

lemma configFor_model:
  assumes "name \<noteq> []"
  shows "cfg_Model (configFor (rememberModelName (Some a) name tbl) (Some a) opts) =
    (case eo_Model opts of None \<Rightarrow> name | Some n \<Rightarrow> if n = [] then name else n)"
  using assms by (simp add: configFor_def lookupModelName_def rememberModelName_def Let_def split: option.split)

end
