(* ===== verification/Logsink.thy ===== *)
theory Logsink
  imports Prelude
begin

text \<open>
  Log collection (\<^verbatim>\<open>agent/logsink\<close>): the line buffer that joins the lines of a stack trace, the line log with
  its truncation and rate-limited warnings, the two writers that feed it (\<^verbatim>\<open>std/ProxyStream.go\<close>,
  \<^verbatim>\<open>logsink/TraceLogWriter.go\<close>) and the pack that is sent.

  A \<^verbatim>\<open>value.MapValue\<close> is the list of the puts made on it; the last put of a key counts. A sender queue is the
  list of what was added to it. The clock is an argument.
\<close>

subsection \<open>The line buffer\<close>

record LineBuffer =
  isMulti :: bool
  out :: string

definition NewLineBuffer :: LineBuffer where
  "NewLineBuffer = \<lparr>isMulti = False, out = []\<rparr>"

definition Append :: "nat \<Rightarrow> string \<Rightarrow> LineBuffer \<Rightarrow> LineBuffer \<times> string list" where
  "Append lineSize line b =
     (if line = [] then (b, [])
      else if HasSuffix line [NL] then
        (if HasPrefix line [TAB] then
           (if out b \<noteq> [] \<and> \<not> isMulti b
            then (b\<lparr>out := out b @ line, isMulti := True\<rparr>, [out b])
            else (b\<lparr>out := out b @ line, isMulti := True\<rparr>, []))
         else (if out b \<noteq> [] then (b\<lparr>isMulti := False, out := []\<rparr>, [out b @ line])
               else (b\<lparr>isMulti := False\<rparr>, [line])))
      else if length (out b) \<ge> lineSize then (b\<lparr>out := line\<rparr>, [out b])
      else (b\<lparr>out := out b @ line\<rparr>, []))"

definition AppendLine :: "string \<Rightarrow> LineBuffer \<Rightarrow> LineBuffer \<times> string list" where
  "AppendLine line b =
     (if line = [] then (if out b \<noteq> [] then (b\<lparr>out := []\<rparr>, [out b]) else (b, []))
      else if HasPrefix line [TAB] then
        (if out b \<noteq> [] \<and> \<not> isMulti b
         then (b\<lparr>out := out b @ line @ [NL], isMulti := True\<rparr>, [out b @ line @ [NL]])
         else (b\<lparr>out := out b @ line @ [NL], isMulti := True\<rparr>, []))
      else if out b \<noteq> [] then (b\<lparr>isMulti := False, out := []\<rparr>, [out b, line])
      else (b\<lparr>isMulti := False\<rparr>, [line]))"

definition Flush :: "LineBuffer \<Rightarrow> LineBuffer \<times> string" where
  "Flush b = (if out b \<noteq> [] then (b\<lparr>out := []\<rparr>, out b) else (b, []))"

text \<open>Feeding a sequence of writes, collecting what is released.\<close>

fun feed :: "(string \<Rightarrow> LineBuffer \<Rightarrow> LineBuffer \<times> string list) \<Rightarrow> string list \<Rightarrow> LineBuffer \<Rightarrow> LineBuffer \<times> string list" where
  "feed f [] b = (b, [])"
| "feed f (l # ls) b = (let (b1, r1) = f l b; (b2, r2) = feed f ls b1 in (b2, r1 @ r2))"

text \<open>
  What a line buffer promises: \<open>put l\<close> is the text the write \<open>l\<close> contributes, and released text plus held text
  is the text put in, in order, as long as the buffer is well-formed and the writes are admissible.
\<close>

locale line_joiner =
  fixes step :: "string \<Rightarrow> LineBuffer \<Rightarrow> LineBuffer \<times> string list"
    and put :: "string \<Rightarrow> string"
    and admissible :: "string \<Rightarrow> bool"
    and ok :: "LineBuffer \<Rightarrow> bool"
  assumes conserves: "ok b \<Longrightarrow> admissible l \<Longrightarrow> step l b = (b', r) \<Longrightarrow> ok b' \<and> concat r @ out b' = out b @ put l"
begin

lemma feed_conserves:
  "ok b \<Longrightarrow> list_all admissible ls \<Longrightarrow> feed step ls b = (b', r) \<Longrightarrow>
   ok b' \<and> concat r @ out b' = out b @ concat (map put ls)"
proof (induction ls arbitrary: b b' r)
  case (Cons l ls)
  obtain b1 r1 where s: "step l b = (b1, r1)" by (cases "step l b")
  obtain b2 r2 where f: "feed step ls b1 = (b2, r2)" by (cases "feed step ls b1")
  from conserves [OF Cons.prems(1) _ s] Cons.prems(2) have c: "ok b1" "concat r1 @ out b1 = out b @ put l" by auto
  from Cons.IH [OF c(1) _ f] Cons.prems(2) have "ok b2" "concat r2 @ out b2 = out b1 @ concat (map put ls)" by auto
  moreover from Cons.prems(3) s f have "b' = b2" "r = r1 @ r2" by auto
  ultimately show ?case using c(2) by simp
qed simp

lemma feed_flush:
  assumes "ok b" and "list_all admissible ls" and "feed step ls b = (b', r)"
  shows "concat r @ snd (Flush b') = out b @ concat (map put ls)"
  using feed_conserves [OF assms] by (auto simp: Flush_def)

end

definition multi_ok :: "LineBuffer \<Rightarrow> bool" where
  "multi_ok b \<longleftrightarrow> (out b \<noteq> [] \<longrightarrow> isMulti b)"

definition complete_line :: "string \<Rightarrow> bool" where
  "complete_line l \<longleftrightarrow> l = [] \<or> HasSuffix l [NL]"

lemma Append_conserves:
  "multi_ok b \<Longrightarrow> complete_line l \<Longrightarrow> Append n l b = (b', r) \<Longrightarrow> multi_ok b' \<and> concat r @ out b' = out b @ l"
  by (auto simp: Append_def multi_ok_def complete_line_def split: if_splits)

lemma Append_plain_conserves:
  "\<not> HasPrefix l [TAB] \<Longrightarrow> Append n l b = (b', r) \<Longrightarrow> concat r @ out b' = out b @ l"
  by (auto simp: Append_def split: if_splits)

text \<open>The text a line contributes to \<open>AppendLine\<close>: a continuation line gets its line end back.\<close>

definition lineText :: "string \<Rightarrow> string" where
  "lineText l = (if l \<noteq> [] \<and> HasPrefix l [TAB] then l @ [NL] else l)"

lemma AppendLine_conserves:
  "multi_ok b \<Longrightarrow> AppendLine l b = (b', r) \<Longrightarrow> multi_ok b' \<and> concat r @ out b' = out b @ lineText l"
  by (auto simp: AppendLine_def multi_ok_def lineText_def split: if_splits)

interpretation whole_lines: line_joiner "Append n" "\<lambda>l. l" complete_line multi_ok for n
  by unfold_locales (rule Append_conserves)

interpretation plain_writes: line_joiner "Append n" "\<lambda>l. l" "\<lambda>l. \<not> HasPrefix l [TAB]" "\<lambda>b. True" for n
  by unfold_locales (simp add: Append_plain_conserves)

interpretation scanned_lines: line_joiner AppendLine lineText "\<lambda>l. True" multi_ok
  by unfold_locales (rule AppendLine_conserves)

text \<open>A program that writes whole lines loses and repeats nothing: the texts released by \<open>Append\<close>, followed
  by the text a final \<open>Flush\<close> gives, are the lines written, in order, stack traces included.\<close>
theorem Append_whole_lines:
  assumes "list_all complete_line ls" and "feed (Append n) ls NewLineBuffer = (b', r)"
  shows "concat r @ snd (Flush b') = concat ls"
  using whole_lines.feed_flush [OF _ assms] by (simp add: NewLineBuffer_def multi_ok_def)

theorem Append_whole_lines_witness:
  "concat (snd (feed (Append 512) [''panic'' @ [NL], TAB # ''at f'' @ [NL], TAB # ''at g'' @ [NL], ''next'' @ [NL]] NewLineBuffer)) @
   snd (Flush (fst (feed (Append 512) [''panic'' @ [NL], TAB # ''at f'' @ [NL], TAB # ''at g'' @ [NL], ''next'' @ [NL]] NewLineBuffer))) =
   concat [''panic'' @ [NL], TAB # ''at f'' @ [NL], TAB # ''at g'' @ [NL], ''next'' @ [NL]]"
  by (rule Append_whole_lines) (simp_all add: complete_line_def HasSuffix_def)

text \<open>The same holds for the lines a scanner delivers to \<open>AppendLine\<close>, whatever they are, where a
  continuation line counts with its line end.\<close>
theorem AppendLine_scanned_lines:
  assumes "feed AppendLine ls NewLineBuffer = (b', r)"
  shows "concat r @ snd (Flush b') = concat (map lineText ls)"
  using scanned_lines.feed_flush [OF _ _ assms] by (simp add: NewLineBuffer_def multi_ok_def list_all_iff)

theorem AppendLine_scanned_lines_witness:
  "concat (snd (feed AppendLine [''a'', TAB # ''b'', ''c''] NewLineBuffer)) @
   snd (Flush (fst (feed AppendLine [''a'', TAB # ''b'', ''c''] NewLineBuffer))) = concat (map lineText [''a'', TAB # ''b'', ''c''])"
  by (rule AppendLine_scanned_lines) simp

text \<open>A continuation line that follows an unfinished line makes \<open>Append\<close> release the unfinished text and
  keep it: whatever whole line comes next is released together with a second copy of it.\<close>
theorem Append_repeats_text:
  assumes "old \<noteq> []" and "l \<noteq> []" and "\<not> HasPrefix l [TAB]" and "HasSuffix l [NL]" and "HasSuffix t [NL]"
  shows "feed (Append n) [TAB # t, l] \<lparr>isMulti = False, out = old\<rparr> =
         (\<lparr>isMulti = False, out = []\<rparr>, [old, old @ (TAB # t) @ l])"
proof -
  have "HasSuffix (TAB # t) [NL]" using assms(5) by (simp add: HasSuffix_iff) (metis append_Cons)
  moreover have "HasPrefix (TAB # t) [TAB]" by (simp add: HasPrefix_def)
  ultimately show ?thesis using assms by (simp add: Append_def)
qed

theorem Append_repeats_text_witness:
  "feed (Append 512) [TAB # ''at f'' @ [NL], ''next'' @ [NL]] \<lparr>isMulti = False, out = ''boom''\<rparr> =
   (\<lparr>isMulti = False, out = []\<rparr>, [''boom'', ''boom'' @ (TAB # ''at f'' @ [NL]) @ (''next'' @ [NL])])"
  by (rule Append_repeats_text) (simp_all add: HasPrefix_def HasSuffix_def)


subsection \<open>The line log\<close>

datatype mapval = MVString string | MVLong int | MVBool bool

record LineLog =
  Truncated :: bool
  OrgContentLength :: nat
  Time :: int
  Category :: string
  Tags :: "(string \<times> mapval) list"
  Fields :: "(string \<times> mapval) list"
  Content :: string

definition NewLineLog :: LineLog where
  "NewLineLog = \<lparr>Truncated = False, OrgContentLength = 0, Time = 0, Category = [], Tags = [], Fields = [], Content = []\<rparr>"

record logsink_conf =
  LogSinkEnabled :: bool
  LogSinkLimitContentEnabled :: bool
  LogSinkLimitContentLength :: int
  DebugLogSinkLimitContentEnabled :: bool
  LogSinkLimitContentLogSilentTime :: int
  LogsinkLimitContentAlertEnabled :: bool
  LogSinkLimitContentAlertSilentTime :: int
  LogSinkZipEnabled :: bool
  LogSinkLineSize :: nat
  LogSinkTraceEnabled :: bool
  LogSinkTraceTxidEnabled :: bool
  LogSinkTraceMtidEnabled :: bool
  HasLogSinkTags :: bool
  LogSinkTags :: "string list list"
  OKIND :: int
  OKIND_NAME :: string
  ONODE :: int
  ONODE_NAME :: string
  ONAME :: string

definition truncMark :: string where
  "truncMark = ''...(truncated)''"

definition CheckLogContent :: "logsink_conf \<Rightarrow> LineLog \<Rightarrow> string \<Rightarrow> LineLog go" where
  "CheckLogContent conf l orgContent =
     (if orgContent = [] then Inr l
      else if LogSinkLimitContentEnabled conf \<and> int (length orgContent) > LogSinkLimitContentLength conf
      then if LogSinkLimitContentLength conf < 0 then Inl IndexOutOfRange
           else Inr (l\<lparr>Content := take (nat (LogSinkLimitContentLength conf)) orgContent @ truncMark,
                       Truncated := True, OrgContentLength := length orgContent\<rparr>)
      else Inr (l\<lparr>Content := orgContent\<rparr>))"

text \<open>The warning about a truncated log; \<open>lineLog.Content[0:20]\<close> panics on a shorter content. \<open>getLong\<close> is the
  conversion of \<open>Fields.GetLong\<close> (module golib).\<close>

definition CreateLogMessage :: "(mapval \<Rightarrow> int) \<Rightarrow> LineLog \<Rightarrow> string go" where
  "CreateLogMessage getLong l =
     (let head = ''LOG_TRUNCATED: too big log'' @ [NL] @ ''category: '' @ Category l @ [NL];
          tx = (case map_of (rev (Fields l)) ''@txid'' of None \<Rightarrow> [] | Some v \<Rightarrow> ''txid: '' @ itoa (getLong v) @ [NL])
      in if length (Content l) < 20 then Inl IndexOutOfRange
         else Inr (head @ tx @ ''content: '' @ take 20 (Content l) @ ''...'' @ [NL] @
                   ''original content length: '' @ itoa (int (OrgContentLength l)) @ [NL]))"

record log_state =
  LastLog :: int
  LastAlert :: int
  printed :: "(int \<times> string) list"
  alerts :: "(int \<times> string) list"

definition LogStr :: "logsink_conf \<Rightarrow> int \<Rightarrow> string \<Rightarrow> log_state \<Rightarrow> log_state" where
  "LogStr conf now message g =
     (if \<not> DebugLogSinkLimitContentEnabled conf then g
      else if now - LastLog g < LogSinkLimitContentLogSilentTime conf then g
      else g\<lparr>LastLog := now, printed := printed g @ [(now, message)]\<rparr>)"

definition AlertLogTruncated :: "logsink_conf \<Rightarrow> int \<Rightarrow> string \<Rightarrow> log_state \<Rightarrow> log_state" where
  "AlertLogTruncated conf now message g =
     (if \<not> LogsinkLimitContentAlertEnabled conf then g
      else if now - LastAlert g < LogSinkLimitContentAlertSilentTime conf then g
      else g\<lparr>LastAlert := now, alerts := alerts g @ [(now, message)]\<rparr>)"

definition Log :: "(mapval \<Rightarrow> int) \<Rightarrow> logsink_conf \<Rightarrow> int \<Rightarrow> LineLog \<Rightarrow> log_state \<Rightarrow> log_state go" where
  "Log getLong conf now l g =
     bindGo (CreateLogMessage getLong l) (\<lambda>message. Inr (AlertLogTruncated conf now message (LogStr conf now message g)))"

definition AddTruncatedTag :: "LineLog \<Rightarrow> LineLog" where
  "AddTruncatedTag l = l\<lparr>Tags := Tags l @ [(''@truncated'', MVBool True)]\<rparr>"

subsection \<open>Sending\<close>

record LogSinkPack =
  p_Time :: int
  p_Category :: string
  p_Tags :: "(string \<times> mapval) list"
  p_Fields :: "(string \<times> mapval) list"
  p_Content :: string

definition confTags :: "string list list \<Rightarrow> (string \<times> mapval) list" where
  "confTags ts = concat (map (\<lambda>v. case v of k # x # _ \<Rightarrow> [(k, MVString x)] | _ \<Rightarrow> []) ts)"

definition buildLogSinkPack :: "logsink_conf \<Rightarrow> int \<Rightarrow> LineLog \<Rightarrow> LogSinkPack" where
  "buildLogSinkPack conf now l =
     \<lparr>p_Time = (if Time l \<le> 0 then now else Time l), p_Category = Category l,
      p_Tags = (if ONAME conf \<noteq> [] then [(''oname'', MVString (ONAME conf))] else []) @
               (if OKIND conf \<noteq> 0 then [(''okindName'', MVString (OKIND_NAME conf))] else []) @
               (if ONODE conf \<noteq> 0 then [(''onodeName'', MVString (ONODE_NAME conf))] else []) @
               Tags l @
               (if HasLogSinkTags conf then confTags (LogSinkTags conf) else []) @
               (if Truncated l then [(''@truncated'', MVBool True)] else []),
      p_Fields = Fields l, p_Content = Content l\<rparr>"

datatype sent = ToZip LogSinkPack | ToData LogSinkPack

definition Send :: "(mapval \<Rightarrow> int) \<Rightarrow> logsink_conf \<Rightarrow> int \<Rightarrow> LineLog \<Rightarrow> log_state \<Rightarrow> (log_state \<times> sent) go" where
  "Send getLong conf now l g =
     (let p = buildLogSinkPack conf now l in
      bindGo (if Truncated l then Log getLong conf now l g else Inr g) (\<lambda>g1.
      Inr (g1, if LogSinkZipEnabled conf then ToZip p else ToData p)))"

subsection \<open>The writers\<close>

text \<open>
  \<open>bufio.Scanner\<close> with its default split function: the lines without their line ends (and without a carriage
  return before it), up to the first line of 65536 bytes or more, where it stops.
\<close>

definition dropCR :: "string \<Rightarrow> string" where
  "dropCR l = (if l \<noteq> [] \<and> last l = CHR 0x0D then butlast l else l)"

fun rawLines :: "string \<Rightarrow> string \<Rightarrow> string list" where
  "rawLines cur [] = (if cur \<noteq> [] then [cur] else [])"
| "rawLines cur (c # cs) = (if c = NL then cur # rawLines [] cs else rawLines (cur @ [c]) cs)"

definition MaxScanTokenSize :: nat where
  "MaxScanTokenSize = 64 * 1024"

definition scanLines :: "string \<Rightarrow> string list" where
  "scanLines data = map dropCR (takeWhile (\<lambda>l. length l < MaxScanTokenSize) (rawLines [] data))"

record ProxyStream =
  enabled :: bool
  lineBuffer :: LineBuffer
  category :: string

definition makeLog :: "logsink_conf \<Rightarrow> string \<Rightarrow> string \<Rightarrow> LineLog go" where
  "makeLog conf cat content = CheckLogContent conf (NewLineLog\<lparr>Category := cat\<rparr>) content"

text \<open>The inner loop of \<open>Write\<close>: texts of one byte are skipped.\<close>

definition addContents :: "logsink_conf \<Rightarrow> string \<Rightarrow> string list \<Rightarrow> LineLog list \<Rightarrow> LineLog list go" where
  "addContents conf cat contents q =
     foldGo (\<lambda>content q. if length content > 1
                         then bindGo (makeLog conf cat content) (\<lambda>l. Inr (q @ [l])) else Inr q) contents q"

fun writeLines :: "logsink_conf \<Rightarrow> string \<Rightarrow> string list \<Rightarrow> LineBuffer \<times> LineLog list \<Rightarrow> (LineBuffer \<times> LineLog list) go" where
  "writeLines conf cat [] s = Inr s"
| "writeLines conf cat (l # ls) (b, q) =
     (let (b1, contents) = AppendLine l b in
      bindGo (addContents conf cat contents q) (\<lambda>q1. writeLines conf cat ls (b1, q1)))"

definition ProxyStream_Write ::
  "logsink_conf \<Rightarrow> string \<Rightarrow> ProxyStream \<times> LineLog list \<Rightarrow> (ProxyStream \<times> LineLog list) go" where
  "ProxyStream_Write conf data = (\<lambda>(p, q).
     if enabled p
     then bindGo (writeLines conf (category p) (scanLines data) (lineBuffer p, q)) (\<lambda>(b, q1).
          Inr (p\<lparr>lineBuffer := b\<rparr>, q1))
     else Inr (p, q))"

definition LogFlush :: "logsink_conf \<Rightarrow> ProxyStream \<Rightarrow> (ProxyStream \<times> LineLog option) go" where
  "LogFlush conf p =
     (let (b, content) = Flush (lineBuffer p); p1 = p\<lparr>lineBuffer := b\<rparr> in
      if content \<noteq> [] then bindGo (makeLog conf (category p) content) (\<lambda>l. Inr (p1, Some l))
      else Inr (p1, None))"

record TraceLogWriter =
  tw_category :: string
  tw_lineBuffer :: LineBuffer

text \<open>The transaction of the writing goroutine: its id, Txid and MTid, if the goroutine has one.\<close>

definition sendLine :: "logsink_conf \<Rightarrow> string \<Rightarrow> int \<Rightarrow> (int \<times> int) option \<Rightarrow> string \<Rightarrow> LineLog go" where
  "sendLine conf cat gid ctx content =
     bindGo (makeLog conf cat content) (\<lambda>l.
     Inr (case (if LogSinkTraceEnabled conf then ctx else None) of
            None \<Rightarrow> l
          | Some (txid, mtid) \<Rightarrow>
              l\<lparr>Fields := Fields l @
                  (if LogSinkTraceTxidEnabled conf \<and> txid \<noteq> 0 then [(''@txid'', MVLong txid)] else []) @
                  (if LogSinkTraceMtidEnabled conf \<and> mtid \<noteq> 0 then [(''@mtid'', MVLong mtid)] else []) @
                  [(''@gid'', MVLong gid)]\<rparr>))"

definition TraceLogWriter_Write ::
  "logsink_conf \<Rightarrow> int \<Rightarrow> (int \<times> int) option \<Rightarrow> string \<Rightarrow> TraceLogWriter \<times> LineLog list \<Rightarrow> (TraceLogWriter \<times> LineLog list) go" where
  "TraceLogWriter_Write conf gid ctx data = (\<lambda>(t, q).
     if \<not> LogSinkEnabled conf then Inr (t, q)
     else let (b, lines) = Append (LogSinkLineSize conf) data (tw_lineBuffer t) in
          bindGo (foldGo (\<lambda>content q. if content = [] then Inr q
                          else bindGo (sendLine conf (tw_category t) gid ctx content) (\<lambda>l. Inr (q @ [l]))) lines q)
            (\<lambda>q1. Inr (t\<lparr>tw_lineBuffer := b\<rparr>, q1)))"


subsection \<open>Properties of the log path\<close>

text \<open>With the content limit on and set below six bytes, a log that exceeds it is truncated and then
  makes \<open>Send\<close> panic: the warning takes the first 20 bytes of a content that has fewer.\<close>
theorem Send_panics_on_small_limit:
  assumes "LogSinkLimitContentEnabled conf" and "0 \<le> LogSinkLimitContentLength conf"
    and "LogSinkLimitContentLength conf < 6" and "LogSinkLimitContentLength conf < int (length content)"
  shows "\<exists>l'. CheckLogContent conf l content = Inr l' \<and> Truncated l' \<and>
              Send getLong conf now l' g = Inl IndexOutOfRange"
proof -
  have "content \<noteq> []" using assms(2,4) by auto
  then show ?thesis
    using assms by (simp add: CheckLogContent_def Send_def Log_def CreateLogMessage_def truncMark_def Let_def)
qed

definition conf1 :: logsink_conf where
  "conf1 = \<lparr>LogSinkEnabled = True, LogSinkLimitContentEnabled = True, LogSinkLimitContentLength = 5,
     DebugLogSinkLimitContentEnabled = True, LogSinkLimitContentLogSilentTime = 10000,
     LogsinkLimitContentAlertEnabled = True, LogSinkLimitContentAlertSilentTime = 10000,
     LogSinkZipEnabled = True, LogSinkLineSize = 512, LogSinkTraceEnabled = True, LogSinkTraceTxidEnabled = True,
     LogSinkTraceMtidEnabled = True, HasLogSinkTags = False, LogSinkTags = [], OKIND = 0, OKIND_NAME = [],
     ONODE = 0, ONODE_NAME = [], ONAME = []\<rparr>"

definition log0 :: log_state where
  "log0 = \<lparr>LastLog = 0, LastAlert = 0, printed = [], alerts = []\<rparr>"

theorem Send_panics_on_small_limit_witness:
  "\<exists>l'. CheckLogContent conf1 NewLineLog ''a long message'' = Inr l' \<and> Truncated l' \<and>
        Send (\<lambda>_. 0) conf1 50 l' log0 = Inl IndexOutOfRange"
  by (rule Send_panics_on_small_limit) (simp_all add: conf1_def)

text \<open>With any other limit the truncated content is long enough.\<close>

lemma Send_returns:
  assumes "LogSinkLimitContentLength conf \<ge> 6" and "CheckLogContent conf (NewLineLog\<lparr>Category := cat\<rparr>) content = Inr l"
  shows "returns (Send getLong conf now l g)"
  using assms
  by (auto simp: CheckLogContent_def Send_def Log_def CreateLogMessage_def truncMark_def NewLineLog_def Let_def
      returns_iff split: if_splits)

definition alerts_ok :: "int \<Rightarrow> log_state \<Rightarrow> bool" where
  "alerts_ok d g \<longleftrightarrow> successively (\<lambda>a b. b - a \<ge> d) (map fst (alerts g)) \<and>
     (alerts g \<noteq> [] \<longrightarrow> fst (last (alerts g)) = LastAlert g)"

lemma AlertLogTruncated_ok:
  assumes "alerts_ok (LogSinkLimitContentAlertSilentTime conf) g"
  shows "alerts_ok (LogSinkLimitContentAlertSilentTime conf) (AlertLogTruncated conf now m g)"
proof (cases "alerts g = []")
  case True
  with assms show ?thesis by (auto simp: AlertLogTruncated_def alerts_ok_def)
next
  case False
  with assms show ?thesis
    by (auto simp: AlertLogTruncated_def alerts_ok_def successively_append_iff last_map)
qed

text \<open>Alerts about truncated logs are rate limited: whatever logs are truncated and whatever the clock does,
  two consecutive alerts are at least the configured silent time apart.\<close>
theorem alerts_are_spaced:
  assumes "alerts g = []"
  shows "successively (\<lambda>a b. b - a \<ge> LogSinkLimitContentAlertSilentTime conf)
           (map fst (alerts (fold (\<lambda>(now, m). AlertLogTruncated conf now m) calls g)))"
proof -
  have "alerts_ok (LogSinkLimitContentAlertSilentTime conf) (fold (\<lambda>(now, m). AlertLogTruncated conf now m) calls g)"
    by (rule fold_invariant [where Q = "\<lambda>_. True"])
      (use assms in \<open>auto simp: AlertLogTruncated_ok, simp add: alerts_ok_def\<close>)
  then show ?thesis by (simp add: alerts_ok_def)
qed

theorem alerts_are_spaced_witness:
  "successively (\<lambda>a b. b - a \<ge> LogSinkLimitContentAlertSilentTime conf1)
     (map fst (alerts (fold (\<lambda>(now, m). AlertLogTruncated conf1 now m) [(20000, ''x''), (20500, ''y''), (31000, ''z'')] log0)))"
  by (rule alerts_are_spaced) (simp add: log0_def)

subsection \<open>What a captured stream delivers\<close>

definition plain_line :: "string \<Rightarrow> bool" where
  "plain_line l \<longleftrightarrow> NL \<notin> set l \<and> \<not> HasPrefix l [TAB] \<and> l \<noteq> [] \<and> last l \<noteq> CHR 0x0D \<and> length l < MaxScanTokenSize"

lemma rawLines_line: "NL \<notin> set l \<Longrightarrow> rawLines cur (l @ NL # cs) = (cur @ l) # rawLines [] cs"
  by (induction l arbitrary: cur) auto

lemma rawLines_concat: "\<forall>l\<in>set ls. NL \<notin> set l \<Longrightarrow> rawLines [] (concat (map (\<lambda>l. l @ [NL]) ls)) = ls"
  by (induction ls) (auto simp: rawLines_line)

lemma scanLines_plain: "\<forall>l\<in>set ls. plain_line l \<Longrightarrow> scanLines (concat (map (\<lambda>l. l @ [NL]) ls)) = ls"
proof -
  assume a: "\<forall>l\<in>set ls. plain_line l"
  then have "takeWhile (\<lambda>l. length l < MaxScanTokenSize) ls = ls"
    by (simp add: takeWhile_eq_all_conv plain_line_def)
  moreover have "map dropCR ls = ls"
    by (rule map_idI) (use a in \<open>auto simp: dropCR_def plain_line_def\<close>)
  moreover have "rawLines [] (concat (map (\<lambda>l. l @ [NL]) ls)) = ls"
    using a by (intro rawLines_concat) (auto simp: plain_line_def)
  ultimately show ?thesis by (simp only: scanLines_def)
qed

lemma writeLines_plain:
  assumes "\<not> LogSinkLimitContentEnabled conf"
  shows "\<forall>l\<in>set ls. plain_line l \<Longrightarrow> out b = [] \<Longrightarrow>
    \<exists>b'. out b' = [] \<and> writeLines conf cat ls (b, q) =
         Inr (b', q @ map (\<lambda>l. NewLineLog\<lparr>Category := cat, Content := l\<rparr>) (filter (\<lambda>l. length l > 1) ls))"
proof (induction ls arbitrary: b q)
  case (Cons l ls)
  have l: "l \<noteq> []" "\<not> HasPrefix l [TAB]" using Cons.prems(1) by (auto simp: plain_line_def)
  have step: "AppendLine l b = (b\<lparr>isMulti := False\<rparr>, [l])"
    using l Cons.prems(2) by (simp add: AppendLine_def)
  have add: "addContents conf cat [l] q =
      Inr (q @ (if length l > 1 then [NewLineLog\<lparr>Category := cat, Content := l\<rparr>] else []))"
    using l assms by (simp add: addContents_def makeLog_def CheckLogContent_def)
  from Cons.IH [of "b\<lparr>isMulti := False\<rparr>" "q @ (if length l > 1 then [NewLineLog\<lparr>Category := cat, Content := l\<rparr>] else [])"]
    Cons.prems step add show ?case by auto
qed simp

text \<open>A captured stream without continuation lines is delivered line by line: when no content limit is on,
  writing lines (below 64 KiB, not ending in a carriage return) gives one log per line of at least two bytes, in
  order, with the line as its content; lines of a single byte are not delivered.\<close>
theorem ProxyStream_delivers_lines:
  assumes "enabled p" and "out (lineBuffer p) = []" and "\<not> LogSinkLimitContentEnabled conf"
    and "\<forall>l\<in>set ls. plain_line l"
  shows "\<exists>p'. ProxyStream_Write conf (concat (map (\<lambda>l. l @ [NL]) ls)) (p, q) =
     Inr (p', q @ map (\<lambda>l. NewLineLog\<lparr>Category := category p, Content := l\<rparr>) (filter (\<lambda>l. length l > 1) ls))"
  using writeLines_plain [OF assms(3,4,2), of "category p" q]
  by (auto simp: ProxyStream_Write_def assms(1) scanLines_plain [OF assms(4)])

theorem ProxyStream_delivers_lines_witness:
  "\<exists>p'. ProxyStream_Write (conf1\<lparr>LogSinkLimitContentEnabled := False\<rparr>) (concat (map (\<lambda>l. l @ [NL]) [''{'', ''ok'', ''}'']))
          (\<lparr>enabled = True, lineBuffer = NewLineBuffer, category = ''AppStdOut''\<rparr>, []) =
     Inr (p', [] @ map (\<lambda>l. NewLineLog\<lparr>Category := category \<lparr>enabled = True, lineBuffer = NewLineBuffer, category = ''AppStdOut''\<rparr>,
                              Content := l\<rparr>) (filter (\<lambda>l. length l > 1) [''{'', ''ok'', ''}'']))"
  by (rule ProxyStream_delivers_lines)
    (simp_all add: NewLineBuffer_def conf1_def plain_line_def HasPrefix_def MaxScanTokenSize_def)

end
