(* ===== verification/Url_Pattern.thy ===== *)
theory Url_Pattern
  imports Prelude
begin

text \<open>
  The two URL detectors (\<^verbatim>\<open>agent/agent/trace/URLPatternDetector.go\<close> for outgoing calls,
  \<^verbatim>\<open>agent/agent/trace/ServiceURLPatternDetector.go\<close> for services): configured patterns such as
  \<^verbatim>\<open>/get/{id}\<close> are kept in a path tree, and the answers of the tree are cached under the hash code of the URL, in a
  set of URLs that match nothing and a map from URLs to patterns.

  The path tree, the bounded sets and maps and the string functions of golib are parameters (\<open>url_lib\<close>);
  \<open>url_laws\<close> states what is used of the caches: an entry that is found was put there since the last clearing. They
  may evict entries at any time. The locale \<open>url_cache\<close> holds the argument both detectors share: whatever was asked
  before, a cached answer is the answer of the tree.
\<close>

record ('s, 'm, 't) url_lib =
  setContains :: "'s \<Rightarrow> int \<Rightarrow> bool"
  setPut :: "int \<Rightarrow> 's \<Rightarrow> 's"
  setNew :: 's
  mapGet :: "'m \<Rightarrow> int \<Rightarrow> string option"
  mapPut :: "int \<Rightarrow> string \<Rightarrow> 'm \<Rightarrow> 'm"
  mapNew :: 'm
  mapValues :: "'m \<Rightarrow> string list"
  treeNew :: 't
  treeInsert :: "string list \<Rightarrow> string \<Rightarrow> 't \<Rightarrow> 't"
  treeFind :: "'t \<Rightarrow> string \<Rightarrow> string option"
  treeSize :: "'t \<Rightarrow> int"
  hashCode :: "string \<Rightarrow> int"
  HashStr :: "string \<Rightarrow> int"
  Split :: "string \<Rightarrow> string \<Rightarrow> string list"
  Tokenizer :: "string \<Rightarrow> string \<Rightarrow> string list"
  TrimEmpty :: "string \<Rightarrow> string"

definition url_laws :: "('s, 'm, 't) url_lib \<Rightarrow> bool" where
  "url_laws L \<longleftrightarrow>
     (\<forall>k. \<not> setContains L (setNew L) k) \<and>
     (\<forall>s k k'. setContains L (setPut L k s) k' \<longrightarrow> k' = k \<or> setContains L s k') \<and>
     (\<forall>k. mapGet L (mapNew L) k = None) \<and>
     (\<forall>m k v k' v'. mapGet L (mapPut L k v m) k' = Some v' \<longrightarrow> k' = k \<and> v' = v \<or> mapGet L m k' = Some v')"

text \<open>The nodes of a pattern: a node in braces matches anything.\<close>

definition pathNodes :: "('s, 'm, 't) url_lib \<Rightarrow> string \<Rightarrow> string list" where
  "pathNodes L path = map (\<lambda>n. if HasPrefix n ''{'' then ''*'' else n) (Split L path ''/'')"

subsection \<open>Outgoing calls: URLPatternDetector\<close>

record ('s, 'm, 't) URLPatternDetector =
  oldHash :: int
  patterns :: 'm
  restUrlTable :: 't
  noNeedSet :: 's
  parsedSet :: 'm

definition insertPattern :: "('s, 'm, 't) url_lib \<Rightarrow> string \<Rightarrow> 't \<Rightarrow> 't" where
  "insertPattern L path t =
     (let nodes = pathNodes L path in if nodes = [''*''] then t else treeInsert L nodes path t)"

definition Build :: "('s, 'm, 't) url_lib \<Rightarrow> string list \<Rightarrow> ('s, 'm, 't) URLPatternDetector \<Rightarrow> ('s, 'm, 't) URLPatternDetector" where
  "Build L urlList d =
     d\<lparr>restUrlTable := fold (insertPattern L) (mapValues L (patterns d)) (fold (insertPattern L) urlList (treeNew L)),
       noNeedSet := setNew L, parsedSet := mapNew L\<rparr>"

definition addUrlList :: "('s, 'm, 't) url_lib \<Rightarrow> string \<Rightarrow> ('s, 'm, 't) URLPatternDetector \<Rightarrow> ('s, 'm, 't) URLPatternDetector" where
  "addUrlList L urls d =
     (if oldHash d = HashStr L urls then d
      else (let d1 = d\<lparr>oldHash := HashStr L urls\<rparr>; urlArr = Split L urls '','' in
            if urlArr = [] then (if treeSize L (restUrlTable d1) > 0 then d1\<lparr>restUrlTable := treeNew L\<rparr> else d1)
            else Build L urlArr d1))"

definition newURLPatternDetector :: "('s, 'm, 't) url_lib \<Rightarrow> string \<Rightarrow> ('s, 'm, 't) URLPatternDetector" where
  "newURLPatternDetector L urls =
     addUrlList L urls
       \<lparr>oldHash = 0, patterns = mapNew L, restUrlTable = treeNew L, noNeedSet = setNew L, parsedSet = mapNew L\<rparr>"

definition Add :: "('s, 'm, 't) url_lib \<Rightarrow> int \<Rightarrow> string \<Rightarrow> ('s, 'm, 't) URLPatternDetector \<Rightarrow> ('s, 'm, 't) URLPatternDetector" where
  "Add L h path d =
     (if mapGet L (patterns d) h \<noteq> None then d
      else (let d1 = d\<lparr>patterns := mapPut L h path (patterns d)\<rparr>; nodes = pathNodes L path in
            if nodes = [] \<or> nodes = [''*''] then d1
            else d1\<lparr>restUrlTable := treeInsert L nodes path (restUrlTable d1)\<rparr>))"

definition Normalize ::
  "('s, 'm, 't) url_lib \<Rightarrow> bool \<Rightarrow> string \<Rightarrow> ('s, 'm, 't) URLPatternDetector \<Rightarrow> string \<times> ('s, 'm, 't) URLPatternDetector" where
  "Normalize L enabled url d =
     (if \<not> enabled \<or> url = [] then (url, d)
      else if setContains L (noNeedSet d) (hashCode L url) then (url, d)
      else (case mapGet L (parsedSet d) (hashCode L url) of
              Some newUrl \<Rightarrow> (newUrl, d)
            | None \<Rightarrow>
                (case treeFind L (restUrlTable d) url of
                   None \<Rightarrow> (url, d\<lparr>noNeedSet := setPut L (hashCode L url) (noNeedSet d)\<rparr>)
                 | Some newUrl \<Rightarrow> (newUrl, d\<lparr>parsedSet := mapPut L (hashCode L url) newUrl (parsedSet d)\<rparr>))))"

subsection \<open>Services: ServiceURLPatternDetector\<close>

record ('s, 'm, 't) ServiceURLPatternDetector =
  last_conf_value :: string
  traceAutoNormalizeEnabled :: bool
  svcUrlTable :: 't
  svcNoNeedSet :: 's
  svcParsedSet :: 'm
  last_build :: int

record norm_conf =
  TraceNormalizeEnabled :: bool
  TraceNormalizeUrls :: string
  TraceAutoNormalizeEnabled :: bool

definition addPath :: "('s, 'm, 't) url_lib \<Rightarrow> string \<Rightarrow> 't \<Rightarrow> 't" where
  "addPath L p t =
     (let path = TrimEmpty L p; nodes = pathNodes L path in
      if length path < 3 then t else if nodes = [] \<or> nodes = [''*''] then t else treeInsert L nodes path t)"

definition addConfigured :: "('s, 'm, 't) url_lib \<Rightarrow> string \<Rightarrow> 't \<times> 's \<Rightarrow> 't \<times> 's" where
  "addConfigured L u = (\<lambda>(t, s).
     if u = [] then (t, s)
     else if 0 \<le> Index u ''{'' then (addPath L u t, s)
     else (t, setPut L (hashCode L u) s))"

definition svc_Build ::
  "('s, 'm, 't) url_lib \<Rightarrow> norm_conf \<Rightarrow> int \<Rightarrow> bool \<Rightarrow> ('s, 'm, 't) ServiceURLPatternDetector \<Rightarrow> ('s, 'm, 't) ServiceURLPatternDetector" where
  "svc_Build L conf now force d =
     (if \<not> force \<and> now < i64 (last_build d + 10000) then d
      else (let (t, s) = fold (addConfigured L) (Tokenizer L (TraceNormalizeUrls conf) '','') (treeNew L, setNew L) in
            d\<lparr>last_build := now, last_conf_value := TrimEmpty L (TraceNormalizeUrls conf),
              svcUrlTable := t, svcNoNeedSet := s, svcParsedSet := mapNew L\<rparr>))"

text \<open>The accessor makes a new detector on every call: the variable it checks is never assigned.\<close>

definition GetInstanceServiceURLPatternDetector ::
  "('s, 'm, 't) url_lib \<Rightarrow> norm_conf \<Rightarrow> int \<Rightarrow> ('s, 'm, 't) ServiceURLPatternDetector" where
  "GetInstanceServiceURLPatternDetector L conf now =
     svc_Build L conf now False
       \<lparr>last_conf_value = TrimEmpty L (TraceNormalizeUrls conf), traceAutoNormalizeEnabled = TraceAutoNormalizeEnabled conf,
        svcUrlTable = treeNew L, svcNoNeedSet = setNew L, svcParsedSet = mapNew L, last_build = 0\<rparr>"

definition svc_Run ::
  "('s, 'm, 't) url_lib \<Rightarrow> norm_conf \<Rightarrow> int \<Rightarrow> ('s, 'm, 't) ServiceURLPatternDetector \<Rightarrow> ('s, 'm, 't) ServiceURLPatternDetector" where
  "svc_Run L conf now d =
     (if last_conf_value d \<noteq> TrimEmpty L (TraceNormalizeUrls conf) \<or> traceAutoNormalizeEnabled d \<noteq> TraceAutoNormalizeEnabled conf
      then svc_Build L conf now False
             (d\<lparr>last_conf_value := TrimEmpty L (TraceNormalizeUrls conf), traceAutoNormalizeEnabled := TraceAutoNormalizeEnabled conf\<rparr>)
      else d)"

definition svc_Normalize ::
  "('s, 'm, 't) url_lib \<Rightarrow> bool \<Rightarrow> string \<Rightarrow> ('s, 'm, 't) ServiceURLPatternDetector \<Rightarrow> string \<times> ('s, 'm, 't) ServiceURLPatternDetector" where
  "svc_Normalize L enabled url d =
     (if \<not> enabled \<or> setContains L (svcNoNeedSet d) (hashCode L url) then (url, d)
      else (case mapGet L (svcParsedSet d) (hashCode L url) of
              Some newUrl \<Rightarrow> (newUrl, d)
            | None \<Rightarrow>
                (case treeFind L (svcUrlTable d) url of
                   None \<Rightarrow> (url, d\<lparr>svcNoNeedSet := setPut L (hashCode L url) (svcNoNeedSet d)\<rparr>)
                 | Some newUrl \<Rightarrow> (newUrl, d\<lparr>svcParsedSet := mapPut L (hashCode L url) newUrl (svcParsedSet d)\<rparr>))))"

subsection \<open>A cached answer is the answer of the table\<close>

text \<open>\<open>asked\<close> are the URLs whose hash codes may be in the caches.\<close>

definition cache_ok :: "('s, 'm, 't) url_lib \<Rightarrow> string set \<Rightarrow> (string \<Rightarrow> string) \<Rightarrow> 's \<Rightarrow> 'm \<Rightarrow> bool" where
  "cache_ok L asked reference s m \<longleftrightarrow>
     (\<forall>k. setContains L s k \<longrightarrow> (\<exists>u\<in>asked. k = hashCode L u \<and> reference u = u)) \<and>
     (\<forall>k v. mapGet L m k = Some v \<longrightarrow> (\<exists>u\<in>asked. k = hashCode L u \<and> reference u = v))"

text \<open>Asking for a list of URLs (or other queries), one after the other.\<close>

fun ask :: "('q \<Rightarrow> 'd \<Rightarrow> 'r \<times> 'd) \<Rightarrow> 'q list \<Rightarrow> 'd \<Rightarrow> 'r list \<times> 'd" where
  "ask normz [] d = ([], d)"
| "ask normz (u # us) d = (let (r, d') = normz u d; (rs, d'') = ask normz us d' in (r # rs, d''))"

locale url_cache =
  fixes normz :: "'q \<Rightarrow> 'd \<Rightarrow> 'r \<times> 'd"
    and reference :: "'d \<Rightarrow> 'q \<Rightarrow> 'r"
    and ok :: "'q set \<Rightarrow> 'd \<Rightarrow> bool"
    and code :: "'q \<Rightarrow> int"
  assumes answer: "ok asked d \<Longrightarrow> inj_on code (insert u asked) \<Longrightarrow> fst (normz u d) = reference d u"
    and keeps: "ok asked d \<Longrightarrow> ok (insert u asked) (snd (normz u d))"
    and same_table: "reference (snd (normz u d)) = reference d"
begin

lemma ask_reference:
  assumes "ok asked d" and "inj_on code (asked \<union> set us)"
  shows "fst (ask normz us d) = map (reference d) us"
  using assms
proof (induction us arbitrary: asked d)
  case (Cons u us)
  obtain r d' where n: "normz u d = (r, d')" by force
  have inj: "inj_on code (insert u asked)" using Cons.prems(2) by (rule inj_on_subset) auto
  have "r = reference d u" using answer [OF Cons.prems(1) inj] n by simp
  moreover have "ok (insert u asked) d'" using keeps [OF Cons.prems(1), of u] n by simp
  moreover have "reference d' = reference d" using same_table [of u d] n by simp
  moreover have "inj_on code (insert u asked \<union> set us)" using Cons.prems(2) by simp
  ultimately show ?case using Cons.IH [of "insert u asked" d'] n by (cases "ask normz us d'") simp
qed simp

end

definition url_reference :: "('s, 'm, 't) url_lib \<Rightarrow> bool \<Rightarrow> ('s, 'm, 't) URLPatternDetector \<Rightarrow> string \<Rightarrow> string" where
  "url_reference L enabled d u =
     (if \<not> enabled \<or> u = [] then u else case treeFind L (restUrlTable d) u of None \<Rightarrow> u | Some v \<Rightarrow> v)"

definition url_ok :: "('s, 'm, 't) url_lib \<Rightarrow> bool \<Rightarrow> string set \<Rightarrow> ('s, 'm, 't) URLPatternDetector \<Rightarrow> bool" where
  "url_ok L enabled asked d \<longleftrightarrow> url_laws L \<and> (enabled \<longrightarrow> cache_ok L asked (url_reference L enabled d) (noNeedSet d) (parsedSet d))"

text \<open>For a service a configured URL without braces is its own name, whatever the tree says.\<close>

definition svc_reference :: "('s, 'm, 't) url_lib \<Rightarrow> bool \<Rightarrow> string set \<Rightarrow> ('s, 'm, 't) ServiceURLPatternDetector \<Rightarrow> string \<Rightarrow> string" where
  "svc_reference L enabled plain d u =
     (if \<not> enabled \<or> u \<in> plain then u else case treeFind L (svcUrlTable d) u of None \<Rightarrow> u | Some v \<Rightarrow> v)"

lemma cache_ok_mono: "cache_ok L A r s m \<Longrightarrow> A \<subseteq> B \<Longrightarrow> cache_ok L B r s m"
  by (fastforce simp: cache_ok_def)

lemma cache_hit_set:
  assumes "cache_ok L asked r s m" and "setContains L s (hashCode L u)" and "inj_on (hashCode L) (insert u asked)"
  shows "r u = u"
proof -
  from assms(1,2) obtain v where v: "v \<in> asked" "hashCode L u = hashCode L v" "r v = v" by (fastforce simp: cache_ok_def)
  then have "u = v" using assms(3) by (auto dest: inj_onD)
  with v show ?thesis by simp
qed

lemma cache_hit_map:
  assumes "cache_ok L asked r s m" and "mapGet L m (hashCode L u) = Some x" and "inj_on (hashCode L) (insert u asked)"
  shows "r u = x"
proof -
  from assms(1,2) obtain v where v: "v \<in> asked" "hashCode L u = hashCode L v" "r v = x" by (fastforce simp: cache_ok_def)
  then have "u = v" using assms(3) by (auto dest: inj_onD)
  with v show ?thesis by simp
qed

lemma cache_put_set:
  assumes "url_laws L" and "cache_ok L asked r s m" and "r u = u"
  shows "cache_ok L (insert u asked) r (setPut L (hashCode L u) s) m"
  using assms unfolding cache_ok_def url_laws_def by (metis insert_iff)

lemma cache_put_map:
  assumes "url_laws L" and "cache_ok L asked r s m" and "r u = x"
  shows "cache_ok L (insert u asked) r s (mapPut L (hashCode L u) x m)"
  using assms unfolding cache_ok_def url_laws_def by (metis insert_iff)

lemma url_reference_same: "url_reference L e (snd (Normalize L e u d)) = url_reference L e d"
  by (rule ext) (simp add: url_reference_def Normalize_def split: option.splits)

lemma Normalize_answer:
  assumes "url_ok L e asked d" and "inj_on (hashCode L) (insert u asked)"
  shows "fst (Normalize L e u d) = url_reference L e d u"
proof (cases "e \<and> u \<noteq> []")
  case True
  then have c: "cache_ok L asked (url_reference L e d) (noNeedSet d) (parsedSet d)" using assms(1) by (simp add: url_ok_def)
  note hits = cache_hit_set [OF c _ assms(2)] cache_hit_map [OF c _ assms(2)]
  show ?thesis
  proof (cases "setContains L (noNeedSet d) (hashCode L u)")
    case s: True
    with True hits(1) show ?thesis by (simp add: Normalize_def)
  next
    case s: False
    show ?thesis
    proof (cases "mapGet L (parsedSet d) (hashCode L u)")
      case None
      with True s show ?thesis by (simp add: Normalize_def url_reference_def split: option.splits)
    next
      case (Some x)
      with True s hits(2) show ?thesis by (simp add: Normalize_def)
    qed
  qed
qed (auto simp: Normalize_def url_reference_def)

lemma Normalize_keeps:
  assumes "url_ok L e asked d"
  shows "url_ok L e (insert u asked) (snd (Normalize L e u d))"
proof (cases "e \<and> u \<noteq> []")
  case True
  let ?r = "url_reference L e d"
  from assms True have laws: "url_laws L" and c: "cache_ok L asked ?r (noNeedSet d) (parsedSet d)" by (auto simp: url_ok_def)
  have ci: "cache_ok L (insert u asked) ?r (noNeedSet d) (parsedSet d)" using c by (rule cache_ok_mono) auto
  have s: "cache_ok L (insert u asked) ?r (setPut L (hashCode L u) (noNeedSet d)) (parsedSet d)" if "?r u = u"
    by (rule cache_put_set [OF laws c that])
  have m: "cache_ok L (insert u asked) ?r (noNeedSet d) (mapPut L (hashCode L u) x (parsedSet d))" if "?r u = x" for x
    by (rule cache_put_map [OF laws c that])
  have "cache_ok L (insert u asked) ?r (noNeedSet (snd (Normalize L e u d))) (parsedSet (snd (Normalize L e u d)))"
    using True ci s m by (simp add: Normalize_def url_reference_def split: option.splits)
  then show ?thesis using laws by (cases e) (simp_all add: url_ok_def url_reference_same)
next
  case False
  then have "snd (Normalize L e u d) = d" by (auto simp: Normalize_def)
  with assms show ?thesis by (auto simp: url_ok_def intro: cache_ok_mono)
qed

interpretation httpc_urls: url_cache "Normalize L e" "url_reference L e" "url_ok L e" "hashCode L" for L e
  by unfold_locales (auto intro: Normalize_answer Normalize_keeps url_reference_same)

text \<open>The names configured without braces have to stay in the bounded set: \<open>no_eviction\<close> says that a set keeps what
  was put into it, which holds as long as fewer than its 10000 entries are used.\<close>

definition no_eviction :: "('s, 'm, 't) url_lib \<Rightarrow> bool" where
  "no_eviction L \<longleftrightarrow>
     (\<forall>s k k'. setContains L s k' \<longrightarrow> setContains L (setPut L k s) k') \<and> (\<forall>s k. setContains L (setPut L k s) k)"

definition svc_ok :: "('s, 'm, 't) url_lib \<Rightarrow> bool \<Rightarrow> string set \<Rightarrow> string set \<Rightarrow> ('s, 'm, 't) ServiceURLPatternDetector \<Rightarrow> bool" where
  "svc_ok L e plain asked d \<longleftrightarrow>
     url_laws L \<and> no_eviction L \<and> plain \<subseteq> asked \<and> (\<forall>u\<in>plain. setContains L (svcNoNeedSet d) (hashCode L u)) \<and>
     cache_ok L asked (svc_reference L e plain d) (svcNoNeedSet d) (svcParsedSet d)"

lemma svc_reference_same: "svc_reference L e plain (snd (svc_Normalize L e u d)) = svc_reference L e plain d"
  by (rule ext) (simp add: svc_reference_def svc_Normalize_def split: option.splits)

lemma svc_Normalize_answer:
  assumes "svc_ok L e plain asked d" and "inj_on (hashCode L) (insert u asked)"
  shows "fst (svc_Normalize L e u d) = svc_reference L e plain d u"
proof (cases "e \<and> u \<notin> plain")
  case True
  from assms(1) have c: "cache_ok L asked (svc_reference L e plain d) (svcNoNeedSet d) (svcParsedSet d)" by (simp add: svc_ok_def)
  note hits = cache_hit_set [OF c _ assms(2)] cache_hit_map [OF c _ assms(2)]
  show ?thesis
  proof (cases "setContains L (svcNoNeedSet d) (hashCode L u)")
    case s: True
    with True hits(1) show ?thesis by (simp add: svc_Normalize_def)
  next
    case s: False
    show ?thesis
    proof (cases "mapGet L (svcParsedSet d) (hashCode L u)")
      case None
      with True s show ?thesis by (simp add: svc_Normalize_def svc_reference_def split: option.splits)
    next
      case (Some x)
      with True s hits(2) show ?thesis by (simp add: svc_Normalize_def)
    qed
  qed
qed (use assms(1) in \<open>auto simp: svc_Normalize_def svc_reference_def svc_ok_def\<close>)

lemma svc_Normalize_keeps:
  assumes "svc_ok L e plain asked d"
  shows "svc_ok L e plain (insert u asked) (snd (svc_Normalize L e u d))"
proof -
  let ?r = "svc_reference L e plain d"
  from assms have laws: "url_laws L" "no_eviction L" and c: "cache_ok L asked ?r (svcNoNeedSet d) (svcParsedSet d)"
    and pl: "plain \<subseteq> asked" "\<forall>u\<in>plain. setContains L (svcNoNeedSet d) (hashCode L u)" by (auto simp: svc_ok_def)
  have ci: "cache_ok L (insert u asked) ?r (svcNoNeedSet d) (svcParsedSet d)" using c by (rule cache_ok_mono) auto
  have s: "cache_ok L (insert u asked) ?r (setPut L (hashCode L u) (svcNoNeedSet d)) (svcParsedSet d)" if "?r u = u"
    by (rule cache_put_set [OF laws(1) c that])
  have m: "cache_ok L (insert u asked) ?r (svcNoNeedSet d) (mapPut L (hashCode L u) x (svcParsedSet d))" if "?r u = x" for x
    by (rule cache_put_map [OF laws(1) c that])
  have np: "u \<notin> plain" if "\<not> setContains L (svcNoNeedSet d) (hashCode L u)" using pl(2) that by auto
  have "cache_ok L (insert u asked) ?r (svcNoNeedSet (snd (svc_Normalize L e u d))) (svcParsedSet (snd (svc_Normalize L e u d)))"
  proof (cases "e \<and> \<not> setContains L (svcNoNeedSet d) (hashCode L u) \<and> mapGet L (svcParsedSet d) (hashCode L u) = None")
    case True
    with np have r: "?r u = (case treeFind L (svcUrlTable d) u of None \<Rightarrow> u | Some v \<Rightarrow> v)" by (simp add: svc_reference_def)
    show ?thesis
    proof (cases "treeFind L (svcUrlTable d) u")
      case None
      with True r s show ?thesis by (simp add: svc_Normalize_def)
    next
      case (Some v)
      with True r m show ?thesis by (simp add: svc_Normalize_def)
    qed
  next
    case False
    then have "snd (svc_Normalize L e u d) = d" by (auto simp: svc_Normalize_def)
    with ci show ?thesis by simp
  qed
  moreover have "\<forall>v\<in>plain. setContains L (svcNoNeedSet (snd (svc_Normalize L e u d))) (hashCode L v)"
    using pl(2) laws(2) by (auto simp: svc_Normalize_def no_eviction_def split: option.splits)
  ultimately show ?thesis using laws pl(1) by (auto simp: svc_ok_def svc_reference_same)
qed

interpretation service_urls: url_cache "svc_Normalize L e" "svc_reference L e plain" "svc_ok L e plain" "hashCode L" for L e plain
  by unfold_locales (auto intro: svc_Normalize_answer svc_Normalize_keeps svc_reference_same)

subsection \<open>Properties\<close>

lemma Build_ok: "url_laws L \<Longrightarrow> url_ok L e {} (Build L us d)"
  by (simp add: url_ok_def cache_ok_def Build_def url_laws_def)

text \<open>C11: the caches of the detector for outgoing calls never change an answer. After the patterns have been built,
  every sequence of URLs is answered as if the path tree were asked each time, as long as no two of the URLs have the
  same hash code; entries may be evicted from the caches at any time.\<close>
theorem Normalize_caching:
  assumes "url_laws L" and "inj_on (hashCode L) (set us)"
  shows "fst (ask (Normalize L e) us (Build L ps d)) = map (url_reference L e (Build L ps d)) us"
  by (rule httpc_urls.ask_reference [OF Build_ok [OF assms(1)]]) (simp add: assms(2))

fun nodesOf :: "string \<Rightarrow> string \<Rightarrow> string list" where
  "nodesOf acc [] = [rev acc]"
| "nodesOf acc (c # cs) = (if c = CHR ''/'' then rev acc # nodesOf [] cs else nodesOf (c # acc) cs)"

definition ulib1 :: "(int list, (int \<times> string) list, (string list \<times> string) list) url_lib" where
  "ulib1 = \<lparr>setContains = (\<lambda>s k. k \<in> set s), setPut = (\<lambda>k s. k # s), setNew = [],
     mapGet = (\<lambda>m k. map_of m k), mapPut = (\<lambda>k v m. (k, v) # m), mapNew = [], mapValues = map snd,
     treeNew = [], treeInsert = (\<lambda>ns p t. (ns, p) # t),
     treeFind = (\<lambda>t u. map_option snd (find (\<lambda>(ns, p). list_all2 (\<lambda>n x. n = ''*'' \<or> n = x) ns (nodesOf [] u)) t)),
     treeSize = (\<lambda>t. int (length t)), hashCode = (\<lambda>u. foldl (\<lambda>h c. 31 * h + of_char c) 7 u),
     HashStr = (\<lambda>u. int (length u) + 1), Split = (\<lambda>s sep. nodesOf [] s), Tokenizer = (\<lambda>s sep. [s]), TrimEmpty = (\<lambda>s. s)\<rparr>"

lemma ulib1_laws: "url_laws ulib1" "no_eviction ulib1"
  by (auto simp: url_laws_def no_eviction_def ulib1_def split: if_splits)

theorem Normalize_caching_witness:
  "fst (ask (Normalize ulib1 True) [''/get/12'', ''/x'', ''/get/12'', ''/x''] (Build ulib1 [''/get/{id}''] (newURLPatternDetector ulib1 []))) =
     [''/get/{id}'', ''/x'', ''/get/{id}'', ''/x'']"
proof -
  have "inj_on (hashCode ulib1) (set [''/get/12'', ''/x'', ''/get/12'', ''/x''])"
    by (simp add: ulib1_def inj_on_def)
  from Normalize_caching [OF ulib1_laws(1) this, of True "[''/get/{id}'']" "newURLPatternDetector ulib1 []"]
  show ?thesis
    by (simp add: url_reference_def Build_def insertPattern_def pathNodes_def newURLPatternDetector_def addUrlList_def ulib1_def HasPrefix_def)
qed

text \<open>Names configured without braces.\<close>

definition plainUrls :: "('s, 'm, 't) url_lib \<Rightarrow> norm_conf \<Rightarrow> string set" where
  "plainUrls L conf = {u \<in> set (Tokenizer L (TraceNormalizeUrls conf) '',''). u \<noteq> [] \<and> Index u ''{'' < 0}"

lemma addConfigured_set:
  assumes "url_laws L" and "no_eviction L"
  shows "(setContains L (snd (fold (addConfigured L) us (t, s))) k \<longrightarrow>
       setContains L s k \<or> (\<exists>u\<in>set us. u \<noteq> [] \<and> Index u ''{'' < 0 \<and> k = hashCode L u)) \<and>
     (setContains L s k \<or> (\<exists>u\<in>set us. u \<noteq> [] \<and> Index u ''{'' < 0 \<and> k = hashCode L u) \<longrightarrow>
       setContains L (snd (fold (addConfigured L) us (t, s))) k)"
proof (induction us arbitrary: t s)
  case (Cons u us)
  obtain t' s' where p: "addConfigured L u (t, s) = (t', s')" by force
  have "setContains L s' k \<longleftrightarrow> setContains L s k \<or> u \<noteq> [] \<and> Index u ''{'' < 0 \<and> k = hashCode L u"
    using p assms unfolding addConfigured_def url_laws_def no_eviction_def by (simp split: if_splits) metis
  then show ?case using Cons.IH [of t' s'] p by auto
qed simp

lemma svc_Build_ok:
  assumes "url_laws L" and "no_eviction L"
  shows "svc_ok L e (plainUrls L conf) (plainUrls L conf) (svc_Build L conf now True d)"
proof -
  let ?us = "Tokenizer L (TraceNormalizeUrls conf) '',''"
  let ?f = "fold (addConfigured L) ?us (treeNew L, setNew L)"
  have s: "setContains L (snd ?f) k \<longleftrightarrow> (\<exists>u\<in>plainUrls L conf. k = hashCode L u)" for k
    using addConfigured_set [OF assms, of ?us "treeNew L" "setNew L" k] assms(1) by (auto simp: plainUrls_def url_laws_def)
  have f: "svcNoNeedSet (svc_Build L conf now True d) = snd ?f" "svcParsedSet (svc_Build L conf now True d) = mapNew L"
    by (simp_all add: svc_Build_def split: prod.splits)
  have "cache_ok L (plainUrls L conf) (svc_reference L e (plainUrls L conf) (svc_Build L conf now True d))
     (svcNoNeedSet (svc_Build L conf now True d)) (svcParsedSet (svc_Build L conf now True d))"
    using assms(1) unfolding f by (auto simp: cache_ok_def s svc_reference_def url_laws_def)
  then show ?thesis using assms by (auto simp: svc_ok_def f s)
qed

text \<open>The caches of the service detector never change an answer either: after a build, every sequence of URLs is
  answered as by the configured names and the path tree, as long as no two of the URLs and names have the same hash
  code.\<close>
theorem svc_Normalize_caching:
  assumes "url_laws L" and "no_eviction L" and "inj_on (hashCode L) (plainUrls L conf \<union> set us)"
  shows "fst (ask (svc_Normalize L e) us (svc_Build L conf now True d)) =
     map (svc_reference L e (plainUrls L conf) (svc_Build L conf now True d)) us"
  by (rule service_urls.ask_reference [OF svc_Build_ok [OF assms(1,2)] assms(3)])

definition nconf1 :: norm_conf where
  "nconf1 = \<lparr>TraceNormalizeEnabled = True, TraceNormalizeUrls = ''/get/{id}'', TraceAutoNormalizeEnabled = False\<rparr>"

theorem svc_Normalize_caching_witness:
  "fst (ask (svc_Normalize ulib1 True) [''/get/7'', ''/x'', ''/get/7''] (svc_Build ulib1 nconf1 5 True (GetInstanceServiceURLPatternDetector ulib1 nconf1 3))) =
     [''/get/{id}'', ''/x'', ''/get/{id}'']"
proof -
  have pl: "plainUrls ulib1 nconf1 = {}"
    by (auto simp: plainUrls_def ulib1_def nconf1_def HasPrefix_def Let_def)
  have "inj_on (hashCode ulib1) (plainUrls ulib1 nconf1 \<union> set [''/get/7'', ''/x'', ''/get/7''])"
    unfolding pl by (simp add: ulib1_def inj_on_def)
  from svc_Normalize_caching [OF ulib1_laws this, of True 5 "GetInstanceServiceURLPatternDetector ulib1 nconf1 3"]
  show ?thesis
    unfolding pl
    by (simp add: svc_reference_def svc_Build_def addConfigured_def addPath_def pathNodes_def ulib1_def nconf1_def HasPrefix_def Let_def)
qed

text \<open>A change of the configured URLs is lost when it comes within ten seconds of the last build. The observer
  remembers the new value before it calls \<open>Build\<close>, which returns without building; every later notification with
  the same configuration then finds nothing to do, so the detector keeps the old patterns.\<close>
theorem config_change_lost:
  assumes "last_conf_value d \<noteq> TrimEmpty L (TraceNormalizeUrls conf)" and "now < i64 (last_build d + 10000)"
  shows "svcUrlTable (svc_Run L conf later (svc_Run L conf now d)) = svcUrlTable d \<and>
     svcNoNeedSet (svc_Run L conf later (svc_Run L conf now d)) = svcNoNeedSet d"
  using assms by (simp add: svc_Run_def svc_Build_def)

theorem config_change_lost_witness:
  "svcUrlTable (svc_Run ulib1 (nconf1\<lparr>TraceNormalizeUrls := ''/set/{id}''\<rparr>) 99999
     (svc_Run ulib1 (nconf1\<lparr>TraceNormalizeUrls := ''/set/{id}''\<rparr>) 20001 (svc_Build ulib1 nconf1 20000 True (GetInstanceServiceURLPatternDetector ulib1 nconf1 3)))) =
   svcUrlTable (svc_Build ulib1 nconf1 20000 True (GetInstanceServiceURLPatternDetector ulib1 nconf1 3))"
proof -
  let ?d = "svc_Build ulib1 nconf1 20000 True (GetInstanceServiceURLPatternDetector ulib1 nconf1 3)"
  have f: "last_conf_value ?d = ''/get/{id}''" "last_build ?d = 20000"
    by (simp_all add: svc_Build_def nconf1_def ulib1_def split: prod.splits)
  show ?thesis
    by (rule conjunct1 [OF config_change_lost]) (simp_all only: f, simp_all add: ulib1_def nconf1_def)
qed

text \<open>A pattern that is added later does not apply to a URL that was asked before: \<open>Add\<close> extends the tree but
  does not clear the caches, so the URL keeps its old name while it stays cached.\<close>
theorem Add_ignored_for_cached:
  assumes "no_eviction L" and "u \<noteq> []" and "\<not> setContains L (noNeedSet d) (hashCode L u)" and "mapGet L (parsedSet d) (hashCode L u) = None"
    and "treeFind L (restUrlTable d) u = None"
  shows "fst (Normalize L True u (Add L h path (snd (Normalize L True u d)))) = u"
proof -
  have "noNeedSet (snd (Normalize L True u d)) = setPut L (hashCode L u) (noNeedSet d)"
    using assms by (simp add: Normalize_def)
  moreover have "noNeedSet (Add L h path x) = noNeedSet x" for x by (simp add: Add_def Let_def)
  ultimately show ?thesis using assms(1,2) by (simp add: Normalize_def no_eviction_def)
qed

theorem Add_ignored_for_cached_witness:
  "fst (Normalize ulib1 True ''/get/7'' (Add ulib1 3 ''/get/{id}'' (snd (Normalize ulib1 True ''/get/7'' (newURLPatternDetector ulib1 []))))) = ''/get/7''"
  by (rule Add_ignored_for_cached, rule ulib1_laws(2))
    (simp_all add: newURLPatternDetector_def addUrlList_def Build_def insertPattern_def pathNodes_def ulib1_def HasPrefix_def)

end
