(* ===== verification/Zip_Batch.thy ===== *)
theory Zip_Batch
  imports Prelude
begin

text \<open>
  The threads that collect packs into compressed batches: \<open>ZipPackThread\<close>
  (\<^verbatim>\<open>agent/agent/data/ZipPackThread.go\<close>), its copy for profiles (\<^verbatim>\<open>agent/agent/trace/ZipProfileThread.go\<close>) and
  \<open>ZipSendProxyThread\<close> for log lines (\<^verbatim>\<open>agent/logsink/zip/ZipSendProxyThread.go\<close>). A pack is put into a queue; the
  thread takes it from there, serialises it into a \<^verbatim>\<open>bytes.Buffer\<close>, and sends the buffer as one pack when it is
  full, old or when nothing comes.

  The buffer is modelled with its backing array in an explicit store, because the pack that is sent refers to that array
  when it is not compressed: \<open>Slice a n\<close> are the first \<open>n\<close> bytes of the array at address \<open>a\<close>, \<open>Own bs\<close> bytes no one
  else writes. \<open>net_take\<close> is the moment the network sender serialises a pack.

  The queue, the serialiser, the compressor (golib) and the rounding of the allocator are parameters (\<open>zip_env\<close>).
  The locale \<open>batch_thread\<close> is what a batching thread promises, and shows that packs are neither lost, duplicated nor
  reordered and that the batch in hand is eventually sent.
\<close>

type_synonym byte = "8 word"

datatype bytesref = Slice nat nat | Own "byte list"

record ZipPack =
  Time :: int
  RecordCount :: int
  Records :: bytesref
  Status :: int
  Pcode :: int
  Oid :: int
  Okind :: int
  Onode :: int

text \<open>\<open>NetProfile p\<close> is a call of \<open>wnet.SendProfile(0, p, false)\<close>, \<open>DataSend p\<close> one of \<open>data.Send\<close> on a batch,
  and \<open>Direct p\<close> one of \<open>data.Send\<close> on a single pack.\<close>

datatype 'p out = NetProfile ZipPack | DataSend ZipPack | Direct 'p

subsection \<open>Package bytes: Buffer\<close>

text \<open>The offset of a buffer that is only written and reset is 0; \<open>buf\<close> is nil when the capacity is 0.\<close>

record Buffer =
  barr :: nat
  bcap :: nat
  blen :: nat

record ('q, 'p) ZipSendProxyThread =
  arrays :: "nat \<Rightarrow> byte list"
  fresh :: nat
  outs :: "'p out list"
  wire :: "'p out list"
  Queue :: 'q
  buffer :: Buffer
  packCount :: int
  firstTime :: int

record ('q, 'p) ZipPackThread = "('q, 'p) ZipSendProxyThread" +
  lastLog :: int
  zipSent :: int
  noZipSent :: int

text \<open>\<open>WriteBuf\<close> appends in place while the capacity is enough, and otherwise moves the contents to a new array of
  64 bytes (a first small write) or of at least twice the capacity.\<close>

definition WriteBuf :: "(nat \<Rightarrow> nat) \<Rightarrow> byte list \<Rightarrow> ('q, 'p, 'z) ZipSendProxyThread_scheme \<Rightarrow> ('q, 'p, 'z) ZipSendProxyThread_scheme" where
  "WriteBuf roundup bs s =
     (let b = buffer s; old = arrays s (barr b); n = length bs in
      if blen b + n \<le> bcap b
      then s\<lparr>arrays := (arrays s)(barr b := take (blen b) old @ bs @ drop (blen b + n) old), buffer := b\<lparr>blen := blen b + n\<rparr>\<rparr>
      else (let c = (if bcap b = 0 \<and> n \<le> 64 then 64 else roundup (max (blen b + n) (2 * bcap b))) in
            s\<lparr>arrays := (arrays s)(fresh s := take (blen b) old @ bs @ replicate (c - (blen b + n)) 0), fresh := fresh s + 1,
              buffer := \<lparr>barr = fresh s, bcap = c, blen = blen b + n\<rparr>\<rparr>))"

definition ResetBuf :: "Buffer \<Rightarrow> Buffer" where
  "ResetBuf b = b\<lparr>blen := 0\<rparr>"

definition BytesBuf :: "Buffer \<Rightarrow> bytesref" where
  "BytesBuf b = Slice (barr b) (blen b)"

fun deref :: "(nat \<Rightarrow> byte list) \<Rightarrow> bytesref \<Rightarrow> byte list" where
  "deref h (Slice a n) = take n (h a)"
| "deref h (Own bs) = bs"

subsection \<open>ZipPackThread\<close>

record ('q, 'p) zip_env =
  qPut :: "'p \<Rightarrow> 'q \<Rightarrow> bool \<times> 'q"
  qGet :: "'q \<Rightarrow> 'p option \<times> 'q"
  WritePack :: "'p \<Rightarrow> byte list"
  GetTime :: "'p \<Rightarrow> int"
  DoZip :: "byte list \<Rightarrow> byte list"
  roundup :: "nat \<Rightarrow> nat"
  envPcode :: int
  envOid :: int
  envOkind :: int
  envOnode :: int

record zip_conf =
  TraceZipMaxBufferSize :: int
  TraceZipMaxWaitTime :: int
  TraceZipMinSize :: int
  DebugTraceZipEnabled :: bool
  DebugTraceZipInterval :: int

definition NewZipPack :: ZipPack where
  "NewZipPack = \<lparr>Time = 0, RecordCount = 0, Records = Own [], Status = 0, Pcode = 0, Oid = 0, Okind = 0, Onode = 0\<rparr>"

text \<open>\<open>compressutil.DoZip\<close> also returns an error, which the code only logs: its bytes are used in any case.\<close>

definition pack_doZip :: "('q, 'p) zip_env \<Rightarrow> zip_conf \<Rightarrow> (nat \<Rightarrow> byte list) \<Rightarrow> ZipPack \<Rightarrow> ZipPack" where
  "pack_doZip E conf h p =
     (if Status p \<noteq> 0 then p
      else if int (length (deref h (Records p))) < TraceZipMinSize conf then p
      else p\<lparr>Status := 1, Records := Own (DoZip E (deref h (Records p)))\<rparr>)"

definition pack_sendAndClear ::
  "('q, 'p) zip_env \<Rightarrow> zip_conf \<Rightarrow> int \<Rightarrow> int \<Rightarrow> ('q, 'p) ZipPackThread \<Rightarrow> ('q, 'p) ZipPackThread" where
  "pack_sendAndClear E conf t now s =
     (if blen (buffer s) = 0 then s
      else (let p = NewZipPack\<lparr>Time := t, RecordCount := packCount s, Records := BytesBuf (buffer s)\<rparr>;
                p1 = pack_doZip E conf (arrays s) p;
                s1 = (if DebugTraceZipEnabled conf \<and> 0 < DebugTraceZipInterval conf
                      then (if now > i64 (lastLog s + DebugTraceZipInterval conf) then s\<lparr>lastLog := now, zipSent := 0\<rparr>
                            else s\<lparr>zipSent := i64 (zipSent s + 1)\<rparr>)
                      else s);
                p2 = p1\<lparr>Pcode := envPcode E, Oid := envOid E, Okind := envOkind E, Onode := envOnode E\<rparr> in
            s1\<lparr>outs := outs s1 @ [NetProfile p2], buffer := ResetBuf (buffer s1), firstTime := 0, packCount := 0\<rparr>))"

definition pack_append ::
  "('q, 'p) zip_env \<Rightarrow> zip_conf \<Rightarrow> int \<Rightarrow> int \<Rightarrow> 'p \<Rightarrow> ('q, 'p) ZipPackThread \<Rightarrow> ('q, 'p) ZipPackThread" where
  "pack_append E conf t now p s =
     (let s1 = WriteBuf (roundup E) (WritePack E p) s; s2 = s1\<lparr>packCount := i64 (packCount s1 + 1)\<rparr>;
          full = TraceZipMaxBufferSize conf \<le> int (blen (buffer s2)) in
      if firstTime s2 = 0
      then (let s3 = s2\<lparr>firstTime := GetTime E p\<rparr> in if full then pack_sendAndClear E conf t now s3 else s3)
      else if full \<or> TraceZipMaxWaitTime conf \<le> i64 (GetTime E p - firstTime s2) then pack_sendAndClear E conf t now s2
      else s2)"

definition pack_Add :: "('q, 'p) zip_env \<Rightarrow> 'p \<Rightarrow> ('q, 'p) ZipPackThread \<Rightarrow> ('q, 'p) ZipPackThread" where
  "pack_Add E p s =
     (let (ok, q) = qPut E p (Queue s); s1 = s\<lparr>Queue := q\<rparr> in
      if ok then s1 else s1\<lparr>outs := outs s1 @ [Direct p], noZipSent := i64 (noZipSent s1 + 1)\<rparr>)"

text \<open>One turn of the loop of \<open>run\<close>.\<close>

definition pack_run :: "('q, 'p) zip_env \<Rightarrow> zip_conf \<Rightarrow> int \<Rightarrow> int \<Rightarrow> ('q, 'p) ZipPackThread \<Rightarrow> ('q, 'p) ZipPackThread" where
  "pack_run E conf t now s =
     (let (tmp, q) = qGet E (Queue s); s1 = s\<lparr>Queue := q\<rparr> in
      case tmp of Some p \<Rightarrow> pack_append E conf t now p s1 | None \<Rightarrow> pack_sendAndClear E conf t now s1)"

subsection \<open>ZipProfileThread of package trace\<close>

definition profile_doZip :: "('q, 'p) zip_env \<Rightarrow> zip_conf \<Rightarrow> (nat \<Rightarrow> byte list) \<Rightarrow> ZipPack \<Rightarrow> ZipPack" where
  "profile_doZip E conf h p =
     (if Status p \<noteq> 0 then p
      else if int (length (deref h (Records p))) < TraceZipMinSize conf then p
      else p\<lparr>Status := 1, Records := Own (DoZip E (deref h (Records p)))\<rparr>)"

definition profile_sendAndClear ::
  "('q, 'p) zip_env \<Rightarrow> zip_conf \<Rightarrow> int \<Rightarrow> int \<Rightarrow> ('q, 'p) ZipPackThread \<Rightarrow> ('q, 'p) ZipPackThread" where
  "profile_sendAndClear E conf t now s =
     (if blen (buffer s) = 0 then s
      else (let p1 = profile_doZip E conf (arrays s) (NewZipPack\<lparr>Time := t, RecordCount := packCount s, Records := BytesBuf (buffer s)\<rparr>);
                s1 = (if \<not> DebugTraceZipEnabled conf \<or> DebugTraceZipInterval conf \<le> 0 then s
                      else (let s' = s\<lparr>zipSent := i64 (zipSent s + 1)\<rparr> in
                            if now > i64 (lastLog s' + DebugTraceZipInterval conf) then s'\<lparr>lastLog := now, zipSent := 0\<rparr> else s')) in
            s1\<lparr>outs := outs s1 @ [NetProfile (p1\<lparr>Pcode := envPcode E, Oid := envOid E, Okind := envOkind E, Onode := envOnode E\<rparr>)],
               buffer := ResetBuf (buffer s1), firstTime := 0, packCount := 0\<rparr>))"

definition profile_append ::
  "('q, 'p) zip_env \<Rightarrow> zip_conf \<Rightarrow> int \<Rightarrow> int \<Rightarrow> 'p \<Rightarrow> ('q, 'p) ZipPackThread \<Rightarrow> ('q, 'p) ZipPackThread" where
  "profile_append E conf t now p s =
     (let s1 = WriteBuf (roundup E) (WritePack E p) s; s2 = s1\<lparr>packCount := i64 (packCount s1 + 1)\<rparr> in
      if firstTime s2 = 0
      then (let s3 = s2\<lparr>firstTime := GetTime E p\<rparr> in
            if TraceZipMaxBufferSize conf \<le> int (blen (buffer s3)) then profile_sendAndClear E conf t now s3 else s3)
      else if TraceZipMaxBufferSize conf \<le> int (blen (buffer s2)) \<or> TraceZipMaxWaitTime conf \<le> i64 (GetTime E p - firstTime s2)
      then profile_sendAndClear E conf t now s2
      else s2)"

definition profile_Add :: "('q, 'p) zip_env \<Rightarrow> 'p \<Rightarrow> ('q, 'p) ZipPackThread \<Rightarrow> ('q, 'p) ZipPackThread" where
  "profile_Add E p s =
     (let (ok, q) = qPut E p (Queue s) in
      if ok then s\<lparr>Queue := q\<rparr>
      else s\<lparr>Queue := q, outs := outs s @ [Direct p], noZipSent := i64 (noZipSent s + 1)\<rparr>)"

definition profile_run :: "('q, 'p) zip_env \<Rightarrow> zip_conf \<Rightarrow> int \<Rightarrow> int \<Rightarrow> ('q, 'p) ZipPackThread \<Rightarrow> ('q, 'p) ZipPackThread" where
  "profile_run E conf t now s =
     (case qGet E (Queue s) of
        (Some p, q) \<Rightarrow> profile_append E conf t now p (s\<lparr>Queue := q\<rparr>)
      | (None, q) \<Rightarrow> profile_sendAndClear E conf t now (s\<lparr>Queue := q\<rparr>))"

subsection \<open>ZipSendProxyThread of the log sink\<close>

record proxy_conf =
  LogSinkMaxBufferSize :: int
  LogSinkMaxWaitTime :: int
  LogSinkZipMinSize :: int

definition proxy_doZip :: "('q, 'p) zip_env \<Rightarrow> proxy_conf \<Rightarrow> (nat \<Rightarrow> byte list) \<Rightarrow> ZipPack \<Rightarrow> ZipPack" where
  "proxy_doZip E conf h p =
     (if Status p \<noteq> 0 then p
      else if int (length (deref h (Records p))) < LogSinkZipMinSize conf then p
      else p\<lparr>Status := 1, Records := Own (DoZip E (deref h (Records p)))\<rparr>)"

definition proxy_sendAndClear ::
  "('q, 'p) zip_env \<Rightarrow> proxy_conf \<Rightarrow> int \<Rightarrow> ('q, 'p) ZipSendProxyThread \<Rightarrow> ('q, 'p) ZipSendProxyThread" where
  "proxy_sendAndClear E conf t s =
     (if blen (buffer s) = 0 then s
      else (let p = proxy_doZip E conf (arrays s) (NewZipPack\<lparr>Time := t, RecordCount := packCount s, Records := BytesBuf (buffer s)\<rparr>) in
            s\<lparr>outs := outs s @ [DataSend p], buffer := ResetBuf (buffer s), firstTime := 0, packCount := 0\<rparr>))"

definition proxy_Append ::
  "('q, 'p) zip_env \<Rightarrow> proxy_conf \<Rightarrow> int \<Rightarrow> 'p \<Rightarrow> ('q, 'p) ZipSendProxyThread \<Rightarrow> ('q, 'p) ZipSendProxyThread" where
  "proxy_Append E conf t p s =
     (let s1 = WriteBuf (roundup E) (WritePack E p) s; s2 = s1\<lparr>packCount := i64 (packCount s1 + 1)\<rparr> in
      if firstTime s2 = 0
      then (let s3 = s2\<lparr>firstTime := GetTime E p\<rparr> in
            if LogSinkMaxBufferSize conf \<le> int (blen (buffer s3)) then proxy_sendAndClear E conf t s3 else s3)
      else if LogSinkMaxBufferSize conf \<le> int (blen (buffer s2)) \<or> LogSinkMaxWaitTime conf \<le> i64 (GetTime E p - firstTime s2)
      then proxy_sendAndClear E conf t s2
      else s2)"

text \<open>The result of the queue is ignored: a pack that does not fit is dropped.\<close>

definition proxy_Add :: "('q, 'p) zip_env \<Rightarrow> 'p \<Rightarrow> ('q, 'p) ZipSendProxyThread \<Rightarrow> ('q, 'p) ZipSendProxyThread" where
  "proxy_Add E p s = s\<lparr>Queue := snd (qPut E p (Queue s))\<rparr>"

definition proxy_run :: "('q, 'p) zip_env \<Rightarrow> proxy_conf \<Rightarrow> int \<Rightarrow> ('q, 'p) ZipSendProxyThread \<Rightarrow> ('q, 'p) ZipSendProxyThread" where
  "proxy_run E conf t s =
     (case qGet E (Queue s) of
        (Some p, q) \<Rightarrow> proxy_Append E conf t p (s\<lparr>Queue := q\<rparr>)
      | (None, q) \<Rightarrow> proxy_sendAndClear E conf t (s\<lparr>Queue := q\<rparr>))"

subsection \<open>The network side\<close>

text \<open>The sender takes the oldest pack and serialises it: what goes out are the bytes its records have at that moment.\<close>

definition freeze :: "(nat \<Rightarrow> byte list) \<Rightarrow> 'p out \<Rightarrow> 'p out" where
  "freeze h o1 =
     (case o1 of
        NetProfile p \<Rightarrow> NetProfile (p\<lparr>Records := Own (deref h (Records p))\<rparr>)
      | DataSend p \<Rightarrow> DataSend (p\<lparr>Records := Own (deref h (Records p))\<rparr>)
      | Direct p \<Rightarrow> Direct p)"

definition net_take :: "('q, 'p, 'z) ZipSendProxyThread_scheme \<Rightarrow> ('q, 'p, 'z) ZipSendProxyThread_scheme" where
  "net_take s = (case outs s of [] \<Rightarrow> s | o1 # os \<Rightarrow> s\<lparr>outs := os, wire := wire s @ [freeze (arrays s) o1]\<rparr>)"

subsection \<open>What a batching thread promises\<close>

text \<open>
  The abstract state: the packs waiting in the queue, the packs of the batch in hand, the batches handed to the
  network and the packs the queue refused.
\<close>

record 'p batches =
  waiting :: "'p list"
  held :: "'p list"
  finished :: "'p list list"
  refused :: "'p list"

definition a_add :: "bool \<Rightarrow> 'p \<Rightarrow> 'p batches \<Rightarrow> 'p batches" where
  "a_add accepted p a = (if accepted then a\<lparr>waiting := waiting a @ [p]\<rparr> else a\<lparr>refused := refused a @ [p]\<rparr>)"

definition a_close :: "'p batches \<Rightarrow> 'p batches" where
  "a_close a = (if held a = [] then a else a\<lparr>finished := finished a @ [held a], held := []\<rparr>)"

definition a_turn :: "bool \<Rightarrow> 'p batches \<Rightarrow> 'p batches" where
  "a_turn close a =
     (case waiting a of
        [] \<Rightarrow> a_close a
      | p # ps \<Rightarrow> (let a' = a\<lparr>waiting := ps, held := held a @ [p]\<rparr> in if close then a_close a' else a'))"

definition accepted_packs :: "'p batches \<Rightarrow> 'p list" where
  "accepted_packs a = concat (finished a) @ held a @ waiting a"

datatype 'p zip_event = EvAdd 'p | EvTurn int int | EvTake

fun added :: "'p zip_event list \<Rightarrow> 'p list" where
  "added [] = []"
| "added (EvAdd p # es) = p # added es"
| "added (_ # es) = added es"

fun zip_exec :: "('p \<Rightarrow> 's \<Rightarrow> 's) \<Rightarrow> (int \<Rightarrow> int \<Rightarrow> 's \<Rightarrow> 's) \<Rightarrow> ('s \<Rightarrow> 's) \<Rightarrow> 'p zip_event list \<Rightarrow> 's \<Rightarrow> 's" where
  "zip_exec add turn ship [] s = s"
| "zip_exec add turn ship (EvAdd p # es) s = zip_exec add turn ship es (add p s)"
| "zip_exec add turn ship (EvTurn t n # es) s = zip_exec add turn ship es (turn t n s)"
| "zip_exec add turn ship (EvTake # es) s = zip_exec add turn ship es (ship s)"

lemma a_close_packs [simp]: "accepted_packs (a_close a) = accepted_packs a" "refused (a_close a) = refused a"
  "waiting (a_close a) = waiting a" "held (a_close a) = []"
  by (simp_all add: a_close_def accepted_packs_def)

lemma a_turn_packs [simp]: "accepted_packs (a_turn c a) = accepted_packs a" "refused (a_turn c a) = refused a"
  "waiting (a_turn c a) = tl (waiting a)"
  by (auto simp: a_turn_def accepted_packs_def Let_def a_close_def split: list.splits)

lemma a_add_packs [simp]:
  "accepted_packs (a_add c p a) = accepted_packs a @ (if c then [p] else [])" "refused (a_add c p a) = refused a @ (if c then [] else [p])"
  by (simp_all add: a_add_def accepted_packs_def)

locale batch_thread =
  fixes add :: "'p \<Rightarrow> 's \<Rightarrow> 's"
    and turn :: "int \<Rightarrow> int \<Rightarrow> 's \<Rightarrow> 's"
    and ship :: "'s \<Rightarrow> 's"
    and R :: "'s \<Rightarrow> 'p batches \<Rightarrow> bool"
  assumes add_ok: "R s a \<Longrightarrow> \<exists>c. R (add p s) (a_add c p a)"
    and turn_ok: "R s a \<Longrightarrow> \<exists>c. R (turn t n s) (a_turn c a)"
    and ship_ok: "R s a \<Longrightarrow> R (ship s) a"
begin

lemma exec_conserves:
  "R s a \<Longrightarrow> \<exists>a' acc ref. R (zip_exec add turn ship es s) a' \<and> added es \<in> shuffles acc ref \<and>
     accepted_packs a' = accepted_packs a @ acc \<and> refused a' = refused a @ ref"
proof (induction es arbitrary: s a)
  case (Cons e es)
  show ?case
  proof (cases e)
    case (EvAdd p)
    from add_ok [OF Cons.prems] obtain c where "R (add p s) (a_add c p a)" by blast
    from Cons.IH [OF this] obtain a' acc ref where
      ih: "R (zip_exec add turn ship es (add p s)) a'" "added es \<in> shuffles acc ref"
        "accepted_packs a' = accepted_packs (a_add c p a) @ acc" "refused a' = refused (a_add c p a) @ ref" by blast
    show ?thesis
    proof (cases c)
      case True
      with ih EvAdd show ?thesis
        by (intro exI [of _ a'] exI [of _ "p # acc"] exI [of _ ref]) (simp add: Cons_in_shuffles_leftI)
    next
      case False
      with ih EvAdd show ?thesis
        by (intro exI [of _ a'] exI [of _ acc] exI [of _ "p # ref"]) (simp add: Cons_in_shuffles_rightI)
    qed
  next
    case (EvTurn t n)
    from turn_ok [OF Cons.prems] obtain c where "R (turn t n s) (a_turn c a)" by blast
    from Cons.IH [OF this] EvTurn show ?thesis by simp
  next
    case EvTake
    from Cons.IH [OF ship_ok [OF Cons.prems]] EvTake show ?thesis by simp
  qed
qed force

lemma turns_drain:
  "R s a \<Longrightarrow> \<exists>a'. R ((turn t n ^^ Suc (length (waiting a))) s) a' \<and> waiting a' = [] \<and> held a' = [] \<and>
     accepted_packs a' = accepted_packs a \<and> refused a' = refused a"
proof (induction "length (waiting a)" arbitrary: s a)
  case 0
  from turn_ok [OF 0(2)] obtain c where "R (turn t n s) (a_turn c a)" by blast
  with 0(1) show ?case by (intro exI [of _ "a_turn c a"]) (simp add: a_turn_def)
next
  case (Suc k)
  from turn_ok [OF Suc.prems] obtain c where c: "R (turn t n s) (a_turn c a)" by blast
  have k: "k = length (waiting (a_turn c a))" using Suc.hyps(2) by simp
  have "(turn t n ^^ Suc (Suc k)) s = (turn t n ^^ Suc k) (turn t n s)" by (simp add: funpow_swap1)
  with Suc.hyps(1) [OF k c] Suc.hyps(2) k show ?case by (simp del: funpow.simps)
qed

end

subsection \<open>The relation between a thread and its batches\<close>

fun batches_of :: "'p out list \<Rightarrow> ZipPack list" where
  "batches_of [] = []"
| "batches_of (NetProfile z # os) = z # batches_of os"
| "batches_of (DataSend z # os) = z # batches_of os"
| "batches_of (Direct p # os) = batches_of os"

fun directs_of :: "'p out list \<Rightarrow> 'p list" where
  "directs_of [] = []"
| "directs_of (Direct p # os) = p # directs_of os"
| "directs_of (_ # os) = directs_of os"

text \<open>What is used of the parameters: \<open>items\<close> are the packs in a queue; a refused pack leaves the queue as it is; a
  serialised pack is not empty; an allocation is at least as large as asked for.\<close>

definition zip_laws :: "('q \<Rightarrow> 'p list) \<Rightarrow> ('q, 'p) zip_env \<Rightarrow> bool" where
  "zip_laws items E \<longleftrightarrow>
     (\<forall>p q. items (snd (qPut E p q)) = (if fst (qPut E p q) then items q @ [p] else items q)) \<and>
     (\<forall>q. fst (qGet E q) = (case items q of [] \<Rightarrow> None | p # ps \<Rightarrow> Some p)) \<and>
     (\<forall>q. items (snd (qGet E q)) = tl (items q)) \<and>
     (\<forall>p. WritePack E p \<noteq> []) \<and> (\<forall>c. c \<le> roundup E c)"

definition records :: "('q, 'p) zip_env \<Rightarrow> 'p list \<Rightarrow> byte list" where
  "records E ps = concat (map (WritePack E) ps)"

text \<open>The pack \<open>z\<close>, as it is serialised, carries the batch \<open>ps\<close>: compressed unless it is short.\<close>

definition carries :: "('q, 'p) zip_env \<Rightarrow> int \<Rightarrow> 'p list \<Rightarrow> ZipPack \<Rightarrow> bool" where
  "carries E minSize ps z \<longleftrightarrow>
     RecordCount z = i64 (int (length ps)) \<and>
     (if int (length (records E ps)) < minSize then Status z = 0 \<and> Records z = Own (records E ps)
      else Status z = 1 \<and> Records z = Own (DoZip E (records E ps)))"

definition wf_buf :: "('q, 'p, 'z) ZipSendProxyThread_scheme \<Rightarrow> bool" where
  "wf_buf s \<longleftrightarrow> length (arrays s (barr (buffer s))) = bcap (buffer s) \<and> blen (buffer s) \<le> bcap (buffer s) \<and> barr (buffer s) < fresh s"

definition contents :: "('q, 'p, 'z) ZipSendProxyThread_scheme \<Rightarrow> byte list" where
  "contents s = take (blen (buffer s)) (arrays s (barr (buffer s)))"

definition zip_rel ::
  "bool \<Rightarrow> ('q \<Rightarrow> 'p list) \<Rightarrow> ('q, 'p) zip_env \<Rightarrow> int \<Rightarrow> ('q, 'p, 'z) ZipSendProxyThread_scheme \<Rightarrow> 'p batches \<Rightarrow> bool" where
  "zip_rel sendsRefused items E minSize s a \<longleftrightarrow>
     items (Queue s) = waiting a \<and> wf_buf s \<and> contents s = records E (held a) \<and> packCount s = i64 (int (length (held a))) \<and>
     list_all2 (carries E minSize) (finished a) (batches_of (wire s @ map (freeze (arrays s)) (outs s))) \<and>
     directs_of (wire s @ outs s) = (if sendsRefused then refused a else []) \<and> [] \<notin> set (finished a)"

text \<open>No pack in the queue of the sender refers to the array of the buffer.\<close>

definition owned :: "('q, 'p, 'z) ZipSendProxyThread_scheme \<Rightarrow> bool" where
  "owned s \<longleftrightarrow> list_all (\<lambda>z. \<exists>bs. Records z = Own bs) (batches_of (outs s))"

text \<open>The effect of sending the batch in hand.\<close>

definition closes :: "('q, 'p) zip_env \<Rightarrow> int \<Rightarrow> ('q, 'p, 'z) ZipSendProxyThread_scheme \<Rightarrow> ('q, 'p, 'z) ZipSendProxyThread_scheme \<Rightarrow> bool" where
  "closes E minSize s s' \<longleftrightarrow>
     Queue s' = Queue s \<and> arrays s' = arrays s \<and> fresh s' = fresh s \<and> wire s' = wire s \<and>
     (if blen (buffer s) = 0 then outs s' = outs s \<and> buffer s' = buffer s \<and> packCount s' = packCount s
      else buffer s' = ResetBuf (buffer s) \<and> packCount s' = 0 \<and>
        (\<exists>o1 z. outs s' = outs s @ [o1] \<and> batches_of [o1] = [z] \<and> directs_of [o1] = [] \<and> RecordCount z = packCount s \<and>
          (if int (length (contents s)) < minSize then Status z = 0 \<and> Records z = BytesBuf (buffer s)
           else Status z = 1 \<and> Records z = Own (DoZip E (contents s)))))"

lemma batches_of_append [simp]: "batches_of (xs @ ys) = batches_of xs @ batches_of ys"
  by (induction xs rule: batches_of.induct) auto

lemma directs_of_append [simp]: "directs_of (xs @ ys) = directs_of xs @ directs_of ys"
  by (induction xs rule: directs_of.induct) auto

lemma batches_of_freeze: "batches_of (map (freeze h) os) = map (\<lambda>z. z\<lparr>Records := Own (deref h (Records z))\<rparr>) (batches_of os)"
  by (induction os rule: batches_of.induct) (auto simp: freeze_def)

lemma directs_of_freeze [simp]: "directs_of (map (freeze h) os) = directs_of os"
  by (induction os rule: directs_of.induct) (auto simp: freeze_def)

lemma records_simps [simp]: "records E [] = []" "records E (ps @ qs) = records E ps @ records E qs" "records E [p] = WritePack E p"
  by (simp_all add: records_def)

lemma records_empty: "zip_laws items E \<Longrightarrow> records E ps = [] \<longleftrightarrow> ps = []"
  by (cases ps) (auto simp: records_def zip_laws_def)

lemma length_contents: "wf_buf s \<Longrightarrow> length (contents s) = blen (buffer s)"
  by (simp add: wf_buf_def contents_def)

subsection \<open>Writing and sending keep the relation\<close>

lemma WriteBuf_contents:
  assumes "wf_buf s" and "\<And>c. c \<le> r c"
  shows "contents (WriteBuf r bs s) = contents s @ bs \<and> wf_buf (WriteBuf r bs s)"
proof (cases "blen (buffer s) + length bs \<le> bcap (buffer s)")
  case True
  with assms(1) show ?thesis by (auto simp: WriteBuf_def Let_def contents_def wf_buf_def)
next
  case False
  define c where "c = (if bcap (buffer s) = 0 \<and> length bs \<le> 64 then 64 else r (max (blen (buffer s) + length bs) (2 * bcap (buffer s))))"
  have "blen (buffer s) + length bs \<le> max (blen (buffer s) + length bs) (2 * bcap (buffer s))" by simp
  also have "\<dots> \<le> r (max (blen (buffer s) + length bs) (2 * bcap (buffer s)))" by (rule assms(2))
  finally have c: "blen (buffer s) + length bs \<le> c" using assms(1) by (auto simp: wf_buf_def c_def)
  have w: "WriteBuf r bs s = s\<lparr>arrays := (arrays s)(fresh s := contents s @ bs @ replicate (c - (blen (buffer s) + length bs)) 0),
      fresh := fresh s + 1, buffer := \<lparr>barr = fresh s, bcap = c, blen = blen (buffer s) + length bs\<rparr>\<rparr>"
    using False by (simp add: WriteBuf_def Let_def c_def contents_def)
  have "length (contents s) = blen (buffer s)" using assms(1) by (rule length_contents)
  with c assms(1) show ?thesis unfolding w by (simp add: wf_buf_def contents_def)
qed

lemma WriteBuf_fields [simp]:
  "Queue (WriteBuf r bs s) = Queue s" "outs (WriteBuf r bs s) = outs s" "wire (WriteBuf r bs s) = wire s"
  "packCount (WriteBuf r bs s) = packCount s" "firstTime (WriteBuf r bs s) = firstTime s"
  "blen (buffer (WriteBuf r bs s)) = blen (buffer s) + length bs"
  by (simp_all add: WriteBuf_def Let_def)

lemma freeze_owned:
  assumes "owned s"
  shows "batches_of (map (freeze h) (outs s)) = batches_of (outs s)"
proof -
  have "map (\<lambda>z. z\<lparr>Records := Own (deref h (Records z))\<rparr>) zs = zs" if "list_all (\<lambda>z. \<exists>bs. Records z = Own bs) zs" for zs
    using that by (induction zs) auto
  with assms show ?thesis by (simp add: batches_of_freeze owned_def)
qed

lemma append_rel:
  assumes "zip_laws items E" and "zip_rel d items E m s a" and "owned s"
    and s': "Queue s' = Queue s" "outs s' = outs s" "wire s' = wire s" "arrays s' = arrays (WriteBuf (roundup E) (WritePack E p) s)"
      "fresh s' = fresh (WriteBuf (roundup E) (WritePack E p) s)" "buffer s' = buffer (WriteBuf (roundup E) (WritePack E p) s)"
      "packCount s' = i64 (packCount s + 1)"
  shows "zip_rel d items E m s' (a\<lparr>held := held a @ [p]\<rparr>) \<and> owned s'"
proof -
  have "wf_buf s" and r: "\<And>c. c \<le> roundup E c" using assms(1,2) by (auto simp: zip_rel_def zip_laws_def)
  note w = WriteBuf_contents [OF this]
  have "owned s'" using assms(3) s' by (simp add: owned_def)
  moreover have "contents s' = contents s @ WritePack E p" "wf_buf s'"
    using w [of "WritePack E p"] s' by (simp_all add: contents_def wf_buf_def)
  ultimately show ?thesis
    using assms(2) s' freeze_owned [OF assms(3)] freeze_owned [OF \<open>owned s'\<close>] by (auto simp: zip_rel_def algebra_simps)
qed

lemma close_rel:
  assumes "zip_laws items E" and "zip_rel d items E m s a" and "closes E m s s'"
  shows "zip_rel d items E m s' (a_close a)"
proof -
  from assms(2) have wf: "wf_buf s" and c: "contents s = records E (held a)" by (auto simp: zip_rel_def)
  have e: "blen (buffer s) = 0 \<longleftrightarrow> held a = []"
    using length_contents [OF wf] c records_empty [OF assms(1), of "held a"] by auto
  show ?thesis
  proof (cases "held a = []")
    case True
    with e assms(2,3) show ?thesis by (auto simp: a_close_def closes_def zip_rel_def wf_buf_def contents_def)
  next
    case False
    with e assms(3) obtain o1 z where z: "outs s' = outs s @ [o1]" "batches_of [o1] = [z]" "directs_of [o1] = []"
      "RecordCount z = packCount s"
      "if int (length (contents s)) < m then Status z = 0 \<and> Records z = BytesBuf (buffer s)
       else Status z = 1 \<and> Records z = Own (DoZip E (contents s))"
      and f: "Queue s' = Queue s" "arrays s' = arrays s" "fresh s' = fresh s" "wire s' = wire s"
        "buffer s' = ResetBuf (buffer s)" "packCount s' = 0"
      by (auto simp: closes_def)
    have bb: "deref (arrays s) (BytesBuf (buffer s)) = records E (held a)" using c by (simp add: BytesBuf_def contents_def)
    have pc: "packCount s = i64 (int (length (held a)))" using assms(2) by (simp add: zip_rel_def)
    have "carries E m (held a) (z\<lparr>Records := Own (deref (arrays s) (Records z))\<rparr>)"
      using z(4,5) c bb pc by (cases "int (length (records E (held a))) < m") (simp_all add: carries_def)
    moreover have "batches_of [freeze (arrays s) o1] = [z\<lparr>Records := Own (deref (arrays s) (Records z))\<rparr>]"
      using z(2) batches_of_freeze [of "arrays s" "[o1]"] by simp
    ultimately show ?thesis
      using False z(1,3) f assms(2)
      by (simp add: zip_rel_def a_close_def wf_buf_def contents_def ResetBuf_def list_all2_appendI flip: append_assoc)
  qed
qed

lemma close_owned:
  assumes "closes E m s s'" and "owned s" and "blen (buffer s) \<noteq> 0 \<longrightarrow> m \<le> int (length (contents s))"
  shows "owned s'"
  using assms by (auto simp: closes_def owned_def split: if_splits)

lemma take_rel:
  assumes "zip_rel d items E m s a"
  shows "zip_rel d items E m (net_take s) a"
proof (cases "outs s")
  case (Cons o1 os)
  have "freeze h (freeze h o1) = freeze h o1" "directs_of [freeze h o1] = directs_of [o1]" for h
    by (cases o1; simp add: freeze_def)+
  moreover have "directs_of (o1 # os) = directs_of [o1] @ directs_of os" "directs_of (freeze h o1 # os) = directs_of [o1] @ directs_of os" for h
    by (cases o1; simp add: freeze_def)+
  moreover have "batches_of (freeze h o1 # map (freeze h) os) = batches_of [freeze h o1] @ batches_of (map (freeze h) os)" for h
    by (cases o1) (simp_all add: freeze_def)
  ultimately show ?thesis using assms Cons by (simp add: net_take_def zip_rel_def wf_buf_def contents_def)
qed (use assms in \<open>simp add: net_take_def\<close>)

lemma take_owned: "owned s \<Longrightarrow> owned (net_take s)"
  by (cases "outs s" rule: batches_of.cases) (auto simp: net_take_def owned_def)

lemma add_rel:
  assumes "zip_laws items E" and "zip_rel d items E m s a"
    and "Queue s' = snd (qPut E p (Queue s))" "arrays s' = arrays s" "fresh s' = fresh s" "buffer s' = buffer s"
      "wire s' = wire s" "packCount s' = packCount s"
      "outs s' = outs s @ (if d \<and> \<not> fst (qPut E p (Queue s)) then [Direct p] else [])"
  shows "zip_rel d items E m s' (a_add (fst (qPut E p (Queue s))) p a)"
  using assms by (auto simp: zip_rel_def a_add_def zip_laws_def wf_buf_def contents_def freeze_def)

lemma pack_closes: "wf_buf s \<Longrightarrow> closes E (TraceZipMinSize conf) s (pack_sendAndClear E conf t n s)"
  by (auto simp: closes_def pack_sendAndClear_def pack_doZip_def NewZipPack_def Let_def BytesBuf_def contents_def)

lemma proxy_closes: "wf_buf s \<Longrightarrow> closes E (LogSinkZipMinSize conf) s (proxy_sendAndClear E conf t s)"
  by (auto simp: closes_def proxy_sendAndClear_def proxy_doZip_def NewZipPack_def Let_def BytesBuf_def contents_def)

subsection \<open>The threads keep the relation\<close>

text \<open>\<open>appended E p s s'\<close>: a pack has been written to the buffer and counted.\<close>

definition appended :: "('q, 'p) zip_env \<Rightarrow> 'p \<Rightarrow> ('q, 'p, 'z) ZipSendProxyThread_scheme \<Rightarrow> ('q, 'p, 'z) ZipSendProxyThread_scheme \<Rightarrow> bool" where
  "appended E p s s' \<longleftrightarrow>
     Queue s' = Queue s \<and> outs s' = outs s \<and> wire s' = wire s \<and> arrays s' = arrays (WriteBuf (roundup E) (WritePack E p) s) \<and>
     fresh s' = fresh (WriteBuf (roundup E) (WritePack E p) s) \<and> buffer s' = buffer (WriteBuf (roundup E) (WritePack E p) s) \<and>
     packCount s' = i64 (packCount s + 1)"

lemma pack_append_cases:
  "\<exists>s'. appended E p s s' \<and> (pack_append E conf t n p s = s' \<or> pack_append E conf t n p s = pack_sendAndClear E conf t n s')"
  unfolding pack_append_def appended_def Let_def
  by (intro exI [of _ "let s2 = (WriteBuf (roundup E) (WritePack E p) s)\<lparr>packCount := i64 (packCount s + 1)\<rparr> in
      if firstTime s2 = 0 then s2\<lparr>firstTime := GetTime E p\<rparr> else s2"]) (simp add: Let_def)

lemma proxy_Append_cases:
  "\<exists>s'. appended E p s s' \<and> (proxy_Append E conf t p s = s' \<or> proxy_Append E conf t p s = proxy_sendAndClear E conf t s')"
  unfolding proxy_Append_def appended_def Let_def
  by (intro exI [of _ "let s2 = (WriteBuf (roundup E) (WritePack E p) s)\<lparr>packCount := i64 (packCount s + 1)\<rparr> in
      if firstTime s2 = 0 then s2\<lparr>firstTime := GetTime E p\<rparr> else s2"]) (simp add: Let_def)

text \<open>One turn, for any thread that takes a pack and then appends it, appends it and closes the batch, or only closes
  the batch when there is no pack.\<close>

definition turns :: "('q, 'p) zip_env \<Rightarrow> int \<Rightarrow> ('q, 'p, 'z) ZipSendProxyThread_scheme \<Rightarrow> ('q, 'p, 'z) ZipSendProxyThread_scheme \<Rightarrow> bool" where
  "turns E m s s' \<longleftrightarrow>
     (let s1 = s\<lparr>Queue := snd (qGet E (Queue s))\<rparr> in
      case fst (qGet E (Queue s)) of
        None \<Rightarrow> wf_buf s \<longrightarrow> closes E m s1 s'
      | Some p \<Rightarrow> (\<exists>s2. appended E p s1 s2 \<and> (s' = s2 \<or> (wf_buf s2 \<longrightarrow> closes E m s2 s'))))"

lemma pack_turns: "turns E (TraceZipMinSize conf) s (pack_run E conf t n s)"
proof (cases "qGet E (Queue s)")
  case (Pair tmp q)
  have "wf_buf (s\<lparr>Queue := q\<rparr>) = wf_buf s" by (simp add: wf_buf_def)
  with Pair pack_closes [of "s\<lparr>Queue := q\<rparr>" E conf t n] pack_closes [of _ E conf t n] pack_append_cases [of E _ "s\<lparr>Queue := q\<rparr>" conf t n]
  show ?thesis by (cases tmp) (simp_all add: turns_def pack_run_def, metis)
qed

lemma proxy_turns: "turns E (LogSinkZipMinSize conf) s (proxy_run E conf t s)"
proof (cases "qGet E (Queue s)")
  case (Pair tmp q)
  have "wf_buf (s\<lparr>Queue := q\<rparr>) = wf_buf s" by (simp add: wf_buf_def)
  with Pair proxy_closes [of "s\<lparr>Queue := q\<rparr>" E conf t] proxy_closes [of _ E conf t] proxy_Append_cases [of E _ "s\<lparr>Queue := q\<rparr>" conf t]
  show ?thesis by (cases tmp) (simp_all add: turns_def proxy_run_def, metis)
qed

lemma turn_rel:
  assumes "zip_laws items E" and "zip_rel d items E m s a" and "owned s" and "turns E m s s'"
  shows "\<exists>c. zip_rel d items E m s' (a_turn c a) \<and> ((\<forall>p. m \<le> int (length (WritePack E p))) \<longrightarrow> owned s')"
proof -
  let ?s1 = "s\<lparr>Queue := snd (qGet E (Queue s))\<rparr>" and ?a1 = "a\<lparr>waiting := tl (waiting a)\<rparr>"
  have r1: "zip_rel d items E m ?s1 ?a1" using assms(1,2) by (auto simp: zip_rel_def wf_buf_def contents_def zip_laws_def)
  have o1: "owned ?s1" using assms(3) by (simp add: owned_def)
  have wf: "wf_buf s" using assms(2) by (simp add: zip_rel_def)
  have long: "m \<le> int (length (records E ps))" if "\<forall>p. m \<le> int (length (WritePack E p))" "ps \<noteq> []" for ps
    using that by (cases ps) (auto simp: records_def intro: add_increasing2)
  have q: "fst (qGet E (Queue s)) = (case waiting a of [] \<Rightarrow> None | p # ps \<Rightarrow> Some p)"
    using assms(1,2) by (auto simp: zip_laws_def zip_rel_def)
  show ?thesis
  proof (cases "waiting a")
    case Nil
    then have cl: "closes E m ?s1 s'" using q wf assms(4) by (simp add: turns_def Let_def)
    have "blen (buffer ?s1) \<noteq> 0 \<longrightarrow> held a \<noteq> []" using length_contents [OF wf] assms(2) by (auto simp: zip_rel_def)
    moreover have "contents ?s1 = records E (held a)" using r1 by (simp add: zip_rel_def)
    ultimately have "(\<forall>p. m \<le> int (length (WritePack E p))) \<longrightarrow> owned s'"
      using close_owned [OF cl o1] long by auto
    moreover have "a_turn c a = a_close ?a1" for c using Nil by (simp add: a_turn_def a_close_def)
    ultimately show ?thesis using close_rel [OF assms(1) r1 cl] by simp
  next
    case (Cons p ps)
    then obtain s2 where s2: "appended E p ?s1 s2" "s' = s2 \<or> (wf_buf s2 \<longrightarrow> closes E m s2 s')"
      using q assms(4) by (auto simp: turns_def Let_def)
    let ?a2 = "a\<lparr>waiting := ps, held := held a @ [p]\<rparr>"
    have "?a1\<lparr>held := held ?a1 @ [p]\<rparr> = ?a2" using Cons by simp
    with append_rel [OF assms(1) r1 o1, of s2 p] s2(1) have r2: "zip_rel d items E m s2 ?a2" "owned s2"
      by (auto simp: appended_def)
    from s2(2) show ?thesis
    proof
      assume "s' = s2"
      with r2 Cons show ?thesis by (intro exI [of _ False]) (simp add: a_turn_def)
    next
      assume "wf_buf s2 \<longrightarrow> closes E m s2 s'"
      with r2 have cl: "closes E m s2 s'" by (simp add: zip_rel_def)
      have "contents s2 = records E (held ?a2)" using r2 by (simp add: zip_rel_def)
      then have "(\<forall>p. m \<le> int (length (WritePack E p))) \<longrightarrow> owned s'"
        using close_owned [OF cl r2(2)] long [of "held a @ [p]"] by simp
      with close_rel [OF assms(1) r2(1) cl] Cons show ?thesis by (intro exI [of _ True]) (simp add: a_turn_def)
    qed
  qed
qed

text \<open>A thread whose batches are all compressed, with the sender taking packs at any time; and a thread whose sender
  takes each pack before the next operation, whatever the size of the batches.\<close>

definition zipped_rel ::
  "bool \<Rightarrow> ('q \<Rightarrow> 'p list) \<Rightarrow> ('q, 'p) zip_env \<Rightarrow> int \<Rightarrow> ('q, 'p, 'z) ZipSendProxyThread_scheme \<Rightarrow> 'p batches \<Rightarrow> bool" where
  "zipped_rel d items E m s a \<longleftrightarrow>
     zip_laws items E \<and> (\<forall>p. m \<le> int (length (WritePack E p))) \<and> owned s \<and> zip_rel d items E m s a"

definition prompt_rel ::
  "bool \<Rightarrow> ('q \<Rightarrow> 'p list) \<Rightarrow> ('q, 'p) zip_env \<Rightarrow> int \<Rightarrow> ('q, 'p, 'z) ZipSendProxyThread_scheme \<Rightarrow> 'p batches \<Rightarrow> bool" where
  "prompt_rel d items E m s a \<longleftrightarrow> zip_laws items E \<and> outs s = [] \<and> zip_rel d items E m s a"

lemma zipped_turn: "zipped_rel d items E m s a \<Longrightarrow> turns E m s s' \<Longrightarrow> \<exists>c. zipped_rel d items E m s' (a_turn c a)"
  using turn_rel [of items E d m s a s'] by (auto simp: zipped_rel_def)

lemma zipped_take: "zipped_rel d items E m s a \<Longrightarrow> zipped_rel d items E m (net_take s) a"
  by (simp add: zipped_rel_def take_rel take_owned)

lemma turns_outs: "turns E m s s' \<Longrightarrow> zip_laws items E \<Longrightarrow> wf_buf s \<Longrightarrow> outs s = [] \<Longrightarrow> length (outs s') \<le> 1"
proof (cases "fst (qGet E (Queue s))")
  case None
  assume "turns E m s s'" "wf_buf s" "outs s = []"
  with None show ?thesis by (auto simp: turns_def Let_def closes_def split: if_splits)
next
  case (Some p)
  assume a: "turns E m s s'" "zip_laws items E" "wf_buf s" "outs s = []"
  with Some obtain s2 where s2: "appended E p (s\<lparr>Queue := snd (qGet E (Queue s))\<rparr>) s2" "s' = s2 \<or> (wf_buf s2 \<longrightarrow> closes E m s2 s')"
    by (auto simp: turns_def Let_def)
  have "wf_buf (WriteBuf (roundup E) (WritePack E p) (s\<lparr>Queue := snd (qGet E (Queue s))\<rparr>))"
    using WriteBuf_contents [of "s\<lparr>Queue := snd (qGet E (Queue s))\<rparr>" "roundup E" "WritePack E p"] a(2,3) by (simp add: wf_buf_def zip_laws_def)
  with s2(1) have "wf_buf s2" by (simp add: appended_def wf_buf_def)
  with s2 a(4) show ?thesis by (auto simp: appended_def closes_def split: if_splits)
qed

lemma take_one: "length (outs s) \<le> 1 \<Longrightarrow> outs (net_take s) = []"
  by (cases "outs s") (auto simp: net_take_def)

lemma prompt_turn:
  assumes "prompt_rel d items E m s a" and "turns E m s s'"
  shows "\<exists>c. prompt_rel d items E m (net_take s') (a_turn c a)"
proof -
  have "owned s" using assms(1) by (simp add: prompt_rel_def owned_def)
  with assms turn_rel [of items E d m s a s'] obtain c where "zip_rel d items E m s' (a_turn c a)" by (auto simp: prompt_rel_def)
  moreover have "length (outs s') \<le> 1" using turns_outs [OF assms(2), of items] assms(1) by (simp add: prompt_rel_def zip_rel_def)
  ultimately have "prompt_rel d items E m (net_take s') (a_turn c a)" using assms(1) by (simp add: prompt_rel_def take_rel take_one)
  then show ?thesis by blast
qed

lemma prompt_take: "prompt_rel d items E m s a \<Longrightarrow> prompt_rel d items E m (net_take s) a"
  by (simp add: prompt_rel_def take_rel) (simp add: net_take_def)

subsection \<open>The three threads are batching threads\<close>

definition newZipPackThread :: "'q \<Rightarrow> ('q, 'p) ZipPackThread" where
  "newZipPackThread q =
     \<lparr>arrays = (\<lambda>_. []), fresh = 1, outs = [], wire = [], Queue = q, buffer = \<lparr>barr = 0, bcap = 0, blen = 0\<rparr>, packCount = 0,
      firstTime = 0, lastLog = 0, zipSent = 0, noZipSent = 0\<rparr>"

definition newZipSendProxyThread :: "'q \<Rightarrow> ('q, 'p) ZipSendProxyThread" where
  "newZipSendProxyThread q =
     \<lparr>arrays = (\<lambda>_. []), fresh = 1, outs = [], wire = [], Queue = q, buffer = \<lparr>barr = 0, bcap = 0, blen = 0\<rparr>, packCount = 0, firstTime = 0\<rparr>"

text \<open>The profile thread is a copy of the pack thread.\<close>

lemma profile_doZip_eq: "profile_doZip = pack_doZip"
  by (intro ext) (simp add: profile_doZip_def pack_doZip_def)

lemma profile_sendAndClear_eq: "profile_sendAndClear = pack_sendAndClear"
  by (intro ext) (simp add: profile_sendAndClear_def pack_sendAndClear_def profile_doZip_eq Let_def)

lemma profile_append_eq: "profile_append = pack_append"
  by (intro ext) (simp add: profile_append_def pack_append_def profile_sendAndClear_eq Let_def)

lemma profile_eq: "profile_Add = pack_Add" "profile_run = pack_run"
  by (intro ext; simp add: profile_Add_def pack_Add_def profile_run_def pack_run_def profile_append_eq profile_sendAndClear_eq
        split: prod.splits option.splits)+

lemma pack_Add_rel:
  assumes "zip_laws items E" and "zip_rel True items E m s a"
  shows "zip_rel True items E m (pack_Add E p s) (a_add (fst (qPut E p (Queue s))) p a)"
  by (rule add_rel [OF assms]) (simp_all add: pack_Add_def Let_def split: prod.splits)

lemma pack_Add_outs: "owned s \<Longrightarrow> owned (pack_Add E p s)" "outs s = [] \<Longrightarrow> length (outs (pack_Add E p s)) \<le> 1"
  by (simp_all add: pack_Add_def owned_def Let_def split: prod.splits)

lemma proxy_Add_rel:
  assumes "zip_laws items E" and "zip_rel False items E m s a"
  shows "zip_rel False items E m (proxy_Add E p s) (a_add (fst (qPut E p (Queue s))) p a)"
  by (rule add_rel [OF assms]) (simp_all add: proxy_Add_def)

lemma pack_Add_zipped: "zipped_rel True items E m s a \<Longrightarrow> \<exists>c. zipped_rel True items E m (pack_Add E p s) (a_add c p a)"
  by (rule exI [of _ "fst (qPut E p (Queue s))"]) (simp add: zipped_rel_def pack_Add_rel pack_Add_outs)

lemma pack_Add_prompt: "prompt_rel True items E m s a \<Longrightarrow> \<exists>c. prompt_rel True items E m (net_take (pack_Add E p s)) (a_add c p a)"
  by (rule exI [of _ "fst (qPut E p (Queue s))"]) (simp add: prompt_rel_def pack_Add_rel pack_Add_outs take_rel take_one del: One_nat_def)

lemma proxy_Add_zipped: "zipped_rel False items E m s a \<Longrightarrow> \<exists>c. zipped_rel False items E m (proxy_Add E p s) (a_add c p a)"
  by (rule exI [of _ "fst (qPut E p (Queue s))"]) (simp add: zipped_rel_def proxy_Add_rel, simp add: proxy_Add_def owned_def)

interpretation zipped_packs: batch_thread "pack_Add E" "pack_run E conf" net_take "zipped_rel True items E (TraceZipMinSize conf)" for E conf items
  by unfold_locales (auto intro: pack_Add_zipped zipped_turn pack_turns zipped_take)

interpretation prompt_packs: batch_thread "\<lambda>p s. net_take (pack_Add E p s)" "\<lambda>t n s. net_take (pack_run E conf t n s)" net_take
    "prompt_rel True items E (TraceZipMinSize conf)" for E conf items
  by unfold_locales (auto intro: pack_Add_prompt prompt_turn pack_turns prompt_take)

interpretation zipped_logs: batch_thread "proxy_Add E" "\<lambda>t n. proxy_run E conf t" net_take "zipped_rel False items E (LogSinkZipMinSize conf)" for E conf items
  by unfold_locales (auto intro: proxy_Add_zipped zipped_turn proxy_turns zipped_take)

lemma new_rel:
  assumes "zip_laws items E" and "items q = []" and "outs s = []" "wire s = []" "Queue s = q" "packCount s = 0" "arrays s = (\<lambda>_. [])" "fresh s = 1"
    "buffer s = \<lparr>barr = 0, bcap = 0, blen = 0\<rparr>"
  shows "zip_rel d items E m s \<lparr>waiting = [], held = [], finished = [], refused = []\<rparr>"
  using assms by (simp add: zip_rel_def wf_buf_def contents_def)

subsection \<open>Properties\<close>

text \<open>C5: packs put into a profile batch thread are neither lost, duplicated nor reordered. After any sequence of calls of
  \<open>Add\<close>, turns of the thread and packs taken by the network sender, the packs the queue accepted are exactly, in order,
  those of the batches sent, of the buffer and of the queue; each batch sent carries its packs compressed with their
  number; the packs the queue refused were sent one by one. This needs every pack to have the minimum size of
  compression.\<close>
theorem profile_batches_conserve:
  assumes "zip_laws items E" and "\<forall>p. TraceZipMinSize conf \<le> int (length (WritePack E p))" and "items q = []"
    and s: "s = zip_exec (profile_Add E) (profile_run E conf) net_take es (newZipPackThread q)"
  shows "\<exists>sent inHand accepted ref. added es \<in> shuffles accepted ref \<and> accepted = concat sent @ inHand @ items (Queue s) \<and>
     list_all2 (carries E (TraceZipMinSize conf)) sent (batches_of (wire s @ outs s)) \<and> [] \<notin> set sent \<and>
     contents s = records E inHand \<and> directs_of (wire s @ outs s) = ref"
proof -
  have "zipped_rel True items E (TraceZipMinSize conf) (newZipPackThread q) \<lparr>waiting = [], held = [], finished = [], refused = []\<rparr>"
    using assms(1-3) by (simp add: zipped_rel_def owned_def new_rel newZipPackThread_def)
  from zipped_packs.exec_conserves [OF this, of es] obtain a acc ref where
    a: "zipped_rel True items E (TraceZipMinSize conf) s a" "added es \<in> shuffles acc ref" "accepted_packs a = acc" "refused a = ref"
    unfolding s profile_eq by (auto simp: accepted_packs_def)
  moreover have "batches_of (map (freeze (arrays s)) (outs s)) = batches_of (outs s)" using a(1) by (simp add: zipped_rel_def freeze_owned)
  ultimately show ?thesis
    by (intro exI [of _ "finished a"] exI [of _ "held a"] exI [of _ acc] exI [of _ ref]) (simp add: zipped_rel_def zip_rel_def accepted_packs_def)
qed

text \<open>An instance of the parameters: a queue of two packs, packs that are lists of bytes with their length in front.\<close>

definition zenv1 :: "(byte list list, byte list) zip_env" where
  "zenv1 = \<lparr>qPut = (\<lambda>p q. if length q < 2 then (True, q @ [p]) else (False, q)), qGet = (\<lambda>q. case q of [] \<Rightarrow> (None, []) | p # ps \<Rightarrow> (Some p, ps)),
     WritePack = (\<lambda>p. word_of_nat (length p) # p), GetTime = (\<lambda>p. 5), DoZip = rev, roundup = (\<lambda>c. c + 8),
     envPcode = 7, envOid = 8, envOkind = 0, envOnode = 0\<rparr>"

definition zconf1 :: "int \<Rightarrow> zip_conf" where
  "zconf1 m = \<lparr>TraceZipMaxBufferSize = 1000, TraceZipMaxWaitTime = 1000, TraceZipMinSize = m, DebugTraceZipEnabled = False, DebugTraceZipInterval = 0\<rparr>"

lemma zenv1_laws: "zip_laws (\<lambda>q. q) zenv1"
  by (auto simp: zip_laws_def zenv1_def split: list.splits)

theorem profile_batches_conserve_witness:
  "\<exists>sent inHand accepted ref. [[1], [2, 3], [4]] \<in> shuffles accepted ref \<and>
     accepted = concat sent @ inHand @ Queue (zip_exec (profile_Add zenv1) (profile_run zenv1 (zconf1 1)) net_take
       [EvAdd [1], EvAdd [2, 3], EvTurn 1 1, EvTurn 2 2, EvTurn 3 3, EvAdd [4]] (newZipPackThread [])) \<and>
     sent \<noteq> []"
proof -
  let ?es = "[EvAdd [1], EvAdd [2, 3], EvTurn 1 1, EvTurn 2 2, EvTurn 3 3, EvAdd [4]]"
  let ?s = "zip_exec (profile_Add zenv1) (profile_run zenv1 (zconf1 1)) net_take ?es (newZipPackThread [])"
  have m: "\<forall>p. TraceZipMinSize (zconf1 1) \<le> int (length (WritePack zenv1 p))" by (simp add: zenv1_def zconf1_def)
  have "batches_of (wire ?s @ outs ?s) \<noteq> []"
    by (simp add: zenv1_def zconf1_def newZipPackThread_def profile_eq pack_Add_def pack_run_def pack_append_def WriteBuf_def
        pack_sendAndClear_def pack_doZip_def NewZipPack_def BytesBuf_def ResetBuf_def Let_def)
  with profile_batches_conserve [OF zenv1_laws m _ refl, of "[]" ?es] show ?thesis by fastforce
qed



text \<open>A batch below the minimum size of compression is overwritten while it waits for the network. It is sent as the
  bytes of the buffer itself, which is then reset; when the next pack fits the buffer and is appended before the
  sender serialises the batch, the batch that goes out starts with the bytes of that pack.\<close>
theorem unzipped_batch_overwritten:
  assumes "wf_buf s" and "outs s = []" and "0 < blen (buffer s)" and "int (length (contents s)) < TraceZipMinSize conf"
    and "length (WritePack E p) \<le> bcap (buffer s)" and "int (length (WritePack E p)) < TraceZipMaxBufferSize conf"
    and s': "s' = net_take (pack_append E conf t' n' p (pack_sendAndClear E conf t n s))"
  shows "\<exists>z. batches_of (wire s') = batches_of (wire s) @ [z] \<and> RecordCount z = packCount s \<and> Status z = 0 \<and>
     Records z = Own (take (length (contents s)) (WritePack E p @ drop (length (WritePack E p)) (arrays s (barr (buffer s)))))"
proof -
  have c: "length (contents s) = blen (buffer s)" using assms(1) by (rule length_contents)
  show ?thesis
    using assms(2-6) c unfolding s'
    by (simp add: pack_sendAndClear_def pack_append_def pack_doZip_def NewZipPack_def WriteBuf_def ResetBuf_def BytesBuf_def contents_def
        net_take_def freeze_def Let_def)
qed

lemma zenv1_fields:
  "WritePack zenv1 p = word_of_nat (length p) # p" "TraceZipMinSize (zconf1 m) = m" "TraceZipMaxBufferSize (zconf1 m) = 1000"
  by (simp_all add: zenv1_def zconf1_def)

theorem unzipped_batch_overwritten_witness:
  "\<exists>z. batches_of (wire (net_take (pack_append zenv1 (zconf1 100) 2 2 [7, 7] (pack_sendAndClear zenv1 (zconf1 100) 1 1
       (pack_append zenv1 (zconf1 100) 0 0 [1, 2, 3] (newZipPackThread [])))))) = [z] \<and>
     RecordCount z = 1 \<and> Status z = 0 \<and> Records z = Own [2, 7, 7, 3]"
proof -
  let ?s = "pack_append zenv1 (zconf1 100) 0 0 [1, 2, 3] (newZipPackThread [])"
  have s: "buffer ?s = \<lparr>barr = Suc 0, bcap = 64, blen = 4\<rparr>" "arrays ?s (Suc 0) = [3, 1, 2, 3] @ replicate 60 0" "fresh ?s = 2" "outs ?s = []" "wire ?s = []"
    "packCount ?s = 1"
    by (simp_all add: pack_append_def zenv1_def zconf1_def newZipPackThread_def WriteBuf_def Let_def)
  have "wf_buf ?s" "contents ?s = [3, 1, 2, 3]" by (simp_all add: wf_buf_def contents_def s)
  then have "\<exists>z. batches_of (wire (net_take (pack_append zenv1 (zconf1 100) 2 2 [7, 7] (pack_sendAndClear zenv1 (zconf1 100) 1 1 ?s)))) =
      batches_of (wire ?s) @ [z] \<and> RecordCount z = packCount ?s \<and> Status z = 0 \<and>
      Records z = Own (take (length (contents ?s)) (WritePack zenv1 [7, 7] @ drop (length (WritePack zenv1 [7, 7])) (arrays ?s (barr (buffer ?s)))))"
    by (intro unzipped_batch_overwritten) (simp_all add: s zenv1_fields)
  then show ?thesis using \<open>contents ?s = [3, 1, 2, 3]\<close> by (simp add: s zenv1_fields)
qed

text \<open>The same thread with a sender that takes every pack before the next operation loses nothing, whatever the size of
  the batches.\<close>

lemma prompt_batches_conserve:
  assumes "zip_laws items E" and "items q = []"
    and s: "s = zip_exec (\<lambda>p s. net_take (pack_Add E p s)) (\<lambda>t n s. net_take (pack_run E conf t n s)) net_take es (newZipPackThread q)"
  shows "\<exists>sent inHand accepted. added es \<in> shuffles accepted (directs_of (wire s)) \<and> accepted = concat sent @ inHand @ items (Queue s) \<and>
     list_all2 (carries E (TraceZipMinSize conf)) sent (batches_of (wire s)) \<and> contents s = records E inHand"
proof -
  have "prompt_rel True items E (TraceZipMinSize conf) (newZipPackThread q) \<lparr>waiting = [], held = [], finished = [], refused = []\<rparr>"
    using assms(1,2) by (simp add: prompt_rel_def new_rel newZipPackThread_def)
  from prompt_packs.exec_conserves [OF this, of es] obtain a acc where
    "prompt_rel True items E (TraceZipMinSize conf) s a" "added es \<in> shuffles acc (refused a)" "accepted_packs a = acc"
    unfolding s by (auto simp: accepted_packs_def)
  then show ?thesis
    by - (rule exI [of _ "finished a"], rule exI [of _ "held a"], rule exI [of _ acc], auto simp: prompt_rel_def zip_rel_def accepted_packs_def)
qed

text \<open>The log thread loses exactly the packs its queue refuses.\<close>

lemma log_batches_conserve:
  assumes "zip_laws items E" and "\<forall>p. LogSinkZipMinSize conf \<le> int (length (WritePack E p))" and "items q = []"
    and s: "s = zip_exec (proxy_Add E) (\<lambda>t n. proxy_run E conf t) net_take es (newZipSendProxyThread q)"
  shows "\<exists>sent inHand accepted dropped. added es \<in> shuffles accepted dropped \<and> accepted = concat sent @ inHand @ items (Queue s) \<and>
     list_all2 (carries E (LogSinkZipMinSize conf)) sent (batches_of (wire s @ outs s)) \<and> directs_of (wire s @ outs s) = []"
proof -
  have "zipped_rel False items E (LogSinkZipMinSize conf) (newZipSendProxyThread q) \<lparr>waiting = [], held = [], finished = [], refused = []\<rparr>"
    using assms(1-3) by (simp add: zipped_rel_def owned_def new_rel newZipSendProxyThread_def)
  from zipped_logs.exec_conserves [OF this, of es] obtain a acc ref where
    a: "zipped_rel False items E (LogSinkZipMinSize conf) s a" "added es \<in> shuffles acc ref" "accepted_packs a = acc"
    unfolding s by (auto simp: accepted_packs_def)
  moreover have "batches_of (map (freeze (arrays s)) (outs s)) = batches_of (outs s)" using a(1) by (simp add: zipped_rel_def freeze_owned)
  ultimately show ?thesis
    by (intro exI [of _ "finished a"] exI [of _ "held a"] exI [of _ acc] exI [of _ ref]) (simp add: zipped_rel_def zip_rel_def accepted_packs_def)
qed

end
