(* ===== verification/Net_Session.thy ===== *)
theory Net_Session
  imports Secure
begin

text \<open>
  The connection to the collection server: the buffered writer and the frames of a session, the handshake, the retry
  queue that is sent again after a reconnection (\<^verbatim>\<open>agent/net/TcpSession.go\<close>), one turn of the sender
  (\<^verbatim>\<open>agent/net/Sender.go\<close>) and one of the receiver (\<^verbatim>\<open>agent/net/Receiver.go\<close>), and the choice of the
  encryption flag for each kind of pack (\<^verbatim>\<open>agent/agent/data/DataPack.go\<close>).

  A connection is the list of the bytes that have left the machine and the faults it will show: each write to it
  consumes one element of \<open>faults\<close>, \<open>None\<close> for success and \<open>Some k\<close> for an error after \<open>k\<close> bytes. \<^verbatim>\<open>bufio.Writer\<close> is
  modelled from the standard library. The number formats and the serialiser of packs (golib) are the parameters
  \<open>net_lib\<close>, with the laws \<open>net_laws\<close>; the cipher is the one of \<open>Secure\<close>.
\<close>

unbundle bit_operations_syntax

subsection \<open>Flags\<close>

definition NET_SECURE_HIDE :: byte where "NET_SECURE_HIDE = 0x01"
definition NET_SECURE_CYPHER :: byte where "NET_SECURE_CYPHER = 0x02"
definition NET_TIME_SYNC :: byte where "NET_TIME_SYNC = 0xfe"
definition NET_KEY_RESET :: byte where "NET_KEY_RESET = 0xff"
definition NET_KEY_EXTENSION :: byte where "NET_KEY_EXTENSION = 0xfd"
definition NETSRC_AGENT_JAVA_EMBED :: byte where "NETSRC_AGENT_JAVA_EMBED = 1"

definition GetSecureMask :: "byte \<Rightarrow> byte" where
  "GetSecureMask code = (code AND NET_SECURE_HIDE) OR (code AND NET_SECURE_CYPHER)"

subsection \<open>A connection and its buffered writer\<close>

record conn =
  sent :: "byte list"
  faults :: "nat option list"

record bufio =
  bsize :: nat
  bbuf :: "byte list"
  berr :: bool

text \<open>A write to the connection returns the number of bytes written and whether it failed.\<close>

definition connWrite :: "byte list \<Rightarrow> conn \<Rightarrow> nat \<times> bool \<times> conn" where
  "connWrite b c =
     (case faults c of
        [] \<Rightarrow> (length b, False, c\<lparr>sent := sent c @ b\<rparr>)
      | None # fs \<Rightarrow> (length b, False, \<lparr>sent = sent c @ b, faults = fs\<rparr>)
      | Some k # fs \<Rightarrow> (min k (length b), True, \<lparr>sent = sent c @ take k b, faults = fs\<rparr>))"

definition bufFlush :: "bufio \<times> conn \<Rightarrow> bufio \<times> conn" where
  "bufFlush = (\<lambda>(w, c).
     if berr w \<or> bbuf w = [] then (w, c)
     else (let (n, err, c') = connWrite (bbuf w) c in
           if err then (w\<lparr>bbuf := drop n (bbuf w), berr := True\<rparr>, c') else (w\<lparr>bbuf := []\<rparr>, c')))"

text \<open>The loop of \<open>bufio.Writer.Write\<close>: while the rest does not fit, write it directly when nothing is buffered,
  else fill the buffer and flush. The result is the rest that did not go anywhere.\<close>

function bufLoop :: "byte list \<Rightarrow> bufio \<times> conn \<Rightarrow> byte list \<times> bufio \<times> conn" where
  "bufLoop p (w, c) =
     (if length p \<le> bsize w - length (bbuf w) \<or> berr w then (p, w, c)
      else if bbuf w = [] then
        (let (n, err, c') = connWrite p c in bufLoop (drop n p) (w\<lparr>berr := err\<rparr>, c'))
      else
        (let n = bsize w - length (bbuf w) in bufLoop (drop n p) (bufFlush (w\<lparr>bbuf := bbuf w @ take n p\<rparr>, c))))"
  by pat_completeness auto
termination
proof (relation "measure (\<lambda>(p, w, c). if berr w then 0 else Suc (2 * length p + (if bbuf w = [] then 0 else 1)))", goal_cases)
  case (2 p w c n1 r n2 err)
  then show ?case by (auto simp: connWrite_def split: list.splits option.splits)
next
  case (3 p w c n)
  then show ?case by (auto simp: bufFlush_def connWrite_def split: list.splits option.splits)
qed simp

declare bufLoop.simps [simp del]

text \<open>\<open>bufWrite\<close> returns the number of bytes accepted, whether it failed, and the new writer and connection.\<close>

definition bufWrite :: "byte list \<Rightarrow> bufio \<times> conn \<Rightarrow> nat \<times> bool \<times> bufio \<times> conn" where
  "bufWrite p s =
     (let (rest, w, c) = bufLoop p s in
      if berr w then (length p - length rest, True, w, c)
      else (length p, False, w\<lparr>bbuf := bbuf w @ rest\<rparr>, c))"

lemma bufWrite_all: "bufWrite p s = (n, False, t) \<Longrightarrow> n = length p"
  by (auto simp: bufWrite_def split: prod.splits if_splits)

subsection \<open>Frames\<close>

record 'p net_lib =
  wLong :: "int \<Rightarrow> byte list"
  wInt :: "int \<Rightarrow> byte list"
  wText :: "string \<Rightarrow> byte list"
  wIntBytes :: "byte list \<Rightarrow> byte list"
  rLong :: "byte list \<Rightarrow> (int \<times> byte list) option"
  rInt :: "byte list \<Rightarrow> (int \<times> byte list) option"
  rBlob :: "byte list \<Rightarrow> (byte list \<times> byte list) option"
  rIntBytes :: "nat \<Rightarrow> byte list \<Rightarrow> (byte list \<times> byte list) option"
  ToBytesPack :: "'p \<Rightarrow> byte list"
  ToBytesPackECB :: "'p \<Rightarrow> nat \<Rightarrow> byte list"
  ToPack :: "byte list \<Rightarrow> 'p go"
  rText :: "byte list \<Rightarrow> (string \<times> byte list) option"
  bToInt :: "byte list \<Rightarrow> int"
  toBytesInt :: "int \<Rightarrow> byte list"
  newAes :: "byte list \<Rightarrow> cipher"

definition net_laws :: "'p net_lib \<Rightarrow> bool" where
  "net_laws L \<longleftrightarrow>
     (\<forall>x r. - (2 ^ 63) \<le> x \<longrightarrow> x < 2 ^ 63 \<longrightarrow> rLong L (wLong L x @ r) = Some (x, r)) \<and>
     (\<forall>x r. - (2 ^ 31) \<le> x \<longrightarrow> x < 2 ^ 31 \<longrightarrow> rInt L (wInt L x @ r) = Some (x, r)) \<and>
     (\<forall>b n r. length b \<le> n \<longrightarrow> rIntBytes L n (wIntBytes L b @ r) = Some (b, r))"

text \<open>The identity of the agent and the keys of the session.\<close>

record SecurityMaster =
  PCODE :: int
  OID :: int
  ONAME :: string
  IP :: int
  mCypher :: Cypher
  PUBLIC_IP :: int

record SecuritySession =
  TRANSFER_KEY :: int
  SECURE_KEY :: "byte list"
  HIDE_KEY :: int
  sCypher :: "Cypher option"

definition frame :: "'p net_lib \<Rightarrow> SecurityMaster \<Rightarrow> SecuritySession \<Rightarrow> byte \<Rightarrow> byte list \<Rightarrow> byte list" where
  "frame L secu ses code b =
     [NETSRC_AGENT_JAVA_EMBED] @ [code] @ wLong L (PCODE secu) @ wInt L (OID secu) @ wInt L (TRANSFER_KEY ses) @ wIntBytes L b"

record 'p TcpSend =
  flag :: byte
  pack :: 'p
  flush :: bool

record TcpReturn =
  Code :: byte
  Data :: "byte list"
  TransferKey :: int

definition empty :: TcpReturn where
  "empty = \<lparr>Code = 0, Data = [], TransferKey = 0\<rparr>"

record net_conf =
  CypherLevel :: int
  NetSendMaxBytes :: int
  NetFailoverRetrySendDataEnabled :: bool
  TimeSyncIntervalMs :: int

subsection \<open>The session\<close>

text \<open>\<open>client\<close> tells whether the connection is not nil; \<open>wr\<close> is the writer and the connection it writes to; \<open>din\<close>
  the bytes still to be read.\<close>

record 'p TcpSession =
  client :: bool
  wr :: "(bufio \<times> conn) option"
  din :: "byte list"
  dest :: int
  LastConnectedTime :: int
  RetryQueue :: "'p TcpSend list"

definition Close :: "'p TcpSession \<Rightarrow> 'p TcpSession" where
  "Close s = s\<lparr>client := False, LastConnectedTime := 0\<rparr>"

text \<open>\<open>Write\<close> calls the writer until every byte is accepted; a nil writer panics.\<close>

function Write_loop :: "byte list \<Rightarrow> nat \<Rightarrow> bufio \<times> conn \<Rightarrow> nat \<times> bool \<times> bufio \<times> conn" where
  "Write_loop sendbuf pos w =
     (if sendbuf = [] then (pos, False, w)
      else (let (n, err, w') = bufWrite sendbuf w in
            if err then (pos, True, w') else Write_loop (drop n sendbuf) (pos + n) w'))"
  by pat_completeness auto
termination
  by (relation "measure (\<lambda>(b, _). length b)") (auto dest: bufWrite_all [OF sym])

declare Write_loop.simps [simp del]

definition Write :: "byte list \<Rightarrow> 'p TcpSession \<Rightarrow> (nat \<times> bool \<times> 'p TcpSession) go" where
  "Write sendbuf s =
     (case wr s of
        None \<Rightarrow> if sendbuf = [] then Inr (0, False, s) else Inl NilDereference
      | Some w \<Rightarrow> (let (n, err, w') = Write_loop sendbuf 0 w in Inr (n, err, s\<lparr>wr := Some w'\<rparr>)))"

definition Flush :: "'p TcpSession \<Rightarrow> (nat \<times> bool \<times> 'p TcpSession) go" where
  "Flush s =
     (case wr s of
        None \<Rightarrow> Inl NilDereference
      | Some (w, c) \<Rightarrow>
          (let n = length (bbuf w); (w', c') = bufFlush (w, c) in
           Inr (if berr w' then (0, True, s\<lparr>wr := Some (w', c')\<rparr>) else (n, False, s\<lparr>wr := Some (w', c')\<rparr>))))"

text \<open>\<open>Send\<close>: \<open>deadline\<close> tells whether the write deadline could be set. A panic closes the session.\<close>

definition Send ::
  "'p net_lib \<Rightarrow> SecurityMaster \<Rightarrow> SecuritySession \<Rightarrow> bool \<Rightarrow> byte \<Rightarrow> byte list \<Rightarrow> bool \<Rightarrow> 'p TcpSession \<Rightarrow> bool \<times> 'p TcpSession" where
  "Send L secu ses deadline code b fl s =
     (if \<not> client s \<or> \<not> deadline then (False, s)
      else (case Write (frame L secu ses code b) s of
              Inl _ \<Rightarrow> (False, Close s)
            | Inr (n, err, s1) \<Rightarrow>
                if err then (False, Close s1)
                else if \<not> fl then (True, s1)
                else (case Flush s1 of
                        Inl _ \<Rightarrow> (False, Close s1)
                      | Inr (n, err, s2) \<Rightarrow> if err then (False, Close s2) else (True, s2\<lparr>RetryQueue := []\<rparr>))))"

text \<open>Reading a frame: a panic of the input stream closes the session.\<close>

definition READ_MAX :: nat where "READ_MAX = 8 * 1024 * 1024"

definition readFrame :: "'p net_lib \<Rightarrow> byte list \<Rightarrow> (byte \<times> int \<times> int \<times> int \<times> byte list \<times> byte list) option" where
  "readFrame L b =
     (case b of
        tt # code # r \<Rightarrow>
          Option.bind (rLong L r) (\<lambda>(pcode, r1).
          Option.bind (rInt L r1) (\<lambda>(oid, r2).
          Option.bind (rInt L r2) (\<lambda>(tkey, r3).
          Option.bind (rIntBytes L READ_MAX r3) (\<lambda>(d, r4).
          Some (code, pcode, oid, tkey, d, r4)))))
      | _ \<Rightarrow> None)"

definition Read :: "'p net_lib \<Rightarrow> SecurityMaster \<Rightarrow> 'p TcpSession \<Rightarrow> TcpReturn \<times> 'p TcpSession" where
  "Read L secu s =
     (if \<not> client s then (empty, s)
      else (case readFrame L (din s) of
              None \<Rightarrow> (empty, Close s)
            | Some (code, pcode, oid, tkey, d, rest) \<Rightarrow>
                (if pcode \<noteq> PCODE secu \<or> oid \<noteq> OID secu then empty else \<lparr>Code = code, Data = d, TransferKey = tkey\<rparr>,
                 s\<lparr>din := rest\<rparr>)))"

subsection \<open>The bytes of a pack\<close>

text \<open>What the sender writes for a pack, by the level of the session and the flag of the pack.\<close>

definition packBytes :: "'p net_lib \<Rightarrow> net_conf \<Rightarrow> SecuritySession \<Rightarrow> 'p TcpSend \<Rightarrow> byte list go" where
  "packBytes L conf ses p =
     (if CypherLevel conf = 0 then Inr (ToBytesPack L (pack p))
      else if GetSecureMask (flag p) = NET_SECURE_HIDE
      then (case sCypher ses of Some c \<Rightarrow> Hide c (ToBytesPack L (pack p)) | None \<Rightarrow> Inr (ToBytesPack L (pack p)))
      else if GetSecureMask (flag p) = NET_SECURE_CYPHER
      then (case sCypher ses of
              Some c \<Rightarrow> Inr (Cypher_Encrypt c (ToBytesPackECB L (pack p) (nat (goDiv (CypherLevel conf) 8))))
            | None \<Rightarrow> Inr (ToBytesPack L (pack p)))
      else Inr (ToBytesPack L (pack p)))"

text \<open>\<open>getEncryptData\<close> is meant to give the same bytes; in its last case the result is assigned to a new variable, and
  the function returns nil with the length. The third component tells whether the notice about a pack that is too
  big is queued.\<close>

definition getEncryptData :: "'p net_lib \<Rightarrow> net_conf \<Rightarrow> SecuritySession \<Rightarrow> 'p TcpSend \<Rightarrow> (int \<times> byte list \<times> bool) go" where
  "getEncryptData L conf ses p =
     (if CypherLevel conf \<noteq> 0 \<and> GetSecureMask (flag p) \<noteq> NET_SECURE_HIDE \<and> GetSecureMask (flag p) \<noteq> NET_SECURE_CYPHER
      then (let n = int (length (ToBytesPack L (pack p))) in Inr (n, [], n > NetSendMaxBytes conf))
      else bindGo (packBytes L conf ses p) (\<lambda>b. Inr (int (length b), b, int (length b) > NetSendMaxBytes conf)))"

text \<open>Sending the retry queue again. The first component is the result or the panic; the packs taken are gone in any case.\<close>

fun failover_loop ::
  "'p net_lib \<Rightarrow> net_conf \<Rightarrow> SecurityMaster \<Rightarrow> SecuritySession \<Rightarrow> 'p TcpSend list \<Rightarrow> 'p TcpSession \<Rightarrow> bool go \<times> 'p TcpSession" where
  "failover_loop L conf secu ses [] s = (Inr True, s)"
| "failover_loop L conf secu ses (p # ps) s =
     (let s0 = s\<lparr>RetryQueue := ps\<rparr> in
      case bindGo (getEncryptData L conf ses p) (\<lambda>(n, b, big). Write (frame L secu ses (flag p) b) s0) of
        Inl e \<Rightarrow> (Inl e, s0)
      | Inr (k, err, s1) \<Rightarrow> if err then (Inr False, s1) else failover_loop L conf secu ses ps s1)"

definition SendFailover ::
  "'p net_lib \<Rightarrow> net_conf \<Rightarrow> SecurityMaster \<Rightarrow> SecuritySession \<Rightarrow> 'p TcpSession \<Rightarrow> bool go \<times> 'p TcpSession" where
  "SendFailover L conf secu ses s =
     (if RetryQueue s = [] then (Inr True, s)
      else (case failover_loop L conf secu ses (RetryQueue s) s of
              (Inr True, s1) \<Rightarrow> (case Flush s1 of Inl e \<Rightarrow> (Inl e, s1) | Inr (n, err, s2) \<Rightarrow> (Inr (\<not> err), s2))
            | r \<Rightarrow> r))"

subsection \<open>The handshake\<close>

definition keyReset :: "'p net_lib \<Rightarrow> net_conf \<Rightarrow> SecurityMaster \<Rightarrow> byte list" where
  "keyReset L conf secu =
     (let msg0 = wText L ''hello'' @ wText L (ONAME secu) @ wInt L (IP secu);
          msg = (if CypherLevel conf > 0 then Cypher_Encrypt (mCypher secu) msg0 else msg0);
          code = (if CypherLevel conf = 128 then NET_KEY_RESET else NET_KEY_EXTENSION);
          trkey = (if CypherLevel conf = 128 \<or> CypherLevel conf = 0 then 0
                   else bToInt L [1, word_of_int (goDiv (CypherLevel conf) 8), 0, 0]) in
      [NETSRC_AGENT_JAVA_EMBED] @ [code] @ wLong L (PCODE secu) @ wInt L (OID secu) @ wInt L trkey @ wIntBytes L msg)"

definition keyResetToFowarder :: "'p net_lib \<Rightarrow> string \<Rightarrow> string \<Rightarrow> byte list" where
  "keyResetToFowarder L addr accessKey = [1] @ [0x93] @ wIntBytes L (wText L addr @ wText L accessKey)"

text \<open>Reading the answer: None stands for the panic of a short or damaged stream.\<close>

definition readKeyReset :: "'p net_lib \<Rightarrow> SecurityMaster \<Rightarrow> byte list \<Rightarrow> (byte list \<times> byte list) option" where
  "readKeyReset L secu b =
     (case b of
        _ # _ # r \<Rightarrow>
          Option.bind (rLong L r) (\<lambda>(pcode, r1).
          Option.bind (rInt L r1) (\<lambda>(oid, r2).
          Option.bind (rInt L r2) (\<lambda>(_, r3).
          Option.bind (rIntBytes L 1024 r3) (\<lambda>(d, r4).
          Some (if pcode \<noteq> PCODE secu \<or> oid \<noteq> OID secu then [] else d, r4)))))
      | _ \<Rightarrow> None)"

definition readKeyResetFromFowarder :: "'p net_lib \<Rightarrow> string \<Rightarrow> byte list \<Rightarrow> ((int \<times> string \<times> byte list) \<times> byte list) option" where
  "readKeyResetFromFowarder L localIp b =
     (case b of
        _ # netFlag # r \<Rightarrow>
          Option.bind (rIntBytes L 2048 r) (\<lambda>(msg, rest).
          Option.bind (rLong L msg) (\<lambda>(pcode, m1).
          Option.bind (if netFlag = 0x92 then rText L m1 else Some (localIp, m1)) (\<lambda>(ip, m2).
          Option.bind (rIntBytes L 1024 m2) (\<lambda>(d, _). Some ((pcode, ip, d), rest)))))
      | _ \<Rightarrow> None)"

text \<open>\<open>UpdateNetCypherKey\<close> assigns the fields one by one, so that a panic leaves the earlier ones assigned; the last
  component tells whether it panicked. \<open>spare\<close> is the spare capacity of the slice it decrypts.\<close>

definition UpdateNetCypherKey ::
  "'p net_lib \<Rightarrow> net_conf \<Rightarrow> byte list \<Rightarrow> byte list \<Rightarrow> SecurityMaster \<Rightarrow> SecuritySession \<Rightarrow> SecurityMaster \<times> SecuritySession \<times> bool" where
  "UpdateNetCypherKey L conf spare d0 secu ses =
     (let d = (if CypherLevel conf > 0 then Cypher_Decrypt (mCypher secu) spare d0 else d0) in
      case rInt L d of None \<Rightarrow> (secu, ses, True)
      | Some (k, r1) \<Rightarrow> (let ses1 = ses\<lparr>TRANSFER_KEY := k\<rparr> in
          case rBlob L r1 of None \<Rightarrow> (secu, ses1, True)
          | Some (blob, r2) \<Rightarrow> (let ses2 = ses1\<lparr>SECURE_KEY := blob\<rparr> in
              case rInt L r2 of None \<Rightarrow> (secu, ses2, True)
              | Some (h, r3) \<Rightarrow>
                  (let ses3 = ses2\<lparr>HIDE_KEY := h, sCypher := Some (NewCypher (newAes L) (toBytesInt L) (nat (CypherLevel conf)) blob h)\<rparr> in
                   case rInt L r3 of None \<Rightarrow> (secu, ses3, True) | Some (ip, r4) \<Rightarrow> (secu\<lparr>PUBLIC_IP := ip\<rparr>, ses3, False)))))"

definition UpdateLicense :: "'p net_lib \<Rightarrow> net_conf \<Rightarrow> int \<Rightarrow> byte list \<Rightarrow> SecurityMaster \<Rightarrow> SecurityMaster" where
  "UpdateLicense L conf pcode security_key secu =
     secu\<lparr>PCODE := pcode, mCypher := NewCypher (newAes L) (toBytesInt L) (nat (CypherLevel conf)) security_key 0\<rparr>"

text \<open>
  What \<open>open\<close> meets: the settings, whether the connection could be dialled, the new connection and the bytes that will
  come from it, and \<open>decide\<close>, the choice of name and id from the local address (\<open>DecideAgentOnameOid\<close>, None when the
  address has no part before a colon).
\<close>

record dial_env =
  AccessKey :: string
  hosts :: "string list"
  FowarderEnabled :: bool
  dialed :: bool
  newConn :: conn
  reply :: "byte list"
  remoteAddr :: "int \<Rightarrow> string"
  localAddr :: string
  decide :: "string \<Rightarrow> (string \<times> int \<times> int) option"
  NetWriteBufferSize :: int
  spareCap :: "byte list"
  dialTime :: int

text \<open>The part of \<open>open\<close> after the identity is known: the handshake, the new writer and the retry queue.\<close>

definition openSession ::
  "'p net_lib \<Rightarrow> net_conf \<Rightarrow> dial_env \<Rightarrow> conn \<Rightarrow> byte list \<Rightarrow> SecurityMaster \<Rightarrow> SecuritySession \<Rightarrow> 'p TcpSession \<Rightarrow>
   bool \<times> SecurityMaster \<times> SecuritySession \<times> 'p TcpSession" where
  "openSession L conf D c inp secu ses s =
     (let (_, _, c1) = connWrite (keyReset L conf secu) c in
      case readKeyReset L secu inp of None \<Rightarrow> (False, secu, ses, Close (s\<lparr>din := inp\<rparr>))
      | Some (d, inp1) \<Rightarrow>
          (case UpdateNetCypherKey L conf (spareCap D) d secu ses of (secu1, ses1, panicked) \<Rightarrow>
           if panicked then (False, secu1, ses1, Close (s\<lparr>din := inp1\<rparr>))
           else (let size = (if NetWriteBufferSize D \<le> 0 then 4096 else nat (NetWriteBufferSize D));
                     s1 = s\<lparr>din := inp1, wr := Some (\<lparr>bsize = size, bbuf = [], berr = False\<rparr>, c1), LastConnectedTime := dialTime D\<rparr> in
                 case (if NetFailoverRetrySendDataEnabled conf then SendFailover L conf secu1 ses1 s1 else (Inr True, s1)) of
                   (Inl _, s2) \<Rightarrow> (False, secu1, ses1, Close s2)
                 | (Inr _, s2) \<Rightarrow> (True, secu1, ses1, s2\<lparr>RetryQueue := [], client := True\<rparr>))))"

definition session_open ::
  "'p net_lib \<Rightarrow> net_conf \<Rightarrow> dial_env \<Rightarrow> SecurityMaster \<Rightarrow> SecuritySession \<Rightarrow> 'p TcpSession \<Rightarrow>
   bool \<times> SecurityMaster \<times> SecuritySession \<times> 'p TcpSession" where
  "session_open L conf D secu ses s =
     (if client s then (True, secu, ses, s)
      else if TrimSpace (AccessKey D) = [] then (False, secu, ses, s)
      else if hosts D = [] then (False, secu, ses, Close s)
      else (let dst = (if int (length (hosts D)) \<le> i64 (dest s + 1) then 0 else i64 (dest s + 1)); s0 = s\<lparr>dest := dst\<rparr> in
        if FowarderEnabled D
        then (if \<not> dialed D then (False, secu, ses, Close s0)
              else (let (_, _, c1) = connWrite (keyResetToFowarder L (remoteAddr D dst) (AccessKey D)) (newConn D) in
                    case readKeyResetFromFowarder L (localAddr D) (reply D) of
                      None \<Rightarrow> (False, secu, ses, Close (s0\<lparr>din := reply D\<rparr>))
                    | Some ((pcode, myIP, d), inp) \<Rightarrow>
                        (let secu1 = UpdateLicense L conf pcode d secu; s1 = s0\<lparr>din := inp\<rparr> in
                         if pcode = 0 then (False, secu1, ses, Close s1)
                         else (case decide D myIP of
                                 None \<Rightarrow> (False, secu1, ses, Close s1)
                               | Some (nm, oid, ip) \<Rightarrow>
                                   openSession L conf D c1 inp (secu1\<lparr>ONAME := nm, OID := oid, IP := ip\<rparr>) ses s1))))
        else if PCODE secu = 0 \<or> \<not> dialed D then (False, secu, ses, Close s0)
        else (case decide D (localAddr D) of
                None \<Rightarrow> (False, secu, ses, Close s0)
              | Some (nm, oid, ip) \<Rightarrow>
                  openSession L conf D (newConn D) (reply D) (secu\<lparr>ONAME := nm, OID := oid, IP := ip\<rparr>) ses s0)))"

subsection \<open>One turn of the sender and one of the receiver\<close>

record sender =
  cypher_level :: int
  last_time_sync :: int

text \<open>
  The turn of \<open>runSend\<close> that took the pack \<open>p\<close> from the queue, on an open session (it waits for the session
  before). \<open>putForce\<close> is the bounded retry queue of golib. The last component tells whether the notice about a pack
  that is too big is queued.
\<close>

definition send_turn ::
  "'p net_lib \<Rightarrow> ('p TcpSend \<Rightarrow> 'p TcpSend list \<Rightarrow> 'p TcpSend list) \<Rightarrow> net_conf \<Rightarrow> SecurityMaster \<Rightarrow> SecuritySession \<Rightarrow> (nat \<Rightarrow> bool) \<Rightarrow>
   int \<Rightarrow> 'p TcpSend \<Rightarrow> sender \<times> 'p TcpSession \<Rightarrow> (sender \<times> 'p TcpSession) \<times> bool" where
  "send_turn L putForce conf secu ses deadline clk p = (\<lambda>(sd, s).
     if cypher_level sd \<noteq> CypherLevel conf then ((sd\<lparr>cypher_level := CypherLevel conf\<rparr>, Close s), False)
     else (let (sd1, s1) =
             (if clk > i64 (last_time_sync sd + TimeSyncIntervalMs conf)
              then (sd\<lparr>last_time_sync := clk\<rparr>, snd (Send L secu ses (deadline 0) NET_TIME_SYNC (wLong L clk) True s))
              else (sd, s)) in
           case packBytes L conf ses p of
             Inl _ \<Rightarrow> ((sd1, Close s1), False)
           | Inr b \<Rightarrow>
               (let s2 = (if NetFailoverRetrySendDataEnabled conf then s1\<lparr>RetryQueue := putForce p (RetryQueue s1)\<rparr> else s1);
                    (_, s3) = Send L secu ses (deadline 1) (flag p) b (flush p) s2 in
                ((sd1, s3), i32 (int (length b)) > NetSendMaxBytes conf))))"

datatype 'p received = Nothing | SetServerTime int | Deliver 'p

text \<open>A turn of the receiver: \<open>clk\<close> is the clock when the answer to a time request arrives.\<close>

definition recv_turn ::
  "'p net_lib \<Rightarrow> net_conf \<Rightarrow> SecurityMaster \<Rightarrow> SecuritySession \<Rightarrow> byte list \<Rightarrow> int \<Rightarrow> 'p TcpSession \<Rightarrow> 'p received \<times> 'p TcpSession" where
  "recv_turn L conf secu ses spare clk s =
     (let (out, s1) = Read L secu s;
          deliver = (\<lambda>d. if d = [] then Nothing else (case ToPack L d of Inl _ \<Rightarrow> Nothing | Inr p \<Rightarrow> Deliver p)) in
      (if Code out = NET_TIME_SYNC
       then (case Option.bind (rLong L (Data out)) (\<lambda>(prev, r). map_option (\<lambda>(t, _). (prev, t)) (rLong L r)) of
               None \<Rightarrow> Nothing
             | Some (prevAgentTime, serverTime) \<Rightarrow> if i64 (clk - prevAgentTime) < 500 then SetServerTime serverTime else Nothing)
       else if CypherLevel conf > 0
       then (if TransferKey out \<noteq> TRANSFER_KEY ses then Nothing
             else if GetSecureMask (Code out) = NET_SECURE_HIDE
             then (case sCypher ses of
                     None \<Rightarrow> deliver (Data out)
                   | Some c \<Rightarrow> (case Hide c (Data out) of Inl _ \<Rightarrow> Nothing | Inr d \<Rightarrow> deliver d))
             else if GetSecureMask (Code out) = NET_SECURE_CYPHER
             then (case sCypher ses of None \<Rightarrow> deliver (Data out) | Some c \<Rightarrow> deliver (Cypher_Decrypt c spare (Data out)))
             else Nothing)
       else deliver (Data out), s1))"

subsection \<open>Routing of packs (package data)\<close>

text \<open>Which of the two queues a pack is put into, with which flag and flush.\<close>

datatype route = Normal byte bool | LowPriority byte bool

definition data_SendFlush :: "int \<Rightarrow> bool \<Rightarrow> route" where
  "data_SendFlush encryptLevel fl =
     (if encryptLevel = 1 then Normal 0 fl else if encryptLevel = 2 then Normal NET_SECURE_HIDE fl else Normal NET_SECURE_CYPHER fl)"

definition data_Sent :: "int \<Rightarrow> route" where
  "data_Sent encryptLevel = (if encryptLevel = 1 then Normal NET_SECURE_HIDE True else Normal NET_SECURE_CYPHER True)"

definition data_SendProfile :: "int \<Rightarrow> route" where
  "data_SendProfile encryptLevel =
     (if encryptLevel = 1 then LowPriority 0 False
      else if encryptLevel = 2 then LowPriority NET_SECURE_HIDE False else LowPriority NET_SECURE_CYPHER False)"

definition data_SendEvent :: "int \<Rightarrow> route" where
  "data_SendEvent encryptLevel = (if encryptLevel = 1 then Normal NET_SECURE_HIDE True else Normal NET_SECURE_CYPHER True)"

definition data_SendSecureFlush :: "int \<Rightarrow> bool \<Rightarrow> route" where
  "data_SendSecureFlush encryptLevel fl =
     (if encryptLevel = 1 then Normal NET_SECURE_HIDE fl else LowPriority NET_SECURE_CYPHER fl)"

definition data_SendHideFlush :: "int \<Rightarrow> bool \<Rightarrow> route" where
  "data_SendHideFlush encryptLevel fl =
     (if encryptLevel = 1 \<or> encryptLevel = 2 then Normal NET_SECURE_HIDE fl else LowPriority NET_SECURE_CYPHER fl)"

definition data_SendTagCount :: "int \<Rightarrow> bool \<Rightarrow> route" where
  "data_SendTagCount encryptLevel fl =
     (if encryptLevel = 1 then Normal 0 fl else if encryptLevel = 2 then Normal NET_SECURE_HIDE fl else Normal NET_SECURE_CYPHER fl)"

subsection \<open>The buffered writer loses nothing\<close>

definition written :: "bufio \<times> conn \<Rightarrow> byte list" where
  "written = (\<lambda>(w, c). sent c @ bbuf w)"

definition wf_wr :: "bufio \<times> conn \<Rightarrow> bool" where
  "wf_wr = (\<lambda>(w, c). length (bbuf w) \<le> bsize w)"

lemma connWrite_ok: "connWrite b c = (n, False, c') \<Longrightarrow> n = length b \<and> sent c' = sent c @ b"
  by (auto simp: connWrite_def split: list.splits option.splits)

lemma connWrite_err: "connWrite b c = (n, True, c') \<Longrightarrow> n \<le> length b \<and> sent c' = sent c @ take n b"
  by (auto simp: connWrite_def min_def split: list.splits option.splits)

lemma bufFlush_written [simp]: "written (bufFlush s) = written s"
proof (cases s)
  case (Pair w c)
  obtain n err c' where w: "connWrite (bbuf w) c = (n, err, c')" using prod_cases3 by blast
  show ?thesis
  proof (cases err)
    case True
    with connWrite_err [of "bbuf w" c n c'] w Pair show ?thesis by (simp add: bufFlush_def written_def)
  next
    case False
    with connWrite_ok [of "bbuf w" c n c'] w Pair show ?thesis by (simp add: bufFlush_def written_def)
  qed
qed

lemma bufFlush_ok: "\<not> berr (fst (bufFlush s)) \<Longrightarrow> bbuf (fst (bufFlush s)) = [] \<and> sent (snd (bufFlush s)) = written s"
  using bufFlush_written [of s] by (cases s) (auto simp: bufFlush_def written_def split: prod.splits if_splits)

lemma bufFlush_wf [simp]: "wf_wr s \<Longrightarrow> wf_wr (bufFlush s)" "bsize (fst (bufFlush s)) = bsize (fst s)"
  by (cases s; auto simp: bufFlush_def wf_wr_def split: prod.splits)+

lemma bufLoop_written: "wf_wr s \<Longrightarrow> bufLoop p s = (rest, t) \<Longrightarrow> written t @ rest = written s @ p \<and> wf_wr t \<and> bsize (fst t) = bsize (fst s) \<and>
    length rest \<le> length p \<and> (berr (fst t) \<or> length rest \<le> bsize (fst t) - length (bbuf (fst t)))"
proof (induction p s rule: bufLoop.induct)
  case (1 p w c)
  show ?case
  proof (cases "length p \<le> bsize w - length (bbuf w) \<or> berr w")
    case True
    with "1.prems" show ?thesis by (auto simp: bufLoop.simps [of p w c])
  next
    case go: False
    show ?thesis
    proof (cases "bbuf w = []")
      case True
      obtain n err c' where cw: "connWrite p c = (n, err, c')" using prod_cases3 by blast
      have st: "bufLoop (drop n p) (w\<lparr>berr := err\<rparr>, c') = (rest, t)" using "1.prems"(2) go True cw by (simp add: bufLoop.simps [of p w c])
      have wf: "wf_wr (w\<lparr>berr := err\<rparr>, c')" using True by (simp add: wf_wr_def)
      have "sent c' = sent c @ take n p"
        using cw connWrite_ok [of p c n c'] connWrite_err [of p c n c'] by (cases err) auto
      with "1.IH"(1) [OF go True cw [symmetric] refl refl wf st] True show ?thesis by (auto simp: written_def)
    next
      case False
      let ?n = "bsize w - length (bbuf w)" and ?s = "(w\<lparr>bbuf := bbuf w @ take (bsize w - length (bbuf w)) p\<rparr>, c)"
      have st: "bufLoop (drop ?n p) (bufFlush ?s) = (rest, t)" using "1.prems"(2) go False by (simp add: bufLoop.simps [of p w c] Let_def)
      have wf: "wf_wr (bufFlush ?s)" using "1.prems"(1) by (intro bufFlush_wf) (auto simp: wf_wr_def)
      have "written (bufFlush ?s) = written (w, c) @ take ?n p" unfolding bufFlush_written by (simp add: written_def)
      with "1.IH"(2) [OF go False refl wf st] show ?thesis by auto
    qed
  qed
qed

lemma Write_loop_written:
  assumes "wf_wr w" and "Write_loop b pos w = (n, err, w')"
  shows "wf_wr w' \<and> (\<not> err \<longrightarrow> n = pos + length b \<and> written w' = written w @ b) \<and>
     (err \<longrightarrow> (\<exists>k. written w' = written w @ take k b))"
proof (cases "b = []")
  case True
  with assms show ?thesis by (auto simp: Write_loop.simps)
next
  case False
  obtain rest w1 c1 where l: "bufLoop b w = (rest, w1, c1)" using prod_cases3 by blast
  note f = bufLoop_written [OF assms(1) l]
  show ?thesis
  proof (cases "berr w1")
    case True
    have "length (written (w1, c1)) + length rest = length (written w) + length b"
      using f by (metis length_append)
    then have "length (written w) \<le> length (written (w1, c1))" using f by simp
    moreover have "written (w1, c1) = take (length (written (w1, c1))) (written w @ b)" using f by (metis append_eq_conv_conj)
    ultimately have "\<exists>k. written (w1, c1) = written w @ take k b" by (metis take_all_iff take_append)
    with False assms(2) l f True show ?thesis by (auto simp: Write_loop.simps [of b] bufWrite_def)
  next
    case ok: False
    with False assms(2) l f show ?thesis
      by (auto simp: Write_loop.simps [of b] Write_loop.simps [of "[]"] bufWrite_def written_def wf_wr_def)
  qed
qed

subsection \<open>A connection without faults\<close>

definition healthy :: "bufio \<times> conn \<Rightarrow> bool" where
  "healthy = (\<lambda>(w, c). \<not> berr w \<and> faults c = [])"

lemma healthy_flush [simp]: "healthy s \<Longrightarrow> healthy (bufFlush s)"
  by (cases s) (auto simp: healthy_def bufFlush_def connWrite_def)

lemma healthy_loop: "healthy s \<Longrightarrow> bufLoop p s = (rest, t) \<Longrightarrow> healthy t"
proof (induction p s rule: bufLoop.induct)
  case (1 p w c)
  show ?case
  proof (cases "length p \<le> bsize w - length (bbuf w) \<or> berr w")
    case True
    with "1.prems" show ?thesis by (auto simp: bufLoop.simps [of p w c])
  next
    case go: False
    show ?thesis
    proof (cases "bbuf w = []")
      case True
      have cw: "connWrite p c = (length p, False, c\<lparr>sent := sent c @ p\<rparr>)" using "1.prems"(1) by (simp add: healthy_def connWrite_def)
      have st: "bufLoop (drop (length p) p) (w\<lparr>berr := False\<rparr>, c\<lparr>sent := sent c @ p\<rparr>) = (rest, t)"
        using "1.prems"(2) go True cw by (simp add: bufLoop.simps [of p w c])
      have h: "healthy (w\<lparr>berr := False\<rparr>, c\<lparr>sent := sent c @ p\<rparr>)" using "1.prems"(1) by (simp add: healthy_def)
      show ?thesis by (rule "1.IH"(1) [OF go True cw [symmetric] refl refl h st])
    next
      case False
      let ?s = "(w\<lparr>bbuf := bbuf w @ take (bsize w - length (bbuf w)) p\<rparr>, c)"
      have st: "bufLoop (drop (bsize w - length (bbuf w)) p) (bufFlush ?s) = (rest, t)"
        using "1.prems"(2) go False by (simp add: bufLoop.simps [of p w c] Let_def)
      have h: "healthy (bufFlush ?s)" using "1.prems"(1) by (intro healthy_flush) (simp add: healthy_def)
      show ?thesis by (rule "1.IH"(2) [OF go False refl h st])
    qed
  qed
qed

lemma healthy_Write:
  assumes "healthy w" and "wf_wr w" and "Write_loop b pos w = (n, err, w')"
  shows "\<not> err \<and> healthy w' \<and> wf_wr w' \<and> written w' = written w @ b"
proof (cases "b = []")
  case True
  with assms show ?thesis by (auto simp: Write_loop.simps)
next
  case False
  obtain rest w1 c1 where l: "bufLoop b w = (rest, w1, c1)" using prod_cases3 by blast
  have h: "healthy (w1, c1)" by (rule healthy_loop [OF assms(1) l])
  with False assms(3) l have "\<not> err" "healthy w'"
    by (auto simp: Write_loop.simps [of b] Write_loop.simps [of "[]"] bufWrite_def healthy_def)
  with Write_loop_written [OF assms(2,3)] show ?thesis by auto
qed

subsection \<open>Sending the retry queue again\<close>

text \<open>The body a pack of the retry queue has when it is sent again.\<close>

definition resendBytes :: "'p net_lib \<Rightarrow> net_conf \<Rightarrow> SecuritySession \<Rightarrow> 'p TcpSend \<Rightarrow> byte list go" where
  "resendBytes L conf ses p = bindGo (getEncryptData L conf ses p) (\<lambda>(n, b, big). Inr b)"

lemma resendBytes_masked:
  assumes "CypherLevel conf = 0 \<or> GetSecureMask (flag p) \<in> {NET_SECURE_HIDE, NET_SECURE_CYPHER}"
  shows "resendBytes L conf ses p = packBytes L conf ses p"
  using assms by (cases "packBytes L conf ses p") (auto simp: resendBytes_def getEncryptData_def)

lemma resendBytes_plain:
  assumes "CypherLevel conf \<noteq> 0" and "GetSecureMask (flag p) \<notin> {NET_SECURE_HIDE, NET_SECURE_CYPHER}"
  shows "resendBytes L conf ses p = Inr []"
  using assms by (simp add: resendBytes_def getEncryptData_def Let_def)

lemma failover_loop_healthy:
  assumes "wr s = Some w" and "healthy w" and "wf_wr w" and "list_all2 (\<lambda>p b. resendBytes L conf ses p = Inr b) ps bs"
  shows "\<exists>w'. failover_loop L conf secu ses ps s = (Inr True, s\<lparr>wr := Some w', RetryQueue := if ps = [] then RetryQueue s else []\<rparr>) \<and>
     healthy w' \<and> wf_wr w' \<and> written w' = written w @ concat (map2 (\<lambda>p b. frame L secu ses (flag p) b) ps bs)"
  using assms
proof (induction ps arbitrary: bs s w)
  case Nil
  then show ?case by (intro exI [of _ w]) simp
next
  case (Cons p ps)
  from Cons.prems(4) obtain b bs' where bs: "bs = b # bs'" "resendBytes L conf ses p = Inr b"
    "list_all2 (\<lambda>p b. resendBytes L conf ses p = Inr b) ps bs'" by (auto simp: list_all2_Cons1)
  then obtain n big where g: "getEncryptData L conf ses p = Inr (n, b, big)" by (auto simp: resendBytes_def bindGo_Inr_iff)
  obtain k err w1 where wl: "Write_loop (frame L secu ses (flag p) b) 0 w = (k, err, w1)" using prod_cases3 by blast
  note h = healthy_Write [OF Cons.prems(2,3) wl]
  have "wr (s\<lparr>RetryQueue := ps, wr := Some w1\<rparr>) = Some w1" by simp
  from Cons.IH [OF this, of bs'] h bs obtain w' where
    ih: "failover_loop L conf secu ses ps (s\<lparr>RetryQueue := ps, wr := Some w1\<rparr>) =
      (Inr True, s\<lparr>RetryQueue := ps, wr := Some w1\<rparr>\<lparr>wr := Some w', RetryQueue := if ps = [] then RetryQueue (s\<lparr>RetryQueue := ps, wr := Some w1\<rparr>) else []\<rparr>)"
      "healthy w'" "wf_wr w'" "written w' = written w1 @ concat (map2 (\<lambda>p b. frame L secu ses (flag p) b) ps bs')" by blast
  have "failover_loop L conf secu ses (p # ps) s = failover_loop L conf secu ses ps (s\<lparr>RetryQueue := ps, wr := Some w1\<rparr>)"
    using g wl h Cons.prems(1) by (simp add: Write_def)
  with ih h bs show ?case by (intro exI [of _ w']) simp
qed

lemma SendFailover_healthy:
  assumes "wr s = Some w" and "healthy w" and "wf_wr w" and "bbuf (fst w) = []"
    and "list_all2 (\<lambda>p b. resendBytes L conf ses p = Inr b) (RetryQueue s) bs"
  shows "\<exists>w'. SendFailover L conf secu ses s = (Inr True, s\<lparr>wr := Some w', RetryQueue := []\<rparr>) \<and> healthy w' \<and> wf_wr w' \<and> bbuf (fst w') = [] \<and>
     sent (snd w') = sent (snd w) @ concat (map2 (\<lambda>p b. frame L secu ses (flag p) b) (RetryQueue s) bs)"
proof (cases "RetryQueue s = []")
  case True
  with assms show ?thesis by (intro exI [of _ w]) (simp add: SendFailover_def)
next
  case False
  from failover_loop_healthy [OF assms(1-3,5), of secu] False obtain w' where
    l: "failover_loop L conf secu ses (RetryQueue s) s = (Inr True, s\<lparr>wr := Some w', RetryQueue := []\<rparr>)" "healthy w'" "wf_wr w'"
      "written w' = written w @ concat (map2 (\<lambda>p b. frame L secu ses (flag p) b) (RetryQueue s) bs)" by auto
  have h: "healthy (bufFlush w')" and nb: "\<not> berr (fst (bufFlush w'))"
    using healthy_flush [OF l(2)] by (auto simp: healthy_def split: prod.splits)
  note fl = bufFlush_ok [OF nb]
  have "Flush (s\<lparr>wr := Some w', RetryQueue := []\<rparr>) = Inr (length (bbuf (fst w')), False, s\<lparr>wr := Some (bufFlush w'), RetryQueue := []\<rparr>)"
    using nb by (cases w'; cases "bufFlush w'") (simp add: Flush_def)
  moreover have "written w = sent (snd w)" using assms(4) by (cases w) (simp add: written_def)
  ultimately show ?thesis
    using False l h fl by (intro exI [of _ "bufFlush w'"]) (simp add: SendFailover_def)
qed

lemma openSession_resends:
  assumes "NetFailoverRetrySendDataEnabled conf" and "faults c = []"
    and o: "openSession L conf D c inp secu ses s = (True, secu', ses', s')"
    and "list_all2 (\<lambda>p b. resendBytes L conf ses' p = Inr b) (RetryQueue s) bs"
  shows "client s' \<and> RetryQueue s' = [] \<and> (\<exists>w'. wr s' = Some w' \<and> bbuf (fst w') = [] \<and>
     sent (snd w') = sent c @ keyReset L conf secu @ concat (map2 (\<lambda>p b. frame L secu' ses' (flag p) b) (RetryQueue s) bs))"
proof -
  let ?c1 = "c\<lparr>sent := sent c @ keyReset L conf secu\<rparr>"
  let ?w = "(\<lparr>bsize = if NetWriteBufferSize D \<le> 0 then 4096 else nat (NetWriteBufferSize D), bbuf = [], berr = False\<rparr>, ?c1)"
  have c1: "connWrite (keyReset L conf secu) c = (length (keyReset L conf secu), False, ?c1)"
    using assms(2) by (simp add: connWrite_def)
  from o c1 obtain d inp1 where d: "readKeyReset L secu inp = Some (d, inp1)"
    by (auto simp: openSession_def split: option.splits)
  let ?s1 = "s\<lparr>din := inp1, wr := Some ?w, LastConnectedTime := dialTime D\<rparr>"
  from o c1 d have u: "UpdateNetCypherKey L conf (spareCap D) d secu ses = (secu', ses', False)"
    by (auto simp: openSession_def Let_def split: prod.splits sum.splits if_splits)
  have "healthy ?w" "wf_wr ?w" using assms(2) by (simp_all add: healthy_def wf_wr_def)
  with SendFailover_healthy [of ?s1 ?w L conf ses' bs secu'] assms(4) obtain w' where
    w': "SendFailover L conf secu' ses' ?s1 = (Inr True, ?s1\<lparr>wr := Some w', RetryQueue := []\<rparr>)" "bbuf (fst w') = []"
      "sent (snd w') = sent ?c1 @ concat (map2 (\<lambda>p b. frame L secu' ses' (flag p) b) (RetryQueue s) bs)" by auto
  have "s' = ?s1\<lparr>wr := Some w', RetryQueue := []\<rparr>\<lparr>RetryQueue := [], client := True\<rparr>"
    using o c1 d u w'(1) assms(1) by (simp add: openSession_def Let_def)
  with w'(2,3) show ?thesis by simp
qed

lemma session_open_resends:
  assumes "NetFailoverRetrySendDataEnabled conf" and "faults (newConn D) = []" and "\<not> client s"
    and o: "session_open L conf D secu ses s = (True, secu', ses', s')"
    and "list_all2 (\<lambda>p b. resendBytes L conf ses' p = Inr b) (RetryQueue s) bs"
  shows "client s' \<and> RetryQueue s' = [] \<and> (\<exists>w' hello. wr s' = Some w' \<and> bbuf (fst w') = [] \<and>
     sent (snd w') = hello @ concat (map2 (\<lambda>p b. frame L secu' ses' (flag p) b) (RetryQueue s) bs))"
proof -
  let ?P = "\<lambda>x. \<exists>c inp sec s0. x = openSession L conf D c inp sec ses s0 \<and> faults c = [] \<and> RetryQueue s0 = RetryQueue s"
  have P: "?P x" if "openSession L conf D c inp sec ses s0 = x" "faults c = []" "RetryQueue s0 = RetryQueue s" for x c inp sec s0
    using that by blast
  have "?P (session_open L conf D secu ses s)"
  proof (cases "FowarderEnabled D")
    case True
    with o assms(2,3) show ?thesis unfolding session_open_def Let_def connWrite_def
      by (auto split: if_splits option.splits prod.splits) (rule P, assumption, simp, simp)+
  next
    case False
    with o assms(2,3) show ?thesis unfolding session_open_def Let_def
      by (auto split: if_splits option.splits prod.splits) (rule P, assumption, simp, simp)+
  qed
  then obtain c inp sec s0 where s0: "openSession L conf D c inp sec ses s0 = (True, secu', ses', s')" "faults c = []" "RetryQueue s0 = RetryQueue s"
    using o by auto
  from openSession_resends [OF assms(1) s0(2,1)] assms(5) s0(3) show ?thesis
    by (metis append_assoc)
qed

text \<open>The session after the turn of a pack: when it is closed, the pack is the last one of the retry queue.\<close>

definition bounded_queue :: "('a \<Rightarrow> 'a list \<Rightarrow> 'a list) \<Rightarrow> bool" where
  "bounded_queue putForce \<longleftrightarrow> (\<forall>p q. putForce p q = lastn 256 (q @ [p]))"

lemma bounded_queue_last: "bounded_queue f \<Longrightarrow> \<exists>q'. f p q = q' @ [p]"
  by (auto simp: bounded_queue_def lastn_def)

lemma Send_closed:
  assumes "client s" and "Send L secu ses dl code b fl s = (ok, s')" and "\<not> client s'"
  shows "RetryQueue s' = RetryQueue s"
proof -
  have "RetryQueue s1 = RetryQueue s \<and> client s1 = client s" if "Write x s = Inr (n, e, s1)" for x n e s1
    using that by (auto simp: Write_def split: option.splits prod.splits if_splits)
  moreover have "RetryQueue s2 = RetryQueue s1 \<and> client s2 = client s1" if "Flush s1 = Inr (n, e, s2)" for n e s1 s2
    using that by (auto simp: Flush_def Let_def split: option.splits prod.splits if_splits)
  ultimately show ?thesis
    using assms by (fastforce simp: Send_def Close_def split: sum.splits prod.splits if_splits)
qed

lemma Send_not_open: "\<not> client s \<Longrightarrow> Send L secu ses dl code b fl s = (False, s)"
  by (simp add: Send_def)

lemma send_turn_closed:
  assumes "bounded_queue pf" and "NetFailoverRetrySendDataEnabled conf" and "cypher_level sd = CypherLevel conf" and "packBytes L conf ses p = Inr b"
    and t: "send_turn L pf conf secu ses dl clk p (sd, s) = ((sd', s'), big)" and "\<not> client s'"
  shows "\<exists>q. RetryQueue s' = q @ [p]"
proof -
  obtain sd1 s1 where s1: "(if clk > i64 (last_time_sync sd + TimeSyncIntervalMs conf)
      then (sd\<lparr>last_time_sync := clk\<rparr>, snd (Send L secu ses (dl 0) NET_TIME_SYNC (wLong L clk) True s)) else (sd, s)) = (sd1, s1)"
    by force
  let ?s2 = "s1\<lparr>RetryQueue := pf p (RetryQueue s1)\<rparr>"
  have s': "s' = snd (Send L secu ses (dl 1) (flag p) b (flush p) ?s2)"
    using t assms(2-4) s1 by (simp add: send_turn_def split: prod.splits)
  have "RetryQueue s' = pf p (RetryQueue s1)"
  proof (cases "client s1")
    case True
    then have "client ?s2" by simp
    from Send_closed [OF this, of L secu ses "dl 1" "flag p" b "flush p"] s' assms(6) show ?thesis by (metis (no_types, lifting) TcpSession.select_convs(6) TcpSession.surjective TcpSession.update_convs(6) prod.collapse)
  next
    case False
    then show ?thesis using s' by (simp add: Send_not_open)
  qed
  with bounded_queue_last [OF assms(1)] show ?thesis by metis
qed

subsection \<open>Properties\<close>

text \<open>A list of frames, as it arrives, and reading one frame after the other.\<close>

definition frames :: "'p net_lib \<Rightarrow> SecurityMaster \<Rightarrow> SecuritySession \<Rightarrow> (byte \<times> byte list) list \<Rightarrow> byte list" where
  "frames L secu ses ms = concat (map (\<lambda>(code, b). frame L secu ses code b) ms)"

fun readAll :: "'p net_lib \<Rightarrow> SecurityMaster \<Rightarrow> nat \<Rightarrow> 'p TcpSession \<Rightarrow> TcpReturn list \<times> 'p TcpSession" where
  "readAll L secu 0 s = ([], s)"
| "readAll L secu (Suc n) s = (let (r, s1) = Read L secu s; (rs, s2) = readAll L secu n s1 in (r # rs, s2))"

text \<open>The ids fit the widths of the fields.\<close>

definition ids_fit :: "SecurityMaster \<Rightarrow> SecuritySession \<Rightarrow> bool" where
  "ids_fit secu ses \<longleftrightarrow> i64 (PCODE secu) = PCODE secu \<and> i32 (OID secu) = OID secu \<and> i32 (TRANSFER_KEY ses) = TRANSFER_KEY ses"

lemma readFrame_frame:
  assumes "net_laws L" and "ids_fit secu ses" and "length b \<le> READ_MAX"
  shows "readFrame L (frame L secu ses code b @ rest) = Some (code, PCODE secu, OID secu, TRANSFER_KEY ses, b, rest)"
proof -
  have l: "rLong L (wLong L (PCODE secu) @ r) = Some (PCODE secu, r)" for r
    using assms(1,2) i64_range [of "PCODE secu"] unfolding net_laws_def ids_fit_def by metis
  have i: "rInt L (wInt L x @ r) = Some (x, r)" if "i32 x = x" for x r
    using assms(1) that i32_range [of x] unfolding net_laws_def by metis
  have d: "rIntBytes L READ_MAX (wIntBytes L b @ r) = Some (b, r)" for r
    using assms(1,3) unfolding net_laws_def by metis
  show ?thesis using assms(2) by (simp add: readFrame_def frame_def l i d ids_fit_def)
qed

text \<open>C29: the frames of a session can be read back. Whatever codes and bodies (up to 8 MB) are framed one after the
  other, reading them from an open session gives exactly these codes and bodies with the key of the session, in order,
  leaves the bytes that follow untouched and keeps the session open.\<close>
theorem frames_roundtrip:
  assumes "net_laws L" and "ids_fit secu ses" and "\<forall>(code, b) \<in> set ms. length b \<le> READ_MAX" and "client s"
    and "din s = frames L secu ses ms @ rest"
  shows "readAll L secu (length ms) s = (map (\<lambda>(code, b). \<lparr>Code = code, Data = b, TransferKey = TRANSFER_KEY ses\<rparr>) ms, s\<lparr>din := rest\<rparr>)"
  using assms(3-5)
proof (induction ms arbitrary: s)
  case Nil
  then show ?case by (simp add: frames_def)
next
  case (Cons m ms)
  obtain code b where m: "m = (code, b)" by force
  have "readFrame L (din s) = Some (code, PCODE secu, OID secu, TRANSFER_KEY ses, b, frames L secu ses ms @ rest)"
    using Cons.prems m readFrame_frame [OF assms(1,2), of b code "frames L secu ses ms @ rest"] by (simp add: frames_def)
  then have r: "Read L secu s = (\<lparr>Code = code, Data = b, TransferKey = TRANSFER_KEY ses\<rparr>, s\<lparr>din := frames L secu ses ms @ rest\<rparr>)"
    using Cons.prems(2) by (simp add: Read_def)
  have "readAll L secu (length ms) (s\<lparr>din := frames L secu ses ms @ rest\<rparr>) =
     (map (\<lambda>(code, b). \<lparr>Code = code, Data = b, TransferKey = TRANSFER_KEY ses\<rparr>) ms, s\<lparr>din := rest\<rparr>)"
    using Cons.IH [of "s\<lparr>din := frames L secu ses ms @ rest\<rparr>"] Cons.prems by simp
  with r m show ?case by simp
qed

text \<open>An instance of the parameters: an integer is its sign and its size in unary notation.\<close>

definition wInt1 :: "int \<Rightarrow> byte list" where
  "wInt1 x = (if x < 0 then 1 else 0) # replicate (nat \<bar>x\<bar>) 1 @ [0]"

definition rInt1 :: "byte list \<Rightarrow> (int \<times> byte list) option" where
  "rInt1 b = (case b of [] \<Rightarrow> None | sg # r \<Rightarrow>
     (case dropWhile (\<lambda>x. x = 1) r of
        [] \<Rightarrow> None
      | _ # r' \<Rightarrow> Some ((if sg = 1 then - 1 else 1) * int (length (takeWhile (\<lambda>x. x = 1) r)), r')))"

definition rBytes1 :: "nat \<Rightarrow> byte list \<Rightarrow> (byte list \<times> byte list) option" where
  "rBytes1 n b = (case rInt1 b of None \<Rightarrow> None | Some (k, r) \<Rightarrow>
     if k < 0 \<or> int n < k \<or> int (length r) < k then None else Some (take (nat k) r, drop (nat k) r))"

definition nlib1 :: "byte list net_lib" where
  "nlib1 = \<lparr>wLong = wInt1, wInt = wInt1, wText = (\<lambda>t. wInt1 (int (length t)) @ bytesOf t), wIntBytes = (\<lambda>b. wInt1 (int (length b)) @ b),
     rLong = rInt1, rInt = rInt1, rBlob = rBytes1 1000, rIntBytes = rBytes1, ToBytesPack = (\<lambda>p. p), ToBytesPackECB = (\<lambda>p n. p),
     ToPack = Inr, rText = (\<lambda>b. None), bToInt = (\<lambda>b. 0), toBytesInt = (\<lambda>x. [7]), newAes = (\<lambda>k. \<lparr>blockEncrypt = rev, blockDecrypt = rev\<rparr>)\<rparr>"

lemma rInt1_wInt1: "rInt1 (wInt1 x @ r) = Some (x, r)"
proof -
  have "dropWhile (\<lambda>x. x = (1::byte)) (replicate n 1 @ 0 # r) = 0 # r" "takeWhile (\<lambda>x. x = (1::byte)) (replicate n 1 @ 0 # r) = replicate n 1" for n
    by (induction n) auto
  then show ?thesis by (simp add: rInt1_def wInt1_def)
qed

lemma nlib1_laws: "net_laws nlib1"
  by (simp add: net_laws_def nlib1_def rInt1_wInt1 rBytes1_def)

definition secu1 :: SecurityMaster where
  "secu1 = \<lparr>PCODE = 2, OID = 3, ONAME = ''a'', IP = 0, mCypher = \<lparr>block = 0, cypher = None, xor_key = None\<rparr>, PUBLIC_IP = 0\<rparr>"

definition ses1 :: SecuritySession where
  "ses1 = \<lparr>TRANSFER_KEY = 1, SECURE_KEY = [], HIDE_KEY = 0, sCypher = None\<rparr>"

definition session1 :: "byte list TcpSession" where
  "session1 = \<lparr>client = True, wr = Some (\<lparr>bsize = 8, bbuf = [], berr = False\<rparr>, \<lparr>sent = [], faults = [Some 2]\<rparr>), din = [], dest = 0,
     LastConnectedTime = 0, RetryQueue = []\<rparr>"

theorem frames_roundtrip_witness:
  "readAll nlib1 secu1 2 (session1\<lparr>din := frames nlib1 secu1 ses1 [(1, [5, 6]), (2, [])]\<rparr>) =
     ([\<lparr>Code = 1, Data = [5, 6], TransferKey = 1\<rparr>, \<lparr>Code = 2, Data = [], TransferKey = 1\<rparr>], session1)"
proof -
  have "ids_fit secu1 ses1" by (simp add: ids_fit_def secu1_def ses1_def)
  from frames_roundtrip [OF nlib1_laws this, of "[(1, [5, 6]), (2, [])]" "session1\<lparr>din := frames nlib1 secu1 ses1 [(1, [5, 6]), (2, [])]\<rparr>" "[]"]
  show ?thesis by (simp add: READ_MAX_def session1_def ses1_def numeral_2_eq_2)
qed

text \<open>What \<open>Send\<close> does on an open session. If it returns true, the whole frame has been appended to what was
  written before, and with the flush it has left the machine and the retry queue is empty; otherwise, when the
  deadline could be set, the session is closed, what had been written is still a prefix of what is written, and the
  retry queue is unchanged. The loop that writes always returns.\<close>
theorem Send_outcome:
  assumes "client s" and "wr s = Some w" and "wf_wr w"
  shows "case Send L secu ses True code b fl s of (ok, s') \<Rightarrow>
     \<exists>w'. wr s' = Some w' \<and> wf_wr w' \<and>
       (if ok then client s' \<and> written w' = written w @ frame L secu ses code b \<and>
          (if fl then bbuf (fst w') = [] \<and> sent (snd w') = written w @ frame L secu ses code b \<and> RetryQueue s' = []
           else RetryQueue s' = RetryQueue s)
        else \<not> client s' \<and> (\<exists>k. written w' = written w @ take k (frame L secu ses code b)) \<and> RetryQueue s' = RetryQueue s)"
proof -
  obtain n err w1 where l: "Write_loop (frame L secu ses code b) 0 w = (n, err, w1)" using prod_cases3 by blast
  note f = Write_loop_written [OF assms(3) l]
  have wr1: "Write (frame L secu ses code b) s = Inr (n, err, s\<lparr>wr := Some w1\<rparr>)" using assms(2) l by (simp add: Write_def)
  show ?thesis
  proof (cases "err \<or> \<not> fl")
    case True
    with wr1 f assms(1) show ?thesis by (cases err) (simp_all add: Send_def Close_def del: split_paired_Ex)
  next
    case False
    obtain v c where v: "bufFlush w1 = (v, c)" by force
    have fl1: "Flush (s\<lparr>wr := Some w1\<rparr>) = Inr (if berr v then (0, True, s\<lparr>wr := Some (v, c)\<rparr>) else (length (bbuf (fst w1)), False, s\<lparr>wr := Some (v, c)\<rparr>))"
      using v by (cases w1) (simp add: Flush_def)
    have wf: "wf_wr (v, c)" "written (v, c) = written w @ frame L secu ses code b"
      using f False bufFlush_wf(1) [of w1] bufFlush_written [of w1] v by auto
    show ?thesis
    proof (cases "berr v")
      case True
      have "\<exists>k. written (v, c) = written w @ take k (frame L secu ses code b)"
        using wf(2) by (intro exI [of _ "length (frame L secu ses code b)"]) simp
      with True False wr1 fl1 wf assms(1) show ?thesis by (simp add: Send_def Close_def)
    next
      case ok: False
      with bufFlush_ok [of w1] v f False have "bbuf v = []" "sent c = written w @ frame L secu ses code b" by auto
      with ok False wr1 fl1 wf assms(1) show ?thesis by (simp add: Send_def)
    qed
  qed
qed

theorem Send_outcome_witness:
  "fst (Send nlib1 secu1 ses1 True 1 [5] True session1) = False \<and> \<not> client (snd (Send nlib1 secu1 ses1 True 1 [5] True session1))"
proof -
  have "\<not> fst (Send nlib1 secu1 ses1 True 1 [5] True session1)"
    by (simp add: Send_def Write_def Write_loop.simps bufWrite_def bufLoop.simps connWrite_def session1_def frame_def nlib1_def secu1_def ses1_def wInt1_def numeral_2_eq_2 numeral_3_eq_3)
  then show ?thesis
    using Send_outcome [of session1 _ nlib1 secu1 ses1 1 "[5]" True]
    by (auto simp: session1_def wf_wr_def split: prod.splits if_splits)
qed

text \<open>The packs of a retry queue that can be sent again as they are: without encryption, or with a flag that asks for it
  and keys that do not panic.\<close>

definition resendable :: "'p net_lib \<Rightarrow> net_conf \<Rightarrow> SecuritySession \<Rightarrow> 'p TcpSend \<Rightarrow> bool" where
  "resendable L conf ses p \<longleftrightarrow> returns (packBytes L conf ses p) \<and>
     (CypherLevel conf = 0 \<or> GetSecureMask (flag p) \<in> {NET_SECURE_HIDE, NET_SECURE_CYPHER})"

lemma resendable_bytes:
  assumes "list_all (resendable L conf ses) ps"
  shows "\<exists>bs. list_all2 (\<lambda>p b. resendBytes L conf ses p = Inr b) ps bs"
  using assms
proof (induction ps)
  case (Cons p ps)
  then obtain bs b where "list_all2 (\<lambda>p b. resendBytes L conf ses p = Inr b) ps bs" "packBytes L conf ses p = Inr b"
    by (auto simp: resendable_def returns_iff)
  with Cons.prems have "list_all2 (\<lambda>p b. resendBytes L conf ses p = Inr b) (p # ps) (b # bs)"
    by (simp add: resendable_def resendBytes_masked)
  then show ?case by blast
qed (simp add: exI [of _ "[]"])

lemma concat_map2_snoc:
  "length xs = length ys \<Longrightarrow> concat (map2 f (xs @ [x]) (ys @ [y])) = concat (map2 f xs ys) @ f x y"
  by simp


definition keys1 :: "byte list" where
  "keys1 = wInt1 4 @ wInt1 0 @ wInt1 0 @ wInt1 0"

definition dial1 :: dial_env where
  "dial1 = \<lparr>AccessKey = ''k'', hosts = [''h''], FowarderEnabled = False, dialed = True, newConn = \<lparr>sent = [], faults = []\<rparr>,
     reply = [0, 0] @ wInt1 2 @ wInt1 3 @ wInt1 0 @ wIntBytes nlib1 keys1, remoteAddr = (\<lambda>d. ''h''), localAddr = ''l'',
     decide = (\<lambda>a. Some (''a'', 3, 0)), NetWriteBufferSize = 8, spareCap = [], dialTime = 9\<rparr>"

definition nconf0 :: net_conf where
  "nconf0 = \<lparr>CypherLevel = 0, NetSendMaxBytes = 1000, NetFailoverRetrySendDataEnabled = True, TimeSyncIntervalMs = 100\<rparr>"

definition tsend1 :: "byte list TcpSend" where
  "tsend1 = \<lparr>flag = 2, pack = [5], flush = True\<rparr>"

lemma nlib1_fields [simp]:
  "wLong nlib1 = wInt1" "wInt nlib1 = wInt1" "rLong nlib1 = rInt1" "rInt nlib1 = rInt1" "rIntBytes nlib1 = rBytes1" "rBlob nlib1 = rBytes1 1000"
  "ToBytesPack nlib1 p = p" "toBytesInt nlib1 = (\<lambda>x. [7])"
  by (simp_all add: nlib1_def)

lemma rBytes1_wInt1: "rBytes1 n (wInt1 (int (length b)) @ b @ r) = (if n < length b then None else Some (b, r))"
  by (simp add: rBytes1_def rInt1_wInt1)

lemma rInt1_end: "rInt1 (wInt1 x) = Some (x, [])"
  using rInt1_wInt1 [of x "[]"] by simp

lemma openSession_returns:
  assumes "faults c = []" and "readKeyReset L secu inp = Some (d, inp1)" and "UpdateNetCypherKey L conf (spareCap D) d secu ses = (secu', ses', False)"
    and "list_all2 (\<lambda>p b. resendBytes L conf ses' p = Inr b) (RetryQueue s) bs"
  shows "\<exists>s'. openSession L conf D c inp secu ses s = (True, secu', ses', s')"
proof -
  let ?c1 = "c\<lparr>sent := sent c @ keyReset L conf secu\<rparr>"
  let ?w = "(\<lparr>bsize = if NetWriteBufferSize D \<le> 0 then 4096 else nat (NetWriteBufferSize D), bbuf = [], berr = False\<rparr>, ?c1)"
  let ?s1 = "s\<lparr>din := inp1, wr := Some ?w, LastConnectedTime := dialTime D\<rparr>"
  have c1: "connWrite (keyReset L conf secu) c = (length (keyReset L conf secu), False, ?c1)"
    using assms(1) by (simp add: connWrite_def)
  have "healthy ?w" "wf_wr ?w" using assms(1) by (simp_all add: healthy_def wf_wr_def)
  with SendFailover_healthy [of ?s1 ?w L conf ses' bs secu'] assms(4) obtain w' where
    "SendFailover L conf secu' ses' ?s1 = (Inr True, ?s1\<lparr>wr := Some w', RetryQueue := []\<rparr>)" by auto
  with c1 assms(2,3) show ?thesis by (simp add: openSession_def Let_def)
qed

text \<open>A handshake: the keys it gives, and a session that was closed by a fault.\<close>

definition ses2 :: "int \<Rightarrow> SecuritySession" where
  "ses2 level = ses1\<lparr>TRANSFER_KEY := 4, sCypher := Some (NewCypher (newAes nlib1) (\<lambda>x. [7]) (nat level) [] 0)\<rparr>"

lemma handshake1:
  assumes "\<not> client s \<and> dest s = 0" and "CypherLevel conf > 0 \<longrightarrow> Cypher_Decrypt (mCypher secu1) [] keys1 = keys1"
    and "list_all2 (\<lambda>p b. resendBytes nlib1 conf (ses2 (CypherLevel conf)) p = Inr b) (RetryQueue s) bs"
  shows "\<exists>s'. session_open nlib1 conf dial1 secu1 ses1 s = (True, secu1, ses2 (CypherLevel conf), s')"
proof -
  have k: "readKeyReset nlib1 secu1 (reply dial1) = Some (keys1, [])"
    using rBytes1_wInt1 [of 1024 keys1 "[]"]
    by (simp add: readKeyReset_def dial1_def secu1_def rInt1_wInt1 nlib1_def) (simp add: keys1_def wInt1_def)
  have u: "UpdateNetCypherKey nlib1 conf (spareCap dial1) keys1 secu1 ses1 = (secu1, ses2 (CypherLevel conf), False)"
    using assms(2) rBytes1_wInt1 [of 1000 "[]" "wInt1 0 @ wInt1 0"]
    by (simp add: UpdateNetCypherKey_def dial1_def keys1_def rInt1_wInt1 rInt1_end secu1_def ses1_def ses2_def)
  have "secu1\<lparr>ONAME := ''a'', OID := 3, IP := 0\<rparr> = secu1" by (simp add: secu1_def)
  moreover have "TrimSpace ''k'' = ''k''" by code_simp
  moreover have "\<exists>s'. openSession nlib1 conf dial1 \<lparr>sent = [], faults = []\<rparr> (reply dial1) secu1 ses1 (s\<lparr>dest := 0\<rparr>) = (True, secu1, ses2 (CypherLevel conf), s')"
    using openSession_returns [of "\<lparr>sent = [], faults = []\<rparr>" nlib1 secu1 "reply dial1" keys1 "[]" conf dial1 ses1 secu1 "ses2 (CypherLevel conf)" "s\<lparr>dest := 0\<rparr>" bs]
      k u assms(3) by simp
  ultimately show ?thesis
    using assms(1) by (simp add: session_open_def dial1_def secu1_def Let_def)
qed


text \<open>A pack without an encryption flag, as the profile batches are, is lost when it has to be sent again over an
  encrypted session: the new connection gets a frame for it with an empty body.\<close>
theorem failover_empties_plain:
  assumes "NetFailoverRetrySendDataEnabled conf" and "CypherLevel conf \<noteq> 0" and "flag p = 0" and "\<not> client s" and "RetryQueue s = q @ [p]"
    and "list_all (resendable L conf ses') q" and "faults (newConn D) = []"
    and o: "session_open L conf D secu ses s = (True, secu', ses', s')"
  shows "\<exists>w earlier. wr s' = Some w \<and> bbuf (fst w) = [] \<and> RetryQueue s' = [] \<and> sent (snd w) = earlier @ frame L secu' ses' 0 []"
proof -
  from resendable_bytes [OF assms(6)] obtain bs where bs: "list_all2 (\<lambda>p b. resendBytes L conf ses' p = Inr b) q bs" by blast
  have "resendBytes L conf ses' p = Inr []"
    using assms(2,3) by (intro resendBytes_plain) (simp_all add: GetSecureMask_def NET_SECURE_HIDE_def NET_SECURE_CYPHER_def)
  with bs have "list_all2 (\<lambda>p b. resendBytes L conf ses' p = Inr b) (RetryQueue s) (bs @ [[]])"
    by (simp add: assms(5) list_all2_appendI)
  from session_open_resends [OF assms(1,7,4) o this] obtain w hello where
    w: "RetryQueue s' = []" "wr s' = Some w" "bbuf (fst w) = []"
      "sent (snd w) = hello @ concat (map2 (\<lambda>p b. frame L secu' ses' (flag p) b) (q @ [p]) (bs @ [[]]))" by (auto simp: assms(5))
  have "sent (snd w) = (hello @ concat (map2 (\<lambda>p b. frame L secu' ses' (flag p) b) q bs)) @ frame L secu' ses' (flag p) []"
    using w(4) list_all2_lengthD [OF bs] by (simp add: concat_map2_snoc)
  then show ?thesis using w(1-3) unfolding assms(3) by blast
qed

theorem failover_empties_plain_witness:
  "\<exists>secu' ses' s' w earlier. session_open nlib1 (nconf0\<lparr>CypherLevel := 128\<rparr>) dial1 secu1 ses1
       (session1\<lparr>client := False, RetryQueue := [\<lparr>flag = 0, pack = [5], flush = False\<rparr>]\<rparr>) = (True, secu', ses', s') \<and>
     wr s' = Some w \<and> sent (snd w) = earlier @ frame nlib1 secu' ses' 0 []"
proof -
  let ?conf = "nconf0\<lparr>CypherLevel := 128\<rparr>" and ?p = "\<lparr>flag = 0, pack = [5], flush = False\<rparr>"
  let ?s = "session1\<lparr>client := False, RetryQueue := [\<lparr>flag = 0, pack = [5], flush = False\<rparr>]\<rparr>"
  have "resendBytes nlib1 ?conf (ses2 128) ?p = Inr []"
    by (intro resendBytes_plain) (simp_all add: nconf0_def GetSecureMask_def NET_SECURE_HIDE_def NET_SECURE_CYPHER_def)
  then have "list_all2 (\<lambda>p b. resendBytes nlib1 ?conf (ses2 (CypherLevel ?conf)) p = Inr b) (RetryQueue ?s) [[]]" by simp
  with handshake1 [of ?s ?conf "[[]]"] obtain s' where o: "session_open nlib1 ?conf dial1 secu1 ses1 ?s = (True, secu1, ses2 (CypherLevel ?conf), s')"
    by (auto simp: nconf0_def session1_def secu1_def Cypher_Decrypt_def)
  have "\<exists>w earlier. wr s' = Some w \<and> bbuf (fst w) = [] \<and> RetryQueue s' = [] \<and> sent (snd w) = earlier @ frame nlib1 secu1 (ses2 (CypherLevel ?conf)) 0 []"
    by (rule failover_empties_plain [OF _ _ _ _ _ _ _ o, of ?p "[]"]) (simp_all add: nconf0_def dial1_def)
  with o show ?thesis by blast
qed

end
