(* ===== verification/Stat_Tables.thy ===== *)
theory Stat_Tables
  imports Keyed_Stat
begin

text \<open>
  The five-minute statistics (package \<^verbatim>\<open>agent/agent/stat\<close>) and the processing of a finished transaction
  (\<open>process\<close> and \<open>SendProfile\<close> in \<^verbatim>\<open>agent/agent/trace/TraceMain.go\<close>), which builds the transaction record, adds it to
  the statistics and decides whether its profile is sent.

  The tables are the maps of golib with their pointers (\<open>hm\<close>, \<open>tbl\<close>); the counters by address and by user agent are
  the parameter \<open>addNoOver\<close>; hashing and the sending of hash texts are parameters or events. All state of the package
  is one record \<open>stats\<close>.
\<close>

subsection \<open>Entries and keys\<close>

record TimeCount =
  tcCount :: int
  tcError :: int
  tcTime :: int

definition NewTimeCountDefault :: TimeCount where
  "NewTimeCountDefault = \<lparr>tcCount = 0, tcError = 0, tcTime = 0\<rparr>"

record TransactionRec =
  trHash :: int
  trCount :: int
  trError :: int
  TimeSum :: int
  TimeMax :: int
  TimeMin :: int
  TimeStd :: int
  ApdexSatisfied :: int
  ApdexTolerated :: int
  trSqlCount :: int
  trSqlTime :: int
  SqlFetch :: int
  SqlFetchTime :: int
  trHttpcCount :: int
  trHttpcTime :: int
  MallocSum :: int
  CpuSum :: int
  Profiled :: bool

definition NewTransactionRec :: "int \<Rightarrow> TransactionRec" where
  "NewTransactionRec h =
     \<lparr>trHash = h, trCount = 0, trError = 0, TimeSum = 0, TimeMax = 0, TimeMin = 0, TimeStd = 0, ApdexSatisfied = 0,
      ApdexTolerated = 0, trSqlCount = 0, trSqlTime = 0, SqlFetch = 0, SqlFetchTime = 0, trHttpcCount = 0, trHttpcTime = 0,
      MallocSum = 0, CpuSum = 0, Profiled = False\<rparr>"

record MtraceKEY =
  CallerPcode :: int
  CallerOkind :: int
  CallerSpec :: int
  CallerUrl :: int
  mkUrl :: int

definition NewMtraceKEY :: MtraceKEY where
  "NewMtraceKEY = \<lparr>CallerPcode = 0, CallerOkind = 0, CallerSpec = 0, CallerUrl = 0, mkUrl = 0\<rparr>"

definition MtraceKEY_Hash :: "MtraceKEY \<Rightarrow> 32 word" where
  "MtraceKEY_Hash k =
     (let w = (word_of_int (CallerPcode k) :: 64 word);
          r1 = 31 * 1 + ucast (xor w (drop_bit 32 w));
          r2 = 31 * r1 + word_of_int (CallerOkind k);
          r3 = 31 * r2 + word_of_int (CallerSpec k);
          r4 = 31 * r3 + word_of_int (CallerUrl k) in
      31 * r4 + word_of_int (mkUrl k))"

definition MtraceKEY_Equals :: "MtraceKEY \<Rightarrow> MtraceKEY \<Rightarrow> bool" where
  "MtraceKEY_Equals k other \<longleftrightarrow>
     CallerPcode k = CallerPcode other \<and> CallerOkind k = CallerOkind other \<and> CallerSpec k = CallerSpec other \<and>
     CallerUrl k = CallerUrl other \<and> mkUrl k = mkUrl other"

text \<open>Two keys that are equal have the same hash, as the linked map requires, and equality is that of the fields.\<close>

lemma MtraceKEY_key: "MtraceKEY_Equals k k' \<longleftrightarrow> k = k'" "MtraceKEY_Equals k k' \<Longrightarrow> MtraceKEY_Hash k = MtraceKEY_Hash k'"
  by (auto simp: MtraceKEY_Equals_def MtraceKEY_Hash_def)

subsection \<open>The state of the package and what it sends\<close>

text \<open>What leaves the package: hash texts with their kind and statistics packs. \<open>OutLong\<close> has the start of the data when
  the one-minute format is on and tells whether the pack goes to the batch thread.\<close>

datatype 'g stat_out =
    HashText string int string
  | OutTranx "TransactionRec list" int int
  | OutGeneral string "((int \<times> int) \<times> TimeCount) list" int
  | OutMt "(MtraceKEY \<times> TimeCount) list" int int
  | OutLong string "(int \<times> TimeCount) list" "int option" int bool
  | OutIp 'g int
  | OutUserAgent 'g int

record ('m, 'i, 'k, 'l, 'g) stats =
  tranx :: "('m, TransactionRec) tbl"
  tranxDomain :: "('i, TimeCount) tbl"
  tranxLogin :: "('i, TimeCount) tbl"
  tranxReferer :: "('i, TimeCount) tbl"
  tranxMtCaller :: "('k, TimeCount) tbl"
  remoteIPURL :: "('l, TimeCount) tbl"
  tranxStatus :: "('l, TimeCount) tbl"
  remoteIp :: 'g
  userAgents :: 'g
  LastReject :: int
  stat_outs :: "'g stat_out list"

record ('m, 'i, 'k, 'l, 'g) stat_env =
  HM :: "('m, int) hm"
  HI :: "('i, int \<times> int) hm"
  HK :: "('k, MtraceKEY) hm"
  HL :: "('l, int) hm"
  addNoOver :: "int \<Rightarrow> int \<Rightarrow> 'g \<Rightarrow> 'g"
  newCounts :: 'g
  countsSize :: "'g \<Rightarrow> nat"
  clearCounts :: "'g \<Rightarrow> 'g"
  statHash :: "string \<Rightarrow> int"
  Composite64 :: "int \<Rightarrow> int \<Rightarrow> int"

datatype referer_format = REFERER_FORMAT_DOMAIN | REFERER_FORMAT_DOMAIN_PATH | REFERER_FORMAT_PATH | REFERER_FORMAT_URL

record stat_conf =
  StatEnabled :: bool
  StatIPURLEnabled :: bool
  StatIPURLMaxCount :: int
  StatTxStatusMaxCount :: int
  Stat1MEnabled :: bool
  StatZipEnabled :: bool
  StatLoginEnabled :: bool
  StatDomainEnabled :: bool
  StatRefererEnabled :: bool
  StatRefererFormat :: referer_format
  StatMtraceEnabled :: bool
  MtraceSpec :: string
  MtraceSpecHash :: int
  ApdexTime :: int
  ApdexTime4T :: int
  ProfileBasetime :: int
  TxTextTxnameEnabled :: bool
  TxTextErrorEnabled :: bool
  TxTextErrorLength :: int
  TraceZipEnabled :: bool

subsection \<open>Looking entries up\<close>

definition StatTranx_GetService ::
  "('m, int) hm \<Rightarrow> int \<Rightarrow> ('m, TransactionRec) tbl \<Rightarrow> nat option \<times> ('m, TransactionRec) tbl" where
  "StatTranx_GetService H h t = getOrNil H (\<not> hm_full H (tab t)) h (NewTransactionRec h) t"

definition StatTranxDomain_GetService :: "('i, int \<times> int) hm \<Rightarrow> int \<Rightarrow> int \<Rightarrow> ('i, TimeCount) tbl \<Rightarrow> nat \<times> ('i, TimeCount) tbl" where
  "StatTranxDomain_GetService H domain urlhash t = getOrPut H (domain, urlhash) NewTimeCountDefault t"

definition StatTranxLogin_GetService :: "('i, int \<times> int) hm \<Rightarrow> int \<Rightarrow> int \<Rightarrow> ('i, TimeCount) tbl \<Rightarrow> nat \<times> ('i, TimeCount) tbl" where
  "StatTranxLogin_GetService H login urlhash t = getOrPut H (login, urlhash) NewTimeCountDefault t"

definition StatTranxReferer_GetService :: "('i, int \<times> int) hm \<Rightarrow> int \<Rightarrow> int \<Rightarrow> ('i, TimeCount) tbl \<Rightarrow> nat \<times> ('i, TimeCount) tbl" where
  "StatTranxReferer_GetService H referer urlhash t = getOrPut H (referer, urlhash) NewTimeCountDefault t"

definition StatTranxMtCaller_GetService :: "('k, MtraceKEY) hm \<Rightarrow> MtraceKEY \<Rightarrow> ('k, TimeCount) tbl \<Rightarrow> nat \<times> ('k, TimeCount) tbl" where
  "StatTranxMtCaller_GetService H key t = getOrPut H key NewTimeCountDefault t"

definition StatRemoteIPURL_GetService ::
  "('l, int) hm \<Rightarrow> (int \<Rightarrow> int \<Rightarrow> int) \<Rightarrow> int \<Rightarrow> int \<Rightarrow> int \<Rightarrow> ('l, TimeCount) tbl \<Rightarrow> nat option \<times> ('l, TimeCount) tbl" where
  "StatRemoteIPURL_GetService H composite maxCount ip urlhash t =
     getOrNil H (int (hm_size H (tab t)) < maxCount) (composite ip urlhash) NewTimeCountDefault t"

definition StatTranxStatus_GetService ::
  "('l, int) hm \<Rightarrow> (int \<Rightarrow> int \<Rightarrow> int) \<Rightarrow> int \<Rightarrow> int \<Rightarrow> int \<Rightarrow> ('l, TimeCount) tbl \<Rightarrow> nat option \<times> ('l, TimeCount) tbl" where
  "StatTranxStatus_GetService H composite maxCount status urlhash t =
     getOrNil H (int (hm_size H (tab t)) < maxCount) (composite status urlhash) NewTimeCountDefault t"

text \<open>An error counts when its number is positive; the numbers of errors are pairs of hashes.\<close>

definition StatTranxStatus_Add ::
  "('l, int) hm \<Rightarrow> (int \<Rightarrow> int \<Rightarrow> int) \<Rightarrow> int \<Rightarrow> int \<Rightarrow> int \<Rightarrow> int \<Rightarrow> int \<Rightarrow> ('l, TimeCount) tbl \<Rightarrow> ('l, TimeCount) tbl" where
  "StatTranxStatus_Add H composite maxCount status urlhash elapsed err t =
     (case StatTranxStatus_GetService H composite maxCount status urlhash t of
        (None, t1) \<Rightarrow> t1
      | (Some a, t1) \<Rightarrow> modify a (\<lambda>v. v\<lparr>tcCount := i32 (tcCount v + 1), tcTime := i64 (tcTime v + elapsed),
                                        tcError := (if err > 0 then i32 (tcError v + 1) else tcError v)\<rparr>) t1)"

definition IncRemoteIp :: "(int \<Rightarrow> int \<Rightarrow> 'g \<Rightarrow> 'g) \<Rightarrow> int \<Rightarrow> 'g \<Rightarrow> 'g" where
  "IncRemoteIp addN ip g = (if ip \<noteq> 0 then addN ip 1 g else g)"

definition IncUserAgent :: "(int \<Rightarrow> int \<Rightarrow> 'g \<Rightarrow> 'g) \<Rightarrow> int \<Rightarrow> 'g \<Rightarrow> 'g" where
  "IncUserAgent addN ua g = (if ua \<noteq> 0 then addN ua 1 g else g)"

subsection \<open>Sending at the end of an interval\<close>

definition StatTranx_Send ::
  "('m, 'i, 'k, 'l, 'g) stat_env \<Rightarrow> stat_conf \<Rightarrow> int \<Rightarrow> ('m, 'i, 'k, 'l, 'g) stats \<Rightarrow> ('m, 'i, 'k, 'l, 'g) stats" where
  "StatTranx_Send E conf now s =
     (if hm_size (HM E) (tab (tranx s)) = 0 then s
      else s\<lparr>tranx := clear_tbl (HM E) (tranx s),
             stat_outs := stat_outs s @ [OutTranx (map snd (values_of (HM E) (tranx s))) (MtraceSpecHash conf) now]\<rparr>)"

definition StatTranxDomain_Send ::
  "('m, 'i, 'k, 'l, 'g) stat_env \<Rightarrow> int \<Rightarrow> ('m, 'i, 'k, 'l, 'g) stats \<Rightarrow> ('m, 'i, 'k, 'l, 'g) stats" where
  "StatTranxDomain_Send E now s =
     (if hm_size (HI E) (tab (tranxDomain s)) = 0 then s
      else s\<lparr>tranxDomain := clear_tbl (HI E) (tranxDomain s),
             stat_outs := stat_outs s @ [OutGeneral ''dom'' (values_of (HI E) (tranxDomain s)) now]\<rparr>)"

definition StatTranxLogin_Send ::
  "('m, 'i, 'k, 'l, 'g) stat_env \<Rightarrow> int \<Rightarrow> ('m, 'i, 'k, 'l, 'g) stats \<Rightarrow> ('m, 'i, 'k, 'l, 'g) stats" where
  "StatTranxLogin_Send E now s =
     (if hm_size (HI E) (tab (tranxLogin s)) = 0 then s
      else s\<lparr>tranxLogin := clear_tbl (HI E) (tranxLogin s),
             stat_outs := stat_outs s @ [OutGeneral ''login'' (values_of (HI E) (tranxLogin s)) now]\<rparr>)"

definition StatTranxReferer_Send ::
  "('m, 'i, 'k, 'l, 'g) stat_env \<Rightarrow> int \<Rightarrow> ('m, 'i, 'k, 'l, 'g) stats \<Rightarrow> ('m, 'i, 'k, 'l, 'g) stats" where
  "StatTranxReferer_Send E now s =
     (if hm_size (HI E) (tab (tranxReferer s)) = 0 then s
      else s\<lparr>tranxReferer := clear_tbl (HI E) (tranxReferer s),
             stat_outs := stat_outs s @ [OutGeneral ''referer'' (values_of (HI E) (tranxReferer s)) now]\<rparr>)"

definition StatTranxMtCaller_Send ::
  "('m, 'i, 'k, 'l, 'g) stat_env \<Rightarrow> stat_conf \<Rightarrow> int \<Rightarrow> ('m, 'i, 'k, 'l, 'g) stats \<Rightarrow> ('m, 'i, 'k, 'l, 'g) stats" where
  "StatTranxMtCaller_Send E conf now s =
     (if hm_size (HK E) (tab (tranxMtCaller s)) = 0 then s
      else (let h = (if MtraceSpec conf = [] then 0 else statHash E (MtraceSpec conf));
                txt = (if MtraceSpec conf = [] then [] else [HashText ''TEXT_MTRACE_SPEC'' h (MtraceSpec conf)]) in
            s\<lparr>tranxMtCaller := clear_tbl (HK E) (tranxMtCaller s),
              stat_outs := stat_outs s @ txt @ [OutMt (values_of (HK E) (tranxMtCaller s)) h now]\<rparr>))"

definition StatRemoteIp_Send ::
  "('m, 'i, 'k, 'l, 'g) stat_env \<Rightarrow> int \<Rightarrow> ('m, 'i, 'k, 'l, 'g) stats \<Rightarrow> ('m, 'i, 'k, 'l, 'g) stats" where
  "StatRemoteIp_Send E now s =
     (if countsSize E (remoteIp s) = 0 then s
      else s\<lparr>remoteIp := newCounts E, stat_outs := stat_outs s @ [OutIp (remoteIp s) now]\<rparr>)"

definition StatUserAgent_Send ::
  "('m, 'i, 'k, 'l, 'g) stat_env \<Rightarrow> int \<Rightarrow> ('m, 'i, 'k, 'l, 'g) stats \<Rightarrow> ('m, 'i, 'k, 'l, 'g) stats" where
  "StatUserAgent_Send E now s =
     (if countsSize E (userAgents s) = 0 then s
      else s\<lparr>userAgents := newCounts E, stat_outs := stat_outs s @ [OutUserAgent (userAgents s) now]\<rparr>)"

definition StatRemoteIPURL_Send ::
  "('m, 'i, 'k, 'l, 'g) stat_env \<Rightarrow> stat_conf \<Rightarrow> int \<Rightarrow> ('m, 'i, 'k, 'l, 'g) stats \<Rightarrow> ('m, 'i, 'k, 'l, 'g) stats" where
  "StatRemoteIPURL_Send E conf now s =
     (if hm_size (HL E) (tab (remoteIPURL s)) = 0 then s
      else s\<lparr>remoteIPURL := clear_tbl (HL E) (remoteIPURL s),
             stat_outs := stat_outs s @ [OutLong ''ip-url'' (values_of (HL E) (remoteIPURL s))
               (if Stat1MEnabled conf then Some (i64 (now - 60000)) else None) now (StatZipEnabled conf)]\<rparr>)"

text \<open>Nothing calls the following one.\<close>

definition StatTranxStatus_Send ::
  "('m, 'i, 'k, 'l, 'g) stat_env \<Rightarrow> stat_conf \<Rightarrow> int \<Rightarrow> ('m, 'i, 'k, 'l, 'g) stats \<Rightarrow> ('m, 'i, 'k, 'l, 'g) stats" where
  "StatTranxStatus_Send E conf now s =
     (if hm_size (HL E) (tab (tranxStatus s)) = 0 then s
      else s\<lparr>tranxStatus := clear_tbl (HL E) (tranxStatus s),
             stat_outs := stat_outs s @ [OutLong ''url-status'' (values_of (HL E) (tranxStatus s))
               (if Stat1MEnabled conf then Some (i64 (now - 60000)) else None) now (StatZipEnabled conf)]\<rparr>)"

text \<open>The turn of \<open>TimingSender\<close> at the start of a new interval (the tables of SQL, calls and errors apart).\<close>

definition timing_turn ::
  "('m, 'i, 'k, 'l, 'g) stat_env \<Rightarrow> stat_conf \<Rightarrow> int \<Rightarrow> ('m, 'i, 'k, 'l, 'g) stats \<Rightarrow> ('m, 'i, 'k, 'l, 'g) stats" where
  "timing_turn E conf now s =
     (if StatEnabled conf
      then StatUserAgent_Send E now (StatRemoteIPURL_Send E conf now (StatRemoteIp_Send E now (StatTranxReferer_Send E now
             (StatTranxLogin_Send E now (StatTranxMtCaller_Send E conf now (StatTranxDomain_Send E now (StatTranx_Send E conf now s)))))))
      else s\<lparr>tranx := clear_tbl (HM E) (tranx s), tranxDomain := clear_tbl (HI E) (tranxDomain s),
             tranxMtCaller := clear_tbl (HK E) (tranxMtCaller s), tranxLogin := clear_tbl (HI E) (tranxLogin s),
             tranxReferer := clear_tbl (HI E) (tranxReferer s), remoteIp := clearCounts E (remoteIp s),
             remoteIPURL := clear_tbl (HL E) (remoteIPURL s), userAgents := clearCounts E (userAgents s)\<rparr>)"

subsection \<open>Processing a finished transaction\<close>

text \<open>The fields of the transaction context that \<open>process\<close> and \<open>SendProfile\<close> read.\<close>

record txctx =
  IsStaticContents :: bool
  ProfileSeq :: int
  EndTime :: int
  Elapsed :: int
  ServiceHash :: int
  ServicePath :: string
  Thr :: "(string \<times> string) option"
  RemoteIp :: int
  WClientId :: int
  UserAgent :: int
  McallerPcode :: int
  McallerOkind :: int
  McallerOid :: int
  Mtid :: int
  Mdepth :: int
  McallerTxid :: int
  McallerStepId :: int
  McallerSpec :: string
  McallerUrl :: string
  McallerUrlHash :: int
  StartCpu :: int
  EndCpu :: int
  StartMalloc :: int
  EndMalloc :: int
  SqlCount :: int
  SqlTime :: int
  RsCount :: int
  RsTime :: int
  DbcTime :: int
  cError :: int
  ErrorLevel :: int
  HttpHostHash :: int
  Referer :: int
  RefererDomain :: string
  RefererDomainPath :: string
  RefererPath :: string
  HttpcCount :: int
  HttpcTime :: int
  Status :: int
  HttpMethod :: string
  Login :: string
  ProfileActive :: int

record TxRecord =
  Txid :: int
  txEndTime :: int
  txElapsed :: int
  Service :: int
  TxName :: string
  ErrorClass :: string
  ErrorMessage :: string
  IpAddr :: int
  txWClientId :: int
  txUserAgent :: int
  txMcallerPcode :: int
  txMcallerOkind :: int
  txMcallerOid :: int
  txMtid :: int
  txMdepth :: int
  Mcaller :: int
  txMcallerStepId :: int
  txMcallerSpec :: int
  txMcallerUrl :: int
  Cipher :: int
  CpuTime :: int
  Malloc :: int
  txSqlCount :: int
  txSqlTime :: int
  SqlFetchCount :: int
  txSqlFetchTime :: int
  txDbcTime :: int
  txError :: int
  txErrorLevel :: int
  Domain :: int
  txReferer :: int
  txHttpcCount :: int
  txHttpcTime :: int
  txStatus :: int
  txHttpMethod :: int
  Apdex :: int
  txLogin :: int
  StepSplitCount :: int
  Active :: bool

text \<open>\<open>WARNING\<close> is a level of golib, \<open>methodCode\<close> its table of HTTP methods, \<open>keyHash\<close> the hash of the parameter key. A
  message is cut at the configured length, which panics when that is negative.\<close>

definition errorText :: "int \<Rightarrow> string \<Rightarrow> string go" where
  "errorText n m =
     (if m = [] then Inr [] else if int (length m) > n then (if n < 0 then Inl IndexOutOfRange else Inr (take (nat n) m)) else Inr m)"

definition apdexOf :: "stat_conf \<Rightarrow> int \<Rightarrow> int \<Rightarrow> int \<Rightarrow> int" where
  "apdexOf conf warning level elapsed =
     (if level \<ge> warning then 0 else if elapsed \<le> ApdexTime conf then 2 else if elapsed \<le> ApdexTime4T conf then 1 else 0)"

definition errorPart :: "stat_conf \<Rightarrow> txctx \<Rightarrow> (string \<times> string) go" where
  "errorPart conf ctx =
     (case Thr ctx of
        Some (cls, msg) \<Rightarrow> if TxTextErrorEnabled conf then bindGo (errorText (TxTextErrorLength conf) msg) (\<lambda>m. Inr (cls, m)) else Inr ([], [])
      | None \<Rightarrow> Inr ([], []))"

definition makeTx :: "stat_conf \<Rightarrow> int \<Rightarrow> (string \<Rightarrow> int) \<Rightarrow> int \<Rightarrow> txctx \<Rightarrow> string \<Rightarrow> string \<Rightarrow> TxRecord" where
  "makeTx conf warning methodCode keyHash ctx cls msg =
     \<lparr>Txid = ProfileSeq ctx, txEndTime = EndTime ctx, txElapsed = Elapsed ctx, Service = ServiceHash ctx,
          TxName = (if TxTextTxnameEnabled conf then ServicePath ctx else []), ErrorClass = cls, ErrorMessage = msg,
          IpAddr = RemoteIp ctx, txWClientId = WClientId ctx, txUserAgent = UserAgent ctx,
          txMcallerPcode = McallerPcode ctx, txMcallerOkind = McallerOkind ctx, txMcallerOid = McallerOid ctx, txMtid = Mtid ctx,
          txMdepth = Mdepth ctx, Mcaller = McallerTxid ctx, txMcallerStepId = McallerStepId ctx, txMcallerSpec = 0, txMcallerUrl = 0,
          Cipher = keyHash,
          CpuTime = (if EndCpu ctx < 0 then -1 else i32 (EndCpu ctx - StartCpu ctx)),
          Malloc = (if EndMalloc ctx < 0 then -1 else i64 (EndMalloc ctx - StartMalloc ctx)),
          txSqlCount = SqlCount ctx, txSqlTime = SqlTime ctx, SqlFetchCount = RsCount ctx, txSqlFetchTime = i32 (RsTime ctx), txDbcTime = DbcTime ctx,
          txError = (if cError ctx \<noteq> 0 then cError ctx else 0), txErrorLevel = ErrorLevel ctx, Domain = HttpHostHash ctx, txReferer = Referer ctx,
          txHttpcCount = HttpcCount ctx, txHttpcTime = HttpcTime ctx, txStatus = Status ctx,
          txHttpMethod = (if HttpMethod ctx \<noteq> [] then methodCode (HttpMethod ctx) else 0),
          Apdex = apdexOf conf warning (ErrorLevel ctx) (Elapsed ctx), txLogin = 0, StepSplitCount = 0, Active = False\<rparr>"

definition buildTx :: "stat_conf \<Rightarrow> int \<Rightarrow> (string \<Rightarrow> int) \<Rightarrow> int \<Rightarrow> txctx \<Rightarrow> TxRecord go" where
  "buildTx conf warning methodCode keyHash ctx =
     bindGo (errorPart conf ctx) (\<lambda>(cls, msg). Inr (makeTx conf warning methodCode keyHash ctx cls msg))"

text \<open>One more transaction in a time count.\<close>

definition addTime :: "bool \<Rightarrow> int \<Rightarrow> TimeCount \<Rightarrow> TimeCount" where
  "addTime isErr elapsed v =
     v\<lparr>tcCount := i32 (tcCount v + 1), tcError := (if isErr then i32 (tcError v + 1) else tcError v), tcTime := i64 (tcTime v + elapsed)\<rparr>"

definition statIpUrl ::
  "('m, 'i, 'k, 'l, 'g) stat_env \<Rightarrow> stat_conf \<Rightarrow> int \<Rightarrow> txctx \<Rightarrow> TxRecord \<Rightarrow> ('m, 'i, 'k, 'l, 'g) stats \<Rightarrow> ('m, 'i, 'k, 'l, 'g) stats" where
  "statIpUrl E conf warning ctx tx s =
     (if StatIPURLEnabled conf \<and> RemoteIp ctx \<noteq> 0
      then (case StatRemoteIPURL_GetService (HL E) (Composite64 E) (StatIPURLMaxCount conf) (RemoteIp ctx) (ServiceHash ctx) (remoteIPURL s) of
              (None, t) \<Rightarrow> s\<lparr>remoteIPURL := t\<rparr>
            | (Some a, t) \<Rightarrow> s\<lparr>remoteIPURL := modify a (addTime (txErrorLevel tx \<ge> warning) (txElapsed tx)) t\<rparr>)
      else s)"

definition statLogin ::
  "('m, 'i, 'k, 'l, 'g) stat_env \<Rightarrow> stat_conf \<Rightarrow> txctx \<Rightarrow> TxRecord \<Rightarrow> ('m, 'i, 'k, 'l, 'g) stats \<Rightarrow> TxRecord \<times> ('m, 'i, 'k, 'l, 'g) stats" where
  "statLogin E conf ctx tx s =
     (if Login ctx = [] then (tx, s)
      else (let h = statHash E (Login ctx); s1 = s\<lparr>stat_outs := stat_outs s @ [HashText ''TEXT_LOGIN'' h (Login ctx)]\<rparr> in
            (tx\<lparr>txLogin := h\<rparr>,
             if StatLoginEnabled conf
             then (case StatTranxLogin_GetService (HI E) h (ServiceHash ctx) (tranxLogin s1) of
                     (a, t) \<Rightarrow> s1\<lparr>tranxLogin := modify a (addTime (cError ctx \<noteq> 0) (txElapsed tx)) t\<rparr>)
             else s1)))"

definition statDomain ::
  "('m, 'i, 'k, 'l, 'g) stat_env \<Rightarrow> stat_conf \<Rightarrow> txctx \<Rightarrow> TxRecord \<Rightarrow> ('m, 'i, 'k, 'l, 'g) stats \<Rightarrow> ('m, 'i, 'k, 'l, 'g) stats" where
  "statDomain E conf ctx tx s =
     (if StatDomainEnabled conf \<and> HttpHostHash ctx \<noteq> 0
      then (case StatTranxDomain_GetService (HI E) (HttpHostHash ctx) (ServiceHash ctx) (tranxDomain s) of
              (a, t) \<Rightarrow> s\<lparr>tranxDomain := modify a (addTime (cError ctx \<noteq> 0) (txElapsed tx)) t\<rparr>)
      else s)"

definition statReferer ::
  "('m, 'i, 'k, 'l, 'g) stat_env \<Rightarrow> stat_conf \<Rightarrow> txctx \<Rightarrow> TxRecord \<Rightarrow> ('m, 'i, 'k, 'l, 'g) stats \<Rightarrow> ('m, 'i, 'k, 'l, 'g) stats" where
  "statReferer E conf ctx tx s =
     (if StatRefererEnabled conf \<and> Referer ctx \<noteq> 0
      then (let named = (case StatRefererFormat conf of
                           REFERER_FORMAT_DOMAIN \<Rightarrow> Some (RefererDomain ctx)
                         | REFERER_FORMAT_DOMAIN_PATH \<Rightarrow> Some (RefererDomainPath ctx)
                         | REFERER_FORMAT_PATH \<Rightarrow> Some (RefererPath ctx)
                         | REFERER_FORMAT_URL \<Rightarrow> None);
                h = (case named of None \<Rightarrow> Referer ctx | Some n \<Rightarrow> statHash E n);
                s1 = (case named of None \<Rightarrow> s | Some n \<Rightarrow> s\<lparr>stat_outs := stat_outs s @ [HashText ''TEXT_REFERER'' h n]\<rparr>) in
            case StatTranxReferer_GetService (HI E) h (ServiceHash ctx) (tranxReferer s1) of
              (a, t) \<Rightarrow> s1\<lparr>tranxReferer := modify a (addTime (cError ctx \<noteq> 0) (txElapsed tx)) t\<rparr>)
      else s)"

definition statMtrace ::
  "('m, 'i, 'k, 'l, 'g) stat_env \<Rightarrow> stat_conf \<Rightarrow> txctx \<Rightarrow> TxRecord \<Rightarrow> ('m, 'i, 'k, 'l, 'g) stats \<Rightarrow> TxRecord \<times> ('m, 'i, 'k, 'l, 'g) stats" where
  "statMtrace E conf ctx tx s =
     (if StatMtraceEnabled conf \<and> McallerPcode ctx \<noteq> 0
      then (let key0 = NewMtraceKEY\<lparr>CallerPcode := McallerPcode ctx, CallerOkind := McallerOkind ctx\<rparr>;
                h = statHash E (McallerSpec ctx);
                (key1, tx1, s1) =
                  (if McallerSpec ctx \<noteq> []
                   then (key0\<lparr>CallerSpec := h\<rparr>, tx\<lparr>txMcallerPcode := McallerPcode ctx, txMcallerSpec := h\<rparr>,
                         s\<lparr>stat_outs := stat_outs s @ [HashText ''TEXT_MTRACE_SPEC'' h (McallerSpec ctx)]\<rparr>)
                   else (key0, tx\<lparr>txMcallerPcode := McallerPcode ctx\<rparr>, s));
                (key2, tx2) =
                  (if McallerUrl ctx \<noteq> [] then (key1\<lparr>CallerUrl := McallerUrlHash ctx\<rparr>, tx1\<lparr>txMcallerUrl := McallerUrlHash ctx\<rparr>)
                   else (key1, tx1));
                key3 = key2\<lparr>mkUrl := ServiceHash ctx\<rparr> in
            case StatTranxMtCaller_GetService (HK E) key3 (tranxMtCaller s1) of
              (a, t) \<Rightarrow> (tx2, s1\<lparr>tranxMtCaller := modify a (addTime (cError ctx \<noteq> 0) (txElapsed tx)) t\<rparr>))
      else (tx, s))"

text \<open>One more transaction in the record of its service; a negative time counts as 0.\<close>

definition addTx :: "txctx \<Rightarrow> TxRecord \<Rightarrow> TransactionRec \<Rightarrow> TransactionRec" where
  "addTx ctx tx r =
     (let e = max 0 (txElapsed tx) in
      r\<lparr>trCount := i32 (trCount r + 1), trError := (if txError tx \<noteq> 0 then i32 (trError r + 1) else trError r),
        TimeSum := i64 (TimeSum r + e), TimeMax := (if e > TimeMax r then e else TimeMax r),
        ApdexSatisfied := (if Apdex tx = 2 then i32 (ApdexSatisfied r + 1) else ApdexSatisfied r),
        ApdexTolerated := (if Apdex tx = 1 then i32 (ApdexTolerated r + 1) else ApdexTolerated r),
        TimeMin := (if TimeMin r = 0 \<or> e < TimeMin r then e else TimeMin r), TimeStd := i64 (TimeStd r + i64 (e * e)),
        trSqlCount := i32 (trSqlCount r + txSqlCount tx), trSqlTime := i64 (trSqlTime r + txSqlTime tx),
        SqlFetch := i32 (SqlFetch r + RsCount ctx), SqlFetchTime := i64 (SqlFetchTime r + RsTime ctx),
        trHttpcCount := i32 (trHttpcCount r + txHttpcCount tx), trHttpcTime := i64 (trHttpcTime r + txHttpcTime tx),
        MallocSum := i64 (MallocSum r + Malloc tx), CpuSum := i64 (CpuSum r + CpuTime tx)\<rparr>)"

text \<open>A transaction whose profile is always sent.\<close>

definition remarkable :: "stat_conf \<Rightarrow> txctx \<Rightarrow> TxRecord \<Rightarrow> bool" where
  "remarkable conf ctx tx \<longleftrightarrow>
     ProfileActive ctx \<noteq> 0 \<or> \<not> max 0 (txElapsed tx) < ProfileBasetime conf \<or> txError tx \<noteq> 0 \<or> Mtid ctx \<noteq> 0"

definition sendProfile_stats ::
  "('m, 'i, 'k, 'l, 'g) stat_env \<Rightarrow> stat_conf \<Rightarrow> int \<Rightarrow> txctx \<Rightarrow> TxRecord \<Rightarrow> ('m, 'i, 'k, 'l, 'g) stats \<Rightarrow> TxRecord \<times> ('m, 'i, 'k, 'l, 'g) stats" where
  "sendProfile_stats E conf warning ctx tx s =
     (let s1 = s\<lparr>remoteIp := IncRemoteIp (addNoOver E) (RemoteIp ctx) (remoteIp s),
                 userAgents := IncUserAgent (addNoOver E) (UserAgent ctx) (userAgents s)\<rparr>;
          (tx1, s2) = statLogin E conf ctx tx (statIpUrl E conf warning ctx tx s1) in
      statMtrace E conf ctx tx1 (statReferer E conf ctx tx1 (statDomain E conf ctx tx1 s2)))"

text \<open>
  \<open>SendProfile\<close>: the result is the profile that is sent, if it is, with whether it goes to the batch thread, and the
  new statistics. \<open>now\<close> is the clock in whole seconds; \<open>splitCount\<close> and \<open>steps\<close> are what the profile collector of the
  context returns.
\<close>

definition SendProfile ::
  "('m, 'i, 'k, 'l, 'g) stat_env \<Rightarrow> stat_conf \<Rightarrow> int \<Rightarrow> int \<Rightarrow> bool \<Rightarrow> int \<Rightarrow> 'st \<Rightarrow> txctx \<Rightarrow> TxRecord \<Rightarrow> ('m, 'i, 'k, 'l, 'g) stats \<Rightarrow>
   (TxRecord \<times> 'st \<times> bool) option \<times> ('m, 'i, 'k, 'l, 'g) stats" where
  "SendProfile E conf warning now rejected splitCount steps ctx tx s =
     (let (tx1, s1) = sendProfile_stats E conf warning ctx tx s;
          sent = (\<lambda>tx2. Some (tx2\<lparr>StepSplitCount := splitCount, Active := ProfileActive ctx > 0\<rparr>, steps, TraceZipEnabled conf)) in
      case StatTranx_GetService (HM E) (Service tx1) (tranx s1) of
        (None, t) \<Rightarrow> (sent tx1, s1\<lparr>tranx := t\<rparr>)
      | (Some a, t) \<Rightarrow>
          (let before = Profiled (cells t a); tx2 = tx1\<lparr>txElapsed := max 0 (txElapsed tx1)\<rparr>;
               t1 = modify a (addTx ctx tx1) t; t2 = modify a (\<lambda>r. r\<lparr>Profiled := True\<rparr>) t1 in
           if rejected
           then (if now < i64 (LastReject s1 + 1000) then (None, s1\<lparr>tranx := t1\<rparr>)
                 else (sent tx2, s1\<lparr>tranx := t2, LastReject := now\<rparr>))
           else if before \<and> \<not> remarkable conf ctx tx1 then (None, s1\<lparr>tranx := t1\<rparr>)
           else (sent tx2, s1\<lparr>tranx := t2\<rparr>)))"

text \<open>\<open>process\<close>, given the context it took from the queue: the last component tells whether the context is returned to
  the pool.\<close>

definition process ::
  "('m, 'i, 'k, 'l, 'g) stat_env \<Rightarrow> stat_conf \<Rightarrow> int \<Rightarrow> (string \<Rightarrow> int) \<Rightarrow> int \<Rightarrow> int \<Rightarrow> int \<Rightarrow> 'st \<Rightarrow> txctx \<Rightarrow> ('m, 'i, 'k, 'l, 'g) stats \<Rightarrow>
   (TxRecord \<times> 'st \<times> bool) option \<times> ('m, 'i, 'k, 'l, 'g) stats \<times> bool" where
  "process E conf warning methodCode keyHash now splitCount steps ctx s =
     (if IsStaticContents ctx then (None, s, False)
      else (case buildTx conf warning methodCode keyHash ctx of
              Inl _ \<Rightarrow> (None, s, False)
            | Inr tx \<Rightarrow> (case SendProfile E conf warning now False splitCount steps ctx tx s of (p, s') \<Rightarrow> (p, s', True))))"

subsection \<open>The record of a service\<close>

lemma statIpUrl_tranx [simp]: "tranx (statIpUrl E conf w ctx tx s) = tranx s" "stat_outs (statIpUrl E conf w ctx tx s) = stat_outs s"
  by (simp_all add: statIpUrl_def split: prod.splits option.splits)

lemma statLogin_tranx: "statLogin E conf ctx tx s = (tx', s') \<Longrightarrow> tranx s' = tranx s \<and> LastReject s' = LastReject s \<and> tx'\<lparr>txLogin := txLogin tx\<rparr> = tx"
  by (auto simp: statLogin_def Let_def split: if_splits prod.splits)

lemma statDomain_tranx [simp]: "tranx (statDomain E conf ctx tx s) = tranx s"
  by (simp add: statDomain_def split: prod.splits)

lemma statReferer_tranx [simp]: "tranx (statReferer E conf ctx tx s) = tranx s"
  by (simp add: statReferer_def Let_def split: prod.splits option.splits referer_format.splits)

text \<open>The other statistics change neither the record of the service nor the fields of the transaction it depends on.\<close>

definition same_tx :: "TxRecord \<Rightarrow> TxRecord \<Rightarrow> bool" where
  "same_tx a b \<longleftrightarrow> a\<lparr>txLogin := 0, txMcallerPcode := 0, txMcallerSpec := 0, txMcallerUrl := 0\<rparr> = b\<lparr>txLogin := 0, txMcallerPcode := 0, txMcallerSpec := 0, txMcallerUrl := 0\<rparr>"

lemma same_tx_fields:
  assumes "same_tx a b"
  shows "Service a = Service b \<and> txElapsed a = txElapsed b \<and> txError a = txError b \<and> Apdex a = Apdex b \<and> txSqlCount a = txSqlCount b \<and>
    txSqlTime a = txSqlTime b \<and> txHttpcCount a = txHttpcCount b \<and> txHttpcTime a = txHttpcTime b \<and> Malloc a = Malloc b \<and> CpuTime a = CpuTime b"
  using assms by (cases a; cases b) (simp add: same_tx_def)

lemma statLogin_same: "statLogin E conf ctx tx s = (tx', s') \<Longrightarrow> same_tx tx' tx"
  by (auto simp: statLogin_def same_tx_def Let_def split: if_splits prod.splits)

lemma statMtrace_same: "statMtrace E conf ctx tx s = (tx', s') \<Longrightarrow> same_tx tx' tx \<and> tranx s' = tranx s"
  by (auto simp: statMtrace_def same_tx_def Let_def split: if_splits prod.splits)

lemma same_tx_trans: "same_tx a b \<Longrightarrow> same_tx b c \<Longrightarrow> same_tx a c"
  by (simp add: same_tx_def)

lemma sendProfile_stats_same:
  assumes "sendProfile_stats E conf w ctx tx s = (tx', s')"
  shows "same_tx tx' tx \<and> tranx s' = tranx s"
proof -
  let ?s1 = "s\<lparr>remoteIp := IncRemoteIp (addNoOver E) (RemoteIp ctx) (remoteIp s), userAgents := IncUserAgent (addNoOver E) (UserAgent ctx) (userAgents s)\<rparr>"
  obtain tx1 s2 where l: "statLogin E conf ctx tx (statIpUrl E conf w ctx tx ?s1) = (tx1, s2)" by force
  then have m: "statMtrace E conf ctx tx1 (statReferer E conf ctx tx1 (statDomain E conf ctx tx1 s2)) = (tx', s')"
    using assms by (simp add: sendProfile_stats_def)
  from statLogin_same [OF l] statLogin_tranx [OF l] statMtrace_same [OF m] same_tx_trans show ?thesis by auto
qed

lemma addTx_same: "same_tx a b \<Longrightarrow> addTx ctx a = addTx ctx b" "same_tx a b \<Longrightarrow> remarkable conf ctx a = remarkable conf ctx b"
  using same_tx_fields [of a b] by (auto simp: addTx_def remarkable_def Let_def)

definition tranx_ok :: "('m, 'i, 'k, 'l, 'g) stat_env \<Rightarrow> int set \<Rightarrow> ('m, 'i, 'k, 'l, 'g) stats \<Rightarrow> bool" where
  "tranx_ok E U s \<longleftrightarrow> hm_laws (HM E) \<and> room (HM E) U \<and> tbl_ok (HM E) (tranx s) \<and>
     (\<forall>k r. entry_of (HM E) (tranx s) k = Some r \<longrightarrow> k \<in> U \<and> trHash r = k)"

lemma addTx_Profiled [simp]: "Profiled (addTx ctx tx r) = Profiled r" "trHash (addTx ctx tx r) = trHash r"
  by (simp_all add: addTx_def Let_def)

lemma SendProfile_step:
  assumes "tranx_ok E U s" and "Service tx \<in> U" and p: "SendProfile E conf w now False sc st ctx tx s = (p, s')"
  defines "old \<equiv> entry_of (HM E) (tranx s) (Service tx)"
  shows "entry_of (HM E) (tranx s') = (entry_of (HM E) (tranx s))(Service tx \<mapsto>
       (addTx ctx tx (case old of None \<Rightarrow> NewTransactionRec (Service tx) | Some r \<Rightarrow> r))\<lparr>Profiled := True\<rparr>)"
    and "tranx_ok E U s'"
    and "p \<noteq> None \<longleftrightarrow> (case old of None \<Rightarrow> True | Some r \<Rightarrow> \<not> Profiled r) \<or> remarkable conf ctx tx"
proof -
  obtain tx1 s1 where q: "sendProfile_stats E conf w ctx tx s = (tx1, s1)" by force
  from sendProfile_stats_same [OF q] have tx1: "same_tx tx1 tx" and s1: "tranx s1 = tranx s" by auto
  note f = same_tx_fields [OF tx1] addTx_same [OF tx1]
  have nf: "\<not> hm_full (HM E) (tab (tranx s))"
    using assms(1) unfolding tranx_ok_def room_def by (metis entry_keys option.exhaust)
  have laws: "hm_laws (HM E)" "tbl_ok (HM E) (tranx s)" using assms(1) by (auto simp: tranx_ok_def)
  obtain a t where g: "getOrPut (HM E) (Service tx) (NewTransactionRec (Service tx)) (tranx s) = (a, t)" by force
  have gs: "StatTranx_GetService (HM E) (Service tx) (tranx s) = (Some a, t)" using nf g by (simp add: StatTranx_GetService_def getOrNil_def)
  note gp = getOrPut_props [OF laws g]
  let ?r = "case old of None \<Rightarrow> NewTransactionRec (Service tx) | Some r \<Rightarrow> r"
  have c: "cells t a = ?r" using gp by (simp add: old_def)
  let ?go = "\<not> Profiled ?r \<or> remarkable conf ctx tx"
  have s': "tranx s' = (if ?go then modify a ((\<lambda>r. r\<lparr>Profiled := True\<rparr>) \<circ> addTx ctx tx) t else modify a (addTx ctx tx) t)" and po: "p \<noteq> None \<longleftrightarrow> ?go"
    using p q gs f s1 c by (auto simp: SendProfile_def Let_def split: if_splits)
  have ent: "entry_of (HM E) (modify a h t) = (entry_of (HM E) (tranx s))(Service tx \<mapsto> h ?r)" for h
    using touch_entry(1) [OF laws nf g, of h] by (simp add: old_def)
  show e: "entry_of (HM E) (tranx s') = (entry_of (HM E) (tranx s))(Service tx \<mapsto> (addTx ctx tx ?r)\<lparr>Profiled := True\<rparr>)"
  proof (cases ?go)
    case True
    then show ?thesis unfolding s' using ent [of "(\<lambda>r. r\<lparr>Profiled := True\<rparr>) \<circ> addTx ctx tx"] by simp
  next
    case False
    then have "Profiled (addTx ctx tx ?r)" by simp
    then have "(addTx ctx tx ?r)\<lparr>Profiled := True\<rparr> = addTx ctx tx ?r" by (cases "addTx ctx tx ?r") simp
    with False show ?thesis unfolding s' using ent [of "addTx ctx tx"] by (simp only: if_False)
  qed
  have "tbl_ok (HM E) (tranx s')" unfolding s' using touch_entry(2) [OF laws nf g] by auto
  moreover have "trHash ?r = Service tx" using assms(1) by (auto simp: tranx_ok_def old_def NewTransactionRec_def split: option.splits)
  ultimately show "tranx_ok E U s'" using assms(1,2) e by (auto simp: tranx_ok_def split: if_splits)
  show "p \<noteq> None \<longleftrightarrow> (case old of None \<Rightarrow> True | Some r \<Rightarrow> \<not> Profiled r) \<or> remarkable conf ctx tx"
    using po by (auto simp: NewTransactionRec_def split: option.splits)
qed

text \<open>The record \<open>process\<close> builds, when it does not panic.\<close>

definition txOf :: "stat_conf \<Rightarrow> int \<Rightarrow> (string \<Rightarrow> int) \<Rightarrow> int \<Rightarrow> txctx \<Rightarrow> TxRecord" where
  "txOf conf w mc kh ctx = (case buildTx conf w mc kh ctx of Inr tx \<Rightarrow> tx)"

definition processed :: "stat_conf \<Rightarrow> int set \<Rightarrow> txctx \<Rightarrow> bool" where
  "processed conf U ctx \<longleftrightarrow> \<not> IsStaticContents ctx \<and> 0 \<le> TxTextErrorLength conf \<and> ServiceHash ctx \<in> U"

lemma buildTx_returns: "0 \<le> TxTextErrorLength conf \<Longrightarrow> \<exists>tx. buildTx conf w mc kh ctx = Inr tx"
  by (auto simp: buildTx_def errorPart_def errorText_def split: option.splits)

lemma buildTx_fields:
  assumes "buildTx conf w mc kh ctx = Inr tx"
  shows "Service tx = ServiceHash ctx \<and> txElapsed tx = Elapsed ctx \<and> txError tx = cError ctx \<and> Apdex tx = apdexOf conf w (ErrorLevel ctx) (Elapsed ctx) \<and>
    txSqlCount tx = SqlCount ctx \<and> txSqlTime tx = SqlTime ctx \<and> txHttpcCount tx = HttpcCount ctx \<and> txHttpcTime tx = HttpcTime ctx"
proof -
  from assms obtain cls msg where "tx = makeTx conf w mc kh ctx cls msg" by (auto simp: buildTx_def bindGo_Inr_iff)
  then show ?thesis by (simp add: makeTx_def)
qed

lemma txOf_fields:
  assumes "0 \<le> TxTextErrorLength conf"
  shows "buildTx conf w mc kh ctx = Inr (txOf conf w mc kh ctx)"
    and "Service (txOf conf w mc kh ctx) = ServiceHash ctx" "txElapsed (txOf conf w mc kh ctx) = Elapsed ctx" "txError (txOf conf w mc kh ctx) = cError ctx"
      "Apdex (txOf conf w mc kh ctx) = apdexOf conf w (ErrorLevel ctx) (Elapsed ctx)" "txSqlCount (txOf conf w mc kh ctx) = SqlCount ctx"
      "txSqlTime (txOf conf w mc kh ctx) = SqlTime ctx" "txHttpcCount (txOf conf w mc kh ctx) = HttpcCount ctx" "txHttpcTime (txOf conf w mc kh ctx) = HttpcTime ctx"
proof -
  from buildTx_returns [OF assms, of w mc kh ctx] obtain tx where tx: "buildTx conf w mc kh ctx = Inr tx" by blast
  then have t: "txOf conf w mc kh ctx = tx" by (simp add: txOf_def)
  show "buildTx conf w mc kh ctx = Inr (txOf conf w mc kh ctx)" using tx t by simp
  show "Service (txOf conf w mc kh ctx) = ServiceHash ctx" "txElapsed (txOf conf w mc kh ctx) = Elapsed ctx" "txError (txOf conf w mc kh ctx) = cError ctx"
      "Apdex (txOf conf w mc kh ctx) = apdexOf conf w (ErrorLevel ctx) (Elapsed ctx)" "txSqlCount (txOf conf w mc kh ctx) = SqlCount ctx"
      "txSqlTime (txOf conf w mc kh ctx) = SqlTime ctx" "txHttpcCount (txOf conf w mc kh ctx) = HttpcCount ctx" "txHttpcTime (txOf conf w mc kh ctx) = HttpcTime ctx"
    using buildTx_fields [OF tx] by (simp_all add: t)
qed

definition afterProcess ::
  "('m, 'i, 'k, 'l, 'g) stat_env \<Rightarrow> stat_conf \<Rightarrow> int \<Rightarrow> (string \<Rightarrow> int) \<Rightarrow> int \<Rightarrow> int \<Rightarrow> txctx \<Rightarrow> ('m, 'i, 'k, 'l, 'g) stats \<Rightarrow> ('m, 'i, 'k, 'l, 'g) stats" where
  "afterProcess E conf w mc kh now ctx s = fst (snd (process E conf w mc kh now 0 () ctx s))"

definition bumpRec :: "stat_conf \<Rightarrow> int \<Rightarrow> (string \<Rightarrow> int) \<Rightarrow> int \<Rightarrow> txctx \<Rightarrow> TransactionRec \<Rightarrow> TransactionRec" where
  "bumpRec conf w mc kh ctx r = (addTx ctx (txOf conf w mc kh ctx) r)\<lparr>Profiled := True\<rparr>"

lemma process_step:
  assumes "tranx_ok E U s" and "processed conf U ctx" and "process E conf w mc kh now sc st ctx s = (p, s', cl)"
  shows "entry_of (HM E) (tranx s') = (entry_of (HM E) (tranx s))(ServiceHash ctx \<mapsto>
       bumpRec conf w mc kh ctx (case entry_of (HM E) (tranx s) (ServiceHash ctx) of None \<Rightarrow> NewTransactionRec (ServiceHash ctx) | Some r \<Rightarrow> r))"
    and "tranx_ok E U s'"
    and "p \<noteq> None \<longleftrightarrow> (case entry_of (HM E) (tranx s) (ServiceHash ctx) of None \<Rightarrow> True | Some r \<Rightarrow> \<not> Profiled r) \<or> remarkable conf ctx (txOf conf w mc kh ctx)"
proof -
  let ?tx = "txOf conf w mc kh ctx"
  have n: "0 \<le> TxTextErrorLength conf" using assms(2) by (simp add: processed_def)
  note tx = txOf_fields [OF n, of w mc kh ctx]
  have p: "SendProfile E conf w now False sc st ctx ?tx s = (p, s')"
    using assms(2,3) tx(1) by (auto simp: process_def processed_def split: prod.splits)
  have u: "Service ?tx \<in> U" using assms(2) tx(2) by (simp add: processed_def)
  note st = SendProfile_step [OF assms(1) u p, unfolded tx(2)]
  show "entry_of (HM E) (tranx s') = (entry_of (HM E) (tranx s))(ServiceHash ctx \<mapsto>
       bumpRec conf w mc kh ctx (case entry_of (HM E) (tranx s) (ServiceHash ctx) of None \<Rightarrow> NewTransactionRec (ServiceHash ctx) | Some r \<Rightarrow> r))"
    using st(1) by (simp add: bumpRec_def)
  show "tranx_ok E U s'" by (rule st(2))
  show "p \<noteq> None \<longleftrightarrow> (case entry_of (HM E) (tranx s) (ServiceHash ctx) of None \<Rightarrow> True | Some r \<Rightarrow> \<not> Profiled r) \<or> remarkable conf ctx ?tx"
    by (rule st(3))
qed

interpretation services: keyed_stat_on "processed conf U" "afterProcess E conf w mc kh now" ServiceHash "\<lambda>s. entry_of (HM E) (tranx s)" "tranx_ok E U"
    NewTransactionRec "bumpRec conf w mc kh" for E conf w mc kh now U
proof
  fix s c
  assume a: "tranx_ok E U s" "processed conf U c"
  obtain p s' cl where "process E conf w mc kh now 0 () c s = (p, s', cl)" using prod_cases3 by blast
  with process_step [OF a this] show "tranx_ok E U (afterProcess E conf w mc kh now c s)"
    and "entry_of (HM E) (tranx (afterProcess E conf w mc kh now c s)) = (entry_of (HM E) (tranx s))(ServiceHash c \<mapsto>
       bumpRec conf w mc kh c (case entry_of (HM E) (tranx s) (ServiceHash c) of None \<Rightarrow> NewTransactionRec (ServiceHash c) | Some r \<Rightarrow> r))"
    by (simp_all add: afterProcess_def)
qed

lemma fold_bump_totals:
  fixes conf w mc kh cs r
  assumes "0 \<le> TxTextErrorLength conf"
  defines "r' \<equiv> fold (bumpRec conf w mc kh) cs r"
  shows "i32 (trCount r') = i32 (trCount r + int (length cs))"
    and "i32 (trError r') = i32 (trError r + int (length (filter (\<lambda>c. cError c \<noteq> 0) cs)))"
    and "i64 (TimeSum r') = i64 (TimeSum r + (\<Sum>c\<leftarrow>cs. max 0 (Elapsed c)))"
    and "TimeMax r' = fold (\<lambda>c m. max m (max 0 (Elapsed c))) cs (TimeMax r)"
    and "i32 (ApdexSatisfied r') = i32 (ApdexSatisfied r + int (length (filter (\<lambda>c. apdexOf conf w (ErrorLevel c) (Elapsed c) = 2) cs)))"
    and "i32 (ApdexTolerated r') = i32 (ApdexTolerated r + int (length (filter (\<lambda>c. apdexOf conf w (ErrorLevel c) (Elapsed c) = 1) cs)))"
    and "i32 (trSqlCount r') = i32 (trSqlCount r + (\<Sum>c\<leftarrow>cs. SqlCount c))"
    and "i64 (trSqlTime r') = i64 (trSqlTime r + (\<Sum>c\<leftarrow>cs. SqlTime c))"
    and "i32 (trHttpcCount r') = i32 (trHttpcCount r + (\<Sum>c\<leftarrow>cs. HttpcCount c))"
    and "i64 (trHttpcTime r') = i64 (trHttpcTime r + (\<Sum>c\<leftarrow>cs. HttpcTime c))"
  unfolding r'_def
  by (induction cs arbitrary: r) (simp_all add: bumpRec_def addTx_def Let_def txOf_fields(2-) [OF assms(1)] max_def add.assoc [symmetric])

subsection \<open>Properties\<close>

text \<open>C31: the record of a service is the total of its transactions. After any sequence of processed transactions, the
  record of a service has their number, the number with an error, the sum and the maximum of their times (a negative
  time counting as 0), the numbers of satisfied and tolerated ones by the apdex times, and the sums of their SQL and
  HTTP calls, each at its width; transactions of other services do not change it.\<close>
theorem service_totals:
  assumes "tranx_ok E U s" and "list_all (processed conf U) cs" and "entry_of (HM E) (tranx s) h = None"
    and own: "own = filter (\<lambda>c. ServiceHash c = h) cs" and "own \<noteq> []"
  shows "\<exists>r. entry_of (HM E) (tranx (fold (afterProcess E conf w mc kh now) cs s)) h = Some r \<and>
     i32 (trCount r) = i32 (int (length own)) \<and> i32 (trError r) = i32 (int (length (filter (\<lambda>c. cError c \<noteq> 0) own))) \<and>
     i64 (TimeSum r) = i64 (\<Sum>c\<leftarrow>own. max 0 (Elapsed c)) \<and> TimeMax r = fold (\<lambda>c m. max m (max 0 (Elapsed c))) own 0 \<and>
     i32 (ApdexSatisfied r) = i32 (int (length (filter (\<lambda>c. ErrorLevel c < w \<and> Elapsed c \<le> ApdexTime conf) own))) \<and>
     i32 (ApdexTolerated r) = i32 (int (length (filter (\<lambda>c. ErrorLevel c < w \<and> ApdexTime conf < Elapsed c \<and> Elapsed c \<le> ApdexTime4T conf) own))) \<and>
     i32 (trSqlCount r) = i32 (\<Sum>c\<leftarrow>own. SqlCount c) \<and> i64 (trSqlTime r) = i64 (\<Sum>c\<leftarrow>own. SqlTime c) \<and>
     i32 (trHttpcCount r) = i32 (\<Sum>c\<leftarrow>own. HttpcCount c) \<and> i64 (trHttpcTime r) = i64 (\<Sum>c\<leftarrow>own. HttpcTime c)"
proof -
  let ?r = "fold (bumpRec conf w mc kh) own (NewTransactionRec h)"
  from assms(5) own obtain c where c: "c \<in> set cs" "ServiceHash c = h" by (auto simp: filter_empty_conv)
  with assms(2) have n: "0 \<le> TxTextErrorLength conf" by (auto simp: list_all_iff processed_def)
  have e: "entry_of (HM E) (tranx (fold (afterProcess E conf w mc kh now) cs s)) h = Some ?r"
    unfolding own by (rule services.folds_from_empty [OF assms(1,2,3)]) (use c in auto)
  have ap: "apdexOf conf w l e = 2 \<longleftrightarrow> l < w \<and> e \<le> ApdexTime conf"
    "apdexOf conf w l e = 1 \<longleftrightarrow> l < w \<and> ApdexTime conf < e \<and> e \<le> ApdexTime4T conf" for l e
    by (auto simp: apdexOf_def)
  show ?thesis
    using e fold_bump_totals [OF n, of w mc kh own "NewTransactionRec h"] by (simp add: NewTransactionRec_def ap)
qed

text \<open>Instances of the parameters.\<close>

definition senv1 :: "((int \<times> nat) list, ((int \<times> int) \<times> nat) list, (MtraceKEY \<times> nat) list, (int \<times> nat) list, int list) stat_env" where
  "senv1 = \<lparr>HM = alist_hm 100, HI = alist_hm 100, HK = alist_hm 100, HL = alist_hm 100, addNoOver = (\<lambda>k n g. k # g), newCounts = [],
     countsSize = length, clearCounts = (\<lambda>g. []), statHash = (\<lambda>x. int (length x)), Composite64 = (\<lambda>a b. 4294967296 * a + b)\<rparr>"

definition stats1 :: "((int \<times> nat) list, ((int \<times> int) \<times> nat) list, (MtraceKEY \<times> nat) list, (int \<times> nat) list, int list) stats" where
  "stats1 = \<lparr>tranx = \<lparr>tab = [], cells = (\<lambda>_. NewTransactionRec 0), fresh = 0\<rparr>, tranxDomain = \<lparr>tab = [], cells = (\<lambda>_. NewTimeCountDefault), fresh = 0\<rparr>,
     tranxLogin = \<lparr>tab = [], cells = (\<lambda>_. NewTimeCountDefault), fresh = 0\<rparr>, tranxReferer = \<lparr>tab = [], cells = (\<lambda>_. NewTimeCountDefault), fresh = 0\<rparr>,
     tranxMtCaller = \<lparr>tab = [], cells = (\<lambda>_. NewTimeCountDefault), fresh = 0\<rparr>, remoteIPURL = \<lparr>tab = [], cells = (\<lambda>_. NewTimeCountDefault), fresh = 0\<rparr>,
     tranxStatus = \<lparr>tab = [], cells = (\<lambda>_. NewTimeCountDefault), fresh = 0\<rparr>, remoteIp = [], userAgents = [], LastReject = 0, stat_outs = []\<rparr>"

definition sconf1 :: stat_conf where
  "sconf1 = \<lparr>StatEnabled = True, StatIPURLEnabled = True, StatIPURLMaxCount = 100, StatTxStatusMaxCount = 100, Stat1MEnabled = False, StatZipEnabled = True,
     StatLoginEnabled = True, StatDomainEnabled = True, StatRefererEnabled = True, StatRefererFormat = REFERER_FORMAT_URL, StatMtraceEnabled = True,
     MtraceSpec = [], MtraceSpecHash = 0, ApdexTime = 1200, ApdexTime4T = 4800, ProfileBasetime = 500, TxTextTxnameEnabled = True,
     TxTextErrorEnabled = True, TxTextErrorLength = 80, TraceZipEnabled = True\<rparr>"

definition ctx1 :: "int \<Rightarrow> int \<Rightarrow> txctx" where
  "ctx1 svc el = \<lparr>IsStaticContents = False, ProfileSeq = 1, EndTime = 0, Elapsed = el, ServiceHash = svc, ServicePath = ''/'', Thr = None, RemoteIp = 0,
     WClientId = 0, UserAgent = 0, McallerPcode = 0, McallerOkind = 0, McallerOid = 0, Mtid = 0, Mdepth = 0, McallerTxid = 0, McallerStepId = 0,
     McallerSpec = [], McallerUrl = [], McallerUrlHash = 0, StartCpu = 0, EndCpu = -1, StartMalloc = 0, EndMalloc = -1, SqlCount = 2, SqlTime = 30,
     RsCount = 0, RsTime = 0, DbcTime = 0, cError = 0, ErrorLevel = 0, HttpHostHash = 0, Referer = 0, RefererDomain = [], RefererDomainPath = [],
     RefererPath = [], HttpcCount = 0, HttpcTime = 0, Status = 200, HttpMethod = [], Login = [], ProfileActive = 0\<rparr>"

lemma stats1_ok: "tranx_ok senv1 {5, 6} stats1"
proof -
  have "hm_get (alist_hm 100) [] k = None" for k :: int by (simp add: alist_hm_def)
  then show ?thesis
    using alist_hm_laws [of 100] alist_hm_room [of "{5, 6 :: int}" 100]
    by (simp add: tranx_ok_def senv1_def stats1_def tbl_ok_def entry_of_def)
qed

theorem service_totals_witness:
  "\<exists>r. entry_of (HM senv1) (tranx (fold (afterProcess senv1 sconf1 20 (\<lambda>_. 0) 0 7) [ctx1 5 100, ctx1 6 9, ctx1 5 2000] stats1)) 5 = Some r \<and>
     i32 (trCount r) = 2 \<and> i64 (TimeSum r) = 2100 \<and> TimeMax r = 2000 \<and> i32 (ApdexSatisfied r) = 1 \<and> i32 (ApdexTolerated r) = 1 \<and> i32 (trSqlCount r) = 4"
proof -
  have own: "[ctx1 5 100, ctx1 5 2000] = filter (\<lambda>c. ServiceHash c = 5) [ctx1 5 100, ctx1 6 9, ctx1 5 2000]" by (simp add: ctx1_def)
  have v: "list_all (processed sconf1 {5, 6}) [ctx1 5 100, ctx1 6 9, ctx1 5 2000]" by (simp add: processed_def sconf1_def ctx1_def)
  have e: "entry_of (HM senv1) (tranx stats1) 5 = None" by (simp add: senv1_def stats1_def entry_of_def alist_hm_def)
  from service_totals [OF stats1_ok v e own, of 20 "\<lambda>_. 0" 0 7] show ?thesis by (auto simp: ctx1_def sconf1_def)
qed


subsection \<open>Transactions and intervals\<close>

text \<open>What the statistics see: transactions that end and intervals that begin, each at its time. The first result of a step
  tells whether the profile of the transaction was sent.\<close>

datatype stat_event = TxEnd int txctx | NewInterval int

fun stat_step ::
  "('m, 'i, 'k, 'l, 'g) stat_env \<Rightarrow> stat_conf \<Rightarrow> int \<Rightarrow> (string \<Rightarrow> int) \<Rightarrow> int \<Rightarrow> stat_event \<Rightarrow> ('m, 'i, 'k, 'l, 'g) stats \<Rightarrow>
   bool list \<times> ('m, 'i, 'k, 'l, 'g) stats" where
  "stat_step E conf w mc kh (TxEnd now ctx) s = (case process E conf w mc kh now 0 () ctx s of (p, s', _) \<Rightarrow> ([p \<noteq> None], s'))"
| "stat_step E conf w mc kh (NewInterval now) s = ([], timing_turn E conf now s)"

fun stat_run ::
  "('m, 'i, 'k, 'l, 'g) stat_env \<Rightarrow> stat_conf \<Rightarrow> int \<Rightarrow> (string \<Rightarrow> int) \<Rightarrow> int \<Rightarrow> stat_event list \<Rightarrow> ('m, 'i, 'k, 'l, 'g) stats \<Rightarrow>
   bool list \<times> ('m, 'i, 'k, 'l, 'g) stats" where
  "stat_run E conf w mc kh [] s = ([], s)"
| "stat_run E conf w mc kh (e # es) s =
     (case stat_step E conf w mc kh e s of (b, s1) \<Rightarrow> (case stat_run E conf w mc kh es s1 of (bs, s2) \<Rightarrow> (b @ bs, s2)))"

fun event_ok :: "stat_conf \<Rightarrow> int set \<Rightarrow> stat_event \<Rightarrow> bool" where
  "event_ok conf U (TxEnd now ctx) = processed conf U ctx"
| "event_ok conf U (NewInterval now) = True"

text \<open>The intended sampling of profiles: within an interval the first transaction of each service, and every one that has
  an error, takes long, is part of a multi-transaction trace or was selected while it ran.\<close>

definition noteworthy :: "stat_conf \<Rightarrow> txctx \<Rightarrow> bool" where
  "noteworthy conf c \<longleftrightarrow> ProfileActive c \<noteq> 0 \<or> ProfileBasetime conf \<le> max 0 (Elapsed c) \<or> cError c \<noteq> 0 \<or> Mtid c \<noteq> 0"

fun sampled :: "stat_conf \<Rightarrow> int set \<Rightarrow> stat_event list \<Rightarrow> bool list" where
  "sampled conf seen [] = []"
| "sampled conf seen (TxEnd now c # es) = (ServiceHash c \<notin> seen \<or> noteworthy conf c) # sampled conf (insert (ServiceHash c) seen) es"
| "sampled conf seen (NewInterval now # es) = sampled conf {} es"

definition profiled_services :: "('m, 'i, 'k, 'l, 'g) stat_env \<Rightarrow> ('m, 'i, 'k, 'l, 'g) stats \<Rightarrow> int set" where
  "profiled_services E s = {k. \<exists>r. entry_of (HM E) (tranx s) k = Some r \<and> Profiled r}"

text \<open>The counts of a service in the packs sent and in its present record.\<close>

fun out_count :: "int \<Rightarrow> 'g stat_out \<Rightarrow> int" where
  "out_count h (OutTranx rs spec t) = (\<Sum>r\<leftarrow>filter (\<lambda>r. trHash r = h) rs. trCount r)"
| "out_count h _ = 0"

definition reported :: "int \<Rightarrow> ('m, 'i, 'k, 'l, 'g) stats \<Rightarrow> int" where
  "reported h s = (\<Sum>out\<leftarrow>stat_outs s. out_count h out)"

definition pending :: "('m, 'i, 'k, 'l, 'g) stat_env \<Rightarrow> int \<Rightarrow> ('m, 'i, 'k, 'l, 'g) stats \<Rightarrow> int" where
  "pending E h s = (case entry_of (HM E) (tranx s) h of None \<Rightarrow> 0 | Some r \<Rightarrow> trCount r)"

fun ends :: "int \<Rightarrow> stat_event \<Rightarrow> bool" where
  "ends h (TxEnd now c) = (ServiceHash c = h)"
| "ends h (NewInterval now) = False"

lemma remarkable_noteworthy: "0 \<le> TxTextErrorLength conf \<Longrightarrow> remarkable conf c (txOf conf w mc kh c) = noteworthy conf c"
  by (simp add: remarkable_def noteworthy_def txOf_fields not_less le_max_iff_disj)

lemma reported_cong [simp]:
  "reported h (statIpUrl E conf w ctx tx s) = reported h s" "reported h (statDomain E conf ctx tx s) = reported h s"
  "reported h (statReferer E conf ctx tx s) = reported h s"
  by (simp_all add: reported_def statIpUrl_def statDomain_def statReferer_def Let_def split: prod.splits option.splits referer_format.splits)

lemma statLogin_reported: "statLogin E conf ctx tx s = (tx', s') \<Longrightarrow> reported h s' = reported h s"
  by (auto simp: statLogin_def reported_def Let_def split: if_splits prod.splits)

lemma statMtrace_reported: "statMtrace E conf ctx tx s = (tx', s') \<Longrightarrow> reported h s' = reported h s"
  by (auto simp: statMtrace_def reported_def Let_def split: if_splits prod.splits)

lemma sendProfile_stats_reported: "sendProfile_stats E conf w ctx tx s = (tx', s') \<Longrightarrow> reported h s' = reported h s"
  by (auto simp: sendProfile_stats_def Let_def split: prod.splits dest!: statLogin_reported [where h = h] statMtrace_reported [where h = h])
    (simp_all add: reported_def)

lemma process_reported: "process E conf w mc kh now sc st ctx s = (p, s', cl) \<Longrightarrow> reported h s' = reported h s"
  by (auto simp: process_def SendProfile_def Let_def split: if_splits sum.splits prod.splits option.splits
      dest!: sendProfile_stats_reported [where h = h]) (simp_all add: reported_def)

lemma values_count:
  assumes "distinct (map fst xs)" and "\<And>k r. (k, r) \<in> set xs \<Longrightarrow> trHash r = k"
  shows "(\<Sum>r\<leftarrow>filter (\<lambda>r. trHash r = h) (map snd xs). trCount r) = (case map_of xs h of None \<Rightarrow> 0 | Some r \<Rightarrow> trCount r)"
  using assms
proof (induction xs)
  case (Cons x xs)
  obtain k r where x: "x = (k, r)" by (cases x)
  have t: "trHash r = k" by (rule Cons.prems(2)) (simp add: x)
  have xs: "distinct (map fst xs)" using Cons.prems(1) by simp
  have ks: "trHash r = k" if "(k, r) \<in> set xs" for k r by (rule Cons.prems(2)) (simp add: that)
  have "map_of xs k = None" using Cons.prems(1) x by (simp add: map_of_eq_None_iff)
  with Cons.IH [OF xs ks] show ?case by (cases "k = h") (simp_all add: x t)
qed simp

lemma other_Sends [simp]:
  "tranx (StatTranxDomain_Send E now s) = tranx s" "reported h (StatTranxDomain_Send E now s) = reported h s"
  "tranx (StatTranxMtCaller_Send E conf now s) = tranx s" "reported h (StatTranxMtCaller_Send E conf now s) = reported h s"
  "tranx (StatTranxLogin_Send E now s) = tranx s" "reported h (StatTranxLogin_Send E now s) = reported h s"
  "tranx (StatTranxReferer_Send E now s) = tranx s" "reported h (StatTranxReferer_Send E now s) = reported h s"
  "tranx (StatRemoteIp_Send E now s) = tranx s" "reported h (StatRemoteIp_Send E now s) = reported h s"
  "tranx (StatRemoteIPURL_Send E conf now s) = tranx s" "reported h (StatRemoteIPURL_Send E conf now s) = reported h s"
  "tranx (StatUserAgent_Send E now s) = tranx s" "reported h (StatUserAgent_Send E now s) = reported h s"
  by (simp_all add: reported_def StatTranxDomain_Send_def StatTranxMtCaller_Send_def StatTranxLogin_Send_def
      StatTranxReferer_Send_def StatRemoteIp_Send_def StatRemoteIPURL_Send_def StatUserAgent_Send_def Let_def)

lemma timing_turn_tranx:
  "tranx (timing_turn E conf now s) =
     (if StatEnabled conf \<and> hm_size (HM E) (tab (tranx s)) = 0 then tranx s else clear_tbl (HM E) (tranx s))"
  by (simp add: timing_turn_def StatTranx_Send_def)

lemma timing_turn_reported:
  assumes "StatEnabled conf"
  shows "reported h (timing_turn E conf now s) = reported h (StatTranx_Send E conf now s)"
  using assms by (simp add: timing_turn_def)

lemma timing_turn_step:
  assumes "tranx_ok E U s"
  shows "tranx_ok E U (timing_turn E conf now s)" and "entry_of (HM E) (tranx (timing_turn E conf now s)) = (\<lambda>k. None)"
    and "StatEnabled conf \<Longrightarrow> reported h (timing_turn E conf now s) = reported h s + pending E h s"
proof -
  have laws: "hm_laws (HM E)" using assms by (simp add: tranx_ok_def)
  note c = clear_tbl_props [OF laws, of "tranx s"]
  show e: "entry_of (HM E) (tranx (timing_turn E conf now s)) = (\<lambda>k. None)"
    using c(2) empty_entries [OF laws, of "tranx s"] by (auto simp: timing_turn_tranx)
  show "tranx_ok E U (timing_turn E conf now s)"
    using assms c e by (simp add: tranx_ok_def timing_turn_tranx)
  assume "StatEnabled conf"
  note r = timing_turn_reported [OF this, of h E now s]
  note v = values_of_iff [OF laws, where t = "tranx s"]
  have "trHash r = k" if "(k, r) \<in> set (values_of (HM E) (tranx s))" for k r using that v(1) assms by (auto simp: tranx_ok_def)
  note vc = values_count [OF v(2) this, of h]
  have m: "map_of (values_of (HM E) (tranx s)) h = entry_of (HM E) (tranx s) h"
    using v(1) map_of_eq_Some_iff [OF v(2), of h] by (metis not_None_eq)
  from vc have "(\<Sum>r\<leftarrow>filter (\<lambda>r. trHash r = h) (map snd (values_of (HM E) (tranx s))). trCount r) = pending E h s"
    using m by (simp add: pending_def)
  then show "reported h (timing_turn E conf now s) = reported h s + pending E h s"
    unfolding r using empty_entries [OF laws, of "tranx s" h] by (simp add: StatTranx_Send_def reported_def pending_def)
qed

lemma stat_step_props:
  assumes "tranx_ok E U s" and "event_ok conf U e" and st: "stat_step E conf w mc kh e s = (b, s')"
  shows "tranx_ok E U s'" and "b @ sampled conf (profiled_services E s') es = sampled conf (profiled_services E s) (e # es)"
    and "StatEnabled conf \<Longrightarrow> i32 (reported h s' + pending E h s') = i32 (reported h s + pending E h s + (if ends h e then 1 else 0))"
proof -
  have "tranx_ok E U s' \<and> b @ sampled conf (profiled_services E s') es = sampled conf (profiled_services E s) (e # es) \<and>
    (StatEnabled conf \<longrightarrow> i32 (reported h s' + pending E h s') = i32 (reported h s + pending E h s + (if ends h e then 1 else 0)))"
  proof (cases e)
    case (TxEnd now c)
    with assms(2) have c: "processed conf U c" by simp
    then have n: "0 \<le> TxTextErrorLength conf" by (simp add: processed_def)
    from st TxEnd obtain p cl where p: "process E conf w mc kh now 0 () c s = (p, s', cl)" and b: "b = [p \<noteq> None]" by (auto split: prod.splits)
    note ps = process_step [OF assms(1) c p]
    have "profiled_services E s' = insert (ServiceHash c) (profiled_services E s)"
      using ps(1) by (auto simp: profiled_services_def bumpRec_def)
    moreover have "p \<noteq> None \<longleftrightarrow> ServiceHash c \<notin> profiled_services E s \<or> noteworthy conf c"
      using ps(3) remarkable_noteworthy [OF n] by (auto simp: profiled_services_def split: option.splits)
    moreover have "pending E h s' = (if ServiceHash c = h then i32 (pending E h s + 1) else pending E h s)"
      using ps(1) by (simp add: pending_def bumpRec_def addTx_def Let_def NewTransactionRec_def split: option.split)
    ultimately show ?thesis using ps(2) process_reported [OF p, of h] TxEnd b by (simp add: add.assoc)
  next
    case (NewInterval now)
    with st have s': "s' = timing_turn E conf now s" "b = []" by auto
    note t = timing_turn_step [OF assms(1), where conf = conf and now = now]
    have "profiled_services E s' = {}" "pending E h s' = 0" using t(2) s' by (simp_all add: profiled_services_def pending_def)
    then show ?thesis using t(1) t(3) [where h = h] s' NewInterval by simp
  qed
  then show "tranx_ok E U s'" and "b @ sampled conf (profiled_services E s') es = sampled conf (profiled_services E s) (e # es)"
    and "StatEnabled conf \<Longrightarrow> i32 (reported h s' + pending E h s') = i32 (reported h s + pending E h s + (if ends h e then 1 else 0))" by auto
qed

lemma stat_run_props:
  assumes "tranx_ok E U s" and "list_all (event_ok conf U) es" and "stat_run E conf w mc kh es s = (bs, s')"
  shows "tranx_ok E U s' \<and> bs = sampled conf (profiled_services E s) es \<and>
    (StatEnabled conf \<longrightarrow> i32 (reported h s' + pending E h s') = i32 (reported h s + pending E h s + int (length (filter (ends h) es))))"
  using assms
proof (induction es arbitrary: s bs s')
  case (Cons e es)
  obtain b s1 where st: "stat_step E conf w mc kh e s = (b, s1)" by force
  obtain bs2 s2 where run: "stat_run E conf w mc kh es s1 = (bs2, s2)" by force
  from Cons.prems have e: "event_ok conf U e" and es: "list_all (event_ok conf U) es" by auto
  note p = stat_step_props [OF Cons.prems(1) e st]
  note IH = Cons.IH [OF p(1) es run]
  have res: "bs = b @ bs2" "s' = s2" using Cons.prems(3) st run by auto
  have "i32 (reported h s2 + pending E h s2) = i32 (reported h s + pending E h s + int (length (filter (ends h) (e # es))))" if "StatEnabled conf"
  proof -
    have "i32 (reported h s2 + pending E h s2) = i32 (i32 (reported h s1 + pending E h s1) + int (length (filter (ends h) es)))"
      using IH that by simp
    also have "\<dots> = i32 (reported h s + pending E h s + (if ends h e then 1 else 0) + int (length (filter (ends h) es)))"
      using p(3) [OF that] by simp
    also have "\<dots> = i32 (reported h s + pending E h s + int (length (filter (ends h) (e # es))))" by (simp add: algebra_simps)
    finally show ?thesis .
  qed
  then show ?case using IH p(2) [of es] res by simp
qed simp





text \<open>The minimum forgets a transaction of no time. As 0 stands for \<^emph>\<open>no transaction yet\<close> in \<open>TimeMin\<close>, a transaction of
  time 0 (or less) is followed by the next one's time as the minimum, however long that is.\<close>
theorem zero_time_forgotten:
  assumes "tranx_ok E U s" and "list_all (processed conf U) cs" and "entry_of (HM E) (tranx s) h = None"
    and "filter (\<lambda>c. ServiceHash c = h) cs = before @ [a, b]" and "Elapsed a \<le> 0" and "0 < Elapsed b"
  shows "\<exists>r. entry_of (HM E) (tranx (fold (afterProcess E conf w mc kh now) cs s)) h = Some r \<and> TimeMin r = Elapsed b"
proof -
  let ?f = "fold (bumpRec conf w mc kh)"
  have c: "\<exists>c\<in>set cs. ServiceHash c = h"
  proof -
    have "a \<in> set (filter (\<lambda>c. ServiceHash c = h) cs)" by (simp add: assms(4))
    then show ?thesis by auto
  qed
  then have n: "0 \<le> TxTextErrorLength conf" using assms(2) by (auto simp: list_all_iff processed_def)
  note t = txOf_fields(3) [OF n, of w mc kh]
  have pos: "0 \<le> TimeMin r \<Longrightarrow> 0 \<le> TimeMin (?f xs r)" for xs r
    by (induction xs arbitrary: r) (auto simp: bumpRec_def addTx_def Let_def)
  have "0 \<le> TimeMin (?f before (NewTransactionRec h))" by (rule pos) (simp add: NewTransactionRec_def)
  then have "TimeMin (?f (before @ [a, b]) (NewTransactionRec h)) = Elapsed b"
    using assms(5,6) by (simp add: bumpRec_def addTx_def Let_def t max_def)
  moreover have "entry_of (HM E) (tranx (fold (afterProcess E conf w mc kh now) cs s)) h = Some (?f (before @ [a, b]) (NewTransactionRec h))"
    using services.folds_from_empty [OF assms(1,2,3) c] assms(4) by simp
  ultimately show ?thesis by blast
qed

theorem zero_time_forgotten_witness:
  "\<exists>r. entry_of (HM senv1) (tranx (fold (afterProcess senv1 sconf1 20 (\<lambda>_. 0) 0 7) [ctx1 5 0, ctx1 6 9, ctx1 5 2000] stats1)) 5 = Some r \<and> TimeMin r = 2000"
proof -
  have v: "list_all (processed sconf1 {5, 6}) [ctx1 5 0, ctx1 6 9, ctx1 5 2000]" by (simp add: processed_def sconf1_def ctx1_def)
  have e: "entry_of (HM senv1) (tranx stats1) 5 = None" by (simp add: senv1_def stats1_def entry_of_def alist_hm_def)
  have own: "filter (\<lambda>c. ServiceHash c = 5) [ctx1 5 0, ctx1 6 9, ctx1 5 2000] = [] @ [ctx1 5 0, ctx1 5 2000]" by (simp add: ctx1_def)
  from zero_time_forgotten [OF stats1_ok v e own, of 20 "\<lambda>_. 0" 0 7] show ?thesis by (simp add: ctx1_def)
qed

end
