(* ===== verification/Stat_Calls.thy ===== *)
theory Stat_Calls
  imports Stat_Tables
begin

text \<open>
  The statistics of SQL statements, outgoing HTTP calls and errors (\<^verbatim>\<open>StatSql.go\<close>, \<^verbatim>\<open>StatHttpc.go\<close> and
  \<^verbatim>\<open>StatError.go\<close> of package \<^verbatim>\<open>agent/agent/stat\<close>). They keep tables of the same kind as those of
  \<^verbatim>\<open>Stat_Tables\<close>; the first error of a class in a service is also sent as a snapshot.

  Hashing, \<open>Composite64\<close> with its two projections and \<open>TrimEmpty\<close> are functions of module golib: fields of
  \<open>call_env\<close>. The clock is an argument.
\<close>

subsection \<open>State\<close>

record SqlRec =
  sqDbc :: int
  sqSql :: int
  sqCountTotal :: int
  sqCountError :: int
  sqTimeSum :: int
  sqTimeStd :: int
  sqTimeMin :: int
  sqTimeMax :: int
  FetchCount :: int
  FetchTime :: int
  UpdateCount :: int
  sqService :: int

record HTTPC =
  hcUrl :: int
  hcHost :: int
  hcPort :: int

record HttpcRec =
  hrKey :: HTTPC
  hrCountTotal :: int
  hrCountError :: int
  hrTimeSum :: int
  hrTimeStd :: int
  hrTimeMin :: int
  hrTimeMax :: int
  hrService :: int

record ErrorThrowable =
  ErrorClassName :: string
  ErrorStack :: "int list"

record ErrorRec =
  ClassHash :: int
  erService :: int
  Msg :: int
  SnapSeq :: int
  erCount :: int

text \<open>A snapshot has its number, the steps of the transaction, the stack and what it is appended to.\<close>

record 'st ErrorSnap =
  snSeq :: int
  snSteps :: "'st list"
  snStack :: "int list"
  AppendType :: int
  AppendHash :: int
  snTime :: int

datatype 'st call_out =
    ErrorText int string
  | Snap "'st ErrorSnap"
  | OutSql "SqlRec list" int
  | OutHttpc "HttpcRec list" int
  | OutError "ErrorRec list" int

record ('q, 'c, 'e, 'st) call_stats =
  sqlTable :: "('q, SqlRec) tbl"
  httpcTable :: "('c, HttpcRec) tbl"
  errorTable :: "('e, ErrorRec) tbl"
  ErrorSnapSeq :: int
  call_outs :: "'st call_out list"

record ('q, 'c, 'e) call_env =
  HQ :: "('q, int) hm"
  HC :: "('c, HTTPC) hm"
  HE :: "('e, int) hm"
  callHash :: "string \<Rightarrow> int"
  Comp64 :: "int \<Rightarrow> int \<Rightarrow> int"
  GetHigh64 :: "int \<Rightarrow> int"
  GetLow64 :: "int \<Rightarrow> int"
  TrimEmpty :: "string \<Rightarrow> string"

text \<open>The projections undo \<open>Composite64\<close> on numbers of 32 bits.\<close>

definition call_laws :: "('q, 'c, 'e) call_env \<Rightarrow> bool" where
  "call_laws E \<longleftrightarrow> hm_laws (HQ E) \<and> hm_laws (HC E) \<and> hm_laws (HE E) \<and>
     (\<forall>a b. i32 a = a \<longrightarrow> i32 b = b \<longrightarrow> GetHigh64 E (Comp64 E a b) = a \<and> GetLow64 E (Comp64 E a b) = b)"

definition MaxInt32 :: int where
  "MaxInt32 = 2147483647"

subsection \<open>SQL statements\<close>

definition NewSqlRec :: "int \<Rightarrow> int \<Rightarrow> SqlRec" where
  "NewSqlRec dbc sql = \<lparr>sqDbc = dbc, sqSql = sql, sqCountTotal = 0, sqCountError = 0, sqTimeSum = 0, sqTimeStd = 0, sqTimeMin = MaxInt32, sqTimeMax = 0,
     FetchCount = 0, FetchTime = 0, UpdateCount = 0, sqService = 0\<rparr>"

definition sql_intern :: "('q, 'c, 'e) call_env \<Rightarrow> int \<Rightarrow> ('q, SqlRec) tbl \<Rightarrow> nat option \<times> ('q, SqlRec) tbl" where
  "sql_intern E key t = getOrNil (HQ E) (\<not> hm_full (HQ E) (tab t)) key (NewSqlRec (GetHigh64 E key) (GetLow64 E key)) t"

definition getSql :: "('q, 'c, 'e) call_env \<Rightarrow> int \<Rightarrow> int \<Rightarrow> ('q, SqlRec) tbl \<Rightarrow> nat option \<times> ('q, SqlRec) tbl" where
  "getSql E dbc sql t = sql_intern E (Comp64 E dbc sql) t"

definition fetchRec :: "int \<Rightarrow> int \<Rightarrow> SqlRec \<Rightarrow> SqlRec" where
  "fetchRec fetch fetchTime r = r\<lparr>FetchCount := i64 (FetchCount r + fetch), FetchTime := i64 (FetchTime r + fetchTime)\<rparr>"

definition AddFetch :: "('q, 'c, 'e) call_env \<Rightarrow> int \<Rightarrow> int \<Rightarrow> int \<Rightarrow> int \<Rightarrow> ('q, 'c, 'e, 'st) call_stats \<Rightarrow> ('q, 'c, 'e, 'st) call_stats" where
  "AddFetch E dbc sql fetch fetchTime s =
     (if sql = 0 then s else s\<lparr>sqlTable := through (getSql E dbc sql (sqlTable s)) (fetchRec fetch fetchTime)\<rparr>)"

definition updateRec :: "int \<Rightarrow> SqlRec \<Rightarrow> SqlRec" where
  "updateRec updated r = r\<lparr>UpdateCount := i64 (UpdateCount r + updated)\<rparr>"

definition AddUpdate :: "('q, 'c, 'e) call_env \<Rightarrow> int \<Rightarrow> int \<Rightarrow> int \<Rightarrow> ('q, 'c, 'e, 'st) call_stats \<Rightarrow> ('q, 'c, 'e, 'st) call_stats" where
  "AddUpdate E dbc sql updated s =
     (if sql = 0 then s else s\<lparr>sqlTable := through (getSql E dbc sql (sqlTable s)) (updateRec updated)\<rparr>)"

definition sqlTimeRec :: "int \<Rightarrow> int \<Rightarrow> bool \<Rightarrow> SqlRec \<Rightarrow> SqlRec" where
  "sqlTimeRec urlHash time isErr r =
     r\<lparr>sqCountTotal := i32 (sqCountTotal r + 1), sqTimeSum := i64 (sqTimeSum r + time), sqTimeStd := i64 (sqTimeStd r + i64 (time * time)),
       sqTimeMin := min (sqTimeMin r) time, sqTimeMax := max (sqTimeMax r) time,
       sqCountError := (if isErr then i32 (sqCountError r + 1) else sqCountError r), sqService := urlHash\<rparr>"

definition AddSqlTime :: "('q, 'c, 'e) call_env \<Rightarrow> int \<Rightarrow> int \<Rightarrow> int \<Rightarrow> int \<Rightarrow> bool \<Rightarrow> ('q, 'c, 'e, 'st) call_stats \<Rightarrow> ('q, 'c, 'e, 'st) call_stats" where
  "AddSqlTime E urlHash dbc sql time isErr s =
     (if sql \<noteq> 0 then s\<lparr>sqlTable := through (getSql E dbc sql (sqlTable s)) (sqlTimeRec urlHash time isErr)\<rparr> else s)"

definition StatSql_Send :: "('q, 'c, 'e) call_env \<Rightarrow> int \<Rightarrow> ('q, 'c, 'e, 'st) call_stats \<Rightarrow> ('q, 'c, 'e, 'st) call_stats" where
  "StatSql_Send E now s =
     (if hm_size (HQ E) (tab (sqlTable s)) = 0 then s
      else s\<lparr>sqlTable := clear_tbl (HQ E) (sqlTable s), call_outs := call_outs s @ [OutSql (map snd (values_of (HQ E) (sqlTable s))) now]\<rparr>)"

subsection \<open>Outgoing HTTP calls\<close>

definition NewHTTPC :: "int \<Rightarrow> int \<Rightarrow> int \<Rightarrow> HTTPC" where
  "NewHTTPC url host port = \<lparr>hcUrl = url, hcHost = host, hcPort = port\<rparr>"

definition HTTPC_Hash :: "HTTPC \<Rightarrow> 64 word" where
  "HTTPC_Hash k =
     (let r1 = 31 * 1 + word_of_int (hcHost k); r2 = 31 * r1 + word_of_int (hcPort k) in 31 * r2 + word_of_int (hcUrl k))"

definition HTTPC_Equals :: "HTTPC \<Rightarrow> HTTPC \<Rightarrow> bool" where
  "HTTPC_Equals k other \<longleftrightarrow> hcHost k = hcHost other \<and> hcPort k = hcPort other \<and> hcUrl k = hcUrl other"

lemma HTTPC_key: "HTTPC_Equals k k' \<longleftrightarrow> k = k'" "HTTPC_Equals k k' \<Longrightarrow> HTTPC_Hash k = HTTPC_Hash k'"
  by (auto simp: HTTPC_Equals_def HTTPC_Hash_def)

definition NewHttpcRec :: "HTTPC \<Rightarrow> HttpcRec" where
  "NewHttpcRec k = \<lparr>hrKey = k, hrCountTotal = 0, hrCountError = 0, hrTimeSum = 0, hrTimeStd = 0, hrTimeMin = MaxInt32, hrTimeMax = 0, hrService = 0\<rparr>"

definition httpc_intern :: "('q, 'c, 'e) call_env \<Rightarrow> HTTPC \<Rightarrow> ('c, HttpcRec) tbl \<Rightarrow> nat option \<times> ('c, HttpcRec) tbl" where
  "httpc_intern E key t = getOrNil (HC E) (\<not> hm_full (HC E) (tab t)) key (NewHttpcRec key) t"

definition getHttpc :: "('q, 'c, 'e) call_env \<Rightarrow> int \<Rightarrow> int \<Rightarrow> int \<Rightarrow> ('c, HttpcRec) tbl \<Rightarrow> nat option \<times> ('c, HttpcRec) tbl" where
  "getHttpc E url host port t = httpc_intern E (NewHTTPC url host port) t"

definition httpcTimeRec :: "int \<Rightarrow> int \<Rightarrow> bool \<Rightarrow> HttpcRec \<Rightarrow> HttpcRec" where
  "httpcTimeRec serviceUrlHash time isErr r =
     r\<lparr>hrCountTotal := i32 (hrCountTotal r + 1), hrTimeSum := i64 (hrTimeSum r + time), hrTimeStd := i64 (hrTimeStd r + i64 (time * time)),
       hrTimeMax := max (hrTimeMax r) time, hrTimeMin := min (hrTimeMin r) time,
       hrCountError := (if isErr then i32 (hrCountError r + 1) else hrCountError r), hrService := serviceUrlHash\<rparr>"

definition AddHttpcTime ::
  "('q, 'c, 'e) call_env \<Rightarrow> int \<Rightarrow> int \<Rightarrow> int \<Rightarrow> int \<Rightarrow> int \<Rightarrow> bool \<Rightarrow> ('q, 'c, 'e, 'st) call_stats \<Rightarrow> ('q, 'c, 'e, 'st) call_stats" where
  "AddHttpcTime E serviceUrlHash httpcUrlHash httpcHost httpcPort time isErr s =
     (if httpcUrlHash \<noteq> 0
      then s\<lparr>httpcTable := through (getHttpc E httpcUrlHash httpcHost httpcPort (httpcTable s)) (httpcTimeRec serviceUrlHash time isErr)\<rparr> else s)"

definition StatHttpc_Send :: "('q, 'c, 'e) call_env \<Rightarrow> int \<Rightarrow> ('q, 'c, 'e, 'st) call_stats \<Rightarrow> ('q, 'c, 'e, 'st) call_stats" where
  "StatHttpc_Send E now s =
     (if hm_size (HC E) (tab (httpcTable s)) = 0 then s
      else s\<lparr>httpcTable := clear_tbl (HC E) (httpcTable s), call_outs := call_outs s @ [OutHttpc (map snd (values_of (HC E) (httpcTable s))) now]\<rparr>)"

subsection \<open>Errors\<close>

definition NextErrorSnapSeq :: "('q, 'c, 'e, 'st) call_stats \<Rightarrow> int \<times> ('q, 'c, 'e, 'st) call_stats" where
  "NextErrorSnapSeq s = (let n = i64 (ErrorSnapSeq s + 1) in (n, s\<lparr>ErrorSnapSeq := n\<rparr>))"

definition sendErrorText :: "int \<Rightarrow> string \<Rightarrow> ('q, 'c, 'e, 'st) call_stats \<Rightarrow> ('q, 'c, 'e, 'st) call_stats" where
  "sendErrorText h txt s = s\<lparr>call_outs := call_outs s @ [ErrorText h txt]\<rparr>"

text \<open>A nil error panics; the panic is recovered and the number of the error is 0.\<close>

definition AddErrorHashOnly ::
  "('q, 'c, 'e) call_env \<Rightarrow> ErrorThrowable option \<Rightarrow> string \<Rightarrow> ('q, 'c, 'e, 'st) call_stats \<Rightarrow> int \<times> ('q, 'c, 'e, 'st) call_stats" where
  "AddErrorHashOnly E thr msg s =
     (case thr of
        None \<Rightarrow> (0, s)
      | Some t \<Rightarrow> (let ch = callHash E (ErrorClassName t); m = TrimEmpty E msg; mh = callHash E m in
          (Comp64 E ch mh, sendErrorText mh m (sendErrorText ch (ErrorClassName t) s))))"

text \<open>The common part of \<open>addError\<close> and \<open>AddErrorSql\<close>: find or make the record, send a snapshot if it has none yet and one is
  wanted, and count. \<open>AddErrorSql\<close> leaves stack, type and hash of the snapshot empty.\<close>

definition NewErrorRec :: "int \<Rightarrow> int \<Rightarrow> int \<Rightarrow> ErrorRec" where
  "NewErrorRec classHash service msgHash = \<lparr>ClassHash = classHash, erService = service, Msg = msgHash, SnapSeq = 0, erCount = 0\<rparr>"

definition countError ::
  "('q, 'c, 'e) call_env \<Rightarrow> int \<Rightarrow> int \<Rightarrow> int \<Rightarrow> int \<Rightarrow> bool \<Rightarrow> 'st list \<Rightarrow> int list \<Rightarrow> int \<Rightarrow> int \<Rightarrow> ('q, 'c, 'e, 'st) call_stats \<Rightarrow> ('q, 'c, 'e, 'st) call_stats" where
  "countError E now classHash service msgHash snap steps stack ty h s =
     (case getOrPut (HE E) (Comp64 E classHash service) (NewErrorRec classHash service msgHash) (errorTable s) of (a, t) \<Rightarrow>
        (let s1 = (if SnapSeq (cells t a) = 0 \<and> snap
                   then (case NextErrorSnapSeq s of (n, s0) \<Rightarrow>
                     s0\<lparr>errorTable := modify a (\<lambda>r. r\<lparr>SnapSeq := n, Msg := msgHash\<rparr>) t,
                        call_outs := call_outs s0 @
                          [Snap \<lparr>snSeq = n, snSteps = steps, snStack = stack, AppendType = ty, AppendHash = h, snTime = now\<rparr>]\<rparr>)
                   else s\<lparr>errorTable := t\<rparr>) in
         s1\<lparr>errorTable := modify a (\<lambda>r. r\<lparr>erCount := i32 (erCount r + 1)\<rparr>) (errorTable s1)\<rparr>))"

definition addError ::
  "('q, 'c, 'e) call_env \<Rightarrow> int \<Rightarrow> ErrorThrowable option \<Rightarrow> int \<Rightarrow> int \<Rightarrow> bool \<Rightarrow> 'st list \<Rightarrow> int \<Rightarrow> int \<Rightarrow> ('q, 'c, 'e, 'st) call_stats \<Rightarrow>
   int \<times> ('q, 'c, 'e, 'st) call_stats" where
  "addError E now thr msgHash txUrlHash errorSnapEnabled steps ty h s =
     (case thr of
        None \<Rightarrow> (0, s)
      | Some t \<Rightarrow> (let ch = callHash E (ErrorClassName t); s1 = sendErrorText ch (ErrorClassName t) s in
          (Comp64 E ch msgHash, countError E now ch txUrlHash msgHash errorSnapEnabled steps (ErrorStack t) ty h s1)))"

definition AddError ::
  "('q, 'c, 'e) call_env \<Rightarrow> int \<Rightarrow> ErrorThrowable option \<Rightarrow> string \<Rightarrow> int \<Rightarrow> bool \<Rightarrow> 'st list \<Rightarrow> int \<Rightarrow> int \<Rightarrow> ('q, 'c, 'e, 'st) call_stats \<Rightarrow>
   int \<times> ('q, 'c, 'e, 'st) call_stats" where
  "AddError E now thr msg txUrlHash errorSnapEnabled steps ty h s =
     (if msg = [] then addError E now thr 0 txUrlHash errorSnapEnabled steps ty h s
      else (let m = TrimEmpty E msg; mh = callHash E m in
            addError E now thr mh txUrlHash errorSnapEnabled steps ty h (sendErrorText mh m s)))"

definition AddErrorSql ::
  "('q, 'c, 'e) call_env \<Rightarrow> int \<Rightarrow> ErrorThrowable option \<Rightarrow> int \<Rightarrow> int \<Rightarrow> 'st list \<Rightarrow> ('q, 'c, 'e, 'st) call_stats \<Rightarrow> ('q, 'c, 'e, 'st) call_stats" where
  "AddErrorSql E now thr dbc service steps s =
     (case thr of
        None \<Rightarrow> s
      | Some t \<Rightarrow> (let ch = callHash E (ErrorClassName t) in
          countError E now ch service dbc (steps \<noteq> []) steps [] 0 0 (sendErrorText ch (ErrorClassName t) s)))"

definition StatError_Send :: "('q, 'c, 'e) call_env \<Rightarrow> int \<Rightarrow> ('q, 'c, 'e, 'st) call_stats \<Rightarrow> ('q, 'c, 'e, 'st) call_stats" where
  "StatError_Send E now s =
     (if hm_size (HE E) (tab (errorTable s)) = 0 then s
      else s\<lparr>errorTable := clear_tbl (HE E) (errorTable s), call_outs := call_outs s @ [OutError (map snd (values_of (HE E) (errorTable s))) now]\<rparr>)"

text \<open>The part of the turn of \<open>TimingSender\<close> that concerns these tables.\<close>

definition calls_turn :: "('q, 'c, 'e) call_env \<Rightarrow> bool \<Rightarrow> int \<Rightarrow> ('q, 'c, 'e, 'st) call_stats \<Rightarrow> ('q, 'c, 'e, 'st) call_stats" where
  "calls_turn E statEnabled now s =
     (if statEnabled then StatError_Send E now (StatHttpc_Send E now (StatSql_Send E now s))
      else s\<lparr>sqlTable := clear_tbl (HQ E) (sqlTable s), httpcTable := clear_tbl (HC E) (httpcTable s),
             errorTable := clear_tbl (HE E) (errorTable s)\<rparr>)"

subsection \<open>Calls as a keyed statistic\<close>

datatype sql_call = SqlTimed int int int int bool | SqlFetched int int int int | SqlUpdated int int int

fun sql_add :: "('q, 'c, 'e) call_env \<Rightarrow> sql_call \<Rightarrow> ('q, 'c, 'e, 'st) call_stats \<Rightarrow> ('q, 'c, 'e, 'st) call_stats" where
  "sql_add E (SqlTimed url dbc sql time isErr) s = AddSqlTime E url dbc sql time isErr s"
| "sql_add E (SqlFetched dbc sql fetch time) s = AddFetch E dbc sql fetch time s"
| "sql_add E (SqlUpdated dbc sql n) s = AddUpdate E dbc sql n s"

fun statement :: "sql_call \<Rightarrow> int \<times> int" where
  "statement (SqlTimed url dbc sql time isErr) = (dbc, sql)"
| "statement (SqlFetched dbc sql fetch time) = (dbc, sql)"
| "statement (SqlUpdated dbc sql n) = (dbc, sql)"

fun sql_bump :: "sql_call \<Rightarrow> SqlRec \<Rightarrow> SqlRec" where
  "sql_bump (SqlTimed url dbc sql time isErr) = sqlTimeRec url time isErr"
| "sql_bump (SqlFetched dbc sql fetch time) = fetchRec fetch time"
| "sql_bump (SqlUpdated dbc sql n) = updateRec n"

definition sqlKey :: "('q, 'c, 'e) call_env \<Rightarrow> sql_call \<Rightarrow> int" where
  "sqlKey E c = Comp64 E (fst (statement c)) (snd (statement c))"

definition sqlEntry :: "('q, 'c, 'e) call_env \<Rightarrow> ('q, 'c, 'e, 'st) call_stats \<Rightarrow> int \<Rightarrow> SqlRec option" where
  "sqlEntry E s = entry_of (HQ E) (sqlTable s)"

definition sql_ok :: "('q, 'c, 'e) call_env \<Rightarrow> int set \<Rightarrow> ('q, 'c, 'e, 'st) call_stats \<Rightarrow> bool" where
  "sql_ok E U s \<longleftrightarrow> keys_within (HQ E) U (sqlTable s)"

definition sql_counted :: "('q, 'c, 'e) call_env \<Rightarrow> int set \<Rightarrow> sql_call \<Rightarrow> bool" where
  "sql_counted E U c \<longleftrightarrow> snd (statement c) \<noteq> 0 \<and> sqlKey E c \<in> U"

lemma Comp64_inj:
  assumes "call_laws E" and "i32 a = a" "i32 b = b" "i32 c = c" "i32 d = d"
  shows "Comp64 E a b = Comp64 E c d \<longleftrightarrow> a = c \<and> b = d"
  using assms unfolding call_laws_def by metis

lemma sql_add_table:
  assumes "sql_counted E U c"
  shows "sql_add E c s = s\<lparr>sqlTable := through (sql_intern E (sqlKey E c) (sqlTable s)) (sql_bump c)\<rparr>"
  using assms by (cases c) (simp_all add: sql_counted_def sqlKey_def AddSqlTime_def AddFetch_def AddUpdate_def getSql_def)

interpretation sqls: keyed_stat_on "sql_counted E U" "sql_add E" "sqlKey E" "sqlEntry E" "sql_ok E U" "\<lambda>k. NewSqlRec (GetHigh64 E k) (GetLow64 E k)" sql_bump
  for E U
proof
  fix s c
  assume ok: "sql_ok E U s" and c: "sql_counted E U c"
  then have k: "keys_within (HQ E) U (sqlTable s)" "sqlKey E c \<in> U" by (auto simp: sql_ok_def sql_counted_def)
  note t = through_entry [OF k, of "NewSqlRec (GetHigh64 E (sqlKey E c)) (GetLow64 E (sqlKey E c))" "sql_bump c"]
  show "sql_ok E U (sql_add E c s)" using t(2) by (simp add: sql_add_table [OF c] sql_ok_def sql_intern_def)
  show "sqlEntry E (sql_add E c s) = (sqlEntry E s)(sqlKey E c \<mapsto>
      sql_bump c (case sqlEntry E s (sqlKey E c) of None \<Rightarrow> NewSqlRec (GetHigh64 E (sqlKey E c)) (GetLow64 E (sqlKey E c)) | Some e \<Rightarrow> e))"
    using t(1) by (simp add: sqlEntry_def sql_add_table [OF c] sql_intern_def)
qed

datatype httpc_call = HttpcTimed int HTTPC int bool

fun httpc_add :: "('q, 'c, 'e) call_env \<Rightarrow> httpc_call \<Rightarrow> ('q, 'c, 'e, 'st) call_stats \<Rightarrow> ('q, 'c, 'e, 'st) call_stats" where
  "httpc_add E (HttpcTimed svc k time isErr) s = AddHttpcTime E svc (hcUrl k) (hcHost k) (hcPort k) time isErr s"

fun callee :: "httpc_call \<Rightarrow> HTTPC" where
  "callee (HttpcTimed svc k time isErr) = k"

fun httpc_bump :: "httpc_call \<Rightarrow> HttpcRec \<Rightarrow> HttpcRec" where
  "httpc_bump (HttpcTimed svc k time isErr) = httpcTimeRec svc time isErr"

lemma httpc_add_table:
  assumes "hcUrl (callee c) \<noteq> 0"
  shows "httpc_add E c s = s\<lparr>httpcTable := through (httpc_intern E (callee c) (httpcTable s)) (httpc_bump c)\<rparr>"
  using assms by (cases c; cases "callee c") (simp add: AddHttpcTime_def getHttpc_def NewHTTPC_def)

definition httpc_ok :: "('q, 'c, 'e) call_env \<Rightarrow> HTTPC set \<Rightarrow> ('q, 'c, 'e, 'st) call_stats \<Rightarrow> bool" where
  "httpc_ok E U s \<longleftrightarrow> keys_within (HC E) U (httpcTable s)"

definition httpcEntry :: "('q, 'c, 'e) call_env \<Rightarrow> ('q, 'c, 'e, 'st) call_stats \<Rightarrow> HTTPC \<Rightarrow> HttpcRec option" where
  "httpcEntry E s = entry_of (HC E) (httpcTable s)"

definition httpc_counted :: "HTTPC set \<Rightarrow> httpc_call \<Rightarrow> bool" where
  "httpc_counted U c \<longleftrightarrow> hcUrl (callee c) \<noteq> 0 \<and> callee c \<in> U"

interpretation httpcs: keyed_stat_on "httpc_counted U" "httpc_add E" callee "httpcEntry E" "httpc_ok E U" NewHttpcRec httpc_bump for E U
proof
  fix s c
  assume ok: "httpc_ok E U s" and c: "httpc_counted U c"
  then have w: "keys_within (HC E) U (httpcTable s)" and u: "hcUrl (callee c) \<noteq> 0" and k: "callee c \<in> U" by (auto simp: httpc_ok_def httpc_counted_def)
  note t = through_entry [OF w k, of "NewHttpcRec (callee c)" "httpc_bump c"]
  show "httpc_ok E U (httpc_add E c s)" using t(2) by (simp add: httpc_add_table [OF u] httpc_intern_def httpc_ok_def)
  show "httpcEntry E (httpc_add E c s) = (httpcEntry E s)(callee c \<mapsto>
      httpc_bump c (case httpcEntry E s (callee c) of None \<Rightarrow> NewHttpcRec (callee c) | Some e \<Rightarrow> e))"
    using t(1) by (simp add: httpcEntry_def httpc_add_table [OF u] httpc_intern_def)
qed

text \<open>The times of the calls of a statement.\<close>

fun timed :: "sql_call \<Rightarrow> (int \<times> bool) list" where
  "timed (SqlTimed url dbc sql time isErr) = [(time, isErr)]"
| "timed _ = []"

fun fetched :: "sql_call \<Rightarrow> int" where
  "fetched (SqlFetched dbc sql fetch time) = fetch"
| "fetched _ = 0"

fun changed :: "sql_call \<Rightarrow> int" where
  "changed (SqlUpdated dbc sql n) = n"
| "changed _ = 0"

lemma sql_bump_one:
  "i32 (sqCountTotal (sql_bump c r)) = i32 (sqCountTotal r + int (length (timed c)))"
  "i32 (sqCountError (sql_bump c r)) = i32 (sqCountError r + int (length (filter snd (timed c))))"
  "i64 (sqTimeSum (sql_bump c r)) = i64 (sqTimeSum r + (\<Sum>t\<leftarrow>timed c. fst t))"
  "sqTimeMin (sql_bump c r) = fold (\<lambda>t m. min m (fst t)) (timed c) (sqTimeMin r)"
  "sqTimeMax (sql_bump c r) = fold (\<lambda>t m. max m (fst t)) (timed c) (sqTimeMax r)"
  "i64 (FetchCount (sql_bump c r)) = i64 (FetchCount r + fetched c)"
  "i64 (UpdateCount (sql_bump c r)) = i64 (UpdateCount r + changed c)"
  by (cases c; simp add: sqlTimeRec_def fetchRec_def updateRec_def)+

text \<open>A wrapped total over a fold, from the change of one step.\<close>

lemma wrapped_total:
  assumes step: "\<And>x r. w (q (g x r)) = w (q r + (d x :: int))" and hom: "\<And>a b. w (w a + b) = w (a + b)"
  shows "w (q (fold g xs r)) = w (q r + (\<Sum>x\<leftarrow>xs. d x))"
proof (induction xs arbitrary: r)
  case (Cons x xs)
  have "w (q (fold g (x # xs) r)) = w (w (q (g x r)) + (\<Sum>x\<leftarrow>xs. d x))" using Cons.IH hom by simp
  also have "\<dots> = w (q r + (\<Sum>x\<leftarrow>x # xs. d x))" using step hom by (simp add: add.assoc)
  finally show ?case .
qed simp

lemma sql_fold_totals:
  fixes cs r
  defines "r' \<equiv> fold sql_bump cs r" and "ts \<equiv> concat (map timed cs)"
  shows "i32 (sqCountTotal r') = i32 (sqCountTotal r + int (length ts))"
    and "i32 (sqCountError r') = i32 (sqCountError r + int (length (filter snd ts)))"
    and "i64 (sqTimeSum r') = i64 (sqTimeSum r + (\<Sum>t\<leftarrow>ts. fst t))"
    and "sqTimeMin r' = fold (\<lambda>t m. min m (fst t)) ts (sqTimeMin r)"
    and "sqTimeMax r' = fold (\<lambda>t m. max m (fst t)) ts (sqTimeMax r)"
    and "i64 (FetchCount r') = i64 (FetchCount r + (\<Sum>c\<leftarrow>cs. fetched c))"
    and "i64 (UpdateCount r') = i64 (UpdateCount r + (\<Sum>c\<leftarrow>cs. changed c))"
proof -
  have len: "int (length ts) = (\<Sum>c\<leftarrow>cs. int (length (timed c)))" "int (length (filter snd ts)) = (\<Sum>c\<leftarrow>cs. int (length (filter snd (timed c))))"
    "(\<Sum>t\<leftarrow>ts. fst t) = (\<Sum>c\<leftarrow>cs. \<Sum>t\<leftarrow>timed c. fst t)"
    unfolding ts_def by (induction cs) simp_all
  note total = wrapped_total [where g = sql_bump, OF sql_bump_one(1)] wrapped_total [where g = sql_bump, OF sql_bump_one(2)]
    wrapped_total [where g = sql_bump, OF sql_bump_one(3)] wrapped_total [where g = sql_bump, OF sql_bump_one(6)] wrapped_total [where g = sql_bump, OF sql_bump_one(7)]
  show "i32 (sqCountTotal r') = i32 (sqCountTotal r + int (length ts))" "i32 (sqCountError r') = i32 (sqCountError r + int (length (filter snd ts)))"
    "i64 (sqTimeSum r') = i64 (sqTimeSum r + (\<Sum>t\<leftarrow>ts. fst t))" "i64 (FetchCount r') = i64 (FetchCount r + (\<Sum>c\<leftarrow>cs. fetched c))"
    "i64 (UpdateCount r') = i64 (UpdateCount r + (\<Sum>c\<leftarrow>cs. changed c))"
    unfolding r'_def len by (rule total; simp)+
  show "sqTimeMin r' = fold (\<lambda>t m. min m (fst t)) ts (sqTimeMin r)" "sqTimeMax r' = fold (\<lambda>t m. max m (fst t)) ts (sqTimeMax r)"
    unfolding r'_def ts_def by (induction cs arbitrary: r) (simp_all add: sql_bump_one)
qed


subsection \<open>Snapshots of errors\<close>

text \<open>What reaches the statistics of errors: errors, errors of SQL statements, and new intervals, each at its time.\<close>

datatype 'st err_event =
    Err int ErrorThrowable string int bool "'st list" int int
  | ErrSql int ErrorThrowable int int "'st list"
  | ErrInterval int

fun err_step :: "('q, 'c, 'e) call_env \<Rightarrow> bool \<Rightarrow> 'st err_event \<Rightarrow> ('q, 'c, 'e, 'st) call_stats \<Rightarrow> ('q, 'c, 'e, 'st) call_stats" where
  "err_step E en (Err now thr msg url snap steps ty h) s = snd (AddError E now (Some thr) msg url snap steps ty h s)"
| "err_step E en (ErrSql now thr dbc svc steps) s = AddErrorSql E now (Some thr) dbc svc steps s"
| "err_step E en (ErrInterval now) s = calls_turn E en now s"

fun err_key :: "('q, 'c, 'e) call_env \<Rightarrow> 'st err_event \<Rightarrow> int option" where
  "err_key E (Err now thr msg url snap steps ty h) = Some (Comp64 E (callHash E (ErrorClassName thr)) url)"
| "err_key E (ErrSql now thr dbc svc steps) = Some (Comp64 E (callHash E (ErrorClassName thr)) svc)"
| "err_key E (ErrInterval now) = None"

text \<open>The intended snapshots: within an interval, the first error of a class in a service that has a snapshot, with the next
  number.\<close>

fun first_snaps :: "('q, 'c, 'e) call_env \<Rightarrow> int \<Rightarrow> int set \<Rightarrow> 'st err_event list \<Rightarrow> 'st ErrorSnap list" where
  "first_snaps E n seen [] = []"
| "first_snaps E n seen (Err now thr msg url snap steps ty h # es) =
     (let k = Comp64 E (callHash E (ErrorClassName thr)) url in
      if snap \<and> k \<notin> seen
      then \<lparr>snSeq = n + 1, snSteps = steps, snStack = ErrorStack thr, AppendType = ty, AppendHash = h, snTime = now\<rparr> # first_snaps E (n + 1) (insert k seen) es
      else first_snaps E n seen es)"
| "first_snaps E n seen (ErrSql now thr dbc svc steps # es) =
     (let k = Comp64 E (callHash E (ErrorClassName thr)) svc in
      if steps \<noteq> [] \<and> k \<notin> seen
      then \<lparr>snSeq = n + 1, snSteps = steps, snStack = [], AppendType = 0, AppendHash = 0, snTime = now\<rparr> # first_snaps E (n + 1) (insert k seen) es
      else first_snaps E n seen es)"
| "first_snaps E n seen (ErrInterval now # es) = first_snaps E n {} es"

fun snap_of :: "'st call_out \<Rightarrow> 'st ErrorSnap list" where
  "snap_of (Snap p) = [p]"
| "snap_of _ = []"

definition snaps :: "('q, 'c, 'e, 'st) call_stats \<Rightarrow> 'st ErrorSnap list" where
  "snaps s = concat (map snap_of (call_outs s))"

definition snapped :: "('q, 'c, 'e) call_env \<Rightarrow> ('q, 'c, 'e, 'st) call_stats \<Rightarrow> int set" where
  "snapped E s = {k. \<exists>r. entry_of (HE E) (errorTable s) k = Some r \<and> SnapSeq r \<noteq> 0}"

definition errors_ok :: "('q, 'c, 'e) call_env \<Rightarrow> int set \<Rightarrow> ('q, 'c, 'e, 'st) call_stats \<Rightarrow> bool" where
  "errors_ok E U s \<longleftrightarrow> call_laws E \<and> keys_within (HE E) U (errorTable s) \<and> 0 \<le> ErrorSnapSeq s"

lemma sendErrorText_simps [simp]:
  "snaps (sendErrorText h t s) = snaps s" "errorTable (sendErrorText h t s) = errorTable s" "ErrorSnapSeq (sendErrorText h t s) = ErrorSnapSeq s"
  "snapped E (sendErrorText h t s) = snapped E s" "errors_ok E U (sendErrorText h t s) = errors_ok E U s"
  by (simp_all add: sendErrorText_def snaps_def snapped_def errors_ok_def)

lemma countError_step:
  fixes E :: "('q, 'c, 'e) call_env" and s :: "('q, 'c, 'e, 'st) call_stats"
    and now mh snap steps stack ty h
  assumes "errors_ok E U s" and "Comp64 E ch svc \<in> U" and "ErrorSnapSeq s < 2 ^ 63 - 1"
  defines "s' \<equiv> countError E now ch svc mh snap steps stack ty h s" and "k \<equiv> Comp64 E ch svc"
  shows "errors_ok E U s'"
    and "snapped E s' = (if snap then insert k (snapped E s) else snapped E s)"
    and "ErrorSnapSeq s' = (if snap \<and> k \<notin> snapped E s then ErrorSnapSeq s + 1 else ErrorSnapSeq s)"
    and "snaps s' = snaps s @ (if snap \<and> k \<notin> snapped E s
           then [\<lparr>snSeq = ErrorSnapSeq s + 1, snSteps = steps, snStack = stack, AppendType = ty, AppendHash = h, snTime = now\<rparr>] else [])"
proof -
  have w: "keys_within (HE E) U (errorTable s)" using assms(1) by (simp add: errors_ok_def)
  then have laws: "hm_laws (HE E)" "tbl_ok (HE E) (errorTable s)" and nf: "\<not> hm_full (HE E) (tab (errorTable s))"
    using keys_within_not_full by (auto simp: keys_within_def)
  obtain a t where g: "getOrPut (HE E) k (NewErrorRec ch svc mh) (errorTable s) = (a, t)" by force
  let ?old = "case entry_of (HE E) (errorTable s) k of None \<Rightarrow> NewErrorRec ch svc mh | Some r \<Rightarrow> r"
  let ?go = "snap \<and> k \<notin> snapped E s" and ?n = "ErrorSnapSeq s + 1"
  have c: "cells t a = ?old" using getOrPut_props [OF laws g] by simp
  have go: "SnapSeq (cells t a) = 0 \<and> snap \<longleftrightarrow> ?go" unfolding c by (auto simp: snapped_def NewErrorRec_def split: option.splits)
  have n: "i64 ?n = ?n" using assms(1,3) by (simp add: errors_ok_def)
  let ?f = "\<lambda>r. r\<lparr>erCount := i32 (erCount r + 1)\<rparr>" and ?g = "\<lambda>r. r\<lparr>SnapSeq := ?n, Msg := mh\<rparr>"
  have s': "s' = (if ?go then s\<lparr>ErrorSnapSeq := ?n, errorTable := modify a (?f \<circ> ?g) t,
        call_outs := call_outs s @ [Snap \<lparr>snSeq = ?n, snSteps = steps, snStack = stack, AppendType = ty, AppendHash = h, snTime = now\<rparr>]\<rparr>
      else s\<lparr>errorTable := modify a ?f t\<rparr>)"
    using g go n unfolding s'_def countError_def k_def [symmetric] by (simp add: NextErrorSnapSeq_def Let_def)
  note e = touch_entry [OF laws nf g]
  let ?F = "if ?go then ?f \<circ> ?g else ?f"
  have tab: "errorTable s' = modify a ?F t" by (simp add: s')
  have ent: "entry_of (HE E) (errorTable s') = (entry_of (HE E) (errorTable s))(k \<mapsto> ?F ?old)" unfolding tab by (rule e(1))
  have "keys_within (HE E) U (errorTable s')"
    using w assms(2) e(2) [of ?F] ent unfolding keys_within_def tab by (auto simp: k_def split: if_splits)
  then show "errors_ok E U s'" using assms(1) by (simp add: errors_ok_def s')
  have nz: "?n \<noteq> 0" using assms(1) by (simp add: errors_ok_def)
  have "SnapSeq (?F ?old) \<noteq> 0 \<longleftrightarrow> snap \<or> k \<in> snapped E s"
    using nz go unfolding c by (auto simp: snapped_def NewErrorRec_def split: option.splits)
  then show "snapped E s' = (if snap then insert k (snapped E s) else snapped E s)"
    unfolding snapped_def ent by (auto split: if_splits)
  show "ErrorSnapSeq s' = (if ?go then ErrorSnapSeq s + 1 else ErrorSnapSeq s)" by (simp add: s')
  show "snaps s' = snaps s @ (if ?go then [\<lparr>snSeq = ErrorSnapSeq s + 1, snSteps = steps, snStack = stack, AppendType = ty, AppendHash = h, snTime = now\<rparr>] else [])"
    by (simp add: s' snaps_def)
qed

lemma calls_turn_errors:
  assumes "errors_ok E U s"
  shows "errors_ok E U (calls_turn E en now s)" "snapped E (calls_turn E en now s) = {}"
    "ErrorSnapSeq (calls_turn E en now s) = ErrorSnapSeq s" "snaps (calls_turn E en now s) = snaps s"
proof -
  have w: "keys_within (HE E) U (errorTable s)" and laws: "hm_laws (HE E)" using assms by (auto simp: errors_ok_def keys_within_def)
  note c = clear_tbl_props [OF laws, of "errorTable s"]
  let ?t = "errorTable (calls_turn E en now s)"
  have q: "?t = (if en \<and> hm_size (HE E) (tab (errorTable s)) = 0 then errorTable s else clear_tbl (HE E) (errorTable s))"
    by (simp add: calls_turn_def StatError_Send_def StatHttpc_Send_def StatSql_Send_def)
  have e: "entry_of (HE E) ?t = (\<lambda>k. None)" unfolding q using c(2) empty_entries [OF laws, of "errorTable s"] by auto
  have k: "keys_within (HE E) U ?t" using w c e unfolding keys_within_def by (auto simp: q)
  show seq: "ErrorSnapSeq (calls_turn E en now s) = ErrorSnapSeq s"
    by (simp add: calls_turn_def StatError_Send_def StatHttpc_Send_def StatSql_Send_def)
  show "errors_ok E U (calls_turn E en now s)" using assms k seq by (simp add: errors_ok_def)
  show "snapped E (calls_turn E en now s) = {}" using e by (simp add: snapped_def)
  show "snaps (calls_turn E en now s) = snaps s"
    by (simp add: calls_turn_def StatError_Send_def StatHttpc_Send_def StatSql_Send_def snaps_def)
qed

lemma err_run_snaps:
  assumes "errors_ok E U s" and "list_all (\<lambda>e. set_option (err_key E e) \<subseteq> U) es" and "ErrorSnapSeq s + int (length es) < 2 ^ 63"
  shows "snaps (fold (err_step E en) es s) = snaps s @ first_snaps E (ErrorSnapSeq s) (snapped E s) es"
  using assms
proof (induction es arbitrary: s)
  case (Cons e es)
  from Cons.prems(3) have lt: "ErrorSnapSeq s < 2 ^ 63 - 1" by simp
  from Cons.prems(2) have es: "list_all (\<lambda>e. set_option (err_key E e) \<subseteq> U) es" and k: "set_option (err_key E e) \<subseteq> U" by auto
  show ?case
  proof (cases e)
    case (Err now thr msg url snap steps ty h)
    let ?s0 = "sendErrorText (callHash E (ErrorClassName thr)) (ErrorClassName thr) (if msg = [] then s else sendErrorText (callHash E (TrimEmpty E msg)) (TrimEmpty E msg) s)"
    let ?mh = "if msg = [] then 0 else callHash E (TrimEmpty E msg)"
    have st: "err_step E en e s = countError E now (callHash E (ErrorClassName thr)) url ?mh snap steps (ErrorStack thr) ty h ?s0"
      by (simp add: Err AddError_def addError_def Let_def)
    have s0: "errors_ok E U ?s0" "ErrorSnapSeq ?s0 = ErrorSnapSeq s" "snaps ?s0 = snaps s" "snapped E ?s0 = snapped E s" using Cons.prems(1) by auto
    note p = countError_step [OF s0(1), of "callHash E (ErrorClassName thr)" url now ?mh snap steps "ErrorStack thr" ty h, unfolded s0]
    have u: "Comp64 E (callHash E (ErrorClassName thr)) url \<in> U" using k by (simp add: Err)
    note p = p [OF u lt, folded st]
    have "ErrorSnapSeq (err_step E en e s) + int (length es) < 2 ^ 63" using p(3) Cons.prems(3) by simp
    from Cons.IH [OF p(1) es this] show ?thesis using p(2-4) by (auto simp: Err Let_def insert_absorb)
  next
    case (ErrSql now thr dbc svc steps)
    let ?s0 = "sendErrorText (callHash E (ErrorClassName thr)) (ErrorClassName thr) s"
    have st: "err_step E en e s = countError E now (callHash E (ErrorClassName thr)) svc dbc (steps \<noteq> []) steps [] 0 0 ?s0"
      by (simp add: ErrSql AddErrorSql_def Let_def)
    have s0: "errors_ok E U ?s0" "ErrorSnapSeq ?s0 = ErrorSnapSeq s" "snaps ?s0 = snaps s" "snapped E ?s0 = snapped E s" using Cons.prems(1) by auto
    have u: "Comp64 E (callHash E (ErrorClassName thr)) svc \<in> U" using k by (simp add: ErrSql)
    note p = countError_step [OF s0(1), of "callHash E (ErrorClassName thr)" svc now dbc "steps \<noteq> []" steps "[]" 0 0, unfolded s0, OF u lt, folded st]
    have "ErrorSnapSeq (err_step E en e s) + int (length es) < 2 ^ 63" using p(3) Cons.prems(3) by simp
    from Cons.IH [OF p(1) es this] show ?thesis using p(2-4) by (auto simp: ErrSql Let_def insert_absorb)
  next
    case (ErrInterval now)
    note p = calls_turn_errors [OF Cons.prems(1), of en now]
    have "ErrorSnapSeq (calls_turn E en now s) + int (length es) < 2 ^ 63" using p(3) Cons.prems(3) by simp
    from Cons.IH [OF p(1) es this] show ?thesis using p(2-4) by (simp add: ErrInterval)
  qed
qed simp

subsection \<open>Properties of the statistics of calls\<close>

text \<open>The record of a statement has the totals of its calls. After any sequence of timed, fetching and updating calls, the
  record of a data source and statement has the number of its timed calls, the number of those with an error, the sum of
  their times at its width, their minimum and maximum, and the sums of its fetched and updated rows; the calls of other
  statements and those without a statement number do not change it.\<close>
theorem sql_totals:
  assumes laws: "call_laws E" and "sql_ok E U s" and "list_all (sql_counted E U) cs"
    and r32: "list_all (\<lambda>c. i32 (fst (statement c)) = fst (statement c) \<and> i32 (snd (statement c)) = snd (statement c)) cs"
    and "sqlEntry E s (Comp64 E dbc sql) = None" and "i32 dbc = dbc" "i32 sql = sql"
    and own: "own = filter (\<lambda>c. statement c = (dbc, sql)) cs" and "own \<noteq> []" and ts: "ts = concat (map timed own)"
  shows "\<exists>r. sqlEntry E (fold (sql_add E) cs s) (Comp64 E dbc sql) = Some r \<and> sqDbc r = dbc \<and> sqSql r = sql \<and>
     i32 (sqCountTotal r) = i32 (int (length ts)) \<and> i32 (sqCountError r) = i32 (int (length (filter snd ts))) \<and>
     i64 (sqTimeSum r) = i64 (\<Sum>t\<leftarrow>ts. fst t) \<and> sqTimeMin r = Min (insert MaxInt32 (fst ` set ts)) \<and> sqTimeMax r = Max (insert 0 (fst ` set ts)) \<and>
     i64 (FetchCount r) = i64 (\<Sum>c\<leftarrow>own. fetched c) \<and> i64 (UpdateCount r) = i64 (\<Sum>c\<leftarrow>own. changed c)"
proof -
  have key: "sqlKey E c = Comp64 E dbc sql \<longleftrightarrow> statement c = (dbc, sql)" if "c \<in> set cs" for c
    using that r32 Comp64_inj [OF laws] assms(6,7) by (cases "statement c") (auto simp: sqlKey_def list_all_iff)
  then have f: "filter (\<lambda>c. sqlKey E c = Comp64 E dbc sql) cs = own" unfolding own by (intro filter_cong) auto
  have ex: "\<exists>c\<in>set cs. sqlKey E c = Comp64 E dbc sql" using assms(9) key unfolding own by (auto simp: filter_empty_conv)
  let ?r = "fold sql_bump own (NewSqlRec dbc sql)"
  have e: "sqlEntry E (fold (sql_add E) cs s) (Comp64 E dbc sql) = Some ?r"
    using sqls.folds_from_empty [OF assms(2,3,5) ex] laws assms(6,7) by (simp add: f call_laws_def)
  have ends: "fold (\<lambda>t m. min m (fst t)) xs a = Min (insert a (fst ` set xs))" "fold (\<lambda>t m. max m (fst t)) xs a = Max (insert a (fst ` set xs))"
    for xs :: "(int \<times> bool) list" and a
    using Min.set_eq_fold [of a "map fst xs"] Max.set_eq_fold [of a "map fst xs"] by (auto simp: fold_map comp_def min.commute max.commute intro!: fold_cong)
  have ids: "sqDbc (fold sql_bump xs r) = sqDbc r \<and> sqSql (fold sql_bump xs r) = sqSql r" for xs r
  proof (induction xs arbitrary: r)
    case (Cons c xs)
    then show ?case by (cases c) (simp_all add: sqlTimeRec_def fetchRec_def updateRec_def)
  qed simp
  show ?thesis using e sql_fold_totals [of own "NewSqlRec dbc sql", folded ts] ids by (simp add: NewSqlRec_def ends)
qed

text \<open>Instances of the parameters: tables are association lists, and a pair of hashes is one number of 64 bits.\<close>

definition cenv1 :: "((int \<times> nat) list, (HTTPC \<times> nat) list, (int \<times> nat) list) call_env" where
  "cenv1 = \<lparr>HQ = alist_hm 100, HC = alist_hm 100, HE = alist_hm 100, callHash = (\<lambda>x. int (length x)),
     Comp64 = (\<lambda>a b. a * 4294967296 + b mod 4294967296), GetHigh64 = (\<lambda>k. k div 4294967296), GetLow64 = i32, TrimEmpty = (\<lambda>x. x)\<rparr>"

definition cstats1 :: "((int \<times> nat) list, (HTTPC \<times> nat) list, (int \<times> nat) list, nat) call_stats" where
  "cstats1 = \<lparr>sqlTable = \<lparr>tab = [], cells = (\<lambda>_. NewSqlRec 0 0), fresh = 0\<rparr>, httpcTable = \<lparr>tab = [], cells = (\<lambda>_. NewHttpcRec (NewHTTPC 0 0 0)), fresh = 0\<rparr>,
     errorTable = \<lparr>tab = [], cells = (\<lambda>_. NewErrorRec 0 0 0), fresh = 0\<rparr>, ErrorSnapSeq = 1000, call_outs = []\<rparr>"

lemma cenv1_laws: "call_laws cenv1"
proof -
  have "i32 (a * 4294967296 + b mod 4294967296) = i32 b" for a b :: int
    by (simp add: i32_def signed_take_bit_eq_iff_take_bit_eq take_bit_eq_mod)
  then show ?thesis by (simp add: call_laws_def cenv1_def alist_hm_laws)
qed

theorem sql_totals_witness:
  "\<exists>r. sqlEntry cenv1 (fold (sql_add cenv1) [SqlTimed 9 1 7 30 False, SqlTimed 9 1 8 5 False, SqlFetched 1 7 12 3, SqlTimed 9 1 7 10 True] cstats1) (Comp64 cenv1 1 7) = Some r \<and>
     i32 (sqCountTotal r) = 2 \<and> i32 (sqCountError r) = 1 \<and> i64 (sqTimeSum r) = 40 \<and> sqTimeMin r = 10 \<and> sqTimeMax r = 30 \<and> i64 (FetchCount r) = 12"
proof -
  let ?cs = "[SqlTimed 9 1 7 30 False, SqlTimed 9 1 8 5 False, SqlFetched 1 7 12 3, SqlTimed 9 1 7 10 True]"
  let ?U = "{4294967303, 4294967304} :: int set"
  have ok: "sql_ok cenv1 ?U cstats1" using empty_within [of ?U] by (simp add: sql_ok_def cenv1_def cstats1_def)
  have v: "list_all (sql_counted cenv1 ?U) ?cs" by (simp add: sql_counted_def sqlKey_def cenv1_def)
  have r: "list_all (\<lambda>c. i32 (fst (statement c)) = fst (statement c) \<and> i32 (snd (statement c)) = snd (statement c)) ?cs" by simp
  have n: "sqlEntry cenv1 cstats1 (Comp64 cenv1 1 7) = None" by (simp add: sqlEntry_def cenv1_def cstats1_def entry_of_def alist_hm_def)
  have o: "[SqlTimed 9 1 7 30 False, SqlFetched 1 7 12 3, SqlTimed 9 1 7 10 True] = filter (\<lambda>c. statement c = (1, 7)) ?cs" by simp
  have t: "[(30, False), (10, True)] = concat (map timed [SqlTimed 9 1 7 30 False, SqlFetched 1 7 12 3, SqlTimed 9 1 7 10 True])" by simp
  from sql_totals [OF cenv1_laws ok v r n _ _ o _ t] show ?thesis by (auto simp: MaxInt32_def)
qed

text \<open>C32: one snapshot per class, service and interval. Over any sequence of errors, SQL errors and new intervals, the
  snapshots sent are exactly those of the first error with a snapshot of each class in each service of an interval, in
  order, with consecutive numbers.\<close>
theorem errors_snapped_once:
  assumes "errors_ok E U s" and "list_all (\<lambda>e. set_option (err_key E e) \<subseteq> U) es" and "ErrorSnapSeq s + int (length es) < 2 ^ 63"
  shows "snaps (fold (err_step E en) es s) = snaps s @ first_snaps E (ErrorSnapSeq s) (snapped E s) es"
  by (rule err_run_snaps [OF assms])

theorem errors_snapped_once_witness:
  "map snSeq (snaps (fold (err_step cenv1 True) [Err 1 \<lparr>ErrorClassName = ''io'', ErrorStack = [4]\<rparr> ''x'' 9 True [1] 0 0,
     Err 2 \<lparr>ErrorClassName = ''io'', ErrorStack = [4]\<rparr> ''y'' 9 True [2] 0 0, ErrSql 3 \<lparr>ErrorClassName = ''sql'', ErrorStack = []\<rparr> 5 9 [3], ErrInterval 4,
     Err 5 \<lparr>ErrorClassName = ''io'', ErrorStack = [4]\<rparr> ''z'' 9 True [4] 0 0] cstats1)) = [1001, 1002, 1003]"
proof -
  let ?es = "[Err 1 \<lparr>ErrorClassName = ''io'', ErrorStack = [4]\<rparr> ''x'' 9 True [1] 0 0,
     Err 2 \<lparr>ErrorClassName = ''io'', ErrorStack = [4]\<rparr> ''y'' 9 True [2] 0 0, ErrSql 3 \<lparr>ErrorClassName = ''sql'', ErrorStack = []\<rparr> 5 9 [3], ErrInterval 4,
     Err 5 \<lparr>ErrorClassName = ''io'', ErrorStack = [4]\<rparr> ''z'' 9 True [4] 0 0] :: nat err_event list"
  let ?U = "{8589934601, 12884901897} :: int set"
  have ok: "errors_ok cenv1 ?U cstats1" using empty_within [of ?U] cenv1_laws by (simp add: errors_ok_def cenv1_def cstats1_def)
  have v: "list_all (\<lambda>e. set_option (err_key cenv1 e) \<subseteq> ?U) ?es" by (simp add: cenv1_def)
  have l: "ErrorSnapSeq cstats1 + int (length ?es) < 2 ^ 63" by (simp add: cstats1_def)
  have e: "snapped cenv1 cstats1 = {}" "snaps cstats1 = []" "ErrorSnapSeq cstats1 = 1000"
    by (simp_all add: snapped_def snaps_def cenv1_def cstats1_def entry_of_def alist_hm_def)
  show ?thesis unfolding errors_snapped_once [OF ok v l, of True] e by (simp add: cenv1_def)
qed

text \<open>The number of an error is the same whether the error is counted or only its texts are sent, if it has a message.\<close>

lemma error_number_agrees: "msg \<noteq> [] \<Longrightarrow> fst (AddError E now thr msg url snap steps ty h s) = fst (AddErrorHashOnly E thr msg s)"
  by (simp add: AddError_def addError_def AddErrorHashOnly_def Let_def split: option.split)

end
