(* ===== verification/Counters.thy ===== *)
theory Counters
  imports Keyed_Stat
begin

text \<open>
  The meters of transactions, SQL statements and HTTP calls (\<^verbatim>\<open>MeterService.go\<close>, \<^verbatim>\<open>MeterSQL.go\<close>, \<^verbatim>\<open>MeterHTTPC.go\<close>,
  \<^verbatim>\<open>MeterActiveX.go\<close> of package \<^verbatim>\<open>agent/agent/counter/meter\<close>) and the counter tasks that empty them into the counter
  pack every few seconds (\<^verbatim>\<open>TaskTransaction.go\<close>, \<^verbatim>\<open>TaskSql.go\<close>, \<^verbatim>\<open>TaskHttpc.go\<close>, \<^verbatim>\<open>TaskActiveTranCount.go\<close>).

  The hit map of golib and the maps that persist are parameters (\<open>meter_env\<close>); the maps that are made new for one counter
  pack are HOL maps. The rates and percentiles that are computed in floating point from the counts are left out.
\<close>

subsection \<open>Buckets\<close>

record 'h HitBucket =
  Hitmap :: 'h
  hbCount :: int
  CountSatisfied :: int
  CountTolerated :: int
  CountTotal :: int
  Timesum :: int
  DbcSum :: int
  SqlSum :: int
  HttpcSum :: int
  hbError :: int
  TimeSqrSum :: int
  hbTimeMin :: int
  hbTimeMax :: int
  LastVerOverStart :: int
  LastHorizOverStart :: int

record BucketSimple =
  bsCount :: int
  bsTimesum :: int
  bsDbcSum :: int
  bsSqlSum :: int
  bsHttpcSum :: int
  bsError :: int

definition NewBucketSimple :: BucketSimple where
  "NewBucketSimple = \<lparr>bsCount = 0, bsTimesum = 0, bsDbcSum = 0, bsSqlSum = 0, bsHttpcSum = 0, bsError = 0\<rparr>"

record ('h, 'o, 'p) meter_env =
  NewHitMap :: 'h
  HitMap_Add :: "int \<Rightarrow> bool \<Rightarrow> 'h \<Rightarrow> 'h"
  Hit :: "'h \<Rightarrow> nat \<Rightarrow> int"
  HitError :: "'h \<Rightarrow> nat \<Rightarrow> int"
  HitMapIndex :: "int \<Rightarrow> nat"
  HitMapTime :: "nat \<Rightarrow> int"
  HITMAP_VERTICAL_INDEX :: nat
  HITMAP_LENGTH :: nat
  WARNING_LEVEL :: int
  FATAL_LEVEL :: int
  HO :: "('o, int) hm"
  HP :: "('p, int \<times> int) hm"

definition NewHitBucket :: "('h, 'o, 'p) meter_env \<Rightarrow> 'h HitBucket" where
  "NewHitBucket E = \<lparr>Hitmap = NewHitMap E, hbCount = 0, CountSatisfied = 0, CountTolerated = 0, CountTotal = 0, Timesum = 0, DbcSum = 0, SqlSum = 0,
     HttpcSum = 0, hbError = 0, TimeSqrSum = 0, hbTimeMin = 0, hbTimeMax = 0, LastVerOverStart = 0, LastHorizOverStart = 0\<rparr>"

definition HitBucket_Reset :: "('h, 'o, 'p) meter_env \<Rightarrow> 'h HitBucket \<Rightarrow> 'h HitBucket" where
  "HitBucket_Reset E b = b\<lparr>hbCount := 0, Timesum := 0, hbError := 0, Hitmap := NewHitMap E\<rparr>"

record counter_conf =
  mApdexTime :: int
  mApdexTime4T :: int
  TxCallerMeterEnabled :: bool
  TxCallerMeterPKindEnabled :: bool
  PCODE :: int
  HitMapVerEventEnabled :: bool
  HitMapVerEventErrorOnly :: bool
  HitMapVerEventWarningPercent :: int
  HitMapVerEventFatalPercent :: int
  HitMapVerEventDuration :: int
  HitMapHorizEventEnabled :: bool
  HitMapHorizEventErrorOnly :: bool
  HitMapHorizEventBasetime :: int
  HitMapHorizEventDuration :: int
  CounterEnabledTranx :: bool
  CounterEnabledSql :: bool
  CounterEnabledHttpc :: bool
  CounterEnabledAct :: bool
  ActxMeterEnabled :: bool
  SqlDbcMeterEnabled :: bool
  HttpcHostMeterEnabled :: bool
  SendsHitmap :: bool
  LostTime :: int
  SlowTime :: int
  VerySlowTime :: int

subsection \<open>The meter of transactions\<close>

record ('h, 'o, 'p) MeterService =
  Bucket :: "'h HitBucket"
  StatByOID :: "('o, BucketSimple) tbl"
  StatByPKIND :: "('p, BucketSimple) tbl"
  StatByPOID :: "('p, BucketSimple) tbl"
  Unknown :: BucketSimple
  Arrival :: int

record meter_tx =
  mtElapsed :: int
  mtDbcTime :: int
  mtSqlTime :: int
  mtHttpcTime :: int
  mtErrorLevel :: int
  mtApdex :: int

text \<open>The part of \<open>Add\<close> on the bucket; the transaction is returned with its apdex and without a negative time.\<close>

definition addBucket :: "('h, 'o, 'p) meter_env \<Rightarrow> counter_conf \<Rightarrow> meter_tx \<Rightarrow> 'h HitBucket \<Rightarrow> meter_tx \<times> 'h HitBucket" where
  "addBucket E conf tx0 b =
     (let e = max 0 (mtElapsed tx0); tx = tx0\<lparr>mtElapsed := e\<rparr>; err = mtErrorLevel tx \<ge> WARNING_LEVEL E;
          sat = \<not> err \<and> e \<le> mApdexTime conf; tol = \<not> err \<and> \<not> sat \<and> e \<le> mApdexTime4T conf in
      (tx\<lparr>mtApdex := (if sat then 2 else if tol then 1 else mtApdex tx)\<rparr>,
       b\<lparr>hbCount := i32 (hbCount b + 1), Timesum := i64 (Timesum b + e), DbcSum := i64 (DbcSum b + mtDbcTime tx), SqlSum := i64 (SqlSum b + mtSqlTime tx),
         HttpcSum := i64 (HttpcSum b + mtHttpcTime tx), hbError := (if err then i32 (hbError b + 1) else hbError b), CountTotal := i32 (CountTotal b + 1),
         CountSatisfied := (if sat then i32 (CountSatisfied b + 1) else CountSatisfied b),
         CountTolerated := (if tol then i32 (CountTolerated b + 1) else CountTolerated b),
         TimeSqrSum := i64 (TimeSqrSum b + i64 (e * e)), hbTimeMax := (if hbTimeMax b < e then e else hbTimeMax b),
         hbTimeMin := (if hbTimeMin b = 0 \<or> hbTimeMin b > e then e else hbTimeMin b), Hitmap := HitMap_Add E e err (Hitmap b)\<rparr>))"

definition countCaller :: "bool \<Rightarrow> int \<Rightarrow> BucketSimple \<Rightarrow> BucketSimple" where
  "countCaller err e c = c\<lparr>bsCount := i32 (bsCount c + 1), bsTimesum := i64 (bsTimesum c + e), bsError := (if err then i32 (bsError c + 1) else bsError c)\<rparr>"

definition countCallerFull :: "meter_tx \<Rightarrow> BucketSimple \<Rightarrow> BucketSimple" where
  "countCallerFull tx c = c\<lparr>bsDbcSum := i64 (bsDbcSum c + mtDbcTime tx), bsSqlSum := i64 (bsSqlSum c + mtSqlTime tx), bsHttpcSum := i64 (bsHttpcSum c + mtHttpcTime tx)\<rparr>"

definition putBucket :: "('m, 'k) hm \<Rightarrow> 'k \<Rightarrow> (BucketSimple \<Rightarrow> BucketSimple) \<Rightarrow> ('m, BucketSimple) tbl \<Rightarrow> ('m, BucketSimple) tbl" where
  "putBucket H k f t = (case getOrPut H k NewBucketSimple t of (a, t1) \<Rightarrow> modify a f t1)"

definition MeterService_Add ::
  "('h, 'o, 'p) meter_env \<Rightarrow> counter_conf \<Rightarrow> meter_tx \<Rightarrow> int \<Rightarrow> int \<Rightarrow> int \<Rightarrow> ('h, 'o, 'p) MeterService \<Rightarrow> meter_tx \<times> ('h, 'o, 'p) MeterService" where
  "MeterService_Add E conf tx0 mCallerPcode mCallerOkind mCallerOid m =
     (case addBucket E conf tx0 (Bucket m) of (tx, b) \<Rightarrow>
        (let err = mtErrorLevel tx \<ge> WARNING_LEVEL E; count = countCaller err (mtElapsed tx); m1 = m\<lparr>Bucket := b\<rparr> in
         (tx,
          if \<not> TxCallerMeterEnabled conf then m1
          else if mCallerOid \<noteq> 0
          then (let m2 = (if mCallerPcode = PCODE conf then m1\<lparr>StatByOID := putBucket (HO E) mCallerOid (countCallerFull tx \<circ> count) (StatByOID m1)\<rparr>
                          else m1\<lparr>StatByPOID := putBucket (HP E) (mCallerPcode, mCallerOid) count (StatByPOID m1)\<rparr>) in
                if TxCallerMeterPKindEnabled conf
                then m2\<lparr>StatByPKIND := putBucket (HP E) (mCallerPcode, mCallerOkind) count (StatByPKIND m2)\<rparr> else m2)
          else m1\<lparr>Unknown := count (Unknown m1)\<rparr>)))"

definition AddVirtualTx :: "('h, 'o, 'p) meter_env \<Rightarrow> meter_tx \<Rightarrow> ('h, 'o, 'p) MeterService \<Rightarrow> ('h, 'o, 'p) MeterService" where
  "AddVirtualTx E tx m =
     m\<lparr>Bucket := (Bucket m)\<lparr>Hitmap := HitMap_Add E (mtElapsed tx) (mtErrorLevel tx \<ge> WARNING_LEVEL E) (Hitmap (Bucket m))\<rparr>\<rparr>"

definition GetAndResetBucket :: "('h, 'o, 'p) meter_env \<Rightarrow> ('h, 'o, 'p) MeterService \<Rightarrow> 'h HitBucket \<times> ('h, 'o, 'p) MeterService" where
  "GetAndResetBucket E m = (Bucket m, m\<lparr>Bucket := NewHitBucket E\<rparr>)"

definition ResetStat :: "('h, 'o, 'p) meter_env \<Rightarrow> ('h, 'o, 'p) MeterService \<Rightarrow> ('h, 'o, 'p) MeterService" where
  "ResetStat E m =
     m\<lparr>StatByOID := (if hm_size (HO E) (tab (StatByOID m)) > 0 then clear_tbl (HO E) (StatByOID m) else StatByOID m),
       StatByPKIND := (if hm_size (HP E) (tab (StatByPKIND m)) > 0 then clear_tbl (HP E) (StatByPKIND m) else StatByPKIND m),
       StatByPOID := (if hm_size (HP E) (tab (StatByPOID m)) > 0 then clear_tbl (HP E) (StatByPOID m) else StatByPOID m),
       Unknown := (if bsCount (Unknown m) > 0 then NewBucketSimple else Unknown m)\<rparr>"

definition MeterService_Clear :: "('h, 'o, 'p) meter_env \<Rightarrow> ('h, 'o, 'p) MeterService \<Rightarrow> ('h, 'o, 'p) MeterService" where
  "MeterService_Clear E m = ResetStat E (m\<lparr>Bucket := NewHitBucket E\<rparr>)"

subsection \<open>Alerts on the hit map\<close>

datatype hit_event = HitMapVertical int int | HitMapHorizontal int

definition overs :: "('h \<Rightarrow> nat \<Rightarrow> int) \<Rightarrow> ('h \<Rightarrow> nat \<Rightarrow> int) \<Rightarrow> bool \<Rightarrow> 'h \<Rightarrow> nat \<Rightarrow> nat \<Rightarrow> nat list" where
  "overs hit err errorOnly h from to = filter (\<lambda>i. hit h i > 0 \<and> (errorOnly \<longrightarrow> err h i > 0)) [from..<to]"

definition ProcessVerticalEvent :: "('h, 'o, 'p) meter_env \<Rightarrow> counter_conf \<Rightarrow> int \<Rightarrow> 'h HitBucket \<Rightarrow> hit_event option \<times> 'h HitBucket" where
  "ProcessVerticalEvent E conf now b =
     (let cnt = i32 (int (length (overs (Hit E) (HitError E) (HitMapVerEventErrorOnly conf) (Hitmap b) (HITMAP_VERTICAL_INDEX E) (HITMAP_LENGTH E)))) in
      if cnt \<ge> HitMapVerEventWarningPercent conf
      then (let start = (if LastVerOverStart b = 0 then now else LastVerOverStart b) in
            if start > 0 \<and> i64 (now - start) \<ge> HitMapVerEventDuration conf
            then (Some (HitMapVertical cnt (if cnt \<ge> HitMapVerEventFatalPercent conf then FATAL_LEVEL E else WARNING_LEVEL E)), b\<lparr>LastVerOverStart := 0\<rparr>)
            else (None, b\<lparr>LastVerOverStart := start\<rparr>))
      else (None, b\<lparr>LastVerOverStart := 0\<rparr>))"

definition ProcessHorizontalEvent :: "('h, 'o, 'p) meter_env \<Rightarrow> counter_conf \<Rightarrow> int \<Rightarrow> 'h HitBucket \<Rightarrow> hit_event option \<times> 'h HitBucket" where
  "ProcessHorizontalEvent E conf now b =
     (case overs (Hit E) (HitError E) (HitMapHorizEventErrorOnly conf) (Hitmap b) (HitMapIndex E (HitMapHorizEventBasetime conf)) (HITMAP_LENGTH E) of
        [] \<Rightarrow> (None, b\<lparr>LastHorizOverStart := 0\<rparr>)
      | idx # _ \<Rightarrow>
          (let start = (if LastHorizOverStart b = 0 then now else LastHorizOverStart b) in
           if i64 (now - start) \<ge> HitMapHorizEventDuration conf then (Some (HitMapHorizontal (HitMapTime E idx)), b\<lparr>LastHorizOverStart := 0\<rparr>)
           else (None, b\<lparr>LastHorizOverStart := start\<rparr>)))"

subsection \<open>Meters of SQL statements and HTTP calls\<close>

record SQLBucket =
  sbCount :: int
  sbTime :: int
  sbError :: int
  sbFetchCount :: int
  sbFetchTime :: int

definition NewSQLBucket :: SQLBucket where
  "NewSQLBucket = \<lparr>sbCount = 0, sbTime = 0, sbError = 0, sbFetchCount = 0, sbFetchTime = 0\<rparr>"

record 'o MeterSQL =
  sqlStat :: "('o, SQLBucket) tbl"
  sqlBucket :: SQLBucket

definition addSQL :: "int \<Rightarrow> bool \<Rightarrow> SQLBucket \<Rightarrow> SQLBucket" where
  "addSQL elapsed err b = b\<lparr>sbCount := i32 (sbCount b + 1), sbTime := i64 (sbTime b + elapsed), sbError := (if err then i32 (sbError b + 1) else sbError b)\<rparr>"

definition MeterSQL_Add :: "('o, int) hm \<Rightarrow> counter_conf \<Rightarrow> int \<Rightarrow> int \<Rightarrow> bool \<Rightarrow> 'o MeterSQL \<Rightarrow> 'o MeterSQL" where
  "MeterSQL_Add H conf dbc elapsed err m =
     (let m1 = m\<lparr>sqlBucket := addSQL elapsed err (sqlBucket m)\<rparr> in
      if SqlDbcMeterEnabled conf \<and> dbc \<noteq> 0
      then (case getOrPut H dbc NewSQLBucket (sqlStat m1) of (a, t) \<Rightarrow> m1\<lparr>sqlStat := modify a (addSQL elapsed err) t\<rparr>) else m1)"

definition MeterSQL_AddFetch :: "int \<Rightarrow> int \<Rightarrow> int \<Rightarrow> 'o MeterSQL \<Rightarrow> 'o MeterSQL" where
  "MeterSQL_AddFetch dbc n time m =
     m\<lparr>sqlBucket := (sqlBucket m)\<lparr>sbFetchCount := i64 (sbFetchCount (sqlBucket m) + n), sbFetchTime := i64 (sbFetchTime (sqlBucket m) + time)\<rparr>\<rparr>"

definition MeterSQL_GetBucketReset :: "'o MeterSQL \<Rightarrow> SQLBucket \<times> 'o MeterSQL" where
  "MeterSQL_GetBucketReset m = (sqlBucket m, m\<lparr>sqlBucket := NewSQLBucket\<rparr>)"

record HTTPCBucket =
  htCount :: int
  htTime :: int
  htError :: int

definition NewHTTPCBucket :: HTTPCBucket where
  "NewHTTPCBucket = \<lparr>htCount = 0, htTime = 0, htError = 0\<rparr>"

record 'o MeterHTTPC =
  httpcBucket :: HTTPCBucket
  httpcStat :: "('o, HTTPCBucket) tbl"

definition addHTTPC :: "int \<Rightarrow> bool \<Rightarrow> HTTPCBucket \<Rightarrow> HTTPCBucket" where
  "addHTTPC elapsed err b = b\<lparr>htCount := i32 (htCount b + 1), htTime := i64 (htTime b + elapsed), htError := (if err then i32 (htError b + 1) else htError b)\<rparr>"

definition MeterHTTPC_Add :: "('o, int) hm \<Rightarrow> counter_conf \<Rightarrow> int \<Rightarrow> int \<Rightarrow> bool \<Rightarrow> 'o MeterHTTPC \<Rightarrow> 'o MeterHTTPC" where
  "MeterHTTPC_Add H conf host elapsed err m =
     (let m1 = m\<lparr>httpcBucket := addHTTPC elapsed err (httpcBucket m)\<rparr> in
      if HttpcHostMeterEnabled conf
      then (case getOrPut H host NewHTTPCBucket (httpcStat m1) of (a, t) \<Rightarrow> m1\<lparr>httpcStat := modify a (addHTTPC elapsed err) t\<rparr>) else m1)"

definition MeterHTTPC_GetBucketReset :: "'o MeterHTTPC \<Rightarrow> HTTPCBucket \<times> 'o MeterHTTPC" where
  "MeterHTTPC_GetBucketReset m = (httpcBucket m, m\<lparr>httpcBucket := NewHTTPCBucket\<rparr>)"

text \<open>The class of an active call by its time: Go's cases do not fall through.\<close>

definition slice_idx :: "int \<Rightarrow> nat" where
  "slice_idx elapsed = (let q = (if elapsed \<ge> 0 then elapsed div 1000 else - ((- elapsed) div 1000)) in if q = 2 then 0 else if q = 7 then 1 else 2)"

subsection \<open>The counter pack and its tasks\<close>

record TxMeter =
  tmTime :: int
  tmCount :: int
  tmError :: int
  Actx :: int

definition NewTxMeter :: TxMeter where
  "NewTxMeter = \<lparr>tmTime = 0, tmCount = 0, tmError = 0, Actx = 0\<rparr>"

record CounterPack =
  cpTime :: int
  CollectIntervalMs :: int
  ServiceCount :: int
  ServiceTime :: int
  ServiceError :: int
  pApdexSatisfied :: int
  pApdexTolerated :: int
  pApdexTotal :: int
  pTimeSqrSum :: int
  TxcallerOidMeter :: "(int \<rightharpoonup> TxMeter) option"
  TxcallerGroupMeter :: "(int \<times> int \<rightharpoonup> TxMeter) option"
  TxcallerPOidMeter :: "(int \<times> int \<rightharpoonup> TxMeter) option"
  TxcallerUnknown :: "TxMeter option"
  cpSqlTime :: int
  cpSqlCount :: int
  cpSqlError :: int
  cpSqlFetchCount :: int
  cpSqlFetchTime :: int
  SqlMeter :: "(int \<rightharpoonup> SQLBucket) option"
  cpHttpcTime :: int
  cpHttpcCount :: int
  cpHttpcError :: int
  HttpcMeter :: "(int \<rightharpoonup> HTTPCBucket) option"
  ActSvcSlice :: "int list"
  ActSvcCount :: int
  ActiveStat :: "int list"

definition txMeter :: "BucketSimple \<Rightarrow> TxMeter" where
  "txMeter b = \<lparr>tmTime = bsTimesum b, tmCount = bsCount b, tmError = bsError b, Actx = 0\<rparr>"

text \<open>At most the given number of entries of a table, in its order, as a map of its own.\<close>

definition metersOf :: "nat \<Rightarrow> ('m, 'k) hm \<Rightarrow> ('e \<Rightarrow> 'v) \<Rightarrow> ('m, 'e) tbl \<Rightarrow> ('k \<rightharpoonup> 'v) option \<Rightarrow> ('k \<rightharpoonup> 'v) option" where
  "metersOf n H f t old = (if hm_size H (tab t) > 0 then Some (map_of (map (\<lambda>(k, b). (k, f b)) (take n (values_of H t)))) else old)"

definition txCallerMeter :: "('h, 'o, 'p) meter_env \<Rightarrow> CounterPack \<Rightarrow> ('h, 'o, 'p) MeterService \<Rightarrow> CounterPack \<times> ('h, 'o, 'p) MeterService" where
  "txCallerMeter E p m =
     (p\<lparr>TxcallerOidMeter := metersOf 300 (HO E) txMeter (StatByOID m) (TxcallerOidMeter p),
        TxcallerGroupMeter := metersOf 300 (HP E) txMeter (StatByPKIND m) (TxcallerGroupMeter p),
        TxcallerPOidMeter := metersOf 300 (HP E) txMeter (StatByPOID m) (TxcallerPOidMeter p),
        TxcallerUnknown := Some (txMeter (Unknown m))\<rparr>, ResetStat E m)"

text \<open>The meter of active calls: its entries in order. No instance is ever stored, so every access makes a new one.\<close>

record MeterActiveX =
  StatByOid :: "(int \<times> int) list"
  StatByGroup :: "((int \<times> int) \<times> int) list"
  StatByPOid :: "((int \<times> int) \<times> int) list"
  axUnknown :: int

definition newMeterActiveX :: MeterActiveX where
  "newMeterActiveX = \<lparr>StatByOid = [], StatByGroup = [], StatByPOid = [], axUnknown = 0\<rparr>"

definition GetInstanceMeterActiveX :: "MeterActiveX option \<Rightarrow> MeterActiveX" where
  "GetInstanceMeterActiveX g = (case g of Some a \<Rightarrow> a | None \<Rightarrow> newMeterActiveX)"

definition setActx :: "('k \<times> int) list \<Rightarrow> ('k \<rightharpoonup> TxMeter) \<Rightarrow> ('k \<rightharpoonup> TxMeter)" where
  "setActx es m = fold (\<lambda>(k, v) m. m(k \<mapsto> (case m k of None \<Rightarrow> NewTxMeter | Some x \<Rightarrow> x)\<lparr>Actx := v\<rparr>)) (take 300 es) m"

definition orNew :: "('k \<rightharpoonup> 'v) option \<Rightarrow> ('k \<rightharpoonup> 'v)" where
  "orNew m = (case m of None \<Rightarrow> Map.empty | Some x \<Rightarrow> x)"

text \<open>The map of the pairs is made when that of the groups is missing; when only it is missing, its use panics.\<close>

definition txCallerActxMeter :: "MeterActiveX \<Rightarrow> CounterPack \<Rightarrow> CounterPack go" where
  "txCallerActxMeter a p =
     (let p1 = (if StatByOid a \<noteq> [] then p\<lparr>TxcallerOidMeter := Some (setActx (StatByOid a) (orNew (TxcallerOidMeter p)))\<rparr> else p);
          p2 = (if StatByGroup a \<noteq> [] then p1\<lparr>TxcallerGroupMeter := Some (setActx (StatByGroup a) (orNew (TxcallerGroupMeter p1)))\<rparr> else p1);
          unk = (\<lambda>q. q\<lparr>TxcallerUnknown := Some ((case TxcallerUnknown q of None \<Rightarrow> NewTxMeter | Some x \<Rightarrow> x)\<lparr>Actx := i32 (axUnknown a)\<rparr>)\<rparr>) in
      if StatByPOid a = [] then Inr (unk p2)
      else (case (if TxcallerGroupMeter p2 = None then Some Map.empty else TxcallerPOidMeter p2) of
              None \<Rightarrow> Inl NilDereference
            | Some m \<Rightarrow> Inr (unk (p2\<lparr>TxcallerPOidMeter := Some (setActx (StatByPOid a) m)\<rparr>))))"

datatype 'h counter_out = OutEvent hit_event | OutHitmap 'h int

definition serviceFields :: "'h HitBucket \<Rightarrow> CounterPack \<Rightarrow> CounterPack" where
  "serviceFields bk p =
     (let p1 = p\<lparr>ServiceCount := hbCount bk\<rparr> in
      if hbCount bk > 0
      then p1\<lparr>ServiceTime := Timesum bk, ServiceError := hbError bk, pApdexSatisfied := CountSatisfied bk, pApdexTolerated := CountTolerated bk,
              pApdexTotal := CountTotal bk\<rparr> else p1)"

definition hitEvents :: "('h, 'o, 'p) meter_env \<Rightarrow> counter_conf \<Rightarrow> int \<Rightarrow> 'h HitBucket \<Rightarrow> 'h counter_out list \<times> 'h HitBucket" where
  "hitEvents E conf now bk =
     (let (ev1, bk1) = (if HitMapHorizEventEnabled conf then ProcessHorizontalEvent E conf now bk else (None, bk));
          (ev2, bk2) = (if HitMapVerEventEnabled conf then ProcessVerticalEvent E conf now bk1 else (None, bk1)) in
      (map OutEvent (case ev1 of None \<Rightarrow> [] | Some e \<Rightarrow> [e]) @ map OutEvent (case ev2 of None \<Rightarrow> [] | Some e \<Rightarrow> [e]), bk2))"

definition TaskTransaction_process ::
  "('h, 'o, 'p) meter_env \<Rightarrow> counter_conf \<Rightarrow> int \<Rightarrow> CounterPack \<Rightarrow> ('h, 'o, 'p) MeterService \<Rightarrow> CounterPack \<times> ('h, 'o, 'p) MeterService \<times> 'h counter_out list" where
  "TaskTransaction_process E conf now p m =
     (if \<not> CounterEnabledTranx conf then (p, m, [])
      else
        (let (bk, m1) = GetAndResetBucket E m; p2 = serviceFields bk p;
             (p3, m2) = (if TxCallerMeterEnabled conf then txCallerMeter E p2 m1 else (p2, m1)) in
         case (if ActxMeterEnabled conf then txCallerActxMeter (GetInstanceMeterActiveX None) p3 else Inr p3) of
           Inl _ \<Rightarrow> (p3, m2, [])
         | Inr p4 \<Rightarrow>
             (let m3 = (if CollectIntervalMs p4 > 0 then m2\<lparr>Arrival := 0\<rparr> else m2);
                  (evs, bk2) = hitEvents E conf now bk in
              (p4\<lparr>pTimeSqrSum := TimeSqrSum bk2\<rparr>, m3, evs @ (if SendsHitmap conf then [OutHitmap (Hitmap bk2) (cpTime p4)] else [])))))"

text \<open>The two following tasks also enter the counts of active calls, of which the new instance has none.\<close>

definition TaskSql_process :: "('o, int) hm \<Rightarrow> counter_conf \<Rightarrow> int \<Rightarrow> CounterPack \<Rightarrow> int \<Rightarrow> 'o MeterSQL \<Rightarrow> CounterPack \<times> int \<times> 'o MeterSQL" where
  "TaskSql_process H conf now p stime m =
     (if \<not> CounterEnabledSql conf then (p, stime, m)
      else
        (let (b, m1) = MeterSQL_GetBucketReset m;
             p1 = p\<lparr>cpSqlTime := sbTime b, cpSqlCount := sbCount b, cpSqlError := sbError b, cpSqlFetchCount := sbFetchCount b, cpSqlFetchTime := sbFetchTime b\<rparr> in
         if i64 (now - stime) = 0 then (p1, stime, m1)
         else if SqlDbcMeterEnabled conf \<and> hm_size H (tab (sqlStat m1)) > 0
         then (p1\<lparr>SqlMeter := metersOf 100 H id (sqlStat m1) (SqlMeter p1)\<rparr>, now, m1\<lparr>sqlStat := clear_tbl H (sqlStat m1)\<rparr>)
         else (p1, now, m1)))"

definition TaskHttpc_process :: "('o, int) hm \<Rightarrow> counter_conf \<Rightarrow> int \<Rightarrow> CounterPack \<Rightarrow> int \<Rightarrow> 'o MeterHTTPC \<Rightarrow> CounterPack \<times> int \<times> 'o MeterHTTPC" where
  "TaskHttpc_process H conf now p stime m =
     (if \<not> CounterEnabledHttpc conf then (p, stime, m)
      else
        (let (b, m1) = MeterHTTPC_GetBucketReset m;
             p1 = p\<lparr>cpHttpcTime := htTime b, cpHttpcCount := htCount b, cpHttpcError := htError b\<rparr> in
         if i64 (now - stime) = 0 then (p1, stime, m1)
         else if HttpcHostMeterEnabled conf \<and> hm_size H (tab (httpcStat m1)) > 0
         then (p1\<lparr>HttpcMeter := metersOf 100 H id (httpcStat m1) (HttpcMeter p1)\<rparr>, now, m1\<lparr>httpcStat := clear_tbl H (httpcStat m1)\<rparr>)
         else (p1, now, m1)))"

text \<open>An active transaction as \<^verbatim>\<open>TaskActiveTranCount\<close> reads it.\<close>

record active_ctx =
  acSeq :: int
  acStartTime :: int
  acWClientId :: int
  ActiveSqlhash :: int
  ActiveHttpcHash :: int
  ActiveDbc :: int

text \<open>The slices are 16 bits wide.\<close>

definition i16 :: "int \<Rightarrow> int" where
  "i16 x = signed_take_bit 15 x"

definition bump_at :: "nat \<Rightarrow> (int \<Rightarrow> int) \<Rightarrow> int list \<Rightarrow> int list" where
  "bump_at i wrap xs = xs[i := wrap (xs ! i + 1)]"

definition CountingStatus :: "active_ctx \<Rightarrow> CounterPack \<Rightarrow> CounterPack" where
  "CountingStatus c p =
     p\<lparr>ActiveStat := bump_at (if ActiveSqlhash c \<noteq> 0 then 1 else if ActiveHttpcHash c \<noteq> 0 then 2 else if ActiveDbc c \<noteq> 0 then 3 else 0) i16 (ActiveStat p)\<rparr>"

text \<open>One context: the counter pack, the transactions given up as lost and the users seen.\<close>

definition countActive :: "counter_conf \<Rightarrow> int \<Rightarrow> active_ctx \<Rightarrow> CounterPack \<times> int list \<times> int list \<Rightarrow> CounterPack \<times> int list \<times> int list" where
  "countActive conf now c r =
     (case r of (p, lost, users) \<Rightarrow>
        (let age = i32 (now - acStartTime c);
             (p1, lost1) = (if age > i32 (LostTime conf) then (p, lost @ [acSeq c])
                            else (p\<lparr>ActSvcSlice := bump_at (if age < i32 (SlowTime conf) then 0 else if age < i32 (VerySlowTime conf) then 1 else 2) i16 (ActSvcSlice p)\<rparr>, lost));
             p2 = p1\<lparr>ActSvcCount := i32 (ActSvcCount p1 + 1)\<rparr> in
         (CountingStatus c p2, lost1, if acWClientId c \<noteq> 0 then users @ [acWClientId c] else users)))"

definition TaskActiveTranCount_process :: "counter_conf \<Rightarrow> int \<Rightarrow> active_ctx list \<Rightarrow> CounterPack \<Rightarrow> CounterPack \<times> int list \<times> int list" where
  "TaskActiveTranCount_process conf now cs p =
     (if \<not> CounterEnabledAct conf then (p, [], []) else fold (countActive conf now) cs (p\<lparr>ActSvcSlice := [0, 0, 0]\<rparr>, [], []))"

subsection \<open>Transactions and counter packs\<close>

text \<open>What happens to the meter of transactions: transactions that end, virtual transactions, arrivals and counter packs. The
  result has the counter packs and what the task sends.\<close>

datatype meter_event = TxDone meter_tx int int int | VirtualTx meter_tx | Arrived | Collect int CounterPack

fun meter_step ::
  "('h, 'o, 'p) meter_env \<Rightarrow> counter_conf \<Rightarrow> meter_event \<Rightarrow> ('h, 'o, 'p) MeterService \<times> CounterPack list \<times> 'h counter_out list \<Rightarrow>
   ('h, 'o, 'p) MeterService \<times> CounterPack list \<times> 'h counter_out list" where
  "meter_step E conf (TxDone tx pc ok oid) (m, ps, os) = (snd (MeterService_Add E conf tx pc ok oid m), ps, os)"
| "meter_step E conf (VirtualTx tx) (m, ps, os) = (AddVirtualTx E tx m, ps, os)"
| "meter_step E conf Arrived (m, ps, os) = (m\<lparr>Arrival := i64 (Arrival m + 1)\<rparr>, ps, os)"
| "meter_step E conf (Collect now p) (m, ps, os) = (case TaskTransaction_process E conf now p m of (p', m', outs) \<Rightarrow> (m', ps @ [p'], os @ outs))"

definition meter_run :: "('h, 'o, 'p) meter_env \<Rightarrow> counter_conf \<Rightarrow> meter_event list \<Rightarrow> ('h, 'o, 'p) MeterService \<Rightarrow>
   ('h, 'o, 'p) MeterService \<times> CounterPack list \<times> 'h counter_out list" where
  "meter_run E conf es m = fold (meter_step E conf) es (m, [], [])"

fun finished :: "meter_event \<Rightarrow> meter_tx list" where
  "finished (TxDone tx pc ok oid) = [tx]"
| "finished _ = []"

lemma txCallerActxMeter_new:
  "txCallerActxMeter (GetInstanceMeterActiveX None) p =
     Inr (p\<lparr>TxcallerUnknown := Some ((case TxcallerUnknown p of None \<Rightarrow> NewTxMeter | Some x \<Rightarrow> x)\<lparr>Actx := 0\<rparr>)\<rparr>)"
  by (simp add: txCallerActxMeter_def GetInstanceMeterActiveX_def newMeterActiveX_def)

lemma Bucket_ResetStat [simp]: "Bucket (ResetStat E m) = Bucket m"
  by (simp add: ResetStat_def)

definition same_service :: "CounterPack \<Rightarrow> CounterPack \<Rightarrow> bool" where
  "same_service p q \<longleftrightarrow> ServiceCount p = ServiceCount q \<and> ServiceTime p = ServiceTime q \<and> ServiceError p = ServiceError q \<and> pApdexTotal p = pApdexTotal q"

lemma process_form:
  assumes "CounterEnabledTranx conf"
  shows "\<exists>p' m'. TaskTransaction_process E conf now p m = (p', m', fst (hitEvents E conf now (Bucket m)) @
      (if SendsHitmap conf then [OutHitmap (Hitmap (snd (hitEvents E conf now (Bucket m)))) (cpTime p')] else [])) \<and>
    Bucket m' = NewHitBucket E \<and> ServiceCount p' = ServiceCount (serviceFields (Bucket m) p) \<and> ServiceTime p' = ServiceTime (serviceFields (Bucket m) p) \<and>
    ServiceError p' = ServiceError (serviceFields (Bucket m) p) \<and> pApdexTotal p' = pApdexTotal (serviceFields (Bucket m) p)"
proof -
  let ?p = "serviceFields (Bucket m) p" and ?m = "m\<lparr>Bucket := NewHitBucket E\<rparr>"
  obtain p3 m2 where c: "(if TxCallerMeterEnabled conf then txCallerMeter E ?p ?m else (?p, ?m)) = (p3, m2)" by (metis surj_pair)
  then have c': "same_service p3 ?p" "Bucket m2 = NewHitBucket E" by (auto simp: same_service_def txCallerMeter_def split: if_splits)
  obtain p4 where a: "(if ActxMeterEnabled conf then txCallerActxMeter (GetInstanceMeterActiveX None) p3 else Inr p3) = Inr p4" and a': "same_service p4 p3"
    by (cases "ActxMeterEnabled conf") (auto simp: txCallerActxMeter_new same_service_def)
  obtain evs bk2 where h: "hitEvents E conf now (Bucket m) = (evs, bk2)" by force
  have "TaskTransaction_process E conf now p m = (p4\<lparr>pTimeSqrSum := TimeSqrSum bk2\<rparr>, if CollectIntervalMs p4 > 0 then m2\<lparr>Arrival := 0\<rparr> else m2,
      evs @ (if SendsHitmap conf then [OutHitmap (Hitmap bk2) (cpTime p4)] else []))"
    using assms c a h by (simp add: TaskTransaction_process_def GetAndResetBucket_def Let_def del: if_split)
  moreover have "same_service (p4\<lparr>pTimeSqrSum := TimeSqrSum bk2\<rparr>) ?p" "Bucket (if CollectIntervalMs p4 > 0 then m2\<lparr>Arrival := 0\<rparr> else m2) = NewHitBucket E"
    using c' a' by (auto simp: same_service_def)
  ultimately show ?thesis using h by (intro exI [of _ "p4\<lparr>pTimeSqrSum := TimeSqrSum bk2\<rparr>"] exI [of _ "if CollectIntervalMs p4 > 0 then m2\<lparr>Arrival := 0\<rparr> else m2"])
      (simp add: same_service_def)
qed

lemma ServiceCount_serviceFields [simp]: "ServiceCount (serviceFields bk p) = hbCount bk"
  by (simp add: serviceFields_def Let_def)

lemma MeterService_Add_Bucket [simp]: "Bucket (snd (MeterService_Add E conf tx pc ok oid m)) = snd (addBucket E conf tx (Bucket m))"
  by (simp add: MeterService_Add_def Let_def split: prod.splits)

lemma addBucket_counts:
  "hbCount (snd (addBucket E conf tx b)) = i32 (hbCount b + 1)"
  "LastVerOverStart (snd (addBucket E conf tx b)) = LastVerOverStart b" "LastHorizOverStart (snd (addBucket E conf tx b)) = LastHorizOverStart b"
  by (simp_all add: addBucket_def Let_def)

text \<open>The alert times of the bucket in use are never set.\<close>

definition quiet :: "('h, 'o, 'p) MeterService \<Rightarrow> bool" where
  "quiet m \<longleftrightarrow> LastVerOverStart (Bucket m) = 0 \<and> LastHorizOverStart (Bucket m) = 0"

definition waits :: "counter_conf \<Rightarrow> bool" where
  "waits conf \<longleftrightarrow> 0 < HitMapVerEventDuration conf \<and> 0 < HitMapHorizEventDuration conf"

lemma no_alert:
  assumes "waits conf"
  shows "LastHorizOverStart b = 0 \<Longrightarrow> fst (ProcessHorizontalEvent E conf now b) = None"
    and "LastVerOverStart (snd (ProcessHorizontalEvent E conf now b)) = LastVerOverStart b"
    and "LastVerOverStart b = 0 \<Longrightarrow> fst (ProcessVerticalEvent E conf now b) = None"
  using assms by (auto simp: waits_def ProcessHorizontalEvent_def ProcessVerticalEvent_def Let_def split: list.splits)

lemma hitEvents_quiet: "waits conf \<Longrightarrow> LastVerOverStart b = 0 \<Longrightarrow> LastHorizOverStart b = 0 \<Longrightarrow> fst (hitEvents E conf now b) = []"
  using no_alert(1) [of conf b E now] no_alert(2) [of conf E now b] no_alert(3) [of conf b E now] no_alert(3) [of conf "snd (ProcessHorizontalEvent E conf now b)" E now]
  by (cases "ProcessHorizontalEvent E conf now b"; cases "ProcessVerticalEvent E conf now b"; cases "ProcessVerticalEvent E conf now (snd (ProcessHorizontalEvent E conf now b))")
    (simp add: hitEvents_def)

lemma process_quiet:
  assumes "waits conf" and "quiet m" and "TaskTransaction_process E conf now p m = (p', m', outs)"
  shows "quiet m'" and "OutEvent ev \<notin> set outs"
proof -
  have "quiet m' \<and> OutEvent ev \<notin> set outs"
  proof (cases "CounterEnabledTranx conf")
    case True
    from process_form [OF this, of E now p m] assms(3) hitEvents_quiet [OF assms(1), of "Bucket m" E now] assms(2)
    show ?thesis by (auto simp: quiet_def NewHitBucket_def)
  next
    case False
    then show ?thesis using assms by (simp add: TaskTransaction_process_def)
  qed
  then show "quiet m'" and "OutEvent ev \<notin> set outs" by auto
qed

lemma run_quiet:
  assumes "waits conf" and "quiet m" and "\<forall>ev. OutEvent ev \<notin> set os"
  shows "\<forall>ev. OutEvent ev \<notin> set (snd (snd (fold (meter_step E conf) es (m, ps, os))))"
  using assms(2,3)
proof (induction es arbitrary: m ps os)
  case (Cons e es)
  obtain m1 ps1 os1 where st: "meter_step E conf e (m, ps, os) = (m1, ps1, os1)" by (metis surj_pair)
  have "quiet m1 \<and> (\<forall>ev. OutEvent ev \<notin> set os1)"
  proof (cases e)
    case (Collect now p)
    then show ?thesis using st Cons.prems process_quiet [OF assms(1) Cons.prems(1)] by (auto split: prod.splits)
  qed (use st Cons.prems in \<open>auto simp: quiet_def addBucket_counts AddVirtualTx_def\<close>)
  then show ?case using Cons.IH st by simp
qed simp

lemma run_counts:
  assumes "CounterEnabledTranx conf"
  shows "case fold (meter_step E conf) es (m, ps, os) of (m', ps', os') \<Rightarrow>
    i32 ((\<Sum>p\<leftarrow>ps'. ServiceCount p) + hbCount (Bucket m')) = i32 ((\<Sum>p\<leftarrow>ps. ServiceCount p) + hbCount (Bucket m) + int (length (concat (map finished es))))"
proof (induction es arbitrary: m ps os)
  case (Cons e es)
  obtain m1 ps1 os1 where st: "meter_step E conf e (m, ps, os) = (m1, ps1, os1)" by (metis surj_pair)
  have s: "i32 ((\<Sum>p\<leftarrow>ps1. ServiceCount p) + hbCount (Bucket m1)) = i32 ((\<Sum>p\<leftarrow>ps. ServiceCount p) + hbCount (Bucket m) + int (length (finished e)))"
  proof (cases e)
    case (Collect now p)
    then show ?thesis using st process_form [OF assms, of E now p m] by (auto simp: NewHitBucket_def)
  qed (use st in \<open>auto simp: addBucket_counts AddVirtualTx_def add.assoc\<close>)
  obtain m2 ps2 os2 where r: "fold (meter_step E conf) es (m1, ps1, os1) = (m2, ps2, os2)" by (metis surj_pair)
  with Cons.IH [where m = m1 and ps = ps1 and os = os1] have "i32 ((\<Sum>p\<leftarrow>ps2. ServiceCount p) + hbCount (Bucket m2)) =
      i32 (i32 ((\<Sum>p\<leftarrow>ps1. ServiceCount p) + hbCount (Bucket m1)) + int (length (concat (map finished es))))" by simp
  also have "\<dots> = i32 ((\<Sum>p\<leftarrow>ps. ServiceCount p) + hbCount (Bucket m) + int (length (concat (map finished (e # es)))))" unfolding s by (simp add: add.assoc)
  finally show ?case using st r by simp
qed simp

subsection \<open>Properties of the counters\<close>

text \<open>C33: every transaction is in one counter pack. Over any sequence of finished and virtual transactions, arrivals and counter
  packs, the counts of the packs and the count of the bucket in use add up to the number of finished transactions (modulo
  the width of the counter).\<close>
theorem transactions_in_counter_packs:
  assumes "CounterEnabledTranx conf" and "hbCount (Bucket m) = 0" and "meter_run E conf es m = (m', ps, outs)"
  shows "i32 ((\<Sum>p\<leftarrow>ps. ServiceCount p) + hbCount (Bucket m')) = i32 (int (length (concat (map finished es))))"
  using run_counts [OF assms(1), where E = E and es = es and m = m and ps = "[]" and os = "[]"] assms(2,3) by (simp add: meter_run_def)

text \<open>No alert on the hit map is ever raised. As every counter pack starts a new bucket, whose alert times are not set, no
  vertical or horizontal alert is sent in any run if both alerts are to last for some time before they are sent.\<close>
theorem hitmap_alert_never:
  assumes "0 < HitMapVerEventDuration conf" and "0 < HitMapHorizEventDuration conf" and "Bucket m = NewHitBucket E"
    and "meter_run E conf es m = (m', ps, outs)"
  shows "OutEvent ev \<notin> set outs"
  using run_quiet [where conf = conf and m = m and os = "[]" and E = E and es = es and ps = "[]"] assms by (simp add: waits_def quiet_def NewHitBucket_def meter_run_def)

text \<open>The classes of active calls. A call is in the first class exactly from 2 to 3 seconds, in the second exactly from 7
  to 8 seconds and otherwise in the third: also when it is faster than 2 seconds.\<close>
theorem slice_classes:
  "slice_idx e = (if 2000 \<le> e \<and> e < 3000 then 0 else if 7000 \<le> e \<and> e < 8000 then 1 else 2)"
proof (cases "0 \<le> e")
  case True
  have "e div 1000 = 2 \<longleftrightarrow> 2000 \<le> e \<and> e < 3000" "e div 1000 = 7 \<longleftrightarrow> 7000 \<le> e \<and> e < 8000"
    using div_mult_mod_eq [of e 1000] pos_mod_bound [of 1000 e] pos_mod_sign [of 1000 e] by linarith+
  then show ?thesis using True by (simp add: slice_idx_def)
next
  case False
  then have "- ((- e) div 1000) \<le> 0" by simp
  then show ?thesis using False by (simp add: slice_idx_def Let_def)
qed

text \<open>Instances of the parameters: a hit map is the list of its times, and the tables are association lists.\<close>

definition menv1 :: "((int \<times> bool) list, (int \<times> nat) list, ((int \<times> int) \<times> nat) list) meter_env" where
  "menv1 = \<lparr>NewHitMap = [], HitMap_Add = (\<lambda>e err h. (e, err) # h), Hit = (\<lambda>h i. int (length (filter (\<lambda>x. nat (fst x) div 125 = i) h))),
     HitError = (\<lambda>h i. int (length (filter (\<lambda>x. nat (fst x) div 125 = i \<and> snd x) h))), HitMapIndex = (\<lambda>t. nat t div 125), HitMapTime = (\<lambda>i. int i * 125),
     HITMAP_VERTICAL_INDEX = 20, HITMAP_LENGTH = 120, WARNING_LEVEL = 20, FATAL_LEVEL = 30, HO = alist_hm 300, HP = alist_hm 300\<rparr>"

definition cconf1 :: counter_conf where
  "cconf1 = \<lparr>mApdexTime = 1200, mApdexTime4T = 4800, TxCallerMeterEnabled = True, TxCallerMeterPKindEnabled = True, PCODE = 1, HitMapVerEventEnabled = True,
     HitMapVerEventErrorOnly = False, HitMapVerEventWarningPercent = 1, HitMapVerEventFatalPercent = 5, HitMapVerEventDuration = 1000,
     HitMapHorizEventEnabled = True, HitMapHorizEventErrorOnly = False, HitMapHorizEventBasetime = 5000, HitMapHorizEventDuration = 1000,
     CounterEnabledTranx = True, CounterEnabledSql = True, CounterEnabledHttpc = True, CounterEnabledAct = True, ActxMeterEnabled = True,
     SqlDbcMeterEnabled = True, HttpcHostMeterEnabled = True, SendsHitmap = True, LostTime = 300000, SlowTime = 3000, VerySlowTime = 8000\<rparr>"

definition meter1 :: "((int \<times> bool) list, (int \<times> nat) list, ((int \<times> int) \<times> nat) list) MeterService" where
  "meter1 = \<lparr>Bucket = NewHitBucket menv1, StatByOID = \<lparr>tab = [], cells = (\<lambda>_. NewBucketSimple), fresh = 0\<rparr>,
     StatByPKIND = \<lparr>tab = [], cells = (\<lambda>_. NewBucketSimple), fresh = 0\<rparr>, StatByPOID = \<lparr>tab = [], cells = (\<lambda>_. NewBucketSimple), fresh = 0\<rparr>,
     Unknown = NewBucketSimple, Arrival = 0\<rparr>"

definition pack1 :: CounterPack where
  "pack1 = \<lparr>cpTime = 0, CollectIntervalMs = 5000, ServiceCount = 0, ServiceTime = 0, ServiceError = 0, pApdexSatisfied = 0, pApdexTolerated = 0, pApdexTotal = 0,
     pTimeSqrSum = 0, TxcallerOidMeter = None, TxcallerGroupMeter = None, TxcallerPOidMeter = None, TxcallerUnknown = None, cpSqlTime = 0, cpSqlCount = 0,
     cpSqlError = 0, cpSqlFetchCount = 0, cpSqlFetchTime = 0, SqlMeter = None, cpHttpcTime = 0, cpHttpcCount = 0, cpHttpcError = 0, HttpcMeter = None,
     ActSvcSlice = [], ActSvcCount = 0, ActiveStat = [0, 0, 0, 0, 0]\<rparr>"

definition slow_tx :: meter_tx where
  "slow_tx = \<lparr>mtElapsed = 9000, mtDbcTime = 0, mtSqlTime = 0, mtHttpcTime = 0, mtErrorLevel = 0, mtApdex = 0\<rparr>"

theorem transactions_in_counter_packs_witness:
  "\<exists>m ps outs. meter_run menv1 cconf1 [TxDone slow_tx 0 0 0, Arrived, Collect 5000 pack1, TxDone slow_tx 0 0 7] meter1 = (m, ps, outs) \<and>
     i32 ((\<Sum>p\<leftarrow>ps. ServiceCount p) + hbCount (Bucket m)) = 2"
proof -
  let ?es = "[TxDone slow_tx 0 0 0, Arrived, Collect 5000 pack1, TxDone slow_tx 0 0 7]"
  obtain m ps outs where r: "meter_run menv1 cconf1 ?es meter1 = (m, ps, outs)" by (metis surj_pair)
  have "CounterEnabledTranx cconf1" "hbCount (Bucket meter1) = 0" by (simp_all add: cconf1_def meter1_def NewHitBucket_def)
  from transactions_in_counter_packs [OF this r] r show ?thesis by simp
qed

theorem hitmap_alert_never_witness:
  "\<exists>m ps outs. meter_run menv1 cconf1 [TxDone slow_tx 0 0 0, Collect 5000 pack1, TxDone slow_tx 0 0 0, Collect 10000 pack1] meter1 = (m, ps, outs) \<and>
     OutEvent (HitMapHorizontal 9000) \<notin> set outs"
proof -
  let ?es = "[TxDone slow_tx 0 0 0, Collect 5000 pack1, TxDone slow_tx 0 0 0, Collect 10000 pack1]"
  obtain m ps outs where r: "meter_run menv1 cconf1 ?es meter1 = (m, ps, outs)" by (metis surj_pair)
  have "0 < HitMapVerEventDuration cconf1" "0 < HitMapHorizEventDuration cconf1" "Bucket meter1 = NewHitBucket menv1" by (simp_all add: cconf1_def meter1_def)
  from hitmap_alert_never [OF this r, of "HitMapHorizontal 9000"] r show ?thesis by blast
qed

text \<open>The contrast: with no time to wait the alert is raised for the same transactions.\<close>

lemma hitmap_alert_without_wait:
  "fst (ProcessHorizontalEvent menv1 (cconf1\<lparr>HitMapHorizEventDuration := 0\<rparr>) 5000 (snd (addBucket menv1 cconf1 slow_tx (NewHitBucket menv1)))) = Some (HitMapHorizontal 9000)"
  by code_simp

end
