(* ===== verification/Data_Text.thy ===== *)
theory Data_Text
  imports Prelude
begin

text \<open>
  The texts behind hashes (\<^verbatim>\<open>agent/agent/data/DataText.go\<close>): a text is put into a queue the first time its hash is seen, the
  hashes seen are kept in one cache per kind of text, and a thread packs the texts of the queue and sends the packs.

  The sets of golib that hold the hashes are a parameter (\<open>hset\<close>): they have a maximum and drop their oldest elements.
  The queue has a capacity and refuses texts when it is full. The readings of the clock in one turn are taken to be equal.
\<close>

subsection \<open>State\<close>

datatype text_cache = textCache | dbcCache | methodCache | httpcUrlCache | httpcHostCache | errorCache | serviceCache | sqlCache | stackCache
  | messageCache | useragentCache | refererCache | loginCache | sqlParamCache | httpDomainCache | mtraceSpecCache | mtraceCallerUrlCache

datatype text_div = TEXT_DB_URL | TEXT_METHOD | TEXT_HTTPC_URL | TEXT_HTTPC_HOST | TEXT_ERROR | TEXT_SERVICE | TEXT_SQL | TEXT_STACK_ELEMENTS
  | TEXT_MESSAGE | TEXT_USER_AGENT | TEXT_REFERER | TEXT_LOGIN | TEXT_SQL_PARAM | TEXT_HTTP_DOMAIN | TEXT_MTRACE_SPEC | TEXT_MTRACE_CALLER_URL
  | TEXT_OTHER nat

fun cacheOf :: "text_div \<Rightarrow> text_cache" where
  "cacheOf TEXT_DB_URL = dbcCache"
| "cacheOf TEXT_METHOD = methodCache"
| "cacheOf TEXT_HTTPC_URL = httpcUrlCache"
| "cacheOf TEXT_HTTPC_HOST = httpcHostCache"
| "cacheOf TEXT_ERROR = errorCache"
| "cacheOf TEXT_SERVICE = serviceCache"
| "cacheOf TEXT_SQL = sqlCache"
| "cacheOf TEXT_STACK_ELEMENTS = stackCache"
| "cacheOf TEXT_MESSAGE = messageCache"
| "cacheOf TEXT_USER_AGENT = useragentCache"
| "cacheOf TEXT_REFERER = refererCache"
| "cacheOf TEXT_LOGIN = loginCache"
| "cacheOf TEXT_SQL_PARAM = sqlParamCache"
| "cacheOf TEXT_HTTP_DOMAIN = httpDomainCache"
| "cacheOf TEXT_MTRACE_SPEC = mtraceSpecCache"
| "cacheOf TEXT_MTRACE_CALLER_URL = mtraceCallerUrlCache"
| "cacheOf (TEXT_OTHER d) = textCache"

record TextRec =
  Div :: text_div
  Hash :: int
  Text :: string

record 's hset =
  hs_has :: "'s \<Rightarrow> int \<Rightarrow> bool"
  hs_put :: "int \<Rightarrow> 's \<Rightarrow> 's"
  hs_remove :: "int \<Rightarrow> 's \<Rightarrow> 's"
  hs_clear :: "'s \<Rightarrow> 's"
  hs_full :: "'s \<Rightarrow> bool"

text \<open>What is used of a set: a put may drop other elements, but not while the set is not full.\<close>

definition hset_laws :: "'s hset \<Rightarrow> bool" where
  "hset_laws S \<longleftrightarrow>
     (\<forall>s k. \<not> hs_has S (hs_clear S s) k) \<and> (\<forall>s k. hs_has S (hs_put S k s) k) \<and>
     (\<forall>s k k'. hs_has S (hs_put S k s) k' \<longrightarrow> k' = k \<or> hs_has S s k') \<and>
     (\<forall>s k k'. \<not> hs_full S s \<longrightarrow> hs_has S s k' \<longrightarrow> hs_has S (hs_put S k s) k') \<and>
     (\<forall>s k k'. hs_has S (hs_remove S k s) k' \<longleftrightarrow> k' \<noteq> k \<and> hs_has S s k')"

record 's DataText =
  caches :: "text_cache \<Rightarrow> 's"
  textQueue :: "TextRec list"
  bufferPack :: "TextRec list"
  bufferedLength :: int
  lastDate :: int
  lastSent :: int
  textReset :: int
  packs :: "TextRec list list"

definition BUFFERED_MAX :: int where
  "BUFFERED_MAX = 100 * 1024"

subsection \<open>Operations\<close>

definition AddHashText :: "nat \<Rightarrow> text_div \<Rightarrow> int \<Rightarrow> string \<Rightarrow> 's DataText \<Rightarrow> bool \<times> 's DataText" where
  "AddHashText cap d h str s =
     (if length (textQueue s) < cap then (True, s\<lparr>textQueue := textQueue s @ [\<lparr>Div = d, Hash = h, Text = str\<rparr>]\<rparr>) else (False, s))"

definition SendHashText :: "'s hset \<Rightarrow> nat \<Rightarrow> text_div \<Rightarrow> int \<Rightarrow> string \<Rightarrow> 's DataText \<Rightarrow> 's DataText" where
  "SendHashText S cap d h str s =
     (let c = cacheOf d; old = caches s c; s1 = s\<lparr>caches := (caches s)(c := hs_put S h old)\<rparr> in
      if hs_has S old h then s1
      else (case AddHashText cap d h str s1 of
              (True, s2) \<Rightarrow> s2
            | (False, s2) \<Rightarrow> s2\<lparr>caches := (caches s2)(c := hs_remove S h (caches s2 c))\<rparr>))"

definition SendText :: "'s hset \<Rightarrow> nat \<Rightarrow> (string \<Rightarrow> int) \<Rightarrow> text_div \<Rightarrow> string \<Rightarrow> 's DataText \<Rightarrow> 's DataText" where
  "SendText S cap hashStr d str s = SendHashText S cap d (hashStr str) str s"

definition text_send :: "int \<Rightarrow> 's DataText \<Rightarrow> 's DataText" where
  "text_send now s = s\<lparr>lastSent := now, packs := packs s @ [bufferPack s], bufferPack := [], bufferedLength := 0\<rparr>"

definition text_reset :: "'s hset \<Rightarrow> 's DataText \<Rightarrow> 's DataText" where
  "text_reset S s = s\<lparr>caches := (\<lambda>c. hs_clear S (caches s c))\<rparr>"

definition text_getDate :: "int \<Rightarrow> int" where
  "text_getDate now = now div 3600000"

text \<open>The parts of a turn: taking a text from the queue, sending after five seconds, and the reset.\<close>

definition text_take :: "int \<Rightarrow> 's DataText \<Rightarrow> 's DataText" where
  "text_take now s =
     (case textQueue s of
        [] \<Rightarrow> s
      | r # q \<Rightarrow>
          (let s1 = s\<lparr>textQueue := q, bufferPack := bufferPack s @ [r], bufferedLength := i64 (bufferedLength s + int (length (Text r)))\<rparr> in
           if bufferedLength s1 \<ge> BUFFERED_MAX then text_send now s1 else s1))"

definition text_flush :: "bool \<Rightarrow> int \<Rightarrow> 's DataText \<Rightarrow> 's DataText" where
  "text_flush online now s =
     (if online \<and> bufferedLength s > 0 then (if i64 (now - lastSent s) \<ge> 5000 then text_send now s else s) else s\<lparr>lastSent := now\<rparr>)"

definition text_daily :: "'s hset \<Rightarrow> int \<Rightarrow> int \<Rightarrow> 's DataText \<Rightarrow> 's DataText" where
  "text_daily S confReset now s =
     (let today = text_getDate now in
      if lastDate s \<noteq> today \<or> textReset s \<noteq> confReset
      then (let s1 = s\<lparr>lastDate := today, textReset := confReset\<rparr> in text_reset S (if bufferedLength s1 > 0 then text_send now s1 else s1))
      else s)"

definition text_process :: "'s hset \<Rightarrow> bool \<Rightarrow> int \<Rightarrow> int \<Rightarrow> 's DataText \<Rightarrow> 's DataText" where
  "text_process S online confReset now s = text_daily S confReset now (text_flush online now (text_take now s))"

definition ResetHash :: "'s hset \<Rightarrow> 's DataText \<Rightarrow> 's DataText" where
  "ResetHash S s = text_reset S s"

subsection \<open>No text is lost\<close>

datatype text_event = Sent text_div int string | Turn bool int int | Reset

fun text_step :: "'s hset \<Rightarrow> nat \<Rightarrow> text_event \<Rightarrow> 's DataText \<Rightarrow> 's DataText" where
  "text_step S cap (Sent d h str) s = SendHashText S cap d h str s"
| "text_step S cap (Turn online confReset now) s = text_process S online confReset now s"
| "text_step S cap Reset s = ResetHash S s"

text \<open>All texts accepted so far, in order: those sent, those in the pack and those in the queue.\<close>

definition texts :: "'s DataText \<Rightarrow> TextRec list" where
  "texts s = concat (packs s) @ bufferPack s @ textQueue s"

definition refused :: "nat \<Rightarrow> 's DataText \<Rightarrow> bool" where
  "refused cap s \<longleftrightarrow> cap \<le> length (textQueue s)"

text \<open>A hash in a cache belongs to an accepted text of a kind with that cache.\<close>

definition cached_ok :: "'s hset \<Rightarrow> 's DataText \<Rightarrow> bool" where
  "cached_ok S s \<longleftrightarrow> (\<forall>c h. hs_has S (caches s c) h \<longrightarrow> (\<exists>r\<in>set (texts s). cacheOf (Div r) = c \<and> Hash r = h))"

lemma text_parts_texts [simp]:
  "texts (text_send now s) = texts s" "texts (text_reset S s) = texts s" "texts (text_take now s) = texts s" "texts (text_flush cn now s) = texts s"
  "texts (text_daily S cr now s) = texts s" "texts (text_process S cn cr now s) = texts s" "texts (ResetHash S s) = texts s"
  by (auto simp: texts_def text_send_def text_reset_def text_take_def text_flush_def text_daily_def text_process_def ResetHash_def Let_def split: list.split)

lemma text_parts_caches [simp]:
  "caches (text_send now s) = caches s" "caches (text_take now s) = caches s" "caches (text_flush cn now s) = caches s"
  by (auto simp: text_send_def text_take_def text_flush_def Let_def split: list.split)

lemma text_daily_caches: "caches (text_daily S cr now s) = caches s \<or> caches (text_daily S cr now s) = (\<lambda>c. hs_clear S (caches s c))"
  by (auto simp: text_daily_def text_reset_def Let_def)

lemma SendHashText_texts:
  "texts (SendHashText S cap d h str s) =
     texts s @ (if hs_has S (caches s (cacheOf d)) h \<or> refused cap s then [] else [\<lparr>Div = d, Hash = h, Text = str\<rparr>])"
  by (auto simp: SendHashText_def AddHashText_def texts_def refused_def Let_def)

lemma text_step_cached:
  assumes "hset_laws S" and "cached_ok S s"
  shows "cached_ok S (text_step S cap e s)"
proof (cases e)
  case (Sent d h str)
  let ?s' = "SendHashText S cap d h str s" and ?c = "cacheOf d"
  have put: "hs_has S (hs_put S k t) k' \<Longrightarrow> k' = k \<or> hs_has S t k'" for k k' t using assms(1) unfolding hset_laws_def by blast
  have rem: "hs_has S (hs_remove S k t) k' \<longleftrightarrow> k' \<noteq> k \<and> hs_has S t k'" for k k' t using assms(1) unfolding hset_laws_def by blast
  have has: "hs_has S (caches ?s' c) k \<Longrightarrow> hs_has S (caches s c) k \<or> (c = ?c \<and> k = h \<and> \<not> refused cap s)" for c k
    by (auto simp: SendHashText_def AddHashText_def refused_def Let_def rem dest: put split: if_splits)
  show ?thesis
    unfolding Sent text_step.simps cached_ok_def
  proof (intro allI impI)
    fix c k
    assume k: "hs_has S (caches ?s' c) k"
    show "\<exists>r\<in>set (texts ?s'). cacheOf (Div r) = c \<and> Hash r = k"
    proof (cases "hs_has S (caches s c) k")
      case True
      then show ?thesis using assms(2) unfolding cached_ok_def SendHashText_texts by fastforce
    next
      case False
      with has [OF k] have "c = ?c" "k = h" "\<not> refused cap s" by auto
      with False show ?thesis unfolding SendHashText_texts by auto
    qed
  qed
next
  case (Turn cn cr now)
  have "caches (text_process S cn cr now s) = caches s \<or> caches (text_process S cn cr now s) = (\<lambda>c. hs_clear S (caches s c))"
    unfolding text_process_def using text_daily_caches [of S cr now "text_flush cn now (text_take now s)"] by simp
  then show ?thesis using assms by (auto simp: Turn cached_ok_def hset_laws_def)
next
  case Reset
  then show ?thesis using assms by (auto simp: cached_ok_def hset_laws_def ResetHash_def text_reset_def)
qed

lemma text_step_texts: "\<exists>xs. texts (text_step S cap e s) = texts s @ xs"
  by (cases e) (auto simp: SendHashText_texts)

subsection \<open>Properties of the texts\<close>

lemma fold_prefix: "\<exists>xs. texts (fold (text_step S cap) es s) = texts s @ xs"
proof (induction es arbitrary: s)
  case (Cons e es)
  from text_step_texts [of S cap e s] obtain xs where "texts (text_step S cap e s) = texts s @ xs" by blast
  with Cons [of "text_step S cap e s"] show ?case by auto
qed simp

lemma fold_cached: "hset_laws S \<Longrightarrow> cached_ok S s \<Longrightarrow> cached_ok S (fold (text_step S cap) es s)"
  by (induction es arbitrary: s) (auto simp: text_step_cached)

text \<open>C14: a text that is asked for is sent or on its way. After any sequence of texts, turns and resets, a further text whose
  hash is \<open>h\<close> leaves a text with that hash and cache among those sent, packed or queued, unless the queue is full; and no
  text that was accepted is dropped, nor overtaken by a later one, by what follows.\<close>
theorem text_not_lost:
  assumes "hset_laws S" and "cached_ok S s" and "\<not> refused cap (fold (text_step S cap) es s)"
  shows "(\<exists>r\<in>set (texts (fold (text_step S cap) (es @ [Sent d h str]) s)). cacheOf (Div r) = cacheOf d \<and> Hash r = h) \<and>
    (\<exists>xs. texts (fold (text_step S cap) (es @ es') s) = texts (fold (text_step S cap) es s) @ xs)"
proof
  let ?s = "fold (text_step S cap) es s"
  have ok: "cached_ok S ?s" by (rule fold_cached [OF assms(1,2)])
  show "\<exists>r\<in>set (texts (fold (text_step S cap) (es @ [Sent d h str]) s)). cacheOf (Div r) = cacheOf d \<and> Hash r = h"
  proof (cases "hs_has S (caches ?s (cacheOf d)) h")
    case True
    with ok show ?thesis by (auto simp: SendHashText_texts cached_ok_def)
  next
    case False
    with assms(3) show ?thesis by (simp add: SendHashText_texts)
  qed
  show "\<exists>xs. texts (fold (text_step S cap) (es @ es') s) = texts ?s @ xs" using fold_prefix [of S cap es' ?s] by simp
qed

text \<open>Events that neither reset the caches nor use hashes outside \<open>U\<close>, and sets that have room for \<open>U\<close>.\<close>

fun steady :: "int \<Rightarrow> int \<Rightarrow> int set \<Rightarrow> text_event \<Rightarrow> bool" where
  "steady date reset U (Sent d h str) = (h \<in> U)"
| "steady date reset U (Turn on cr now) = (text_getDate now = date \<and> cr = reset)"
| "steady date reset U Reset = False"

definition hs_room :: "'s hset \<Rightarrow> int set \<Rightarrow> bool" where
  "hs_room S U \<longleftrightarrow> (\<forall>s. (\<forall>k. hs_has S s k \<longrightarrow> k \<in> U) \<longrightarrow> \<not> hs_full S s)"

definition hashes_in :: "'s hset \<Rightarrow> int set \<Rightarrow> 's DataText \<Rightarrow> bool" where
  "hashes_in S U s \<longleftrightarrow> (\<forall>c k. hs_has S (caches s c) k \<longrightarrow> k \<in> U)"

abbreviation ident :: "TextRec \<Rightarrow> text_cache \<times> int" where
  "ident r \<equiv> (cacheOf (Div r), Hash r)"

lemma steady_Turn:
  assumes "steady (lastDate s) (textReset s) U (Turn on cr now)"
  shows "caches (text_process S on cr now s) = caches s" "lastDate (text_process S on cr now s) = lastDate s" "textReset (text_process S on cr now s) = textReset s"
proof -
  have keep: "lastDate (text_flush on now (text_take now s)) = lastDate s" "textReset (text_flush on now (text_take now s)) = textReset s"
    by (auto simp: text_flush_def text_take_def text_send_def Let_def split: list.split)
  then have "text_process S on cr now s = text_flush on now (text_take now s)"
    using assms by (simp add: text_process_def text_daily_def Let_def)
  then show "caches (text_process S on cr now s) = caches s" "lastDate (text_process S on cr now s) = lastDate s" "textReset (text_process S on cr now s) = textReset s"
    using keep by simp_all
qed

lemma SendHashText_caches:
  assumes "hset_laws S" and "hs_room S U" and "hashes_in S U s" and "h \<in> U"
  shows "hs_has S (caches (SendHashText S cap d h str s) c) k \<longleftrightarrow>
    hs_has S (caches s c) k \<or> (c = cacheOf d \<and> k = h \<and> \<not> refused cap s)"
proof -
  have nf: "\<not> hs_full S (caches s (cacheOf d))" using assms(2,3) unfolding hs_room_def hashes_in_def by blast
  have put: "hs_has S (hs_put S h (caches s (cacheOf d))) k \<longleftrightarrow> k = h \<or> hs_has S (caches s (cacheOf d)) k" for k
    using assms(1) nf unfolding hset_laws_def by blast
  have rem: "hs_has S (hs_remove S h t) k \<longleftrightarrow> k \<noteq> h \<and> hs_has S t k" for t k using assms(1) by (simp add: hset_laws_def)
  show ?thesis by (auto simp: SendHashText_def AddHashText_def refused_def Let_def put rem)
qed

lemma SendHashText_reset [simp]: "lastDate (SendHashText S cap d h str s) = lastDate s" "textReset (SendHashText S cap d h str s) = textReset s"
  by (simp_all add: SendHashText_def AddHashText_def Let_def)

text \<open>A text is sent once. Between two resets, and while the sets of hashes are not full, no two accepted texts have the same
  cache and hash, and none has those of a text seen before.\<close>
theorem text_sent_once:
  assumes "hset_laws S" and "hs_room S U" and "hashes_in S U s" and "list_all (steady (lastDate s) (textReset s) U) es"
    and "texts (fold (text_step S cap) es s) = texts s @ new"
  shows "distinct (map ident new) \<and> (\<forall>r\<in>set new. \<not> hs_has S (caches s (cacheOf (Div r))) (Hash r))"
  using assms(3-5)
proof (induction es arbitrary: s new)
  case (Cons e es)
  let ?s = "text_step S cap e s"
  obtain new1 where new1: "texts (fold (text_step S cap) es ?s) = texts ?s @ new1" using fold_prefix by blast
  show ?case
  proof (cases e)
    case (Sent d h str)
    have hU: "h \<in> U" using Cons.prems(2) by (simp add: Sent)
    note has = SendHashText_caches [OF assms(1,2) Cons.prems(1) hU, where cap = cap and d = d and str = str]
    have w: "hashes_in S U ?s" using Cons.prems(1) hU by (auto simp: Sent hashes_in_def has)
    have st: "list_all (steady (lastDate ?s) (textReset ?s) U) es" using Cons.prems(2) by (simp add: Sent)
    note IH = Cons.IH [OF w st new1]
    have "new = (if hs_has S (caches s (cacheOf d)) h \<or> refused cap s then [] else [\<lparr>Div = d, Hash = h, Text = str\<rparr>]) @ new1"
      using Cons.prems(3) new1 by (simp add: Sent SendHashText_texts split: if_splits)
    with IH show ?thesis by (auto simp: Sent has split: if_splits)
  next
    case (Turn on cr now)
    note t = steady_Turn [of s U on cr now S]
    have e: "steady (lastDate s) (textReset s) U (Turn on cr now)" using Cons.prems(2) by (simp add: Turn)
    have w: "hashes_in S U ?s" using Cons.prems(1) t(1) [OF e] by (simp add: Turn hashes_in_def)
    have st: "list_all (steady (lastDate ?s) (textReset ?s) U) es" using Cons.prems(2) t [OF e] by (simp add: Turn)
    have "new = new1" using Cons.prems(3) new1 by (simp add: Turn)
    with Cons.IH [OF w st new1] t(1) [OF e] show ?thesis by (simp add: Turn)
  qed (use Cons.prems(2) in simp)
qed simp

text \<open>Instances of the parameters: a set of hashes is a list of at most a thousand elements, the oldest last.\<close>

definition hset1 :: "int list hset" where
  "hset1 = \<lparr>hs_has = (\<lambda>s k. k \<in> set s), hs_put = (\<lambda>k s. if k \<in> set s then s else k # take 999 (remdups s)), hs_remove = removeAll, hs_clear = (\<lambda>s. []),
     hs_full = (\<lambda>s. 999 < length (remdups s))\<rparr>"

definition text1 :: "int list DataText" where
  "text1 = \<lparr>caches = (\<lambda>c. []), textQueue = [], bufferPack = [], bufferedLength = 0, lastDate = 0, lastSent = 0, textReset = 0, packs = []\<rparr>"

lemma hset1_laws: "hset_laws hset1"
proof -
  have "k \<in> set (take 999 (remdups s))" if "\<not> 999 < length (remdups s)" "k \<in> set s" for k :: int and s using that by simp
  then show ?thesis by (auto simp: hset_laws_def hset1_def dest: in_set_takeD)
qed

lemma hset1_room: "finite U \<Longrightarrow> card U \<le> 999 \<Longrightarrow> hs_room hset1 U"
  unfolding hs_room_def hset1_def by (auto simp: length_remdups_card_conv not_less intro: order_trans [OF card_mono])

theorem text_not_lost_witness:
  "\<exists>r\<in>set (texts (fold (text_step hset1 10) ([Sent TEXT_SQL 5 ''a'', Turn True 0 0, Reset] @ [Sent TEXT_SQL 5 ''a'']) text1)). cacheOf (Div r) = sqlCache \<and> Hash r = 5"
proof -
  have c: "cached_ok hset1 text1" by (simp add: cached_ok_def hset1_def text1_def)
  have "\<not> refused 10 (fold (text_step hset1 10) [Sent TEXT_SQL 5 ''a'', Turn True 0 0, Reset] text1)" by code_simp
  from text_not_lost [OF hset1_laws c this, of TEXT_SQL 5 "''a''" "[]"] show ?thesis by simp
qed

theorem text_sent_once_witness:
  "\<exists>new. texts (fold (text_step hset1 10) [Sent TEXT_SQL 5 ''a'', Sent TEXT_ERROR 5 ''b'', Turn True 0 0, Sent TEXT_SQL 5 ''a''] text1) = texts text1 @ new \<and>
     length new = 2 \<and> distinct (map ident new)"
proof -
  let ?es = "[Sent TEXT_SQL 5 ''a'', Sent TEXT_ERROR 5 ''b'', Turn True 0 0, Sent TEXT_SQL 5 ''a'']"
  let ?new = "[\<lparr>Div = TEXT_SQL, Hash = 5, Text = ''a''\<rparr>, \<lparr>Div = TEXT_ERROR, Hash = 5, Text = ''b''\<rparr>]"
  have r: "hs_room hset1 {5}" by (rule hset1_room) simp_all
  have w: "hashes_in hset1 {5} text1" by (simp add: hashes_in_def hset1_def text1_def)
  have s: "list_all (steady (lastDate text1) (textReset text1) {5}) ?es" by (simp add: text1_def text_getDate_def)
  have n: "texts (fold (text_step hset1 10) ?es text1) = texts text1 @ ?new" by code_simp
  from text_sent_once [OF hset1_laws r w s n] n show ?thesis by (intro exI [of _ ?new]) simp
qed

end
