(* ===== verification/App_Context.thy ===== *)
theory App_Context
  imports Keyed_Stat Url_Pattern
begin

text \<open>
  Application contexts (\<^verbatim>\<open>agent/agent/appctx\<close>): the URL of a transaction is mapped to the name of a context by one of
  three parsers (\<^verbatim>\<open>PathDefault.go\<close>, \<^verbatim>\<open>PathPrefix.go\<close>, \<^verbatim>\<open>PathMatch.go\<close>), and the collector
  (\<^verbatim>\<open>AppCtxStatCollector.go\<close>) counts the transactions of each context and reports them in a pack with parallel lists.

  The linked sets and maps, \<open>HashStr\<close>, \<open>Tokenizer\<close> and \<open>TrimEmpty\<close> of golib are the parameter \<open>L\<close> of the URL detectors;
  the tables of the collector are the parameter \<open>H\<close> of the keyed statistics. The rate of transactions is the exact
  quotient, which the code rounds to a float. A cleared cache is an empty one.
\<close>

record appctx_conf =
  AppContextEnabled :: bool
  AppContextParser :: string
  AppContextParserReset :: int
  AppContextPathSet :: string
  AppContextPathDepth :: int
  acApdexTime :: int

subsection \<open>The parsers\<close>

record NameAndUrl =
  nauName :: string
  nauURL :: string

text \<open>\<open>strings.Split\<close> and \<open>strings.Contains\<close> with a separator of one character.\<close>

fun SplitChar :: "char \<Rightarrow> string \<Rightarrow> string list" where
  "SplitChar c [] = [[]]"
| "SplitChar c (x # xs) =
     (if x = c then [] # SplitChar c xs
      else (case SplitChar c xs of [] \<Rightarrow> [[x]] | p # ps \<Rightarrow> (x # p) # ps))"

definition matchItem :: "('s, 'm, 't) url_lib \<Rightarrow> string \<Rightarrow> string \<Rightarrow> string option" where
  "matchItem L url item0 =
     (let item = TrimEmpty L item0 in
      if item = [] then None
      else if CHR ''@'' \<in> set item
      then (case SplitChar CHR ''@'' item of
              p0 # p1 # ps \<Rightarrow> if TrimEmpty L p1 = url then Some (TrimEmpty L p0) else None
            | _ \<Rightarrow> None)
      else if TrimEmpty L item = url then Some url else None)"

definition matchPathSet :: "('s, 'm, 't) url_lib \<Rightarrow> string \<Rightarrow> string \<Rightarrow> string" where
  "matchPathSet L url pathSet =
     (case List.map_filter (matchItem L url) (Tokenizer L pathSet '','') of [] \<Rightarrow> [] | name # _ \<Rightarrow> name)"

definition dropLastSlash :: "string \<Rightarrow> string" where
  "dropLastSlash url = (if 1 < length url \<and> last url = CHR ''/'' then butlast url else url)"

definition cutDepth1 :: "string \<Rightarrow> string" where
  "cutDepth1 url = (let idx = Index (tl url) ''/'' in if idx > 0 then take (nat (idx + 1)) url else url)"

definition cutDepth2 :: "string \<Rightarrow> string" where
  "cutDepth2 url =
     (let i = Index (tl url) ''/'' in
      if i > 0
      then (let idx1 = i + 1; idx2 = Index (drop (nat (idx1 + 1)) url) ''/'' in
            if idx2 > 0 then take (nat (idx1 + 1 + idx2)) url else url)
      else url)"

definition PathDefault_Parse :: "('s, 'm, 't) url_lib \<Rightarrow> appctx_conf \<Rightarrow> string \<Rightarrow> string" where
  "PathDefault_Parse L conf url =
     (if url = [] then []
      else (let u = dropLastSlash (if AppContextPathDepth conf = 2 then cutDepth2 url else cutDepth1 url) in
            if AppContextPathSet conf = [] then u else matchPathSet L u (AppContextPathSet conf)))"

definition divKeyValueTrim :: "('s, 'm, 't) url_lib \<Rightarrow> string \<Rightarrow> string \<Rightarrow> string list" where
  "divKeyValueTrim L s sep =
     (if s = [] \<or> sep = [] then [s]
      else (let pos = Index s sep in
            if pos = - 1 then [TrimEmpty L s]
            else [TrimEmpty L (take (nat pos) s), TrimEmpty L (drop (nat pos + length sep) s)]))"

text \<open>The configured items, read in the same way by the prefix and the match parser.\<close>

definition confItem :: "('s, 'm, 't) url_lib \<Rightarrow> string \<Rightarrow> NameAndUrl list" where
  "confItem L item0 =
     (let item = TrimEmpty L item0 in
      if item = [] then []
      else (case divKeyValueTrim L item ''@'' of
              [p0, p1] \<Rightarrow> (let name = TrimEmpty L p0; url = TrimEmpty L p1 in
                 if name \<noteq> [] \<and> url \<noteq> [] then [\<lparr>nauName = name, nauURL = url\<rparr>] else [])
            | [p0] \<Rightarrow> (let url = TrimEmpty L p0 in if url \<noteq> [] then [\<lparr>nauName = url, nauURL = url\<rparr>] else [])
            | _ \<Rightarrow> []))"

definition confItems :: "('s, 'm, 't) url_lib \<Rightarrow> string \<Rightarrow> NameAndUrl list" where
  "confItems L val = (if val = [] then [] else concat (map (confItem L) (Tokenizer L val '','')))"

record ('s, 'm) PathPrefix =
  ppList :: "NameAndUrl list"
  ppConfHash :: nat
  ppNoNeedSet :: 's
  ppParsedSet :: 'm

definition NewPathPrefix :: "('s, 'm, 't) url_lib \<Rightarrow> ('s, 'm) PathPrefix" where
  "NewPathPrefix L = \<lparr>ppList = [], ppConfHash = 0, ppNoNeedSet = setNew L, ppParsedSet = mapNew L\<rparr>"

definition u32 :: "int \<Rightarrow> nat" where
  "u32 x = nat (x mod 2 ^ 32)"

fun firstPrefix :: "NameAndUrl list \<Rightarrow> string \<Rightarrow> string option" where
  "firstPrefix [] url = None"
| "firstPrefix (item # items) url = (if HasPrefix url (nauURL item) then Some (nauName item) else firstPrefix items url)"

definition PathPrefix_Parse :: "('s, 'm, 't) url_lib \<Rightarrow> nat \<Rightarrow> string \<Rightarrow> ('s, 'm) PathPrefix \<Rightarrow> string \<times> ('s, 'm) PathPrefix" where
  "PathPrefix_Parse L hashValue url p =
     (let intHash = i32 (int hashValue) in
      if setContains L (ppNoNeedSet p) intHash then ([], p)
      else (case mapGet L (ppParsedSet p) intHash of
              Some r \<Rightarrow> (r, p)
            | None \<Rightarrow> (case firstPrefix (ppList p) url of
                Some name \<Rightarrow> (name, p\<lparr>ppParsedSet := mapPut L intHash name (ppParsedSet p)\<rparr>)
              | None \<Rightarrow> ([], p\<lparr>ppNoNeedSet := setPut L intHash (ppNoNeedSet p)\<rparr>))))"

definition PathPrefix_Update :: "('s, 'm, 't) url_lib \<Rightarrow> appctx_conf \<Rightarrow> ('s, 'm) PathPrefix \<Rightarrow> ('s, 'm) PathPrefix" where
  "PathPrefix_Update L conf p =
     (let val = TrimEmpty L (AppContextPathSet conf); newHash = u32 (HashStr L val) in
      if ppConfHash p = newHash then p
      else \<lparr>ppList = confItems L val, ppConfHash = newHash, ppNoNeedSet = setNew L, ppParsedSet = mapNew L\<rparr>)"

record PathMatch =
  urlMap :: "string \<rightharpoonup> string"
  pmConfHash :: nat

definition NewPathMatch :: PathMatch where
  "NewPathMatch = \<lparr>urlMap = Map.empty, pmConfHash = 0\<rparr>"

definition PathMatch_Parse :: "string \<Rightarrow> PathMatch \<Rightarrow> string" where
  "PathMatch_Parse url p = (case urlMap p url of Some r \<Rightarrow> r | None \<Rightarrow> [])"

definition PathMatch_Update :: "('s, 'm, 't) url_lib \<Rightarrow> appctx_conf \<Rightarrow> PathMatch \<Rightarrow> PathMatch" where
  "PathMatch_Update L conf p =
     (let val = TrimEmpty L (AppContextPathSet conf); newHash = u32 (HashStr L val) in
      if pmConfHash p = newHash then p
      else \<lparr>urlMap = fold (\<lambda>i m. m(nauURL i \<mapsto> nauName i)) (confItems L val) Map.empty, pmConfHash = newHash\<rparr>)"

datatype ('s, 'm) IAppCtx = PathDefault | Prefixed "('s, 'm) PathPrefix" | Matched PathMatch

fun parser_Name :: "('s, 'm) IAppCtx \<Rightarrow> string" where
  "parser_Name PathDefault = ''default''"
| "parser_Name (Prefixed p) = ''prefix''"
| "parser_Name (Matched p) = ''match''"

fun parser_Parse :: "('s, 'm, 't) url_lib \<Rightarrow> appctx_conf \<Rightarrow> nat \<Rightarrow> string \<Rightarrow> ('s, 'm) IAppCtx \<Rightarrow> string \<times> ('s, 'm) IAppCtx" where
  "parser_Parse L conf h url PathDefault = (PathDefault_Parse L conf url, PathDefault)"
| "parser_Parse L conf h url (Prefixed p) = (case PathPrefix_Parse L h url p of (r, p') \<Rightarrow> (r, Prefixed p'))"
| "parser_Parse L conf h url (Matched p) = (PathMatch_Parse url p, Matched p)"

fun parser_Update :: "('s, 'm, 't) url_lib \<Rightarrow> appctx_conf \<Rightarrow> ('s, 'm) IAppCtx \<Rightarrow> ('s, 'm) IAppCtx" where
  "parser_Update L conf PathDefault = PathDefault"
| "parser_Update L conf (Prefixed p) = Prefixed (PathPrefix_Update L conf p)"
| "parser_Update L conf (Matched p) = Matched (PathMatch_Update L conf p)"

subsection \<open>The collector\<close>

record Perf =
  Act0 :: int
  Act3 :: int
  Act8 :: int
  Cnt :: int
  Err :: int
  TimeSum :: int
  Tolerated :: int
  Satisfied :: int

definition noPerf :: Perf where
  "noPerf = \<lparr>Act0 = 0, Act3 = 0, Act8 = 0, Cnt = 0, Err = 0, TimeSum = 0, Tolerated = 0, Satisfied = 0\<rparr>"

definition Actx :: "Perf \<Rightarrow> int" where
  "Actx p = i32 (Act0 p + Act3 p + Act8 p)"

record ac_tx =
  acElapsed :: int
  acError :: int

record ac_row =
  row_id :: int
  row_path :: string
  row_act :: int
  row_act0 :: int
  row_act3 :: int
  row_act8 :: int
  row_tps :: rat
  row_count :: int
  row_error :: int
  row_time_sum :: int
  row_tolerated :: int
  row_satisfied :: int

record ac_pack =
  acTime :: int
  acParser :: string
  acRows :: "ac_row list"

record ('h, 's, 'm) AppCtxStatCollector =
  appCtxTable :: "('h, Perf) tbl"
  actTable :: "('h, Perf) tbl"
  acLastTime :: int
  appCtxParser :: "('s, 'm) IAppCtx"
  appCtxParserName :: string
  appCtxParserReset :: int
  ac_sent :: "ac_pack list"

definition activeRec :: "int \<Rightarrow> Perf \<Rightarrow> Perf" where
  "activeRec divAct p =
     (if divAct = 1 then p\<lparr>Act3 := i32 (Act3 p + 1)\<rparr>
      else if divAct = 2 then p\<lparr>Act8 := i32 (Act8 p + 1)\<rparr>
      else p\<lparr>Act0 := i32 (Act0 p + 1)\<rparr>)"

definition endRec :: "appctx_conf \<Rightarrow> ac_tx \<Rightarrow> Perf \<Rightarrow> Perf" where
  "endRec conf tx p0 =
     (let p = p0\<lparr>Cnt := i32 (Cnt p0 + 1), TimeSum := i64 (TimeSum p0 + acElapsed tx)\<rparr>;
          apdexTime = (if acApdexTime conf \<le> 0 then 1200 else acApdexTime conf) in
      if acError tx \<noteq> 0 then p\<lparr>Err := i32 (Err p + 1)\<rparr>
      else if acElapsed tx \<le> apdexTime then p\<lparr>Satisfied := i32 (Satisfied p + 1)\<rparr>
      else if acElapsed tx \<le> i32 (apdexTime * 4) then p\<lparr>Tolerated := i32 (Tolerated p + 1)\<rparr>
      else p)"

definition ActiveTx :: "('h, string) hm \<Rightarrow> ('s, 'm, 't) url_lib \<Rightarrow> string \<Rightarrow> int \<Rightarrow> ('h, 's, 'm) AppCtxStatCollector \<Rightarrow> ('h, 's, 'm) AppCtxStatCollector" where
  "ActiveTx H L biz divAct c =
     (if TrimEmpty L biz = [] then c
      else (case getOrPut H biz noPerf (actTable c) of (a, t) \<Rightarrow> c\<lparr>actTable := modify a (activeRec divAct) t\<rparr>))"

definition EndTx ::
  "('h, string) hm \<Rightarrow> ('s, 'm, 't) url_lib \<Rightarrow> appctx_conf \<Rightarrow> string \<Rightarrow> ac_tx \<Rightarrow> ('h, 's, 'm) AppCtxStatCollector \<Rightarrow> ('h, 's, 'm) AppCtxStatCollector" where
  "EndTx H L conf contextName tx c =
     (if TrimEmpty L contextName = [] then c
      else (case getOrPut H contextName noPerf (appCtxTable c) of (a, t) \<Rightarrow> c\<lparr>appCtxTable := modify a (endRec conf tx) t\<rparr>))"

definition hasKey :: "('h, string) hm \<Rightarrow> ('h, Perf) tbl \<Rightarrow> string \<Rightarrow> bool" where
  "hasKey H t k \<longleftrightarrow> hm_get H (tab t) k \<noteq> None"

definition keysOf :: "('h, string) hm \<Rightarrow> ('h, Perf) tbl \<Rightarrow> string list" where
  "keysOf H t = map fst (hm_entries H (tab t))"

definition contextName :: "('s, 'm, 't) url_lib \<Rightarrow> string \<Rightarrow> string" where
  "contextName L item0 =
     (let item = TrimEmpty L item0 in
      if CHR ''@'' \<in> set item
      then (case Tokenizer L item ''@'' of p0 # p1 # ps \<Rightarrow> TrimEmpty L p0 | _ \<Rightarrow> [])
      else TrimEmpty L item)"

definition collectPaths :: "('h, string) hm \<Rightarrow> ('s, 'm, 't) url_lib \<Rightarrow> appctx_conf \<Rightarrow> ('h, 's, 'm) AppCtxStatCollector \<Rightarrow> string list" where
  "collectPaths H L conf c =
     (if TrimEmpty L (AppContextPathSet conf) \<noteq> []
      then filter (\<lambda>k. k \<noteq> [] \<and> (hasKey H (appCtxTable c) k \<or> hasKey H (actTable c) k))
             (map (contextName L) (filter (\<lambda>i. TrimEmpty L i \<noteq> []) (Tokenizer L (AppContextPathSet conf) '','')))
      else keysOf H (appCtxTable c) @ filter (\<lambda>k. \<not> hasKey H (appCtxTable c) k) (keysOf H (actTable c)))"

definition perfOf :: "('h, string) hm \<Rightarrow> ('h, Perf) tbl \<Rightarrow> string \<Rightarrow> Perf" where
  "perfOf H t k = (case entry_of H t k of Some p \<Rightarrow> p | None \<Rightarrow> noPerf)"

definition makeRow :: "('h, string) hm \<Rightarrow> ('s, 'm, 't) url_lib \<Rightarrow> int \<Rightarrow> ('h, 's, 'm) AppCtxStatCollector \<Rightarrow> string \<Rightarrow> ac_row" where
  "makeRow H L elapsed c path =
     (let a = perfOf H (actTable c) path; p = perfOf H (appCtxTable c) path in
      \<lparr>row_id = HashStr L path, row_path = path, row_act = Actx a, row_act0 = Act0 a, row_act3 = Act3 a, row_act8 = Act8 a,
       row_tps = of_int (Cnt p * 1000) / of_int elapsed, row_count = Cnt p, row_error = Err p, row_time_sum = TimeSum p,
       row_tolerated = Tolerated p, row_satisfied = Satisfied p\<rparr>)"

definition AppCtx_Process ::
  "('h, string) hm \<Rightarrow> ('s, 'm, 't) url_lib \<Rightarrow> appctx_conf \<Rightarrow> int \<Rightarrow> int \<Rightarrow> ('h, 's, 'm) AppCtxStatCollector \<Rightarrow> ('h, 's, 'm) AppCtxStatCollector" where
  "AppCtx_Process H L conf now workTime c0 =
     (let elapsed = i64 (now - acLastTime c0); c = c0\<lparr>acLastTime := now\<rparr> in
      if elapsed \<le> 1000 then c
      else if hm_size H (tab (appCtxTable c)) + hm_size H (tab (actTable c)) = 0 then c
      else (let paths = collectPaths H L conf c in
            if paths = [] then c
            else (let name = parser_Name (appCtxParser c);
                      p = \<lparr>acTime = workTime, acParser = (if name = [] then ''unknown'' else name), acRows = map (makeRow H L elapsed c) paths\<rparr> in
                  c\<lparr>actTable := clear_tbl H (actTable c),
                    appCtxTable := (if hm_size H (tab (appCtxTable c)) > 0 then clear_tbl H (appCtxTable c) else appCtxTable c),
                    ac_sent := ac_sent c @ [p]\<rparr>)))"

definition AppCtx_GetContextPath ::
  "('s, 'm, 't) url_lib \<Rightarrow> appctx_conf \<Rightarrow> nat \<Rightarrow> string \<Rightarrow> ('h, 's, 'm) AppCtxStatCollector \<Rightarrow> string \<times> ('h, 's, 'm) AppCtxStatCollector" where
  "AppCtx_GetContextPath L conf hashValue url c =
     (case parser_Parse L conf hashValue url (appCtxParser c) of (r, p) \<Rightarrow> (r, c\<lparr>appCtxParser := p\<rparr>))"

definition newParserFor :: "('s, 'm, 't) url_lib \<Rightarrow> string \<Rightarrow> ('s, 'm) IAppCtx" where
  "newParserFor L name =
     (if name = ''prefix'' then Prefixed (NewPathPrefix L)
      else if name = ''match'' then Matched NewPathMatch
      else PathDefault)"

definition updateNoLock :: "('s, 'm, 't) url_lib \<Rightarrow> appctx_conf \<Rightarrow> ('h, 's, 'm) AppCtxStatCollector \<Rightarrow> ('h, 's, 'm) AppCtxStatCollector" where
  "updateNoLock L conf c0 =
     (if \<not> AppContextEnabled conf then c0
      else (let newParser = TrimEmpty L (AppContextParser conf); reset = AppContextParserReset conf;
                c = (if appCtxParserName c0 \<noteq> newParser \<or> appCtxParserReset c0 \<noteq> reset
                     then c0\<lparr>appCtxParserReset := reset, appCtxParserName := newParser, appCtxParser := newParserFor L newParser\<rparr>
                     else c0) in
            c\<lparr>appCtxParser := parser_Update L conf (appCtxParser c)\<rparr>))"

definition AppCtx_Clear :: "('h, string) hm \<Rightarrow> ('h, 's, 'm) AppCtxStatCollector \<Rightarrow> ('h, 's, 'm) AppCtxStatCollector" where
  "AppCtx_Clear H c = c\<lparr>appCtxTable := clear_tbl H (appCtxTable c), actTable := clear_tbl H (actTable c)\<rparr>"

definition newAppCtxStatCollector ::
  "('s, 'm, 't) url_lib \<Rightarrow> appctx_conf \<Rightarrow> 'h \<Rightarrow> int \<Rightarrow> ('h, 's, 'm) AppCtxStatCollector" where
  "newAppCtxStatCollector L conf m now =
     updateNoLock L conf
       \<lparr>appCtxTable = \<lparr>tab = m, cells = (\<lambda>_. noPerf), fresh = 0\<rparr>, actTable = \<lparr>tab = m, cells = (\<lambda>_. noPerf), fresh = 0\<rparr>,
        acLastTime = now, appCtxParser = PathDefault, appCtxParserName = ''default'', appCtxParserReset = 0, ac_sent = []\<rparr>"

subsection \<open>The default parser cuts a path after its first elements\<close>

text \<open>A path of the given elements, none of which is empty or holds a slash.\<close>

definition pathOf :: "string list \<Rightarrow> string" where
  "pathOf segs = concat (map (\<lambda>s. CHR ''/'' # s) segs)"

definition element :: "string \<Rightarrow> bool" where
  "element s \<longleftrightarrow> s \<noteq> [] \<and> CHR ''/'' \<notin> set s"

lemma Index_slash_rest:
  assumes "CHR ''/'' \<notin> set s" and "t = [] \<or> hd t = CHR ''/''"
  shows "Index (s @ t) ''/'' = (if t = [] then - 1 else int (length s))"
  using assms Index_char_none Index_char_some by (cases t) auto

lemma pathOf_hd: "pathOf segs = [] \<or> hd (pathOf segs) = CHR ''/''"
  by (cases segs) (auto simp: pathOf_def)

lemma dropLastSlash_path:
  assumes "list_all element segs" and "segs \<noteq> []"
  shows "dropLastSlash (pathOf segs) = pathOf segs" and "dropLastSlash (pathOf segs @ ''/'') = pathOf segs"
proof -
  have l: "pathOf segs \<noteq> [] \<and> last (pathOf segs) \<noteq> CHR ''/''"
    using assms last_in_set by (induction segs rule: rev_induct) (fastforce simp: pathOf_def element_def last_append)+
  then show "dropLastSlash (pathOf segs) = pathOf segs" by (simp add: dropLastSlash_def)
  show "dropLastSlash (pathOf segs @ ''/'') = pathOf segs" using l by (simp add: dropLastSlash_def Suc_le_eq)
qed

lemma cutDepth1_path:
  assumes "element s" and "t = [] \<or> hd t = CHR ''/''"
  shows "cutDepth1 (CHR ''/'' # s @ t) = CHR ''/'' # s"
  using assms Index_slash_rest [of s t] by (auto simp: cutDepth1_def element_def Let_def nat_add_distrib)

lemma cutDepth2_path:
  assumes "element s1" and "element s2" and "t = [] \<or> hd t = CHR ''/''"
  shows "cutDepth2 (CHR ''/'' # s1 @ CHR ''/'' # s2 @ t) = CHR ''/'' # s1 @ CHR ''/'' # s2"
proof -
  have "Index (s1 @ CHR ''/'' # s2 @ t) ''/'' = int (length s1)" using assms(1) by (simp add: element_def Index_char_some)
  moreover have "Index (s2 @ t) ''/'' = (if t = [] then - 1 else int (length s2))"
    using assms(2,3) by (simp add: element_def Index_slash_rest)
  moreover have "nat (int (length s1) + 1 + 1) = Suc (Suc (length s1))" "nat (int (length s1) + 1 + 1 + int (length s2)) = Suc (Suc (length s1 + length s2))"
    by simp_all
  ultimately show ?thesis using assms(1,2) by (auto simp: cutDepth2_def element_def Let_def)
qed

lemma slash_tail: "pathOf segs @ (if b then ''/'' else []) = [] \<or> hd (pathOf segs @ (if b then ''/'' else [])) = CHR ''/''"
  using pathOf_hd [of segs] by (cases "pathOf segs") auto

text \<open>The default parser names a transaction after the first element of its path, or the first two where the configured
  depth is 2, whether or not the path ends in a slash; a shorter path is its own name.\<close>
theorem context_of_path:
  assumes "list_all element segs" and "segs \<noteq> []" and "AppContextPathSet conf = []"
  shows "PathDefault_Parse L conf (pathOf segs @ (if b then ''/'' else [])) =
     pathOf (take (if AppContextPathDepth conf = 2 then 2 else 1) segs)"
proof -
  obtain s ss where segs: "segs = s # ss" using assms(2) by (cases segs) auto
  let ?t = "pathOf ss @ (if b then ''/'' else [])" and ?u = "pathOf segs @ (if b then ''/'' else [])"
  have u: "?u = CHR ''/'' # s @ ?t" by (simp add: segs pathOf_def)
  have s: "element s" "list_all element ss" using assms(1) segs by auto
  have one: "dropLastSlash (cutDepth1 ?u) = pathOf (take 1 segs)"
    using dropLastSlash_path(1) [of "[s]"] s unfolding u cutDepth1_path [OF s(1) slash_tail] by (simp add: segs pathOf_def)
  have two: "dropLastSlash (cutDepth2 ?u) = pathOf (take 2 segs)"
  proof (cases ss)
    case Nil
    have "cutDepth2 ?u = ?u"
      using s Index_char_none [of "CHR ''/''" s] Index_char_some [of "CHR ''/''" s "[]"] unfolding u
      by (cases b) (simp_all add: Nil pathOf_def cutDepth2_def element_def Let_def nat_add_distrib)
    then show ?thesis using dropLastSlash_path [OF assms(1,2)] by (simp add: segs Nil)
  next
    case (Cons s2 sr)
    have "cutDepth2 ?u = pathOf [s, s2]"
      using cutDepth2_path [OF s(1) _ slash_tail [of sr b], of s2] s(2) unfolding u Cons by (simp add: pathOf_def)
    then show ?thesis using dropLastSlash_path(1) [of "[s, s2]"] s by (simp add: segs Cons)
  qed
  show ?thesis using one two assms(3) by (simp add: PathDefault_Parse_def u)
qed

definition acconf1 :: appctx_conf where
  "acconf1 = \<lparr>AppContextEnabled = True, AppContextParser = ''prefix'', AppContextParserReset = 0, AppContextPathSet = [],
     AppContextPathDepth = 2, acApdexTime = 0\<rparr>"

theorem context_of_path_witness:
  "PathDefault_Parse ulib1 acconf1 ''/shop/cart/7/'' = ''/shop/cart''"
  using context_of_path [of "[''shop'', ''cart'', ''7'']" acconf1 ulib1 True] by (simp add: pathOf_def element_def acconf1_def)

subsection \<open>The caches of the prefix parser\<close>

definition prefix_reference :: "('s, 'm) PathPrefix \<Rightarrow> string \<Rightarrow> string" where
  "prefix_reference p url = (case firstPrefix (ppList p) url of Some name \<Rightarrow> name | None \<Rightarrow> [])"

definition prefix_ok :: "('s, 'm, 't) url_lib \<Rightarrow> (string \<Rightarrow> nat) \<Rightarrow> string set \<Rightarrow> ('s, 'm) PathPrefix \<Rightarrow> bool" where
  "prefix_ok L h asked p \<longleftrightarrow> url_laws L \<and>
     (\<forall>k. setContains L (ppNoNeedSet p) k \<longrightarrow> (\<exists>u\<in>asked. k = i32 (int (h u)) \<and> prefix_reference p u = [])) \<and>
     (\<forall>k v. mapGet L (ppParsedSet p) k = Some v \<longrightarrow> (\<exists>u\<in>asked. k = i32 (int (h u)) \<and> prefix_reference p u = v))"

lemma prefix_answer:
  assumes "prefix_ok L h asked p" and inj: "inj_on (\<lambda>u. i32 (int (h u))) (insert u asked)"
  shows "fst (PathPrefix_Parse L (h u) u p) = prefix_reference p u"
proof -
  have same: "v = u" if "v \<in> asked" "i32 (int (h u)) = i32 (int (h v))" for v using inj_onD [OF inj, of v u] that by auto
  have "prefix_reference p u = []" if "setContains L (ppNoNeedSet p) (i32 (int (h u)))"
    using that assms(1) same unfolding prefix_ok_def by metis
  moreover have "prefix_reference p u = r" if "mapGet L (ppParsedSet p) (i32 (int (h u))) = Some r" for r
    using that assms(1) same unfolding prefix_ok_def by metis
  ultimately show ?thesis by (auto simp: PathPrefix_Parse_def prefix_reference_def Let_def split: option.split)
qed

lemma prefix_same: "prefix_reference (snd (PathPrefix_Parse L k u p)) = prefix_reference p"
  by (rule ext) (simp add: prefix_reference_def PathPrefix_Parse_def Let_def split: option.split)

lemma prefix_keeps:
  assumes "prefix_ok L h asked p"
  shows "prefix_ok L h (insert u asked) (snd (PathPrefix_Parse L (h u) u p))"
proof -
  let ?p = "snd (PathPrefix_Parse L (h u) u p)" and ?k = "i32 (int (h u))"
  have laws: "url_laws L" using assms by (simp add: prefix_ok_def)
  have s: "setContains L (ppNoNeedSet p) k \<or> k = ?k \<and> prefix_reference p u = []" if "setContains L (ppNoNeedSet ?p) k" for k
    using that laws by (auto simp: PathPrefix_Parse_def prefix_reference_def url_laws_def Let_def split: if_splits option.splits)
  have put: "k' = k \<and> v' = v \<or> mapGet L m k' = Some v'" if "mapGet L (mapPut L k v m) k' = Some v'" for k k' v v' m
    using that laws by (simp add: url_laws_def)
  have m: "mapGet L (ppParsedSet p) k = Some v \<or> k = ?k \<and> prefix_reference p u = v" if "mapGet L (ppParsedSet ?p) k = Some v" for k v
    using that by (auto simp: PathPrefix_Parse_def prefix_reference_def Let_def split: if_splits option.splits dest: put)
  show ?thesis using assms s m unfolding prefix_ok_def prefix_same by (metis insert_iff)
qed

interpretation prefix_urls: url_cache "\<lambda>u. PathPrefix_Parse L (h u) u" prefix_reference "prefix_ok L h" "\<lambda>u. i32 (int (h u))" for L h
  by unfold_locales (auto intro: prefix_answer prefix_keeps prefix_same)

text \<open>The caches of the prefix parser never change an answer. After the configured contexts have been read, every sequence
  of URLs is answered with the name of the first configured prefix of the URL, or with no name, as long as no two of the
  URLs have the same hash.\<close>
theorem prefix_caching:
  assumes "url_laws L" and "ppConfHash p \<noteq> u32 (HashStr L (TrimEmpty L (AppContextPathSet conf)))"
    and "inj_on (\<lambda>u. i32 (int (h u))) (set us)"
  shows "fst (ask (\<lambda>u. PathPrefix_Parse L (h u) u) us (PathPrefix_Update L conf p)) =
     map (\<lambda>u. case firstPrefix (confItems L (TrimEmpty L (AppContextPathSet conf))) u of Some name \<Rightarrow> name | None \<Rightarrow> []) us"
proof -
  let ?p = "PathPrefix_Update L conf p"
  have "prefix_ok L h {} ?p" using assms(1,2) by (simp add: prefix_ok_def PathPrefix_Update_def Let_def url_laws_def)
  from prefix_urls.ask_reference [OF this, of us] assms(3) have "fst (ask (\<lambda>u. PathPrefix_Parse L (h u) u) us ?p) = map (prefix_reference ?p) us" by simp
  moreover have "ppList ?p = confItems L (TrimEmpty L (AppContextPathSet conf))" using assms(2) by (simp add: PathPrefix_Update_def Let_def)
  ultimately show ?thesis by (simp add: prefix_reference_def)
qed

definition aclib1 :: "(int list, (int \<times> string) list, (string list \<times> string) list) url_lib" where
  "aclib1 = ulib1\<lparr>Tokenizer := (\<lambda>s sep. filter (\<lambda>p. p \<noteq> []) (SplitChar (hd sep) s))\<rparr>"

lemma aclib1_laws: "url_laws aclib1"
  using ulib1_laws(1) by (simp add: aclib1_def url_laws_def ulib1_def)

theorem prefix_caching_witness:
  "fst (ask (\<lambda>u. PathPrefix_Parse aclib1 (length u) u) [''/a/1'', ''/x'', ''/a/1'', ''/x'']
     (PathPrefix_Update aclib1 (acconf1\<lparr>AppContextPathSet := ''A@/a,/b''\<rparr>) (NewPathPrefix aclib1))) = [''A'', [], ''A'', []]"
proof -
  let ?conf = "acconf1\<lparr>AppContextPathSet := ''A@/a,/b''\<rparr>" and ?us = "[''/a/1'', ''/x'', ''/a/1'', ''/x'']"
  have c: "ppConfHash (NewPathPrefix aclib1) \<noteq> u32 (HashStr aclib1 (TrimEmpty aclib1 (AppContextPathSet ?conf)))"
    by (simp add: NewPathPrefix_def aclib1_def ulib1_def u32_def)
  have i: "inj_on (\<lambda>u. i32 (int (length u))) (set ?us)" by (simp add: inj_on_def)
  show ?thesis
    unfolding prefix_caching [OF aclib1_laws c i]
    by (simp add: confItems_def confItem_def divKeyValueTrim_def aclib1_def ulib1_def HasPrefix_def Let_def)
qed

subsection \<open>The collector reports every transaction once\<close>

datatype ac_step = Ended appctx_conf string ac_tx | Activated string int | Turn appctx_conf int int | Updated appctx_conf | Asked appctx_conf nat string

fun ac_do :: "('h, string) hm \<Rightarrow> ('s, 'm, 't) url_lib \<Rightarrow> ac_step \<Rightarrow> ('h, 's, 'm) AppCtxStatCollector \<Rightarrow> ('h, 's, 'm) AppCtxStatCollector" where
  "ac_do H L (Ended conf name tx) c = EndTx H L conf name tx c"
| "ac_do H L (Activated biz d) c = ActiveTx H L biz d c"
| "ac_do H L (Turn conf now w) c = AppCtx_Process H L conf now w c"
| "ac_do H L (Updated conf) c = updateNoLock L conf c"
| "ac_do H L (Asked conf h url) c = snd (AppCtx_GetContextPath L conf h url c)"

definition ac_ok :: "('h, string) hm \<Rightarrow> ('h, 's, 'm) AppCtxStatCollector \<Rightarrow> bool" where
  "ac_ok H c \<longleftrightarrow> keys_within H UNIV (appCtxTable c) \<and> keys_within H UNIV (actTable c)"

definition ac_reported :: "string \<Rightarrow> ('h, 's, 'm) AppCtxStatCollector \<Rightarrow> int" where
  "ac_reported k c = (\<Sum>p\<leftarrow>ac_sent c. \<Sum>r\<leftarrow>filter (\<lambda>r. row_path r = k) (acRows p). row_count r)"

definition ac_pending :: "('h, string) hm \<Rightarrow> string \<Rightarrow> ('h, 's, 'm) AppCtxStatCollector \<Rightarrow> int" where
  "ac_pending H k c = Cnt (perfOf H (appCtxTable c) k)"

fun ac_ends :: "('s, 'm, 't) url_lib \<Rightarrow> string \<Rightarrow> ac_step \<Rightarrow> bool" where
  "ac_ends L k (Ended conf name tx) \<longleftrightarrow> name = k \<and> TrimEmpty L name \<noteq> []"
| "ac_ends L k _ \<longleftrightarrow> False"

fun no_path_set :: "('s, 'm, 't) url_lib \<Rightarrow> ac_step \<Rightarrow> bool" where
  "no_path_set L (Turn conf now w) \<longleftrightarrow> TrimEmpty L (AppContextPathSet conf) = []"
| "no_path_set L _ \<longleftrightarrow> True"

lemma touch_within:
  assumes "keys_within H UNIV t" and "getOrPut H k new t = (a, t')"
  shows "keys_within H UNIV (modify a f t')" and "entry_of H (modify a f t') = (entry_of H t)(k \<mapsto> f (case entry_of H t k of None \<Rightarrow> new | Some e \<Rightarrow> e))"
  using through_entry [OF assms(1), of k new f] keys_within_not_full [OF assms(1)] assms(2) by (simp_all add: through_def getOrNil_def)

lemma clear_within: "keys_within H UNIV t \<Longrightarrow> keys_within H UNIV (clear_tbl H t)"
  using clear_tbl_props by (auto simp: keys_within_def)

lemma endRec_Cnt [simp]: "Cnt (endRec conf tx p) = i32 (Cnt p + 1)"
  by (simp add: endRec_def Let_def)

lemma EndTx_step:
  assumes "ac_ok H c" and "TrimEmpty L name \<noteq> []"
  shows "ac_ok H (EndTx H L conf name tx c)" and "ac_sent (EndTx H L conf name tx c) = ac_sent c"
    and "perfOf H (appCtxTable (EndTx H L conf name tx c)) k = (if k = name then endRec conf tx (perfOf H (appCtxTable c) k) else perfOf H (appCtxTable c) k)"
proof -
  obtain a t where g: "getOrPut H name noPerf (appCtxTable c) = (a, t)" by force
  have w: "keys_within H UNIV (appCtxTable c)" using assms(1) by (simp add: ac_ok_def)
  have e: "EndTx H L conf name tx c = c\<lparr>appCtxTable := modify a (endRec conf tx) t\<rparr>" using assms(2) g by (simp add: EndTx_def)
  note t = touch_within [OF w g, of "endRec conf tx"]
  show "ac_ok H (EndTx H L conf name tx c)" "ac_sent (EndTx H L conf name tx c) = ac_sent c" using t(1) assms(1) e by (simp_all add: ac_ok_def)
  show "perfOf H (appCtxTable (EndTx H L conf name tx c)) k = (if k = name then endRec conf tx (perfOf H (appCtxTable c) k) else perfOf H (appCtxTable c) k)"
    using e by (auto simp: perfOf_def t(2) split: option.split)
qed

lemma ActiveTx_step:
  assumes "ac_ok H c"
  shows "ac_ok H (ActiveTx H L biz d c)" and "ac_sent (ActiveTx H L biz d c) = ac_sent c" and "appCtxTable (ActiveTx H L biz d c) = appCtxTable c"
proof -
  have w: "keys_within H UNIV (actTable c)" using assms(1) by (simp add: ac_ok_def)
  note t = touch_within(1) [OF w]
  show "ac_ok H (ActiveTx H L biz d c)" using assms t by (auto simp: ActiveTx_def ac_ok_def split: prod.split)
qed (auto simp: ActiveTx_def split: prod.split)

lemma updateNoLock_step:
  "appCtxTable (updateNoLock L conf c) = appCtxTable c" "actTable (updateNoLock L conf c) = actTable c" "ac_sent (updateNoLock L conf c) = ac_sent c"
  by (simp_all add: updateNoLock_def Let_def)

lemma GetContextPath_step:
  "appCtxTable (snd (AppCtx_GetContextPath L conf h u c)) = appCtxTable c" "actTable (snd (AppCtx_GetContextPath L conf h u c)) = actTable c"
  "ac_sent (snd (AppCtx_GetContextPath L conf h u c)) = ac_sent c"
  by (simp_all add: AppCtx_GetContextPath_def split: prod.split)

lemma keysOf_iff:
  assumes "hm_laws H"
  shows "k \<in> set (keysOf H t) \<longleftrightarrow> hasKey H t k" and "distinct (keysOf H t)"
  using assms by (auto simp: keysOf_def hasKey_def hm_laws_def image_iff)

lemma paths_without_set:
  assumes "hm_laws H" and "TrimEmpty L (AppContextPathSet conf) = []"
  shows "distinct (collectPaths H L conf c)" and "k \<in> set (collectPaths H L conf c) \<longleftrightarrow> hasKey H (appCtxTable c) k \<or> hasKey H (actTable c) k"
  using keysOf_iff [OF assms(1)] assms(2) by (auto simp: collectPaths_def)

lemma perfOf_none: "\<not> hasKey H t k \<Longrightarrow> perfOf H t k = noPerf"
  by (simp add: perfOf_def hasKey_def entry_of_def)

lemma size_hasKey: "hm_laws H \<Longrightarrow> hasKey H t k \<Longrightarrow> hm_size H (tab t) > 0"
  using empty_entries [of H t k] by (auto simp: hasKey_def entry_of_def intro: gr0I)

lemma count_distinct: "distinct xs \<Longrightarrow> x \<in> set xs \<Longrightarrow> count_list xs x = 1"
  by (induction xs) (auto simp: count_list_0_iff)

lemma Process_lastTime: "acLastTime (AppCtx_Process H L conf now w c) = now"
  by (simp add: AppCtx_Process_def Let_def)

lemma EndTx_lastTime: "acLastTime (EndTx H L conf n tx c) = acLastTime c"
  by (simp add: EndTx_def split: prod.split)

text \<open>A turn more than a second after the last one reports each path of \<open>collectPaths\<close>, and empties the tables.\<close>

lemma Process_step:
  fixes w
  assumes "ac_ok H c" and "i64 (now - acLastTime c) > 1000" and "collectPaths H L conf c \<noteq> []"
  defines "c' \<equiv> AppCtx_Process H L conf now w c"
  shows "ac_ok H c'" and "ac_reported k c' = ac_reported k c + int (count_list (collectPaths H L conf c) k) * ac_pending H k c"
    and "ac_pending H k c' = 0"
proof -
  have laws: "hm_laws H" "keys_within H UNIV (appCtxTable c)" "keys_within H UNIV (actTable c)" using assms(1) by (auto simp: ac_ok_def keys_within_def)
  have cp: "collectPaths H L conf (c\<lparr>acLastTime := now\<rparr>) = collectPaths H L conf c" by (simp add: collectPaths_def)
  have rows: "(\<Sum>r\<leftarrow>filter (\<lambda>r. row_path r = k) (map (makeRow H L el (c\<lparr>acLastTime := now\<rparr>)) ps). row_count r) = int (count_list ps k) * ac_pending H k c" for el ps
    by (induction ps) (auto simp: makeRow_def Let_def ac_pending_def algebra_simps)
  have "hasKey H (appCtxTable c) p \<or> hasKey H (actTable c) p" if "p \<in> set (collectPaths H L conf c)" for p
    using that keysOf_iff(1) [OF laws(1)] by (auto simp: collectPaths_def split: if_splits)
  then obtain p where "hasKey H (appCtxTable c) p \<or> hasKey H (actTable c) p" using assms(3) by (cases "collectPaths H L conf c") auto
  then have "hm_size H (tab (appCtxTable c)) + hm_size H (tab (actTable c)) \<noteq> 0" using size_hasKey [OF laws(1)] by fastforce
  then have c': "appCtxTable c' = (if hm_size H (tab (appCtxTable c)) > 0 then clear_tbl H (appCtxTable c) else appCtxTable c)"
      "actTable c' = clear_tbl H (actTable c)"
      "\<exists>q. ac_sent c' = ac_sent c @ [q] \<and> acRows q = map (makeRow H L (i64 (now - acLastTime c)) (c\<lparr>acLastTime := now\<rparr>)) (collectPaths H L conf c)"
    using assms(2,3) by (auto simp: c'_def AppCtx_Process_def Let_def cp)
  show "ac_ok H c'" using laws clear_within by (auto simp: ac_ok_def c'(1,2))
  show "ac_reported k c' = ac_reported k c + int (count_list (collectPaths H L conf c) k) * ac_pending H k c"
    using c'(3) rows by (auto simp: ac_reported_def)
  show "ac_pending H k c' = 0"
    using clear_tbl_props(2) [OF laws(1), of "appCtxTable c"] empty_entries [OF laws(1), of "appCtxTable c" k]
    by (auto simp: ac_pending_def perfOf_def c'(1) noPerf_def)
qed

lemma Process_idle:
  assumes "ac_ok H c" and "i64 (now - acLastTime c) \<le> 1000 \<or> collectPaths H L conf c = []"
  shows "AppCtx_Process H L conf now w c = c\<lparr>acLastTime := now\<rparr>"
proof -
  have "collectPaths H L conf (c\<lparr>acLastTime := now\<rparr>) = collectPaths H L conf c" by (simp add: collectPaths_def)
  then show ?thesis using assms by (auto simp: AppCtx_Process_def Let_def)
qed

lemma Process_no_set:
  fixes now w
  assumes "ac_ok H c" and "TrimEmpty L (AppContextPathSet conf) = []"
  defines "c' \<equiv> AppCtx_Process H L conf now w c"
  shows "ac_ok H c' \<and> ac_reported k c' + ac_pending H k c' = ac_reported k c + ac_pending H k c \<and> (i64 (now - acLastTime c) > 1000 \<longrightarrow> ac_pending H k c' = 0)"
proof -
  have laws: "hm_laws H" using assms(1) by (simp add: ac_ok_def keys_within_def)
  note ps = paths_without_set [OF laws assms(2), where c = c]
  have z: "ac_pending H k c = 0" if "k \<notin> set (collectPaths H L conf c)"
    using that ps(2) [of k] perfOf_none [of H "appCtxTable c" k] by (simp add: ac_pending_def noPerf_def)
  have n: "int (count_list (collectPaths H L conf c) k) * ac_pending H k c = ac_pending H k c"
    using z ps(1) by (cases "k \<in> set (collectPaths H L conf c)") (auto simp: count_distinct)
  show ?thesis
  proof (cases "i64 (now - acLastTime c) > 1000 \<and> collectPaths H L conf c \<noteq> []")
    case True
    then have t: "i64 (now - acLastTime c) > 1000" "collectPaths H L conf c \<noteq> []" by auto
    show ?thesis using Process_step(1) [OF assms(1) t, of w] Process_step(2,3) [OF assms(1) t, of k w] n unfolding c'_def by simp
  next
    case False
    then have "c' = c\<lparr>acLastTime := now\<rparr>" using Process_idle [OF assms(1)] by (auto simp: c'_def)
    then show ?thesis using assms(1) False z by (auto simp: ac_ok_def ac_reported_def ac_pending_def)
  qed
qed

lemma ac_do_step:
  assumes "ac_ok H c" and "no_path_set L st"
  defines "c' \<equiv> ac_do H L st c"
  shows "ac_ok H c' \<and> i32 (ac_reported k c' + ac_pending H k c') = i32 (ac_reported k c + ac_pending H k c + (if ac_ends L k st then 1 else 0))"
proof (cases st)
  case (Ended conf name tx)
  show ?thesis
  proof (cases "TrimEmpty L name = []")
    case True
    then show ?thesis using assms(1) by (simp add: c'_def Ended EndTx_def)
  next
    case False
    note e = EndTx_step [OF assms(1) False, of conf tx]
    show ?thesis using e False by (auto simp: c'_def Ended ac_reported_def ac_pending_def algebra_simps)
  qed
next
  case (Activated biz d)
  then show ?thesis using ActiveTx_step [OF assms(1), of L biz d] by (simp add: c'_def ac_reported_def ac_pending_def)
next
  case (Turn conf now w)
  then show ?thesis using Process_no_set [OF assms(1), of L conf now w k] assms(2) by (simp add: c'_def)
next
  case (Updated conf)
  then show ?thesis using assms(1) updateNoLock_step [of L conf c] by (simp add: c'_def ac_ok_def ac_reported_def ac_pending_def)
next
  case (Asked conf h u)
  then show ?thesis using assms(1) GetContextPath_step [of L conf h u c] by (simp add: c'_def ac_ok_def ac_reported_def ac_pending_def)
qed

lemma ac_run:
  assumes "ac_ok H c" and "list_all (no_path_set L) sts"
  shows "ac_ok H (fold (ac_do H L) sts c) \<and>
     i32 (ac_reported k (fold (ac_do H L) sts c) + ac_pending H k (fold (ac_do H L) sts c)) =
     i32 (ac_reported k c + ac_pending H k c + int (length (filter (ac_ends L k) sts)))"
  using assms
proof (induction sts arbitrary: c)
  case (Cons st sts)
  note s = ac_do_step [OF Cons.prems(1), of L st k]
  let ?c = "ac_do H L st c" and ?n = "int (length (filter (ac_ends L k) sts))"
  from s Cons.prems have ok: "ac_ok H ?c" "list_all (no_path_set L) sts" by auto
  have "i32 (ac_reported k ?c + ac_pending H k ?c + ?n) = i32 (i32 (ac_reported k ?c + ac_pending H k ?c) + ?n)" by simp
  also have "\<dots> = i32 (i32 (ac_reported k c + ac_pending H k c + (if ac_ends L k st then 1 else 0)) + ?n)" using s Cons.prems by simp
  finally show ?case using Cons.IH [OF ok] by (simp add: algebra_simps)
qed simp

text \<open>C20: without a configured set of contexts every transaction is reported once, in the row of its context. Over any
  sequence of ended and active transactions, turns, changes of the configuration and queries, what the packs report of a
  context and what its entry still holds is the number of its transactions that have ended, modulo the width of the
  counter; and a turn more than a second after the last one leaves nothing unreported.\<close>
theorem contexts_reported_once:
  fixes t0 conf0
  assumes "hm_laws H" and "room H UNIV" and "hm_get H m = (\<lambda>k. None)" and "list_all (no_path_set L) sts"
    and "TrimEmpty L (AppContextPathSet conf) = []"
  defines "c \<equiv> fold (ac_do H L) sts (newAppCtxStatCollector L conf0 m t0)"
  shows "i32 (ac_reported k c + ac_pending H k c) = i32 (int (length (filter (ac_ends L k) sts))) \<and>
     (i64 (now - acLastTime c) > 1000 \<longrightarrow> i32 (ac_reported k (AppCtx_Process H L conf now w c)) = i32 (int (length (filter (ac_ends L k) sts))))"
proof -
  let ?c0 = "newAppCtxStatCollector L conf0 m t0"
  have tabs: "appCtxTable ?c0 = \<lparr>tab = m, cells = (\<lambda>_. noPerf), fresh = 0\<rparr>" "actTable ?c0 = \<lparr>tab = m, cells = (\<lambda>_. noPerf), fresh = 0\<rparr>" "ac_sent ?c0 = []"
    by (simp_all add: newAppCtxStatCollector_def updateNoLock_step)
  have "ac_ok H ?c0" using assms(1,2,3) by (simp add: ac_ok_def tabs keys_within_def tbl_ok_def entry_of_def)
  from ac_run [OF this assms(4), of k] have r: "ac_ok H c" "i32 (ac_reported k c + ac_pending H k c) = i32 (int (length (filter (ac_ends L k) sts)))"
    using assms(3) by (simp_all add: c_def ac_reported_def ac_pending_def perfOf_def entry_of_def tabs noPerf_def)
  have "i32 (ac_reported k (AppCtx_Process H L conf now w c)) = i32 (int (length (filter (ac_ends L k) sts)))" if "i64 (now - acLastTime c) > 1000"
    using Process_no_set [OF r(1) assms(5), of now w k] that r(2) by (metis add.right_neutral)
  with r(2) show ?thesis by simp
qed

text \<open>A map without a maximum.\<close>

definition free_hm :: "((string \<times> nat) list, string) hm" where
  "free_hm = (alist_hm 0)\<lparr>hm_full := (\<lambda>m. False)\<rparr>"

lemma free_hm_laws: "hm_laws free_hm" "room free_hm UNIV"
  using alist_hm_laws [of 0] by (auto simp: hm_laws_def room_def free_hm_def alist_hm_def update_conv')

theorem contexts_reported_once_witness:
  "i32 (ac_reported ''A'' (AppCtx_Process free_hm aclib1 acconf1 9000 9000
     (fold (ac_do free_hm aclib1) [Ended acconf1 ''A'' \<lparr>acElapsed = 5, acError = 0\<rparr>, Turn acconf1 5000 5000, Ended acconf1 ''A'' \<lparr>acElapsed = 5, acError = 1\<rparr>]
       (newAppCtxStatCollector aclib1 acconf1 [] 0)))) = 2"
proof -
  let ?sts = "[Ended acconf1 ''A'' \<lparr>acElapsed = 5, acError = 0\<rparr>, Turn acconf1 5000 5000, Ended acconf1 ''A'' \<lparr>acElapsed = 5, acError = 1\<rparr>]"
  let ?c = "fold (ac_do free_hm aclib1) ?sts (newAppCtxStatCollector aclib1 acconf1 [] 0)"
  have p: "TrimEmpty aclib1 (AppContextPathSet acconf1) = []" by (simp add: aclib1_def ulib1_def acconf1_def)
  have e: "hm_get free_hm [] = (\<lambda>k. None)" by (rule ext) (simp add: free_hm_def alist_hm_def)
  have "acLastTime ?c = 5000" by (simp add: Process_lastTime EndTx_lastTime)
  then have "i64 (9000 - acLastTime ?c) > 1000" by simp
  with contexts_reported_once [OF free_hm_laws e, of aclib1 ?sts acconf1 "''A''" acconf1 0 9000 9000] p show ?thesis
    by (simp add: aclib1_def ulib1_def)
qed

text \<open>Two configured URLs with one name make the context count twice: with a configured set, the turn reports the row of
  a context once for every item of the set that names it, and forgets the contexts that are not in the set.\<close>
theorem configured_twice_counted_twice:
  assumes "ac_ok H c" and "i64 (now - acLastTime c) > 1000" and "TrimEmpty L (AppContextPathSet conf) \<noteq> []"
    and "\<exists>i\<in>set (Tokenizer L (AppContextPathSet conf) '',''). TrimEmpty L i \<noteq> [] \<and> contextName L i \<noteq> [] \<and> hasKey H (appCtxTable c) (contextName L i)"
    and "k \<noteq> []"
  shows "ac_reported k (AppCtx_Process H L conf now w c) =
       ac_reported k c + int (length (filter (\<lambda>i. TrimEmpty L i \<noteq> [] \<and> contextName L i = k) (Tokenizer L (AppContextPathSet conf) '',''))) * ac_pending H k c \<and>
     ac_pending H k (AppCtx_Process H L conf now w c) = 0"
proof -
  have ne: "collectPaths H L conf c \<noteq> []" using assms(3,4) by (auto simp: collectPaths_def filter_empty_conv)
  have n: "count_list (filter (\<lambda>k. k \<noteq> [] \<and> (hasKey H (appCtxTable c) k \<or> hasKey H (actTable c) k)) xs) k * ac_pending H k c = count_list xs k * ac_pending H k c" for xs
    using assms(5) perfOf_none [of H "appCtxTable c" k] by (induction xs) (auto simp: ac_pending_def noPerf_def algebra_simps)
  have "count_list (map (contextName L) (filter (\<lambda>i. TrimEmpty L i \<noteq> []) xs)) k = length (filter (\<lambda>i. TrimEmpty L i \<noteq> [] \<and> contextName L i = k) xs)" for xs
    by (induction xs) auto
  with n [of "map (contextName L) (filter (\<lambda>i. TrimEmpty L i \<noteq> []) (Tokenizer L (AppContextPathSet conf) '',''))"] assms(3)
  have "int (count_list (collectPaths H L conf c) k) * ac_pending H k c =
     int (length (filter (\<lambda>i. TrimEmpty L i \<noteq> [] \<and> contextName L i = k) (Tokenizer L (AppContextPathSet conf) '',''))) * ac_pending H k c"
    by (simp add: collectPaths_def)
  then show ?thesis using Process_step(2,3) [OF assms(1,2) ne, of k w] by simp
qed

theorem configured_twice_witness:
  "ac_reported ''A'' (AppCtx_Process free_hm aclib1 (acconf1\<lparr>AppContextPathSet := ''A@/x,A@/y''\<rparr>) 9000 9000
     (EndTx free_hm aclib1 acconf1 ''A'' \<lparr>acElapsed = 5, acError = 0\<rparr> (newAppCtxStatCollector aclib1 acconf1 [] 0))) = 2"
proof -
  let ?z = "newAppCtxStatCollector aclib1 acconf1 [] 0" and ?conf = "acconf1\<lparr>AppContextPathSet := ''A@/x,A@/y''\<rparr>"
  let ?c = "EndTx free_hm aclib1 acconf1 ''A'' \<lparr>acElapsed = 5, acError = 0\<rparr> ?z"
  have tabs: "appCtxTable ?z = \<lparr>tab = [], cells = (\<lambda>_. noPerf), fresh = 0\<rparr>" "actTable ?z = \<lparr>tab = [], cells = (\<lambda>_. noPerf), fresh = 0\<rparr>" "ac_sent ?z = []"
      "acLastTime ?z = 0"
    by (simp_all add: newAppCtxStatCollector_def updateNoLock_def Let_def)
  have c0: "ac_ok free_hm ?z"
    using free_hm_laws by (simp add: ac_ok_def tabs keys_within_def tbl_ok_def entry_of_def) (simp add: free_hm_def alist_hm_def)
  have t: "TrimEmpty aclib1 ''A'' \<noteq> []" by (simp add: aclib1_def ulib1_def)
  note e = EndTx_step [OF c0 t, of acconf1 "\<lparr>acElapsed = 5, acError = 0\<rparr>"]
  have pend: "ac_pending free_hm ''A'' ?c = 1" "ac_reported ''A'' ?c = 0"
    by (simp_all add: ac_pending_def ac_reported_def e tabs) (simp add: perfOf_def entry_of_def free_hm_def alist_hm_def noPerf_def)
  have k: "hasKey free_hm (appCtxTable ?c) ''A''"
  proof (rule ccontr)
    assume "\<not> ?thesis"
    from perfOf_none [OF this] pend(1) show False by (simp add: ac_pending_def noPerf_def)
  qed
  have l: "i64 (9000 - acLastTime ?c) > 1000" by (simp add: EndTx_lastTime tabs)
  have tok: "Tokenizer aclib1 ''A@/x,A@/y'' '','' = [''A@/x'', ''A@/y'']" "contextName aclib1 ''A@/x'' = ''A''" "contextName aclib1 ''A@/y'' = ''A''"
      "TrimEmpty aclib1 s = s" for s
    by (simp_all add: aclib1_def ulib1_def contextName_def Let_def)
  have "ac_reported ''A'' (AppCtx_Process free_hm aclib1 ?conf 9000 9000 ?c) = ac_reported ''A'' ?c +
      int (length (filter (\<lambda>i. TrimEmpty aclib1 i \<noteq> [] \<and> contextName aclib1 i = ''A'') (Tokenizer aclib1 (AppContextPathSet ?conf) '',''))) * ac_pending free_hm ''A'' ?c"
    by (rule conjunct1 [OF configured_twice_counted_twice [OF e(1) l]]) (use k tok in \<open>simp_all\<close>)
  then show ?thesis by (simp add: pend tok)
qed

end
