(* ===== verification/Mtrace.thy ===== *)
theory Mtrace
  imports Go_Std
begin

text \<open>
  The transaction handle of the API (\<^verbatim>\<open>trace/TraceCtx.go\<close>) and the propagation of distributed traces
  (\<^verbatim>\<open>UpdateMtrace\<close> and \<^verbatim>\<open>GetMTrace\<close> of \<^verbatim>\<open>trace/Trace.go\<close>).

  The functions of golib are parameters, fields of \<open>golib\<close>: the key generator is the sequence of the keys it
  will return, with the position reached as explicit state; \<open>golib_laws\<close> states what is used of them. Debug
  output is left out. A configured agent has \<open>DISABLE()\<close> false; the flag is the field \<open>disable\<close>.
\<close>

subsection \<open>TraceCtx\<close>

record 'l TraceCtx =
  Txid :: int
  GID :: int
  Name :: string
  StartTime :: int
  Ctx :: "nat option"
  Host :: string
  Uri :: string
  Ipaddr :: string
  UAgent :: string
  Ref :: string
  WClientId :: string
  HttpMethod :: string
  IsStaticContents :: string
  Status :: int
  MTid :: int
  MDepth :: int
  MStepId :: int
  MCallerTxid :: int
  MCallee :: int
  MCallerSpec :: string
  MCallerUrl :: string
  MCallerPoidKey :: string
  MCallerStepId :: int
  MCallerTraceId :: string
  TraceMtraceCallerValue :: string
  TraceMtracePoidValue :: string
  TraceMtraceSpecValue :: string
  TraceMtraceMcallee :: int
  TraceMtraceTraceparentValue :: string
  LLMTx :: "'l option"
  IsLlm :: int

definition NewTraceCtx :: "'l TraceCtx" where
  "NewTraceCtx =
     \<lparr>Txid = 0, GID = 0, Name = [], StartTime = 0, Ctx = None, Host = [], Uri = [], Ipaddr = [], UAgent = [], Ref = [],
      WClientId = [], HttpMethod = [], IsStaticContents = [], Status = 0, MTid = 0, MDepth = 0, MStepId = 0,
      MCallerTxid = 0, MCallee = 0, MCallerSpec = [], MCallerUrl = [], MCallerPoidKey = [], MCallerStepId = 0,
      MCallerTraceId = [], TraceMtraceCallerValue = [], TraceMtracePoidValue = [], TraceMtraceSpecValue = [],
      TraceMtraceMcallee = 0, TraceMtraceTraceparentValue = [], LLMTx = None, IsLlm = 0\<rparr>"

text \<open>\<open>Clear\<close> resets every field but \<open>GID\<close> and \<open>MStepId\<close>.\<close>

definition TraceCtx_Clear :: "'l TraceCtx \<Rightarrow> 'l TraceCtx" where
  "TraceCtx_Clear t = NewTraceCtx\<lparr>GID := GID t, MStepId := MStepId t\<rparr>"

subsection \<open>Configuration and golib\<close>

record golib =
  keygen :: "nat \<Rightarrow> int"
  toString32 :: "int \<Rightarrow> string"
  toLong32 :: "string \<Rightarrow> int"
  hashStr :: "string \<Rightarrow> int"
  split :: "string \<Rightarrow> string \<Rightarrow> string list"

record mtrace_conf =
  disable :: bool
  MtraceEnabled :: bool
  TraceMtraceTraceparentKey :: string
  TraceMtraceCallerKey :: string
  TraceMtraceSpecKey1 :: string
  TraceMtracePoidKey :: string
  MtraceRate :: int
  MtraceSpec :: string
  PCODE :: int
  OKIND :: int
  OID :: int

subsection \<open>Reading the headers of the caller\<close>

definition hexOr0 :: "string \<Rightarrow> int" where
  "hexOr0 s = (case ParseUint s 16 of Some n \<Rightarrow> i64 (int n) | None \<Rightarrow> 0)"

text \<open>The W3C header: the result also says whether the header was there. The slice of the trace id panics on an
  id of fewer than 16 bytes.\<close>

definition readTraceparent :: "golib \<Rightarrow> mtrace_conf \<Rightarrow> header \<Rightarrow> 'l TraceCtx \<Rightarrow> ('l TraceCtx \<times> bool) go" where
  "readTraceparent lib conf h t =
     (let val = headerGet h (TraceMtraceTraceparentKey conf) in
      if val = [] then Inr (t, False)
      else (let arr = split lib (TrimSpace val) ''-'' in
            if length arr < 4 then Inr (t, True)
            else if length (arr ! 1) < 16 then Inl IndexOutOfRange
            else Inr (t\<lparr>MCallerTraceId := arr ! 1, MTid := hexOr0 (drop 16 (arr ! 1)),
                        MCallerStepId := hexOr0 (arr ! 2)\<rparr>, True)))"

text \<open>The header of the agent itself: the result also says whether the other agent headers are used.\<close>

definition readCaller :: "golib \<Rightarrow> mtrace_conf \<Rightarrow> header \<Rightarrow> bool \<Rightarrow> 'l TraceCtx \<Rightarrow> 'l TraceCtx \<times> bool" where
  "readCaller lib conf h isTraceparent t =
     (let val = headerGet h (TraceMtraceCallerKey conf) in
      if val = [] then (t, True)
      else (let arr = split lib (TrimSpace val) '','';
                three = (3 \<le> length arr);
                mtid = (if three then toLong32 lib (arr ! 0) else 0);
                mcallerTxid = (if three then toLong32 lib (arr ! 2) else 0);
                stepId = (if 4 \<le> length arr then toLong32 lib (arr ! 3) else 0);
                t1 = (if three then (case Atoi (arr ! 1) of Some v \<Rightarrow> t\<lparr>MDepth := i32 v\<rparr> | None \<Rightarrow> t) else t) in
            if isTraceparent
            then (if MCallerStepId t1 = stepId then (t1\<lparr>MCallerTxid := mcallerTxid\<rparr>, True) else (t1, False))
            else (t1\<lparr>MTid := mtid, MCallerTxid := mcallerTxid, MCallerStepId := stepId\<rparr>, True)))"

definition readSpec :: "golib \<Rightarrow> mtrace_conf \<Rightarrow> header \<Rightarrow> 'l TraceCtx \<Rightarrow> 'l TraceCtx" where
  "readSpec lib conf h t =
     (let val = headerGet h (TraceMtraceSpecKey1 conf); arr = split lib (TrimSpace val) '','' in
      if val \<noteq> [] \<and> 2 \<le> length arr then t\<lparr>MCallerSpec := arr ! 0, MCallerUrl := arr ! 1\<rparr> else t)"

definition readPoid :: "mtrace_conf \<Rightarrow> header \<Rightarrow> 'l TraceCtx \<Rightarrow> 'l TraceCtx" where
  "readPoid conf h t =
     (let val = headerGet h (TraceMtracePoidKey conf) in
      if val \<noteq> [] then t\<lparr>MCallerPoidKey := TrimSpace val\<rparr> else t)"

text \<open>A transaction without a trace id starts a trace of its own, at the configured rate in percent.\<close>

definition sampled :: "mtrace_conf \<Rightarrow> int \<Rightarrow> bool" where
  "sampled conf checkSeq \<longleftrightarrow> \<bar>goRem (goDiv checkSeq 100) 100\<bar> < MtraceRate conf"

definition sampleMtid :: "golib \<Rightarrow> mtrace_conf \<Rightarrow> 'l TraceCtx \<times> nat \<Rightarrow> 'l TraceCtx \<times> nat" where
  "sampleMtid lib conf = (\<lambda>(t, n).
     if MTid t = 0
     then (if sampled conf (keygen lib n) then t\<lparr>MTid := keygen lib n\<rparr> else t, Suc n)
     else (t, n))"

subsection \<open>The headers for a callee\<close>

definition traceparentValue :: "'l TraceCtx \<Rightarrow> string" where
  "traceparentValue t =
     (if MCallerTraceId t \<noteq> [] then ''00-'' @ MCallerTraceId t @ ''-'' @ hex16 (MStepId t) @ ''-01''
      else ''00-0000000000000000'' @ hex16 (MTid t) @ ''-'' @ hex16 (MStepId t) @ ''-01'')"

definition callerValue :: "golib \<Rightarrow> 'l TraceCtx \<Rightarrow> string" where
  "callerValue lib t =
     toString32 lib (MTid t) @ '','' @ itoa (MDepth t + 1) @ '','' @ toString32 lib (Txid t) @ '','' @
     toString32 lib (MStepId t)"

definition newStep :: "golib \<Rightarrow> 'l TraceCtx \<times> nat \<Rightarrow> 'l TraceCtx \<times> nat" where
  "newStep lib = (\<lambda>(t, n).
     let t1 = t\<lparr>MStepId := keygen lib n\<rparr>;
         t2 = t1\<lparr>TraceMtraceTraceparentValue := traceparentValue t1\<rparr> in
     (t2\<lparr>TraceMtraceCallerValue := callerValue lib t2\<rparr>, Suc n))"

definition GetMTrace :: "golib \<Rightarrow> mtrace_conf \<Rightarrow> 'l TraceCtx option \<Rightarrow> nat \<Rightarrow> header \<times> 'l TraceCtx option \<times> nat" where
  "GetMTrace lib conf tc n =
     (case tc of
        None \<Rightarrow> ([], None, n)
      | Some t \<Rightarrow>
          if disable conf then ([], Some t, n)
          else (let (t', n') = newStep lib (t, n) in
                (headerSet (TraceMtraceSpecKey1 conf) (TraceMtraceSpecValue t')
                  (headerSet (TraceMtracePoidKey conf) (TraceMtracePoidValue t')
                    (headerSet (TraceMtraceCallerKey conf) (TraceMtraceCallerValue t')
                      (headerSet (TraceMtraceTraceparentKey conf) (TraceMtraceTraceparentValue t') []))),
                 Some t', n')))"

definition UpdateMtrace :: "golib \<Rightarrow> mtrace_conf \<Rightarrow> header \<Rightarrow> 'l TraceCtx \<times> nat \<Rightarrow> ('l TraceCtx \<times> nat) go" where
  "UpdateMtrace lib conf hdr = (\<lambda>(t, n).
     if disable conf \<or> \<not> MtraceEnabled conf then Inr (t, n)
     else (let h = addAll hdr [] in
           bindGo (readTraceparent lib conf h t) (\<lambda>(t1, isTraceparent).
             let (t2, useWhatap) = readCaller lib conf h isTraceparent t1;
                 t3 = (if useWhatap then readPoid conf h (readSpec lib conf h t2) else t2);
                 (t4, n') = newStep lib (sampleMtid lib conf (t3, n)) in
             Inr (t4\<lparr>TraceMtraceSpecValue := MtraceSpec conf @ '', '' @ itoa (hashStr lib (Name t4)),
                     TraceMtracePoidValue := toString32 lib (PCODE conf) @ '', '' @ toString32 lib (OKIND conf) @
                       '', '' @ toString32 lib (OID conf)\<rparr>, n'))))"

subsection \<open>What is relied on of golib\<close>

definition words_of :: "char \<Rightarrow> string list \<Rightarrow> bool" where
  "words_of c ps \<longleftrightarrow> ps \<noteq> [] \<and> list_all (\<lambda>p. p \<noteq> [] \<and> list_all graphic p \<and> c \<notin> set p) ps"

definition golib_laws :: "golib \<Rightarrow> bool" where
  "golib_laws lib \<longleftrightarrow>
     (\<forall>k. - (2 ^ 63) \<le> k \<and> k < 2 ^ 63 \<longrightarrow> toLong32 lib (toString32 lib k) = k) \<and>
     (\<forall>k. words_of CHR '','' [toString32 lib k]) \<and>
     (\<forall>n. - (2 ^ 63) \<le> keygen lib n \<and> keygen lib n < 2 ^ 63) \<and>
     (\<forall>c ps. words_of c ps \<longrightarrow> split lib (Join ps [c]) [c] = ps)"

definition keys_apart :: "mtrace_conf \<Rightarrow> bool" where
  "keys_apart conf \<longleftrightarrow>
     distinct (map CanonicalHeaderKey
       [TraceMtraceTraceparentKey conf, TraceMtraceCallerKey conf, TraceMtracePoidKey conf, TraceMtraceSpecKey1 conf])"

text \<open>The fields have their widths, and a trace id taken over from a caller agrees with \<open>MTid\<close>.\<close>

definition trace_ok :: "'l TraceCtx \<Rightarrow> bool" where
  "trace_ok t \<longleftrightarrow>
     - (2 ^ 63) \<le> MTid t \<and> MTid t < 2 ^ 63 \<and> - (2 ^ 63) \<le> Txid t \<and> Txid t < 2 ^ 63 \<and>
     - (2 ^ 31) \<le> MDepth t \<and> MDepth t < 2 ^ 31 \<and>
     (MCallerTraceId t = [] \<or>
      16 \<le> length (MCallerTraceId t) \<and> words_of CHR ''-'' [MCallerTraceId t] \<and> hexOr0 (drop 16 (MCallerTraceId t)) = MTid t)"

definition traceId :: "'l TraceCtx \<Rightarrow> string" where
  "traceId t = (if MCallerTraceId t \<noteq> [] then MCallerTraceId t else replicate 16 CHR ''0'' @ hex16 (MTid t))"

lemma hexDigit_char: "d < 16 \<Longrightarrow> graphic (hexDigit d) \<and> hexDigit d \<noteq> CHR ''-''"
proof -
  assume "d < 16"
  then have "(of_char (hexDigit d) :: nat) = (if d < 10 then 48 + d else 87 + d)"
    by (simp add: hexDigit_def)
  then have n: "45 < (of_char (hexDigit d) :: nat)" "(of_char (hexDigit d) :: nat) < 128"
    using \<open>d < 16\<close> by (simp_all split: if_splits)
  then show ?thesis by (auto simp: graphic_def)
qed

lemma hexN_chars: "list_all (\<lambda>c. graphic c \<and> c \<noteq> CHR ''-'') (hexN k n)"
  by (induction k) (auto simp: hexDigit_char)

lemma words_hex16: "words_of CHR ''-'' [hex16 x]" "words_of CHR ''-'' [replicate 16 CHR ''0'' @ hex16 x]"
proof -
  have l: "length (hex16 x) = 16" unfolding hex16_def by (rule hexN_length)
  have all: "list_all (\<lambda>c. graphic c \<and> c \<noteq> CHR ''-'') (hex16 x)" unfolding hex16_def by (rule hexN_chars)
  then have "list_all graphic (hex16 x)" "CHR ''-'' \<notin> set (hex16 x)" by (simp_all only: list_all_iff) blast+
  moreover have "hex16 x \<noteq> []" using l by (metis length_0_conv zero_neq_numeral)
  moreover have "list_all graphic (replicate 16 CHR ''0'')" by (simp add: list_all_iff graphic_def)
  ultimately show "words_of CHR ''-'' [hex16 x]" "words_of CHR ''-'' [replicate 16 CHR ''0'' @ hex16 x]"
    by (simp_all add: words_of_def)
qed

lemma words_Cons: "ps \<noteq> [] \<Longrightarrow> words_of c (p # ps) \<longleftrightarrow> words_of c [p] \<and> words_of c ps"
  by (auto simp: words_of_def)

lemma words_graphic: "words_of c ps \<Longrightarrow> graphic c \<Longrightarrow> list_all graphic (Join ps [c])"
  by (induction ps "[c]" rule: Join.induct) (auto simp: words_of_def)

lemma words_Join_nonempty: "words_of c ps \<Longrightarrow> Join ps [c] \<noteq> []"
  by (cases "(ps, [c])" rule: Join.cases) (auto simp: words_of_def)

lemma words_trim: "words_of c ps \<Longrightarrow> graphic c \<Longrightarrow> TrimSpace (Join ps [c]) = Join ps [c]"
  by (simp add: words_graphic TrimSpace_graphic)

lemma words_itoa: "words_of CHR '','' [itoa k]"
proof -
  have "c \<in> set (itoa k) \<Longrightarrow> c = CHR ''-'' \<or> 48 \<le> (of_char c :: nat) \<and> (of_char c :: nat) \<le> 57" for c
    by (auto simp: itoa_def digitsOf_chars split: if_splits)
  then have "c \<in> set (itoa k) \<Longrightarrow> graphic c \<and> c \<noteq> CHR '',''" for c by (fastforce simp: graphic_def)
  then show ?thesis by (auto simp: words_of_def list_all_iff)
qed

subsection \<open>The two headers between two agents\<close>

lemma traceparentValue_Join: "traceparentValue t = Join [''00'', traceId t, hex16 (MStepId t), ''01''] ''-''"
  by (simp add: traceparentValue_def traceId_def numeral_eq_Suc)

lemma callerValue_Join:
  "callerValue lib t = Join [toString32 lib (MTid t), itoa (MDepth t + 1), toString32 lib (Txid t), toString32 lib (MStepId t)] '',''"
  by (simp add: callerValue_def)

lemma traceId_ok:
  assumes "trace_ok t"
  shows "16 \<le> length (traceId t)" "words_of CHR ''-'' [traceId t]" "hexOr0 (drop 16 (traceId t)) = MTid t"
  using assms words_hex16(2) [of "MTid t"]
  by (auto simp: trace_ok_def traceId_def hexOr0_def)

lemma readTraceparent_value:
  assumes "golib_laws lib" and "trace_ok c" and "headerGet h (TraceMtraceTraceparentKey conf) = traceparentValue c"
  shows "readTraceparent lib conf h t =
     Inr (t\<lparr>MCallerTraceId := traceId c, MTid := MTid c, MCallerStepId := i64 (MStepId c)\<rparr>, True)"
proof -
  let ?ps = "[''00'', traceId c, hex16 (MStepId c), ''01'']"
  have w: "words_of CHR ''-'' ?ps" using words_hex16(1) [of "MStepId c"] traceId_ok(2) [OF assms(2)]
    by (simp add: words_Cons) (simp add: words_of_def graphic_def)
  have g: "graphic CHR ''-''" by (simp add: graphic_def)
  have v: "headerGet h (TraceMtraceTraceparentKey conf) = Join ?ps [CHR ''-'']"
    using assms(3) by (simp only: traceparentValue_Join)
  have "split lib (TrimSpace (Join ?ps [CHR ''-''])) [CHR ''-''] = ?ps"
    using assms(1) w by (simp only: words_trim [OF w g]) (simp only: golib_laws_def)
  then show ?thesis
    using traceId_ok [OF assms(2)] words_Join_nonempty [OF w]
    unfolding readTraceparent_def v Let_def by (simp add: hexOr0_def del: Join.simps)
qed

lemma readCaller_value:
  assumes laws: "golib_laws lib" and "trace_ok c" and step: "- (2 ^ 63) \<le> MStepId c" "MStepId c < 2 ^ 63"
    and v: "headerGet h (TraceMtraceCallerKey conf) = callerValue lib c" and t: "MCallerStepId t = MStepId c"
  shows "readCaller lib conf h True t = (t\<lparr>MDepth := i32 (MDepth c + 1), MCallerTxid := Txid c\<rparr>, True)"
proof -
  let ?ps = "[toString32 lib (MTid c), itoa (MDepth c + 1), toString32 lib (Txid c), toString32 lib (MStepId c)]"
  have "words_of CHR '','' [toString32 lib k]" for k using laws by (simp add: golib_laws_def)
  then have w: "words_of CHR '','' ?ps" by (simp add: words_Cons words_itoa)
  have g: "graphic CHR '',''" by (simp add: graphic_def)
  have v': "headerGet h (TraceMtraceCallerKey conf) = Join ?ps [CHR '','']"
    using v by (simp only: callerValue_Join)
  have s: "split lib (TrimSpace (Join ?ps [CHR '',''])) [CHR '',''] = ?ps"
    using laws w by (simp only: words_trim [OF w g]) (simp only: golib_laws_def)
  have l: "toLong32 lib (toString32 lib k) = k" if "- (2 ^ 63) \<le> k" "k < 2 ^ 63" for k
    using laws that by (simp add: golib_laws_def)
  have d: "Atoi (itoa (MDepth c + 1)) = Some (MDepth c + 1)"
    using assms(2) by (intro Atoi_itoa) (simp_all add: trace_ok_def)
  have "MTid c < 2 ^ 63" "- (2 ^ 63) \<le> MTid c" "Txid c < 2 ^ 63" "- (2 ^ 63) \<le> Txid c"
    using assms(2) by (simp_all add: trace_ok_def)
  then show ?thesis
    using words_Join_nonempty [OF w] s step t unfolding readCaller_def v' Let_def
    by (simp add: l d del: Join.simps)
qed

lemma newStep_fields:
  assumes "newStep lib (t, n) = (t', n')"
  shows "n' = Suc n" "MStepId t' = keygen lib n" "MTid t' = MTid t" "Txid t' = Txid t" "MDepth t' = MDepth t"
    "MCallerTraceId t' = MCallerTraceId t" "MCallerTxid t' = MCallerTxid t" "MCallerStepId t' = MCallerStepId t"
    "MCallerPoidKey t' = MCallerPoidKey t" "Name t' = Name t" "TraceMtraceTraceparentValue t' = traceparentValue t'"
    "TraceMtraceCallerValue t' = callerValue lib t'" "TraceMtracePoidValue t' = TraceMtracePoidValue t"
    "TraceMtraceSpecValue t' = TraceMtraceSpecValue t"
  using assms by (auto simp: newStep_def Let_def traceparentValue_def callerValue_def)

lemma GetMTrace_header:
  assumes "GetMTrace lib conf (Some c) n = (hdr, Some c', n')" and "\<not> disable conf" and "keys_apart conf"
  shows "newStep lib (c, n) = (c', n')"
    and "headerGet (addAll hdr []) (TraceMtraceTraceparentKey conf) = traceparentValue c'"
    and "headerGet (addAll hdr []) (TraceMtraceCallerKey conf) = callerValue lib c'"
    and "headerGet (addAll hdr []) (TraceMtracePoidKey conf) = TraceMtracePoidValue c"
proof -
  obtain d m where nd: "newStep lib (c, n) = (d, m)" by force
  with assms(1,2) have e: "d = c'" "m = n'" and
    hdr: "hdr = headerSet (TraceMtraceSpecKey1 conf) (TraceMtraceSpecValue c')
                  (headerSet (TraceMtracePoidKey conf) (TraceMtracePoidValue c')
                    (headerSet (TraceMtraceCallerKey conf) (TraceMtraceCallerValue c')
                      (headerSet (TraceMtraceTraceparentKey conf) (TraceMtraceTraceparentValue c') [])))"
    by (auto simp: GetMTrace_def)
  show new: "newStep lib (c, n) = (c', n')" using nd e by simp
  have "canonical_header hdr" unfolding hdr by (intro canonical_set canonical_Nil)
  then have get: "headerGet (addAll hdr []) k = headerGet hdr k" for k by (rule addAll_canonical)
  show "headerGet (addAll hdr []) (TraceMtraceTraceparentKey conf) = traceparentValue c'"
    and "headerGet (addAll hdr []) (TraceMtraceCallerKey conf) = callerValue lib c'"
    and "headerGet (addAll hdr []) (TraceMtracePoidKey conf) = TraceMtracePoidValue c"
    using assms(3) newStep_fields [OF new] unfolding get
    by (auto simp: hdr headerGet_set keys_apart_def)
qed

lemma readSpec_fields [simp]:
  "MTid (readSpec lib conf h t) = MTid t" "MDepth (readSpec lib conf h t) = MDepth t"
  "MCallerTxid (readSpec lib conf h t) = MCallerTxid t" "MCallerStepId (readSpec lib conf h t) = MCallerStepId t"
  "MCallerTraceId (readSpec lib conf h t) = MCallerTraceId t" "Txid (readSpec lib conf h t) = Txid t"
  "MCallerPoidKey (readSpec lib conf h t) = MCallerPoidKey t"
  by (simp_all add: readSpec_def Let_def)

lemma readPoid_fields [simp]:
  "MTid (readPoid conf h t) = MTid t" "MDepth (readPoid conf h t) = MDepth t"
  "MCallerTxid (readPoid conf h t) = MCallerTxid t" "MCallerStepId (readPoid conf h t) = MCallerStepId t"
  "MCallerTraceId (readPoid conf h t) = MCallerTraceId t" "Txid (readPoid conf h t) = Txid t"
  by (simp_all add: readPoid_def Let_def)

lemma trace_ok_cong:
  "MTid a = MTid b \<Longrightarrow> Txid a = Txid b \<Longrightarrow> MDepth a = MDepth b \<Longrightarrow> MCallerTraceId a = MCallerTraceId b \<Longrightarrow>
   trace_ok a = trace_ok b"
  by (simp add: trace_ok_def)

text \<open>Whatever else a request holds, if it has the values of these headers the callee takes over the trace.\<close>

lemma headers_carry_trace:
  assumes laws: "golib_laws lib" and on: "\<not> disable conf" "MtraceEnabled conf"
    and ok: "trace_ok c" and traced: "MTid c \<noteq> 0"
    and t: "- (2 ^ 63) \<le> Txid t \<and> Txid t < 2 ^ 63"
    and h: "newStep lib (c, n) = (c', n')"
      "headerGet (addAll hdr []) (TraceMtraceTraceparentKey conf) = traceparentValue c'"
      "headerGet (addAll hdr []) (TraceMtraceCallerKey conf) = callerValue lib c'"
      "headerGet (addAll hdr []) (TraceMtracePoidKey conf) = TraceMtracePoidValue c"
  shows "\<exists>t' k. UpdateMtrace lib conf hdr (t, m) = Inr (t', k) \<and> MTid t' = MTid c \<and> MCallerTxid t' = Txid c \<and>
     MCallerStepId t' = MStepId c' \<and> MDepth t' = i32 (MDepth c + 1) \<and> MCallerTraceId t' = traceId c \<and>
     MCallerPoidKey t' = (if TraceMtracePoidValue c = [] then MCallerPoidKey t else TrimSpace (TraceMtracePoidValue c)) \<and>
     trace_ok t'"
proof -
  note nf = newStep_fields [OF h(1)]
  let ?h = "addAll hdr []"
  have okc: "trace_ok c'" using ok nf trace_ok_cong by metis
  have stp: "- (2 ^ 63) \<le> MStepId c'" "MStepId c' < 2 ^ 63" using laws nf(2) by (simp_all add: golib_laws_def)
  then have st: "i64 (MStepId c') = MStepId c'" by simp
  have tid: "traceId c' = traceId c" using nf by (simp add: traceId_def)
  let ?t1 = "t\<lparr>MCallerTraceId := traceId c, MTid := MTid c, MCallerStepId := MStepId c'\<rparr>"
  let ?t2 = "?t1\<lparr>MDepth := i32 (MDepth c + 1), MCallerTxid := Txid c\<rparr>"
  have r1: "readTraceparent lib conf ?h t = Inr (?t1, True)"
    using readTraceparent_value [OF laws okc h(2)] nf st tid by simp
  have r2: "readCaller lib conf ?h True ?t1 = (?t2, True)"
    using readCaller_value [OF laws okc stp h(3), of ?t1] nf by simp
  let ?t3 = "readPoid conf ?h (readSpec lib conf ?h ?t2)"
  have s: "sampleMtid lib conf (?t3, m) = (?t3, m)" using traced by (simp add: sampleMtid_def)
  obtain t4 k where t4: "newStep lib (?t3, m) = (t4, k)" by force
  note f4 = newStep_fields [OF t4]
  have "trace_ok ?t3"
    using ok t traceId_ok [OF ok] i32_range [of "MDepth c + 1"] by (simp add: trace_ok_def)
  then have "trace_ok t4" using f4 trace_ok_cong by metis
  then have fin: "trace_ok (t4\<lparr>TraceMtraceSpecValue := a, TraceMtracePoidValue := b\<rparr>)" for a b
    by (simp add: trace_ok_def)
  have "MCallerPoidKey ?t3 = (if TraceMtracePoidValue c = [] then MCallerPoidKey t else TrimSpace (TraceMtracePoidValue c))"
    using h(4) by (simp add: readPoid_def Let_def)
  then show ?thesis
    using on r1 r2 s t4 f4 fin by (simp add: UpdateMtrace_def Let_def)
qed

text \<open>C8: a distributed trace survives a call from one monitored program to another. When a transaction with a
  trace id hands the headers of \<open>GetMTrace\<close> to a callee, \<open>UpdateMtrace\<close> of the callee returns and gives it the
  caller's trace id, the caller's transaction and step as its parent, the depth plus one and the caller's agent
  ids, whatever the callee's handle held before; and the callee is again in a state from which the trace can be
  handed on.\<close>
theorem mtrace_roundtrip:
  assumes laws: "golib_laws lib" and keys: "keys_apart conf" and on: "\<not> disable conf" "MtraceEnabled conf"
    and ok: "trace_ok c" and traced: "MTid c \<noteq> 0"
    and t: "- (2 ^ 63) \<le> Txid t \<and> Txid t < 2 ^ 63"
    and out: "GetMTrace lib conf (Some c) n = (hdr, Some c', n')"
  shows "\<exists>t' k. UpdateMtrace lib conf hdr (t, n') = Inr (t', k) \<and> MTid t' = MTid c \<and> MCallerTxid t' = Txid c \<and>
     MCallerStepId t' = MStepId c' \<and> MDepth t' = i32 (MDepth c + 1) \<and> MCallerTraceId t' = traceId c \<and>
     MCallerPoidKey t' = (if TraceMtracePoidValue c = [] then MCallerPoidKey t else TrimSpace (TraceMtracePoidValue c)) \<and>
     trace_ok t'"
  by (rule headers_carry_trace [OF laws on ok traced t GetMTrace_header [OF out on(1) keys]])

fun splitOn :: "char \<Rightarrow> string \<Rightarrow> string list" where
  "splitOn c [] = [[]]"
| "splitOn c (x # xs) =
     (if x = c then [] # splitOn c xs else (case splitOn c xs of [] \<Rightarrow> [[x]] | w # ws \<Rightarrow> (x # w) # ws))"

definition lib1 :: golib where
  "lib1 = \<lparr>keygen = (\<lambda>n. int (n mod 1000) + 1), toString32 = itoa,
           toLong32 = (\<lambda>s. case Atoi s of Some k \<Rightarrow> k | None \<Rightarrow> 0), hashStr = (\<lambda>s. int (length s mod 1000)),
           split = (\<lambda>s sep. splitOn (hd sep) s)\<rparr>"

definition mconf1 :: mtrace_conf where
  "mconf1 = \<lparr>disable = False, MtraceEnabled = True, TraceMtraceTraceparentKey = ''traceparent'',
             TraceMtraceCallerKey = ''x-wtap-mst'', TraceMtraceSpecKey1 = ''x-wtap-sp1'',
             TraceMtracePoidKey = ''x-wtap-po'', MtraceRate = 10, MtraceSpec = [], PCODE = 1, OKIND = 0, OID = 9\<rparr>"

definition caller1 :: "unit TraceCtx" where
  "caller1 = NewTraceCtx\<lparr>Txid := 77, MTid := 4711, MDepth := 2, TraceMtracePoidValue := ''1, 0, 9''\<rparr>"

lemma splitOn_word: "c \<notin> set w \<Longrightarrow> splitOn c (w @ c # s) = w # splitOn c s"
  by (induction w) auto

lemma splitOn_last: "c \<notin> set w \<Longrightarrow> splitOn c w = [w]"
  by (induction w) auto

lemma splitOn_Join: "words_of c ps \<Longrightarrow> splitOn c (Join ps [c]) = ps"
  by (induction ps "[c]" rule: Join.induct) (auto simp: words_of_def splitOn_word splitOn_last)

lemma lib1_laws: "golib_laws lib1"
  by (auto simp: golib_laws_def lib1_def Atoi_itoa words_itoa splitOn_Join)

lemma mconf1_keys: "keys_apart mconf1"
  by (simp add: keys_apart_def mconf1_def) code_simp

theorem mtrace_roundtrip_witness:
  "\<exists>t' k. UpdateMtrace lib1 mconf1 (fst (GetMTrace lib1 mconf1 (Some caller1) 5)) (NewTraceCtx\<lparr>Txid := 78\<rparr>, 6) = Inr (t', k) \<and>
     MTid t' = 4711 \<and> MCallerTxid t' = 77 \<and> MCallerStepId t' = 6 \<and> MDepth t' = 3"
proof -
  obtain hdr c' n' where out: "GetMTrace lib1 mconf1 (Some caller1) 5 = (hdr, Some c', n')"
    by (cases "newStep lib1 (caller1, 5)") (auto simp: GetMTrace_def mconf1_def)
  have on: "\<not> disable mconf1" "MtraceEnabled mconf1" by (simp_all add: mconf1_def)
  have new: "newStep lib1 (caller1, 5) = (c', n')" by (rule GetMTrace_header(1) [OF out on(1) mconf1_keys])
  have c': "MStepId c' = 6" "n' = 6" using newStep_fields(1,2) [OF new] by (simp_all add: lib1_def)
  have "trace_ok caller1" "MTid caller1 \<noteq> 0" "MDepth caller1 = 2" "Txid caller1 = 77" "MTid caller1 = 4711"
    by (simp_all add: caller1_def NewTraceCtx_def trace_ok_def)
  then show ?thesis
    using mtrace_roundtrip [OF lib1_laws mconf1_keys on _ _ _ out, of "NewTraceCtx\<lparr>Txid := 78\<rparr>"] out c'
    by (auto simp: NewTraceCtx_def)
qed

text \<open>Exactly the requests that can crash \<open>UpdateMtrace\<close>: with distributed tracing on, a \<^verbatim>\<open>traceparent\<close>
  header of at least four parts whose trace id has fewer than 16 bytes. The code slices the id without looking
  at its length, so a client that sends such a header makes the request panic.\<close>
theorem UpdateMtrace_panics_iff:
  "UpdateMtrace lib conf hdr (t, n) = Inl e \<longleftrightarrow>
     \<not> disable conf \<and> MtraceEnabled conf \<and> e = IndexOutOfRange \<and>
     (let val = headerGet (addAll hdr []) (TraceMtraceTraceparentKey conf); arr = split lib (TrimSpace val) ''-'' in
      val \<noteq> [] \<and> 4 \<le> length arr \<and> length (arr ! 1) < 16)"
  by (auto simp: UpdateMtrace_def readTraceparent_def Let_def split: prod.splits)

text \<open>The rate of traces a transaction starts by itself: none at 0 percent, all at 100.\<close>

lemma goRem_abs: "0 < b \<Longrightarrow> \<bar>goRem a b\<bar> < b"
proof (cases "a < 0")
  case True
  assume "0 < b"
  have "goRem a b = - ((- a) mod b)" using True by (simp add: goRem_def goDiv_def minus_div_mult_eq_mod [symmetric] mult.commute)
  with \<open>0 < b\<close> show ?thesis using pos_mod_bound [of b "- a"] pos_mod_sign [of b "- a"] by linarith
next
  case False
  assume "0 < b"
  have "goRem a b = a mod b" using False by (simp add: goRem_def goDiv_def minus_mult_div_eq_mod)
  with \<open>0 < b\<close> show ?thesis using pos_mod_bound [of b a] pos_mod_sign [of b a] by linarith
qed

lemma sampled_bounds: "MtraceRate conf \<le> 0 \<Longrightarrow> \<not> sampled conf k" "100 \<le> MtraceRate conf \<Longrightarrow> sampled conf k"
  using goRem_abs [of 100 "goDiv k 100"] by (auto simp: sampled_def)

end
