(* ===== verification/Trace_Agent.thy ===== *)
theory Trace_Agent
  imports Mtrace
begin

text \<open>
  The agent's side of a transaction (\<^verbatim>\<open>agent/agent/trace/TraceContext.go\<close>, \<^verbatim>\<open>agent/agent/trace/api/Trace.go\<close>):
  its context, what \<^verbatim>\<open>StartTx\<close>, \<^verbatim>\<open>EndTx\<close>, \<^verbatim>\<open>ProfileMsg\<close> and \<^verbatim>\<open>ProfileError\<close> do to it, and what they hand to the
  meters, the text table, the table of active transactions and the profile queue, as a list of events.

  The record has the fields these operations and the profile sender use. The profile collector is represented by
  the calls made on it, in order; what the four collectors make of them is in the profile theories. The URL
  detector, the application contexts, the ignore rules and the error statistics are other components, and the
  functions of golib library code: all of them are arguments, fields of \<open>agent_env\<close>. A nil \<open>RefererURL\<close> may panic
  in golib's \<^verbatim>\<open>String\<close>, which \<open>StartTx\<close> recovers from.
\<close>

record url =
  Path :: string
  UrlHost :: string
  HostPort :: string

record thr =
  ErrorClassName :: string
  ErrorMessage :: string

text \<open>The steps of a profile.\<close>

record DBCStep =
  dbStart :: int
  dbHash :: int
  dbElapsed :: int
  dbError :: int

record SqlStepX =
  sxStart :: int
  sxDbc :: int
  sxHash :: int
  sxXtype :: nat
  sxElapsed :: int
  sxP1 :: "8 word list option"
  sxP2 :: "8 word list option"
  sxPcrc :: "8 word"
  sxStartCpu :: int
  sxStartMem :: int
  sxError :: int
  sxStack :: "int list"

record HttpcStepX =
  hxStart :: int
  hxUrl :: int
  hxHost :: int
  hxPort :: int
  hxElapsed :: int
  hxStepId :: int
  hxDriver :: string
  hxStartCpu :: int
  hxStartMem :: int
  hxError :: int
  hxStack :: "int list"

record MethodStepX =
  mxStart :: int
  mxHash :: int
  mxElapsed :: int
  mxStack :: "int list option"
  mxResource :: "(int \<times> int) option"

datatype msg_step =
    MessageStep int int int int string
  | DbcStep DBCStep
  | SqlStep SqlStepX
  | HttpcStep HttpcStepX
  | MethodStep MethodStepX
  | SecureMsgStep int int "8 word list option" "8 word"

datatype pcall = PAdd msg_step | PAddHeavy msg_step

datatype fieldval = FText string | FDecimal int

record TraceContext =
  Txid :: int
  IsStaticContents :: bool
  ProfileSeq :: int
  ThreadId :: int
  Profile :: "pcall list"
  StartCpu :: int
  StartMalloc :: int
  EndCpu :: int
  EndMalloc :: int
  StartTime :: int
  EndTime :: int
  Elapsed :: int
  Status :: int
  ServiceHash :: int
  ServiceName :: string
  ServiceURL :: "url option"
  RemoteIp :: int
  Error :: int
  ErrorLevel :: int
  Thr :: "thr option"
  HttpMethod :: string
  HttpHost :: string
  HttpHostHash :: int
  SqlCount :: int
  SqlTime :: int
  DbcTime :: int
  HttpcCount :: int
  HttpcTime :: int
  WClientId :: int
  UserAgent :: int
  UserAgentString :: string
  Referer :: int
  RefererURL :: "url option"
  Login :: string
  ProfileActive :: int
  RsCount :: int
  RsTime :: int
  Mtid :: int
  Mdepth :: int
  McallerTxid :: int
  McallerPcode :: int
  McallerSpec :: string
  McallerUrl :: string
  McallerUrlHash :: int
  McallerOid :: int
  McallerOkind :: int
  McallerPoidKey :: string
  McallerStepId :: int
  Fields :: "(string \<times> fieldval) list"
  OriginURL :: string
  AppCtx :: string
  ExecutedSqlhash :: int
  ActiveSqlhash :: int
  ActiveDbc :: int
  ActiveHttpcHash :: int

definition NewTraceContext :: TraceContext where
  "NewTraceContext =
     \<lparr>Txid = 0, IsStaticContents = False, ProfileSeq = 0, ThreadId = 0, Profile = [], StartCpu = 0, StartMalloc = 0,
      EndCpu = 0, EndMalloc = 0, StartTime = 0, EndTime = 0, Elapsed = 0, Status = 0, ServiceHash = 0, ServiceName = [],
      ServiceURL = None, RemoteIp = 0, Error = 0, ErrorLevel = 0, Thr = None, HttpMethod = [], HttpHost = [],
      HttpHostHash = 0, SqlCount = 0, SqlTime = 0, DbcTime = 0, HttpcCount = 0, HttpcTime = 0, WClientId = 0,
      UserAgent = 0, UserAgentString = [], Referer = 0, RefererURL = None, Login = [], ProfileActive = 0, RsCount = 0,
      RsTime = 0, Mtid = 0, Mdepth = 0, McallerTxid = 0, McallerPcode = 0, McallerSpec = [], McallerUrl = [],
      McallerUrlHash = 0, McallerOid = 0, McallerOkind = 0, McallerPoidKey = [], McallerStepId = 0, Fields = [],
      OriginURL = [], AppCtx = [], ExecutedSqlhash = 0, ActiveSqlhash = 0, ActiveDbc = 0, ActiveHttpcHash = 0\<rparr>"

text \<open>\<open>Clear\<close> resets every field but \<open>OriginURL\<close> and \<open>AppCtx\<close>.\<close>

definition TraceContext_Clear :: "TraceContext \<Rightarrow> TraceContext" where
  "TraceContext_Clear c = NewTraceContext\<lparr>OriginURL := OriginURL c, AppCtx := AppCtx c\<rparr>"

text \<open>\<open>MapValue.Put\<close> keeps one value per key.\<close>

definition SetExtraField :: "string \<Rightarrow> fieldval \<Rightarrow> TraceContext \<Rightarrow> TraceContext" where
  "SetExtraField k v c = c\<lparr>Fields := AList.update k v (Fields c)\<rparr>"

definition SetExtraFieldString :: "string \<Rightarrow> string \<Rightarrow> TraceContext \<Rightarrow> TraceContext" where
  "SetExtraFieldString k v c = c\<lparr>Fields := AList.update k (FText v) (Fields c)\<rparr>"

record tx_record =
  rTxid :: int
  rEndTime :: int
  rElapsed :: int
  rService :: int
  rIpAddr :: int
  rWClientId :: int
  rUserAgent :: int
  rMcallerPcode :: int
  rMcallerOkind :: int
  rMcallerOid :: int
  rMtid :: int
  rMdepth :: int
  rMcaller :: int
  rMcallerStepId :: int
  rCipher :: int
  rCpuTime :: int
  rMalloc :: int
  rSqlCount :: int
  rSqlTime :: int
  rSqlFetchCount :: int
  rSqlFetchTime :: int
  rDbcTime :: int
  rError :: int
  rErrorLevel :: int
  rDomain :: int
  rReferer :: int
  rHttpcCount :: int
  rHttpcTime :: int
  rStatus :: int
  rHttpMethod :: int
  rFields :: "(string \<times> fieldval) list"
  rOriginUrl :: string

datatype text_kind = TEXT_SERVICE | TEXT_HTTP_DOMAIN | TEXT_USER_AGENT | TEXT_REFERER | TEXT_MESSAGE
  | TEXT_DB_URL | TEXT_METHOD | TEXT_ERROR | TEXT_HTTPC_URL | TEXT_HTTPC_HOST | TEXT_STACK_ELEMENTS

datatype ev =
    Arrival
  | HashText text_kind int string
  | MeterUsers int
  | PutContext int
  | RemoveContext int
  | MeterService tx_record int int int
  | MeterStatus int int
  | StatTranxStatus int int int int
  | AppCtxEnd string tx_record
  | SendTransaction TraceContext
  | StatError thr int
  | MeterSQL int int bool
  | StatSql int int int int bool
  | MeterHTTPC int int bool
  | StatHttpc int int int int int bool

record agent_env =
  env_lib :: golib
  env_upper :: "string \<Rightarrow> string"
  env_normalize :: "string \<Rightarrow> string"
  env_contextPath :: "string \<Rightarrow> string"
  env_inArray :: "string \<Rightarrow> string list \<Rightarrow> bool"
  env_matchQuery :: "string \<Rightarrow> url \<Rightarrow> string"
  env_ignoreTrace :: "int \<Rightarrow> string \<Rightarrow> bool"
  env_urlString :: "url option \<Rightarrow> string go"
  env_unknownUrl :: url
  env_keyHash :: int
  env_webMethod :: "string \<Rightarrow> int"
  env_addError :: "thr \<Rightarrow> int \<Rightarrow> int"
  env_ignoreException :: "thr \<Rightarrow> bool"
  env_bizException :: "thr \<Rightarrow> bool"
  env_trimEmpty :: "string \<Rightarrow> string"
  env_INFO :: int
  env_WARNING :: int

record agent_conf =
  TraceNormalizeEnabled :: bool
  AppContextEnabled :: bool
  IgnoreHttpMethod :: "string list"
  ProfileHttpHostEnabled :: bool
  QueryStringEnabled :: bool
  TraceUserAgentEnabled :: bool
  TraceRefererEnabled :: bool
  TxStatusMeterEnabled :: bool
  StatTxStatusEnabled :: bool

definition hashOf :: "agent_env \<Rightarrow> string \<Rightarrow> int" where
  "hashOf env s = hashStr (env_lib env) s"

definition addMessage :: "agent_env \<Rightarrow> int \<Rightarrow> string \<Rightarrow> string \<Rightarrow> TraceContext \<Rightarrow> TraceContext \<times> ev list" where
  "addMessage env t title desc c =
     (c\<lparr>Profile := Profile c @ [PAdd (MessageStep t 0 (i32 (hashOf env title)) 0 desc)]\<rparr>,
      [HashText TEXT_MESSAGE (i32 (hashOf env title)) title])"

text \<open>The parts of \<open>StartTx\<close>: the service name of the path, the additions to it, and what follows.\<close>

definition startName :: "agent_env \<Rightarrow> agent_conf \<Rightarrow> TraceContext \<Rightarrow> TraceContext \<times> ev list" where
  "startName env conf c =
     (let u = (case ServiceURL c of None \<Rightarrow> env_unknownUrl env | Some u \<Rightarrow> u);
          name = (if TraceNormalizeEnabled conf then env_normalize env (Path u) else Path u);
          c1 = c\<lparr>ServiceURL := Some u, ServiceName := name, ServiceHash := hashOf env name\<rparr>;
          c2 = (if name \<noteq> [] \<and> AppContextEnabled conf then c1\<lparr>AppCtx := env_contextPath env (Path u)\<rparr> else c1);
          evs = [Arrival, HashText TEXT_SERVICE (ServiceHash c2) name] in
      if hashOf env (Path u) \<noteq> ServiceHash c2
      then (let (c3, e) = addMessage env 0 ''OriginURL'' (Path u) c2 in (c3\<lparr>OriginURL := Path u\<rparr>, evs @ e))
      else (c2, evs))"

definition startUrl :: "agent_env \<Rightarrow> agent_conf \<Rightarrow> url \<Rightarrow> string \<Rightarrow> TraceContext \<Rightarrow> TraceContext" where
  "startUrl env conf u name0 c =
     (let c1 = (if ProfileHttpHostEnabled conf \<and> UrlHost u \<noteq> []
                then (let name = (if HasPrefix (ServiceName c) ''/'' then ''/'' @ HostPort u @ ServiceName c
                                  else ''/'' @ HostPort u @ ''/'' @ ServiceName c) in
                      c\<lparr>ServiceName := name, ServiceHash := hashOf env name\<rparr>)
                else c);
          qs = env_matchQuery env name0 u;
          c2 = (if QueryStringEnabled conf \<and> qs \<noteq> []
                then (let name = ServiceName c1 @ ''?'' @ qs in c1\<lparr>ServiceName := name, ServiceHash := hashOf env name\<rparr>)
                else c1) in
      if IsStaticContents c2 then c2
      else c2\<lparr>IsStaticContents := env_ignoreTrace env (ServiceHash c2) (ServiceName c2)\<rparr>)"

definition startHost :: "agent_env \<Rightarrow> agent_conf \<Rightarrow> url \<Rightarrow> TraceContext \<Rightarrow> TraceContext \<times> ev list" where
  "startHost env conf u c =
     (let c1 = c\<lparr>HttpHost := HostPort u, HttpHostHash := hashOf env (HostPort u), HttpMethod := env_upper env (HttpMethod c)\<rparr>;
          c2 = (if TraceUserAgentEnabled conf then c1\<lparr>UserAgent := hashOf env (UserAgentString c1)\<rparr> else c1) in
      (c2, [HashText TEXT_HTTP_DOMAIN (HttpHostHash c2) (HttpHost c2)] @
           (if TraceUserAgentEnabled conf then [HashText TEXT_USER_AGENT (UserAgent c2) (UserAgentString c2)] else [])))"

definition startRegister :: "TraceContext \<Rightarrow> TraceContext \<times> ev list" where
  "startRegister c =
     (c\<lparr>ProfileSeq := Txid c\<rparr>,
      [HashText TEXT_SERVICE (ServiceHash c) (ServiceName c), MeterUsers (WClientId c), PutContext (Txid c)])"

definition StartTx :: "agent_env \<Rightarrow> agent_conf \<Rightarrow> TraceContext \<Rightarrow> TraceContext \<times> ev list" where
  "StartTx env conf c =
     (let (c1, e1) = startName env conf c;
          u = (case ServiceURL c1 of None \<Rightarrow> env_unknownUrl env | Some u \<Rightarrow> u) in
      if env_inArray env (HttpMethod c1) (IgnoreHttpMethod conf) then (c1, e1)
      else (let (c2, e2) = startHost env conf u (startUrl env conf u (ServiceName c1) c1) in
            if TraceRefererEnabled conf
            then (case env_urlString env (RefererURL c2) of
                    Inl _ \<Rightarrow> (c2, e1 @ e2)
                  | Inr s \<Rightarrow> (let (c3, e3) = startRegister (c2\<lparr>Referer := hashOf env s\<rparr>) in
                             (c3, e1 @ e2 @ [HashText TEXT_REFERER (hashOf env s) s] @ e3)))
            else (let (c3, e3) = startRegister c2 in (c3, e1 @ e2 @ e3))))"

text \<open>The caller's ids are written in base 32, separated by commas.\<close>

definition poidPart :: "agent_env \<Rightarrow> string list \<Rightarrow> nat \<Rightarrow> int" where
  "poidPart env poid i = toLong32 (env_lib env) (TrimSpace (poid ! i))"

definition readPoidKey :: "agent_env \<Rightarrow> TraceContext \<Rightarrow> TraceContext" where
  "readPoidKey env c =
     (let poid = splitOn CHR '','' (McallerPoidKey c);
          c1 = (if 0 < length poid then c\<lparr>McallerPcode := poidPart env poid 0\<rparr> else c);
          c2 = (if 1 < length poid then c1\<lparr>McallerOkind := i32 (poidPart env poid 1)\<rparr> else c1) in
      if 2 < length poid then c2\<lparr>McallerOid := i32 (poidPart env poid 2)\<rparr> else c2)"

definition txRecord :: "agent_env \<Rightarrow> TraceContext \<Rightarrow> tx_record" where
  "txRecord env c =
     \<lparr>rTxid = ProfileSeq c, rEndTime = EndTime c, rElapsed = Elapsed c, rService = ServiceHash c, rIpAddr = RemoteIp c,
      rWClientId = WClientId c, rUserAgent = UserAgent c, rMcallerPcode = McallerPcode c, rMcallerOkind = McallerOkind c,
      rMcallerOid = McallerOid c, rMtid = Mtid c, rMdepth = Mdepth c, rMcaller = McallerTxid c,
      rMcallerStepId = McallerStepId c, rCipher = env_keyHash env,
      rCpuTime = (if EndCpu c < 0 then -1 else i32 (EndCpu c - StartCpu c)),
      rMalloc = (if EndMalloc c < 0 then -1 else i64 (EndMalloc c - StartMalloc c)),
      rSqlCount = SqlCount c, rSqlTime = SqlTime c, rSqlFetchCount = RsCount c, rSqlFetchTime = i32 (RsTime c),
      rDbcTime = DbcTime c, rError = Error c, rErrorLevel = ErrorLevel c, rDomain = HttpHostHash c,
      rReferer = Referer c, rHttpcCount = HttpcCount c, rHttpcTime = HttpcTime c, rStatus = Status c,
      rHttpMethod = (if HttpMethod c \<noteq> [] then env_webMethod env (HttpMethod c) else 0),
      rFields = Fields c, rOriginUrl = OriginURL c\<rparr>"

text \<open>\<open>sysNow\<close> and \<open>now\<close> are the system clock and the clock synchronised with the server.\<close>

definition EndTx :: "agent_env \<Rightarrow> agent_conf \<Rightarrow> int \<Rightarrow> int \<Rightarrow> TraceContext \<Rightarrow> TraceContext \<times> ev list" where
  "EndTx env conf sysNow now c =
     (let c1 = c\<lparr>Elapsed := i32 (sysNow - StartTime c)\<rparr> in
      if IsStaticContents c1 then (c1, [RemoveContext (Txid c)])
      else (let c2 = readPoidKey env (c1\<lparr>EndTime := now, StartTime := i64 (now - Elapsed c1)\<rparr>);
                tx = txRecord env c2 in
            (c2, [RemoveContext (Txid c), MeterService tx (McallerPcode c2) (McallerOkind c2) (McallerOid c2)] @
                 (if TxStatusMeterEnabled conf then [MeterStatus (Status c2) (Elapsed c2)] else []) @
                 (if StatTxStatusEnabled conf then [StatTranxStatus (Status c2) (ServiceHash c2) (Elapsed c2) (Error c2)] else []) @
                 (if AppContextEnabled conf then [AppCtxEnd (AppCtx c2) tx] else []) @
                 [SendTransaction c2])))"

definition ProfileMsg :: "agent_env \<Rightarrow> int \<Rightarrow> string \<Rightarrow> string \<Rightarrow> int \<Rightarrow> int \<Rightarrow> TraceContext \<Rightarrow> TraceContext \<times> ev list" where
  "ProfileMsg env sysNow title message elapsed val c =
     (let h = i32 (hashOf env title) in
      (c\<lparr>Profile := Profile c @ [PAdd (MessageStep (i32 (sysNow - StartTime c)) (i32 elapsed) h (i32 val) message)]\<rparr>,
       [HashText TEXT_MESSAGE h title]))"

text \<open>An ignored error leaves no trace. An error outside a transaction is only counted.\<close>

definition ProfileError :: "agent_env \<Rightarrow> int \<Rightarrow> thr \<Rightarrow> TraceContext \<Rightarrow> TraceContext \<times> ev list" where
  "ProfileError env sysNow th c =
     (if env_ignoreException env th then (c, [])
      else (let st = MessageStep (i32 (sysNow - StartTime c)) 0 (hashOf env ''ERROR'') 0
                       (env_trimEmpty env (ErrorClassName th @ ''-'' @ ErrorMessage th)) in
            (c\<lparr>Profile := Profile c @ [PAddHeavy st], Thr := Some th, Error := env_addError env th (ServiceHash c),
               ErrorLevel := (if env_bizException env th then env_INFO env else env_WARNING env)\<rparr>,
             [HashText TEXT_MESSAGE (hashOf env ''ERROR'') ''ERROR'', StatError th (ServiceHash c)])))"

definition ProfileError_nil :: "agent_env \<Rightarrow> thr \<Rightarrow> ev list" where
  "ProfileError_nil env th = (if env_ignoreException env th then [] else [StatError th 0])"

subsection \<open>What the operations leave alone\<close>

lemma startName_fields [simp]:
  "Txid (fst (startName env conf c)) = Txid c" "ProfileSeq (fst (startName env conf c)) = ProfileSeq c"
  "IsStaticContents (fst (startName env conf c)) = IsStaticContents c"
  "StartTime (fst (startName env conf c)) = StartTime c" "HttpMethod (fst (startName env conf c)) = HttpMethod c"
  "Error (fst (startName env conf c)) = Error c" "Thr (fst (startName env conf c)) = Thr c"
  "PutContext k \<notin> set (snd (startName env conf c))" "SendTransaction x \<notin> set (snd (startName env conf c))"
  by (simp_all add: startName_def addMessage_def Let_def)

lemma startUrl_fields [simp]:
  "Txid (startUrl env conf u n c) = Txid c" "ProfileSeq (startUrl env conf u n c) = ProfileSeq c"
  "StartTime (startUrl env conf u n c) = StartTime c" "Error (startUrl env conf u n c) = Error c"
  "Thr (startUrl env conf u n c) = Thr c" "OriginURL (startUrl env conf u n c) = OriginURL c"
  "RefererURL (startUrl env conf u n c) = RefererURL c" "Profile (startUrl env conf u n c) = Profile c"
  by (simp_all add: startUrl_def Let_def)

lemma startHost_fields [simp]:
  "Txid (fst (startHost env conf u c)) = Txid c" "ProfileSeq (fst (startHost env conf u c)) = ProfileSeq c"
  "IsStaticContents (fst (startHost env conf u c)) = IsStaticContents c"
  "StartTime (fst (startHost env conf u c)) = StartTime c" "Error (fst (startHost env conf u c)) = Error c"
  "Thr (fst (startHost env conf u c)) = Thr c" "OriginURL (fst (startHost env conf u c)) = OriginURL c"
  "RefererURL (fst (startHost env conf u c)) = RefererURL c" "Profile (fst (startHost env conf u c)) = Profile c"
  "PutContext k \<notin> set (snd (startHost env conf u c))" "SendTransaction x \<notin> set (snd (startHost env conf u c))"
  by (simp_all add: startHost_def Let_def)

lemma readPoidKey_fields [simp]:
  "Txid (readPoidKey env c) = Txid c" "ProfileSeq (readPoidKey env c) = ProfileSeq c"
  "Profile (readPoidKey env c) = Profile c" "Elapsed (readPoidKey env c) = Elapsed c"
  "EndTime (readPoidKey env c) = EndTime c" "Error (readPoidKey env c) = Error c"
  "Thr (readPoidKey env c) = Thr c" "OriginURL (readPoidKey env c) = OriginURL c"
  "StartTime (readPoidKey env c) = StartTime c" "Status (readPoidKey env c) = Status c"
  "IsStaticContents (readPoidKey env c) = IsStaticContents c" "Mtid (readPoidKey env c) = Mtid c"
  by (simp_all add: readPoidKey_def Let_def)

lemma StartTx_cases:
  obtains c1 e1 where "startName env conf c = (c1, e1)" "StartTx env conf c = (c1, e1)"
  | c1 e1 u c2 e2 where "startName env conf c = (c1, e1)" "startHost env conf u (startUrl env conf u (ServiceName c1) c1) = (c2, e2)"
      "StartTx env conf c = (c2, e1 @ e2)"
  | c1 e1 u c2 e2 c3 e3 hr where "startName env conf c = (c1, e1)" "startHost env conf u (startUrl env conf u (ServiceName c1) c1) = (c2, e2)"
      "startRegister (c2\<lparr>Referer := hr\<rparr>) = (c3, e3)" "StartTx env conf c = (c3, e1 @ e2 @ e3) \<or> (\<exists>k hh s. StartTx env conf c = (c3, e1 @ e2 @ [HashText k hh s] @ e3))"
proof -
  obtain c1 e1 where 1: "startName env conf c = (c1, e1)" by force
  let ?u = "case ServiceURL c1 of None \<Rightarrow> env_unknownUrl env | Some u \<Rightarrow> u"
  obtain c2 e2 where 2: "startHost env conf ?u (startUrl env conf ?u (ServiceName c1) c1) = (c2, e2)" by force
  show thesis
  proof (cases "env_inArray env (HttpMethod c1) (IgnoreHttpMethod conf)")
    case True
    with 1 have "StartTx env conf c = (c1, e1)" by (simp add: StartTx_def)
    then show thesis using that(1) 1 by blast
  next
    case notIgnored: False
    show thesis
    proof (cases "TraceRefererEnabled conf")
      case refer: True
      show thesis
      proof (cases "env_urlString env (RefererURL c2)")
        case (Inl e)
        with 1 2 notIgnored refer have "StartTx env conf c = (c2, e1 @ e2)" by (simp add: StartTx_def Let_def)
        then show thesis using that(2) 1 2 by blast
      next
        case (Inr s)
        obtain c3 e3 where 3: "startRegister (c2\<lparr>Referer := hashOf env s\<rparr>) = (c3, e3)" by force
        from 1 2 3 Inr notIgnored refer have "StartTx env conf c = (c3, e1 @ e2 @ [HashText TEXT_REFERER (hashOf env s) s] @ e3)"
          by (simp add: StartTx_def Let_def)
        then show thesis using that(3) 1 2 3 by blast
      qed
    next
      case False
      obtain c3 e3 where 3: "startRegister c2 = (c3, e3)" by force
      then have 4: "startRegister (c2\<lparr>Referer := Referer c2\<rparr>) = (c3, e3)" by simp
      from 1 2 3 notIgnored False have "StartTx env conf c = (c3, e1 @ e2 @ e3)" by (simp add: StartTx_def Let_def)
      then show thesis using that(3) 1 2 4 by blast
    qed
  qed
qed

subsection \<open>Properties\<close>

text \<open>The address of an earlier request leaks into a later one. \<open>Clear\<close> does not reset \<open>OriginURL\<close>, and
  \<open>StartTx\<close> sets it only when the URL was normalised; so a transaction whose URL is not rewritten and whose context
  comes from the pool is metered with the original URL of the transaction that used the context before.\<close>
theorem origin_url_leaks:
  assumes "\<not> TraceNormalizeEnabled conf \<or> env_normalize env (Path u) = Path u"
    and "c1 = fst (StartTx env conf ((TraceContext_Clear c)\<lparr>Txid := k, StartTime := t, ServiceURL := Some u\<rparr>))"
    and "\<not> IsStaticContents c1"
  shows "\<exists>tx p o1 o2. MeterService tx p o1 o2 \<in> set (snd (EndTx env conf sysNow now c1)) \<and> rOriginUrl tx = OriginURL c"
proof -
  let ?c = "(TraceContext_Clear c)\<lparr>Txid := k, StartTime := t, ServiceURL := Some u\<rparr>"
  have name: "OriginURL (fst (startName env conf ?c)) = OriginURL c"
    using assms(1) by (auto simp: startName_def addMessage_def TraceContext_Clear_def Let_def)
  have "OriginURL c1 = OriginURL c"
  proof (cases rule: StartTx_cases [of env conf ?c])
    case (1 d e)
    then show ?thesis using name assms(2) by simp
  next
    case (2 d e v d2 e2)
    then show ?thesis using name assms(2) startHost_fields(7) [of env conf v "startUrl env conf v (ServiceName d) d"] by simp
  next
    case (3 d e v d2 e2 d3 e3 hr)
    then have "OriginURL d3 = OriginURL d2" by (auto simp: startRegister_def)
    with 3 show ?thesis using name assms(2) startHost_fields(7) [of env conf v "startUrl env conf v (ServiceName d) d"] by auto
  qed
  with assms(3) show ?thesis by (auto simp: EndTx_def Let_def txRecord_def)
qed

definition agentEnv1 :: agent_env where
  "agentEnv1 =
     \<lparr>env_lib = lib1, env_upper = (\<lambda>s. s), env_normalize = (\<lambda>s. s), env_contextPath = (\<lambda>s. s), env_inArray = (\<lambda>s xs. s \<in> set xs),
      env_matchQuery = (\<lambda>_ _. []), env_ignoreTrace = (\<lambda>_ _. False), env_urlString = (\<lambda>u. case u of None \<Rightarrow> Inl NilDereference | Some v \<Rightarrow> Inr (Path v)),
      env_unknownUrl = \<lparr>Path = ''Unknown'', UrlHost = [], HostPort = []\<rparr>, env_keyHash = 0, env_webMethod = (\<lambda>_. 1),
      env_addError = (\<lambda>th h. 99), env_ignoreException = (\<lambda>_. False), env_bizException = (\<lambda>_. False), env_trimEmpty = (\<lambda>s. s),
      env_INFO = 10, env_WARNING = 20\<rparr>"

definition agentConf1 :: agent_conf where
  "agentConf1 = \<lparr>TraceNormalizeEnabled = False, AppContextEnabled = False, IgnoreHttpMethod = [''PATCH'', ''OPTIONS'', ''HEAD'', ''TRACE''],
     ProfileHttpHostEnabled = False, QueryStringEnabled = False, TraceUserAgentEnabled = False, TraceRefererEnabled = False,
     TxStatusMeterEnabled = False, StatTxStatusEnabled = False\<rparr>"

definition used1 :: TraceContext where
  "used1 = NewTraceContext\<lparr>OriginURL := ''/user/4711''\<rparr>"

theorem origin_url_leaks_witness:
  "\<exists>tx p o1 o2. MeterService tx p o1 o2 \<in>
     set (snd (EndTx agentEnv1 agentConf1 9 9 (fst (StartTx agentEnv1 agentConf1
       ((TraceContext_Clear used1)\<lparr>Txid := 2, StartTime := 5, ServiceURL := Some \<lparr>Path = ''/b'', UrlHost = [], HostPort = []\<rparr>\<rparr>))))) \<and>
     rOriginUrl tx = ''/user/4711''"
  using origin_url_leaks [where env = agentEnv1 and conf = agentConf1 and u = "\<lparr>Path = ''/b'', UrlHost = [], HostPort = []\<rparr>" and c = used1
      and k = 2 and t = 5 and sysNow = 9 and now = 9, OF _ refl]
  by (simp add: agentConf1_def agentEnv1_def used1_def StartTx_def startName_def startUrl_def startHost_def startRegister_def
      TraceContext_Clear_def NewTraceContext_def Let_def)

text \<open>A request with an ignored HTTP method is reported all the same, without an id. \<open>StartTx\<close> returns early
  for it, before it marks or registers the transaction; but \<open>EndTx\<close> works on the context, not on the table of
  active transactions, so it meters the request and sends it, with the transaction id 0.\<close>
theorem ignored_method_reported:
  assumes "env_inArray env (HttpMethod c) (IgnoreHttpMethod conf)" and "ProfileSeq c = 0" and "\<not> IsStaticContents c"
    and "StartTx env conf c = (c1, e1)"
  shows "\<exists>tx p o1 o2 c2. MeterService tx p o1 o2 \<in> set (snd (EndTx env conf sysNow now c1)) \<and> rTxid tx = 0 \<and>
     SendTransaction c2 \<in> set (snd (EndTx env conf sysNow now c1)) \<and> PutContext k \<notin> set e1"
proof -
  obtain d e where d: "startName env conf c = (d, e)" by force
  then have "HttpMethod d = HttpMethod c" using startName_fields(5) [of env conf c] by simp
  with d assms(1,4) have n: "startName env conf c = (c1, e1)" by (simp add: StartTx_def Let_def)
  then have "ProfileSeq c1 = 0" "\<not> IsStaticContents c1" "PutContext k \<notin> set e1"
    using assms(2,3) startName_fields [where env = env and conf = conf and c = c] by (metis fst_conv snd_conv)+
  then show ?thesis by (auto simp: EndTx_def Let_def txRecord_def)
qed

theorem ignored_method_reported_witness:
  "\<exists>tx p o1 o2. MeterService tx p o1 o2 \<in>
     set (snd (EndTx agentEnv1 agentConf1 9 9 (fst (StartTx agentEnv1 agentConf1 (NewTraceContext\<lparr>HttpMethod := ''HEAD''\<rparr>))))) \<and> rTxid tx = 0"
proof -
  obtain c1 e1 where s: "StartTx agentEnv1 agentConf1 (NewTraceContext\<lparr>HttpMethod := ''HEAD''\<rparr>) = (c1, e1)" by force
  have "env_inArray agentEnv1 (HttpMethod (NewTraceContext\<lparr>HttpMethod := ''HEAD''\<rparr>)) (IgnoreHttpMethod agentConf1)"
    "ProfileSeq (NewTraceContext\<lparr>HttpMethod := ''HEAD''\<rparr>) = 0" "\<not> IsStaticContents (NewTraceContext\<lparr>HttpMethod := ''HEAD''\<rparr>)"
    by (simp_all add: agentEnv1_def agentConf1_def NewTraceContext_def)
  from ignored_method_reported [OF this s, where sysNow = 9 and now = 9 and k = 0] s show ?thesis by auto
qed

end
