(* ===== verification/Trace_Api.thy ===== *)
theory Trace_Api
  imports Trace_Agent
begin

text \<open>
  The tracing API of the library (\<^verbatim>\<open>trace/Trace.go\<close>, \<^verbatim>\<open>trace/TraceContextManager.go\<close>, the pools of \<^verbatim>\<open>trace/TraceCtx.go\<close>
  and \<^verbatim>\<open>agent/agent/trace/TraceContext.go\<close>).

  Handles (\<^verbatim>\<open>*TraceCtx\<close>) and agent contexts (\<^verbatim>\<open>*TraceContext\<close>) are addresses into two stores, because the code
  pools and reuses the objects. \<^verbatim>\<open>sync.Pool\<close> may return any pooled object or make a new one; which one is an
  argument of the operation (\<open>pick\<close>). A \<^verbatim>\<open>context.Context\<close> is nil or holds at most one handle under its key. The
  goroutine id and the clock are arguments. The table of goroutine ids is a map: its bound \<^verbatim>\<open>TxMaxCount\<close> is not
  modelled. \<open>llmOut\<close> lists the calls of \<^verbatim>\<open>DispatchTraceTxStatus\<close>.
\<close>

datatype gctx = NilContext | Context "nat option"

record 'l api =
  handles :: "nat \<Rightarrow> 'l TraceCtx"
  handlePool :: "nat list"
  handleNext :: nat
  agents :: "nat \<Rightarrow> TraceContext"
  agentPool :: "nat list"
  agentNext :: nat
  gids :: "int \<Rightarrow> nat option"
  keyPos :: nat
  evs :: "ev list"
  llmOut :: "(int \<times> 'l option) list"

record api_env =
  agentEnv :: agent_env
  agentConf :: agent_conf
  mtraceConf :: mtrace_conf
  Enabled :: bool
  GoUseGoroutineIDEnabled :: bool
  newURL :: "string \<Rightarrow> url"

abbreviation off :: "api_env \<Rightarrow> bool" where
  "off E \<equiv> disable (mtraceConf E) \<or> \<not> Enabled E"

subsection \<open>Pools and the table of goroutines\<close>

definition poolGet :: "nat option \<Rightarrow> nat list \<Rightarrow> nat \<Rightarrow> nat \<times> nat list \<times> nat" where
  "poolGet pick pool new =
     (case pick of
        Some i \<Rightarrow> if i < length pool then (pool ! i, take i pool @ drop (Suc i) pool, new) else (new, pool, Suc new)
      | None \<Rightarrow> (new, pool, Suc new))"

definition AddGIDTraceCtx :: "api_env \<Rightarrow> int \<Rightarrow> nat \<Rightarrow> 'l api \<Rightarrow> 'l api" where
  "AddGIDTraceCtx E g h w = (if GoUseGoroutineIDEnabled E then w\<lparr>gids := (gids w)(g \<mapsto> h)\<rparr> else w)"

definition GetGIDTraceCtx :: "api_env \<Rightarrow> int \<Rightarrow> 'l api \<Rightarrow> nat option" where
  "GetGIDTraceCtx E g w = (if GoUseGoroutineIDEnabled E then gids w g else None)"

definition RemoveGIDTraceCtx :: "api_env \<Rightarrow> int \<Rightarrow> 'l api \<Rightarrow> 'l api" where
  "RemoveGIDTraceCtx E g w = (if GoUseGoroutineIDEnabled E then w\<lparr>gids := (gids w)(g := None)\<rparr> else w)"

definition CloseTraceContext :: "nat \<Rightarrow> 'l api \<Rightarrow> 'l api" where
  "CloseTraceContext h w =
     w\<lparr>handles := (handles w)(h := TraceCtx_Clear (handles w h)), handlePool := handlePool w @ [h]\<rparr>"

text \<open>The profile sender closes the agent context of a transaction once it has been processed.\<close>

definition agent_Close :: "nat \<Rightarrow> 'l api \<Rightarrow> 'l api" where
  "agent_Close a w =
     w\<lparr>agents := (agents w)(a := TraceContext_Clear (agents w a)), agentPool := agentPool w @ [a]\<rparr>"

definition agent_Pool :: "nat option \<Rightarrow> 'l api \<Rightarrow> nat \<times> 'l api" where
  "agent_Pool pick w =
     (let (a, pool, new) = poolGet pick (agentPool w) (agentNext w) in
      (a, w\<lparr>agents := (if a = agentNext w then (agents w)(a := Trace_Agent.NewTraceContext) else agents w),
            agentPool := pool, agentNext := new\<rparr>))"

definition PoolTraceContext :: "nat option \<Rightarrow> 'l api \<Rightarrow> nat \<times> 'l api" where
  "PoolTraceContext pick w =
     (let (h, pool, new) = poolGet pick (handlePool w) (handleNext w) in
      (h, w\<lparr>handles := (if h = handleNext w then (handles w)(h := NewTraceCtx) else handles w),
            handlePool := pool, handleNext := new\<rparr>))"

subsection \<open>Finding and making handles\<close>

definition GetTraceContext :: "api_env \<Rightarrow> int \<Rightarrow> gctx \<Rightarrow> 'l api \<Rightarrow> gctx \<times> nat option" where
  "GetTraceContext E g c w =
     (case c of
        Context (Some h) \<Rightarrow> (c, Some h)
      | _ \<Rightarrow> (case GetGIDTraceCtx E g w of
                Some h \<Rightarrow> (if c = NilContext then Context None else c, Some h)
              | None \<Rightarrow> (c, None)))"

definition NewTraceContext :: "api_env \<Rightarrow> int \<Rightarrow> nat option \<times> nat option \<Rightarrow> 'l api \<Rightarrow> nat \<times> 'l api" where
  "NewTraceContext E g picks w =
     (let (h, w1) = PoolTraceContext (fst picks) w;
          (a, w2) = agent_Pool (snd picks) w1;
          k = keygen (env_lib (agentEnv E)) (keyPos w2);
          w3 = w2\<lparr>handles := (handles w2)(h := (handles w2 h)\<lparr>TraceCtx.Txid := k, GID := g, Ctx := Some a\<rparr>),
                  agents := (agents w2)(a := (agents w2 a)\<lparr>Txid := k, ThreadId := g\<rparr>),
                  keyPos := Suc (keyPos w2)\<rparr> in
      (h, AddGIDTraceCtx E g h w3))"

text \<open>What the start functions share: the multi-trace data of the handle, then the agent context, which \<open>prep\<close>
  fills in, and \<open>StartTx\<close>.\<close>

definition startHandle ::
  "api_env \<Rightarrow> header \<Rightarrow> nat \<Rightarrow> string \<Rightarrow> int \<Rightarrow> (TraceContext \<Rightarrow> TraceContext) \<Rightarrow> 'l api \<Rightarrow> 'l api go" where
  "startHandle E hdr h name sysNow prep w =
     bindGo (UpdateMtrace (env_lib (agentEnv E)) (mtraceConf E) hdr
              ((handles w h)\<lparr>Name := name, TraceCtx.StartTime := sysNow\<rparr>, keyPos w)) (\<lambda>(t, n).
       case Ctx t of
         None \<Rightarrow> Inl NilDereference
       | Some a \<Rightarrow>
           (let (c, e) = StartTx (agentEnv E) (agentConf E) (prep ((agents w a)\<lparr>StartTime := sysNow\<rparr>)) in
            Inr (w\<lparr>handles := (handles w)(h := t), keyPos := n, agents := (agents w)(a := c), evs := evs w @ e\<rparr>)))"

definition Start :: "api_env \<Rightarrow> int \<Rightarrow> int \<Rightarrow> nat option \<times> nat option \<Rightarrow> string \<Rightarrow> gctx \<Rightarrow> 'l api \<Rightarrow> (gctx \<times> 'l api) go" where
  "Start E g sysNow picks name c w =
     (let fresh = (let (h, w1) = NewTraceContext E g picks w in
                   bindGo (startHandle E [] h name sysNow (\<lambda>x. x\<lparr>ServiceURL := Some (newURL E name)\<rparr>) w1)
                     (\<lambda>w2. Inr (Context (Some h), w2))) in
      if off E then Inr (c, w)
      else (case GetTraceContext E g c w of
              (c1, Some h) \<Rightarrow> if TraceCtx.Txid (handles w h) \<noteq> 0 then Inr (c1, w) else fresh
            | (c1, None) \<Rightarrow> fresh))"

definition StartWithContext ::
  "api_env \<Rightarrow> int \<Rightarrow> int \<Rightarrow> nat option \<Rightarrow> string \<Rightarrow> gctx \<Rightarrow> 'l api \<Rightarrow> (gctx \<times> string option \<times> 'l api) go" where
  "StartWithContext E g sysNow pick name c w =
     (if off E then Inr (c, None, w)
      else (case GetTraceContext E g c w of
              (c1, None) \<Rightarrow> Inr (c, Some ''Not found trace context '', w)
            | (c1, Some h) \<Rightarrow>
                (let w1 = (case Ctx (handles w h) of
                             Some a \<Rightarrow> w
                           | None \<Rightarrow>
                               (let (a, w') = agent_Pool pick w in
                                w'\<lparr>handles := (handles w')(h := (handles w' h)\<lparr>Ctx := Some a\<rparr>),
                                   agents := (agents w')(a := (agents w' a)\<lparr>Txid := TraceCtx.Txid (handles w' h)\<rparr>)\<rparr>)) in
                 bindGo (startHandle E [] h name sysNow (\<lambda>x. x\<lparr>ServiceURL := Some (newURL E name)\<rparr>) w1)
                   (\<lambda>w2. Inr (c, None, w2)))))"

subsection \<open>Steps, errors and the end\<close>

definition withAgent :: "nat \<Rightarrow> (TraceContext \<Rightarrow> TraceContext \<times> ev list) \<Rightarrow> 'l api \<Rightarrow> 'l api" where
  "withAgent a f w =
     (let (c, e) = f (agents w a) in w\<lparr>agents := (agents w)(a := c), evs := evs w @ e\<rparr>)"

definition Step :: "api_env \<Rightarrow> int \<Rightarrow> int \<Rightarrow> string \<Rightarrow> string \<Rightarrow> int \<Rightarrow> int \<Rightarrow> gctx \<Rightarrow> 'l api \<Rightarrow> string option \<times> 'l api" where
  "Step E g sysNow title message elapsed val c w =
     (if off E then (None, w)
      else (case GetTraceContext E g c w of
              (c1, None) \<Rightarrow> (Some ''Not found Txid '', w)
            | (c1, Some h) \<Rightarrow>
                (case Ctx (handles w h) of
                   None \<Rightarrow> (None, w)
                 | Some a \<Rightarrow> (None, withAgent a (ProfileMsg (agentEnv E) sysNow title message elapsed val) w))))"

text \<open>An error is given by the class name and the message the code computes from it; nil is None.\<close>

definition Error :: "api_env \<Rightarrow> int \<Rightarrow> int \<Rightarrow> thr option \<Rightarrow> gctx \<Rightarrow> 'l api \<Rightarrow> 'l api" where
  "Error E g sysNow err c w =
     (if off E then w
      else (case err of
              None \<Rightarrow> w
            | Some th \<Rightarrow>
                (case GetTraceContext E g c w of
                   (c1, None) \<Rightarrow> w\<lparr>evs := evs w @ ProfileError_nil (agentEnv E) th\<rparr>
                 | (c1, Some h) \<Rightarrow>
                     (case Ctx (handles w h) of
                        None \<Rightarrow> w
                      | Some a \<Rightarrow> withAgent a (ProfileError (agentEnv E) sysNow th) w))))"

text \<open>What \<open>End\<close> copies from the handle into the agent context.\<close>

definition endFields :: "'l TraceCtx \<Rightarrow> TraceContext \<Rightarrow> TraceContext" where
  "endFields t c =
     (let c1 = c\<lparr>Mtid := MTid t, Mdepth := MDepth t, McallerTxid := MCallerTxid t, McallerPoidKey := MCallerPoidKey t,
                 McallerSpec := MCallerSpec t, McallerUrl := MCallerUrl t, McallerStepId := MCallerStepId t,
                 Status := TraceCtx.Status t\<rparr>;
          c2 = SetExtraFieldString ''x-trace-id'' (MCallerTraceId t) c1;
          c3 = (if McallerTxid c2 = 0 \<and> McallerStepId c2 \<noteq> 0
                then SetExtraField ''x-parent-id'' (FDecimal (McallerStepId c2)) c2 else c2) in
      if IsLlm t \<noteq> 0 then SetExtraFieldString ''is-llm'' ''1'' c3 else c3)"

definition End :: "api_env \<Rightarrow> int \<Rightarrow> int \<Rightarrow> int \<Rightarrow> thr option \<Rightarrow> gctx \<Rightarrow> 'l api \<Rightarrow> string option \<times> 'l api" where
  "End E g sysNow now err c w =
     (if off E then (None, w)
      else (let w1 = Error E g sysNow err c w in
            case GetTraceContext E g c w1 of
              (c1, None) \<Rightarrow> (Some ''Not found Txid '', w1)
            | (c1, Some h) \<Rightarrow>
                (let t = handles w1 h in
                 case Ctx t of
                   None \<Rightarrow> (None, RemoveGIDTraceCtx E (GID t) w1)
                 | Some a \<Rightarrow>
                     (let w2 = withAgent a (\<lambda>x. EndTx (agentEnv E) (agentConf E) sysNow now (endFields t x)) w1;
                          w3 = w2\<lparr>llmOut := llmOut w2 @ [(TraceCtx.Txid t, LLMTx t)]\<rparr> in
                      (None, CloseTraceContext h (RemoveGIDTraceCtx E (GID t) w3))))))"

definition GetTxid :: "api_env \<Rightarrow> int \<Rightarrow> gctx \<Rightarrow> 'l api \<Rightarrow> int" where
  "GetTxid E g c w =
     (case snd (GetTraceContext E g c w) of Some h \<Rightarrow> TraceCtx.Txid (handles w h) | None \<Rightarrow> 0)"

definition newApi :: "'l api" where
  "newApi = \<lparr>handles = (\<lambda>_. NewTraceCtx), handlePool = [], handleNext = 0, agents = (\<lambda>_. Trace_Agent.NewTraceContext),
             agentPool = [], agentNext = 0, gids = (\<lambda>_. None), keyPos = 0, evs = [], llmOut = []\<rparr>"

subsection \<open>Transactions running side by side\<close>

text \<open>
  The program as a step relation: any number of transactions are open (\<open>live\<close>), each is used through the context
  \<open>Start\<close> returned for it and ended once, and the profile sender closes agent contexts whose transaction was sent
  (\<open>queued\<close>). Labels say which transaction a step belongs to.
\<close>

datatype label =
    LStart nat
  | LStep nat int string string int int
  | LError nat int thr
  | LEnd nat
  | LClose nat

record 'l sys =
  world :: "'l api"
  live :: "nat set"
  queued :: "nat set"

definition idle :: "api_env \<Rightarrow> int \<Rightarrow> gctx \<Rightarrow> 'l api \<Rightarrow> bool" where
  "idle E g c w \<longleftrightarrow>
     (case snd (GetTraceContext E g c w) of None \<Rightarrow> True | Some h \<Rightarrow> TraceCtx.Txid (handles w h) = 0)"

definition agentOf :: "'l api \<Rightarrow> nat \<Rightarrow> nat" where
  "agentOf w h = the (Ctx (handles w h))"

inductive api_step :: "api_env \<Rightarrow> 'l sys \<Rightarrow> label \<Rightarrow> 'l sys \<Rightarrow> bool" for E where
  start: "\<not> off E \<Longrightarrow> idle E g c (world s) \<Longrightarrow>
     Start E g sysNow picks name c (world s) = Inr (Context (Some h), w) \<Longrightarrow>
     api_step E s (LStart h) (s\<lparr>world := w, live := insert h (live s)\<rparr>)"
| step: "h \<in> live s \<Longrightarrow> Step E g sysNow title message elapsed val (Context (Some h)) (world s) = (r, w) \<Longrightarrow>
     api_step E s (LStep h sysNow title message elapsed val) (s\<lparr>world := w\<rparr>)"
| error: "h \<in> live s \<Longrightarrow> Error E g sysNow (Some th) (Context (Some h)) (world s) = w \<Longrightarrow>
     api_step E s (LError h sysNow th) (s\<lparr>world := w\<rparr>)"
| finish: "\<not> off E \<Longrightarrow> h \<in> live s \<Longrightarrow> End E g sysNow now err (Context (Some h)) (world s) = (r, w) \<Longrightarrow>
     api_step E s (LEnd h)
       \<lparr>world = w, live = live s - {h},
        queued = (if IsStaticContents (agents (world s) (agentOf (world s) h)) then queued s
                  else insert (agentOf (world s) h) (queued s))\<rparr>"
| close: "a \<in> queued s \<Longrightarrow>
     api_step E s (LClose a) (s\<lparr>world := agent_Close a (world s), queued := queued s - {a}\<rparr>)"

inductive runs :: "api_env \<Rightarrow> 'l sys \<Rightarrow> label list \<Rightarrow> 'l sys \<Rightarrow> bool" for E where
  nil: "runs E s [] s"
| snoc: "runs E s ls s' \<Longrightarrow> api_step E s' l s'' \<Longrightarrow> runs E s (ls @ [l]) s''"

definition fresh_handle :: "'l TraceCtx \<Rightarrow> bool" where
  "fresh_handle t \<longleftrightarrow> t = NewTraceCtx\<lparr>GID := GID t, MStepId := MStepId t\<rparr>"

definition fresh_agent :: "TraceContext \<Rightarrow> bool" where
  "fresh_agent c \<longleftrightarrow> c = Trace_Agent.NewTraceContext\<lparr>OriginURL := OriginURL c, AppCtx := AppCtx c\<rparr>"

text \<open>Nobody else holds the objects of an open transaction, and pooled objects are empty.\<close>

definition apart :: "'l sys \<Rightarrow> bool" where
  "apart s \<longleftrightarrow>
     (let w = world s in
      (\<forall>h\<in>live s. h < handleNext w \<and> h \<notin> set (handlePool w) \<and> Ctx (handles w h) \<noteq> None \<and>
         agentOf w h < agentNext w \<and> agentOf w h \<notin> set (agentPool w) \<and> agentOf w h \<notin> queued s) \<and>
      inj_on (agentOf w) (live s) \<and>
      distinct (handlePool w) \<and> (\<forall>h\<in>set (handlePool w). h < handleNext w \<and> fresh_handle (handles w h)) \<and>
      distinct (agentPool w) \<and> (\<forall>a\<in>set (agentPool w). a < agentNext w \<and> fresh_agent (agents w a)) \<and>
      (\<forall>a\<in>queued s. a < agentNext w \<and> a \<notin> set (agentPool w)))"

definition transaction :: "'l api \<Rightarrow> nat \<Rightarrow> 'l TraceCtx \<times> TraceContext" where
  "transaction w h = (handles w h, agents w (agentOf w h))"

fun own :: "api_env \<Rightarrow> nat \<Rightarrow> label \<Rightarrow> TraceContext \<Rightarrow> TraceContext" where
  "own E h (LStep h' now ti ms el va) c = (if h = h' \<and> \<not> off E then fst (ProfileMsg (agentEnv E) now ti ms el va c) else c)"
| "own E h (LError h' now th) c = (if h = h' \<and> \<not> off E then fst (ProfileError (agentEnv E) now th c) else c)"
| "own E h _ c = c"

lemma withAgent_fields [simp]:
  "handles (withAgent a f w) = handles w" "handlePool (withAgent a f w) = handlePool w"
  "handleNext (withAgent a f w) = handleNext w" "agentPool (withAgent a f w) = agentPool w"
  "agentNext (withAgent a f w) = agentNext w" "gids (withAgent a f w) = gids w" "keyPos (withAgent a f w) = keyPos w"
  "agents (withAgent a f w) = (agents w)(a := fst (f (agents w a)))" "evs (withAgent a f w) = evs w @ snd (f (agents w a))"
  "agentOf (withAgent a f w) h = agentOf w h"
  by (simp_all add: withAgent_def agentOf_def split: prod.splits)

lemma Step_live:
  assumes "Ctx (handles w h) \<noteq> None"
  shows "snd (Step E g now ti ms el va (Context (Some h)) w) =
     (if off E then w else withAgent (agentOf w h) (ProfileMsg (agentEnv E) now ti ms el va) w)"
  using assms by (auto simp: Step_def GetTraceContext_def agentOf_def)

lemma Error_live:
  assumes "Ctx (handles w h) \<noteq> None"
  shows "Error E g now (Some th) (Context (Some h)) w =
     (if off E then w else withAgent (agentOf w h) (ProfileError (agentEnv E) now th) w)"
  using assms by (auto simp: Error_def GetTraceContext_def agentOf_def)

lemma apart_withAgent:
  "apart s \<Longrightarrow> h \<in> live s \<Longrightarrow> apart (s\<lparr>world := withAgent (agentOf (world s) h) f (world s)\<rparr>)"
  by (auto simp: apart_def Let_def inj_on_def)

lemma transaction_withAgent:
  assumes "apart s" and "h \<in> live s" and "h' \<in> live s"
  shows "transaction (withAgent (agentOf (world s) h) f (world s)) h' =
     (handles (world s) h', if h' = h then fst (f (agents (world s) (agentOf (world s) h))) else agents (world s) (agentOf (world s) h'))"
  using assms by (auto simp: transaction_def apart_def Let_def inj_on_def)

subsection \<open>The effect of each operation\<close>

definition endError :: "api_env \<Rightarrow> int \<Rightarrow> thr option \<Rightarrow> TraceContext \<Rightarrow> TraceContext \<times> ev list" where
  "endError E now err c = (case err of None \<Rightarrow> (c, []) | Some th \<Rightarrow> ProfileError (agentEnv E) now th c)"

definition endBody :: "api_env \<Rightarrow> int \<Rightarrow> int \<Rightarrow> thr option \<Rightarrow> 'l TraceCtx \<Rightarrow> TraceContext \<Rightarrow> TraceContext \<times> ev list" where
  "endBody E sysNow now err t c =
     (let (c1, e1) = endError E sysNow err c;
          (c2, e2) = EndTx (agentEnv E) (agentConf E) sysNow now (endFields t c1) in (c2, e1 @ e2))"

lemma withAgent_twice: "withAgent a f (withAgent a g w) = withAgent a (\<lambda>c. let (c1, e1) = g c; (c2, e2) = f c1 in (c2, e1 @ e2)) w"
  by (simp add: withAgent_def Let_def split: prod.splits)

lemma withAgent_idle: "withAgent a (\<lambda>c. (c, [])) w = w"
  by (simp add: withAgent_def)

lemma Error_live_option:
  "\<not> off E \<Longrightarrow> Ctx (handles w h) \<noteq> None \<Longrightarrow>
   Error E g now err (Context (Some h)) w = withAgent (agentOf w h) (endError E now err) w"
  by (cases err) (auto simp: Error_def GetTraceContext_def agentOf_def withAgent_def endError_def)

lemma End_live:
  assumes "\<not> off E" and "Ctx (handles w h) \<noteq> None"
  shows "End E g sysNow now err (Context (Some h)) w =
     (None, CloseTraceContext h (RemoveGIDTraceCtx E (GID (handles w h))
        ((withAgent (agentOf w h) (endBody E sysNow now err (handles w h)) w)
           \<lparr>llmOut := llmOut w @ [(TraceCtx.Txid (handles w h), LLMTx (handles w h))]\<rparr>)))"
proof -
  obtain a where a: "Ctx (handles w h) = Some a" using assms(2) by auto
  then have ag: "agentOf w h = a" by (simp add: agentOf_def)
  have "Error E g sysNow err (Context (Some h)) w = withAgent a (endError E sysNow err) w"
    using Error_live_option [OF assms(1,2)] ag by simp
  moreover have "withAgent a (\<lambda>x. EndTx (agentEnv E) (agentConf E) sysNow now (endFields (handles w h) x)) (withAgent a (endError E sysNow err) w) =
     withAgent a (endBody E sysNow now err (handles w h)) w"
    by (simp add: withAgent_twice endBody_def [abs_def])
  moreover have "llmOut (withAgent a f w) = llmOut w" for f by (simp add: withAgent_def split: prod.splits)
  ultimately show ?thesis using assms(1) a ag by (simp add: End_def GetTraceContext_def Let_def)
qed

lemma RemoveGID_fields [simp]:
  "handles (RemoveGIDTraceCtx E g w) = handles w" "agents (RemoveGIDTraceCtx E g w) = agents w"
  "handlePool (RemoveGIDTraceCtx E g w) = handlePool w" "agentPool (RemoveGIDTraceCtx E g w) = agentPool w"
  "handleNext (RemoveGIDTraceCtx E g w) = handleNext w" "agentNext (RemoveGIDTraceCtx E g w) = agentNext w"
  "evs (RemoveGIDTraceCtx E g w) = evs w"
  by (simp_all add: RemoveGIDTraceCtx_def)

lemma End_fields:
  assumes "\<not> off E" and "Ctx (handles w h) \<noteq> None" and "End E g sysNow now err (Context (Some h)) w = (r, w')"
  shows "r = None" "handles w' = (handles w)(h := TraceCtx_Clear (handles w h))" "handlePool w' = handlePool w @ [h]"
    "handleNext w' = handleNext w" "agentPool w' = agentPool w" "agentNext w' = agentNext w"
    "agents w' = (agents w)(agentOf w h := fst (endBody E sysNow now err (handles w h) (agents w (agentOf w h))))"
    "evs w' = evs w @ snd (endBody E sysNow now err (handles w h) (agents w (agentOf w h)))"
  using assms End_live [OF assms(1,2)] by (auto simp: CloseTraceContext_def)

lemma poolGet_props:
  assumes "poolGet pick pool new = (x, pool', new')" and "distinct pool" and "\<forall>y\<in>set pool. y < new"
  shows "x \<notin> set pool'" "set pool' \<subseteq> set pool" "distinct pool'" "x < new'" "new \<le> new'" "x = new \<or> x \<in> set pool"
    "x = new \<Longrightarrow> new' = Suc new"
proof -
  have *: "x \<notin> set pool' \<and> set pool' \<subseteq> set pool \<and> distinct pool' \<and> x < new' \<and> new \<le> new' \<and> (x = new \<or> x \<in> set pool) \<and>
     (x = new \<longrightarrow> new' = Suc new)"
  proof (cases "\<exists>i. pick = Some i \<and> i < length pool")
    case True
    then obtain i where i: "pick = Some i" "i < length pool" by blast
    then have x: "x = pool ! i" "pool' = take i pool @ drop (Suc i) pool" "new' = new"
      using assms(1) by (auto simp: poolGet_def)
    have "distinct (take i pool @ pool ! i # drop (Suc i) pool)"
      using assms(2) i(2) by (simp add: id_take_nth_drop [symmetric])
    then have "x \<notin> set pool'" "distinct pool'" by (auto simp: x)
    moreover have "set pool' \<subseteq> set pool" unfolding x by (auto dest: in_set_takeD in_set_dropD)
    moreover have "x \<in> set pool" using i x by simp
    ultimately show ?thesis using assms(3) x(3) by auto
  next
    case False
    then have "x = new" "pool' = pool" "new' = Suc new"
      using assms(1) by (auto simp: poolGet_def split: option.splits if_splits)
    with assms(2,3) show ?thesis by auto
  qed
  then show "x \<notin> set pool'" "set pool' \<subseteq> set pool" "distinct pool'" "x < new'" "new \<le> new'" "x = new \<or> x \<in> set pool"
    "x = new \<Longrightarrow> new' = Suc new" by blast+
qed

lemma newStep_Ctx: "Ctx (fst (newStep lib (t, n))) = Ctx t" "TraceCtx.Txid (fst (newStep lib (t, n))) = TraceCtx.Txid t"
  by (simp_all add: newStep_def Let_def)

lemma UpdateMtrace_Ctx:
  assumes "UpdateMtrace lib conf hdr (t, n) = Inr (t', n')"
  shows "Ctx t' = Ctx t" "TraceCtx.Txid t' = TraceCtx.Txid t"
proof -
  have rp: "Ctx t1 = Ctx t \<and> TraceCtx.Txid t1 = TraceCtx.Txid t" if "readTraceparent lib conf h t = Inr (t1, b)" for h t1 b
    using that by (auto simp: readTraceparent_def Let_def split: if_splits)
  have rc: "Ctx (fst (readCaller lib conf h b t1)) = Ctx t1 \<and> TraceCtx.Txid (fst (readCaller lib conf h b t1)) = TraceCtx.Txid t1" for h b t1
    by (simp add: readCaller_def Let_def split: option.splits)
  have rs: "Ctx (readPoid conf h (readSpec lib conf h t2)) = Ctx t2 \<and>
     TraceCtx.Txid (readPoid conf h (readSpec lib conf h t2)) = TraceCtx.Txid t2" for h t2
    by (simp add: readPoid_def readSpec_def Let_def)
  have sm: "Ctx (fst (sampleMtid lib conf (t3, k))) = Ctx t3 \<and> TraceCtx.Txid (fst (sampleMtid lib conf (t3, k))) = TraceCtx.Txid t3" for t3 k
    by (simp add: sampleMtid_def)
  let ?h = "addAll hdr []"
  have "Ctx t' = Ctx t \<and> TraceCtx.Txid t' = TraceCtx.Txid t"
  proof (cases "disable conf \<or> \<not> MtraceEnabled conf")
    case True
    with assms show ?thesis by (auto simp: UpdateMtrace_def)
  next
    case False
    obtain t1 b where t1: "readTraceparent lib conf ?h t = Inr (t1, b)"
      using assms False by (cases "readTraceparent lib conf ?h t") (auto simp: UpdateMtrace_def Let_def)
    obtain t2 u where t2: "readCaller lib conf ?h b t1 = (t2, u)" by force
    define t3 where "t3 = (if u then readPoid conf ?h (readSpec lib conf ?h t2) else t2)"
    obtain t3' k where s: "sampleMtid lib conf (t3, n) = (t3', k)" by force
    obtain t4 k' where t4: "newStep lib (t3', k) = (t4, k')" by force
    have "Ctx t' = Ctx t4 \<and> TraceCtx.Txid t' = TraceCtx.Txid t4"
      using assms False t1 t2 s t4 by (auto simp: UpdateMtrace_def Let_def t3_def)
    moreover have "Ctx t4 = Ctx t3' \<and> TraceCtx.Txid t4 = TraceCtx.Txid t3'" using newStep_Ctx [of lib t3' k] t4 by simp
    moreover have "Ctx t3' = Ctx t3 \<and> TraceCtx.Txid t3' = TraceCtx.Txid t3" using sm [of t3 n] s by simp
    moreover have "Ctx t3 = Ctx t2 \<and> TraceCtx.Txid t3 = TraceCtx.Txid t2" using rs [of ?h t2] by (simp add: t3_def)
    ultimately show ?thesis using rp [OF t1] rc [of ?h b t1] t2 by simp
  qed
  then show "Ctx t' = Ctx t" "TraceCtx.Txid t' = TraceCtx.Txid t" by blast+
qed

text \<open>A new handle and its agent context come from the pools, empty but for the fields \<open>Clear\<close> forgets, or are new.\<close>

lemma agent_Pool_props:
  assumes "agent_Pool pick w = (a, w')" and "distinct (agentPool w)"
    and "\<forall>a\<in>set (agentPool w). a < agentNext w \<and> fresh_agent (agents w a)"
  shows "a \<notin> set (agentPool w')" "set (agentPool w') \<subseteq> set (agentPool w)" "distinct (agentPool w')" "a < agentNext w'"
    "agentNext w \<le> agentNext w'" "a = agentNext w \<or> a \<in> set (agentPool w)" "fresh_agent (agents w' a)"
    "\<And>b. b \<noteq> a \<Longrightarrow> agents w' b = agents w b" "handles w' = handles w" "handlePool w' = handlePool w"
    "handleNext w' = handleNext w" "keyPos w' = keyPos w" "evs w' = evs w"
proof -
  obtain pool new where p: "poolGet pick (agentPool w) (agentNext w) = (a, pool, new)"
    using assms(1) by (cases "poolGet pick (agentPool w) (agentNext w)") (auto simp: agent_Pool_def)
  then have w': "w' = w\<lparr>agents := (if a = agentNext w then (agents w)(a := Trace_Agent.NewTraceContext) else agents w),
                   agentPool := pool, agentNext := new\<rparr>"
    using assms(1) by (auto simp: agent_Pool_def)
  note pg = poolGet_props [OF p assms(2)]
  have n: "fresh_agent Trace_Agent.NewTraceContext" by (simp add: fresh_agent_def Trace_Agent.NewTraceContext_def)
  show "a \<notin> set (agentPool w')" "set (agentPool w') \<subseteq> set (agentPool w)" "distinct (agentPool w')" "a < agentNext w'"
    "agentNext w \<le> agentNext w'" "a = agentNext w \<or> a \<in> set (agentPool w)"
    using pg(1-6) assms(3) by (simp_all add: w')
  then show "fresh_agent (agents w' a)" using assms(3) n by (auto simp: w')
  show "\<And>b. b \<noteq> a \<Longrightarrow> agents w' b = agents w b" by (simp add: w')
qed (use assms(1) in \<open>auto simp: agent_Pool_def split: prod.splits\<close>)

lemma PoolTraceContext_props:
  assumes "PoolTraceContext pick w = (h, w')" and "distinct (handlePool w)"
    and "\<forall>h\<in>set (handlePool w). h < handleNext w \<and> fresh_handle (handles w h)"
  shows "h \<notin> set (handlePool w')" "set (handlePool w') \<subseteq> set (handlePool w)" "distinct (handlePool w')" "h < handleNext w'"
    "handleNext w \<le> handleNext w'" "h = handleNext w \<or> h \<in> set (handlePool w)" "fresh_handle (handles w' h)"
    "\<And>b. b \<noteq> h \<Longrightarrow> handles w' b = handles w b" "agents w' = agents w" "agentPool w' = agentPool w"
    "agentNext w' = agentNext w" "keyPos w' = keyPos w" "evs w' = evs w"
proof -
  obtain pool new where p: "poolGet pick (handlePool w) (handleNext w) = (h, pool, new)"
    using assms(1) by (cases "poolGet pick (handlePool w) (handleNext w)") (auto simp: PoolTraceContext_def)
  then have w': "w' = w\<lparr>handles := (if h = handleNext w then (handles w)(h := NewTraceCtx) else handles w),
                   handlePool := pool, handleNext := new\<rparr>"
    using assms(1) by (auto simp: PoolTraceContext_def)
  note pg = poolGet_props [OF p assms(2)]
  have n: "fresh_handle NewTraceCtx" by (simp add: fresh_handle_def NewTraceCtx_def)
  show "h \<notin> set (handlePool w')" "set (handlePool w') \<subseteq> set (handlePool w)" "distinct (handlePool w')" "h < handleNext w'"
    "handleNext w \<le> handleNext w'" "h = handleNext w \<or> h \<in> set (handlePool w)"
    using pg(1-6) assms(3) by (simp_all add: w')
  then show "fresh_handle (handles w' h)" using assms(3) n by (auto simp: w')
  show "\<And>b. b \<noteq> h \<Longrightarrow> handles w' b = handles w b" by (simp add: w')
qed (use assms(1) in \<open>auto simp: PoolTraceContext_def split: prod.splits\<close>)

lemma Start_idle:
  assumes "\<not> off E" and "idle E g c w" and "Start E g sysNow picks name c w = Inr (c', w')"
  obtains h w1 where "c' = Context (Some h)" "NewTraceContext E g picks w = (h, w1)"
    "startHandle E [] h name sysNow (\<lambda>x. x\<lparr>ServiceURL := Some (newURL E name)\<rparr>) w1 = Inr w'"
proof -
  obtain h w1 where n: "NewTraceContext E g picks w = (h, w1)" by force
  let ?s = "startHandle E [] h name sysNow (\<lambda>x. x\<lparr>ServiceURL := Some (newURL E name)\<rparr>) w1"
  have "Start E g sysNow picks name c w = bindGo ?s (\<lambda>w2. Inr (Context (Some h), w2))"
    using assms(1,2) n by (auto simp: Start_def Let_def idle_def split: prod.splits option.splits)
  with assms(3) have "c' = Context (Some h) \<and> ?s = Inr w'" by (auto simp: bindGo_Inr_iff)
  with n that show thesis by blast
qed

lemma AddGID_fields [simp]:
  "handles (AddGIDTraceCtx E g h w) = handles w" "agents (AddGIDTraceCtx E g h w) = agents w"
  "handlePool (AddGIDTraceCtx E g h w) = handlePool w" "agentPool (AddGIDTraceCtx E g h w) = agentPool w"
  "handleNext (AddGIDTraceCtx E g h w) = handleNext w" "agentNext (AddGIDTraceCtx E g h w) = agentNext w"
  "evs (AddGIDTraceCtx E g h w) = evs w" "keyPos (AddGIDTraceCtx E g h w) = keyPos w"
  by (simp_all add: AddGIDTraceCtx_def)

definition startedAgent :: "api_env \<Rightarrow> int \<Rightarrow> int \<Rightarrow> int \<Rightarrow> (TraceContext \<Rightarrow> TraceContext) \<Rightarrow> TraceContext \<Rightarrow> TraceContext \<times> ev list" where
  "startedAgent E k g sysNow prep base =
     StartTx (agentEnv E) (agentConf E) (prep (base\<lparr>Txid := k, ThreadId := g, StartTime := sysNow\<rparr>))"

text \<open>A successful start takes one handle and one agent context nobody uses and touches nothing else.\<close>

lemma fresh_effect:
  assumes n: "NewTraceContext E g picks w = (h, w1)" and s: "startHandle E hdr h name sysNow prep w1 = Inr w'"
    and hp: "distinct (handlePool w)" "\<forall>h\<in>set (handlePool w). h < handleNext w \<and> fresh_handle (handles w h)"
    and ap: "distinct (agentPool w)" "\<forall>a\<in>set (agentPool w). a < agentNext w \<and> fresh_agent (agents w a)"
  obtains a base t where
    "h = handleNext w \<or> h \<in> set (handlePool w)" "a = agentNext w \<or> a \<in> set (agentPool w)" "fresh_agent base"
    "Ctx t = Some a" "TraceCtx.Txid t = keygen (env_lib (agentEnv E)) (keyPos w)"
    "handles w' = (handles w)(h := t)"
    "agents w' = (agents w)(a := fst (startedAgent E (keygen (env_lib (agentEnv E)) (keyPos w)) g sysNow prep base))"
    "h \<notin> set (handlePool w')" "set (handlePool w') \<subseteq> set (handlePool w)" "distinct (handlePool w')" "h < handleNext w'" "handleNext w \<le> handleNext w'"
    "a \<notin> set (agentPool w')" "set (agentPool w') \<subseteq> set (agentPool w)" "distinct (agentPool w')" "a < agentNext w'" "agentNext w \<le> agentNext w'"
    "evs w' = evs w @ snd (startedAgent E (keygen (env_lib (agentEnv E)) (keyPos w)) g sysNow prep base)"
proof -
  let ?k = "keygen (env_lib (agentEnv E)) (keyPos w)"
  obtain h0 u where u: "PoolTraceContext (fst picks) w = (h0, u)" by force
  obtain a v where v: "agent_Pool (snd picks) u = (a, v)" by force
  note up = PoolTraceContext_props [OF u hp]
  have apu: "distinct (agentPool u)" "\<forall>a\<in>set (agentPool u). a < agentNext u \<and> fresh_agent (agents u a)"
    using ap up by simp_all
  note vp = agent_Pool_props [OF v apu]
  have h0: "h0 = h" and w1: "w1 = AddGIDTraceCtx E g h (v\<lparr>handles := (handles v)(h := (handles v h)\<lparr>TraceCtx.Txid := ?k, GID := g, Ctx := Some a\<rparr>),
                  agents := (agents v)(a := (agents v a)\<lparr>Txid := ?k, ThreadId := g\<rparr>), keyPos := Suc (keyPos v)\<rparr>)"
    using n u v up(12) vp(12) by (auto simp: NewTraceContext_def Let_def)
  obtain t m where t: "UpdateMtrace (env_lib (agentEnv E)) (mtraceConf E) hdr
      ((handles w1 h)\<lparr>Name := name, TraceCtx.StartTime := sysNow\<rparr>, keyPos w1) = Inr (t, m)"
    using s by (cases "UpdateMtrace (env_lib (agentEnv E)) (mtraceConf E) hdr
      ((handles w1 h)\<lparr>Name := name, TraceCtx.StartTime := sysNow\<rparr>, keyPos w1)") (auto simp: startHandle_def)
  have tc: "Ctx t = Some a" "TraceCtx.Txid t = ?k" using UpdateMtrace_Ctx [OF t] by (simp_all add: w1)
  have w': "w' = w1\<lparr>handles := (handles w1)(h := t), keyPos := m,
       agents := (agents w1)(a := fst (startedAgent E ?k g sysNow prep (agents v a))),
       evs := evs w1 @ snd (startedAgent E ?k g sysNow prep (agents v a))\<rparr>"
    using s t tc by (auto simp: startHandle_def startedAgent_def w1 split: prod.splits)
  have hs: "handles w' = (handles w)(h := t)" by (rule ext) (use up(8) vp(9) in \<open>simp add: w' w1 h0\<close>)
  have as: "agents w' = (agents w)(a := fst (startedAgent E ?k g sysNow prep (agents v a)))"
    by (rule ext) (use up(9) vp(8) in \<open>simp add: w' w1\<close>)
  show thesis
    by (rule that [OF _ _ _ tc hs as]; use up vp in \<open>simp add: w' w1 h0\<close>)
qed

lemma Start_effect:
  assumes "\<not> off E" and "idle E g c w" and "Start E g sysNow picks name c w = Inr (Context (Some h), w')"
    and hp: "distinct (handlePool w)" "\<forall>h\<in>set (handlePool w). h < handleNext w \<and> fresh_handle (handles w h)"
    and ap: "distinct (agentPool w)" "\<forall>a\<in>set (agentPool w). a < agentNext w \<and> fresh_agent (agents w a)"
  obtains a base t where "Ctx t = Some a" "TraceCtx.Txid t = keygen (env_lib (agentEnv E)) (keyPos w)" "handles w' = (handles w)(h := t)"
    "agents w' = (agents w)(a := fst (startedAgent E (keygen (env_lib (agentEnv E)) (keyPos w)) g sysNow (\<lambda>x. x\<lparr>ServiceURL := Some (newURL E name)\<rparr>) base))"
proof -
  from Start_idle [OF assms(1-3)] obtain w1 where
    n: "NewTraceContext E g picks w = (h, w1)" and
    s: "startHandle E [] h name sysNow (\<lambda>x. x\<lparr>ServiceURL := Some (newURL E name)\<rparr>) w1 = Inr w'" by auto
  show thesis by (rule fresh_effect [OF n s hp ap]) (rule that)
qed

definition steady :: "api_env \<Rightarrow> label \<Rightarrow> 'l sys \<Rightarrow> 'l sys \<Rightarrow> bool" where
  "steady E l s s' \<longleftrightarrow>
     (\<forall>h\<in>live s \<inter> live s'. transaction (world s') h =
        (fst (transaction (world s) h), own E h l (snd (transaction (world s) h))))"

lemma apartD:
  assumes "apart s" and "h \<in> live s"
  shows "h < handleNext (world s)" "h \<notin> set (handlePool (world s))" "Ctx (handles (world s) h) \<noteq> None"
    "agentOf (world s) h < agentNext (world s)" "agentOf (world s) h \<notin> set (agentPool (world s))" "agentOf (world s) h \<notin> queued s"
  using assms by (auto simp: apart_def Let_def)

lemma apart_pools:
  assumes "apart s"
  shows "distinct (handlePool (world s))" "\<forall>h\<in>set (handlePool (world s)). h < handleNext (world s) \<and> fresh_handle (handles (world s) h)"
    "distinct (agentPool (world s))" "\<forall>a\<in>set (agentPool (world s)). a < agentNext (world s) \<and> fresh_agent (agents (world s) a)"
    "\<forall>a\<in>queued s. a < agentNext (world s) \<and> a \<notin> set (agentPool (world s))" "inj_on (agentOf (world s)) (live s)"
  using assms by (auto simp: apart_def Let_def)

lemma fresh_apart:
  assumes "apart s" and "NewTraceContext E g picks (world s) = (h, w1)" and "startHandle E hdr h name sysNow prep w1 = Inr w"
  shows "h \<notin> live s" "apart (s\<lparr>world := w, live := insert h (live s)\<rparr>)" "steady E (LStart h) s (s\<lparr>world := w, live := insert h (live s)\<rparr>)"
proof -
  note ps = apart_pools [OF assms(1)]
  note ld = apartD [OF assms(1)]
  obtain a base t where
    h: "h = handleNext (world s) \<or> h \<in> set (handlePool (world s))" and a: "a = agentNext (world s) \<or> a \<in> set (agentPool (world s))"
    and "fresh_agent base" and t: "Ctx t = Some a" and "TraceCtx.Txid t = keygen (env_lib (agentEnv E)) (keyPos (world s))"
    and hs: "handles w = (handles (world s))(h := t)"
    and as': "agents w = (agents (world s))(a := fst (startedAgent E (keygen (env_lib (agentEnv E)) (keyPos (world s))) g sysNow prep base))"
    and hp: "h \<notin> set (handlePool w)" "set (handlePool w) \<subseteq> set (handlePool (world s))" "distinct (handlePool w)" "h < handleNext w" "handleNext (world s) \<le> handleNext w"
    and ap: "a \<notin> set (agentPool w)" "set (agentPool w) \<subseteq> set (agentPool (world s))" "distinct (agentPool w)" "a < agentNext w" "agentNext (world s) \<le> agentNext w"
    and "evs w = evs (world s) @ snd (startedAgent E (keygen (env_lib (agentEnv E)) (keyPos (world s))) g sysNow prep base)"
    by (rule fresh_effect [OF assms(2,3) ps(1-4)])
  have as: "\<And>b. b \<noteq> a \<Longrightarrow> agents w b = agents (world s) b" by (simp add: as')
  show nl: "h \<notin> live s" using h ld(1,2) by blast
  have na: "a \<noteq> agentOf (world s) b" if "b \<in> live s" for b using a ld(4,5) [OF that] by auto
  have nq: "a \<notin> queued s" using a ps(5) by auto
  have ag: "agentOf w b = (if b = h then a else agentOf (world s) b)" for b using hs t by (simp add: agentOf_def)
  have tr: "transaction w b = transaction (world s) b" if "b \<in> live s" for b
    using that nl na [OF that] by (auto simp: transaction_def hs ag as)
  then show "steady E (LStart h) s (s\<lparr>world := w, live := insert h (live s)\<rparr>)" by (auto simp: steady_def)
  have 1: "b < handleNext w \<and> b \<notin> set (handlePool w) \<and> Ctx (handles w b) \<noteq> None \<and> agentOf w b < agentNext w \<and>
      agentOf w b \<notin> set (agentPool w) \<and> agentOf w b \<notin> queued s" if "b \<in> insert h (live s)" for b
    using that nl t hp ap nq ld [of b] by (cases "b = h") (auto simp: hs ag)
  have 2: "inj_on (agentOf w) (insert h (live s))"
    using ps(6) na nl by (auto simp: inj_on_def ag)
  have 3: "b < handleNext w \<and> fresh_handle (handles w b)" if "b \<in> set (handlePool w)" for b
  proof -
    from that hp have "b \<noteq> h" "b \<in> set (handlePool (world s))" by auto
    with ps(2) hp(5) show ?thesis by (auto simp: hs)
  qed
  have 4: "b < agentNext w \<and> fresh_agent (agents w b)" if "b \<in> set (agentPool w)" for b
  proof -
    from that ap have "b \<noteq> a" "b \<in> set (agentPool (world s))" by auto
    with ps(4) ap(5) as show ?thesis by auto
  qed
  have 5: "b < agentNext w \<and> b \<notin> set (agentPool w)" if "b \<in> queued s" for b
    using bspec [OF ps(5) that] ap(2,5) by auto
  show "apart (s\<lparr>world := w, live := insert h (live s)\<rparr>)"
    using 1 2 3 4 5 hp(3) ap(3) by (simp add: apart_def Let_def)
qed

lemma start_apart:
  assumes "apart s" and "\<not> off E" and "idle E g c (world s)"
    and "Start E g sysNow picks name c (world s) = Inr (Context (Some h), w)"
  shows "apart (s\<lparr>world := w, live := insert h (live s)\<rparr>)" "steady E (LStart h) s (s\<lparr>world := w, live := insert h (live s)\<rparr>)"
proof -
  from Start_idle [OF assms(2-4)] obtain w1 where
    n: "NewTraceContext E g picks (world s) = (h, w1)" and
    s: "startHandle E [] h name sysNow (\<lambda>x. x\<lparr>ServiceURL := Some (newURL E name)\<rparr>) w1 = Inr w" by auto
  show "apart (s\<lparr>world := w, live := insert h (live s)\<rparr>)" "steady E (LStart h) s (s\<lparr>world := w, live := insert h (live s)\<rparr>)"
    using fresh_apart(2,3) [OF assms(1) n s] by auto
qed

lemma end_apart:
  assumes "apart s" and "\<not> off E" and "h \<in> live s"
    and "End E g sysNow now err (Context (Some h)) (world s) = (r, w)"
    and "queued' = queued s \<or> queued' = insert (agentOf (world s) h) (queued s)"
  shows "apart \<lparr>world = w, live = live s - {h}, queued = queued'\<rparr>"
    and "steady E (LEnd h) s \<lparr>world = w, live = live s - {h}, queued = queued'\<rparr>"
proof -
  note ps = apart_pools [OF assms(1)]
  note ld = apartD [OF assms(1)]
  note ef = End_fields [OF assms(2) ld(3) [OF assms(3)] assms(4)]
  let ?a = "agentOf (world s) h"
  have ne: "agentOf (world s) b \<noteq> ?a" if "b \<in> live s - {h}" for b using that ps(6) assms(3) by (auto simp: inj_on_def)
  have ag: "agentOf w b = agentOf (world s) b" if "b \<noteq> h" for b using that by (simp add: agentOf_def ef(2))
  have tr: "transaction w b = transaction (world s) b" if "b \<in> live s - {h}" for b
    using that ne [OF that] ag by (simp add: transaction_def ef(2,7))
  then show "steady E (LEnd h) s \<lparr>world = w, live = live s - {h}, queued = queued'\<rparr>" by (auto simp: steady_def)
  have cl: "fresh_handle (TraceCtx_Clear t)" for t :: "'a TraceCtx" by (simp add: fresh_handle_def TraceCtx_Clear_def NewTraceCtx_def)
  have 1: "b < handleNext w \<and> b \<notin> set (handlePool w) \<and> Ctx (handles w b) \<noteq> None \<and> agentOf w b < agentNext w \<and>
      agentOf w b \<notin> set (agentPool w) \<and> agentOf w b \<notin> queued'" if "b \<in> live s - {h}" for b
    using that ld [of b] ne [OF that] ag [of b] assms(5) by (auto simp: ef(2-6))
  have 2: "inj_on (agentOf w) (live s - {h})" using ps(6) ag by (auto simp: inj_on_def)
  have 3: "b < handleNext w \<and> fresh_handle (handles w b)" if "b \<in> set (handlePool w)" for b
    using that ps(2) ld(1) [OF assms(3)] cl by (auto simp: ef(2-4))
  have 4: "b < agentNext w \<and> fresh_agent (agents w b)" if "b \<in> set (agentPool w)" for b
    using that ps(4) ld(5) [OF assms(3)] by (auto simp: ef(5-7))
  have 5: "b < agentNext w \<and> b \<notin> set (agentPool w)" if "b \<in> queued'" for b
    using that ps(5) assms(5) ld(4,5) [OF assms(3)] by (auto simp: ef(5,6))
  show "apart \<lparr>world = w, live = live s - {h}, queued = queued'\<rparr>"
    using 1 2 3 4 5 ps(1,3) ld(2) [OF assms(3)] by (simp add: apart_def Let_def ef(3,5))
qed

lemma close_apart:
  assumes "apart s" and "a \<in> queued s"
  shows "apart (s\<lparr>world := agent_Close a (world s), queued := queued s - {a}\<rparr>)"
    and "steady E (LClose a) s (s\<lparr>world := agent_Close a (world s), queued := queued s - {a}\<rparr>)"
proof -
  note ps = apart_pools [OF assms(1)]
  note ld = apartD [OF assms(1)]
  let ?w = "agent_Close a (world s)"
  have ne: "agentOf (world s) h \<noteq> a" if "h \<in> live s" for h using ld(6) [OF that] assms(2) by auto
  have ag: "agentOf ?w h = agentOf (world s) h" for h by (simp add: agentOf_def agent_Close_def)
  then show "steady E (LClose a) s (s\<lparr>world := ?w, queued := queued s - {a}\<rparr>)"
    using ne by (auto simp: steady_def transaction_def agent_Close_def)
  have cl: "fresh_agent (TraceContext_Clear c)" for c
    by (simp add: fresh_agent_def TraceContext_Clear_def Trace_Agent.NewTraceContext_def)
  have 1: "h < handleNext ?w \<and> h \<notin> set (handlePool ?w) \<and> Ctx (handles ?w h) \<noteq> None \<and> agentOf ?w h < agentNext ?w \<and>
      agentOf ?w h \<notin> set (agentPool ?w) \<and> agentOf ?w h \<notin> queued s - {a}" if "h \<in> live s" for h
    using ld [OF that] ne [OF that] ag by (simp add: agent_Close_def)
  have "\<forall>b\<in>set (agentPool ?w). b < agentNext ?w \<and> fresh_agent (agents ?w b)"
    using ps(4,5) assms(2) cl by (auto simp: agent_Close_def)
  moreover have "distinct (agentPool ?w)" using ps(3,5) assms(2) by (auto simp: agent_Close_def)
  moreover have "inj_on (agentOf ?w) (live s)" using ps(6) ag by (simp add: inj_on_def)
  moreover have "\<forall>b\<in>queued s - {a}. b < agentNext ?w \<and> b \<notin> set (agentPool ?w)"
    using ps(5) by (auto simp: agent_Close_def)
  moreover have "distinct (handlePool ?w)" "\<forall>h\<in>set (handlePool ?w). h < handleNext ?w \<and> fresh_handle (handles ?w h)"
    using ps(1,2) by (auto simp: agent_Close_def)
  ultimately show "apart (s\<lparr>world := ?w, queued := queued s - {a}\<rparr>)"
    using 1 by (simp add: apart_def Let_def)
qed

lemma step_apart:
  assumes "apart s" and "h \<in> live s"
    and w: "w = (if off E then world s else withAgent (agentOf (world s) h) f (world s))"
    and l: "\<And>c. own E h l c = (if off E then c else fst (f c))" "\<And>h' c. h' \<noteq> h \<Longrightarrow> own E h' l c = c"
  shows "apart (s\<lparr>world := w\<rparr>) \<and> steady E l s (s\<lparr>world := w\<rparr>)"
proof (cases "off E")
  case True
  have e: "s\<lparr>world := w\<rparr> = s" using True by (simp add: w)
  have "own E h' l c = c" for h' c using True l by (cases "h' = h") auto
  then show ?thesis unfolding e using assms(1) by (simp add: steady_def)
next
  case False
  then have w': "w = withAgent (agentOf (world s) h) f (world s)" using w by auto
  have "transaction w h' = (fst (transaction (world s) h'), own E h' l (snd (transaction (world s) h')))" if "h' \<in> live s" for h'
    using transaction_withAgent [OF assms(1,2) that, of f] False l unfolding w' by (auto simp: transaction_def)
  then have "steady E l s (s\<lparr>world := w\<rparr>)" by (simp add: steady_def)
  with apart_withAgent [OF assms(1,2), of f] show ?thesis by (simp add: w')
qed

lemma api_step_ok: "api_step E s l s' \<Longrightarrow> apart s \<Longrightarrow> apart s' \<and> steady E l s s'"
proof (induction rule: api_step.induct)
  case (start g c s sysNow picks name h w)
  then show ?case using start_apart [OF start.prems start.hyps] by simp
next
  case (step h s g sysNow title message elapsed val r w)
  have "w = snd (Step E g sysNow title message elapsed val (Context (Some h)) (world s))" using step.hyps by simp
  then have "w = (if off E then world s else withAgent (agentOf (world s) h) (ProfileMsg (agentEnv E) sysNow title message elapsed val) (world s))"
    using Step_live [OF apartD(3) [OF step.prems step.hyps(1)]] by simp
  then show ?case by (intro step_apart [OF step.prems step.hyps(1)]) auto
next
  case (error h s g sysNow th w)
  have "w = (if off E then world s else withAgent (agentOf (world s) h) (ProfileError (agentEnv E) sysNow th) (world s))"
    using Error_live [OF apartD(3) [OF error.prems error.hyps(1)]] error.hyps(2) by simp
  then show ?case by (intro step_apart [OF error.prems error.hyps(1)]) auto
next
  case (finish h s g sysNow now err r w)
  then show ?case using end_apart [OF finish.prems finish.hyps] by simp
next
  case (close a s)
  then show ?case using close_apart by blast
qed

lemma api_step_live: "api_step E s l s' \<Longrightarrow> h \<in> live s \<Longrightarrow> l \<noteq> LEnd h \<Longrightarrow> h \<in> live s'"
  by (induction rule: api_step.induct) auto

lemma runs_ok:
  assumes "runs E s ls s'" and "apart s"
  shows "apart s' \<and> (\<forall>h\<in>live s. LEnd h \<notin> set ls \<longrightarrow> h \<in> live s' \<and>
     transaction (world s') h = (fst (transaction (world s) h), fold (own E h) ls (snd (transaction (world s) h))))"
  using assms
proof (induction rule: runs.induct)
  case (snoc s ls s' l s'')
  from snoc have ih: "apart s'" "\<And>h. h \<in> live s \<Longrightarrow> LEnd h \<notin> set ls \<Longrightarrow> h \<in> live s' \<and>
     transaction (world s') h = (fst (transaction (world s) h), fold (own E h) ls (snd (transaction (world s) h)))" by blast+
  have ok: "apart s''" "steady E l s' s''" using api_step_ok [OF snoc.hyps(2) ih(1)] by blast+
  have "h \<in> live s'' \<and> transaction (world s'') h =
      (fst (transaction (world s) h), fold (own E h) (ls @ [l]) (snd (transaction (world s) h)))"
    if "h \<in> live s" "LEnd h \<notin> set (ls @ [l])" for h
  proof -
    from that have h: "h \<in> live s'" "l \<noteq> LEnd h" and
      tr: "transaction (world s') h = (fst (transaction (world s) h), fold (own E h) ls (snd (transaction (world s) h)))"
      using ih(2) by auto
    have "h \<in> live s''" by (rule api_step_live [OF snoc.hyps(2) h])
    with ok(2) h(1) tr show ?thesis by (simp add: steady_def)
  qed
  with ok(1) show ?case by blast
qed (simp add: transaction_def)

definition sys0 :: "'l sys" where
  "sys0 = \<lparr>world = newApi, live = {}, queued = {}\<rparr>"

lemma apart_sys0: "apart sys0"
  by (simp add: apart_def sys0_def newApi_def)

lemma reachable_apart: "runs E sys0 ls s \<Longrightarrow> apart s"
  using runs_ok apart_sys0 by blast

subsection \<open>What is sent for a transaction\<close>

definition sentTx :: "ev list \<Rightarrow> TraceContext list" where
  "sentTx es = concat (map (\<lambda>e. case e of SendTransaction x \<Rightarrow> [x] | _ \<Rightarrow> []) es)"

fun ownCalls :: "api_env \<Rightarrow> nat \<Rightarrow> int \<Rightarrow> label \<Rightarrow> pcall list" where
  "ownCalls E h st (LStep h' now ti ms el va) =
     (if h = h' \<and> \<not> off E
      then [PAdd (MessageStep (i32 (now - st)) (i32 el) (i32 (hashOf (agentEnv E) ti)) (i32 va) ms)] else [])"
| "ownCalls E h st (LError h' now th) =
     (if h = h' \<and> \<not> off E \<and> \<not> env_ignoreException (agentEnv E) th
      then [PAddHeavy (MessageStep (i32 (now - st)) 0 (hashOf (agentEnv E) ''ERROR'') 0
              (env_trimEmpty (agentEnv E) (ErrorClassName th @ ''-'' @ ErrorMessage th)))] else [])"
| "ownCalls E h st _ = []"

lemma own_fields:
  "Profile (own E h l c) = Profile c @ ownCalls E h (StartTime c) l" "StartTime (own E h l c) = StartTime c"
  "Txid (own E h l c) = Txid c" "IsStaticContents (own E h l c) = IsStaticContents c"
  by (cases l; simp add: ProfileMsg_def ProfileError_def Let_def)+

lemma fold_own_fields:
  "Profile (fold (own E h) ls c) = Profile c @ concat (map (ownCalls E h (StartTime c)) ls) \<and>
   StartTime (fold (own E h) ls c) = StartTime c \<and> Txid (fold (own E h) ls c) = Txid c \<and>
   IsStaticContents (fold (own E h) ls c) = IsStaticContents c"
  by (induction ls arbitrary: c) (simp_all add: own_fields)

lemma sentTx_simps [simp]:
  "sentTx (xs @ ys) = sentTx xs @ sentTx ys" "sentTx [] = []"
  "sentTx (ProfileError_nil env th) = []" "sentTx (snd (ProfileError env now th c)) = []"
  by (simp_all add: sentTx_def ProfileError_nil_def ProfileError_def Let_def)

lemma endFields_same [simp]:
  "Profile (endFields t c) = Profile c" "Txid (endFields t c) = Txid c" "StartTime (endFields t c) = StartTime c"
  "IsStaticContents (endFields t c) = IsStaticContents c"
  by (simp_all add: endFields_def SetExtraField_def SetExtraFieldString_def Let_def)

lemma EndTx_sent:
  "\<exists>x. sentTx (snd (EndTx env conf sysNow now c)) = (if IsStaticContents c then [] else [x]) \<and> Txid x = Txid c \<and>
     Profile x = Profile c"
  by (auto simp: EndTx_def Let_def sentTx_def)

definition errLabel :: "nat \<Rightarrow> int \<Rightarrow> thr option \<Rightarrow> label list" where
  "errLabel h now err = (case err of None \<Rightarrow> [] | Some th \<Rightarrow> [LError h now th])"

lemma endError_own: "\<not> off E \<Longrightarrow> fst (endError E now err c) = fold (own E h) (errLabel h now err) c"
  "sentTx (snd (endError E now err c)) = []"
  by (cases err; simp add: endError_def errLabel_def)+

lemma endBody_sent:
  assumes "\<not> off E"
  shows "\<exists>x. sentTx (snd (endBody E sysNow now err t c)) = (if IsStaticContents c then [] else [x]) \<and> Txid x = Txid c \<and>
     Profile x = Profile c @ concat (map (ownCalls E h (StartTime c)) (errLabel h sysNow err))"
proof -
  obtain c1 e1 where e: "endError E sysNow err c = (c1, e1)" by force
  have c1: "c1 = fold (own E h) (errLabel h sysNow err) c" "sentTx e1 = []"
    using endError_own(1) [OF assms, of sysNow err c h] endError_own(2) [of E sysNow err c] e by simp_all
  from EndTx_sent [of "agentEnv E" "agentConf E" sysNow now "endFields t c1"] obtain x where
    "sentTx (snd (EndTx (agentEnv E) (agentConf E) sysNow now (endFields t c1))) = (if IsStaticContents c1 then [] else [x])"
    "Txid x = Txid c1" "Profile x = Profile c1" by auto
  moreover have "snd (endBody E sysNow now err t c) = e1 @ snd (EndTx (agentEnv E) (agentConf E) sysNow now (endFields t c1))"
    by (simp add: endBody_def e split: prod.splits)
  ultimately show ?thesis
    using fold_own_fields [of E h "errLabel h sysNow err" c] c1 by (intro exI [of _ x]) simp
qed

subsection \<open>Properties\<close>


definition apiEnv1 :: api_env where
  "apiEnv1 = \<lparr>agentEnv = agentEnv1, agentConf = agentConf1, mtraceConf = mconf1\<lparr>MtraceEnabled := False\<rparr>, Enabled = True,
     GoUseGoroutineIDEnabled = True, newURL = (\<lambda>s. \<lparr>Path = s, UrlHost = [], HostPort = []\<rparr>)\<rparr>"

lemma on1: "\<not> off apiEnv1"
  by (simp add: apiEnv1_def mconf1_def)

lemma start1: "\<exists>w. Start apiEnv1 7 100 (None, None) ''/a'' NilContext newApi = Inr (Context (Some 0), (w :: unit api)) \<and>
   handles w 0 = NewTraceCtx\<lparr>TraceCtx.Txid := 1, GID := 7, Ctx := Some 0, Name := ''/a'', TraceCtx.StartTime := 100\<rparr> \<and>
   Profile (agents w 0) = [] \<and> StartTime (agents w 0) = 100 \<and> Txid (agents w 0) = 1 \<and> \<not> IsStaticContents (agents w 0)"
  by (simp add: Start_def NewTraceContext_def PoolTraceContext_def agent_Pool_def poolGet_def GetTraceContext_def GetGIDTraceCtx_def
    AddGIDTraceCtx_def startHandle_def UpdateMtrace_def StartTx_def startName_def startUrl_def startHost_def startRegister_def
    apiEnv1_def agentEnv1_def agentConf1_def mconf1_def lib1_def newApi_def NewTraceCtx_def Trace_Agent.NewTraceContext_def hashOf_def Let_def)


text \<open>\<open>StartTx\<close> keeps the id and, whatever it does afterwards, a context started from an empty one.\<close>

lemma sentTx_none: "(\<And>x. SendTransaction x \<notin> set es) \<Longrightarrow> sentTx es = []"
proof -
  assume none: "\<And>x. SendTransaction x \<notin> set es"
  have "(case e of SendTransaction x \<Rightarrow> [x] | _ \<Rightarrow> []) = []" if "e \<in> set es" for e by (rule ev.exhaust [of e]) (use that none in auto)
  then show ?thesis by (simp add: sentTx_def)
qed

lemma StartTx_fields:
  "Txid (fst (StartTx env conf c)) = Txid c \<and> StartTime (fst (StartTx env conf c)) = StartTime c \<and>
   (\<forall>x. SendTransaction x \<notin> set (snd (StartTx env conf c)))"
proof (cases rule: StartTx_cases [of env conf c])
  case (1 c1 e1)
  then show ?thesis using startName_fields [where env = env and conf = conf and c = c] by simp
next
  case (2 c1 e1 u c2 e2)
  then show ?thesis
    using startName_fields [where env = env and conf = conf and c = c] startHost_fields [where env = env and conf = conf and u = u and c = "startUrl env conf u (ServiceName c1) c1"] by simp
next
  case (3 c1 e1 u c2 e2 c3 e3 hr)
  then have r: "Txid c3 = Txid c2" "StartTime c3 = StartTime c2" "\<And>x. SendTransaction x \<notin> set e3"
    by (auto simp: startRegister_def)
  from 3 show ?thesis
    using r startName_fields [where env = env and conf = conf and c = c] startHost_fields [where env = env and conf = conf and u = u and c = "startUrl env conf u (ServiceName c1) c1"] by auto
qed

text \<open>A context used after its transaction has ended can end somebody else's transaction. \<open>End\<close> puts the handle
  back into the pool while the caller's context still points to it. When the next \<open>Start\<close>, of any goroutine, takes
  that handle from the pool, the old context and the new one hold the same handle: a second \<open>End\<close> on the old
  context ends the new transaction, and sends it if it is not static content.\<close>
theorem stale_context_ends_other:
  assumes "runs E sys0 ls s" and "h \<in> live s" and "\<not> off E"
    and "End E g n1 n2 err (Context (Some h)) (world s) = (r, w1)"
    and "idle E g' c w1" and "Start E g' n3 (Some (length (handlePool (world s))), p) name c w1 = Inr (c', w2)"
    and "End E g n4 n5 None (Context (Some h)) w2 = (r', w3)"
  shows "c' = Context (Some h) \<and> GetTxid E g (Context (Some h)) w2 = keygen (env_lib (agentEnv E)) (keyPos w1) \<and>
     (\<exists>x. sentTx (evs w3) = sentTx (evs w2) @ (if IsStaticContents (agents w2 (agentOf w2 h)) then [] else [x]) \<and>
        Txid x = keygen (env_lib (agentEnv E)) (keyPos w1))"
proof -
  have ap: "apart s" by (rule reachable_apart [OF assms(1)])
  note ef = End_fields [OF assms(3) apartD(3) [OF ap assms(2)] assms(4)]
  from end_apart(1) [OF ap assms(3,2,4), of "queued s"] have
    ap1: "apart \<lparr>world = w1, live = live s - {h}, queued = queued s\<rparr>" by simp
  from Start_idle [OF assms(3,5,6)] obtain h' v where c': "c' = Context (Some h')"
    and n: "NewTraceContext E g' (Some (length (handlePool (world s))), p) w1 = (h', v)" by metis
  have "fst (PoolTraceContext (Some (length (handlePool (world s)))) w1) = h"
    by (simp add: PoolTraceContext_def poolGet_def ef(3))
  with n have h': "h' = h" by (auto simp: NewTraceContext_def Let_def split: prod.splits)
  note st = assms(6) [unfolded c' h']
  have pools: "distinct (handlePool w1)" "\<forall>h\<in>set (handlePool w1). h < handleNext w1 \<and> fresh_handle (handles w1 h)"
    "distinct (agentPool w1)" "\<forall>a\<in>set (agentPool w1). a < agentNext w1 \<and> fresh_agent (agents w1 a)"
    using apart_pools(1-4) [OF ap1] by simp_all
  obtain a base t where eff: "Ctx t = Some a" "TraceCtx.Txid t = keygen (env_lib (agentEnv E)) (keyPos w1)"
    "handles w2 = (handles w1)(h := t)"
    "agents w2 = (agents w1)(a := fst (startedAgent E (keygen (env_lib (agentEnv E)) (keyPos w1)) g' n3 (\<lambda>x. x\<lparr>ServiceURL := Some (newURL E name)\<rparr>) base))"
    by (rule Start_effect [OF assms(3,5) st pools]) (rule that)
  have ctx: "Ctx (handles w2 h) \<noteq> None" "agentOf w2 h = a" using eff by (simp_all add: agentOf_def)
  have tx: "Txid (agents w2 a) = keygen (env_lib (agentEnv E)) (keyPos w1)"
    using eff(4) by (simp add: startedAgent_def StartTx_fields)
  note e3 = End_fields [OF assms(3) ctx(1) assms(7)]
  from endBody_sent [OF assms(3), of n4 n5 None "handles w2 h" "agents w2 a" h]
  show ?thesis using e3(8) ctx tx eff c' h' by (auto simp: GetTxid_def GetTraceContext_def)
qed

lemma Start_returns:
  assumes "\<not> off E" and "idle E g c w" and "\<not> MtraceEnabled (mtraceConf E)"
  shows "\<exists>c' w'. Start E g sysNow picks name c w = Inr (c', w')"
proof -
  obtain h w1 where n: "NewTraceContext E g picks w = (h, w1)" by force
  have "Ctx (handles w1 h) \<noteq> None"
    using n by (auto simp: NewTraceContext_def Let_def split: prod.splits)
  then obtain a where "Ctx (handles w1 h) = Some a" by auto
  then have "\<exists>w'. startHandle E [] h name sysNow (\<lambda>x. x\<lparr>ServiceURL := Some (newURL E name)\<rparr>) w1 = Inr w'"
    using assms(3) by (simp add: startHandle_def UpdateMtrace_def split: prod.splits)
  with assms(1,2) n show ?thesis
    by (auto simp: Start_def Let_def idle_def split: prod.splits option.splits)
qed

theorem stale_context_ends_other_witness:
  "\<exists>(w :: unit api) w1 w2 w3 (x :: TraceContext).
     Start apiEnv1 7 100 (None, None) ''/a'' NilContext newApi = Inr (Context (Some 0), w) \<and>
     End apiEnv1 7 120 120 None (Context (Some 0)) w = (None, w1) \<and>
     Start apiEnv1 8 130 (Some 0, None) ''/b'' NilContext w1 = Inr (Context (Some 0), w2) \<and>
     snd (End apiEnv1 7 140 140 None (Context (Some 0)) w2) = w3 \<and>
     GetTxid apiEnv1 7 (Context (Some 0)) w2 = keygen lib1 (keyPos w1)"
proof -
  obtain w :: "unit api" where st: "Start apiEnv1 7 100 (None, None) ''/a'' NilContext newApi = Inr (Context (Some 0), w)"
    and h: "handles w 0 = NewTraceCtx\<lparr>TraceCtx.Txid := 1, GID := 7, Ctx := Some 0, Name := ''/a'', TraceCtx.StartTime := 100\<rparr>"
    using start1 by blast
  let ?s = "\<lparr>world = w, live = {0}, queued = {}\<rparr>"
  let ?init = "sys0 :: unit sys"
  have i0: "idle apiEnv1 7 NilContext (world ?init)"
    by (simp add: idle_def GetTraceContext_def GetGIDTraceCtx_def sys0_def newApi_def)
  have "api_step apiEnv1 ?init (LStart 0) (?init\<lparr>world := w, live := insert 0 (live ?init)\<rparr>)"
    by (rule api_step.start [OF on1 i0]) (use st in \<open>simp add: sys0_def\<close>)
  from runs.snoc [OF runs.nil this] have r1: "runs apiEnv1 sys0 ([] @ [LStart 0]) ?s" by (simp add: sys0_def)
  obtain r w1 where e1: "End apiEnv1 7 120 120 None (Context (Some 0)) w = (r, w1)" by force
  have ctx: "Ctx (handles w 0) \<noteq> None" by (simp add: h)
  have pool: "handlePool w = []"
    using st by (simp add: Start_def NewTraceContext_def PoolTraceContext_def agent_Pool_def poolGet_def GetTraceContext_def GetGIDTraceCtx_def
      AddGIDTraceCtx_def startHandle_def UpdateMtrace_def apiEnv1_def mconf1_def newApi_def NewTraceCtx_def Let_def split: prod.splits)
      auto
  note ef = End_fields [OF on1 ctx e1]
  have "gids w1 8 = None"
    using e1 End_live [OF on1 ctx, of 7 120 120 None] st
    by (auto simp: CloseTraceContext_def RemoveGIDTraceCtx_def withAgent_def Start_def NewTraceContext_def PoolTraceContext_def agent_Pool_def poolGet_def
      GetTraceContext_def GetGIDTraceCtx_def AddGIDTraceCtx_def startHandle_def UpdateMtrace_def apiEnv1_def mconf1_def newApi_def NewTraceCtx_def Let_def
      split: prod.splits)
  then have i1: "idle apiEnv1 8 NilContext w1" by (simp add: idle_def GetTraceContext_def GetGIDTraceCtx_def)
  have off1: "\<not> MtraceEnabled (mtraceConf apiEnv1)" by (simp add: apiEnv1_def)
  obtain c' w2 where s2: "Start apiEnv1 8 130 (Some 0, None) ''/b'' NilContext w1 = Inr (c', w2)"
    using Start_returns [OF on1 i1 off1] by blast
  obtain r' w3 where e3: "End apiEnv1 7 140 140 None (Context (Some 0)) w2 = (r', w3)" by force
  have "c' = Context (Some 0) \<and> GetTxid apiEnv1 7 (Context (Some 0)) w2 = keygen (env_lib (agentEnv apiEnv1)) (keyPos w1)"
    using stale_context_ends_other [OF r1 _ on1 _ i1, of 0 7 120 120 None r 130 None "''/b''" c' w2 140 140 r' w3] e1 s2 e3 pool
    by simp
  then show ?thesis using st e1 s2 e3 ef(1) by (auto simp: apiEnv1_def agentEnv1_def)
qed

end
