(* ===== verification/Trace_Http.thy ===== *)
theory Trace_Http
  imports Trace_Api Secure
begin

text \<open>
  Web requests (the rest of \<^verbatim>\<open>trace/Trace.go\<close>, and \<^verbatim>\<open>ProfileSecureMsg\<close> of \<^verbatim>\<open>agent/agent/trace/api/Trace.go\<close>): the writer that
  notes the status of the response, the start of a transaction from a request, its address and client id, the text of its
  headers and parameters, and the wrapper \<open>Func\<close> around a handler.

  A map of the source is a list of its pairs in the order of the iteration, which Go leaves open. \<open>http_env\<close> holds the
  settings and the library: the number of an address (golib's \<^verbatim>\<open>iputil\<close> and \<^verbatim>\<open>io\<close>), the line end that golib's
  \<^verbatim>\<open>StringBuffer\<close> adds, the query of a URL. The handler is an argument: what it leaves of the state (everything that happens
  meanwhile included), the calls it makes on the writer, the parsed form and the text of a panic. The clocks are arguments
  (\<open>req_io\<close>). \<open>response\<close> is the writer of \<^verbatim>\<open>net/http\<close>: the header is sent with the first final status, with 200 if there is none,
  and an informational status is not final. \<^verbatim>\<open>Hijack\<close> and \<^verbatim>\<open>CloseNotify\<close> only delegate and are left out.
\<close>

record http_env =
  hApi :: api_env
  hSec :: ParamSecurity
  hUni :: "string \<Rightarrow> string"
  hIpInt :: "string \<Rightarrow> int"
  hLineEnd :: string
  hQuery :: "url option \<Rightarrow> header go"
  ProfileHttpHeaderEnabled :: bool
  ProfileHttpHeaderUrlPrefix :: string
  ProfileHttpHeaderIgnoreKeys :: "string list"
  ProfileHttpParameterEnabled :: bool
  ProfileHttpParameterUrlPrefix :: string
  TraceUserEnabled :: bool
  TraceUserUsingIp :: bool
  TraceUserHeaderTicketEnabled :: bool
  TraceUserHeaderTicket :: string
  TraceUserCookieKeys :: "string list"
  TraceUserSetCookie :: bool
  TraceHttpClientIpHeaderKeyEnabled :: bool
  TraceHttpClientIpHeaderKey :: string
  TransactionEnabled :: bool
  GoRecoverEnabled :: bool

type_synonym cookies = "(string \<times> string) list"

record request =
  rqMethod :: string
  rqURI :: string
  rqHost :: string
  rqRemoteAddr :: string
  rqHeader :: header
  rqCookies :: cookies
  rqCtx :: gctx

record req_io =
  ioGid :: int
  ioPicks :: "nat option \<times> nat option"
  ioStart :: int
  ioHeader :: int
  ioPanic :: int
  ioError :: int
  ioParam :: int
  ioEnd :: int
  ioNow :: int

abbreviation off_trace :: "http_env \<Rightarrow> bool" where
  "off_trace H \<equiv> disable (mtraceConf (hApi H))"

subsection \<open>The writer\<close>

record response =
  rsHeader :: header
  rsSent :: "(int \<times> header) option"
  rsBody :: string

datatype wcall = WHeader string string | WWriteHeader int | WWrite string | WFlush

definition informational :: "int \<Rightarrow> bool" where
  "informational n \<longleftrightarrow> 100 \<le> n \<and> n \<le> 199 \<and> n \<noteq> 101"

definition rs_WriteHeader :: "int \<Rightarrow> response \<Rightarrow> response" where
  "rs_WriteHeader n p = (if rsSent p \<noteq> None \<or> informational n then p else p\<lparr>rsSent := Some (n, rsHeader p)\<rparr>)"

definition rs_Write :: "string \<Rightarrow> response \<Rightarrow> response" where
  "rs_Write b p = (let q = rs_WriteHeader 200 p in q\<lparr>rsBody := rsBody q @ b\<rparr>)"

definition rs_do :: "wcall \<Rightarrow> response \<Rightarrow> response" where
  "rs_do c p = (case c of
      WHeader k v \<Rightarrow> p\<lparr>rsHeader := headerAdd k v (rsHeader p)\<rparr>
    | WWriteHeader n \<Rightarrow> rs_WriteHeader n p
    | WWrite b \<Rightarrow> rs_Write b p
    | WFlush \<Rightarrow> rs_WriteHeader 200 p)"

text \<open>When the handler has returned the server sends what was not sent.\<close>

definition rs_finish :: "response \<Rightarrow> response" where
  "rs_finish = rs_WriteHeader 200"

record WrapResponseWriter =
  ResponseWriter :: response
  wrStatus :: int
  wroteHeader :: bool

definition wr_WriteHeader :: "int \<Rightarrow> WrapResponseWriter \<Rightarrow> WrapResponseWriter" where
  "wr_WriteHeader n l =
     (let l1 = (if wroteHeader l then l else l\<lparr>wrStatus := n, wroteHeader := True\<rparr>) in
      l1\<lparr>ResponseWriter := rs_WriteHeader n (ResponseWriter l1)\<rparr>)"

definition wr_Write :: "string \<Rightarrow> WrapResponseWriter \<Rightarrow> WrapResponseWriter" where
  "wr_Write b l =
     (let l1 = (if wroteHeader l then l else l\<lparr>wrStatus := 200, wroteHeader := True\<rparr>) in
      l1\<lparr>ResponseWriter := rs_Write b (ResponseWriter l1)\<rparr>)"

definition wr_Flush :: "WrapResponseWriter \<Rightarrow> WrapResponseWriter" where
  "wr_Flush l = l\<lparr>ResponseWriter := rs_do WFlush (ResponseWriter l)\<rparr>"

definition wr_do :: "wcall \<Rightarrow> WrapResponseWriter \<Rightarrow> WrapResponseWriter" where
  "wr_do c l = (case c of
      WHeader k v \<Rightarrow> l\<lparr>ResponseWriter := rs_do c (ResponseWriter l)\<rparr>
    | WWriteHeader n \<Rightarrow> wr_WriteHeader n l
    | WWrite b \<Rightarrow> wr_Write b l
    | WFlush \<Rightarrow> wr_Flush l)"

definition wrapWriter :: "response \<Rightarrow> WrapResponseWriter" where
  "wrapWriter p = \<lparr>ResponseWriter = p, wrStatus = 0, wroteHeader = False\<rparr>"

subsection \<open>The request\<close>

definition lowerTrim :: "http_env \<Rightarrow> string \<Rightarrow> string" where
  "lowerTrim H s = ToLower (hUni H) (TrimSpace s)"

text \<open>The first address of a header with several; otherwise the address of the connection up to its first colon.\<close>

definition headerIP :: "http_env \<Rightarrow> header \<Rightarrow> string option" where
  "headerIP H hdr =
     (if TraceHttpClientIpHeaderKeyEnabled H
      then (case find (\<lambda>kv. lowerTrim H (fst kv) = lowerTrim H (TraceHttpClientIpHeaderKey H)) hdr of
              Some (k, ipaddr # vs) \<Rightarrow>
                if Index ipaddr '','' > -1 then Some (TrimSpace (hd (splitOn CHR '','' ipaddr))) else None
            | _ \<Rightarrow> None)
      else None)"

definition GetRemoteIP :: "http_env \<Rightarrow> string \<Rightarrow> header \<Rightarrow> string" where
  "GetRemoteIP H remoteAddr hdr =
     (if off_trace H then []
      else (case headerIP H hdr of Some ip \<Rightarrow> ip | None \<Rightarrow> hd (splitOn CHR '':'' remoteAddr)))"

definition WHATAP_COOKIE_NAME :: string where
  "WHATAP_COOKIE_NAME = ''WHATAP''"

definition ticketOf :: "http_env \<Rightarrow> header \<Rightarrow> string option" where
  "ticketOf H hdr =
     (if TraceUserHeaderTicketEnabled H
      then map_option (\<lambda>kv. TrimSpace (hd (snd kv)))
             (find (\<lambda>kv. lowerTrim H (fst kv) = lowerTrim H (TraceUserHeaderTicket H) \<and> snd kv \<noteq> []) hdr)
      else None)"

definition cookieId :: "http_env \<Rightarrow> cookies \<Rightarrow> string option" where
  "cookieId H cs =
     (case find (\<lambda>c. list_ex (\<lambda>v. lowerTrim H (fst c) = lowerTrim H v) (TraceUserCookieKeys H)) cs of
        Some c \<Rightarrow> Some (TrimSpace (snd c))
      | None \<Rightarrow> map_option (\<lambda>c. TrimSpace (snd c))
                  (find (\<lambda>c. env_upper (agentEnv (hApi H)) (TrimSpace (fst c)) = WHATAP_COOKIE_NAME) cs))"

definition GetClientId :: "http_env \<Rightarrow> request \<Rightarrow> string \<Rightarrow> string" where
  "GetClientId H r remoteIP =
     (if off (hApi H) \<or> \<not> TraceUserEnabled H \<or> TraceUserUsingIp H then TrimSpace remoteIP
      else (case ticketOf H (rqHeader r) of
              Some v \<Rightarrow> v
            | None \<Rightarrow> (case cookieId H (rqCookies r) of Some v \<Rightarrow> v | None \<Rightarrow> TrimSpace remoteIP)))"

definition prepRequest :: "http_env \<Rightarrow> request \<Rightarrow> TraceContext \<Rightarrow> TraceContext" where
  "prepRequest H r c =
     (let ipaddr = GetRemoteIP H (rqRemoteAddr r) (rqHeader r) in
      c\<lparr>ServiceURL := Some (newURL (hApi H) (rqHost r @ rqURI r)),
        RemoteIp := hIpInt H ipaddr,
        HttpMethod := rqMethod r,
        RefererURL := Some (newURL (hApi H) (headerGet (rqHeader r) ''Referer'')),
        UserAgentString := headerGet (rqHeader r) ''User-Agent'',
        WClientId := hashOf (agentEnv (hApi H)) (GetClientId H r ipaddr)\<rparr>)"

subsection \<open>The text of headers and parameters\<close>

definition dashes :: "string \<Rightarrow> string" where
  "dashes s = map (\<lambda>c. if c = CHR ''-'' then CHR ''_'' else c) s"

definition headerLine :: "http_env \<Rightarrow> string \<times> string list \<Rightarrow> string" where
  "headerLine H kv =
     fst kv @ ''='' @
     (case snd kv of
        [] \<Rightarrow> []
      | v # vs \<Rightarrow> (if dashes (ToLower (hUni H) (fst kv)) \<in> set (ProfileHttpHeaderIgnoreKeys H) then ''#'' else v) @ hLineEnd H)"

definition ParseHeader :: "http_env \<Rightarrow> header \<Rightarrow> string" where
  "ParseHeader H m = (if off_trace H then [] else concat (map (headerLine H) m))"

definition paramLine :: "http_env \<Rightarrow> string \<times> string list \<Rightarrow> string" where
  "paramLine H kv = fst kv @ ''='' @ (case snd kv of [] \<Rightarrow> [] | v # vs \<Rightarrow> v @ hLineEnd H)"

definition ParseParameter :: "http_env \<Rightarrow> header \<Rightarrow> string" where
  "ParseParameter H m = concat (map (paramLine H) m)"

definition queryLine :: "http_env \<Rightarrow> string \<Rightarrow> string \<times> string list \<Rightarrow> string \<Rightarrow> string go" where
  "queryLine H message kv sb =
     (if Index message (fst kv) > -1 then Inr sb
      else if length (snd kv) > 1 then Inr (sb @ fst kv @ ''=ARRAY'' @ hLineEnd H)
      else bindGo (indexAt (snd kv) 0) (\<lambda>v. Inr (sb @ fst kv @ ''='' @ v @ hLineEnd H)))"

definition secureText :: "http_env \<Rightarrow> string \<Rightarrow> string \<Rightarrow> TraceContext \<Rightarrow> string go" where
  "secureText H title message c =
     (if title = ''GET Parameter''
      then bindGo (hQuery H (ServiceURL c)) (\<lambda>m. foldGo (queryLine H message) m message)
      else Inr message)"

text \<open>A panic, of an empty key or in the query, is recovered before anything is recorded.\<close>

definition ProfileSecureMsg :: "http_env \<Rightarrow> int \<Rightarrow> string \<Rightarrow> string \<Rightarrow> TraceContext \<Rightarrow> TraceContext \<times> ev list" where
  "ProfileSecureMsg H sysNow title message c =
     (if ProfileHttpParameterEnabled H \<and> HasPrefix (ServiceName c) (ProfileHttpParameterUrlPrefix H)
      then (let h = i32 (hashOf (agentEnv (hApi H)) title) in
            case bindGo (secureText H title message c) (\<lambda>s. toParamBytes (hSec H) s 0) of
              Inl _ \<Rightarrow> (c, [])
            | Inr (v, crc) \<Rightarrow>
                (c\<lparr>Profile := Profile c @ [PAdd (SecureMsgStep (i32 (sysNow - StartTime c)) h v crc)]\<rparr>,
                 [HashText TEXT_MESSAGE h title]))
      else (c, []))"

definition SetHeader :: "http_env \<Rightarrow> int \<Rightarrow> int \<Rightarrow> gctx \<Rightarrow> header \<Rightarrow> 'l api \<Rightarrow> 'l api" where
  "SetHeader H g sysNow c m w =
     (if off_trace H \<or> \<not> ProfileHttpHeaderEnabled H then w
      else (case snd (GetTraceContext (hApi H) g c w) of
              None \<Rightarrow> w
            | Some h \<Rightarrow>
                (case Ctx (handles w h) of
                   Some a \<Rightarrow>
                     if HasPrefix (Name (handles w h)) (ProfileHttpHeaderUrlPrefix H)
                     then withAgent a (ProfileMsg (agentEnv (hApi H)) sysNow ''HTTP_HEADERS'' (ParseHeader H m) 0 0) w else w
                 | None \<Rightarrow> w)))"

text \<open>The test for an empty map joins its parts with and: only nil stops it.\<close>

definition SetParameter :: "http_env \<Rightarrow> int \<Rightarrow> int \<Rightarrow> gctx \<Rightarrow> header option \<Rightarrow> 'l api \<Rightarrow> 'l api" where
  "SetParameter H g sysNow c mo w =
     (if off_trace H \<or> \<not> ProfileHttpParameterEnabled H then w
      else (case mo of
              None \<Rightarrow> w
            | Some m \<Rightarrow>
                (case snd (GetTraceContext (hApi H) g c w) of
                   None \<Rightarrow> w
                 | Some h \<Rightarrow>
                     (case Ctx (handles w h) of
                        Some a \<Rightarrow>
                          if HasPrefix (Name (handles w h)) (ProfileHttpParameterUrlPrefix H)
                          then withAgent a (ProfileSecureMsg H sysNow ''HTTP-PARAMS'' (ParseParameter H m)) w else w
                      | None \<Rightarrow> w))))"

subsection \<open>Starting a transaction from a request\<close>

definition startRequest :: "http_env \<Rightarrow> req_io \<Rightarrow> request \<Rightarrow> 'l api \<Rightarrow> (gctx \<times> 'l api) go" where
  "startRequest H io r w =
     (let (h, w1) = NewTraceContext (hApi H) (ioGid io) (ioPicks io) w in
      bindGo (startHandle (hApi H) (rqHeader r) h (rqURI r) (ioStart io) (prepRequest H r) w1) (\<lambda>w2.
        Inr (Context (Some h), SetHeader H (ioGid io) (ioHeader io) (Context (Some h)) (rqHeader r) w2)))"

definition StartWithRequest :: "http_env \<Rightarrow> req_io \<Rightarrow> request \<Rightarrow> 'l api \<Rightarrow> (gctx \<times> 'l api) go" where
  "StartWithRequest H io r w =
     (if off (hApi H) then Inr (rqCtx r, w)
      else (case GetTraceContext (hApi H) (ioGid io) (rqCtx r) w of
              (c1, Some h) \<Rightarrow> if TraceCtx.Txid (handles w h) \<noteq> 0 then Inr (c1, w) else startRequest H io r w
            | (c1, None) \<Rightarrow> startRequest H io r w))"

subsection \<open>The wrapper of a handler\<close>

text \<open>\<^verbatim>\<open>http.StatusText\<close>, and an error of \<^verbatim>\<open>fmt.Errorf\<close>.\<close>

definition statusTexts :: "(int \<times> string) list" where
  "statusTexts =
     [(100, ''Continue''), (101, ''Switching Protocols''), (102, ''Processing''), (103, ''Early Hints''), (200, ''OK''),
      (201, ''Created''), (202, ''Accepted''), (203, ''Non-Authoritative Information''), (204, ''No Content''),
      (205, ''Reset Content''), (206, ''Partial Content''), (207, ''Multi-Status''), (208, ''Already Reported''),
      (226, ''IM Used''), (300, ''Multiple Choices''), (301, ''Moved Permanently''), (302, ''Found''),
      (303, ''See Other''), (304, ''Not Modified''), (305, ''Use Proxy''), (307, ''Temporary Redirect''),
      (308, ''Permanent Redirect''), (400, ''Bad Request''), (401, ''Unauthorized''), (402, ''Payment Required''),
      (403, ''Forbidden''), (404, ''Not Found''), (405, ''Method Not Allowed''), (406, ''Not Acceptable''),
      (407, ''Proxy Authentication Required''), (408, ''Request Timeout''), (409, ''Conflict''), (410, ''Gone''),
      (411, ''Length Required''), (412, ''Precondition Failed''), (413, ''Request Entity Too Large''),
      (414, ''Request URI Too Long''), (415, ''Unsupported Media Type''), (416, ''Requested Range Not Satisfiable''),
      (417, ''Expectation Failed''), (418, ''I'' @ [CHR 0x27] @ ''m a teapot''), (421, ''Misdirected Request''),
      (422, ''Unprocessable Entity''), (423, ''Locked''), (424, ''Failed Dependency''), (425, ''Too Early''),
      (426, ''Upgrade Required''), (428, ''Precondition Required''), (429, ''Too Many Requests''),
      (431, ''Request Header Fields Too Large''), (451, ''Unavailable For Legal Reasons''),
      (500, ''Internal Server Error''), (501, ''Not Implemented''), (502, ''Bad Gateway''),
      (503, ''Service Unavailable''), (504, ''Gateway Timeout''), (505, ''HTTP Version Not Supported''),
      (506, ''Variant Also Negotiates''), (507, ''Insufficient Storage''), (508, ''Loop Detected''),
      (510, ''Not Extended''), (511, ''Network Authentication Required'')]"

definition StatusText :: "int \<Rightarrow> string" where
  "StatusText n = (case map_of statusTexts n of None \<Rightarrow> [] | Some s \<Rightarrow> s)"

definition Errorf :: "string \<Rightarrow> thr" where
  "Errorf s = \<lparr>ErrorClassName = ''*errors.errorString'', ErrorMessage = s\<rparr>"

definition setStatus :: "http_env \<Rightarrow> int \<Rightarrow> gctx \<Rightarrow> int \<Rightarrow> 'l api \<Rightarrow> 'l api" where
  "setStatus H g c n w =
     (case snd (GetTraceContext (hApi H) g c w) of
        None \<Rightarrow> w
      | Some h \<Rightarrow> w\<lparr>handles := (handles w)(h := (handles w h)\<lparr>TraceCtx.Status := i32 n\<rparr>)\<rparr>)"

definition traceForm :: "http_env \<Rightarrow> req_io \<Rightarrow> request \<Rightarrow> header option \<Rightarrow> gctx \<Rightarrow> 'l api \<Rightarrow> 'l api" where
  "traceForm H io r form c w =
     (if ProfileHttpParameterEnabled H \<and> HasPrefix (rqURI r) (ProfileHttpParameterUrlPrefix H) \<and> form \<noteq> None
      then SetParameter H (ioGid io) (ioParam io) c form w else w)"

definition GetWhatapCookie :: "http_env \<Rightarrow> cookies \<Rightarrow> 'l api \<Rightarrow> (string \<times> string) \<times> bool \<times> 'l api" where
  "GetWhatapCookie H cs w =
     (case find (\<lambda>c. fst c = WHATAP_COOKIE_NAME) cs of
        Some c \<Rightarrow> (c, True, w)
      | None \<Rightarrow> ((WHATAP_COOKIE_NAME, itoa (keygen (env_lib (agentEnv (hApi H))) (keyPos w))), False,
                  w\<lparr>keyPos := Suc (keyPos w)\<rparr>))"

definition SetWhatapCookie :: "string \<times> string \<Rightarrow> response \<Rightarrow> response" where
  "SetWhatapCookie ck p = rs_do (WHeader ''Set-Cookie'' (fst ck @ ''='' @ snd ck)) p"

definition giveCookie :: "http_env \<Rightarrow> request \<Rightarrow> response \<times> 'l api \<Rightarrow> response \<times> 'l api" where
  "giveCookie H r pw =
     (if TraceUserSetCookie H
      then (let (ck, known, w) = GetWhatapCookie H (rqCookies r) (snd pw) in
            (if known then fst pw else SetWhatapCookie ck (fst pw), w))
      else pw)"

record 'l handled =
  hdWorld :: "'l api"
  hdCalls :: "wcall list"
  hdForm :: "header option"
  hdPanic :: "string option"

definition recovered :: "http_env \<Rightarrow> string option \<Rightarrow> string option" where
  "recovered H x = (if GoRecoverEnabled H then None else x)"

definition panicError :: "http_env \<Rightarrow> req_io \<Rightarrow> (string \<Rightarrow> string) \<Rightarrow> string option \<Rightarrow> gctx \<Rightarrow> 'l api \<Rightarrow> 'l api" where
  "panicError H io text x c w = Error (hApi H) (ioGid io) (ioPanic io) (map_option (\<lambda>v. Errorf (text v)) x) c w"

definition statusError :: "(int \<Rightarrow> string) \<Rightarrow> int \<Rightarrow> thr option" where
  "statusError text n = (if n \<ge> 400 then Some (Errorf (text n)) else None)"

definition funcStatus :: "int \<Rightarrow> string" where
  "funcStatus n = ''Status '' @ itoa n @ '':'' @ StatusText n"

text \<open>The deferred function: the panic to raise again, the response, and the state.\<close>

definition Func_deferred ::
  "http_env \<Rightarrow> req_io \<Rightarrow> request \<Rightarrow> response \<Rightarrow> 'l handled \<Rightarrow> gctx \<Rightarrow> string option \<times> response \<times> 'l api" where
  "Func_deferred H io r p res c =
     (let wrw = fold wr_do (hdCalls res) (wrapWriter p);
          st = wrStatus wrw;
          w1 = panicError H io (\<lambda>v. v) (hdPanic res) c (hdWorld res);
          w2 = setStatus H (ioGid io) c st w1;
          w3 = traceForm H io r (hdForm res) c w2;
          (p', w4) = giveCookie H r (ResponseWriter wrw, w3);
          w5 = snd (End (hApi H) (ioGid io) (ioEnd io) (ioNow io) (statusError funcStatus st) c w4) in
      (recovered H (hdPanic res), p', w5))"

definition Func ::
  "http_env \<Rightarrow> req_io \<Rightarrow> (gctx \<Rightarrow> 'l api \<Rightarrow> 'l handled) \<Rightarrow> request \<Rightarrow> response \<Rightarrow> 'l api \<Rightarrow>
     (string option \<times> response \<times> 'l api) go" where
  "Func H io handler r p w =
     (if off_trace H \<or> \<not> TransactionEnabled H
      then (let res = handler (rqCtx r) w in Inr (hdPanic res, fold rs_do (hdCalls res) p, hdWorld res))
      else bindGo (StartWithRequest H io r w) (\<lambda>(c, w1). Inr (Func_deferred H io r p (handler c w1) c)))"

subsection \<open>Updates of one transaction\<close>

text \<open>Whatever is recorded in an open transaction changes its handle and its agent context only: the ids, the start, the
  name and the mark of static content stay, the profile grows by \<open>ps\<close>, and nothing is sent yet.\<close>

definition extends :: "TraceContext \<Rightarrow> pcall list \<Rightarrow> TraceContext \<Rightarrow> bool" where
  "extends c ps c' \<longleftrightarrow>
     Txid c' = Txid c \<and> StartTime c' = StartTime c \<and> IsStaticContents c' = IsStaticContents c \<and>
     ServiceName c' = ServiceName c \<and> Profile c' = Profile c @ ps"

definition own_update :: "'l api \<Rightarrow> nat \<Rightarrow> pcall list \<Rightarrow> 'l api \<Rightarrow> bool" where
  "own_update w h ps w' \<longleftrightarrow>
     (\<exists>t c e k. w' = w\<lparr>handles := (handles w)(h := t), agents := (agents w)(agentOf w h := c), evs := evs w @ e, keyPos := k\<rparr> \<and>
        Ctx t = Ctx (handles w h) \<and> TraceCtx.Txid t = TraceCtx.Txid (handles w h) \<and>
        extends (agents w (agentOf w h)) ps c \<and> sentTx e = [])"

lemma own_updateI:
  assumes "w' = w\<lparr>handles := (handles w)(h := t), agents := (agents w)(agentOf w h := c), evs := evs w @ e, keyPos := k\<rparr>"
    and "Ctx t = Ctx (handles w h)" and "TraceCtx.Txid t = TraceCtx.Txid (handles w h)"
    and "extends (agents w (agentOf w h)) ps c" and "sentTx e = []"
  shows "own_update w h ps w'"
  using assms unfolding own_update_def by blast

lemma extends_refl [simp]: "extends c [] c"
  by (simp add: extends_def)

lemma extends_trans: "extends c ps c1 \<Longrightarrow> extends c1 qs c2 \<Longrightarrow> extends c (ps @ qs) c2"
  by (simp add: extends_def)

lemma own_update_refl [simp]: "own_update w h [] w"
  by (rule own_updateI [where t = "handles w h" and c = "agents w (agentOf w h)" and e = "[]" and k = "keyPos w"]) (simp_all add: sentTx_def)

lemma own_update_fields:
  assumes "own_update w h ps w'"
  shows "agentOf w' b = agentOf w b" "Ctx (handles w' b) = Ctx (handles w b)" "b \<noteq> h \<Longrightarrow> handles w' b = handles w b"
    "a \<noteq> agentOf w h \<Longrightarrow> agents w' a = agents w a" "extends (agents w (agentOf w h)) ps (agents w' (agentOf w h))"
    "sentTx (evs w') = sentTx (evs w)" "handlePool w' = handlePool w" "handleNext w' = handleNext w"
    "agentPool w' = agentPool w" "agentNext w' = agentNext w" "gids w' = gids w"
    "TraceCtx.Txid (handles w' b) = TraceCtx.Txid (handles w b)"
  using assms by (auto simp: own_update_def agentOf_def)

lemma own_update_trans:
  assumes "own_update w h ps w1" and "own_update w1 h qs w2"
  shows "own_update w h (ps @ qs) w2"
proof -
  note f1 = own_update_fields [OF assms(1)]
  obtain t1 c1 e1 k1 where 1: "w1 = w\<lparr>handles := (handles w)(h := t1), agents := (agents w)(agentOf w h := c1), evs := evs w @ e1, keyPos := k1\<rparr>"
      "Ctx t1 = Ctx (handles w h)" "TraceCtx.Txid t1 = TraceCtx.Txid (handles w h)" "extends (agents w (agentOf w h)) ps c1" "sentTx e1 = []"
    using assms(1) unfolding own_update_def by blast
  obtain t2 c2 e2 k2 where 2: "w2 = w1\<lparr>handles := (handles w1)(h := t2), agents := (agents w1)(agentOf w h := c2), evs := evs w1 @ e2, keyPos := k2\<rparr>"
      "Ctx t2 = Ctx (handles w1 h)" "TraceCtx.Txid t2 = TraceCtx.Txid (handles w1 h)" "extends (agents w1 (agentOf w h)) qs c2" "sentTx e2 = []"
    using assms(2) unfolding own_update_def f1(1) by blast
  show ?thesis
  proof (rule own_updateI)
    show "w2 = w\<lparr>handles := (handles w)(h := t2), agents := (agents w)(agentOf w h := c2), evs := evs w @ (e1 @ e2), keyPos := k2\<rparr>"
      by (simp add: 2(1) 1(1))
    show "extends (agents w (agentOf w h)) (ps @ qs) c2" using extends_trans [OF 1(4)] 2(4) by (simp add: 1(1))
  qed (use 1 2 in \<open>simp_all add: sentTx_def\<close>)
qed

lemma update_withAgent:
  assumes "extends (agents w (agentOf w h)) ps (fst (f (agents w (agentOf w h))))" and "sentTx (snd (f (agents w (agentOf w h)))) = []"
  shows "own_update w h ps (Trace_Api.withAgent (agentOf w h) f w)"
  by (rule own_updateI [where t = "handles w h" and k = "keyPos w", OF _ refl refl assms]) (simp add: Trace_Api.withAgent_def split: prod.splits)

lemma apart_update:
  assumes "apart s" and "h \<in> live s" and "own_update (world s) h ps w"
  shows "apart (s\<lparr>world := w\<rparr>)"
proof -
  note u = own_update_fields [OF assms(3)]
  have "fresh_handle (handles w b)" if "b \<in> set (handlePool (world s))" for b
    using that apart_pools(2) [OF assms(1)] apartD(2) [OF assms(1,2)] u(3) by metis
  moreover have "fresh_agent (agents w a)" if "a \<in> set (agentPool (world s))" for a
    using that apart_pools(4) [OF assms(1)] apartD(5) [OF assms(1,2)] u(4) by metis
  moreover have "inj_on (agentOf w) (live s)" using apart_pools(6) [OF assms(1)] u(1) by (simp add: inj_on_def)
  ultimately show ?thesis
    using apart_pools(1-5) [OF assms(1)] apartD [OF assms(1)] by (simp add: apart_def Let_def u)
qed

text \<open>The operations of the API are such updates.\<close>

definition errorCalls :: "api_env \<Rightarrow> int \<Rightarrow> int \<Rightarrow> thr option \<Rightarrow> pcall list" where
  "errorCalls E sysNow st err =
     (case err of
        None \<Rightarrow> []
      | Some th \<Rightarrow> if env_ignoreException (agentEnv E) th then []
                  else [PAddHeavy (MessageStep (i32 (sysNow - st)) 0 (hashOf (agentEnv E) ''ERROR'') 0
                          (env_trimEmpty (agentEnv E) (ErrorClassName th @ ''-'' @ ErrorMessage th)))])"

lemma sent_text [simp]: "sentTx (HashText k n s # es) = sentTx es" "sentTx (StatError th n # es) = sentTx es" "sentTx [] = []"
  by (simp_all add: sentTx_def)

lemma extends_ProfileError:
  "extends c (errorCalls E sysNow (StartTime c) (Some th)) (fst (ProfileError (agentEnv E) sysNow th c))"
  "sentTx (snd (ProfileError (agentEnv E) sysNow th c)) = []"
  by (simp_all add: extends_def errorCalls_def ProfileError_def Let_def)

lemma update_Error:
  assumes "\<not> off E" and "Ctx (handles w h) \<noteq> None"
  shows "own_update w h (errorCalls E sysNow (StartTime (agents w (agentOf w h))) err) (Trace_Api.Error E g sysNow err (Context (Some h)) w)"
proof (cases err)
  case None
  then show ?thesis using assms(1) by (simp add: Trace_Api.Error_def errorCalls_def)
next
  case (Some th)
  then show ?thesis
    using assms(1) Error_live [OF assms(2), of E g sysNow th] update_withAgent [where f = "ProfileError (agentEnv E) sysNow th" and w = w and h = h, OF extends_ProfileError]
    by simp
qed

lemma update_setStatus: "own_update w h [] (setStatus H g (Context (Some h)) n w)"
  by (rule own_updateI [where t = "(handles w h)\<lparr>TraceCtx.Status := i32 n\<rparr>" and c = "agents w (agentOf w h)" and e = "[]" and k = "keyPos w"])
    (simp_all add: setStatus_def GetTraceContext_def)

definition secureCalls :: "http_env \<Rightarrow> int \<Rightarrow> string \<Rightarrow> string \<Rightarrow> TraceContext \<Rightarrow> pcall list" where
  "secureCalls H sysNow title message c =
     (if ProfileHttpParameterEnabled H \<and> HasPrefix (ServiceName c) (ProfileHttpParameterUrlPrefix H)
      then (case bindGo (secureText H title message c) (\<lambda>s. toParamBytes (hSec H) s 0) of
              Inl _ \<Rightarrow> []
            | Inr (v, crc) \<Rightarrow> [PAdd (SecureMsgStep (i32 (sysNow - StartTime c)) (i32 (hashOf (agentEnv (hApi H)) title)) v crc)])
      else [])"

lemma extends_ProfileSecureMsg:
  "extends c (secureCalls H sysNow title message c) (fst (ProfileSecureMsg H sysNow title message c))"
  "sentTx (snd (ProfileSecureMsg H sysNow title message c)) = []"
  by (simp_all add: extends_def secureCalls_def ProfileSecureMsg_def Let_def split: sum.splits prod.splits)

lemma update_keyPos: "own_update w h [] (w\<lparr>keyPos := k\<rparr>)"
  by (rule own_updateI [where t = "handles w h" and c = "agents w (agentOf w h)" and e = "[]" and k = k]) simp_all

subsection \<open>Transactions of requests running side by side\<close>

text \<open>The runs of \<^verbatim>\<open>Trace_Api\<close> with every way to start a transaction (\<open>prep\<close> fills in its context) and every update of an
  open one.\<close>

datatype use = UBegin nat | UUse nat "pcall list" | UFinish nat | UReclaim nat

inductive use_step :: "api_env \<Rightarrow> 'l sys \<Rightarrow> use \<Rightarrow> 'l sys \<Rightarrow> bool" for E where
  begun: "\<not> off E \<Longrightarrow> NewTraceContext E g picks (world s) = (h, w1) \<Longrightarrow> startHandle E hdr h name sysNow prep w1 = Inr w \<Longrightarrow>
     use_step E s (UBegin h) (s\<lparr>world := w, live := insert h (live s)\<rparr>)"
| used: "h \<in> live s \<Longrightarrow> own_update (world s) h ps w \<Longrightarrow> use_step E s (UUse h ps) (s\<lparr>world := w\<rparr>)"
| finished: "\<not> off E \<Longrightarrow> h \<in> live s \<Longrightarrow> End E g sysNow endNow err (Context (Some h)) (world s) = (r, w) \<Longrightarrow>
     use_step E s (UFinish h)
       \<lparr>world = w, live = live s - {h},
        queued = (if IsStaticContents (agents (world s) (agentOf (world s) h)) then queued s
                  else insert (agentOf (world s) h) (queued s))\<rparr>"
| reclaimed: "a \<in> queued s \<Longrightarrow> use_step E s (UReclaim a) (s\<lparr>world := agent_Close a (world s), queued := queued s - {a}\<rparr>)"

inductive use_runs :: "api_env \<Rightarrow> 'l sys \<Rightarrow> use list \<Rightarrow> 'l sys \<Rightarrow> bool" for E where
  none: "use_runs E s [] s"
| more: "use_runs E s us s' \<Longrightarrow> use_step E s' u s'' \<Longrightarrow> use_runs E s (us @ [u]) s''"

definition usedBy :: "nat \<Rightarrow> use list \<Rightarrow> pcall list" where
  "usedBy h us = concat (map (\<lambda>u. case u of UUse h' ps \<Rightarrow> if h' = h then ps else [] | _ \<Rightarrow> []) us)"

abbreviation ctxOf :: "'l api \<Rightarrow> nat \<Rightarrow> TraceContext" where
  "ctxOf w h \<equiv> agents w (agentOf w h)"

definition carried :: "'l api \<Rightarrow> nat \<Rightarrow> pcall list \<Rightarrow> 'l api \<Rightarrow> bool" where
  "carried w h ps w' \<longleftrightarrow> extends (ctxOf w h) ps (ctxOf w' h)"

lemma carried_steady:
  assumes "steady E l s s'" and "h \<in> live s" and "h \<in> live s'" and "\<And>c. own E h l c = c"
  shows "carried (world s) h [] (world s')"
  using assms by (simp add: steady_def transaction_def carried_def)

lemma use_step_ok:
  assumes "use_step E s u s'" and "apart s"
  shows "apart s' \<and> (\<forall>h\<in>live s. u \<noteq> UFinish h \<longrightarrow> h \<in> live s' \<and> carried (world s) h (usedBy h [u]) (world s'))"
  using assms
proof (induction rule: use_step.induct)
  case (begun g picks s h w1 hdr name sysNow prep w)
  note f = fresh_apart [OF begun.prems begun.hyps(2,3)]
  show ?case using f(2) carried_steady [OF f(3)] by (auto simp: usedBy_def)
next
  case (used h s ps w)
  have "carried (world s) b (usedBy b [UUse h ps]) w" if "b \<in> live s" for b
  proof (cases "b = h")
    case True
    then show ?thesis using own_update_fields(1,5) [OF used.hyps(2)] by (simp add: carried_def usedBy_def)
  next
    case False
    then have "agentOf (world s) b \<noteq> agentOf (world s) h"
      using apart_pools(6) [OF used.prems] that used.hyps(1) by (auto simp: inj_on_def)
    then show ?thesis using False own_update_fields(1,4) [OF used.hyps(2)] by (simp add: carried_def usedBy_def)
  qed
  then show ?case using apart_update [OF used.prems used.hyps] by simp
next
  case (finished h s g sysNow endNow err r w)
  let ?q = "if IsStaticContents (ctxOf (world s) h) then queued s else insert (agentOf (world s) h) (queued s)"
  have q: "?q = queued s \<or> ?q = insert (agentOf (world s) h) (queued s)" by simp
  note e = end_apart [OF finished.prems finished.hyps q]
  show ?case using e(1) carried_steady [OF e(2)] by (auto simp: usedBy_def)
next
  case (reclaimed a s)
  note c = close_apart [OF reclaimed.prems reclaimed.hyps]
  show ?case using c(1) carried_steady [OF c(2)] by (auto simp: usedBy_def)
qed

lemma use_runs_ok:
  assumes "use_runs E s us s'" and "apart s"
  shows "apart s' \<and> (\<forall>h\<in>live s. UFinish h \<notin> set us \<longrightarrow> h \<in> live s' \<and> carried (world s) h (usedBy h us) (world s'))"
  using assms
proof (induction rule: use_runs.induct)
  case (none s)
  then show ?case by (simp add: carried_def usedBy_def)
next
  case (more s us s' u s'')
  then have "apart s'" by blast
  note st = use_step_ok [OF more.hyps(2) this]
  have "h \<in> live s'' \<and> carried (world s) h (usedBy h (us @ [u])) (world s'')" if "h \<in> live s" "UFinish h \<notin> set (us @ [u])" for h
  proof -
    from that more have a: "h \<in> live s'" "carried (world s) h (usedBy h us) (world s')" by auto
    with st that have b: "h \<in> live s''" "carried (world s') h (usedBy h [u]) (world s'')" by auto
    show ?thesis using a(2) b extends_trans by (auto simp: carried_def usedBy_def)
  qed
  then show ?case using st by blast
qed

text \<open>The runs of \<^verbatim>\<open>Trace_Api\<close> are among these.\<close>

lemma api_step_used:
  assumes "api_step E s l s'" and "apart s"
  shows "\<exists>u. use_step E s u s'"
  using assms
proof (induction rule: api_step.induct)
  case (start g c s sysNow picks name h w)
  from Start_idle [OF start.hyps] obtain w1 where
    "NewTraceContext E g picks (world s) = (h, w1)"
    "startHandle E [] h name sysNow (\<lambda>x. x\<lparr>ServiceURL := Some (newURL E name)\<rparr>) w1 = Inr w" by auto
  then show ?case using use_step.begun [OF start.hyps(1)] by blast
next
  case (step h s g sysNow title message elapsed val r w)
  have "\<exists>ps. own_update (world s) h ps w"
  proof (cases "off E")
    case True
    then have "w = world s" using step.hyps(2) by (simp add: Step_def)
    then show ?thesis using own_update_refl by blast
  next
    case False
    let ?f = "ProfileMsg (agentEnv E) sysNow title message elapsed val"
    have "w = Trace_Api.withAgent (agentOf (world s) h) ?f (world s)"
      using Step_live [OF apartD(3) [OF step.prems step.hyps(1)], of E g sysNow title message elapsed val] step.hyps(2) False by simp
    moreover have "\<exists>ps. extends (ctxOf (world s) h) ps (fst (?f (ctxOf (world s) h)))" "sentTx (snd (?f (ctxOf (world s) h))) = []"
      by (simp_all add: extends_def ProfileMsg_def Let_def)
    ultimately show ?thesis using update_withAgent [where f = ?f] by blast
  qed
  then show ?case using use_step.used [OF step.hyps(1)] by blast
next
  case (error h s g sysNow th w)
  have "\<exists>ps. own_update (world s) h ps w"
  proof (cases "off E")
    case True
    then have "w = world s" using error.hyps(2) by (auto simp: Trace_Api.Error_def)
    then show ?thesis using own_update_refl by blast
  next
    case False
    then show ?thesis using update_Error [OF False apartD(3) [OF error.prems error.hyps(1)]] error.hyps(2) by blast
  qed
  then show ?case using use_step.used [OF error.hyps(1)] by blast
next
  case (finish h s g sysNow endNow err r w)
  then show ?case using use_step.finished by blast
next
  case (close a s)
  then show ?case using use_step.reclaimed by blast
qed

subsection \<open>The end of a request\<close>

lemma EndTx_result:
  "sentTx (snd (EndTx env conf sysNow endNow c)) = (if IsStaticContents c then [] else [fst (EndTx env conf sysNow endNow c)])"
  "Txid (fst (EndTx env conf sysNow endNow c)) = Txid c" "Profile (fst (EndTx env conf sysNow endNow c)) = Profile c"
  "Status (fst (EndTx env conf sysNow endNow c)) = Status c"
  by (simp_all add: EndTx_def Let_def sentTx_def)

lemma endFields_Status: "Status (endFields t c) = TraceCtx.Status t"
  by (simp add: endFields_def SetExtraField_def SetExtraFieldString_def Let_def)

lemma endError_extends: "extends c (errorCalls E sysNow (StartTime c) err) (fst (endError E sysNow err c))"
  using extends_ProfileError(1) by (cases err) (auto simp: endError_def errorCalls_def)

text \<open>What an ended transaction is sent as.\<close>

definition sent_as :: "'l api \<Rightarrow> 'l api \<Rightarrow> TraceContext \<Rightarrow> int \<Rightarrow> pcall list \<Rightarrow> bool" where
  "sent_as w w' c st ps \<longleftrightarrow>
     (\<exists>x. sentTx (evs w') = sentTx (evs w) @ (if IsStaticContents c then [] else [x]) \<and>
        Txid x = Txid c \<and> Status x = st \<and> Profile x = Profile c @ ps)"

lemma End_sent_as:
  assumes "\<not> off E" and "Ctx (handles w h) \<noteq> None" and "End E g sysNow endNow err (Context (Some h)) w = (q, w')"
  shows "sent_as w w' (ctxOf w h) (TraceCtx.Status (handles w h)) (errorCalls E sysNow (StartTime (ctxOf w h)) err)"
proof -
  let ?c1 = "fst (endError E sysNow err (ctxOf w h))" and ?t = "handles w h"
  let ?x = "fst (EndTx (agentEnv E) (agentConf E) sysNow endNow (endFields ?t ?c1))"
  have "snd (endBody E sysNow endNow err ?t (ctxOf w h)) =
      snd (endError E sysNow err (ctxOf w h)) @ snd (EndTx (agentEnv E) (agentConf E) sysNow endNow (endFields ?t ?c1))"
    by (simp add: endBody_def Let_def split: prod.splits)
  moreover have "extends (ctxOf w h) (errorCalls E sysNow (StartTime (ctxOf w h)) err) ?c1" by (rule endError_extends)
  ultimately show ?thesis
    using End_fields(8) [OF assms] endError_own(2) [of E sysNow err "ctxOf w h"]
    unfolding sent_as_def by (intro exI [of _ ?x]) (auto simp: EndTx_result endFields_Status extends_def)
qed

lemma sent_as_update:
  assumes "own_update w h ps w1" and "sent_as w1 w' (ctxOf w1 h) st qs"
  shows "sent_as w w' (ctxOf w h) st (ps @ qs)"
  using assms(2) own_update_fields(1,5,6) [OF assms(1)] by (auto simp: sent_as_def extends_def)

subsection \<open>The contract of a middleware\<close>

text \<open>The deferred function of a middleware records something in the transaction, notes the status and ends it. Then every
  request is reported exactly once, with what its handler recorded and what the middleware adds, and the state stays sound.\<close>

locale web_middleware =
  fixes H :: http_env
    and deferred :: "req_io \<Rightarrow> 'q \<Rightarrow> 'o \<Rightarrow> gctx \<Rightarrow> 'l api \<Rightarrow> 'l api"
    and recorded :: "req_io \<Rightarrow> 'q \<Rightarrow> 'o \<Rightarrow> 'l TraceCtx \<Rightarrow> TraceContext \<Rightarrow> pcall list"
    and noted :: "'o \<Rightarrow> int \<Rightarrow> int"
    and failure :: "'o \<Rightarrow> thr option"
  assumes ends: "\<not> off (hApi H) \<Longrightarrow> Ctx (handles w h) \<noteq> None \<Longrightarrow>
     \<exists>w1. own_update w h (recorded io r res (handles w h) (ctxOf w h)) w1 \<and>
          TraceCtx.Status (handles w1 h) = noted res (TraceCtx.Status (handles w h)) \<and>
          deferred io r res (Context (Some h)) w =
            snd (End (hApi H) (ioGid io) (ioEnd io) (ioNow io) (failure res) (Context (Some h)) w1)"
begin

lemma reported:
  assumes "apart s" and "h \<in> live s" and "\<not> off (hApi H)"
  shows "sent_as (world s) (deferred io r res (Context (Some h)) (world s)) (ctxOf (world s) h)
      (noted res (TraceCtx.Status (handles (world s) h)))
      (recorded io r res (handles (world s) h) (ctxOf (world s) h) @
       errorCalls (hApi H) (ioEnd io) (StartTime (ctxOf (world s) h)) (failure res))"
    and "\<exists>us. use_runs (hApi H) s us
      \<lparr>world = deferred io r res (Context (Some h)) (world s), live = live s - {h},
       queued = (if IsStaticContents (ctxOf (world s) h) then queued s else insert (agentOf (world s) h) (queued s))\<rparr>"
proof -
  let ?w = "world s"
  from ends [OF assms(3) apartD(3) [OF assms(1,2)]] obtain w1 where
    u: "own_update ?w h (recorded io r res (handles ?w h) (ctxOf ?w h)) w1" and
    st: "TraceCtx.Status (handles w1 h) = noted res (TraceCtx.Status (handles ?w h))" and
    d: "deferred io r res (Context (Some h)) ?w =
        snd (End (hApi H) (ioGid io) (ioEnd io) (ioNow io) (failure res) (Context (Some h)) w1)" by blast
  note f = own_update_fields [OF u]
  have ctx: "Ctx (handles w1 h) \<noteq> None" using apartD(3) [OF assms(1,2)] f(2) by simp
  have same: "StartTime (ctxOf w1 h) = StartTime (ctxOf ?w h)" "IsStaticContents (ctxOf w1 h) = IsStaticContents (ctxOf ?w h)"
    using f(1,5) by (simp_all add: extends_def)
  obtain q w' where e: "End (hApi H) (ioGid io) (ioEnd io) (ioNow io) (failure res) (Context (Some h)) w1 = (q, w')" by force
  show "sent_as ?w (deferred io r res (Context (Some h)) ?w) (ctxOf ?w h) (noted res (TraceCtx.Status (handles ?w h)))
      (recorded io r res (handles ?w h) (ctxOf ?w h) @ errorCalls (hApi H) (ioEnd io) (StartTime (ctxOf ?w h)) (failure res))"
    using sent_as_update [OF u End_sent_as [OF assms(3) ctx e]] d e st same by simp
  have "use_runs (hApi H) s ([] @ [UUse h (recorded io r res (handles ?w h) (ctxOf ?w h))]) (s\<lparr>world := w1\<rparr>)"
    by (rule use_runs.more [OF use_runs.none use_step.used [OF assms(2) u]])
  from use_runs.more [OF this use_step.finished [OF assms(3) _ , of h "s\<lparr>world := w1\<rparr>"]] assms(2) e
  show "\<exists>us. use_runs (hApi H) s us
      \<lparr>world = deferred io r res (Context (Some h)) ?w, live = live s - {h},
       queued = (if IsStaticContents (ctxOf ?w h) then queued s else insert (agentOf ?w h) (queued s))\<rparr>"
    using d same f(1) by fastforce
qed

end

subsection \<open>The start of a request\<close>

definition headerCalls :: "http_env \<Rightarrow> int \<Rightarrow> header \<Rightarrow> 'l TraceCtx \<Rightarrow> TraceContext \<Rightarrow> pcall list" where
  "headerCalls H sysNow m t c =
     (if \<not> off_trace H \<and> ProfileHttpHeaderEnabled H \<and> HasPrefix (Name t) (ProfileHttpHeaderUrlPrefix H)
      then [PAdd (MessageStep (i32 (sysNow - StartTime c)) 0 (i32 (hashOf (agentEnv (hApi H)) ''HTTP_HEADERS'')) 0 (ParseHeader H m))]
      else [])"

lemma update_SetHeader:
  assumes "Ctx (handles w h) \<noteq> None"
  shows "own_update w h (headerCalls H sysNow m (handles w h) (ctxOf w h)) (SetHeader H g sysNow (Context (Some h)) m w)"
proof -
  obtain a where a: "Ctx (handles w h) = Some a" using assms by auto
  let ?f = "ProfileMsg (agentEnv (hApi H)) sysNow ''HTTP_HEADERS'' (ParseHeader H m) 0 0"
  have "extends (ctxOf w h) [PAdd (MessageStep (i32 (sysNow - StartTime (ctxOf w h))) 0
      (i32 (hashOf (agentEnv (hApi H)) ''HTTP_HEADERS'')) 0 (ParseHeader H m))] (fst (?f (ctxOf w h)))"
    "sentTx (snd (?f (ctxOf w h))) = []"
    by (simp_all add: extends_def ProfileMsg_def Let_def i32_def)
  from update_withAgent [where f = ?f, OF this] a show ?thesis
    by (simp add: SetHeader_def headerCalls_def GetTraceContext_def agentOf_def)
qed

lemma StartWithRequest_idle:
  assumes "\<not> off (hApi H)" and "idle (hApi H) (ioGid io) (rqCtx r) w" and "StartWithRequest H io r w = Inr (c, w')"
  obtains h w1 w2 where "c = Context (Some h)" "NewTraceContext (hApi H) (ioGid io) (ioPicks io) w = (h, w1)"
    "startHandle (hApi H) (rqHeader r) h (rqURI r) (ioStart io) (prepRequest H r) w1 = Inr w2"
    "w' = SetHeader H (ioGid io) (ioHeader io) (Context (Some h)) (rqHeader r) w2"
proof -
  have "StartWithRequest H io r w = startRequest H io r w"
    using assms(1,2) by (auto simp: StartWithRequest_def idle_def split: prod.splits option.splits)
  with assms(3) that show thesis by (auto simp: startRequest_def bindGo_Inr_iff Let_def split: prod.splits)
qed

lemma request_started:
  assumes "apart s" and "\<not> off (hApi H)" and "idle (hApi H) (ioGid io) (rqCtx r) (world s)"
    and "StartWithRequest H io r (world s) = Inr (Context (Some h), w')"
  shows "h \<notin> live s" and "apart (s\<lparr>world := w', live := insert h (live s)\<rparr>)"
    and "Txid (ctxOf w' h) = keygen (env_lib (agentEnv (hApi H))) (keyPos (world s))"
    and "StartTime (ctxOf w' h) = ioStart io" and "TraceCtx.Txid (handles w' h) = keygen (env_lib (agentEnv (hApi H))) (keyPos (world s))"
    and "\<exists>us. use_runs (hApi H) s us (s\<lparr>world := w', live := insert h (live s)\<rparr>)"
proof -
  obtain h' w1 w2 where "Context (Some h) = Context (Some h')"
    and n': "NewTraceContext (hApi H) (ioGid io) (ioPicks io) (world s) = (h', w1)"
    and t': "startHandle (hApi H) (rqHeader r) h' (rqURI r) (ioStart io) (prepRequest H r) w1 = Inr w2"
    and w'': "w' = SetHeader H (ioGid io) (ioHeader io) (Context (Some h')) (rqHeader r) w2"
    by (rule StartWithRequest_idle [OF assms(2-4)])
  then have "h' = h" by simp
  note n = n' [unfolded this] and t = t' [unfolded this] and w' = w'' [unfolded this]
  note f = fresh_apart [OF assms(1) n t]
  let ?s = "s\<lparr>world := w2, live := insert h (live s)\<rparr>"
  have ctx: "Ctx (handles w2 h) \<noteq> None" using apartD(3) [OF f(2)] by simp
  have u: "own_update w2 h (headerCalls H (ioHeader io) (rqHeader r) (handles w2 h) (ctxOf w2 h)) w'"
    using update_SetHeader [OF ctx] w' by simp
  show "h \<notin> live s" by (rule f(1))
  have e: "?s\<lparr>world := w'\<rparr> = s\<lparr>world := w', live := insert h (live s)\<rparr>" by (cases s) simp
  have l: "h \<in> live ?s" and u': "own_update (world ?s) h (headerCalls H (ioHeader io) (rqHeader r) (handles w2 h) (ctxOf w2 h)) w'" using u by simp_all
  show "apart (s\<lparr>world := w', live := insert h (live s)\<rparr>)" using apart_update [OF f(2) l u'] e by simp
  from use_runs.more [OF use_runs.more [OF use_runs.none use_step.begun [OF assms(2) n t]] use_step.used [OF l u']]
  show "\<exists>us. use_runs (hApi H) s us (s\<lparr>world := w', live := insert h (live s)\<rparr>)" unfolding e by blast
  let ?k = "keygen (env_lib (agentEnv (hApi H))) (keyPos (world s))"
  obtain a base tt where e: "Ctx tt = Some a" "handles w2 = (handles (world s))(h := tt)" "TraceCtx.Txid tt = ?k"
    "agents w2 = (agents (world s))(a := fst (startedAgent (hApi H) ?k (ioGid io) (ioStart io) (prepRequest H r) base))"
    by (rule fresh_effect [OF n t apart_pools(1-4) [OF assms(1)]]) (rule that)
  have "Txid (ctxOf w2 h) = ?k \<and> StartTime (ctxOf w2 h) = ioStart io"
    using e StartTx_fields [of "agentEnv (hApi H)" "agentConf (hApi H)"] by (simp add: agentOf_def startedAgent_def prepRequest_def Let_def)
  then show "Txid (ctxOf w' h) = ?k" "StartTime (ctxOf w' h) = ioStart io"
    using own_update_fields(1,5) [OF u] by (simp_all add: extends_def)
  show "TraceCtx.Txid (handles w' h) = ?k" using own_update_fields(12) [OF u, of h] e(2,3) by simp
qed

context web_middleware
begin

lemma whole_request:
  assumes "apart s1" and "h \<in> live s1" and "\<not> off (hApi H)" and "use_runs (hApi H) s1 us s2" and "UFinish h \<notin> set us"
  shows "\<exists>x. sentTx (evs (deferred io r res (Context (Some h)) (world s2))) =
      sentTx (evs (world s2)) @ (if IsStaticContents (ctxOf (world s1) h) then [] else [x]) \<and>
    Txid x = Txid (ctxOf (world s1) h) \<and>
    Status x = noted res (TraceCtx.Status (handles (world s2) h)) \<and>
    Profile x = Profile (ctxOf (world s1) h) @ usedBy h us @ recorded io r res (handles (world s2) h) (ctxOf (world s2) h) @
      errorCalls (hApi H) (ioEnd io) (StartTime (ctxOf (world s1) h)) (failure res)"
proof -
  from use_runs_ok [OF assms(4,1)] assms(2,5) have s2: "apart s2" "h \<in> live s2" "carried (world s1) h (usedBy h us) (world s2)" by auto
  from reported(1) [OF s2(1,2) assms(3), of io r res] s2(3) show ?thesis
    by (auto simp: sent_as_def carried_def extends_def)
qed

end

subsection \<open>The wrapper is a middleware\<close>

definition formCalls :: "http_env \<Rightarrow> req_io \<Rightarrow> request \<Rightarrow> header option \<Rightarrow> 'l TraceCtx \<Rightarrow> TraceContext \<Rightarrow> pcall list" where
  "formCalls H io r form t c =
     (case form of
        None \<Rightarrow> []
      | Some m \<Rightarrow> if \<not> off_trace H \<and> ProfileHttpParameterEnabled H \<and> HasPrefix (rqURI r) (ProfileHttpParameterUrlPrefix H) \<and>
                     HasPrefix (Name t) (ProfileHttpParameterUrlPrefix H)
                  then secureCalls H (ioParam io) ''HTTP-PARAMS'' (ParseParameter H m) c else [])"

lemma formCalls_cong:
  assumes "extends c ps c'" and "Name t' = Name t"
  shows "formCalls H io r form t' c' = formCalls H io r form t c"
  using assms by (auto simp: formCalls_def secureCalls_def secureText_def extends_def split: option.split sum.split prod.split)

lemma update_SetParameter:
  assumes "Ctx (handles w h) \<noteq> None"
  shows "own_update w h
     (case form of None \<Rightarrow> [] | Some m \<Rightarrow>
        if \<not> off_trace H \<and> ProfileHttpParameterEnabled H \<and> HasPrefix (Name (handles w h)) (ProfileHttpParameterUrlPrefix H)
        then secureCalls H sysNow ''HTTP-PARAMS'' (ParseParameter H m) (ctxOf w h) else [])
     (SetParameter H g sysNow (Context (Some h)) form w)"
proof -
  obtain a where a: "Ctx (handles w h) = Some a" using assms by auto
  have "own_update w h (secureCalls H sysNow ''HTTP-PARAMS'' (ParseParameter H m) (ctxOf w h))
      (Trace_Api.withAgent a (ProfileSecureMsg H sysNow ''HTTP-PARAMS'' (ParseParameter H m)) w)" for m
    using update_withAgent [where f = "ProfileSecureMsg H sysNow ''HTTP-PARAMS'' (ParseParameter H m)", OF extends_ProfileSecureMsg, of w h] a
    by (simp add: agentOf_def)
  then show ?thesis using a by (simp add: SetParameter_def GetTraceContext_def split: option.splits)
qed

lemma update_traceForm:
  assumes "Ctx (handles w h) \<noteq> None"
  shows "own_update w h (formCalls H io r form (handles w h) (ctxOf w h)) (traceForm H io r form (Context (Some h)) w)"
  using update_SetParameter [OF assms, where form = form and H = H and sysNow = "ioParam io" and g = "ioGid io"]
  by (auto simp: traceForm_def formCalls_def SetParameter_def split: option.splits)

lemma update_giveCookie: "own_update w h [] (snd (giveCookie H r (p, w)))"
  using update_keyPos by (auto simp: giveCookie_def GetWhatapCookie_def Let_def split: option.splits prod.splits)

lemma giveCookie_status: "handles (snd (giveCookie H r (p, w))) = handles w"
  by (simp add: giveCookie_def GetWhatapCookie_def Let_def split: option.splits prod.splits)

lemma Error_handles: "handles (Trace_Api.Error E g sysNow err c w) = handles w"
  by (simp add: Trace_Api.Error_def split: option.splits prod.splits)

lemma traceForm_handles: "handles (traceForm H io r form c w) = handles w"
  by (simp add: traceForm_def SetParameter_def split: option.splits)

lemma setStatus_handles:
  "handles (setStatus H g (Context (Some h)) n w) = (handles w)(h := (handles w h)\<lparr>TraceCtx.Status := i32 n\<rparr>)"
  by (simp add: setStatus_def GetTraceContext_def)

definition func_after :: "http_env \<Rightarrow> req_io \<Rightarrow> request \<Rightarrow> response \<times> 'l handled \<Rightarrow> gctx \<Rightarrow> 'l api \<Rightarrow> 'l api" where
  "func_after H io r res c w = snd (snd (Func_deferred H io r (fst res) ((snd res)\<lparr>hdWorld := w\<rparr>) c))"

definition func_status :: "response \<times> 'l handled \<Rightarrow> int" where
  "func_status res = wrStatus (fold wr_do (hdCalls (snd res)) (wrapWriter (fst res)))"

definition func_recorded :: "http_env \<Rightarrow> req_io \<Rightarrow> request \<Rightarrow> response \<times> 'l handled \<Rightarrow> 'l TraceCtx \<Rightarrow> TraceContext \<Rightarrow> pcall list" where
  "func_recorded H io r res t c =
     errorCalls (hApi H) (ioPanic io) (StartTime c) (map_option Errorf (hdPanic (snd res))) @ formCalls H io r (hdForm (snd res)) t c"

text \<open>A panic, the status and the parameters are recorded in this order by all middlewares.\<close>

lemma update_panic_status_form:
  assumes "\<not> off (hApi H)" and "Ctx (handles w h) \<noteq> None"
    and "w1 = panicError H io text x (Context (Some h)) w" and "w2 = setStatus H (ioGid io) (Context (Some h)) n w1"
    and "w3 = traceForm H io r form (Context (Some h)) w2"
  shows "own_update w h (errorCalls (hApi H) (ioPanic io) (StartTime (ctxOf w h)) (map_option (\<lambda>v. Errorf (text v)) x) @
           formCalls H io r form (handles w h) (ctxOf w h)) w3" and "TraceCtx.Status (handles w3 h) = i32 n"
    and "Ctx (handles w3 h) \<noteq> None"
proof -
  let ?e = "errorCalls (hApi H) (ioPanic io) (StartTime (ctxOf w h)) (map_option (\<lambda>v. Errorf (text v)) x)"
  have 1: "own_update w h ?e w1" using update_Error [OF assms(1,2)] by (simp add: assms(3) panicError_def)
  have 2: "own_update w1 h [] w2" using update_setStatus by (simp add: assms(4))
  have 12: "own_update w h ?e w2" using own_update_trans [OF 1 2] by simp
  note f = own_update_fields [OF 12]
  have ctx: "Ctx (handles w2 h) \<noteq> None" using assms(2) f(2) by simp
  have nm: "Name (handles w2 h) = Name (handles w h)"
    by (simp add: assms(3,4) setStatus_handles panicError_def Error_handles)
  have "extends (ctxOf w h) ?e (ctxOf w2 h)" using f(1,5) by simp
  from update_traceForm [OF ctx, of H io r form] formCalls_cong [OF this nm]
  have 3: "own_update w2 h (formCalls H io r form (handles w h) (ctxOf w h)) w3" by (simp add: assms(5))
  from own_update_trans [OF 12 3] show "own_update w h (?e @ formCalls H io r form (handles w h) (ctxOf w h)) w3" .
  show "TraceCtx.Status (handles w3 h) = i32 n" by (simp add: assms(4,5) setStatus_handles traceForm_handles)
  show "Ctx (handles w3 h) \<noteq> None" using ctx by (simp add: assms(5) traceForm_handles)
qed

interpretation func_wrapper: web_middleware H "func_after H" "func_recorded H" "\<lambda>res _. i32 (func_status res)"
    "\<lambda>res. statusError funcStatus (func_status res)" for H
proof
  fix w :: "'a api" and h io r and res :: "response \<times> 'a handled"
  assume on: "\<not> off (hApi H)" and ctx: "Ctx (handles w h) \<noteq> None"
  let ?c = "Context (Some h)" and ?x = "hdPanic (snd res)"
  define w1 where "w1 = panicError H io (\<lambda>v. v) ?x ?c w"
  define w2 where "w2 = setStatus H (ioGid io) ?c (func_status res) w1"
  define w3 where "w3 = traceForm H io r (hdForm (snd res)) ?c w2"
  note u = update_panic_status_form [OF on ctx w1_def w2_def w3_def]
  define w4 where "w4 = snd (giveCookie H r (ResponseWriter (fold wr_do (hdCalls (snd res)) (wrapWriter (fst res))), w3))"
  have "own_update w h (func_recorded H io r res (handles w h) (ctxOf w h)) w4"
    using own_update_trans [OF u(1) update_giveCookie] by (simp add: w4_def func_recorded_def)
  moreover have "TraceCtx.Status (handles w4 h) = i32 (func_status res)" using u(2) by (simp add: w4_def giveCookie_status)
  moreover have "func_after H io r res ?c w =
      snd (End (hApi H) (ioGid io) (ioEnd io) (ioNow io) (statusError funcStatus (func_status res)) ?c w4)"
    by (simp add: func_after_def Func_deferred_def w1_def w2_def w3_def w4_def func_status_def Let_def split: prod.splits)
  ultimately show "\<exists>w1. own_update w h (func_recorded H io r res (handles w h) (ctxOf w h)) w1 \<and>
      TraceCtx.Status (handles w1 h) = i32 (func_status res) \<and>
      func_after H io r res ?c w = snd (End (hApi H) (ioGid io) (ioEnd io) (ioNow io) (statusError funcStatus (func_status res)) ?c w1)"
    by blast
qed

subsection \<open>Properties\<close>


text \<open>A request whose handler writes and then panics.\<close>

definition httpEnv1 :: http_env where
  "httpEnv1 = \<lparr>hApi = apiEnv1, hSec = \<lparr>lasttime = 0, key = [1], KeyHash = 0\<rparr>, hUni = (\<lambda>s. s), hIpInt = (\<lambda>s. 7), hLineEnd = [CHR 0x0A],
     hQuery = (\<lambda>u. Inr []), ProfileHttpHeaderEnabled = True, ProfileHttpHeaderUrlPrefix = ''/'',
     ProfileHttpHeaderIgnoreKeys = [''cookie'', ''authorization''],
     ProfileHttpParameterEnabled = False, ProfileHttpParameterUrlPrefix = ''/'', TraceUserEnabled = True, TraceUserUsingIp = True,
     TraceUserHeaderTicketEnabled = False, TraceUserHeaderTicket = [], TraceUserCookieKeys = [], TraceUserSetCookie = True,
     TraceHttpClientIpHeaderKeyEnabled = True, TraceHttpClientIpHeaderKey = ''x-forwarded-for'', TransactionEnabled = True, GoRecoverEnabled = False\<rparr>"

definition request1 :: request where
  "request1 = \<lparr>rqMethod = ''GET'', rqURI = ''/a'', rqHost = ''h'', rqRemoteAddr = ''10.0.0.1:99'', rqHeader = [], rqCookies = [], rqCtx = NilContext\<rparr>"

definition io1 :: req_io where
  "io1 = \<lparr>ioGid = 7, ioPicks = (None, None), ioStart = 100, ioHeader = 101, ioPanic = 110, ioError = 110, ioParam = 111, ioEnd = 112, ioNow = 112\<rparr>"

definition handler1 :: "gctx \<Rightarrow> unit api \<Rightarrow> unit handled" where
  "handler1 c w = \<lparr>hdWorld = w, hdCalls = [WWrite ''ok''], hdForm = None, hdPanic = Some ''boom''\<rparr>"

definition response0 :: response where
  "response0 = \<lparr>rsHeader = [], rsSent = None, rsBody = []\<rparr>"

lemma request1_starts:
  "\<exists>w. StartWithRequest httpEnv1 io1 request1 newApi = Inr (Context (Some 0), (w :: unit api)) \<and>
   \<not> IsStaticContents (ctxOf w 0) \<and> Profile (ctxOf w 0) = [PAdd (MessageStep 1 0 12 0 [])]"
  by (simp add: StartWithRequest_def startRequest_def SetHeader_def NewTraceContext_def PoolTraceContext_def agent_Pool_def poolGet_def GetTraceContext_def
    GetGIDTraceCtx_def AddGIDTraceCtx_def startHandle_def UpdateMtrace_def StartTx_def startName_def startUrl_def startHost_def startRegister_def
    prepRequest_def httpEnv1_def request1_def io1_def apiEnv1_def agentEnv1_def agentConf1_def mconf1_def lib1_def newApi_def NewTraceCtx_def
    Trace_Agent.NewTraceContext_def hashOf_def ParseHeader_def ProfileMsg_def Trace_Api.withAgent_def agentOf_def HasPrefix_def i32_def Let_def)


text \<open>The status that is noted is the one the client receives, if the handler neither flushes nor sends an informational
  status; if the handler has sent nothing when it returns, 0 is noted.\<close>

definition plainCall :: "wcall \<Rightarrow> bool" where
  "plainCall c \<longleftrightarrow> (case c of WWriteHeader n \<Rightarrow> \<not> informational n | WFlush \<Rightarrow> False | _ \<Rightarrow> True)"

definition noted_ok :: "WrapResponseWriter \<Rightarrow> bool" where
  "noted_ok l \<longleftrightarrow>
     (case rsSent (ResponseWriter l) of None \<Rightarrow> \<not> wroteHeader l \<and> wrStatus l = 0 | Some (n, hs) \<Rightarrow> wroteHeader l \<and> wrStatus l = n)"

lemma wr_do_noted: "plainCall c \<Longrightarrow> noted_ok l \<Longrightarrow> noted_ok (wr_do c l)"
  by (cases c) (auto simp: plainCall_def noted_ok_def wr_do_def wr_WriteHeader_def wr_Write_def rs_do_def rs_WriteHeader_def rs_Write_def
    informational_def Let_def split: option.splits)

lemma wr_fold_noted: "list_all plainCall cs \<Longrightarrow> noted_ok l \<Longrightarrow> noted_ok (fold wr_do cs l)"
  by (induction cs arbitrary: l) (auto simp: wr_do_noted)

theorem status_as_sent:
  assumes "list_all plainCall cs" and "rsSent p = None" and "l = fold wr_do cs (wrapWriter p)"
  shows "wrStatus l = (case rsSent (ResponseWriter l) of None \<Rightarrow> 0 | Some (n, hs) \<Rightarrow> n)"
proof -
  have "noted_ok (wrapWriter p)" using assms(2) by (simp add: noted_ok_def wrapWriter_def)
  from wr_fold_noted [OF assms(1) this] show ?thesis by (auto simp: assms(3) noted_ok_def split: option.splits)
qed

theorem status_as_sent_witness:
  "wrStatus (fold wr_do [WHeader ''X'' ''1'', WWriteHeader 404, WWriteHeader 500, WWrite ''gone''] (wrapWriter response0)) = 404"
  using status_as_sent [OF _ _ refl, of "[WHeader ''X'' ''1'', WWriteHeader 404, WWriteHeader 500, WWrite ''gone'']" response0]
  by (simp add: plainCall_def informational_def response0_def wr_do_def wr_WriteHeader_def wr_Write_def rs_do_def rs_WriteHeader_def rs_Write_def wrapWriter_def Let_def)

text \<open>Where it differs: a handler that writes nothing, one that flushes first, and one that sends an informational status.\<close>

lemma status_not_as_sent:
  "wrStatus (fold wr_do [] (wrapWriter response0)) = 0 \<and> rsSent (rs_finish (ResponseWriter (fold wr_do [] (wrapWriter response0)))) = Some (200, [])"
  "wrStatus (fold wr_do [WFlush, WWriteHeader 500] (wrapWriter response0)) = 500 \<and>
   rsSent (ResponseWriter (fold wr_do [WFlush, WWriteHeader 500] (wrapWriter response0))) = Some (200, [])"
  "wrStatus (fold wr_do [WWriteHeader 103, WWriteHeader 500] (wrapWriter response0)) = 103 \<and>
   rsSent (ResponseWriter (fold wr_do [WWriteHeader 103, WWriteHeader 500] (wrapWriter response0))) = Some (500, [])"
  by (simp_all add: response0_def wr_do_def wr_WriteHeader_def wr_Flush_def rs_do_def rs_WriteHeader_def rs_finish_def informational_def wrapWriter_def Let_def)

text \<open>The cookie comes too late: once the handler has sent anything, what the deferred function adds to the header is not
  sent any more.\<close>

lemma cookie_not_sent:
  "rsSent p = Some s \<Longrightarrow> rsSent (rs_finish (fst (giveCookie H r (p, w)))) = Some s"
  by (cases s) (simp add: giveCookie_def SetWhatapCookie_def rs_do_def rs_finish_def rs_WriteHeader_def Let_def split: prod.splits)

text \<open>C21: the values of the headers that the configuration names do not leave the process: two requests that differ only in
  them are recorded with the same text. The names are compared in lower case, with underscores for dashes.\<close>

definition hiddenKey :: "http_env \<Rightarrow> string \<Rightarrow> bool" where
  "hiddenKey H k \<longleftrightarrow> dashes (ToLower (hUni H) k) \<in> set (ProfileHttpHeaderIgnoreKeys H)"

definition same_but_hidden :: "http_env \<Rightarrow> string \<times> string list \<Rightarrow> string \<times> string list \<Rightarrow> bool" where
  "same_but_hidden H x y \<longleftrightarrow> fst x = fst y \<and> (snd x = [] \<longleftrightarrow> snd y = []) \<and> (snd x = snd y \<or> hiddenKey H (fst x))"

lemma headerLine_hidden: "same_but_hidden H x y \<Longrightarrow> headerLine H x = headerLine H y"
  by (cases "snd x"; cases "snd y") (auto simp: same_but_hidden_def hiddenKey_def headerLine_def)



text \<open>A key without values is recorded without a line end, and joins the next line.\<close>

lemma empty_values_joined:
  "ParseParameter httpEnv1 [(''a'', []), (''b'', [''1''])] = ''a=b=1'' @ [CHR 0x0A]"
  by (simp add: ParseParameter_def paramLine_def httpEnv1_def)

subsection \<open>Addresses\<close>

text \<open>A header with a single address is ignored, since only a value with a comma is used; so is the part of an IPv6 address
  after its first colon.\<close>

lemma single_forwarded_ignored:
  assumes "\<And>k v. (k, v) \<in> set hdr \<Longrightarrow> v \<noteq> [] \<Longrightarrow> CHR '','' \<notin> set (v ! 0)"
  shows "GetRemoteIP H addr hdr = (if off_trace H then [] else hd (splitOn CHR '':'' addr))"
proof -
  have "headerIP H hdr = None"
  proof (cases "find (\<lambda>kv. lowerTrim H (fst kv) = lowerTrim H (TraceHttpClientIpHeaderKey H)) hdr")
    case (Some kv)
    then have "kv \<in> set hdr" by (auto simp: find_Some_iff)
    then show ?thesis using Some assms [of "fst kv" "snd kv"] by (cases "snd kv") (auto simp: headerIP_def Index_char_none split: prod.splits)
  qed (simp add: headerIP_def)
  then show ?thesis by (simp add: GetRemoteIP_def)
qed

lemma ipv6_cut: "\<not> off_trace H \<Longrightarrow> GetRemoteIP H (''[::1]:8080'') [] = ''[''"
  by (simp add: GetRemoteIP_def headerIP_def)

lemma first_of_several:
  assumes "\<not> off_trace H" and "TraceHttpClientIpHeaderKeyEnabled H" and "lowerTrim H k = lowerTrim H (TraceHttpClientIpHeaderKey H)"
    and "CHR '','' \<notin> set ip"
  shows "GetRemoteIP H addr [(k, [ip @ '','' @ others])] = TrimSpace ip"
  using assms Index_char_some [OF assms(4), of others] splitOn_word [OF assms(4), of others]
  by (simp add: GetRemoteIP_def headerIP_def)

subsection \<open>Requests that go wrong\<close>

context web_middleware
begin

lemma closed:
  assumes "\<not> off (hApi H)" and "Ctx (handles w h) \<noteq> None"
  shows "Ctx (handles (deferred io r res (Context (Some h)) w) h) = None" "h \<in> set (handlePool (deferred io r res (Context (Some h)) w))"
proof -
  from ends [OF assms] obtain ps w1 where u: "own_update w h ps w1" and
    d: "deferred io r res (Context (Some h)) w = snd (End (hApi H) (ioGid io) (ioEnd io) (ioNow io) (failure res) (Context (Some h)) w1)" by blast
  have ctx: "Ctx (handles w1 h) \<noteq> None" using own_update_fields(2) [OF u] assms(2) by simp
  obtain q w' where e: "End (hApi H) (ioGid io) (ioEnd io) (ioNow io) (failure res) (Context (Some h)) w1 = (q, w')" by force
  from End_fields(2,3) [OF assms(1) ctx e] d e
  show "Ctx (handles (deferred io r res (Context (Some h)) w) h) = None" "h \<in> set (handlePool (deferred io r res (Context (Some h)) w))"
    by (simp_all add: TraceCtx_Clear_def NewTraceCtx_def)
qed

end

text \<open>A handler wrapped twice, by a router and by itself, is ended by the inner wrapper: its start finds the transaction
  that is open and uses it, and its end sends it and puts the handle into the pool while the outer request is still running. What
  the outer handler records afterwards is lost, and once another request has taken the handle from the pool it goes there.\<close>
theorem nested_wrapper_ends_outer:
  assumes "use_runs (hApi H) sys0 us0 s" and "h \<in> live s" and "\<not> off (hApi H)" and "TransactionEnabled H"
    and "rqCtx r = Context (Some h)" and "TraceCtx.Txid (handles (world s) h) \<noteq> 0"
    and "res = handler (Context (Some h)) (world s)" and "use_runs (hApi H) s us s2" and "UFinish h \<notin> set us" and "hdWorld res = world s2"
  shows "\<exists>x' p' w' x. Func H io handler r p (world s) = Inr (x', p', w') \<and>
     sentTx (evs w') = sentTx (evs (world s2)) @ (if IsStaticContents (ctxOf (world s) h) then [] else [x]) \<and>
     Txid x = Txid (ctxOf (world s) h) \<and> h \<in> set (handlePool w') \<and>
     snd (Step (hApi H) g sysNow title message el val (Context (Some h)) w') = w'"
proof -
  have ap: "apart s" using use_runs_ok [OF assms(1)] apart_sys0 by blast
  from use_runs_ok [OF assms(8) ap] assms(2,9) have s2: "apart s2" "h \<in> live s2" "carried (world s) h (usedBy h us) (world s2)" by auto
  have "StartWithRequest H io r (world s) = Inr (Context (Some h), world s)"
    using assms(3,5,6) by (simp add: StartWithRequest_def GetTraceContext_def)
  then have fn: "Func H io handler r p (world s) = Inr (Func_deferred H io r p res (Context (Some h)))"
    using assms(3,4,7) by (simp add: Func_def)
  have "res\<lparr>hdWorld := world s2\<rparr> = res" using assms(10) by (cases res) simp
  then have w': "snd (snd (Func_deferred H io r p res (Context (Some h)))) = func_after H io r (p, res) (Context (Some h)) (world s2)"
    by (simp add: func_after_def)
  note cl = func_wrapper.closed [OF assms(3) apartD(3) [OF s2(1,2)], of io r "(p, res)"]
  have "snd (Step (hApi H) g sysNow title message el val (Context (Some h)) (func_after H io r (p, res) (Context (Some h)) (world s2))) =
      func_after H io r (p, res) (Context (Some h)) (world s2)"
    using cl(1) by (simp add: Step_def GetTraceContext_def)
  with func_wrapper.reported(1) [OF s2(1,2) assms(3), of io r "(p, res)"] s2(3) fn w' cl(2) show ?thesis
    by (cases "Func_deferred H io r p res (Context (Some h))") (auto simp: sent_as_def carried_def extends_def)
qed

text \<open>C39: a request with a malformed trace id never reaches its handler: the start panics before the deferred function is
  installed, so neither is the panic recorded nor the handle removed from the table of goroutines.\<close>
theorem short_trace_id_stops_request:
  assumes "\<not> off (hApi H)" and "TransactionEnabled H" and "MtraceEnabled (mtraceConf (hApi H))"
    and "idle (hApi H) (ioGid io) (rqCtx r) w"
    and "val = headerGet (addAll (rqHeader r) []) (TraceMtraceTraceparentKey (mtraceConf (hApi H)))" and "val \<noteq> []"
    and "arr = split (env_lib (agentEnv (hApi H))) (TrimSpace val) ''-''" and "4 \<le> length arr" and "length (arr ! 1) < 16"
  shows "Func H io handler r p w = Inl IndexOutOfRange"
proof -
  obtain h w1 where n: "NewTraceContext (hApi H) (ioGid io) (ioPicks io) w = (h, w1)" by force
  have "UpdateMtrace (env_lib (agentEnv (hApi H))) (mtraceConf (hApi H)) (rqHeader r) (t, k) = Inl IndexOutOfRange" for t :: "'a TraceCtx" and k
    using assms(1,3,5-9) by (simp add: UpdateMtrace_def readTraceparent_def Let_def)
  then have "startRequest H io r w = Inl IndexOutOfRange" using n by (simp add: startRequest_def startHandle_def)
  then have "StartWithRequest H io r w = Inl IndexOutOfRange"
    using assms(1,4) by (auto simp: StartWithRequest_def idle_def split: prod.splits option.splits)
  then show ?thesis using assms(1,2) by (simp add: Func_def)
qed

definition nested1 :: request where
  "nested1 = request1\<lparr>rqCtx := Context (Some 0)\<rparr>"

theorem nested_wrapper_ends_outer_witness:
  "\<exists>w x' p' w' x. StartWithRequest httpEnv1 io1 request1 newApi = Inr (Context (Some 0), w) \<and>
     Func httpEnv1 io1 handler1 nested1 response0 w = Inr (x', p', w') \<and>
     sentTx (evs w') = sentTx (evs w) @ [x] \<and> Txid x = 1 \<and> 0 \<in> set (handlePool w') \<and>
     snd (Step (hApi httpEnv1) 7 120 ''t'' ''m'' 5 0 (Context (Some 0)) w') = w'"
proof -
  let ?s = "sys0 :: unit sys"
  obtain w :: "unit api" where st: "StartWithRequest httpEnv1 io1 request1 (world ?s) = Inr (Context (Some 0), w)"
    and c: "\<not> IsStaticContents (ctxOf w 0)"
    using request1_starts by (auto simp: sys0_def)
  have i: "idle (hApi httpEnv1) (ioGid io1) (rqCtx request1) (world ?s)"
    by (simp add: idle_def GetTraceContext_def GetGIDTraceCtx_def sys0_def newApi_def request1_def)
  have on: "\<not> off (hApi httpEnv1)" "TransactionEnabled httpEnv1" using on1 by (simp_all add: httpEnv1_def)
  let ?s1 = "?s\<lparr>world := w, live := insert 0 (live ?s)\<rparr>"
  note rs = request_started [OF apart_sys0 on(1) i st]
  have k: "keygen (env_lib (agentEnv (hApi httpEnv1))) (keyPos (world ?s)) = 1"
    by (simp add: httpEnv1_def apiEnv1_def agentEnv1_def lib1_def sys0_def newApi_def)
  obtain us where us: "use_runs (hApi httpEnv1) ?s us ?s1" using rs(6) by blast
  have "TraceCtx.Txid (handles w 0) \<noteq> 0" using rs(5) k by simp
  then have "\<exists>x' p' w' x. Func httpEnv1 io1 handler1 nested1 response0 (world ?s1) = Inr (x', p', w') \<and>
     sentTx (evs w') = sentTx (evs (world ?s1)) @ (if IsStaticContents (ctxOf (world ?s1) 0) then [] else [x]) \<and>
     Txid x = Txid (ctxOf (world ?s1) 0) \<and> 0 \<in> set (handlePool w') \<and>
     snd (Step (hApi httpEnv1) 7 120 ''t'' ''m'' 5 0 (Context (Some 0)) w') = w'"
    by (intro nested_wrapper_ends_outer [OF us _ on _ _ refl use_runs.none]) (simp_all add: nested1_def handler1_def)
  then show ?thesis using st c rs(3) k by (auto simp: sys0_def)
qed

theorem short_trace_id_stops_request_witness:
  "Func (httpEnv1\<lparr>hApi := apiEnv1\<lparr>mtraceConf := mconf1\<rparr>\<rparr>) io1 handler1
     (request1\<lparr>rqHeader := [(''Traceparent'', [''00-abc-1-01''])]\<rparr>) response0 newApi = Inl IndexOutOfRange"
proof (rule short_trace_id_stops_request [OF _ _ _ _ refl _ refl])
  let ?H = "httpEnv1\<lparr>hApi := apiEnv1\<lparr>mtraceConf := mconf1\<rparr>\<rparr>" and ?r = "request1\<lparr>rqHeader := [(''Traceparent'', [''00-abc-1-01''])]\<rparr>"
  have v: "headerGet (addAll [(''Traceparent'', [''00-abc-1-01''])] []) ''traceparent'' = ''00-abc-1-01''" by code_simp
  have a: "splitOn CHR ''-'' (TrimSpace ''00-abc-1-01'') = [''00'', ''abc'', ''1'', ''01'']" by code_simp
  show "headerGet (addAll (rqHeader ?r) []) (TraceMtraceTraceparentKey (mtraceConf (hApi ?H))) \<noteq> []"
    by (simp add: v mconf1_def)
  show "4 \<le> length (split (env_lib (agentEnv (hApi ?H))) (TrimSpace (headerGet (addAll (rqHeader ?r) []) (TraceMtraceTraceparentKey (mtraceConf (hApi ?H))))) ''-'')"
    by (simp add: v a mconf1_def apiEnv1_def agentEnv1_def lib1_def)
  show "length (split (env_lib (agentEnv (hApi ?H))) (TrimSpace (headerGet (addAll (rqHeader ?r) []) (TraceMtraceTraceparentKey (mtraceConf (hApi ?H))))) ''-'' ! 1) < 16"
    by (simp add: v a mconf1_def apiEnv1_def agentEnv1_def lib1_def)
qed (simp_all add: httpEnv1_def apiEnv1_def mconf1_def idle_def GetTraceContext_def GetGIDTraceCtx_def newApi_def request1_def)

end
