(* ===== verification/Web_Middleware.thy ===== *)
theory Web_Middleware
  imports Trace_Http
begin

text \<open>
  The middlewares of web frameworks under \<^verbatim>\<open>instrumentation/github.com\<close>: gin, echo (both versions have the same code),
  fasthttp and fiber, and the function wrappers of \<^verbatim>\<open>trace/wrap.go\<close>. The middlewares of chi and mux and the wrappers of
  \<^verbatim>\<open>whataphttp\<close> are \<open>Func\<close> of \<^verbatim>\<open>Trace_Http\<close> around the handler. A framework is third-party code: what it leaves when the
  next handler returns or panics is an argument (\<open>gin_result\<close>, \<open>echo_result\<close>, \<open>fast_result\<close>), its status included.
\<close>

subsection \<open>Gin\<close>

record 'l gin_result =
  gnWorld :: "'l api"
  gnErrors :: "string option"
  gnPanic :: "string option"
  gnStatus :: int
  gnForm :: "header option"

definition panicText :: "string \<Rightarrow> string" where
  "panicText v = ''Panic: '' @ v"

definition statusText :: "int \<Rightarrow> string" where
  "statusText n = ''Status: '' @ itoa n @ '','' @ StatusText n"

definition gin_deferred :: "http_env \<Rightarrow> req_io \<Rightarrow> request \<Rightarrow> 'l gin_result \<Rightarrow> gctx \<Rightarrow> string option \<times> 'l api" where
  "gin_deferred H io r res c =
     (let w0 = Error (hApi H) (ioGid io) (ioError io) (map_option (\<lambda>e. Errorf (''Errors: '' @ e)) (gnErrors res)) c (gnWorld res);
          w1 = panicError H io panicText (gnPanic res) c w0;
          w2 = setStatus H (ioGid io) c (gnStatus res) w1;
          w3 = traceForm H io r (gnForm res) c w2;
          w4 = snd (End (hApi H) (ioGid io) (ioEnd io) (ioNow io) (statusError statusText (gnStatus res)) c w3) in
      (recovered H (gnPanic res), w4))"

definition gin_Middleware ::
  "http_env \<Rightarrow> req_io \<Rightarrow> (gctx \<Rightarrow> 'l api \<Rightarrow> 'l gin_result) \<Rightarrow> request \<Rightarrow> 'l api \<Rightarrow> (string option \<times> 'l api) go" where
  "gin_Middleware H io nextHandler r w =
     (if off_trace H \<or> \<not> TransactionEnabled H then (let res = nextHandler (rqCtx r) w in Inr (gnPanic res, gnWorld res))
      else bindGo (StartWithRequest H io r w) (\<lambda>(c, w1). Inr (gin_deferred H io r (nextHandler c w1) c)))"

subsection \<open>Echo\<close>

text \<open>An error of a handler: how it is recorded and, for an \<^verbatim>\<open>HTTPError\<close>, its code and that of an inner \<^verbatim>\<open>HTTPError\<close>.\<close>

record echo_error =
  eeThr :: thr
  eeHttp :: "(int \<times> int option) option"

record 'l echo_result =
  ecWorld :: "'l api"
  ecErr :: "echo_error option"
  ecPanic :: "string option"
  ecCommitted :: bool
  ecStatus :: int
  ecForm :: "header option"

definition echoCode :: "echo_error \<Rightarrow> int" where
  "echoCode e = (case eeHttp e of None \<Rightarrow> 500 | Some (code, None) \<Rightarrow> code | Some (code, Some inner) \<Rightarrow> inner)"

definition echoFailed :: "'l echo_result \<Rightarrow> echo_error option" where
  "echoFailed res = (if ecPanic res = None then ecErr res else None)"

definition echo_deferred :: "http_env \<Rightarrow> req_io \<Rightarrow> request \<Rightarrow> 'l echo_result \<Rightarrow> gctx \<Rightarrow> string option \<times> 'l api" where
  "echo_deferred H io r res c =
     (let w1 = panicError H io panicText (ecPanic res) c (ecWorld res);
          w2 = (case echoFailed res of
                  None \<Rightarrow> w1
                | Some e \<Rightarrow> Error (hApi H) (ioGid io) (ioError io) (Some (eeThr e)) c (setStatus H (ioGid io) c (echoCode e) w1));
          w3 = (if ecCommitted res then setStatus H (ioGid io) c (ecStatus res) w2 else w2);
          err = (if ecCommitted res then statusError statusText (ecStatus res) else None);
          w4 = traceForm H io r (ecForm res) c w3;
          w5 = snd (End (hApi H) (ioGid io) (ioEnd io) (ioNow io) err c w4) in
      (recovered H (ecPanic res), w5))"

definition echo_Middleware ::
  "http_env \<Rightarrow> req_io \<Rightarrow> (gctx \<Rightarrow> 'l api \<Rightarrow> 'l echo_result) \<Rightarrow> request \<Rightarrow> 'l api \<Rightarrow> (string option \<times> echo_error option \<times> 'l api) go" where
  "echo_Middleware H io nextHandler r w =
     (if off_trace H \<or> \<not> TransactionEnabled H
      then (let res = nextHandler (rqCtx r) w in Inr (ecPanic res, ecErr res, ecWorld res))
      else bindGo (StartWithRequest H io r w) (\<lambda>(c, w1).
        let res = nextHandler c w1; (x, w2) = echo_deferred H io r res c in Inr (x, echoFailed res, w2)))"

definition echo_WrapHTTPErrorHandler :: "http_env \<Rightarrow> req_io \<Rightarrow> ('l api \<Rightarrow> 'l api) option \<Rightarrow> thr option \<Rightarrow> gctx \<Rightarrow> 'l api \<Rightarrow> 'l api" where
  "echo_WrapHTTPErrorHandler H io handler err c w =
     (let w1 = Error (hApi H) (ioGid io) (ioError io) err c w in case handler of None \<Rightarrow> w1 | Some f \<Rightarrow> f w1)"

subsection \<open>Chi, mux and net/http\<close>

definition HandlerFunc ::
  "http_env \<Rightarrow> req_io \<Rightarrow> (gctx \<Rightarrow> 'l api \<Rightarrow> 'l handled) \<Rightarrow> request \<Rightarrow> response \<Rightarrow> 'l api \<Rightarrow> (string option \<times> response \<times> 'l api) go" where
  "HandlerFunc H io handler = Func H io handler"

definition http_WrapHandler ::
  "http_env \<Rightarrow> req_io \<Rightarrow> (gctx \<Rightarrow> 'l api \<Rightarrow> 'l handled) option \<Rightarrow> (request \<Rightarrow> response \<Rightarrow> 'l api \<Rightarrow> (string option \<times> response \<times> 'l api) go) option" where
  "http_WrapHandler H io handler = map_option (HandlerFunc H io) handler"

definition chi_Middleware ::
  "http_env \<Rightarrow> req_io \<Rightarrow> (gctx \<Rightarrow> 'l api \<Rightarrow> 'l handled) \<Rightarrow> request \<Rightarrow> response \<Rightarrow> 'l api \<Rightarrow> (string option \<times> response \<times> 'l api) go" where
  "chi_Middleware H io nextHandler = HandlerFunc H io (\<lambda>c w. nextHandler c w)"

definition mux_Middleware ::
  "http_env \<Rightarrow> req_io \<Rightarrow> (gctx \<Rightarrow> 'l api \<Rightarrow> 'l handled) \<Rightarrow> request \<Rightarrow> response \<Rightarrow> 'l api \<Rightarrow> (string option \<times> response \<times> 'l api) go" where
  "mux_Middleware H io nextHandler = HandlerFunc H io (\<lambda>c w. nextHandler c w)"

subsection \<open>Fasthttp\<close>

record fast_request =
  fqMethod :: string
  fqURI :: string
  fqHost :: string
  fqRemoteAddr :: string
  fqVisits :: "(string \<times> string) list"
  fqCookies :: cookies
  fqReferer :: string
  fqUserAgent :: string
  fqCtx :: gctx

record 'l fast_result =
  frWorld :: "'l api"
  frErr :: "thr option"
  frPanic :: "string option"
  frStatus :: int
  frQuery :: "(string \<times> string) list"
  frPost :: "(string \<times> string) list"
  frRouter :: "(string \<times> string) list"

definition HeaderToMap :: "(string \<times> string) list \<Rightarrow> header" where
  "HeaderToMap vs = fold (\<lambda>kv m. AList.update (fst kv) [snd kv] m) vs []"

definition formAdd :: "string \<Rightarrow> string \<Rightarrow> header \<Rightarrow> header" where
  "formAdd k v m = AList.update k ((case map_of m k of None \<Rightarrow> [] | Some vs \<Rightarrow> vs) @ [v]) m"

definition TraceHttpParameter :: "'l fast_result \<Rightarrow> header" where
  "TraceHttpParameter res = fold (\<lambda>kv. formAdd (fst kv) (snd kv)) (frQuery res @ frPost res) []"

definition UpdateFastHttpMtrace_header :: "(string \<times> string) list \<Rightarrow> header" where
  "UpdateFastHttpMtrace_header vs = HeaderToMap (filter (\<lambda>kv. snd kv \<noteq> []) vs)"

text \<open>The cookie loops assign the configured name and not the value of the cookie.\<close>

definition fast_GetClientId :: "http_env \<Rightarrow> fast_request \<Rightarrow> string \<Rightarrow> string" where
  "fast_GetClientId H r remoteIP =
     (if off (hApi H) \<or> \<not> TraceUserEnabled H \<or> TraceUserUsingIp H then remoteIP
      else (let id1 = (if TraceUserHeaderTicketEnabled H
                       then fold (\<lambda>kv cid. if snd kv \<noteq> [] \<and> lowerTrim H (fst kv) = lowerTrim H (TraceUserHeaderTicket H) then snd kv else cid)
                              (fqVisits r) remoteIP
                       else remoteIP);
                id2 = fold (\<lambda>ck cid. case find (\<lambda>v. lowerTrim H (fst ck) = lowerTrim H v) (TraceUserCookieKeys H) of Some v \<Rightarrow> v | None \<Rightarrow> cid)
                        (fqCookies r) id1 in
            fold (\<lambda>ck cid. case TraceUserCookieKeys H of
                      v # vs \<Rightarrow> if env_upper (agentEnv (hApi H)) (TrimSpace (fst ck)) = WHATAP_COOKIE_NAME then v else cid
                    | [] \<Rightarrow> cid) (fqCookies r) id2))"

definition prepFast :: "http_env \<Rightarrow> fast_request \<Rightarrow> TraceContext \<Rightarrow> TraceContext" where
  "prepFast H r c =
     (let ipaddr = GetRemoteIP H (fqRemoteAddr r) (HeaderToMap (fqVisits r)) in
      c\<lparr>ServiceURL := Some (newURL (hApi H) (fqHost r @ fqURI r)),
        RemoteIp := hIpInt H ipaddr,
        HttpMethod := fqMethod r,
        RefererURL := Some (newURL (hApi H) (fqReferer r)),
        UserAgentString := fqUserAgent r,
        WClientId := hashOf (agentEnv (hApi H)) (fast_GetClientId H r ipaddr)\<rparr>)"

text \<open>There is no test for an open transaction here. The host in the handle is set with the name; nothing reads it.\<close>

definition StartWithFastHttpRequest :: "http_env \<Rightarrow> req_io \<Rightarrow> fast_request \<Rightarrow> 'l api \<Rightarrow> (gctx \<times> 'l api) go" where
  "StartWithFastHttpRequest H io r w =
     (if off (hApi H) then Inr (fqCtx r, w)
      else (let (h, w1) = NewTraceContext (hApi H) (ioGid io) (ioPicks io) w; c = Context (Some h) in
            bindGo (startHandle (hApi H) (UpdateFastHttpMtrace_header (fqVisits r)) h (fqURI r) (ioStart io) (prepFast H r) w1) (\<lambda>w2.
              Inr (c, SetHeader H (ioGid io) (ioHeader io) c (HeaderToMap (fqVisits r))
                        (w2\<lparr>handles := (handles w2)(h := (handles w2 h)\<lparr>Host := fqHost r\<rparr>)\<rparr>)))))"

definition fast_params :: "http_env \<Rightarrow> req_io \<Rightarrow> fast_request \<Rightarrow> header \<Rightarrow> gctx \<Rightarrow> 'l api \<Rightarrow> 'l api" where
  "fast_params H io r form c w =
     (if ProfileHttpParameterEnabled H \<and> HasPrefix (fqURI r) (ProfileHttpParameterUrlPrefix H)
      then SetParameter H (ioGid io) (ioParam io) c (Some form) w else w)"

definition fast_cookie :: "http_env \<Rightarrow> fast_request \<Rightarrow> 'l api \<Rightarrow> 'l api" where
  "fast_cookie H r w =
     (if TraceUserSetCookie H \<and> \<not> list_ex (\<lambda>c. fst c = WHATAP_COOKIE_NAME) (fqCookies r)
      then w\<lparr>keyPos := Suc (keyPos w)\<rparr> else w)"

definition fastError :: "(int \<Rightarrow> string) \<Rightarrow> 'l fast_result \<Rightarrow> thr option" where
  "fastError text res =
     (if frStatus res \<ge> 400 then Some (Errorf (text (frStatus res)))
      else (case frPanic res of Some v \<Rightarrow> Some (Errorf (panicText v)) | None \<Rightarrow> frErr res))"

definition fast_finish ::
  "http_env \<Rightarrow> req_io \<Rightarrow> fast_request \<Rightarrow> (int \<Rightarrow> string) \<Rightarrow> header \<Rightarrow> 'l fast_result \<Rightarrow> gctx \<Rightarrow> string option \<times> 'l api" where
  "fast_finish H io r text form res c =
     (let w1 = panicError H io panicText (frPanic res) c (frWorld res);
          w2 = setStatus H (ioGid io) c (frStatus res) w1;
          w3 = fast_params H io r form c w2;
          w4 = fast_cookie H r w3;
          w5 = snd (End (hApi H) (ioGid io) (ioEnd io) (ioNow io) (fastError text res) c w4) in
      (recovered H (frPanic res), w5))"

definition fast_deferred :: "http_env \<Rightarrow> req_io \<Rightarrow> fast_request \<Rightarrow> 'l fast_result \<Rightarrow> gctx \<Rightarrow> string option \<times> 'l api" where
  "fast_deferred H io r res c = fast_finish H io r funcStatus (TraceHttpParameter res) (res\<lparr>frErr := None\<rparr>) c"

definition fast_Func ::
  "http_env \<Rightarrow> req_io \<Rightarrow> (gctx \<Rightarrow> 'l api \<Rightarrow> 'l fast_result) \<Rightarrow> fast_request \<Rightarrow> 'l api \<Rightarrow> (string option \<times> 'l api) go" where
  "fast_Func H io handler r w =
     (if off_trace H \<or> \<not> TransactionEnabled H then (let res = handler (fqCtx r) w in Inr (frPanic res, frWorld res))
      else bindGo (StartWithFastHttpRequest H io r w) (\<lambda>(c, w1). Inr (fast_deferred H io r (handler c w1) c)))"

subsection \<open>Fiber\<close>

definition traceParams :: "'l fast_result \<Rightarrow> header" where
  "traceParams res = fold (\<lambda>kv. formAdd (''router.'' @ fst kv) (snd kv)) (frRouter res) (TraceHttpParameter res)"

definition fiber_deferred :: "http_env \<Rightarrow> req_io \<Rightarrow> fast_request \<Rightarrow> 'l fast_result \<Rightarrow> gctx \<Rightarrow> string option \<times> 'l api" where
  "fiber_deferred H io r res c = fast_finish H io r statusText (traceParams res) res c"

definition fiber_Middleware ::
  "http_env \<Rightarrow> req_io \<Rightarrow> (gctx \<Rightarrow> 'l api \<Rightarrow> 'l fast_result) \<Rightarrow> fast_request \<Rightarrow> 'l api \<Rightarrow> (string option \<times> thr option \<times> 'l api) go" where
  "fiber_Middleware H io nextHandler r w =
     (if off_trace H \<or> \<not> TransactionEnabled H
      then (let res = nextHandler (fqCtx r) w in Inr (frPanic res, frErr res, frWorld res))
      else bindGo (StartWithFastHttpRequest H io r w) (\<lambda>(c, w1).
        let res = nextHandler c w1; (x, w2) = fiber_deferred H io r res c in
        Inr (x, (if frPanic res = None then frErr res else None), w2)))"

subsection \<open>Wrapped functions\<close>

text \<open>\<^verbatim>\<open>WrapError\<close>, \<^verbatim>\<open>Wrap\<close> and \<^verbatim>\<open>WrapVoid\<close> differ in the values of the function only. A panic of the function passes through.\<close>

definition trace_Wrap ::
  "api_env \<Rightarrow> req_io \<Rightarrow> string \<Rightarrow> gctx \<Rightarrow> ('l api \<Rightarrow> ('r \<times> thr option) go \<times> 'l api) \<Rightarrow> 'l api \<Rightarrow> ('r \<times> thr option) go \<times> 'l api" where
  "trace_Wrap E io name c fn w =
     (case Start E (ioGid io) (ioStart io) (ioPicks io) name c w of
        Inl e \<Rightarrow> (Inl e, w)
      | Inr (c1, w1) \<Rightarrow>
          (case fn w1 of
             (Inl e, w2) \<Rightarrow> (Inl e, w2)
           | (Inr (v, err), w2) \<Rightarrow> (Inr (v, err), snd (End E (ioGid io) (ioEnd io) (ioNow io) err c1 w2))))"

definition trace_WrapError ::
  "api_env \<Rightarrow> req_io \<Rightarrow> string \<Rightarrow> gctx \<Rightarrow> ('l api \<Rightarrow> thr option go \<times> 'l api) \<Rightarrow> 'l api \<Rightarrow> thr option go \<times> 'l api" where
  "trace_WrapError E io name c fn w =
     (let (q, w') = trace_Wrap E io name c (\<lambda>v. case fn v of (Inl e, v') \<Rightarrow> (Inl e, v') | (Inr err, v') \<Rightarrow> (Inr ((), err), v')) w in
      (bindGo q (\<lambda>p. Inr (snd p)), w'))"

definition trace_WrapVoid ::
  "api_env \<Rightarrow> req_io \<Rightarrow> string \<Rightarrow> gctx \<Rightarrow> ('l api \<Rightarrow> unit go \<times> 'l api) \<Rightarrow> 'l api \<Rightarrow> unit go \<times> 'l api" where
  "trace_WrapVoid E io name c fn w =
     (let (q, w') = trace_Wrap E io name c (\<lambda>v. case fn v of (Inl e, v') \<Rightarrow> (Inl e, v') | (Inr u, v') \<Rightarrow> (Inr ((), None), v')) w in
      (bindGo q (\<lambda>p. Inr ()), w'))"

subsection \<open>The middlewares keep the contract\<close>

definition gin_recorded :: "http_env \<Rightarrow> req_io \<Rightarrow> request \<Rightarrow> 'l gin_result \<Rightarrow> 'l TraceCtx \<Rightarrow> TraceContext \<Rightarrow> pcall list" where
  "gin_recorded H io r res t c =
     errorCalls (hApi H) (ioError io) (StartTime c) (map_option (\<lambda>e. Errorf (''Errors: '' @ e)) (gnErrors res)) @
     errorCalls (hApi H) (ioPanic io) (StartTime c) (map_option (\<lambda>v. Errorf (panicText v)) (gnPanic res)) @
     formCalls H io r (gnForm res) t c"

interpretation gin: web_middleware H "\<lambda>io r res c w. snd (gin_deferred H io r (res\<lparr>gnWorld := w\<rparr>) c)" "gin_recorded H"
    "\<lambda>res _. i32 (gnStatus res)" "\<lambda>res. statusError statusText (gnStatus res)" for H
proof
  fix w :: "'a api" and h and io :: req_io and r :: request and res :: "'a gin_result"
  assume on: "\<not> off (hApi H)" and ctx: "Ctx (handles w h) \<noteq> None"
  let ?c = "Context (Some h)" and ?err = "map_option (\<lambda>e. Errorf (''Errors: '' @ e)) (gnErrors res)"
  define w0 where "w0 = Trace_Api.Error (hApi H) (ioGid io) (ioError io) ?err ?c w"
  define w1 where "w1 = panicError H io panicText (gnPanic res) ?c w0"
  define w2 where "w2 = setStatus H (ioGid io) ?c (gnStatus res) w1"
  define w3 where "w3 = traceForm H io r (gnForm res) ?c w2"
  have 0: "own_update w h (errorCalls (hApi H) (ioError io) (StartTime (ctxOf w h)) ?err) w0"
    using update_Error [OF on ctx] by (simp add: w0_def)
  note f = own_update_fields [OF 0]
  have ctx0: "Ctx (handles w0 h) \<noteq> None" using ctx f(2) by simp
  note u = update_panic_status_form [OF on ctx0 w1_def w2_def w3_def]
  have ex: "extends (ctxOf w h) (errorCalls (hApi H) (ioError io) (StartTime (ctxOf w h)) ?err) (ctxOf w0 h)" using f(1,5) by simp
  have nm: "Name (handles w0 h) = Name (handles w h)" by (simp add: w0_def Error_handles)
  have "own_update w h (gin_recorded H io r res (handles w h) (ctxOf w h)) w3"
    using own_update_trans [OF 0 u(1)] ex formCalls_cong [OF ex nm, of H io r "gnForm res"] by (simp add: gin_recorded_def extends_def)
  moreover have "snd (gin_deferred H io r (res\<lparr>gnWorld := w\<rparr>) ?c) =
      snd (End (hApi H) (ioGid io) (ioEnd io) (ioNow io) (statusError statusText (gnStatus res)) ?c w3)"
    by (simp add: gin_deferred_def w0_def w1_def w2_def w3_def Let_def)
  ultimately show "\<exists>w1. own_update w h (gin_recorded H io r res (handles w h) (ctxOf w h)) w1 \<and>
      TraceCtx.Status (handles w1 h) = i32 (gnStatus res) \<and>
      snd (gin_deferred H io r (res\<lparr>gnWorld := w\<rparr>) ?c) =
        snd (End (hApi H) (ioGid io) (ioEnd io) (ioNow io) (statusError statusText (gnStatus res)) ?c w1)"
    using u(2) by blast
qed

definition echo_recorded :: "http_env \<Rightarrow> req_io \<Rightarrow> request \<Rightarrow> 'l echo_result \<Rightarrow> 'l TraceCtx \<Rightarrow> TraceContext \<Rightarrow> pcall list" where
  "echo_recorded H io r res t c =
     errorCalls (hApi H) (ioPanic io) (StartTime c) (map_option (\<lambda>v. Errorf (panicText v)) (ecPanic res)) @
     errorCalls (hApi H) (ioError io) (StartTime c) (map_option eeThr (echoFailed res)) @
     formCalls H io r (ecForm res) t c"

definition echo_noted :: "'l echo_result \<Rightarrow> int \<Rightarrow> int" where
  "echo_noted res st =
     (if ecCommitted res then i32 (ecStatus res) else (case echoFailed res of Some e \<Rightarrow> i32 (echoCode e) | None \<Rightarrow> st))"

definition echo_failure :: "'l echo_result \<Rightarrow> thr option" where
  "echo_failure res = (if ecCommitted res then statusError statusText (ecStatus res) else None)"

text \<open>The error of the handler: the status is set before it is recorded.\<close>

lemma update_echo_error:
  assumes "\<not> off (hApi H)" and "Ctx (handles w h) \<noteq> None"
    and "w' = (case fe of None \<Rightarrow> w
       | Some e \<Rightarrow> Trace_Api.Error (hApi H) g sysNow (Some (eeThr e)) (Context (Some h)) (setStatus H g (Context (Some h)) (echoCode e) w))"
  shows "own_update w h (errorCalls (hApi H) sysNow (StartTime (ctxOf w h)) (map_option eeThr fe)) w'"
    and "Name (handles w' h) = Name (handles w h)"
    and "TraceCtx.Status (handles w' h) = (case fe of Some e \<Rightarrow> i32 (echoCode e) | None \<Rightarrow> TraceCtx.Status (handles w h))"
proof -
  show "own_update w h (errorCalls (hApi H) sysNow (StartTime (ctxOf w h)) (map_option eeThr fe)) w'"
  proof (cases fe)
    case None
    then show ?thesis using assms(3) by (simp add: errorCalls_def)
  next
    case (Some e)
    let ?v = "setStatus H g (Context (Some h)) (echoCode e) w"
    have 1: "own_update w h [] ?v" by (rule update_setStatus)
    note f = own_update_fields [OF 1]
    have "Ctx (handles ?v h) \<noteq> None" using assms(2) f(2) by simp
    from own_update_trans [OF 1 update_Error [OF assms(1) this, of sysNow "Some (eeThr e)" g]] Some show ?thesis
      using f(1,5) by (simp add: assms(3) extends_def)
  qed
qed (simp_all add: assms(3) Error_handles setStatus_handles split: option.splits)

interpretation echo: web_middleware H "\<lambda>io r res c w. snd (echo_deferred H io r (res\<lparr>ecWorld := w\<rparr>) c)" "echo_recorded H"
    echo_noted echo_failure for H
proof
  fix w :: "'a api" and h and io :: req_io and r :: request and res :: "'a echo_result"
  assume on: "\<not> off (hApi H)" and ctx: "Ctx (handles w h) \<noteq> None"
  let ?c = "Context (Some h)" and ?fe = "echoFailed res"
  let ?pe = "errorCalls (hApi H) (ioPanic io) (StartTime (ctxOf w h)) (map_option (\<lambda>v. Errorf (panicText v)) (ecPanic res))"
  let ?ee = "errorCalls (hApi H) (ioError io) (StartTime (ctxOf w h)) (map_option eeThr ?fe)"
  define w1 where "w1 = panicError H io panicText (ecPanic res) ?c w"
  define w2 where "w2 = (case ?fe of None \<Rightarrow> w1
       | Some e \<Rightarrow> Trace_Api.Error (hApi H) (ioGid io) (ioError io) (Some (eeThr e)) ?c (setStatus H (ioGid io) ?c (echoCode e) w1))"
  define w3 where "w3 = (if ecCommitted res then setStatus H (ioGid io) ?c (ecStatus res) w2 else w2)"
  define w4 where "w4 = traceForm H io r (ecForm res) ?c w3"
  have 1: "own_update w h ?pe w1" using update_Error [OF on ctx] by (simp add: w1_def panicError_def)
  note f1 = own_update_fields [OF 1]
  have ctx1: "Ctx (handles w1 h) \<noteq> None" using ctx f1(2) by simp
  note e = update_echo_error [OF on ctx1 w2_def]
  have "own_update w h (?pe @ ?ee) w2" using own_update_trans [OF 1 e(1)] f1(1,5) by (simp add: extends_def)
  moreover have "own_update w2 h [] w3" using update_setStatus by (auto simp: w3_def)
  ultimately have 3: "own_update w h (?pe @ ?ee) w3" using own_update_trans by fastforce
  note f3 = own_update_fields [OF 3]
  have ctx3: "Ctx (handles w3 h) \<noteq> None" using ctx f3(2) by simp
  have nm: "Name (handles w3 h) = Name (handles w h)"
    using e(2) by (simp add: w3_def setStatus_handles w1_def panicError_def Error_handles)
  have ex: "extends (ctxOf w h) (?pe @ ?ee) (ctxOf w3 h)" using f3(1,5) by simp
  have "own_update w h (echo_recorded H io r res (handles w h) (ctxOf w h)) w4"
    using own_update_trans [OF 3 update_traceForm [OF ctx3, of H io r "ecForm res"]] formCalls_cong [OF ex nm, of H io r "ecForm res"]
    by (simp add: w4_def echo_recorded_def)
  moreover have "TraceCtx.Status (handles w4 h) = echo_noted res (TraceCtx.Status (handles w h))"
    using e(3) by (simp add: w4_def w3_def traceForm_handles setStatus_handles echo_noted_def w1_def panicError_def Error_handles split: option.split)
  moreover have ef: "echoFailed (res\<lparr>ecWorld := w\<rparr>) = ?fe" by (simp add: echoFailed_def)
  moreover have "snd (echo_deferred H io r (res\<lparr>ecWorld := w\<rparr>) ?c) =
      snd (End (hApi H) (ioGid io) (ioEnd io) (ioNow io) (echo_failure res) ?c w4)"
    unfolding w4_def w3_def w2_def w1_def echo_deferred_def Let_def by (simp add: ef echo_failure_def cong: option.case_cong)
  ultimately show "\<exists>w1. own_update w h (echo_recorded H io r res (handles w h) (ctxOf w h)) w1 \<and>
      TraceCtx.Status (handles w1 h) = echo_noted res (TraceCtx.Status (handles w h)) \<and>
      snd (echo_deferred H io r (res\<lparr>ecWorld := w\<rparr>) ?c) =
        snd (End (hApi H) (ioGid io) (ioEnd io) (ioNow io) (echo_failure res) ?c w1)"
    by blast
qed

text \<open>A request that has only a path.\<close>

definition uriRequest :: "string \<Rightarrow> request" where
  "uriRequest u = \<lparr>rqMethod = [], rqURI = u, rqHost = [], rqRemoteAddr = [], rqHeader = [], rqCookies = [], rqCtx = NilContext\<rparr>"

definition fast_recorded :: "http_env \<Rightarrow> ('l fast_result \<Rightarrow> header) \<Rightarrow> req_io \<Rightarrow> fast_request \<Rightarrow> 'l fast_result \<Rightarrow> 'l TraceCtx \<Rightarrow> TraceContext \<Rightarrow> pcall list" where
  "fast_recorded H form io r res t c =
     errorCalls (hApi H) (ioPanic io) (StartTime c) (map_option (\<lambda>v. Errorf (panicText v)) (frPanic res)) @
     formCalls H io (uriRequest (fqURI r)) (Some (form res)) t c"

lemma fast_params_form: "fast_params H io r form c w = traceForm H io (uriRequest (fqURI r)) (Some form) c w"
  by (simp add: fast_params_def traceForm_def uriRequest_def)

lemma fast_finish_ends:
  assumes "\<not> off (hApi H)" and "Ctx (handles w h) \<noteq> None" and "frWorld res = w"
  shows "\<exists>w1. own_update w h (fast_recorded H (\<lambda>_. form) io r res (handles w h) (ctxOf w h)) w1 \<and>
     TraceCtx.Status (handles w1 h) = i32 (frStatus res) \<and>
     snd (fast_finish H io r text form res (Context (Some h))) =
       snd (End (hApi H) (ioGid io) (ioEnd io) (ioNow io) (fastError text res) (Context (Some h)) w1)"
proof -
  let ?c = "Context (Some h)"
  define w1 where "w1 = panicError H io panicText (frPanic res) ?c w"
  define w2 where "w2 = setStatus H (ioGid io) ?c (frStatus res) w1"
  define w3 where "w3 = traceForm H io (uriRequest (fqURI r)) (Some form) ?c w2"
  note u = update_panic_status_form [OF assms(1,2) w1_def w2_def w3_def]
  have "own_update w3 h [] (fast_cookie H r w3)" using update_keyPos by (auto simp: fast_cookie_def)
  from own_update_trans [OF u(1) this]
  have "own_update w h (fast_recorded H (\<lambda>_. form) io r res (handles w h) (ctxOf w h)) (fast_cookie H r w3)"
    by (simp add: fast_recorded_def)
  moreover have "TraceCtx.Status (handles (fast_cookie H r w3) h) = i32 (frStatus res)" using u(2) by (simp add: fast_cookie_def)
  moreover have "snd (fast_finish H io r text form res ?c) =
      snd (End (hApi H) (ioGid io) (ioEnd io) (ioNow io) (fastError text res) ?c (fast_cookie H r w3))"
    by (simp add: fast_finish_def assms(3) fast_params_form w1_def w2_def w3_def Let_def)
  ultimately show ?thesis by blast
qed

interpretation fasthttp: web_middleware H "\<lambda>io r res c w. snd (fast_deferred H io r (res\<lparr>frWorld := w\<rparr>) c)"
    "fast_recorded H TraceHttpParameter" "\<lambda>res _. i32 (frStatus res)" "\<lambda>res. fastError funcStatus (res\<lparr>frErr := None\<rparr>)" for H
proof
  fix w :: "'a api" and h and io :: req_io and r :: fast_request and res :: "'a fast_result"
  assume on: "\<not> off (hApi H)" and ctx: "Ctx (handles w h) \<noteq> None"
  let ?res = "res\<lparr>frWorld := w, frErr := None\<rparr>"
  have "frWorld ?res = w" by simp
  moreover have "fastError funcStatus ?res = fastError funcStatus (res\<lparr>frErr := None\<rparr>)" by (simp add: fastError_def split: option.split)
  moreover have "fast_recorded H (\<lambda>_. TraceHttpParameter res) io r ?res = fast_recorded H TraceHttpParameter io r res"
    by (intro ext) (simp add: fast_recorded_def)
  moreover have "fast_deferred H io r (res\<lparr>frWorld := w\<rparr>) (Context (Some h)) = fast_finish H io r funcStatus (TraceHttpParameter res) ?res (Context (Some h))"
    by (simp add: fast_deferred_def TraceHttpParameter_def)
  ultimately show "\<exists>w1. own_update w h (fast_recorded H TraceHttpParameter io r res (handles w h) (ctxOf w h)) w1 \<and>
      TraceCtx.Status (handles w1 h) = i32 (frStatus res) \<and>
      snd (fast_deferred H io r (res\<lparr>frWorld := w\<rparr>) (Context (Some h))) =
        snd (End (hApi H) (ioGid io) (ioEnd io) (ioNow io) (fastError funcStatus (res\<lparr>frErr := None\<rparr>)) (Context (Some h)) w1)"
    using fast_finish_ends [OF on ctx, of ?res "TraceHttpParameter res" io r funcStatus] by simp
qed

interpretation fiber: web_middleware H "\<lambda>io r res c w. snd (fiber_deferred H io r (res\<lparr>frWorld := w\<rparr>) c)"
    "fast_recorded H traceParams" "\<lambda>res _. i32 (frStatus res)" "fastError statusText" for H
proof
  fix w :: "'a api" and h and io :: req_io and r :: fast_request and res :: "'a fast_result"
  assume on: "\<not> off (hApi H)" and ctx: "Ctx (handles w h) \<noteq> None"
  let ?res = "res\<lparr>frWorld := w\<rparr>"
  have "frWorld ?res = w" by simp
  moreover have "fastError statusText ?res = fastError statusText res" by (simp add: fastError_def split: option.split)
  moreover have "fast_recorded H (\<lambda>_. traceParams res) io r ?res = fast_recorded H traceParams io r res"
    by (intro ext) (simp add: fast_recorded_def)
  moreover have "fiber_deferred H io r ?res (Context (Some h)) = fast_finish H io r statusText (traceParams res) ?res (Context (Some h))"
    by (simp add: fiber_deferred_def traceParams_def TraceHttpParameter_def)
  ultimately show "\<exists>w1. own_update w h (fast_recorded H traceParams io r res (handles w h) (ctxOf w h)) w1 \<and>
      TraceCtx.Status (handles w1 h) = i32 (frStatus res) \<and>
      snd (fiber_deferred H io r (res\<lparr>frWorld := w\<rparr>) (Context (Some h))) =
        snd (End (hApi H) (ioGid io) (ioEnd io) (ioNow io) (fastError statusText res) (Context (Some h)) w1)"
    using fast_finish_ends [OF on ctx, of ?res "traceParams res" io r statusText] by simp
qed

subsection \<open>Properties\<close>

text \<open>The middlewares of gin and echo report every request exactly once, like \<open>Func\<close>, and raise a panic again exactly if
  recovery is not switched on. Gin records the errors of its context before the panic; echo records a panic or the error of the
  handler, and notes its code, unless the response was committed with another status.\<close>

theorem gin_reported_once:
  assumes "use_runs (hApi H) sys0 us0 s" and "\<not> off (hApi H)" and "TransactionEnabled H"
    and "idle (hApi H) (ioGid io) (rqCtx r) (world s)"
    and "StartWithRequest H io r (world s) = Inr (Context (Some h), w1)" and "res = nextHandler (Context (Some h)) w1"
    and "use_runs (hApi H) (s\<lparr>world := w1, live := insert h (live s)\<rparr>) us s2" and "UFinish h \<notin> set us" and "gnWorld res = world s2"
  shows "\<exists>w' x. gin_Middleware H io nextHandler r (world s) = Inr (if GoRecoverEnabled H then None else gnPanic res, w') \<and>
     sentTx (evs w') = sentTx (evs (world s2)) @ (if IsStaticContents (ctxOf w1 h) then [] else [x]) \<and>
     Txid x = keygen (env_lib (agentEnv (hApi H))) (keyPos (world s)) \<and> Status x = i32 (gnStatus res) \<and>
     Profile x = Profile (ctxOf w1 h) @ usedBy h us @
       errorCalls (hApi H) (ioError io) (ioStart io) (map_option (\<lambda>e. Errorf (''Errors: '' @ e)) (gnErrors res)) @
       errorCalls (hApi H) (ioPanic io) (ioStart io) (map_option (\<lambda>v. Errorf (panicText v)) (gnPanic res)) @
       formCalls H io r (gnForm res) (handles (world s2) h) (ctxOf (world s2) h) @
       errorCalls (hApi H) (ioEnd io) (ioStart io) (if gnStatus res \<ge> 400 then Some (Errorf (statusText (gnStatus res))) else None)"
proof -
  have ap: "apart s" using use_runs_ok [OF assms(1)] apart_sys0 by blast
  note rs = request_started [OF ap assms(2,4,5)]
  let ?s1 = "s\<lparr>world := w1, live := insert h (live s)\<rparr>"
  have l: "h \<in> live ?s1" by simp
  from use_runs_ok [OF assms(7) rs(2)] assms(8) have "carried w1 h (usedBy h us) (world s2)" by simp
  then have t: "StartTime (ctxOf (world s2) h) = ioStart io" using rs(4) by (simp add: carried_def extends_def)
  have rw: "res\<lparr>gnWorld := world s2\<rparr> = res" using assms(9) by (cases res) simp
  have fn: "gin_Middleware H io nextHandler r (world s) = Inr (gin_deferred H io r res (Context (Some h)))"
    using assms(2,3,5,6) by (simp add: gin_Middleware_def)
  have x: "fst (gin_deferred H io r res (Context (Some h))) = (if GoRecoverEnabled H then None else gnPanic res)"
    by (simp add: gin_deferred_def recovered_def Let_def)
  from gin.whole_request [OF rs(2) l assms(2,7,8), of io r res] rw fn x t rs(3,4) show ?thesis
    by (cases "gin_deferred H io r res (Context (Some h))") (auto simp: gin_recorded_def statusError_def)
qed

theorem echo_reported_once:
  assumes "use_runs (hApi H) sys0 us0 s" and "\<not> off (hApi H)" and "TransactionEnabled H"
    and "idle (hApi H) (ioGid io) (rqCtx r) (world s)"
    and "StartWithRequest H io r (world s) = Inr (Context (Some h), w1)" and "res = nextHandler (Context (Some h)) w1"
    and "use_runs (hApi H) (s\<lparr>world := w1, live := insert h (live s)\<rparr>) us s2" and "UFinish h \<notin> set us" and "ecWorld res = world s2"
  shows "\<exists>w' x. echo_Middleware H io nextHandler r (world s) =
       Inr (if GoRecoverEnabled H then None else ecPanic res, if ecPanic res = None then ecErr res else None, w') \<and>
     sentTx (evs w') = sentTx (evs (world s2)) @ (if IsStaticContents (ctxOf w1 h) then [] else [x]) \<and>
     Txid x = keygen (env_lib (agentEnv (hApi H))) (keyPos (world s)) \<and>
     Status x = echo_noted res (TraceCtx.Status (handles (world s2) h)) \<and>
     Profile x = Profile (ctxOf w1 h) @ usedBy h us @
       errorCalls (hApi H) (ioPanic io) (ioStart io) (map_option (\<lambda>v. Errorf (panicText v)) (ecPanic res)) @
       errorCalls (hApi H) (ioError io) (ioStart io) (if ecPanic res = None then map_option eeThr (ecErr res) else None) @
       formCalls H io r (ecForm res) (handles (world s2) h) (ctxOf (world s2) h) @
       errorCalls (hApi H) (ioEnd io) (ioStart io)
         (if ecCommitted res \<and> ecStatus res \<ge> 400 then Some (Errorf (statusText (ecStatus res))) else None)"
proof -
  have ap: "apart s" using use_runs_ok [OF assms(1)] apart_sys0 by blast
  note rs = request_started [OF ap assms(2,4,5)]
  let ?s1 = "s\<lparr>world := w1, live := insert h (live s)\<rparr>"
  have l: "h \<in> live ?s1" by simp
  from use_runs_ok [OF assms(7) rs(2)] assms(8) have "carried w1 h (usedBy h us) (world s2)" by simp
  then have t: "StartTime (ctxOf (world s2) h) = ioStart io" using rs(4) by (simp add: carried_def extends_def)
  have rw: "res\<lparr>ecWorld := world s2\<rparr> = res" using assms(9) by (cases res) simp
  have fn: "echo_Middleware H io nextHandler r (world s) =
      Inr (fst (echo_deferred H io r res (Context (Some h))), echoFailed res, snd (echo_deferred H io r res (Context (Some h))))"
    using assms(2,3,5,6) by (simp add: echo_Middleware_def Let_def split: prod.splits)
  have x: "fst (echo_deferred H io r res (Context (Some h))) = (if GoRecoverEnabled H then None else ecPanic res)"
    by (simp add: echo_deferred_def recovered_def Let_def)
  from echo.whole_request [OF rs(2) l assms(2,7,8), of io r res] rw fn x t rs(3,4) show ?thesis
    by (auto simp: echo_recorded_def echo_failure_def echoFailed_def statusError_def)
qed

text \<open>The deferred functions of fasthttp and fiber do not forget the error of a panic: with a status below 400, which is what
  the response has if the panic came before anything was written, the panic is recorded a second time at the end.\<close>

lemma fiber_panic_recorded_twice:
  assumes "apart s" and "h \<in> live s" and "\<not> off (hApi H)" and "frPanic res = Some v" and "frStatus res < 400"
    and "\<not> ProfileHttpParameterEnabled H" and "\<not> env_ignoreException (agentEnv (hApi H)) (Errorf (panicText v))" and "frWorld res = world s"
  shows "\<exists>x. sentTx (evs (snd (fiber_deferred H io r res (Context (Some h))))) =
      sentTx (evs (world s)) @ (if IsStaticContents (ctxOf (world s) h) then [] else [x]) \<and>
    Profile x = Profile (ctxOf (world s) h) @
      errorCalls (hApi H) (ioPanic io) (StartTime (ctxOf (world s) h)) (Some (Errorf (panicText v))) @
      errorCalls (hApi H) (ioEnd io) (StartTime (ctxOf (world s) h)) (Some (Errorf (panicText v)))"
proof -
  have rw: "res\<lparr>frWorld := world s\<rparr> = res" using assms(8) by (cases res) simp
  from fiber.reported(1) [OF assms(1-3), of io r res] rw assms(4-6) show ?thesis
    by (auto simp: sent_as_def fast_recorded_def formCalls_def fastError_def)
qed

text \<open>With fasthttp and fiber every user of a cookie looks the same: the client id of a request with a configured cookie is
  the name of the cookie in the configuration, whatever the cookie holds.\<close>

theorem fast_users_alike:
  assumes "\<not> off (hApi H)" and "TraceUserEnabled H" and "\<not> TraceUserUsingIp H" and "TraceUserCookieKeys H = [name]"
    and "fqCookies r = [(name, secret)]"
  shows "fast_GetClientId H r ip = name"
  using assms by (simp add: fast_GetClientId_def)

definition cookieEnv1 :: http_env where
  "cookieEnv1 = httpEnv1\<lparr>TraceUserUsingIp := False, TraceUserCookieKeys := [''JSESSIONID'']\<rparr>"

definition fast_request1 :: "string \<Rightarrow> fast_request" where
  "fast_request1 v = \<lparr>fqMethod = ''GET'', fqURI = ''/a'', fqHost = ''h'', fqRemoteAddr = ''10.0.0.1:99'', fqVisits = [],
     fqCookies = [(''JSESSIONID'', v)], fqReferer = [], fqUserAgent = [], fqCtx = Context None\<rparr>"

theorem fast_users_alike_witness:
  "fast_GetClientId cookieEnv1 (fast_request1 ''alice'') ''1.2.3.4'' = ''JSESSIONID'' \<and>
   fast_GetClientId cookieEnv1 (fast_request1 ''bob'') ''1.2.3.4'' = ''JSESSIONID''"
  using fast_users_alike [of cookieEnv1 "''JSESSIONID''" "fast_request1 ''alice''" "''alice''" "''1.2.3.4''"]
    fast_users_alike [of cookieEnv1 "''JSESSIONID''" "fast_request1 ''bob''" "''bob''" "''1.2.3.4''"] on1
  by (simp add: cookieEnv1_def httpEnv1_def fast_request1_def)

text \<open>A wrapped function that panics leaves its transaction open: nothing is sent for it, and the next start on the same
  goroutine takes it for its own.\<close>
theorem wrap_panic_leaves_open:
  assumes "use_runs E sys0 us0 s" and "\<not> off E" and "idle E (ioGid io) c (world s)" and "GoUseGoroutineIDEnabled E"
    and "Start E (ioGid io) (ioStart io) (ioPicks io) name c (world s) = Inr (Context (Some h), w1)"
    and "fn w1 = (Inl e, world s2)" and "use_runs E (s\<lparr>world := w1, live := insert h (live s)\<rparr>) us s2" and "UFinish h \<notin> set us"
    and "gids (world s2) (ioGid io) = Some h" and "TraceCtx.Txid (handles (world s2) h) \<noteq> 0"
  shows "trace_Wrap E io name c fn (world s) = (Inl e, world s2) \<and> h \<in> live s2 \<and>
     Start E (ioGid io) t2 picks name2 (Context None) (world s2) = Inr (Context None, world s2) \<and>
     (\<exists>x. sentTx (evs (snd (End E (ioGid io) t3 t4 err (Context None) (world s2)))) =
        sentTx (evs (world s2)) @ (if IsStaticContents (ctxOf w1 h) then [] else [x]) \<and> Txid x = Txid (ctxOf w1 h))"
proof -
  have ap: "apart s" using use_runs_ok [OF assms(1)] apart_sys0 by blast
  have "apart (s\<lparr>world := w1, live := insert h (live s)\<rparr>)" by (rule start_apart(1) [OF ap assms(2,3,5)])
  from use_runs_ok [OF assms(7) this] assms(8) have s2: "apart s2" "h \<in> live s2" "carried w1 h (usedBy h us) (world s2)" by auto
  have g: "GetTraceContext E (ioGid io) (Context None) w = (Context None, gids w (ioGid io))" for w :: "'a api"
    using assms(4) by (simp add: GetTraceContext_def GetGIDTraceCtx_def split: option.splits)
  have e: "End E (ioGid io) t3 t4 err (Context None) (world s2) = End E (ioGid io) t3 t4 err (Context (Some h)) (world s2)"
  proof -
    have "gids (Trace_Api.Error E (ioGid io) t3 err (Context (Some h)) (world s2)) = gids (world s2)"
      by (simp add: Trace_Api.Error_def split: option.splits prod.splits)
    then show ?thesis using assms(9) g by (simp add: End_def Trace_Api.Error_def GetTraceContext_def Let_def split: option.splits)
  qed
  obtain q w' where w': "End E (ioGid io) t3 t4 err (Context (Some h)) (world s2) = (q, w')" by force
  from End_sent_as [OF assms(2) apartD(3) [OF s2(1,2)] w'] s2(3) e w' have
    "\<exists>x. sentTx (evs (snd (End E (ioGid io) t3 t4 err (Context None) (world s2)))) =
        sentTx (evs (world s2)) @ (if IsStaticContents (ctxOf w1 h) then [] else [x]) \<and> Txid x = Txid (ctxOf w1 h)"
    by (auto simp: sent_as_def carried_def extends_def)
  then show ?thesis using assms(2,5,6,9,10) g s2(2) by (simp add: trace_Wrap_def Start_def)
qed

definition echo_handler1 :: "gctx \<Rightarrow> unit api \<Rightarrow> unit echo_result" where
  "echo_handler1 c w = \<lparr>ecWorld = w, ecErr = Some \<lparr>eeThr = \<lparr>ErrorClassName = ''*echo.HTTPError'', ErrorMessage = ''gone''\<rparr>, eeHttp = Some (404, None)\<rparr>,
     ecPanic = None, ecCommitted = False, ecStatus = 200, ecForm = None\<rparr>"

theorem echo_reported_once_witness:
  "\<exists>e w' x. echo_Middleware httpEnv1 io1 echo_handler1 request1 newApi = Inr (None, Some e, w') \<and>
     Txid x = 1 \<and> Status x = 404 \<and> x \<in> set (sentTx (evs w')) \<and>
     Profile x = [PAdd (MessageStep 1 0 12 0 []), PAddHeavy (MessageStep 10 0 5 0 ''*echo.HTTPError-gone'')]"
proof -
  let ?s = "sys0 :: unit sys"
  obtain w :: "unit api" where st: "StartWithRequest httpEnv1 io1 request1 (world ?s) = Inr (Context (Some 0), w)"
    and c: "\<not> IsStaticContents (ctxOf w 0)" "Profile (ctxOf w 0) = [PAdd (MessageStep 1 0 12 0 [])]"
    using request1_starts by (auto simp: sys0_def)
  have i: "idle (hApi httpEnv1) (ioGid io1) (rqCtx request1) (world ?s)"
    by (simp add: idle_def GetTraceContext_def GetGIDTraceCtx_def sys0_def newApi_def request1_def)
  have on: "\<not> off (hApi httpEnv1)" "TransactionEnabled httpEnv1" using on1 by (simp_all add: httpEnv1_def)
  have w: "ecWorld (echo_handler1 (Context (Some 0)) w) = world (?s\<lparr>world := w, live := insert 0 (live ?s)\<rparr>)" by (simp add: echo_handler1_def)
  from echo_reported_once [where nextHandler = echo_handler1, OF use_runs.none on i st refl use_runs.none _ w]
  show ?thesis
    using c by (auto simp: echo_handler1_def usedBy_def formCalls_def errorCalls_def echo_noted_def echoFailed_def echoCode_def httpEnv1_def apiEnv1_def agentEnv1_def
      lib1_def io1_def sys0_def newApi_def hashOf_def i32_def)
qed

theorem wrap_panic_leaves_open_witness:
  "\<exists>w (x :: TraceContext). trace_Wrap apiEnv1 io1 ''/a'' NilContext (\<lambda>v :: unit api. (Inl NilDereference :: (unit \<times> thr option) go, v)) newApi = (Inl NilDereference, w) \<and>
     Start apiEnv1 7 200 (None, None) ''/b'' (Context None) w = Inr (Context None, w) \<and>
     sentTx (evs (snd (End apiEnv1 7 210 210 None (Context None) w))) = sentTx (evs w) @ [x] \<and> Txid x = 1"
proof -
  let ?s = "sys0 :: unit sys"
  obtain w :: "unit api" where st: "Start apiEnv1 7 100 (None, None) ''/a'' NilContext newApi = Inr (Context (Some 0), w)"
    and h: "handles w 0 = NewTraceCtx\<lparr>TraceCtx.Txid := 1, GID := 7, Ctx := Some 0, Name := ''/a'', TraceCtx.StartTime := 100\<rparr>"
    and c: "Txid (agents w 0) = 1" "\<not> IsStaticContents (agents w 0)"
    using start1 by blast
  let ?s1 = "?s\<lparr>world := w, live := insert 0 (live ?s)\<rparr>"
  have st': "Start apiEnv1 (ioGid io1) (ioStart io1) (ioPicks io1) ''/a'' NilContext (world ?s) = Inr (Context (Some 0), w)"
    using st by (simp add: io1_def sys0_def)
  have i: "idle apiEnv1 (ioGid io1) NilContext (world ?s)"
    by (simp add: idle_def GetTraceContext_def GetGIDTraceCtx_def sys0_def newApi_def)
  have g: "gids w (ioGid io1) = Some 0" "GoUseGoroutineIDEnabled apiEnv1"
    using st by (auto simp: Start_def NewTraceContext_def PoolTraceContext_def agent_Pool_def poolGet_def GetTraceContext_def GetGIDTraceCtx_def
      AddGIDTraceCtx_def startHandle_def UpdateMtrace_def apiEnv1_def mconf1_def newApi_def NewTraceCtx_def io1_def Let_def split: prod.splits)
  have a: "ctxOf w 0 = agents w 0" by (simp add: agentOf_def h)
  from wrap_panic_leaves_open [OF use_runs.none on1 i g(2) st', of "\<lambda>v. (Inl NilDereference, v)" NilDereference ?s1 "[]" 200 "(None, None)" "''/b''" 210 210 None]
  show ?thesis using g h c a by (auto simp: io1_def sys0_def intro: use_runs.none)
qed

end
