(* ===== verification/Parsed_Sql.thy ===== *)
theory Parsed_Sql
  imports Escape_Sql Url_Pattern
begin

text \<open>
  The normal forms of SQL statements (\<^verbatim>\<open>agent/agent/trace/ParsedSql.go\<close>, \<^verbatim>\<open>resetTraceSQL\<close> of
  \<^verbatim>\<open>agent/agent/trace/TraceMain.go\<close>): \<open>EscapeLiteral\<close> replaces the literals of a statement with the escaper of
  \<^verbatim>\<open>Escape_Sql\<close>, keeps the results in two bounded maps under the hash code of the statement, and sends the text of
  every normal form it makes.

  The bounded maps and the two hash functions of golib are parameters (\<open>sql_lib\<close>); \<open>sql_laws\<close> states what is used of the
  maps: an entry that is found was put there since the last clearing.
\<close>

record ParsedSql =
  psType :: char
  psSql :: int
  psParam :: string

definition NewParsedSql :: "char \<Rightarrow> int \<Rightarrow> string \<Rightarrow> ParsedSql" where
  "NewParsedSql ty q prm = \<lparr>psType = ty, psSql = q, psParam = prm\<rparr>"

record 'm sql_lib =
  lmGet :: "'m \<Rightarrow> int \<Rightarrow> ParsedSql option"
  lmPut :: "int \<Rightarrow> ParsedSql \<Rightarrow> 'm \<Rightarrow> 'm"
  lmClear :: "'m \<Rightarrow> 'm"
  sqlHashStr :: "string \<Rightarrow> int"
  sqlHashCode :: "string \<Rightarrow> int"

definition sql_laws :: "'m sql_lib \<Rightarrow> bool" where
  "sql_laws L \<longleftrightarrow>
     (\<forall>m k. lmGet L (lmClear L m) k = None) \<and>
     (\<forall>m k v k' v'. lmGet L (lmPut L k v m) k' = Some v' \<longrightarrow> k' = k \<and> v' = v \<or> lmGet L m k' = Some v')"

record sql_conf =
  TraceSqlNormalizeEnabled :: bool
  ProfileSqlCommentEnabled :: bool
  TextReset :: int
  phpApp :: bool

text \<open>The two maps, the texts that were sent and what \<open>resetTraceSQL\<close> remembers.\<close>

record 'm sql_state =
  checkedSql :: 'm
  nonLiteSql :: 'm
  sqlTexts :: "(int \<times> string) list"
  sqlLastDate :: int
  sqlTextReset :: int

definition maxSqlNormalizeLength :: nat where
  "maxSqlNormalizeLength = 32 * 1024"

definition sendSqlText :: "int \<Rightarrow> string \<Rightarrow> 'm sql_state \<Rightarrow> 'm sql_state" where
  "sendSqlText h t s = s\<lparr>sqlTexts := sqlTexts s @ [(h, t)]\<rparr>"

definition EscapeLiteral :: "'m sql_lib \<Rightarrow> sql_conf \<Rightarrow> string \<Rightarrow> 'm sql_state \<Rightarrow> (ParsedSql \<times> 'm sql_state) go" where
  "EscapeLiteral L conf q s =
     (if \<not> TraceSqlNormalizeEnabled conf
      then (let h = sqlHashStr L q in Inr (NewParsedSql CHR ''*'' h [], sendSqlText h q s))
      else if length q > maxSqlNormalizeLength
      then (let truncated = take maxSqlNormalizeLength q; h = sqlHashStr L truncated in
            Inr (NewParsedSql CHR ''*'' h [], sendSqlText h truncated s))
      else (let sqlHash = i32 (sqlHashCode L q) in
            case lmGet L (nonLiteSql s) sqlHash of
              Some psql \<Rightarrow> Inr (psql, s)
            | None \<Rightarrow>
                (case lmGet L (checkedSql s) sqlHash of
                   Some psql \<Rightarrow> Inr (psql, s)
                 | None \<Rightarrow>
                     bindGo (escapeSql (phpApp conf) (ProfileSqlCommentEnabled conf) q) (\<lambda>(sql2, prm, ty).
                       let h = sqlHashStr L sql2; s1 = sendSqlText h sql2 s in
                       if h = sqlHash
                       then (let psql = NewParsedSql ty h [] in Inr (psql, s1\<lparr>nonLiteSql := lmPut L sqlHash psql (nonLiteSql s1)\<rparr>))
                       else (let psql = NewParsedSql ty h prm in Inr (psql, s1\<lparr>checkedSql := lmPut L sqlHash psql (checkedSql s1)\<rparr>))))))"

definition resetSqlText :: "'m sql_lib \<Rightarrow> 'm sql_state \<Rightarrow> 'm sql_state" where
  "resetSqlText L s = s\<lparr>checkedSql := lmClear L (checkedSql s), nonLiteSql := lmClear L (nonLiteSql s)\<rparr>"

definition sql_getDate :: "int \<Rightarrow> int" where
  "sql_getDate now = goDiv now 3600000"

definition resetTraceSQL :: "'m sql_lib \<Rightarrow> sql_conf \<Rightarrow> int \<Rightarrow> 'm sql_state \<Rightarrow> 'm sql_state" where
  "resetTraceSQL L conf now s =
     (let today = sql_getDate now in
      if sqlLastDate s \<noteq> today \<or> sqlTextReset s \<noteq> TextReset conf
      then resetSqlText L (s\<lparr>sqlLastDate := today, sqlTextReset := TextReset conf\<rparr>)
      else s)"

subsection \<open>A cached normal form is the normal form\<close>

text \<open>The answer without the maps.\<close>

definition parsedOf :: "'m sql_lib \<Rightarrow> sql_conf \<Rightarrow> string \<Rightarrow> ParsedSql" where
  "parsedOf L conf q =
     (if \<not> TraceSqlNormalizeEnabled conf then NewParsedSql CHR ''*'' (sqlHashStr L q) []
      else if length q > maxSqlNormalizeLength then NewParsedSql CHR ''*'' (sqlHashStr L (take maxSqlNormalizeLength q)) []
      else (let a = esc (defaultCfg (phpApp conf) (ProfileSqlCommentEnabled conf)) q esc0; h = sqlHashStr L (eSql a) in
            NewParsedSql (eType a) h (if h = i32 (sqlHashCode L q) then [] else eParam a)))"

definition textOf :: "sql_conf \<Rightarrow> string \<Rightarrow> string" where
  "textOf conf q =
     (if \<not> TraceSqlNormalizeEnabled conf then q
      else if length q > maxSqlNormalizeLength then take maxSqlNormalizeLength q
      else eSql (esc (defaultCfg (phpApp conf) (ProfileSqlCommentEnabled conf)) q esc0))"

definition askSql :: "'m sql_lib \<Rightarrow> sql_conf \<Rightarrow> string \<Rightarrow> 'm sql_state \<Rightarrow> ParsedSql \<times> 'm sql_state" where
  "askSql L conf q s = (case EscapeLiteral L conf q s of Inr r \<Rightarrow> r | Inl _ \<Rightarrow> (NewParsedSql CHR ''*'' 0 [], s))"

definition short :: "sql_conf \<Rightarrow> string \<Rightarrow> bool" where
  "short conf q \<longleftrightarrow> TraceSqlNormalizeEnabled conf \<and> length q \<le> maxSqlNormalizeLength"

text \<open>Every entry of the maps is the answer for one of the \<open>asked\<close> statements, and its text has been sent.\<close>

definition sql_ok :: "'m sql_lib \<Rightarrow> sql_conf \<Rightarrow> string set \<Rightarrow> 'm sql_state \<Rightarrow> bool" where
  "sql_ok L conf asked s \<longleftrightarrow> sql_laws L \<and>
     (\<forall>k p. lmGet L (nonLiteSql s) k = Some p \<or> lmGet L (checkedSql s) k = Some p \<longrightarrow>
        (\<exists>q\<in>asked. k = i32 (sqlHashCode L q) \<and> short conf q \<and> parsedOf L conf q = p \<and> (psSql p, textOf conf q) \<in> set (sqlTexts s)))"

lemma EscapeLiteral_cases:
  "\<exists>s'. EscapeLiteral L conf q s = Inr (parsedOf L conf q, s') \<and> sqlTexts s' = sqlTexts s @ [(psSql (parsedOf L conf q), textOf conf q)] \<and>
      (nonLiteSql s', checkedSql s') \<in> {(nonLiteSql s, checkedSql s)} \<union>
        (if short conf q then {(lmPut L (i32 (sqlHashCode L q)) (parsedOf L conf q) (nonLiteSql s), checkedSql s),
           (nonLiteSql s, lmPut L (i32 (sqlHashCode L q)) (parsedOf L conf q) (checkedSql s))} else {})
   \<or> short conf q \<and> (\<exists>p. EscapeLiteral L conf q s = Inr (p, s) \<and>
        (lmGet L (nonLiteSql s) (i32 (sqlHashCode L q)) = Some p \<or> lmGet L (checkedSql s) (i32 (sqlHashCode L q)) = Some p))"
  by (auto simp: EscapeLiteral_def parsedOf_def textOf_def short_def escapeSql_esc sendSqlText_def NewParsedSql_def Let_def split: option.splits)

lemma same_query:
  assumes "inj_on (\<lambda>q. i32 (sqlHashCode L q)) (insert q asked)" and "v \<in> asked" and "i32 (sqlHashCode L q) = i32 (sqlHashCode L v)"
  shows "v = q"
  using inj_onD [OF assms(1), of v q] assms(2,3) by auto

lemma sql_answer:
  assumes "sql_ok L conf asked s" and "inj_on (\<lambda>q. i32 (sqlHashCode L q)) (insert q asked)"
  shows "EscapeLiteral L conf q s = Inr (parsedOf L conf q, snd (askSql L conf q s)) \<and> fst (askSql L conf q s) = parsedOf L conf q \<and>
     (psSql (parsedOf L conf q), textOf conf q) \<in> set (sqlTexts (snd (askSql L conf q s)))"
  using EscapeLiteral_cases [of L conf q s]
proof (elim disjE exE conjE)
  fix p
  assume e: "EscapeLiteral L conf q s = Inr (p, s)" and "lmGet L (nonLiteSql s) (i32 (sqlHashCode L q)) = Some p"
  then obtain v where "v \<in> asked" "i32 (sqlHashCode L q) = i32 (sqlHashCode L v)" "parsedOf L conf v = p" "(psSql p, textOf conf v) \<in> set (sqlTexts s)"
    using assms(1) unfolding sql_ok_def by metis
  then show ?thesis using same_query [OF assms(2)] e by (auto simp: askSql_def)
next
  fix p
  assume e: "EscapeLiteral L conf q s = Inr (p, s)" and "lmGet L (checkedSql s) (i32 (sqlHashCode L q)) = Some p"
  then obtain v where "v \<in> asked" "i32 (sqlHashCode L q) = i32 (sqlHashCode L v)" "parsedOf L conf v = p" "(psSql p, textOf conf v) \<in> set (sqlTexts s)"
    using assms(1) unfolding sql_ok_def by metis
  then show ?thesis using same_query [OF assms(2)] e by (auto simp: askSql_def)
qed (simp add: askSql_def)

lemma askSql_maps:
  defines "k \<equiv> \<lambda>L q. i32 (sqlHashCode L q)"
  shows "nonLiteSql (snd (askSql L conf q s)) = nonLiteSql s \<and> checkedSql (snd (askSql L conf q s)) = checkedSql s \<or>
     short conf q \<and> (psSql (parsedOf L conf q), textOf conf q) \<in> set (sqlTexts (snd (askSql L conf q s))) \<and>
     (nonLiteSql (snd (askSql L conf q s)) = lmPut L (k L q) (parsedOf L conf q) (nonLiteSql s) \<and> checkedSql (snd (askSql L conf q s)) = checkedSql s \<or>
      nonLiteSql (snd (askSql L conf q s)) = nonLiteSql s \<and> checkedSql (snd (askSql L conf q s)) = lmPut L (k L q) (parsedOf L conf q) (checkedSql s))"
  using EscapeLiteral_cases [of L conf q s] unfolding k_def by (auto simp: askSql_def split: if_splits)

lemma sql_keeps:
  assumes "sql_ok L conf asked s"
  shows "sql_ok L conf (insert q asked) (snd (askSql L conf q s))"
proof -
  have laws: "lmGet L (lmPut L k v m) k' = Some v' \<Longrightarrow> k' = k \<and> v' = v \<or> lmGet L m k' = Some v'" for k v m k' v'
    using assms by (simp add: sql_ok_def sql_laws_def)
  let ?s = "snd (askSql L conf q s)" and ?k = "i32 (sqlHashCode L q)"
  have new: "lmGet L (nonLiteSql s) k = Some p \<or> lmGet L (checkedSql s) k = Some p \<or>
      (k = i32 (sqlHashCode L q) \<and> p = parsedOf L conf q \<and> short conf q \<and> (psSql p, textOf conf q) \<in> set (sqlTexts ?s))"
    if "lmGet L (nonLiteSql ?s) k = Some p \<or> lmGet L (checkedSql ?s) k = Some p" for k p
    using askSql_maps [of L conf q s] that laws [of ?k "parsedOf L conf q" "nonLiteSql s" k p] laws [of ?k "parsedOf L conf q" "checkedSql s" k p]
    by (elim disjE conjE; simp; blast?)
  have sub: "set (sqlTexts s) \<subseteq> set (sqlTexts ?s)"
    using EscapeLiteral_cases [of L conf q s] by (auto simp: askSql_def)
  show ?thesis
    unfolding sql_ok_def
  proof (intro conjI allI impI)
    show "sql_laws L" using assms by (simp add: sql_ok_def)
    fix k p
    assume "lmGet L (nonLiteSql ?s) k = Some p \<or> lmGet L (checkedSql ?s) k = Some p"
    from new [OF this] consider "lmGet L (nonLiteSql s) k = Some p \<or> lmGet L (checkedSql s) k = Some p"
      | "k = ?k" "p = parsedOf L conf q" "short conf q" "(psSql p, textOf conf q) \<in> set (sqlTexts ?s)" by blast
    then show "\<exists>v\<in>insert q asked. k = i32 (sqlHashCode L v) \<and> short conf v \<and> parsedOf L conf v = p \<and> (psSql p, textOf conf v) \<in> set (sqlTexts ?s)"
    proof cases
      case 1
      then obtain v where "v \<in> asked" "k = i32 (sqlHashCode L v)" "short conf v" "parsedOf L conf v = p" "(psSql p, textOf conf v) \<in> set (sqlTexts s)"
        using assms unfolding sql_ok_def by blast
      with sub show ?thesis by blast
    qed blast
  qed
qed

interpretation statements: url_cache "askSql L conf" "\<lambda>s. parsedOf L conf" "sql_ok L conf" "\<lambda>q. i32 (sqlHashCode L q)" for L conf
  by unfold_locales (auto simp: sql_answer intro: sql_keeps)

lemma reset_ok: "sql_laws L \<Longrightarrow> sql_ok L conf {} (resetSqlText L s)"
  by (simp add: sql_ok_def resetSqlText_def sql_laws_def)


definition sqllib1 :: "(int \<times> ParsedSql) list sql_lib" where
  "sqllib1 = \<lparr>lmGet = map_of, lmPut = (\<lambda>k v m. (k, v) # m), lmClear = (\<lambda>m. []), sqlHashStr = (\<lambda>q. int (length q)), sqlHashCode = (\<lambda>q. foldl (\<lambda>h c. 31 * h + of_char c) 7 q)\<rparr>"

definition sqlconf1 :: sql_conf where
  "sqlconf1 = \<lparr>TraceSqlNormalizeEnabled = True, ProfileSqlCommentEnabled = False, TextReset = 0, phpApp = False\<rparr>"


text \<open>The literals of a statement of more than 32768 bytes are not masked: the text that is sent is the statement itself,
  cut at that length, with whatever literals it begins with.\<close>
theorem long_statement_not_masked:
  assumes "TraceSqlNormalizeEnabled conf" and "maxSqlNormalizeLength < length q"
  shows "\<exists>p s'. EscapeLiteral L conf q s = Inr (p, s') \<and> psParam p = [] \<and> sqlTexts s' = sqlTexts s @ [(psSql p, take maxSqlNormalizeLength q)]"
  using assms by (simp add: EscapeLiteral_def Let_def sendSqlText_def NewParsedSql_def)

text \<open>\<open>resetTraceSQL\<close> clears the maps exactly when the hour or the reset counter of the configuration has changed, and
  calling it again at once changes nothing.\<close>
lemma resetTraceSQL_idem: "resetTraceSQL L conf now (resetTraceSQL L conf now s) = resetTraceSQL L conf now s"
  by (simp add: resetTraceSQL_def resetSqlText_def Let_def)

end
