(* ===== verification/Call_Api.thy ===== *)
theory Call_Api
  imports Trace_Agent Parsed_Sql Secure
begin

text \<open>
  Calls inside a transaction (\<^verbatim>\<open>Sql.go\<close>, \<^verbatim>\<open>HttpCall.go\<close>, \<^verbatim>\<open>Method.go\<close> and \<^verbatim>\<open>ProfileErrorStep\<close> of
  \<^verbatim>\<open>agent/agent/trace/api\<close>): the start of a call makes a step and marks the context, the end fills in the step, adds
  to the totals of the context, to the meters and to the statistics, and puts the step into the profile.

  A nil context or step is \<open>None\<close>. The functions return the context and what they hand to the text table, the meters and
  the statistics, as events. \<open>ErrorToThr\<close> gives an error its class and message and leaves its stack empty. A panic is
  recovered: the start of a call then returns nil. The SQL normaliser and the URL detector are modelled in
  \<^verbatim>\<open>Parsed_Sql\<close> and \<^verbatim>\<open>Url_Pattern\<close>; they, the URL parser, \<open>Truncate\<close>, \<open>Tokenizer\<close> and the
  numbers of the statement types of golib are fields of \<open>call_api\<close>.
\<close>

record call_url =
  cuPath :: string
  cuHost :: string
  cuPort :: int

record call_api =
  ca_env :: agent_env
  ca_escape :: "string \<Rightarrow> ParsedSql option"
  ca_sec :: ParamSecurity
  ca_newURL :: "string \<Rightarrow> call_url"
  ca_normalize :: "string \<Rightarrow> string"
  ca_truncate :: "string \<Rightarrow> nat \<Rightarrow> string"
  ca_tokenizer :: "string \<Rightarrow> string \<Rightarrow> string list"
  SQL_XTYPE_METHOD_QUERY :: nat
  SQL_XTYPE_METHOD_UPDATE :: nat
  SQL_XTYPE_METHOD_EXECUTE :: nat
  TraceErrorCallstackDepth :: int
  phpAppType :: bool
  ProfileSqlParamEnabled :: bool
  ProfileSqlResourceEnabled :: bool
  ProfileHttpcResourceEnabled :: bool
  ProfileMethodResourceEnabled :: bool

type_synonym ctx_evs = "TraceContext option \<times> ev list"

definition callHashStr :: "call_api \<Rightarrow> string \<Rightarrow> int" where
  "callHashStr E s = hashOf (ca_env E) s"

text \<open>The offset of a start time in the transaction; 0 outside one.\<close>

definition offsetIn :: "TraceContext option \<Rightarrow> int \<Rightarrow> int" where
  "offsetIn ctx startTime = (case ctx of None \<Rightarrow> 0 | Some c \<Rightarrow> i32 (startTime - StartTime c))"

definition addStep :: "msg_step \<Rightarrow> int \<Rightarrow> TraceContext \<Rightarrow> TraceContext" where
  "addStep st err c = c\<lparr>Profile := Profile c @ [if err = 0 then PAdd st else PAddHeavy st]\<rparr>"

definition ProfileErrorStep :: "call_api \<Rightarrow> thr \<Rightarrow> TraceContext \<Rightarrow> TraceContext \<times> ev list" where
  "ProfileErrorStep E th c =
     (if env_ignoreException (ca_env E) th then (c, [])
      else (c\<lparr>Thr := Some th, Error := env_addError (ca_env E) th (ServiceHash c),
              ErrorLevel := (if env_bizException (ca_env E) th then env_INFO (ca_env E) else env_WARNING (ca_env E))\<rparr>,
            [StatError th (ServiceHash c)]))"

definition errorStep :: "call_api \<Rightarrow> thr option \<Rightarrow> TraceContext \<Rightarrow> TraceContext \<times> ev list" where
  "errorStep E err c = (case err of None \<Rightarrow> (c, []) | Some th \<Rightarrow> ProfileErrorStep E th c)"

subsection \<open>Connections\<close>

definition StartDBC :: "call_api \<Rightarrow> TraceContext option \<Rightarrow> int \<Rightarrow> string \<Rightarrow> DBCStep \<times> ctx_evs" where
  "StartDBC E ctx startTime dbhost =
     (let h = callHashStr E dbhost in
      (\<lparr>dbStart = offsetIn ctx startTime, dbHash = h, dbElapsed = 0, dbError = 0\<rparr>,
       map_option (\<lambda>c. c\<lparr>ActiveDbc := h\<rparr>) ctx,
       [HashText TEXT_DB_URL h dbhost, HashText TEXT_METHOD h dbhost]))"

definition EndDBC :: "call_api \<Rightarrow> TraceContext option \<Rightarrow> DBCStep option \<Rightarrow> int \<Rightarrow> thr option \<Rightarrow> ctx_evs" where
  "EndDBC E ctx st elapsed err =
     (case (ctx, st) of
        (Some c, Some s) \<Rightarrow>
          (let (c1, e1) = errorStep E err c;
               (h, e2) = (case err of
                  None \<Rightarrow> (dbError s, [])
                | Some th \<Rightarrow> (let msg = ca_truncate E (env_trimEmpty (ca_env E) (ErrorMessage th)) 200; mh = callHashStr E msg in
                     (mh, [HashText TEXT_ERROR mh msg])));
               s' = s\<lparr>dbElapsed := elapsed, dbError := h\<rparr> in
           (Some (addStep (DbcStep s') h (c1\<lparr>DbcTime := i32 (DbcTime c1 + elapsed), ActiveDbc := 0\<rparr>)), e1 @ e2))
      | _ \<Rightarrow> (ctx, []))"

subsection \<open>SQL\<close>


definition xtypeOf :: "call_api \<Rightarrow> ParsedSql \<Rightarrow> nat" where
  "xtypeOf E p =
     (if psType p = CHR ''S'' then SQL_XTYPE_METHOD_QUERY E
      else if psType p = CHR ''U'' then SQL_XTYPE_METHOD_UPDATE E else SQL_XTYPE_METHOD_EXECUTE E)"

definition stmtOf :: "call_api \<Rightarrow> string \<Rightarrow> ParsedSql" where
  "stmtOf E q = (case ca_escape E q of None \<Rightarrow> NewParsedSql CHR ''*'' (callHashStr E q) [] | Some p \<Rightarrow> p)"

text \<open>The step of a statement before its times and parameters are known.\<close>

definition newSqlStep :: "call_api \<Rightarrow> string \<Rightarrow> string \<Rightarrow> SqlStepX" where
  "newSqlStep E dbhost q =
     (let p = stmtOf E q in
      \<lparr>sxStart = 0, sxDbc = callHashStr E dbhost, sxHash = psSql p, sxXtype = xtypeOf E p, sxElapsed = 0, sxP1 = None, sxP2 = None, sxPcrc = 0,
       sxStartCpu = 0, sxStartMem = 0, sxError = 0, sxStack = []\<rparr>)"

definition sqlParams :: "call_api \<Rightarrow> string \<Rightarrow> string \<Rightarrow> SqlStepX \<Rightarrow> SqlStepX go" where
  "sqlParams E q sqlParam st =
     (if ProfileSqlParamEnabled E
      then bindGo (toParamBytes (ca_sec E) (psParam (stmtOf E q)) 0) (\<lambda>(p1, crc1).
           bindGo (if sqlParam \<noteq> [] then toParamBytes (ca_sec E) sqlParam crc1 else Inr (sxP2 st, crc1)) (\<lambda>(p2, crc2).
             Inr (st\<lparr>sxP1 := p1, sxP2 := p2, sxPcrc := crc2\<rparr>)))
      else Inr st)"

definition StartSql :: "call_api \<Rightarrow> TraceContext option \<Rightarrow> int \<Rightarrow> string \<Rightarrow> string \<Rightarrow> string \<Rightarrow> SqlStepX option \<times> ctx_evs" where
  "StartSql E ctx startTime dbhost q sqlParam =
     (let st0 = newSqlStep E dbhost q; e = [HashText TEXT_DB_URL (sxDbc st0) dbhost] in
      case sqlParams E q sqlParam st0 of
        Inl _ \<Rightarrow> (None, ctx, e)
      | Inr st \<Rightarrow> (Some (st\<lparr>sxStart := offsetIn ctx startTime\<rparr>), map_option (\<lambda>c. c\<lparr>ActiveSqlhash := sxHash st\<rparr>) ctx, e))"

text \<open>What \<open>EndSql\<close> and \<open>ProfileSql1\<close> share: the statistics outside a transaction, and the end of a call inside one.\<close>

definition sqlOutside :: "SqlStepX \<Rightarrow> thr option \<Rightarrow> ev list" where
  "sqlOutside st err =
     (case err of
        None \<Rightarrow> [StatSql 0 (sxDbc st) (sxHash st) (sxElapsed st) False]
      | Some th \<Rightarrow> [StatSql 0 (sxDbc st) (sxHash st) (sxElapsed st) True, StatError th 0])"

definition sqlInside :: "call_api \<Rightarrow> SqlStepX \<Rightarrow> int \<Rightarrow> int \<Rightarrow> thr option \<Rightarrow> TraceContext \<Rightarrow> TraceContext \<times> ev list" where
  "sqlInside E st0 cpu mem err c0 =
     (let st1 = (if ProfileSqlResourceEnabled E then st0\<lparr>sxStartCpu := i32 (cpu - StartCpu c0), sxStartMem := i64 (mem - StartMalloc c0)\<rparr> else st0);
          (c1, e1) = errorStep E err c0;
          st = (if err = None then st1 else st1\<lparr>sxError := Error c1, sxStack := []\<rparr>);
          c2 = c1\<lparr>ExecutedSqlhash := ActiveSqlhash c1, ActiveSqlhash := 0, ActiveDbc := 0,
                  SqlCount := i32 (SqlCount c1 + 1), SqlTime := i32 (SqlTime c1 + sxElapsed st)\<rparr>;
          bad = (sxError st \<noteq> 0) in
      (addStep (SqlStep st) (sxError st) c2,
       e1 @ [MeterSQL (sxDbc st) (sxElapsed st) bad, StatSql (ServiceHash c2) (sxDbc st) (sxHash st) (sxElapsed st) bad]))"

definition EndSql :: "call_api \<Rightarrow> TraceContext option \<Rightarrow> SqlStepX option \<Rightarrow> int \<Rightarrow> int \<Rightarrow> int \<Rightarrow> thr option \<Rightarrow> ctx_evs" where
  "EndSql E ctx st elapsed cpu mem err =
     (case st of
        None \<Rightarrow> (ctx, [])
      | Some s0 \<Rightarrow> (let s = s0\<lparr>sxElapsed := elapsed\<rparr> in
          case ctx of
            None \<Rightarrow> (None, sqlOutside s err)
          | Some c \<Rightarrow> (case sqlInside E s cpu mem err c of (c', e) \<Rightarrow> (Some c', e))))"

definition ProfileSql :: "call_api \<Rightarrow> TraceContext option \<Rightarrow> int \<Rightarrow> string \<Rightarrow> string \<Rightarrow> string \<Rightarrow> int \<Rightarrow> int \<Rightarrow> int \<Rightarrow> thr option \<Rightarrow> ctx_evs" where
  "ProfileSql E ctx startTime dbhost q sqlParam elapsed cpu mem err =
     (case StartSql E ctx startTime dbhost q sqlParam of (st, ctx1, e1) \<Rightarrow>
        (case EndSql E ctx1 st elapsed cpu mem err of (ctx2, e2) \<Rightarrow> (ctx2, e1 @ e2)))"

definition ProfileSql1 :: "call_api \<Rightarrow> TraceContext option \<Rightarrow> int \<Rightarrow> string \<Rightarrow> string \<Rightarrow> string \<Rightarrow> int \<Rightarrow> int \<Rightarrow> int \<Rightarrow> thr option \<Rightarrow> ctx_evs" where
  "ProfileSql1 E ctx startTime dbhost q sqlParam elapsed cpu mem err =
     (let st0 = (newSqlStep E dbhost q)\<lparr>sxElapsed := elapsed\<rparr>; e = [HashText TEXT_DB_URL (sxDbc st0) dbhost] in
      case ctx of
        None \<Rightarrow> (None, e @ sqlOutside st0 err)
      | Some c \<Rightarrow>
          (case sqlParams E q sqlParam (st0\<lparr>sxStart := offsetIn ctx startTime\<rparr>) of
             Inl _ \<Rightarrow> (ctx, e)
           | Inr st \<Rightarrow> (case sqlInside E st cpu mem err c of (c', e') \<Rightarrow> (Some c', e @ e'))))"

subsection \<open>Outgoing HTTP calls\<close>

definition newHttpcStep :: "call_api \<Rightarrow> string \<Rightarrow> HttpcStepX" where
  "newHttpcStep E url =
     (let u = ca_newURL E url in
      \<lparr>hxStart = 0, hxUrl = callHashStr E (ca_normalize E (cuPath u)), hxHost = callHashStr E (cuHost u), hxPort = i32 (cuPort u),
       hxElapsed = 0, hxStepId = 0, hxDriver = [], hxStartCpu = 0, hxStartMem = 0, hxError = 0, hxStack = []\<rparr>)"

definition httpcTexts :: "call_api \<Rightarrow> string \<Rightarrow> ev list" where
  "httpcTexts E url =
     (let u = ca_newURL E url; nUrl = ca_normalize E (cuPath u) in
      [HashText TEXT_HTTPC_URL (callHashStr E nUrl) nUrl, HashText TEXT_HTTPC_HOST (callHashStr E (cuHost u)) (cuHost u)])"

definition StartHttpc :: "call_api \<Rightarrow> TraceContext option \<Rightarrow> int \<Rightarrow> string \<Rightarrow> HttpcStepX \<times> ctx_evs" where
  "StartHttpc E ctx startTime url =
     (let st = newHttpcStep E url in
      (st\<lparr>hxStart := offsetIn ctx startTime\<rparr>, map_option (\<lambda>c. c\<lparr>ActiveHttpcHash := hxUrl st\<rparr>) ctx, httpcTexts E url))"

definition httpcOutside :: "HttpcStepX \<Rightarrow> thr option \<Rightarrow> ev list" where
  "httpcOutside st err =
     (case err of
        None \<Rightarrow> [StatHttpc 0 (hxUrl st) (hxHost st) (hxPort st) (hxElapsed st) False]
      | Some th \<Rightarrow> [StatHttpc 0 (hxUrl st) (hxHost st) (hxPort st) (hxElapsed st) True, StatError th 0])"

text \<open>\<open>reset\<close> tells whether the mark of the active call is removed, as in \<open>EndHttpc\<close> but not in \<open>ProfileHttpc1\<close>.\<close>

definition httpcInside :: "call_api \<Rightarrow> bool \<Rightarrow> HttpcStepX \<Rightarrow> int \<Rightarrow> int \<Rightarrow> thr option \<Rightarrow> TraceContext \<Rightarrow> TraceContext \<times> ev list" where
  "httpcInside E reset st0 cpu mem err c0 =
     (let st1 = (if ProfileHttpcResourceEnabled E then st0\<lparr>hxStartCpu := i32 (cpu - StartCpu c0), hxStartMem := i64 (mem - StartMalloc c0)\<rparr> else st0);
          (c1, e1) = errorStep E err c0;
          st = (if err = None then st1 else st1\<lparr>hxError := Error c1, hxStack := []\<rparr>);
          c2 = c1\<lparr>HttpcCount := i32 (HttpcCount c1 + 1), HttpcTime := i32 (HttpcTime c1 + hxElapsed st)\<rparr>;
          c3 = (if reset then c2\<lparr>ActiveHttpcHash := 0\<rparr> else c2);
          bad = (hxError st \<noteq> 0) in
      (addStep (HttpcStep st) (hxError st) c3,
       e1 @ [MeterHTTPC (hxHost st) (hxElapsed st) bad, StatHttpc (ServiceHash c3) (hxUrl st) (hxHost st) (hxPort st) (hxElapsed st) bad]))"

definition EndHttpc :: "call_api \<Rightarrow> TraceContext option \<Rightarrow> HttpcStepX option \<Rightarrow> int \<Rightarrow> int \<Rightarrow> int \<Rightarrow> int \<Rightarrow> thr option \<Rightarrow> ctx_evs" where
  "EndHttpc E ctx st elapsed cpu mem stepId err =
     (case st of
        None \<Rightarrow> (ctx, [])
      | Some s0 \<Rightarrow> (let s = s0\<lparr>hxElapsed := elapsed, hxStepId := stepId\<rparr> in
          case ctx of
            None \<Rightarrow> (None, httpcOutside s err)
          | Some c \<Rightarrow> (case httpcInside E True s cpu mem err c of (c', e) \<Rightarrow> (Some c', e))))"

definition ProfileHttpc :: "call_api \<Rightarrow> TraceContext option \<Rightarrow> int \<Rightarrow> string \<Rightarrow> int \<Rightarrow> int \<Rightarrow> int \<Rightarrow> int \<Rightarrow> thr option \<Rightarrow> ctx_evs" where
  "ProfileHttpc E ctx startTime url elapsed cpu mem stepId err =
     (case StartHttpc E ctx startTime url of (st, ctx1, e1) \<Rightarrow>
        (case EndHttpc E ctx1 (Some st) elapsed cpu mem stepId err of (ctx2, e2) \<Rightarrow> (ctx2, e1 @ e2)))"

definition ProfileHttpc1 :: "call_api \<Rightarrow> TraceContext option \<Rightarrow> int \<Rightarrow> string \<Rightarrow> int \<Rightarrow> int \<Rightarrow> int \<Rightarrow> int \<Rightarrow> thr option \<Rightarrow> ctx_evs" where
  "ProfileHttpc1 E ctx startTime url elapsed cpu mem stepId err =
     (let st = (newHttpcStep E url)\<lparr>hxElapsed := elapsed, hxStepId := stepId\<rparr> in
      case ctx of
        None \<Rightarrow> (None, httpcTexts E url @ httpcOutside st err)
      | Some c \<Rightarrow> (case httpcInside E False (st\<lparr>hxStart := offsetIn ctx startTime\<rparr>) cpu mem err c of (c', e) \<Rightarrow> (Some c', httpcTexts E url @ e)))"

subsection \<open>Methods\<close>

definition StartMethod :: "call_api \<Rightarrow> TraceContext option \<Rightarrow> int \<Rightarrow> string \<Rightarrow> MethodStepX \<times> ctx_evs" where
  "StartMethod E ctx startTime meth =
     (let name = (if HasSuffix meth '')'' then meth else meth @ ''()''); h = callHashStr E name in
      (\<lparr>mxStart = offsetIn ctx startTime, mxHash = h, mxElapsed = 0, mxStack = None, mxResource = None\<rparr>, ctx, [HashText TEXT_METHOD h name]))"

definition stackToArray :: "call_api \<Rightarrow> string \<Rightarrow> (int list \<times> ev list) go" where
  "stackToArray E s =
     (let se = ca_tokenizer E s [NL]; mx = min (int (length se)) (TraceErrorCallstackDepth E) in
      if mx < 0 then Inl MakeSlice
      else (let xs = take (nat mx) se; ys = (if phpAppType E then xs else rev xs) in
            Inr (map (callHashStr E) ys, map (\<lambda>x. HashText TEXT_STACK_ELEMENTS (callHashStr E x) x) ys)))"

definition EndMethod :: "call_api \<Rightarrow> TraceContext option \<Rightarrow> MethodStepX option \<Rightarrow> string \<Rightarrow> int \<Rightarrow> int \<Rightarrow> int \<Rightarrow> ctx_evs" where
  "EndMethod E ctx st methodStack elapsed cpu mem =
     (case (ctx, st) of
        (Some c, Some s) \<Rightarrow>
          (let s1 = s\<lparr>mxElapsed := elapsed\<rparr>;
               put = (\<lambda>s2. let s3 = (if ProfileMethodResourceEnabled E then s2\<lparr>mxResource := Some (i32 (cpu - StartCpu c), i32 (mem - StartMalloc c))\<rparr> else s2) in
                             Some (c\<lparr>Profile := Profile c @ [PAdd (MethodStep s3)]\<rparr>)) in
           if methodStack = [] then (put s1, [])
           else (case stackToArray E methodStack of
                   Inl _ \<Rightarrow> (ctx, [])
                 | Inr (stack, e) \<Rightarrow> (put (s1\<lparr>mxStack := Some stack\<rparr>), e)))
      | _ \<Rightarrow> (ctx, []))"

definition ProfileMethod :: "call_api \<Rightarrow> TraceContext option \<Rightarrow> int \<Rightarrow> string \<Rightarrow> string \<Rightarrow> int \<Rightarrow> int \<Rightarrow> int \<Rightarrow> ctx_evs" where
  "ProfileMethod E ctx startTime meth methodStack elapsed cpu mem =
     (case StartMethod E ctx startTime meth of (st, ctx1, e1) \<Rightarrow>
        (case EndMethod E ctx1 (Some st) methodStack elapsed cpu mem of (ctx2, e2) \<Rightarrow> (ctx2, e1 @ e2)))"

subsection \<open>One-step and two-step calls\<close>

lemma toParamBytes_returns: "key sec \<noteq> [] \<Longrightarrow> \<exists>p c. toParamBytes sec s crc = Inr (p, c)"
  by (simp add: toParamBytes_def Encrypt_def Encrypt_loop_eq)

text \<open>The parameters of a statement do not depend on the times of the step.\<close>

lemma sqlParams_returns:
  assumes "key (ca_sec E) \<noteq> []"
  shows "\<exists>p1 p2 crc. \<forall>t el. sqlParams E q prm ((newSqlStep E dbhost q)\<lparr>sxElapsed := el, sxStart := t\<rparr>) =
     Inr ((newSqlStep E dbhost q)\<lparr>sxP1 := p1, sxP2 := p2, sxPcrc := crc, sxStart := t, sxElapsed := el\<rparr>)"
proof -
  obtain p1 c1 where 1: "toParamBytes (ca_sec E) (psParam (stmtOf E q)) 0 = Inr (p1, c1)" using toParamBytes_returns [OF assms] by blast
  obtain p2 c2 where 2: "toParamBytes (ca_sec E) prm c1 = Inr (p2, c2)" using toParamBytes_returns [OF assms] by blast
  show ?thesis
  proof (cases "ProfileSqlParamEnabled E")
    case True
    show ?thesis
      by (rule exI [of _ p1], rule exI [of _ "if prm = [] then None else p2"], rule exI [of _ "if prm = [] then c1 else c2"])
        (simp add: sqlParams_def True 1 2 newSqlStep_def Let_def)
  next
    case False
    show ?thesis
      by (rule exI [of _ None], rule exI [of _ None], rule exI [of _ 0]) (simp add: sqlParams_def False newSqlStep_def Let_def)
  qed
qed

lemma errorStep_hashes:
  "errorStep E err (c\<lparr>ActiveSqlhash := h\<rparr>) = (case errorStep E err c of (c1, e) \<Rightarrow> (c1\<lparr>ActiveSqlhash := h\<rparr>, e))"
  "errorStep E err (c\<lparr>ActiveHttpcHash := h\<rparr>) = (case errorStep E err c of (c1, e) \<Rightarrow> (c1\<lparr>ActiveHttpcHash := h\<rparr>, e))"
  by (simp_all add: errorStep_def ProfileErrorStep_def split: option.split)

lemma errorStep_fields [simp]:
  "ActiveSqlhash (fst (errorStep E err c)) = ActiveSqlhash c" "ActiveHttpcHash (fst (errorStep E err c)) = ActiveHttpcHash c"
  "SqlCount (fst (errorStep E err c)) = SqlCount c" "SqlTime (fst (errorStep E err c)) = SqlTime c" "DbcTime (fst (errorStep E err c)) = DbcTime c"
  "HttpcCount (fst (errorStep E err c)) = HttpcCount c" "HttpcTime (fst (errorStep E err c)) = HttpcTime c"
  "Profile (fst (errorStep E err c)) = Profile c" "ServiceHash (fst (errorStep E err c)) = ServiceHash c"
  "Txid (fst (errorStep E err c)) = Txid c" "StartTime (fst (errorStep E err c)) = StartTime c"
  by (simp_all add: errorStep_def ProfileErrorStep_def split: option.split)

text \<open>The two ways of recording a finished call agree. \<open>ProfileSql1\<close> is the start and the end of a statement in one: the
  same step, totals, meters, statistics and texts, in and outside a transaction, but the hash it leaves as that of the
  executed statement is the one that was active before, where \<open>ProfileSql\<close> leaves that of its own statement. In the same
  way \<open>ProfileHttpc1\<close> leaves the mark of the active call as it was, where \<open>ProfileHttpc\<close> removes it.\<close>
theorem one_step_calls:
  assumes "key (ca_sec E) \<noteq> []"
  shows "ProfileSql1 E ctx start dbhost q prm elapsed cpu mem err =
       apfst (map_option (\<lambda>c. c\<lparr>ExecutedSqlhash := (case ctx of None \<Rightarrow> 0 | Some c0 \<Rightarrow> ActiveSqlhash c0)\<rparr>)) (ProfileSql E ctx start dbhost q prm elapsed cpu mem err) \<and>
     (\<forall>c0 c e. ctx = Some c0 \<longrightarrow> ProfileSql E ctx start dbhost q prm elapsed cpu mem err = (Some c, e) \<longrightarrow> ExecutedSqlhash c = psSql (stmtOf E q)) \<and>
     ProfileHttpc1 E ctx start url elapsed cpu mem sid err =
       apfst (map_option (\<lambda>c. c\<lparr>ActiveHttpcHash := (case ctx of None \<Rightarrow> 0 | Some c0 \<Rightarrow> ActiveHttpcHash c0)\<rparr>)) (ProfileHttpc E ctx start url elapsed cpu mem sid err)"
proof -
  obtain p1 p2 crc where p: "sqlParams E q prm ((newSqlStep E dbhost q)\<lparr>sxElapsed := el, sxStart := t\<rparr>) =
     Inr ((newSqlStep E dbhost q)\<lparr>sxP1 := p1, sxP2 := p2, sxPcrc := crc, sxStart := t, sxElapsed := el\<rparr>)" for t el
    using sqlParams_returns [OF assms] by blast
  have p0: "sqlParams E q prm (newSqlStep E dbhost q) = Inr ((newSqlStep E dbhost q)\<lparr>sxP1 := p1, sxP2 := p2, sxPcrc := crc\<rparr>)"
    using p [of 0 0] by (simp add: newSqlStep_def Let_def)
  have h: "sxHash (newSqlStep E dbhost q) = psSql (stmtOf E q)" by (simp add: newSqlStep_def Let_def)
  note defs = ProfileSql_def ProfileSql1_def StartSql_def EndSql_def p p0 sqlOutside_def h
  show ?thesis
  proof (cases ctx)
    case None
    then show ?thesis by (simp add: defs ProfileHttpc_def ProfileHttpc1_def StartHttpc_def EndHttpc_def httpcOutside_def Let_def offsetIn_def newHttpcStep_def split: option.split)
  next
    case (Some c0)
    obtain c1 e1 where e: "errorStep E err c0 = (c1, e1)" by force
    have f: "ActiveSqlhash c1 = ActiveSqlhash c0" "ActiveHttpcHash c1 = ActiveHttpcHash c0" using errorStep_fields(1,2) [of E err c0] e by simp_all
    show ?thesis
      by (simp add: Some defs sqlInside_def errorStep_hashes e f addStep_def ProfileHttpc_def ProfileHttpc1_def StartHttpc_def EndHttpc_def httpcInside_def Let_def newHttpcStep_def)
  qed
qed

subsection \<open>Totals, meters, statistics and profile tell the same\<close>

text \<open>Operations on a transaction: starts, ends, and calls recorded in one step.\<close>

datatype call_op =
    OpStartDbc int string
  | OpEndDbc DBCStep int "thr option"
  | OpStartSql int string string string
  | OpEndSql SqlStepX int int int "thr option"
  | OpSql1 int string string string int int int "thr option"
  | OpStartHttpc int string
  | OpEndHttpc HttpcStepX int int int int "thr option"
  | OpHttpc1 int string int int int int "thr option"
  | OpMethod int string string int int int

fun call_do :: "call_api \<Rightarrow> call_op \<Rightarrow> TraceContext \<Rightarrow> ctx_evs" where
  "call_do E (OpStartDbc t h) c = snd (StartDBC E (Some c) t h)"
| "call_do E (OpEndDbc st el err) c = EndDBC E (Some c) (Some st) el err"
| "call_do E (OpStartSql t h q prm) c = snd (StartSql E (Some c) t h q prm)"
| "call_do E (OpEndSql st el cpu mem err) c = EndSql E (Some c) (Some st) el cpu mem err"
| "call_do E (OpSql1 t h q prm el cpu mem err) c = ProfileSql1 E (Some c) t h q prm el cpu mem err"
| "call_do E (OpStartHttpc t u) c = snd (StartHttpc E (Some c) t u)"
| "call_do E (OpEndHttpc st el cpu mem sid err) c = EndHttpc E (Some c) (Some st) el cpu mem sid err"
| "call_do E (OpHttpc1 t u el cpu mem sid err) c = ProfileHttpc1 E (Some c) t u el cpu mem sid err"
| "call_do E (OpMethod t m stk el cpu mem) c = ProfileMethod E (Some c) t m stk el cpu mem"

fun call_run :: "call_api \<Rightarrow> call_op list \<Rightarrow> TraceContext \<Rightarrow> ctx_evs" where
  "call_run E [] c = (Some c, [])"
| "call_run E (op # ops) c =
     (case call_do E op c of
        (None, e) \<Rightarrow> (None, e)
      | (Some c1, e) \<Rightarrow> (case call_run E ops c1 of (c2, e2) \<Rightarrow> (c2, e @ e2)))"

text \<open>What the meters, the statistics and the profile say of SQL and HTTP calls: place, time, and whether they failed.\<close>

fun meterSql :: "ev \<Rightarrow> (int \<times> int \<times> bool) list" where
  "meterSql (MeterSQL d t b) = [(d, t, b)]" | "meterSql _ = []"

fun statSql :: "ev \<Rightarrow> (int \<times> int \<times> bool) list" where
  "statSql (StatSql svc d h t b) = [(d, t, b)]" | "statSql _ = []"

fun meterHttpc :: "ev \<Rightarrow> (int \<times> int \<times> bool) list" where
  "meterHttpc (MeterHTTPC d t b) = [(d, t, b)]" | "meterHttpc _ = []"

fun statHttpc :: "ev \<Rightarrow> (int \<times> int \<times> bool) list" where
  "statHttpc (StatHttpc svc u d p t b) = [(d, t, b)]" | "statHttpc _ = []"

fun profSql :: "pcall \<Rightarrow> (int \<times> int \<times> bool) list" where
  "profSql (PAdd (SqlStep s)) = [(sxDbc s, sxElapsed s, False)]"
| "profSql (PAddHeavy (SqlStep s)) = [(sxDbc s, sxElapsed s, True)]"
| "profSql _ = []"

fun profHttpc :: "pcall \<Rightarrow> (int \<times> int \<times> bool) list" where
  "profHttpc (PAdd (HttpcStep s)) = [(hxHost s, hxElapsed s, False)]"
| "profHttpc (PAddHeavy (HttpcStep s)) = [(hxHost s, hxElapsed s, True)]"
| "profHttpc _ = []"

fun dbcTimes :: "pcall \<Rightarrow> int list" where
  "dbcTimes (PAdd (DbcStep s)) = [dbElapsed s]"
| "dbcTimes (PAddHeavy (DbcStep s)) = [dbElapsed s]"
| "dbcTimes _ = []"

abbreviation gather :: "('a \<Rightarrow> 'b list) \<Rightarrow> 'a list \<Rightarrow> 'b list" where
  "gather f xs \<equiv> concat (map f xs)"

text \<open>Account of the calls between two states of a context.\<close>

definition accounted :: "TraceContext \<Rightarrow> TraceContext \<Rightarrow> ev list \<Rightarrow> pcall list \<Rightarrow> bool" where
  "accounted c c' e ps \<longleftrightarrow>
     Profile c' = Profile c @ ps \<and>
     gather statSql e = gather meterSql e \<and> gather profSql ps = gather meterSql e \<and>
     gather statHttpc e = gather meterHttpc e \<and> gather profHttpc ps = gather meterHttpc e \<and>
     i32 (SqlCount c') = i32 (SqlCount c + int (length (gather profSql ps))) \<and>
     i32 (SqlTime c') = i32 (SqlTime c + (\<Sum>(d, t, b)\<leftarrow>gather profSql ps. t)) \<and>
     i32 (HttpcCount c') = i32 (HttpcCount c + int (length (gather profHttpc ps))) \<and>
     i32 (HttpcTime c') = i32 (HttpcTime c + (\<Sum>(d, t, b)\<leftarrow>gather profHttpc ps. t)) \<and>
     i32 (DbcTime c') = i32 (DbcTime c + (\<Sum>t\<leftarrow>gather dbcTimes ps. t))"

lemma i32_trans: "i32 a = i32 (b + x) \<Longrightarrow> i32 d = i32 (a + y) \<Longrightarrow> i32 d = i32 (b + (x + y))"
  by (metis add.assoc i32_add_i32(1))

lemma accounted_trans:
  assumes "accounted c c1 e1 ps1" and "accounted c1 c2 e2 ps2"
  shows "accounted c c2 (e1 @ e2) (ps1 @ ps2)"
  using assms unfolding accounted_def by (elim conjE) (intro conjI; simp only: map_append concat_append length_append of_nat_add sum_list_append append_assoc; blast intro: i32_trans)

lemma accounted_refl: "accounted c c [] []"
  by (simp add: accounted_def)

text \<open>Changes of other fields of the context, texts and error counts do not matter.\<close>

definition same_totals :: "TraceContext \<Rightarrow> TraceContext \<Rightarrow> bool" where
  "same_totals c c' \<longleftrightarrow> Profile c' = Profile c \<and> SqlCount c' = SqlCount c \<and> SqlTime c' = SqlTime c \<and>
     HttpcCount c' = HttpcCount c \<and> HttpcTime c' = HttpcTime c \<and> DbcTime c' = DbcTime c"

fun quiet :: "ev \<Rightarrow> bool" where
  "quiet (HashText k h t) \<longleftrightarrow> True"
| "quiet (StatError th s) \<longleftrightarrow> True"
| "quiet _ \<longleftrightarrow> False"

lemma quiet_events:
  assumes "list_all quiet e"
  shows "gather meterSql e = []" "gather statSql e = []" "gather meterHttpc e = []" "gather statHttpc e = []"
proof -
  have "meterSql x = [] \<and> statSql x = [] \<and> meterHttpc x = [] \<and> statHttpc x = []" if "quiet x" for x using that by (cases x) auto
  then show "gather meterSql e = []" "gather statSql e = []" "gather meterHttpc e = []" "gather statHttpc e = []"
    using assms by (induction e) auto
qed

lemma accounted_quiet: "same_totals c c' \<Longrightarrow> list_all quiet e \<Longrightarrow> accounted c c' e []"
  by (simp add: accounted_def same_totals_def quiet_events)

lemma errorStep_quiet:
  assumes "errorStep E err c = (c1, e1)"
  shows "same_totals c c1" and "list_all quiet e1"
  using assms by (auto simp: errorStep_def ProfileErrorStep_def same_totals_def split: option.splits if_splits)

lemma sqlInside_accounted:
  assumes "sqlInside E st cpu mem err c = (c', e)"
  shows "\<exists>ps. accounted c c' e ps \<and> length (gather profSql ps) = 1 \<and> gather profHttpc ps = []"
proof -
  obtain c1 e1 where s: "errorStep E err c = (c1, e1)" by force
  note q = errorStep_quiet [OF s] quiet_events [OF errorStep_quiet(2) [OF s]]
  show ?thesis
    using assms q(1) by (auto simp: sqlInside_def s Let_def addStep_def accounted_def same_totals_def q)
qed

lemma httpcInside_accounted:
  assumes "httpcInside E r st cpu mem err c = (c', e)"
  shows "\<exists>ps. accounted c c' e ps \<and> length (gather profHttpc ps) = 1 \<and> gather profSql ps = []"
proof -
  obtain c1 e1 where s: "errorStep E err c = (c1, e1)" by force
  note q = errorStep_quiet [OF s] quiet_events [OF errorStep_quiet(2) [OF s]]
  show ?thesis
    using assms q(1) by (auto simp: httpcInside_def s Let_def addStep_def accounted_def same_totals_def q)
qed

lemma EndDBC_accounted:
  assumes "EndDBC E (Some c) (Some st) el err = (Some c', e)"
  shows "\<exists>ps. accounted c c' e ps \<and> gather profSql ps = [] \<and> gather profHttpc ps = []"
proof -
  obtain c1 e1 where s: "errorStep E err c = (c1, e1)" by force
  note q = errorStep_quiet [OF s] quiet_events [OF errorStep_quiet(2) [OF s]]
  show ?thesis
  proof (cases err)
    case None
    then show ?thesis using assms by (auto simp: EndDBC_def errorStep_def Let_def addStep_def accounted_def)
  next
    case (Some th)
    then show ?thesis using assms q(1) by (auto simp: EndDBC_def s [unfolded Some] Let_def addStep_def accounted_def same_totals_def q)
  qed
qed


text \<open>The calls that an operation ends.\<close>

fun endsCalls :: "call_op \<Rightarrow> nat \<times> nat" where
  "endsCalls (OpEndSql st el cpu mem err) = (1, 0)"
| "endsCalls (OpSql1 t h q prm el cpu mem err) = (1, 0)"
| "endsCalls (OpEndHttpc st el cpu mem sid err) = (0, 1)"
| "endsCalls (OpHttpc1 t u el cpu mem sid err) = (0, 1)"
| "endsCalls _ = (0, 0)"

definition call_step :: "call_api \<Rightarrow> call_op \<Rightarrow> TraceContext \<Rightarrow> TraceContext \<Rightarrow> ev list \<Rightarrow> pcall list \<Rightarrow> bool" where
  "call_step E op c c' e ps \<longleftrightarrow> call_do E op c = (Some c', e) \<and> accounted c c' e ps \<and>
     (length (gather profSql ps), length (gather profHttpc ps)) = endsCalls op"

lemma quiet_step:
  assumes "\<exists>c' e. call_do E op c = (Some c', e) \<and> same_totals c c' \<and> list_all quiet e" and "endsCalls op = (0, 0)"
  shows "\<exists>c' e ps. call_step E op c c' e ps"
  using assms accounted_quiet by (fastforce simp: call_step_def intro!: exI [of _ "[]"])

lemma sql_step:
  assumes "call_do E op c = (Some c', e0 @ e)" and "list_all quiet e0" and "sqlInside E st cpu mem err c = (c', e)" and "endsCalls op = (1, 0)"
  shows "\<exists>ps. call_step E op c c' (e0 @ e) ps"
proof -
  obtain ps where ps: "accounted c c' e ps" "length (gather profSql ps) = 1" "gather profHttpc ps = []" using sqlInside_accounted [OF assms(3)] by blast
  have "accounted c c (e0) []" using assms(2) by (simp add: accounted_quiet same_totals_def)
  from accounted_trans [OF this ps(1)] show ?thesis using assms(1,4) ps(2,3) by (intro exI [of _ ps]) (simp add: call_step_def)
qed

lemma httpc_step:
  assumes "call_do E op c = (Some c', e0 @ e)" and "list_all quiet e0" and "httpcInside E r st cpu mem err c = (c', e)" and "endsCalls op = (0, 1)"
  shows "\<exists>ps. call_step E op c c' (e0 @ e) ps"
proof -
  obtain ps where ps: "accounted c c' e ps" "length (gather profHttpc ps) = 1" "gather profSql ps = []" using httpcInside_accounted [OF assms(3)] by blast
  have "accounted c c (e0) []" using assms(2) by (simp add: accounted_quiet same_totals_def)
  from accounted_trans [OF this ps(1)] show ?thesis using assms(1,4) ps(2,3) by (intro exI [of _ ps]) (simp add: call_step_def)
qed

lemma dbc_step: "\<exists>c' e ps. call_step E (OpEndDbc st el err) c c' e ps"
proof -
  have "\<exists>c' e. EndDBC E (Some c) (Some st) el err = (Some c', e)"
    by (cases err; cases "errorStep E err c") (simp_all add: EndDBC_def Let_def)
  then obtain c' e where d: "EndDBC E (Some c) (Some st) el err = (Some c', e)" by blast
  from EndDBC_accounted [OF this] d show ?thesis by (auto simp: call_step_def)
qed

lemma method_step: "\<exists>c' e ps. call_step E (OpMethod t m stk el cpu mem) c c' e ps"
proof (cases "stk = []")
  case True
  then show ?thesis by (auto simp: call_step_def ProfileMethod_def StartMethod_def EndMethod_def accounted_def Let_def)
next
  case False
  have q: "list_all quiet e" if "stackToArray E stk = Inr (ss, e)" for ss e
    using that by (auto simp: stackToArray_def Let_def list_all_iff split: if_splits)
  show ?thesis
  proof (cases "stackToArray E stk")
    case (Inl x)
    with False show ?thesis
      by (intro quiet_step) (simp_all add: ProfileMethod_def StartMethod_def EndMethod_def Let_def same_totals_def)
  next
    case (Inr r)
    obtain ss e where r: "r = (ss, e)" by force
    note z = quiet_events [OF q [OF Inr [unfolded r]]]
    from False Inr r show ?thesis by (auto simp: call_step_def ProfileMethod_def StartMethod_def EndMethod_def accounted_def Let_def z)
  qed
qed

lemma call_do_accounted:
  assumes "key (ca_sec E) \<noteq> []"
  shows "\<exists>c' e ps. call_step E op c c' e ps"
proof (cases op)
  case (OpStartDbc t h)
  show ?thesis
    by (intro quiet_step) (auto simp: OpStartDbc StartDBC_def Let_def same_totals_def)
next
  case (OpEndDbc st el err)
  then show ?thesis using dbc_step by simp
next
  case (OpStartSql t h q prm)
  show ?thesis
    by (intro quiet_step) (auto simp: OpStartSql StartSql_def Let_def same_totals_def split: sum.split)
next
  case (OpEndSql st el cpu mem err)
  obtain c' e where "sqlInside E (st\<lparr>sxElapsed := el\<rparr>) cpu mem err c = (c', e)" by force
  then show ?thesis using sql_step [of E op c c' "[]" e] by (fastforce simp: OpEndSql EndSql_def Let_def)
next
  case (OpSql1 t h q prm el cpu mem err)
  obtain p1 p2 crc where "sqlParams E q prm ((newSqlStep E h q)\<lparr>sxElapsed := el, sxStart := t\<rparr>) =
     Inr ((newSqlStep E h q)\<lparr>sxP1 := p1, sxP2 := p2, sxPcrc := crc, sxStart := t, sxElapsed := el\<rparr>)" for t el
    using sqlParams_returns [OF assms] by blast
  moreover obtain c' e where "sqlInside E ((newSqlStep E h q)\<lparr>sxP1 := p1, sxP2 := p2, sxPcrc := crc, sxStart := offsetIn (Some c) t, sxElapsed := el\<rparr>) cpu mem err c = (c', e)" by force
  ultimately show ?thesis using sql_step [of E op c c' "[HashText TEXT_DB_URL (sxDbc (newSqlStep E h q)) h]" e] by (fastforce simp: OpSql1 ProfileSql1_def Let_def)
next
  case (OpStartHttpc t u)
  show ?thesis
    by (intro quiet_step) (auto simp: OpStartHttpc StartHttpc_def httpcTexts_def Let_def same_totals_def)
next
  case (OpEndHttpc st el cpu mem sid err)
  obtain c' e where "httpcInside E True (st\<lparr>hxElapsed := el, hxStepId := sid\<rparr>) cpu mem err c = (c', e)" by force
  then show ?thesis using httpc_step [of E op c c' "[]" e] by (fastforce simp: OpEndHttpc EndHttpc_def Let_def)
next
  case (OpHttpc1 t u el cpu mem sid err)
  obtain c' e where "httpcInside E False ((newHttpcStep E u)\<lparr>hxElapsed := el, hxStepId := sid, hxStart := offsetIn (Some c) t\<rparr>) cpu mem err c = (c', e)" by force
  then show ?thesis using httpc_step [of E op c c' "httpcTexts E u" e] by (fastforce simp: OpHttpc1 ProfileHttpc1_def httpcTexts_def Let_def)
next
  case (OpMethod t m stk el cpu mem)
  then show ?thesis using method_step by simp
qed

text \<open>C15: the totals of a transaction, its profile, the meters and the statistics tell the same of its calls. Over any sequence
  of starts and ends of connections, statements, HTTP calls and methods, every ended statement is one step of the profile,
  one call of the meter and one of the statistics, with the same time and the same verdict (the step is a heavy one exactly
  if the call failed), the number and time of statements of the context are the number and sum of those, and the same holds
  for HTTP calls; the connection time is the sum of the connection steps.\<close>
theorem calls_accounted:
  assumes "key (ca_sec E) \<noteq> []"
  shows "\<exists>c' e ps. call_run E ops c = (Some c', e) \<and> accounted c c' e ps \<and>
     length (gather profSql ps) = (\<Sum>op\<leftarrow>ops. fst (endsCalls op)) \<and> length (gather profHttpc ps) = (\<Sum>op\<leftarrow>ops. snd (endsCalls op))"
proof (induction ops arbitrary: c)
  case Nil
  show ?case using accounted_refl [of c] by (intro exI [of _ c] exI [of _ "[]"]) simp
next
  case (Cons op ops)
  obtain c1 e1 p1 where 1: "call_step E op c c1 e1 p1" using call_do_accounted [OF assms] by blast
  obtain c2 e2 p2 where 2: "call_run E ops c1 = (Some c2, e2)" "accounted c1 c2 e2 p2" "length (gather profSql p2) = (\<Sum>op\<leftarrow>ops. fst (endsCalls op))"
      "length (gather profHttpc p2) = (\<Sum>op\<leftarrow>ops. snd (endsCalls op))" using Cons.IH by blast
  from 1 have a: "accounted c c1 e1 p1" "call_do E op c = (Some c1, e1)" "fst (endsCalls op) = length (gather profSql p1)" "snd (endsCalls op) = length (gather profHttpc p1)"
    by (auto simp: call_step_def) (metis fst_conv, metis snd_conv)
  show ?case
    by (intro exI [of _ c2] exI [of _ "e1 @ e2"] exI [of _ "p1 @ p2"]) (simp add: a 2 accounted_trans [OF a(1) 2(2)])
qed

subsection \<open>Instances and errors\<close>

definition callApi1 :: call_api where
  "callApi1 = \<lparr>ca_env = agentEnv1, ca_escape = (\<lambda>q. case escapeSql False False q of Inr (n, p, t) \<Rightarrow> Some (NewParsedSql t (int (length n)) p) | Inl _ \<Rightarrow> None),
     ca_sec = NewParamSecurity (\<lambda>_. 7), ca_newURL = (\<lambda>u. \<lparr>cuPath = u, cuHost = ''h'', cuPort = 80\<rparr>), ca_normalize = (\<lambda>s. s), ca_truncate = (\<lambda>s n. take n s),
     ca_tokenizer = (\<lambda>s sep. [s]), SQL_XTYPE_METHOD_QUERY = 1, SQL_XTYPE_METHOD_UPDATE = 2, SQL_XTYPE_METHOD_EXECUTE = 3, TraceErrorCallstackDepth = 50, phpAppType = False,
     ProfileSqlParamEnabled = True, ProfileSqlResourceEnabled = False, ProfileHttpcResourceEnabled = False, ProfileMethodResourceEnabled = False\<rparr>"

lemma callApi1_key: "key (ca_sec callApi1) \<noteq> []"
  by (simp add: callApi1_def NewParamSecurity_def bytesOf_def)

theorem one_step_calls_witness:
  "ProfileSql1 callApi1 None 5 ''db'' ''select 1'' [] 7 0 0 None = ProfileSql callApi1 None 5 ''db'' ''select 1'' [] 7 0 0 None"
proof -
  have n: "fst (ProfileSql callApi1 None 5 ''db'' ''select 1'' [] 7 0 0 None) = None"
    by (simp add: ProfileSql_def StartSql_def EndSql_def Let_def split: sum.split option.split)
  from conjunct1 [OF one_step_calls [OF callApi1_key, of None 5 "''db''" "''select 1''" "[]" 7 0 0 None]] n show ?thesis
    by (cases "ProfileSql callApi1 None 5 ''db'' ''select 1'' [] 7 0 0 None") simp
qed

theorem calls_accounted_witness:
  "\<exists>c' e ps. call_run callApi1 [OpSql1 5 ''db'' ''select 1'' [] 7 0 0 None, OpStartHttpc 6 ''/x'', OpSql1 9 ''db'' ''select 2'' [] 1 0 0 None] NewTraceContext = (Some c', e) \<and>
     accounted NewTraceContext c' e ps \<and> length (gather profSql ps) = 2 \<and> length (gather profHttpc ps) = 0"
  using calls_accounted [OF callApi1_key, of "[OpSql1 5 ''db'' ''select 1'' [] 7 0 0 None, OpStartHttpc 6 ''/x'', OpSql1 9 ''db'' ''select 2'' [] 1 0 0 None]" NewTraceContext]
  by (simp add: numeral_2_eq_2)

text \<open>A call that fails with an ignored exception takes over the error of an earlier one. The end of a statement copies the
  error of the context into the step whenever it is given an error; an ignored exception leaves the context as it is, so
  the statement counts as failed exactly if something else had failed before it. Outside a transaction an ignored
  exception is counted as an error.\<close>
theorem ignored_error_inherited:
  assumes "env_ignoreException (ca_env E) th"
  shows "(\<exists>c' e. EndSql E (Some c) (Some st) el cpu mem (Some th) = (Some c', e) \<and> Error c' = Error c \<and> gather meterSql e = [(sxDbc st, el, Error c \<noteq> 0)]) \<and>
     EndSql E None (Some st) el cpu mem (Some th) = (None, [StatSql 0 (sxDbc st) (sxHash st) el True, StatError th 0])"
  using assms by (simp add: EndSql_def sqlInside_def sqlOutside_def errorStep_def ProfileErrorStep_def Let_def addStep_def)

theorem ignored_error_inherited_witness:
  "\<exists>c' e. EndSql (callApi1\<lparr>ca_env := agentEnv1\<lparr>env_ignoreException := \<lambda>_. True\<rparr>\<rparr>) (Some (NewTraceContext\<lparr>Error := 4\<rparr>)) (Some (newSqlStep callApi1 ''db'' ''select 1'')) 7 0 0
      (Some \<lparr>ErrorClassName = ''E'', ErrorMessage = ''m''\<rparr>) = (Some c', e) \<and> Error c' = 4 \<and> gather meterSql e = [(sxDbc (newSqlStep callApi1 ''db'' ''select 1''), 7, True)]"
proof -
  let ?E = "callApi1\<lparr>ca_env := agentEnv1\<lparr>env_ignoreException := \<lambda>_. True\<rparr>\<rparr>" and ?th = "\<lparr>ErrorClassName = ''E'', ErrorMessage = ''m''\<rparr>"
  have "env_ignoreException (ca_env ?E) ?th" by simp
  from conjunct1 [OF ignored_error_inherited [OF this, of "NewTraceContext\<lparr>Error := 4\<rparr>" "newSqlStep callApi1 ''db'' ''select 1''" 7 0 0]]
  show ?thesis by simp
qed

end
