(* ===== verification/Call_User.thy ===== *)
theory Call_User
  imports Trace_Api Call_Api
begin

text \<open>
  The user's side of calls (packages \<^verbatim>\<open>sql\<close>, \<^verbatim>\<open>httpc\<close> and \<^verbatim>\<open>method\<close>): starting and ending a call in the transaction of a
  context, the wrappers around a function, hiding the password of a connection string and printing the parameters of a
  statement.

  The contexts of calls come from pools, as the handles of transactions do (\<^verbatim>\<open>Trace_Api\<close>); \<open>pick\<close> is the choice
  of \<^verbatim>\<open>sync.Pool\<close>. A step is kept in an interface: a nil step of a statement (\<open>SqlSt None\<close>) is not a nil interface. A
  parameter is a string or another value with its printed form. The LLM hooks of \<^verbatim>\<open>httpc\<close> are arguments
  (\<open>llm_hooks\<close>), and the calls of \<open>HandleHttpcEnd\<close> are listed. A wrapped function may use the whole state, and may panic.
\<close>

subsection \<open>Pools of call contexts\<close>

record 'c pool =
  objs :: "nat \<Rightarrow> 'c"
  free :: "nat list"
  nextObj :: nat

definition pool_take :: "'c \<Rightarrow> nat option \<Rightarrow> 'c pool \<Rightarrow> nat \<times> 'c pool" where
  "pool_take blank pick p =
     (let (a, fr, new) = poolGet pick (free p) (nextObj p) in
      (a, p\<lparr>objs := (if a = nextObj p then (objs p)(a := blank) else objs p), free := fr, nextObj := new\<rparr>))"

definition pool_close :: "'c \<Rightarrow> nat \<Rightarrow> 'c pool \<Rightarrow> 'c pool" where
  "pool_close blank a p = p\<lparr>objs := (objs p)(a := blank), free := free p @ [a]\<rparr>"

datatype sql_step = DbcSt DBCStep | SqlSt "SqlStepX option"

record SqlCtx =
  sqHandle :: "nat option"
  sqStep :: "sql_step option"
  sqTxid :: int
  sqServiceName :: string
  sqStartTime :: int
  sqDbc :: string
  sqSql :: string
  sqParam :: string
  sqType :: nat
  sqCpu :: int
  sqMem :: int

definition NewSqlCtx :: SqlCtx where
  "NewSqlCtx = \<lparr>sqHandle = None, sqStep = None, sqTxid = 0, sqServiceName = [], sqStartTime = 0, sqDbc = [], sqSql = [], sqParam = [], sqType = 0, sqCpu = 0, sqMem = 0\<rparr>"

record 'x HttpcCtx =
  hcHandle :: "nat option"
  hcStep :: "HttpcStepX option"
  hcTxid :: int
  hcServiceName :: string
  hcStartTime :: int
  hcUrl :: string
  hcStepId :: int
  hcTraceparentValue :: string
  hcCallerValue :: string
  hcPoidValue :: string
  hcSpecValue :: string
  Extra :: "'x option"

definition NewHttpcCtx :: "'x HttpcCtx" where
  "NewHttpcCtx = \<lparr>hcHandle = None, hcStep = None, hcTxid = 0, hcServiceName = [], hcStartTime = 0, hcUrl = [], hcStepId = 0,
     hcTraceparentValue = [], hcCallerValue = [], hcPoidValue = [], hcSpecValue = [], Extra = None\<rparr>"

record MethodCtx =
  mcHandle :: "nat option"
  mcStep :: "MethodStepX option"
  mcTxid :: int
  mcServiceName :: string
  mcStartTime :: int
  mcMethod :: string
  mcStack :: string
  mcCpu :: int
  mcMem :: int

definition NewMethodCtx :: MethodCtx where
  "NewMethodCtx = \<lparr>mcHandle = None, mcStep = None, mcTxid = 0, mcServiceName = [], mcStartTime = 0, mcMethod = [], mcStack = [], mcCpu = 0, mcMem = 0\<rparr>"

datatype 'x llm_end = LlmEnd 'x "nat option" int int int int "thr option"

record ('l, 'x) cw =
  cwApi :: "'l api"
  cwSql :: "SqlCtx pool"
  cwHttpc :: "'x HttpcCtx pool"
  cwMethod :: "MethodCtx pool"
  cwLlm :: "'x llm_end list"

text \<open>The library's environment: the API's, the agent's, and the functions of other components.\<close>

record 'x user_env =
  uApi :: api_env
  uCall :: call_api
  ProfileMethodEnabled :: bool
  ProfileMethodStackEnabled :: bool
  lhTake :: "gctx \<Rightarrow> 'x option"
  lhSetURL :: "string \<Rightarrow> 'x \<Rightarrow> 'x"
  lhAuto :: "string \<Rightarrow> 'x option"
  lhForced :: "string \<Rightarrow> 'x option"

text \<open>Use the agent's context of a handle, nil if there is none.\<close>

definition GetAgentTraceContext :: "nat option \<Rightarrow> 'l api \<Rightarrow> nat option" where
  "GetAgentTraceContext ho w = (case ho of None \<Rightarrow> None | Some h \<Rightarrow> Ctx (handles w h))"

definition withAgent :: "nat option \<Rightarrow> (TraceContext option \<Rightarrow> 'r \<times> ctx_evs) \<Rightarrow> 'l api \<Rightarrow> 'r \<times> 'l api" where
  "withAgent ao f w =
     (case f (map_option (agents w) ao) of (r, ctx, e) \<Rightarrow>
        (r, w\<lparr>agents := (case ao of None \<Rightarrow> agents w | Some a \<Rightarrow> (case ctx of None \<Rightarrow> agents w | Some c \<Rightarrow> (agents w)(a := c))),
              evs := evs w @ e\<rparr>))"

definition onAgent :: "nat option \<Rightarrow> (TraceContext option \<Rightarrow> ctx_evs) \<Rightarrow> 'l api \<Rightarrow> 'l api" where
  "onAgent ao f w = snd (withAgent ao (\<lambda>c. ((), f c)) w)"

subsection \<open>Connection strings and parameters\<close>

definition hidePwd :: "string \<Rightarrow> string" where
  "hidePwd s =
     (let byPassword =
            (let first = Index s ''password='' in
             if first > -1
             then (let r = drop (nat first) s; last = Index r '' '' in
                   if last > -1 \<and> first < last then take (nat first) s @ ''password=#'' @ drop (nat last) r else s)
             else s);
          first = Index s '':'' in
      if first > -1
      then (let r = drop (nat first) s; last = Index r ''@'' in
            if last > -1 \<and> first < last then take (nat first) s @ '':#'' @ drop (nat last) r else byPassword)
      else byPassword)"

datatype sql_param = PStr string | PVal string

definition SQL_PARAM_MAX_COUNT :: nat where "SQL_PARAM_MAX_COUNT = 20"
definition SQL_PARAM_VALUE_MAX_SIZE :: nat where "SQL_PARAM_VALUE_MAX_SIZE = 256"

definition paramText :: "call_api \<Rightarrow> nat \<Rightarrow> nat \<times> sql_param \<Rightarrow> string" where
  "paramText A n iv =
     (case iv of (i, v) \<Rightarrow>
        if i < SQL_PARAM_MAX_COUNT
        then (let comma = (if i + 1 < n \<or> i < SQL_PARAM_MAX_COUNT - 1 then '','' else []) in
              case v of
                PStr t \<Rightarrow> [QUOTE] @ ca_truncate A t SQL_PARAM_VALUE_MAX_SIZE @ [QUOTE] @ comma
              | PVal t \<Rightarrow> ca_truncate A (t @ comma) SQL_PARAM_VALUE_MAX_SIZE)
        else [])"

definition paramsToString :: "call_api \<Rightarrow> sql_param list \<Rightarrow> string" where
  "paramsToString A ps = concat (map (paramText A (length ps)) (enumerate 0 ps))"

subsection \<open>Package sql\<close>

definition SQL_TYPE_DBC :: nat where "SQL_TYPE_DBC = 1"
definition SQL_TYPE_SQL :: nat where "SQL_TYPE_SQL = 2"
definition SQL_TYPE_SQL_PARAM :: nat where "SQL_TYPE_SQL_PARAM = 3"

text \<open>The fields that all start functions set.\<close>

definition newSqlCtxIn :: "'x user_env \<Rightarrow> int \<Rightarrow> int \<Rightarrow> gctx \<Rightarrow> string \<Rightarrow> 'l api \<Rightarrow> SqlCtx \<Rightarrow> SqlCtx" where
  "newSqlCtxIn U g tm gc dbhost w s =
     (case snd (GetTraceContext (uApi U) g gc w) of
        None \<Rightarrow> s
      | Some h \<Rightarrow> s\<lparr>sqHandle := Some h, sqTxid := TraceCtx.Txid (handles w h), sqServiceName := Name (handles w h)\<rparr>)
     \<lparr>sqStartTime := tm, sqDbc := hidePwd dbhost\<rparr>"

definition sql_StartOpen :: "'x user_env \<Rightarrow> int \<Rightarrow> int \<Rightarrow> nat option \<Rightarrow> gctx \<Rightarrow> string \<Rightarrow> ('l, 'x) cw \<Rightarrow> nat \<times> ('l, 'x) cw" where
  "sql_StartOpen U g tm pick gc dbhost w =
     (case pool_take NewSqlCtx pick (cwSql w) of (a, p) \<Rightarrow>
        if off (uApi U) then (a, w\<lparr>cwSql := p\<rparr>)
        else (let s = (newSqlCtxIn U g tm gc dbhost (cwApi w) (objs p a))\<lparr>sqType := SQL_TYPE_DBC\<rparr> in
              case withAgent (GetAgentTraceContext (snd (GetTraceContext (uApi U) g gc (cwApi w))) (cwApi w))
                     (\<lambda>c. StartDBC (uCall U) c tm (sqDbc s)) (cwApi w) of (st, w') \<Rightarrow>
                (a, w\<lparr>cwApi := w', cwSql := p\<lparr>objs := (objs p)(a := s\<lparr>sqStep := Some (DbcSt st)\<rparr>)\<rparr>\<rparr>)))"

text \<open>\<open>Start\<close> and \<open>StartWithParam\<close> differ in type and parameters.\<close>

definition startStatement ::
  "'x user_env \<Rightarrow> int \<Rightarrow> int \<Rightarrow> nat option \<Rightarrow> gctx \<Rightarrow> string \<Rightarrow> string \<Rightarrow> nat \<Rightarrow> string \<Rightarrow> ('l, 'x) cw \<Rightarrow> nat \<times> ('l, 'x) cw" where
  "startStatement U g tm pick gc dbhost q ty prm w =
     (case pool_take NewSqlCtx pick (cwSql w) of (a, p) \<Rightarrow>
        if off (uApi U) then (a, w\<lparr>cwSql := p\<rparr>)
        else (let s = (newSqlCtxIn U g tm gc dbhost (cwApi w) (objs p a))\<lparr>sqSql := q, sqType := ty, sqParam := prm\<rparr> in
              case withAgent (GetAgentTraceContext (snd (GetTraceContext (uApi U) g gc (cwApi w))) (cwApi w))
                     (\<lambda>c. StartSql (uCall U) c tm (sqDbc s) (sqSql s) (sqParam s)) (cwApi w) of (st, w') \<Rightarrow>
                (a, w\<lparr>cwApi := w', cwSql := p\<lparr>objs := (objs p)(a := s\<lparr>sqStep := Some (SqlSt st)\<rparr>)\<rparr>\<rparr>)))"

definition sql_Start :: "'x user_env \<Rightarrow> int \<Rightarrow> int \<Rightarrow> nat option \<Rightarrow> gctx \<Rightarrow> string \<Rightarrow> string \<Rightarrow> ('l, 'x) cw \<Rightarrow> nat \<times> ('l, 'x) cw" where
  "sql_Start U g tm pick gc dbhost q w = startStatement U g tm pick gc dbhost q SQL_TYPE_SQL [] w"

definition sql_StartWithParam ::
  "'x user_env \<Rightarrow> int \<Rightarrow> int \<Rightarrow> nat option \<Rightarrow> gctx \<Rightarrow> string \<Rightarrow> string \<Rightarrow> sql_param list \<Rightarrow> ('l, 'x) cw \<Rightarrow> nat \<times> ('l, 'x) cw" where
  "sql_StartWithParam U g tm pick gc dbhost q ps w =
     (if ProfileSqlParamEnabled (uCall U)
      then startStatement U g tm pick gc dbhost q SQL_TYPE_SQL_PARAM (paramsToString (uCall U) ps) w
      else startStatement U g tm pick gc dbhost q SQL_TYPE_SQL [] w)"

datatype sql_err = NoErr | ErrSkip | Err thr

fun collected :: "sql_err \<Rightarrow> thr option" where
  "collected (Err th) = Some th"
| "collected _ = None"

definition endStatement :: "'x user_env \<Rightarrow> int \<Rightarrow> sql_err \<Rightarrow> SqlCtx \<Rightarrow> 'l api \<Rightarrow> 'l api" where
  "endStatement U tm err s w =
     (let elapsed = i32 (tm - sqStartTime s); ao = GetAgentTraceContext (sqHandle s) w in
      if sqType s = SQL_TYPE_DBC
      then (case sqStep s of
              Some (DbcSt st) \<Rightarrow> onAgent ao (\<lambda>c. EndDBC (uCall U) c (Some st) elapsed (collected err)) w
            | _ \<Rightarrow> w)
      else if sqType s = SQL_TYPE_SQL \<or> sqType s = SQL_TYPE_SQL_PARAM
      then (case sqStep s of
              Some (SqlSt st) \<Rightarrow> onAgent ao (\<lambda>c. EndSql (uCall U) c st elapsed (sqCpu s) (sqMem s) (collected err)) w
            | _ \<Rightarrow> w)
      else w)"

definition sql_End :: "'x user_env \<Rightarrow> int \<Rightarrow> nat option \<Rightarrow> sql_err \<Rightarrow> ('l, 'x) cw \<Rightarrow> string option \<times> ('l, 'x) cw" where
  "sql_End U tm sc err w =
     (if off (uApi U) then (None, w)
      else (case sc of
              None \<Rightarrow> (Some ''SqlCtx is nil'', w)
            | Some a \<Rightarrow>
                (let s = objs (cwSql w) a in
                 if sqStep s = None then (Some ''SqlCtx is nil'', w)
                 else (None, w\<lparr>cwApi := endStatement U tm err s (cwApi w), cwSql := pool_close NewSqlCtx a (cwSql w)\<rparr>))))"

definition sql_Trace :: "'x user_env \<Rightarrow> int \<Rightarrow> int \<Rightarrow> gctx \<Rightarrow> string \<Rightarrow> string \<Rightarrow> sql_param list \<Rightarrow> int \<Rightarrow> sql_err \<Rightarrow> ('l, 'x) cw \<Rightarrow> ('l, 'x) cw" where
  "sql_Trace U g tm gc dbhost q ps elapsed err w =
     (if off (uApi U) then w
      else (let prm = (if ProfileSqlParamEnabled (uCall U) \<and> ps \<noteq> [] then paramsToString (uCall U) ps else []);
                ao = GetAgentTraceContext (snd (GetTraceContext (uApi U) g gc (cwApi w))) (cwApi w);
                th = (case err of NoErr \<Rightarrow> None | ErrSkip \<Rightarrow> Some \<lparr>ErrorClassName = ''*errors.errorString'', ErrorMessage = ''driver: skip fast-path; continue as if unimplemented''\<rparr> | Err t \<Rightarrow> Some t) in
            w\<lparr>cwApi := onAgent ao (\<lambda>c. ProfileSql (uCall U) c tm (hidePwd dbhost) q prm (i32 elapsed) 0 0 th) (cwApi w)\<rparr>))"

text \<open>The wrappers: start, the function, end. There is no \<open>defer\<close>: a panic of the function passes the end by.\<close>

definition wrapCall ::
  "(('l, 'x) cw \<Rightarrow> 'k \<times> ('l, 'x) cw) \<Rightarrow> (('l, 'x) cw \<Rightarrow> ('r \<times> 'e) go \<times> ('l, 'x) cw) \<Rightarrow> ('k \<Rightarrow> 'r \<times> 'e \<Rightarrow> ('l, 'x) cw \<Rightarrow> ('l, 'x) cw) \<Rightarrow> ('l, 'x) cw \<Rightarrow> ('r \<times> 'e) go \<times> ('l, 'x) cw" where
  "wrapCall start fn fin w =
     (case start w of (k, w1) \<Rightarrow>
        (case fn w1 of
           (Inl p, w2) \<Rightarrow> (Inl p, w2)
         | (Inr r, w2) \<Rightarrow> (Inr r, fin k r w2)))"

definition sql_Wrap ::
  "'x user_env \<Rightarrow> int \<Rightarrow> int \<Rightarrow> int \<Rightarrow> nat option \<Rightarrow> gctx \<Rightarrow> string \<Rightarrow> string \<Rightarrow> (('l, 'x) cw \<Rightarrow> ('r \<times> sql_err) go \<times> ('l, 'x) cw) \<Rightarrow> ('l, 'x) cw \<Rightarrow> ('r \<times> sql_err) go \<times> ('l, 'x) cw" where
  "sql_Wrap U g t1 t2 pick gc dbhost q fn w =
     wrapCall (sql_Start U g t1 pick gc dbhost q) fn (\<lambda>k r w2. snd (sql_End U t2 (Some k) (snd r) w2)) w"

definition sql_WrapP ::
  "'x user_env \<Rightarrow> int \<Rightarrow> int \<Rightarrow> int \<Rightarrow> nat option \<Rightarrow> gctx \<Rightarrow> string \<Rightarrow> string \<Rightarrow> sql_param list \<Rightarrow> (('l, 'x) cw \<Rightarrow> ('r \<times> sql_err) go \<times> ('l, 'x) cw) \<Rightarrow> ('l, 'x) cw \<Rightarrow> ('r \<times> sql_err) go \<times> ('l, 'x) cw" where
  "sql_WrapP U g t1 t2 pick gc dbhost q ps fn w =
     wrapCall (sql_StartWithParam U g t1 pick gc dbhost q ps) fn (\<lambda>k r w2. snd (sql_End U t2 (Some k) (snd r) w2)) w"

definition sql_WrapOpen ::
  "'x user_env \<Rightarrow> int \<Rightarrow> int \<Rightarrow> int \<Rightarrow> nat option \<Rightarrow> gctx \<Rightarrow> string \<Rightarrow> (('l, 'x) cw \<Rightarrow> ('r \<times> sql_err) go \<times> ('l, 'x) cw) \<Rightarrow> ('l, 'x) cw \<Rightarrow> ('r \<times> sql_err) go \<times> ('l, 'x) cw" where
  "sql_WrapOpen U g t1 t2 pick gc dbhost fn w =
     wrapCall (sql_StartOpen U g t1 pick gc dbhost) fn (\<lambda>k r w2. snd (sql_End U t2 (Some k) (snd r) w2)) w"

subsection \<open>Package httpc\<close>

definition httpc_GetMTrace :: "'x user_env \<Rightarrow> 'x HttpcCtx \<Rightarrow> header" where
  "httpc_GetMTrace U s =
     (let m = mtraceConf (uApi U) in
      if disable m then []
      else if MtraceEnabled m \<and> hcCallerValue s \<noteq> []
      then headerSet (TraceMtraceSpecKey1 m) (hcSpecValue s) (headerSet (TraceMtracePoidKey m) (hcPoidValue s)
             (headerSet (TraceMtraceCallerKey m) (hcCallerValue s) (headerSet (TraceMtraceTraceparentKey m) (hcTraceparentValue s) [])))
      else [])"

definition orElse :: "'a option \<Rightarrow> 'a option \<Rightarrow> 'a option" where
  "orElse a b = (if a = None then b else a)"

definition httpc_Start :: "'x user_env \<Rightarrow> int \<Rightarrow> int \<Rightarrow> nat option \<Rightarrow> gctx \<Rightarrow> string \<Rightarrow> ('l, 'x) cw \<Rightarrow> nat \<times> ('l, 'x) cw" where
  "httpc_Start U g tm pick gc url w =
     (case pool_take NewHttpcCtx pick (cwHttpc w) of (a, p) \<Rightarrow>
        if off (uApi U) then (a, w\<lparr>cwHttpc := p\<rparr>)
        else (let s0 = (objs p a)\<lparr>hcStartTime := tm, hcUrl := url\<rparr>;
                  (s1, w1) = (case snd (GetTraceContext (uApi U) g gc (cwApi w)) of
                     None \<Rightarrow> (s0, cwApi w)
                   | Some h \<Rightarrow>
                       (let t = handles (cwApi w) h in
                        case withAgent (Ctx t) (\<lambda>c. StartHttpc (uCall U) c tm url) (cwApi w) of (st, w') \<Rightarrow>
                          (s0\<lparr>hcHandle := Some h, hcTxid := TraceCtx.Txid t, hcServiceName := Name t,
                              hcStepId := MStepId t, hcStep := Some (st\<lparr>hxStepId := MStepId t\<rparr>)\<rparr>, w')));
                  ex = orElse (Extra s1) (orElse (map_option (lhSetURL U url) (lhTake U gc)) (lhAuto U url)) in
              (a, w\<lparr>cwApi := w1, cwHttpc := p\<lparr>objs := (objs p)(a := s1\<lparr>Extra := ex\<rparr>)\<rparr>\<rparr>)))"

definition httpc_StartLLM :: "'x user_env \<Rightarrow> int \<Rightarrow> int \<Rightarrow> nat option \<Rightarrow> gctx \<Rightarrow> string \<Rightarrow> ('l, 'x) cw \<Rightarrow> nat \<times> ('l, 'x) cw" where
  "httpc_StartLLM U g tm pick gc url w =
     (case httpc_Start U g tm pick gc url w of (a, w1) \<Rightarrow>
        (let s = objs (cwHttpc w1) a in
         (a, w1\<lparr>cwHttpc := (cwHttpc w1)\<lparr>objs := (objs (cwHttpc w1))(a := s\<lparr>Extra := orElse (Extra s) (lhForced U url)\<rparr>)\<rparr>\<rparr>)))"

text \<open>The start time is read before the test for nil, so a nil context panics.\<close>

definition httpc_End :: "'x user_env \<Rightarrow> int \<Rightarrow> nat option \<Rightarrow> int \<Rightarrow> thr option \<Rightarrow> ('l, 'x) cw \<Rightarrow> (string option \<times> ('l, 'x) cw) go" where
  "httpc_End U tm hc code err w =
     (if off (uApi U) then Inr (None, w)
      else (case hc of
              None \<Rightarrow> Inl NilDereference
            | Some a \<Rightarrow>
                (let s = objs (cwHttpc w) a; elapsed = i32 (tm - hcStartTime s); ao = GetAgentTraceContext (hcHandle s) (cwApi w);
                     w1 = (case hcStep s of
                             None \<Rightarrow> w
                           | Some st0 \<Rightarrow>
                               (let st = (if Extra s = None then st0 else st0\<lparr>hxDriver := ''LLM API''\<rparr>) in
                                w\<lparr>cwApi := onAgent ao (\<lambda>c. EndHttpc (uCall U) c (Some st) elapsed 0 0 (hcStepId s) err) (cwApi w)\<rparr>));
                     sid = (if hcStep s = None then 0 else hcStepId s);
                     w2 = (case Extra s of None \<Rightarrow> w1 | Some x \<Rightarrow> w1\<lparr>cwLlm := cwLlm w1 @ [LlmEnd x (hcHandle s) (hcTxid s) sid elapsed code err]\<rparr>) in
                 Inr (None, w2\<lparr>cwHttpc := pool_close NewHttpcCtx a (cwHttpc w2)\<rparr>))))"

definition httpc_Trace :: "'x user_env \<Rightarrow> int \<Rightarrow> int \<Rightarrow> gctx \<Rightarrow> string \<Rightarrow> int \<Rightarrow> thr option \<Rightarrow> ('l, 'x) cw \<Rightarrow> ('l, 'x) cw" where
  "httpc_Trace U g tm gc url elapsed err w =
     (if off (uApi U) then w
      else (let ao = GetAgentTraceContext (snd (GetTraceContext (uApi U) g gc (cwApi w))) (cwApi w) in
            w\<lparr>cwApi := onAgent ao (\<lambda>c. ProfileHttpc (uCall U) c tm url (i32 elapsed) 0 0 0 err) (cwApi w)\<rparr>))"

definition httpc_WrapWithStatus ::
  "'x user_env \<Rightarrow> int \<Rightarrow> int \<Rightarrow> int \<Rightarrow> nat option \<Rightarrow> gctx \<Rightarrow> string \<Rightarrow> (('l, 'x) cw \<Rightarrow> (('r \<times> int) \<times> thr option) go \<times> ('l, 'x) cw) \<Rightarrow> ('l, 'x) cw \<Rightarrow> (('r \<times> int) \<times> thr option) go \<times> ('l, 'x) cw" where
  "httpc_WrapWithStatus U g t1 t2 pick gc url fn w =
     wrapCall (httpc_Start U g t1 pick gc url) fn
       (\<lambda>k r w2. case httpc_End U t2 (Some k) (snd (fst r)) (snd r) w2 of Inr (m, w3) \<Rightarrow> w3 | Inl _ \<Rightarrow> w2) w"

definition httpc_Wrap ::
  "'x user_env \<Rightarrow> int \<Rightarrow> int \<Rightarrow> int \<Rightarrow> nat option \<Rightarrow> gctx \<Rightarrow> string \<Rightarrow> (('l, 'x) cw \<Rightarrow> ('r \<times> thr option) go \<times> ('l, 'x) cw) \<Rightarrow> ('l, 'x) cw \<Rightarrow> ('r \<times> thr option) go \<times> ('l, 'x) cw" where
  "httpc_Wrap U g t1 t2 pick gc url fn w =
     wrapCall (httpc_Start U g t1 pick gc url) fn
       (\<lambda>k r w2. case httpc_End U t2 (Some k) 0 (snd r) w2 of Inr (m, w3) \<Rightarrow> w3 | Inl _ \<Rightarrow> w2) w"

subsection \<open>Package method\<close>

definition method_Start :: "'x user_env \<Rightarrow> int \<Rightarrow> int \<Rightarrow> nat option \<Rightarrow> gctx \<Rightarrow> string \<Rightarrow> ('l, 'x) cw \<Rightarrow> nat \<times> ('l, 'x) cw" where
  "method_Start U g tm pick gc name w =
     (case pool_take NewMethodCtx pick (cwMethod w) of (a, p) \<Rightarrow>
        if disable (mtraceConf (uApi U)) \<or> \<not> ProfileMethodEnabled U then (a, w\<lparr>cwMethod := p\<rparr>)
        else (case snd (GetTraceContext (uApi U) g gc (cwApi w)) of
                None \<Rightarrow> (a, w\<lparr>cwMethod := p\<rparr>)
              | Some h \<Rightarrow>
                  (let t = handles (cwApi w) h;
                       s = (objs p a)\<lparr>mcStartTime := tm, mcMethod := name, mcHandle := Some h, mcTxid := TraceCtx.Txid t, mcServiceName := Name t\<rparr> in
                   case withAgent (Ctx t) (\<lambda>c. StartMethod (uCall U) c tm name) (cwApi w) of (st, w') \<Rightarrow>
                     (a, w\<lparr>cwApi := w', cwMethod := p\<lparr>objs := (objs p)(a := s\<lparr>mcStep := Some st\<rparr>)\<rparr>\<rparr>))))"

text \<open>The stack that \<open>End\<close> takes is not passed on.\<close>

definition method_End :: "'x user_env \<Rightarrow> int \<Rightarrow> nat option \<Rightarrow> string \<Rightarrow> ('l, 'x) cw \<Rightarrow> string option \<times> ('l, 'x) cw" where
  "method_End U tm mc stack w =
     (if disable (mtraceConf (uApi U)) \<or> \<not> ProfileMethodEnabled U then (None, w)
      else (case mc of
              None \<Rightarrow> (Some ''MethodCtx is nil'', w)
            | Some a \<Rightarrow>
                (let s0 = objs (cwMethod w) a in
                 case mcStep s0 of
                   None \<Rightarrow> (Some ''MethodCtx is nil'', w)
                 | Some st \<Rightarrow>
                     (let elapsed = i32 (tm - mcStartTime s0); ao = GetAgentTraceContext (mcHandle s0) (cwApi w);
                          s = (if ProfileMethodStackEnabled U then s0\<lparr>mcStack := stack\<rparr> else s0) in
                      (None, w\<lparr>cwApi := onAgent ao (\<lambda>c. EndMethod (uCall U) c (Some st) [] elapsed (mcCpu s) (mcMem s)) (cwApi w),
                               cwMethod := pool_close NewMethodCtx a (cwMethod w)\<rparr>)))))"

definition method_Trace :: "'x user_env \<Rightarrow> int \<Rightarrow> int \<Rightarrow> gctx \<Rightarrow> string \<Rightarrow> int \<Rightarrow> ('l, 'x) cw \<Rightarrow> string option \<times> ('l, 'x) cw" where
  "method_Trace U g tm gc name elapsed w =
     (if \<not> ProfileMethodEnabled U then (None, w)
      else (case snd (GetTraceContext (uApi U) g gc (cwApi w)) of
              None \<Rightarrow> (Some ''Not found Txid '', w)
            | Some h \<Rightarrow> (None, w\<lparr>cwApi := onAgent (Ctx (handles (cwApi w) h)) (\<lambda>c. ProfileMethod (uCall U) c tm name [] (i32 elapsed) 0 0) (cwApi w)\<rparr>)))"

definition method_Wrap ::
  "'x user_env \<Rightarrow> int \<Rightarrow> int \<Rightarrow> int \<Rightarrow> nat option \<Rightarrow> gctx \<Rightarrow> string \<Rightarrow> string \<Rightarrow> (('l, 'x) cw \<Rightarrow> ('r \<times> thr option) go \<times> ('l, 'x) cw) \<Rightarrow> ('l, 'x) cw \<Rightarrow> ('r \<times> thr option) go \<times> ('l, 'x) cw" where
  "method_Wrap U g t1 t2 pick gc name stack fn w =
     wrapCall (method_Start U g t1 pick gc name) fn (\<lambda>k r w2. snd (method_End U t2 (Some k) stack w2)) w"

subsection \<open>Passwords\<close>

text \<open>The password of a connection string \<open>user:password@host\<close> is hidden only if it is at least as long as what stands before
  the colon. \<open>hidePwd\<close> compares the position of the colon with that of the at sign relative to the colon; so it replaces the
  password of a short user name and sends that of a longer one in full.\<close>
theorem password_hidden_iff:
  assumes "CHR '':'' \<notin> set user" and "CHR ''@'' \<notin> set pwd" and "Index (user @ '':'' @ pwd @ ''@'' @ host) ''password='' = - 1"
  shows "hidePwd (user @ '':'' @ pwd @ ''@'' @ host) =
     (if length user \<le> length pwd then user @ '':#@'' @ host else user @ '':'' @ pwd @ ''@'' @ host)"
proof -
  let ?s = "user @ '':'' @ pwd @ ''@'' @ host"
  have 1: "Index ?s '':'' = int (length user)" using Index_char_some [OF assms(1)] by simp
  have 2: "Index (CHR '':'' # pwd @ CHR ''@'' # host) ''@'' = int (length pwd) + 1"
    using Index_char_some [OF assms(2), of host] by (simp add: HasPrefix_def)
  show ?thesis
    unfolding hidePwd_def Let_def 1 assms(3) using 2 by (simp add: nat_add_distrib)
qed

theorem password_hidden_iff_witness:
  "hidePwd ''db:secret@h:1'' = ''db:#@h:1'' \<and> hidePwd ''administrator:secret@h:1'' = ''administrator:secret@h:1''"
proof
  show "hidePwd ''db:secret@h:1'' = ''db:#@h:1''"
    using password_hidden_iff [of "''db''" "''secret''" "''h:1''"] by (simp add: HasPrefix_def)
  show "hidePwd ''administrator:secret@h:1'' = ''administrator:secret@h:1''"
    using password_hidden_iff [of "''administrator''" "''secret''" "''h:1''"] by (simp add: HasPrefix_def)
qed

subsection \<open>Parameters\<close>

text \<open>Every list of fewer than twenty parameters is printed with a comma after its last one, and parameters after the
  twentieth are left out.\<close>
theorem parameter_commas:
  assumes "\<forall>s n. ca_truncate A s n = take n s" and "length ps < 20" and "ps \<noteq> []" and "\<forall>p\<in>set ps. \<exists>t. p = PStr t"
  shows "\<exists>body. paramsToString A ps = body @ '',''"
proof -
  obtain qs t where ps: "ps = qs @ [PStr t]" using assms(3,4) by (cases ps rule: rev_cases) auto
  have "length qs < 19" using assms(2) ps by simp
  then show ?thesis
    by (simp add: paramsToString_def ps enumerate_append_eq paramText_def SQL_PARAM_MAX_COUNT_def)
qed

lemma parameters_cut: "paramsToString A (ps @ qs) = concat (map (paramText A (length ps + length qs)) (enumerate 0 ps))" if "length ps = 20" for ps qs :: "sql_param list"
proof -
  have "paramText A n (i, v) = []" if "20 \<le> i" for n i v using that by (simp add: paramText_def SQL_PARAM_MAX_COUNT_def)
  then have "concat (map (paramText A n) (enumerate 20 qs)) = []" for n
    by (auto simp: in_set_enumerate_eq)
  with that show ?thesis by (simp add: paramsToString_def enumerate_append_eq)
qed

subsection \<open>Wrapped statements\<close>

text \<open>A pool whose free contexts are blank, as \<open>Close\<close> leaves them.\<close>

definition pool_ok :: "'c \<Rightarrow> 'c pool \<Rightarrow> bool" where
  "pool_ok blank p \<longleftrightarrow> distinct (free p) \<and> (\<forall>a\<in>set (free p). a < nextObj p \<and> objs p a = blank)"

lemma pool_take_cases:
  assumes "pool_ok blank p" and "pool_take blank pick p = (a, p')"
  obtains (reuse) xs ys where "free p = xs @ a # ys" "p' = p\<lparr>free := xs @ ys\<rparr>"
  | (fresh) "a = nextObj p" "p' = p\<lparr>objs := (objs p)(a := blank), nextObj := Suc (nextObj p)\<rparr>"
proof (cases "\<exists>i. pick = Some i \<and> i < length (free p)")
  case True
  then obtain i where i: "pick = Some i" "i < length (free p)" by blast
  then have "free p ! i \<in> set (free p)" by simp
  then have "free p ! i \<noteq> nextObj p" using assms(1) by (auto simp: pool_ok_def)
  then have "a = free p ! i" "p' = p\<lparr>free := take i (free p) @ drop (Suc i) (free p)\<rparr>"
    using assms(2) i by (auto simp: pool_take_def poolGet_def)
  then show thesis using reuse [of "take i (free p)" "drop (Suc i) (free p)"] id_take_nth_drop [OF i(2)] by simp
next
  case False
  then have "a = nextObj p" "p' = p\<lparr>objs := (objs p)(a := blank), nextObj := Suc (nextObj p)\<rparr>"
    using assms(2) by (auto simp: pool_take_def poolGet_def split: option.splits if_splits)
  then show thesis by (rule fresh)
qed

lemma pool_take_props:
  assumes "pool_ok blank p" and "pool_take blank pick p = (a, p')"
  shows "objs p' a = blank" and "a \<notin> set (free p')" and "pool_ok blank p'" and "a < nextObj p'"
proof -
  have "objs p' a = blank \<and> a \<notin> set (free p') \<and> pool_ok blank p' \<and> a < nextObj p'"
    using assms
  proof (cases rule: pool_take_cases)
    case (reuse xs ys)
    then show ?thesis using assms(1) by (auto simp: pool_ok_def)
  next
    case fresh
    then show ?thesis using assms(1) by (auto simp: pool_ok_def less_Suc_eq)
  qed
  then show "objs p' a = blank" "a \<notin> set (free p')" "pool_ok blank p'" "a < nextObj p'" by auto
qed

lemma withAgent_some:
  assumes "withAgent (Some a) f w = (r, w')" and "f (Some (agents w a)) = (r0, Some c, e)"
  shows "r = r0" and "agents w' = (agents w)(a := c)" and "evs w' = evs w @ e" and "handles w' = handles w"
  using assms by (auto simp: withAgent_def)

lemma onAgent_some:
  assumes "f (Some (agents w a)) = (Some c, e)"
  shows "agents (onAgent (Some a) f w) = (agents w)(a := c)" and "evs (onAgent (Some a) f w) = evs w @ e"
  using assms by (auto simp: onAgent_def withAgent_def)

lemma StartSql_totals:
  assumes "key (ca_sec E) \<noteq> []"
  shows "\<exists>st c' e. StartSql E (Some c) t h q prm = (Some st, Some c', e) \<and> same_totals c c' \<and> sxError st = 0"
proof -
  obtain p1 p2 crc where "sqlParams E q prm ((newSqlStep E h q)\<lparr>sxElapsed := el, sxStart := t\<rparr>) =
     Inr ((newSqlStep E h q)\<lparr>sxP1 := p1, sxP2 := p2, sxPcrc := crc, sxStart := t, sxElapsed := el\<rparr>)" for t el
    using sqlParams_returns [OF assms] by blast
  from this [of 0 0] have "\<exists>st. sqlParams E q prm (newSqlStep E h q) = Inr st \<and> sxError st = 0" by (simp add: newSqlStep_def Let_def)
  then show ?thesis by (auto simp: StartSql_def Let_def same_totals_def)
qed

text \<open>A function that leaves the call's own context and handle alone; it may do anything else, other calls included.\<close>

definition minds_own :: "nat \<Rightarrow> nat \<Rightarrow> ('l, 'x) cw \<Rightarrow> ('l, 'x) cw \<Rightarrow> bool" where
  "minds_own a h w w' \<longleftrightarrow> objs (cwSql w') a = objs (cwSql w) a \<and> Ctx (handles (cwApi w') h) = Ctx (handles (cwApi w) h)"

lemma startStatement_in:
  assumes "\<not> off (uApi U)" and "pool_ok NewSqlCtx (cwSql w)" and "key (ca_sec (uCall U)) \<noteq> []"
    and "snd (GetTraceContext (uApi U) g gc (cwApi w)) = Some h" and "Ctx (handles (cwApi w) h) = Some ag"
    and "startStatement U g t pick gc dbhost q ty prm w = (a, w')"
  shows "\<exists>st. objs (cwSql w') a = NewSqlCtx\<lparr>sqHandle := Some h, sqStep := Some (SqlSt (Some st)), sqTxid := TraceCtx.Txid (handles (cwApi w) h), sqServiceName := Name (handles (cwApi w) h),
       sqStartTime := t, sqDbc := hidePwd dbhost, sqSql := q, sqParam := prm, sqType := ty\<rparr> \<and> sxError st = 0"
    and "same_totals (agents (cwApi w) ag) (agents (cwApi w') ag)" and "handles (cwApi w') = handles (cwApi w)"
proof -
  obtain p where p: "pool_take NewSqlCtx pick (cwSql w) = (a, p)"
    using assms(6) by (auto simp: startStatement_def Let_def split: prod.splits if_splits)
  note pp = pool_take_props [OF assms(2) p]
  obtain st c' e where s: "StartSql (uCall U) (Some (agents (cwApi w) ag)) t (hidePwd dbhost) q prm = (Some st, Some c', e)" "same_totals (agents (cwApi w) ag) c'" "sxError st = 0"
    using StartSql_totals [OF assms(3)] by blast
  have w': "w' = w\<lparr>cwApi := (cwApi w)\<lparr>agents := (agents (cwApi w))(ag := c'), evs := evs (cwApi w) @ e\<rparr>,
      cwSql := p\<lparr>objs := (objs p)(a := NewSqlCtx\<lparr>sqHandle := Some h, sqTxid := TraceCtx.Txid (handles (cwApi w) h), sqServiceName := Name (handles (cwApi w) h),
        sqStartTime := t, sqDbc := hidePwd dbhost, sqSql := q, sqType := ty, sqParam := prm, sqStep := Some (SqlSt (Some st))\<rparr>)\<rparr>\<rparr>"
    using assms(1,4,5,6) p pp(1) s(1) by (auto simp: startStatement_def newSqlCtxIn_def withAgent_def GetAgentTraceContext_def Let_def)
  show "\<exists>st. objs (cwSql w') a = NewSqlCtx\<lparr>sqHandle := Some h, sqStep := Some (SqlSt (Some st)), sqTxid := TraceCtx.Txid (handles (cwApi w) h), sqServiceName := Name (handles (cwApi w) h),
       sqStartTime := t, sqDbc := hidePwd dbhost, sqSql := q, sqParam := prm, sqType := ty\<rparr> \<and> sxError st = 0"
    using s(3) by (intro exI [of _ st]) (simp add: w' NewSqlCtx_def)
  show "same_totals (agents (cwApi w) ag) (agents (cwApi w') ag)" "handles (cwApi w') = handles (cwApi w)" using s(2) by (simp_all add: w')
qed

lemma EndSql_in:
  "\<exists>c' e ps. EndSql E (Some c) (Some st) el cpu mem err = (Some c', e) \<and> accounted c c' e ps \<and> length (gather profSql ps) = 1"
proof -
  obtain c' e where i: "sqlInside E (st\<lparr>sxElapsed := el\<rparr>) cpu mem err c = (c', e)" by force
  from sqlInside_accounted [OF i] obtain ps where "accounted c c' e ps" "length (gather profSql ps) = 1" by blast
  then show ?thesis using i by (auto simp: EndSql_def Let_def)
qed

text \<open>C16: wrapping a statement does not change what the function returns, and accounts for it once. Whatever the function does
  in between, when it returns the transaction has one statement more, in its totals, its profile, the meter and the
  statistics, with the time between start and end; the error \<open>driver.ErrSkip\<close> is not an error; and the call's context is
  blank and back in the pool. A panic of the function goes through, and the statement is not accounted for.\<close>
theorem wrapped_statement:
  assumes "\<not> off (uApi U)" and "pool_ok NewSqlCtx (cwSql w)" and "key (ca_sec (uCall U)) \<noteq> []"
    and "snd (GetTraceContext (uApi U) g gc (cwApi w)) = Some h" and "Ctx (handles (cwApi w) h) = Some ag"
    and "sql_Start U g t1 pick gc dbhost q w = (a, w1)" and "fn w1 = (res, w2)" and "minds_own a h w1 w2"
  shows "(\<forall>r err. res = Inr (r, err) \<longrightarrow>
       (\<exists>w' e ps. sql_Wrap U g t1 t2 pick gc dbhost q fn w = (Inr (r, err), w') \<and>
          accounted (agents (cwApi w2) ag) (agents (cwApi w') ag) e ps \<and> evs (cwApi w') = evs (cwApi w2) @ e \<and>
          length (gather profSql ps) = 1 \<and> (collected err = None \<longrightarrow> (\<exists>d. gather meterSql e = [(d, i32 (t2 - t1), False)])) \<and>
          objs (cwSql w') a = NewSqlCtx \<and> a \<in> set (free (cwSql w')))) \<and>
     (\<forall>p. res = Inl p \<longrightarrow> sql_Wrap U g t1 t2 pick gc dbhost q fn w = (Inl p, w2))"
proof (intro conjI allI impI)
  fix p
  assume "res = Inl p"
  then show "sql_Wrap U g t1 t2 pick gc dbhost q fn w = (Inl p, w2)" using assms(6,7) by (simp add: sql_Wrap_def wrapCall_def)
next
  fix r err
  assume res: "res = Inr (r, err)"
  note st = startStatement_in [OF assms(1-5) assms(6) [unfolded sql_Start_def]]
  obtain s where s: "objs (cwSql w1) a = s" "sqHandle s = Some h" "sqType s = SQL_TYPE_SQL" "sqStartTime s = t1" "\<exists>x. sqStep s = Some (SqlSt (Some x)) \<and> sxError x = 0"
    using st(1) by auto
  then obtain x where x: "sqStep s = Some (SqlSt (Some x))" "sxError x = 0" by blast
  have s2: "objs (cwSql w2) a = s" "Ctx (handles (cwApi w2) h) = Some ag" using assms(5,8) s(1) st(3) by (simp_all add: minds_own_def)
  let ?c = "agents (cwApi w2) ag"
  obtain c' e ps where e: "EndSql (uCall U) (Some ?c) (Some x) (i32 (t2 - t1)) (sqCpu s) (sqMem s) (collected err) = (Some c', e)" "accounted ?c c' e ps" "length (gather profSql ps) = 1"
    using EndSql_in by blast
  let ?w = "snd (sql_End U t2 (Some a) err w2)"
  have w: "?w = w2\<lparr>cwApi := onAgent (Some ag) (\<lambda>c. EndSql (uCall U) c (Some x) (i32 (t2 - t1)) (sqCpu s) (sqMem s) (collected err)) (cwApi w2), cwSql := pool_close NewSqlCtx a (cwSql w2)\<rparr>"
    using assms(1) by (simp add: sql_End_def endStatement_def s2 s x GetAgentTraceContext_def Let_def SQL_TYPE_SQL_def SQL_TYPE_DBC_def)
  note on = onAgent_some [where a = ag and w = "cwApi w2" and f = "\<lambda>c. EndSql (uCall U) c (Some x) (i32 (t2 - t1)) (sqCpu s) (sqMem s) (collected err)", OF e(1)]
  have ok: "\<exists>d. gather meterSql e = [(d, i32 (t2 - t1), False)]" if "collected err = None"
    using e(1) that x(2) by (auto simp: EndSql_def sqlInside_def errorStep_def addStep_def Let_def)
  have wrap: "sql_Wrap U g t1 t2 pick gc dbhost q fn w = (Inr (r, err), ?w)" using assms(6,7) res by (simp add: sql_Wrap_def wrapCall_def)
  show "\<exists>w' e ps. sql_Wrap U g t1 t2 pick gc dbhost q fn w = (Inr (r, err), w') \<and>
          accounted (agents (cwApi w2) ag) (agents (cwApi w') ag) e ps \<and> evs (cwApi w') = evs (cwApi w2) @ e \<and>
          length (gather profSql ps) = 1 \<and> (collected err = None \<longrightarrow> (\<exists>d. gather meterSql e = [(d, i32 (t2 - t1), False)])) \<and>
          objs (cwSql w') a = NewSqlCtx \<and> a \<in> set (free (cwSql w'))"
    apply (intro exI [of _ ?w] exI [of _ e] exI [of _ ps] conjI)
    using wrap e on ok by (auto simp: w pool_close_def)
qed

subsection \<open>Instances and further behaviour\<close>

definition userEnv1 :: "unit user_env" where
  "userEnv1 = \<lparr>uApi = apiEnv1, uCall = callApi1, ProfileMethodEnabled = True, ProfileMethodStackEnabled = True, lhTake = (\<lambda>_. None), lhSetURL = (\<lambda>_ x. x),
     lhAuto = (\<lambda>_. None), lhForced = (\<lambda>_. Some ())\<rparr>"

definition cw1 :: "(unit, unit) cw" where
  "cw1 = \<lparr>cwApi = newApi\<lparr>handles := (\<lambda>_. NewTraceCtx\<lparr>TraceCtx.Txid := 1, Ctx := Some 0\<rparr>)\<rparr>, cwSql = \<lparr>objs = (\<lambda>_. NewSqlCtx), free = [], nextObj = 0\<rparr>,
     cwHttpc = \<lparr>objs = (\<lambda>_. NewHttpcCtx), free = [], nextObj = 0\<rparr>, cwMethod = \<lparr>objs = (\<lambda>_. NewMethodCtx), free = [], nextObj = 0\<rparr>, cwLlm = []\<rparr>"

theorem wrapped_statement_witness:
  "\<exists>w' e ps. sql_Wrap userEnv1 7 100 130 None (Context (Some 0)) ''db'' ''select 1'' (\<lambda>w. (Inr (5 :: int, ErrSkip), w)) cw1 = (Inr (5, ErrSkip), w') \<and>
     length (gather profSql ps) = 1 \<and> (\<exists>d. gather meterSql e = [(d, 30, False)]) \<and> objs (cwSql w') 0 = NewSqlCtx"
proof -
  let ?c = "Context (Some 0)" and ?fn = "\<lambda>w. (Inr (5 :: int, ErrSkip), w)"
  have pre: "\<not> off (uApi userEnv1)" "pool_ok NewSqlCtx (cwSql cw1)" "key (ca_sec (uCall userEnv1)) \<noteq> []"
    "snd (GetTraceContext (uApi userEnv1) 7 ?c (cwApi cw1)) = Some 0" "Ctx (handles (cwApi cw1) 0) = Some 0"
    using on1 callApi1_key by (simp_all add: userEnv1_def cw1_def pool_ok_def GetTraceContext_def)
  obtain a w1 where s: "sql_Start userEnv1 7 100 None ?c ''db'' ''select 1'' cw1 = (a, w1)" by force
  then have "a = 0"
    by (auto simp: sql_Start_def startStatement_def pool_take_def poolGet_def cw1_def Let_def split: if_splits prod.splits)
  have "minds_own a 0 w1 w1" by (simp add: minds_own_def)
  from wrapped_statement [where fn = ?fn and ?t2.0 = 130, OF pre s refl this] \<open>a = 0\<close> show ?thesis by fastforce
qed

text \<open>Ending a statement twice does nothing the second time, as long as its context has not been taken from the pool again:
  the second call finds no step and returns an error.\<close>
theorem second_end_harmless:
  assumes "\<not> off (uApi U)" and "sqStep (objs (cwSql w) a) \<noteq> None"
  shows "sql_End U t2 (Some a) err2 (snd (sql_End U t1 (Some a) err1 w)) = (Some ''SqlCtx is nil'', snd (sql_End U t1 (Some a) err1 w))"
  using assms by (simp add: sql_End_def pool_close_def NewSqlCtx_def Let_def)

text \<open>The headers of an outgoing call are never filled in: \<open>Start\<close> does not set the values that \<open>GetMTrace\<close> reads, so for a
  context from a pool of blank ones it returns no header.\<close>
theorem httpc_mtrace_empty:
  assumes "pool_ok NewHttpcCtx (cwHttpc w)" and "httpc_Start U g t pick gc url w = (a, w')"
  shows "httpc_GetMTrace U (objs (cwHttpc w') a) = []"
proof -
  obtain p where p: "pool_take NewHttpcCtx pick (cwHttpc w) = (a, p)"
    using assms(2) by (auto simp: httpc_Start_def Let_def split: prod.splits if_splits)
  note b = pool_take_props(1) [OF assms(1) p]
  have "hcCallerValue (objs (cwHttpc w') a) = []"
    using assms(2) p b by (auto simp: httpc_Start_def Let_def NewHttpcCtx_def split: prod.splits if_splits option.splits)
  then show ?thesis by (simp add: httpc_GetMTrace_def Let_def)
qed

text \<open>Ending a nil HTTP call panics, where the function means to return an error.\<close>
theorem httpc_end_nil_panics: "\<not> off (uApi U) \<Longrightarrow> httpc_End U t None code err w = Inl NilDereference"
  by (simp add: httpc_End_def)

text \<open>The stack of a method is taken but not recorded: with or without it, \<open>End\<close> does the same.\<close>
theorem method_stack_lost: "method_End U t mc stack w = method_End (U\<lparr>ProfileMethodStackEnabled := False\<rparr>) t mc [] w"
  by (simp add: method_End_def Let_def split: option.split)

end
