(* ===== verification/Http_Client.thy ===== *)
theory Http_Client
  imports Call_User
begin

text \<open>
  The wrappers of HTTP clients (\<^verbatim>\<open>instrumentation/net/http/whataphttp/http.go\<close>): a call takes the headers of the trace, starts
  an HTTP call of the transaction, performs the request and ends the call. The transport is an argument: it gets the headers of the
  request and the state and returns the status of the response or none, an error, and the state; it may panic, and nothing is ended
  then. A URL that cannot be parsed is the argument \<open>bad\<close>.
\<close>

type_synonym ('l, 'x) transport = "header \<Rightarrow> ('l, 'x) cw \<Rightarrow> (int option \<times> thr option) go \<times> ('l, 'x) cw"

text \<open>The headers of the trace of a context.\<close>

definition api_GetMTrace :: "api_env \<Rightarrow> int \<Rightarrow> gctx \<Rightarrow> 'l api \<Rightarrow> header \<times> 'l api" where
  "api_GetMTrace E g gc w =
     (case snd (GetTraceContext E g gc w) of
        None \<Rightarrow> ([], w)
      | Some h \<Rightarrow>
          (case GetMTrace (env_lib (agentEnv E)) (mtraceConf E) (Some (handles w h)) (keyPos w) of
             (hdr, Some t, n) \<Rightarrow> (hdr, w\<lparr>handles := (handles w)(h := t), keyPos := n\<rparr>)
           | (hdr, None, n) \<Rightarrow> (hdr, w)))"

definition setHeaders :: "header \<Rightarrow> header \<Rightarrow> header" where
  "setHeaders hs req = fold (\<lambda>kv r. headerSet (fst kv) (headerGet hs (fst kv)) r) hs req"

definition traceHeaders :: "'x user_env \<Rightarrow> int \<Rightarrow> gctx \<Rightarrow> header \<Rightarrow> ('l, 'x) cw \<Rightarrow> header \<times> ('l, 'x) cw" where
  "traceHeaders U g gc req w =
     (if MtraceEnabled (mtraceConf (uApi U))
      then (let (hs, a) = api_GetMTrace (uApi U) g gc (cwApi w) in (setHeaders hs req, w\<lparr>cwApi := a\<rparr>))
      else (req, w))"

definition selectContext :: "api_env \<Rightarrow> int \<Rightarrow> gctx list \<Rightarrow> 'l api \<Rightarrow> gctx" where
  "selectContext E g cs w =
     (case find (\<lambda>c. snd (GetTraceContext E g c w) \<noteq> None) cs of
        Some c \<Rightarrow> c
      | None \<Rightarrow> (case cs of [] \<Rightarrow> NilContext | c # _ \<Rightarrow> c))"

definition responseCode :: "int option \<Rightarrow> int" where
  "responseCode st = (case st of None \<Rightarrow> - 1 | Some n \<Rightarrow> n)"

definition finishCall :: "'x user_env \<Rightarrow> int \<Rightarrow> nat \<Rightarrow> (int option \<times> thr option) go \<times> ('l, 'x) cw \<Rightarrow> (int option \<times> thr option) go \<times> ('l, 'x) cw" where
  "finishCall U t2 k qw =
     (case qw of
        (Inl e, w) \<Rightarrow> (Inl e, w)
      | (Inr (st, err), w) \<Rightarrow>
          (Inr (st, err), (case httpc_End U t2 (Some k) (responseCode st) err w of Inl _ \<Rightarrow> w | Inr (m, w') \<Rightarrow> w')))"

record call_io =
  cgid :: int
  cstart :: int
  cend :: int
  cpick :: "nat option"

definition RoundTrip ::
  "'x user_env \<Rightarrow> call_io \<Rightarrow> bool \<Rightarrow> gctx \<Rightarrow> gctx \<Rightarrow> string \<Rightarrow> header \<Rightarrow> ('l, 'x) transport \<Rightarrow> ('l, 'x) cw \<Rightarrow> (int option \<times> thr option) go \<times> ('l, 'x) cw" where
  "RoundTrip U io llmMark reqCtx ownCtx url req transport w =
     (if off (uApi U) then transport req w
      else (let gc = selectContext (uApi U) (cgid io) [reqCtx, ownCtx] (cwApi w);
                (req1, w1) = traceHeaders U (cgid io) gc req w;
                (k, w2) = (if llmMark then httpc_StartLLM U (cgid io) (cstart io) (cpick io) gc url w1
                           else httpc_Start U (cgid io) (cstart io) (cpick io) gc url w1) in
            finishCall U (cend io) k (transport req1 w2)))"

text \<open>The functions of the client: only the switch \<^verbatim>\<open>DISABLE\<close> is tested before the headers are made.\<close>

definition clientCall ::
  "'x user_env \<Rightarrow> call_io \<Rightarrow> gctx \<Rightarrow> string \<Rightarrow> thr option \<Rightarrow> header \<Rightarrow> ('l, 'x) transport \<Rightarrow> ('l, 'x) cw \<Rightarrow> (int option \<times> thr option) go \<times> ('l, 'x) cw" where
  "clientCall U io gc0 url bad req transport w =
     (case bad of
        Some e \<Rightarrow> (Inr (None, Some e), w)
      | None \<Rightarrow>
          if disable (mtraceConf (uApi U)) then transport req w
          else (let gc = (if gc0 = NilContext then Context None else gc0);
                    (req1, w1) = traceHeaders U (cgid io) gc req w;
                    (k, w2) = httpc_Start U (cgid io) (cstart io) (cpick io) gc url w1 in
                finishCall U (cend io) k (transport req1 w2)))"

definition HttpGet where
  "HttpGet U io gc url bad transport w = clientCall U io gc url bad [] transport w"

definition HttpPost where
  "HttpPost U io gc url bad contentType transport w = clientCall U io gc url bad (headerSet ''Content-Type'' contentType []) transport w"

definition HttpPostForm where
  "HttpPostForm U io gc url bad transport w =
     clientCall U io gc url bad (headerSet ''Content-Type'' ''application/x-www-form-urlencoded'' []) transport w"

definition DefaultClientGet where
  "DefaultClientGet U io gc url bad transport w = clientCall U io gc url bad [] transport w"

definition DefaultClientPost where
  "DefaultClientPost U io gc url bad contentType transport w =
     clientCall U io gc url bad (headerSet ''Content-Type'' contentType []) transport w"

definition DefaultClientPostForm where
  "DefaultClientPostForm U io gc url bad transport w =
     clientCall U io gc url bad (headerSet ''Content-Type'' ''application/x-www-form-urlencoded'' []) transport w"

subsection \<open>Headers\<close>

lemma headerGet_setHeaders:
  "headerGet (fold (\<lambda>kv r. headerSet (fst kv) (f (fst kv)) r) hs req) k =
     (case find (\<lambda>kv. CanonicalHeaderKey (fst kv) = CanonicalHeaderKey k) (rev hs) of
        Some kv \<Rightarrow> f (fst kv) | None \<Rightarrow> headerGet req k)"
  by (induction hs arbitrary: req rule: rev_induct) (simp_all add: headerGet_set)

lemma canonical_setHeaders: "canonical_header req \<Longrightarrow> canonical_header (setHeaders hs req)"
proof -
  have "canonical_header req \<Longrightarrow> canonical_header (fold (\<lambda>kv r. headerSet (fst kv) (f kv) r) ks req)" for f ks
    by (induction ks arbitrary: req) (simp_all add: canonical_set)
  then show "canonical_header req \<Longrightarrow> canonical_header (setHeaders hs req)" by (simp add: setHeaders_def)
qed

text \<open>A header of the trace replaces one of the request, and the request keeps the others.\<close>

lemma setHeaders_get:
  assumes "canonical_header hs"
  shows "headerGet (setHeaders hs req) k =
     (if CanonicalHeaderKey k \<in> set (map fst hs) then headerGet hs k else headerGet req k)"
proof (cases "find (\<lambda>kv. CanonicalHeaderKey (fst kv) = CanonicalHeaderKey k) (rev hs)")
  case None
  then have "\<forall>x\<in>set hs. CanonicalHeaderKey (fst x) \<noteq> CanonicalHeaderKey k" by (auto simp: find_None_iff)
  then have "CanonicalHeaderKey k \<notin> set (map fst hs)" using Canonical_idem [of k] by force
  then show ?thesis using None by (simp add: setHeaders_def headerGet_setHeaders)
next
  case (Some kv)
  then obtain i where i: "i < length (rev hs)" "CanonicalHeaderKey (fst (rev hs ! i)) = CanonicalHeaderKey k" "kv = rev hs ! i"
    unfolding find_Some_iff by blast
  from nth_mem [OF i(1)] i(2,3) have "kv \<in> set hs" "CanonicalHeaderKey (fst kv) = CanonicalHeaderKey k" by simp_all
  moreover from this have "CanonicalHeaderKey k \<in> set (map fst hs)" using assms by (force simp: canonical_header_def)
  moreover have "headerGet hs (fst kv) = headerGet hs k" using i(2,3) by (simp add: headerGet_def)
  ultimately show ?thesis using Some by (simp add: setHeaders_def headerGet_setHeaders)
qed

text \<open>The headers that \<open>GetMTrace\<close> makes, in the request.\<close>

lemma GetMTrace_keys:
  assumes "GetMTrace lib conf (Some c) n = (hs, Some c', n')" and "\<not> disable conf"
  shows "canonical_header hs" and "set (map fst hs) = CanonicalHeaderKey ` {TraceMtraceTraceparentKey conf, TraceMtraceCallerKey conf,
     TraceMtracePoidKey conf, TraceMtraceSpecKey1 conf}"
proof -
  have hs: "hs = headerSet (TraceMtraceSpecKey1 conf) (TraceMtraceSpecValue c')
                  (headerSet (TraceMtracePoidKey conf) (TraceMtracePoidValue c')
                    (headerSet (TraceMtraceCallerKey conf) (TraceMtraceCallerValue c')
                      (headerSet (TraceMtraceTraceparentKey conf) (TraceMtraceTraceparentValue c') [])))"
    using assms by (auto simp: GetMTrace_def split: prod.splits)
  show "canonical_header hs" unfolding hs by (intro canonical_set canonical_Nil)
  show "set (map fst hs) = CanonicalHeaderKey ` {TraceMtraceTraceparentKey conf, TraceMtraceCallerKey conf,
     TraceMtracePoidKey conf, TraceMtraceSpecKey1 conf}"
    unfolding hs headerSet_def set_map dom_update by auto
qed

lemma traced_request:
  assumes "GetMTrace lib conf (Some c) n = (hs, Some c', n')" and "\<not> disable conf" and "keys_apart conf" and "canonical_header req"
  shows "headerGet (addAll (setHeaders hs req) []) (TraceMtraceTraceparentKey conf) = traceparentValue c'"
    and "headerGet (addAll (setHeaders hs req) []) (TraceMtraceCallerKey conf) = callerValue lib c'"
    and "headerGet (addAll (setHeaders hs req) []) (TraceMtracePoidKey conf) = TraceMtracePoidValue c"
    and "CanonicalHeaderKey k \<notin> set (map fst hs) \<Longrightarrow> headerGet (setHeaders hs req) k = headerGet req k"
proof -
  note ks = GetMTrace_keys [OF assms(1,2)]
  note hd = GetMTrace_header [OF assms(1-3)]
  have g: "headerGet (addAll (setHeaders hs req) []) k = headerGet (setHeaders hs req) k" for k
    by (rule addAll_canonical [OF canonical_setHeaders [OF assms(4)]])
  have h: "headerGet (addAll hs []) k = headerGet hs k" for k by (rule addAll_canonical [OF ks(1)])
  show "headerGet (addAll (setHeaders hs req) []) (TraceMtraceTraceparentKey conf) = traceparentValue c'"
    "headerGet (addAll (setHeaders hs req) []) (TraceMtraceCallerKey conf) = callerValue lib c'"
    "headerGet (addAll (setHeaders hs req) []) (TraceMtracePoidKey conf) = TraceMtracePoidValue c"
    using hd(2-4) by (simp_all only: g h setHeaders_get [OF ks(1)] ks(2)) simp_all
  show "CanonicalHeaderKey k \<notin> set (map fst hs) \<Longrightarrow> headerGet (setHeaders hs req) k = headerGet req k"
    by (simp add: setHeaders_get [OF ks(1)])
qed

subsection \<open>The call\<close>

lemma GetTraceContext_gids: "gids w' = gids w \<Longrightarrow> snd (GetTraceContext E g gc w') = snd (GetTraceContext E g gc w)"
  by (auto simp: GetTraceContext_def GetGIDTraceCtx_def split: gctx.splits option.splits)

lemma traceHeaders_in:
  assumes "\<not> off (uApi U)" and "MtraceEnabled (mtraceConf (uApi U))" and "snd (GetTraceContext (uApi U) g gc (cwApi w)) = Some h"
    and "traceHeaders U g gc req w = (req1, w1)"
  obtains hs c' n' where "GetMTrace (env_lib (agentEnv (uApi U))) (mtraceConf (uApi U)) (Some (handles (cwApi w) h)) (keyPos (cwApi w)) = (hs, Some c', n')"
    "req1 = setHeaders hs req" "w1 = w\<lparr>cwApi := (cwApi w)\<lparr>handles := (handles (cwApi w))(h := c'), keyPos := n'\<rparr>\<rparr>"
proof -
  obtain hs c' n' where g: "GetMTrace (env_lib (agentEnv (uApi U))) (mtraceConf (uApi U)) (Some (handles (cwApi w) h)) (keyPos (cwApi w)) = (hs, Some c', n')"
    using assms(1) by (cases "newStep (env_lib (agentEnv (uApi U))) (handles (cwApi w) h, keyPos (cwApi w))") (auto simp: GetMTrace_def)
  with assms that show thesis by (auto simp: traceHeaders_def api_GetMTrace_def)
qed

lemma httpc_Start_in:
  assumes "\<not> off (uApi U)" and "snd (GetTraceContext (uApi U) g gc (cwApi w)) = Some h"
    and "httpc_Start U g tm pick gc url w = (k, w')"
  shows "hcHandle (objs (cwHttpc w') k) = Some h \<and> hcStepId (objs (cwHttpc w') k) = MStepId (handles (cwApi w) h) \<and>
     hcStep (objs (cwHttpc w') k) \<noteq> None"
  using assms by (auto simp: httpc_Start_def Let_def split: prod.splits)

lemma EndHttpc_in:
  "\<exists>c' e st. EndHttpc E (Some c) (Some s0) elapsed cpu mem stepId err = (Some c', e) \<and> hxStepId st = stepId \<and>
     (Profile c' = Profile c @ [PAdd (HttpcStep st)] \<or> Profile c' = Profile c @ [PAddHeavy (HttpcStep st)])"
proof -
  obtain c1 e1 where e: "errorStep E err c = (c1, e1)" by force
  then have "Profile c1 = Profile c" by (auto simp: errorStep_def ProfileErrorStep_def split: option.splits if_splits)
  with e show ?thesis
    by (auto simp: EndHttpc_def httpcInside_def addStep_def Let_def split: prod.splits)
qed

lemma httpc_End_in:
  assumes "\<not> off (uApi U)" and "hcHandle (objs (cwHttpc w) k) = Some h" and "hcStep (objs (cwHttpc w) k) \<noteq> None"
    and "Ctx (handles (cwApi w) h) = Some ag"
  shows "\<exists>w' st. httpc_End U tm (Some k) code err w = Inr (None, w') \<and> hxStepId st = hcStepId (objs (cwHttpc w) k) \<and>
     (Profile (agents (cwApi w') ag) = Profile (agents (cwApi w) ag) @ [PAdd (HttpcStep st)] \<or>
      Profile (agents (cwApi w') ag) = Profile (agents (cwApi w) ag) @ [PAddHeavy (HttpcStep st)])"
proof -
  let ?s = "objs (cwHttpc w) k"
  obtain st0 where st0: "hcStep ?s = Some st0" using assms(3) by auto
  let ?st = "if Extra ?s = None then st0 else st0\<lparr>hxDriver := ''LLM API''\<rparr>"
  obtain c' e st where e: "EndHttpc (uCall U) (Some (agents (cwApi w) ag)) (Some ?st) (i32 (tm - hcStartTime ?s)) 0 0 (hcStepId ?s) err = (Some c', e)"
    "hxStepId st = hcStepId ?s"
    "Profile c' = Profile (agents (cwApi w) ag) @ [PAdd (HttpcStep st)] \<or> Profile c' = Profile (agents (cwApi w) ag) @ [PAddHeavy (HttpcStep st)]"
    using EndHttpc_in by blast
  note oa = onAgent_some [where f = "\<lambda>c. EndHttpc (uCall U) c (Some ?st) (i32 (tm - hcStartTime ?s)) 0 0 (hcStepId ?s) err" and a = ag, OF e(1)]
  show ?thesis
    using assms(1,2,4) st0 e(2,3) oa(1)
    by (cases "Extra ?s") (auto simp: httpc_End_def GetAgentTraceContext_def Let_def)
qed

text \<open>C9: an outgoing call is linked to the transaction that makes it. In a traced transaction, a call through the client functions
  returns what the transport returns; the request it sends keeps its own headers, and a callee that reads the trace from it gets
  the trace id of the caller, the transaction of the caller, and as its parent the very step that the caller records in its profile
  when the call ends, once.\<close>
theorem outgoing_call_linked:
  assumes on: "\<not> off (uApi U)" "MtraceEnabled (mtraceConf (uApi U))"
    and laws: "golib_laws (env_lib (agentEnv (uApi U)))" "keys_apart (mtraceConf (uApi U))"
    and ctx: "snd (GetTraceContext (uApi U) (cgid io) gc (cwApi w)) = Some h" "gc \<noteq> NilContext" "caller = handles (cwApi w) h"
    and tr: "trace_ok caller" "MTid caller \<noteq> 0" and req: "canonical_header req"
    and st: "traceHeaders U (cgid io) gc req w = (req1, w1)" "httpc_Start U (cgid io) (cstart io) (cpick io) gc url w1 = (k, w2)"
    and tp: "transport req1 w2 = (Inr (code, err), w3)" "objs (cwHttpc w3) k = objs (cwHttpc w2) k" "Ctx (handles (cwApi w3) h) = Some ag"
    and callee: "- (2 ^ 63) \<le> TraceCtx.Txid t \<and> TraceCtx.Txid t < 2 ^ 63"
  shows "\<exists>w4 step t' m. clientCall U io gc url None req transport w = (Inr (code, err), w4) \<and>
     (Profile (agents (cwApi w4) ag) = Profile (agents (cwApi w3) ag) @ [PAdd (HttpcStep step)] \<or>
      Profile (agents (cwApi w4) ag) = Profile (agents (cwApi w3) ag) @ [PAddHeavy (HttpcStep step)]) \<and>
     UpdateMtrace (env_lib (agentEnv (uApi U))) (mtraceConf (uApi U)) req1 (t, n) = Inr (t', m) \<and>
     MTid t' = MTid caller \<and> MCallerTxid t' = TraceCtx.Txid caller \<and> MCallerStepId t' = hxStepId step \<and>
     (\<forall>hk\<in>set (map fst req). hk \<notin> CanonicalHeaderKey ` {TraceMtraceTraceparentKey (mtraceConf (uApi U)), TraceMtraceCallerKey (mtraceConf (uApi U)),
        TraceMtracePoidKey (mtraceConf (uApi U)), TraceMtraceSpecKey1 (mtraceConf (uApi U))} \<longrightarrow> headerGet req1 hk = headerGet req hk)"
proof -
  let ?lib = "env_lib (agentEnv (uApi U))" and ?conf = "mtraceConf (uApi U)"
  obtain hs c' n' where g: "GetMTrace ?lib ?conf (Some caller) (keyPos (cwApi w)) = (hs, Some c', n')" and r1: "req1 = setHeaders hs req"
    and w1: "w1 = w\<lparr>cwApi := (cwApi w)\<lparr>handles := (handles (cwApi w))(h := c'), keyPos := n'\<rparr>\<rparr>"
    by (rule traceHeaders_in [OF on ctx(1) st(1)]) (simp add: ctx(3))
  have d: "\<not> disable ?conf" using on(1) by simp
  note tq = traced_request [OF g d laws(2) req]
  note hc = headers_carry_trace [OF laws(1) d on(2) tr callee GetMTrace_header(1) [OF g d laws(2)] tq(1-3), of n]
  have "snd (GetTraceContext (uApi U) (cgid io) gc (cwApi w1)) = Some h" using ctx(1) GetTraceContext_gids [of "cwApi w1" "cwApi w"] by (simp add: w1)
  from httpc_Start_in [OF on(1) this st(2)] have s: "hcHandle (objs (cwHttpc w3) k) = Some h" "hcStep (objs (cwHttpc w3) k) \<noteq> None"
    "hcStepId (objs (cwHttpc w3) k) = MStepId c'" by (auto simp: tp(2) w1)
  from httpc_End_in [OF on(1) s(1,2) tp(3), of "cend io" "responseCode code" err] obtain w4 step where
    e: "httpc_End U (cend io) (Some k) (responseCode code) err w3 = Inr (None, w4)" "hxStepId step = MStepId c'"
    "Profile (agents (cwApi w4) ag) = Profile (agents (cwApi w3) ag) @ [PAdd (HttpcStep step)] \<or>
     Profile (agents (cwApi w4) ag) = Profile (agents (cwApi w3) ag) @ [PAddHeavy (HttpcStep step)]" using s(3) by auto
  have cc: "clientCall U io gc url None req transport w = (Inr (code, err), w4)"
    using d ctx(2) st tp(1) e(1) by (simp add: clientCall_def finishCall_def)
  have keep: "headerGet req1 hk = headerGet req hk" if "hk \<in> set (map fst req)" "hk \<notin> set (map fst hs)" for hk
    using that req tq(4) [of hk] by (auto simp: canonical_header_def r1)
  from hc obtain t' m where "UpdateMtrace ?lib ?conf req1 (t, n) = Inr (t', m)" "MTid t' = MTid caller" "MCallerTxid t' = TraceCtx.Txid caller"
    "MCallerStepId t' = MStepId c'" unfolding r1 by blast
  then show ?thesis using cc e(2,3) keep unfolding GetMTrace_keys(2) [OF g d] by auto
qed

definition tracedEnv1 :: "unit user_env" where
  "tracedEnv1 = userEnv1\<lparr>uApi := apiEnv1\<lparr>mtraceConf := mconf1\<rparr>\<rparr>"

definition tracedCw1 :: "(unit, unit) cw" where
  "tracedCw1 = cw1\<lparr>cwApi := newApi\<lparr>handles := (\<lambda>_. caller1\<lparr>Ctx := Some 0\<rparr>)\<rparr>\<rparr>"

definition callIo1 :: call_io where
  "callIo1 = \<lparr>cgid = 7, cstart = 100, cend = 130, cpick = None\<rparr>"

theorem outgoing_call_linked_witness:
  "\<exists>w4 step req1 t' m. HttpGet tracedEnv1 callIo1 (Context (Some 0)) ''http://b/'' None (\<lambda>hs w. (Inr (Some 200, None), w)) tracedCw1 = (Inr (Some 200, None), w4) \<and>
     (Profile (agents (cwApi w4) 0) = [PAdd (HttpcStep step)] \<or> Profile (agents (cwApi w4) 0) = [PAddHeavy (HttpcStep step)]) \<and>
     UpdateMtrace lib1 mconf1 req1 (NewTraceCtx\<lparr>TraceCtx.Txid := 78\<rparr> :: unit TraceCtx, 6) = Inr (t', m) \<and> MTid t' = 4711 \<and> MCallerTxid t' = 77 \<and>
     MCallerStepId t' = hxStepId step"
proof -
  let ?U = tracedEnv1 and ?c = "Context (Some 0)" and ?tp = "\<lambda>(hs :: header) (w :: (unit, unit) cw). (Inr (Some 200, None) :: (int option \<times> thr option) go, w)"
  have on: "\<not> off (uApi ?U)" "MtraceEnabled (mtraceConf (uApi ?U))" by (simp_all add: tracedEnv1_def userEnv1_def apiEnv1_def mconf1_def)
  have laws: "golib_laws (env_lib (agentEnv (uApi ?U)))" "keys_apart (mtraceConf (uApi ?U))"
    using lib1_laws mconf1_keys by (simp_all add: tracedEnv1_def userEnv1_def apiEnv1_def agentEnv1_def)
  have ctx: "snd (GetTraceContext (uApi ?U) (cgid callIo1) ?c (cwApi tracedCw1)) = Some 0" "?c \<noteq> NilContext" by (simp_all add: GetTraceContext_def)
  have tr: "trace_ok (handles (cwApi tracedCw1) 0)" "MTid (handles (cwApi tracedCw1) 0) \<noteq> 0"
    by (simp_all add: tracedCw1_def caller1_def NewTraceCtx_def trace_ok_def)
  obtain req1 w1 where s1: "traceHeaders ?U (cgid callIo1) ?c [] tracedCw1 = (req1, w1)" by force
  obtain k w2 where s2: "httpc_Start ?U (cgid callIo1) (cstart callIo1) (cpick callIo1) ?c ''http://b/'' w1 = (k, w2)" by force
  obtain hs c' n' where g: "GetMTrace (env_lib (agentEnv (uApi ?U))) (mtraceConf (uApi ?U)) (Some (handles (cwApi tracedCw1) 0)) (keyPos (cwApi tracedCw1)) = (hs, Some c', n')"
    and w1: "w1 = tracedCw1\<lparr>cwApi := (cwApi tracedCw1)\<lparr>handles := (handles (cwApi tracedCw1))(0 := c'), keyPos := n'\<rparr>\<rparr>"
    by (rule traceHeaders_in [OF on ctx(1) s1])
  have c': "Ctx c' = Some 0"
    using newStep_Ctx(1) [of "env_lib (agentEnv (uApi ?U))" "handles (cwApi tracedCw1) 0" "keyPos (cwApi tracedCw1)"]
      GetMTrace_header(1) [OF g _ laws(2)] on(1) by (simp add: tracedCw1_def caller1_def)
  have w2: "handles (cwApi w2) 0 = c'" "Profile (agents (cwApi w2) 0) = []"
    using s2 c' by (auto simp: httpc_Start_def Call_User.withAgent_def GetTraceContext_def StartHttpc_def w1 tracedCw1_def newApi_def Trace_Agent.NewTraceContext_def Let_def
      split: prod.splits if_splits)
  have ct: "- (2 ^ 63) \<le> TraceCtx.Txid (NewTraceCtx\<lparr>TraceCtx.Txid := 78\<rparr> :: unit TraceCtx) \<and> TraceCtx.Txid (NewTraceCtx\<lparr>TraceCtx.Txid := 78\<rparr> :: unit TraceCtx) < 2 ^ 63" by simp
  have "Ctx (handles (cwApi w2) 0) = Some 0" using w2(1) c' by simp
  from outgoing_call_linked [where transport = ?tp, OF on laws ctx refl tr canonical_Nil s1 s2 refl refl this ct, of 6]
  obtain w4 step t' m where "clientCall ?U callIo1 ?c ''http://b/'' None [] ?tp tracedCw1 = (Inr (Some 200, None), w4)"
    "Profile (agents (cwApi w4) 0) = [PAdd (HttpcStep step)] \<or> Profile (agents (cwApi w4) 0) = [PAddHeavy (HttpcStep step)]"
    "UpdateMtrace (env_lib (agentEnv (uApi ?U))) (mtraceConf (uApi ?U)) req1 (NewTraceCtx\<lparr>TraceCtx.Txid := 78\<rparr> :: unit TraceCtx, 6) = Inr (t', m)"
    "MTid t' = MTid (handles (cwApi tracedCw1) 0)" "MCallerTxid t' = TraceCtx.Txid (handles (cwApi tracedCw1) 0)" "MCallerStepId t' = hxStepId step"
    using w2(2) by auto
  moreover have "env_lib (agentEnv (uApi ?U)) = lib1" "mtraceConf (uApi ?U) = mconf1" "MTid (handles (cwApi tracedCw1) 0) = 4711"
    "TraceCtx.Txid (handles (cwApi tracedCw1) 0) = 77"
    by (simp_all add: tracedEnv1_def userEnv1_def apiEnv1_def agentEnv1_def tracedCw1_def caller1_def)
  ultimately show ?thesis by (intro exI [of _ w4] exI [of _ step] exI [of _ req1] exI [of _ t'] exI [of _ m]) (simp add: HttpGet_def)
qed

text \<open>A round trip makes the same call, in the first of its contexts that has a transaction.\<close>

lemma RoundTrip_clientCall:
  assumes "\<not> off (uApi U)" and "gc = selectContext (uApi U) (cgid io) [reqCtx, ownCtx] (cwApi w)" and "gc \<noteq> NilContext"
  shows "RoundTrip U io False reqCtx ownCtx url req transport w = clientCall U io gc url None req transport w"
  using assms by (simp add: RoundTrip_def clientCall_def)

lemma selectContext_traced:
  "c \<in> set cs \<Longrightarrow> snd (GetTraceContext E g c w) \<noteq> None \<Longrightarrow> snd (GetTraceContext E g (selectContext E g cs w) w) \<noteq> None"
proof (cases "find (\<lambda>c. snd (GetTraceContext E g c w) \<noteq> None) cs")
  case None
  assume "c \<in> set cs" "snd (GetTraceContext E g c w) \<noteq> None"
  with None show ?thesis by (auto simp: find_None_iff)
next
  case (Some d)
  then have "snd (GetTraceContext E g d w) \<noteq> None" by (auto simp: find_Some_iff)
  then show ?thesis unfolding selectContext_def Some by simp
qed

text \<open>Without \<^verbatim>\<open>defer\<close>: if the transport panics the call is not ended, and its context does not go back to the pool.\<close>

lemma transport_panic_not_ended:
  assumes "\<not> disable (mtraceConf (uApi U))" and "gc \<noteq> NilContext" and "traceHeaders U (cgid io) gc req w = (req1, w1)"
    and "httpc_Start U (cgid io) (cstart io) (cpick io) gc url w1 = (k, w2)" and "transport req1 w2 = (Inl e, w3)"
  shows "clientCall U io gc url None req transport w = (Inl e, w3)"
  using assms by (simp add: clientCall_def finishCall_def)

end
