(* ===== verification/Go_Scanner.thy ===== *)
theory Go_Scanner
  imports Prelude
begin

text \<open>
  Reading a file by lines with the standard library: \<^verbatim>\<open>bufio.Scanner\<close> with \<^verbatim>\<open>ScanLines\<close> over a regular file. The scanner
  reads ahead: it fills a buffer that starts with 4096 bytes and doubles, up to 65536, while no line end is found; so the
  position of the file after a line is not the end of the line. The file is the string of its bytes from the current
  position on.
\<close>

definition startBufSize :: nat where "startBufSize = 4096"
definition maxTokenSize :: nat where "maxTokenSize = 65536"

text \<open>The unread bytes \<open>unread\<close> lie at \<open>at0\<close> in a buffer of \<open>cap\<close> bytes; \<open>ateof\<close> is the error of the reader.\<close>

record scanner =
  unread :: string
  at0 :: nat
  cap :: nat
  ateof :: bool

definition NewScanner :: scanner where
  "NewScanner = \<lparr>unread = [], at0 = 0, cap = 0, ateof = False\<rparr>"

definition dropCR :: "string \<Rightarrow> string" where
  "dropCR s = (if s \<noteq> [] \<and> last s = CHR 0x0D then butlast s else s)"

text \<open>\<open>ScanLines\<close>: a line and what is left of the data, or a request for more data.\<close>

definition ScanLines :: "string \<Rightarrow> bool \<Rightarrow> (string \<times> string) option" where
  "ScanLines data atEOF =
     (if NL \<in> set data then Some (dropCR (takeWhile (\<lambda>c. c \<noteq> NL) data), tl (dropWhile (\<lambda>c. c \<noteq> NL) data))
      else if atEOF \<and> data \<noteq> [] then Some (dropCR data, [])
      else None)"

text \<open>Make room in the buffer; None if the line is too long.\<close>

definition makeRoom :: "scanner \<Rightarrow> scanner option" where
  "makeRoom s =
     (let upto = at0 s + length (unread s);
          s1 = (if at0 s > 0 \<and> (upto = cap s \<or> at0 s > cap s div 2) then s\<lparr>at0 := 0\<rparr> else s) in
      if at0 s1 + length (unread s1) = cap s1
      then (if cap s1 \<ge> maxTokenSize then None
            else Some (s1\<lparr>at0 := 0, cap := min (if cap s1 = 0 then startBufSize else cap s1 * 2) maxTokenSize\<rparr>))
      else Some s1)"

lemma makeRoom_props:
  assumes "makeRoom s = Some s'" and "at0 s + length (unread s) \<le> cap s"
  shows "unread s' = unread s" and "ateof s' = ateof s" and "at0 s' + length (unread s') < cap s'"
  using assms by (auto simp: makeRoom_def Let_def startBufSize_def maxTokenSize_def split: if_splits)

function (sequential) Scan :: "string \<Rightarrow> scanner \<Rightarrow> string option \<times> string \<times> scanner" where
  "Scan fl s =
     (case (if unread s \<noteq> [] \<or> ateof s then ScanLines (unread s) (ateof s) else None) of
        Some (line, rest) \<Rightarrow> (Some line, fl, s\<lparr>unread := rest, at0 := at0 s + (length (unread s) - length rest)\<rparr>)
      | None \<Rightarrow>
          if ateof s then (None, fl, s\<lparr>unread := [], at0 := 0\<rparr>)
          else (case makeRoom s of
                  None \<Rightarrow> (None, fl, s)
                | Some s1 \<Rightarrow>
                    (let n = min (length fl) (cap s1 - (at0 s1 + length (unread s1))) in
                     if n = 0 then Scan fl (s1\<lparr>ateof := True\<rparr>)
                     else Scan (drop n fl) (s1\<lparr>unread := unread s1 @ take n fl\<rparr>))))"
  by pat_completeness auto
termination
proof (relation "measure (\<lambda>(fl, s). 2 * length fl + (if ateof s then 0 else 1))", goal_cases)
  case (2 fl s s1 n)
  have "\<not> ateof s" using 2 by simp
  then show ?case by simp
next
  case (3 fl s s1 n)
  then have "0 < n" "n \<le> length fl" by auto
  then show ?case by (cases "ateof s"; cases "ateof s1"; simp; linarith?)
qed simp

declare Scan.simps [simp del]

lemma Scan_more:
  assumes "(if unread s \<noteq> [] \<or> ateof s then ScanLines (unread s) (ateof s) else None) = None" and "\<not> ateof s" and "makeRoom s = Some s1"
  shows "Scan fl s =
     (if min (length fl) (cap s1 - (at0 s1 + length (unread s1))) = 0 then Scan fl (s1\<lparr>ateof := True\<rparr>)
      else Scan (drop (min (length fl) (cap s1 - (at0 s1 + length (unread s1)))) fl)
             (s1\<lparr>unread := unread s1 @ take (min (length fl) (cap s1 - (at0 s1 + length (unread s1)))) fl\<rparr>))"
  unfolding Scan.simps [of fl s] assms(1,3) Let_def option.case if_not_P [OF assms(2)] by (rule refl)

subsection \<open>The lines of a file\<close>

function linesOf :: "string \<Rightarrow> string list" where
  "linesOf s =
     (if s = [] then []
      else dropCR (takeWhile (\<lambda>c. c \<noteq> NL) s) # linesOf (tl (dropWhile (\<lambda>c. c \<noteq> NL) s)))"
  by pat_completeness auto
termination
proof (relation "measure length", goal_cases)
  case (2 s)
  have "length (dropWhile (\<lambda>c. c \<noteq> NL) s) \<le> length s" by (rule length_dropWhile_le)
  moreover have "0 < length s" using 2 by simp
  ultimately have "length (dropWhile (\<lambda>c. c \<noteq> NL) s) - 1 < length s" by linarith
  then show ?case by (simp only: in_measure length_tl)
qed simp

declare linesOf.simps [simp del]

text \<open>No line of the file is too long for the scanner.\<close>

fun shortFrom :: "nat \<Rightarrow> string \<Rightarrow> bool" where
  "shortFrom n [] \<longleftrightarrow> n < maxTokenSize"
| "shortFrom n (c # cs) \<longleftrightarrow> n < maxTokenSize \<and> (if c = NL then shortFrom 0 cs else shortFrom (Suc n) cs)"

definition shortLines :: "string \<Rightarrow> bool" where
  "shortLines s \<longleftrightarrow> shortFrom 0 s"

lemma shortFrom_line: "shortFrom n s \<Longrightarrow> n + length (takeWhile (\<lambda>c. c \<noteq> NL) s) < maxTokenSize"
  by (induction s arbitrary: n) (auto split: if_splits, fastforce)

lemma shortFrom_rest: "shortFrom n s \<Longrightarrow> NL \<in> set s \<Longrightarrow> shortFrom 0 (tl (dropWhile (\<lambda>c. c \<noteq> NL) s))"
  by (induction s arbitrary: n) (auto split: if_splits)

lemma shortLines_rest: "shortLines s \<Longrightarrow> shortLines (tl (dropWhile (\<lambda>c. c \<noteq> NL) s))"
proof (cases "NL \<in> set s")
  case False
  then have "dropWhile (\<lambda>c. c \<noteq> NL) s = []" by (auto simp: dropWhile_eq_Nil_conv)
  then show ?thesis by (simp only: shortLines_def list.sel(2) shortFrom.simps maxTokenSize_def)
qed (simp add: shortLines_def shortFrom_rest)

subsection \<open>The scanner returns the lines of the file\<close>

definition scan_ok :: "string \<Rightarrow> scanner \<Rightarrow> bool" where
  "scan_ok fl s \<longleftrightarrow> at0 s + length (unread s) \<le> cap s \<and> cap s \<le> maxTokenSize \<and> (ateof s \<longrightarrow> fl = [])"

lemma new_ok: "scan_ok fl NewScanner"
  by (simp add: scan_ok_def NewScanner_def maxTokenSize_def)

lemma makeRoom_some:
  assumes "scan_ok fl s" and "length (unread s) < maxTokenSize"
  shows "\<exists>s1. makeRoom s = Some s1"
  using assms by (auto simp: makeRoom_def Let_def scan_ok_def)

lemma makeRoom_ok:
  assumes "makeRoom s = Some s1" and "scan_ok fl s"
  shows "cap s1 \<le> maxTokenSize"
  using assms by (auto simp: makeRoom_def Let_def scan_ok_def split: if_splits)

text \<open>Everything that is pending, in the buffer and in the file, is the input of the rest of the scan.\<close>

lemma Scan_spec:
  assumes "scan_ok fl s" and "shortLines (unread s @ fl)"
  shows "case Scan fl s of (r, fl', s') \<Rightarrow>
     scan_ok fl' s' \<and>
     (if unread s @ fl = [] then r = None \<and> unread s' @ fl' = []
      else r = Some (hd (linesOf (unread s @ fl))) \<and> linesOf (unread s' @ fl') = tl (linesOf (unread s @ fl)) \<and>
           shortLines (unread s' @ fl') \<and> length (unread s' @ fl') < length (unread s @ fl))"
  using assms
proof (induction fl s rule: Scan.induct)
  case (1 fl s)
  let ?data = "if unread s \<noteq> [] \<or> ateof s then ScanLines (unread s) (ateof s) else None"
  show ?case
  proof (cases ?data)
    case (Some r)
    obtain line rest where r: "r = (line, rest)" by force
    have S: "Scan fl s = (Some line, fl, s\<lparr>unread := rest, at0 := at0 s + (length (unread s) - length rest)\<rparr>)"
      using Some r by (simp add: Scan.simps)
    have sl: "ScanLines (unread s) (ateof s) = Some (line, rest)" using Some r by (auto split: if_splits)
    have ne: "unread s \<noteq> []" using sl by (auto simp: ScanLines_def split: if_splits)
    have lr: "line = dropCR (takeWhile (\<lambda>c. c \<noteq> NL) (unread s @ fl)) \<and> rest @ fl = tl (dropWhile (\<lambda>c. c \<noteq> NL) (unread s @ fl)) \<and> length rest < length (unread s)"
    proof (cases "NL \<in> set (unread s)")
      case True
      then obtain xs ys where "unread s = xs @ NL # ys" "NL \<notin> set xs" by (meson split_list_first)
      moreover have "takeWhile (\<lambda>c. c \<noteq> NL) (xs @ NL # zs) = xs" "dropWhile (\<lambda>c. c \<noteq> NL) (xs @ NL # zs) = NL # zs" if "NL \<notin> set xs" for zs xs
        using that by (induction xs) auto
      ultimately show ?thesis using sl by (auto simp: ScanLines_def)
    next
      case False
      then have e: "ateof s" "line = dropCR (unread s)" "rest = []" using sl by (auto simp: ScanLines_def split: if_splits)
      have f: "fl = []" using e(1) "1.prems"(1) by (simp add: scan_ok_def)
      have tw: "takeWhile (\<lambda>c. c \<noteq> NL) (unread s) = unread s" "dropWhile (\<lambda>c. c \<noteq> NL) (unread s) = []"
        using False by (auto simp: takeWhile_eq_all_conv dropWhile_eq_Nil_conv)
      show ?thesis using e ne by (simp add: f tw)
    qed
    have "linesOf (unread s @ fl) = line # linesOf (rest @ fl)" using ne lr by (subst linesOf.simps) simp
    moreover have "shortLines (rest @ fl)" using shortLines_rest [OF "1.prems"(2)] lr by simp
    ultimately show ?thesis using "1.prems"(1) ne lr by (auto simp: S scan_ok_def)
  next
    case None
    show ?thesis
    proof (cases "ateof s")
      case True
      then have "unread s = []" "fl = []" using None "1.prems"(1) by (auto simp: ScanLines_def scan_ok_def split: if_splits)
      then show ?thesis using None True "1.prems"(1) by (simp add: Scan.simps scan_ok_def)
    next
      case False
      have nonl: "NL \<notin> set (unread s)" using None False by (auto simp: ScanLines_def split: if_splits)
      have "length (unread s) \<le> length (takeWhile (\<lambda>c. c \<noteq> NL) (unread s @ fl))" using nonl by (induction "unread s" arbitrary: s) (auto simp: takeWhile_append)
      also have "\<dots> < maxTokenSize" using shortFrom_line [of 0 "unread s @ fl"] "1.prems"(2) by (simp add: shortLines_def)
      finally obtain s1 where s1: "makeRoom s = Some s1" using makeRoom_some [OF "1.prems"(1)] by blast
      note p = makeRoom_props [OF s1] makeRoom_ok [OF s1 "1.prems"(1)]
      have fit: "at0 s + length (unread s) \<le> cap s" using "1.prems"(1) by (simp add: scan_ok_def)
      let ?n = "min (length fl) (cap s1 - (at0 s1 + length (unread s1)))"
      have pos: "0 < cap s1 - (at0 s1 + length (unread s1))" using p(3) [OF fit] by simp
      show ?thesis
      proof (cases "?n = 0")
        case True
        then have "length fl = 0" using pos by (simp only: min_def split: if_splits)
        then have f: "fl = []" by simp
        have S: "Scan fl s = Scan fl (s1\<lparr>ateof := True\<rparr>)" unfolding Scan_more [OF None False s1] if_P [OF True] ..
        have "scan_ok fl (s1\<lparr>ateof := True\<rparr>)" using p(3) [OF fit] p(4) f by (simp add: scan_ok_def)
        moreover have e: "unread (s1\<lparr>ateof := True\<rparr>) @ fl = unread s @ fl" using p(1) [OF fit] by simp
        ultimately show ?thesis using "1.IH"(1) [OF None False s1 refl True] "1.prems"(2) unfolding S e by simp
      next
        case nz: False
        let ?s2 = "s1\<lparr>unread := unread s1 @ take ?n fl\<rparr>"
        have S: "Scan fl s = Scan (drop ?n fl) ?s2" unfolding Scan_more [OF None False s1] if_not_P [OF nz] ..
        have ok: "scan_ok (drop ?n fl) ?s2" using p(2,3) [OF fit] p(4) False by (auto simp: scan_ok_def)
        have e: "unread ?s2 @ drop ?n fl = unread s @ fl" using p(1) [OF fit] by simp
        from "1.IH"(2) [OF None False s1 refl nz ok] "1.prems"(2) show ?thesis unfolding S e by simp
      qed
    qed
  qed
qed

text \<open>A line that is returned has been consumed, short or not; and a file that is read up stays so.\<close>

lemma Scan_consumes:
  "Scan fl s = (Some line, fl', s') \<Longrightarrow> length (unread s') + length fl' < length (unread s) + length fl"
proof (induction fl s rule: Scan.induct)
  case (1 fl s)
  let ?data = "if unread s \<noteq> [] \<or> ateof s then ScanLines (unread s) (ateof s) else None"
  show ?case
  proof (cases ?data)
    case (Some r)
    obtain l rest where r: "r = (l, rest)" by force
    have sl: "ScanLines (unread s) (ateof s) = Some (l, rest)" using Some r by (auto split: if_splits)
    have "length (dropWhile (\<lambda>c. c \<noteq> NL) (unread s)) \<le> length (unread s)" by (rule length_dropWhile_le)
    then have "length rest < length (unread s)" using sl by (auto simp: ScanLines_def split: if_splits) (metis One_nat_def diff_Suc_less length_greater_0_conv length_pos_if_in_set less_le_trans diff_le_mono le_less_trans)
    then show ?thesis using Some r "1.prems" by (auto simp: Scan.simps [of fl s])
  next
    case None
    then have ne: "\<not> ateof s" using "1.prems" by (auto simp: Scan.simps [of fl s] split: if_splits)
    then obtain s1 where s1: "makeRoom s = Some s1" using None "1.prems" by (cases "makeRoom s") (auto simp: Scan.simps [of fl s])
    have u: "unread s1 = unread s" using s1 by (auto simp: makeRoom_def Let_def split: if_splits)
    let ?n = "min (length fl) (cap s1 - (at0 s1 + length (unread s1)))"
    show ?thesis
    proof (cases "?n = 0")
      case True
      have "Scan fl s = Scan fl (s1\<lparr>ateof := True\<rparr>)" unfolding Scan_more [OF None ne s1] if_P [OF True] ..
      with "1.IH"(1) [OF None ne s1 refl True] "1.prems" u show ?thesis by simp
    next
      case False
      have "Scan fl s = Scan (drop ?n fl) (s1\<lparr>unread := unread s1 @ take ?n fl\<rparr>)" unfolding Scan_more [OF None ne s1] if_not_P [OF False] ..
      with "1.IH"(2) [OF None ne s1 refl False] "1.prems" u show ?thesis by simp
    qed
  qed
qed

lemma Scan_read_up: "fst (snd (Scan [] s)) = []"
proof (induction "[] :: string" s rule: Scan.induct)
  case (1 s)
  then show ?case by (subst Scan.simps) (auto split: option.split prod.split simp: Let_def)
qed

text \<open>The read-ahead: the first line of a file of at most 4096 bytes takes the whole file into the buffer.\<close>

lemma Scan_reads_ahead:
  assumes "length fl \<le> startBufSize" and "fl \<noteq> []"
  shows "fst (snd (Scan fl NewScanner)) = []"
proof -
  have m: "makeRoom \<lparr>unread = [], at0 = 0, cap = 0, ateof = False\<rparr> = Some \<lparr>unread = [], at0 = 0, cap = startBufSize, ateof = False\<rparr>"
    by (simp add: makeRoom_def startBufSize_def maxTokenSize_def)
  have "Scan fl NewScanner = Scan [] (NewScanner\<lparr>cap := startBufSize, unread := fl\<rparr>)"
    using assms by (subst Scan.simps) (simp add: m NewScanner_def Let_def min_absorb1 del: min.absorb1)
  then show ?thesis by (simp add: Scan_read_up)
qed

lemma linesOf_append:
  assumes "a = [] \<or> last a = NL"
  shows "linesOf (a @ b) = linesOf a @ linesOf b"
  using assms
proof (induction a rule: linesOf.induct)
  case (1 a)
  show ?case
  proof (cases "a = []")
    case False
    then have nl: "last a = NL" "NL \<in> set a" using "1.prems" last_in_set by fastforce+
    then obtain xs ys where a: "a = xs @ NL # ys" "NL \<notin> set xs" by (meson split_list_first)
    have w: "takeWhile (\<lambda>c. c \<noteq> NL) (xs @ NL # zs) = xs" "dropWhile (\<lambda>c. c \<noteq> NL) (xs @ NL # zs) = NL # zs" for zs
      using a(2) by (induction xs) auto
    have "ys = [] \<or> last ys = NL" using nl(1) a(1) by (auto split: if_splits)
    with "1.IH" [OF False] have "linesOf (ys @ b) = linesOf ys @ linesOf b" by (simp add: a w)
    moreover have "linesOf (xs @ NL # zs) = dropCR xs # linesOf zs" for zs by (subst linesOf.simps) (simp add: w)
    ultimately show ?thesis by (simp add: a)
  qed (simp add: linesOf.simps [of "[]"])
qed

end
