(* ===== verification/Watch_Log.thy ===== *)
theory Watch_Log
  imports Go_Scanner Go_Std "HOL-Library.Char_ord" "HOL-Library.List_Lexorder"
begin

text \<open>
  Following log files (\<^verbatim>\<open>WatchLog.go\<close>, \<^verbatim>\<open>WatchLogManager.go\<close> and \<^verbatim>\<open>AppLogParser.go\<close> of \<^verbatim>\<open>agent/logsink/watch\<close>).

  The file system is an argument of each operation: what \<^verbatim>\<open>os.Stat\<close> finds (the size) and what \<^verbatim>\<open>os.Open\<close> gives (the
  bytes), which may differ when the file changes in between; the other file operations succeed. The packs sent are listed.
  The configured regular expression with \<open>FindAllStringSubmatch\<close> (the first group of every match), the JSON decoder, \<^verbatim>\<open>strftime\<close>
  and \<^verbatim>\<open>filepath.Base\<close> are fields of \<open>watch_env\<close>, as are the settings. The EUC-KR decoder of \<open>processMultilineLogs\<close> is left out:
  nothing sets the encoding. The timer in its loop never fires, because every iteration makes a new one.
  Tables of the manager are maps; the order in which a table is enumerated is an argument.
\<close>

record WatchLog =
  wlId :: string
  Activated :: bool
  FileName :: string
  FileInfo :: "nat option"
  FilePos :: int
  Words :: "string list"
  CheckInterval :: int
  ExpirationTime :: int
  LastCheckTime :: int
  trxLogFound :: bool
  Category :: string

record log_pack =
  lpCategory :: string
  lpFile :: string
  lpTags :: "(string \<times> string) list"
  lpContent :: string
  lpLine :: nat

record watch_env =
  WatchLogReadCount :: int
  WatchLogLineSize :: int
  LogSendThreshold :: int
  TxIdTag :: string
  AppLogCategory :: string
  findJson :: "string \<Rightarrow> string list"
  unmarshal :: "string \<Rightarrow> (string \<times> string) list option"
  baseName :: "string \<Rightarrow> string"

definition NewWatchLog :: "watch_env \<Rightarrow> string \<Rightarrow> WatchLog" where
  "NewWatchLog E i = \<lparr>wlId = i, Activated = False, FileName = [], FileInfo = None, FilePos = 0, Words = [], CheckInterval = 0, ExpirationTime = 0,
     LastCheckTime = 0, trxLogFound = False, Category = baseName E i\<rparr>"

definition wl_Config :: "watch_env \<Rightarrow> nat option \<Rightarrow> string \<Rightarrow> string \<Rightarrow> WatchLog \<Rightarrow> WatchLog" where
  "wl_Config E stat i fileName wl = wl\<lparr>Category := baseName E i, FileName := fileName, FileInfo := stat\<rparr>"

subsection \<open>Packs\<close>

text \<open>The tags of the JSON parts of a line; the category changes when one of them has the transaction id.\<close>

fun applyMatches :: "watch_env \<Rightarrow> string list \<Rightarrow> bool \<times> string \<times> (string \<times> string) list \<Rightarrow> bool \<times> string \<times> (string \<times> string) list" where
  "applyMatches E [] r = r"
| "applyMatches E (j # js) (ret, cat, tags) =
     (if j = [] then applyMatches E js (ret, cat, tags)
      else (case unmarshal E j of
              None \<Rightarrow> applyMatches E js (ret, cat, tags)
            | Some m \<Rightarrow> applyMatches E js (True, if TxIdTag E \<in> set (map fst m) then AppLogCategory E else cat, tags @ m)))"

definition ApplyAppLog :: "watch_env \<Rightarrow> string \<Rightarrow> string \<Rightarrow> bool \<times> string \<times> (string \<times> string) list" where
  "ApplyAppLog E line cat = (if line = [] then (False, cat, []) else applyMatches E (findJson E line) (False, cat, []))"

definition validateTxHeader :: "watch_env \<Rightarrow> string \<Rightarrow> bool" where
  "validateTxHeader E line \<longleftrightarrow> findJson E line \<noteq> []"

text \<open>A watcher with the packs sent so far; \<open>Inl\<close> if the code has panicked in that state. A pack needs the file information:
  without it \<open>send\<close> panics.\<close>

type_synonym wl_out = "WatchLog \<times> log_pack list"
type_synonym wl_res = "wl_out + wl_out"

definition andThen :: "wl_res \<Rightarrow> (wl_out \<Rightarrow> wl_res) \<Rightarrow> wl_res" where
  "andThen r f = (case r of Inl wo \<Rightarrow> Inl wo | Inr wo \<Rightarrow> f wo)"

fun foldRes :: "('a \<Rightarrow> wl_out \<Rightarrow> wl_res) \<Rightarrow> 'a list \<Rightarrow> wl_out \<Rightarrow> wl_res" where
  "foldRes f [] wo = Inr wo"
| "foldRes f (x # xs) wo = andThen (f x wo) (foldRes f xs)"

definition wl_send :: "watch_env \<Rightarrow> string \<Rightarrow> wl_out \<Rightarrow> wl_res" where
  "wl_send E line = (\<lambda>(wl, out).
     case ApplyAppLog E line (Category wl) of (found, cat, tags) \<Rightarrow>
       (let wl1 = wl\<lparr>trxLogFound := (found \<or> trxLogFound wl)\<rparr> in
        case FileInfo wl1 of
          None \<Rightarrow> Inl (wl1, out)
        | Some n \<Rightarrow> Inr (wl1, out @ [\<lparr>lpCategory = cat, lpFile = FileName wl, lpTags = tags, lpContent = line, lpLine = n\<rparr>])))"

definition wl_sendLine :: "watch_env \<Rightarrow> string \<Rightarrow> wl_out \<Rightarrow> wl_res" where
  "wl_sendLine E line wo =
     (if Words (fst wo) \<noteq> [] then foldRes (\<lambda>word. if Index line word > -1 then wl_send E line else Inr) (Words (fst wo)) wo
      else wl_send E line wo)"

definition parseAndSend :: "watch_env \<Rightarrow> string list \<Rightarrow> wl_out \<Rightarrow> wl_res" where
  "parseAndSend E lines wo = foldRes (wl_sendLine E) lines wo"

subsection \<open>Reading single lines\<close>

function read_loop :: "int \<Rightarrow> string \<Rightarrow> scanner \<Rightarrow> int \<Rightarrow> string list \<Rightarrow> string list \<times> string" where
  "read_loop lineLimit fl sc lineCount result =
     (case Scan fl sc of
        (None, fl', sc') \<Rightarrow> (result, fl')
      | (Some text, fl', sc') \<Rightarrow>
          if lineCount < lineLimit
          then (let line = TrimSpace text in
                if line \<noteq> [] then read_loop lineLimit fl' sc' (lineCount + 1) (result @ [line])
                else read_loop lineLimit fl' sc' lineCount result)
          else (result, fl'))"
  by pat_completeness auto
termination
  by (relation "measure (\<lambda>(lim, fl, sc, n, r). length (unread sc) + length fl)") (auto simp: Scan_consumes [OF sym])

declare read_loop.simps [simp del]

text \<open>\<open>read\<close> returns the lines and what is left of the file, from which its position follows.\<close>

definition wl_read :: "int \<Rightarrow> string \<Rightarrow> string list \<times> string" where
  "wl_read lineLimit fl = read_loop lineLimit fl NewScanner 0 []"

fun wl_process_loop :: "watch_env \<Rightarrow> nat \<Rightarrow> string \<Rightarrow> wl_out \<Rightarrow> wl_res" where
  "wl_process_loop E 0 content wo = Inr wo"
| "wl_process_loop E (Suc k) content (wl, out) =
     (if FilePos wl \<ge> int (length content) then Inr (wl, out)
      else (case wl_read (WatchLogLineSize E) (drop (nat (FilePos wl)) content) of (lines, left) \<Rightarrow>
              (let wl1 = wl\<lparr>FilePos := int (length content - length left)\<rparr> in
               if lines = [] then Inr (wl1, out)
               else andThen (parseAndSend E lines (wl1, out)) (wl_process_loop E k content))))"

text \<open>\<open>process\<close> recovers from a panic.\<close>

definition wl_process :: "watch_env \<Rightarrow> nat option \<Rightarrow> string option \<Rightarrow> int \<Rightarrow> wl_out \<Rightarrow> wl_out" where
  "wl_process E stat opened sysNow = (\<lambda>(wl0, out).
     let wl = (case stat of Some n \<Rightarrow> wl0\<lparr>FileInfo := Some n\<rparr> | None \<Rightarrow> wl0\<lparr>FileInfo := None, FilePos := -1\<rparr>) in
     if FilePos wl < 0 then (case FileInfo wl of Some n \<Rightarrow> wl\<lparr>FilePos := int n\<rparr> | None \<Rightarrow> wl, out)
     else if sysNow < i64 (LastCheckTime wl + CheckInterval wl) then (wl, out)
     else (let wl1 = wl\<lparr>LastCheckTime := sysNow\<rparr>; size = (case FileInfo wl of Some n \<Rightarrow> int n | None \<Rightarrow> 0) in
           if FilePos wl1 > size then (wl1\<lparr>FilePos := size\<rparr>, out)
           else (case opened of
                   None \<Rightarrow> (wl1, out)
                 | Some content \<Rightarrow>
                     (case wl_process_loop E (nat (WatchLogReadCount E)) content (wl1\<lparr>FileInfo := Some (length content)\<rparr>, out) of
                        Inl wo \<Rightarrow> wo | Inr wo \<Rightarrow> wo))))"

subsection \<open>Reading records of several lines\<close>

text \<open>A record ends where a line has a header, or after \<open>LogSendThreshold\<close> lines.\<close>

function multi_loop :: "watch_env \<Rightarrow> string \<Rightarrow> scanner \<Rightarrow> string \<Rightarrow> int \<Rightarrow> wl_out \<Rightarrow> wl_out + string \<times> string \<times> wl_out" where
  "multi_loop E fl sc buf lineCount wo =
     (case Scan fl sc of
        (None, fl', sc') \<Rightarrow> Inr (buf, fl', wo)
      | (Some line, fl', sc') \<Rightarrow>
          (let n = i32 (lineCount + 1);
               flush = ((validateTxHeader E line \<or> n > LogSendThreshold E) \<and> buf \<noteq> []);
               buf' = (if flush then [] else buf) in
           case (if flush then parseAndSend E [buf] wo else Inr wo) of
             Inl wo' \<Rightarrow> Inl wo'
           | Inr wo' \<Rightarrow> multi_loop E fl' sc' ((if buf' \<noteq> [] then buf' @ [NL] else []) @ line) (if flush then 0 else n) wo'))"
  by pat_completeness auto
termination
  by (relation "measure (\<lambda>(E, fl, sc, b, n, wo). length (unread sc) + length fl)") (auto simp: Scan_consumes [OF sym])

declare multi_loop.simps [simp del]

definition processMultilineLogs :: "watch_env \<Rightarrow> nat option \<Rightarrow> string option \<Rightarrow> wl_out \<Rightarrow> wl_res" where
  "processMultilineLogs E stat opened = (\<lambda>(wl, out).
     case stat of
       None \<Rightarrow> Inr (wl, out)
     | Some sz \<Rightarrow>
         if int sz = FilePos wl then Inr (wl, out)
         else (let wl1 = (if int sz < FilePos wl then wl\<lparr>FilePos := 0\<rparr> else wl) in
               case opened of
                 None \<Rightarrow> Inr (wl1, out)
               | Some content \<Rightarrow>
                   if FilePos wl1 < 0 then Inr (wl1, out)
                   else (case multi_loop E (drop (nat (FilePos wl1)) content) NewScanner [] 0 (wl1, out) of
                           Inl wo \<Rightarrow> Inl wo
                         | Inr (buf, left, wo) \<Rightarrow>
                             andThen (if buf \<noteq> [] then parseAndSend E [buf] wo else Inr wo)
                               (\<lambda>(wl2, out2). Inr (wl2\<lparr>FilePos := max (FilePos wl1) (int (length content)) - int (length left)\<rparr>, out2)))))"

definition wl_Process :: "watch_env \<Rightarrow> nat option \<Rightarrow> string option \<Rightarrow> int \<Rightarrow> wl_out \<Rightarrow> wl_res" where
  "wl_Process E stat opened sysNow wo =
     (if trxLogFound (fst wo) then processMultilineLogs E stat opened wo else Inr (wl_process E stat opened sysNow wo))"

definition wl_Activate :: "WatchLog \<Rightarrow> WatchLog" where
  "wl_Activate wl = (if Activated wl then wl else wl\<lparr>FilePos := (case FileInfo wl of Some n \<Rightarrow> int n | None \<Rightarrow> -1)\<rparr>)\<lparr>Activated := True\<rparr>"

definition wl_ActivateFirst :: "WatchLog \<Rightarrow> WatchLog" where
  "wl_ActivateFirst wl = (if Activated wl then wl else wl\<lparr>FilePos := (case FileInfo wl of Some n \<Rightarrow> 0 | None \<Rightarrow> -1)\<rparr>)\<lparr>Activated := True\<rparr>"

definition wl_Stop :: "WatchLog \<Rightarrow> WatchLog" where
  "wl_Stop wl = wl\<lparr>Activated := False\<rparr>"

definition wl_Reset :: "WatchLog \<Rightarrow> WatchLog" where
  "wl_Reset wl = wl\<lparr>FilePos := -1\<rparr>"

subsection \<open>The manager\<close>

record DateFormatFile =
  dfFileName :: string
  prevFileName :: string
  curFileName :: string

definition NewDateFormatFile :: "string \<Rightarrow> string \<Rightarrow> DateFormatFile" where
  "NewDateFormatFile fileName cur = \<lparr>dfFileName = fileName, prevFileName = cur, curFileName = cur\<rparr>"

record WatchLogManager =
  watchEnabled :: bool
  dogs :: "string \<rightharpoonup> WatchLog"
  dateFormatFiles :: "string \<rightharpoonup> DateFormatFile"

text \<open>The configuration: the files of \<^verbatim>\<open>logsink_files\<close>, or the ids of the keys \<^verbatim>\<open>watchlog.<id>.enabled\<close> with their other values.\<close>

record watch_conf =
  WatchLogEnabled :: bool
  LogSinkFiles :: "string list"
  LogSinkInterval :: int
  LogSinkStopInterval :: int
  wcIds :: "string list"
  wcEnabled :: "string \<Rightarrow> bool"
  wcFile :: "string \<Rightarrow> string"
  wcWords :: "string \<Rightarrow> string list"
  wcInterval :: "string \<Rightarrow> int"

text \<open>The file system and the formatter of dates at the time of an operation.\<close>

record watch_world =
  statOf :: "string \<Rightarrow> nat option"
  openOf :: "string \<Rightarrow> string option"
  strftime :: "string \<Rightarrow> string option"
  unixMilli :: int

definition wm_Add ::
  "watch_env \<Rightarrow> watch_world \<Rightarrow> string \<Rightarrow> string \<Rightarrow> string \<Rightarrow> string list \<Rightarrow> int \<Rightarrow> WatchLogManager \<Rightarrow> WatchLogManager" where
  "wm_Add E W i fn category words checkInterval m =
     (let dog0 = (case dogs m i of Some d \<Rightarrow> d | None \<Rightarrow> NewWatchLog E i);
          dog1 = (wl_Config E (statOf W fn) i fn dog0)\<lparr>Words := words, CheckInterval := max checkInterval 1000\<rparr>;
          dog2 = (if category \<noteq> [] then dog1\<lparr>Category := category\<rparr> else dog1) in
      m\<lparr>dogs := (dogs m)(i \<mapsto> dog2)\<rparr>)"

definition onDog :: "string \<Rightarrow> (WatchLog \<Rightarrow> WatchLog) \<Rightarrow> WatchLogManager \<Rightarrow> WatchLogManager" where
  "onDog i f m = m\<lparr>dogs := (dogs m)(i := map_option f (dogs m i))\<rparr>"

definition processDateFormatFile :: "watch_env \<Rightarrow> watch_conf \<Rightarrow> watch_world \<Rightarrow> string \<Rightarrow> WatchLogManager \<Rightarrow> WatchLogManager" where
  "processDateFormatFile E conf W k m =
     (case dateFormatFiles m k of
        None \<Rightarrow> m
      | Some dff \<Rightarrow>
          (case strftime W (dfFileName dff) of
             None \<Rightarrow> m
           | Some str \<Rightarrow>
               if str = curFileName dff then m
               else (let dff' = dff\<lparr>prevFileName := curFileName dff, curFileName := str\<rparr>;
                         m1 = m\<lparr>dateFormatFiles := (dateFormatFiles m)(k \<mapsto> dff')\<rparr>;
                         m2 = onDog str wl_ActivateFirst (wm_Add E W str str (baseName E (dfFileName dff)) [] (LogSinkInterval conf) m1) in
                     onDog (prevFileName dff') (\<lambda>d. d\<lparr>ExpirationTime := i64 (unixMilli W + LogSinkStopInterval conf)\<rparr>) m2)))"

definition processDateFormatFiles :: "watch_env \<Rightarrow> watch_conf \<Rightarrow> watch_world \<Rightarrow> string list \<Rightarrow> WatchLogManager \<Rightarrow> WatchLogManager" where
  "processDateFormatFiles E conf W order m = fold (processDateFormatFile E conf W) order m"

definition wm_processDog :: "watch_env \<Rightarrow> watch_world \<Rightarrow> string \<Rightarrow> WatchLogManager \<times> log_pack list \<Rightarrow> WatchLogManager \<times> log_pack list" where
  "wm_processDog E W i = (\<lambda>(m, out).
     case dogs m i of
       None \<Rightarrow> (m, out)
     | Some dog \<Rightarrow>
         (case (if Activated dog then wl_Process E (statOf W (FileName dog)) (openOf W (FileName dog)) (unixMilli W) (dog, out) else Inr (dog, out)) of
            Inl (d, out') \<Rightarrow> (m\<lparr>dogs := (dogs m)(i \<mapsto> wl_Stop d)\<rparr>, out')
          | Inr (d, out') \<Rightarrow>
              if ExpirationTime d \<noteq> 0 \<and> ExpirationTime d < unixMilli W then (m\<lparr>dogs := (dogs m)(i := None)\<rparr>, out')
              else (m\<lparr>dogs := (dogs m)(i \<mapsto> d)\<rparr>, out')))"

definition wm_process ::
  "watch_env \<Rightarrow> watch_conf \<Rightarrow> watch_world \<Rightarrow> string list \<Rightarrow> string list \<Rightarrow> WatchLogManager \<times> log_pack list \<Rightarrow> WatchLogManager \<times> log_pack list" where
  "wm_process E conf W dateOrder order = (\<lambda>(m, out).
     fold (wm_processDog E W) order (processDateFormatFiles E conf W dateOrder m, out))"

text \<open>\<open>resetDogList\<close>: one configured file or id, then the removal of the others.\<close>

definition sinkId :: "watch_world \<Rightarrow> string \<Rightarrow> string" where
  "sinkId W fn = (if fn = [] then [] else case strftime W fn of Some str \<Rightarrow> str | None \<Rightarrow> fn)"

definition resetSinkFile :: "watch_env \<Rightarrow> watch_conf \<Rightarrow> watch_world \<Rightarrow> bool \<Rightarrow> string \<Rightarrow> WatchLogManager \<Rightarrow> WatchLogManager" where
  "resetSinkFile E conf W reset fn m =
     (if fn = [] then m
      else (let i = sinkId W fn;
                m1 = (if i \<noteq> fn then m\<lparr>dateFormatFiles := (dateFormatFiles m)(fn \<mapsto> NewDateFormatFile fn i)\<rparr> else m);
                category = (if i \<noteq> fn then baseName E fn else []);
                m2 = wm_Add E W i i category [] (LogSinkInterval conf) m1 in
            onDog i (\<lambda>d. wl_Activate (if reset then wl_Reset d else d)) m2))"

definition resetWatchId :: "watch_env \<Rightarrow> watch_conf \<Rightarrow> watch_world \<Rightarrow> bool \<Rightarrow> string \<Rightarrow> WatchLogManager \<Rightarrow> WatchLogManager" where
  "resetWatchId E conf W reset i m =
     (let fn = wcFile conf i in
      if fn = [] then m
      else (let dog = (wl_Config E (statOf W fn) i fn (NewWatchLog E i))\<lparr>Words := wcWords conf i, CheckInterval := max (wcInterval conf i) 1000\<rparr>;
                dog1 = (if reset then wl_Reset dog else dog);
                dog2 = (if wcEnabled conf i then wl_Activate dog1 else wl_Stop dog1) in
            m\<lparr>dogs := (dogs m)(i \<mapsto> dog2)\<rparr>))"

definition resetDogList :: "watch_env \<Rightarrow> watch_conf \<Rightarrow> watch_world \<Rightarrow> bool \<Rightarrow> WatchLogManager \<Rightarrow> WatchLogManager" where
  "resetDogList E conf W reset m =
     (let files = sort (map TrimSpace (LogSinkFiles conf));
          ids = (if files \<noteq> [] then map (sinkId W) files else sort (wcIds conf));
          m1 = (if files \<noteq> [] then fold (resetSinkFile E conf W reset) files m else fold (resetWatchId E conf W reset) ids m) in
      m1\<lparr>dogs := (dogs m1) |` set ids\<rparr>)"

definition wm_Run :: "watch_env \<Rightarrow> watch_conf \<Rightarrow> watch_world \<Rightarrow> WatchLogManager \<Rightarrow> WatchLogManager" where
  "wm_Run E conf W m = (resetDogList E conf W (WatchLogEnabled conf \<noteq> watchEnabled m) m)\<lparr>watchEnabled := WatchLogEnabled conf\<rparr>"

text \<open>The other settings that a reload takes over, if they are set; the pattern is that of \<^verbatim>\<open>app_log_pattern\<close>, compiled.\<close>

record watch_settings =
  wsTxIdTag :: string
  wsAppLogCategory :: string
  wsPattern :: "(string \<Rightarrow> string list) option"
  wsLogSendThreshold :: int

definition wm_Run_settings :: "watch_settings \<Rightarrow> watch_env \<Rightarrow> watch_env" where
  "wm_Run_settings c E = E
     \<lparr>TxIdTag := (if wsTxIdTag c \<noteq> [] then wsTxIdTag c else TxIdTag E),
      AppLogCategory := (if wsAppLogCategory c \<noteq> [] then wsAppLogCategory c else AppLogCategory E),
      findJson := (case wsPattern c of Some f \<Rightarrow> f | None \<Rightarrow> findJson E),
      LogSendThreshold := (if wsLogSendThreshold c > 0 then wsLogSendThreshold c else LogSendThreshold E)\<rparr>"

subsection \<open>What a reading returns\<close>

definition nonblank :: "string \<Rightarrow> string list" where
  "nonblank s = filter (\<lambda>l. l \<noteq> []) (map TrimSpace (linesOf s))"

lemma linesOf_Nil [simp]: "linesOf [] = []"
  by (simp add: linesOf.simps)

lemma linesOf_ne: "s \<noteq> [] \<Longrightarrow> linesOf s \<noteq> []"
  by (subst linesOf.simps) simp

lemma read_loop_spec:
  assumes "scan_ok fl sc" and "shortLines (unread sc @ fl)" and "n \<le> mx"
  shows "fst (read_loop mx fl sc n res) = res @ take (nat (mx - n)) (nonblank (unread sc @ fl)) \<and>
     (n + int (length (nonblank (unread sc @ fl))) < mx \<longrightarrow> snd (read_loop mx fl sc n res) = []) \<and>
     (fl = [] \<longrightarrow> snd (read_loop mx fl sc n res) = [])"
  using assms
proof (induction mx fl sc n res rule: read_loop.induct)
  case (1 mx fl sc n res)
  obtain r fl' sc' where S: "Scan fl sc = (r, fl', sc')" by (cases "Scan fl sc") auto
  let ?p = "unread sc @ fl"
  note sp = Scan_spec [OF "1.prems"(1,2), unfolded S prod.case]
  have up: "fl = [] \<longrightarrow> fl' = []" using Scan_read_up [of sc] S by auto
  show ?case
  proof (cases "?p = []")
    case True
    then have "r = None" "fl' = []" using sp by auto
    then have "read_loop mx fl sc n res = (res, [])" using S by (simp add: read_loop.simps [of mx fl sc n res])
    then show ?thesis using True by (simp add: nonblank_def)
  next
    case False
    then have r: "r = Some (hd (linesOf ?p))" "linesOf (unread sc' @ fl') = tl (linesOf ?p)" "scan_ok fl' sc'" "shortLines (unread sc' @ fl')"
      using sp by auto
    let ?l = "TrimSpace (hd (linesOf ?p))"
    have lines: "linesOf ?p = hd (linesOf ?p) # linesOf (unread sc' @ fl')" using linesOf_ne [OF False] r(2) by simp
    have nb: "nonblank ?p = (if ?l \<noteq> [] then ?l # nonblank (unread sc' @ fl') else nonblank (unread sc' @ fl'))"
      unfolding nonblank_def by (subst lines) simp
    show ?thesis
    proof (cases "n < mx")
      case lt: True
      show ?thesis
      proof (cases "?l = []")
        case True
        have eq: "read_loop mx fl sc n res = read_loop mx fl' sc' n res"
          by (subst read_loop.simps) (simp add: S r(1) lt True Let_def)
        have nb': "nonblank ?p = nonblank (unread sc' @ fl')" using nb True by simp
        from "1.IH"(2) [OF S [symmetric] r(1) refl lt refl] True r(3,4) "1.prems"(3) up show ?thesis
          unfolding eq nb' by blast
      next
        case ne: False
        have eq: "read_loop mx fl sc n res = read_loop mx fl' sc' (n + 1) (res @ [?l])"
          by (subst read_loop.simps) (simp add: S r(1) lt ne Let_def)
        have nb': "nonblank ?p = ?l # nonblank (unread sc' @ fl')" using nb ne by simp
        have m: "nat (mx - n) = Suc (nat (mx - (n + 1)))" using lt by simp
        have "n + 1 \<le> mx" using lt by simp
        from "1.IH"(1) [OF S [symmetric] r(1) refl lt refl ne r(3,4) this] up show ?thesis
          unfolding eq nb' m by (auto simp: add.assoc)
      qed
    next
      case ge: False
      have eq: "read_loop mx fl sc n res = (res, fl')"
        by (subst read_loop.simps) (simp add: S r(1) ge)
      show ?thesis unfolding eq using ge "1.prems"(3) up by auto
    qed
  qed
qed

lemma wl_read_spec:
  assumes "shortLines fl" and "0 \<le> mx"
  shows "fst (wl_read mx fl) = take (nat mx) (nonblank fl)"
    and "int (length (nonblank fl)) < mx \<Longrightarrow> snd (wl_read mx fl) = []"
  using read_loop_spec [OF new_ok [of fl], of 0 mx "[]"] assms by (simp_all add: wl_read_def NewScanner_def)

text \<open>Where the file is short the whole of it is read, whatever the limit.\<close>

lemma wl_read_ahead:
  assumes "shortLines fl" and "fl \<noteq> []" and "length fl \<le> startBufSize" and "0 < mx"
  shows "snd (wl_read mx fl) = []"
proof -
  obtain r fl' sc' where S: "Scan fl NewScanner = (r, fl', sc')" by (cases "Scan fl NewScanner") auto
  have f: "fl' = []" using Scan_reads_ahead [OF assms(3,2)] S by simp
  have u: "unread NewScanner @ fl = fl" by (simp add: NewScanner_def)
  note sp = Scan_spec [OF new_ok, of fl, unfolded u S prod.case]
  from sp assms(1,2) have r: "r = Some (hd (linesOf fl))" "scan_ok fl' sc'" "shortLines (unread sc' @ fl')" by auto
  have end1: "snd (read_loop mx fl' sc' n res) = []" if "n \<le> mx" for n res
    using read_loop_spec [OF r(2,3) that] f by simp
  show ?thesis
    unfolding wl_read_def by (subst read_loop.simps) (use S r(1) assms(4) end1 in \<open>auto simp: Let_def\<close>)
qed

subsection \<open>What a watcher sends\<close>

lemma wl_send_plain:
  assumes "FileInfo wl = Some n" and "findJson E line = []"
  shows "\<exists>p. wl_send E line (wl, out) = Inr (wl, out @ [p]) \<and> lpContent p = line \<and> lpFile p = FileName wl \<and> lpCategory p = Category wl"
  using assms by (simp add: wl_send_def ApplyAppLog_def Let_def)

lemma parseAndSend_plain:
  assumes "FileInfo wl = Some n" and "Words wl = []" and "\<forall>l\<in>set lines. findJson E l = []"
  shows "\<exists>ps. parseAndSend E lines (wl, out) = Inr (wl, out @ ps) \<and> map lpContent ps = lines \<and> list_all (\<lambda>p. lpFile p = FileName wl \<and> lpCategory p = Category wl) ps"
  using assms(3)
proof (induction lines arbitrary: out)
  case (Cons l ls)
  obtain p where p: "wl_send E l (wl, out) = Inr (wl, out @ [p])" "lpContent p = l" "lpFile p = FileName wl" "lpCategory p = Category wl"
    using wl_send_plain [OF assms(1), of E l out] Cons.prems by auto
  from Cons.IH [of "out @ [p]"] Cons.prems obtain ps where "parseAndSend E ls (wl, out @ [p]) = Inr (wl, (out @ [p]) @ ps)" "map lpContent ps = ls"
      "list_all (\<lambda>p. lpFile p = FileName wl \<and> lpCategory p = Category wl) ps" by auto
  with p assms(2) show ?case by (intro exI [of _ "p # ps"]) (simp add: parseAndSend_def wl_sendLine_def andThen_def)
qed (simp add: parseAndSend_def)

lemma wl_process_loop_done: "FilePos wl \<ge> int (length c) \<Longrightarrow> wl_process_loop E k c (wl, out) = Inr (wl, out)"
  by (cases k) simp_all

text \<open>A reading of a file that holds fewer new lines than a reading may return.\<close>

lemma wl_process_loop_all:
  assumes "FileInfo wl = Some n" and "Words wl = []" and "0 \<le> FilePos wl" and "FilePos wl \<le> int (length c)" and "0 < k"
    and "shortLines (drop (nat (FilePos wl)) c)" and "int (length (nonblank (drop (nat (FilePos wl)) c))) < WatchLogLineSize E"
    and "\<forall>l\<in>set (nonblank (drop (nat (FilePos wl)) c)). findJson E l = []"
  shows "\<exists>ps. wl_process_loop E k c (wl, out) = Inr (wl\<lparr>FilePos := int (length c)\<rparr>, out @ ps) \<and> map lpContent ps = nonblank (drop (nat (FilePos wl)) c)"
proof (cases "FilePos wl = int (length c)")
  case True
  then show ?thesis by (simp add: wl_process_loop_done nonblank_def)
next
  case False
  obtain j where k: "k = Suc j" using assms(5) by (cases k) auto
  let ?r = "drop (nat (FilePos wl)) c"
  obtain lines left where rd: "wl_read (WatchLogLineSize E) ?r = (lines, left)" by force
  have "0 \<le> WatchLogLineSize E" using assms(7) by linarith
  note sp = wl_read_spec [OF assms(6) this, unfolded rd]
  have r: "lines = nonblank ?r" "left = []" using sp assms(7) by auto
  let ?w = "wl\<lparr>FilePos := int (length c)\<rparr>"
  obtain ps where ps: "parseAndSend E lines (?w, out) = Inr (?w, out @ ps)" "map lpContent ps = lines"
    using parseAndSend_plain [of ?w n lines E out] assms(1,2,8) r(1) by auto
  have "wl_process_loop E k c (wl, out) = (if lines = [] then Inr (?w, out) else andThen (parseAndSend E lines (?w, out)) (wl_process_loop E j c))"
    using False assms(4) rd r(2) k by (simp add: Let_def)
  then show ?thesis using ps r(1) by (cases "lines = []") (auto simp: andThen_def wl_process_loop_done)
qed

subsection \<open>Following a growing file\<close>

text \<open>The file grows by a chunk, then the watcher runs.\<close>

fun follow :: "watch_env \<Rightarrow> string \<Rightarrow> (string \<times> int) list \<Rightarrow> wl_out \<Rightarrow> wl_res" where
  "follow E c [] wo = Inr wo"
| "follow E c ((chunk, t) # rest) wo =
     andThen (wl_Process E (Some (length (c @ chunk))) (Some (c @ chunk)) t wo) (follow E (c @ chunk) rest)"

fun spaced :: "int \<Rightarrow> int \<Rightarrow> (string \<times> int) list \<Rightarrow> bool" where
  "spaced t0 interval [] \<longleftrightarrow> True"
| "spaced t0 interval ((chunk, t) # rest) \<longleftrightarrow> i64 (t0 + interval) \<le> t \<and> spaced t interval rest"

text \<open>Whole lines, fewer than a reading may return, none too long and none with a header.\<close>

definition plain_chunk :: "watch_env \<Rightarrow> string \<Rightarrow> bool" where
  "plain_chunk E chunk \<longleftrightarrow> (chunk = [] \<or> last chunk = NL) \<and> shortLines chunk \<and> int (length (nonblank chunk)) < WatchLogLineSize E \<and>
     (\<forall>l\<in>set (nonblank chunk). findJson E l = [])"

text \<open>The watcher is where the file ends.\<close>

definition at_end :: "string \<Rightarrow> WatchLog \<Rightarrow> bool" where
  "at_end c wl \<longleftrightarrow> FilePos wl = int (length c) \<and> Words wl = [] \<and> \<not> trxLogFound wl"

lemma wl_Process_chunk:
  assumes "at_end c wl" and "plain_chunk E chunk" and "0 < WatchLogReadCount E" and "i64 (LastCheckTime wl + CheckInterval wl) \<le> t"
  shows "\<exists>wl' ps. wl_Process E (Some (length (c @ chunk))) (Some (c @ chunk)) t (wl, out) = Inr (wl', out @ ps) \<and> map lpContent ps = nonblank chunk \<and>
     at_end (c @ chunk) wl' \<and> LastCheckTime wl' = t \<and> CheckInterval wl' = CheckInterval wl"
proof -
  let ?n = "length (c @ chunk)"
  let ?w = "wl\<lparr>FileInfo := Some ?n, LastCheckTime := t, FileInfo := Some ?n\<rparr>"
  have d: "drop (nat (FilePos ?w)) (c @ chunk) = chunk" using assms(1) by (simp add: at_end_def)
  have "\<exists>ps. wl_process_loop E (nat (WatchLogReadCount E)) (c @ chunk) (?w, out) = Inr (?w\<lparr>FilePos := int ?n\<rparr>, out @ ps) \<and> map lpContent ps = nonblank (drop (nat (FilePos ?w)) (c @ chunk))"
    using assms(1,2,3) by (intro wl_process_loop_all) (simp_all add: at_end_def plain_chunk_def)
  then obtain ps where ps: "wl_process_loop E (nat (WatchLogReadCount E)) (c @ chunk) (?w, out) = Inr (?w\<lparr>FilePos := int ?n\<rparr>, out @ ps)" "map lpContent ps = nonblank chunk"
    unfolding d by blast
  have "wl_Process E (Some ?n) (Some (c @ chunk)) t (wl, out) = Inr (?w\<lparr>FilePos := int ?n\<rparr>, out @ ps)"
    using assms(1,4) ps(1) by (simp add: wl_Process_def wl_process_def at_end_def Let_def)
  then show ?thesis using ps(2) assms(1) by (intro exI [of _ "?w\<lparr>FilePos := int ?n\<rparr>"] exI [of _ ps]) (simp add: at_end_def)
qed


definition watchEnv1 :: watch_env where
  "watchEnv1 = \<lparr>WatchLogReadCount = 3, WatchLogLineSize = 2, LogSendThreshold = 500, TxIdTag = ''@txid'', AppLogCategory = ''AppLog'', findJson = (\<lambda>_. []), unmarshal = (\<lambda>_. None), baseName = (\<lambda>s. s)\<rparr>"

definition watchLog1 :: WatchLog where
  "watchLog1 = (NewWatchLog watchEnv1 ''/log'')\<lparr>Activated := True, FileName := ''/log''\<rparr>"


subsection \<open>Where lines are lost\<close>

text \<open>The position of the file after a reading is that of the scanner, which has read ahead. With more new lines than a reading may
  return, in at most 4096 bytes, those over the limit are dropped: the watcher sends the first \<open>WatchLogLineSize\<close> lines and
  stands at the end of the file, so no later run sends the others.\<close>

theorem lines_over_limit_lost:
  assumes "Words wl = []" and "\<not> trxLogFound wl" and "0 \<le> FilePos wl" and "FilePos wl < int (length c)" and "0 < WatchLogReadCount E" and "0 < WatchLogLineSize E"
    and "i64 (LastCheckTime wl + CheckInterval wl) \<le> t" and "shortLines (drop (nat (FilePos wl)) c)" and "length (drop (nat (FilePos wl)) c) \<le> startBufSize"
    and "\<forall>l\<in>set (nonblank (drop (nat (FilePos wl)) c)). findJson E l = []"
  shows "\<exists>wl' ps. wl_Process E (Some (length c)) (Some c) t (wl, out) = Inr (wl', out @ ps) \<and> FilePos wl' = int (length c) \<and>
     map lpContent ps = take (nat (WatchLogLineSize E)) (nonblank (drop (nat (FilePos wl)) c))"
proof -
  let ?r = "drop (nat (FilePos wl)) c"
  let ?n = "length c"
  let ?w = "wl\<lparr>FileInfo := Some ?n, LastCheckTime := t, FileInfo := Some ?n, FilePos := int ?n\<rparr>"
  obtain j where k: "nat (WatchLogReadCount E) = Suc j" using assms(5) by (cases "nat (WatchLogReadCount E)") auto
  obtain lines left where rd: "wl_read (WatchLogLineSize E) ?r = (lines, left)" by force
  have r: "lines = take (nat (WatchLogLineSize E)) (nonblank ?r)" using wl_read_spec(1) [OF assms(8), of "WatchLogLineSize E"] assms(6) rd by simp
  have "?r \<noteq> []" using assms(3,4) by simp
  then have left: "left = []" using wl_read_ahead [OF assms(8) _ assms(9,6)] rd by simp
  have js: "\<forall>l\<in>set lines. findJson E l = []" unfolding r using assms(10) in_set_takeD [of _ "nat (WatchLogLineSize E)" "nonblank ?r"] by blast
  obtain ps where ps: "parseAndSend E lines (?w, out) = Inr (?w, out @ ps)" "map lpContent ps = lines"
    using parseAndSend_plain [of ?w ?n lines E out] assms(1) js by auto
  have "wl_process_loop E (nat (WatchLogReadCount E)) c (wl\<lparr>FileInfo := Some ?n, LastCheckTime := t, FileInfo := Some ?n\<rparr>, out) = Inr (?w, out @ ps)"
    using assms(4) rd left ps by (auto simp: k Let_def andThen_def wl_process_loop_done)
  then have "wl_Process E (Some ?n) (Some c) t (wl, out) = Inr (?w, out @ ps)"
    using assms(2-4,7) by (simp add: wl_Process_def wl_process_def Let_def)
  then show ?thesis using ps(2) r by (intro exI [of _ ?w] exI [of _ ps]) simp
qed

theorem lines_over_limit_lost_witness:
  "\<exists>wl' ps. wl_Process watchEnv1 (Some 6) (Some [CHR ''a'', NL, CHR ''b'', NL, CHR ''c'', NL]) 0 (watchLog1, []) = Inr (wl', ps) \<and> FilePos wl' = 6 \<and>
     map lpContent ps = [''a'', ''b'']"
proof -
  let ?c = "[CHR ''a'', NL, CHR ''b'', NL, CHR ''c'', NL]"
  have nb: "nonblank ?c = [''a'', ''b'', ''c'']" by code_simp
  have z: "FilePos watchLog1 = 0" "LastCheckTime watchLog1 = 0" "CheckInterval watchLog1 = 0" "Words watchLog1 = []" "\<not> trxLogFound watchLog1"
    by (simp_all add: watchLog1_def NewWatchLog_def)
  have "\<exists>wl' ps. wl_Process watchEnv1 (Some (length ?c)) (Some ?c) 0 (watchLog1, []) = Inr (wl', [] @ ps) \<and> FilePos wl' = int (length ?c) \<and>
     map lpContent ps = take (nat (WatchLogLineSize watchEnv1)) (nonblank (drop (nat (FilePos watchLog1)) ?c))"
    by (rule lines_over_limit_lost) (use z nb in \<open>simp_all add: watchEnv1_def shortLines_def maxTokenSize_def startBufSize_def\<close>)
  moreover have "length ?c = 6" by simp
  ultimately show ?thesis using z nb by (simp only: ) (simp add: watchEnv1_def)
qed

text \<open>A watcher that has seen a header reads records of several lines; if it is reset in that state it is stuck, whatever the file does.\<close>

lemma reset_stuck:
  assumes "trxLogFound wl"
  shows "wl_Process E stat opened t (wl_Reset wl, out) = Inr (wl_Reset wl, out)"
  using assms by (auto simp: wl_Process_def processMultilineLogs_def wl_Reset_def Let_def split: option.splits)

text \<open>A file that has become shorter: reading single lines the watcher moves to the new end and skips what the file holds, reading
  records it starts over.\<close>

lemma truncated_skipped:
  assumes "\<not> trxLogFound wl" and "int n < FilePos wl" and "i64 (LastCheckTime wl + CheckInterval wl) \<le> t"
  shows "wl_Process E (Some n) opened t (wl, out) = Inr (wl\<lparr>FileInfo := Some n, LastCheckTime := t, FilePos := int n\<rparr>, out)"
  using assms by (auto simp: wl_Process_def wl_process_def Let_def)

lemma truncated_restarts:
  assumes "trxLogFound wl" and "int n < FilePos wl" and "n \<noteq> 0"
  shows "wl_Process E (Some n) opened t (wl, out) = wl_Process E (Some n) opened t (wl\<lparr>FilePos := 0\<rparr>, out)"
  using assms by (auto simp: wl_Process_def processMultilineLogs_def Let_def)

subsection \<open>The watchers after a change of the configuration\<close>

lemma onDog_other [simp]: "i \<noteq> j \<Longrightarrow> dogs (onDog i f m) j = dogs m j"
  by (simp add: onDog_def)

lemma wm_Add_other: "i \<noteq> j \<Longrightarrow> dogs (wm_Add E W i fn cat ws iv m) j = dogs m j"
  by (simp add: wm_Add_def Let_def)

lemma resetSinkFile_other: "sinkId W fn \<noteq> j \<Longrightarrow> dogs (resetSinkFile E conf W r fn m) j = dogs m j"
  by (simp add: resetSinkFile_def Let_def wm_Add_other)

text \<open>What a watcher must keep: it is active, at its position.\<close>

definition dog_at :: "int \<Rightarrow> WatchLog option \<Rightarrow> bool" where
  "dog_at p d \<longleftrightarrow> (\<exists>dog. d = Some dog \<and> Activated dog \<and> FilePos dog = p)"

lemma resetSinkFile_keeps:
  assumes "dog_at p (dogs m j)"
  shows "dog_at p (dogs (resetSinkFile E conf W False fn m) j)"
proof (cases "sinkId W fn = j")
  case True
  obtain dog where "dogs m j = Some dog" "Activated dog" "FilePos dog = p" using assms by (auto simp: dog_at_def)
  with True show ?thesis
    by (auto simp: dog_at_def resetSinkFile_def Let_def onDog_def wm_Add_def wl_Config_def wl_Activate_def)
next
  case False
  then show ?thesis using assms by (simp add: resetSinkFile_other)
qed

lemma fold_resetSinkFile_keeps: "dog_at p (dogs m j) \<Longrightarrow> dog_at p (dogs (fold (resetSinkFile E conf W False) fs m) j)"
  by (induction fs arbitrary: m) (simp_all add: resetSinkFile_keeps)

text \<open>The configured files are those that are watched after a reload, and a file that was being watched is followed from where it was.\<close>

lemma resetSinkFile_watched: "fn \<noteq> [] \<Longrightarrow> sinkId W fn \<in> dom (dogs (resetSinkFile E conf W r fn m))"
  by (simp add: resetSinkFile_def Let_def onDog_def wm_Add_def)

lemma resetSinkFile_dom: "dom (dogs m) \<subseteq> dom (dogs (resetSinkFile E conf W r fn m))"
  by (auto simp: resetSinkFile_def Let_def onDog_def wm_Add_def)

lemma fold_resetSinkFile_dom: "dom (dogs m) \<subseteq> dom (dogs (fold (resetSinkFile E conf W r) fs m))"
  by (induction fs arbitrary: m) (simp, metis fold_simps(2) order_trans resetSinkFile_dom)

lemma fold_resetSinkFile_watched: "fn \<in> set fs \<Longrightarrow> fn \<noteq> [] \<Longrightarrow> sinkId W fn \<in> dom (dogs (fold (resetSinkFile E conf W r) fs m))"
proof (induction fs arbitrary: m)
  case (Cons f fs)
  show ?case
  proof (cases "fn = f")
    case True
    then show ?thesis using resetSinkFile_watched [OF Cons.prems(2)] fold_resetSinkFile_dom by fastforce
  next
    case False
    then show ?thesis using Cons by simp
  qed
qed simp

theorem reload_keeps_positions:
  assumes "LogSinkFiles conf \<noteq> []" and "watchEnabled m = WatchLogEnabled conf" and "\<forall>f\<in>set (LogSinkFiles conf). TrimSpace f \<noteq> []"
  shows "dom (dogs (wm_Run E conf W m)) = sinkId W ` TrimSpace ` set (LogSinkFiles conf) \<and>
     (\<forall>i p. i \<in> sinkId W ` TrimSpace ` set (LogSinkFiles conf) \<longrightarrow> dog_at p (dogs m i) \<longrightarrow> dog_at p (dogs (wm_Run E conf W m) i))"
proof -
  let ?fs = "sort (map TrimSpace (LogSinkFiles conf))"
  let ?m = "fold (resetSinkFile E conf W False) ?fs m"
  have ne: "?fs \<noteq> []" using assms(1) by (metis length_0_conv length_map length_sort)
  have ids: "set (map (sinkId W) ?fs) = sinkId W ` TrimSpace ` set (LogSinkFiles conf)" by (simp add: image_image)
  have run: "dogs (wm_Run E conf W m) = dogs ?m |` set (map (sinkId W) ?fs)"
    using ne assms(1,2) by (simp add: wm_Run_def resetDogList_def Let_def)
  have "set (map (sinkId W) ?fs) \<subseteq> dom (dogs ?m)"
    using assms(3) fold_resetSinkFile_watched [of _ ?fs W E conf False m] by auto
  then have 1: "dom (dogs (wm_Run E conf W m)) = set (map (sinkId W) ?fs)" unfolding run by (auto simp: dom_def restrict_map_def)
  have 2: "dog_at p (dogs (wm_Run E conf W m) i)" if "i \<in> set (map (sinkId W) ?fs)" "dog_at p (dogs m i)" for i p
    using fold_resetSinkFile_keeps [OF that(2), of E conf W ?fs] that(1) unfolding run by (simp add: restrict_map_def)
  show ?thesis using 1 2 unfolding ids by blast
qed

definition watchConf1 :: watch_conf where
  "watchConf1 = \<lparr>WatchLogEnabled = True, LogSinkFiles = ['' /b'', ''/a''], LogSinkInterval = 1000, LogSinkStopInterval = 0, wcIds = [], wcEnabled = (\<lambda>_. False),
     wcFile = (\<lambda>_. []), wcWords = (\<lambda>_. []), wcInterval = (\<lambda>_. 0)\<rparr>"

definition watchWorld1 :: watch_world where
  "watchWorld1 = \<lparr>statOf = (\<lambda>_. Some 100), openOf = (\<lambda>_. None), strftime = (\<lambda>s. Some s), unixMilli = 0\<rparr>"

definition watchManager1 :: WatchLogManager where
  "watchManager1 = \<lparr>watchEnabled = True, dogs = [''/a'' \<mapsto> watchLog1\<lparr>FilePos := 7\<rparr>, ''/z'' \<mapsto> watchLog1], dateFormatFiles = Map.empty\<rparr>"

theorem reload_keeps_positions_witness:
  "dom (dogs (wm_Run watchEnv1 watchConf1 watchWorld1 watchManager1)) = {''/a'', ''/b''} \<and> dog_at 7 (dogs (wm_Run watchEnv1 watchConf1 watchWorld1 watchManager1) ''/a'')"
proof -
  have ts: "TrimSpace '' /b'' = ''/b''" "TrimSpace ''/a'' = ''/a''" by code_simp+
  have s: "sinkId watchWorld1 ` TrimSpace ` set (LogSinkFiles watchConf1) = {''/a'', ''/b''}" by (auto simp: watchConf1_def watchWorld1_def ts sinkId_def)
  have c: "LogSinkFiles watchConf1 \<noteq> []" "watchEnabled watchManager1 = WatchLogEnabled watchConf1" "\<forall>f\<in>set (LogSinkFiles watchConf1). TrimSpace f \<noteq> []"
    by (simp_all add: watchConf1_def watchManager1_def ts)
  have d: "dog_at 7 (dogs watchManager1 ''/a'')" by (simp add: dog_at_def watchManager1_def watchLog1_def)
  note k = reload_keeps_positions [OF c, of watchEnv1 watchWorld1, unfolded s]
  show ?thesis using conjunct1 [OF k] conjunct2 [OF k, rule_format, OF _ d] by simp
qed

text \<open>The files of the \<^verbatim>\<open>watchlog.<id>\<close> keys get a new watcher at every reload: it stands at the end of the file wherever the old one was.\<close>

lemma resetWatchId_at_end:
  assumes "wcFile conf i \<noteq> []" and "wcEnabled conf i" and "statOf W (wcFile conf i) = Some n"
  shows "\<exists>d. dogs (resetWatchId E conf W r i m) i = Some d \<and> FilePos d = int n"
  using assms by (simp add: resetWatchId_def Let_def wl_Activate_def NewWatchLog_def wl_Config_def wl_Reset_def)

end
