(* ===== verification/Config_Values.thy ===== *)
theory Config_Values
  imports Go_Std
begin

text \<open>
  The settings of the agent (\<^verbatim>\<open>Config.go\<close> and the \<^verbatim>\<open>Conf*.go\<close> files of \<^verbatim>\<open>agent/agent/config\<close>): how a value is looked up in the
  environment and in the loaded file, how it is read as a number, a switch or a set, and the parts of \<open>apply\<close> that
  combine or bound values. The properties that are loaded are a map; the environment is a function that is empty
  where a variable is not set, as \<^verbatim>\<open>os.Getenv\<close> is. The functions of golib that are used (\<open>Tokenizer\<close>, the two hash
  functions, \<open>TrimEmpty\<close>, \<open>IsNotEmpty\<close>, \<open>TruncateRune\<close>) are fields of \<open>conf_lib\<close>, and the upper case of text that is not ASCII as well.
  The numbers of the application types are those of golib: they are constructors here. Log lines are left out.
\<close>

datatype app_type =
    APP_TYPE_PHP | APP_TYPE_BSM_PHP | APP_TYPE_BSM_PYTHON | APP_TYPE_DOTNET | APP_TYPE_BSM_DOTNET | APP_TYPE_GO | APP_TYPE_BSM_GO | OtherApp int

record conf_lib =
  Tokenizer :: "string \<Rightarrow> string \<Rightarrow> string list"
  HashStr :: "string \<Rightarrow> int"
  HashCode :: "string \<Rightarrow> int"
  TrimEmpty :: "string \<Rightarrow> string"
  IsNotEmpty :: "string \<Rightarrow> bool"
  TruncateRune :: "string \<Rightarrow> int \<Rightarrow> string"
  upperUni :: "string \<Rightarrow> string"

record conf_src =
  getenv :: "string \<Rightarrow> string"
  props :: "string \<rightharpoonup> string"
  AppType :: app_type
  UseEnvFirst :: bool

definition envKeys :: "(string \<times> string) list" where
  "envKeys =
     [(''accesskey'', ''WHATAP_ACCESSKEY''), (''license'', ''WHATAP_LICENSE''), (''object_name'', ''WHATAP_OBJECT_NAME''),
      (''whatap.name'', ''WHATAP_NAME''), (''whatap.oname'', ''WHATAP_ONAME''), (''whatap.okind'', ''WHATAP_OKIND''), (''whatap.onode'', ''WHATAP_ONODE''),
      (''whatap.server.host'', ''WHATAP_SERVER_HOST''), (''whatap.server.port'', ''WHATAP_SERVER_PORT''), (''net_ipc_port'', ''WHATAP_NET_IPC_PORT''),
      (''net_udp_port'', ''WHATAP_NET_UDP_PORT''), (''otel_grpc_server_port'', ''WHATAP_OTEL_GRPC_SERVER_PORT''), (''use_env_first'', ''WHATAP_USE_ENV_FIRST''),
      (''llm_enabled'', ''WHATAP_LLM_ENABLED''), (''llm_accesskey'', ''WHATAP_LLM_ACCESSKEY''), (''llm_license'', ''WHATAP_LLM_LICENSE''),
      (''llm.whatap.server.host'', ''WHATAP_LLM_SERVER_HOST'')]"

subsection \<open>Looking up a value\<close>

definition prefixedKey :: "app_type \<Rightarrow> string \<Rightarrow> string" where
  "prefixedKey t k =
     (if t = APP_TYPE_PHP then (if HasPrefix k ''whatap.'' then k else ''whatap.'' @ k)
      else if t = APP_TYPE_BSM_PHP then (if HasPrefix k ''opsnowbsm.'' then k else ''opsnowbsm.'' @ k)
      else k)"

definition envValue :: "conf_src \<Rightarrow> string \<Rightarrow> string" where
  "envValue S k =
     (if getenv S k = [] then (case map_of envKeys k of Some v \<Rightarrow> TrimSpace (getenv S v) | None \<Rightarrow> []) else getenv S k)"

definition getValue :: "conf_src \<Rightarrow> string \<Rightarrow> string" where
  "getValue S k =
     (let envVal = envValue S k in
      if UseEnvFirst S \<and> envVal \<noteq> [] then envVal
      else (case props S (prefixedKey (AppType S) k) of
              None \<Rightarrow> TrimSpace envVal
            | Some value \<Rightarrow> if TrimSpace value = [] then TrimSpace envVal else TrimSpace value))"

definition getValueDef :: "conf_src \<Rightarrow> string \<Rightarrow> string \<Rightarrow> string" where
  "getValueDef S k def = (let v = getValue S k in if v = [] then def else v)"

text \<open>\<open>strconv.ParseBool\<close>, and \<open>strconv.ParseInt\<close> in base 10 for 32 and 64 bits.\<close>

definition ParseBool :: "string \<Rightarrow> bool option" where
  "ParseBool s =
     (if s \<in> set [''1'', ''t'', ''T'', ''TRUE'', ''true'', ''True''] then Some True
      else if s \<in> set [''0'', ''f'', ''F'', ''FALSE'', ''false'', ''False''] then Some False
      else None)"

definition ParseInt :: "nat \<Rightarrow> string \<Rightarrow> int option" where
  "ParseInt bits s = (case Atoi s of Some n \<Rightarrow> if - (2 ^ (bits - 1)) \<le> n \<and> n < 2 ^ (bits - 1) then Some n else None | None \<Rightarrow> None)"

definition getBoolean :: "conf_src \<Rightarrow> string \<Rightarrow> bool \<Rightarrow> bool" where
  "getBoolean S k def = (let v = getValue S k in if v = [] then def else case ParseBool v of Some b \<Rightarrow> b | None \<Rightarrow> def)"

definition getInt :: "conf_src \<Rightarrow> string \<Rightarrow> int \<Rightarrow> int" where
  "getInt S k def = (let v = getValue S k in if v = [] then i32 def else case ParseInt 32 v of Some n \<Rightarrow> n | None \<Rightarrow> i32 def)"

definition getLong :: "conf_src \<Rightarrow> string \<Rightarrow> int \<Rightarrow> int" where
  "getLong S k def = (let v = getValue S k in if v = [] then def else case ParseInt 64 v of Some n \<Rightarrow> n | None \<Rightarrow> def)"

definition getStringArray :: "conf_lib \<Rightarrow> conf_src \<Rightarrow> string \<Rightarrow> string \<Rightarrow> string list" where
  "getStringArray L S k deli = (let v = getValue S k in if v = [] then [] else map TrimSpace (Tokenizer L v deli))"

definition getStringArrayDef :: "conf_lib \<Rightarrow> conf_src \<Rightarrow> string \<Rightarrow> string \<Rightarrow> string \<Rightarrow> string list" where
  "getStringArrayDef L S k deli def = (let v = getValueDef S k def in if v = [] then [] else map TrimSpace (Tokenizer L v deli))"

subsection \<open>Sets\<close>

text \<open>The value that \<open>strconv.Atoi\<close> returns together with an error: 0, or the nearest number if the text is one that is too large.\<close>

definition AtoiOnError :: "string \<Rightarrow> int" where
  "AtoiOnError s =
     (let neg = (s \<noteq> [] \<and> hd s = CHR ''-''); digits = (if s \<noteq> [] \<and> (hd s = CHR ''-'' \<or> hd s = CHR ''+'') then tl s else s) in
      if digits = [] then 0
      else (case parseAcc 10 0 digits of None \<Rightarrow> 0 | Some n \<Rightarrow> if neg then - (2 ^ 63) else 2 ^ 63 - 1))"

definition GetIntSet :: "conf_lib \<Rightarrow> conf_src \<Rightarrow> string \<Rightarrow> string \<Rightarrow> string \<Rightarrow> int set" where
  "GetIntSet L S k def deli =
     fold (\<lambda>x st. let s = TrimEmpty L x in if Atoi s = None then insert (i32 (AtoiOnError s)) st else st)
       (Tokenizer L (getValueDef S k def) deli) {}"

definition GetStringHashSet :: "conf_lib \<Rightarrow> conf_src \<Rightarrow> string \<Rightarrow> string \<Rightarrow> string \<Rightarrow> int set" where
  "GetStringHashSet L S k def deli = fold (\<lambda>x. insert (HashStr L (TrimEmpty L x))) (Tokenizer L (getValueDef S k def) deli) {}"

definition GetStringHashCodeSet :: "conf_lib \<Rightarrow> conf_src \<Rightarrow> string \<Rightarrow> string \<Rightarrow> string \<Rightarrow> int set" where
  "GetStringHashCodeSet L S k def deli = fold (\<lambda>x. insert (i32 (HashCode L (TrimEmpty L x)))) (Tokenizer L (getValueDef S k def) deli) {}"

text \<open>\<open>strings.Split\<close> at a single character.\<close>

fun SplitAt :: "char \<Rightarrow> string \<Rightarrow> string list" where
  "SplitAt c [] = [[]]"
| "SplitAt c (x # xs) = (if x = c then [] # SplitAt c xs else (case SplitAt c xs of [] \<Rightarrow> [[x]] | p # ps \<Rightarrow> (x # p) # ps))"

definition toHashSet :: "conf_lib \<Rightarrow> conf_src \<Rightarrow> string \<Rightarrow> string \<Rightarrow> int set" where
  "toHashSet L S k def =
     fold (\<lambda>x st. let s = TrimSpace x in if length s > 0 then insert (HashStr L s) st else st) (SplitAt CHR '','' (getValueDef S k def)) {}"

definition toStringSet :: "conf_src \<Rightarrow> string \<Rightarrow> string \<Rightarrow> string set" where
  "toStringSet S k def =
     fold (\<lambda>x st. let s = TrimSpace x in if length s > 0 then insert s st else st) (SplitAt CHR '','' (getValueDef S k def)) {}"

definition ToUpper :: "(string \<Rightarrow> string) \<Rightarrow> string \<Rightarrow> string" where
  "ToUpper uni s = (if list_all (\<lambda>c. (of_char c :: nat) < 128) s then map asciiUpper s else uni s)"

definition InArray :: "conf_lib \<Rightarrow> string \<Rightarrow> string list \<Rightarrow> bool" where
  "InArray L str xs = list_ex (\<lambda>it. ToUpper (upperUni L) (TrimSpace str) = ToUpper (upperUni L) (TrimSpace it)) xs"

definition InArrayCaseSensitive :: "string \<Rightarrow> string list \<Rightarrow> bool" where
  "InArrayCaseSensitive str xs = list_ex (\<lambda>it. TrimSpace str = TrimSpace it) xs"

text \<open>\<open>strings.LastIndex\<close> and \<open>cutOut\<close>.\<close>

fun LastIndex :: "string \<Rightarrow> string \<Rightarrow> int" where
  "LastIndex [] p = (if p = [] then 0 else -1)"
| "LastIndex (c # cs) p = (let i = LastIndex cs p in if i \<ge> 0 then i + 1 else if HasPrefix (c # cs) p then 0 else -1)"

definition cutOut :: "string \<Rightarrow> string \<Rightarrow> string" where
  "cutOut val delim = (if val = [] then val else let x = LastIndex val delim in if x \<le> 0 then [] else take (nat x) val)"

subsection \<open>Keys with a prefix\<close>

definition SearchKey :: "conf_src \<Rightarrow> string \<Rightarrow> (string \<rightharpoonup> string)" where
  "SearchKey S p = (\<lambda>k. if HasPrefix k p then props S k else None)"

definition FilterPrefix :: "conf_src \<Rightarrow> string \<Rightarrow> (string \<rightharpoonup> string)" where
  "FilterPrefix S p = (\<lambda>k. if HasPrefix k (prefixedKey (AppType S) p) then props S k else None)"

end
