(* ===== verification/Config_Apply.thy ===== *)
theory Config_Apply
  imports Config_Values
begin

text \<open>
  What \<open>apply\<close> makes of the values (\<^verbatim>\<open>Config.go\<close> and the \<^verbatim>\<open>Conf*.go\<close> files). Every file of \<^verbatim>\<open>Conf*.go\<close> is a record with its \<open>Apply\<close>;
  of the large \<open>Config\<close> the groups whose settings are combined, bounded or switched off together are modelled, each as
  a record with the function that reads it. The remaining fields of \<open>Config\<close> are read one by one with \<open>getBoolean\<close>,
  \<open>getInt\<close>, \<open>getLong\<close>, \<open>getFloat\<close> and \<open>getValueDef\<close>.
\<close>

subsection \<open>Main settings\<close>

record ConfLLM =
  LLMMode :: bool
  LLMAccessKey :: string
  LLMWhatapHost :: "string list"

record ConfMain =
  License :: string
  AccessKey :: string
  WhatapHost :: "string list"
  WhatapPort :: int
  ObjectName :: string
  AppName :: string
  AppProcessName :: string
  Shutdown :: bool
  Enabled :: bool
  TransactionEnabled :: bool
  CounterEnabled :: bool
  CounterVersion :: int
  CounterTimeout :: int

definition ConfLLM_Load :: "conf_lib \<Rightarrow> conf_src \<Rightarrow> ConfLLM" where
  "ConfLLM_Load L S =
     \<lparr>LLMMode = getBoolean S ''llm_enabled'' False,
      LLMAccessKey = (if TrimSpace (getValue S ''llm_accesskey'') = [] then getValue S ''llm_license'' else getValue S ''llm_accesskey''),
      LLMWhatapHost = getStringArray L S ''llm.whatap.server.host'' ''/:,''\<rparr>"

definition ApplyChannelOverride :: "ConfLLM \<Rightarrow> ConfMain \<Rightarrow> ConfMain" where
  "ApplyChannelOverride llm c =
     (if \<not> LLMMode llm then c
      else (let c1 = (if TrimSpace (LLMAccessKey llm) \<noteq> [] then c\<lparr>AccessKey := LLMAccessKey llm, License := LLMAccessKey llm\<rparr> else c) in
            if LLMWhatapHost llm \<noteq> [] then c1\<lparr>WhatapHost := LLMWhatapHost llm\<rparr> else c1))"

definition ConfLLM_Apply :: "conf_lib \<Rightarrow> conf_src \<Rightarrow> ConfMain \<Rightarrow> ConfMain" where
  "ConfLLM_Apply L S c = ApplyChannelOverride (ConfLLM_Load L S) c"

text \<open>The switch \<open>use_env_first\<close> is itself read from the environment first.\<close>

definition withEnvFirst :: "conf_src \<Rightarrow> conf_src" where
  "withEnvFirst S = S\<lparr>UseEnvFirst := getBoolean (S\<lparr>UseEnvFirst := True\<rparr>) ''use_env_first'' False\<rparr>"

definition boundTimeout :: "int \<Rightarrow> int" where
  "boundTimeout t = (if t \<le> 0 then 0 else min (if t < 1000 then 1000 else t) 4000)"

definition defaultObjectName :: "app_type \<Rightarrow> string" where
  "defaultObjectName t =
     (if t = APP_TYPE_PHP then ''{type}-{ip2}-{ip3}-{process}-{docker}-{ips}''
      else if t = APP_TYPE_BSM_PHP then ''BSM-{type}-{ip2}-{ip3}-{process}-{docker}''
      else if t = APP_TYPE_GO then ''{type}-{ip2}-{ip3}-{cmd}-{cmd_full}''
      else ''{type}-{ip2}-{ip3}-{process}'')"

definition apply_main :: "conf_lib \<Rightarrow> conf_src \<Rightarrow> ConfMain" where
  "apply_main L S =
     (let lic = getValue S ''license'';
          key1 = getValue S ''accesskey'';
          bsm = (AppType S = APP_TYPE_BSM_PHP \<or> AppType S = APP_TYPE_BSM_PYTHON);
          host = getStringArray L S (if bsm then ''opsnowbsm.server.host'' else ''whatap.server.host'') ''/:,'';
          port = getInt S (if bsm then ''opsnowbsm.server.port'' else ''whatap.server.port'') 6600;
          whatapName = getValueDef S ''whatap.name'' [];
          objectName = getValueDef S ''object_name'' (defaultObjectName (AppType S));
          stop = getBoolean S ''shutdown'' False;
          on = (\<not> stop \<and> getBoolean S ''enabled'' True) in
      ConfLLM_Apply L S
        \<lparr>License = lic,
         AccessKey = (if TrimSpace key1 = [] \<and> \<not> TrimSpace lic = [] then lic else key1),
         WhatapHost = host, WhatapPort = port,
         ObjectName = (if TrimSpace whatapName \<noteq> [] then whatapName else objectName),
         AppName = TruncateRune L (getValueDef S ''app_name'' ''GO'') 50,
         AppProcessName = getValue S ''app_process_name'',
         Shutdown = stop, Enabled = on,
         TransactionEnabled = (on \<and> getBoolean S ''transaction_enabled'' True),
         CounterEnabled = (on \<and> getBoolean S ''counter_enabled'' True),
         CounterVersion = getInt S ''counter_version'' 2 mod 256,
         CounterTimeout = boundTimeout (getInt S ''counter_timeout'' 0)\<rparr>)"

record ConfCounter =
  CounterEnabledTranx :: bool
  CounterEnabledAct :: bool
  CounterEnabledUser :: bool
  CounterEnabledHttpc :: bool
  CounterEnabledSql :: bool
  CounterEnabledAgentInfo :: bool
  CounterEnabledHeap :: bool
  CounterEnabledProc :: bool
  CounterEnabledPackVer :: bool
  CounterEnabledSysPerfKube :: bool
  CounterEnabledSysPerf :: bool
  CounterEnabledActiveStats :: bool
  CounterEnabledDBPool :: bool

definition apply_counter :: "conf_src \<Rightarrow> bool \<Rightarrow> ConfCounter" where
  "apply_counter S enabled =
     \<lparr>CounterEnabledTranx = (enabled \<and> getBoolean S ''_counter_enabled_tranx'' True),
      CounterEnabledAct = (enabled \<and> getBoolean S ''_counter_enabled_act'' True),
      CounterEnabledUser = (enabled \<and> getBoolean S ''_counter_enabled_user'' True),
      CounterEnabledHttpc = (enabled \<and> getBoolean S ''_counter_enabled_httpc'' True),
      CounterEnabledSql = (enabled \<and> getBoolean S ''_counter_enabled_sql'' True),
      CounterEnabledAgentInfo = (enabled \<and> getBoolean S ''_counter_enabled_agentinfo'' True),
      CounterEnabledHeap = (enabled \<and> getBoolean S ''_counter_enabled_heap'' True),
      CounterEnabledProc = (enabled \<and> getBoolean S ''_counter_enabled_proc'' True),
      CounterEnabledPackVer = (enabled \<and> getBoolean S ''_counter_enabled_pack_ver'' True),
      CounterEnabledSysPerfKube = (enabled \<and> getBoolean S ''_counter_enabled_sys_perf_kube'' True),
      CounterEnabledSysPerf = (enabled \<and> getBoolean S ''_counter_enabled_sys_perf'' True),
      CounterEnabledActiveStats = (enabled \<and> getBoolean S ''_counter_enabled_act_stat'' True),
      CounterEnabledDBPool = (enabled \<and> getBoolean S ''_counter_enabled_db_pool'' True)\<rparr>"

subsection \<open>Names of the pod and the node\<close>

record ConfNames =
  PodName :: string
  EnvOKind :: string
  WhatapMicroEnabled :: bool
  OKIND_NAME :: string
  OKIND :: int
  ONODE_NAME :: string
  ONODE :: int

definition apply_names :: "conf_lib \<Rightarrow> conf_src \<Rightarrow> ConfNames" where
  "apply_names L S =
     (let pod = (if length (getenv S ''POD_NAME'') < 1 then getenv S ''PODNAME'' else getenv S ''POD_NAME'');
          kind = getenv S ''OKIND'';
          podName = (if TrimSpace kind = [] then cutOut pod ''-'' else TrimSpace kind);
          okind = getValueDef S ''whatap.okind'' podName;
          onode0 = getValueDef S ''whatap.onode'' (getenv S ''NODE_NAME'');
          onode = (if length onode0 < 1 then getenv S ''NODE_IP'' else onode0) in
      \<lparr>PodName = pod, EnvOKind = kind, WhatapMicroEnabled = (length pod > 0),
       OKIND_NAME = okind, OKIND = (if okind = [] then 0 else HashStr L okind),
       ONODE_NAME = onode, ONODE = (if onode = [] then 0 else HashStr L onode)\<rparr>)"

subsection \<open>Profiles\<close>

record ConfProfileStep =
  ProfileStepNormalCount :: int
  ProfileStepHeavyCount :: int
  ProfileStepMaxCount :: int
  ProfileStepHeavyTime :: int
  ProfileBasetime :: int
  TraceSqlNormalizeEnabled :: bool
  ProfileSqlParamEnabled :: bool
  ProfileSqlResourceEnabled :: bool
  ProfileSqlCommentEnabled :: bool
  ProfileMethodResourceEnabled :: bool
  ProfileHttpcResourceEnabled :: bool
  ProfilePositionSql :: string
  ProfilePositionSqlHash :: int
  ProfilePositionHttpc :: string
  ProfilePositionHttpcHash :: int
  ProfilePositionMethod :: string
  ProfilePositionMethodHash :: int
  ProfilePositionDepth :: int

definition positionHash :: "conf_lib \<Rightarrow> conf_src \<Rightarrow> string \<Rightarrow> string \<Rightarrow> int" where
  "positionHash L S hashKey nameKey = (if length (getValue S nameKey) > 0 then HashStr L (getValue S nameKey) else getInt S hashKey 0)"

definition apply_profile :: "conf_lib \<Rightarrow> conf_src \<Rightarrow> ConfProfileStep" where
  "apply_profile L S =
     (let maxc = getInt S ''profile_step_max_count'' 1024;
          heavy = min (getInt S ''profile_step_heavy_count'' 1000) maxc in
      \<lparr>ProfileStepNormalCount = min (getInt S ''profile_step_normal_count'' 800) heavy, ProfileStepHeavyCount = heavy, ProfileStepMaxCount = maxc,
       ProfileStepHeavyTime = getInt S ''profile_step_heavy_time'' 100, ProfileBasetime = getInt S ''profile_basetime'' 500,
       TraceSqlNormalizeEnabled = True,
       ProfileSqlParamEnabled = getBoolean S ''profile_sql_param_enabled'' False,
       ProfileSqlResourceEnabled = getBoolean S ''profile_sql_resource_enabled'' False,
       ProfileSqlCommentEnabled = getBoolean S ''profile_sql_comment_enabled'' False,
       ProfileMethodResourceEnabled = getBoolean S ''profile_method_resource_enabled'' False,
       ProfileHttpcResourceEnabled = getBoolean S ''profile_httpc_resource_enabled'' False,
       ProfilePositionSql = getValue S ''profile_position_sql'',
       ProfilePositionSqlHash = positionHash L S ''_profile_position_sql_hash'' ''profile_position_sql'',
       ProfilePositionHttpc = getValue S ''profile_position_httpc'',
       ProfilePositionHttpcHash = positionHash L S ''_profile_position_httpc_hash'' ''profile_position_httpc'',
       ProfilePositionMethod = getValue S ''profile_position_method'',
       ProfilePositionMethodHash = positionHash L S ''_profile_position_method_hash'' ''profile_position_method'',
       ProfilePositionDepth = getInt S ''profile_position_depth'' 50\<rparr>)"

subsection \<open>Users, distributed traces, meters, ignored calls and events\<close>

record ConfUser =
  TraceUserEnabled :: bool
  TraceUserUsingIp :: bool
  TraceUserHeaderTicket :: string
  TraceUserHeaderTicketEnabled :: bool
  TraceUserSetCookie :: bool
  TraceUserCookieLimit :: int
  TraceUserCookieKeys :: "string list"
  TraceUserUsingType :: int

definition apply_user :: "conf_lib \<Rightarrow> conf_src \<Rightarrow> ConfUser" where
  "apply_user L S =
     (let enabled = getBoolean S ''trace_user_enabled'' True; ip = getBoolean S ''trace_user_using_ip'' True; ticket = getValue S ''trace_user_header_ticket'' in
      \<lparr>TraceUserEnabled = enabled, TraceUserUsingIp = ip, TraceUserHeaderTicket = ticket, TraceUserHeaderTicketEnabled = IsNotEmpty L ticket,
       TraceUserSetCookie = getBoolean S ''trace_user_set_cookie'' False, TraceUserCookieLimit = getInt S ''trace_user_cookie_limit'' 2048,
       TraceUserCookieKeys = getStringArray L S ''trace_user_cookie_keys'' '','',
       TraceUserUsingType = (if \<not> enabled then 0 else if ip then 1 else 2)\<rparr>)"

record ConfMtrace =
  MtraceEnabled :: bool
  MtraceAutoInjectEnabled :: bool
  MtraceRate :: int
  TraceMtraceCallerKey :: string
  TraceMtraceCalleeKey :: string
  TraceMtraceInfoKey :: string
  TraceMtracePoidKey :: string
  TraceMtraceSpecKey :: string
  TraceMtraceSpecKey1 :: string
  TraceMtraceTraceparentKey :: string
  MtraceSendUrlLength :: int
  MtraceSpec :: string
  MtraceSpecHash :: int
  MtraceCalleeTxidEnabled :: bool

definition bound100 :: "int \<Rightarrow> int" where
  "bound100 n = (if n > 100 then 100 else if n < 0 then 0 else n)"

definition apply_mtrace :: "conf_lib \<Rightarrow> conf_src \<Rightarrow> ConfMtrace" where
  "apply_mtrace L S =
     (let spec = map (\<lambda>c. if c = CHR '','' then CHR ''_'' else c) (getValueDef S ''mtrace_spec'' []) in
      \<lparr>MtraceEnabled = getBoolean S ''mtrace_enabled'' False, MtraceAutoInjectEnabled = getBoolean S ''mtrace_auto_inject_enabled'' True,
       MtraceRate = bound100 (getInt S ''mtrace_rate'' 10),
       TraceMtraceCallerKey = getValueDef S ''mtrace_caller_key'' ''x-wtap-mst'', TraceMtraceCalleeKey = getValueDef S ''mtrace_callee_key'' ''x-wtap-tx'',
       TraceMtraceInfoKey = getValueDef S ''mtrace_info_key'' ''x-wtap-inf'', TraceMtracePoidKey = getValueDef S ''mtrace_poid_key'' ''x-wtap-po'',
       TraceMtraceSpecKey = getValueDef S ''mtrace_spec_key'' ''x-wtap-sp'', TraceMtraceSpecKey1 = getValueDef S ''mtrace_spec_key1'' ''x-wtap-sp1'',
       TraceMtraceTraceparentKey = getValueDef S ''mtrace_traceparent_key'' ''traceparent'',
       MtraceSendUrlLength = getInt S ''mtrace_send_url_length'' 80,
       MtraceSpec = spec, MtraceSpecHash = (if spec = [] then 0 else HashStr L spec),
       MtraceCalleeTxidEnabled = getBoolean S ''mtrace_callee_txid_enabled'' False\<rparr>)"

record ConfMeter =
  MeterSelfEnabled :: bool
  MeterSelfInterval :: int
  MeterSelfBufferMin :: int
  MeterSelfBufferMax :: int
  RealtimeUserEnabled :: bool
  TxCallerMeterEnabled :: bool
  TxCallerMeterPKindEnabled :: bool
  SqlDbcMeterEnabled :: bool
  HttpcHostMeterEnabled :: bool
  ActxMeterEnabled :: bool

definition apply_meter :: "conf_src \<Rightarrow> bool \<Rightarrow> ConfMeter" where
  "apply_meter S enabled =
     (let bmin = getInt S ''meter_self_buffer_min'' 100;
          bsm = (AppType S = APP_TYPE_BSM_PHP \<or> AppType S = APP_TYPE_BSM_PYTHON \<or> AppType S = APP_TYPE_BSM_DOTNET) in
      \<lparr>MeterSelfEnabled = getBoolean S ''meter_self_enabled'' True, MeterSelfInterval = getInt S ''meter_self_interval'' 300000,
       MeterSelfBufferMin = bmin, MeterSelfBufferMax = max (getInt S ''meter_self_buffer_max'' 300) bmin,
       RealtimeUserEnabled = (\<not> bsm \<and> enabled \<and> getBoolean S ''realtime_user_enabled'' True),
       TxCallerMeterEnabled = (\<not> bsm \<and> getBoolean S ''tx_caller_meter_enabled'' True),
       TxCallerMeterPKindEnabled = getBoolean S ''tx_caller_meter_pkind_enabled'' True,
       SqlDbcMeterEnabled = (\<not> bsm \<and> getBoolean S ''sql_dbc_meter_enabled'' True),
       HttpcHostMeterEnabled = (\<not> bsm \<and> getBoolean S ''httpc_host_meter_enabled'' True),
       ActxMeterEnabled = (\<not> bsm \<and> getBoolean S ''actx_meter_enabled'' True)\<rparr>)"

record ConfIgnore =
  BizExceptions :: "int set"
  EnableBizExceptions :: bool
  IgnoreExceptions :: "int set"
  EnableIgnoreExceptions :: bool
  TraceIgnoreUrlSet :: "int set"
  TraceIgnoreUrlPrefix :: string
  IsTraceIgnoreUrlPrefix :: bool

definition apply_ignore :: "conf_lib \<Rightarrow> conf_src \<Rightarrow> ConfIgnore" where
  "apply_ignore L S =
     (let biz = GetStringHashCodeSet L S ''biz_exceptions'' [] '',''; ign = GetStringHashCodeSet L S ''ignore_exceptions'' [] '','';
          pre = getValueDef S ''trace_ignore_url_prefix'' [] in
      \<lparr>BizExceptions = biz, EnableBizExceptions = (biz \<noteq> {}), IgnoreExceptions = ign, EnableIgnoreExceptions = (ign \<noteq> {}),
       TraceIgnoreUrlSet = toHashSet L S ''trace_ignore_url_set'' [], TraceIgnoreUrlPrefix = pre, IsTraceIgnoreUrlPrefix = (TrimSpace pre \<noteq> [])\<rparr>)"

definition IsIgnoreTrace :: "ConfIgnore \<Rightarrow> int \<Rightarrow> string \<Rightarrow> bool" where
  "IsIgnoreTrace c h service \<longleftrightarrow> h \<in> TraceIgnoreUrlSet c \<or> IsTraceIgnoreUrlPrefix c \<and> HasPrefix service (TraceIgnoreUrlPrefix c)"

record ConfHitMap =
  HitMapVerEventEnabled :: bool
  HitMapVerEventErrorOnly :: bool
  HitMapVerEventDuration :: int
  HitMapVerEventWarningPercent :: int
  HitMapVerEventFatalPercent :: int
  HitMapVerEventInterval :: int
  HitMapHorizEventEnabled :: bool
  HitMapHorizEventErrorOnly :: bool
  HitMapHorizEventBasetime :: int
  HitMapHorizEventDuration :: int
  HitMapHorizEventInterval :: int
  ApdexTime :: int
  ApdexTime4T :: int

definition apply_hitmap :: "conf_src \<Rightarrow> ConfHitMap" where
  "apply_hitmap S =
     \<lparr>HitMapVerEventEnabled = getBoolean S ''hitmap_ver_event_enabled'' False, HitMapVerEventErrorOnly = getBoolean S ''hitmap_ver_event_error_only'' False,
      HitMapVerEventDuration = getInt S ''hitmap_ver_event_duration'' 30000,
      HitMapVerEventWarningPercent = bound100 (getInt S ''hitmap_ver_event_warn_percent'' 70),
      HitMapVerEventFatalPercent = bound100 (getInt S ''hitmap_ver_event_fatal_percent'' 90),
      HitMapVerEventInterval = getInt S ''hitmap_ver_event_interval'' 300000,
      HitMapHorizEventEnabled = getBoolean S ''hitmap_horiz_event_enabled'' False, HitMapHorizEventErrorOnly = getBoolean S ''hitmap_horiz_event_error_only'' False,
      HitMapHorizEventBasetime = getInt S ''hitmap_hoirz_event_basetime'' 10000,
      HitMapHorizEventDuration = getInt S ''hitmap_horiz_event_duration'' 30000,
      HitMapHorizEventInterval = getInt S ''hitmap_horiz_event_interval'' 300000,
      ApdexTime = getInt S ''apdex_time'' 1200, ApdexTime4T = i32 (4 * getInt S ''apdex_time'' 1200)\<rparr>"

subsection \<open>Statistics\<close>

record ConfStat =
  StatEnabled :: bool
  StatZipEnabled :: bool
  Stat1MEnabled :: bool
  StatIpEnabled :: bool
  StatIPURLEnabled :: bool
  StatIPURLMaxCount :: int
  StatDomainEnabled :: bool
  StatDomainMaxCount :: int
  StatMtraceEnabled :: bool
  StatMtraceMaxCount :: int
  StatLoginEnabled :: bool
  StatLoginMaxCount :: int
  StatRefererEnabled :: bool
  StatRefererMaxCount :: int
  StatRefererFormat :: int
  StatTxMaxCount :: int
  StatSqlMaxCount :: int
  StatHttpcMaxCount :: int
  StatErrorMaxCount :: int
  StatUseragentMaxCount :: int
  TxStatusMeterEnabled :: bool
  StatTxStatusEnabled :: bool
  StatTxStatusMaxCount :: int

definition ConfStat_Apply :: "conf_src \<Rightarrow> bool \<Rightarrow> ConfStat" where
  "ConfStat_Apply S enabled =
     (let on = (enabled \<and> getBoolean S ''stat_enabled'' True) in
      \<lparr>StatEnabled = on,
       StatZipEnabled = (on \<and> getBoolean S ''stat_zip_enabled'' True),
       Stat1MEnabled = (on \<and> getBoolean S ''stat_1m_enabled'' False),
       StatIpEnabled = (on \<and> getBoolean S ''stat_ip_enabled'' True),
       StatIPURLEnabled = getBoolean S ''stat_ipurl_enabled'' False,
       StatIPURLMaxCount = getInt S ''stat_ipurl_max_count'' 10000,
       StatDomainEnabled = (on \<and> getBoolean S ''stat_domain_enabled'' True),
       StatDomainMaxCount = getInt S ''stat_domain_max_count'' 7000,
       StatMtraceEnabled = (on \<and> getBoolean S ''stat_mtrace_enabled'' False),
       StatMtraceMaxCount = getInt S ''stat_mtrace_max_count'' 7000,
       StatLoginEnabled = (on \<and> getBoolean S ''stat_login_enabled'' False),
       StatLoginMaxCount = getInt S ''stat_login_max_count'' 7000,
       StatRefererEnabled = (on \<and> getBoolean S ''stat_referer_enabled'' False),
       StatRefererMaxCount = getInt S ''stat_referer_max_count'' 7000,
       StatRefererFormat = getInt S ''stat_referer_format'' 0,
       StatTxMaxCount = getInt S ''stat_tx_max_count'' 5000,
       StatSqlMaxCount = getInt S ''stat_sql_max_count'' 5000,
       StatHttpcMaxCount = getInt S ''stat_httpc_max_count'' 5000,
       StatErrorMaxCount = getInt S ''stat_error_max_count'' 1000,
       StatUseragentMaxCount = getInt S ''stat_useragent_max_count'' 500,
       TxStatusMeterEnabled = getBoolean S ''tx_status_meter_enabled'' True,
       StatTxStatusEnabled = getBoolean S ''stat_txstatus_enabled'' True,
       StatTxStatusMaxCount = getInt S ''stat_txstatus_max_count'' 10000\<rparr>)"

subsection \<open>Traces\<close>

record ConfTrace =
  TraceZipEnabled :: bool
  TraceZipQueueSize :: int
  TraceZipMaxWaitTime :: int
  TraceZipMaxWait2Time :: int
  TraceZipMaxBufferSize :: int
  TraceZipMinSize :: int
  TraceTxSplitQueueSize :: int
  TraceStepNormalCount :: int
  TraceStepHeavyCount :: int
  TraceStepMaxCount :: int
  TraceStepHeavyTime :: int
  DebugTraceZipEnabled :: bool
  DebugTraceZipInterval :: int
  CircularProfileEnabled :: bool
  LargeProfileEnabled :: bool
  SplitProfileEnabled :: bool
  InternalTraceCollectingMode :: int
  TxTextTxnameEnabled :: bool
  TxTextErrorEnabled :: bool
  TxTextErrorLength :: int
  TraceStatusErrorEnable :: bool
  StatusIgnore :: "int set"

definition ConfTrace_Apply :: "conf_lib \<Rightarrow> conf_src \<Rightarrow> ConfTrace" where
  "ConfTrace_Apply L S =
     (let maxc = getInt S ''profile_step_max_count'' 1024;
          heavy = min (getInt S ''profile_step_heavy_count'' 1000) maxc;
          circular = getBoolean S ''circular_profile_enabled'' False;
          large = getBoolean S ''large_profile_enabled'' False;
          split1 = getBoolean S ''split_profile_enabled'' False;
          len = getInt S ''txtext_error_length'' 128 in
      \<lparr>TraceZipEnabled = getBoolean S ''profile_zip_enabled'' True,
       TraceZipQueueSize = getInt S ''profile_zip_queue_size'' 1000,
       TraceZipMaxWaitTime = getInt S ''profile_zip_max_wait_time'' 1000,
       TraceZipMaxWait2Time = getInt S ''profile_zip_max_wait2_time'' 5000,
       TraceZipMaxBufferSize = getInt S ''profile_zip_max_buffer_size'' (1024 * 1024),
       TraceZipMinSize = getInt S ''profile_zip_min_size'' 100,
       TraceTxSplitQueueSize = getInt S ''trace_txsplit_queue_size'' 1000,
       TraceStepNormalCount = min (getInt S ''profile_step_normal_count'' 800) heavy,
       TraceStepHeavyCount = heavy, TraceStepMaxCount = maxc,
       TraceStepHeavyTime = getInt S ''profile_step_heavy_time'' 100,
       DebugTraceZipEnabled = getBoolean S ''debug_profile_zip_enabled'' False,
       DebugTraceZipInterval = getInt S ''debug_profile_zip_interval'' 5000,
       CircularProfileEnabled = circular, LargeProfileEnabled = large, SplitProfileEnabled = split1,
       InternalTraceCollectingMode = (if split1 then 4 else if large then 3 else if circular then 2 else 1),
       TxTextTxnameEnabled = getBoolean S ''txtext_txname_enabled'' False,
       TxTextErrorEnabled = (\<not> len < 1 \<and> getBoolean S ''txtext_error_enabled'' False),
       TxTextErrorLength = len,
       TraceStatusErrorEnable = getBoolean S ''transaction_status_error_enable'' False,
       StatusIgnore = GetIntSet L S ''status_ignore'' [] '',''\<rparr>)"

subsection \<open>Log sink\<close>

text \<open>\<open>parseLogSinkTags\<close> passes a map and not a pointer to \<^verbatim>\<open>json.Unmarshal\<close>, which is an error whatever the text is: the tags stay as they are.\<close>

record log_tags =
  LogSinkTags :: "string list list"
  HasLogSinkTags :: bool
  LogSinkTagsStr :: string

definition parseLogSinkTags :: "string \<Rightarrow> log_tags \<Rightarrow> log_tags" where
  "parseLogSinkTags tags t =
     (if tags = [] then t\<lparr>HasLogSinkTags := False, LogSinkTagsStr := [], LogSinkTags := []\<rparr>
      else if tags = LogSinkTagsStr t then t
      else t\<lparr>LogSinkTagsStr := tags\<rparr>)"

record ConfLogSink =
  LogSinkFiles :: "string list"
  LogSinkInterval :: int
  WatchLogCheckInterval :: int
  WatchLogReadCount :: int
  WatchLogSendCount :: int
  WatchLogBufferSize :: int
  WatchLogLineSize :: int
  LogSinkEnabled :: bool
  WatchLogEnabled :: bool
  LogSinkQueueSize :: int
  LogSinkLineSize :: int
  DebugLogSinkEnabled :: bool
  DebugLogSinkLineLimit :: int
  LogSinkZipEnabled :: bool
  LogSinkMaxBufferSize :: int
  LogSinkMaxWaitTime :: int
  LogSinkZipMinSize :: int
  DebugLogSinkZipEnabled :: bool
  LogSinkZipLibpath :: string
  TxIdTag :: string
  AppLogCategory :: string
  AppLogPattern :: string
  LogSendThreshold :: int
  LogSinkStopInterval :: int
  LogSinkStdOutEnabled :: bool
  LogSinkStdErrEnabled :: bool
  LogSinkFmtEnabled :: bool
  LogSinkCategoryStdOut :: string
  LogSinkCategoryStdErr :: string

record ConfLogSinkLimit =
  LogSinkLimitContentEnabled :: bool
  LogSinkLimitContentLogSilentTime :: int
  LogSinkLimitContentAlertSilentTime :: int
  LogsinkLimitContentAlertEnabled :: bool
  LogSinkLimitContentLength :: int
  DebugLogSinkLimitContentEnabled :: bool
  lsTags :: log_tags
  LogSinkRtEnabled :: bool
  LogSinkRtDbcOkEnabled :: bool
  LogSinkRtDbcErrorEnabled :: bool
  LogSinkRtHttpcOkEnabled :: bool
  LogSinkRtHttpcErrorEnabled :: bool
  LogSinkRtSocketEnabled :: bool
  LogSinkRtErrorInterval :: int
  LogSinkRtOkInterval :: int
  LogSinkTraceTxidEnabled :: bool
  LogSinkTraceMtidEnabled :: bool
  LogSinkTraceLoginEnabled :: bool
  LogSinkTraceHttpHostEnabled :: bool
  LogSinkTraceEnabled :: bool
  LogSinkHighSecureEnabled :: bool

definition ConfLogSink_Apply :: "conf_lib \<Rightarrow> conf_src \<Rightarrow> ConfLogSink" where
  "ConfLogSink_Apply L S =
     (let on = getBoolean S ''logsink_enabled'' False; n = getInt S ''watchlog_read_count'' 4 in
      \<lparr>LogSinkFiles = getStringArray L S ''logsink.files'' '','', LogSinkInterval = getInt S ''logsink_interval'' 1000,
       WatchLogCheckInterval = getLong S ''watchlog_check_interval'' 2000, WatchLogReadCount = (if n < 1 then 1 else n),
       WatchLogSendCount = getInt S ''watchlog_send_count'' 0, WatchLogBufferSize = getInt S ''watchlog_buffer_size'' (128 * 1024),
       WatchLogLineSize = getInt S ''watchlog_line_size'' 512, LogSinkEnabled = on,
       WatchLogEnabled = (if on then True else getBoolean S ''watchlog_enabled'' False),
       LogSinkQueueSize = getInt S ''logsink_queue_size'' 1000, LogSinkLineSize = getInt S ''logsink_line_size'' 512,
       DebugLogSinkEnabled = getBoolean S ''debug_logsink_enabled'' False, DebugLogSinkLineLimit = getInt S ''debug_logsink_line_limit'' 0,
       LogSinkZipEnabled = (on \<and> getBoolean S ''logsink_zip_enabled'' True),
       LogSinkMaxBufferSize = getInt S ''logsink_max_buffer_size'' (1024 * 64), LogSinkMaxWaitTime = getInt S ''logsink_max_wait_time'' 2000,
       LogSinkZipMinSize = getInt S ''logsink_zip_min_size'' 100, DebugLogSinkZipEnabled = getBoolean S ''debug_logsink_zip_enabled'' False,
       LogSinkZipLibpath = getValue S ''logsink_zip_libpath'', TxIdTag = getValue S ''logsink_txidtag'', AppLogCategory = getValue S ''logsink_applogcategory'',
       AppLogPattern = getValue S ''logsink_applogpattern'', LogSendThreshold = getInt S ''logsink_sendthreshold'' 500,
       LogSinkStopInterval = getLong S ''logsink_stop_interval'' (60000 * 30),
       LogSinkStdOutEnabled = (on \<and> getBoolean S ''logsink_stdout_enabled'' False), LogSinkStdErrEnabled = (on \<and> getBoolean S ''logsink_stderr_enabled'' False),
       LogSinkFmtEnabled = (on \<and> getBoolean S ''logsink_fmt_enabled'' False),
       LogSinkCategoryStdOut = getValueDef S ''logsink_category_stdout'' ''AppStdOut'', LogSinkCategoryStdErr = getValueDef S ''logsink_category_stderr'' ''AppStdErr''\<rparr>)"

definition ConfLogSinkLimit_Apply :: "conf_src \<Rightarrow> bool \<Rightarrow> log_tags \<Rightarrow> ConfLogSinkLimit" where
  "ConfLogSinkLimit_Apply S on t =
     \<lparr>LogSinkLimitContentEnabled = getBoolean S ''logsink_limit_content_enabled'' False,
      LogSinkLimitContentLogSilentTime = getInt S ''logsink_limit_content_log_silent_time'' 1000,
      LogSinkLimitContentAlertSilentTime = getInt S ''logsink_limit_content_alert_silent_time'' 10000,
      LogsinkLimitContentAlertEnabled = getBoolean S ''logsink_limit_content_alert_enabled'' True,
      LogSinkLimitContentLength = getInt S ''logsink_limit_content_length'' 1000000,
      DebugLogSinkLimitContentEnabled = getBoolean S ''debug_logsink_limit_content_enabled'' True,
      lsTags = parseLogSinkTags (getValueDef S ''logsink_tags'' []) t,
      LogSinkRtEnabled = (on \<and> getBoolean S ''logsink_rt_enabled'' False),
      LogSinkRtDbcOkEnabled = (on \<and> getBoolean S ''logsink_rt_dbc_ok_enabled'' on),
      LogSinkRtDbcErrorEnabled = (on \<and> getBoolean S ''logsink_rt_dbc_error_enabled'' on),
      LogSinkRtHttpcOkEnabled = (on \<and> getBoolean S ''logsink_rt_httpc_ok_enabled'' on),
      LogSinkRtHttpcErrorEnabled = (on \<and> getBoolean S ''logsink_rt_httpc_error_enabled'' on),
      LogSinkRtSocketEnabled = (on \<and> getBoolean S ''logsink_rt_socket_enabled'' on),
      LogSinkRtErrorInterval = getLong S ''logsink_rt_error_interval'' 5000, LogSinkRtOkInterval = getLong S ''logsink_rt_ok_interval'' 30000,
      LogSinkTraceTxidEnabled = getBoolean S ''logsink_trace_txid_enabled'' True, LogSinkTraceMtidEnabled = getBoolean S ''logsink_trace_mtid_enabled'' True,
      LogSinkTraceLoginEnabled = getBoolean S ''logsink_trace_login_enabled'' False, LogSinkTraceHttpHostEnabled = getBoolean S ''logsink_trace_httphost_enabled'' False,
      LogSinkTraceEnabled = getBoolean S ''logsink_trace_enabled'' True, LogSinkHighSecureEnabled = getBoolean S ''logsink_high_secure_enabled'' False\<rparr>"

subsection \<open>The smaller files\<close>

record ConfGo =
  GoSqlProfileEnabled :: bool
  GoCounterEnabled :: bool
  GoCounterInterval :: int
  GoCounterTimeout :: int
  GoRecoverEnabled :: bool
  GoUseGoroutineIDEnabled :: bool

definition ConfGo_Apply :: "conf_src \<Rightarrow> bool \<Rightarrow> ConfGo" where
  "ConfGo_Apply S enabled =
     \<lparr>GoSqlProfileEnabled = (enabled \<and> getBoolean S ''go.sql_profile_enabled'' True),
      GoCounterEnabled = (enabled \<and> getBoolean S ''go.counter_enabled'' True),
      GoCounterInterval = getInt S ''go.counter_interval'' 5000,
      GoCounterTimeout = getInt S ''go.counter_interval'' 5000,
      GoRecoverEnabled = getBoolean S ''go.recover_enabled'' False,
      GoUseGoroutineIDEnabled = (enabled \<and> getBoolean S ''go.use_goroutine_id_enabled'' True)\<rparr>"

record ConfGoGrpc =
  GoGrpcProfileEnabled :: bool
  GoGrpcProfileStreamClientEnabled :: bool
  GoGrpcProfileStreamServerEnabled :: bool
  GoGrpcProfileIgnoreMethod :: "string list"
  GoGrpcProfileStreamMethod :: "string list"
  GoGrpcProfileStreamIdentify :: bool

definition ConfGoGrpc_Apply :: "conf_lib \<Rightarrow> conf_src \<Rightarrow> bool \<Rightarrow> ConfGoGrpc" where
  "ConfGoGrpc_Apply L S enabled =
     (let on = (enabled \<and> getBoolean S ''go.grpc_profile_enabled'' True) in
      \<lparr>GoGrpcProfileEnabled = on,
       GoGrpcProfileStreamClientEnabled = (on \<and> getBoolean S ''go.grpc_profile_stream_client_enabled'' True),
       GoGrpcProfileStreamServerEnabled = (on \<and> getBoolean S ''go.grpc_profile_stream_server_enabled'' True),
       GoGrpcProfileIgnoreMethod = getStringArray L S ''go.grpc_profile_ignore_method'' '','',
       GoGrpcProfileStreamMethod = getStringArray L S ''go.grpc_profile_stream_method'' '','',
       GoGrpcProfileStreamIdentify = (on \<and> getBoolean S ''go.grpc_profile_stream_identify'' False)\<rparr>)"

record ConfProfile =
  ProfileMissingTxidEnabled :: bool
  ProfileMissingTxidMaxTime :: int
  ProfileMissingTxidInterval :: int
  ProfileMissingTxidLogEnabled :: bool
  DebugProfileMissingTxidEnabled :: bool

definition ConfProfile_Apply :: "conf_src \<Rightarrow> ConfProfile" where
  "ConfProfile_Apply S =
     \<lparr>ProfileMissingTxidEnabled = getBoolean S ''profile_missing_txid_enabled'' True,
      ProfileMissingTxidMaxTime = getLong S ''profile_missing_txid_max_time'' 30000,
      ProfileMissingTxidInterval = getLong S ''profile_missing_txid_interval'' 10000,
      ProfileMissingTxidLogEnabled = getBoolean S ''profile_missing_txid_log_enabled'' False,
      DebugProfileMissingTxidEnabled = getBoolean S ''debug_profile_missing_txid_enabled'' False\<rparr>"

record ConfFailover =
  NetFailoverRetrySendDataEnabled :: bool
  DebugTcpFailoverEnabled :: bool

definition ConfFailover_Apply :: "conf_src \<Rightarrow> ConfFailover" where
  "ConfFailover_Apply S =
     \<lparr>NetFailoverRetrySendDataEnabled = getBoolean S ''net_failover_retry_send_data_enabled'' False,
      DebugTcpFailoverEnabled = getBoolean S ''debug_tcp_failover_enabled'' False\<rparr>"

record ConfFowarder =
  FowarderEnabled :: bool
  DebugFowarderEnalbed :: bool
  NetIPCHost :: string
  NetIPCPort :: int

definition ConfFowarder_Apply :: "conf_src \<Rightarrow> ConfFowarder" where
  "ConfFowarder_Apply S =
     \<lparr>FowarderEnabled = getBoolean S ''fowarder_enabled'' (AppType S = APP_TYPE_GO),
      DebugFowarderEnalbed = getBoolean S ''debug_fowarder_enabled'' False,
      NetIPCHost = getValueDef S ''net_ipc_host'' (getValueDef S ''net_udp_host'' ''127.0.0.1''),
      NetIPCPort = getInt S ''net_ipc_port'' (getInt S ''net_udp_port'' 6600)\<rparr>"

subsection \<open>Applying all of it\<close>

record AgentConfig =
  cMain :: ConfMain
  cCounter :: ConfCounter
  cNames :: ConfNames
  cProfileStep :: ConfProfileStep
  cUser :: ConfUser
  cMtrace :: ConfMtrace
  cMeter :: ConfMeter
  cIgnore :: ConfIgnore
  cHitMap :: ConfHitMap
  cStat :: ConfStat
  cLogSink :: ConfLogSink
  cLogSinkLimit :: ConfLogSinkLimit
  cFailover :: ConfFailover
  DebugCloseTcp :: int
  cGo :: ConfGo
  cGoGrpc :: ConfGoGrpc
  cProfile :: ConfProfile
  cFowarder :: ConfFowarder
  cTrace :: ConfTrace

definition apply_first :: "conf_lib \<Rightarrow> conf_src \<Rightarrow> AgentConfig \<Rightarrow> AgentConfig" where
  "apply_first L S c =
     (let m = apply_main L S; ls = ConfLogSink_Apply L S in
      c\<lparr>cMain := m, cCounter := apply_counter S (Enabled m), cNames := apply_names L S, cProfileStep := apply_profile L S, cUser := apply_user L S,
        cMtrace := apply_mtrace L S, cMeter := apply_meter S (Enabled m), cIgnore := apply_ignore L S, cHitMap := apply_hitmap S,
        cStat := ConfStat_Apply S (Enabled m), cLogSink := ls,
        cLogSinkLimit := ConfLogSinkLimit_Apply S (LogSinkEnabled ls) (lsTags (cLogSinkLimit c)), cFailover := ConfFailover_Apply S\<rparr>)"

definition apply_last :: "conf_lib \<Rightarrow> conf_src \<Rightarrow> AgentConfig \<Rightarrow> AgentConfig" where
  "apply_last L S c =
     (let on = Enabled (cMain c) in
      c\<lparr>cGo := ConfGo_Apply S on, cGoGrpc := ConfGoGrpc_Apply L S on, cProfile := ConfProfile_Apply S, cFowarder := ConfFowarder_Apply S, cTrace := ConfTrace_Apply L S\<rparr>)"

text \<open>\<open>ConfDebugTest.Apply\<close> calls a function when the number in \<^verbatim>\<open>debug_close_tcp\<close> changes. The session with the server sets it when it
  is made (\<open>hasCloser\<close>); before that it is nil, the call panics, and \<open>apply\<close> recovers without doing the rest.\<close>

definition applyConf :: "conf_lib \<Rightarrow> bool \<Rightarrow> conf_src \<Rightarrow> AgentConfig \<Rightarrow> AgentConfig" where
  "applyConf L hasCloser S0 c =
     (let S = withEnvFirst S0; c1 = apply_first L S c; closeTcp = getInt S ''debug_close_tcp'' 0; c2 = c1\<lparr>DebugCloseTcp := closeTcp\<rparr> in
      if DebugCloseTcp c \<noteq> closeTcp \<and> \<not> hasCloser then c2 else apply_last L S c2)"

subsection \<open>Reloading\<close>

text \<open>What \<^verbatim>\<open>os.Stat\<close> finds, with the time of the file in seconds and what \<^verbatim>\<open>properties.LoadFile\<close> makes of it; the loading succeeds.
  The observers of the configuration are counted.\<close>

datatype conf_file = NotExist | StatFails | FileAt int "string \<rightharpoonup> string"

record conf_state =
  last_file_time :: int
  last_check :: int
  loaded :: "string \<rightharpoonup> string"
  cfg :: AgentConfig
  observersRun :: nat

record conf_process =
  pEnv :: "string \<Rightarrow> string"
  pAppType :: app_type
  pCloser :: bool

definition applyWith :: "conf_lib \<Rightarrow> conf_process \<Rightarrow> (string \<rightharpoonup> string) \<Rightarrow> conf_state \<Rightarrow> conf_state" where
  "applyWith L P p st =
     st\<lparr>loaded := p, cfg := applyConf L (pCloser P) \<lparr>getenv = pEnv P, props = p, AppType = pAppType P, UseEnvFirst = True\<rparr> (cfg st)\<rparr>"

definition reload :: "conf_lib \<Rightarrow> conf_process \<Rightarrow> int \<Rightarrow> conf_file \<Rightarrow> conf_state \<Rightarrow> conf_state" where
  "reload L P sysNow fl st =
     (if sysNow < i64 (last_check st + 3000) then st
      else (let st1 = st\<lparr>last_check := sysNow\<rparr> in
            case fl of
              NotExist \<Rightarrow>
                if last_file_time st = -1 \<or> last_file_time st = 0 then st1
                else applyWith L P Map.empty (st1\<lparr>last_file_time := 0\<rparr>)
            | StatFails \<Rightarrow> st1
            | FileAt new_time p \<Rightarrow>
                if last_file_time st = new_time then st1
                else (applyWith L P p (st1\<lparr>last_file_time := new_time\<rparr>))\<lparr>observersRun := observersRun st + 1\<rparr>))"

subsection \<open>The start\<close>

text \<open>The application type from the arguments of the program (None if the code panics), then from the environment.\<close>

fun argsAppType :: "(string \<Rightarrow> string) \<Rightarrow> string list \<Rightarrow> string option" where
  "argsAppType uni [] = Some []"
| "argsAppType uni (it0 # rest) =
     (let it1 = ToLower uni it0 in
      if HasPrefix it1 ''-t''
      then (if it1 = ''-t'' then (case rest of [] \<Rightarrow> None | x # _ \<Rightarrow> Some x)
            else (let p = Index it1 ''='' in if p > -1 then Some (drop (nat p + 1) it1) else Some []))
      else argsAppType uni rest)"

definition i16 :: "int \<Rightarrow> int" where
  "i16 x = signed_take_bit 15 x"

definition envAppType :: "int \<Rightarrow> (string \<Rightarrow> string) \<Rightarrow> int" where
  "envAppType goType env =
     (let t = env ''WHATAP_APP_TYPE'' in if t \<noteq> [] then (case Atoi t of None \<Rightarrow> goType | Some v \<Rightarrow> i16 v) else goType)"

definition initAppType :: "(string \<Rightarrow> string) \<Rightarrow> int \<Rightarrow> (string \<Rightarrow> string) \<Rightarrow> string list \<Rightarrow> int option" where
  "initAppType uni goType env args =
     (case argsAppType uni args of
        None \<Rightarrow> None
      | Some a \<Rightarrow> Some (if a \<noteq> [] then (case Atoi a of None \<Rightarrow> envAppType goType env | Some v \<Rightarrow> i16 v) else envAppType goType env))"

text \<open>The directory and the name of the file.\<close>

definition GetWhatapHome :: "(string \<Rightarrow> string) \<Rightarrow> app_type \<Rightarrow> string" where
  "GetWhatapHome env t =
     (let home = (if env ''WHATAP_HOME'' = [] then ''.'' else env ''WHATAP_HOME'') in
      if (t = APP_TYPE_DOTNET \<or> t = APP_TYPE_BSM_DOTNET) \<and> env ''WHATAP_DOTNET_HOME'' \<noteq> [] then env ''WHATAP_DOTNET_HOME'' else home)"

definition GetConfFile :: "(string \<Rightarrow> string) \<Rightarrow> app_type \<Rightarrow> string \<times> string" where
  "GetConfFile env t =
     (if env ''WHATAP_CONFIG_HOME'' \<noteq> [] then env ''WHATAP_CONFIG_HOME'' else GetWhatapHome env t,
      if env ''WHATAP_CONFIG'' = [] then ''whatap.conf'' else env ''WHATAP_CONFIG'')"

subsection \<open>Reading numbers\<close>

definition int32 :: "int \<Rightarrow> bool" where
  "int32 n \<longleftrightarrow> - (2 ^ 31) \<le> n \<and> n < 2 ^ 31"

lemma getInt_int32 [simp]: "int32 (getInt S k d)"
  using i32_range [of d] by (auto simp: getInt_def Let_def ParseInt_def int32_def split: option.splits if_splits)

lemma digitsOf_graphic: "list_all graphic (digitsOf n)"
proof (unfold list_all_iff, intro ballI)
  fix c assume "c \<in> set (digitsOf n)"
  from digitsOf_chars [OF this] show "graphic c" by (simp add: graphic_def)
qed

lemma itoa_graphic: "list_all graphic (itoa n)"
  by (simp add: itoa_def digitsOf_graphic graphic_def)

text \<open>A number that is written in the file is the number that is read, unless the environment comes first.\<close>

lemma getInt_written:
  assumes "props S (prefixedKey (AppType S) k) = Some (itoa n)" and "int32 n" and "UseEnvFirst S \<longrightarrow> envValue S k = []"
  shows "getInt S k d = n"
proof -
  have t: "TrimSpace (itoa n) = itoa n" by (rule TrimSpace_graphic [OF itoa_graphic])
  then have v: "getValue S k = itoa n" using assms(1,3) by (auto simp: getValue_def Let_def)
  have "Atoi (itoa n) = Some n" using assms(2) by (intro Atoi_itoa) (simp_all add: int32_def)
  then show ?thesis using assms(2) by (simp add: getInt_def v ParseInt_def int32_def)
qed

text \<open>With \<open>use_env_first\<close> a variable of blanks hides the value of the file; otherwise it does not.\<close>

lemma blank_variable_hides:
  assumes "getenv S k = '' ''" and "props S (prefixedKey (AppType S) k) = Some v" and "TrimSpace v \<noteq> []"
  shows "getInt (S\<lparr>UseEnvFirst := True\<rparr>) k d = i32 d" and "getValue (S\<lparr>UseEnvFirst := False\<rparr>) k = TrimSpace v"
proof -
  have "Atoi '' '' = None" by code_simp
  then show "getInt (S\<lparr>UseEnvFirst := True\<rparr>) k d = i32 d"
    using assms(1) by (simp add: getInt_def getValue_def envValue_def Let_def ParseInt_def)
qed (use assms in \<open>simp add: getValue_def envValue_def Let_def\<close>)

subsection \<open>Sets of numbers\<close>

text \<open>\<open>GetIntSet\<close> puts a token into the set exactly if it is not a number: the test of the error is the wrong way round.\<close>

lemma fold_insert_if: "fold (\<lambda>x st. if p x then insert (f x) st else st) xs A = A \<union> f ` {x \<in> set xs. p x}"
  by (induction xs arbitrary: A) auto

lemma GetIntSet_eq:
  "GetIntSet L S k def deli = (\<lambda>x. i32 (AtoiOnError (TrimEmpty L x))) ` {x \<in> set (Tokenizer L (getValueDef S k def) deli). Atoi (TrimEmpty L x) = None}"
  unfolding GetIntSet_def Let_def by (subst fold_insert_if) simp

theorem numbers_not_in_set:
  assumes "\<forall>x\<in>set (Tokenizer L (getValueDef S k def) deli). Atoi (TrimEmpty L x) \<noteq> None"
  shows "GetIntSet L S k def deli = {}"
  using assms by (simp add: GetIntSet_eq)

subsection \<open>Well-formed settings\<close>

definition limits_ok :: "AgentConfig \<Rightarrow> bool" where
  "limits_ok c \<longleftrightarrow>
     (CounterTimeout (cMain c) = 0 \<or> 1000 \<le> CounterTimeout (cMain c) \<and> CounterTimeout (cMain c) \<le> 4000) \<and>
     0 \<le> CounterVersion (cMain c) \<and> CounterVersion (cMain c) < 256 \<and>
     ProfileStepNormalCount (cProfileStep c) \<le> ProfileStepHeavyCount (cProfileStep c) \<and>
     ProfileStepHeavyCount (cProfileStep c) \<le> ProfileStepMaxCount (cProfileStep c) \<and>
     TraceUserUsingType (cUser c) \<in> {0, 1, 2} \<and> 0 \<le> MtraceRate (cMtrace c) \<and> MtraceRate (cMtrace c) \<le> 100 \<and> CHR '','' \<notin> set (MtraceSpec (cMtrace c)) \<and>
     MeterSelfBufferMin (cMeter c) \<le> MeterSelfBufferMax (cMeter c) \<and>
     0 \<le> HitMapVerEventWarningPercent (cHitMap c) \<and> HitMapVerEventWarningPercent (cHitMap c) \<le> 100 \<and>
     0 \<le> HitMapVerEventFatalPercent (cHitMap c) \<and> HitMapVerEventFatalPercent (cHitMap c) \<le> 100 \<and>
     1 \<le> WatchLogReadCount (cLogSink c) \<and> (LogSinkEnabled (cLogSink c) \<longrightarrow> WatchLogEnabled (cLogSink c))"

definition trace_ok :: "AgentConfig \<Rightarrow> bool" where
  "trace_ok c \<longleftrightarrow>
     TraceStepNormalCount (cTrace c) \<le> TraceStepHeavyCount (cTrace c) \<and> TraceStepHeavyCount (cTrace c) \<le> TraceStepMaxCount (cTrace c) \<and>
     InternalTraceCollectingMode (cTrace c) \<in> {1, 2, 3, 4} \<and> (TxTextErrorEnabled (cTrace c) \<longrightarrow> 1 \<le> TxTextErrorLength (cTrace c)) \<and>
     ProfileStepMaxCount (cProfileStep c) = TraceStepMaxCount (cTrace c) \<and> ProfileStepHeavyCount (cProfileStep c) = TraceStepHeavyCount (cTrace c) \<and>
     ProfileStepNormalCount (cProfileStep c) = TraceStepNormalCount (cTrace c)"

definition switches_ok :: "AgentConfig \<Rightarrow> bool" where
  "switches_ok c \<longleftrightarrow>
     (Shutdown (cMain c) \<longrightarrow> \<not> Enabled (cMain c)) \<and>
     (\<not> Enabled (cMain c) \<longrightarrow>
        \<not> TransactionEnabled (cMain c) \<and> \<not> CounterEnabled (cMain c) \<and> \<not> CounterEnabledTranx (cCounter c) \<and> \<not> CounterEnabledSql (cCounter c) \<and>
        \<not> CounterEnabledHttpc (cCounter c) \<and> \<not> CounterEnabledProc (cCounter c) \<and> \<not> RealtimeUserEnabled (cMeter c) \<and> \<not> StatEnabled (cStat c) \<and>
        \<not> GoSqlProfileEnabled (cGo c) \<and> \<not> GoCounterEnabled (cGo c) \<and> \<not> GoGrpcProfileEnabled (cGoGrpc c)) \<and>
     (\<not> StatEnabled (cStat c) \<longrightarrow> \<not> StatZipEnabled (cStat c) \<and> \<not> StatDomainEnabled (cStat c) \<and> \<not> StatMtraceEnabled (cStat c) \<and> \<not> StatRefererEnabled (cStat c)) \<and>
     (\<not> LogSinkEnabled (cLogSink c) \<longrightarrow> \<not> LogSinkZipEnabled (cLogSink c) \<and> \<not> LogSinkStdOutEnabled (cLogSink c) \<and> \<not> LogSinkStdErrEnabled (cLogSink c) \<and>
        \<not> LogSinkRtEnabled (cLogSinkLimit c))"

lemma boundTimeout_range: "boundTimeout t = 0 \<or> 1000 \<le> boundTimeout t \<and> boundTimeout t \<le> 4000"
  by (simp add: boundTimeout_def)

lemma bound100_range: "0 \<le> bound100 n" "bound100 n \<le> 100"
  by (simp_all add: bound100_def)

lemma apply_main_sel [simp]:
  "CounterTimeout (apply_main L S) = boundTimeout (getInt S ''counter_timeout'' 0)"
  "CounterVersion (apply_main L S) = getInt S ''counter_version'' 2 mod 256"
  "Shutdown (apply_main L S) = getBoolean S ''shutdown'' False"
  "Enabled (apply_main L S) = (\<not> getBoolean S ''shutdown'' False \<and> getBoolean S ''enabled'' True)"
  "TransactionEnabled (apply_main L S) = (Enabled (apply_main L S) \<and> getBoolean S ''transaction_enabled'' True)"
  "CounterEnabled (apply_main L S) = (Enabled (apply_main L S) \<and> getBoolean S ''counter_enabled'' True)"
  by (simp_all add: apply_main_def Let_def ConfLLM_Apply_def ApplyChannelOverride_def)

lemma limits_first: "limits_ok (apply_first L S c)"
  using boundTimeout_range [of "getInt S ''counter_timeout'' 0"]
  by (auto simp: limits_ok_def apply_first_def Let_def apply_profile_def apply_user_def apply_mtrace_def apply_meter_def apply_hitmap_def
      ConfLogSink_Apply_def bound100_range)

lemma limits_last [simp]: "limits_ok (apply_last L S c) = limits_ok c" "limits_ok (c\<lparr>DebugCloseTcp := n\<rparr>) = limits_ok c"
  by (simp_all add: limits_ok_def apply_last_def Let_def)

lemma trace_last: "cProfileStep c = apply_profile L S \<Longrightarrow> trace_ok (apply_last L S c)"
  by (auto simp: trace_ok_def apply_last_def Let_def apply_profile_def ConfTrace_Apply_def)

lemma switches_last:
  "switches_ok (apply_last L S ((apply_first L S c)\<lparr>DebugCloseTcp := n\<rparr>))"
  by (simp add: switches_ok_def apply_last_def apply_first_def Let_def apply_counter_def apply_meter_def ConfStat_Apply_def ConfGo_Apply_def ConfGoGrpc_Apply_def
      ConfLogSink_Apply_def ConfLogSinkLimit_Apply_def) blast


text \<open>Applying the same values again changes nothing.\<close>

lemma parseLogSinkTags_idem: "parseLogSinkTags s (parseLogSinkTags s t) = parseLogSinkTags s t"
  by (simp add: parseLogSinkTags_def)

theorem apply_idempotent: "applyConf L True S (applyConf L True S c) = applyConf L True S c"
  by (simp add: applyConf_def apply_first_def apply_last_def Let_def ConfLogSinkLimit_Apply_def parseLogSinkTags_idem)

text \<open>The tags of the log sink are never set.\<close>

lemma tags_never_set: "\<not> HasLogSinkTags t \<Longrightarrow> \<not> HasLogSinkTags (parseLogSinkTags s t)"
  by (simp add: parseLogSinkTags_def)

text \<open>Before the session exists, a number in \<^verbatim>\<open>debug_close_tcp\<close> keeps the last groups from being read: the traces, the forwarder and the
  Go settings stay what they were.\<close>

theorem close_tcp_skips_rest:
  assumes "getInt (withEnvFirst S) ''debug_close_tcp'' 0 \<noteq> DebugCloseTcp c"
  shows "cTrace (applyConf L False S c) = cTrace c \<and> cFowarder (applyConf L False S c) = cFowarder c \<and> cGo (applyConf L False S c) = cGo c \<and>
     cMain (applyConf L False S c) = apply_main L (withEnvFirst S) \<and> cTrace (applyConf L False S (applyConf L False S c)) = ConfTrace_Apply L (withEnvFirst S)"
  using assms by (auto simp: applyConf_def apply_first_def apply_last_def Let_def)

text \<open>The channel of the LLM mode: it takes the place of the license, the key and the servers, of each only if it is set.\<close>

theorem llm_channel:
  "let S1 = withEnvFirst S; m = ConfLLM_Load L S1; c1 = cMain (applyConf L True S c) in
     AccessKey c1 = (if LLMMode m \<and> TrimSpace (LLMAccessKey m) \<noteq> [] then LLMAccessKey m
                     else if TrimSpace (getValue S1 ''accesskey'') = [] \<and> TrimSpace (getValue S1 ''license'') \<noteq> [] then getValue S1 ''license''
                     else getValue S1 ''accesskey'') \<and>
     (LLMMode m \<and> TrimSpace (LLMAccessKey m) \<noteq> [] \<longrightarrow> License c1 = AccessKey c1) \<and>
     (LLMMode m \<and> LLMWhatapHost m \<noteq> [] \<longrightarrow> WhatapHost c1 = LLMWhatapHost m) \<and>
     (\<not> LLMMode m \<longrightarrow> License c1 = getValue S1 ''license'')"
  by (simp add: applyConf_def apply_first_def apply_last_def Let_def apply_main_def ConfLLM_Apply_def ApplyChannelOverride_def)

subsection \<open>Reloads follow the file\<close>

text \<open>The polls of the file: the time of each and the time of the file. The content is a function of the time of the file.\<close>

fun polls_ok :: "int \<Rightarrow> (int \<times> int) list \<Rightarrow> bool" where
  "polls_ok t [] \<longleftrightarrow> True"
| "polls_ok t ((n, ft) # ps) \<longleftrightarrow> i64 (t + 3000) \<le> n \<and> polls_ok n ps"

definition pollAll :: "conf_lib \<Rightarrow> conf_process \<Rightarrow> (int \<Rightarrow> string \<rightharpoonup> string) \<Rightarrow> (int \<times> int) list \<Rightarrow> conf_state \<Rightarrow> conf_state" where
  "pollAll L P content ps st = fold (\<lambda>(n, ft). reload L P n (FileAt ft (content ft))) ps st"

definition changes :: "int list \<Rightarrow> nat" where
  "changes ts = length (remdups_adj ts) - 1"

lemma changes_Cons: "changes (a # b # ts) = (if a = b then 0 else 1) + changes (b # ts)"
  by (cases ts) (auto simp: changes_def)

lemma applyWith_sel [simp]:
  "last_file_time (applyWith L P p st) = last_file_time st" "last_check (applyWith L P p st) = last_check st" "loaded (applyWith L P p st) = p"
  "observersRun (applyWith L P p st) = observersRun st"
  "cfg (applyWith L P p st) = applyConf L (pCloser P) \<lparr>getenv = pEnv P, props = p, AppType = pAppType P, UseEnvFirst = True\<rparr> (cfg st)"
  by (simp_all add: applyWith_def)

definition settled :: "conf_lib \<Rightarrow> conf_process \<Rightarrow> (int \<Rightarrow> string \<rightharpoonup> string) \<Rightarrow> conf_state \<Rightarrow> bool" where
  "settled L P content st \<longleftrightarrow> loaded st = content (last_file_time st) \<and>
     (\<exists>c. cfg st = applyConf L (pCloser P) \<lparr>getenv = pEnv P, props = loaded st, AppType = pAppType P, UseEnvFirst = True\<rparr> c)"

lemma reload_settled:
  assumes "i64 (last_check st + 3000) \<le> n" and "settled L P content st"
  shows "settled L P content (reload L P n (FileAt ft (content ft)) st) \<and> last_file_time (reload L P n (FileAt ft (content ft)) st) = ft \<and>
     last_check (reload L P n (FileAt ft (content ft)) st) = n \<and>
     observersRun (reload L P n (FileAt ft (content ft)) st) = observersRun st + (if last_file_time st = ft then 0 else 1)"
  using assms by (auto simp: reload_def Let_def settled_def)


lemma same_second_missed:
  assumes "last_file_time st = ft"
  shows "loaded (reload L P n (FileAt ft p) st) = loaded st \<and> cfg (reload L P n (FileAt ft p) st) = cfg st"
  using assms by (simp add: reload_def Let_def)

lemma deletion_not_announced:
  "observersRun (reload L P n NotExist st) = observersRun st"
  by (simp add: reload_def Let_def)

text \<open>An argument that only begins like \<^verbatim>\<open>-t\<close> sets the application type, and a last \<^verbatim>\<open>-t\<close> ends the program.\<close>

lemma trace_flag_sets_type: "initAppType uni g env [''app'', ''-trace=3''] = Some 3" and last_t_panics: "initAppType uni g env [''app'', ''-t''] = None"
proof -
  have a: "argsAppType uni [''app'', ''-trace=3''] = Some ''3''" "argsAppType uni [''app'', ''-t''] = None"
    by code_simp+
  have "itoa 3 = ''3''" by code_simp
  then have "Atoi ''3'' = Some 3" using Atoi_itoa [of 3] by simp
  moreover have "i16 3 = 3" by (simp add: i16_def signed_take_bit_int_eq_self)
  ultimately show "initAppType uni g env [''app'', ''-trace=3''] = Some 3" "initAppType uni g env [''app'', ''-t''] = None"
    unfolding initAppType_def a by simp_all
qed

subsection \<open>Concrete values\<close>

definition confLib1 :: conf_lib where
  "confLib1 = \<lparr>Tokenizer = (\<lambda>s d. SplitAt (hd d) s), HashStr = (\<lambda>s. int (length s)), HashCode = (\<lambda>s. int (length s)), TrimEmpty = TrimSpace,
     IsNotEmpty = (\<lambda>s. s \<noteq> []), TruncateRune = (\<lambda>s n. take (nat n) s), upperUni = (\<lambda>s. s)\<rparr>"

definition confSrc1 :: "(string \<rightharpoonup> string) \<Rightarrow> conf_src" where
  "confSrc1 p = \<lparr>getenv = (\<lambda>_. []), props = p, AppType = APP_TYPE_GO, UseEnvFirst = False\<rparr>"

lemma getValue_confSrc1: "getValue (confSrc1 p) k = (case p k of None \<Rightarrow> [] | Some v \<Rightarrow> TrimSpace v)"
proof -
  have t: "TrimSpace [] = []" by code_simp
  have "envValue (confSrc1 p) k = []" by (simp add: envValue_def confSrc1_def t split: option.split)
  then show ?thesis by (simp add: getValue_def confSrc1_def prefixedKey_def t split: option.split)
qed

lemma withEnvFirst_confSrc1: "p ''use_env_first'' = None \<Longrightarrow> withEnvFirst (confSrc1 p) = confSrc1 p"
proof -
  assume p: "p ''use_env_first'' = None"
  have t: "TrimSpace [] = []" by code_simp
  have "envValue ((confSrc1 p)\<lparr>UseEnvFirst := True\<rparr>) ''use_env_first'' = []" by (simp add: envValue_def confSrc1_def t split: option.split)
  then have "getValue ((confSrc1 p)\<lparr>UseEnvFirst := True\<rparr>) ''use_env_first'' = []" using p by (simp add: getValue_def confSrc1_def prefixedKey_def t)
  then show ?thesis by (simp add: withEnvFirst_def getBoolean_def confSrc1_def)
qed

theorem numbers_not_in_set_witness:
  "GetIntSet confLib1 (confSrc1 [''status_ignore'' \<mapsto> ''404,500'']) ''status_ignore'' [] '','' = {}"
proof -
  let ?S = "confSrc1 [''status_ignore'' \<mapsto> ''404,500'']"
  have t: "TrimSpace ''404,500'' = ''404,500''" "TrimSpace ''404'' = itoa 404" "TrimSpace ''500'' = itoa 500" by code_simp+
  have tk: "SplitAt CHR '','' ''404,500'' = [''404'', ''500'']" by code_simp
  have v: "getValueDef ?S ''status_ignore'' [] = ''404,500''" using t(1) by (simp add: getValueDef_def getValue_confSrc1)
  have "\<forall>x\<in>set (Tokenizer confLib1 (getValueDef ?S ''status_ignore'' []) '',''). Atoi (TrimEmpty confLib1 x) \<noteq> None"
    unfolding v using t(2,3) Atoi_itoa [of 404] Atoi_itoa [of 500] tk by (simp add: confLib1_def)
  then show ?thesis by (rule numbers_not_in_set)
qed

theorem close_tcp_skips_rest_witness:
  "\<forall>c. let S = confSrc1 [''debug_close_tcp'' \<mapsto> ''1'']; c1 = applyConf confLib1 False S (c\<lparr>DebugCloseTcp := 0\<rparr>) in
     cTrace c1 = cTrace c \<and> cTrace (applyConf confLib1 False S c1) = ConfTrace_Apply confLib1 S"
proof
  fix c :: AgentConfig
  let ?S = "confSrc1 [''debug_close_tcp'' \<mapsto> ''1'']"
  have w: "withEnvFirst ?S = ?S" by (rule withEnvFirst_confSrc1) simp
  have "itoa 1 = ''1''" "TrimSpace ''1'' = ''1''" by code_simp+
  then have "getInt ?S ''debug_close_tcp'' 0 = 1" using Atoi_itoa [of 1] by (simp add: getInt_def getValue_confSrc1 ParseInt_def)
  then have "getInt (withEnvFirst ?S) ''debug_close_tcp'' 0 \<noteq> DebugCloseTcp (c\<lparr>DebugCloseTcp := 0\<rparr>)" using w by simp
  from close_tcp_skips_rest [OF this, of confLib1] w
  show "let S = ?S; c1 = applyConf confLib1 False S (c\<lparr>DebugCloseTcp := 0\<rparr>) in
     cTrace c1 = cTrace c \<and> cTrace (applyConf confLib1 False S c1) = ConfTrace_Apply confLib1 S" by (simp add: Let_def)
qed


end
