(* ===== verification/Config_File.thy ===== *)
theory Config_File
  imports Config_Values
begin

text \<open>
  Writing settings back to the file (\<open>SetValues\<close> of \<^verbatim>\<open>agent/agent/config/Config.go\<close>). The library \<^verbatim>\<open>properties\<close> is the parameter \<open>props_lib\<close>: what
  the loaded file is, and \<open>Set\<close>, \<open>Get\<close> and \<open>Keys\<close> on it. The file is read again with \<^verbatim>\<open>bufio.Reader.ReadLine\<close>, whose buffer
  has 4096 bytes: a longer line comes in pieces, and the code takes each for a line. The order of the map of new values is the order of
  the list. File operations succeed; the result is the text that is written.
\<close>

record 'p props_lib =
  PSet :: "string \<Rightarrow> string \<Rightarrow> 'p \<Rightarrow> 'p"
  PGet :: "'p \<Rightarrow> string \<Rightarrow> string option"
  PKeys :: "'p \<Rightarrow> string list"

subsection \<open>Reading lines\<close>

definition readerSize :: nat where "readerSize = 4096"

definition dropEOL :: "string \<Rightarrow> string" where
  "dropEOL s = (if s \<noteq> [] \<and> last s = CHR 0x0D then butlast s else s)"

text \<open>One call of \<open>ReadLine\<close> on a text that is not empty: the line, and what is left.\<close>

definition ReadLine :: "string \<Rightarrow> string \<times> string" where
  "ReadLine s =
     (let l = takeWhile (\<lambda>c. c \<noteq> NL) s in
      if length l < readerSize \<and> length l < length s then (dropEOL l, drop (length l + 1) s)
      else if length s \<ge> readerSize then (let piece = dropEOL (take readerSize s) in (piece, drop (length piece) s))
      else (s, []))"

lemma dropEOL_length: "length s \<le> Suc (length (dropEOL s))"
  by (simp add: dropEOL_def)

lemma ReadLine_shorter:
  assumes "s \<noteq> []"
  shows "length (snd (ReadLine s)) < length s"
proof -
  have "0 < length (dropEOL (take readerSize s))" if "readerSize \<le> length s"
    using that dropEOL_length [of "take readerSize s"] by (cases "dropEOL (take readerSize s)") (auto simp: readerSize_def)
  then show ?thesis using assms by (auto simp: ReadLine_def Let_def)
qed

function readLines :: "string \<Rightarrow> string list" where
  "readLines s = (if s = [] then [] else fst (ReadLine s) # readLines (snd (ReadLine s)))"
  by pat_completeness auto
termination by (relation "measure length") (auto simp: ReadLine_shorter)

declare readLines.simps [simp del]

subsection \<open>Package strings\<close>

definition TrimChar :: "char \<Rightarrow> string \<Rightarrow> string" where
  "TrimChar c s = rev (dropWhile (\<lambda>x. x = c) (rev (dropWhile (\<lambda>x. x = c) s)))"

text \<open>The two replacements of a value: a pair of backslashes by one, then one by a pair.\<close>

fun unpair :: "string \<Rightarrow> string" where
  "unpair (a # b # cs) = (if a = BACKSLASH \<and> b = BACKSLASH then BACKSLASH # unpair cs else a # unpair (b # cs))"
| "unpair cs = cs"

definition pairUp :: "string \<Rightarrow> string" where
  "pairUp s = concat (map (\<lambda>c. if c = BACKSLASH then [BACKSLASH, BACKSLASH] else [c]) s)"

definition escaped :: "string \<Rightarrow> string" where
  "escaped v = pairUp (unpair v)"

text \<open>The pattern \<^verbatim>\<open>^\w\<close>.\<close>

definition wordStart :: "string \<Rightarrow> bool" where
  "wordStart s \<longleftrightarrow> s \<noteq> [] \<and> (let n = (of_char (hd s) :: nat) in 48 \<le> n \<and> n \<le> 57 \<or> 65 \<le> n \<and> n \<le> 90 \<or> 97 \<le> n \<and> n \<le> 122 \<or> n = 95)"

subsection \<open>SetValues\<close>

definition storedKey :: "app_type \<Rightarrow> string \<Rightarrow> string" where
  "storedKey t k =
     (if TrimSpace k = [] then k
      else if t = APP_TYPE_PHP then (if \<not> HasPrefix k ''whatap.'' \<and> k \<noteq> ''extension'' then ''whatap.'' @ k else k)
      else if t = APP_TYPE_BSM_PHP then (if \<not> HasPrefix k ''opsnowbsm.'' \<and> k \<noteq> ''extension'' then ''opsnowbsm.'' @ k else k)
      else k)"

definition setAll :: "'p props_lib \<Rightarrow> app_type \<Rightarrow> (string \<times> string) list \<Rightarrow> 'p \<Rightarrow> 'p" where
  "setAll L t kvs p = fold (\<lambda>(k, v). PSet L (storedKey t k) v) kvs p"

definition assignment :: "string \<Rightarrow> string \<Rightarrow> string" where
  "assignment k v = k @ ''='' @ escaped v @ [NL]"

text \<open>What is written for a line of the old file, and the key it has.\<close>

definition oldLine :: "'p props_lib \<Rightarrow> 'p \<Rightarrow> string \<Rightarrow> string \<times> string option" where
  "oldLine L p line =
     (if CHR ''='' \<notin> set line then (line @ [NL], None)
      else (let parts = SplitAt CHR ''='' line; k = TrimChar CHR '' '' (parts ! 0); value0 = TrimChar CHR '' '' (parts ! 1);
                value = (if wordStart k then (case PGet L p k of Some v \<Rightarrow> if TrimSpace v \<noteq> [] then v else value0 | None \<Rightarrow> value0) else value0) in
            (if TrimSpace value \<noteq> [] then assignment k value else [], Some k)))"

definition newLine :: "'p props_lib \<Rightarrow> 'p \<Rightarrow> string set \<Rightarrow> string \<Rightarrow> string" where
  "newLine L p old k =
     (if k \<in> old \<or> \<not> wordStart k then []
      else (case PGet L p k of Some v \<Rightarrow> if TrimSpace v \<noteq> [] then assignment k v else [] | None \<Rightarrow> []))"

definition SetValues :: "'p props_lib \<Rightarrow> app_type \<Rightarrow> 'p \<Rightarrow> (string \<times> string) list \<Rightarrow> string \<Rightarrow> string" where
  "SetValues L t loaded kvs text =
     (let p = setAll L t kvs loaded; olds = map (oldLine L p) (readLines text); old = set (List.map_filter snd olds) in
      concat (map fst olds) @ concat (map (newLine L p old) (PKeys L p)))"

subsection \<open>Lines\<close>

definition textLines :: "string \<Rightarrow> string list" where
  "textLines s = butlast (SplitAt NL s)"

definition unlinesNL :: "string list \<Rightarrow> string" where
  "unlinesNL ls = concat (map (\<lambda>l. l @ [NL]) ls)"

lemma SplitAt_nonempty [simp]: "SplitAt c s \<noteq> []"
  by (induction s) (auto split: list.splits)

lemma SplitAt_line: "c \<notin> set l \<Longrightarrow> SplitAt c (l @ c # s) = l # SplitAt c s"
  by (induction l) auto

lemma SplitAt_no: "c \<notin> set s \<Longrightarrow> SplitAt c s = [s]"
  by (induction s) auto

lemma SplitAt_parts: "w \<in> set (SplitAt c s) \<Longrightarrow> c \<notin> set w \<and> set w \<subseteq> set s"
proof (induction s arbitrary: w)
  case (Cons x xs)
  then show ?case
  proof (cases "x = c")
    case False
    obtain p ps where p: "SplitAt c xs = p # ps" by (meson SplitAt_nonempty neq_Nil_conv)
    then have "w = x # p \<or> w \<in> set ps" using Cons.prems False by simp
    then show ?thesis using Cons.IH [of p] Cons.IH [of w] p False by auto
  qed auto
qed simp

lemma SplitAt_two: "c \<in> set s \<Longrightarrow> 1 < length (SplitAt c s)"
proof (induction s)
  case (Cons x xs)
  obtain p ps where p: "SplitAt c xs = p # ps" by (meson SplitAt_nonempty neq_Nil_conv)
  then show ?case using Cons by auto
qed simp

lemma textLines_unlinesNL: "list_all (\<lambda>l. NL \<notin> set l) ls \<Longrightarrow> textLines (unlinesNL ls) = ls"
proof (induction ls)
  case (Cons l ls)
  then have "SplitAt NL (unlinesNL (l # ls)) = l # SplitAt NL (unlinesNL ls)" by (simp add: unlinesNL_def SplitAt_line)
  then show ?case using Cons by (simp add: textLines_def)
qed (simp add: textLines_def unlinesNL_def)

lemma unlinesNL_append [simp]: "unlinesNL (a @ b) = unlinesNL a @ unlinesNL b"
  by (simp add: unlinesNL_def)

lemma unlinesNL_concat: "unlinesNL (concat (map f xs)) = concat (map (\<lambda>x. unlinesNL (f x)) xs)"
  by (induction xs) (simp_all add: unlinesNL_def)

lemma dropEOL_set: "set (dropEOL s) \<subseteq> set s"
  by (auto simp: dropEOL_def dest: in_set_butlastD)

lemma ReadLine_no_NL: "s \<noteq> [] \<Longrightarrow> NL \<notin> set (fst (ReadLine s))"
proof -
  let ?l = "takeWhile (\<lambda>c. c \<noteq> NL) s"
  have l: "NL \<notin> set ?l" by (auto dest: set_takeWhileD)
  have long: "NL \<notin> set (take readerSize s)" if "readerSize \<le> length ?l"
    using that l by (metis set_take_subset subsetD takeWhile_dropWhile_id take_append append_self_conv take0 diff_is_0_eq' )
  have all: "NL \<notin> set s" if "length ?l = length s" using that l by (metis takeWhile_eq_take take_all order_refl)
  have le: "length ?l \<le> length s" by (rule length_takeWhile_le)
  show ?thesis
    using l long all le dropEOL_set [of ?l] dropEOL_set [of "take readerSize s"] by (auto simp: ReadLine_def Let_def not_less dest: in_set_takeD)
qed

lemma readLines_no_NL: "l \<in> set (readLines s) \<Longrightarrow> NL \<notin> set l"
proof (induction s rule: readLines.induct)
  case (1 s)
  show ?case
  proof (cases "s = []")
    case True
    then show ?thesis using "1.prems" by (simp add: readLines.simps)
  next
    case False
    then have "l = fst (ReadLine s) \<or> l \<in> set (readLines (snd (ReadLine s)))" using "1.prems" by (subst (asm) readLines.simps) auto
    then show ?thesis using 1 False ReadLine_no_NL [OF False] by blast
  qed
qed

subsection \<open>The text that is written, by lines\<close>

lemma TrimChar_set: "set (TrimChar c s) \<subseteq> set s"
  by (auto simp: TrimChar_def dest!: set_dropWhileD)

lemma unpair_set: "set (unpair s) \<subseteq> set s"
  by (induction s rule: unpair.induct) auto

lemma escaped_set: "set (escaped v) \<subseteq> set v"
  using unpair_set [of v] by (auto simp: escaped_def pairUp_def split: if_splits)

definition lineKey :: "string \<Rightarrow> string option" where
  "lineKey line = (if CHR ''='' \<in> set line then Some (TrimChar CHR '' '' (SplitAt CHR ''='' line ! 0)) else None)"

definition lineValue :: "'p props_lib \<Rightarrow> 'p \<Rightarrow> string \<Rightarrow> string" where
  "lineValue L p line =
     (let parts = SplitAt CHR ''='' line; k = TrimChar CHR '' '' (parts ! 0); value0 = TrimChar CHR '' '' (parts ! 1) in
      if wordStart k then (case PGet L p k of Some v \<Rightarrow> if TrimSpace v \<noteq> [] then v else value0 | None \<Rightarrow> value0) else value0)"

definition oldOut :: "'p props_lib \<Rightarrow> 'p \<Rightarrow> string \<Rightarrow> string list" where
  "oldOut L p line =
     (case lineKey line of None \<Rightarrow> [line] | Some k \<Rightarrow> if TrimSpace (lineValue L p line) \<noteq> [] then [k @ ''='' @ escaped (lineValue L p line)] else [])"

lemma oldLine_eq: "oldLine L p line = (unlinesNL (oldOut L p line), lineKey line)"
  by (simp add: oldLine_def oldOut_def lineKey_def lineValue_def Let_def unlinesNL_def assignment_def)

definition newOut :: "'p props_lib \<Rightarrow> 'p \<Rightarrow> string set \<Rightarrow> string \<Rightarrow> string list" where
  "newOut L p old k =
     (if k \<in> old \<or> \<not> wordStart k then []
      else (case PGet L p k of Some v \<Rightarrow> if TrimSpace v \<noteq> [] then [k @ ''='' @ escaped v] else [] | None \<Rightarrow> []))"

lemma newLine_eq: "newLine L p old k = unlinesNL (newOut L p old k)"
  by (simp add: newLine_def newOut_def unlinesNL_def assignment_def split: option.split)

definition writtenLines :: "'p props_lib \<Rightarrow> 'p \<Rightarrow> string list \<Rightarrow> string list" where
  "writtenLines L p lines =
     concat (map (oldOut L p) lines) @ concat (map (newOut L p {k. Some k \<in> lineKey ` set lines}) (PKeys L p))"

lemma SetValues_lines: "SetValues L t ld kvs text = unlinesNL (writtenLines L (setAll L t kvs ld) (readLines text))"
proof -
  have "set (List.map_filter snd (map (oldLine L p) ls)) = {k. Some k \<in> lineKey ` set ls}" for p ls
    by (induction ls) (auto simp: List.map_filter_simps oldLine_eq split: option.split)
  then show ?thesis
    by (simp add: SetValues_def Let_def writtenLines_def unlinesNL_concat oldLine_eq newLine_eq [abs_def] comp_def)
qed

lemma part_set:
  assumes "CHR ''='' \<in> set line"
  shows "set (SplitAt CHR ''='' line ! 0) \<subseteq> set line" and "set (SplitAt CHR ''='' line ! 1) \<subseteq> set line" and "CHR ''='' \<notin> set (SplitAt CHR ''='' line ! 0)"
  using SplitAt_two [OF assms] SplitAt_parts [of _ "CHR ''=''" line] by (meson nth_mem order.strict_trans less_numeral_extra(1))+

lemma written_no_NL:
  assumes "\<forall>l\<in>set lines. NL \<notin> set l" and "\<forall>k v. PGet L p k = Some v \<longrightarrow> NL \<notin> set v" and "\<forall>k\<in>set (PKeys L p). NL \<notin> set k"
  shows "list_all (\<lambda>l. NL \<notin> set l) (writtenLines L p lines)"
proof -
  have "NL \<notin> set l" if "l \<in> set (oldOut L p line)" "line \<in> set lines" for l line
  proof (cases "CHR ''='' \<in> set line")
    case True
    note ps = part_set [OF True]
    have nl: "NL \<notin> set line" using assms(1) that(2) by blast
    have k: "NL \<notin> set (TrimChar CHR '' '' (SplitAt CHR ''='' line ! i))" if "i = 0 \<or> i = 1" for i
      using ps(1,2) nl TrimChar_set [of "CHR '' ''" "SplitAt CHR ''='' line ! i"] that by auto
    have "NL \<notin> set (lineValue L p line)" using k assms(2) by (auto simp: lineValue_def Let_def split: option.splits)
    then have "NL \<notin> set (escaped (lineValue L p line))" using escaped_set by blast
    then show ?thesis using that(1) k [of 0] True by (auto simp: oldOut_def lineKey_def split: if_splits)
  next
    case False
    then show ?thesis using that assms(1) by (auto simp: oldOut_def lineKey_def)
  qed
  moreover have "NL \<notin> set l" if "l \<in> set (newOut L p old k)" "k \<in> set (PKeys L p)" for l k old
    using that assms(2,3) escaped_set by (fastforce simp: newOut_def split: if_splits option.splits)
  ultimately show ?thesis by (auto simp: writtenLines_def list_all_iff)
qed

subsection \<open>What SetValues does to the settings of the file\<close>

text \<open>The values that lines of the form \<^verbatim>\<open>key=value\<close> give to a key.\<close>

definition valuesOf :: "string \<Rightarrow> string list \<Rightarrow> string list" where
  "valuesOf k ls = map (\<lambda>l. drop (length k + 1) l) (filter (\<lambda>l. HasPrefix l (k @ ''='')) ls)"

lemma key_prefix_iff:
  assumes "CHR ''='' \<notin> set k" and "CHR ''='' \<notin> set k'"
  shows "HasPrefix (k' @ ''='' @ e) (k @ ''='') \<longleftrightarrow> k' = k"
proof
  assume "HasPrefix (k' @ ''='' @ e) (k @ ''='')"
  then obtain t where t: "k' @ CHR ''='' # e = k @ CHR ''='' # t" by (auto simp: HasPrefix_iff)
  have "k' = takeWhile (\<lambda>c. c \<noteq> CHR ''='') (k' @ CHR ''='' # e)" using assms(2) by (induction k') auto
  also have "\<dots> = takeWhile (\<lambda>c. c \<noteq> CHR ''='') (k @ CHR ''='' # t)" by (simp only: t)
  also have "\<dots> = k" using assms(1) by (induction k) auto
  finally show "k' = k" .
qed (simp add: HasPrefix_def)

lemma valuesOf_append [simp]: "valuesOf k [] = []" "valuesOf k (a @ b) = valuesOf k a @ valuesOf k b"
  by (simp_all add: valuesOf_def)

lemma valuesOf_concat [simp]: "valuesOf k (concat ls) = concat (map (valuesOf k) ls)"
  by (induction ls) simp_all

lemma valuesOf_assignment:
  assumes "CHR ''='' \<notin> set k" and "CHR ''='' \<notin> set k'"
  shows "valuesOf k [k' @ ''='' @ e] = (if k' = k then [e] else [])"
  using key_prefix_iff [OF assms, of e] by (simp add: valuesOf_def)

lemma lineKey_no_eq: "lineKey line = Some k \<Longrightarrow> CHR ''='' \<notin> set k"
  using part_set(3) [of line] TrimChar_set [of "CHR '' ''" "SplitAt CHR ''='' line ! 0"] by (auto simp: lineKey_def split: if_splits)

text \<open>A line of the old file keeps its key; the key gets the value that the properties now have for it.\<close>

lemma valuesOf_oldOut:
  assumes "CHR ''='' \<notin> set k" and "wordStart k" and "PGet L p k = Some v" and "TrimSpace v \<noteq> []"
  shows "valuesOf k (oldOut L p line) = (if lineKey line = Some k then [escaped v] else [])"
proof (cases "lineKey line")
  case None
  then have "CHR ''='' \<notin> set line" by (auto simp: lineKey_def split: if_splits)
  then have "\<not> HasPrefix line (k @ ''='')" by (auto simp: HasPrefix_iff)
  then show ?thesis using None by (simp add: oldOut_def valuesOf_def)
next
  case (Some k')
  have "lineValue L p line = v" if "k' = k"
    using Some that assms(2-4) by (auto simp: lineKey_def lineValue_def Let_def split: if_splits)
  then show ?thesis
    using Some valuesOf_assignment [OF assms(1) lineKey_no_eq [OF Some], of "escaped (lineValue L p line)"] assms(4) by (auto simp: oldOut_def)
qed

lemma valuesOf_newOut:
  assumes "CHR ''='' \<notin> set k" and "wordStart k" and "PGet L p k = Some v" and "TrimSpace v \<noteq> []" and "CHR ''='' \<notin> set k'"
  shows "valuesOf k (newOut L p old k') = (if k' = k \<and> k \<notin> old then [escaped v] else [])"
  using assms valuesOf_assignment [OF assms(1,5)] by (auto simp: newOut_def split: option.split)

lemma concat_if_distinct: "distinct ks \<Longrightarrow> concat (map (\<lambda>x. if x = k \<and> c then [e] else []) ks) = (if k \<in> set ks \<and> c then [e] else [])"
  by (induction ks) auto

lemma concat_if_count: "concat (map (\<lambda>x. if f x = a then [e] else []) xs) = replicate (length (filter (\<lambda>x. f x = a) xs)) e"
  by (induction xs) auto

lemma valuesOf_written:
  assumes "CHR ''='' \<notin> set k" and "wordStart k" and "PGet L p k = Some v" and "TrimSpace v \<noteq> []"
    and "distinct (PKeys L p)" and "k \<in> set (PKeys L p)" and "\<forall>k'\<in>set (PKeys L p). CHR ''='' \<notin> set k'"
    and "length (filter (\<lambda>l. lineKey l = Some k) lines) \<le> 1"
  shows "valuesOf k (writtenLines L p lines) = [escaped v]"
proof -
  let ?n = "length (filter (\<lambda>l. lineKey l = Some k) lines)" and ?old = "{k. Some k \<in> lineKey ` set lines}"
  have "map (\<lambda>x. valuesOf k (newOut L p ?old x)) (PKeys L p) = map (\<lambda>x. if x = k \<and> k \<notin> ?old then [escaped v] else []) (PKeys L p)"
    using valuesOf_newOut [OF assms(1-4)] assms(7) by (intro map_cong) auto
  then have n: "concat (map (\<lambda>x. valuesOf k (newOut L p ?old x)) (PKeys L p)) = (if k \<notin> ?old then [escaped v] else [])"
    using assms(5,6) concat_if_distinct [of "PKeys L p" k "k \<notin> ?old"] by metis
  have "map (\<lambda>x. valuesOf k (oldOut L p x)) lines = map (\<lambda>x. if lineKey x = Some k then [escaped v] else []) lines"
    using valuesOf_oldOut [OF assms(1-4)] by (intro map_cong) auto
  then have o: "concat (map (\<lambda>x. valuesOf k (oldOut L p x)) lines) = replicate ?n (escaped v)"
    using concat_if_count [of lineKey "Some k"] by metis
  have "valuesOf k (writtenLines L p lines) = replicate ?n (escaped v) @ (if k \<notin> ?old then [escaped v] else [])"
    unfolding writtenLines_def valuesOf_append valuesOf_concat map_map comp_def n o ..
  moreover have "k \<in> ?old \<longleftrightarrow> ?n \<noteq> 0" by (force simp: filter_empty_conv)
  ultimately show ?thesis using assms(8) by (cases ?n) auto
qed

text \<open>What the properties library promises: \<open>Get\<close> after \<open>Set\<close>, and every key once.\<close>

definition props_laws :: "'p props_lib \<Rightarrow> bool" where
  "props_laws L \<longleftrightarrow> (\<forall>k v p. PGet L (PSet L k v p) = (PGet L p)(k \<mapsto> v)) \<and> (\<forall>p. distinct (PKeys L p) \<and> set (PKeys L p) = dom (PGet L p))"

abbreviation stored :: "app_type \<Rightarrow> (string \<times> string) list \<Rightarrow> (string \<times> string) list" where
  "stored t kvs \<equiv> map (\<lambda>(k, v). (storedKey t k, v)) kvs"

lemma setAll_get:
  assumes "props_laws L"
  shows "PGet L (setAll L t kvs p) = PGet L p ++ map_of (rev (stored t kvs))"
proof (induction kvs arbitrary: p)
  case (Cons kv kvs)
  obtain k v where kv: "kv = (k, v)" by force
  have "PGet L (setAll L t (kv # kvs) p) = PGet L (PSet L (storedKey t k) v p) ++ map_of (rev (stored t kvs))"
    using Cons.IH by (simp add: setAll_def kv)
  then show ?case using assms by (simp add: props_laws_def kv map_add_assoc [symmetric] fun_eq_iff map_add_def split: option.split)
qed (simp add: setAll_def)

lemma setAll_new:
  assumes "props_laws L" and "distinct (map fst (stored t kvs))" and "(k, v) \<in> set (stored t kvs)"
  shows "PGet L (setAll L t kvs p) k = Some v"
proof -
  have "distinct (map fst (rev (stored t kvs)))" using assms(2) by (simp add: rev_map [symmetric])
  moreover have "(k, v) \<in> set (rev (stored t kvs))" using assms(3) by simp
  ultimately have "map_of (rev (stored t kvs)) k = Some v" by (rule map_of_is_SomeI)
  then show ?thesis by (simp add: setAll_get [OF assms(1)])
qed

lemma setAll_other:
  assumes "props_laws L" and "k \<notin> fst ` set (stored t kvs)"
  shows "PGet L (setAll L t kvs p) k = PGet L p k"
proof -
  have "map_of (rev (stored t kvs)) k = None" using assms(2) by (simp add: map_of_eq_None_iff)
  then show ?thesis by (simp add: setAll_get [OF assms(1)] map_add_def)
qed

lemma setAll_some:
  assumes "props_laws L" and "PGet L (setAll L t kvs p) k = Some v"
  shows "(k, v) \<in> set (stored t kvs) \<or> PGet L p k = Some v"
  using assms(2) unfolding setAll_get [OF assms(1)] by (auto simp: map_add_Some_iff dest: map_of_SomeD)

text \<open>A file whose keys and values have one line each, with every key at most once.\<close>

definition plain_settings :: "(string \<times> string) set \<Rightarrow> bool" where
  "plain_settings kvs \<longleftrightarrow> (\<forall>(k, v)\<in>kvs. NL \<notin> set k \<and> CHR ''='' \<notin> set k \<and> NL \<notin> set v)"

definition keys_once :: "string \<Rightarrow> bool" where
  "keys_once text \<longleftrightarrow> (\<forall>k. length (filter (\<lambda>l. lineKey l = Some k) (readLines text)) \<le> 1)"

lemma filter_no_eq:
  "filter (\<lambda>l. CHR ''='' \<notin> set l) (writtenLines L p lines) = filter (\<lambda>l. CHR ''='' \<notin> set l) lines"
proof -
  have o: "filter (\<lambda>l. CHR ''='' \<notin> set l) (oldOut L p l) = filter (\<lambda>l. CHR ''='' \<notin> set l) [l]" for l
    by (auto simp: oldOut_def lineKey_def)
  have n: "filter (\<lambda>l. CHR ''='' \<notin> set l) (newOut L p old k) = []" for old k
    by (auto simp: newOut_def split: option.split)
  have "filter (\<lambda>l. CHR ''='' \<notin> set l) (concat (map (oldOut L p) lines)) = filter (\<lambda>l. CHR ''='' \<notin> set l) lines"
    using o by (induction lines) simp_all
  moreover have "filter (\<lambda>l. CHR ''='' \<notin> set l) (concat (map (newOut L p old) ks)) = []" for old ks
    using n by (induction ks) simp_all
  ultimately show ?thesis by (simp add: writtenLines_def)
qed


subsection \<open>Short and long lines\<close>

definition short_line :: "string \<Rightarrow> bool" where
  "short_line l \<longleftrightarrow> NL \<notin> set l \<and> length l < readerSize \<and> dropEOL l = l"

lemma ReadLine_line:
  assumes "short_line l"
  shows "ReadLine (l @ NL # s) = (l, s)"
proof -
  have "takeWhile (\<lambda>c. c \<noteq> NL) (l @ NL # s) = l" using assms by (induction l) (auto simp: short_line_def takeWhile_append)
  then show ?thesis using assms by (simp add: ReadLine_def short_line_def)
qed

lemma readLines_unlinesNL:
  assumes "list_all short_line ls"
  shows "readLines (unlinesNL ls @ s) = ls @ readLines s"
  using assms
proof (induction ls)
  case (Cons l ls)
  then have "ReadLine (l @ NL # (unlinesNL ls @ s)) = (l, unlinesNL ls @ s)" by (simp add: ReadLine_line)
  then show ?case using Cons by (subst readLines.simps) (simp add: unlinesNL_def)
qed (simp add: unlinesNL_def)

lemma readLines_Nil [simp]: "readLines [] = []"
  by (simp add: readLines.simps)

text \<open>A line of more than 4096 bytes is written back as two lines: what stands behind the 4096th byte of a comment becomes a setting.\<close>

lemma long_comment_split:
  assumes "length c = readerSize" and "NL \<notin> set c" and "dropEOL c = c" and "short_line rest"
  shows "readLines (c @ rest @ [NL]) = [c, rest]"
proof -
  have "takeWhile (\<lambda>x. x \<noteq> NL) (c @ rest @ [NL]) = c @ takeWhile (\<lambda>x. x \<noteq> NL) (rest @ [NL])" using assms(2) by (induction c) auto
  then have "ReadLine (c @ rest @ [NL]) = (c, rest @ [NL])" using assms(1,3) by (simp add: ReadLine_def Let_def)
  moreover have "c @ rest @ [NL] \<noteq> []" by simp
  ultimately have "readLines (c @ rest @ [NL]) = c # readLines (rest @ [NL])" by (subst readLines.simps) simp
  then show ?thesis using readLines_unlinesNL [of "[rest]" "[]"] assms(4) by (simp add: unlinesNL_def)
qed

text \<open>A comment with two equals signs loses what stands behind the second.\<close>

lemma comment_cut: "fst (oldLine L p ''# a=b=c'') = ''# a=b'' @ [NL]"
  by code_simp

subsection \<open>A concrete update\<close>

definition propsLib1 :: "(string \<times> string) list props_lib" where
  "propsLib1 = \<lparr>PSet = AList.update, PGet = map_of, PKeys = (\<lambda>p. map fst (AList.clearjunk p))\<rparr>"

lemma propsLib1_laws: "props_laws propsLib1"
proof -
  have "set (map fst (AList.clearjunk p)) = dom (map_of p)" for p :: "(string \<times> string) list"
    by (simp add: dom_map_of_conv_image_fst [symmetric] AList.map_of_clearjunk)
  then show ?thesis by (simp add: props_laws_def propsLib1_def AList.update_conv' AList.distinct_clearjunk)
qed


end
