(* ===== verification/Spec2Isabelle.thy ===== *)
theory Spec2Isabelle
  imports Escape_Sql Secure Profile_Circular Profile_Large Profile_Split Profile_Normal Llm_Metering Llm_Sender Llm_Anthropic Logsink Url_Pattern Zip_Batch Net_Session Stat_Calls Counters Data_Text App_Context Web_Middleware Http_Client Watch_Log Config_Apply Config_File
begin

text \<open>
  A verification development for the Go library and agent of application monitoring under \<^verbatim>\<open>src/\<close>.

  The program. User code calls the library (\<^verbatim>\<open>trace\<close>, \<^verbatim>\<open>sql\<close>, \<^verbatim>\<open>httpc\<close>, \<^verbatim>\<open>method\<close>, \<^verbatim>\<open>llm\<close>, \<^verbatim>\<open>logsink\<close>) directly or through the
  wrappers of \<^verbatim>\<open>instrumentation\<close>. The library keeps a handle per transaction and passes its steps to the agent
  (\<^verbatim>\<open>agent/agent/trace\<close>), which collects them into a profile. When a transaction ends, the agent normalises its URL,
  counts it in statistics and meters, decides whether its profile is kept, and puts it into a batch. Batches, counter
  packs, texts behind hashes and logs are sent over one connection to the server (\<^verbatim>\<open>agent/net\<close>). The configuration
  (\<^verbatim>\<open>agent/agent/config\<close>) is read from a file and the environment, and steers all of it.

  The theories, by part.

  \<^item> Ground: \<open>Prelude\<close> (results of Go code that may panic, slices, 32- and 64-bit wrap-around, strings), \<open>Go_Std\<close> (\<^verbatim>\<open>strconv\<close>,
    \<^verbatim>\<open>http.Header\<close>), \<open>Go_Scanner\<close> (\<^verbatim>\<open>bufio.Scanner\<close>).
  \<^item> SQL text: \<open>Escape_Sql\<close> (\<^verbatim>\<open>agent/util/sqlutil/EscapeLiteralSQL.go\<close>) is the byte automaton and its reference \<open>scan\<close>;
    \<open>Parsed_Sql\<close> the table of escaped statements (\<^verbatim>\<open>agent/agent/trace/ParsedSql.go\<close>).
  \<^item> Secrets: \<open>Secure\<close> (\<^verbatim>\<open>agent/agent/secure\<close>, \<^verbatim>\<open>agent/util/crypto/Cypher.go\<close>): the cipher of parameters and that of packets.
  \<^item> Profiles: \<open>Profile_Step\<close> (steps and the contract of a collector), \<open>Profile_Circular\<close>, \<open>Profile_Large\<close>, \<open>Profile_Split\<close>,
    \<open>Profile_Normal\<close> (the four collectors of \<^verbatim>\<open>agent/agent/trace\<close>).
  \<^item> Transactions: \<open>Mtrace\<close> (headers that link transactions of several processes), \<open>Trace_Agent\<close> (the context in the
    agent), \<open>Trace_Api\<close> (handles, pools and the table of goroutines of \<^verbatim>\<open>trace/Trace.go\<close>), \<open>Trace_Http\<close> (requests:
    \<^verbatim>\<open>StartWithRequest\<close>, \<^verbatim>\<open>Func\<close>, the response writer), \<open>Web_Middleware\<close> (gin, echo, chi, mux, fasthttp, fiber, \<^verbatim>\<open>trace/wrap.go\<close>).
  \<^item> Calls inside a transaction: \<open>Call_Api\<close> (\<^verbatim>\<open>agent/agent/trace/api\<close>), \<open>Call_User\<close> (\<^verbatim>\<open>sql\<close>, \<^verbatim>\<open>httpc\<close>, \<^verbatim>\<open>method\<close>), \<open>Http_Client\<close>
    (\<^verbatim>\<open>whataphttp\<close>).
  \<^item> LLM calls: \<open>Llm_Chunk\<close>, \<open>Llm_Pack\<close>, \<open>Llm_State\<close>, \<open>Llm_Sender\<close> (\<^verbatim>\<open>agent/agent/llm\<close>, \<^verbatim>\<open>llm\<close>), \<open>Meter_Llm\<close> and \<open>Task_Llm\<close> (the
    meter and the task that sends it), \<open>Llm_Metering\<close> (both together), \<open>Llm_Adapter\<close>, \<open>Llm_Openai\<close>, \<open>Llm_Anthropic\<close> (the adapters
    of go-openai, openai-go, the Anthropic client and eino under \<^verbatim>\<open>instrumentation/llm\<close>).
  \<^item> Logs: \<open>Logsink\<close> (\<^verbatim>\<open>agent/logsink\<close>, the line buffer, captured streams), \<open>Watch_Log\<close> (log files that are followed).
  \<^item> What becomes of a finished transaction: \<open>Url_Pattern\<close> and \<open>App_Context\<close> (normal forms and contexts of URLs), \<open>Keyed_Stat\<close>,
    \<open>Stat_Tables\<close>, \<open>Stat_Calls\<close> (\<^verbatim>\<open>agent/agent/stat\<close>), \<open>Counters\<close> (meters and counter tasks), \<open>Data_Text\<close> (texts behind hashes),
    \<open>Zip_Batch\<close> (batches), \<open>Net_Session\<close> (session, sender, receiver, routing of packs).
  \<^item> Configuration: \<open>Config_Values\<close> (lookup), \<open>Config_Apply\<close> (every setting, and reloading), \<open>Config_File\<close> (writing back).

  How the code is represented. A struct is a record with its fields, a global variable a field of the state of its
  component, a pointer to shared data an address into a store (handles, agent contexts, arrays of the batch buffers, LLM
  summaries). Go integers are \<open>int\<close> with \<open>i32\<close> and \<open>i64\<close> at every operation that can wrap, or words where bits matter
  (\<open>Secure\<close>, \<open>Zip_Batch\<close>). A panic is the left part of \<open>go\<close>; an error that is returned is an option or a sum. Strings are
  lists of bytes. Time, random values, what a pool or a map of the runtime yields (the arguments \<open>pick\<close>, the iteration
  orders) and what the peer of a connection answers are arguments of the operation, so a theorem holds for all of them.
  Concurrent goroutines appear as arbitrary sequences of operations; data races inside one operation are not modelled.

  Code that is not under \<^verbatim>\<open>src/\<close> is a parameter: the library \<^verbatim>\<open>golib\<close> (hashes, linked maps, sets, packs, identifiers), the
  configuration file library, and the clients, drivers and frameworks that are wrapped. What is relied on is a named
  predicate (\<open>golib_laws\<close>, \<open>keys_apart\<close>, \<open>hset_laws\<close> and others beside the definitions that use them), and each theorem
  with such a hypothesis has a witness with concrete functions.

  Interfaces. \<open>step_sink\<close> is the contract of a profile collector (what a view of it holds after adding steps), met by all
  collectors; \<open>byte_handler\<close> that of a handler of the SQL automaton; \<open>keyed_mask\<close> and \<open>mask_pair\<close> those of the ciphers;
  \<open>keyed_stat_on\<close> and \<open>keyed_stat\<close> that of a statistic under keys, met by the statistics of services, statements, HTTP calls
  and LLM calls; \<open>url_cache\<close> that of a cached function, met by both URL detectors, the prefixes of contexts and the
  escaped statements; \<open>line_joiner\<close> that of the line buffer; \<open>batch_thread\<close> that of a batch thread; \<open>web_middleware\<close> that of a
  wrapper of requests, met by the standard wrapper and those of gin, echo, fasthttp and fiber; \<open>llm_stream\<close> that of a
  wrapped stream of an LLM client, met by the streams of go-openai, openai-go and Anthropic.

  What is shown.

  \<^item> Escaping a statement is its reference scanner, a string literal does not reach the statement that is sent, and the caches of
    statements and URLs are invisible until the configuration changes.
  \<^item> Transactions do not disturb each other: the handles and contexts of open transactions are distinct, and each is
    reported once with what was recorded in it; a web request is reported once also if its handler panics. The headers of
    an outgoing call give the callee its caller and the step of the call. A malformed trace id stops a request.
  \<^item> Calls are accounted in their transaction; a wrapped statement returns what the driver returns and is accounted once,
    unless the driver panics.
  \<^item> Collectors lose no step that their rule does not drop: the circular one keeps the newest, the large and the splitting
    one pass all on, the normal one is bounded.
  \<^item> Statistics, meters and counter packs add up to the transactions processed, and each is reported once.
  \<^item> Batches conserve and drain what is added; a pack whose sending broke the connection is sent again when the session is
    opened anew; frames and ciphers can be undone; a text behind a hash is not lost.
  \<^item> An LLM call is published once, whatever is called on it; a stream is reported with all its text however it ends, and the
    stream of eino is handed on unchanged; the summary of a transaction adds up its calls. A failed stream of openai-go and of
    Anthropic is reported as a success.
  \<^item> Lines appended to a followed file are sent once and in order; settings are within their limits and consistent whatever the
    file and the environment hold, and a write of settings leaves the other settings and the comments of the file.

  Loops. Recursion is structural or has a termination proof (among them the scanners \<open>esc\<close>, \<open>scan\<close> and \<open>skipLine\<close>, the loops
  of the buffers and ciphers, the readers of lines, and \<open>jsonBody\<close>). The splitting of LLM content need not end, so it is a
  partial function into options; it is proved to return on UTF-8 text and not to return on a text with
  20000 continuation bytes in a row. Loops that
  wait for events are not fuelled: they are folds over the list of what happens (\<open>pump\<close> of eino, the batch threads, the
  sender), and a list that is used up means that the loop still runs.

  Not modelled. What only reads the operating system or the Go runtime (system counters, goroutine dumps, pprof, /proc, the
  Kubernetes client, identifiers of goroutines), the log file of the agent, the start of goroutines and the timed loops that
  call the modelled tasks, the answers to commands of the server, compression itself, the unreachable remains of the UDP
  agent (most of \<^verbatim>\<open>agent/agent/trace/TraceContextManager.go\<close>), and the wrappers of databases and messaging clients, which call
  third-party code between the start and the end of a call (\<open>Call_User\<close>). Floating point is a type parameter with the
  operations used. Reading a pack after it was queued while the user still changes it is not modelled: a queue holds the
  pack as it was put.
\<close>

end
